(* ===== verification/Prelude.thy ===== *)
theory Prelude
  imports Main "HOL-Library.Char_ord" "HOL-Library.List_Lexorder" "HOL-Library.Product_Lexorder"
begin

text \<open>
  The shared library of the development.

  \<^item> The Rust \<^verbatim>\<open>Result<T, E>\<close> is \<open>'e + 'a\<close> (\<open>Inl\<close> is \<^verbatim>\<open>Err\<close>). An \<^verbatim>\<open>async fn\<close> that reads
    or writes shared state is a value of type \<open>('s, 'e, 'a) io\<close>: it maps the state to
    a result and the state it leaves. \<open>bindE\<close> is the question-mark operator, \<open>attempt\<close> a
    \<^verbatim>\<open>match\<close> on the result of an awaited call, \<open>map_err\<close> the method of that name.
  \<^item> \<open>keeps\<close> is the judgement that a state predicate is preserved, with its rules in
    \<open>keeps_rules\<close>; \<open>run_simps\<close> takes a run apart, \<open>io_defs\<close> unfolds the combinators.
  \<^item> A Rust \<^verbatim>\<open>String\<close> is a \<open>string\<close>, the list of its UTF-8 bytes: \<^verbatim>\<open>str::len\<close> is \<open>length\<close>,
    \<^verbatim>\<open>as_bytes\<close> is the identity and comparison is bytewise. \<open>utf8_chars\<close> decodes it, and
    \<open>valid_utf8\<close> is what \<^verbatim>\<open>String::from_utf8\<close> accepts.
  \<^item> Instants and durations (\<^verbatim>\<open>time::OffsetDateTime\<close>, \<^verbatim>\<open>time::Duration\<close>) are \<open>int\<close>s, in
    nanoseconds since the Unix epoch.
\<close>

named_theorems io_defs \<open>definitions of the state and error combinators\<close>
named_theorems run_simps \<open>what an outcome of a sequence says about its parts\<close>
named_theorems keeps_rules \<open>introduction rules for preservation of a state predicate\<close>

section \<open>Results and stateful computations\<close>

type_synonym ('s, 'e, 'a) io = "'s \<Rightarrow> ('e + 'a) \<times> 's"
type_synonym instant = int
type_synonym duration = int

definition ret :: "'a \<Rightarrow> ('s, 'e, 'a) io" where
  "ret x = (\<lambda>s. (Inr x, s))"

definition raise :: "'e \<Rightarrow> ('s, 'e, 'a) io" where
  "raise e = (\<lambda>s. (Inl e, s))"

definition bindE :: "('s, 'e, 'a) io \<Rightarrow> ('a \<Rightarrow> ('s, 'e, 'b) io) \<Rightarrow> ('s, 'e, 'b) io" where
  "bindE m f = (\<lambda>s. case m s of (Inl e, t) \<Rightarrow> (Inl e, t) | (Inr x, t) \<Rightarrow> f x t)"

definition attempt :: "('s, 'e, 'a) io \<Rightarrow> ('e + 'a \<Rightarrow> ('s, 'f, 'b) io) \<Rightarrow> ('s, 'f, 'b) io" where
  "attempt m k = (\<lambda>s. case m s of (r, t) \<Rightarrow> k r t)"

definition map_err :: "('e \<Rightarrow> 'f) \<Rightarrow> ('s, 'e, 'a) io \<Rightarrow> ('s, 'f, 'a) io" where
  "map_err h m = (\<lambda>s. case m s of (Inl e, t) \<Rightarrow> (Inl (h e), t) | (Inr x, t) \<Rightarrow> (Inr x, t))"

definition lift_result :: "'e + 'a \<Rightarrow> ('s, 'e, 'a) io" where
  "lift_result r = (\<lambda>s. (r, s))"

definition gets :: "('s \<Rightarrow> 'a) \<Rightarrow> ('s, 'e, 'a) io" where
  "gets g = (\<lambda>s. (Inr (g s), s))"

definition modify :: "('s \<Rightarrow> 's) \<Rightarrow> ('s, 'e, unit) io" where
  "modify h = (\<lambda>s. (Inr (), h s))"

definition ok_or :: "'e \<Rightarrow> 'a option \<Rightarrow> 'e + 'a" where
  "ok_or e x = (case x of None \<Rightarrow> Inl e | Some y \<Rightarrow> Inr y)"

definition guard_err :: "bool \<Rightarrow> 'e \<Rightarrow> ('s, 'e, unit) io" where
  "guard_err b e = (if b then raise e else ret ())"

lemmas [io_defs] = ret_def raise_def bindE_def attempt_def map_err_def lift_result_def
  gets_def modify_def guard_err_def

lemma bindE_ret [simp]: "bindE (ret x) f = f x"
  by (simp add: io_defs)

lemma bindE_raise [simp]: "bindE (raise e) f = raise e"
  by (simp add: io_defs)

lemma bindE_ret_right [simp]: "bindE m ret = m"
  by (rule ext) (simp add: io_defs split: prod.splits sum.splits)

lemma bindE_assoc: "bindE (bindE m f) g = bindE m (\<lambda>x. bindE (f x) g)"
  by (rule ext) (simp add: io_defs split: prod.splits sum.splits)

lemma attempt_ret [simp]: "attempt (ret x) k = k (Inr x)"
  by (simp add: io_defs)

lemma attempt_raise [simp]: "attempt (raise e) k = k (Inl e)"
  by (simp add: io_defs)

lemma ok_or_Inr [simp]: "ok_or e x = Inr y \<longleftrightarrow> x = Some y"
  by (simp add: ok_or_def split: option.splits)

lemma ok_or_Inl [simp]: "ok_or e x = Inl d \<longleftrightarrow> x = None \<and> d = e"
  by (auto simp: ok_or_def split: option.splits)

lemma ok_or_sym [simp]:
  "Inr y = ok_or e x \<longleftrightarrow> x = Some y" "Inl d = ok_or e x \<longleftrightarrow> x = None \<and> d = e"
  by (auto simp: ok_or_def split: option.splits)

text \<open>What a successful run of a sequence says about its parts.\<close>

lemma bindE_InrE:
  assumes "bindE m f s = (Inr y, u)"
  obtains x t where "m s = (Inr x, t)" and "f x t = (Inr y, u)"
  using assms by (auto simp: bindE_def split: prod.splits sum.splits)

lemma bindE_InlE:
  assumes "bindE m f s = (Inl e, u)"
  obtains "m s = (Inl e, u)" | x t where "m s = (Inr x, t)" and "f x t = (Inl e, u)"
  using assms by (auto simp: bindE_def split: prod.splits sum.splits)

lemma bindE_Inr [run_simps]:
  "bindE m f s = (Inr y, u) \<longleftrightarrow> (\<exists>x t. m s = (Inr x, t) \<and> f x t = (Inr y, u))"
  by (auto simp: bindE_def split: prod.splits sum.splits)

lemma attempt_eq: "attempt m k s = (y, u) \<longleftrightarrow> (\<exists>r t. m s = (r, t) \<and> k r t = (y, u))"
  by (auto simp: attempt_def split: prod.splits)

lemma attempt_case [run_simps]:
  "attempt m (\<lambda>r. case r of Inl e \<Rightarrow> f e | Inr x \<Rightarrow> g x) s = (y, u) \<longleftrightarrow>
     (\<exists>e t. m s = (Inl e, t) \<and> f e t = (y, u)) \<or> (\<exists>x t. m s = (Inr x, t) \<and> g x t = (y, u))"
  by (auto simp: attempt_def split: prod.splits sum.splits)

lemma attempt_any [run_simps]:
  "attempt m (\<lambda>_. k) s = (y, u) \<longleftrightarrow> (\<exists>r t. m s = (r, t) \<and> k t = (y, u))"
  by (auto simp: attempt_def split: prod.splits)

lemma map_err_Inr [run_simps]: "map_err h m s = (Inr x, t) \<longleftrightarrow> m s = (Inr x, t)"
  by (auto simp: map_err_def split: prod.splits sum.splits)

lemma map_err_Inl [run_simps]: "map_err h m s = (Inl e, t) \<longleftrightarrow> (\<exists>d. m s = (Inl d, t) \<and> e = h d)"
  by (auto simp: map_err_def split: prod.splits sum.splits)

lemma ret_eq [run_simps]: "ret x s = (r, t) \<longleftrightarrow> r = Inr x \<and> t = s"
  by (auto simp: ret_def)

lemma raise_eq [run_simps]: "raise e s = (r, t) \<longleftrightarrow> r = Inl e \<and> t = s"
  by (auto simp: raise_def)

lemma lift_result_eq [run_simps]: "lift_result x s = (r, t) \<longleftrightarrow> x = r \<and> t = s"
  by (auto simp: lift_result_def)

lemma gets_eq [run_simps]: "gets g s = (r, t) \<longleftrightarrow> r = Inr (g s) \<and> t = s"
  by (auto simp: gets_def)

lemma modify_eq [run_simps]: "modify h s = (r, t) \<longleftrightarrow> r = Inr () \<and> t = h s"
  by (auto simp: modify_def)

lemma guard_err_Inr [run_simps]: "guard_err b e s = (Inr u, t) \<longleftrightarrow> \<not> b \<and> t = s"
  by (auto simp: guard_err_def ret_def raise_def)

subsection \<open>Preservation of a state predicate\<close>

definition keeps :: "('s \<Rightarrow> bool) \<Rightarrow> ('s, 'e, 'a) io \<Rightarrow> bool" where
  "keeps I m \<longleftrightarrow> (\<forall>s. I s \<longrightarrow> I (snd (m s)))"

lemma keepsI: "(\<And>s r t. I s \<Longrightarrow> m s = (r, t) \<Longrightarrow> I t) \<Longrightarrow> keeps I m"
  unfolding keeps_def by (metis prod.collapse)

lemma keepsD: "keeps I m \<Longrightarrow> I s \<Longrightarrow> m s = (r, t) \<Longrightarrow> I t"
  unfolding keeps_def by (metis snd_conv)

lemma keepsD_snd: "keeps I m \<Longrightarrow> I s \<Longrightarrow> I (snd (m s))"
  by (simp add: keeps_def)

lemma keeps_ret [keeps_rules]: "keeps I (ret x)"
  by (simp add: keeps_def ret_def)

lemma keeps_raise [keeps_rules]: "keeps I (raise e)"
  by (simp add: keeps_def raise_def)

lemma keeps_gets [keeps_rules]: "keeps I (gets g)"
  by (simp add: keeps_def gets_def)

lemma keeps_lift_result [keeps_rules]: "keeps I (lift_result r)"
  by (simp add: keeps_def lift_result_def)

lemma keeps_guard_err [keeps_rules]: "keeps I (guard_err b e)"
  by (simp add: keeps_def io_defs)

lemma keeps_bindE [keeps_rules]:
  "keeps I m \<Longrightarrow> (\<And>x. keeps I (f x)) \<Longrightarrow> keeps I (bindE m f)"
  by (fastforce simp: keeps_def bindE_def split: prod.splits sum.splits)

lemma keeps_attempt [keeps_rules]:
  "keeps I m \<Longrightarrow> (\<And>r. keeps I (k r)) \<Longrightarrow> keeps I (attempt m k)"
  by (fastforce simp: keeps_def attempt_def split: prod.splits)

lemma keeps_map_err [keeps_rules]: "keeps I m \<Longrightarrow> keeps I (map_err h m)"
  by (fastforce simp: keeps_def map_err_def split: prod.splits sum.splits)

lemma keeps_If [keeps_rules]:
  "(b \<Longrightarrow> keeps I m) \<Longrightarrow> (\<not> b \<Longrightarrow> keeps I n) \<Longrightarrow> keeps I (if b then m else n)"
  by simp

lemma keeps_case_option [keeps_rules]:
  "(x = None \<Longrightarrow> keeps I m) \<Longrightarrow> (\<And>y. x = Some y \<Longrightarrow> keeps I (f y))
   \<Longrightarrow> keeps I (case x of None \<Rightarrow> m | Some y \<Rightarrow> f y)"
  by (cases x) auto

lemma keeps_case_sum [keeps_rules]:
  "(\<And>e. r = Inl e \<Longrightarrow> keeps I (f e)) \<Longrightarrow> (\<And>y. r = Inr y \<Longrightarrow> keeps I (g y))
   \<Longrightarrow> keeps I (case r of Inl e \<Rightarrow> f e | Inr y \<Rightarrow> g y)"
  by (cases r) auto

lemma keeps_case_prod [keeps_rules]:
  "(\<And>a b. p = (a, b) \<Longrightarrow> keeps I (f a b)) \<Longrightarrow> keeps I (case p of (a, b) \<Rightarrow> f a b)"
  by (cases p) auto

text \<open>A call whose failure is only logged.\<close>

definition best_effort :: "('s, 'f, 'a) io \<Rightarrow> ('s, 'e, unit) io" where
  "best_effort m = attempt m (\<lambda>_. ret ())"

lemma keeps_best_effort [keeps_rules]: "keeps I m \<Longrightarrow> keeps I (best_effort m)"
  unfolding best_effort_def by (intro keeps_rules)

lemma keeps_bindE_post:
  assumes "keeps I m" and "\<And>s x t. I s \<Longrightarrow> m s = (Inr x, t) \<Longrightarrow> Q x t"
    and "\<And>x. keeps (\<lambda>s. I s \<and> Q x s) (f x)"
  shows "keeps I (bindE m f)"
proof (rule keepsI)
  fix s r t
  assume I: "I s" and run: "bindE m f s = (r, t)"
  obtain y u where m: "m s = (y, u)" by fastforce
  then have "I u" using keepsD [OF assms(1) I] by simp
  show "I t"
  proof (cases y)
    case (Inl e)
    then show ?thesis using run m \<open>I u\<close> by (simp add: bindE_def)
  next
    case (Inr x)
    then have "f x u = (r, t)" and "Q x u" using run m assms(2) [OF I] by (simp_all add: bindE_def)
    then show ?thesis using keepsD [OF assms(3), of u x r t] \<open>I u\<close> by simp
  qed
qed

lemma keeps_conj: "keeps I m \<Longrightarrow> keeps J m \<Longrightarrow> keeps (\<lambda>s. I s \<and> J s) m"
  by (simp add: keeps_def)

lemma keeps_weaken: "keeps (\<lambda>w. I w \<and> J w) m \<Longrightarrow> (\<And>w. I w \<Longrightarrow> J w) \<Longrightarrow> keeps I m"
  by (auto simp: keeps_def)

text \<open>A computation that leaves the state as it found it.\<close>

definition pure_io :: "('s, 'e, 'a) io \<Rightarrow> bool" where
  "pure_io m \<longleftrightarrow> (\<forall>s. snd (m s) = s)"

lemma pure_io_keeps: "pure_io m \<Longrightarrow> keeps I m"
  by (simp add: pure_io_def keeps_def)

section \<open>Strings\<close>

fun split_once :: "char \<Rightarrow> string \<Rightarrow> (string \<times> string) option" where
  "split_once c [] = None"
| "split_once c (x # xs) =
     (if x = c then Some ([], xs)
      else map_option (\<lambda>(a, b). (x # a, b)) (split_once c xs))"

fun split_on :: "char \<Rightarrow> string \<Rightarrow> string list" where
  "split_on c [] = [[]]"
| "split_on c (x # xs) =
     (if x = c then [] # split_on c xs
      else (case split_on c xs of [] \<Rightarrow> [[x]] | w # ws \<Rightarrow> (x # w) # ws))"

fun join_with :: "string \<Rightarrow> string list \<Rightarrow> string" where
  "join_with sep [] = []"
| "join_with sep [w] = w"
| "join_with sep (w # ws) = w @ sep @ join_with sep ws"

definition starts_with :: "string \<Rightarrow> string \<Rightarrow> bool" where
  "starts_with s p \<longleftrightarrow> take (length p) s = p"

definition ends_with :: "string \<Rightarrow> string \<Rightarrow> bool" where
  "ends_with s p \<longleftrightarrow> starts_with (rev s) (rev p)"

definition code_point :: "char \<Rightarrow> nat" where
  "code_point c = of_char c"

text \<open>
  UTF-8 decoding, the well-formed byte sequences of the Unicode standard: no overlong
  forms, no surrogates, nothing above U+10FFFF.
\<close>

definition continuation :: "nat \<Rightarrow> bool" where
  "continuation b \<longleftrightarrow> 128 \<le> b \<and> b < 192"

fun utf8_decode :: "nat list \<Rightarrow> nat list option" where
  "utf8_decode [] = Some []"
| "utf8_decode (a # rest) =
     (if a < 128 then map_option ((#) a) (utf8_decode rest)
      else case rest of
        [] \<Rightarrow> None
      | b # rest1 \<Rightarrow>
          if 194 \<le> a \<and> a < 224 \<and> continuation b
          then map_option ((#) ((a - 192) * 64 + (b - 128))) (utf8_decode rest1)
          else case rest1 of
            [] \<Rightarrow> None
          | c # rest2 \<Rightarrow>
              if 224 \<le> a \<and> a < 240 \<and> continuation b \<and> continuation c
                \<and> (a = 224 \<longrightarrow> 160 \<le> b) \<and> (a = 237 \<longrightarrow> b < 160)
              then map_option ((#) ((a - 224) * 4096 + (b - 128) * 64 + (c - 128))) (utf8_decode rest2)
              else case rest2 of
                [] \<Rightarrow> None
              | d # rest3 \<Rightarrow>
                  if 240 \<le> a \<and> a < 245 \<and> continuation b \<and> continuation c \<and> continuation d
                    \<and> (a = 240 \<longrightarrow> 144 \<le> b) \<and> (a = 244 \<longrightarrow> b < 144)
                  then map_option ((#) ((a - 240) * 262144 + (b - 128) * 4096 + (c - 128) * 64 + (d - 128)))
                    (utf8_decode rest3)
                  else None)"

definition utf8_chars :: "string \<Rightarrow> nat list option" where
  "utf8_chars s = utf8_decode (map code_point s)"

definition valid_utf8 :: "string \<Rightarrow> bool" where
  "valid_utf8 s \<longleftrightarrow> utf8_chars s \<noteq> None"

text \<open>\<^verbatim>\<open>char::is_whitespace\<close>: the code points with the property \<^verbatim>\<open>White_Space\<close>.\<close>

definition is_whitespace :: "nat \<Rightarrow> bool" where
  "is_whitespace c \<longleftrightarrow> (9 \<le> c \<and> c \<le> 13) \<or> c = 32 \<or> c = 133 \<or> c = 160 \<or> c = 5760
     \<or> (8192 \<le> c \<and> c \<le> 8202) \<or> c = 8232 \<or> c = 8233 \<or> c = 8239 \<or> c = 8287 \<or> c = 12288"

text \<open>For evaluation: the literals as integers.\<close>

lemma is_whitespace_code [code]:
  "is_whitespace c \<longleftrightarrow> (let i = int c in (9 \<le> i \<and> i \<le> 13) \<or> i = 32 \<or> i = 133 \<or> i = 160 \<or> i = 5760
     \<or> (8192 \<le> i \<and> i \<le> 8202) \<or> i = 8232 \<or> i = 8233 \<or> i = 8239 \<or> i = 8287 \<or> i = 12288)"
  by (auto simp: is_whitespace_def Let_def)

definition has_whitespace :: "string \<Rightarrow> bool" where
  "has_whitespace s \<longleftrightarrow> (case utf8_chars s of None \<Rightarrow> False | Some cs \<Rightarrow> list_ex is_whitespace cs)"

definition is_ascii :: "string \<Rightarrow> bool" where
  "is_ascii s \<longleftrightarrow> (\<forall>c \<in> set s. code_point c < 128)"

text \<open>\<^verbatim>\<open>str::trim\<close> on ASCII text, which every header value that \<^verbatim>\<open>to_str\<close> accepts is.\<close>

definition trim :: "string \<Rightarrow> string" where
  "trim s = rev (dropWhile (\<lambda>c. is_whitespace (code_point c))
     (rev (dropWhile (\<lambda>c. is_whitespace (code_point c)) s)))"

text \<open>\<^verbatim>\<open>str::split_whitespace\<close>: the length of the whitespace character that a text starts with, and the words.\<close>

definition ws_len :: "string \<Rightarrow> nat" where
  "ws_len s =
     (case map code_point (take 3 s) of
        [] \<Rightarrow> 0
      | a # rest \<Rightarrow>
          if (9 \<le> a \<and> a \<le> 13) \<or> a = 32 then 1
          else case rest of
            [] \<Rightarrow> 0
          | b # rest \<Rightarrow>
              if a = 194 \<and> (b = 133 \<or> b = 160) then 2
              else case rest of
                [] \<Rightarrow> 0
              | c # _ \<Rightarrow>
                  if (a, b, c) \<in> {(225, 154, 128), (226, 128, 168), (226, 128, 169), (226, 128, 175), (226, 129, 159), (227, 128, 128)}
                     \<or> (a = 226 \<and> b = 128 \<and> 128 \<le> c \<and> c \<le> 138)
                  then 3 else 0)"

fun split_ws_from :: "string \<Rightarrow> string \<Rightarrow> string list" where
  "split_ws_from acc [] = (if acc = [] then [] else [rev acc])"
| "split_ws_from acc (c # cs) =
     (let n = ws_len (c # cs)
      in if n = 0 then split_ws_from (c # acc) cs
         else (if acc = [] then [] else [rev acc]) @ split_ws_from [] (drop (n - 1) cs))"

definition split_whitespace :: "string \<Rightarrow> string list" where
  "split_whitespace s = split_ws_from [] s"

definition ascii_lower :: "char \<Rightarrow> char" where
  "ascii_lower c = (if 65 \<le> code_point c \<and> code_point c \<le> 90 then char_of (code_point c + 32) else c)"

definition to_ascii_lowercase :: "string \<Rightarrow> string" where
  "to_ascii_lowercase s = map ascii_lower s"

definition eq_ignore_ascii_case :: "string \<Rightarrow> string \<Rightarrow> bool" where
  "eq_ignore_ascii_case a b \<longleftrightarrow> to_ascii_lowercase a = to_ascii_lowercase b"

lemma split_once_Some: "split_once c s = Some (a, b) \<Longrightarrow> s = a @ c # b \<and> c \<notin> set a"
proof (induction s arbitrary: a b)
  case Nil
  then show ?case by simp
next
  case (Cons x xs)
  then show ?case by (cases "x = c") auto
qed

lemma split_once_append [simp]: "c \<notin> set a \<Longrightarrow> split_once c (a @ c # b) = Some (a, b)"
  by (induction a) auto

lemma split_once_None: "split_once c s = None \<longleftrightarrow> c \<notin> set s"
  by (induction s) auto

lemma split_on_nonempty [simp]: "split_on c s \<noteq> []"
  by (induction s) (auto split: list.splits)

lemma split_on_no_sep: "c \<notin> set s \<Longrightarrow> split_on c s = [s]"
  by (induction s) auto

lemma split_on_append:
  "c \<notin> set w \<Longrightarrow> split_on c (w @ c # s) = w # split_on c s"
  by (induction w) auto

lemma split_on_join:
  assumes "ws \<noteq> []" and "\<forall>w \<in> set ws. c \<notin> set w"
  shows "split_on c (join_with [c] ws) = ws"
  using assms
proof (induction "[c]" ws rule: join_with.induct)
  case 1
  then show ?case by simp
next
  case (2 w)
  then show ?case by (simp add: split_on_no_sep)
next
  case (3 w v vs)
  then show ?case by (simp add: split_on_append)
qed

lemma join_split_on: "join_with [c] (split_on c s) = s"
proof (induction s)
  case Nil
  then show ?case by simp
next
  case (Cons x xs)
  obtain w ws where "split_on c xs = w # ws"
    by (cases "split_on c xs") auto
  with Cons show ?case by (cases ws) auto
qed

lemma split_on_sep_free: "w \<in> set (split_on c s) \<Longrightarrow> c \<notin> set w"
proof (induction s arbitrary: w)
  case Nil
  then show ?case by simp
next
  case (Cons x xs)
  then show ?case by (cases "split_on c xs") (auto split: if_splits)
qed

lemma ascii_valid_utf8: "is_ascii s \<Longrightarrow> utf8_chars s = Some (map code_point s)"
  by (induction s) (auto simp: is_ascii_def utf8_chars_def)

lemma ascii_is_valid: "is_ascii s \<Longrightarrow> valid_utf8 s"
  by (simp add: valid_utf8_def ascii_valid_utf8)

lemma utf8_decode_append_ascii:
  "\<forall>c \<in> set xs. c < 128 \<Longrightarrow> utf8_decode (xs @ ys) = map_option ((@) xs) (utf8_decode ys)"
  by (induction xs) (cases "utf8_decode ys"; simp)+

lemma valid_utf8_append_ascii: "is_ascii s \<Longrightarrow> valid_utf8 (s @ t) = valid_utf8 t"
  unfolding valid_utf8_def utf8_chars_def
  by (simp add: is_ascii_def utf8_decode_append_ascii)

lemma starts_with_append [simp]: "starts_with (p @ s) p"
  by (simp add: starts_with_def)

lemma starts_with_iff: "starts_with s p \<longleftrightarrow> (\<exists>t. s = p @ t)"
  by (metis append_take_drop_id starts_with_append starts_with_def)

section \<open>Durations\<close>

definition nanos_per_second :: int where
  "nanos_per_second = 1000000000"

text \<open>\<^verbatim>\<open>Duration::whole_seconds\<close> truncates towards zero.\<close>

definition whole_seconds :: "duration \<Rightarrow> int" where
  "whole_seconds d = (if d < 0 then - ((- d) div nanos_per_second) else d div nanos_per_second)"

text \<open>\<^verbatim>\<open>OffsetDateTime::unix_timestamp\<close> rounds towards minus infinity.\<close>

definition unix_timestamp :: "instant \<Rightarrow> int" where
  "unix_timestamp t = t div nanos_per_second"

lemma whole_seconds_mono: "0 \<le> d \<Longrightarrow> d \<le> e \<Longrightarrow> whole_seconds d \<le> whole_seconds e"
  by (simp add: whole_seconds_def nanos_per_second_def zdiv_mono1)

lemma whole_seconds_le: "0 \<le> d \<Longrightarrow> whole_seconds d * nanos_per_second \<le> d"
  by (simp add: whole_seconds_def nanos_per_second_def)

section \<open>Lists\<close>

lemma find_Some_iff_unique:
  assumes "\<exists>!x. x \<in> set xs \<and> P x"
  shows "find P xs = Some x \<longleftrightarrow> x \<in> set xs \<and> P x"
  using assms by (metis find_None_iff find_Some_iff nth_mem option.exhaust option.inject)

lemma find_SomeD: "find P xs = Some x \<Longrightarrow> x \<in> set xs \<and> P x"
  by (metis find_Some_iff nth_mem)

lemma find_NoneD: "find P xs = None \<Longrightarrow> x \<in> set xs \<Longrightarrow> \<not> P x"
  by (metis find_None_iff)

lemma find_append_miss: "find P xs = None \<Longrightarrow> find P (xs @ ys) = find P ys"
  by (induction xs) (auto split: if_splits)

lemma find_append_hit: "find P xs = Some x \<Longrightarrow> find P (xs @ ys) = Some x"
  by (induction xs) (auto split: if_splits)

lemma image_update_one:
  assumes "r \<in> A" and "P r" and "\<And>x. x \<in> A \<Longrightarrow> P x \<Longrightarrow> x = r"
  shows "(\<lambda>x. if P x then f x else x) ` A = insert (f r) (A - {r})"
proof -
  define g where "g = (\<lambda>x. if P x then f x else x)"
  have gr: "g r = f r" using assms(2) by (simp add: g_def)
  have "g ` A = g ` insert r (A - {r})" by (simp only: insert_Diff [OF assms(1)])
  also have "\<dots> = insert (f r) (g ` (A - {r}))" by (simp only: image_insert gr)
  also have "g ` (A - {r}) = id ` (A - {r})"
    by (rule image_cong) (use assms(3) in \<open>auto simp: g_def\<close>)
  finally show ?thesis by (simp add: g_def)
qed

lemma find_map_conv: "find P (map f xs) = map_option f (find (P \<circ> f) xs)"
  by (induction xs) auto

text \<open>Tables are row lists; a key column is one on which rows are told apart.\<close>

definition key_unique :: "('r \<Rightarrow> 'k) \<Rightarrow> 'r list \<Rightarrow> bool" where
  "key_unique key rows \<longleftrightarrow> distinct (map key rows)"

lemma key_uniqueD:
  "key_unique key rows \<Longrightarrow> r \<in> set rows \<Longrightarrow> r' \<in> set rows \<Longrightarrow> key r = key r' \<Longrightarrow> r = r'"
  by (auto simp: key_unique_def distinct_map inj_on_def)

lemma key_unique_append:
  "key_unique key (rows @ [r]) \<longleftrightarrow> key_unique key rows \<and> key r \<notin> key ` set rows"
  by (auto simp: key_unique_def)

lemma key_unique_filter: "key_unique key rows \<Longrightarrow> key_unique key (filter P rows)"
  by (simp add: key_unique_def distinct_map_filter)

lemma key_unique_map:
  "(\<And>r. key (f r) = key r) \<Longrightarrow> key_unique key (map f rows) = key_unique key rows"
  by (simp add: key_unique_def comp_def)

lemma key_image_map: "(\<And>r. key (f r) = key r) \<Longrightarrow> key ` set (map f rows) = key ` set rows"
  by (simp add: image_image)

lemma find_key_unique:
  assumes "key_unique key rows" and "r \<in> set rows" and "\<And>x. P x \<Longrightarrow> key x = key r" and "P r"
  shows "find P rows = Some r"
proof -
  have "find P rows \<noteq> None"
    using assms(2,4) by (auto simp: find_None_iff)
  then obtain x where x: "find P rows = Some x" by auto
  with find_SomeD have "x \<in> set rows" and "P x" by fastforce+
  then have "x = r" using assms by (metis key_uniqueD)
  with x show ?thesis by simp
qed

section \<open>Decimal integers\<close>

text \<open>\<^verbatim>\<open>format!("{}", n)\<close> and \<^verbatim>\<open>str::parse\<close> for the signed integers.\<close>

fun digits_of :: "nat \<Rightarrow> string" where
  "digits_of n = (if n < 10 then [char_of (n + 48)] else digits_of (n div 10) @ [char_of (n mod 10 + 48)])"

declare digits_of.simps [simp del]

definition show_int :: "int \<Rightarrow> string" where
  "show_int n = (if n < 0 then ''-'' @ digits_of (nat (- n)) else digits_of (nat n))"

definition is_digit :: "char \<Rightarrow> bool" where
  "is_digit c \<longleftrightarrow> 48 \<le> code_point c \<and> code_point c \<le> 57"

definition digits_value :: "string \<Rightarrow> nat" where
  "digits_value s = foldl (\<lambda>a c. a * 10 + (code_point c - 48)) 0 s"

definition parse_nat :: "string \<Rightarrow> nat option" where
  "parse_nat s = (if s \<noteq> [] \<and> (\<forall>c \<in> set s. is_digit c) then Some (digits_value s) else None)"

definition parse_int :: "int \<Rightarrow> int \<Rightarrow> string \<Rightarrow> int option" where
  "parse_int lo hi s =
     (let v = (case s of
                 [] \<Rightarrow> None
               | c # ds \<Rightarrow>
                   if c = CHR ''-'' then map_option (\<lambda>n. - int n) (parse_nat ds)
                   else if c = CHR ''+'' then map_option int (parse_nat ds)
                   else map_option int (parse_nat s))
      in case v of None \<Rightarrow> None | Some n \<Rightarrow> if lo \<le> n \<and> n \<le> hi then Some n else None)"

lemma digit_char:
  assumes "d < 10"
  shows "code_point (char_of (d + 48)) = d + 48" and "is_digit (char_of (d + 48))"
  using assms by (auto simp: code_point_def is_digit_def of_char_of)

lemma digits_of_digits: "c \<in> set (digits_of n) \<Longrightarrow> is_digit c"
proof (induction n rule: digits_of.induct)
  case (1 n)
  then show ?case
    by (cases "n < 10") (auto simp: digits_of.simps [of n] digit_char)
qed

lemma digits_of_nonempty [simp]: "digits_of n \<noteq> []"
  by (simp add: digits_of.simps [of n])

lemma digits_value_of: "digits_value (digits_of n) = n"
proof (induction n rule: digits_of.induct)
  case (1 n)
  then show ?case
    by (cases "n < 10")
       (simp_all add: digits_of.simps [of n] digits_value_def digit_char)
qed

lemma parse_nat_digits_of [simp]: "parse_nat (digits_of n) = Some n"
  using digits_of_digits by (auto simp: parse_nat_def digits_value_of)

lemma parse_show_int:
  assumes "lo \<le> n" and "n \<le> hi"
  shows "parse_int lo hi (show_int n) = Some n"
proof -
  obtain c ds where d: "digits_of (nat n) = c # ds" by (cases "digits_of (nat n)") auto
  then have "is_digit c" using digits_of_digits [of c "nat n"] by simp
  then have "c \<noteq> CHR ''-''" and "c \<noteq> CHR ''+''" by (auto simp: is_digit_def code_point_def)
  with assms d parse_nat_digits_of [of "nat n"] show ?thesis
    by (auto simp: parse_int_def show_int_def)
qed

lemma show_int_ascii: "is_ascii (show_int n)"
  using digits_of_digits by (fastforce simp: is_ascii_def show_int_def is_digit_def code_point_def)

lemma show_int_no_sep:
  assumes "\<not> is_digit c" and "c \<noteq> CHR ''-''"
  shows "c \<notin> set (show_int n)"
  using assms digits_of_digits by (auto simp: show_int_def)

end
