(* ===== verification/Database.thy ===== *)
theory Database
  imports Prelude
begin

text \<open>
  The data layer shared by the stores of \<^verbatim>\<open>crates/sso-gateway/src/db\<close>: JSON values
  (\<^verbatim>\<open>serde_json::Value\<close>), the error types and their conversion, the row types, the
  Postgres database as a record of tables, and the round trip to it.

  A SQL statement is a function of the transaction time (\<^verbatim>\<open>NOW()\<close>) and the database; a
  constraint of the schema under \<^verbatim>\<open>migrations/\<close> that it would break makes it fail and
  leave the database as it was. \<open>pg_exec\<close> sends one statement: the environment may lose
  the request or the reply (\<open>fault\<close>), and in both cases the caller sees a \<open>Sqlx\<close> error,
  in the second one after the statement took effect. \<open>pg_query\<close> sends a \<^verbatim>\<open>SELECT\<close>.
\<close>

named_theorems db_defs \<open>definitions of statements and row updates\<close>
named_theorems stmt_rules \<open>preservation of a database predicate by a statement\<close>

section \<open>JSON values\<close>

datatype json =
    JNull
  | JBool bool
  | JInt int
  | JFloat string
  | JStr string
  | JArr "json list"
  | JObj "(string \<times> json) list"

fun json_get :: "json \<Rightarrow> string \<Rightarrow> json option" where
  "json_get (JObj fields) k = map_of fields k"
| "json_get _ k = None"

text \<open>\<^verbatim>\<open>value["key"]\<close> is \<^verbatim>\<open>Null\<close> where the key is missing.\<close>

definition json_index :: "json \<Rightarrow> string \<Rightarrow> json" where
  "json_index v k = (case json_get v k of None \<Rightarrow> JNull | Some x \<Rightarrow> x)"

fun as_str :: "json \<Rightarrow> string option" where
  "as_str (JStr s) = Some s"
| "as_str _ = None"

fun as_bool :: "json \<Rightarrow> bool option" where
  "as_bool (JBool b) = Some b"
| "as_bool _ = None"

fun as_i64 :: "json \<Rightarrow> int option" where
  "as_i64 (JInt n) = (if - (2 ^ 63) \<le> n \<and> n < 2 ^ 63 then Some n else None)"
| "as_i64 _ = None"

fun as_array :: "json \<Rightarrow> json list option" where
  "as_array (JArr xs) = Some xs"
| "as_array _ = None"

text \<open>\<^verbatim>\<open>value["key"] = v\<close> on an object.\<close>

fun json_set :: "json \<Rightarrow> string \<Rightarrow> json \<Rightarrow> json" where
  "json_set (JObj fields) k v = JObj ((k, v) # filter (\<lambda>(k', _). k' \<noteq> k) fields)"
| "json_set other k v = (if other = JNull then JObj [(k, v)] else other)"

lemma json_get_set_same: "json_get (json_set (JObj fs) k v) k = Some v"
  by simp

lemma json_get_set_other: "k' \<noteq> k \<Longrightarrow> json_get (json_set (JObj fs) k v) k' = json_get (JObj fs) k'"
  by (induction fs) auto

section \<open>Errors\<close>

datatype db_error =
    Sqlx string
  | MissingSystemTenant
  | TenantNotFound
  | MappingNotFound
  | SchemaNotFound
  | MembershipNotFound
  | TupleNotFound
  | SamlProviderNotFound
  | SamlRequestNotFound
  | SamlRequestReplay
  | SamlIdentityMappingNotFound
  | SamlNameIdMappingNotFound
  | EncryptionKeyMissing
  | SamlIdpKeyNotFound
  | SamlSpClientNotFound
  | ApiKeyNotFound
  | ConnectionNotFound
  | LocalAuthNotFound
  | DomainNotFound
  | DomainNotVerified
  | LoginStateNotFound
  | InvalidConnectionType string
  | InvalidLocalAuthMethod string
  | NamespaceTypeConflict string
  | AgentNotFound
  | AgentDelegationNotFound
  | ApplicationNotFound

text \<open>
  \<^verbatim>\<open>sunbeam_g2v::error::ServiceError\<close>, the variants the gateway constructs. \<open>SE_Panicked\<close> is
  no variant: it stands for a request whose task panics.
\<close>

datatype service_error =
    SE_Database string
  | SE_Internal string
  | SE_NotFound string
  | SE_InvalidArgument string
  | SE_Configuration string
  | SE_Unauthenticated string
  | SE_PermissionDenied string
  | SE_AlreadyExists string
  | SE_Unavailable string
  | SE_Serialization string
  | SE_FailedPrecondition string
  | SE_Unimplemented string
  | SE_Panicked string

fun service_error_of_db :: "db_error \<Rightarrow> service_error" where
  "service_error_of_db (Sqlx e) = SE_Database e"
| "service_error_of_db MissingSystemTenant = SE_Internal ''missing system tenant''"
| "service_error_of_db TenantNotFound = SE_NotFound ''tenant not found''"
| "service_error_of_db MappingNotFound = SE_NotFound ''id mapping not found''"
| "service_error_of_db SchemaNotFound = SE_NotFound ''identity schema not found''"
| "service_error_of_db MembershipNotFound = SE_NotFound ''tenant membership not found''"
| "service_error_of_db TupleNotFound = SE_NotFound ''permission tuple not found''"
| "service_error_of_db SamlProviderNotFound = SE_NotFound ''saml provider not found''"
| "service_error_of_db SamlRequestNotFound = SE_NotFound ''saml request not found''"
| "service_error_of_db SamlRequestReplay = SE_InvalidArgument ''saml request replay detected''"
| "service_error_of_db SamlIdentityMappingNotFound = SE_NotFound ''saml identity mapping not found''"
| "service_error_of_db SamlNameIdMappingNotFound = SE_NotFound ''saml nameid mapping not found''"
| "service_error_of_db EncryptionKeyMissing = SE_Configuration ''encryption key missing or invalid''"
| "service_error_of_db SamlIdpKeyNotFound = SE_NotFound ''saml idp key not found''"
| "service_error_of_db SamlSpClientNotFound = SE_NotFound ''saml service provider client not found''"
| "service_error_of_db ApiKeyNotFound = SE_Unauthenticated ''api key not found or expired''"
| "service_error_of_db ConnectionNotFound = SE_NotFound ''connection not found''"
| "service_error_of_db LocalAuthNotFound = SE_NotFound ''local auth method not found''"
| "service_error_of_db DomainNotFound = SE_NotFound ''domain not found''"
| "service_error_of_db DomainNotVerified = SE_NotFound ''domain not verified''"
| "service_error_of_db LoginStateNotFound = SE_NotFound ''login state not found or expired''"
| "service_error_of_db (InvalidConnectionType s) = SE_InvalidArgument (''invalid connection type: '' @ s)"
| "service_error_of_db (InvalidLocalAuthMethod s) = SE_InvalidArgument (''invalid local auth method: '' @ s)"
| "service_error_of_db (NamespaceTypeConflict s) =
     SE_AlreadyExists (''permission namespace type already registered: '' @ s)"
| "service_error_of_db AgentNotFound = SE_NotFound ''agent not found''"
| "service_error_of_db AgentDelegationNotFound = SE_NotFound ''agent delegation not found''"
| "service_error_of_db ApplicationNotFound = SE_NotFound ''application not found''"

text \<open>\<^verbatim>\<open>OryClientError\<close>; the payloads of third-party error types are their messages.\<close>

datatype ory_error =
    Ory_Http string
  | Ory_Serialization string
  | Ory_Url string
  | Ory_Status nat string
  | Ory_Redirect string "string list"
  | Ory_MissingTenant
  | Ory_InvalidResponse string

fun map_ory_error :: "ory_error \<Rightarrow> service_error" where
  "map_ory_error (Ory_Status status message) =
     (if status = 400 then SE_InvalidArgument message
      else if status = 401 then SE_Unauthenticated message
      else if status = 403 then SE_PermissionDenied message
      else if status = 404 then SE_NotFound message
      else if status = 409 then SE_AlreadyExists message
      else if status = 503 then SE_Unavailable message
      else SE_Internal message)"
| "map_ory_error (Ory_Http e) = SE_Unavailable e"
| "map_ory_error (Ory_Serialization e) = SE_Serialization e"
| "map_ory_error (Ory_Url e) = SE_Configuration e"
| "map_ory_error (Ory_InvalidResponse msg) = SE_Internal msg"
| "map_ory_error Ory_MissingTenant = SE_Unauthenticated ''missing tenant context''"
| "map_ory_error (Ory_Redirect loc cs) = SE_Internal ''unexpected redirect''"

text \<open>What the services use of Hydra's admin API on OAuth2 clients, on an opaque state.\<close>

record 'h hydra_ops =
  hy_create_oauth2_client :: "json \<Rightarrow> ('h, ory_error, json) io"
  hy_get_oauth2_client :: "string \<Rightarrow> ('h, ory_error, json) io"
  hy_update_oauth2_client :: "string \<Rightarrow> json \<Rightarrow> ('h, ory_error, json) io"
  hy_delete_oauth2_client :: "string \<Rightarrow> ('h, ory_error, unit) io"
  hy_rotate_client_secret :: "string \<Rightarrow> ('h, ory_error, json) io"

section \<open>Rows\<close>

record tenant_row =
  tn_id :: string
  tn_slug :: string
  tn_display_name :: string
  tn_is_system :: bool
  tn_settings :: json
  tn_created_at :: instant

record id_mapping_row =
  im_id :: string
  im_tenant_id :: string
  im_backend :: string
  im_public_id :: string
  im_ory_global_id :: string
  im_created_at :: instant

record application_row =
  ap_tenant_id :: string
  ap_public_id :: string
  ap_cross_tenant :: bool
  ap_registration_source :: string
  ap_created_at :: instant
  ap_updated_at :: instant

record agent_row =
  ag_id :: string
  ag_tenant_id :: string
  ag_owner_identity_id :: "string option"
  ag_name :: string
  ag_status :: string
  ag_created_at :: instant
  ag_updated_at :: instant

record agent_delegation_row =
  dg_id :: string
  dg_tenant_id :: string
  dg_agent_id :: string
  dg_user_identity_id :: string
  dg_scopes :: "string list"
  dg_expires_at :: instant
  dg_revoked_at :: "instant option"
  dg_created_at :: instant

record agent_act_token_row =
  at_token_hash :: string
  at_delegation_id :: string
  at_tenant_id :: string
  at_agent_id :: string
  at_user_identity_id :: string
  at_scopes :: "string list"
  at_expires_at :: instant
  at_created_at :: instant

record tenant_membership_row =
  tm_tenant_id :: string
  tm_identity_id :: string
  tm_schema_id :: string
  tm_schema_version :: int
  tm_traits :: json
  tm_state :: string
  tm_created_at :: instant
  tm_updated_at :: instant

record session_row =
  gs_session_hash :: string
  gs_sub :: string
  gs_tenant_id :: string
  gs_amr :: string
  gs_created_at :: instant
  gs_expires_at :: instant
  gs_revoked_at :: "instant option"

record token_introspection_row =
  ti_token_hash :: string
  ti_active :: bool
  ti_sub :: "string option"
  ti_scope :: "string option"
  ti_exp :: "instant option"
  ti_cached_at :: instant

record login_state_row =
  ls_state_token :: string
  ls_tenant_id :: string
  ls_connection_id :: string
  ls_connection_type :: string
  ls_return_to :: string
  ls_code_verifier :: "string option"
  ls_nonce :: "string option"
  ls_created_at :: instant
  ls_expires_at :: instant

record transient_token_row =
  tt_id :: string
  tt_tenant_id :: string
  tt_backend :: string
  tt_token_type :: string
  tt_public_token :: string
  tt_ory_token :: string
  tt_expires_at :: instant
  tt_created_at :: instant

record saml_provider_row =
  pv_id :: string
  pv_tenant_id :: string
  pv_name :: string
  pv_idp_entity_id :: string
  pv_idp_sso_url :: string
  pv_idp_certificate_pem :: "string option"
  pv_sp_entity_id :: string
  pv_acs_url :: string
  pv_name_id_format :: "string option"
  pv_schema_id :: string
  pv_authn_requests_signed :: bool
  pv_created_at :: instant
  pv_updated_at :: instant

record saml_request_row =
  sr_id :: string
  sr_tenant_id :: string
  sr_provider_id :: string
  sr_relay_state :: string
  sr_created_at :: instant

record saml_inbound_row =
  si_id :: string
  si_tenant_id :: string
  si_provider_id :: string
  si_expires_at :: instant

datatype connection_type = Oidc | OAuth2 | Saml

record tenant_connection_row =
  tc_id :: string
  tc_tenant_id :: string
  tc_connection_type :: connection_type
  tc_domain :: string
  tc_config :: json
  tc_is_enabled :: bool
  tc_created_at :: instant
  tc_updated_at :: instant

record tenant_domain_row =
  td_id :: string
  td_tenant_id :: string
  td_domain :: string
  td_verification_token :: string
  td_is_verified :: bool
  td_verified_at :: "instant option"
  td_created_at :: instant
  td_updated_at :: instant

datatype local_auth_method = Password | Code

record tenant_local_auth_row =
  la_id :: string
  la_tenant_id :: string
  la_method :: local_auth_method
  la_config :: json
  la_is_enabled :: bool
  la_created_at :: instant
  la_updated_at :: instant

text \<open>A row of \<^verbatim>\<open>permission_namespaces\<close>; the types of a namespace are in a table of their own.\<close>

record namespace_row =
  ns_tenant_id :: string
  ns_namespace :: string
  ns_model :: json
  ns_store_id :: "string option"
  ns_model_id :: "string option"
  ns_created_at :: instant
  ns_updated_at :: instant

record namespace_type_row =
  nt_tenant_id :: string
  nt_type :: string
  nt_namespace :: string

record permission_tuple_row =
  pt_id :: string
  pt_tenant_id :: string
  pt_namespace :: string
  pt_object :: string
  pt_relation :: string
  pt_subject_id :: string
  pt_created_at :: instant

record identity_schema_row =
  ish_id :: string
  ish_tenant_id :: string
  ish_schema_id :: string
  ish_schema_json :: json
  ish_version :: int
  ish_is_default :: bool
  ish_created_at :: instant
  ish_updated_at :: instant

record scim_group_row =
  sg_id :: string
  sg_tenant_id :: string
  sg_display_name :: string
  sg_created_at :: instant
  sg_updated_at :: instant

record scim_member_row =
  sm_group_id :: string
  sm_user_id :: string
  sm_created_at :: instant

record saml_identity_mapping_row =
  sy_id :: string
  sy_tenant_id :: string
  sy_provider_id :: string
  sy_name_id :: string
  sy_identity_public_id :: string
  sy_ory_global_id :: string
  sy_created_at :: instant
  sy_updated_at :: instant

record saml_nameid_row =
  sn_id :: string
  sn_tenant_id :: string
  sn_sp_entity_id :: string
  sn_identity_id :: string
  sn_name_id :: string
  sn_created_at :: instant
  sn_updated_at :: instant

record saml_idp_key_row =
  sk_id :: string
  sk_tenant_id :: string
  sk_key_id :: string
  sk_private_key_pem :: string
  sk_encrypted_private_key :: "string option"
  sk_certificate_pem :: string
  sk_is_active :: bool
  sk_created_at :: instant
  sk_updated_at :: instant

record saml_sp_client_row =
  spc_id :: string
  spc_tenant_id :: string
  spc_entity_id :: string
  spc_acs_url :: string
  spc_certificate_pem :: "string option"
  spc_authn_requests_signed :: bool
  spc_name_id_format :: "string option"
  spc_created_at :: instant
  spc_updated_at :: instant

record database =
  tenants :: "tenant_row list"
  id_mappings :: "id_mapping_row list"
  applications :: "application_row list"
  agents :: "agent_row list"
  agent_delegations :: "agent_delegation_row list"
  agent_act_tokens :: "agent_act_token_row list"
  tenant_memberships :: "tenant_membership_row list"
  gateway_sessions :: "session_row list"
  token_introspection_cache :: "token_introspection_row list"
  login_states :: "login_state_row list"
  transient_tokens :: "transient_token_row list"
  saml_providers :: "saml_provider_row list"
  saml_requests :: "saml_request_row list"
  saml_inbound_requests :: "saml_inbound_row list"
  saml_assertion_ids :: "(string \<times> instant) list"
  tenant_connections :: "tenant_connection_row list"
  tenant_domains :: "tenant_domain_row list"
  tenant_local_auths :: "tenant_local_auth_row list"
  permission_namespaces :: "namespace_row list"
  permission_namespace_types :: "namespace_type_row list"
  permission_tuples :: "permission_tuple_row list"
  identity_schemas :: "identity_schema_row list"
  scim_groups :: "scim_group_row list"
  scim_group_members :: "scim_member_row list"
  saml_identity_mappings :: "saml_identity_mapping_row list"
  saml_nameid_mappings :: "saml_nameid_row list"
  saml_idp_keys :: "saml_idp_key_row list"
  saml_sp_clients :: "saml_sp_client_row list"

definition empty_db :: database where
  "empty_db = \<lparr>tenants = [], id_mappings = [], applications = [], agents = [],
     agent_delegations = [], agent_act_tokens = [], tenant_memberships = [],
     gateway_sessions = [], token_introspection_cache = [], login_states = [],
     transient_tokens = [], saml_providers = [], saml_requests = [], saml_inbound_requests = [],
     saml_assertion_ids = [], tenant_connections = [], tenant_domains = [], tenant_local_auths = [],
     permission_namespaces = [], permission_namespace_types = [],
     permission_tuples = [], identity_schemas = [], scim_groups = [], scim_group_members = [],
     saml_identity_mappings = [], saml_nameid_mappings = [], saml_idp_keys = [], saml_sp_clients = []\<rparr>"

section \<open>The connection\<close>

datatype fault = RequestLost string | ReplyLost string

text \<open>
  What one replica's operations see of the world outside: the database, the clock, the
  environment's choices by query number (faults, and the order in which Postgres scans
  rows where a query has \<^verbatim>\<open>LIMIT 1\<close> and no \<^verbatim>\<open>ORDER BY\<close>), and the identifiers
  \<^verbatim>\<open>Ulid::new()\<close> draws.
\<close>

record pg =
  pg_db :: database
  pg_now :: instant
  pg_queries :: nat
  pg_fault :: "nat \<Rightarrow> fault option"
  pg_scan :: "nat \<Rightarrow> id_mapping_row list \<Rightarrow> id_mapping_row list"
  pg_ulid :: "nat \<Rightarrow> string"
  pg_ulids :: nat

type_synonym 'a stmt = "instant \<Rightarrow> database \<Rightarrow> (db_error + 'a) \<times> database"

definition pg_exec :: "'a stmt \<Rightarrow> ('z pg_scheme, db_error, 'a) io" where
  "pg_exec st w =
     (let v = w\<lparr>pg_queries := Suc (pg_queries w)\<rparr>;
          (r, db) = st (pg_now w) (pg_db w)
      in case pg_fault w (pg_queries w) of
           None \<Rightarrow> (r, v\<lparr>pg_db := db\<rparr>)
         | Some (RequestLost m) \<Rightarrow> (Inl (Sqlx m), v)
         | Some (ReplyLost m) \<Rightarrow> (Inl (Sqlx m), v\<lparr>pg_db := db\<rparr>))"

definition pg_query :: "(instant \<Rightarrow> database \<Rightarrow> db_error + 'a) \<Rightarrow> ('z pg_scheme, db_error, 'a) io" where
  "pg_query q = pg_exec (\<lambda>now db. (q now db, db))"

text \<open>A \<^verbatim>\<open>SELECT ... LIMIT 1\<close> over \<^verbatim>\<open>id_mappings\<close> without an order.\<close>

definition pg_query_any :: "(id_mapping_row list \<Rightarrow> db_error + 'a) \<Rightarrow> ('z pg_scheme, db_error, 'a) io" where
  "pg_query_any q w = pg_query (\<lambda>now db. q (pg_scan w (pg_queries w) (id_mappings db))) w"

definition ulid_new :: "('z pg_scheme, 'e, string) io" where
  "ulid_new w = (Inr (pg_ulid w (pg_ulids w)), w\<lparr>pg_ulids := Suc (pg_ulids w)\<rparr>)"

definition now_utc :: "('z pg_scheme, 'e, instant) io" where
  "now_utc = gets pg_now"

abbreviation dbq :: "('s, db_error, 'a) io \<Rightarrow> ('s, service_error, 'a) io" where
  "dbq m \<equiv> map_err service_error_of_db m"

text \<open>A Protobuf timestamp.\<close>

record timestamp =
  ts_seconds :: int
  ts_nanos :: int

definition opt_timestamp :: "instant option \<Rightarrow> timestamp option" where
  "opt_timestamp t = map_option (\<lambda>t. \<lparr>ts_seconds = unix_timestamp t, ts_nanos = t mod nanos_per_second\<rparr>) t"

text \<open>A constraint of the schema that a statement would break.\<close>

definition violates :: "string \<Rightarrow> database \<Rightarrow> (db_error + 'a) \<times> database" where
  "violates what db = (Inl (Sqlx what), db)"

definition tenant_exists :: "database \<Rightarrow> string \<Rightarrow> bool" where
  "tenant_exists db t \<longleftrightarrow> t \<in> tn_id ` set (tenants db)"

text \<open>
  A connection on which nothing goes wrong: no fault, rows scanned in table order, and
  identifiers that never repeat.
\<close>

definition quiet_pg :: "database \<Rightarrow> instant \<Rightarrow> pg" where
  "quiet_pg db now =
     \<lparr>pg_db = db, pg_now = now, pg_queries = 0, pg_fault = (\<lambda>_. None), pg_scan = (\<lambda>_ rows. rows),
      pg_ulid = (\<lambda>n. replicate (Suc n) (CHR ''0'')), pg_ulids = 0\<rparr>"

section \<open>Reasoning about statements\<close>

definition stmt_keeps :: "(database \<Rightarrow> bool) \<Rightarrow> 'a stmt \<Rightarrow> bool" where
  "stmt_keeps J st \<longleftrightarrow> (\<forall>now db. J db \<longrightarrow> J (snd (st now db)))"

lemma stmt_keepsI: "(\<And>now db. J db \<Longrightarrow> J (snd (st now db))) \<Longrightarrow> stmt_keeps J st"
  by (simp add: stmt_keeps_def)

lemma keeps_pg_exec [keeps_rules]:
  assumes "stmt_keeps J st"
  shows "keeps (\<lambda>w. J (pg_db w)) (pg_exec st)"
proof (rule keepsI)
  fix s r t
  assume J: "J (pg_db s)" and run: "pg_exec st s = (r, t)"
  have "J (snd (st (pg_now s) (pg_db s)))" using assms J by (simp add: stmt_keeps_def)
  with J run show "J (pg_db t)"
    by (auto simp: pg_exec_def Let_def split: prod.splits option.splits fault.splits)
qed

lemma keeps_pg_query [keeps_rules]: "keeps (\<lambda>w. J (pg_db w)) (pg_query q)"
  unfolding pg_query_def by (rule keeps_pg_exec) (simp add: stmt_keeps_def)

lemma keeps_pg_query_any [keeps_rules]: "keeps (\<lambda>w. J (pg_db w)) (pg_query_any q)"
  by (simp add: keeps_def pg_query_any_def pg_query_def pg_exec_def Let_def
      split: prod.splits option.splits fault.splits)

lemma keeps_ulid_new [keeps_rules]: "keeps (\<lambda>w. J (pg_db w)) ulid_new"
  by (simp add: keeps_def ulid_new_def)

lemma keeps_now_utc [keeps_rules]: "keeps I now_utc"
  by (simp add: now_utc_def keeps_gets)

lemma pg_db_same [simp]: "w\<lparr>pg_queries := n, pg_db := pg_db w\<rparr> = w\<lparr>pg_queries := n\<rparr>"
  by (cases w) simp

text \<open>What a successful round trip says: the statement succeeded on the current database.\<close>

lemma pg_exec_Inr:
  assumes "pg_exec st w = (Inr x, v)"
  shows "fst (st (pg_now w) (pg_db w)) = Inr x
    \<and> v = w\<lparr>pg_queries := Suc (pg_queries w), pg_db := snd (st (pg_now w) (pg_db w))\<rparr>"
  using assms
  by (auto simp: pg_exec_def Let_def split: prod.splits option.splits fault.splits)

lemma pg_query_Inr:
  assumes "pg_query q w = (Inr x, v)"
  shows "q (pg_now w) (pg_db w) = Inr x \<and> v = w\<lparr>pg_queries := Suc (pg_queries w)\<rparr>"
  using pg_exec_Inr [OF assms [unfolded pg_query_def]] by simp

lemma pg_query_state:
  "snd (pg_query q w) = w\<lparr>pg_queries := Suc (pg_queries w)\<rparr>"
  by (simp add: pg_query_def pg_exec_def Let_def split: option.splits fault.splits)

lemma pg_query_cases:
  obtains (lost) m where "pg_query q w = (Inl (Sqlx m), w\<lparr>pg_queries := Suc (pg_queries w)\<rparr>)"
  | (answered) "pg_query q w = (q (pg_now w) (pg_db w), w\<lparr>pg_queries := Suc (pg_queries w)\<rparr>)"
proof (cases "pg_fault w (pg_queries w)")
  case None
  then have "pg_query q w = (q (pg_now w) (pg_db w), w\<lparr>pg_queries := Suc (pg_queries w)\<rparr>)"
    by (simp add: pg_query_def pg_exec_def Let_def)
  then show thesis by (rule answered)
next
  case (Some f)
  then have "\<exists>m. pg_query q w = (Inl (Sqlx m), w\<lparr>pg_queries := Suc (pg_queries w)\<rparr>)"
    by (cases f) (simp_all add: pg_query_def pg_exec_def Let_def)
  then show thesis using lost by blast
qed

lemma pg_query_result:
  assumes "pg_query q w = (x, v)"
  shows "(\<exists>m. x = Inl (Sqlx m)) \<or> x = q (pg_now w) (pg_db w)"
  by (rule pg_query_cases [of q w]) (use assms in auto)

text \<open>Without a fault a round trip is the statement itself.\<close>

lemma pg_exec_no_fault:
  assumes "pg_fault w (pg_queries w) = None"
  shows "pg_exec st w =
    (fst (st (pg_now w) (pg_db w)),
     w\<lparr>pg_queries := Suc (pg_queries w), pg_db := snd (st (pg_now w) (pg_db w))\<rparr>)"
  using assms by (simp add: pg_exec_def Let_def split: prod.splits)

lemma pg_query_no_fault:
  assumes "pg_fault w (pg_queries w) = None"
  shows "pg_query q w = (q (pg_now w) (pg_db w), w\<lparr>pg_queries := Suc (pg_queries w)\<rparr>)"
  unfolding pg_query_def by (subst pg_exec_no_fault [OF assms]) simp

end
