(* ===== verification/Paging.thy ===== *)
theory Paging
  imports Database
begin

text \<open>
  Keyset pagination, as the list endpoints of the agent service use it: the page query of
  the stores (\<^verbatim>\<open>ORDER BY created_at DESC, id DESC LIMIT n\<close> below an exclusive cursor), the
  page parameters and the opaque page token of \<^verbatim>\<open>services/agent.rs\<close>. A client that follows
  the tokens until one is empty sees every row once, in order; a token decodes to the
  cursor it was made from. Base64 is a parameter of the token functions.
\<close>

section \<open>The page query\<close>

definition sort_desc :: "('r \<Rightarrow> 'k::linorder) \<Rightarrow> 'r list \<Rightarrow> 'r list" where
  "sort_desc key rows = rev (sort_key key rows)"

definition below :: "('r \<Rightarrow> 'k::linorder) \<Rightarrow> 'k option \<Rightarrow> 'r \<Rightarrow> bool" where
  "below key after r \<longleftrightarrow> (case after of None \<Rightarrow> True | Some k \<Rightarrow> key r < k)"

definition keyset_page :: "('r \<Rightarrow> 'k::linorder) \<Rightarrow> nat \<Rightarrow> 'k option \<Rightarrow> 'r list \<Rightarrow> 'r list" where
  "keyset_page key limit after rows = take limit (sort_desc key (filter (below key after) rows))"

lemma sort_desc_filter: "sort_desc key (filter P rows) = filter P (sort_desc key rows)"
  by (simp add: sort_desc_def filter_sort flip: rev_filter)

lemma set_sort_desc [simp]: "set (sort_desc key rows) = set rows"
  by (simp add: sort_desc_def)

lemma length_sort_desc [simp]: "length (sort_desc key rows) = length rows"
  by (simp add: sort_desc_def)

lemma sort_desc_sorted: "sorted_wrt (\<lambda>a b. key a \<ge> key b) (sort_desc key rows)"
proof -
  have "sorted_wrt (\<lambda>a b. key a \<le> key b) (sort_key key rows)"
    using sorted_sort_key [of key rows] by (simp add: sorted_map)
  then show ?thesis by (simp add: sort_desc_def sorted_wrt_rev)
qed

lemma sort_desc_strict:
  assumes "key_unique key rows"
  shows "sorted_wrt (\<lambda>a b. key a > key b) (sort_desc key rows)"
proof -
  have "distinct (map key (sort_desc key rows))"
    using assms by (simp add: key_unique_def sort_desc_def distinct_map distinct_sort)
  then have "sorted_wrt (\<noteq>) (map key (sort_desc key rows))"
    by (simp add: distinct_conv_nth sorted_wrt_iff_nth_less)
  with sort_desc_sorted [of key rows] show ?thesis
    by (fastforce simp: sorted_wrt_map sorted_wrt_iff_nth_less le_less)
qed

text \<open>The rows below the last one of a page are the rest of the list.\<close>

lemma strict_after:
  assumes "sorted_wrt (\<lambda>a b. key a > (key b :: 'k::linorder)) (xs @ y # ys)"
  shows "filter (\<lambda>r. key r < key y) (xs @ y # ys) = ys"
proof -
  have "filter (\<lambda>r. key r < key y) xs = []"
    using assms by (auto simp: sorted_wrt_append filter_empty_conv not_less intro: less_imp_le)
  moreover have "filter (\<lambda>r. key r < key y) ys = ys"
    using assms by (auto simp: sorted_wrt_append filter_id_conv)
  ultimately show ?thesis by simp
qed

section \<open>Walking the pages\<close>

text \<open>
  A client's loop: ask for a page, and go on from the last row's key as long as the page
  came back full (\<open>next_page_token\<close> is empty otherwise).
\<close>

fun walk_pages :: "nat \<Rightarrow> ('r \<Rightarrow> 'k::linorder) \<Rightarrow> nat \<Rightarrow> 'k option \<Rightarrow> 'r list \<Rightarrow> 'r list option" where
  "walk_pages 0 key limit after rows = None"
| "walk_pages (Suc fuel) key limit after rows =
     (let page = keyset_page key limit after rows
      in if length page = limit \<and> page \<noteq> []
         then map_option ((@) page) (walk_pages fuel key limit (Some (key (last page))) rows)
         else Some page)"

lemma walk_from:
  assumes uniq: "key_unique key rows" and "0 < limit"
  shows "\<lbrakk>sort_desc key rows = pre @ suf; filter (below key after) (sort_desc key rows) = suf;
    length suf < fuel\<rbrakk> \<Longrightarrow> walk_pages fuel key limit after rows = Some suf"
proof (induction fuel arbitrary: pre suf after)
  case 0
  then show ?case by simp
next
  case (Suc fuel)
  let ?page = "keyset_page key limit after rows"
  have page: "?page = take limit suf"
    using Suc.prems(2) by (simp add: keyset_page_def sort_desc_filter)
  show ?case
  proof (cases "length suf < limit")
    case True
    then show ?thesis by (simp add: page Let_def)
  next
    case False
    let ?p = "take limit suf" and ?rest = "drop limit suf"
    have ne: "?p \<noteq> []" and len: "length ?p = limit" using False assms(2) by auto
    obtain ini where ini: "?p = ini @ [last ?p]"
      using ne by (metis append_butlast_last_id)
    have split: "sort_desc key rows = (pre @ ini) @ last ?p # ?rest"
      using Suc.prems(1) ini by (metis append.assoc append_Cons append_Nil append_take_drop_id)
    have strict: "sorted_wrt (\<lambda>a b. key a > key b) ((pre @ ini) @ last ?p # ?rest)"
      using sort_desc_strict [OF uniq] split by simp
    have "filter (below key (Some (key (last ?p)))) (sort_desc key rows) = ?rest"
      using strict_after [OF strict] split by (simp add: below_def [abs_def])
    moreover have "length ?rest < fuel" using Suc.prems(3) False assms(2) by simp
    moreover have "sort_desc key rows = (pre @ ?p) @ ?rest" using Suc.prems(1) by simp
    ultimately have "walk_pages fuel key limit (Some (key (last ?p))) rows = Some ?rest"
      using Suc.IH by blast
    then show ?thesis using ne len by (simp add: page Let_def)
  qed
qed

lemma walk_all:
  assumes "key_unique key rows" and "0 < limit" and "length rows < fuel"
  shows "walk_pages fuel key limit None rows = Some (sort_desc key rows)"
proof (rule walk_from [OF assms(1,2)])
  show "sort_desc key rows = [] @ sort_desc key rows" by simp
  show "filter (below key None) (sort_desc key rows) = sort_desc key rows"
    by (simp add: below_def)
  show "length (sort_desc key rows) < fuel" using assms(3) by simp
qed

section \<open>Page tokens\<close>

definition default_page_size :: nat where "default_page_size = 50"
definition max_page_size :: nat where "max_page_size = 200"

record page_request =
  page_size :: nat
  page_token :: string

text \<open>The instants an \<^verbatim>\<open>OffsetDateTime\<close> can hold: the years -9999 to 9999.\<close>

definition min_datetime :: instant where
  "min_datetime = - 377705116800 * nanos_per_second"

definition max_datetime :: instant where
  "max_datetime = 253402300799 * nanos_per_second + 999999999"

definition from_unix_timestamp_nanos :: "int \<Rightarrow> instant option" where
  "from_unix_timestamp_nanos n = (if min_datetime \<le> n \<and> n \<le> max_datetime then Some n else None)"

definition parse_i128 :: "string \<Rightarrow> int option" where
  "parse_i128 = parse_int (- (2 ^ 127)) (2 ^ 127 - 1)"

definition encode_page_token :: "(string \<Rightarrow> string) \<Rightarrow> instant \<Rightarrow> string \<Rightarrow> string" where
  "encode_page_token b64_encode created_at i = b64_encode (show_int created_at @ '':'' @ i)"

definition decode_page_token ::
  "(string \<Rightarrow> string option) \<Rightarrow> string \<Rightarrow> service_error + (instant \<times> string)" where
  "decode_page_token b64_decode token =
     (let invalid = Inl (SE_InvalidArgument ''invalid page token'')
      in case b64_decode token of
           None \<Rightarrow> invalid
         | Some raw \<Rightarrow>
             if \<not> valid_utf8 raw then invalid
             else case split_once (CHR '':'') raw of
               None \<Rightarrow> invalid
             | Some (nanos, i) \<Rightarrow>
                 if i = [] then invalid
                 else case parse_i128 nanos of
                   None \<Rightarrow> invalid
                 | Some n \<Rightarrow>
                     case from_unix_timestamp_nanos n of
                       None \<Rightarrow> invalid
                     | Some created_at \<Rightarrow> Inr (created_at, i))"

definition page_params ::
  "(string \<Rightarrow> string option) \<Rightarrow> page_request option
    \<Rightarrow> service_error + (nat \<times> (instant \<times> string) option)" where
  "page_params b64_decode page =
     (case page of
        None \<Rightarrow> Inr (default_page_size, None)
      | Some p \<Rightarrow>
          let limit = (if page_size p = 0 then default_page_size else min (page_size p) max_page_size)
          in if page_token p = [] then Inr (limit, None)
             else case decode_page_token b64_decode (page_token p) of
               Inl e \<Rightarrow> Inl e
             | Inr cursor \<Rightarrow> Inr (limit, Some cursor))"

definition next_page_token ::
  "(string \<Rightarrow> string) \<Rightarrow> (instant \<times> string) option \<Rightarrow> nat \<Rightarrow> nat \<Rightarrow> string" where
  "next_page_token b64_encode final page_len limit =
     (if page_len = limit then
        (case final of Some (created_at, i) \<Rightarrow> encode_page_token b64_encode created_at i | None \<Rightarrow> [])
      else [])"

lemma page_params_limit:
  assumes "page_params d page = Inr (limit, after)"
  shows "0 < limit \<and> limit \<le> max_page_size"
  using assms
  by (auto simp: page_params_def default_page_size_def max_page_size_def Let_def
      split: option.splits sum.splits if_splits)

lemma decode_encode_page_token:
  assumes b64: "\<And>s. b64_decode (b64_encode s) = Some s"
    and "min_datetime \<le> t" "t \<le> max_datetime" and "i \<noteq> []" and "valid_utf8 i"
  shows "decode_page_token b64_decode (encode_page_token b64_encode t i) = Inr (t, i)"
proof -
  have "is_ascii (show_int t @ '':'')"
    using show_int_ascii [of t] by (auto simp: is_ascii_def code_point_def)
  then have utf8: "valid_utf8 (show_int t @ '':'' @ i)"
    using valid_utf8_append_ascii [of "show_int t @ '':''" i] assms(5) by simp
  have split: "split_once (CHR '':'') (show_int t @ CHR '':'' # i) = Some (show_int t, i)"
    by (rule split_once_append) (simp add: show_int_no_sep is_digit_def code_point_def)
  have "parse_i128 (show_int t) = Some t"
    unfolding parse_i128_def using assms(2,3)
    by (intro parse_show_int)
       (auto simp: min_datetime_def max_datetime_def nanos_per_second_def)
  with utf8 split assms show ?thesis
    by (simp add: decode_page_token_def encode_page_token_def b64 from_unix_timestamp_nanos_def)
qed

end
