(* ===== verification/AgentStores.thy ===== *)
theory AgentStores
  imports Paging
begin

text \<open>
  The stores behind the agent service: \<^verbatim>\<open>db/agent.rs\<close>, \<^verbatim>\<open>db/agent_delegation.rs\<close>,
  \<^verbatim>\<open>db/agent_act_token.rs\<close> and \<^verbatim>\<open>db/tenant_membership.rs\<close>, statement by statement, with the
  schema's keys, foreign keys and cascades (\<open>agent_tables_ok\<close>), and the binding of every
  act-token row to its delegation (\<open>act_tokens_bound\<close>).
\<close>

section \<open>PgAgentStore\<close>

definition agent_status_active :: string where "agent_status_active = ''active''"
definition agent_status_disabled :: string where "agent_status_disabled = ''disabled''"

definition agent_insert_stmt :: "string \<Rightarrow> string \<Rightarrow> string option \<Rightarrow> string \<Rightarrow> agent_row stmt" where
  "agent_insert_stmt i tenant_id owner name now db =
     (let row = \<lparr>ag_id = i, ag_tenant_id = tenant_id, ag_owner_identity_id = owner, ag_name = name,
                 ag_status = ''active'', ag_created_at = now, ag_updated_at = now\<rparr>
      in if \<not> tenant_exists db tenant_id then violates ''agents_tenant_id_fkey'' db
         else if i \<in> ag_id ` set (agents db) then violates ''agents_pkey'' db
         else (Inr row, db\<lparr>agents := agents db @ [row]\<rparr>))"

definition agent_create ::
  "string \<Rightarrow> string option \<Rightarrow> string \<Rightarrow> ('z pg_scheme, db_error, agent_row) io" where
  "agent_create tenant_id owner name =
     bindE ulid_new (\<lambda>i. pg_exec (agent_insert_stmt i tenant_id owner name))"

definition agent_get :: "string \<Rightarrow> string \<Rightarrow> ('z pg_scheme, db_error, agent_row) io" where
  "agent_get tenant_id i =
     pg_query (\<lambda>now db. ok_or AgentNotFound
       (find (\<lambda>a. ag_tenant_id a = tenant_id \<and> ag_id a = i) (agents db)))"

definition agent_get_status :: "string \<Rightarrow> ('z pg_scheme, db_error, string) io" where
  "agent_get_status i =
     pg_query (\<lambda>now db. ok_or AgentNotFound
       (map_option ag_status (find (\<lambda>a. ag_id a = i) (agents db))))"

text \<open>\<^verbatim>\<open>UPDATE agents SET ... WHERE tenant_id = $1 AND id = $2 RETURNING ...\<close>\<close>

definition agent_update_stmt ::
  "(instant \<Rightarrow> agent_row \<Rightarrow> agent_row) \<Rightarrow> string \<Rightarrow> string \<Rightarrow> agent_row stmt" where
  "agent_update_stmt f tenant_id i now db =
     (let hit = (\<lambda>a. ag_tenant_id a = tenant_id \<and> ag_id a = i);
          rows = map (\<lambda>a. if hit a then f now a else a) (agents db)
      in case find hit (agents db) of
           None \<Rightarrow> (Inl AgentNotFound, db)
         | Some a \<Rightarrow> (Inr (f now a), db\<lparr>agents := rows\<rparr>))"

definition agent_set_name :: "string \<Rightarrow> string \<Rightarrow> string \<Rightarrow> ('z pg_scheme, db_error, agent_row) io" where
  "agent_set_name tenant_id i name =
     pg_exec (agent_update_stmt (\<lambda>now a. a\<lparr>ag_name := name, ag_updated_at := now\<rparr>) tenant_id i)"

definition agent_set_status :: "string \<Rightarrow> string \<Rightarrow> string \<Rightarrow> ('z pg_scheme, db_error, agent_row) io" where
  "agent_set_status tenant_id i status =
     pg_exec (agent_update_stmt (\<lambda>now a. a\<lparr>ag_status := status, ag_updated_at := now\<rparr>) tenant_id i)"

text \<open>Deleting an agent cascades to its delegations, and from them to their act-tokens.\<close>

definition agent_delete_stmt :: "string \<Rightarrow> string \<Rightarrow> unit stmt" where
  "agent_delete_stmt tenant_id i now db =
     (let hit = (\<lambda>a. ag_tenant_id a = tenant_id \<and> ag_id a = i);
          gone = ag_id ` set (filter hit (agents db));
          dgone = dg_id ` set (filter (\<lambda>d. dg_agent_id d \<in> gone) (agent_delegations db))
      in if filter hit (agents db) = [] then (Inl AgentNotFound, db)
         else (Inr (),
           db\<lparr>agents := filter (\<lambda>a. \<not> hit a) (agents db),
              agent_delegations := filter (\<lambda>d. dg_agent_id d \<notin> gone) (agent_delegations db),
              agent_act_tokens := filter (\<lambda>t. at_delegation_id t \<notin> dgone) (agent_act_tokens db)\<rparr>))"

definition agent_delete :: "string \<Rightarrow> string \<Rightarrow> ('z pg_scheme, db_error, unit) io" where
  "agent_delete tenant_id i = pg_exec (agent_delete_stmt tenant_id i)"

definition agent_cursor :: "agent_row \<Rightarrow> instant \<times> string" where
  "agent_cursor a = (ag_created_at a, ag_id a)"

definition agent_list_page ::
  "string \<Rightarrow> nat \<Rightarrow> (instant \<times> string) option \<Rightarrow> ('z pg_scheme, db_error, agent_row list \<times> nat) io" where
  "agent_list_page tenant_id limit after =
     bindE (pg_query (\<lambda>now db. Inr (length (filter (\<lambda>a. ag_tenant_id a = tenant_id) (agents db)))))
       (\<lambda>total. bindE (pg_query (\<lambda>now db. Inr (keyset_page agent_cursor limit after
                    (filter (\<lambda>a. ag_tenant_id a = tenant_id) (agents db)))))
         (\<lambda>rows. ret (rows, total)))"

section \<open>PgAgentDelegationStore\<close>

definition delegation_insert_stmt ::
  "string \<Rightarrow> string \<Rightarrow> string \<Rightarrow> string \<Rightarrow> string list \<Rightarrow> instant \<Rightarrow> agent_delegation_row stmt" where
  "delegation_insert_stmt i tenant_id agent_id user_identity_id scopes expires_at now db =
     (let row = \<lparr>dg_id = i, dg_tenant_id = tenant_id, dg_agent_id = agent_id,
                 dg_user_identity_id = user_identity_id, dg_scopes = scopes,
                 dg_expires_at = expires_at, dg_revoked_at = None, dg_created_at = now\<rparr>
      in if \<not> tenant_exists db tenant_id then violates ''agent_delegations_tenant_id_fkey'' db
         else if agent_id \<notin> ag_id ` set (agents db) then violates ''agent_delegations_agent_id_fkey'' db
         else if i \<in> dg_id ` set (agent_delegations db) then violates ''agent_delegations_pkey'' db
         else (Inr row, db\<lparr>agent_delegations := agent_delegations db @ [row]\<rparr>))"

definition delegation_create ::
  "string \<Rightarrow> string \<Rightarrow> string \<Rightarrow> string list \<Rightarrow> instant
    \<Rightarrow> ('z pg_scheme, db_error, agent_delegation_row) io" where
  "delegation_create tenant_id agent_id user_identity_id scopes expires_at =
     bindE ulid_new (\<lambda>i.
       pg_exec (delegation_insert_stmt i tenant_id agent_id user_identity_id scopes expires_at))"

definition delegation_get :: "string \<Rightarrow> string \<Rightarrow> ('z pg_scheme, db_error, agent_delegation_row) io" where
  "delegation_get tenant_id i =
     pg_query (\<lambda>now db. ok_or AgentDelegationNotFound
       (find (\<lambda>d. dg_tenant_id d = tenant_id \<and> dg_id d = i) (agent_delegations db)))"

definition delegation_get_by_id :: "string \<Rightarrow> ('z pg_scheme, db_error, agent_delegation_row) io" where
  "delegation_get_by_id i =
     pg_query (\<lambda>now db. ok_or AgentDelegationNotFound
       (find (\<lambda>d. dg_id d = i) (agent_delegations db)))"

text \<open>\<^verbatim>\<open>SET revoked_at = COALESCE(revoked_at, NOW())\<close>\<close>

definition revoke_row :: "instant \<Rightarrow> agent_delegation_row \<Rightarrow> agent_delegation_row" where
  "revoke_row now d =
     d\<lparr>dg_revoked_at := (case dg_revoked_at d of None \<Rightarrow> Some now | Some t \<Rightarrow> Some t)\<rparr>"

definition delegation_revoke_stmt :: "string \<Rightarrow> string \<Rightarrow> agent_delegation_row stmt" where
  "delegation_revoke_stmt tenant_id i now db =
     (let hit = (\<lambda>d. dg_tenant_id d = tenant_id \<and> dg_id d = i)
      in case find hit (agent_delegations db) of
           None \<Rightarrow> (Inl AgentDelegationNotFound, db)
         | Some d \<Rightarrow> (Inr (revoke_row now d),
             db\<lparr>agent_delegations :=
               map (\<lambda>x. if hit x then revoke_row now x else x) (agent_delegations db)\<rparr>))"

definition delegation_revoke :: "string \<Rightarrow> string \<Rightarrow> ('z pg_scheme, db_error, agent_delegation_row) io" where
  "delegation_revoke tenant_id i = pg_exec (delegation_revoke_stmt tenant_id i)"

definition delegation_cursor :: "agent_delegation_row \<Rightarrow> instant \<times> string" where
  "delegation_cursor d = (dg_created_at d, dg_id d)"

definition delegation_list_page_by ::
  "(agent_delegation_row \<Rightarrow> string) \<Rightarrow> string \<Rightarrow> string \<Rightarrow> nat \<Rightarrow> (instant \<times> string) option
    \<Rightarrow> ('z pg_scheme, db_error, agent_delegation_row list \<times> nat) io" where
  "delegation_list_page_by column tenant_id v limit after =
     (let mine = (\<lambda>d. dg_tenant_id d = tenant_id \<and> column d = v)
      in bindE (pg_query (\<lambda>now db. Inr (length (filter mine (agent_delegations db)))))
           (\<lambda>total. bindE (pg_query (\<lambda>now db. Inr (keyset_page delegation_cursor limit after
                        (filter mine (agent_delegations db)))))
             (\<lambda>rows. ret (rows, total))))"

definition delegation_list_page_by_agent ::
  "string \<Rightarrow> string \<Rightarrow> nat \<Rightarrow> (instant \<times> string) option
    \<Rightarrow> ('z pg_scheme, db_error, agent_delegation_row list \<times> nat) io" where
  "delegation_list_page_by_agent = delegation_list_page_by dg_agent_id"

definition delegation_list_page_by_user ::
  "string \<Rightarrow> string \<Rightarrow> nat \<Rightarrow> (instant \<times> string) option
    \<Rightarrow> ('z pg_scheme, db_error, agent_delegation_row list \<times> nat) io" where
  "delegation_list_page_by_user = delegation_list_page_by dg_user_identity_id"

section \<open>PgAgentActTokenStore\<close>

definition act_token_insert_stmt ::
  "string \<Rightarrow> string \<Rightarrow> string \<Rightarrow> string \<Rightarrow> string \<Rightarrow> string list \<Rightarrow> instant \<Rightarrow> unit stmt" where
  "act_token_insert_stmt token_hash delegation_id tenant_id agent_id user_identity_id scopes expires_at
      now db =
     (let row = \<lparr>at_token_hash = token_hash, at_delegation_id = delegation_id,
                 at_tenant_id = tenant_id, at_agent_id = agent_id,
                 at_user_identity_id = user_identity_id, at_scopes = scopes,
                 at_expires_at = expires_at, at_created_at = now\<rparr>
      in if delegation_id \<notin> dg_id ` set (agent_delegations db)
           then violates ''agent_act_tokens_delegation_id_fkey'' db
         else if token_hash \<in> at_token_hash ` set (agent_act_tokens db)
           then violates ''agent_act_tokens_pkey'' db
         else (Inr (), db\<lparr>agent_act_tokens := agent_act_tokens db @ [row]\<rparr>))"

definition act_token_insert ::
  "string \<Rightarrow> string \<Rightarrow> string \<Rightarrow> string \<Rightarrow> string \<Rightarrow> string list \<Rightarrow> instant
    \<Rightarrow> ('z pg_scheme, db_error, unit) io" where
  "act_token_insert token_hash delegation_id tenant_id agent_id user_identity_id scopes expires_at =
     pg_exec (act_token_insert_stmt token_hash delegation_id tenant_id agent_id user_identity_id
       scopes expires_at)"

definition act_token_get_by_hash ::
  "string \<Rightarrow> ('z pg_scheme, db_error, agent_act_token_row option) io" where
  "act_token_get_by_hash token_hash =
     pg_query (\<lambda>now db. Inr (find (\<lambda>t. at_token_hash t = token_hash) (agent_act_tokens db)))"

section \<open>PgTenantMembershipStore\<close>

definition membership_upsert_stmt ::
  "string \<Rightarrow> string \<Rightarrow> string \<Rightarrow> int \<Rightarrow> json \<Rightarrow> tenant_membership_row stmt" where
  "membership_upsert_stmt tenant_id identity_id schema_id schema_version traits now db =
     (let hit = (\<lambda>m. tm_tenant_id m = tenant_id \<and> tm_identity_id m = identity_id);
          upd = (\<lambda>m. m\<lparr>tm_schema_id := schema_id, tm_schema_version := schema_version,
                       tm_traits := traits, tm_updated_at := now\<rparr>);
          row = \<lparr>tm_tenant_id = tenant_id, tm_identity_id = identity_id, tm_schema_id = schema_id,
                 tm_schema_version = schema_version, tm_traits = traits, tm_state = ''active'',
                 tm_created_at = now, tm_updated_at = now\<rparr>
      in if \<not> tenant_exists db tenant_id then violates ''tenant_memberships_tenant_id_fkey'' db
         else case find hit (tenant_memberships db) of
           None \<Rightarrow> (Inr row, db\<lparr>tenant_memberships := tenant_memberships db @ [row]\<rparr>)
         | Some m \<Rightarrow> (Inr (upd m), db\<lparr>tenant_memberships :=
             map (\<lambda>x. if hit x then upd x else x) (tenant_memberships db)\<rparr>))"

definition membership_upsert ::
  "string \<Rightarrow> string \<Rightarrow> string \<Rightarrow> int \<Rightarrow> json \<Rightarrow> ('z pg_scheme, db_error, tenant_membership_row) io" where
  "membership_upsert tenant_id identity_id schema_id schema_version traits =
     pg_exec (membership_upsert_stmt tenant_id identity_id schema_id schema_version traits)"

definition membership_get :: "string \<Rightarrow> string \<Rightarrow> ('z pg_scheme, db_error, tenant_membership_row) io" where
  "membership_get tenant_id identity_id =
     pg_query (\<lambda>now db. ok_or MembershipNotFound
       (find (\<lambda>m. tm_tenant_id m = tenant_id \<and> tm_identity_id m = identity_id) (tenant_memberships db)))"

definition membership_set_state_stmt :: "string \<Rightarrow> string \<Rightarrow> string \<Rightarrow> tenant_membership_row stmt" where
  "membership_set_state_stmt tenant_id identity_id state now db =
     (let hit = (\<lambda>m. tm_tenant_id m = tenant_id \<and> tm_identity_id m = identity_id);
          upd = (\<lambda>m. m\<lparr>tm_state := state, tm_updated_at := now\<rparr>)
      in case find hit (tenant_memberships db) of
           None \<Rightarrow> (Inl MembershipNotFound, db)
         | Some m \<Rightarrow> (Inr (upd m), db\<lparr>tenant_memberships :=
             map (\<lambda>x. if hit x then upd x else x) (tenant_memberships db)\<rparr>))"

definition membership_set_state ::
  "string \<Rightarrow> string \<Rightarrow> string \<Rightarrow> ('z pg_scheme, db_error, tenant_membership_row) io" where
  "membership_set_state tenant_id identity_id state =
     pg_exec (membership_set_state_stmt tenant_id identity_id state)"

definition membership_list_by_tenant ::
  "string \<Rightarrow> ('z pg_scheme, db_error, tenant_membership_row list) io" where
  "membership_list_by_tenant tenant_id =
     pg_query (\<lambda>now db. Inr (sort_key (\<lambda>m. - tm_created_at m)
       (filter (\<lambda>m. tm_tenant_id m = tenant_id) (tenant_memberships db))))"

section \<open>Constraints of the agent tables\<close>

definition agent_tables_ok :: "database \<Rightarrow> bool" where
  "agent_tables_ok db \<longleftrightarrow>
     key_unique ag_id (agents db) \<and> key_unique dg_id (agent_delegations db)
     \<and> key_unique at_token_hash (agent_act_tokens db)
     \<and> (\<forall>a \<in> set (agents db). tenant_exists db (ag_tenant_id a))
     \<and> (\<forall>d \<in> set (agent_delegations db). dg_agent_id d \<in> ag_id ` set (agents db))
     \<and> (\<forall>t \<in> set (agent_act_tokens db). at_delegation_id t \<in> dg_id ` set (agent_delegations db))"

text \<open>
  An act-token row repeats its delegation's tenant, agent, user and scopes, and does not
  outlive it. The schema does not say so; minting does.
\<close>

definition bound_to :: "agent_delegation_row \<Rightarrow> agent_act_token_row \<Rightarrow> bool" where
  "bound_to d t \<longleftrightarrow> at_delegation_id t = dg_id d \<and> at_tenant_id t = dg_tenant_id d
     \<and> at_agent_id t = dg_agent_id d \<and> at_user_identity_id t = dg_user_identity_id d
     \<and> at_scopes t = dg_scopes d \<and> at_expires_at t \<le> dg_expires_at d"

definition act_tokens_bound :: "database \<Rightarrow> bool" where
  "act_tokens_bound db \<longleftrightarrow>
     (\<forall>t \<in> set (agent_act_tokens db). \<forall>d \<in> set (agent_delegations db).
        at_delegation_id t = dg_id d \<longrightarrow> bound_to d t)"

definition agent_inv :: "database \<Rightarrow> bool" where
  "agent_inv db \<longleftrightarrow> agent_tables_ok db \<and> act_tokens_bound db"

lemma agent_inv_empty: "agent_inv empty_db"
  by (simp add: agent_inv_def agent_tables_ok_def act_tokens_bound_def empty_db_def key_unique_def)

lemma agent_insert_keeps [stmt_rules]: "stmt_keeps agent_inv (agent_insert_stmt i t ow n)"
  by (rule stmt_keepsI)
     (auto simp: agent_insert_stmt_def Let_def violates_def agent_inv_def agent_tables_ok_def
       act_tokens_bound_def key_unique_append tenant_exists_def)

lemma revoke_row_fields [simp]:
  "dg_id (revoke_row now d) = dg_id d" "dg_tenant_id (revoke_row now d) = dg_tenant_id d"
  "dg_agent_id (revoke_row now d) = dg_agent_id d"
  "dg_user_identity_id (revoke_row now d) = dg_user_identity_id d"
  "dg_scopes (revoke_row now d) = dg_scopes d" "dg_expires_at (revoke_row now d) = dg_expires_at d"
  "dg_revoked_at (revoke_row now d) \<noteq> None"
  by (simp_all add: revoke_row_def split: option.splits)

lemma bound_to_revoke [simp]: "bound_to (revoke_row now d) t = bound_to d t"
  by (simp add: bound_to_def)

lemma agent_update_keeps [stmt_rules]:
  assumes "\<And>now a. ag_id (f now a) = ag_id a" and "\<And>now a. ag_tenant_id (f now a) = ag_tenant_id a"
  shows "stmt_keeps agent_inv (agent_update_stmt f t i)"
proof (rule stmt_keepsI)
  fix now db
  assume inv: "agent_inv db"
  let ?upd = "\<lambda>a. if ag_tenant_id a = t \<and> ag_id a = i then f now a else a"
  have u: "key_unique ag_id (map ?upd (agents db)) = key_unique ag_id (agents db)"
    by (rule key_unique_map) (simp add: assms)
  have ids: "ag_id ` set (map ?upd (agents db)) = ag_id ` set (agents db)"
    by (rule key_image_map) (simp add: assms)
  have tn: "\<forall>a \<in> set (map ?upd (agents db)). tenant_exists db (ag_tenant_id a)"
    using inv by (auto simp: agent_inv_def agent_tables_ok_def assms)
  show "agent_inv (snd (agent_update_stmt f t i now db))"
  proof (cases "find (\<lambda>a. ag_tenant_id a = t \<and> ag_id a = i) (agents db)")
    case None
    then show ?thesis using inv by (simp add: agent_update_stmt_def)
  next
    case (Some a)
    then have "snd (agent_update_stmt f t i now db) = db\<lparr>agents := map ?upd (agents db)\<rparr>"
      by (simp add: agent_update_stmt_def)
    then show ?thesis
      using inv u ids tn
      by (simp add: agent_inv_def agent_tables_ok_def act_tokens_bound_def tenant_exists_def)
  qed
qed

lemma agent_delete_keeps [stmt_rules]: "stmt_keeps agent_inv (agent_delete_stmt t i)"
proof (rule stmt_keepsI)
  fix now db
  assume inv: "agent_inv db"
  show "agent_inv (snd (agent_delete_stmt t i now db))"
  proof (cases "filter (\<lambda>a. ag_tenant_id a = t \<and> ag_id a = i) (agents db) = []")
    case True
    then show ?thesis using inv by (simp add: agent_delete_stmt_def)
  next
    case False
    then show ?thesis
      using inv
      by (auto simp: agent_delete_stmt_def Let_def agent_inv_def agent_tables_ok_def
          act_tokens_bound_def key_unique_filter tenant_exists_def image_iff) metis
  qed
qed

lemma delegation_insert_keeps [stmt_rules]:
  "stmt_keeps agent_inv (delegation_insert_stmt i t a u sc e)"
  by (rule stmt_keepsI)
     (auto simp: delegation_insert_stmt_def Let_def violates_def agent_inv_def agent_tables_ok_def
       act_tokens_bound_def key_unique_append tenant_exists_def)

lemma delegation_revoke_keeps [stmt_rules]: "stmt_keeps agent_inv (delegation_revoke_stmt t i)"
proof (rule stmt_keepsI)
  fix now db
  assume inv: "agent_inv db"
  let ?upd = "\<lambda>x. if dg_tenant_id x = t \<and> dg_id x = i then revoke_row now x else x"
  have u: "key_unique dg_id (map ?upd (agent_delegations db)) = key_unique dg_id (agent_delegations db)"
    by (rule key_unique_map) simp
  have ids: "dg_id ` set (map ?upd (agent_delegations db)) = dg_id ` set (agent_delegations db)"
    by (rule key_image_map) simp
  show "agent_inv (snd (delegation_revoke_stmt t i now db))"
  proof (cases "find (\<lambda>d. dg_tenant_id d = t \<and> dg_id d = i) (agent_delegations db)")
    case None
    then show ?thesis using inv by (simp add: delegation_revoke_stmt_def)
  next
    case (Some d)
    then have db': "snd (delegation_revoke_stmt t i now db)
        = db\<lparr>agent_delegations := map ?upd (agent_delegations db)\<rparr>"
      by (simp add: delegation_revoke_stmt_def)
    have "act_tokens_bound (db\<lparr>agent_delegations := map ?upd (agent_delegations db)\<rparr>)"
      using inv by (auto simp: agent_inv_def act_tokens_bound_def)
    moreover have "\<forall>d \<in> set (map ?upd (agent_delegations db)). dg_agent_id d \<in> ag_id ` set (agents db)"
      using inv by (auto simp: agent_inv_def agent_tables_ok_def)
    ultimately show ?thesis
      using inv u ids unfolding db' agent_inv_def agent_tables_ok_def
      by (simp add: tenant_exists_def)
  qed
qed

lemma act_token_insert_keeps:
  assumes "\<And>db d. agent_inv db \<Longrightarrow> d \<in> set (agent_delegations db) \<Longrightarrow> dg_id d = did \<Longrightarrow>
      J db \<Longrightarrow> dg_tenant_id d = t \<and> dg_agent_id d = a \<and> dg_user_identity_id d = u
        \<and> dg_scopes d = sc \<and> e \<le> dg_expires_at d"
    and "agent_inv db" and "J db"
  shows "agent_inv (snd (act_token_insert_stmt h did t a u sc e now db))"
  using assms(1) [OF assms(2) _ _ assms(3)] assms(2)
  by (auto simp: act_token_insert_stmt_def Let_def violates_def agent_inv_def agent_tables_ok_def
      act_tokens_bound_def key_unique_append bound_to_def tenant_exists_def)

lemma membership_upsert_keeps [stmt_rules]:
  "stmt_keeps agent_inv (membership_upsert_stmt t i s v tr)"
  by (rule stmt_keepsI)
     (auto simp: membership_upsert_stmt_def Let_def violates_def agent_inv_def agent_tables_ok_def
       act_tokens_bound_def tenant_exists_def split: option.splits)

lemma membership_set_state_keeps [stmt_rules]:
  "stmt_keeps agent_inv (membership_set_state_stmt t i st)"
  by (rule stmt_keepsI)
     (auto simp: membership_set_state_stmt_def Let_def agent_inv_def agent_tables_ok_def
       act_tokens_bound_def tenant_exists_def split: option.splits)

end
