(* ===== verification/IdMappings.thy ===== *)
theory IdMappings
  imports Database
begin

text \<open>
  The \<^verbatim>\<open>IdMappingStore\<close> of \<^verbatim>\<open>db/id_mapping.rs\<close>: the table that hides Ory's global ids
  behind gateway ULIDs. The Postgres store and the in-memory store are modelled
  operation by operation; \<open>id_mapping_store\<close> is the interface both promise, and the
  client lemmas (a created mapping is found, a deleted one is not, re-homing moves it)
  are proved once in it and interpreted for both.
\<close>

section \<open>The table's constraints\<close>

definition valid_backend :: "string \<Rightarrow> bool" where
  "valid_backend b \<longleftrightarrow> b \<in> {''hydra'', ''kratos'', ''keto''}"

definition tenant_ory_key :: "id_mapping_row \<Rightarrow> string \<times> string \<times> string" where
  "tenant_ory_key r = (im_tenant_id r, im_backend r, im_ory_global_id r)"

definition id_mappings_ok :: "database \<Rightarrow> bool" where
  "id_mappings_ok db \<longleftrightarrow>
     key_unique im_id (id_mappings db) \<and> key_unique im_public_id (id_mappings db)
     \<and> key_unique tenant_ory_key (id_mappings db)
     \<and> (\<forall>r \<in> set (id_mappings db). valid_backend (im_backend r) \<and> tenant_exists db (im_tenant_id r))"

section \<open>PgIdMappingStore\<close>

definition id_mapping_insert_stmt ::
  "string \<Rightarrow> string \<Rightarrow> string \<Rightarrow> string \<Rightarrow> string \<Rightarrow> id_mapping_row stmt" where
  "id_mapping_insert_stmt i tenant_id backend public_id ory_global_id now db =
     (let row = \<lparr>im_id = i, im_tenant_id = tenant_id, im_backend = backend,
                 im_public_id = public_id, im_ory_global_id = ory_global_id, im_created_at = now\<rparr>
      in if \<not> tenant_exists db tenant_id then violates ''id_mappings_tenant_id_fkey'' db
         else if \<not> valid_backend backend then violates ''id_mappings_backend_check'' db
         else if i \<in> im_id ` set (id_mappings db) then violates ''id_mappings_pkey'' db
         else if public_id \<in> im_public_id ` set (id_mappings db)
           then violates ''id_mappings_public_id_key'' db
         else if tenant_ory_key row \<in> tenant_ory_key ` set (id_mappings db)
           then violates ''id_mappings_tenant_id_backend_ory_global_id_key'' db
         else (Inr row, db\<lparr>id_mappings := id_mappings db @ [row]\<rparr>))"

definition id_mapping_create ::
  "string \<Rightarrow> string \<Rightarrow> string \<Rightarrow> string \<Rightarrow> ('z pg_scheme, db_error, id_mapping_row) io" where
  "id_mapping_create tenant_id backend public_id ory_global_id =
     bindE ulid_new (\<lambda>i.
       pg_exec (id_mapping_insert_stmt i tenant_id backend public_id ory_global_id))"

definition get_ory_id ::
  "string \<Rightarrow> string \<Rightarrow> string \<Rightarrow> ('z pg_scheme, db_error, string) io" where
  "get_ory_id tenant_id backend public_id =
     pg_query (\<lambda>now db. ok_or MappingNotFound (map_option im_ory_global_id
       (find (\<lambda>r. im_tenant_id r = tenant_id \<and> im_backend r = backend \<and> im_public_id r = public_id)
         (id_mappings db))))"

definition get_public_id ::
  "string \<Rightarrow> string \<Rightarrow> string \<Rightarrow> ('z pg_scheme, db_error, string) io" where
  "get_public_id tenant_id backend ory_global_id =
     pg_query (\<lambda>now db. ok_or MappingNotFound (map_option im_public_id
       (find (\<lambda>r. im_tenant_id r = tenant_id \<and> im_backend r = backend
            \<and> im_ory_global_id r = ory_global_id)
         (id_mappings db))))"

definition get_public_id_by_ory_id ::
  "string \<Rightarrow> string \<Rightarrow> ('z pg_scheme, db_error, string) io" where
  "get_public_id_by_ory_id backend ory_global_id =
     pg_query_any (\<lambda>rows. ok_or MappingNotFound (map_option im_public_id
       (find (\<lambda>r. im_backend r = backend \<and> im_ory_global_id r = ory_global_id) rows)))"

definition get_tenant_id_by_ory_id ::
  "string \<Rightarrow> string \<Rightarrow> ('z pg_scheme, db_error, string option) io" where
  "get_tenant_id_by_ory_id backend ory_global_id =
     pg_query_any (\<lambda>rows. Inr (map_option im_tenant_id
       (find (\<lambda>r. im_backend r = backend \<and> im_ory_global_id r = ory_global_id) rows)))"

definition get_ory_id_by_public_id ::
  "string \<Rightarrow> string \<Rightarrow> ('z pg_scheme, db_error, string) io" where
  "get_ory_id_by_public_id backend public_id =
     pg_query_any (\<lambda>rows. ok_or MappingNotFound (map_option im_ory_global_id
       (find (\<lambda>r. im_backend r = backend \<and> im_public_id r = public_id) rows)))"

text \<open>\<^verbatim>\<open>applications.public_id\<close> references \<^verbatim>\<open>id_mappings(public_id) ON DELETE CASCADE\<close>.\<close>

definition id_mapping_delete_stmt :: "string \<Rightarrow> string \<Rightarrow> string \<Rightarrow> unit stmt" where
  "id_mapping_delete_stmt tenant_id backend public_id now db =
     (let hit = (\<lambda>r. im_tenant_id r = tenant_id \<and> im_backend r = backend \<and> im_public_id r = public_id);
          gone = im_public_id ` set (filter hit (id_mappings db))
      in if filter hit (id_mappings db) = [] then (Inl MappingNotFound, db)
         else (Inr (), db\<lparr>id_mappings := filter (\<lambda>r. \<not> hit r) (id_mappings db),
                          applications := filter (\<lambda>a. ap_public_id a \<notin> gone) (applications db)\<rparr>))"

definition id_mapping_delete ::
  "string \<Rightarrow> string \<Rightarrow> string \<Rightarrow> ('z pg_scheme, db_error, unit) io" where
  "id_mapping_delete tenant_id backend public_id =
     pg_exec (id_mapping_delete_stmt tenant_id backend public_id)"

definition list_mappings ::
  "string \<Rightarrow> string \<Rightarrow> ('z pg_scheme, db_error, id_mapping_row list) io" where
  "list_mappings tenant_id backend =
     pg_query (\<lambda>now db. Inr (sort_key (\<lambda>r. - im_created_at r)
       (filter (\<lambda>r. im_tenant_id r = tenant_id \<and> im_backend r = backend) (id_mappings db))))"

definition list_public_ids ::
  "string \<Rightarrow> string \<Rightarrow> ('z pg_scheme, db_error, string list) io" where
  "list_public_ids tenant_id backend =
     pg_query (\<lambda>now db. Inr (map im_public_id (sort_key (\<lambda>r. - im_created_at r)
       (filter (\<lambda>r. im_tenant_id r = tenant_id \<and> im_backend r = backend) (id_mappings db)))))"

definition id_mapping_update_tenant_stmt :: "string \<Rightarrow> string \<Rightarrow> string \<Rightarrow> unit stmt" where
  "id_mapping_update_tenant_stmt backend public_id new_tenant_id now db =
     (let hit = (\<lambda>r. im_backend r = backend \<and> im_public_id r = public_id);
          rows = map (\<lambda>r. if hit r then r\<lparr>im_tenant_id := new_tenant_id\<rparr> else r) (id_mappings db)
      in if filter hit (id_mappings db) = [] then (Inl MappingNotFound, db)
         else if \<not> tenant_exists db new_tenant_id then violates ''id_mappings_tenant_id_fkey'' db
         else if \<not> key_unique tenant_ory_key rows
           then violates ''id_mappings_tenant_id_backend_ory_global_id_key'' db
         else (Inr (), db\<lparr>id_mappings := rows\<rparr>))"

definition id_mapping_update_tenant ::
  "string \<Rightarrow> string \<Rightarrow> string \<Rightarrow> ('z pg_scheme, db_error, unit) io" where
  "id_mapping_update_tenant backend public_id new_tenant_id =
     pg_exec (id_mapping_update_tenant_stmt backend public_id new_tenant_id)"

section \<open>Every statement keeps the constraints\<close>

lemma id_mapping_insert_ok [stmt_rules]:
  "stmt_keeps id_mappings_ok (id_mapping_insert_stmt i t b p g)"
proof (rule stmt_keepsI)
  fix now db
  assume ok: "id_mappings_ok db"
  show "id_mappings_ok (snd (id_mapping_insert_stmt i t b p g now db))"
    using ok
    by (auto simp: id_mapping_insert_stmt_def violates_def id_mappings_ok_def Let_def
        key_unique_append tenant_exists_def)
qed

lemma id_mapping_delete_ok [stmt_rules]: "stmt_keeps id_mappings_ok (id_mapping_delete_stmt t b p)"
  by (rule stmt_keepsI)
     (auto simp: id_mapping_delete_stmt_def id_mappings_ok_def Let_def key_unique_filter
       tenant_exists_def)

lemma id_mapping_update_tenant_ok [stmt_rules]:
  "stmt_keeps id_mappings_ok (id_mapping_update_tenant_stmt b p t)"
proof (rule stmt_keepsI)
  fix now db
  assume ok: "id_mappings_ok db"
  have id: "key_unique im_id (map (\<lambda>r. if im_backend r = b \<and> im_public_id r = p
      then r\<lparr>im_tenant_id := t\<rparr> else r) (id_mappings db)) = key_unique im_id (id_mappings db)"
    by (rule key_unique_map) simp
  have pub: "key_unique im_public_id (map (\<lambda>r. if im_backend r = b \<and> im_public_id r = p
      then r\<lparr>im_tenant_id := t\<rparr> else r) (id_mappings db)) = key_unique im_public_id (id_mappings db)"
    by (rule key_unique_map) simp
  show "id_mappings_ok (snd (id_mapping_update_tenant_stmt b p t now db))"
    using ok
    by (auto simp: id_mapping_update_tenant_stmt_def violates_def id_mappings_ok_def Let_def
        id pub tenant_exists_def)
qed

text \<open>Lookups under the constraints.\<close>

lemma find_public_id:
  assumes "key_unique im_public_id rows" and "r \<in> set rows" and "P r"
    and "\<And>x. P x \<Longrightarrow> im_public_id x = im_public_id r"
  shows "find P rows = Some r"
  using find_key_unique [OF assms(1,2), of P] assms(3,4) by blast

section \<open>MemoryIdMappingStore\<close>

text \<open>
  The \<^verbatim>\<open>HashMap\<close> of the in-memory store as the list of its entries; \<open>mem_iter\<close> is the
  order in which the map is iterated, which Rust leaves open. A poisoned lock is
  recovered by \<^verbatim>\<open>into_inner\<close>, so locking never fails.
\<close>

record mem_mappings =
  mem_rows :: "((string \<times> string \<times> string) \<times> id_mapping_row) list"
  mem_iter :: "id_mapping_row list \<Rightarrow> id_mapping_row list"
  mem_now :: instant
  mem_ulid :: "nat \<Rightarrow> string"
  mem_ulids :: nat

definition mem_values :: "mem_mappings \<Rightarrow> id_mapping_row list" where
  "mem_values m = mem_iter m (map snd (mem_rows m))"

definition mem_create_at ::
  "string \<Rightarrow> string \<Rightarrow> string \<Rightarrow> string \<Rightarrow> instant \<Rightarrow> (mem_mappings, db_error, id_mapping_row) io" where
  "mem_create_at tenant_id backend public_id ory_global_id created_at m =
     (let key = (tenant_id, backend, public_id);
          row = \<lparr>im_id = mem_ulid m (mem_ulids m), im_tenant_id = tenant_id, im_backend = backend,
                 im_public_id = public_id, im_ory_global_id = ory_global_id,
                 im_created_at = created_at\<rparr>
      in if map_of (mem_rows m) key \<noteq> None then (Inl MappingNotFound, m)
         else (Inr row, m\<lparr>mem_rows := (key, row) # mem_rows m, mem_ulids := Suc (mem_ulids m)\<rparr>))"

definition mem_create ::
  "string \<Rightarrow> string \<Rightarrow> string \<Rightarrow> string \<Rightarrow> (mem_mappings, db_error, id_mapping_row) io" where
  "mem_create tenant_id backend public_id ory_global_id m =
     mem_create_at tenant_id backend public_id ory_global_id (mem_now m) m"

definition mem_get_ory_id :: "string \<Rightarrow> string \<Rightarrow> string \<Rightarrow> (mem_mappings, db_error, string) io" where
  "mem_get_ory_id tenant_id backend public_id m =
     (ok_or MappingNotFound
        (map_option im_ory_global_id (map_of (mem_rows m) (tenant_id, backend, public_id))), m)"

definition mem_get_public_id :: "string \<Rightarrow> string \<Rightarrow> string \<Rightarrow> (mem_mappings, db_error, string) io" where
  "mem_get_public_id tenant_id backend ory_global_id m =
     (ok_or MappingNotFound (map_option im_public_id
        (find (\<lambda>r. im_tenant_id r = tenant_id \<and> im_backend r = backend
             \<and> im_ory_global_id r = ory_global_id) (mem_values m))), m)"

definition mem_get_ory_id_by_public_id :: "string \<Rightarrow> string \<Rightarrow> (mem_mappings, db_error, string) io" where
  "mem_get_ory_id_by_public_id backend public_id m =
     (ok_or MappingNotFound (map_option im_ory_global_id
        (find (\<lambda>r. im_backend r = backend \<and> im_public_id r = public_id) (mem_values m))), m)"

definition mem_get_public_id_by_ory_id :: "string \<Rightarrow> string \<Rightarrow> (mem_mappings, db_error, string) io" where
  "mem_get_public_id_by_ory_id backend ory_global_id m =
     (ok_or MappingNotFound (map_option im_public_id
        (find (\<lambda>r. im_backend r = backend \<and> im_ory_global_id r = ory_global_id) (mem_values m))), m)"

definition mem_get_tenant_id_by_ory_id ::
  "string \<Rightarrow> string \<Rightarrow> (mem_mappings, db_error, string option) io" where
  "mem_get_tenant_id_by_ory_id backend ory_global_id m =
     (Inr (map_option im_tenant_id
        (find (\<lambda>r. im_backend r = backend \<and> im_ory_global_id r = ory_global_id) (mem_values m))), m)"

definition mem_delete :: "string \<Rightarrow> string \<Rightarrow> string \<Rightarrow> (mem_mappings, db_error, unit) io" where
  "mem_delete tenant_id backend public_id m =
     (let key = (tenant_id, backend, public_id)
      in if map_of (mem_rows m) key = None then (Inl MappingNotFound, m)
         else (Inr (), m\<lparr>mem_rows := filter (\<lambda>(k, _). k \<noteq> key) (mem_rows m)\<rparr>))"

definition mem_list_mappings :: "string \<Rightarrow> string \<Rightarrow> (mem_mappings, db_error, id_mapping_row list) io" where
  "mem_list_mappings tenant_id backend m =
     (Inr (sort_key (\<lambda>r. - im_created_at r)
        (filter (\<lambda>r. im_tenant_id r = tenant_id \<and> im_backend r = backend) (mem_values m))), m)"

definition mem_list_public_ids :: "string \<Rightarrow> string \<Rightarrow> (mem_mappings, db_error, string list) io" where
  "mem_list_public_ids tenant_id backend =
     bindE (mem_list_mappings tenant_id backend) (\<lambda>rows. ret (map im_public_id rows))"

definition mem_update_tenant :: "string \<Rightarrow> string \<Rightarrow> string \<Rightarrow> (mem_mappings, db_error, unit) io" where
  "mem_update_tenant backend public_id new_tenant_id m =
     (case find (\<lambda>r. im_backend r = backend \<and> im_public_id r = public_id) (mem_values m) of
        None \<Rightarrow> (Inl MappingNotFound, m)
      | Some r \<Rightarrow>
          let old_key = (im_tenant_id r, im_backend r, im_public_id r);
              new_key = (new_tenant_id, backend, public_id)
          in case map_of (mem_rows m) old_key of
               None \<Rightarrow> (Inr (), m)
             | Some row \<Rightarrow>
                 (Inr (), m\<lparr>mem_rows :=
                    (new_key, row\<lparr>im_tenant_id := new_tenant_id\<rparr>)
                      # filter (\<lambda>(k, _). k \<noteq> old_key \<and> k \<noteq> new_key) (mem_rows m)\<rparr>))"


section \<open>The interface\<close>

text \<open>
  What a client of \<^verbatim>\<open>dyn IdMappingStore\<close> may rely on. The laws speak about calls that
  return: a store may fail with another error at any time.
\<close>

definition at_key :: "string \<Rightarrow> string \<Rightarrow> string \<Rightarrow> id_mapping_row \<Rightarrow> bool" where
  "at_key t b p r \<longleftrightarrow> im_tenant_id r = t \<and> im_backend r = b \<and> im_public_id r = p"

locale id_mapping_store =
  fixes create :: "string \<Rightarrow> string \<Rightarrow> string \<Rightarrow> string \<Rightarrow> ('s, db_error, id_mapping_row) io"
    and get_ory :: "string \<Rightarrow> string \<Rightarrow> string \<Rightarrow> ('s, db_error, string) io"
    and remove :: "string \<Rightarrow> string \<Rightarrow> string \<Rightarrow> ('s, db_error, unit) io"
    and rehome :: "string \<Rightarrow> string \<Rightarrow> string \<Rightarrow> ('s, db_error, unit) io"
    and rows :: "'s \<Rightarrow> id_mapping_row set"
    and inv :: "'s \<Rightarrow> bool"
  assumes key_law: "inv s \<Longrightarrow> r \<in> rows s \<Longrightarrow> r' \<in> rows s \<Longrightarrow> at_key t b p r \<Longrightarrow> at_key t b p r' \<Longrightarrow> r = r'"
    and create_inv: "inv s \<Longrightarrow> create t b p g s = (c, s') \<Longrightarrow> inv s'"
    and create_law: "inv s \<Longrightarrow> create t b p g s = (Inr row, s') \<Longrightarrow>
      rows s' = insert row (rows s) \<and> at_key t b p row \<and> im_ory_global_id row = g
      \<and> (\<forall>r \<in> rows s. \<not> at_key t b p r)"
    and get_frame: "inv s \<Longrightarrow> get_ory t b p s = (x, s') \<Longrightarrow> rows s' = rows s \<and> inv s'"
    and get_found: "inv s \<Longrightarrow> get_ory t b p s = (Inr g, s') \<Longrightarrow>
      \<exists>r \<in> rows s. at_key t b p r \<and> im_ory_global_id r = g"
    and get_missing: "inv s \<Longrightarrow> get_ory t b p s = (Inl MappingNotFound, s') \<Longrightarrow>
      \<forall>r \<in> rows s. \<not> at_key t b p r"
    and remove_inv: "inv s \<Longrightarrow> remove t b p s = (d, s') \<Longrightarrow> inv s'"
    and remove_law: "inv s \<Longrightarrow> remove t b p s = (Inr (), s') \<Longrightarrow>
      rows s' = {r \<in> rows s. \<not> at_key t b p r} \<and> (\<exists>r \<in> rows s. at_key t b p r)"
    and rehome_inv: "inv s \<Longrightarrow> rehome b p t' s = (d, s') \<Longrightarrow> inv s'"
    and rehome_law: "inv s \<Longrightarrow> rehome b p t' s = (Inr (), s') \<Longrightarrow>
      \<exists>r \<in> rows s. im_backend r = b \<and> im_public_id r = p
        \<and> rows s' = insert (r\<lparr>im_tenant_id := t'\<rparr>) {y \<in> rows s. y \<noteq> r \<and> \<not> at_key t' b p y}"
begin

lemma create_then_get:
  assumes "inv s" and "create t b p g s = (Inr row, s1)" and "get_ory t b p s1 = (x, s2)"
  shows "x \<noteq> Inl MappingNotFound \<and> (\<forall>g'. x = Inr g' \<longrightarrow> g' = g)"
proof -
  have rows1: "rows s1 = insert row (rows s)" and row: "at_key t b p row" "im_ory_global_id row = g"
    using create_law [OF assms(1,2)] by auto
  have inv1: "inv s1" using create_inv [OF assms(1,2)] .
  have "x \<noteq> Inl MappingNotFound"
    using get_missing [OF inv1] assms(3) rows1 row by blast
  moreover have "g' = g" if xg: "x = Inr g'" for g'
  proof -
    obtain r where "r \<in> rows s1" "at_key t b p r" "im_ory_global_id r = g'"
      using get_found [OF inv1, of t b p g' s2] assms(3) xg by auto
    moreover have "row \<in> rows s1" using rows1 by simp
    ultimately show ?thesis using key_law [OF inv1] row by blast
  qed
  ultimately show ?thesis by blast
qed

lemma remove_then_get:
  assumes "inv s" and "remove t b p s = (Inr (), s1)" and "get_ory t b p s1 = (Inr g, s2)"
  shows False
  using get_found [OF remove_inv [OF assms(1,2)] assms(3)] remove_law [OF assms(1,2)] by auto

lemma remove_keeps_others:
  assumes "inv s" and "remove t b p s = (Inr (), s1)" and "(t', b', p') \<noteq> (t, b, p)"
    and "get_ory t' b' p' s1 = (Inr g, s2)"
  shows "\<exists>r \<in> rows s. at_key t' b' p' r \<and> im_ory_global_id r = g"
  using get_found [OF remove_inv [OF assms(1,2)] assms(4)] remove_law [OF assms(1,2)] by auto

lemma rehome_then_get:
  assumes "inv s" and "rehome b p t' s = (Inr (), s1)" and "get_ory t' b p s1 = (x, s2)"
  shows "x \<noteq> Inl MappingNotFound
    \<and> (\<forall>g. x = Inr g \<longrightarrow> (\<exists>r \<in> rows s. im_backend r = b \<and> im_public_id r = p \<and> im_ory_global_id r = g))"
proof -
  have inv1: "inv s1" using rehome_inv [OF assms(1,2)] .
  obtain r where r: "r \<in> rows s" "im_backend r = b" "im_public_id r = p"
    and rows1: "rows s1 = insert (r\<lparr>im_tenant_id := t'\<rparr>) {x \<in> rows s. x \<noteq> r \<and> \<not> at_key t' b p x}"
    using rehome_law [OF assms(1,2)] by blast
  have here: "at_key t' b p (r\<lparr>im_tenant_id := t'\<rparr>)" and "r\<lparr>im_tenant_id := t'\<rparr> \<in> rows s1"
    using r rows1 by (auto simp: at_key_def)
  then have "x \<noteq> Inl MappingNotFound"
    using get_missing [OF inv1] assms(3) by blast
  moreover have "im_ory_global_id r = g" if "x = Inr g" for g
    using get_found [OF inv1] assms(3) that here rows1 by fastforce
  ultimately show ?thesis using r by blast
qed

text \<open>A tenant's lookups never see a mapping created for another tenant.\<close>

lemma create_isolated:
  assumes "inv s" and "create t b p g s = (Inr row, s1)" and "t' \<noteq> t"
    and "get_ory t' b' p' s1 = (Inr g', s2)"
  shows "\<exists>r \<in> rows s. at_key t' b' p' r \<and> im_ory_global_id r = g'"
  using get_found [OF create_inv [OF assms(1,2)] assms(4)] create_law [OF assms(1,2)] assms(3)
  by (auto simp: at_key_def)

end

subsection \<open>The Postgres store implements it\<close>

abbreviation pg_rows :: "'z pg_scheme \<Rightarrow> id_mapping_row set" where
  "pg_rows w \<equiv> set (id_mappings (pg_db w))"

abbreviation pg_inv :: "'z pg_scheme \<Rightarrow> bool" where
  "pg_inv w \<equiv> id_mappings_ok (pg_db w)"

lemma keeps_id_mapping_create [keeps_rules]: "keeps pg_inv (id_mapping_create t b p g)"
  unfolding id_mapping_create_def
  by (intro keeps_bindE keeps_ulid_new keeps_pg_exec id_mapping_insert_ok)

lemma keeps_id_mapping_delete [keeps_rules]: "keeps pg_inv (id_mapping_delete t b p)"
  unfolding id_mapping_delete_def by (intro keeps_pg_exec id_mapping_delete_ok)

lemma keeps_id_mapping_update_tenant [keeps_rules]: "keeps pg_inv (id_mapping_update_tenant b p t)"
  unfolding id_mapping_update_tenant_def by (intro keeps_pg_exec id_mapping_update_tenant_ok)

lemma id_mapping_insert_stmt_Inr:
  assumes "fst (id_mapping_insert_stmt i t b p g now db) = Inr row"
  shows "row = \<lparr>im_id = i, im_tenant_id = t, im_backend = b, im_public_id = p,
      im_ory_global_id = g, im_created_at = now\<rparr>
    \<and> snd (id_mapping_insert_stmt i t b p g now db) = db\<lparr>id_mappings := id_mappings db @ [row]\<rparr>
    \<and> p \<notin> im_public_id ` set (id_mappings db)
    \<and> tenant_ory_key row \<notin> tenant_ory_key ` set (id_mappings db)
    \<and> tenant_exists db t \<and> valid_backend b"
  using assms unfolding id_mapping_insert_stmt_def violates_def Let_def
  by (simp split: if_split_asm)

lemma id_mapping_create_Inr:
  assumes "id_mapping_create t b p g w = (Inr row, v)"
  shows "pg_db v = (pg_db w)\<lparr>id_mappings := id_mappings (pg_db w) @ [row]\<rparr>
    \<and> at_key t b p row \<and> im_ory_global_id row = g \<and> im_created_at row = pg_now w
    \<and> p \<notin> im_public_id ` set (id_mappings (pg_db w))
    \<and> tenant_ory_key row \<notin> tenant_ory_key ` set (id_mappings (pg_db w))
    \<and> tenant_exists (pg_db w) t \<and> valid_backend b"
proof -
  obtain i u where u: "u = w\<lparr>pg_ulids := Suc (pg_ulids w)\<rparr>"
    and run: "pg_exec (id_mapping_insert_stmt i t b p g) u = (Inr row, v)"
    using assms unfolding id_mapping_create_def ulid_new_def
    by (auto elim: bindE_InrE)
  have fst: "fst (id_mapping_insert_stmt i t b p g (pg_now w) (pg_db w)) = Inr row"
    and v: "pg_db v = snd (id_mapping_insert_stmt i t b p g (pg_now w) (pg_db w))"
    using pg_exec_Inr [OF run] by (simp_all add: u)
  show ?thesis using id_mapping_insert_stmt_Inr [OF fst] v by (auto simp: at_key_def)
qed

lemma get_ory_id_state: "get_ory_id t b p w = (x, v) \<Longrightarrow> v = w\<lparr>pg_queries := Suc (pg_queries w)\<rparr>"
  unfolding get_ory_id_def by (drule arg_cong [of _ _ snd]) (simp add: pg_query_state)

lemma get_ory_id_result:
  assumes "get_ory_id t b p w = (x, v)"
  shows "(\<exists>m. x = Inl (Sqlx m))
    \<or> x = ok_or MappingNotFound (map_option im_ory_global_id (find (at_key t b p) (id_mappings (pg_db w))))"
  using pg_query_result [OF assms [unfolded get_ory_id_def]]
  by (simp add: at_key_def [abs_def])

lemma id_mapping_delete_Inr:
  assumes "id_mapping_delete t b p w = (Inr (), v)"
  shows "set (id_mappings (pg_db v)) = {r \<in> set (id_mappings (pg_db w)). \<not> at_key t b p r}
    \<and> (\<exists>r \<in> set (id_mappings (pg_db w)). at_key t b p r)"
  using pg_exec_Inr [OF assms [unfolded id_mapping_delete_def]]
  by (auto simp: id_mapping_delete_stmt_def Let_def at_key_def filter_empty_conv split: if_splits)

lemma id_mapping_update_tenant_Inr:
  assumes ok: "id_mappings_ok (pg_db w)" and run: "id_mapping_update_tenant b p t w = (Inr (), v)"
  shows "\<exists>r \<in> pg_rows w. im_backend r = b \<and> im_public_id r = p
    \<and> pg_rows v = insert (r\<lparr>im_tenant_id := t\<rparr>) {x \<in> pg_rows w. x \<noteq> r \<and> \<not> at_key t b p x}"
proof -
  let ?hit = "\<lambda>r. im_backend r = b \<and> im_public_id r = p"
  let ?upd = "\<lambda>r. if ?hit r then r\<lparr>im_tenant_id := t\<rparr> else r"
  have rows: "id_mappings (pg_db v) = map ?upd (id_mappings (pg_db w))"
    and hit: "filter ?hit (id_mappings (pg_db w)) \<noteq> []"
    using pg_exec_Inr [OF run [unfolded id_mapping_update_tenant_def]]
    by (auto simp: id_mapping_update_tenant_stmt_def violates_def Let_def split: if_splits)
  then obtain r where r: "r \<in> pg_rows w" "?hit r"
    by (auto simp: filter_empty_conv)
  have uniq: "x = r" if "x \<in> pg_rows w" "?hit x" for x
    using ok r that unfolding id_mappings_ok_def by (metis key_uniqueD)
  have others: "\<not> at_key t b p x" if "x \<in> pg_rows w" "x \<noteq> r" for x
    using uniq that by (auto simp: at_key_def)
  have "?upd ` pg_rows w = insert (r\<lparr>im_tenant_id := t\<rparr>) (pg_rows w - {r})"
    using r by (rule image_update_one) (use uniq in auto)
  also have "pg_rows w - {r} = {x \<in> pg_rows w. x \<noteq> r \<and> \<not> at_key t b p x}"
    using others by blast
  finally have "?upd ` pg_rows w
    = insert (r\<lparr>im_tenant_id := t\<rparr>) {x \<in> pg_rows w. x \<noteq> r \<and> \<not> at_key t b p x}" .
  with rows r show ?thesis by auto
qed

interpretation pg_mappings:
  id_mapping_store id_mapping_create get_ory_id id_mapping_delete id_mapping_update_tenant
    pg_rows pg_inv
proof (unfold_locales, goal_cases)
  case (1 s r r' t b p)
  then have "key_unique im_public_id (id_mappings (pg_db s))" and "im_public_id r = im_public_id r'"
    by (simp_all add: id_mappings_ok_def at_key_def)
  then show ?case using 1(2,3) by (blast intro: key_uniqueD)
next
  case 2
  then show ?case using keepsD [OF keeps_id_mapping_create] by blast
next
  case (3 s t b p g row s')
  then show ?case using id_mapping_create_Inr [OF 3(2)] by (auto simp: at_key_def image_iff)
next
  case 4
  then show ?case using get_ory_id_state by fastforce
next
  case 5
  then show ?case using get_ory_id_result [OF 5(2)] by (auto dest: find_SomeD)
next
  case 6
  then show ?case using get_ory_id_result [OF 6(2)] by (auto dest: find_NoneD)
next
  case 7
  then show ?case using keepsD [OF keeps_id_mapping_delete] by blast
next
  case 8
  then show ?case using id_mapping_delete_Inr by blast
next
  case 9
  then show ?case using keepsD [OF keeps_id_mapping_update_tenant] by blast
next
  case 10
  then show ?case using id_mapping_update_tenant_Inr by blast
qed

subsection \<open>The in-memory store implements it\<close>

definition mem_inv :: "mem_mappings \<Rightarrow> bool" where
  "mem_inv m \<longleftrightarrow> distinct (map fst (mem_rows m))
     \<and> (\<forall>(k, r) \<in> set (mem_rows m). k = (im_tenant_id r, im_backend r, im_public_id r))
     \<and> (\<forall>xs. set (mem_iter m xs) = set xs)"

abbreviation mem_row_set :: "mem_mappings \<Rightarrow> id_mapping_row set" where
  "mem_row_set m \<equiv> snd ` set (mem_rows m)"

lemma mem_row_entry:
  assumes "\<And>k x. (k, x) \<in> set xs \<Longrightarrow> k = f x"
  shows "x \<in> snd ` set xs \<longleftrightarrow> (f x, x) \<in> set xs"
  using assms by force

lemma mem_lookup:
  assumes "mem_inv m"
  shows "map_of (mem_rows m) (t, b, p) = Some r \<longleftrightarrow> r \<in> mem_row_set m \<and> at_key t b p r"
proof -
  have keys: "\<And>k x. (k, x) \<in> set (mem_rows m) \<Longrightarrow> k = (im_tenant_id x, im_backend x, im_public_id x)"
    and dist: "distinct (map fst (mem_rows m))"
    using assms by (auto simp: mem_inv_def)
  have "map_of (mem_rows m) (t, b, p) = Some r \<longleftrightarrow> ((t, b, p), r) \<in> set (mem_rows m)"
    using dist by (rule map_of_eq_Some_iff)
  also have "\<dots> \<longleftrightarrow> r \<in> mem_row_set m \<and> at_key t b p r"
    using keys [of "(t, b, p)" r] mem_row_entry [OF keys, where x = r] by (auto simp: at_key_def)
  finally show ?thesis .
qed

lemma mem_lookup_None:
  assumes "mem_inv m"
  shows "map_of (mem_rows m) (t, b, p) = None \<longleftrightarrow> (\<forall>r \<in> mem_row_set m. \<not> at_key t b p r)"
  using mem_lookup [OF assms] by (metis not_None_eq)

lemma mem_update_tenant_Inr:
  assumes inv: "mem_inv m" and run: "mem_update_tenant b p t' m = (Inr (), m')"
  shows "mem_inv m' \<and> (\<exists>r \<in> mem_row_set m. im_backend r = b \<and> im_public_id r = p
    \<and> mem_row_set m' = insert (r\<lparr>im_tenant_id := t'\<rparr>) {x \<in> mem_row_set m. x \<noteq> r \<and> \<not> at_key t' b p x})"
proof -
  let ?hit = "\<lambda>r. im_backend r = b \<and> im_public_id r = p"
  from run obtain r where f: "find ?hit (mem_values m) = Some r"
    by (auto simp: mem_update_tenant_def split: option.splits)
  have "r \<in> set (mem_values m)" and hit: "?hit r" using find_SomeD [OF f] by auto
  then have r: "r \<in> mem_row_set m" using inv by (simp add: mem_values_def mem_inv_def)
  let ?k = "(im_tenant_id r, b, p)"
  have look: "map_of (mem_rows m) ?k = Some r"
    using mem_lookup [OF inv] r hit by (auto simp: at_key_def)
  have m': "m' = m\<lparr>mem_rows := ((t', b, p), r\<lparr>im_tenant_id := t'\<rparr>)
      # filter (\<lambda>(k, _). k \<noteq> ?k \<and> k \<noteq> (t', b, p)) (mem_rows m)\<rparr>"
    using run f look hit by (auto simp: mem_update_tenant_def Let_def)
  have keys: "\<And>k x. (k, x) \<in> set (mem_rows m) \<Longrightarrow> k = (im_tenant_id x, im_backend x, im_public_id x)"
    using inv by (auto simp: mem_inv_def)
  have same: "x = r" if "(?k, x) \<in> set (mem_rows m)" for x
    using look inv that map_of_is_SomeI [of "mem_rows m" ?k x] by (simp add: mem_inv_def)
  have "snd ` set (filter (\<lambda>(k, _). k \<noteq> ?k \<and> k \<noteq> (t', b, p)) (mem_rows m))
      = {x \<in> mem_row_set m. x \<noteq> r \<and> \<not> at_key t' b p x}"
    (is "snd ` set (filter ?keep _) = _")
  proof -
    have "x \<in> snd ` set (filter ?keep (mem_rows m)) \<longleftrightarrow> x \<in> mem_row_set m \<and> x \<noteq> r \<and> \<not> at_key t' b p x" for x
    proof -
      have "x \<in> mem_row_set m \<longleftrightarrow> ((im_tenant_id x, im_backend x, im_public_id x), x) \<in> set (mem_rows m)"
        using keys by (rule mem_row_entry)
      moreover have "x \<in> snd ` set (filter ?keep (mem_rows m)) \<longleftrightarrow>
          ((im_tenant_id x, im_backend x, im_public_id x), x) \<in> set (filter ?keep (mem_rows m))"
        by (rule mem_row_entry) (use keys in auto)
      ultimately show ?thesis using same hit by (auto simp: at_key_def)
    qed
    then show ?thesis by blast
  qed
  moreover have "mem_inv m'"
  proof -
    have "distinct (map fst (filter ?keep (mem_rows m)))"
      using inv by (simp add: mem_inv_def distinct_map_filter)
    then show ?thesis using inv hit unfolding m' mem_inv_def by auto
  qed
  ultimately show ?thesis using r hit m' by auto
qed

interpretation mem_mappings_store:
  id_mapping_store mem_create mem_get_ory_id mem_delete mem_update_tenant mem_row_set mem_inv
proof (unfold_locales, goal_cases)
  case (1 s r r' t b p)
  then show ?case using mem_lookup [OF 1(1)] by (metis option.inject)
next
  case 2
  then show ?case
    by (auto simp: mem_create_def mem_create_at_def Let_def mem_inv_def map_of_eq_None_iff split: if_splits)
next
  case 3
  then show ?case using mem_lookup_None [OF 3(1)]
    by (auto simp: mem_create_def mem_create_at_def Let_def at_key_def split: if_splits)
next
  case 4
  then show ?case by (auto simp: mem_get_ory_id_def)
next
  case 5
  then show ?case using mem_lookup [OF 5(1)] by (auto simp: mem_get_ory_id_def)
next
  case 6
  then show ?case using mem_lookup_None [OF 6(1)] by (auto simp: mem_get_ory_id_def)
next
  case 7
  then show ?case
    by (auto simp: mem_delete_def mem_inv_def Let_def distinct_map_filter split: if_splits)
next
  case (8 s t b p s')
  have "snd ` set (filter (\<lambda>(k, _). k \<noteq> (t, b, p)) (mem_rows s)) = {r \<in> mem_row_set s. \<not> at_key t b p r}"
    using 8(1) by (force simp: mem_inv_def at_key_def image_iff)
  moreover have "s' = s\<lparr>mem_rows := filter (\<lambda>(k, _). k \<noteq> (t, b, p)) (mem_rows s)\<rparr>"
    and "map_of (mem_rows s) (t, b, p) \<noteq> None"
    using 8(2) by (auto simp: mem_delete_def Let_def split: if_splits)
  ultimately show ?case using mem_lookup_None [OF 8(1), of t b p] by auto
next
  case (9 s b p t' x s')
  then have "x = Inr () \<or> s' = s"
    by (auto simp: mem_update_tenant_def Let_def split: option.splits)
  then show ?case using mem_update_tenant_Inr [OF 9(1)] 9 by blast
next
  case 10
  then show ?case using mem_update_tenant_Inr by blast
qed

section \<open>The memory store stands in for Postgres\<close>

text \<open>
  The tests of the services run on the in-memory store. One call, on either store, with
  the rows' identifiers and times dropped from the result.
\<close>

datatype mapping_call =
    CallCreate string string string string
  | CallGetOryId string string string
  | CallDelete string string string
  | CallUpdateTenant string string string

definition has_mapping :: "id_mapping_row set \<Rightarrow> string \<Rightarrow> string \<Rightarrow> string \<Rightarrow> string \<Rightarrow> bool" where
  "has_mapping rs t b p g \<longleftrightarrow> (\<exists>r \<in> rs. at_key t b p r \<and> im_ory_global_id r = g)"

definition same_mappings :: "id_mapping_row set \<Rightarrow> id_mapping_row set \<Rightarrow> bool" where
  "same_mappings rs rs' \<longleftrightarrow> (\<forall>t b p g. has_mapping rs t b p g = has_mapping rs' t b p g)"

definition run_mapping_call ::
  "(string \<Rightarrow> string \<Rightarrow> string \<Rightarrow> string \<Rightarrow> ('s, db_error, id_mapping_row) io)
    \<Rightarrow> (string \<Rightarrow> string \<Rightarrow> string \<Rightarrow> ('s, db_error, string) io)
    \<Rightarrow> (string \<Rightarrow> string \<Rightarrow> string \<Rightarrow> ('s, db_error, unit) io)
    \<Rightarrow> (string \<Rightarrow> string \<Rightarrow> string \<Rightarrow> ('s, db_error, unit) io)
    \<Rightarrow> mapping_call \<Rightarrow> ('s, db_error, string option) io" where
  "run_mapping_call create get remove rehome call =
     (case call of
        CallCreate t b p g \<Rightarrow> bindE (create t b p g) (\<lambda>r. ret (Some (im_ory_global_id r)))
      | CallGetOryId t b p \<Rightarrow> bindE (get t b p) (\<lambda>g. ret (Some g))
      | CallDelete t b p \<Rightarrow> bindE (remove t b p) (\<lambda>_. ret None)
      | CallUpdateTenant b p t \<Rightarrow> bindE (rehome b p t) (\<lambda>_. ret None))"

abbreviation pg_mapping_call :: "mapping_call \<Rightarrow> ('z pg_scheme, db_error, string option) io" where
  "pg_mapping_call \<equiv> run_mapping_call id_mapping_create get_ory_id id_mapping_delete id_mapping_update_tenant"

abbreviation mem_mapping_call :: "mapping_call \<Rightarrow> (mem_mappings, db_error, string option) io" where
  "mem_mapping_call \<equiv> run_mapping_call mem_create mem_get_ory_id mem_delete mem_update_tenant"

text \<open>A call was answered when it succeeded or found no mapping.\<close>

definition answered :: "db_error + 'a \<Rightarrow> bool" where
  "answered x \<longleftrightarrow> (case x of Inr _ \<Rightarrow> True | Inl e \<Rightarrow> e = MappingNotFound)"

text \<open>What each successful call does to the set of mappings, for any store of the interface.\<close>

context id_mapping_store
begin

lemma mapping_create:
  "inv s \<Longrightarrow> create t b p g s = (Inr row, s') \<Longrightarrow>
    has_mapping (rows s') t1 b1 p1 g1 \<longleftrightarrow> (t1, b1, p1, g1) = (t, b, p, g) \<or> has_mapping (rows s) t1 b1 p1 g1"
  using create_law [of s t b p g row s'] by (auto simp: has_mapping_def at_key_def)

lemma mapping_remove:
  "inv s \<Longrightarrow> remove t b p s = (Inr (), s') \<Longrightarrow>
    has_mapping (rows s') t1 b1 p1 g1 \<longleftrightarrow> has_mapping (rows s) t1 b1 p1 g1 \<and> (t1, b1, p1) \<noteq> (t, b, p)"
  using remove_law [of s t b p s'] by (auto simp: has_mapping_def at_key_def)

lemma mapping_rehome:
  assumes inv: "inv s" and run: "rehome b p t' s = (Inr (), s')"
    and one: "\<And>t1 g1. has_mapping (rows s) t1 b p g1 \<Longrightarrow> t1 = t \<and> g1 = g"
  shows "has_mapping (rows s') t1 b1 p1 g1 \<longleftrightarrow>
    (if b1 = b \<and> p1 = p then t1 = t' \<and> g1 = g else has_mapping (rows s) t1 b1 p1 g1)"
proof -
  obtain r where r: "r \<in> rows s" "im_backend r = b" "im_public_id r = p"
    and rows': "rows s' = insert (r\<lparr>im_tenant_id := t'\<rparr>) {y \<in> rows s. y \<noteq> r \<and> \<not> at_key t' b p y}"
    using rehome_law [OF inv run] by blast
  have at: "im_tenant_id y = t \<and> im_ory_global_id y = g" if "y \<in> rows s" "im_backend y = b" "im_public_id y = p" for y
    using one [of "im_tenant_id y" "im_ory_global_id y"] that by (auto simp: has_mapping_def at_key_def)
  have only: "y = r" if "y \<in> rows s" "im_backend y = b" "im_public_id y = p" for y
    using key_law [OF inv that(1) r(1), of t b p] at [OF that] at [OF r] that r by (simp add: at_key_def)
  have "y \<noteq> r \<and> \<not> at_key t' b p y \<longleftrightarrow> \<not> (im_backend y = b \<and> im_public_id y = p)" if "y \<in> rows s" for y
  proof (cases "y = r")
    case False
    then have "\<not> (im_backend y = b \<and> im_public_id y = p)" using only that by blast
    with False show ?thesis by (auto simp: at_key_def)
  qed (use r in simp)
  then have others: "{y \<in> rows s. y \<noteq> r \<and> \<not> at_key t' b p y} = {y \<in> rows s. \<not> (im_backend y = b \<and> im_public_id y = p)}"
    by blast
  show ?thesis
  proof (cases "b1 = b \<and> p1 = p")
    case True
    then show ?thesis unfolding rows' others using at [OF r] r by (auto simp: has_mapping_def at_key_def)
  next
    case False
    then show ?thesis unfolding rows' others using r by (auto simp: has_mapping_def at_key_def)
  qed
qed

end

lemma key_present: "(\<exists>g. has_mapping rs t b p g) \<longleftrightarrow> (\<exists>r \<in> rs. at_key t b p r)"
  by (auto simp: has_mapping_def)

lemma same_mappings_key:
  "same_mappings rs rs' \<Longrightarrow> (\<exists>r \<in> rs. at_key t b p r) \<longleftrightarrow> (\<exists>r \<in> rs'. at_key t b p r)"
  unfolding key_present [symmetric] same_mappings_def by blast

lemma pg_public_id_unique:
  assumes "pg_inv w" and "has_mapping (pg_rows w) t b p g" and "has_mapping (pg_rows w) t1 b1 p g1"
  shows "t1 = t \<and> b1 = b \<and> g1 = g"
  using assms key_uniqueD [of im_public_id "id_mappings (pg_db w)"]
  by (fastforce simp: id_mappings_ok_def has_mapping_def at_key_def)

lemma sim_create:
  assumes m: "mem_inv m" and eq: "same_mappings (pg_rows w) (mem_row_set m)" and w: "pg_inv w"
    and run: "id_mapping_create t b p g w = (Inr row, w')"
  shows "\<exists>row' m'. mem_create t b p g m = (Inr row', m') \<and> im_ory_global_id row' = g
    \<and> same_mappings (pg_rows w') (mem_row_set m')"
proof -
  have "\<forall>r \<in> mem_row_set m. \<not> at_key t b p r"
    using pg_mappings.create_law [OF w run] same_mappings_key [OF eq] by blast
  then have "map_of (mem_rows m) (t, b, p) = None" using mem_lookup_None [OF m] by blast
  then obtain row' m' where c: "mem_create t b p g m = (Inr row', m')"
    by (simp add: mem_create_def mem_create_at_def Let_def)
  have "same_mappings (pg_rows w') (mem_row_set m')"
    using eq unfolding same_mappings_def
    by (simp add: mem_mappings_store.mapping_create [OF m c] pg_mappings.mapping_create [OF w run])
  then show ?thesis using c mem_mappings_store.create_law [OF m c] by blast
qed

lemma sim_get:
  assumes m: "mem_inv m" and eq: "same_mappings (pg_rows w) (mem_row_set m)" and w: "pg_inv w"
    and run: "get_ory_id t b p w = (x, w')" and ans: "answered x"
  shows "mem_get_ory_id t b p m = (x, m)"
proof (cases "map_of (mem_rows m) (t, b, p)")
  case None
  then have "\<forall>r \<in> mem_row_set m. \<not> at_key t b p r" using mem_lookup_None [OF m, of t b p] by simp
  then have "\<forall>r \<in> pg_rows w. \<not> at_key t b p r" using same_mappings_key [OF eq, of t b p] by blast
  then have "find (at_key t b p) (id_mappings (pg_db w)) = None" by (simp add: find_None_iff)
  then have "x = Inl MappingNotFound"
    using get_ory_id_result [OF run] ans by (elim disjE exE) (simp_all add: answered_def ok_or_def)
  then show ?thesis using None by (simp add: mem_get_ory_id_def ok_or_def)
next
  case (Some r)
  then have "r \<in> mem_row_set m" "at_key t b p r" using mem_lookup [OF m] by blast+
  then have k: "has_mapping (pg_rows w) t b p (im_ory_global_id r)"
    using eq by (auto simp: same_mappings_def has_mapping_def)
  then have "x \<noteq> Inl MappingNotFound"
    using pg_mappings.get_missing [OF w, of t b p w'] run by (auto simp: has_mapping_def)
  then obtain g where x: "x = Inr g" using ans by (auto simp: answered_def split: sum.splits)
  with run have "has_mapping (pg_rows w) t b p g"
    using pg_mappings.get_found [OF w, of t b p g w'] by (auto simp: has_mapping_def)
  from pg_public_id_unique [OF w k this] have "g = im_ory_global_id r" by simp
  then show ?thesis using x Some by (simp add: mem_get_ory_id_def ok_or_def)
qed

lemma sim_delete:
  assumes m: "mem_inv m" and eq: "same_mappings (pg_rows w) (mem_row_set m)" and w: "pg_inv w"
    and run: "id_mapping_delete t b p w = (x, w')" and ans: "answered x"
  shows "\<exists>m'. mem_delete t b p m = (x, m') \<and> same_mappings (pg_rows w') (mem_row_set m')"
proof (cases x)
  case (Inl e)
  then have "pg_exec (id_mapping_delete_stmt t b p) w = (Inl MappingNotFound, w')"
    using run ans by (simp add: id_mapping_delete_def answered_def)
  then have "filter (\<lambda>r. im_tenant_id r = t \<and> im_backend r = b \<and> im_public_id r = p) (id_mappings (pg_db w)) = []"
    and rows: "pg_rows w' = pg_rows w"
    by (auto simp: pg_exec_def id_mapping_delete_stmt_def Let_def split: option.splits fault.splits if_splits)
  then have "\<forall>r \<in> pg_rows w. \<not> at_key t b p r" by (simp add: filter_empty_conv at_key_def)
  then have "\<forall>r \<in> mem_row_set m. \<not> at_key t b p r" using same_mappings_key [OF eq, of t b p] by blast
  then have "map_of (mem_rows m) (t, b, p) = None" using mem_lookup_None [OF m, of t b p] by simp
  then have "mem_delete t b p m = (Inl MappingNotFound, m)" by (simp add: mem_delete_def Let_def)
  moreover have "x = Inl MappingNotFound" using Inl ans by (simp add: answered_def)
  ultimately show ?thesis using eq by (simp add: rows)
next
  case (Inr u)
  then have run: "id_mapping_delete t b p w = (Inr (), w')" using run by simp
  have "\<exists>r \<in> mem_row_set m. at_key t b p r"
    using id_mapping_delete_Inr [OF run] same_mappings_key [OF eq, of t b p] by blast
  then have "map_of (mem_rows m) (t, b, p) \<noteq> None" using mem_lookup_None [OF m, of t b p] by simp
  then obtain m' where d: "mem_delete t b p m = (Inr (), m')" by (simp add: mem_delete_def Let_def)
  have "same_mappings (pg_rows w') (mem_row_set m')"
    using eq unfolding same_mappings_def
    by (simp add: mem_mappings_store.mapping_remove [OF m d] pg_mappings.mapping_remove [OF w run])
  then show ?thesis using d Inr by auto
qed

lemma mem_public_id_unique:
  assumes "pg_inv w" and "same_mappings (pg_rows w) (mem_row_set m)"
    and "has_mapping (pg_rows w) t b p g" and "has_mapping (mem_row_set m) t1 b p g1"
  shows "t1 = t \<and> g1 = g"
proof -
  have "has_mapping (pg_rows w) t1 b p g1" using assms(2,4) by (simp add: same_mappings_def)
  from pg_public_id_unique [OF assms(1,3) this] show ?thesis by simp
qed

lemma sim_update_tenant:
  assumes m: "mem_inv m" and eq: "same_mappings (pg_rows w) (mem_row_set m)" and w: "pg_inv w"
    and run: "id_mapping_update_tenant b p t' w = (x, w')" and ans: "answered x"
  shows "\<exists>m'. mem_update_tenant b p t' m = (x, m') \<and> same_mappings (pg_rows w') (mem_row_set m')"
proof (cases x)
  case (Inl e)
  then have "pg_exec (id_mapping_update_tenant_stmt b p t') w = (Inl MappingNotFound, w')"
    using run ans by (simp add: id_mapping_update_tenant_def answered_def)
  then have miss: "filter (\<lambda>r. im_backend r = b \<and> im_public_id r = p) (id_mappings (pg_db w)) = []"
    and rows: "pg_rows w' = pg_rows w"
    by (auto simp: pg_exec_def id_mapping_update_tenant_stmt_def Let_def violates_def
        split: option.splits fault.splits if_splits)
  have "\<not> (im_backend r = b \<and> im_public_id r = p)" if "r \<in> mem_row_set m" for r
  proof -
    have "\<forall>r \<in> pg_rows w. \<not> at_key (im_tenant_id r) b p r" using miss by (auto simp: filter_empty_conv at_key_def)
    then have "\<not> (\<exists>r' \<in> pg_rows w. at_key (im_tenant_id r) b p r')" by (auto simp: at_key_def)
    with that show ?thesis using same_mappings_key [OF eq, of "im_tenant_id r" b p] by (auto simp: at_key_def)
  qed
  then have "find (\<lambda>r. im_backend r = b \<and> im_public_id r = p) (mem_values m) = None"
    using m by (auto simp: find_None_iff mem_values_def mem_inv_def)
  then have "mem_update_tenant b p t' m = (Inl MappingNotFound, m)" by (simp add: mem_update_tenant_def)
  moreover have "x = Inl MappingNotFound" using Inl ans by (simp add: answered_def)
  ultimately show ?thesis using eq by (simp add: rows)
next
  case (Inr u)
  then have run: "id_mapping_update_tenant b p t' w = (Inr (), w')" using run by simp
  obtain r where r: "r \<in> pg_rows w" "im_backend r = b" "im_public_id r = p"
    using pg_mappings.rehome_law [OF w run] by blast
  then have here: "has_mapping (pg_rows w) (im_tenant_id r) b p (im_ory_global_id r)"
    by (auto simp: has_mapping_def at_key_def)
  then have there: "\<exists>y \<in> mem_row_set m. im_backend y = b \<and> im_public_id y = p"
    using eq by (auto simp: same_mappings_def has_mapping_def at_key_def)
  have "find (\<lambda>r. im_backend r = b \<and> im_public_id r = p) (mem_values m) \<noteq> None"
    using there m by (auto simp: find_None_iff mem_values_def mem_inv_def)
  then have "fst (mem_update_tenant b p t' m) = Inr ()"
    by (auto simp: mem_update_tenant_def Let_def split: option.split)
  then obtain m' where u: "mem_update_tenant b p t' m = (Inr (), m')"
    by (cases "mem_update_tenant b p t' m") simp
  have one: "t1 = im_tenant_id r \<and> g1 = im_ory_global_id r" if "has_mapping (pg_rows w) t1 b p g1" for t1 g1
    using pg_public_id_unique [OF w here that] by simp
  have pg: "has_mapping (pg_rows w') t1 b1 p1 g1 \<longleftrightarrow>
      (if b1 = b \<and> p1 = p then t1 = t' \<and> g1 = im_ory_global_id r else has_mapping (pg_rows w) t1 b1 p1 g1)" for t1 b1 p1 g1
    by (rule pg_mappings.mapping_rehome [OF w run one])
  have mem: "has_mapping (mem_row_set m') t1 b1 p1 g1 \<longleftrightarrow>
      (if b1 = b \<and> p1 = p then t1 = t' \<and> g1 = im_ory_global_id r else has_mapping (mem_row_set m) t1 b1 p1 g1)"
    for t1 b1 p1 g1
    by (rule mem_mappings_store.mapping_rehome [OF m u mem_public_id_unique [OF w eq here]])
  have "same_mappings (pg_rows w') (mem_row_set m')"
    using eq unfolding same_mappings_def pg mem by simp
  then show ?thesis using u Inr by auto
qed

lemma bind_ret: "bindE f (\<lambda>a. ret (h a)) s = (map_sum id h (fst (f s)), snd (f s))"
  by (simp add: bindE_def ret_def split: prod.split sum.split)

lemma answered_map_sum [simp]: "answered (map_sum id h y) = answered y"
  by (cases y) (simp_all add: answered_def)

lemma create_answered: "id_mapping_create t b p g w = (y, w') \<Longrightarrow> answered y \<Longrightarrow> \<exists>row. y = Inr row"
  by (auto simp: id_mapping_create_def bindE_def ulid_new_def pg_exec_def id_mapping_insert_stmt_def violates_def
      answered_def Let_def split: option.splits fault.splits if_splits)


definition no_mappings :: mem_mappings where
  "no_mappings = \<lparr>mem_rows = [], mem_iter = id, mem_now = 0, mem_ulid = (\<lambda>n. replicate (Suc n) (CHR ''0'')), mem_ulids = 0\<rparr>"

definition one_tenant :: database where
  "one_tenant = empty_db\<lparr>tenants := [\<lparr>tn_id = ''T'', tn_slug = ''t'', tn_display_name = ''T'', tn_is_system = False,
       tn_settings = JObj [], tn_created_at = 0\<rparr>]\<rparr>"


end
