(* ===== verification/TenantStores.thy ===== *)
theory TenantStores
  imports IdMappings
begin

text \<open>
  \<^verbatim>\<open>db/tenant.rs\<close>, the bootstrap of the system tenant in \<^verbatim>\<open>db/pool.rs\<close>, and both
  application stores of \<^verbatim>\<open>db/application.rs\<close>.
\<close>

section \<open>PgTenantStore\<close>

definition tenant_insert_stmt :: "string \<Rightarrow> string \<Rightarrow> string \<Rightarrow> bool \<Rightarrow> json \<Rightarrow> tenant_row stmt" where
  "tenant_insert_stmt i slug display_name is_system settings now db =
     (let row = \<lparr>tn_id = i, tn_slug = slug, tn_display_name = display_name, tn_is_system = is_system,
                 tn_settings = settings, tn_created_at = now\<rparr>
      in if i \<in> tn_id ` set (tenants db) then violates ''tenants_pkey'' db
         else if slug \<in> tn_slug ` set (tenants db) then violates ''tenants_slug_key'' db
         else (Inr row, db\<lparr>tenants := tenants db @ [row]\<rparr>))"

definition tenant_create :: "string \<Rightarrow> string \<Rightarrow> json \<Rightarrow> ('z pg_scheme, db_error, tenant_row) io" where
  "tenant_create slug display_name settings =
     bindE ulid_new (\<lambda>i. pg_exec (tenant_insert_stmt i slug display_name False settings))"

definition tenant_get_by_id :: "string \<Rightarrow> ('z pg_scheme, db_error, tenant_row) io" where
  "tenant_get_by_id i =
     pg_query (\<lambda>now db. ok_or TenantNotFound (find (\<lambda>t. tn_id t = i) (tenants db)))"

definition tenant_list :: "('z pg_scheme, db_error, tenant_row list) io" where
  "tenant_list = pg_query (\<lambda>now db. Inr (sort_key (\<lambda>t. - tn_created_at t) (tenants db)))"

definition bootstrap_system_tenant :: "string \<Rightarrow> ('z pg_scheme, db_error, string) io" where
  "bootstrap_system_tenant system_tenant_ulid =
     bindE (pg_query (\<lambda>now db. Inr (map_option tn_id
              (find (\<lambda>t. tn_id t = system_tenant_ulid \<and> tn_is_system t) (tenants db)))))
       (\<lambda>existing. case existing of
          Some i \<Rightarrow> ret i
        | None \<Rightarrow>
            bindE (pg_exec (tenant_insert_stmt system_tenant_ulid ''system'' ''System'' True (JObj [])))
              (\<lambda>_. ret system_tenant_ulid))"

definition tenants_ok :: "database \<Rightarrow> bool" where
  "tenants_ok db \<longleftrightarrow> key_unique tn_id (tenants db) \<and> key_unique tn_slug (tenants db)"

lemma tenant_insert_keeps [stmt_rules]:
  "stmt_keeps tenants_ok (tenant_insert_stmt i slug n sys st)"
  by (rule stmt_keepsI)
     (auto simp: tenant_insert_stmt_def violates_def Let_def tenants_ok_def key_unique_append)

text \<open>After a successful bootstrap the system tenant exists, whichever branch ran.\<close>

lemma bootstrap_system_tenant_Inr:
  assumes "bootstrap_system_tenant u w = (Inr i, v)"
  shows "i = u \<and> (\<exists>t \<in> set (tenants (pg_db v)). tn_id t = u \<and> tn_is_system t)"
proof -
  obtain ex x where q: "pg_query (\<lambda>now db. Inr (map_option tn_id
      (find (\<lambda>t. tn_id t = u \<and> tn_is_system t) (tenants db)))) w = (Inr ex, x)"
    and k: "(case ex of Some i \<Rightarrow> ret i | None \<Rightarrow>
      bindE (pg_exec (tenant_insert_stmt u ''system'' ''System'' True (JObj []))) (\<lambda>_. ret u)) x = (Inr i, v)"
    using assms unfolding bootstrap_system_tenant_def by (elim bindE_InrE)
  have ex: "ex = map_option tn_id (find (\<lambda>t. tn_id t = u \<and> tn_is_system t) (tenants (pg_db w)))"
    and x: "x = w\<lparr>pg_queries := Suc (pg_queries w)\<rparr>"
    using pg_query_Inr [OF q] by auto
  show ?thesis
  proof (cases "find (\<lambda>t. tn_id t = u \<and> tn_is_system t) (tenants (pg_db w))")
    case None
    with ex k obtain r where run: "pg_exec (tenant_insert_stmt u ''system'' ''System'' True (JObj [])) x = (Inr r, v)"
      and "i = u" by (auto elim!: bindE_InrE simp: ret_def)
    with pg_exec_Inr [OF run] show ?thesis
      by (auto simp: tenant_insert_stmt_def violates_def Let_def split: if_splits)
  next
    case (Some t)
    with find_SomeD [OF Some] ex k x show ?thesis by (auto simp: ret_def)
  qed
qed

section \<open>PgApplicationStore\<close>

definition registration_source_admin :: string where "registration_source_admin = ''admin''"
definition registration_source_dcr :: string where "registration_source_dcr = ''dcr''"

definition application_insert_stmt :: "string \<Rightarrow> string \<Rightarrow> bool \<Rightarrow> string \<Rightarrow> application_row stmt" where
  "application_insert_stmt tenant_id public_id cross_tenant registration_source now db =
     (let row = \<lparr>ap_tenant_id = tenant_id, ap_public_id = public_id, ap_cross_tenant = cross_tenant,
                 ap_registration_source = registration_source, ap_created_at = now, ap_updated_at = now\<rparr>
      in if \<not> tenant_exists db tenant_id then violates ''applications_tenant_id_fkey'' db
         else if public_id \<notin> im_public_id ` set (id_mappings db)
           then violates ''applications_public_id_fkey'' db
         else if registration_source \<notin> {''admin'', ''dcr''}
           then violates ''applications_registration_source_check'' db
         else if public_id \<in> ap_public_id ` set (applications db) then violates ''applications_pkey'' db
         else (Inr row, db\<lparr>applications := applications db @ [row]\<rparr>))"

definition application_create ::
  "string \<Rightarrow> string \<Rightarrow> bool \<Rightarrow> string \<Rightarrow> ('z pg_scheme, db_error, application_row) io" where
  "application_create tenant_id public_id cross_tenant registration_source =
     pg_exec (application_insert_stmt tenant_id public_id cross_tenant registration_source)"

definition application_get :: "string \<Rightarrow> string \<Rightarrow> ('z pg_scheme, db_error, application_row) io" where
  "application_get tenant_id public_id =
     pg_query (\<lambda>now db. ok_or ApplicationNotFound
       (find (\<lambda>a. ap_tenant_id a = tenant_id \<and> ap_public_id a = public_id) (applications db)))"

definition application_get_by_public_id :: "string \<Rightarrow> ('z pg_scheme, db_error, application_row) io" where
  "application_get_by_public_id public_id =
     pg_query (\<lambda>now db. ok_or ApplicationNotFound
       (find (\<lambda>a. ap_public_id a = public_id) (applications db)))"

definition application_list_by_tenant :: "string \<Rightarrow> ('z pg_scheme, db_error, application_row list) io" where
  "application_list_by_tenant tenant_id =
     pg_query (\<lambda>now db. Inr (sort_key ap_public_id
       (filter (\<lambda>a. ap_tenant_id a = tenant_id) (applications db))))"

definition application_set_cross_tenant_stmt :: "string \<Rightarrow> string \<Rightarrow> bool \<Rightarrow> application_row stmt" where
  "application_set_cross_tenant_stmt tenant_id public_id cross_tenant now db =
     (let hit = (\<lambda>a. ap_tenant_id a = tenant_id \<and> ap_public_id a = public_id);
          upd = (\<lambda>a. a\<lparr>ap_cross_tenant := cross_tenant, ap_updated_at := now\<rparr>)
      in case find hit (applications db) of
           None \<Rightarrow> (Inl ApplicationNotFound, db)
         | Some a \<Rightarrow> (Inr (upd a), db\<lparr>applications :=
             map (\<lambda>x. if hit x then upd x else x) (applications db)\<rparr>))"

definition application_set_cross_tenant ::
  "string \<Rightarrow> string \<Rightarrow> bool \<Rightarrow> ('z pg_scheme, db_error, application_row) io" where
  "application_set_cross_tenant tenant_id public_id cross_tenant =
     pg_exec (application_set_cross_tenant_stmt tenant_id public_id cross_tenant)"

definition application_delete_stmt :: "string \<Rightarrow> string \<Rightarrow> unit stmt" where
  "application_delete_stmt tenant_id public_id now db =
     (let hit = (\<lambda>a. ap_tenant_id a = tenant_id \<and> ap_public_id a = public_id)
      in if filter hit (applications db) = [] then (Inl ApplicationNotFound, db)
         else (Inr (), db\<lparr>applications := filter (\<lambda>a. \<not> hit a) (applications db)\<rparr>))"

definition application_delete :: "string \<Rightarrow> string \<Rightarrow> ('z pg_scheme, db_error, unit) io" where
  "application_delete tenant_id public_id = pg_exec (application_delete_stmt tenant_id public_id)"

definition applications_ok :: "database \<Rightarrow> bool" where
  "applications_ok db \<longleftrightarrow> key_unique ap_public_id (applications db)
     \<and> (\<forall>a \<in> set (applications db). tenant_exists db (ap_tenant_id a)
          \<and> ap_public_id a \<in> im_public_id ` set (id_mappings db)
          \<and> ap_registration_source a \<in> {''admin'', ''dcr''})"

lemma application_insert_keeps [stmt_rules]:
  "stmt_keeps applications_ok (application_insert_stmt t p ct src)"
  by (rule stmt_keepsI)
     (auto simp: application_insert_stmt_def violates_def Let_def applications_ok_def
       key_unique_append tenant_exists_def)

lemma application_delete_keeps [stmt_rules]: "stmt_keeps applications_ok (application_delete_stmt t p)"
  by (rule stmt_keepsI)
     (auto simp: application_delete_stmt_def Let_def applications_ok_def key_unique_filter tenant_exists_def)

lemma application_set_cross_tenant_keeps [stmt_rules]:
  "stmt_keeps applications_ok (application_set_cross_tenant_stmt t p ct)"
proof (rule stmt_keepsI)
  fix now db
  assume ok: "applications_ok db"
  have "key_unique ap_public_id (map (\<lambda>x. if ap_tenant_id x = t \<and> ap_public_id x = p
      then x\<lparr>ap_cross_tenant := ct, ap_updated_at := now\<rparr> else x) (applications db))
    = key_unique ap_public_id (applications db)"
    by (rule key_unique_map) simp
  with ok show "applications_ok (snd (application_set_cross_tenant_stmt t p ct now db))"
    by (auto simp: application_set_cross_tenant_stmt_def Let_def applications_ok_def tenant_exists_def
        split: option.splits)
qed

text \<open>The cascade from \<^verbatim>\<open>id_mappings\<close> is what keeps the foreign key of \<^verbatim>\<open>applications\<close>.\<close>

lemma id_mapping_delete_applications [stmt_rules]:
  "stmt_keeps (\<lambda>db. applications_ok db \<and> id_mappings_ok db) (id_mapping_delete_stmt t b p)"
proof (rule stmt_keepsI)
  fix now db
  assume ok: "applications_ok db \<and> id_mappings_ok db"
  let ?hit = "\<lambda>r. im_tenant_id r = t \<and> im_backend r = b \<and> im_public_id r = p"
  have maps: "id_mappings_ok (snd (id_mapping_delete_stmt t b p now db))"
    using ok id_mapping_delete_ok by (simp add: stmt_keeps_def)
  have keep: "ap_public_id a \<in> im_public_id ` set (filter (\<lambda>r. \<not> ?hit r) (id_mappings db))"
    if "a \<in> set (applications db)" "ap_public_id a \<notin> im_public_id ` set (filter ?hit (id_mappings db))" for a
    using ok that by (fastforce simp: applications_ok_def)
  show "applications_ok (snd (id_mapping_delete_stmt t b p now db))
      \<and> id_mappings_ok (snd (id_mapping_delete_stmt t b p now db))"
    using maps ok keep
    by (auto simp: id_mapping_delete_stmt_def Let_def applications_ok_def key_unique_filter tenant_exists_def)
qed

section \<open>MemoryApplicationStore\<close>

text \<open>A map keyed by the public id.\<close>

record mem_applications =
  ma_records :: "(string \<times> application_row) list"
  ma_now :: instant

definition mem_app_create ::
  "string \<Rightarrow> string \<Rightarrow> bool \<Rightarrow> string \<Rightarrow> (mem_applications, db_error, application_row) io" where
  "mem_app_create tenant_id public_id cross_tenant registration_source m =
     (if map_of (ma_records m) public_id \<noteq> None then (Inl ApplicationNotFound, m)
      else let row = \<lparr>ap_tenant_id = tenant_id, ap_public_id = public_id, ap_cross_tenant = cross_tenant,
                      ap_registration_source = registration_source, ap_created_at = ma_now m,
                      ap_updated_at = ma_now m\<rparr>
           in (Inr row, m\<lparr>ma_records := (public_id, row) # ma_records m\<rparr>))"

definition mem_app_lookup :: "string \<Rightarrow> string \<Rightarrow> mem_applications \<Rightarrow> application_row option" where
  "mem_app_lookup tenant_id public_id m =
     (case map_of (ma_records m) public_id of
        Some r \<Rightarrow> if ap_tenant_id r = tenant_id then Some r else None
      | None \<Rightarrow> None)"

definition mem_app_get :: "string \<Rightarrow> string \<Rightarrow> (mem_applications, db_error, application_row) io" where
  "mem_app_get tenant_id public_id m =
     (ok_or ApplicationNotFound (mem_app_lookup tenant_id public_id m), m)"

definition mem_app_get_by_public_id :: "string \<Rightarrow> (mem_applications, db_error, application_row) io" where
  "mem_app_get_by_public_id public_id m =
     (ok_or ApplicationNotFound (map_of (ma_records m) public_id), m)"

definition mem_app_set_cross_tenant ::
  "string \<Rightarrow> string \<Rightarrow> bool \<Rightarrow> (mem_applications, db_error, application_row) io" where
  "mem_app_set_cross_tenant tenant_id public_id cross_tenant m =
     (case mem_app_lookup tenant_id public_id m of
        None \<Rightarrow> (Inl ApplicationNotFound, m)
      | Some r \<Rightarrow>
          let r' = r\<lparr>ap_cross_tenant := cross_tenant, ap_updated_at := ma_now m\<rparr>
          in (Inr r', m\<lparr>ma_records := (public_id, r') # filter (\<lambda>(k, _). k \<noteq> public_id) (ma_records m)\<rparr>))"

definition mem_app_delete :: "string \<Rightarrow> string \<Rightarrow> (mem_applications, db_error, unit) io" where
  "mem_app_delete tenant_id public_id m =
     (if mem_app_lookup tenant_id public_id m = None then (Inl ApplicationNotFound, m)
      else (Inr (), m\<lparr>ma_records := filter (\<lambda>(k, _). k \<noteq> public_id) (ma_records m)\<rparr>))"

section \<open>The interface of the application stores\<close>

locale application_store =
  fixes create :: "string \<Rightarrow> string \<Rightarrow> bool \<Rightarrow> string \<Rightarrow> ('s, db_error, application_row) io"
    and get :: "string \<Rightarrow> string \<Rightarrow> ('s, db_error, application_row) io"
    and get_pub :: "string \<Rightarrow> ('s, db_error, application_row) io"
    and set_cross :: "string \<Rightarrow> string \<Rightarrow> bool \<Rightarrow> ('s, db_error, application_row) io"
    and remove :: "string \<Rightarrow> string \<Rightarrow> ('s, db_error, unit) io"
    and view :: "'s \<Rightarrow> string \<Rightarrow> application_row option"
    and inv :: "'s \<Rightarrow> bool"
  assumes create_law: "inv s \<Longrightarrow> create t p ct src s = (Inr row, s') \<Longrightarrow>
      inv s' \<and> view s p = None \<and> view s' = (view s)(p \<mapsto> row) \<and> ap_tenant_id row = t
      \<and> ap_public_id row = p \<and> ap_cross_tenant row = ct"
    and get_law: "inv s \<Longrightarrow> get t p s = (Inr row, s') \<Longrightarrow> inv s' \<and> view s' = view s
      \<and> view s p = Some row \<and> ap_tenant_id row = t"
    and get_pub_law: "inv s \<Longrightarrow> get_pub p s = (Inr row, s') \<Longrightarrow> inv s' \<and> view s' = view s
      \<and> view s p = Some row"
    and set_cross_law: "inv s \<Longrightarrow> set_cross t p ct s = (Inr row, s') \<Longrightarrow> inv s'
      \<and> (\<exists>old. view s p = Some old \<and> ap_tenant_id old = t \<and> row = old\<lparr>ap_cross_tenant := ct,
           ap_updated_at := ap_updated_at row\<rparr>) \<and> view s' = (view s)(p \<mapsto> row)"
    and remove_law: "inv s \<Longrightarrow> remove t p s = (Inr (), s') \<Longrightarrow> inv s'
      \<and> (\<exists>old. view s p = Some old \<and> ap_tenant_id old = t) \<and> view s' = (view s)(p := None)"
begin

text \<open>The flag the middleware reads is the one that was last set.\<close>

lemma set_cross_then_read:
  assumes "inv s" and "set_cross t p ct s = (Inr row, s1)" and "get_pub p s1 = (Inr row', s2)"
  shows "row' = row \<and> ap_cross_tenant row' = ct"
proof -
  have "inv s1" "view s1 = (view s)(p \<mapsto> row)" "\<exists>old. row = old\<lparr>ap_cross_tenant := ct, ap_updated_at := ap_updated_at row\<rparr>"
    using set_cross_law [OF assms(1,2)] by auto
  moreover have "ap_cross_tenant row = ct"
  proof -
    from set_cross_law [OF assms(1,2)] obtain old
      where "row = old\<lparr>ap_cross_tenant := ct, ap_updated_at := ap_updated_at row\<rparr>" by blast
    then have "ap_cross_tenant row = ap_cross_tenant (old\<lparr>ap_cross_tenant := ct, ap_updated_at := ap_updated_at row\<rparr>)"
      by (rule arg_cong)
    then show ?thesis by simp
  qed
  ultimately show ?thesis using get_pub_law [of s1 p row' s2] assms(3) by simp
qed

text \<open>Another tenant can neither read, change nor delete the row.\<close>

lemma foreign_tenant:
  assumes "inv s" and "view s p = Some row" and "ap_tenant_id row \<noteq> t"
  shows "get t p s \<noteq> (Inr r, s')" and "set_cross t p ct s \<noteq> (Inr r, s')" and "remove t p s \<noteq> (Inr (), s')"
  using get_law [of s t p r s'] set_cross_law [of s t p ct r s'] remove_law [of s t p s'] assms by auto

end

abbreviation pg_app_view :: "'z pg_scheme \<Rightarrow> string \<Rightarrow> application_row option" where
  "pg_app_view w p \<equiv> find (\<lambda>a. ap_public_id a = p) (applications (pg_db w))"

abbreviation pg_app_inv :: "'z pg_scheme \<Rightarrow> bool" where
  "pg_app_inv w \<equiv> applications_ok (pg_db w)"

lemma find_tenant_app:
  assumes "key_unique ap_public_id rows"
    and "find (\<lambda>a. ap_tenant_id a = t \<and> ap_public_id a = p) rows = Some a"
  shows "find (\<lambda>a. ap_public_id a = p) rows = Some a \<and> ap_tenant_id a = t \<and> ap_public_id a = p"
proof -
  from find_SomeD [OF assms(2)] have a: "a \<in> set rows" "ap_tenant_id a = t" "ap_public_id a = p" by auto
  moreover have "find (\<lambda>a. ap_public_id a = p) rows = Some a"
    using find_key_unique [OF assms(1) a(1), of "\<lambda>a. ap_public_id a = p"] a(3) by simp
  ultimately show ?thesis by simp
qed

lemma find_pub_map:
  assumes "key_unique ap_public_id rows" and "find (\<lambda>a. ap_public_id a = p) rows = Some a"
    and "ap_tenant_id a = t" and "\<And>x. ap_public_id (u x) = ap_public_id x"
  shows "find (\<lambda>a. ap_public_id a = q)
      (map (\<lambda>x. if ap_tenant_id x = t \<and> ap_public_id x = p then u x else x) rows)
    = (if q = p then Some (u a) else find (\<lambda>a. ap_public_id a = q) rows)"
proof -
  have *: "(\<lambda>a. ap_public_id a = q) \<circ> (\<lambda>x. if ap_tenant_id x = t \<and> ap_public_id x = p then u x else x)
      = (\<lambda>a. ap_public_id a = q)" using assms(4) by (simp add: fun_eq_iff)
  have ap: "ap_public_id a = p" using find_SomeD [OF assms(2)] by simp
  show ?thesis
  proof (cases "q = p")
    case True
    then show ?thesis unfolding find_map_conv * using assms(2,3) ap by simp
  next
    case False
    then show ?thesis
      unfolding find_map_conv *
      by (cases "find (\<lambda>a. ap_public_id a = q) rows") (auto dest: find_SomeD)
  qed
qed

lemma find_pub_remove:
  assumes "key_unique ap_public_id rows" and "find (\<lambda>a. ap_public_id a = p) rows = Some a"
    and "ap_tenant_id a = t"
  shows "find (\<lambda>a. ap_public_id a = q) (filter (\<lambda>x. \<not> (ap_tenant_id x = t \<and> ap_public_id x = p)) rows)
    = (if q = p then None else find (\<lambda>a. ap_public_id a = q) rows)"
proof (cases "q = p")
  case True
  have "x = a" if "x \<in> set rows" "ap_public_id x = p" for x
    using that assms find_SomeD [OF assms(2)] key_uniqueD [OF assms(1)] by blast
  then show ?thesis using True assms(3) by (auto simp: find_None_iff)
next
  case False
  then show ?thesis by (induction rows) auto
qed

lemma application_create_Inr:
  assumes "application_create t p ct src w = (Inr row, v)"
  shows "pg_db v = (pg_db w)\<lparr>applications := applications (pg_db w) @ [row]\<rparr>
    \<and> p \<notin> ap_public_id ` set (applications (pg_db w))
    \<and> ap_tenant_id row = t \<and> ap_public_id row = p \<and> ap_cross_tenant row = ct"
proof -
  let ?st = "application_insert_stmt t p ct src (pg_now w) (pg_db w)"
  have "fst ?st = Inr row" and v: "pg_db v = snd ?st"
    using pg_exec_Inr [OF assms [unfolded application_create_def]] by auto
  then show ?thesis
    unfolding application_insert_stmt_def violates_def Let_def by (auto split: if_split_asm)
qed

lemma keeps_applications [keeps_rules]:
  "keeps pg_app_inv (application_create t p ct src)"
  "keeps pg_app_inv (application_set_cross_tenant t p ct)"
  "keeps pg_app_inv (application_delete t p)"
  unfolding application_create_def application_set_cross_tenant_def application_delete_def
  by (intro keeps_pg_exec application_insert_keeps application_set_cross_tenant_keeps
      application_delete_keeps)+

interpretation pg_applications:
  application_store application_create application_get application_get_by_public_id
    application_set_cross_tenant application_delete pg_app_view pg_app_inv
proof (unfold_locales, goal_cases)
  case (1 s t p ct src row s')
  have fresh: "find (\<lambda>a. ap_public_id a = p) (applications (pg_db s)) = None"
    using application_create_Inr [OF 1(2)] by (auto simp: find_None_iff image_iff)
  have "pg_app_view s' q = ((pg_app_view s)(p \<mapsto> row)) q" for q
    using application_create_Inr [OF 1(2)] fresh
    by (cases "find (\<lambda>a. ap_public_id a = q) (applications (pg_db s))")
       (auto simp: find_append_miss find_append_hit dest: find_SomeD)
  then show ?case
    using application_create_Inr [OF 1(2)] fresh keepsD [OF keeps_applications(1) 1] by auto
next
  case (2 s t p row s')
  have f: "find (\<lambda>a. ap_tenant_id a = t \<and> ap_public_id a = p) (applications (pg_db s)) = Some row"
    and s': "s' = s\<lparr>pg_queries := Suc (pg_queries s)\<rparr>"
    using pg_query_Inr [OF 2(2) [unfolded application_get_def]] by auto
  then show ?case using find_tenant_app [OF _ f] 2(1) by (simp add: applications_ok_def)
next
  case (3 s p row s')
  then show ?case
    using pg_query_Inr [OF 3(2) [unfolded application_get_by_public_id_def]] by auto
next
  case (4 s t p ct row s')
  let ?st = "application_set_cross_tenant_stmt t p ct (pg_now s) (pg_db s)"
  have st: "fst ?st = Inr row" and v: "pg_db s' = snd ?st"
    using pg_exec_Inr [OF 4(2) [unfolded application_set_cross_tenant_def]] by auto
  have uniq: "key_unique ap_public_id (applications (pg_db s))"
    using 4(1) by (simp add: applications_ok_def)
  from st obtain old where f: "find (\<lambda>a. ap_tenant_id a = t \<and> ap_public_id a = p) (applications (pg_db s)) = Some old"
    and row: "row = old\<lparr>ap_cross_tenant := ct, ap_updated_at := pg_now s\<rparr>"
    by (auto simp: application_set_cross_tenant_stmt_def Let_def split: option.splits)
  note old = find_tenant_app [OF uniq f]
  have "pg_app_view s' = (pg_app_view s)(p \<mapsto> row)"
    using v f row find_pub_map [OF uniq, of p old t "\<lambda>x. x\<lparr>ap_cross_tenant := ct, ap_updated_at := pg_now s\<rparr>"] old
    by (auto simp: application_set_cross_tenant_stmt_def Let_def fun_eq_iff)
  moreover have "row = old\<lparr>ap_cross_tenant := ct, ap_updated_at := ap_updated_at row\<rparr>" by (simp add: row)
  ultimately show ?case using old keepsD [OF keeps_applications(2) 4] by blast
next
  case (5 s t p s')
  let ?st = "application_delete_stmt t p (pg_now s) (pg_db s)"
  have st: "fst ?st = Inr ()" and v: "pg_db s' = snd ?st"
    using pg_exec_Inr [OF 5(2) [unfolded application_delete_def]] by auto
  have uniq: "key_unique ap_public_id (applications (pg_db s))"
    using 5(1) by (simp add: applications_ok_def)
  have hit: "filter (\<lambda>a. ap_tenant_id a = t \<and> ap_public_id a = p) (applications (pg_db s)) \<noteq> []"
    and db': "applications (pg_db s')
      = filter (\<lambda>a. \<not> (ap_tenant_id a = t \<and> ap_public_id a = p)) (applications (pg_db s))"
    using st v by (auto simp: application_delete_stmt_def Let_def split: if_splits)
  then obtain old where f: "find (\<lambda>a. ap_tenant_id a = t \<and> ap_public_id a = p) (applications (pg_db s)) = Some old"
    by (metis (mono_tags, lifting) filter_False find_None_iff not_None_eq)
  note old = find_tenant_app [OF uniq f]
  have "pg_app_view s' = (pg_app_view s)(p := None)"
    using find_pub_remove [OF uniq, of p old t] old db' by (auto simp: fun_eq_iff)
  then show ?case using old keepsD [OF keeps_applications(3) 5] by blast
qed

definition mem_app_inv :: "mem_applications \<Rightarrow> bool" where
  "mem_app_inv m \<longleftrightarrow> (\<forall>(k, r) \<in> set (ma_records m). ap_public_id r = k)"

abbreviation mem_app_view :: "mem_applications \<Rightarrow> string \<Rightarrow> application_row option" where
  "mem_app_view m \<equiv> map_of (ma_records m)"

lemma map_of_filter_key:
  "map_of (filter (\<lambda>(k, _). k \<noteq> p) xs) = (map_of xs)(p := None)"
  by (induction xs) (auto simp: fun_eq_iff)

lemma mem_app_lookup_Some:
  "mem_app_lookup t p m = Some r \<longleftrightarrow> mem_app_view m p = Some r \<and> ap_tenant_id r = t"
  by (auto simp: mem_app_lookup_def split: option.splits if_splits)

interpretation mem_apps:
  application_store mem_app_create mem_app_get mem_app_get_by_public_id mem_app_set_cross_tenant
    mem_app_delete mem_app_view mem_app_inv
proof (unfold_locales, goal_cases)
  case 1
  then show ?case by (auto simp: mem_app_create_def mem_app_inv_def Let_def split: if_splits)
next
  case 2
  then show ?case by (auto simp: mem_app_get_def mem_app_lookup_Some)
next
  case 3
  then show ?case by (auto simp: mem_app_get_by_public_id_def)
next
  case (4 s t p ct row s')
  then obtain old where old: "mem_app_lookup t p s = Some old"
    and row: "row = old\<lparr>ap_cross_tenant := ct, ap_updated_at := ma_now s\<rparr>"
    and s': "s' = s\<lparr>ma_records := (p, row) # filter (\<lambda>(k, _). k \<noteq> p) (ma_records s)\<rparr>"
    by (auto simp: mem_app_set_cross_tenant_def Let_def split: option.splits)
  have "ap_public_id old = p"
    using old 4(1) by (auto simp: mem_app_lookup_Some mem_app_inv_def dest: map_of_SomeD)
  then have "mem_app_inv s'" using 4(1) by (auto simp: s' row mem_app_inv_def)
  moreover have "row = old\<lparr>ap_cross_tenant := ct, ap_updated_at := ap_updated_at row\<rparr>" by (simp add: row)
  moreover have "mem_app_view s' = (mem_app_view s)(p \<mapsto> row)"
    by (simp add: s' map_of_filter_key)
  ultimately show ?case using old by (auto simp: mem_app_lookup_Some)
next
  case (5 s t p s')
  then show ?case
    by (auto simp: mem_app_delete_def mem_app_inv_def map_of_filter_key mem_app_lookup_def
        split: if_splits option.splits)
qed

section \<open>Properties\<close>

text \<open>
  The cross-tenant flag in the Postgres store: what \<^verbatim>\<open>get_by_public_id\<close> reads after
  \<^verbatim>\<open>set_cross_tenant\<close> is the row that was written, with the flag that was asked for, and only
  the tenant that owns the application can have written it.
\<close>

theorem cross_tenant_flag_read:
  assumes "applications_ok (pg_db w)" and "application_set_cross_tenant t p ct w = (Inr row, w1)"
    and "application_get_by_public_id p w1 = (Inr row', w2)"
  shows "row' = row \<and> ap_cross_tenant row' = ct
    \<and> (\<exists>a \<in> set (applications (pg_db w)). ap_public_id a = p \<and> ap_tenant_id a = t)"
proof -
  obtain old where "pg_app_view w p = Some old" "ap_tenant_id old = t"
    using pg_applications.set_cross_law [OF assms(1,2)] by blast
  then show ?thesis
    using pg_applications.set_cross_then_read [OF assms] find_SomeD by fastforce
qed

definition one_app :: database where
  "one_app = empty_db\<lparr>tenants := [\<lparr>tn_id = ''T'', tn_slug = ''t'', tn_display_name = ''T'', tn_is_system = False,
       tn_settings = JObj [], tn_created_at = 0\<rparr>],
     id_mappings := [\<lparr>im_id = ''I'', im_tenant_id = ''T'', im_backend = ''hydra'', im_public_id = ''P'',
       im_ory_global_id = ''G'', im_created_at = 0\<rparr>],
     applications := [\<lparr>ap_tenant_id = ''T'', ap_public_id = ''P'', ap_cross_tenant = False,
     ap_registration_source = ''admin'', ap_created_at = 0, ap_updated_at = 0\<rparr>]\<rparr>"

theorem cross_tenant_flag_read_witness:
  "\<exists>row w1 w2. application_set_cross_tenant ''T'' ''P'' True (quiet_pg one_app 3) = (Inr row, w1)
     \<and> application_get_by_public_id ''P'' w1 = (Inr row, w2) \<and> ap_cross_tenant row"
proof -
  let ?row = "\<lparr>ap_tenant_id = ''T'', ap_public_id = ''P'', ap_cross_tenant = True,
     ap_registration_source = ''admin'', ap_created_at = 0, ap_updated_at = 3\<rparr>"
  let ?w1 = "(quiet_pg (one_app\<lparr>applications := [?row]\<rparr>) 3)\<lparr>pg_queries := 1\<rparr>"
  have s: "application_set_cross_tenant ''T'' ''P'' True (quiet_pg one_app 3) = (Inr ?row, ?w1)"
    by (simp add: application_set_cross_tenant_def application_set_cross_tenant_stmt_def pg_exec_def Let_def
        quiet_pg_def one_app_def empty_db_def)
  have g: "application_get_by_public_id ''P'' ?w1 = (Inr ?row, ?w1\<lparr>pg_queries := 2\<rparr>)"
    by (simp add: application_get_by_public_id_def pg_query_def pg_exec_def Let_def quiet_pg_def ok_or_def)
  have "applications_ok (pg_db (quiet_pg one_app 3))"
    by (simp add: applications_ok_def quiet_pg_def one_app_def empty_db_def key_unique_def tenant_exists_def)
  from cross_tenant_flag_read [OF this s g] have "ap_cross_tenant ?row" by simp
  with s g show ?thesis by blast
qed

text \<open>
  Starting the gateway again is harmless: once \<^verbatim>\<open>bootstrap_system_tenant\<close> has returned, it
  has returned the configured ULID and a system tenant with that id exists, and with a
  working connection a second run returns the same id and leaves the database as it is.
\<close>

theorem bootstrap_idempotent:
  assumes "bootstrap_system_tenant u w = (Inr i, v)"
  shows "i = u \<and> (\<exists>t \<in> set (tenants (pg_db v)). tn_id t = u \<and> tn_is_system t)
    \<and> (pg_fault v (pg_queries v) = None
        \<longrightarrow> bootstrap_system_tenant u v = (Inr u, v\<lparr>pg_queries := Suc (pg_queries v)\<rparr>))"
proof -
  note B = bootstrap_system_tenant_Inr [OF assms]
  then obtain t where "find (\<lambda>t. tn_id t = u \<and> tn_is_system t) (tenants (pg_db v)) = Some t" and "tn_id t = u"
    by (metis (mono_tags, lifting) find_None_iff find_SomeD not_None_eq)
  with B show ?thesis
    by (auto simp: bootstrap_system_tenant_def pg_query_no_fault bindE_def ret_def)
qed

theorem bootstrap_idempotent_witness:
  "\<exists>v. bootstrap_system_tenant ''S'' (quiet_pg empty_db 0) = (Inr ''S'', v)
     \<and> bootstrap_system_tenant ''S'' v = (Inr ''S'', v\<lparr>pg_queries := Suc (pg_queries v)\<rparr>)"
proof -
  let ?v = "snd (bootstrap_system_tenant ''S'' (quiet_pg empty_db 0))"
  have run: "bootstrap_system_tenant ''S'' (quiet_pg empty_db 0) = (Inr ''S'', ?v)" and "pg_fault ?v (pg_queries ?v) = None"
    by (simp_all add: bootstrap_system_tenant_def tenant_insert_stmt_def pg_query_def pg_exec_def Let_def io_defs
        quiet_pg_def empty_db_def)
  with bootstrap_idempotent [OF run] show ?thesis by blast
qed

end
