(* ===== verification/BrowserSessions.thy ===== *)
theory BrowserSessions
  imports Database
begin

text \<open>
  Browser sessions: \<^verbatim>\<open>cookie_signer.rs\<close>, \<^verbatim>\<open>session_token.rs\<close>, \<^verbatim>\<open>db/session_store.rs\<close> and
  \<^verbatim>\<open>db/login_state.rs\<close>. The cryptographic primitives and the encoders (SHA-256, HMAC,
  HKDF, URL-safe Base64, serde's JSON) are fields of \<open>crypto\<close>, a parameter of every
  definition that calls them; \<open>crypto_ok\<close> states what the code relies on.
\<close>

section \<open>Primitives\<close>

record session_claims =
  sc_sub :: string
  sc_tenant_id :: string
  sc_amr :: string
  sc_iss :: string
  sc_aud :: string
  sc_sid :: string
  sc_exp :: int

record crypto =
  c_sha256_hex :: "string \<Rightarrow> string"
  c_hmac :: "string \<Rightarrow> string \<Rightarrow> string"
  c_hkdf :: "string \<Rightarrow> string \<Rightarrow> string"
  c_b64url :: "string \<Rightarrow> string"
  c_b64url_decode :: "string \<Rightarrow> string option"
  c_claims_json :: "session_claims \<Rightarrow> string"
  c_claims_parse :: "string \<Rightarrow> session_claims option"

text \<open>
  The documented behaviour the session code relies on: Base64 decoding inverts encoding
  and its alphabet has no full stop; serde reads back the claims it wrote, as UTF-8.
\<close>

definition crypto_ok :: "crypto \<Rightarrow> bool" where
  "crypto_ok c \<longleftrightarrow> (\<forall>s. c_b64url_decode c (c_b64url c s) = Some s)
     \<and> (\<forall>s. CHR ''.'' \<notin> set (c_b64url c s))
     \<and> (\<forall>cl. c_claims_parse c (c_claims_json c cl) = Some cl \<and> valid_utf8 (c_claims_json c cl))"

section \<open>CookieSigner\<close>

datatype cookie_error = CE_InvalidFormat | CE_InvalidBase64 | CE_InvalidSignature | CE_WeakKey

type_synonym cookie_signer = string

definition hkdf_info :: string where "hkdf_info = ''sso-gateway-cookie-signer-v1''"

definition cookie_signer_new :: "crypto \<Rightarrow> string \<Rightarrow> cookie_error + cookie_signer" where
  "cookie_signer_new c key =
     (if length key < 32 then Inl CE_WeakKey else Inr (c_hkdf c key hkdf_info))"

definition signature :: "crypto \<Rightarrow> cookie_signer \<Rightarrow> string \<Rightarrow> string" where
  "signature c key payload = c_hmac c key payload"

definition cookie_sign :: "crypto \<Rightarrow> cookie_signer \<Rightarrow> string \<Rightarrow> string" where
  "cookie_sign c key payload = c_b64url c payload @ ''.'' @ c_b64url c (signature c key payload)"

definition cookie_verify :: "crypto \<Rightarrow> cookie_signer \<Rightarrow> string \<Rightarrow> cookie_error + string" where
  "cookie_verify c key cookie =
     (case split_once (CHR ''.'') cookie of
        None \<Rightarrow> Inl CE_InvalidFormat
      | Some (encoded_payload, encoded_signature) \<Rightarrow>
          case c_b64url_decode c encoded_payload of
            None \<Rightarrow> Inl CE_InvalidBase64
          | Some payload \<Rightarrow>
              if \<not> valid_utf8 payload then Inl CE_InvalidFormat
              else case c_b64url_decode c encoded_signature of
                None \<Rightarrow> Inl CE_InvalidBase64
              | Some provided \<Rightarrow>
                  if signature c key payload \<noteq> provided then Inl CE_InvalidSignature
                  else Inr payload)"

lemma cookie_verify_sign:
  assumes "crypto_ok c" and "valid_utf8 payload"
  shows "cookie_verify c key (cookie_sign c key payload) = Inr payload"
  using assms by (simp add: cookie_verify_def cookie_sign_def crypto_ok_def)

lemma cookie_verify_Inr:
  assumes "cookie_verify c key cookie = Inr payload"
  shows "\<exists>ep es. cookie = ep @ CHR ''.'' # es \<and> c_b64url_decode c ep = Some payload
    \<and> c_b64url_decode c es = Some (c_hmac c key payload)"
proof -
  from assms obtain ep es where sp: "split_once (CHR ''.'') cookie = Some (ep, es)"
    by (auto simp: cookie_verify_def split: option.splits)
  with assms have "c_b64url_decode c ep = Some payload"
    and "c_b64url_decode c es = Some (c_hmac c key payload)"
    by (auto simp: cookie_verify_def signature_def split: option.splits if_splits)
  with split_once_Some [OF sp] show ?thesis by blast
qed

section \<open>SessionTokenSigner\<close>

datatype session_token_error =
    ST_InvalidFormat | ST_InvalidSignature | ST_Expired | ST_InvalidIssuer | ST_InvalidAudience
  | ST_Revoked | ST_Serialization

fun session_token_error_of_cookie :: "cookie_error \<Rightarrow> session_token_error" where
  "session_token_error_of_cookie CE_InvalidFormat = ST_InvalidFormat"
| "session_token_error_of_cookie CE_WeakKey = ST_InvalidFormat"
| "session_token_error_of_cookie CE_InvalidBase64 = ST_InvalidSignature"
| "session_token_error_of_cookie CE_InvalidSignature = ST_InvalidSignature"

record session_token_signer =
  sts_signer :: cookie_signer
  sts_ttl_seconds :: int
  sts_issuer :: string

text \<open>The constructor panics on a short secret; \<open>None\<close> is the panic.\<close>

definition session_token_signer_new ::
  "crypto \<Rightarrow> string \<Rightarrow> int \<Rightarrow> string \<Rightarrow> session_token_signer option" where
  "session_token_signer_new c secret ttl_seconds issuer =
     (case cookie_signer_new c secret of
        Inl _ \<Rightarrow> None
      | Inr k \<Rightarrow> Some \<lparr>sts_signer = k, sts_ttl_seconds = ttl_seconds, sts_issuer = issuer\<rparr>)"

text \<open>\<^verbatim>\<open>i64\<close> addition wraps in the release profile.\<close>

definition wrap_i64 :: "int \<Rightarrow> int" where
  "wrap_i64 n = (n + 2 ^ 63) mod 2 ^ 64 - 2 ^ 63"

lemma wrap_i64_id: "- (2 ^ 63) \<le> n \<Longrightarrow> n < 2 ^ 63 \<Longrightarrow> wrap_i64 n = n"
  by (simp add: wrap_i64_def)

text \<open>\<open>sid\<close> is the random session id drawn by \<^verbatim>\<open>generate_sid\<close>.\<close>

definition session_issue ::
  "crypto \<Rightarrow> session_token_signer \<Rightarrow> instant \<Rightarrow> string \<Rightarrow> string \<Rightarrow> string \<Rightarrow> string
    \<Rightarrow> string \<times> session_claims" where
  "session_issue c s now sid sub tenant_id amr =
     (let claims = \<lparr>sc_sub = sub, sc_tenant_id = tenant_id, sc_amr = amr, sc_iss = sts_issuer s,
                    sc_aud = tenant_id, sc_sid = sid,
                    sc_exp = wrap_i64 (unix_timestamp now + sts_ttl_seconds s)\<rparr>
      in (cookie_sign c (sts_signer s) (c_claims_json c claims), claims))"

definition session_verify ::
  "crypto \<Rightarrow> session_token_signer \<Rightarrow> instant \<Rightarrow> string \<Rightarrow> session_token_error + session_claims" where
  "session_verify c s now token =
     (case cookie_verify c (sts_signer s) token of
        Inl e \<Rightarrow> Inl (session_token_error_of_cookie e)
      | Inr payload \<Rightarrow>
          case c_claims_parse c payload of
            None \<Rightarrow> Inl ST_Serialization
          | Some claims \<Rightarrow>
              if sc_exp claims < unix_timestamp now then Inl ST_Expired
              else if sc_iss claims \<noteq> sts_issuer s then Inl ST_InvalidIssuer
              else if sc_aud claims \<noteq> sc_tenant_id claims then Inl ST_InvalidAudience
              else Inr claims)"

lemma session_verify_Inr:
  assumes "session_verify c s now token = Inr claims"
  shows "unix_timestamp now \<le> sc_exp claims \<and> sc_iss claims = sts_issuer s
    \<and> sc_aud claims = sc_tenant_id claims
    \<and> (\<exists>payload ep es. token = ep @ CHR ''.'' # es \<and> c_b64url_decode c ep = Some payload
         \<and> c_b64url_decode c es = Some (c_hmac c (sts_signer s) payload)
         \<and> c_claims_parse c payload = Some claims)"
proof -
  from assms obtain payload where p: "cookie_verify c (sts_signer s) token = Inr payload"
    by (auto simp: session_verify_def split: sum.splits)
  with assms have "c_claims_parse c payload = Some claims"
    and "unix_timestamp now \<le> sc_exp claims \<and> sc_iss claims = sts_issuer s
      \<and> sc_aud claims = sc_tenant_id claims"
    by (auto simp: session_verify_def split: option.splits if_splits)
  with cookie_verify_Inr [OF p] show ?thesis by blast
qed

lemma session_verify_issue:
  assumes "crypto_ok c" and "session_issue c s now sid sub t amr = (token, claims)"
  shows "session_verify c s now' token =
    (if sc_exp claims < unix_timestamp now' then Inl ST_Expired else Inr claims)"
  using assms cookie_verify_sign [OF assms(1)]
  by (auto simp: session_issue_def session_verify_def crypto_ok_def Let_def)

section \<open>PgSessionStore\<close>

definition hash_session_id :: "crypto \<Rightarrow> string \<Rightarrow> string" where
  "hash_session_id c session_id = c_sha256_hex c session_id"

definition session_create_stmt ::
  "crypto \<Rightarrow> string \<Rightarrow> string \<Rightarrow> string \<Rightarrow> string \<Rightarrow> instant \<Rightarrow> unit stmt" where
  "session_create_stmt c session_id sub tenant_id amr expires_at now db =
     (let h = hash_session_id c session_id;
          row = \<lparr>gs_session_hash = h, gs_sub = sub, gs_tenant_id = tenant_id, gs_amr = amr,
                 gs_created_at = now, gs_expires_at = expires_at, gs_revoked_at = None\<rparr>
      in if h \<in> gs_session_hash ` set (gateway_sessions db) then (Inr (), db)
         else (Inr (), db\<lparr>gateway_sessions := gateway_sessions db @ [row]\<rparr>))"

definition session_create ::
  "crypto \<Rightarrow> string \<Rightarrow> string \<Rightarrow> string \<Rightarrow> string \<Rightarrow> instant \<Rightarrow> ('z pg_scheme, db_error, unit) io" where
  "session_create c session_id sub tenant_id amr expires_at =
     pg_exec (session_create_stmt c session_id sub tenant_id amr expires_at)"

definition session_live :: "instant \<Rightarrow> string \<Rightarrow> session_row \<Rightarrow> bool" where
  "session_live now h r \<longleftrightarrow> gs_session_hash r = h \<and> now < gs_expires_at r \<and> gs_revoked_at r = None"

definition session_is_active :: "crypto \<Rightarrow> string \<Rightarrow> ('z pg_scheme, db_error, bool) io" where
  "session_is_active c session_id =
     pg_query (\<lambda>now db. Inr (find (session_live now (hash_session_id c session_id))
       (gateway_sessions db) \<noteq> None))"

definition session_revoke_stmt :: "crypto \<Rightarrow> string \<Rightarrow> unit stmt" where
  "session_revoke_stmt c session_id now db =
     (Inr (), db\<lparr>gateway_sessions :=
        map (\<lambda>r. if gs_session_hash r = hash_session_id c session_id
                 then r\<lparr>gs_revoked_at := Some now\<rparr> else r) (gateway_sessions db)\<rparr>)"

definition session_revoke :: "crypto \<Rightarrow> string \<Rightarrow> ('z pg_scheme, db_error, unit) io" where
  "session_revoke c session_id = pg_exec (session_revoke_stmt c session_id)"

definition session_revoke_all_stmt :: "string \<Rightarrow> unit stmt" where
  "session_revoke_all_stmt sub now db =
     (Inr (), db\<lparr>gateway_sessions :=
        map (\<lambda>r. if gs_sub r = sub \<and> gs_revoked_at r = None
                 then r\<lparr>gs_revoked_at := Some now\<rparr> else r) (gateway_sessions db)\<rparr>)"

definition session_revoke_all_for_subject :: "string \<Rightarrow> ('z pg_scheme, db_error, unit) io" where
  "session_revoke_all_for_subject sub = pg_exec (session_revoke_all_stmt sub)"

subsection \<open>Revocation lasts\<close>

text \<open>
  A session id is dead when its hash has a row and every such row is revoked. No operation
  of the store brings it back: \<open>create\<close> does nothing on a known hash, and the revocation
  time is never cleared.
\<close>

definition session_dead :: "crypto \<Rightarrow> string \<Rightarrow> database \<Rightarrow> bool" where
  "session_dead c sid db \<longleftrightarrow>
     hash_session_id c sid \<in> gs_session_hash ` set (gateway_sessions db)
     \<and> (\<forall>r \<in> set (gateway_sessions db). gs_session_hash r = hash_session_id c sid \<longrightarrow> gs_revoked_at r \<noteq> None)"

definition session_known :: "crypto \<Rightarrow> string \<Rightarrow> database \<Rightarrow> bool" where
  "session_known c sid db \<longleftrightarrow> hash_session_id c sid \<in> gs_session_hash ` set (gateway_sessions db)"

datatype session_op =
    OpCreate string string string string instant
  | OpIsActive string
  | OpRevoke string
  | OpRevokeAll string
  | OpTick duration

text \<open>One call of the store (its result dropped), or the clock moving on.\<close>

definition run_session_op :: "crypto \<Rightarrow> session_op \<Rightarrow> 'z pg_scheme \<Rightarrow> 'z pg_scheme" where
  "run_session_op c op w =
     (case op of
        OpCreate sid sub t amr e \<Rightarrow> snd (session_create c sid sub t amr e w)
      | OpIsActive sid \<Rightarrow> snd (session_is_active c sid w)
      | OpRevoke sid \<Rightarrow> snd (session_revoke c sid w)
      | OpRevokeAll sub \<Rightarrow> snd (session_revoke_all_for_subject sub w)
      | OpTick d \<Rightarrow> w\<lparr>pg_now := pg_now w + d\<rparr>)"

lemma session_create_dead [stmt_rules]:
  "stmt_keeps (session_dead c sid) (session_create_stmt c' s sub t amr e)"
  by (rule stmt_keepsI) (auto simp: session_create_stmt_def Let_def session_dead_def)

lemma session_revoke_dead [stmt_rules]:
  "stmt_keeps (session_dead c sid) (session_revoke_stmt c' s)"
proof (rule stmt_keepsI)
  fix now db
  assume "session_dead c sid db"
  then show "session_dead c sid (snd (session_revoke_stmt c' s now db))"
    using key_image_map [of gs_session_hash "\<lambda>r. if gs_session_hash r = hash_session_id c' s
      then r\<lparr>gs_revoked_at := Some now\<rparr> else r" "gateway_sessions db"]
    by (auto simp: session_revoke_stmt_def session_dead_def)
qed

lemma session_revoke_all_dead [stmt_rules]:
  "stmt_keeps (session_dead c sid) (session_revoke_all_stmt sub)"
proof (rule stmt_keepsI)
  fix now db
  assume "session_dead c sid db"
  then show "session_dead c sid (snd (session_revoke_all_stmt sub now db))"
    using key_image_map [of gs_session_hash "\<lambda>r. if gs_sub r = sub \<and> gs_revoked_at r = None
      then r\<lparr>gs_revoked_at := Some now\<rparr> else r" "gateway_sessions db"]
    by (auto simp: session_revoke_all_stmt_def session_dead_def)
qed

lemma keeps_session_dead [keeps_rules]:
  "keeps (\<lambda>w. session_dead c sid (pg_db w)) (session_create c' s sub t amr e)"
  "keeps (\<lambda>w. session_dead c sid (pg_db w)) (session_is_active c' s)"
  "keeps (\<lambda>w. session_dead c sid (pg_db w)) (session_revoke c' s)"
  "keeps (\<lambda>w. session_dead c sid (pg_db w)) (session_revoke_all_for_subject sub)"
  unfolding session_create_def session_is_active_def session_revoke_def
    session_revoke_all_for_subject_def
  by (intro keeps_pg_exec keeps_pg_query stmt_rules)+

lemma session_op_dead:
  "session_dead c sid (pg_db w) \<Longrightarrow> session_dead c sid (pg_db (run_session_op c op w))"
  by (cases op)
     (auto simp: run_session_op_def
       intro: keepsD_snd [where I = "\<lambda>w. session_dead c sid (pg_db w)"] keeps_session_dead)

lemma session_ops_dead:
  "session_dead c sid (pg_db w) \<Longrightarrow> session_dead c sid (pg_db (fold (run_session_op c) ops w))"
  by (induction ops arbitrary: w) (auto intro: session_op_dead)

lemma session_dead_inactive:
  assumes "session_dead c sid (pg_db w)"
  shows "fst (session_is_active c sid w) \<noteq> Inr True"
proof -
  have "find (session_live (pg_now w) (hash_session_id c sid)) (gateway_sessions (pg_db w)) = None"
    using assms by (auto simp: find_None_iff session_dead_def session_live_def)
  then show ?thesis
    unfolding session_is_active_def
    by (cases rule: pg_query_cases [of "\<lambda>now db. Inr (find (session_live now (hash_session_id c sid))
          (gateway_sessions db) \<noteq> None)" w]) simp_all
qed

lemma session_revoke_kills:
  assumes "session_known c sid (pg_db w)" and "session_revoke c sid w = (Inr (), v)"
  shows "session_dead c sid (pg_db v)"
proof -
  have "pg_db v = snd (session_revoke_stmt c sid (pg_now w) (pg_db w))"
    using pg_exec_Inr [OF assms(2) [unfolded session_revoke_def]] by simp
  then show ?thesis
    using assms(1) key_image_map [of gs_session_hash "\<lambda>r. if gs_session_hash r = hash_session_id c sid
      then r\<lparr>gs_revoked_at := Some (pg_now w)\<rparr> else r" "gateway_sessions (pg_db w)"]
    by (auto simp: session_revoke_stmt_def session_dead_def session_known_def)
qed

lemma session_revoke_all_kills:
  assumes "session_revoke_all_for_subject sub w = (Inr (), v)"
    and "session_known c sid (pg_db w)"
    and "\<forall>r \<in> set (gateway_sessions (pg_db w)). gs_session_hash r = hash_session_id c sid \<longrightarrow> gs_sub r = sub"
  shows "session_dead c sid (pg_db v)"
proof -
  have "pg_db v = snd (session_revoke_all_stmt sub (pg_now w) (pg_db w))"
    using pg_exec_Inr [OF assms(1) [unfolded session_revoke_all_for_subject_def]] by simp
  then show ?thesis
    using assms(2,3) key_image_map [of gs_session_hash "\<lambda>r. if gs_sub r = sub \<and> gs_revoked_at r = None
      then r\<lparr>gs_revoked_at := Some (pg_now w)\<rparr> else r" "gateway_sessions (pg_db w)"]
    by (auto simp: session_revoke_all_stmt_def session_dead_def session_known_def)
qed

section \<open>PgLoginStateStore\<close>

definition login_state_insert_stmt ::
  "string \<Rightarrow> string \<Rightarrow> string \<Rightarrow> string \<Rightarrow> string \<Rightarrow> string option \<Rightarrow> string option \<Rightarrow> instant
    \<Rightarrow> login_state_row stmt" where
  "login_state_insert_stmt state_token tenant_id connection_id connection_type return_to code_verifier
      nonce expires_at now db =
     (let row = \<lparr>ls_state_token = state_token, ls_tenant_id = tenant_id,
                 ls_connection_id = connection_id, ls_connection_type = connection_type,
                 ls_return_to = return_to, ls_code_verifier = code_verifier, ls_nonce = nonce,
                 ls_created_at = now, ls_expires_at = expires_at\<rparr>
      in if state_token \<in> ls_state_token ` set (login_states db) then violates ''login_state_pkey'' db
         else (Inr row, db\<lparr>login_states := login_states db @ [row]\<rparr>))"

definition login_state_create ::
  "string \<Rightarrow> string \<Rightarrow> string \<Rightarrow> string \<Rightarrow> string option \<Rightarrow> string option \<Rightarrow> duration
    \<Rightarrow> ('z pg_scheme, db_error, login_state_row) io" where
  "login_state_create tenant_id connection_id connection_type return_to code_verifier nonce ttl =
     bindE ulid_new (\<lambda>state_token. bindE now_utc (\<lambda>now.
       pg_exec (login_state_insert_stmt state_token tenant_id connection_id connection_type return_to
         code_verifier nonce (now + ttl))))"

definition login_state_get :: "string \<Rightarrow> ('z pg_scheme, db_error, login_state_row) io" where
  "login_state_get state_token =
     pg_query (\<lambda>now db. ok_or LoginStateNotFound
       (find (\<lambda>r. ls_state_token r = state_token \<and> now < ls_expires_at r) (login_states db)))"

definition login_state_delete_stmt :: "string \<Rightarrow> unit stmt" where
  "login_state_delete_stmt state_token now db =
     (if filter (\<lambda>r. ls_state_token r = state_token) (login_states db) = []
      then (Inl LoginStateNotFound, db)
      else (Inr (), db\<lparr>login_states :=
              filter (\<lambda>r. ls_state_token r \<noteq> state_token) (login_states db)\<rparr>))"

definition login_state_delete :: "string \<Rightarrow> ('z pg_scheme, db_error, unit) io" where
  "login_state_delete state_token = pg_exec (login_state_delete_stmt state_token)"

text \<open>A state token is consumed by its deletion: a second callback with it finds nothing.\<close>

lemma login_state_consumed:
  assumes "login_state_delete tok w = (Inr (), v)"
  shows "fst (login_state_get tok v) \<noteq> Inr r" and "fst (login_state_delete tok v) \<noteq> Inr ()"
proof -
  have v: "login_states (pg_db v) = filter (\<lambda>r. ls_state_token r \<noteq> tok) (login_states (pg_db w))"
    using pg_exec_Inr [OF assms [unfolded login_state_delete_def]]
    by (auto simp: login_state_delete_stmt_def split: if_splits)
  have none: "find (\<lambda>r. ls_state_token r = tok \<and> pg_now v < ls_expires_at r) (login_states (pg_db v)) = None"
    by (auto simp: v find_None_iff)
  show "fst (login_state_get tok v) \<noteq> Inr r"
    unfolding login_state_get_def
    by (cases rule: pg_query_cases [of "\<lambda>now db. ok_or LoginStateNotFound
          (find (\<lambda>r. ls_state_token r = tok \<and> now < ls_expires_at r) (login_states db))" v])
       (simp_all add: none)
  have "filter (\<lambda>r. ls_state_token r = tok) (login_states (pg_db v)) = []"
    by (auto simp: v filter_empty_conv)
  then show "fst (login_state_delete tok v) \<noteq> Inr ()"
    unfolding login_state_delete_def
    by (simp add: pg_exec_def Let_def login_state_delete_stmt_def split: option.splits fault.splits)
qed

section \<open>Properties\<close>

text \<open>
  Signing out is final: once a stored session has been revoked, no sequence of further
  calls of the store, by whomever, with whatever arguments, losing whatever requests or
  replies, and however much later, makes the session active again; re-creating it under the
  same id does not either.
\<close>

theorem revoked_session_stays_dead:
  assumes "session_known c sid (pg_db w)" and "session_revoke c sid w = (Inr (), v)"
  shows "fst (session_is_active c sid (fold (run_session_op c) ops v)) \<noteq> Inr True"
  by (rule session_dead_inactive [OF session_ops_dead [OF session_revoke_kills [OF assms]]])

definition one_session :: database where
  "one_session = empty_db\<lparr>gateway_sessions := [\<lparr>gs_session_hash = ''sid'', gs_sub = ''U'', gs_tenant_id = ''T'',
     gs_amr = ''pwd'', gs_created_at = 0, gs_expires_at = 10, gs_revoked_at = None\<rparr>]\<rparr>"

definition identity_crypto :: crypto where
  "identity_crypto = \<lparr>c_sha256_hex = id, c_hmac = (\<lambda>k m. k @ m), c_hkdf = (\<lambda>k i. k @ i),
     c_b64url = id, c_b64url_decode = Some, c_claims_json = (\<lambda>_. []), c_claims_parse = (\<lambda>_. None)\<rparr>"

lemmas session_sample_defs = one_session_def identity_crypto_def quiet_pg_def pg_exec_def pg_query_def Let_def
  hash_session_id_def empty_db_def

theorem revoked_session_stays_dead_witness:
  "fst (session_is_active identity_crypto ''sid'' (quiet_pg one_session 0)) = Inr True
   \<and> fst (session_is_active identity_crypto ''sid'' (fold (run_session_op identity_crypto)
        [OpCreate ''sid'' ''U'' ''T'' ''pwd'' 10, OpTick 1] (snd (session_revoke identity_crypto ''sid'' (quiet_pg one_session 0)))))
      \<noteq> Inr True"
proof -
  let ?w = "quiet_pg one_session 0"
  have known: "session_known identity_crypto ''sid'' (pg_db ?w)"
    by (simp add: session_known_def session_sample_defs)
  have "session_revoke identity_crypto ''sid'' ?w = (Inr (), snd (session_revoke identity_crypto ''sid'' ?w))"
    by (simp add: session_revoke_def session_revoke_stmt_def session_sample_defs)
  note dead = revoked_session_stays_dead [OF known this,
      of "[OpCreate ''sid'' ''U'' ''T'' ''pwd'' 10, OpTick 1]"]
  have "fst (session_is_active identity_crypto ''sid'' ?w) = Inr True"
    by (simp add: session_is_active_def session_live_def session_sample_defs)
  with dead show ?thesis by (rule conjI [rotated])
qed

text \<open>
  Signing out everywhere: after \<^verbatim>\<open>revoke_all_for_subject\<close> has returned, no session of that
  subject is ever active again, whatever the store is asked afterwards.
\<close>

theorem revoke_all_signs_out:
  assumes "session_revoke_all_for_subject sub w = (Inr (), v)"
    and "session_known c sid (pg_db w)"
    and "\<forall>r \<in> set (gateway_sessions (pg_db w)). gs_session_hash r = hash_session_id c sid \<longrightarrow> gs_sub r = sub"
  shows "fst (session_is_active c sid (fold (run_session_op c) ops v)) \<noteq> Inr True"
  by (rule session_dead_inactive [OF session_ops_dead [OF session_revoke_all_kills [OF assms]]])

theorem revoke_all_signs_out_witness:
  "fst (session_is_active identity_crypto ''sid'' (fold (run_session_op identity_crypto)
        [OpTick 1] (snd (session_revoke_all_for_subject ''U'' (quiet_pg one_session 0))))) \<noteq> Inr True"
proof (rule revoke_all_signs_out)
  show "session_revoke_all_for_subject ''U'' (quiet_pg one_session 0)
      = (Inr (), snd (session_revoke_all_for_subject ''U'' (quiet_pg one_session 0)))"
    by (simp add: session_revoke_all_for_subject_def session_revoke_all_stmt_def session_sample_defs)
  show "session_known identity_crypto ''sid'' (pg_db (quiet_pg one_session 0))"
    by (simp add: session_known_def session_sample_defs)
  show "\<forall>r \<in> set (gateway_sessions (pg_db (quiet_pg one_session 0))).
      gs_session_hash r = hash_session_id identity_crypto ''sid'' \<longrightarrow> gs_sub r = ''U''"
    by (simp add: session_sample_defs)
qed

text \<open>
  A login state is consumed once: after its deletion has returned, neither a lookup nor a
  second deletion with the same state token succeeds, so a replayed callback finds nothing.
\<close>

theorem login_state_single_use:
  assumes "login_state_delete tok w = (Inr (), v)"
  shows "(\<nexists>r. fst (login_state_get tok v) = Inr r) \<and> fst (login_state_delete tok v) \<noteq> Inr ()"
  using login_state_consumed [OF assms] by blast

theorem login_state_single_use_witness:
  "\<exists>row v. login_state_create ''T'' ''C'' ''oidc'' ''/'' None None 5 (quiet_pg empty_db 0) = (Inr row, v)
     \<and> fst (login_state_get (ls_state_token row) v) = Inr row
     \<and> fst (login_state_delete (ls_state_token row) (snd (login_state_delete (ls_state_token row) v))) \<noteq> Inr ()"
proof -
  let ?row = "\<lparr>ls_state_token = ''0'', ls_tenant_id = ''T'', ls_connection_id = ''C'', ls_connection_type = ''oidc'',
    ls_return_to = ''/'', ls_code_verifier = None, ls_nonce = None, ls_created_at = 0, ls_expires_at = 5\<rparr>"
  let ?v = "(quiet_pg (empty_db\<lparr>login_states := [?row]\<rparr>) 0)\<lparr>pg_ulids := 1, pg_queries := 1\<rparr>"
  have c: "login_state_create ''T'' ''C'' ''oidc'' ''/'' None None 5 (quiet_pg empty_db 0) = (Inr ?row, ?v)"
    by (simp add: login_state_create_def login_state_insert_stmt_def ulid_new_def now_utc_def io_defs
        session_sample_defs)
  have g: "fst (login_state_get ''0'' ?v) = Inr ?row"
    by (simp add: login_state_get_def session_sample_defs ok_or_def)
  have d: "login_state_delete ''0'' ?v = (Inr (), snd (login_state_delete ''0'' ?v))"
    by (simp add: login_state_delete_def login_state_delete_stmt_def session_sample_defs)
  have "fst (login_state_delete ''0'' (snd (login_state_delete ''0'' ?v))) \<noteq> Inr ()"
    using login_state_single_use [OF d] by (rule conjunct2)
  with c g show ?thesis by (intro exI [of _ ?row] exI [of _ ?v]) simp
qed

text \<open>
  Session tokens round trip: a token issued by a signer is accepted by every signer with the
  same secret and issuer exactly until the expiry written into it, yields the claims it was
  issued with, and is refused by a signer that names another issuer.
\<close>

theorem session_token_roundtrip:
  assumes c: "crypto_ok c" and s: "session_token_signer_new c secret ttl iss = Some s"
    and run: "session_issue c s now sid sub t amr = (token, claims)"
  shows "(session_verify c s now' token = Inr claims
           \<longleftrightarrow> unix_timestamp now' \<le> wrap_i64 (unix_timestamp now + ttl))
    \<and> sc_sub claims = sub \<and> sc_tenant_id claims = t \<and> sc_amr claims = amr \<and> sc_sid claims = sid
    \<and> (\<forall>ttl' iss' s' cl. session_token_signer_new c secret ttl' iss' = Some s' \<longrightarrow> iss' \<noteq> iss
         \<longrightarrow> session_verify c s' now' token \<noteq> Inr cl)"
proof -
  have claims: "claims = \<lparr>sc_sub = sub, sc_tenant_id = t, sc_amr = amr, sc_iss = iss, sc_aud = t, sc_sid = sid,
      sc_exp = wrap_i64 (unix_timestamp now + ttl)\<rparr>"
    and key: "s = \<lparr>sts_signer = c_hkdf c secret hkdf_info, sts_ttl_seconds = ttl, sts_issuer = iss\<rparr>"
    and token: "token = cookie_sign c (c_hkdf c secret hkdf_info) (c_claims_json c claims)"
    using s run by (auto simp: session_token_signer_new_def cookie_signer_new_def session_issue_def Let_def
        split: if_splits)
  have "session_verify c s' now' token \<noteq> Inr cl"
    if "session_token_signer_new c secret ttl' iss' = Some s'" and "iss' \<noteq> iss" for ttl' iss' s' cl
  proof -
    have "s' = \<lparr>sts_signer = c_hkdf c secret hkdf_info, sts_ttl_seconds = ttl', sts_issuer = iss'\<rparr>"
      using that(1) by (auto simp: session_token_signer_new_def cookie_signer_new_def split: if_splits)
    then show ?thesis
      using c cookie_verify_sign [OF c] that(2) claims by (auto simp: session_verify_def token crypto_ok_def)
  qed
  then show ?thesis using session_verify_issue [OF c run] claims by auto
qed

text \<open>A concrete codec with the assumed laws: characters and numbers in unary.\<close>

definition unary_encode :: "string \<Rightarrow> string" where
  "unary_encode s = concat (map (\<lambda>c. replicate (code_point c) (CHR ''a'') @ ''b'') s)"

fun unary_decode :: "nat \<Rightarrow> string \<Rightarrow> string" where
  "unary_decode n [] = []"
| "unary_decode n (c # cs) = (if c = CHR ''a'' then unary_decode (Suc n) cs else char_of n # unary_decode 0 cs)"

lemma unary_decode_replicate: "unary_decode n (replicate k (CHR ''a'') @ rest) = unary_decode (n + k) rest"
  by (induction k arbitrary: n) simp_all

lemma unary_roundtrip: "unary_decode 0 (unary_encode s) = s"
  by (induction s) (simp_all add: unary_encode_def unary_decode_replicate code_point_def)

lemma unary_letters: "set (unary_encode s) \<subseteq> {CHR ''a'', CHR ''b''}"
  by (auto simp: unary_encode_def)

definition claims_text :: "session_claims \<Rightarrow> string" where
  "claims_text cl = join_with ''.'' (map unary_encode [sc_sub cl, sc_tenant_id cl, sc_amr cl, sc_iss cl, sc_aud cl,
     sc_sid cl] @ [(if sc_exp cl < 0 then ''b'' else []) @ replicate (nat \<bar>sc_exp cl\<bar>) (CHR ''a'')])"

definition claims_of_text :: "string \<Rightarrow> session_claims option" where
  "claims_of_text s =
     (case split_on (CHR ''.'') s of
        [a, b, c, d, e, f, n] \<Rightarrow>
          Some \<lparr>sc_sub = unary_decode 0 a, sc_tenant_id = unary_decode 0 b, sc_amr = unary_decode 0 c,
            sc_iss = unary_decode 0 d, sc_aud = unary_decode 0 e, sc_sid = unary_decode 0 f,
            sc_exp = (case n of CHR ''b'' # m \<Rightarrow> - int (length m) | _ \<Rightarrow> int (length n))\<rparr>
      | _ \<Rightarrow> None)"

definition unary_crypto :: crypto where
  "unary_crypto = identity_crypto\<lparr>c_b64url := unary_encode, c_b64url_decode := (\<lambda>s. Some (unary_decode 0 s)),
     c_claims_json := claims_text, c_claims_parse := claims_of_text\<rparr>"

lemma no_dot: "CHR ''.'' \<notin> set (unary_encode s)"
  using unary_letters [of s] by auto

lemma claims_roundtrip: "claims_of_text (claims_text cl) = Some cl"
proof -
  have "split_on (CHR ''.'') (claims_text cl) = map unary_encode [sc_sub cl, sc_tenant_id cl, sc_amr cl, sc_iss cl,
      sc_aud cl, sc_sid cl] @ [(if sc_exp cl < 0 then ''b'' else []) @ replicate (nat \<bar>sc_exp cl\<bar>) (CHR ''a'')]"
    unfolding claims_text_def by (rule split_on_join) (auto simp: no_dot)
  then show ?thesis by (cases "nat \<bar>sc_exp cl\<bar>") (auto simp: claims_of_text_def unary_roundtrip)
qed

lemma set_join_with: "set (join_with sep ws) \<subseteq> set sep \<union> (\<Union>w \<in> set ws. set w)"
  by (induction sep ws rule: join_with.induct) auto

lemma claims_text_ascii: "is_ascii (claims_text cl)"
proof -
  have "set (claims_text cl) \<subseteq> {CHR ''a'', CHR ''b'', CHR ''.''}"
    unfolding claims_text_def
    by (rule subset_trans [OF set_join_with]) (use unary_letters in \<open>auto split: if_splits\<close>)
  then show ?thesis by (auto simp: is_ascii_def code_point_def)
qed

lemma unary_crypto_ok: "crypto_ok unary_crypto"
  by (simp add: crypto_ok_def unary_crypto_def unary_roundtrip no_dot claims_roundtrip ascii_is_valid claims_text_ascii)

theorem session_token_roundtrip_witness:
  "\<exists>s token claims. session_token_signer_new unary_crypto (replicate 32 (CHR ''k'')) 60 ''iss'' = Some s
     \<and> session_issue unary_crypto s 0 ''sid'' ''U'' ''T'' ''pwd'' = (token, claims)
     \<and> session_verify unary_crypto s (30 * nanos_per_second) token = Inr claims
     \<and> session_verify unary_crypto s (61 * nanos_per_second) token \<noteq> Inr claims"
proof -
  obtain s where s: "session_token_signer_new unary_crypto (replicate 32 (CHR ''k'')) 60 ''iss'' = Some s"
    by (simp add: session_token_signer_new_def cookie_signer_new_def)
  obtain token claims where i: "session_issue unary_crypto s 0 ''sid'' ''U'' ''T'' ''pwd'' = (token, claims)"
    by (cases "session_issue unary_crypto s 0 ''sid'' ''U'' ''T'' ''pwd''") blast
  note rt = session_token_roundtrip [OF unary_crypto_ok s i]
  have "session_verify unary_crypto s (30 * nanos_per_second) token = Inr claims"
    "session_verify unary_crypto s (61 * nanos_per_second) token \<noteq> Inr claims"
    using rt [of "30 * nanos_per_second"] rt [of "61 * nanos_per_second"]
    by (simp_all add: wrap_i64_def unix_timestamp_def nanos_per_second_def)
  with s i show ?thesis by blast
qed

end
