(* ===== verification/Auth.thy ===== *)
theory Auth
  imports TenantStores BrowserSessions
begin

text \<open>
  \<^verbatim>\<open>auth.rs\<close> and \<^verbatim>\<open>db/token_cache.rs\<close>: scopes, the authentication context, token
  introspection with its Postgres cache, the resolution of a token subject to a tenant and
  public id, and the guards the handlers call.

  Inputs made by third-party code come in as data: a header map is what the code reads of
  it (\<open>h_get\<close> is \<^verbatim>\<open>headers.get(name)\<close> through \<^verbatim>\<open>to_str().ok()\<close>, \<open>h_all\<close> the values of
  \<^verbatim>\<open>get_all\<close> that pass it). The inner introspector (Hydra) is an argument.
\<close>

section \<open>Scopes and contexts\<close>

definition "SCOPE_OPENID = ''openid''"
definition "SCOPE_TENANT_ADMIN = ''tenant:admin''"
definition "SCOPE_TENANT_READ = ''tenant:read''"
definition "SCOPE_IDENTITY_ADMIN = ''identity:admin''"
definition "SCOPE_IDENTITY_READ = ''identity:read''"
definition "SCOPE_SCIM_ADMIN = ''scim:admin''"
definition "SCOPE_SCIM_READ = ''scim:read''"
definition "SCOPE_PERMISSION_ADMIN = ''permission:admin''"
definition "SCOPE_PERMISSION_READ = ''permission:read''"
definition "SCOPE_APPLICATION_ADMIN = ''application:admin''"
definition "SCOPE_APPLICATION_READ = ''application:read''"
definition "SCOPE_AGENT_ADMIN = ''agent:admin''"
definition "SCOPE_AGENT_READ = ''agent:read''"
definition "SCOPE_AGENT_ACT = ''agent:act''"

lemmas scope_defs = SCOPE_OPENID_def SCOPE_TENANT_ADMIN_def SCOPE_TENANT_READ_def
  SCOPE_IDENTITY_ADMIN_def SCOPE_IDENTITY_READ_def SCOPE_SCIM_ADMIN_def SCOPE_SCIM_READ_def
  SCOPE_PERMISSION_ADMIN_def SCOPE_PERMISSION_READ_def SCOPE_APPLICATION_ADMIN_def
  SCOPE_APPLICATION_READ_def SCOPE_AGENT_ADMIN_def SCOPE_AGENT_READ_def SCOPE_AGENT_ACT_def

definition KNOWN_SCOPES :: "string list" where
  "KNOWN_SCOPES = [SCOPE_OPENID, SCOPE_TENANT_ADMIN, SCOPE_TENANT_READ, SCOPE_IDENTITY_ADMIN,
     SCOPE_IDENTITY_READ, SCOPE_SCIM_ADMIN, SCOPE_SCIM_READ, SCOPE_PERMISSION_ADMIN,
     SCOPE_PERMISSION_READ, SCOPE_APPLICATION_ADMIN, SCOPE_APPLICATION_READ, SCOPE_AGENT_ADMIN,
     SCOPE_AGENT_READ, SCOPE_AGENT_ACT]"

datatype subject_type = User | Agent | Client

fun subject_type_str :: "subject_type \<Rightarrow> string" where
  "subject_type_str User = ''user''"
| "subject_type_str Agent = ''agent''"
| "subject_type_str Client = ''client''"

record actor_context =
  act_agent_id :: string
  act_delegation_id :: string

record auth_context =
  ac_tenant_id :: string
  ac_subject :: string
  ac_subject_type :: subject_type
  ac_actor :: "actor_context option"
  ac_scopes :: "string list"
  ac_token_hash :: string
  ac_authentication_methods :: "string list"

record introspection_result =
  ir_active :: bool
  ir_sub :: "string option"
  ir_scope :: "string list"
  ir_exp :: "instant option"
  ir_authentication_methods :: "string list"

text \<open>The request extensions the handlers read.\<close>

record request_context =
  rx_auth :: "auth_context option"
  rx_tenant :: "string option"

record header_map =
  h_get :: "string \<Rightarrow> string option"
  h_all :: "string \<Rightarrow> string list"

section \<open>Parsing an introspection response\<close>

definition from_unix_timestamp :: "int \<Rightarrow> instant option" where
  "from_unix_timestamp ts =
     (if - 377705116800 \<le> ts \<and> ts \<le> 253402300799 then Some (ts * nanos_per_second) else None)"

definition amr_entry :: "json \<Rightarrow> string option" where
  "amr_entry entry =
     (case Option.bind (json_get entry ''method'') as_str of
        Some m \<Rightarrow> Some m
      | None \<Rightarrow> as_str entry)"

definition parse_authentication_methods :: "json \<Rightarrow> string list" where
  "parse_authentication_methods v =
     (let amr = (case Option.bind (json_get v ''ext'') (\<lambda>ext. json_get ext ''authentication_methods'') of
                   Some x \<Rightarrow> Some x
                 | None \<Rightarrow> json_get v ''authentication_methods'')
      in case Option.bind amr as_array of
           None \<Rightarrow> []
         | Some array \<Rightarrow> List.map_filter amr_entry array)"

definition introspection_from_hydra :: "json \<Rightarrow> introspection_result" where
  "introspection_from_hydra v =
     \<lparr>ir_active = (as_bool (json_index v ''active'') = Some True),
      ir_sub = as_str (json_index v ''sub''),
      ir_scope = (case as_str (json_index v ''scope'') of
                    Some s \<Rightarrow> split_on (CHR '' '') s
                  | None \<Rightarrow> []),
      ir_exp = Option.bind (as_i64 (json_index v ''exp'')) from_unix_timestamp,
      ir_authentication_methods = parse_authentication_methods v\<rparr>"

datatype auth_error =
    MissingToken
  | IntrospectionFailed ory_error
  | InactiveToken
  | MissingSubject
  | UnknownSubject
  | AuthDatabase db_error

text \<open>\<open>introspect_token\<close> is Hydra's admin endpoint through \<^verbatim>\<open>HydraClient\<close>.\<close>

definition hydra_introspect ::
  "(string \<Rightarrow> ('s, ory_error, json) io) \<Rightarrow> string \<Rightarrow> ('s, auth_error, introspection_result) io" where
  "hydra_introspect introspect_token token =
     bindE (map_err IntrospectionFailed (introspect_token token))
       (\<lambda>v. ret (introspection_from_hydra v))"

section \<open>PgTokenIntrospectionCache\<close>

definition cache_usable :: "instant \<Rightarrow> duration \<Rightarrow> token_introspection_row \<Rightarrow> bool" where
  "cache_usable now max_age row \<longleftrightarrow>
     \<not> ti_cached_at row + max_age < now
     \<and> (case ti_exp row of Some e \<Rightarrow> \<not> e < now | None \<Rightarrow> True)"

definition token_cache_get ::
  "string \<Rightarrow> duration \<Rightarrow> ('z pg_scheme, db_error, token_introspection_row option) io" where
  "token_cache_get token_hash max_age =
     bindE (pg_query (\<lambda>now db. Inr (find (\<lambda>r. ti_token_hash r = token_hash) (token_introspection_cache db))))
       (\<lambda>row. case row of
          None \<Rightarrow> ret None
        | Some r \<Rightarrow> bindE now_utc (\<lambda>now. ret (if cache_usable now max_age r then Some r else None)))"

definition token_cache_put_stmt ::
  "string \<Rightarrow> bool \<Rightarrow> string option \<Rightarrow> string option \<Rightarrow> instant option \<Rightarrow> unit stmt" where
  "token_cache_put_stmt token_hash active sub scope ex now db =
     (let row = \<lparr>ti_token_hash = token_hash, ti_active = active, ti_sub = sub, ti_scope = scope,
                 ti_exp = ex, ti_cached_at = now\<rparr>
      in (Inr (), db\<lparr>token_introspection_cache :=
           (if token_hash \<in> ti_token_hash ` set (token_introspection_cache db)
            then map (\<lambda>r. if ti_token_hash r = token_hash then row else r) (token_introspection_cache db)
            else token_introspection_cache db @ [row])\<rparr>))"

definition token_cache_put ::
  "string \<Rightarrow> bool \<Rightarrow> string option \<Rightarrow> string option \<Rightarrow> instant option \<Rightarrow> ('z pg_scheme, db_error, unit) io" where
  "token_cache_put token_hash active sub scope ex =
     pg_exec (token_cache_put_stmt token_hash active sub scope ex)"

definition token_cache_remove_stmt :: "string \<Rightarrow> unit stmt" where
  "token_cache_remove_stmt token_hash now db =
     (Inr (), db\<lparr>token_introspection_cache :=
        filter (\<lambda>r. ti_token_hash r \<noteq> token_hash) (token_introspection_cache db)\<rparr>)"

definition token_cache_remove :: "string \<Rightarrow> ('z pg_scheme, db_error, unit) io" where
  "token_cache_remove token_hash = pg_exec (token_cache_remove_stmt token_hash)"

section \<open>CachedTokenIntrospector\<close>

definition hash_token :: "crypto \<Rightarrow> string \<Rightarrow> string" where
  "hash_token c token = c_sha256_hex c token"

definition result_of_row :: "token_introspection_row \<Rightarrow> introspection_result" where
  "result_of_row row =
     \<lparr>ir_active = ti_active row, ir_sub = ti_sub row,
      ir_scope = (case ti_scope row of Some s \<Rightarrow> split_on (CHR '' '') s | None \<Rightarrow> []),
      ir_exp = ti_exp row, ir_authentication_methods = []\<rparr>"

definition scope_column :: "string list \<Rightarrow> string option" where
  "scope_column scope = (if scope = [] then None else Some (join_with '' '' scope))"

definition cached_introspect ::
  "crypto \<Rightarrow> duration \<Rightarrow> (string \<Rightarrow> ('z pg_scheme, auth_error, introspection_result) io)
    \<Rightarrow> string \<Rightarrow> ('z pg_scheme, auth_error, introspection_result) io" where
  "cached_introspect c max_age inner token =
     bindE (map_err AuthDatabase (token_cache_get (hash_token c token) max_age))
       (\<lambda>hit. case hit of
          Some row \<Rightarrow> ret (result_of_row row)
        | None \<Rightarrow>
            bindE (inner token) (\<lambda>result.
              if \<not> ir_active result then ret result
              else attempt (token_cache_put (hash_token c token) (ir_active result) (ir_sub result)
                              (scope_column (ir_scope result)) (ir_exp result))
                     (\<lambda>_. ret result)))"

section \<open>Bearer tokens\<close>

definition bearer_token :: "header_map \<Rightarrow> string option" where
  "bearer_token headers =
     (case h_get headers ''authorization'' of
        None \<Rightarrow> None
      | Some v \<Rightarrow>
          case split_once (CHR '' '') v of
            None \<Rightarrow> None
          | Some (scheme, token) \<Rightarrow>
              if \<not> eq_ignore_ascii_case scheme ''Bearer'' \<or> token = [] then None
              else Some token)"

section \<open>Resolving a subject\<close>

datatype subject_backend = Hydra | Kratos

fun backend_name :: "subject_backend \<Rightarrow> string" where
  "backend_name Hydra = ''hydra''"
| "backend_name Kratos = ''kratos''"

fun resolve_tenant_loop ::
  "(string \<Rightarrow> string \<Rightarrow> ('s, db_error, string option) io) \<Rightarrow> string \<Rightarrow> string list
    \<Rightarrow> ('s, auth_error, string) io" where
  "resolve_tenant_loop get_tenant subject [] = raise UnknownSubject"
| "resolve_tenant_loop get_tenant subject (b # bs) =
     attempt (get_tenant b subject) (\<lambda>r. case r of
       Inr (Some t) \<Rightarrow> ret t
     | Inr None \<Rightarrow> resolve_tenant_loop get_tenant subject bs
     | Inl e \<Rightarrow> raise (AuthDatabase e))"

definition resolve_tenant_from_subject ::
  "(string \<Rightarrow> string \<Rightarrow> ('s, db_error, string option) io) \<Rightarrow> string \<Rightarrow> ('s, auth_error, string) io" where
  "resolve_tenant_from_subject get_tenant subject =
     resolve_tenant_loop get_tenant subject [''hydra'', ''kratos'']"

fun resolve_public_loop ::
  "(string \<Rightarrow> string \<Rightarrow> ('s, db_error, string) io) \<Rightarrow> string \<Rightarrow> string list
    \<Rightarrow> ('s, auth_error, string) io" where
  "resolve_public_loop get_public subject [] = raise UnknownSubject"
| "resolve_public_loop get_public subject (b # bs) =
     attempt (get_public b subject) (\<lambda>r. case r of
       Inr p \<Rightarrow> ret p
     | Inl e \<Rightarrow> if e = MappingNotFound then resolve_public_loop get_public subject bs
               else raise (AuthDatabase e))"

definition resolve_public_subject ::
  "(string \<Rightarrow> string \<Rightarrow> ('s, db_error, string) io) \<Rightarrow> string \<Rightarrow> ('s, auth_error, string) io" where
  "resolve_public_subject get_public subject =
     resolve_public_loop get_public subject [''hydra'', ''kratos'']"

fun resolve_subject_loop ::
  "(string \<Rightarrow> string \<Rightarrow> ('s, db_error, string option) io) \<Rightarrow> (string \<Rightarrow> string \<Rightarrow> ('s, db_error, string) io)
    \<Rightarrow> string \<Rightarrow> subject_backend list \<Rightarrow> ('s, auth_error, string \<times> string \<times> subject_backend) io" where
  "resolve_subject_loop get_tenant get_public subject [] = raise UnknownSubject"
| "resolve_subject_loop get_tenant get_public subject (b # bs) =
     attempt (get_tenant (backend_name b) subject) (\<lambda>r. case r of
       Inr (Some tenant_id) \<Rightarrow>
         attempt (get_public (backend_name b) subject) (\<lambda>r'. case r' of
           Inr public_id \<Rightarrow> ret (tenant_id, public_id, b)
         | Inl e \<Rightarrow> if e = MappingNotFound then resolve_subject_loop get_tenant get_public subject bs
                   else raise (AuthDatabase e))
     | Inr None \<Rightarrow> resolve_subject_loop get_tenant get_public subject bs
     | Inl e \<Rightarrow> raise (AuthDatabase e))"

definition resolve_subject ::
  "(string \<Rightarrow> string \<Rightarrow> ('s, db_error, string option) io) \<Rightarrow> (string \<Rightarrow> string \<Rightarrow> ('s, db_error, string) io)
    \<Rightarrow> string \<Rightarrow> ('s, auth_error, string \<times> string \<times> subject_backend) io" where
  "resolve_subject get_tenant get_public subject =
     resolve_subject_loop get_tenant get_public subject [Hydra, Kratos]"

section \<open>Contexts and guards\<close>

definition build_auth_context ::
  "crypto \<Rightarrow> string \<Rightarrow> string \<Rightarrow> subject_type \<Rightarrow> actor_context option \<Rightarrow> string list \<Rightarrow> string list
    \<Rightarrow> string \<Rightarrow> auth_context" where
  "build_auth_context c tenant_id subject st actor scopes methods token =
     \<lparr>ac_tenant_id = tenant_id, ac_subject = subject, ac_subject_type = st, ac_actor = actor,
      ac_scopes = scopes, ac_token_hash = hash_token c token, ac_authentication_methods = methods\<rparr>"

definition require_auth :: "request_context \<Rightarrow> service_error + auth_context" where
  "require_auth ctx = ok_or (SE_Unauthenticated ''missing authentication context'') (rx_auth ctx)"

definition require_scope :: "request_context \<Rightarrow> string \<Rightarrow> service_error + unit" where
  "require_scope ctx scope =
     (case require_auth ctx of
        Inl e \<Rightarrow> Inl e
      | Inr auth \<Rightarrow>
          if scope \<in> set (ac_scopes auth) then Inr ()
          else Inl (SE_PermissionDenied (''missing required scope: '' @ scope)))"

definition require_subject_type :: "request_context \<Rightarrow> subject_type \<Rightarrow> service_error + unit" where
  "require_subject_type ctx expected =
     (case require_auth ctx of
        Inl e \<Rightarrow> Inl e
      | Inr auth \<Rightarrow>
          if ac_subject_type auth \<noteq> expected
          then Inl (SE_PermissionDenied (''requires a '' @ subject_type_str expected @ '' subject''))
          else Inr ())"

definition require_amr :: "request_context \<Rightarrow> string \<Rightarrow> service_error + unit" where
  "require_amr ctx method =
     (case require_auth ctx of
        Inl e \<Rightarrow> Inl e
      | Inr auth \<Rightarrow>
          if method \<in> set (ac_authentication_methods auth) then Inr ()
          else Inl (SE_PermissionDenied (''missing required authentication method: '' @ method)))"

definition require_tenant :: "request_context \<Rightarrow> service_error + string" where
  "require_tenant ctx = ok_or (SE_Unauthenticated ''missing tenant'') (rx_tenant ctx)"

definition require_scope_any :: "request_context \<Rightarrow> string list \<Rightarrow> service_error + unit" where
  "require_scope_any ctx scopes =
     (case require_auth ctx of
        Inl e \<Rightarrow> Inl e
      | Inr auth \<Rightarrow>
          if set (ac_scopes auth) \<inter> set scopes \<noteq> {} then Inr ()
          else Inl (SE_PermissionDenied (''missing required scope: one of '' @ join_with '', '' scopes)))"


section \<open>Guards\<close>

lemma require_auth_Inr [simp]: "require_auth ctx = Inr a \<longleftrightarrow> rx_auth ctx = Some a"
  by (simp add: require_auth_def)

lemma require_tenant_Inr [simp]: "require_tenant ctx = Inr t \<longleftrightarrow> rx_tenant ctx = Some t"
  by (simp add: require_tenant_def)

lemma require_scope_Inr [simp]:
  "require_scope ctx s = Inr u \<longleftrightarrow> (\<exists>a. rx_auth ctx = Some a \<and> s \<in> set (ac_scopes a))"
  by (auto simp: require_scope_def require_auth_def ok_or_def split: option.splits)

lemma require_scope_any_Inr [simp]:
  "require_scope_any ctx ss = Inr u \<longleftrightarrow>
    (\<exists>a s. rx_auth ctx = Some a \<and> s \<in> set (ac_scopes a) \<and> s \<in> set ss)"
  by (auto simp: require_scope_any_def require_auth_def ok_or_def split: option.splits)

lemma require_subject_type_Inr [simp]:
  "require_subject_type ctx st = Inr u \<longleftrightarrow> (\<exists>a. rx_auth ctx = Some a \<and> ac_subject_type a = st)"
  by (auto simp: require_subject_type_def require_auth_def ok_or_def split: option.splits)

lemma require_amr_Inr [simp]:
  "require_amr ctx m = Inr u \<longleftrightarrow> (\<exists>a. rx_auth ctx = Some a \<and> m \<in> set (ac_authentication_methods a))"
  by (auto simp: require_amr_def require_auth_def ok_or_def split: option.splits)

section \<open>The introspection cache\<close>

lemma scope_column_split:
  assumes "\<forall>s \<in> set scopes. CHR '' '' \<notin> set s"
  shows "(case scope_column scopes of Some s \<Rightarrow> split_on (CHR '' '') s | None \<Rightarrow> []) = scopes"
  using assms split_on_join [of scopes "CHR '' ''"] by (simp add: scope_column_def)

text \<open>What Hydra's answer is parsed to can be stored and read back.\<close>

lemma introspection_from_hydra_scopes:
  "s \<in> set (ir_scope (introspection_from_hydra v)) \<Longrightarrow> CHR '' '' \<notin> set s"
  by (auto simp: introspection_from_hydra_def dest: split_on_sep_free split: option.splits)

lemma token_cache_get_Inr:
  assumes "token_cache_get h a w = (Inr x, v)"
  shows "v = w\<lparr>pg_queries := Suc (pg_queries w)\<rparr>
    \<and> x = (case find (\<lambda>r. ti_token_hash r = h) (token_introspection_cache (pg_db w)) of
             None \<Rightarrow> None | Some r \<Rightarrow> if cache_usable (pg_now w) a r then Some r else None)"
proof -
  from assms obtain y u where
    q: "pg_query (\<lambda>now db. Inr (find (\<lambda>r. ti_token_hash r = h) (token_introspection_cache db))) w = (Inr y, u)"
    and k: "(case y of None \<Rightarrow> ret None
        | Some r \<Rightarrow> bindE now_utc (\<lambda>now. ret (if cache_usable now a r then Some r else None))) u = (Inr x :: db_error + _, v)"
    unfolding token_cache_get_def bindE_Inr by blast
  have "y = find (\<lambda>r. ti_token_hash r = h) (token_introspection_cache (pg_db w))"
    and "u = w\<lparr>pg_queries := Suc (pg_queries w)\<rparr>"
    using pg_query_Inr [OF q] by auto
  with k show ?thesis by (auto simp: now_utc_def io_defs split: option.splits if_splits)
qed

lemma token_cache_get_no_fault:
  assumes "pg_fault w (pg_queries w) = None"
    and "find (\<lambda>r. ti_token_hash r = h) (token_introspection_cache (pg_db w)) = Some r"
    and "cache_usable (pg_now w) a r"
  shows "token_cache_get h a w = (Inr (Some r), w\<lparr>pg_queries := Suc (pg_queries w)\<rparr>)"
  using assms
  by (simp add: token_cache_get_def bindE_def pg_query_no_fault now_utc_def gets_def ret_def)

lemma token_cache_put_find:
  "find (\<lambda>r. ti_token_hash r = h)
     (token_introspection_cache (snd (token_cache_put_stmt h act sub sc ex now db))) =
   Some \<lparr>ti_token_hash = h, ti_active = act, ti_sub = sub, ti_scope = sc, ti_exp = ex, ti_cached_at = now\<rparr>"
proof -
  let ?row = "\<lparr>ti_token_hash = h, ti_active = act, ti_sub = sub, ti_scope = sc, ti_exp = ex, ti_cached_at = now\<rparr>"
  have upd: "h \<in> ti_token_hash ` set rows \<Longrightarrow>
    find (\<lambda>r. ti_token_hash r = h) (map (\<lambda>r. if ti_token_hash r = h then ?row else r) rows) = Some ?row"
    for rows by (induction rows) auto
  have "h \<notin> ti_token_hash ` set rows \<Longrightarrow> find (\<lambda>r. ti_token_hash r = h) (rows @ [?row]) = Some ?row"
    for rows by (induction rows) auto
  with upd show ?thesis by (simp add: token_cache_put_stmt_def Let_def)
qed

lemma cached_introspect_Inr:
  assumes "cached_introspect c a inner token w = (Inr r, v)"
  obtains (hit) row where "row \<in> set (token_introspection_cache (pg_db w))"
      and "ti_token_hash row = hash_token c token" and "cache_usable (pg_now w) a row"
      and "r = result_of_row row" and "v = w\<lparr>pg_queries := Suc (pg_queries w)\<rparr>"
  | (miss) w' where "inner token (w\<lparr>pg_queries := Suc (pg_queries w)\<rparr>) = (Inr r, w')"
      and "\<not> ir_active r \<Longrightarrow> v = w'"
      and "ir_active r \<Longrightarrow> v = snd (token_cache_put (hash_token c token) True (ir_sub r)
             (scope_column (ir_scope r)) (ir_exp r) w')"
proof -
  from assms obtain x u where
    g: "map_err AuthDatabase (token_cache_get (hash_token c token) a) w = (Inr x, u)"
    and k: "(case x of Some row \<Rightarrow> ret (result_of_row row)
        | None \<Rightarrow> bindE (inner token) (\<lambda>result.
            if \<not> ir_active result then ret result
            else attempt (token_cache_put (hash_token c token) (ir_active result) (ir_sub result)
                            (scope_column (ir_scope result)) (ir_exp result)) (\<lambda>_. ret result))) u = (Inr r :: auth_error + _, v)"
    unfolding cached_introspect_def bindE_Inr by blast
  from g have "token_cache_get (hash_token c token) a w = (Inr x, u)"
    by (auto simp: map_err_def split: prod.splits sum.splits)
  note get = token_cache_get_Inr [OF this]
  show thesis
  proof (cases x)
    case (Some row)
    with get have "find (\<lambda>r. ti_token_hash r = hash_token c token)
        (token_introspection_cache (pg_db w)) = Some row" and "cache_usable (pg_now w) a row"
      by (auto split: option.splits if_splits)
    with find_SomeD have "row \<in> set (token_introspection_cache (pg_db w))"
      and "ti_token_hash row = hash_token c token" by fastforce+
    moreover have "r = result_of_row row" "v = u" using k Some by (auto simp: ret_def)
    ultimately show thesis using hit get \<open>cache_usable (pg_now w) a row\<close> by blast
  next
    case None
    with k obtain r' w' where i: "inner token u = (Inr r', w')"
      and p: "(if \<not> ir_active r' then ret r'
            else attempt (token_cache_put (hash_token c token) (ir_active r') (ir_sub r')
                            (scope_column (ir_scope r')) (ir_exp r')) (\<lambda>_. ret r')) w' = (Inr r :: auth_error + _, v)"
      by (auto simp: bindE_Inr)
    from p have "r' = r" by (auto simp: io_defs split: if_splits prod.splits)
    then show thesis
      using miss [of w'] i p get
      by (auto simp: io_defs split: if_splits prod.splits)
  qed
qed

definition cache_rows_active :: "database \<Rightarrow> bool" where
  "cache_rows_active db \<longleftrightarrow> (\<forall>r \<in> set (token_introspection_cache db). ti_active r)"

lemma token_cache_put_active [stmt_rules]:
  "stmt_keeps cache_rows_active (token_cache_put_stmt h True sub sc ex)"
  by (rule stmt_keepsI)
     (auto simp: token_cache_put_stmt_def cache_rows_active_def Let_def)

lemma token_cache_remove_active [stmt_rules]:
  "stmt_keeps cache_rows_active (token_cache_remove_stmt h)"
  by (rule stmt_keepsI) (auto simp: token_cache_remove_stmt_def cache_rows_active_def)

lemma keeps_token_cache [keeps_rules]:
  "keeps (\<lambda>w. J (pg_db w)) (token_cache_get h a)"
  "keeps (\<lambda>w. cache_rows_active (pg_db w)) (token_cache_put h True sub sc ex)"
  "keeps (\<lambda>w. cache_rows_active (pg_db w)) (token_cache_remove h)"
  unfolding token_cache_get_def token_cache_put_def token_cache_remove_def
  by (intro keeps_rules stmt_rules)+

lemma keeps_cached_introspect:
  assumes "keeps (\<lambda>w. cache_rows_active (pg_db w)) (inner token)"
  shows "keeps (\<lambda>w. cache_rows_active (pg_db w)) (cached_introspect c a inner token)"
  unfolding cached_introspect_def
proof (intro keeps_rules assms)
  fix x
  show "keeps (\<lambda>w. cache_rows_active (pg_db w))
      (token_cache_put (hash_token c token) (ir_active x) (ir_sub x) (scope_column (ir_scope x)) (ir_exp x))"
    if "\<not> \<not> ir_active x"
    using that keeps_token_cache(2) by simp
qed


section \<open>Subjects\<close>

text \<open>The environment's scan order loses and invents no row.\<close>

definition scan_ok :: "'z pg_scheme \<Rightarrow> bool" where
  "scan_ok w \<longleftrightarrow> (\<forall>n rows. set (pg_scan w n rows) = set rows)"

lemma pg_query_any_cases:
  obtains (lost) m where "pg_query_any q w = (Inl (Sqlx m), w\<lparr>pg_queries := Suc (pg_queries w)\<rparr>)"
  | (answered) "pg_query_any q w =
      (q (pg_scan w (pg_queries w) (id_mappings (pg_db w))), w\<lparr>pg_queries := Suc (pg_queries w)\<rparr>)"
  by (rule pg_query_cases [of "\<lambda>now db. q (pg_scan w (pg_queries w) (id_mappings db))" w])
     (auto simp: pg_query_any_def)

definition maps_subject :: "string \<Rightarrow> string \<Rightarrow> id_mapping_row \<Rightarrow> bool" where
  "maps_subject backend subject r \<longleftrightarrow> im_backend r = backend \<and> im_ory_global_id r = subject"

lemma get_tenant_id_by_ory_id_cases:
  assumes "scan_ok w"
  obtains (lost) m where "get_tenant_id_by_ory_id b s w = (Inl (Sqlx m), w\<lparr>pg_queries := Suc (pg_queries w)\<rparr>)"
  | (none) "get_tenant_id_by_ory_id b s w = (Inr None, w\<lparr>pg_queries := Suc (pg_queries w)\<rparr>)"
      and "\<forall>r \<in> pg_rows w. \<not> maps_subject b s r"
  | (found) r where "get_tenant_id_by_ory_id b s w =
      (Inr (Some (im_tenant_id r)), w\<lparr>pg_queries := Suc (pg_queries w)\<rparr>)"
      and "r \<in> pg_rows w" and "maps_subject b s r"
proof (cases rule: pg_query_any_cases [of "\<lambda>rows. Inr (map_option im_tenant_id
    (find (\<lambda>r. im_backend r = b \<and> im_ory_global_id r = s) rows))" w])
  case (lost m)
  then show thesis by (intro that(1)) (simp add: get_tenant_id_by_ory_id_def)
next
  case answered
  have rows: "set (pg_scan w (pg_queries w) (id_mappings (pg_db w))) = pg_rows w"
    using assms by (simp add: scan_ok_def)
  show thesis
  proof (cases "find (\<lambda>r. im_backend r = b \<and> im_ory_global_id r = s)
      (pg_scan w (pg_queries w) (id_mappings (pg_db w)))")
    case None
    with answered rows show thesis
      by (intro none) (auto simp: get_tenant_id_by_ory_id_def maps_subject_def dest: find_NoneD)
  next
    case (Some r)
    with answered rows find_SomeD [OF Some] show thesis
      by (intro found [of r]) (simp_all add: get_tenant_id_by_ory_id_def maps_subject_def)
  qed
qed

lemma get_public_id_by_ory_id_cases:
  assumes "scan_ok w"
  obtains (lost) m where "get_public_id_by_ory_id b s w = (Inl (Sqlx m), w\<lparr>pg_queries := Suc (pg_queries w)\<rparr>)"
  | (none) "get_public_id_by_ory_id b s w = (Inl MappingNotFound, w\<lparr>pg_queries := Suc (pg_queries w)\<rparr>)"
      and "\<forall>r \<in> pg_rows w. \<not> maps_subject b s r"
  | (found) r where "get_public_id_by_ory_id b s w =
      (Inr (im_public_id r), w\<lparr>pg_queries := Suc (pg_queries w)\<rparr>)"
      and "r \<in> pg_rows w" and "maps_subject b s r"
proof (cases rule: pg_query_any_cases [of "\<lambda>rows. ok_or MappingNotFound (map_option im_public_id
    (find (\<lambda>r. im_backend r = b \<and> im_ory_global_id r = s) rows))" w])
  case (lost m)
  then show thesis by (intro that(1)) (simp add: get_public_id_by_ory_id_def)
next
  case answered
  have rows: "set (pg_scan w (pg_queries w) (id_mappings (pg_db w))) = pg_rows w"
    using assms by (simp add: scan_ok_def)
  show thesis
  proof (cases "find (\<lambda>r. im_backend r = b \<and> im_ory_global_id r = s)
      (pg_scan w (pg_queries w) (id_mappings (pg_db w)))")
    case None
    with answered rows show thesis
      by (intro none) (auto simp: get_public_id_by_ory_id_def maps_subject_def ok_or_def dest: find_NoneD)
  next
    case (Some r)
    with answered rows find_SomeD [OF Some] show thesis
      by (intro found [of r]) (simp_all add: get_public_id_by_ory_id_def maps_subject_def ok_or_def)
  qed
qed

lemma scan_ok_queries [simp]: "scan_ok (w\<lparr>pg_queries := n\<rparr>) = scan_ok w"
  by (simp add: scan_ok_def)

lemma resolve_step:
  assumes "scan_ok w"
    and "resolve_subject_loop get_tenant_id_by_ory_id get_public_id_by_ory_id s (b # bs) w = (Inr (t, p, d), v)"
  obtains (here) r r' where "r \<in> pg_rows w" "maps_subject (backend_name b) s r" "t = im_tenant_id r"
      "r' \<in> pg_rows w" "maps_subject (backend_name b) s r'" "p = im_public_id r'" "d = b"
  | (later) n where "\<forall>r \<in> pg_rows w. \<not> maps_subject (backend_name b) s r"
      "resolve_subject_loop get_tenant_id_by_ory_id get_public_id_by_ory_id s bs (w\<lparr>pg_queries := n\<rparr>)
         = (Inr (t, p, d), v)"
proof (cases rule: get_tenant_id_by_ory_id_cases [OF assms(1), of "backend_name b" s])
  case (1 m)
  then show thesis using assms(2) by (simp add: run_simps)
next
  case 2
  show thesis by (rule later [OF 2(2)]) (use assms(2) 2(1) in \<open>simp add: run_simps\<close>)
next
  case (3 r)
  let ?u = "w\<lparr>pg_queries := Suc (pg_queries w)\<rparr>"
  have u: "scan_ok ?u" using assms(1) by simp
  show thesis
  proof (cases rule: get_public_id_by_ory_id_cases [OF u, of "backend_name b" s])
    case (1 m)
    then show thesis using assms(2) 3(1) by (simp add: run_simps)
  next
    case 2
    then show thesis using 3(2,3) by simp
  next
    case found: (3 r')
    then have "t = im_tenant_id r" "p = im_public_id r'" "d = b"
      using assms(2) 3(1) by (auto simp: run_simps)
    then show thesis using here 3(2,3) found(2,3) by auto
  qed
qed


section \<open>Properties\<close>

text \<open>
  A token subject resolves to a tenant, a public id and a backend that all come from one
  row of \<^verbatim>\<open>id_mappings\<close> for that subject, and a Hydra row takes precedence over a Kratos one,
  whatever queries fail and in whatever order rows are scanned, as long as no two rows map
  the same Ory id of a backend (which the schema alone does not enforce across tenants).
\<close>

theorem resolve_subject_sound:
  assumes "scan_ok w"
    and "key_unique (\<lambda>r. (im_backend r, im_ory_global_id r)) (id_mappings (pg_db w))"
    and "resolve_subject get_tenant_id_by_ory_id get_public_id_by_ory_id subject w = (Inr (t, p, b), v)"
  shows "(\<exists>r \<in> pg_rows w. im_tenant_id r = t \<and> im_public_id r = p \<and> im_backend r = backend_name b
            \<and> im_ory_global_id r = subject)
    \<and> (b = Kratos \<longrightarrow> (\<forall>r \<in> pg_rows w. \<not> maps_subject ''hydra'' subject r))"
proof -
  have one: "x = y" if "x \<in> pg_rows w" "y \<in> pg_rows w" "maps_subject c subject x" "maps_subject c subject y"
    for x y c using key_uniqueD [OF assms(2), of x y] that by (simp add: maps_subject_def)
  show ?thesis
  proof (rule resolve_step [OF assms(1) assms(3) [unfolded resolve_subject_def]], goal_cases)
    case (1 r r')
    then have "r' = r" using one by blast
    with 1 show ?thesis by (auto simp: maps_subject_def)
  next
    case (2 n)
    have "scan_ok (w\<lparr>pg_queries := n\<rparr>)" using assms(1) by simp
    from this 2(2) show ?thesis
    proof (rule resolve_step, goal_cases)
      case (1 r r')
      then have "r \<in> pg_rows w" "r' \<in> pg_rows w" by simp_all
      with 1 have "r' = r" using one by blast
      with 1 2(1) show ?thesis by (auto simp: maps_subject_def)
    next
      case (2 n')
      then show ?thesis by (simp add: raise_def)
    qed
  qed
qed

definition two_tenant_rows :: "id_mapping_row list" where
  "two_tenant_rows =
     [\<lparr>im_id = ''m1'', im_tenant_id = ''T1'', im_backend = ''kratos'', im_public_id = ''P1'',
       im_ory_global_id = ''ory'', im_created_at = 0\<rparr>,
      \<lparr>im_id = ''m2'', im_tenant_id = ''T2'', im_backend = ''kratos'', im_public_id = ''P2'',
       im_ory_global_id = ''ory'', im_created_at = 0\<rparr>]"

theorem resolve_subject_sound_witness:
  "\<exists>v. resolve_subject get_tenant_id_by_ory_id get_public_id_by_ory_id ''ory''
      (quiet_pg (empty_db\<lparr>id_mappings := [hd two_tenant_rows]\<rparr>) 0) = (Inr (''T1'', ''P1'', Kratos), v)
    \<and> (\<exists>r \<in> set [hd two_tenant_rows]. im_tenant_id r = ''T1'' \<and> im_public_id r = ''P1''
         \<and> im_backend r = backend_name Kratos \<and> im_ory_global_id r = ''ory'')"
proof -
  let ?w = "quiet_pg (empty_db\<lparr>id_mappings := [hd two_tenant_rows]\<rparr>) 0"
  have run: "resolve_subject get_tenant_id_by_ory_id get_public_id_by_ory_id ''ory'' ?w
      = (Inr (''T1'', ''P1'', Kratos), ?w\<lparr>pg_queries := 3\<rparr>)"
    by (simp add: resolve_subject_def get_tenant_id_by_ory_id_def get_public_id_by_ory_id_def
        pg_query_any_def pg_query_def pg_exec_def quiet_pg_def empty_db_def two_tenant_rows_def
        io_defs ok_or_def)
  have "scan_ok ?w" by (simp add: scan_ok_def quiet_pg_def)
  moreover have "key_unique (\<lambda>r. (im_backend r, im_ory_global_id r)) (id_mappings (pg_db ?w))"
    by (simp add: key_unique_def quiet_pg_def)
  ultimately show ?thesis
    using resolve_subject_sound [OF _ _ run] run by (auto simp: quiet_pg_def)
qed

text \<open>
  The constraint of the schema is not enough for the previous property: when one Kratos
  identity is mapped in two tenants, a table that satisfies every constraint, the two
  unordered \<^verbatim>\<open>LIMIT 1\<close> queries may answer from different rows, and the resolved tenant and
  public id belong to no single mapping.
\<close>

theorem resolve_subject_mixed:
  "\<exists>w v :: pg. scan_ok w
     \<and> id_mappings_ok (pg_db w)
     \<and> resolve_subject get_tenant_id_by_ory_id get_public_id_by_ory_id ''ory'' w
         = (Inr (''T1'', ''P2'', Kratos), v)
     \<and> \<not> (\<exists>r \<in> pg_rows w. im_tenant_id r = ''T1'' \<and> im_public_id r = ''P2'')"
proof -
  define tn :: "string \<Rightarrow> tenant_row" where
    "tn i = \<lparr>tn_id = i, tn_slug = i, tn_display_name = i, tn_is_system = False, tn_settings = JNull,
      tn_created_at = 0\<rparr>" for i
  define w where "w = (quiet_pg (empty_db\<lparr>tenants := [tn ''T1'', tn ''T2''],
      id_mappings := two_tenant_rows\<rparr>) 0)\<lparr>pg_scan := (\<lambda>n rows. if n = 2 then rev rows else rows)\<rparr>"
  have "scan_ok w" by (simp add: scan_ok_def w_def)
  moreover have "id_mappings_ok (pg_db w)"
    by (simp add: id_mappings_ok_def w_def quiet_pg_def two_tenant_rows_def key_unique_def
        tenant_ory_key_def valid_backend_def tenant_exists_def tn_def)
  moreover have "\<exists>v. resolve_subject get_tenant_id_by_ory_id get_public_id_by_ory_id ''ory'' w
         = (Inr (''T1'', ''P2'', Kratos), v)"
    by (simp add: resolve_subject_def get_tenant_id_by_ory_id_def get_public_id_by_ory_id_def
        pg_query_any_def pg_query_def pg_exec_def quiet_pg_def empty_db_def two_tenant_rows_def
        io_defs ok_or_def w_def)
  moreover have "\<not> (\<exists>r \<in> pg_rows w. im_tenant_id r = ''T1'' \<and> im_public_id r = ''P2'')"
    by (simp add: w_def quiet_pg_def two_tenant_rows_def)
  ultimately show ?thesis by blast
qed

text \<open>
  Round trip of the introspection cache: after a miss for which the inner introspector
  said the token is active, every later call within \<^verbatim>\<open>max_age\<close> and before the token's expiry
  answers what it said (only the authentication methods are dropped) without asking the
  inner introspector again, whatever that would do.
\<close>

theorem cached_introspect_replay:
  assumes "token_cache_get (hash_token c token) max_age w = (Inr None, w0)"
    and "inner token w0 = (Inr r, w')" and "ir_active r"
    and "\<forall>s \<in> set (ir_scope r). CHR '' '' \<notin> set s"
    and "pg_fault w' (pg_queries w') = None"
    and "cached_introspect c max_age inner token w = (Inr r, w1)"
    and "pg_db w2 = pg_db w1" and "pg_fault w2 (pg_queries w2) = None"
    and "pg_now w2 \<le> pg_now w' + max_age" and "\<forall>e. ir_exp r = Some e \<longrightarrow> pg_now w2 \<le> e"
  shows "cached_introspect c max_age inner' token w2
    = (Inr (r\<lparr>ir_authentication_methods := []\<rparr>), w2\<lparr>pg_queries := Suc (pg_queries w2)\<rparr>)"
proof -
  let ?h = "hash_token c token"
  let ?row = "\<lparr>ti_token_hash = ?h, ti_active = True, ti_sub = ir_sub r,
    ti_scope = scope_column (ir_scope r), ti_exp = ir_exp r, ti_cached_at = pg_now w'\<rparr>"
  have "w1 = snd (token_cache_put ?h True (ir_sub r) (scope_column (ir_scope r)) (ir_exp r) w')"
    using assms(1,2,3,6) by (simp add: cached_introspect_def io_defs split: prod.splits sum.splits)
  then have "find (\<lambda>x. ti_token_hash x = ?h) (token_introspection_cache (pg_db w1)) = Some ?row"
    using assms(5) by (simp add: token_cache_put_def pg_exec_no_fault token_cache_put_find)
  moreover have "cache_usable (pg_now w2) max_age ?row"
    using assms(9,10) by (auto simp: cache_usable_def split: option.splits)
  ultimately have "token_cache_get ?h max_age w2 = (Inr (Some ?row), w2\<lparr>pg_queries := Suc (pg_queries w2)\<rparr>)"
    using assms(7,8) by (intro token_cache_get_no_fault) simp_all
  moreover have "result_of_row ?row = r\<lparr>ir_authentication_methods := []\<rparr>"
    using scope_column_split [OF assms(4)] assms(3) by (simp add: result_of_row_def)
  ultimately show ?thesis by (simp add: cached_introspect_def io_defs)
qed

definition plain_crypto :: crypto where
  "plain_crypto = \<lparr>c_sha256_hex = id, c_hmac = (\<lambda>k m. k @ m), c_hkdf = (\<lambda>k i. k @ i),
     c_b64url = id, c_b64url_decode = Some, c_claims_json = (\<lambda>_. []), c_claims_parse = (\<lambda>_. None)\<rparr>"

theorem cached_introspect_replay_witness:
  "cached_introspect plain_crypto 60 (\<lambda>_. raise MissingSubject) ''tok''
     (snd (cached_introspect plain_crypto 60
        (\<lambda>_. ret (introspection_from_hydra (JObj [(''active'', JBool True), (''sub'', JStr ''s''),
           (''scope'', JStr ''openid agent:act'')]))) ''tok'' (quiet_pg empty_db 0)))
   = (Inr \<lparr>ir_active = True, ir_sub = Some ''s'', ir_scope = [''openid'', ''agent:act''],
        ir_exp = None, ir_authentication_methods = []\<rparr>,
      (snd (cached_introspect plain_crypto 60
        (\<lambda>_. ret (introspection_from_hydra (JObj [(''active'', JBool True), (''sub'', JStr ''s''),
           (''scope'', JStr ''openid agent:act'')]))) ''tok'' (quiet_pg empty_db 0)))\<lparr>pg_queries := 3\<rparr>)"
  (is "cached_introspect _ _ _ _ ?w1 = (Inr ?r, _)")
proof -
  let ?inner = "\<lambda>_ :: string. ret (introspection_from_hydra (JObj [(''active'', JBool True),
    (''sub'', JStr ''s''), (''scope'', JStr ''openid agent:act'')])) :: (pg, auth_error, introspection_result) io"
  let ?r = "\<lparr>ir_active = True, ir_sub = Some ''s'', ir_scope = [''openid'', ''agent:act''],
        ir_exp = None, ir_authentication_methods = []\<rparr>"
  let ?w = "quiet_pg empty_db 0"
  have r: "introspection_from_hydra (JObj [(''active'', JBool True), (''sub'', JStr ''s''),
      (''scope'', JStr ''openid agent:act'')]) = ?r"
    by (simp add: introspection_from_hydra_def json_index_def parse_authentication_methods_def)
  have get: "token_cache_get (hash_token plain_crypto ''tok'') 60 ?w = (Inr None, ?w\<lparr>pg_queries := 1\<rparr>)"
    by (simp add: token_cache_get_def pg_query_def pg_exec_def quiet_pg_def empty_db_def io_defs)
  have run: "cached_introspect plain_crypto 60 ?inner ''tok'' ?w = (Inr ?r, ?w1)"
    by (simp add: r cached_introspect_def token_cache_get_def pg_query_def pg_exec_def quiet_pg_def
        empty_db_def io_defs token_cache_put_def split: prod.splits)
  have state: "pg_now ?w1 = 0 \<and> pg_queries ?w1 = 2 \<and> pg_fault ?w1 = (\<lambda>_. None)"
    by (simp add: r cached_introspect_def token_cache_get_def pg_query_def pg_exec_def quiet_pg_def
        empty_db_def io_defs token_cache_put_def token_cache_put_stmt_def)
  show ?thesis
    using cached_introspect_replay [where inner = ?inner and w = ?w and r = ?r and ?w1.0 = ?w1
        and ?w2.0 = ?w1 and inner' = "\<lambda>_. raise MissingSubject", OF get _ _ _ _ run] state r
    by (simp add: ret_def quiet_pg_def)
qed

text \<open>
  The cache never vouches for a token on its own: when the cached introspector says that
  a token is active, either Hydra said so in this call, or a row for the token's hash that
  is at most \<^verbatim>\<open>max_age\<close> old and whose expiry has not passed said so; and inactive results are
  never stored, so the table only ever holds active rows.
\<close>

theorem cached_introspect_fresh:
  assumes "cached_introspect c max_age inner token w = (Inr r, v)"
    and "cache_rows_active (pg_db w)"
    and "keeps (\<lambda>w. cache_rows_active (pg_db w)) (inner token)"
  shows "cache_rows_active (pg_db v)
    \<and> ((\<exists>u v'. inner token u = (Inr r, v'))
       \<or> (\<exists>row \<in> set (token_introspection_cache (pg_db w)).
            ti_token_hash row = hash_token c token \<and> r = result_of_row row \<and> ir_active r
            \<and> pg_now w \<le> ti_cached_at row + max_age
            \<and> (\<forall>e. ir_exp r = Some e \<longrightarrow> pg_now w \<le> e)))"
proof
  show "cache_rows_active (pg_db v)"
    using keepsD [OF keeps_cached_introspect [where inner = inner and token = token, OF assms(3)]
      assms(2,1)] .
  show "(\<exists>u v'. inner token u = (Inr r, v'))
       \<or> (\<exists>row \<in> set (token_introspection_cache (pg_db w)).
            ti_token_hash row = hash_token c token \<and> r = result_of_row row \<and> ir_active r
            \<and> pg_now w \<le> ti_cached_at row + max_age
            \<and> (\<forall>e. ir_exp r = Some e \<longrightarrow> pg_now w \<le> e))"
    using assms(1)
  proof (rule cached_introspect_Inr)
    fix row
    assume row: "row \<in> set (token_introspection_cache (pg_db w))" "ti_token_hash row = hash_token c token"
      "cache_usable (pg_now w) max_age row" "r = result_of_row row"
    then have "ir_active r" using assms(2) by (simp add: cache_rows_active_def result_of_row_def)
    with row show ?thesis
      by (auto simp: cache_usable_def result_of_row_def split: option.splits)
  qed blast
qed

theorem cached_introspect_fresh_witness:
  "\<exists>v. cached_introspect plain_crypto 60 (\<lambda>_. raise MissingSubject) ''tok''
      (quiet_pg (empty_db\<lparr>token_introspection_cache := [\<lparr>ti_token_hash = ''tok'', ti_active = True,
         ti_sub = Some ''s'', ti_scope = None, ti_exp = None, ti_cached_at = 0\<rparr>]\<rparr>) 60)
      = (Inr \<lparr>ir_active = True, ir_sub = Some ''s'', ir_scope = [], ir_exp = None,
            ir_authentication_methods = []\<rparr>, v)
    \<and> cache_rows_active (pg_db v)"
proof -
  let ?w = "quiet_pg (empty_db\<lparr>token_introspection_cache := [\<lparr>ti_token_hash = ''tok'', ti_active = True,
         ti_sub = Some ''s'', ti_scope = None, ti_exp = None, ti_cached_at = 0\<rparr>]\<rparr>) 60"
  have run: "cached_introspect plain_crypto 60 (\<lambda>_. raise MissingSubject) ''tok'' ?w
      = (Inr \<lparr>ir_active = True, ir_sub = Some ''s'', ir_scope = [], ir_exp = None,
            ir_authentication_methods = []\<rparr>, ?w\<lparr>pg_queries := 1\<rparr>)"
    by (simp add: cached_introspect_def token_cache_get_def pg_query_def pg_exec_def quiet_pg_def
        io_defs now_utc_def cache_usable_def hash_token_def plain_crypto_def result_of_row_def)
  have "cache_rows_active (pg_db ?w)" by (simp add: cache_rows_active_def quiet_pg_def)
  then show ?thesis
    using cached_introspect_fresh [OF run] run by (auto simp: keeps_rules)
qed

end
