(* ===== verification/AgentTokens.thy ===== *)
theory AgentTokens
  imports AgentStores Auth
begin

text \<open>
  \<^verbatim>\<open>agent_tokens.rs\<close>: minting, resolving and invalidating agent act-tokens. The two moka
  caches are parameters: \<open>moka\<close> collects the operations the code calls, on an abstract
  cache state, and \<open>moka_ok\<close> states the documented behaviour the code relies on, as a bound
  on what a cache may serve. NATS is the list of payloads the broker accepted; the
  environment may drop any of them. serde's encoding of the messages, hex and the random
  bytes are parameters too.

  \<open>replica_step\<close> interleaves the resolver of one replica with the rest of the system: the
  database changed by other requests and replicas, remote invalidations, time.
\<close>

section \<open>Parameters\<close>

record act_token_resolution =
  ar_tenant_id :: string
  ar_user_identity_id :: string
  ar_agent_id :: string
  ar_delegation_id :: string
  ar_scopes :: "string list"
  ar_expires_at :: instant

datatype invalidation_message = Delegation string | AgentMsg string

record ('c, 'v) moka =
  mk_get :: "instant \<Rightarrow> string \<Rightarrow> 'c \<Rightarrow> 'v option \<times> 'c"
  mk_insert :: "instant \<Rightarrow> string \<Rightarrow> 'v \<Rightarrow> 'c \<Rightarrow> 'c"
  mk_invalidate :: "string \<Rightarrow> 'c \<Rightarrow> 'c"
  mk_invalidate_entries_if :: "(string \<Rightarrow> 'v \<Rightarrow> bool) \<Rightarrow> 'c \<Rightarrow> 'c"
  mk_run_pending_tasks :: "'c \<Rightarrow> 'c"

text \<open>
  \<open>entries c\<close> holds at least what the cache \<open>c\<close> may serve, each with its insertion time. A
  cache may drop entries whenever it likes; it never serves one that is older than its
  time to live, was overwritten, or was invalidated. The builder enables invalidation
  closures, so \<^verbatim>\<open>invalidate_entries_if\<close> takes effect.
\<close>

definition moka_ok ::
  "duration \<Rightarrow> ('c \<Rightarrow> (string \<times> 'v \<times> instant) set) \<Rightarrow> ('c, 'v) moka \<Rightarrow> bool" where
  "moka_ok ttl entries m \<longleftrightarrow>
     (\<forall>now k c v c'. mk_get m now k c = (Some v, c') \<longrightarrow> (\<exists>t. (k, v, t) \<in> entries c \<and> now < t + ttl))
     \<and> (\<forall>now k c. entries (snd (mk_get m now k c)) \<subseteq> entries c)
     \<and> (\<forall>now k v c. entries (mk_insert m now k v c)
          \<subseteq> insert (k, v, now) {e \<in> entries c. fst e \<noteq> k})
     \<and> (\<forall>k c. entries (mk_invalidate m k c) \<subseteq> {e \<in> entries c. fst e \<noteq> k})
     \<and> (\<forall>P c. entries (mk_invalidate_entries_if m P c) \<subseteq> {(k, v, t) \<in> entries c. \<not> P k v})
     \<and> (\<forall>c. entries (mk_run_pending_tasks m c) \<subseteq> entries c)"

record ('c, 'd) authority =
  au_crypto :: crypto
  au_hex :: "string \<Rightarrow> string"
  au_act_cache :: "('c, act_token_resolution option) moka"
  au_status_cache :: "('d, string option) moka"
  au_nats :: bool
  au_encode :: "invalidation_message \<Rightarrow> string option"
  au_decode :: "string \<Rightarrow> invalidation_message option"
  au_act_token_ttl :: duration

record ('c, 'd, 'h) world = pg +
  w_act_cache :: 'c
  w_status_cache :: 'd
  w_outbox :: "string list"
  w_published :: nat
  w_drop :: "nat \<Rightarrow> bool"
  w_random :: "nat \<Rightarrow> string"
  w_randoms :: nat
  w_hydra :: 'h

section \<open>Cache access\<close>

definition act_cache_get ::
  "('c, 'd) authority \<Rightarrow> string
    \<Rightarrow> (('c, 'd, 'h, 'z) world_scheme, 'e, act_token_resolution option option) io" where
  "act_cache_get au k w =
     (case mk_get (au_act_cache au) (pg_now w) k (w_act_cache w) of
        (x, c) \<Rightarrow> (Inr x, w\<lparr>w_act_cache := c\<rparr>))"

definition act_cache_insert ::
  "('c, 'd) authority \<Rightarrow> string \<Rightarrow> act_token_resolution option
    \<Rightarrow> (('c, 'd, 'h, 'z) world_scheme, 'e, unit) io" where
  "act_cache_insert au k v w =
     (Inr (), w\<lparr>w_act_cache := mk_insert (au_act_cache au) (pg_now w) k v (w_act_cache w)\<rparr>)"

definition act_cache_evict ::
  "('c, 'd) authority \<Rightarrow> (act_token_resolution \<Rightarrow> bool)
    \<Rightarrow> (('c, 'd, 'h, 'z) world_scheme, 'e, unit) io" where
  "act_cache_evict au P w =
     (Inr (), w\<lparr>w_act_cache := mk_run_pending_tasks (au_act_cache au)
        (mk_invalidate_entries_if (au_act_cache au)
          (\<lambda>_ entry. case entry of None \<Rightarrow> False | Some res \<Rightarrow> P res) (w_act_cache w))\<rparr>)"

definition status_cache_get ::
  "('c, 'd) authority \<Rightarrow> string \<Rightarrow> (('c, 'd, 'h, 'z) world_scheme, 'e, string option option) io" where
  "status_cache_get au k w =
     (case mk_get (au_status_cache au) (pg_now w) k (w_status_cache w) of
        (x, c) \<Rightarrow> (Inr x, w\<lparr>w_status_cache := c\<rparr>))"

definition status_cache_insert ::
  "('c, 'd) authority \<Rightarrow> string \<Rightarrow> string option \<Rightarrow> (('c, 'd, 'h, 'z) world_scheme, 'e, unit) io" where
  "status_cache_insert au k v w =
     (Inr (), w\<lparr>w_status_cache := mk_insert (au_status_cache au) (pg_now w) k v (w_status_cache w)\<rparr>)"

definition status_cache_invalidate ::
  "('c, 'd) authority \<Rightarrow> string \<Rightarrow> (('c, 'd, 'h, 'z) world_scheme, 'e, unit) io" where
  "status_cache_invalidate au k w =
     (Inr (), w\<lparr>w_status_cache := mk_invalidate (au_status_cache au) k (w_status_cache w)\<rparr>)"

section \<open>Minting\<close>

definition random_bytes :: "(('c, 'd, 'h, 'z) world_scheme, 'e, string) io" where
  "random_bytes w = (Inr (w_random w (w_randoms w)), w\<lparr>w_randoms := Suc (w_randoms w)\<rparr>)"

definition mint ::
  "('c, 'd) authority \<Rightarrow> agent_delegation_row
    \<Rightarrow> (('c, 'd, 'h, 'z) world_scheme, db_error, string \<times> nat) io" where
  "mint au delegation =
     bindE random_bytes (\<lambda>random.
     let token = ''sat_'' @ au_hex au random in
     bindE now_utc (\<lambda>now.
     let expires_at = min (now + au_act_token_ttl au) (dg_expires_at delegation) in
     bindE (act_token_insert (hash_token (au_crypto au) token) (dg_id delegation)
              (dg_tenant_id delegation) (dg_agent_id delegation) (dg_user_identity_id delegation)
              (dg_scopes delegation) expires_at) (\<lambda>_.
     ret (token, nat (max (whole_seconds (expires_at - now)) 0)))))"

section \<open>Invalidation\<close>

definition publish ::
  "('c, 'd) authority \<Rightarrow> invalidation_message \<Rightarrow> (('c, 'd, 'h, 'z) world_scheme, 'e, unit) io" where
  "publish au message w =
     (if \<not> au_nats au then (Inr (), w)
      else case au_encode au message of
        None \<Rightarrow> (Inr (), w)
      | Some payload \<Rightarrow>
          (Inr (), w\<lparr>w_outbox := (if w_drop w (w_published w) then w_outbox w else w_outbox w @ [payload]),
                     w_published := Suc (w_published w)\<rparr>))"

definition evict_delegation ::
  "('c, 'd) authority \<Rightarrow> string \<Rightarrow> (('c, 'd, 'h, 'z) world_scheme, 'e, unit) io" where
  "evict_delegation au delegation_id = act_cache_evict au (\<lambda>res. ar_delegation_id res = delegation_id)"

definition evict_agent ::
  "('c, 'd) authority \<Rightarrow> string \<Rightarrow> (('c, 'd, 'h, 'z) world_scheme, 'e, unit) io" where
  "evict_agent au agent_id =
     bindE (status_cache_invalidate au agent_id)
       (\<lambda>_. act_cache_evict au (\<lambda>res. ar_agent_id res = agent_id))"

definition invalidate_delegation ::
  "('c, 'd) authority \<Rightarrow> string \<Rightarrow> (('c, 'd, 'h, 'z) world_scheme, 'e, unit) io" where
  "invalidate_delegation au delegation_id =
     bindE (evict_delegation au delegation_id) (\<lambda>_. publish au (Delegation delegation_id))"

definition invalidate_agent ::
  "('c, 'd) authority \<Rightarrow> string \<Rightarrow> (('c, 'd, 'h, 'z) world_scheme, 'e, unit) io" where
  "invalidate_agent au agent_id =
     bindE (evict_agent au agent_id) (\<lambda>_. publish au (AgentMsg agent_id))"

definition handle_invalidation ::
  "('c, 'd) authority \<Rightarrow> string \<Rightarrow> (('c, 'd, 'h, 'z) world_scheme, 'e, unit) io" where
  "handle_invalidation au payload =
     (case au_decode au payload of
        Some (Delegation i) \<Rightarrow> evict_delegation au i
      | Some (AgentMsg i) \<Rightarrow> evict_agent au i
      | None \<Rightarrow> ret ())"

text \<open>The subscriber's loop over the payloads it receives until the channel closes.\<close>

fun run_invalidation_subscriber ::
  "('c, 'd) authority \<Rightarrow> string list \<Rightarrow> (('c, 'd, 'h, 'z) world_scheme, 'e, unit) io" where
  "run_invalidation_subscriber au [] = ret ()"
| "run_invalidation_subscriber au (payload # rest) =
     bindE (handle_invalidation au payload) (\<lambda>_. run_invalidation_subscriber au rest)"

section \<open>Resolving\<close>

definition resolution_of_row :: "agent_act_token_row \<Rightarrow> act_token_resolution" where
  "resolution_of_row row =
     \<lparr>ar_tenant_id = at_tenant_id row, ar_user_identity_id = at_user_identity_id row,
      ar_agent_id = at_agent_id row, ar_delegation_id = at_delegation_id row,
      ar_scopes = at_scopes row, ar_expires_at = at_expires_at row\<rparr>"

definition validate_act_token_row ::
  "agent_act_token_row \<Rightarrow> ('z pg_scheme, db_error, act_token_resolution option) io" where
  "validate_act_token_row row =
     bindE now_utc (\<lambda>now.
     if at_expires_at row \<le> now then ret None
     else attempt (delegation_get_by_id (at_delegation_id row)) (\<lambda>r. case r of
         Inl e \<Rightarrow> if e = AgentDelegationNotFound then ret None else raise e
       | Inr delegation \<Rightarrow>
           if dg_revoked_at delegation \<noteq> None \<or> dg_expires_at delegation \<le> now then ret None
           else attempt (agent_get_status (at_agent_id row)) (\<lambda>s. case s of
               Inl e \<Rightarrow> if e = AgentNotFound then ret None else raise e
             | Inr status \<Rightarrow>
                 if status \<noteq> agent_status_active then ret None
                 else ret (Some (resolution_of_row row)))))"

definition resolve_act_token ::
  "('c, 'd) authority \<Rightarrow> string
    \<Rightarrow> (('c, 'd, 'h, 'z) world_scheme, db_error, act_token_resolution option) io" where
  "resolve_act_token au token =
     (let hash = hash_token (au_crypto au) token in
      bindE (act_cache_get au hash) (\<lambda>entry. case entry of
          Some e \<Rightarrow> bindE now_utc (\<lambda>now. ret (case e of
              None \<Rightarrow> None
            | Some res \<Rightarrow> if ar_expires_at res > now then Some res else None))
        | None \<Rightarrow>
            bindE (act_token_get_by_hash hash) (\<lambda>row. case row of
                None \<Rightarrow> bindE (act_cache_insert au hash None) (\<lambda>_. ret None)
              | Some row \<Rightarrow>
                  bindE (validate_act_token_row row) (\<lambda>resolution.
                  bindE (act_cache_insert au hash resolution) (\<lambda>_.
                  ret resolution)))))"

definition agent_status ::
  "('c, 'd) authority \<Rightarrow> string \<Rightarrow> (('c, 'd, 'h, 'z) world_scheme, db_error, string option) io" where
  "agent_status au agent_id =
     bindE (status_cache_get au agent_id) (\<lambda>entry. case entry of
         Some e \<Rightarrow> ret e
       | None \<Rightarrow>
           attempt (agent_get_status agent_id) (\<lambda>r. case r of
               Inl e \<Rightarrow> if e = AgentNotFound
                  then bindE (status_cache_insert au agent_id None) (\<lambda>_. ret None) else raise e
             | Inr status \<Rightarrow>
                 bindE (status_cache_insert au agent_id (Some status)) (\<lambda>_. ret (Some status))))"

section \<open>What a resolution means\<close>

definition grant_valid :: "database \<Rightarrow> instant \<Rightarrow> string \<Rightarrow> act_token_resolution \<Rightarrow> bool" where
  "grant_valid db now hash res \<longleftrightarrow>
     (\<exists>row \<in> set (agent_act_tokens db). \<exists>d \<in> set (agent_delegations db). \<exists>a \<in> set (agents db).
        at_token_hash row = hash \<and> res = resolution_of_row row \<and> now < at_expires_at row
        \<and> dg_id d = at_delegation_id row \<and> dg_revoked_at d = None \<and> now < dg_expires_at d
        \<and> ag_id a = at_agent_id row \<and> ag_status a = agent_status_active)"

lemma validate_act_token_row_Some:
  assumes "validate_act_token_row row w = (Inr (Some res), v)"
  shows "res = resolution_of_row row \<and> pg_now w < at_expires_at row
    \<and> (\<exists>d \<in> set (agent_delegations (pg_db w)). \<exists>a \<in> set (agents (pg_db w)).
         dg_id d = at_delegation_id row \<and> dg_revoked_at d = None \<and> pg_now w < dg_expires_at d
         \<and> ag_id a = at_agent_id row \<and> ag_status a = agent_status_active)"
proof -
  obtain d u where live: "pg_now w < at_expires_at row"
    and dq: "delegation_get_by_id (at_delegation_id row) w = (Inr d, u)"
    and d: "dg_revoked_at d = None" "pg_now w < dg_expires_at d"
    and sq: "agent_get_status (at_agent_id row) u = (Inr agent_status_active, v)"
    and res: "res = resolution_of_row row"
    using assms
    by (auto simp: validate_act_token_row_def now_utc_def run_simps split: if_splits sum.splits)
  have u: "u = w\<lparr>pg_queries := Suc (pg_queries w)\<rparr>"
    and fd: "find (\<lambda>d. dg_id d = at_delegation_id row) (agent_delegations (pg_db w)) = Some d"
    using pg_query_Inr [OF dq [unfolded delegation_get_by_id_def]] by auto
  obtain a where fa: "find (\<lambda>a. ag_id a = at_agent_id row) (agents (pg_db w)) = Some a"
    and "ag_status a = agent_status_active"
    using pg_query_Inr [OF sq [unfolded agent_get_status_def]] u by auto
  with find_SomeD [OF fd] find_SomeD [OF fa] d live res show ?thesis by blast
qed

text \<open>Validation only reads.\<close>

lemma validate_act_token_row_state:
  "\<exists>n. snd (validate_act_token_row row w) = w\<lparr>pg_queries := n\<rparr>"
proof -
  have same: "\<exists>n. w = w\<lparr>pg_queries := n\<rparr>" by (rule exI [of _ "pg_queries w"]) simp
  show ?thesis
    by (cases rule: pg_query_cases [of "\<lambda>now db. ok_or AgentDelegationNotFound
          (find (\<lambda>d. dg_id d = at_delegation_id row) (agent_delegations db))" w];
        cases rule: pg_query_cases [of "\<lambda>now db. ok_or AgentNotFound (map_option ag_status
          (find (\<lambda>a. ag_id a = at_agent_id row) (agents db)))" "w\<lparr>pg_queries := Suc (pg_queries w)\<rparr>"])
       (auto simp: validate_act_token_row_def now_utc_def io_defs delegation_get_by_id_def
          agent_get_status_def ok_or_def same split: option.splits)
qed


section \<open>What the caches may hold\<close>

lemma moka_get:
  assumes "moka_ok ttl E m" and "mk_get m now k c = (Some v, c')"
  shows "\<exists>t. (k, v, t) \<in> E c \<and> now < t + ttl"
  using assms unfolding moka_ok_def by metis

lemma moka_get_entries:
  assumes "moka_ok ttl E m" and "mk_get m now k c = (x, c')"
  shows "E c' \<subseteq> E c"
  using assms unfolding moka_ok_def by (metis snd_conv)

lemma moka_insert:
  "moka_ok ttl E m \<Longrightarrow> E (mk_insert m now k v c) \<subseteq> insert (k, v, now) {e \<in> E c. fst e \<noteq> k}"
  by (simp add: moka_ok_def)

lemma moka_evict:
  assumes "moka_ok ttl E m"
  shows "E (mk_run_pending_tasks m (mk_invalidate_entries_if m P c)) \<subseteq> {(k, v, t) \<in> E c. \<not> P k v}"
  using assms unfolding moka_ok_def by blast

text \<open>The entries a resolver may add: what it just read of the database.\<close>

definition new_entries ::
  "database \<Rightarrow> instant \<Rightarrow> string \<Rightarrow> (string \<times> act_token_resolution option \<times> instant) set" where
  "new_entries db now hash =
     insert (hash, None, now) {(hash, Some res, now) | res. grant_valid db now hash res}"

lemma act_token_get_by_hash_Inr:
  assumes "act_token_get_by_hash h w = (Inr x, v)"
  shows "v = w\<lparr>pg_queries := Suc (pg_queries w)\<rparr>
    \<and> (\<forall>row. x = Some row \<longrightarrow> row \<in> set (agent_act_tokens (pg_db w)) \<and> at_token_hash row = h)"
  using pg_query_Inr [OF assms [unfolded act_token_get_by_hash_def]] by (auto dest: find_SomeD)

lemma validated_new_entry:
  assumes "validate_act_token_row row w = (Inr x, v)" and "row \<in> set (agent_act_tokens (pg_db w))"
    and "at_token_hash row = h"
  shows "(h, x, pg_now w) \<in> new_entries (pg_db w) (pg_now w) h"
proof (cases x)
  case None
  then show ?thesis by (simp add: new_entries_def)
next
  case (Some res)
  with assms(1) have "validate_act_token_row row w = (Inr (Some res), v)" by simp
  from validate_act_token_row_Some [OF this] assms(2,3)
  have "grant_valid (pg_db w) (pg_now w) h res" unfolding grant_valid_def by blast
  with Some show ?thesis by (simp add: new_entries_def)
qed

definition same_store :: "('c, 'd, 'h, 'z) world_scheme \<Rightarrow> ('c, 'd, 'h, 'z) world_scheme \<Rightarrow> bool" where
  "same_store w v \<longleftrightarrow> pg_db v = pg_db w \<and> pg_now v = pg_now w"

lemma query_same_store [simp]:
  "same_store w (w\<lparr>pg_queries := n\<rparr>)" "same_store w (w\<lparr>w_act_cache := c\<rparr>)"
  "same_store w (w\<lparr>w_act_cache := c, pg_queries := n\<rparr>)"
  "same_store w (w\<lparr>w_status_cache := d\<rparr>)"
  by (simp_all add: same_store_def)

lemma resolve_hit:
  assumes "mk_get (au_act_cache au) (pg_now w) (hash_token (au_crypto au) token) (w_act_cache w) = (Some e, c)"
  shows "resolve_act_token au token w =
    (Inr (case e of None \<Rightarrow> None | Some res \<Rightarrow> if ar_expires_at res > pg_now w then Some res else None),
     w\<lparr>w_act_cache := c\<rparr>)"
  using assms
  by (simp add: resolve_act_token_def Let_def act_cache_get_def now_utc_def io_defs split: option.splits)

text \<open>A miss reads the database and stores what it read, or fails on the way.\<close>

lemma resolve_miss:
  assumes get: "mk_get (au_act_cache au) (pg_now w) (hash_token (au_crypto au) token) (w_act_cache w) = (None, c)"
    and run: "resolve_act_token au token w = (x, v)"
  shows "same_store w v
    \<and> ((\<exists>err. x = Inl err) \<and> w_act_cache v = c
       \<or> (\<exists>e. x = Inr e \<and> (hash_token (au_crypto au) token, e, pg_now w)
              \<in> new_entries (pg_db w) (pg_now w) (hash_token (au_crypto au) token)
            \<and> w_act_cache v = mk_insert (au_act_cache au) (pg_now w) (hash_token (au_crypto au) token) e c))"
proof -
  let ?h = "hash_token (au_crypto au) token"
  let ?w = "w\<lparr>w_act_cache := c\<rparr>"
  let ?u = "?w\<lparr>pg_queries := Suc (pg_queries ?w)\<rparr>"
  obtain q u where q: "act_token_get_by_hash ?h ?w = (q, u)" by fastforce
  have u: "u = ?u" using q by (auto simp: act_token_get_by_hash_def dest!: arg_cong [of _ _ snd]
      simp: pg_query_state)
  show ?thesis
  proof (cases q)
    case (Inl err)
    then show ?thesis
      using get run q u by (auto simp: resolve_act_token_def Let_def act_cache_get_def io_defs)
  next
    case (Inr y)
    note hit = act_token_get_by_hash_Inr [OF q [unfolded Inr]]
    show ?thesis
    proof (cases y)
      case None
      then show ?thesis using get run q u Inr
        by (auto simp: resolve_act_token_def Let_def act_cache_get_def io_defs act_cache_insert_def
            new_entries_def same_store_def)
    next
      case (Some row)
      obtain z t where z: "validate_act_token_row row ?u = (z, t)" by fastforce
      obtain n where t: "t = ?u\<lparr>pg_queries := n\<rparr>"
        using validate_act_token_row_state [of row ?u] z by auto
      show ?thesis
      proof (cases z)
        case (Inl err)
        then show ?thesis using get run q u \<open>q = Inr y\<close> Some z t
          by (auto simp: resolve_act_token_def Let_def act_cache_get_def io_defs same_store_def)
      next
        case (Inr res)
        have "(?h, res, pg_now w) \<in> new_entries (pg_db w) (pg_now w) ?h"
          using validated_new_entry [of row ?u res t ?h] z Inr hit Some by simp
        then show ?thesis using get run q u \<open>q = Inr y\<close> Some z t Inr
          by (auto simp: resolve_act_token_def Let_def act_cache_get_def io_defs act_cache_insert_def same_store_def)
      qed
    qed
  qed
qed

lemma resolve_entries:
  assumes ok: "moka_ok ttl E (au_act_cache au)" and run: "resolve_act_token au token w = (x, v)"
  shows "same_store w v \<and> E (w_act_cache v) \<subseteq> E (w_act_cache w)
      \<union> new_entries (pg_db w) (pg_now w) (hash_token (au_crypto au) token)"
proof -
  let ?h = "hash_token (au_crypto au) token"
  obtain g c where g: "mk_get (au_act_cache au) (pg_now w) ?h (w_act_cache w) = (g, c)" by fastforce
  have c: "E c \<subseteq> E (w_act_cache w)" using moka_get_entries [OF ok g] .
  show ?thesis
  proof (cases g)
    case None
    show ?thesis using resolve_miss [OF g [unfolded None] run] c moka_insert [OF ok, of "pg_now w" ?h _ c]
      by auto blast
  next
    case (Some e)
    show ?thesis using resolve_hit [OF g [unfolded Some]] run c by (auto simp: same_store_def)
  qed
qed

lemma resolve_served:
  assumes ok: "moka_ok ttl E (au_act_cache au)" and run: "resolve_act_token au token w = (Inr (Some res), v)"
  shows "pg_now w < ar_expires_at res
    \<and> ((\<exists>t. (hash_token (au_crypto au) token, Some res, t) \<in> E (w_act_cache w) \<and> pg_now w < t + ttl)
       \<or> grant_valid (pg_db w) (pg_now w) (hash_token (au_crypto au) token) res)"
proof -
  let ?h = "hash_token (au_crypto au) token"
  obtain g c where g: "mk_get (au_act_cache au) (pg_now w) ?h (w_act_cache w) = (g, c)" by fastforce
  show ?thesis
  proof (cases g)
    case None
    then have "grant_valid (pg_db w) (pg_now w) ?h res"
      using resolve_miss [OF g [unfolded None] run] by (auto simp: new_entries_def)
    moreover from this have "pg_now w < ar_expires_at res"
      by (auto simp: grant_valid_def resolution_of_row_def)
    ultimately show ?thesis by blast
  next
    case (Some e)
    with resolve_hit [OF g [unfolded Some]] run have "e = Some res" "pg_now w < ar_expires_at res"
      by (auto split: option.splits if_splits)
    then show ?thesis using moka_get [OF ok g [unfolded Some]] by blast
  qed
qed


section \<open>One replica among others\<close>

text \<open>
  \<open>H\<close> records which database held at which instant. \<open>J\<close> restricts what the rest of the
  system does to the database (\<open>Env\<close>); the other steps are this replica's requests, the
  payloads its subscriber receives, and the clock.
\<close>

type_synonym history = "(instant \<times> database) set"

inductive replica_step ::
  "('c, 'd) authority \<Rightarrow> (database \<Rightarrow> bool) \<Rightarrow> ('c, 'd, 'h) world \<times> history
    \<Rightarrow> ('c, 'd, 'h) world \<times> history \<Rightarrow> bool"
  for au :: "('c, 'd) authority" and J :: "database \<Rightarrow> bool" where
  Resolve: "resolve_act_token au token w = (x, v) \<Longrightarrow> replica_step au J (w, H) (v, H)"
| Status: "agent_status au i w = (x, v) \<Longrightarrow> replica_step au J (w, H) (v, H)"
| Remote: "handle_invalidation au payload w = (x :: db_error + unit, v) \<Longrightarrow> replica_step au J (w, H) (v, H)"
| Env: "J db \<Longrightarrow> replica_step au J (w, H) (w\<lparr>pg_db := db\<rparr>, insert (pg_now w, db) H)"
| Tick: "0 \<le> d \<Longrightarrow> replica_step au J (w, H)
    (w\<lparr>pg_now := pg_now w + d\<rparr>, insert (pg_now w + d, pg_db w) H)"

abbreviation replica_run ::
  "('c, 'd) authority \<Rightarrow> (database \<Rightarrow> bool) \<Rightarrow> ('c, 'd, 'h) world \<times> history
    \<Rightarrow> ('c, 'd, 'h) world \<times> history \<Rightarrow> bool" where
  "replica_run au J \<equiv> (replica_step au J)\<^sup>*\<^sup>*"

lemma agent_status_frame:
  assumes "agent_status au i w = (x, v)"
  shows "same_store w v \<and> w_act_cache v = w_act_cache w"
proof -
  obtain g c where g: "mk_get (au_status_cache au) (pg_now w) i (w_status_cache w) = (g, c)" by fastforce
  let ?u = "w\<lparr>w_status_cache := c\<rparr>"
  show ?thesis
    using assms g
    by (cases rule: pg_query_cases [of "\<lambda>now db. ok_or AgentNotFound (map_option ag_status
          (find (\<lambda>a. ag_id a = i) (agents db)))" ?u])
       (auto simp: agent_status_def status_cache_get_def status_cache_insert_def agent_get_status_def
          io_defs same_store_def ok_or_def split: option.splits if_splits)
qed

lemma handle_invalidation_frame:
  assumes "moka_ok ttl E (au_act_cache au)" and "handle_invalidation au payload w = (x, v)"
  shows "same_store w v \<and> E (w_act_cache v) \<subseteq> E (w_act_cache w)"
  using assms(2) moka_evict [OF assms(1), of _ "w_act_cache w"]
  by (auto simp: handle_invalidation_def evict_delegation_def evict_agent_def act_cache_evict_def
      status_cache_invalidate_def io_defs same_store_def
      split: option.splits invalidation_message.splits) blast+

text \<open>Every positive entry was true of the database when it was inserted.\<close>

definition entries_recorded ::
  "('c \<Rightarrow> (string \<times> act_token_resolution option \<times> instant) set)
    \<Rightarrow> ('c, 'd, 'h) world \<times> history \<Rightarrow> bool" where
  "entries_recorded E s \<longleftrightarrow>
     (pg_now (fst s), pg_db (fst s)) \<in> snd s
     \<and> (\<forall>k res t. (k, Some res, t) \<in> E (w_act_cache (fst s)) \<longrightarrow>
          t \<le> pg_now (fst s) \<and> (\<exists>db. (t, db) \<in> snd s \<and> grant_valid db t k res))"

lemma entries_recorded_step:
  assumes "moka_ok ttl E (au_act_cache au)" and "replica_step au J s t" and "entries_recorded E s"
  shows "entries_recorded E t"
  using assms(2)
proof (cases rule: replica_step.cases)
  case (Resolve token w x v H)
  have "same_store w v" and sub: "E (w_act_cache v) \<subseteq> E (w_act_cache w)
      \<union> new_entries (pg_db w) (pg_now w) (hash_token (au_crypto au) token)"
    using resolve_entries [OF assms(1) Resolve(3)] by auto
  then have frame: "pg_db v = pg_db w" "pg_now v = pg_now w" by (simp_all add: same_store_def)
  have "t' \<le> pg_now w \<and> (\<exists>db. (t', db) \<in> H \<and> grant_valid db t' k res)"
    if e: "(k, Some res, t') \<in> E (w_act_cache v)" for k res t'
  proof (cases "(k, Some res, t') \<in> E (w_act_cache w)")
    case True
    then show ?thesis using assms(3) Resolve(1) by (auto simp: entries_recorded_def)
  next
    case False
    then have "t' = pg_now w \<and> grant_valid (pg_db w) (pg_now w) k res"
      using e sub by (auto simp: new_entries_def)
    then show ?thesis using assms(3) Resolve(1) by (auto simp: entries_recorded_def)
  qed
  then show ?thesis using assms(3) Resolve(1,2) frame by (simp add: entries_recorded_def)
next
  case (Status i w x v H)
  then show ?thesis using assms(3) agent_status_frame [OF Status(3)]
    by (simp add: entries_recorded_def same_store_def)
next
  case (Remote payload w x v H)
  then show ?thesis using assms(3) handle_invalidation_frame [OF assms(1) Remote(3)]
    by (auto simp: entries_recorded_def same_store_def)
next
  case (Env db w H)
  then show ?thesis using assms(3) by (fastforce simp: entries_recorded_def)
next
  case (Tick d w H)
  then show ?thesis using assms(3) by (fastforce simp: entries_recorded_def)
qed

lemma entries_recorded_run:
  assumes "moka_ok ttl E (au_act_cache au)" and "replica_run au J s t" and "entries_recorded E s"
  shows "entries_recorded E t"
  using assms(2,3)
  by (induction rule: rtranclp_induct) (blast intro: entries_recorded_step [OF assms(1)])+

text \<open>
  While the database says that a delegation is revoked or gone, and no cached entry names
  it, it stays that way.
\<close>

definition delegation_dead :: "string \<Rightarrow> database \<Rightarrow> bool" where
  "delegation_dead did db \<longleftrightarrow>
     (\<forall>d \<in> set (agent_delegations db). dg_id d = did \<longrightarrow> dg_revoked_at d \<noteq> None)"

definition agent_disabled :: "string \<Rightarrow> database \<Rightarrow> bool" where
  "agent_disabled i db \<longleftrightarrow> (\<forall>a \<in> set (agents db). ag_id a = i \<longrightarrow> ag_status a \<noteq> agent_status_active)"

lemma dead_grant: "delegation_dead did db \<Longrightarrow> grant_valid db now h res \<Longrightarrow> ar_delegation_id res \<noteq> did"
  by (auto simp: delegation_dead_def grant_valid_def resolution_of_row_def)

lemma disabled_grant: "agent_disabled i db \<Longrightarrow> grant_valid db now h res \<Longrightarrow> ar_agent_id res \<noteq> i"
  by (auto simp: agent_disabled_def grant_valid_def resolution_of_row_def)

text \<open>
  \<open>Q\<close> rules out some resolutions; a database condition \<open>J\<close> under which no grant of that kind
  is valid keeps a cache free of them.
\<close>

definition cache_free_of ::
  "('c \<Rightarrow> (string \<times> act_token_resolution option \<times> instant) set) \<Rightarrow> (act_token_resolution \<Rightarrow> bool)
    \<Rightarrow> ('c, 'd, 'h) world \<Rightarrow> bool" where
  "cache_free_of E Q w \<longleftrightarrow> (\<forall>k res t. (k, Some res, t) \<in> E (w_act_cache w) \<longrightarrow> \<not> Q res)"

lemma cache_free_run:
  assumes ok: "moka_ok ttl E (au_act_cache au)"
    and JQ: "\<And>db now h res. J db \<Longrightarrow> grant_valid db now h res \<Longrightarrow> \<not> Q res"
    and run: "replica_run au J s t"
    and start: "J (pg_db (fst s)) \<and> cache_free_of E Q (fst s)"
  shows "J (pg_db (fst t)) \<and> cache_free_of E Q (fst t)"
  using run start
proof (induction rule: rtranclp_induct)
  case base
  then show ?case .
next
  case (step y z)
  then have IH: "J (pg_db (fst y))" "cache_free_of E Q (fst y)" by auto
  from step(2) show ?case
  proof (cases rule: replica_step.cases)
    case (Resolve token w x v H)
    then show ?thesis using IH JQ resolve_entries [OF ok Resolve(3)]
      by (fastforce simp: cache_free_of_def same_store_def new_entries_def)
  next
    case (Status i w x v H)
    then show ?thesis using IH agent_status_frame [OF Status(3)]
      by (simp add: cache_free_of_def same_store_def)
  next
    case (Remote payload w x v H)
    then show ?thesis using IH handle_invalidation_frame [OF ok Remote(3)]
      by (auto simp: cache_free_of_def same_store_def)
  next
    case (Env db w H)
    then show ?thesis using IH by (simp add: cache_free_of_def)
  next
    case (Tick d w H)
    then show ?thesis using IH by (simp add: cache_free_of_def)
  qed
qed

lemma cache_free_serves:
  assumes "moka_ok ttl E (au_act_cache au)"
    and "\<And>db now h res. J db \<Longrightarrow> grant_valid db now h res \<Longrightarrow> \<not> Q res"
    and "J (pg_db w) \<and> cache_free_of E Q w"
    and "resolve_act_token au token w = (Inr (Some res), v)"
  shows "\<not> Q res"
  using resolve_served [OF assms(1,4)] assms(2,3) unfolding cache_free_of_def by blast

lemma publish_frame:
  assumes "publish au m w = (x, v)"
  shows "x = Inr () \<and> same_store w v \<and> w_act_cache v = w_act_cache w \<and> w_status_cache v = w_status_cache w"
  using assms by (auto simp: publish_def same_store_def split: if_splits option.splits)

lemma act_cache_evict_effect:
  assumes "moka_ok ttl E (au_act_cache au)" and "act_cache_evict au P w = (x, v)"
  shows "x = Inr () \<and> same_store w v \<and> cache_free_of E P v \<and> w_status_cache v = w_status_cache w"
proof -
  have v: "x = Inr ()" "v = w\<lparr>w_act_cache := mk_run_pending_tasks (au_act_cache au)
      (mk_invalidate_entries_if (au_act_cache au)
        (\<lambda>_ entry. case entry of None \<Rightarrow> False | Some res \<Rightarrow> P res) (w_act_cache w))\<rparr>"
    using assms(2) by (auto simp: act_cache_evict_def)
  have "cache_free_of E P v"
    using moka_evict [OF assms(1), of "\<lambda>_ entry. case entry of None \<Rightarrow> False | Some res \<Rightarrow> P res"
      "w_act_cache w"] by (fastforce simp: cache_free_of_def v(2))
  then show ?thesis using v by simp
qed

lemma invalidate_delegation_effect:
  fixes x :: "'e + unit"
  assumes "moka_ok ttl E (au_act_cache au)" and "invalidate_delegation au did w = (x, v)"
  shows "x = Inr () \<and> same_store w v \<and> cache_free_of E (\<lambda>res. ar_delegation_id res = did) v"
proof -
  obtain y :: "'e + unit" and u where e: "act_cache_evict au (\<lambda>res. ar_delegation_id res = did) w = (y, u)" by fastforce
  note eff = act_cache_evict_effect [OF assms(1) e]
  then have "publish au (Delegation did) u = (x, v)"
    using assms(2) e by (simp add: invalidate_delegation_def evict_delegation_def bindE_def)
  from publish_frame [OF this] eff show ?thesis by (simp add: same_store_def cache_free_of_def)
qed

lemma invalidate_agent_effect:
  fixes x :: "'e + unit"
  assumes "moka_ok ttl E (au_act_cache au)" and "invalidate_agent au i w = (x, v)"
  shows "x = Inr () \<and> same_store w v \<and> cache_free_of E (\<lambda>res. ar_agent_id res = i) v"
proof -
  let ?w = "w\<lparr>w_status_cache := mk_invalidate (au_status_cache au) i (w_status_cache w)\<rparr>"
  obtain y :: "'e + unit" and u where e: "act_cache_evict au (\<lambda>res. ar_agent_id res = i) ?w = (y, u)" by fastforce
  note eff = act_cache_evict_effect [OF assms(1) e]
  then have "publish au (AgentMsg i) u = (x, v)"
    using assms(2) e
    by (simp add: invalidate_agent_def evict_agent_def status_cache_invalidate_def bindE_def)
  from publish_frame [OF this] eff show ?thesis by (simp add: same_store_def cache_free_of_def)
qed


section \<open>Minting and the subscriber\<close>

definition minted_row :: "('c, 'd) authority \<Rightarrow> agent_delegation_row \<Rightarrow> string \<Rightarrow> instant \<Rightarrow> agent_act_token_row" where
  "minted_row au d token now =
     \<lparr>at_token_hash = hash_token (au_crypto au) token, at_delegation_id = dg_id d,
      at_tenant_id = dg_tenant_id d, at_agent_id = dg_agent_id d,
      at_user_identity_id = dg_user_identity_id d, at_scopes = dg_scopes d,
      at_expires_at = min (now + au_act_token_ttl au) (dg_expires_at d), at_created_at = now\<rparr>"

lemma mint_Inr:
  assumes "mint au d w = (Inr (token, secs), v)"
  shows "token = ''sat_'' @ au_hex au (w_random w (w_randoms w))
    \<and> secs = nat (max (whole_seconds (at_expires_at (minted_row au d token (pg_now w)) - pg_now w)) 0)
    \<and> at_token_hash (minted_row au d token (pg_now w)) \<notin> at_token_hash ` set (agent_act_tokens (pg_db w))
    \<and> v = w\<lparr>w_randoms := Suc (w_randoms w), pg_queries := Suc (pg_queries w),
           pg_db := (pg_db w)\<lparr>agent_act_tokens :=
             agent_act_tokens (pg_db w) @ [minted_row au d token (pg_now w)]\<rparr>\<rparr>"
proof -
  define token' where "token' = ''sat_'' @ au_hex au (w_random w (w_randoms w))"
  let ?w = "w\<lparr>w_randoms := Suc (w_randoms w)\<rparr>"
  let ?e = "min (pg_now w + au_act_token_ttl au) (dg_expires_at d)"
  let ?st = "act_token_insert_stmt (hash_token (au_crypto au) token') (dg_id d) (dg_tenant_id d)
    (dg_agent_id d) (dg_user_identity_id d) (dg_scopes d) ?e"
  have run: "pg_exec ?st ?w = (Inr (), v)" and tok: "token = token'"
    and secs: "secs = nat (max (whole_seconds (?e - pg_now w)) 0)"
    using assms by (auto simp: mint_def random_bytes_def now_utc_def run_simps Let_def act_token_insert_def
        token'_def)
  have st: "fst (?st (pg_now w) (pg_db w)) = Inr ()"
    and v: "v = ?w\<lparr>pg_queries := Suc (pg_queries w), pg_db := snd (?st (pg_now w) (pg_db w))\<rparr>"
    using pg_exec_Inr [OF run] by auto
  from st have "snd (?st (pg_now w) (pg_db w)) = (pg_db w)\<lparr>agent_act_tokens :=
      agent_act_tokens (pg_db w) @ [minted_row au d token' (pg_now w)]\<rparr>"
    and "hash_token (au_crypto au) token' \<notin> at_token_hash ` set (agent_act_tokens (pg_db w))"
    unfolding act_token_insert_stmt_def violates_def Let_def
    by (simp_all add: minted_row_def split: if_split_asm)
  with v tok secs show ?thesis by (simp add: minted_row_def token'_def)
qed

lemma mint_bound_to: "bound_to d (minted_row au d token now)"
  by (simp add: bound_to_def minted_row_def)

lemma mint_agent_inv:
  assumes "agent_inv (pg_db w)" and "d \<in> set (agent_delegations (pg_db w))"
    and "mint au d w = (Inr (token, secs), v)"
  shows "agent_inv (pg_db v)"
proof -
  let ?row = "minted_row au d token (pg_now w)"
  have uniq: "d' = d" if "d' \<in> set (agent_delegations (pg_db w))" "dg_id d' = dg_id d" for d'
    using assms(1,2) that key_uniqueD [of dg_id "agent_delegations (pg_db w)" d' d]
    by (simp add: agent_inv_def agent_tables_ok_def)
  have "bound_to d' ?row" if "d' \<in> set (agent_delegations (pg_db w))" "at_delegation_id ?row = dg_id d'" for d'
    using uniq [of d'] that mint_bound_to [of d au token "pg_now w"] by (simp add: minted_row_def)
  moreover have "at_delegation_id ?row \<in> dg_id ` set (agent_delegations (pg_db w))"
    using assms(2) by (simp add: minted_row_def)
  ultimately show ?thesis
    using assms(1) mint_Inr [OF assms(3)]
    by (auto simp: agent_inv_def agent_tables_ok_def act_tokens_bound_def key_unique_append tenant_exists_def)
qed

lemma handle_invalidation_free:
  fixes x :: "'e + unit"
  assumes "moka_ok ttl E (au_act_cache au)" and "handle_invalidation au payload w = (x, v)"
  shows "x = Inr () \<and> (cache_free_of E Q w \<longrightarrow> cache_free_of E Q v)
    \<and> (au_decode au payload = Some (Delegation i) \<longrightarrow> cache_free_of E (\<lambda>res. ar_delegation_id res = i) v)"
proof -
  have "x = Inr ()"
    using assms(2)
    by (auto simp: handle_invalidation_def evict_delegation_def evict_agent_def act_cache_evict_def
        status_cache_invalidate_def io_defs split: option.splits invalidation_message.splits)
  moreover have "cache_free_of E Q v" if "cache_free_of E Q w"
    using handle_invalidation_frame [OF assms] that by (auto simp: cache_free_of_def)
  moreover have "cache_free_of E (\<lambda>res. ar_delegation_id res = i) v"
    if "au_decode au payload = Some (Delegation i)"
    using act_cache_evict_effect [OF assms(1), of "\<lambda>res. ar_delegation_id res = i" w x v] assms(2) that
    by (simp add: handle_invalidation_def evict_delegation_def)
  ultimately show ?thesis by blast
qed

lemma subscriber_free:
  fixes x :: "'e + unit"
  assumes "moka_ok ttl E (au_act_cache au)" and "run_invalidation_subscriber au ps w = (x, v)"
    and "cache_free_of E (\<lambda>res. ar_delegation_id res = i) w
      \<or> (\<exists>p \<in> set ps. au_decode au p = Some (Delegation i))"
  shows "cache_free_of E (\<lambda>res. ar_delegation_id res = i) v"
  using assms(2,3)
proof (induction ps arbitrary: w)
  case Nil
  then show ?case by (simp add: ret_def)
next
  case (Cons p ps)
  obtain y :: "'e + unit" and u where h: "handle_invalidation au p w = (y, u)" by fastforce
  note step = handle_invalidation_free [OF assms(1) h, where i = i and Q = "\<lambda>res. ar_delegation_id res = i"]
  then have "run_invalidation_subscriber au ps u = (x, v)"
    using Cons.prems(1) h by (simp add: bindE_def)
  then show ?case using Cons.IH Cons.prems(2) step by auto
qed

section \<open>A concrete cache\<close>

text \<open>An instance of the cache parameter that satisfies \<open>moka_ok\<close>.\<close>

definition list_moka :: "duration \<Rightarrow> ((string \<times> 'v \<times> instant) list, 'v) moka" where
  "list_moka ttl =
     \<lparr>mk_get = (\<lambda>now k c. (map_option (\<lambda>(_, v, _). v) (find (\<lambda>(k', v, t). k' = k \<and> now < t + ttl) c), c)),
      mk_insert = (\<lambda>now k v c. (k, v, now) # filter (\<lambda>(k', _, _). k' \<noteq> k) c),
      mk_invalidate = (\<lambda>k. filter (\<lambda>(k', _, _). k' \<noteq> k)),
      mk_invalidate_entries_if = (\<lambda>P. filter (\<lambda>(k, v, _). \<not> P k v)),
      mk_run_pending_tasks = id\<rparr>"

lemma list_moka_ok: "moka_ok ttl set (list_moka ttl)"
proof -
  have "\<exists>t. (k, v, t) \<in> set c \<and> now < t + ttl"
    if "mk_get (list_moka ttl) now k c = (Some v, c')" for now k c and v :: 'a and c'
    using that by (auto simp: list_moka_def dest!: find_SomeD)
  then show ?thesis by (auto simp: moka_ok_def list_moka_def)
qed

type_synonym 'v list_cache = "(string \<times> 'v \<times> instant) list"

definition sample_authority ::
  "duration \<Rightarrow> (act_token_resolution option list_cache, string option list_cache) authority" where
  "sample_authority ttl =
     \<lparr>au_crypto = plain_crypto, au_hex = id, au_act_cache = list_moka ttl, au_status_cache = list_moka ttl,
      au_nats = True,
      au_encode = (\<lambda>m. Some (case m of Delegation i \<Rightarrow> CHR ''D'' # i | AgentMsg i \<Rightarrow> CHR ''A'' # i)),
      au_decode = (\<lambda>p. case p of [] \<Rightarrow> None
         | c # i \<Rightarrow> if c = CHR ''D'' then Some (Delegation i) else if c = CHR ''A'' then Some (AgentMsg i) else None),
      au_act_token_ttl = 100\<rparr>"

definition sample_db :: database where
  "sample_db = empty_db\<lparr>
     tenants := [\<lparr>tn_id = ''T'', tn_slug = ''t'', tn_display_name = ''T'', tn_is_system = False,
       tn_settings = JNull, tn_created_at = 0\<rparr>],
     agents := [\<lparr>ag_id = ''A'', ag_tenant_id = ''T'', ag_owner_identity_id = None, ag_name = ''bot'',
       ag_status = ''active'', ag_created_at = 0, ag_updated_at = 0\<rparr>],
     agent_delegations := [\<lparr>dg_id = ''D'', dg_tenant_id = ''T'', dg_agent_id = ''A'',
       dg_user_identity_id = ''U'', dg_scopes = [''mail:read''], dg_expires_at = 1000,
       dg_revoked_at = None, dg_created_at = 0\<rparr>],
     agent_act_tokens := [\<lparr>at_token_hash = ''sat_1'', at_delegation_id = ''D'', at_tenant_id = ''T'',
       at_agent_id = ''A'', at_user_identity_id = ''U'', at_scopes = [''mail:read''],
       at_expires_at = 500, at_created_at = 0\<rparr>],
     tenant_memberships := [\<lparr>tm_tenant_id = ''T'', tm_identity_id = ''U'', tm_schema_id = ''S'',
       tm_schema_version = 1, tm_traits = JNull, tm_state = ''active'', tm_created_at = 0, tm_updated_at = 0\<rparr>]\<rparr>"

definition sample_world ::
  "database \<Rightarrow> instant \<Rightarrow> 'h \<Rightarrow> (act_token_resolution option list_cache, string option list_cache, 'h) world" where
  "sample_world db now h =
     \<lparr>pg_db = db, pg_now = now, pg_queries = 0, pg_fault = (\<lambda>_. None), pg_scan = (\<lambda>_ rows. rows),
      pg_ulid = (\<lambda>n. replicate (Suc n) (CHR ''0'')), pg_ulids = 0,
      w_act_cache = [], w_status_cache = [], w_outbox = [], w_published = 0, w_drop = (\<lambda>_. False),
      w_random = (\<lambda>n. replicate (Suc n) (CHR ''r'')), w_randoms = 0, w_hydra = h\<rparr>"

definition sample_resolution :: act_token_resolution where
  "sample_resolution = \<lparr>ar_tenant_id = ''T'', ar_user_identity_id = ''U'', ar_agent_id = ''A'',
     ar_delegation_id = ''D'', ar_scopes = [''mail:read''], ar_expires_at = 500\<rparr>"

lemmas sample_defs = sample_authority_def sample_db_def sample_world_def sample_resolution_def
  plain_crypto_def list_moka_def empty_db_def hash_token_def

lemmas act_token_defs = resolve_act_token_def act_cache_get_def act_cache_insert_def
  act_token_get_by_hash_def validate_act_token_row_def delegation_get_by_id_def agent_get_status_def
  agent_status_active_def resolution_of_row_def now_utc_def pg_query_def pg_exec_def ok_or_def Let_def
  io_defs

lemma sample_resolve:
  "resolve_act_token (sample_authority 5) ''sat_1'' (sample_world sample_db 0 ())
    = (Inr (Some sample_resolution), (sample_world sample_db 0 ())\<lparr>
        w_act_cache := [(''sat_1'', Some sample_resolution, 0)], pg_queries := 3\<rparr>)"
  by (simp add: act_token_defs sample_defs)


section \<open>Properties\<close>



text \<open>
  Revocation is final on the replica that invalidates: once the database says that a
  delegation is revoked (or gone) and \<^verbatim>\<open>invalidate_delegation\<close> has run, no later resolution
  on this replica names that delegation, whatever tokens are presented, as long as the
  database keeps saying so.
\<close>

theorem revoked_delegation_never_served:
  assumes "moka_ok ttl E (au_act_cache au)" and "delegation_dead did (pg_db w)"
    and "invalidate_delegation au did w = (x :: db_error + unit, w1)"
    and "replica_run au (delegation_dead did) (w1, H) (w2, H2)"
    and "resolve_act_token au token w2 = (Inr (Some res), v)"
  shows "ar_delegation_id res \<noteq> did"
proof -
  have "delegation_dead did (pg_db w1) \<and> cache_free_of E (\<lambda>res. ar_delegation_id res = did) w1"
    using invalidate_delegation_effect [OF assms(1,3)] assms(2) by (simp add: same_store_def)
  then have "delegation_dead did (pg_db w2) \<and> cache_free_of E (\<lambda>res. ar_delegation_id res = did) w2"
    using cache_free_run [OF assms(1) _ assms(4), of "\<lambda>res. ar_delegation_id res = did"] dead_grant by auto
  from cache_free_serves [where J = "delegation_dead did" and Q = "\<lambda>res. ar_delegation_id res = did",
      OF assms(1) _ this assms(5)] dead_grant show ?thesis by blast
qed

definition revoked_db :: database where
  "revoked_db = sample_db\<lparr>agent_delegations := map (revoke_row 0) (agent_delegations sample_db)
     @ [(hd (agent_delegations sample_db))\<lparr>dg_id := ''E''\<rparr>],
     agent_act_tokens := agent_act_tokens sample_db
       @ [(hd (agent_act_tokens sample_db))\<lparr>at_token_hash := ''sat_2'', at_delegation_id := ''E''\<rparr>]\<rparr>"

theorem revoked_delegation_never_served_witness:
  "fst (resolve_act_token (sample_authority 5) ''sat_2''
      (snd (invalidate_delegation (sample_authority 5) ''D''
        ((sample_world revoked_db 0 ())\<lparr>w_act_cache := [(''sat_1'', Some sample_resolution, 0)]\<rparr>)
        :: (db_error + unit) \<times> _)))
     = Inr (Some (sample_resolution\<lparr>ar_delegation_id := ''E''\<rparr>))
   \<and> ar_delegation_id (sample_resolution\<lparr>ar_delegation_id := ''E''\<rparr>) \<noteq> ''D''"
proof -
  let ?au = "sample_authority 5"
  let ?w = "(sample_world revoked_db 0 ())\<lparr>w_act_cache := [(''sat_1'', Some sample_resolution, 0)]\<rparr>"
  let ?w1 = "?w\<lparr>w_act_cache := [], w_outbox := [''DD''], w_published := 1\<rparr>"
  have inv: "invalidate_delegation ?au ''D'' ?w = (Inr () :: db_error + unit, ?w1)"
    by (simp add: invalidate_delegation_def evict_delegation_def act_cache_evict_def publish_def io_defs
        sample_defs)
  have serve: "resolve_act_token ?au ''sat_2'' ?w1 = (Inr (Some (sample_resolution\<lparr>ar_delegation_id := ''E''\<rparr>)),
      ?w1\<lparr>w_act_cache := [(''sat_2'', Some (sample_resolution\<lparr>ar_delegation_id := ''E''\<rparr>), 0)], pg_queries := 3\<rparr>)"
    by (simp add: act_token_defs sample_defs revoked_db_def)
  have ok: "moka_ok 5 set (au_act_cache ?au)" by (simp add: sample_authority_def list_moka_ok)
  have "delegation_dead ''D'' (pg_db ?w)"
    by (simp add: delegation_dead_def sample_defs revoked_db_def revoke_row_def)
  from revoked_delegation_never_served [OF ok this inv rtranclp.rtrancl_refl serve] show ?thesis
    using inv serve by simp
qed

text \<open>
  The big red button: once the database says that an agent is not active and
  \<^verbatim>\<open>invalidate_agent\<close> has run, this replica resolves no act-token of that agent any more.
\<close>

theorem disabled_agent_never_served:
  assumes "moka_ok ttl E (au_act_cache au)" and "agent_disabled i (pg_db w)"
    and "invalidate_agent au i w = (x :: db_error + unit, w1)"
    and "replica_run au (agent_disabled i) (w1, H) (w2, H2)"
    and "resolve_act_token au token w2 = (Inr (Some res), v)"
  shows "ar_agent_id res \<noteq> i"
proof -
  have "agent_disabled i (pg_db w1) \<and> cache_free_of E (\<lambda>res. ar_agent_id res = i) w1"
    using invalidate_agent_effect [OF assms(1,3)] assms(2) by (simp add: same_store_def)
  then have "agent_disabled i (pg_db w2) \<and> cache_free_of E (\<lambda>res. ar_agent_id res = i) w2"
    using cache_free_run [OF assms(1) _ assms(4), of "\<lambda>res. ar_agent_id res = i"] disabled_grant by auto
  from cache_free_serves [where J = "agent_disabled i" and Q = "\<lambda>res. ar_agent_id res = i",
      OF assms(1) _ this assms(5)] disabled_grant show ?thesis by blast
qed

theorem disabled_agent_never_served_witness:
  "ar_agent_id sample_resolution \<noteq> ''B''
   \<and> fst (invalidate_agent (sample_authority 5) ''B'' (sample_world sample_db 0 ())) = (Inr () :: db_error + unit)"
proof -
  let ?au = "sample_authority 5" and ?w = "sample_world sample_db 0 ()"
  let ?w1 = "?w\<lparr>w_outbox := [''AB''], w_published := 1\<rparr>"
  have inv: "invalidate_agent ?au ''B'' ?w = (Inr () :: db_error + unit, ?w1)"
    by (simp add: invalidate_agent_def evict_agent_def status_cache_invalidate_def act_cache_evict_def
        publish_def io_defs sample_defs)
  have serve: "resolve_act_token ?au ''sat_1'' ?w1 = (Inr (Some sample_resolution),
      ?w1\<lparr>w_act_cache := [(''sat_1'', Some sample_resolution, 0)], pg_queries := 3\<rparr>)"
    by (simp add: act_token_defs sample_defs)
  have ok: "moka_ok 5 set (au_act_cache ?au)" by (simp add: sample_authority_def list_moka_ok)
  have "agent_disabled ''B'' (pg_db ?w)" by (simp add: agent_disabled_def sample_defs)
  from disabled_agent_never_served [OF ok this inv rtranclp.rtrancl_refl serve] show ?thesis
    using inv by simp
qed

text \<open>
  \<^bold>\<open>C25.\<close> An invalidation that reaches the broker reaches the caches: the payload published for a
  delegation, applied by another replica's subscriber among any other payloads, leaves no
  entry of that delegation in that replica's cache.
\<close>

theorem invalidation_broadcast:
  assumes "moka_ok ttl E (au_act_cache au')"
    and "au_nats au" and "au_encode au (Delegation did) = Some p" and "\<not> w_drop w (w_published w)"
    and "au_decode au' p = Some (Delegation did)"
    and "invalidate_delegation au did w = (x :: db_error + unit, w1)"
    and "run_invalidation_subscriber au' (w_outbox w1) u = (y :: db_error + unit, u1)"
  shows "cache_free_of E (\<lambda>res. ar_delegation_id res = did) u1"
proof (rule subscriber_free [OF assms(1,7)])
  have "p \<in> set (w_outbox w1)"
    using assms(2,3,4,6)
    by (auto simp: invalidate_delegation_def evict_delegation_def act_cache_evict_def publish_def io_defs)
  then show "cache_free_of E (\<lambda>res. ar_delegation_id res = did) u
      \<or> (\<exists>p \<in> set (w_outbox w1). au_decode au' p = Some (Delegation did))"
    using assms(5) by blast
qed

theorem invalidation_broadcast_witness:
  "cache_free_of set (\<lambda>res. ar_delegation_id res = ''D'')
     (snd (run_invalidation_subscriber (sample_authority 5) [''DD'']
        ((sample_world sample_db 0 ())\<lparr>w_act_cache := [(''sat_1'', Some sample_resolution, 0)]\<rparr>)
        :: (db_error + unit) \<times> _))"
proof -
  let ?au = "sample_authority 5" and ?w = "sample_world sample_db 0 ()"
  let ?u = "?w\<lparr>w_act_cache := [(''sat_1'', Some sample_resolution, 0)]\<rparr>"
  have inv: "invalidate_delegation ?au ''D'' ?w = (Inr () :: db_error + unit, ?w\<lparr>w_outbox := [''DD''], w_published := 1\<rparr>)"
    by (simp add: invalidate_delegation_def evict_delegation_def act_cache_evict_def publish_def io_defs
        sample_defs)
  have sub: "run_invalidation_subscriber ?au (w_outbox (?w\<lparr>w_outbox := [''DD''], w_published := 1\<rparr>)) ?u
      = (Inr () :: db_error + unit, ?w)"
    by (simp add: handle_invalidation_def evict_delegation_def act_cache_evict_def io_defs sample_defs)
  have ok: "moka_ok 5 set (au_act_cache ?au)" by (simp add: sample_authority_def list_moka_ok)
  from invalidation_broadcast [OF ok _ _ _ _ inv sub, where p = "''DD''"] show ?thesis
    using sub by (simp add: sample_authority_def sample_world_def)
qed



text \<open>
  Revocation is not immediate under concurrency: a request that has validated a token
  before another request revokes the delegation and evicts it stores its result after the
  eviction, and the replica then serves the revoked grant from its cache.
\<close>

theorem revocation_race:
  "\<exists>(au :: (act_token_resolution option list_cache, string option list_cache) authority)
      (w :: (act_token_resolution option list_cache, string option list_cache, unit) world) w1 w2 w3 w4 row d res.
     moka_ok 5 set (au_act_cache au)
     \<and> w_act_cache w = [] \<and> row \<in> set (agent_act_tokens (pg_db w))
     \<and> validate_act_token_row row w = (Inr (Some res), w1)
     \<and> delegation_revoke (dg_tenant_id d) (dg_id d) w1 = (Inr d, w2)
     \<and> invalidate_delegation au (dg_id d) w2 = (Inr () :: db_error + unit, w3)
     \<and> act_cache_insert au (at_token_hash row) (Some res) w3 = (Inr () :: db_error + unit, w4)
     \<and> delegation_dead (dg_id d) (pg_db w4) \<and> ar_delegation_id res = dg_id d
     \<and> fst (resolve_act_token au (at_token_hash row) w4) = Inr (Some res)"
proof -
  let ?au = "sample_authority 5" and ?w = "sample_world sample_db 0 ()"
  let ?w1 = "?w\<lparr>pg_queries := 2\<rparr>"
  let ?d = "revoke_row 0 (hd (agent_delegations sample_db))"
  let ?w2 = "?w1\<lparr>pg_queries := 3, pg_db := sample_db\<lparr>agent_delegations := [?d]\<rparr>\<rparr>"
  let ?w3 = "?w2\<lparr>w_outbox := [''DD''], w_published := 1\<rparr>"
  let ?w4 = "?w3\<lparr>w_act_cache := [(''sat_1'', Some sample_resolution, 0)]\<rparr>"
  let ?row = "hd (agent_act_tokens sample_db)"
  have "validate_act_token_row ?row ?w = (Inr (Some sample_resolution), ?w1)"
    by (simp add: act_token_defs sample_defs)
  moreover have "delegation_revoke (dg_tenant_id ?d) (dg_id ?d) ?w1 = (Inr ?d, ?w2)"
    by (simp add: delegation_revoke_def delegation_revoke_stmt_def pg_exec_def Let_def sample_defs)
  moreover have "invalidate_delegation ?au (dg_id ?d) ?w2 = (Inr () :: db_error + unit, ?w3)"
    by (simp add: invalidate_delegation_def evict_delegation_def act_cache_evict_def publish_def io_defs
        sample_defs)
  moreover have "act_cache_insert ?au (at_token_hash ?row) (Some sample_resolution) ?w3 = (Inr () :: db_error + unit, ?w4)"
    by (simp add: act_cache_insert_def sample_defs)
  moreover have "fst (resolve_act_token ?au (at_token_hash ?row) ?w4) = Inr (Some sample_resolution)"
    by (simp add: act_token_defs sample_defs)
  moreover have "delegation_dead (dg_id ?d) (pg_db ?w4) \<and> ar_delegation_id sample_resolution = dg_id ?d
      \<and> w_act_cache ?w = [] \<and> ?row \<in> set (agent_act_tokens (pg_db ?w))"
    by (simp add: delegation_dead_def sample_defs revoke_row_def)
  moreover have "moka_ok 5 set (au_act_cache ?au)" by (simp add: sample_authority_def list_moka_ok)
  ultimately show ?thesis by blast
qed

end
