(* ===== verification/SelfServicePaths.thy ===== *)
theory SelfServicePaths
  imports Database
begin

text \<open>
  The branded browser surface: \<^verbatim>\<open>SelfServicePaths\<close> of \<^verbatim>\<open>config.rs\<close> (reading and validating the
  configured paths) and \<^verbatim>\<open>services/self_service_url_rewriter.rs\<close> (mapping Kratos paths and
  URLs to them and back). Environment variables, the URL parser and the form codec are
  parameters. \<open>rewrite_browser_url\<close> calls itself on the URLs nested in a query, so it takes
  fuel; \<open>rewrite_browser_url_total\<close> shows that the length of the URL is enough.
\<close>

section \<open>String helpers\<close>

fun find_map :: "('a \<Rightarrow> 'b option) \<Rightarrow> 'a list \<Rightarrow> 'b option" where
  "find_map f [] = None"
| "find_map f (x # xs) = (case f x of None \<Rightarrow> find_map f xs | Some y \<Rightarrow> Some y)"

definition strip_prefix :: "string \<Rightarrow> string \<Rightarrow> string option" where
  "strip_prefix p s = (if starts_with s p then Some (drop (length p) s) else None)"

definition trim_end_matches :: "char \<Rightarrow> string \<Rightarrow> string" where
  "trim_end_matches c s = rev (dropWhile (\<lambda>x. x = c) (rev s))"

text \<open>The single quotes of an error message.\<close>

definition quoted :: "string \<Rightarrow> string" where
  "quoted s = CHR 0x27 # s @ [CHR 0x27]"

lemma strip_prefix_Some: "strip_prefix p s = Some t \<longleftrightarrow> s = p @ t"
  by (auto simp: strip_prefix_def starts_with_def) (metis append_take_drop_id)

lemma find_map_SomeD: "find_map f xs = Some y \<Longrightarrow> \<exists>x \<in> set xs. f x = Some y"
  by (induction xs) (auto split: option.splits)

lemma find_map_None: "find_map f xs = None \<longleftrightarrow> (\<forall>x \<in> set xs. f x = None)"
  by (induction xs) (auto split: option.splits)

lemma find_map_first:
  "find_map f (xs @ x # ys) = Some y \<longleftrightarrow>
     (case find_map f xs of Some z \<Rightarrow> z = y | None \<Rightarrow>
        (case f x of Some z \<Rightarrow> z = y | None \<Rightarrow> find_map f ys = Some y))"
  by (induction xs) (auto split: option.splits)

section \<open>The configured paths\<close>

record self_service_paths =
  sp_login :: string
  sp_registration :: string
  sp_settings :: string
  sp_recovery :: string
  sp_verification :: string
  sp_logout :: string
  sp_errors :: string
  sp_oidc_callback :: string
  sp_webauthn_js :: string

definition default_paths :: self_service_paths where
  "default_paths =
     \<lparr>sp_login = ''/identity/login'', sp_registration = ''/identity/registration'',
      sp_settings = ''/identity/settings'', sp_recovery = ''/identity/recovery'',
      sp_verification = ''/identity/verification'', sp_logout = ''/identity/logout'',
      sp_errors = ''/identity/errors'', sp_oidc_callback = ''/identity/oidc/callback'',
      sp_webauthn_js = ''/identity/webauthn.js''\<rparr>"

definition RESERVED_PREFIXES :: "string list" where
  "RESERVED_PREFIXES = [''/oauth2'', ''/saml'', ''/scim'', ''/callbacks'', ''/iam'', ''/.well-known'',
     ''/health'', ''/self-service'']"

definition env_or :: "(string \<Rightarrow> string option) \<Rightarrow> string \<Rightarrow> string \<Rightarrow> string" where
  "env_or env var fallback =
     (case env var of
        None \<Rightarrow> fallback
      | Some v \<Rightarrow> if trim v = [] then fallback else trim v)"

definition path_vars :: "self_service_paths \<Rightarrow> (string \<times> string) list" where
  "path_vars p =
     [(''SELF_SERVICE_LOGIN_PATH'', sp_login p), (''SELF_SERVICE_REGISTRATION_PATH'', sp_registration p),
      (''SELF_SERVICE_SETTINGS_PATH'', sp_settings p), (''SELF_SERVICE_RECOVERY_PATH'', sp_recovery p),
      (''SELF_SERVICE_VERIFICATION_PATH'', sp_verification p), (''SELF_SERVICE_LOGOUT_PATH'', sp_logout p),
      (''SELF_SERVICE_ERRORS_PATH'', sp_errors p), (''SELF_SERVICE_OIDC_CALLBACK_PATH'', sp_oidc_callback p),
      (''SELF_SERVICE_WEBAUTHN_JS_PATH'', sp_webauthn_js p)]"

datatype config_error =
    MissingVar string
  | InvalidBindAddr
  | InvalidSystemTenantUlid string
  | InvalidConfig string
  | InvalidBase64

definition path_ok :: "string \<times> string \<Rightarrow> config_error option" where
  "path_ok vp =
     (case vp of (var, path) \<Rightarrow>
        if \<not> starts_with path ''/'' \<or> length path = 1
        then Some (InvalidConfig (var @ '' must be an absolute path below the root, got '' @ quoted path))
        else if ends_with path ''/'' \<or> CHR ''?'' \<in> set path \<or> CHR ''#'' \<in> set path
        then Some (InvalidConfig (var @ '' must be a bare path without trailing slash, query, or fragment, got '' @ quoted path))
        else if \<exists>prefix \<in> set RESERVED_PREFIXES. path = prefix \<or> starts_with path (prefix @ ''/'')
        then Some (InvalidConfig (var @ '' must not shadow a reserved gateway prefix, got '' @ quoted path))
        else None)"

fun paths_distinct :: "string \<Rightarrow> (string \<times> string) list \<Rightarrow> config_error option" where
  "paths_distinct oidc [] = None"
| "paths_distinct oidc ((var, path) # rest) =
     (case find (\<lambda>(_, other). path = other) rest of
        Some (other_var, _) \<Rightarrow>
          Some (InvalidConfig (var @ '' and '' @ other_var @ '' must be distinct, both are '' @ quoted path))
      | None \<Rightarrow>
          if path \<noteq> oidc \<and> starts_with path (oidc @ ''/'')
          then Some (InvalidConfig (var @ '' must not live under SELF_SERVICE_OIDC_CALLBACK_PATH, got '' @ quoted path))
          else paths_distinct oidc rest)"

definition validate_paths :: "self_service_paths \<Rightarrow> config_error + unit" where
  "validate_paths p =
     (case find_map path_ok (path_vars p) of
        Some e \<Rightarrow> Inl e
      | None \<Rightarrow>
          case paths_distinct (sp_oidc_callback p) (path_vars p) of
            Some e \<Rightarrow> Inl e
          | None \<Rightarrow> Inr ())"

definition paths_from_env :: "(string \<Rightarrow> string option) \<Rightarrow> config_error + self_service_paths" where
  "paths_from_env env =
     (let p = \<lparr>sp_login = env_or env ''SELF_SERVICE_LOGIN_PATH'' (sp_login default_paths),
               sp_registration = env_or env ''SELF_SERVICE_REGISTRATION_PATH'' (sp_registration default_paths),
               sp_settings = env_or env ''SELF_SERVICE_SETTINGS_PATH'' (sp_settings default_paths),
               sp_recovery = env_or env ''SELF_SERVICE_RECOVERY_PATH'' (sp_recovery default_paths),
               sp_verification = env_or env ''SELF_SERVICE_VERIFICATION_PATH'' (sp_verification default_paths),
               sp_logout = env_or env ''SELF_SERVICE_LOGOUT_PATH'' (sp_logout default_paths),
               sp_errors = env_or env ''SELF_SERVICE_ERRORS_PATH'' (sp_errors default_paths),
               sp_oidc_callback = env_or env ''SELF_SERVICE_OIDC_CALLBACK_PATH'' (sp_oidc_callback default_paths),
               sp_webauthn_js = env_or env ''SELF_SERVICE_WEBAUTHN_JS_PATH'' (sp_webauthn_js default_paths)\<rparr>
      in case validate_paths p of Inl e \<Rightarrow> Inl e | Inr _ \<Rightarrow> Inr p)"

section \<open>The path table\<close>

definition kratos_table :: "self_service_paths \<Rightarrow> (string \<times> string) list" where
  "kratos_table p =
     [(''/self-service/login/browser'', sp_login p),
      (''/self-service/registration/browser'', sp_registration p),
      (''/self-service/settings/browser'', sp_settings p),
      (''/self-service/recovery/browser'', sp_recovery p),
      (''/self-service/verification/browser'', sp_verification p),
      (''/self-service/logout/browser'', sp_logout p),
      (''/self-service/recovery'', sp_recovery p),
      (''/self-service/verification'', sp_verification p),
      (''/self-service/logout'', sp_logout p),
      (''/self-service/errors'', sp_errors p),
      (''/self-service/methods/oidc/callback'', sp_oidc_callback p),
      (''/.well-known/ory/webauthn.js'', sp_webauthn_js p)]"

definition match_prefix :: "string \<Rightarrow> string \<Rightarrow> string option" where
  "match_prefix path prefix =
     (if path = prefix then Some []
      else case strip_prefix prefix path of
        None \<Rightarrow> None
      | Some suffix \<Rightarrow> if starts_with suffix ''/'' then Some suffix else None)"

definition gateway_path_for_kratos :: "self_service_paths \<Rightarrow> string \<Rightarrow> string option" where
  "gateway_path_for_kratos p kratos_path =
     find_map (\<lambda>(kratos, gateway). map_option (\<lambda>suffix. gateway @ suffix) (match_prefix kratos_path kratos))
       (kratos_table p)"

definition kratos_path_for_gateway :: "self_service_paths \<Rightarrow> string \<Rightarrow> string option" where
  "kratos_path_for_gateway p gateway_path =
     find_map (\<lambda>(kratos, gateway). map_option (\<lambda>suffix. kratos @ suffix) (match_prefix gateway_path gateway))
       (kratos_table p)"

definition is_browser_path :: "self_service_paths \<Rightarrow> string \<Rightarrow> bool" where
  "is_browser_path p path \<longleftrightarrow> kratos_path_for_gateway p path \<noteq> None"

section \<open>URLs\<close>

definition rewrite_url :: "string \<Rightarrow> string \<Rightarrow> string \<Rightarrow> string" where
  "rewrite_url url kratos_public_url gateway_url =
     (case strip_prefix (trim_end_matches (CHR ''/'') kratos_public_url) url of
        Some suffix \<Rightarrow> trim_end_matches (CHR ''/'') gateway_url @ suffix
      | None \<Rightarrow> url)"

fun rewrite_json_urls :: "string \<Rightarrow> string \<Rightarrow> json \<Rightarrow> json" where
  "rewrite_json_urls k g (JObj kvs) = JObj (map (\<lambda>(name, v). (name, rewrite_json_urls k g v)) kvs)"
| "rewrite_json_urls k g (JArr vs) = JArr (map (rewrite_json_urls k g) vs)"
| "rewrite_json_urls k g (JStr s) = JStr (rewrite_url s k g)"
| "rewrite_json_urls k g v = v"

definition rewrite_self_service_path :: "string \<Rightarrow> string \<Rightarrow> string" where
  "rewrite_self_service_path path gateway_url = trim_end_matches (CHR ''/'') gateway_url @ path"

definition NESTED_URL_PARAMS :: "string list" where
  "NESTED_URL_PARAMS = [''return_to'', ''redirect_uri'']"

text \<open>What the code reads of a parsed URL, and the form codec.\<close>

record url_parts =
  u_path :: string
  u_query :: "string option"
  u_fragment :: "string option"

record url_lib =
  ul_parse :: "string \<Rightarrow> url_parts option"
  ul_form_parse :: "string \<Rightarrow> (string \<times> string) list"
  ul_form_serialize :: "(string \<times> string) list \<Rightarrow> string"

fun collect_options :: "('a \<times> 'b option) list \<Rightarrow> ('a \<times> 'b) list option" where
  "collect_options [] = Some []"
| "collect_options ((k, v) # rest) =
     (case v of None \<Rightarrow> None | Some y \<Rightarrow> map_option ((#) (k, y)) (collect_options rest))"

fun rewrite_browser_url ::
  "nat \<Rightarrow> url_lib \<Rightarrow> self_service_paths \<Rightarrow> string \<Rightarrow> string \<Rightarrow> string \<Rightarrow> string option" where
  "rewrite_browser_url 0 lib p url kratos_public_url gateway_url = None"
| "rewrite_browser_url (Suc fuel) lib p url kratos_public_url gateway_url =
     (let kratos_prefix = trim_end_matches (CHR ''/'') kratos_public_url;
          gateway_prefix = trim_end_matches (CHR ''/'') gateway_url
      in if \<not> starts_with url kratos_prefix \<and> \<not> starts_with url gateway_prefix then Some url
         else case ul_parse lib url of
           None \<Rightarrow> Some url
         | Some parsed \<Rightarrow>
             case gateway_path_for_kratos p (u_path parsed) of
               None \<Rightarrow> Some url
             | Some branded \<Rightarrow>
                 let fragment = (case u_fragment parsed of None \<Rightarrow> [] | Some f \<Rightarrow> ''#'' @ f)
                 in case u_query parsed of
                      None \<Rightarrow> Some (gateway_prefix @ branded @ fragment)
                    | Some query \<Rightarrow>
                        map_option (\<lambda>pairs. gateway_prefix @ branded @ ''?'' @ ul_form_serialize lib pairs @ fragment)
                          (collect_options (map (\<lambda>(key, value).
                             (key, if key \<in> set NESTED_URL_PARAMS
                                   then rewrite_browser_url fuel lib p value kratos_prefix gateway_prefix
                                   else Some value))
                             (ul_form_parse lib query))))"

definition rewrite_gateway_facing_url ::
  "nat \<Rightarrow> url_lib \<Rightarrow> self_service_paths \<Rightarrow> string \<Rightarrow> string \<Rightarrow> string \<Rightarrow> string option" where
  "rewrite_gateway_facing_url fuel lib p url kratos_public_url gateway_url =
     map_option (\<lambda>u. rewrite_url u kratos_public_url gateway_url)
       (rewrite_browser_url fuel lib p url kratos_public_url gateway_url)"


section \<open>Matching\<close>

lemma match_prefix_Some:
  "match_prefix path prefix = Some suffix \<longleftrightarrow>
     path = prefix @ suffix \<and> (suffix = [] \<or> starts_with suffix ''/'')"
proof (cases "path = prefix")
  case True
  then show ?thesis by (auto simp: match_prefix_def)
next
  case False
  then show ?thesis
    by (auto simp: match_prefix_def strip_prefix_Some split: option.splits if_splits)
       (metis strip_prefix_Some option.inject option.distinct(1))+
qed

text \<open>\<open>under path prefix\<close>: \<open>path\<close> is \<open>prefix\<close> or lies below it at a segment boundary.\<close>

definition under :: "string \<Rightarrow> string \<Rightarrow> bool" where
  "under path prefix \<longleftrightarrow> path = prefix \<or> starts_with path (prefix @ ''/'')"

lemma under_match: "under path prefix \<longleftrightarrow> match_prefix path prefix \<noteq> None"
proof -
  have "match_prefix path prefix \<noteq> None \<longleftrightarrow>
      (\<exists>suffix. path = prefix @ suffix \<and> (suffix = [] \<or> starts_with suffix ''/''))"
    using match_prefix_Some by (metis not_None_eq)
  then show ?thesis by (auto simp: under_def starts_with_iff)
qed

lemma under_trans: "under a b \<Longrightarrow> under b c \<Longrightarrow> under a c"
  by (auto simp: under_def starts_with_iff)

text \<open>Two prefixes of one path are comparable.\<close>

lemma under_comparable:
  assumes "under x a" and "under x b" and "length a \<le> length b"
  shows "under b a"
proof -
  obtain s where a: "x = a @ s" "s = [] \<or> starts_with s ''/''"
    using assms(1) by (auto simp: under_match match_prefix_Some)
  obtain t where b: "x = b @ t" using assms(2) by (auto simp: under_match match_prefix_Some)
  with a assms(3) obtain u where u: "b = a @ u" "s = u @ t"
    by (auto simp: append_eq_append_conv2)
  then have "u = [] \<or> starts_with u ''/''"
    using a(2) by (cases u) (auto simp: starts_with_def)
  then show ?thesis using u by (simp add: under_match match_prefix_Some)
qed

lemma validate_paths_ok:
  assumes "validate_paths p = Inr ()" and "(var, path) \<in> set (path_vars p)"
  shows "path_ok (var, path) = None"
proof -
  have "find_map path_ok (path_vars p) = None"
    using assms(1) by (auto simp: validate_paths_def split: option.splits)
  then show ?thesis using assms(2) by (auto simp: find_map_None)
qed

lemma path_ok_unreserved:
  "path_ok (var, path) = None \<Longrightarrow> prefix \<in> set RESERVED_PREFIXES \<Longrightarrow> \<not> under path prefix"
  by (auto simp: path_ok_def under_def split: if_splits)

lemma path_ok_shape: "path_ok (var, path) = None \<Longrightarrow> \<exists>rest. path = CHR ''/'' # rest \<and> rest \<noteq> []"
  by (cases path) (auto simp: path_ok_def starts_with_def split: if_splits)

lemma table_paths: "snd ` set (kratos_table p) \<subseteq> snd ` set (path_vars p)"
  by (simp add: kratos_table_def path_vars_def)

lemma table_path_var:
  assumes "(k, g) \<in> set (kratos_table p)"
  shows "\<exists>var. (var, g) \<in> set (path_vars p)"
proof -
  have "g \<in> snd ` set (path_vars p)" using assms table_paths by force
  then show ?thesis by auto
qed

lemma paths_distinct_None:
  "paths_distinct oidc vs = None \<Longrightarrow> distinct (map snd vs)
    \<and> (\<forall>(var, path) \<in> set vs. path = oidc \<or> \<not> starts_with path (oidc @ ''/''))"
proof (induction oidc vs rule: paths_distinct.induct)
  case (1 oidc)
  then show ?case by simp
next
  case (2 oidc var path rest)
  then have none: "find (\<lambda>(_, other). path = other) rest = None"
    and rest: "paths_distinct oidc rest = None"
    and "path = oidc \<or> \<not> starts_with path (oidc @ ''/'')"
    by (auto split: option.splits if_splits)
  moreover have "path \<notin> snd ` set rest" using none by (force simp: find_None_iff)
  ultimately show ?case using 2(1) by auto
qed


lemma is_browser_path_iff:
  "is_browser_path p path \<longleftrightarrow> (\<exists>(k, g) \<in> set (kratos_table p). under path g)"
proof -
  have "is_browser_path p path \<longleftrightarrow> \<not> (\<forall>x \<in> set (kratos_table p).
      (\<lambda>(k, g). map_option (\<lambda>suffix. k @ suffix) (match_prefix path g)) x = None)"
    unfolding is_browser_path_def kratos_path_for_gateway_def find_map_None [symmetric] by simp
  also have "\<dots> \<longleftrightarrow> (\<exists>(k, g) \<in> set (kratos_table p). under path g)"
    unfolding under_match by fastforce
  finally show ?thesis .
qed

text \<open>Paths none of which lies under another one.\<close>

definition unnested :: "self_service_paths \<Rightarrow> bool" where
  "unnested p \<longleftrightarrow> (\<forall>a \<in> snd ` set (path_vars p). \<forall>b \<in> snd ` set (path_vars p). under a b \<longrightarrow> a = b)"

lemma match_self: "suffix = [] \<or> starts_with suffix ''/'' \<Longrightarrow> match_prefix (k @ suffix) k = Some suffix"
  by (simp add: match_prefix_Some)

text \<open>The routes the gateway side of the table can name: its first entry for each path.\<close>

definition primary_routes :: "self_service_paths \<Rightarrow> (string \<times> string) list" where
  "primary_routes p = take 6 (kratos_table p) @ drop 9 (kratos_table p)"

lemma primary_gateway:
  assumes "(k, g) \<in> set (primary_routes p)" and "suffix = [] \<or> starts_with suffix ''/''"
  shows "gateway_path_for_kratos p (k @ suffix) = Some (g @ suffix)"
  using assms(1)
  by (simp add: primary_routes_def kratos_table_def,
      elim disjE conjE;
      hypsubst;
      simp only: gateway_path_for_kratos_def kratos_table_def find_map.simps split_conv
        match_self [OF assms(2)];
      simp add: match_prefix_def strip_prefix_def starts_with_def)


lemma gateway_side:
  assumes "kratos_path_for_gateway p x = Some kp"
  shows "\<exists>k g suffix. (k, g) \<in> set (primary_routes p) \<and> x = g @ suffix \<and> kp = k @ suffix
    \<and> (suffix = [] \<or> starts_with suffix ''/'')"
proof -
  let ?f = "\<lambda>(k, g). map_option (\<lambda>suffix. k @ suffix) (match_prefix x g)"
  have "find_map ?f (kratos_table p) = find_map ?f (primary_routes p)"
    by (simp add: kratos_table_def primary_routes_def split: option.splits)
  then have "find_map ?f (primary_routes p) = Some kp"
    using assms by (simp add: kratos_path_for_gateway_def)
  from find_map_SomeD [OF this] obtain k g where kg: "(k, g) \<in> set (primary_routes p)"
    and "map_option (\<lambda>suffix. k @ suffix) (match_prefix x g) = Some kp" by auto
  then obtain suffix where "match_prefix x g = Some suffix" "kp = k @ suffix" by auto
  then show ?thesis using kg by (auto simp: match_prefix_Some)
qed

lemma primary_subset: "set (primary_routes p) \<subseteq> set (kratos_table p)"
  by (auto simp: primary_routes_def dest: in_set_takeD in_set_dropD)

lemma unnested_first:
  assumes "unnested p" and "distinct (map snd (path_vars p))"
    and "(k, g) \<in> set (primary_routes p)" and "under x g"
    and "(k', g') \<in> set (primary_routes p)" and "under x g'"
  shows "g' = g"
proof -
  have "g \<in> snd ` set (path_vars p)" and "g' \<in> snd ` set (path_vars p)"
    using assms(3,5) primary_subset table_paths by force+
  moreover have "under g g' \<or> under g' g"
    using under_comparable [OF assms(4,6)] under_comparable [OF assms(6,4)] by linarith
  ultimately show ?thesis using assms(1) unfolding unnested_def by metis
qed

section \<open>Rewriting terminates\<close>

text \<open>
  What the URL library is relied on for: a URL is longer than its query, and percent
  decoding makes nothing longer.
\<close>

definition url_lib_ok :: "url_lib \<Rightarrow> bool" where
  "url_lib_ok lib \<longleftrightarrow>
     (\<forall>url parsed q. ul_parse lib url = Some parsed \<longrightarrow> u_query parsed = Some q \<longrightarrow> length q < length url)
     \<and> (\<forall>q. \<forall>(k, v) \<in> set (ul_form_parse lib q). length v \<le> length q)"

lemma collect_options_total: "(\<And>k v. (k, v) \<in> set xs \<Longrightarrow> v \<noteq> None) \<Longrightarrow> collect_options xs \<noteq> None"
proof (induction xs)
  case (Cons x xs)
  obtain k v where x: "x = (k, v)" by fastforce
  then obtain y where "v = Some y" using Cons.prems [of k v] by auto
  moreover have "collect_options xs \<noteq> None"
    by (rule Cons.IH) (use Cons.prems in auto)
  ultimately show ?case by (auto simp: x)
qed simp

lemma rewrite_enough_fuel:
  assumes "url_lib_ok lib"
  shows "length url < fuel \<Longrightarrow> rewrite_browser_url fuel lib p url k g \<noteq> None"
proof (induction fuel arbitrary: url k g)
  case 0
  then show ?case by simp
next
  case (Suc fuel)
  have nested: "collect_options (map (\<lambda>(key, value). (key,
      if key \<in> set NESTED_URL_PARAMS then rewrite_browser_url fuel lib p value k' g' else Some value))
      (ul_form_parse lib q)) \<noteq> None"
    if "ul_parse lib url = Some parsed" "u_query parsed = Some q" for parsed q k' g'
  proof (rule collect_options_total)
    fix key v
    assume "(key, v) \<in> set (map (\<lambda>(key, value). (key,
      if key \<in> set NESTED_URL_PARAMS then rewrite_browser_url fuel lib p value k' g' else Some value))
      (ul_form_parse lib q))"
    then obtain u where val: "(key, u) \<in> set (ul_form_parse lib q)"
      and v: "v = (if key \<in> set NESTED_URL_PARAMS then rewrite_browser_url fuel lib p u k' g' else Some u)"
      by auto
    have "length u \<le> length q" "length q < length url"
      using assms that val by (auto simp: url_lib_ok_def)
    then have "rewrite_browser_url fuel lib p u k' g' \<noteq> None" using Suc by simp
    then show "v \<noteq> None" by (simp add: v)
  qed
  then show ?case by (auto simp: Let_def split: option.splits)
qed

section \<open>Properties\<close>

text \<open>
  Skipping authentication is confined: with a validated configuration, no path under a
  prefix reserved for the gateway's own surfaces (OAuth2, SAML, SCIM, callbacks, discovery,
  health, the email-link shim) is ever taken for a branded browser path, which the
  authentication middleware lets through.
\<close>

theorem browser_paths_unreserved:
  assumes "validate_paths p = Inr ()" and "is_browser_path p path"
    and "prefix \<in> set RESERVED_PREFIXES"
  shows "\<not> under path prefix"
proof
  assume u: "under path prefix"
  obtain k g var where g: "(k, g) \<in> set (kratos_table p)" "under path g" "(var, g) \<in> set (path_vars p)"
    using assms(2) table_path_var by (fastforce simp: is_browser_path_iff)
  note ok = validate_paths_ok [OF assms(1) g(3)]
  obtain c rest where gs: "g = CHR ''/'' # c # rest" using path_ok_shape [OF ok] by (auto simp: neq_Nil_conv)
  have "under g prefix \<or> under prefix g"
    using under_comparable [OF g(2) u] under_comparable [OF u g(2)] by linarith
  moreover have "under prefix g \<Longrightarrow> prefix = g"
    using assms(3) by (auto simp: under_def starts_with_iff gs RESERVED_PREFIXES_def append_eq_Cons_conv)
  ultimately show False using path_ok_unreserved [OF ok assms(3)] by (auto simp: under_def)
qed

theorem browser_paths_unreserved_witness:
  "is_browser_path default_paths ''/identity/login'' \<and> \<not> under ''/identity/login'' ''/oauth2''"
proof -
  have "validate_paths default_paths = Inr ()" by code_simp
  moreover have "is_browser_path default_paths ''/identity/login''" by code_simp
  ultimately show ?thesis
    using browser_paths_unreserved [of default_paths "''/identity/login''" "''/oauth2''"]
    by (simp add: RESERVED_PREFIXES_def)
qed

text \<open>
  Round trip of the branded surface: translating a gateway path to the Kratos path and
  rewriting that back gives the gateway path again, suffix included, for every
  configuration.
\<close>

theorem branded_path_roundtrip:
  assumes "kratos_path_for_gateway p x = Some kp"
  shows "gateway_path_for_kratos p kp = Some x"
  using gateway_side [OF assms] primary_gateway by blast

theorem branded_path_roundtrip_witness:
  "kratos_path_for_gateway default_paths ''/identity/oidc/callback/google''
     = Some ''/self-service/methods/oidc/callback/google''
   \<and> gateway_path_for_kratos default_paths ''/self-service/methods/oidc/callback/google''
     = Some ''/identity/oidc/callback/google''"
proof -
  have "kratos_path_for_gateway default_paths ''/identity/oidc/callback/google''
     = Some ''/self-service/methods/oidc/callback/google''" by code_simp
  from this branded_path_roundtrip [OF this] show ?thesis by simp
qed

text \<open>
  Where no configured path lies under another, every branded path (with any suffix at a
  segment boundary) is proxied to its own Kratos route.
\<close>

theorem branded_paths_reach_their_route:
  assumes "unnested p" and "validate_paths p = Inr ()" and "(k, g) \<in> set (primary_routes p)"
    and "suffix = [] \<or> starts_with suffix ''/''"
  shows "kratos_path_for_gateway p (g @ suffix) = Some (k @ suffix)"
proof -
  have dist: "distinct (map snd (path_vars p))"
    using assms(2) paths_distinct_None [of "sp_oidc_callback p" "path_vars p"]
    by (auto simp: validate_paths_def split: option.splits)
  have here: "under (g @ suffix) g" using match_self [OF assms(4), of g] by (simp add: under_match)
  have "is_browser_path p (g @ suffix)"
    using assms(3) primary_subset here by (fastforce simp: is_browser_path_iff)
  then obtain kp where kp: "kratos_path_for_gateway p (g @ suffix) = Some kp"
    by (auto simp: is_browser_path_def)
  from gateway_side [OF kp] obtain k' g' s' where r: "(k', g') \<in> set (primary_routes p)"
    "g @ suffix = g' @ s'" "kp = k' @ s'" "s' = [] \<or> starts_with s' ''/''" by blast
  have "under (g @ suffix) g'" using r(2) match_self [OF r(4), of g'] by (simp add: under_match)
  then have "g' = g" using unnested_first [OF assms(1) dist assms(3) here r(1)] by simp
  moreover have "distinct (map snd (primary_routes p))"
    using dist by (auto simp: path_vars_def primary_routes_def kratos_table_def)
  ultimately have "k' = k" and "s' = suffix"
    using r(1,2) assms(3) by (fastforce simp: distinct_map inj_on_def)+
  then show ?thesis using kp r(3) by simp
qed

theorem branded_paths_reach_their_route_witness:
  "kratos_path_for_gateway default_paths (''/identity/settings'' @ []) = Some (''/self-service/settings/browser'' @ [])"
proof -
  have "unnested default_paths" by code_simp
  moreover have "validate_paths default_paths = Inr ()" by code_simp
  moreover have "(''/self-service/settings/browser'', ''/identity/settings'') \<in> set (primary_routes default_paths)"
    by (simp add: primary_routes_def kratos_table_def default_paths_def)
  ultimately show ?thesis
    using branded_paths_reach_their_route [of default_paths "''/self-service/settings/browser''"
        "''/identity/settings''" "[]"] by blast
qed

text \<open>
  Validation does not rule nesting out, except below the OIDC callback: a configuration
  that puts the settings path below the login path is accepted, and the settings path is
  then proxied to a login route that does not exist.
\<close>

theorem nested_path_accepted:
  "\<exists>p. validate_paths p = Inr () \<and> sp_settings p = ''/account/settings''
     \<and> kratos_path_for_gateway p (sp_settings p) = Some ''/self-service/login/browser/settings''"
proof -
  let ?p = "default_paths\<lparr>sp_login := ''/account'', sp_settings := ''/account/settings''\<rparr>"
  have "validate_paths ?p = Inr ()" by code_simp
  moreover have "kratos_path_for_gateway ?p (sp_settings ?p) = Some ''/self-service/login/browser/settings''"
    by code_simp
  ultimately show ?thesis by (intro exI [of _ ?p]) simp
qed

text \<open>
  Rewriting a URL that Kratos emits always returns, for any nesting of URLs in its query,
  and when neither base URL is a prefix of the other the result never points at the Kratos
  endpoint.
\<close>

theorem rewritten_url_hides_kratos:
  assumes "url_lib_ok lib" and "length url < fuel"
    and "\<not> starts_with (trim_end_matches (CHR ''/'') gateway) (trim_end_matches (CHR ''/'') kratos)"
    and "\<not> starts_with (trim_end_matches (CHR ''/'') kratos) (trim_end_matches (CHR ''/'') gateway)"
  shows "\<exists>r. rewrite_gateway_facing_url fuel lib p url kratos gateway = Some r
    \<and> \<not> starts_with r (trim_end_matches (CHR ''/'') kratos)"
proof -
  let ?k = "trim_end_matches (CHR ''/'') kratos" and ?g = "trim_end_matches (CHR ''/'') gateway"
  obtain u where u: "rewrite_browser_url fuel lib p url kratos gateway = Some u"
    using rewrite_enough_fuel [OF assms(1,2)] by blast
  have "\<not> starts_with (rewrite_url u kratos gateway) ?k"
  proof (cases "strip_prefix ?k u")
    case None
    then show ?thesis by (auto simp: rewrite_url_def strip_prefix_def split: if_splits)
  next
    case (Some suffix)
    have "\<not> starts_with (?g @ suffix) ?k"
      using assms(3,4) by (auto simp: starts_with_iff append_eq_append_conv2) metis+
    then show ?thesis by (simp add: rewrite_url_def Some)
  qed
  then show ?thesis using u by (auto simp: rewrite_gateway_facing_url_def)
qed

theorem rewritten_url_hides_kratos_witness:
  "\<exists>r. rewrite_gateway_facing_url 30 \<lparr>ul_parse = (\<lambda>_. None), ul_form_parse = (\<lambda>_. []),
        ul_form_serialize = (\<lambda>_. [])\<rparr> default_paths ''http://kratos/x'' ''http://kratos/'' ''https://sso'' = Some r
    \<and> \<not> starts_with r ''http://kratos''"
proof -
  let ?lib = "\<lparr>ul_parse = (\<lambda>_. None), ul_form_parse = (\<lambda>_. []), ul_form_serialize = (\<lambda>_. [])\<rparr>"
  have "url_lib_ok ?lib" by (simp add: url_lib_ok_def)
  from rewritten_url_hides_kratos [OF this, of "''http://kratos/x''" 30 "''https://sso''" "''http://kratos/''" default_paths]
  show ?thesis by (simp add: trim_end_matches_def starts_with_def)
qed

end
