(* ===== verification/Middleware.thy ===== *)
theory Middleware
  imports AgentTokens SelfServicePaths
begin

text \<open>
  The authentication and audit layers of \<^verbatim>\<open>middleware.rs\<close>, and the order in which
  \<^verbatim>\<open>app.rs\<close> stacks them. \<open>auth_deps\<close> holds what the middleware takes from the request
  extensions (the trait objects as operations on the state, the session signer, the
  branded paths), and \<open>gateway_deps\<close> fills it with the gateway's own stores. A handler
  (\<^verbatim>\<open>Next\<close>) is a function from requests and states to responses and states. \<^verbatim>\<open>ulid\<close>'s
  parser is a parameter.
\<close>

section \<open>Requests and responses\<close>

record http_response =
  resp_status :: nat
  resp_body :: string

datatype auth_outcome = Success | Failure

record request =
  rq_method :: string
  rq_path :: string
  rq_headers :: header_map
  rq_ctx :: request_context
  rq_outcome :: "auth_outcome option"

type_synonym 's handler = "request \<Rightarrow> 's \<Rightarrow> http_response \<times> 's"

definition TENANT_ID_HEADER :: string where "TENANT_ID_HEADER = ''x-tenant-id''"
definition SESSION_COOKIE_NAME :: string where "SESSION_COOKIE_NAME = ''__Host-sso_session''"

record 's auth_deps =
  d_crypto :: crypto
  d_now :: "'s \<Rightarrow> instant"
  d_ulid_ok :: "string \<Rightarrow> bool"
  d_introspect :: "string \<Rightarrow> ('s, auth_error, introspection_result) io"
  d_get_tenant :: "string \<Rightarrow> string \<Rightarrow> ('s, db_error, string option) io"
  d_get_public :: "string \<Rightarrow> string \<Rightarrow> ('s, db_error, string) io"
  d_session_signer :: session_token_signer
  d_is_active :: "string \<Rightarrow> ('s, db_error, bool) io"
  d_get_application :: "(string \<Rightarrow> ('s, db_error, application_row) io) option"
  d_agent_resolver :: "((string \<Rightarrow> ('s, db_error, act_token_resolution option) io)
                        \<times> (string \<Rightarrow> ('s, db_error, string option) io)) option"
  d_paths :: "self_service_paths option"

definition auth_error_response :: "nat \<Rightarrow> http_response" where
  "auth_error_response status =
     (let message = (if status = 500 then ''internal server error''
                     else if status = 503 then ''service unavailable'' else ''unauthorized'')
      in \<lparr>resp_status = status,
          resp_body = [CHR ''{'', CHR 0x22] @ ''error'' @ [CHR 0x22, CHR '':'', CHR 0x22] @ message
            @ [CHR 0x22, CHR ''}'']\<rparr>)"

section \<open>Public paths and the session cookie\<close>

definition is_public_path :: "string \<Rightarrow> bool" where
  "is_public_path path \<longleftrightarrow>
     path \<in> set [''/.well-known/openid-configuration'', ''/.well-known/jwks.json'',
       ''/oauth2/auth'', ''/oauth2/token'', ''/oauth2/revoke'', ''/oauth2/userinfo'', ''/userinfo'',
       ''/oauth2/register'', ''/oauth2/introspect'',
       ''/saml/metadata'', ''/saml/acs'', ''/saml/sso'', ''/callbacks/oidc'', ''/callbacks/oauth2'',
       ''/scim/v2/ServiceProviderConfig'', ''/scim/v2/ResourceTypes'', ''/scim/v2/Schemas'',
       ''/self-service/recovery'', ''/self-service/verification'',
       ''/health'', ''/health/ready'', ''/health/live'']
     \<or> starts_with path ''/oauth2/device/'' \<or> starts_with path ''/oauth2/register/''"

definition session_cookie :: "header_map \<Rightarrow> string option" where
  "session_cookie headers =
     (let joined = join_with ''; '' (h_all headers ''cookie'')
      in if joined = [] then None
         else find_map (\<lambda>cookie. case split_once (CHR ''='') (trim cookie) of
                None \<Rightarrow> None
              | Some (name, v) \<Rightarrow> if name = SESSION_COOKIE_NAME then Some v else None)
              (split_on (CHR '';'') joined))"

section \<open>Authentication\<close>

definition authenticate_session_cookie ::
  "('s, 'z) auth_deps_scheme \<Rightarrow> string \<Rightarrow> ('s, http_response, auth_context) io" where
  "authenticate_session_cookie d cookie =
     bindE (gets (d_now d)) (\<lambda>now.
     case session_verify (d_crypto d) (d_session_signer d) now cookie of
       Inl _ \<Rightarrow> raise (auth_error_response 401)
     | Inr claims \<Rightarrow>
         bindE (map_err (\<lambda>_. auth_error_response 500) (d_is_active d (sc_sid claims))) (\<lambda>active.
         if \<not> active then raise (auth_error_response 401)
         else ret (build_auth_context (d_crypto d) (sc_tenant_id claims) (sc_sub claims) User None
                     [] [] cookie)))"

fun introspection_status :: "auth_error \<Rightarrow> nat" where
  "introspection_status (IntrospectionFailed _) = 503"
| "introspection_status (AuthDatabase _) = 500"
| "introspection_status _ = 401"

fun subject_status :: "auth_error \<Rightarrow> nat" where
  "subject_status UnknownSubject = 401"
| "subject_status _ = 500"

text \<open>The subject type of a Hydra subject: an agent unless it is unknown to the agent registry.\<close>

definition hydra_subject_type ::
  "('s, 'z) auth_deps_scheme \<Rightarrow> string \<Rightarrow> ('s, http_response, subject_type) io" where
  "hydra_subject_type d public_subject =
     (case d_agent_resolver d of
        None \<Rightarrow> ret Client
      | Some (_, status_of) \<Rightarrow>
          attempt (status_of public_subject) (\<lambda>r. case r of
              Inl _ \<Rightarrow> raise (auth_error_response 500)
            | Inr s \<Rightarrow> (case s of
                None \<Rightarrow> ret Client
              | Some status \<Rightarrow> if status \<noteq> agent_status_active then raise (auth_error_response 401)
                               else ret Agent)))"

definition authenticate_hydra_token ::
  "('s, 'z) auth_deps_scheme \<Rightarrow> string \<Rightarrow> ('s, http_response, auth_context) io" where
  "authenticate_hydra_token d token =
     bindE (map_err (\<lambda>e. auth_error_response (introspection_status e)) (d_introspect d token))
       (\<lambda>introspection.
     if \<not> ir_active introspection then raise (auth_error_response 401)
     else case ir_sub introspection of
       None \<Rightarrow> raise (auth_error_response 500)
     | Some subject \<Rightarrow>
         bindE (map_err (\<lambda>e. auth_error_response (subject_status e))
                  (resolve_subject (d_get_tenant d) (d_get_public d) subject))
           (\<lambda>(tenant_id, public_subject, backend).
         bindE (case backend of Kratos \<Rightarrow> ret User | Hydra \<Rightarrow> hydra_subject_type d public_subject)
           (\<lambda>subject_type.
         ret (build_auth_context (d_crypto d) tenant_id public_subject subject_type None
                (ir_scope introspection) (ir_authentication_methods introspection) token))))"

definition act_token_context :: "crypto \<Rightarrow> act_token_resolution \<Rightarrow> string \<Rightarrow> auth_context" where
  "act_token_context c res token =
     build_auth_context c (ar_tenant_id res) (ar_user_identity_id res) User
       (Some \<lparr>act_agent_id = ar_agent_id res, act_delegation_id = ar_delegation_id res\<rparr>)
       (ar_scopes res) [] token"

definition authenticate_bearer_token ::
  "('s, 'z) auth_deps_scheme \<Rightarrow> string \<Rightarrow> ('s, http_response, auth_context) io" where
  "authenticate_bearer_token d token =
     (case d_agent_resolver d of
        None \<Rightarrow> authenticate_hydra_token d token
      | Some (resolve, _) \<Rightarrow>
          attempt (resolve token) (\<lambda>r. case r of
              Inl _ \<Rightarrow> raise (auth_error_response 500)
            | Inr res \<Rightarrow> (case res of
                Some resolution \<Rightarrow> ret (act_token_context (d_crypto d) resolution token)
              | None \<Rightarrow> authenticate_hydra_token d token)))"

definition resolve_target_tenant ::
  "('s, 'z) auth_deps_scheme \<Rightarrow> auth_context \<Rightarrow> header_map \<Rightarrow> 's \<Rightarrow> string \<times> 's" where
  "resolve_target_tenant d ctx headers s =
     (if ac_subject_type ctx \<noteq> Client then (ac_tenant_id ctx, s)
      else case h_get headers TENANT_ID_HEADER of
        None \<Rightarrow> (ac_tenant_id ctx, s)
      | Some header_value \<Rightarrow>
          if \<not> d_ulid_ok d header_value then (ac_tenant_id ctx, s)
          else case d_get_application d of
            None \<Rightarrow> (ac_tenant_id ctx, s)
          | Some get_by_public_id \<Rightarrow>
              case get_by_public_id (ac_subject ctx) s of
                (Inr row, t) \<Rightarrow> (if ap_cross_tenant row then header_value else ac_tenant_id ctx, t)
              | (Inl _, t) \<Rightarrow> (ac_tenant_id ctx, t))"

definition request_credentials ::
  "('s, 'z) auth_deps_scheme \<Rightarrow> header_map \<Rightarrow> ('s, http_response, auth_context) io" where
  "request_credentials d headers =
     (case bearer_token headers of
        Some token \<Rightarrow> authenticate_bearer_token d token
      | None \<Rightarrow> (case session_cookie headers of
          Some cookie \<Rightarrow> authenticate_session_cookie d cookie
        | None \<Rightarrow> raise (auth_error_response 401)))"

definition bypasses_auth :: "('s, 'z) auth_deps_scheme \<Rightarrow> request \<Rightarrow> bool" where
  "bypasses_auth d req \<longleftrightarrow>
     (case d_paths d of Some p \<Rightarrow> is_browser_path p (rq_path req) | None \<Rightarrow> False)
     \<or> (is_public_path (rq_path req)
        \<and> (\<not> (rq_path req = ''/oauth2/introspect'' \<or> rq_path req = ''/oauth2/register'')
           \<or> bearer_token (rq_headers req) = None))"

definition auth_middleware :: "('s, 'z) auth_deps_scheme \<Rightarrow> 's handler \<Rightarrow> 's handler" where
  "auth_middleware d next_handler req s =
     (if bypasses_auth d req then next_handler req s
      else case request_credentials d (rq_headers req) s of
        (Inl resp, t) \<Rightarrow> (resp, t)
      | (Inr ctx, t) \<Rightarrow>
          (case resolve_target_tenant d ctx (rq_headers req) t of
             (target_tenant, u) \<Rightarrow>
               next_handler (req\<lparr>rq_ctx := \<lparr>rx_auth = Some ctx, rx_tenant = Some target_tenant\<rparr>,
                                 rq_outcome := Some Success\<rparr>) u))"

section \<open>Audit\<close>

record audit_event =
  ev_tenant_id :: "string option"
  ev_target_tenant :: "string option"
  ev_cross_tenant :: bool
  ev_actor :: "string option"
  ev_subject_type :: "string option"
  ev_agent :: "string option"
  ev_action :: string
  ev_resource :: string
  ev_outcome :: string
  ev_status :: nat

definition audit_event_of :: "request \<Rightarrow> nat \<Rightarrow> audit_event" where
  "audit_event_of req status =
     (let auth = rx_auth (rq_ctx req);
          auth_tenant = map_option ac_tenant_id auth;
          target = rx_tenant (rq_ctx req);
          cross = (case (auth_tenant, target) of (Some a, Some t) \<Rightarrow> a \<noteq> t | _ \<Rightarrow> False)
      in \<lparr>ev_tenant_id = auth_tenant,
          ev_target_tenant = (if cross then target else None),
          ev_cross_tenant = cross,
          ev_actor = map_option ac_subject auth,
          ev_subject_type = map_option (\<lambda>a. subject_type_str (ac_subject_type a)) auth,
          ev_agent = Option.bind auth (\<lambda>a. map_option act_agent_id (ac_actor a)),
          ev_action = rq_method req, ev_resource = rq_path req,
          ev_outcome = (if 200 \<le> status \<and> status < 300 then ''success'' else ''failure''),
          ev_status = status\<rparr>)"

text \<open>\<open>emit\<close> writes a log event.\<close>

definition audit_middleware :: "(audit_event \<Rightarrow> 's \<Rightarrow> 's) \<Rightarrow> 's handler \<Rightarrow> 's handler" where
  "audit_middleware emit next_handler req s =
     (case next_handler req s of
        (resp, t) \<Rightarrow> (resp, emit (audit_event_of req (resp_status resp)) t))"

text \<open>
  A layer added to an axum router later wraps the ones added before: \<^verbatim>\<open>app.rs\<close> adds the
  audit layer first, so authentication is outside it.
\<close>

definition app_layers :: "('s, 'z) auth_deps_scheme \<Rightarrow> (audit_event \<Rightarrow> 's \<Rightarrow> 's) \<Rightarrow> 's handler \<Rightarrow> 's handler" where
  "app_layers d emit routes = auth_middleware d (audit_middleware emit routes)"

section \<open>The gateway's own stores\<close>

definition gateway_deps ::
  "('c, 'd) authority \<Rightarrow> duration \<Rightarrow> (string \<Rightarrow> (('c, 'd, 'h) world, ory_error, json) io)
    \<Rightarrow> (string \<Rightarrow> bool) \<Rightarrow> session_token_signer \<Rightarrow> self_service_paths
    \<Rightarrow> ('c, 'd, 'h) world auth_deps" where
  "gateway_deps au max_age introspect_token ulid_ok signer paths =
     \<lparr>d_crypto = au_crypto au, d_now = pg_now, d_ulid_ok = ulid_ok,
      d_introspect = cached_introspect (au_crypto au) max_age (hydra_introspect introspect_token),
      d_get_tenant = get_tenant_id_by_ory_id, d_get_public = get_public_id_by_ory_id,
      d_session_signer = signer, d_is_active = session_is_active (au_crypto au),
      d_get_application = Some application_get_by_public_id,
      d_agent_resolver = Some (resolve_act_token au, agent_status au),
      d_paths = Some paths\<rparr>"


section \<open>Lemmas\<close>

lemma auth_error_status [simp]: "resp_status (auth_error_response n) = n"
  by (simp add: auth_error_response_def Let_def)

lemma introspection_status_values: "introspection_status e \<in> {401, 500, 503}"
  by (cases e) simp_all

lemma subject_status_values: "subject_status e \<in> {401, 500, 503}"
  by (cases e) simp_all

text \<open>Every rejection is an error response of one of three statuses.\<close>

definition rejects_cleanly :: "('s, http_response, 'a) io \<Rightarrow> bool" where
  "rejects_cleanly m \<longleftrightarrow> (\<forall>s resp t. m s = (Inl resp, t) \<longrightarrow>
     (\<exists>n \<in> {401, 500, 503}. resp = auth_error_response n))"

lemma rejects_ret: "rejects_cleanly (ret x)"
  by (simp add: rejects_cleanly_def ret_def)

lemma rejects_gets: "rejects_cleanly (gets g)"
  by (simp add: rejects_cleanly_def gets_def)

lemma rejects_raise: "n \<in> {401, 500, 503} \<Longrightarrow> rejects_cleanly (raise (auth_error_response n))"
  by (auto simp: rejects_cleanly_def raise_def)

lemma rejects_map_err:
  "(\<And>e. st e \<in> {401, 500, 503}) \<Longrightarrow> rejects_cleanly (map_err (\<lambda>e. auth_error_response (st e)) m)"
  unfolding rejects_cleanly_def map_err_Inl by blast

lemma rejects_bindE:
  "rejects_cleanly m \<Longrightarrow> (\<And>x. rejects_cleanly (f x)) \<Longrightarrow> rejects_cleanly (bindE m f)"
  unfolding rejects_cleanly_def by (blast elim: bindE_InlE)

lemma rejects_attempt: "(\<And>r. rejects_cleanly (k r)) \<Longrightarrow> rejects_cleanly (attempt m k)"
  unfolding rejects_cleanly_def attempt_eq by blast

lemmas rejects_rules = rejects_ret rejects_gets rejects_raise rejects_map_err rejects_bindE rejects_attempt
  introspection_status_values subject_status_values

lemma hydra_subject_type_rejects: "rejects_cleanly (hydra_subject_type d p)"
  unfolding hydra_subject_type_def
  by (auto simp: rejects_rules intro!: rejects_attempt split: option.splits sum.splits)

lemma authenticate_hydra_rejects: "rejects_cleanly (authenticate_hydra_token d token)"
  unfolding authenticate_hydra_token_def
  by (auto intro!: rejects_bindE rejects_ret rejects_raise hydra_subject_type_rejects
      rejects_map_err [OF introspection_status_values] rejects_map_err [OF subject_status_values]
      split: option.splits subject_backend.splits)

lemma authenticate_bearer_rejects: "rejects_cleanly (authenticate_bearer_token d token)"
  unfolding authenticate_bearer_token_def
  by (auto intro!: rejects_attempt rejects_ret rejects_raise authenticate_hydra_rejects
      split: option.splits sum.splits)

lemma authenticate_cookie_rejects: "rejects_cleanly (authenticate_session_cookie d cookie)"
  unfolding authenticate_session_cookie_def
  by (auto intro!: rejects_bindE rejects_map_err [where st = "\<lambda>_. 500", simplified] rejects_gets
      rejects_ret rejects_raise split: sum.splits)

lemma request_credentials_rejects: "rejects_cleanly (request_credentials d headers)"
  unfolding request_credentials_def
  by (auto intro!: authenticate_bearer_rejects authenticate_cookie_rejects rejects_raise split: option.splits)


section \<open>Properties\<close>


text \<open>
  \<^bold>\<open>C13.\<close> The \<^verbatim>\<open>x-tenant-id\<close> header is honoured only for a machine client whose application is
  flagged cross-tenant, and only when it is a ULID; a user, an agent, an unflagged client, an
  unknown application and a failed lookup all stay in their home tenant.
\<close>

theorem target_tenant_guard:
  assumes "resolve_target_tenant d ctx headers s = (tenant, t)" and "tenant \<noteq> ac_tenant_id ctx"
  shows "ac_subject_type ctx = Client \<and> h_get headers TENANT_ID_HEADER = Some tenant
    \<and> d_ulid_ok d tenant
    \<and> (\<exists>get row. d_get_application d = Some get \<and> get (ac_subject ctx) s = (Inr row, t)
         \<and> ap_cross_tenant row)"
  using assms
  by (auto simp: resolve_target_tenant_def split: if_splits option.splits prod.splits sum.splits)

definition sample_deps :: "(act_token_resolution option list_cache, string option list_cache, unit) world auth_deps" where
  "sample_deps = gateway_deps (sample_authority 5) 60
     (\<lambda>_. ret (JObj [(''active'', JBool True), (''sub'', JStr ''ory''), (''scope'', JStr ''openid'')]))
     (\<lambda>s. length s = 2) \<lparr>sts_signer = ''k'', sts_ttl_seconds = 60, sts_issuer = ''iss''\<rparr> default_paths"

definition client_context :: auth_context where
  "client_context = \<lparr>ac_tenant_id = ''T1'', ac_subject = ''P'', ac_subject_type = Client, ac_actor = None,
     ac_scopes = [], ac_token_hash = [], ac_authentication_methods = []\<rparr>"

definition one_header :: "string \<Rightarrow> string \<Rightarrow> header_map" where
  "one_header name v = \<lparr>h_get = (\<lambda>n. if n = name then Some v else None),
     h_all = (\<lambda>n. if n = name then [v] else [])\<rparr>"

theorem target_tenant_guard_witness:
  "\<exists>t. resolve_target_tenant sample_deps client_context (one_header ''x-tenant-id'' ''T2'')
      (sample_world (empty_db\<lparr>applications := [\<lparr>ap_tenant_id = ''T1'', ap_public_id = ''P'', ap_cross_tenant = True,
        ap_registration_source = ''admin'', ap_created_at = 0, ap_updated_at = 0\<rparr>]\<rparr>) 0 ()) = (''T2'', t)
    \<and> ac_subject_type client_context = Client"
proof -
  let ?w = "sample_world (empty_db\<lparr>applications := [\<lparr>ap_tenant_id = ''T1'', ap_public_id = ''P'', ap_cross_tenant = True,
        ap_registration_source = ''admin'', ap_created_at = 0, ap_updated_at = 0\<rparr>]\<rparr>) 0 ()"
  have run: "resolve_target_tenant sample_deps client_context (one_header ''x-tenant-id'' ''T2'') ?w
      = (''T2'', ?w\<lparr>pg_queries := 1\<rparr>)"
    by (simp add: resolve_target_tenant_def sample_deps_def gateway_deps_def client_context_def one_header_def
        TENANT_ID_HEADER_def application_get_by_public_id_def pg_query_def pg_exec_def ok_or_def sample_world_def)
  from target_tenant_guard [OF run] run show ?thesis by (simp add: client_context_def)
qed



definition empty_pg_world ::
  "(act_token_resolution option list_cache, string option list_cache, unit) world" where
  "empty_pg_world = sample_world empty_db 0 ()"


text \<open>
  A session cookie authenticates only as the user and tenant of claims that the gateway
  signed, that have not expired, and whose session row is neither revoked nor past its own
  expiry; it carries no scope and no actor.
\<close>

theorem session_cookie_live:
  assumes "authenticate_session_cookie (gateway_deps au max_age hydra ulid_ok signer paths) cookie w = (Inr ctx, v)"
  shows "\<exists>claims. session_verify (au_crypto au) signer (pg_now w) cookie = Inr claims
    \<and> ac_subject ctx = sc_sub claims \<and> ac_tenant_id ctx = sc_tenant_id claims
    \<and> ac_subject_type ctx = User \<and> ac_scopes ctx = [] \<and> ac_actor ctx = None
    \<and> unix_timestamp (pg_now w) \<le> sc_exp claims
    \<and> (\<exists>r \<in> set (gateway_sessions (pg_db w)).
         gs_session_hash r = hash_session_id (au_crypto au) (sc_sid claims)
         \<and> gs_revoked_at r = None \<and> pg_now w < gs_expires_at r)"
proof -
  let ?d = "gateway_deps au max_age hydra ulid_ok signer paths"
  obtain claims where ver: "session_verify (au_crypto au) signer (pg_now w) cookie = Inr claims"
    and act: "session_is_active (au_crypto au) (sc_sid claims) w = (Inr True, v)"
    and ctx: "ctx = build_auth_context (au_crypto au) (sc_tenant_id claims) (sc_sub claims) User None [] [] cookie"
    using assms
    by (auto simp: authenticate_session_cookie_def gateway_deps_def run_simps split: sum.splits if_splits)
  obtain r where "find (session_live (pg_now w) (hash_session_id (au_crypto au) (sc_sid claims)))
      (gateway_sessions (pg_db w)) = Some r"
    using pg_query_Inr [OF act [unfolded session_is_active_def]] by auto
  from find_SomeD [OF this] session_verify_Inr [OF ver] ver ctx show ?thesis
    by (auto simp: session_live_def build_auth_context_def)
qed

definition cookie_crypto :: "session_claims \<Rightarrow> crypto" where
  "cookie_crypto cl = plain_crypto\<lparr>c_claims_json := (\<lambda>_. ''claims''), c_claims_parse := (\<lambda>_. Some cl)\<rparr>"

theorem session_cookie_live_witness:
  "\<exists>cl au signer v ctx. authenticate_session_cookie (gateway_deps au 60 (\<lambda>_. raise Ory_MissingTenant) (\<lambda>_. True) signer default_paths)
      ''claims.kclaims'' (sample_world (empty_db\<lparr>gateway_sessions := [\<lparr>gs_session_hash = ''sid'', gs_sub = ''U'',
        gs_tenant_id = ''T'', gs_amr = ''pwd'', gs_created_at = 0, gs_expires_at = 10, gs_revoked_at = None\<rparr>]\<rparr>) 0 ())
      = (Inr ctx, v) \<and> ac_subject ctx = ''U''
      \<and> session_verify (au_crypto au) signer 0 ''claims.kclaims'' = Inr cl"
proof -
  define cl where "cl = \<lparr>sc_sub = ''U'', sc_tenant_id = ''T'', sc_amr = ''pwd'', sc_iss = ''iss'', sc_aud = ''T'',
    sc_sid = ''sid'', sc_exp = 5\<rparr>"
  define au where "au = (sample_authority 5)\<lparr>au_crypto := cookie_crypto cl\<rparr>"
  define signer where "signer = \<lparr>sts_signer = ''k'', sts_ttl_seconds = 60, sts_issuer = ''iss''\<rparr>"
  let ?w = "sample_world (empty_db\<lparr>gateway_sessions := [\<lparr>gs_session_hash = ''sid'', gs_sub = ''U'',
        gs_tenant_id = ''T'', gs_amr = ''pwd'', gs_created_at = 0, gs_expires_at = 10, gs_revoked_at = None\<rparr>]\<rparr>) 0 ()"
  have ver: "session_verify (au_crypto au) signer 0 ''claims.kclaims'' = Inr cl"
    by (simp add: session_verify_def cookie_verify_def signature_def au_def cookie_crypto_def plain_crypto_def
        signer_def cl_def unix_timestamp_def nanos_per_second_def ascii_is_valid is_ascii_def code_point_def)
  let ?ctx = "build_auth_context (au_crypto au) ''T'' ''U'' User None [] [] ''claims.kclaims''"
  have run: "authenticate_session_cookie (gateway_deps au 60 (\<lambda>_. raise Ory_MissingTenant) (\<lambda>_. True) signer default_paths)
      ''claims.kclaims'' ?w = (Inr ?ctx, ?w\<lparr>pg_queries := 1\<rparr>)"
    using ver
    by (simp add: authenticate_session_cookie_def gateway_deps_def io_defs sample_world_def session_is_active_def
        pg_query_def pg_exec_def session_live_def hash_session_id_def au_def cookie_crypto_def plain_crypto_def cl_def)
  have "pg_now ?w = 0" by (simp add: sample_world_def)
  then have "ac_subject ?ctx = ''U''" using session_cookie_live [OF run] ver by (auto simp: cl_def)
  with run ver show ?thesis by blast
qed

text \<open>
  An authenticated agent is an active one: when a bearer token authenticates as an agent,
  the registry said at that moment that the agent's status is active, and when it
  authenticates on behalf of a user, the context carries exactly the scopes, user, tenant,
  agent and delegation of the resolved act-token.
\<close>

theorem bearer_agent_active:
  assumes "authenticate_bearer_token d token s = (Inr ctx, t)" and "d_agent_resolver d = Some (resolve, status_of)"
  shows "(ac_subject_type ctx = Agent \<longrightarrow>
      (\<exists>u v. status_of (ac_subject ctx) u = (Inr (Some agent_status_active), v)))
    \<and> (\<forall>a. ac_actor ctx = Some a \<longrightarrow>
      (\<exists>res. resolve token s = (Inr (Some res), t) \<and> ac_scopes ctx = ar_scopes res
         \<and> ac_subject ctx = ar_user_identity_id res \<and> ac_tenant_id ctx = ar_tenant_id res
         \<and> a = \<lparr>act_agent_id = ar_agent_id res, act_delegation_id = ar_delegation_id res\<rparr>))"
proof -
  have hyd: "st' = Agent \<longrightarrow> (\<exists>v. status_of p u = (Inr (Some agent_status_active), v))"
    if "hydra_subject_type d p u = (Inr st', w)" for p u w st'
    using that assms(2)
    by (auto simp: hydra_subject_type_def run_simps split: option.splits if_splits)
  have tok: "ac_actor ctx = None \<and> (ac_subject_type ctx = Agent \<longrightarrow>
      (\<exists>u v. status_of (ac_subject ctx) u = (Inr (Some agent_status_active), v)))"
    if "authenticate_hydra_token d token u = (Inr ctx, t)" for u
  proof -
    from that obtain p b st' v w where
      st: "(case b of Kratos \<Rightarrow> ret User | Hydra \<Rightarrow> hydra_subject_type d p) v = (Inr st', w)"
      and ctx: "ac_actor ctx = None" "ac_subject_type ctx = st'" "ac_subject ctx = p"
      by (auto simp: authenticate_hydra_token_def run_simps build_auth_context_def
          split: option.split_asm if_split_asm)
    then show ?thesis using hyd [of p v st' w] by (cases b) (auto simp: run_simps)
  qed
  from assms consider
      (act) res where "resolve token s = (Inr (Some res), t)" "ctx = act_token_context (d_crypto d) res token"
    | (hydra) u where "authenticate_hydra_token d token u = (Inr ctx, t)"
    by (auto simp: authenticate_bearer_token_def run_simps split: option.splits)
  then show ?thesis
  proof cases
    case act
    then show ?thesis by (auto simp: act_token_context_def build_auth_context_def)
  next
    case hydra
    then show ?thesis using tok by auto
  qed
qed

theorem bearer_agent_active_witness:
  "\<exists>t. authenticate_bearer_token sample_deps ''sat_1'' (sample_world sample_db 0 ())
      = (Inr (act_token_context plain_crypto sample_resolution ''sat_1''), t)
    \<and> ac_scopes (act_token_context plain_crypto sample_resolution ''sat_1'') = [''mail:read'']"
proof -
  let ?t = "(sample_world sample_db 0 ())\<lparr>w_act_cache := [(''sat_1'', Some sample_resolution, 0)], pg_queries := 3\<rparr>"
  have run: "authenticate_bearer_token sample_deps ''sat_1'' (sample_world sample_db 0 ())
      = (Inr (act_token_context plain_crypto sample_resolution ''sat_1''), ?t)"
    using sample_resolve
    by (simp add: authenticate_bearer_token_def sample_deps_def gateway_deps_def io_defs sample_authority_def)
  have dep: "d_agent_resolver sample_deps = Some (resolve_act_token (sample_authority 5), agent_status (sample_authority 5))"
    by (simp add: sample_deps_def gateway_deps_def)
  show ?thesis
    using bearer_agent_active [OF run dep] run sample_resolve
    by (auto simp: act_token_context_def build_auth_context_def sample_resolution_def)
qed

text \<open>
  The audit trail misses rejected requests: in the order in which the application stacks
  its layers, a request whose credentials are rejected is answered without any audit event,
  for every log and every set of routes.
\<close>

theorem rejection_not_audited:
  assumes "\<not> bypasses_auth d req" and "request_credentials d (rq_headers req) s = (Inl resp, t)"
  shows "app_layers d emit routes req s = (resp, t)"
  using assms by (simp add: app_layers_def auth_middleware_def)

theorem rejection_not_audited_witness:
  "app_layers (sample_deps\<lparr>d_paths := None\<rparr>) (\<lambda>_ _. undefined) (\<lambda>_ _. undefined)
     \<lparr>rq_method = ''POST'', rq_path = ''/iam.v1.AgentService/CreateAgent'',
      rq_headers = \<lparr>h_get = (\<lambda>_. None), h_all = (\<lambda>_. [])\<rparr>,
      rq_ctx = \<lparr>rx_auth = None, rx_tenant = None\<rparr>, rq_outcome = None\<rparr> empty_pg_world
   = (auth_error_response 401, empty_pg_world)"
  by (rule rejection_not_audited)
     (simp_all add: bypasses_auth_def sample_deps_def gateway_deps_def is_public_path_def starts_with_def
       request_credentials_def bearer_token_def session_cookie_def raise_def)

end
