(* ===== verification/RateLimit.thy ===== *)
theory RateLimit
  imports Complex_Main Middleware
begin

text \<open>
  The rate limiter of \<^verbatim>\<open>middleware.rs\<close>: one token bucket per key, the keys the middleware
  derives from a request, and the layer itself. An \<^verbatim>\<open>f64\<close> is the rational it denotes; every
  operation rounds by \<open>rnd\<close>, a parameter of which \<open>fp_ok\<close> says what IEEE rounding to nearest
  guarantees here (monotone, exact on the integers up to \<^verbatim>\<open>2^53\<close>). The clock readings
  (\<^verbatim>\<open>Instant::now()\<close>, in nanoseconds) are arguments; Base64 and the form decoder are
  parameters.
\<close>

section \<open>The limiter\<close>

record bucket =
  b_tokens :: rat
  b_last :: instant

record rate_limiter =
  rl_max :: nat
  rl_per :: duration
  rl_buckets :: "(string \<times> bucket) list"

definition MAX_RATE_LIMIT_KEYS :: nat where "MAX_RATE_LIMIT_KEYS = 10000"

definition rate_limiter_new :: "nat \<Rightarrow> duration \<Rightarrow> rate_limiter" where
  "rate_limiter_new mx per = \<lparr>rl_max = mx, rl_per = per, rl_buckets = []\<rparr>"

definition as_secs_f64 :: "(rat \<Rightarrow> rat) \<Rightarrow> duration \<Rightarrow> rat" where
  "as_secs_f64 rnd d =
     rnd (rnd (of_int (d div nanos_per_second)) + rnd (rnd (of_int (d mod nanos_per_second)) / 1000000000))"

text \<open>
  \<^verbatim>\<open>(tokens + elapsed * refill_rate).min(max)\<close>. With an empty window the rate is infinite (or
  not a number when \<^verbatim>\<open>max\<close> is 0), and \<^verbatim>\<open>f64::min\<close> then gives \<^verbatim>\<open>max\<close> in every case.
\<close>

definition refill :: "(rat \<Rightarrow> rat) \<Rightarrow> nat \<Rightarrow> duration \<Rightarrow> rat \<Rightarrow> duration \<Rightarrow> rat" where
  "refill rnd mx per tokens elapsed =
     (if as_secs_f64 rnd per = 0 then of_nat mx
      else min (rnd (tokens + rnd (as_secs_f64 rnd elapsed * rnd (of_nat mx / as_secs_f64 rnd per)))) (of_nat mx))"

definition make_room :: "nat \<Rightarrow> string \<Rightarrow> (string \<times> bucket) list \<Rightarrow> (string \<times> bucket) list" where
  "make_room mx key buckets =
     (if key \<notin> fst ` set buckets \<and> MAX_RATE_LIMIT_KEYS \<le> length buckets
      then let kept = filter (\<lambda>(_, s). b_tokens s < of_nat mx) buckets
           in if MAX_RATE_LIMIT_KEYS \<le> length kept then [] else kept
      else buckets)"

definition put_bucket :: "string \<Rightarrow> bucket \<Rightarrow> (string \<times> bucket) list \<Rightarrow> (string \<times> bucket) list" where
  "put_bucket key b buckets = (key, b) # filter (\<lambda>(k, _). k \<noteq> key) buckets"

text \<open>\<open>t1\<close> is the reading for a new bucket, \<open>t2\<close> the one after it.\<close>

definition rl_check ::
  "(rat \<Rightarrow> rat) \<Rightarrow> string \<Rightarrow> instant \<Rightarrow> instant \<Rightarrow> rate_limiter \<Rightarrow> bool \<times> rate_limiter" where
  "rl_check rnd key t1 t2 l =
     (let buckets = make_room (rl_max l) key (rl_buckets l);
          state = (case map_of buckets key of
                     Some s \<Rightarrow> s
                   | None \<Rightarrow> \<lparr>b_tokens = of_nat (rl_max l), b_last = t1\<rparr>);
          tokens = refill rnd (rl_max l) (rl_per l) (b_tokens state) (max 0 (t2 - b_last state));
          allowed = (1 \<le> tokens);
          state' = \<lparr>b_tokens = (if allowed then rnd (tokens - 1) else tokens), b_last = t2\<rparr>
      in (allowed, l\<lparr>rl_buckets := put_bucket key state' buckets\<rparr>))"

section \<open>Keys\<close>

record raw_request =
  rr_headers :: header_map
  rr_path :: string
  rr_query :: "string option"
  rr_body :: "string option"
  rr_peer :: "string option"

definition basic_auth_client_id :: "(string \<Rightarrow> string option) \<Rightarrow> header_map \<Rightarrow> string option" where
  "basic_auth_client_id b64_decode headers =
     (case h_get headers ''authorization'' of
        None \<Rightarrow> None
      | Some header \<Rightarrow>
          case split_once (CHR '' '') header of
            None \<Rightarrow> None
          | Some (scheme, payload) \<Rightarrow>
              if \<not> eq_ignore_ascii_case scheme ''basic'' then None
              else case b64_decode (trim payload) of
                None \<Rightarrow> None
              | Some decoded \<Rightarrow>
                  if \<not> valid_utf8 decoded then None
                  else case split_once (CHR '':'') decoded of
                    None \<Rightarrow> None
                  | Some (i, _) \<Rightarrow> if i = [] then None else Some i)"

definition first_client_id :: "(string \<times> string) list \<Rightarrow> string option" where
  "first_client_id pairs =
     (case find (\<lambda>(k, _). k = ''client_id'') pairs of
        None \<Rightarrow> None
      | Some (_, v) \<Rightarrow> if v = [] then None else Some v)"

definition query_client_id :: "(string \<Rightarrow> (string \<times> string) list) \<Rightarrow> string option \<Rightarrow> string option" where
  "query_client_id form_parse query =
     (case query of None \<Rightarrow> None | Some q \<Rightarrow> first_client_id (form_parse q))"

definition form_body_client_id ::
  "(string \<Rightarrow> (string \<times> string) list) \<Rightarrow> header_map \<Rightarrow> string \<Rightarrow> string option" where
  "form_body_client_id form_parse headers body =
     (case h_get headers ''content-type'' of
        None \<Rightarrow> None
      | Some content_type \<Rightarrow>
          if \<not> starts_with content_type ''application/x-www-form-urlencoded'' then None
          else first_client_id (form_parse body))"

definition endpoint_class :: "string \<Rightarrow> string" where
  "endpoint_class path =
     (if starts_with path ''/.well-known/'' then ''discovery''
      else if path = ''/oauth2/userinfo'' \<or> path = ''/userinfo'' then ''userinfo''
      else if path = ''/oauth2/register'' \<or> starts_with path ''/oauth2/register/'' then ''register''
      else if path = ''/oauth2/token'' then ''token''
      else if path = ''/oauth2/introspect'' then ''introspect''
      else if path = ''/oauth2/revoke'' then ''revoke''
      else if path = ''/oauth2/device'' \<or> starts_with path ''/oauth2/device/'' then ''device''
      else if path = ''/oauth2/auth'' then ''auth''
      else if path = ''/saml'' \<or> starts_with path ''/saml/'' then ''saml''
      else if path = ''/scim'' \<or> starts_with path ''/scim/'' then ''scim''
      else if path = ''/self-service'' \<or> starts_with path ''/self-service/'' then ''self-service''
      else if path = ''/callbacks'' \<or> starts_with path ''/callbacks/'' then ''callbacks''
      else if path = ''/health'' \<or> starts_with path ''/health/'' then ''health''
      else ''other'')"

definition client_ip :: "raw_request \<Rightarrow> string option" where
  "client_ip req =
     (case h_get (rr_headers req) ''x-forwarded-for'' of
        None \<Rightarrow> rr_peer req
      | Some xff \<Rightarrow>
          let first = trim (hd (split_on (CHR '','') xff))
          in if first \<noteq> [] then Some first else rr_peer req)"

definition anonymous_bucket_key :: "raw_request \<Rightarrow> string" where
  "anonymous_bucket_key req =
     (let class = endpoint_class (rr_path req)
      in case (if class = ''register'' then client_ip req else None) of
           Some ip \<Rightarrow> ''register-ip:'' @ ip
         | None \<Rightarrow> ''global:'' @ class)"

definition rate_limit_key ::
  "(string \<Rightarrow> string option) \<Rightarrow> (string \<Rightarrow> (string \<times> string) list) \<Rightarrow> raw_request \<Rightarrow> string \<Rightarrow> string" where
  "rate_limit_key b64_decode form_parse req body =
     (case basic_auth_client_id b64_decode (rr_headers req) of
        Some i \<Rightarrow> i
      | None \<Rightarrow> (case query_client_id form_parse (rr_query req) of
          Some i \<Rightarrow> i
        | None \<Rightarrow> (case form_body_client_id form_parse (rr_headers req) body of
            Some i \<Rightarrow> i
          | None \<Rightarrow> anonymous_bucket_key req)))"

text \<open>
  The layer. \<open>rr_body\<close> is \<open>None\<close> where \<^verbatim>\<open>to_bytes\<close> fails (a body over 1 MiB, or a broken one);
  the result is \<open>None\<close> where the request goes on to the routes.
\<close>

definition rate_limit_middleware ::
  "(rat \<Rightarrow> rat) \<Rightarrow> (string \<Rightarrow> string option) \<Rightarrow> (string \<Rightarrow> (string \<times> string) list) \<Rightarrow> instant \<Rightarrow> instant
    \<Rightarrow> raw_request \<Rightarrow> rate_limiter \<Rightarrow> nat option \<times> rate_limiter" where
  "rate_limit_middleware rnd b64_decode form_parse t1 t2 req l =
     (case rr_body req of
        None \<Rightarrow> (Some 413, l)
      | Some body \<Rightarrow>
          case rl_check rnd (rate_limit_key b64_decode form_parse req body) t1 t2 l of
            (True, l') \<Rightarrow> (None, l')
          | (False, l') \<Rightarrow> (Some 429, l'))"

section \<open>Invariant\<close>

definition fp_ok :: "(rat \<Rightarrow> rat) \<Rightarrow> bool" where
  "fp_ok rnd \<longleftrightarrow> mono rnd \<and> (\<forall>n. n \<le> 2 ^ 53 \<longrightarrow> rnd (of_nat n) = of_nat n)"

lemma fp_mono: "fp_ok rnd \<Longrightarrow> x \<le> y \<Longrightarrow> rnd x \<le> rnd y"
  by (auto simp: fp_ok_def mono_def)

lemma fp_nat: "fp_ok rnd \<Longrightarrow> n \<le> 2 ^ 53 \<Longrightarrow> rnd (of_nat n) = of_nat n"
  by (simp add: fp_ok_def)

lemma fp_zero: "fp_ok rnd \<Longrightarrow> rnd 0 = 0"
  using fp_nat [of rnd 0] by simp

lemma fp_nonneg: "fp_ok rnd \<Longrightarrow> 0 \<le> x \<Longrightarrow> 0 \<le> rnd x"
  using fp_mono [of rnd 0 x] fp_zero [of rnd] by simp

lemma as_secs_nonneg:
  assumes "fp_ok rnd" and "0 \<le> d"
  shows "0 \<le> as_secs_f64 rnd d"
proof -
  have "0 \<le> d div nanos_per_second" "0 \<le> d mod nanos_per_second"
    using assms(2) by (simp_all add: nanos_per_second_def pos_imp_zdiv_nonneg_iff)
  then have "0 \<le> (of_int (d div nanos_per_second) :: rat)" "0 \<le> (of_int (d mod nanos_per_second) :: rat)"
    by simp_all
  from this [THEN fp_nonneg [OF assms(1)]]
  have "0 \<le> rnd (of_int (d div nanos_per_second))"
    "0 \<le> rnd (of_int (d mod nanos_per_second)) / 1000000000" by simp_all
  from this(1) fp_nonneg [OF assms(1) this(2)] show ?thesis
    unfolding as_secs_f64_def by (rule fp_nonneg [OF assms(1) add_nonneg_nonneg])
qed

lemma refill_bounds:
  assumes "fp_ok rnd" and "0 \<le> tokens" and "0 \<le> elapsed" and "0 \<le> per"
  shows "0 \<le> refill rnd mx per tokens elapsed \<and> refill rnd mx per tokens elapsed \<le> of_nat mx"
proof -
  have "0 \<le> rnd (of_nat mx / as_secs_f64 rnd per)"
    by (rule fp_nonneg [OF assms(1)]) (use as_secs_nonneg [OF assms(1,4)] in simp)
  then have "0 \<le> rnd (as_secs_f64 rnd elapsed * rnd (of_nat mx / as_secs_f64 rnd per))"
    by (rule fp_nonneg [OF assms(1) mult_nonneg_nonneg [OF as_secs_nonneg [OF assms(1,3)]]])
  then have "0 \<le> rnd (tokens + rnd (as_secs_f64 rnd elapsed * rnd (of_nat mx / as_secs_f64 rnd per)))"
    by (rule fp_nonneg [OF assms(1) add_nonneg_nonneg [OF assms(2)]])
  then show ?thesis by (auto simp: refill_def)
qed

definition rl_inv :: "rate_limiter \<Rightarrow> bool" where
  "rl_inv l \<longleftrightarrow> 1 \<le> rl_max l \<and> rl_max l < 2 ^ 32 \<and> 0 \<le> rl_per l
     \<and> distinct (map fst (rl_buckets l)) \<and> length (rl_buckets l) \<le> MAX_RATE_LIMIT_KEYS
     \<and> (\<forall>(k, b) \<in> set (rl_buckets l). 0 \<le> b_tokens b \<and> b_tokens b < of_nat (rl_max l))"

lemma make_room_inv:
  assumes "rl_inv l"
  shows "make_room (rl_max l) key (rl_buckets l) =
    (if key \<notin> fst ` set (rl_buckets l) \<and> length (rl_buckets l) = MAX_RATE_LIMIT_KEYS then []
     else rl_buckets l)"
proof -
  have "filter (\<lambda>(_, s). b_tokens s < of_nat (rl_max l)) (rl_buckets l) = rl_buckets l"
    by (rule filter_True) (use assms in \<open>auto simp: rl_inv_def\<close>)
  then show ?thesis using assms by (auto simp: make_room_def rl_inv_def Let_def)
qed

lemma length_put_bucket:
  assumes "distinct (map fst bs)"
  shows "length (put_bucket key b bs) = (if key \<in> fst ` set bs then length bs else Suc (length bs))"
proof -
  have "length (filter (\<lambda>(k, _). k \<noteq> key) bs) = (if key \<in> fst ` set bs then length bs - 1 else length bs)"
    using assms
  proof (induction bs)
    case (Cons x xs)
    then show ?case by (cases x) (auto simp: Suc_diff_le dest: length_pos_if_in_set)
  qed simp
  moreover have "0 < length bs" if "key \<in> fst ` set bs" using that by (cases bs) auto
  ultimately show ?thesis by (auto simp: put_bucket_def)
qed


lemma in_put_bucket:
  "(k, b) \<in> set (put_bucket key c bs) \<longleftrightarrow> (k = key \<and> b = c) \<or> (k \<noteq> key \<and> (k, b) \<in> set bs)"
  by (auto simp: put_bucket_def)

lemma rl_check_inv:
  assumes ok: "fp_ok rnd" and inv: "rl_inv l" and run: "rl_check rnd key t1 t2 l = (allowed, l')"
  shows "rl_inv l'"
proof -
  let ?bs = "make_room (rl_max l) key (rl_buckets l)"
  let ?st = "case map_of ?bs key of Some s \<Rightarrow> s | None \<Rightarrow> \<lparr>b_tokens = of_nat (rl_max l), b_last = t1\<rparr>"
  define tokens where "tokens = refill rnd (rl_max l) (rl_per l) (b_tokens ?st) (max 0 (t2 - b_last ?st))"
  define b where "b = \<lparr>b_tokens = (if 1 \<le> tokens then rnd (tokens - 1) else tokens), b_last = t2\<rparr>"
  have l': "l' = l\<lparr>rl_buckets := put_bucket key b ?bs\<rparr>"
    using run by (auto simp: rl_check_def Let_def tokens_def b_def)
  have sub: "set ?bs \<subseteq> set (rl_buckets l)" and dist: "distinct (map fst ?bs)"
    using inv make_room_inv [OF inv, of key] by (auto simp: rl_inv_def split: if_splits)
  have len: "length (put_bucket key b ?bs) \<le> MAX_RATE_LIMIT_KEYS"
    using inv make_room_inv [OF inv, of key] length_put_bucket [OF dist, of key b]
    by (auto simp: rl_inv_def MAX_RATE_LIMIT_KEYS_def split: if_splits)
  have "0 \<le> b_tokens ?st"
    using sub inv by (auto simp: rl_inv_def split: option.splits dest!: map_of_SomeD)
  then have t: "0 \<le> tokens" "tokens \<le> of_nat (rl_max l)"
    using refill_bounds [OF ok, of "b_tokens ?st"] inv by (auto simp: tokens_def rl_inv_def)
  have mx: "1 \<le> rl_max l" "rl_max l - 1 \<le> 2 ^ 53" using inv by (auto simp: rl_inv_def)
  have "0 \<le> b_tokens b \<and> b_tokens b < of_nat (rl_max l)"
  proof (cases "1 \<le> tokens")
    case True
    have "rnd (tokens - 1) \<le> rnd (of_nat (rl_max l - 1))"
      using t(2) mx(1) by (intro fp_mono [OF ok]) (simp add: of_nat_diff)
    also have "\<dots> = of_nat (rl_max l - 1)" by (rule fp_nat [OF ok mx(2)])
    also have "\<dots> < of_nat (rl_max l)" using mx(1) by simp
    finally show ?thesis using True fp_nonneg [OF ok, of "tokens - 1"] by (simp add: b_def)
  next
    case False
    moreover have "(1 :: rat) \<le> of_nat (rl_max l)" using mx(1) by simp
    ultimately show ?thesis using t by (simp add: b_def)
  qed
  moreover have "distinct (map fst (put_bucket key b ?bs))"
    using dist by (auto simp: put_bucket_def distinct_map_filter)
  ultimately show ?thesis
    using inv len sub unfolding l' rl_inv_def by (auto simp: in_put_bucket)
qed

text \<open>A key's bucket is at most one token fuller than what is left of it after a request.\<close>

fun run_checks ::
  "(rat \<Rightarrow> rat) \<Rightarrow> string \<Rightarrow> instant list \<Rightarrow> rate_limiter \<Rightarrow> bool list \<times> rate_limiter" where
  "run_checks rnd key [] l = ([], l)"
| "run_checks rnd key (t # ts) l =
     (case rl_check rnd key t t l of (a, l') \<Rightarrow>
        case run_checks rnd key ts l' of (as, l'') \<Rightarrow> (a # as, l''))"

lemma run_checks_Cons:
  "rl_check rnd key t t l = (a, l') \<Longrightarrow> fst (run_checks rnd key (t # ts) l) = a # fst (run_checks rnd key ts l')"
  by (simp split: prod.splits)

lemma as_secs_zero: "fp_ok rnd \<Longrightarrow> as_secs_f64 rnd 0 = 0"
  using fp_zero [of rnd] by (simp add: as_secs_f64_def)

lemma refill_now:
  assumes "fp_ok rnd" and "n \<le> mx" and "mx < 2 ^ 32" and "as_secs_f64 rnd per \<noteq> 0"
  shows "refill rnd mx per (of_nat n) 0 = of_nat n"
proof -
  have "n \<le> 2 ^ 53" using assms(2,3) by simp
  then have "rnd (of_nat n + rnd (as_secs_f64 rnd 0 * rnd (of_nat mx / as_secs_f64 rnd per))) = of_nat n"
    using as_secs_zero [OF assms(1)] fp_zero [OF assms(1)] fp_nat [OF assms(1)] by simp
  then show ?thesis using assms(2,4) by (simp add: refill_def min_def)
qed

lemma rl_check_at:
  assumes ok: "fp_ok rnd" and "map_of (rl_buckets l) key = Some \<lparr>b_tokens = of_nat n, b_last = t\<rparr>"
    and "n \<le> rl_max l" and "rl_max l < 2 ^ 32" and "as_secs_f64 rnd (rl_per l) \<noteq> 0"
  shows "\<exists>bs. rl_check rnd key t t l = (0 < n, l\<lparr>rl_buckets := bs\<rparr>)
    \<and> map_of bs key = Some \<lparr>b_tokens = of_nat (n - 1), b_last = t\<rparr>"
proof -
  have here: "key \<in> fst ` set (rl_buckets l)" using assms(2) by (force dest: map_of_SomeD)
  then have room: "make_room (rl_max l) key (rl_buckets l) = rl_buckets l" by (simp add: make_room_def)
  have "n - 1 \<le> 2 ^ 53" using assms(3,4) by simp
  then have "rnd (of_nat (n - 1)) = of_nat (n - 1)" by (rule fp_nat [OF ok])
  then have dec: "0 < n \<Longrightarrow> rnd (of_nat n - 1) = of_nat (n - 1)" by (simp add: of_nat_diff)
  have pos: "(1 :: rat) \<le> of_nat n \<longleftrightarrow> 0 < n" by (simp add: Suc_le_eq)
  show ?thesis
    by (rule exI [of _ "put_bucket key \<lparr>b_tokens = of_nat (n - 1), b_last = t\<rparr> (rl_buckets l)"])
       (use refill_now [OF ok assms(3,4,5)] dec in
         \<open>cases "0 < n"; simp add: rl_check_def Let_def room assms(2) put_bucket_def pos\<close>)
qed

lemma burst_from:
  assumes ok: "fp_ok rnd"
  shows "\<lbrakk>map_of (rl_buckets l) key = Some \<lparr>b_tokens = of_nat n, b_last = t\<rparr>; n \<le> rl_max l;
      rl_max l < 2 ^ 32; as_secs_f64 rnd (rl_per l) \<noteq> 0\<rbrakk>
    \<Longrightarrow> fst (run_checks rnd key (replicate m t) l) = map (\<lambda>i. i < n) [0..<m]"
proof (induction m arbitrary: l n)
  case 0
  then show ?case by simp
next
  case (Suc m)
  obtain bs where step: "rl_check rnd key t t l = (0 < n, l\<lparr>rl_buckets := bs\<rparr>)"
    and look: "map_of bs key = Some \<lparr>b_tokens = of_nat (n - 1), b_last = t\<rparr>"
    using rl_check_at [OF ok Suc.prems] by blast
  have "fst (run_checks rnd key (replicate m t) (l\<lparr>rl_buckets := bs\<rparr>)) = map (\<lambda>i. i < n - 1) [0..<m]"
    by (rule Suc.IH) (use look Suc.prems in auto)
  moreover have "map (\<lambda>i. i < n) [0..<Suc m] = (0 < n) # map (\<lambda>i. i < n - 1) [0..<m]"
    by (auto simp: upt_conv_Cons map_Suc_upt [symmetric] simp del: upt_Suc)
  ultimately show ?case using run_checks_Cons [OF step, of "replicate m t"] by simp
qed

section \<open>Properties\<close>

text \<open>
  The limiter's state stays bounded: at most \<^verbatim>\<open>MAX_RATE_LIMIT_KEYS\<close> buckets, one per key,
  each with between zero and strictly fewer than \<^verbatim>\<open>max\<close> tokens, through every check at any
  pair of clock readings.
\<close>

theorem rate_limiter_bounded:
  assumes "fp_ok rnd" and "rl_inv l" and "rl_check rnd key t1 t2 l = (allowed, l')"
  shows "rl_inv l'"
  using rl_check_inv [OF assms] .

theorem rate_limiter_bounded_witness:
  "rl_inv (snd (rl_check id ''k'' 0 0 (rate_limiter_new 2 nanos_per_second)))"
proof -
  obtain a l' where run: "rl_check id ''k'' 0 0 (rate_limiter_new 2 nanos_per_second) = (a, l')" by fastforce
  have "fp_ok id" by (simp add: fp_ok_def mono_def)
  moreover have "rl_inv (rate_limiter_new 2 nanos_per_second)"
    by (simp add: rl_inv_def rate_limiter_new_def nanos_per_second_def)
  ultimately show ?thesis using rate_limiter_bounded [OF _ _ run] run by simp
qed

text \<open>
  The burst limit: of any number of requests for one new key at one instant, exactly the
  first \<^verbatim>\<open>max\<close> are let through.
\<close>

theorem rate_limit_burst:
  assumes "fp_ok rnd" and "rl_inv l" and "key \<notin> fst ` set (rl_buckets l)"
    and "as_secs_f64 rnd (rl_per l) \<noteq> 0"
  shows "fst (run_checks rnd key (replicate m t) l) = map (\<lambda>i. i < rl_max l) [0..<m]"
proof (cases m)
  case 0
  then show ?thesis by simp
next
  case (Suc k)
  let ?n = "rl_max l"
  have mx: "?n < 2 ^ 32" "1 \<le> ?n" using assms(2) by (auto simp: rl_inv_def)
  let ?bs = "make_room ?n key (rl_buckets l)"
  have fresh: "map_of ?bs key = None"
    using assms(3) make_room_inv [OF assms(2), of key] by (auto simp: map_of_eq_None_iff)
  have "?n - 1 \<le> 2 ^ 53" using mx by simp
  then have "rnd (of_nat ?n - 1) = of_nat (?n - 1)"
    using fp_nat [OF assms(1), of "?n - 1"] mx(2) by (simp add: of_nat_diff)
  moreover have "(1 :: rat) \<le> of_nat ?n" using mx(2) by simp
  ultimately have step: "rl_check rnd key t t l = (True, l\<lparr>rl_buckets :=
      put_bucket key \<lparr>b_tokens = of_nat (?n - 1), b_last = t\<rparr> ?bs\<rparr>)" (is "_ = (True, ?l)")
    using refill_now [OF assms(1) order.refl mx(1) assms(4)] by (simp add: rl_check_def Let_def fresh)
  have "fst (run_checks rnd key (replicate k t) ?l) = map (\<lambda>i. i < ?n - 1) [0..<k]"
    by (rule burst_from [OF assms(1)]) (use mx assms(4) in \<open>auto simp: put_bucket_def\<close>)
  moreover have "map (\<lambda>i. i < ?n) [0..<Suc k] = True # map (\<lambda>i. i < ?n - 1) [0..<k]"
    using mx(2) by (auto simp: upt_conv_Cons map_Suc_upt [symmetric] simp del: upt_Suc)
  ultimately show ?thesis using run_checks_Cons [OF step, of "replicate k t"] by (simp add: Suc)
qed

theorem rate_limit_burst_witness:
  "fst (run_checks id ''k'' (replicate 3 0) (rate_limiter_new 2 nanos_per_second)) = [True, True, False]"
proof -
  have "fp_ok id" by (simp add: fp_ok_def mono_def)
  moreover have "rl_inv (rate_limiter_new 2 nanos_per_second)"
    by (simp add: rl_inv_def rate_limiter_new_def nanos_per_second_def)
  ultimately have "fst (run_checks id ''k'' (replicate 3 0) (rate_limiter_new 2 nanos_per_second))
      = map (\<lambda>i. i < rl_max (rate_limiter_new 2 nanos_per_second)) [0..<3]"
    by (rule rate_limit_burst) (simp_all add: rate_limiter_new_def as_secs_f64_def nanos_per_second_def)
  also have "\<dots> = [True, True, False]" by (simp add: rate_limiter_new_def upt_conv_Cons)
  finally show ?thesis .
qed

text \<open>
  One bucket per key: below the cap on tracked keys, a check for one key leaves every
  other key's bucket as it is.
\<close>

theorem rate_limit_isolation:
  assumes "key' \<noteq> key" and "length (rl_buckets l) < MAX_RATE_LIMIT_KEYS"
  shows "map_of (rl_buckets (snd (rl_check rnd key t1 t2 l))) key' = map_of (rl_buckets l) key'"
proof -
  have "map_of (put_bucket key b bs) key' = map_of bs key'" for b bs
    using assms(1) map_of_filter_key [of key bs] by (simp add: put_bucket_def)
  then show ?thesis using assms(2) by (simp add: rl_check_def Let_def make_room_def)
qed

theorem rate_limit_isolation_witness:
  "map_of (rl_buckets (snd (rl_check id ''a'' 0 0
      (snd (rl_check id ''b'' 0 0 (rate_limiter_new 2 nanos_per_second)))))) ''b''
   = map_of (rl_buckets (snd (rl_check id ''b'' 0 0 (rate_limiter_new 2 nanos_per_second)))) ''b''"
  by (rule rate_limit_isolation)
     (simp_all add: rl_check_def Let_def make_room_def rate_limiter_new_def MAX_RATE_LIMIT_KEYS_def put_bucket_def)

text \<open>
  At the cap, eviction is all or nothing: since a stored bucket is never full, the filter
  that is meant to drop the full ones drops none, and the first request of a new key throws
  every tracked bucket away, drained ones included.
\<close>

theorem rate_limit_cap_resets_all:
  assumes "rl_inv l" and "length (rl_buckets l) = MAX_RATE_LIMIT_KEYS" and "key \<notin> fst ` set (rl_buckets l)"
  shows "filter (\<lambda>(_, s). b_tokens s < of_nat (rl_max l)) (rl_buckets l) = rl_buckets l
    \<and> (\<exists>b. rl_buckets (snd (rl_check rnd key t1 t2 l)) = [(key, b)])"
proof
  show "filter (\<lambda>(_, s). b_tokens s < of_nat (rl_max l)) (rl_buckets l) = rl_buckets l"
    by (rule filter_True) (use assms(1) in \<open>auto simp: rl_inv_def\<close>)
  show "\<exists>b. rl_buckets (snd (rl_check rnd key t1 t2 l)) = [(key, b)]"
    using make_room_inv [OF assms(1), of key] assms(2,3) by (auto simp: rl_check_def Let_def put_bucket_def)
qed

definition full_limiter :: rate_limiter where
  "full_limiter = \<lparr>rl_max = 1, rl_per = nanos_per_second,
     rl_buckets = map (\<lambda>i. (replicate i (CHR ''x''), \<lparr>b_tokens = 0, b_last = 0\<rparr>)) [0..<MAX_RATE_LIMIT_KEYS]\<rparr>"

theorem rate_limit_cap_resets_all_witness:
  "\<exists>b. rl_buckets (snd (rl_check id ''new'' 0 0 full_limiter)) = [(''new'', b)]"
proof -
  have "inj (\<lambda>i. replicate i (CHR ''x''))" by (rule injI) (metis length_replicate)
  then have "distinct (map (\<lambda>i. replicate i (CHR ''x'')) [0..<MAX_RATE_LIMIT_KEYS])"
    by (simp add: distinct_map inj_on_def)
  then have inv: "rl_inv full_limiter"
    by (auto simp: rl_inv_def full_limiter_def nanos_per_second_def comp_def)
  have "CHR ''n'' \<notin> set (replicate i (CHR ''x''))" for i by simp
  then have "\<And>i. ''new'' \<noteq> replicate i (CHR ''x'')" by (metis list.set_intros(1))
  then have "''new'' \<notin> fst ` set (rl_buckets full_limiter)" unfolding full_limiter_def by fastforce
  moreover have "length (rl_buckets full_limiter) = MAX_RATE_LIMIT_KEYS" by (simp add: full_limiter_def)
  ultimately show ?thesis using rate_limit_cap_resets_all [OF inv] by blast
qed

end
