(* ===== verification/AgentService.thy ===== *)
theory AgentService
  imports Middleware
begin

text \<open>
  \<^verbatim>\<open>services/agent.rs\<close>: the handlers of the agent and delegation service over the stores, the
  act-token authority and Hydra. Hydra's admin API (\<^verbatim>\<open>ClientCredentialHydra\<close>) is a record of
  operations on an opaque state, a parameter of the handlers; Base64 is the codec of the
  page tokens. Best-effort calls, whose failure the code only logs, are \<open>best_effort\<close>.
\<close>

section \<open>Parameters and messages\<close>

record codec =
  b64_encode :: "string \<Rightarrow> string"
  b64_decode :: "string \<Rightarrow> string option"

record ('c, 'd, 'h) agent_service =
  as_hydra :: "'h hydra_ops"
  as_authority :: "('c, 'd) authority"
  as_codec :: codec

definition hydra_call ::
  "('h, 'e, 'a) io \<Rightarrow> (('c, 'd, 'h, 'z) world_scheme, 'e, 'a) io" where
  "hydra_call m w = (case m (w_hydra w) of (r, h) \<Rightarrow> (r, w\<lparr>w_hydra := h\<rparr>))"

text \<open>Adding the nanoseconds panics where the sum leaves the range of \<^verbatim>\<open>OffsetDateTime\<close>.\<close>

definition from_proto_timestamp :: "timestamp option \<Rightarrow> service_error + instant option" where
  "from_proto_timestamp field =
     (case field of
        None \<Rightarrow> Inr None
      | Some ts \<Rightarrow>
          case from_unix_timestamp (ts_seconds ts) of
            None \<Rightarrow> Inr None
          | Some t \<Rightarrow>
              if min_datetime \<le> t + ts_nanos ts \<and> t + ts_nanos ts \<le> max_datetime
              then Inr (Some (t + ts_nanos ts))
              else Inl (SE_Panicked ''resulting value is out of range''))"

record agent_proto =
  pa_id :: string
  pa_tenant_id :: string
  pa_name :: string
  pa_owner_identity_id :: string
  pa_status :: string
  pa_created_at :: "timestamp option"
  pa_updated_at :: "timestamp option"
  pa_client_secret :: string

record delegation_proto =
  pd_id :: string
  pd_tenant_id :: string
  pd_agent_id :: string
  pd_user_identity_id :: string
  pd_scope :: "string list"
  pd_expires_at :: "timestamp option"
  pd_revoked_at :: "timestamp option"
  pd_created_at :: "timestamp option"

definition agent_to_proto :: "agent_row \<Rightarrow> agent_proto" where
  "agent_to_proto row =
     \<lparr>pa_id = ag_id row, pa_tenant_id = ag_tenant_id row, pa_name = ag_name row,
      pa_owner_identity_id = (case ag_owner_identity_id row of Some i \<Rightarrow> i | None \<Rightarrow> []),
      pa_status = ag_status row, pa_created_at = opt_timestamp (Some (ag_created_at row)),
      pa_updated_at = opt_timestamp (Some (ag_updated_at row)), pa_client_secret = []\<rparr>"

definition delegation_to_proto :: "agent_delegation_row \<Rightarrow> delegation_proto" where
  "delegation_to_proto row =
     \<lparr>pd_id = dg_id row, pd_tenant_id = dg_tenant_id row, pd_agent_id = dg_agent_id row,
      pd_user_identity_id = dg_user_identity_id row, pd_scope = dg_scopes row,
      pd_expires_at = opt_timestamp (Some (dg_expires_at row)),
      pd_revoked_at = opt_timestamp (dg_revoked_at row),
      pd_created_at = opt_timestamp (Some (dg_created_at row))\<rparr>"

record page_response =
  pr_next_page_token :: string
  pr_total_size :: nat

section \<open>Validation\<close>

definition MAX_DELEGATION_SCOPES :: nat where "MAX_DELEGATION_SCOPES = 64"
definition MAX_SCOPE_LEN :: nat where "MAX_SCOPE_LEN = 128"

definition validate_status :: "string \<Rightarrow> service_error + unit" where
  "validate_status status =
     (if status \<noteq> agent_status_active \<and> status \<noteq> agent_status_disabled
      then Inl (SE_InvalidArgument ''status must be active or disabled'') else Inr ())"

definition validate_client_scopes :: "string list \<Rightarrow> service_error + unit" where
  "validate_client_scopes scopes =
     (if scopes = [] then Inl (SE_InvalidArgument ''at least one scope is required'')
      else case find (\<lambda>s. s \<notin> set KNOWN_SCOPES) scopes of
        Some s \<Rightarrow> Inl (SE_InvalidArgument (''unknown scope: '' @ s))
      | None \<Rightarrow> Inr ())"

text \<open>The \<^verbatim>\<open>Debug\<close> form of a string: quoted, with the common escapes.\<close>

definition escape_char :: "char \<Rightarrow> string" where
  "escape_char c =
     (if c = CHR 0x22 \<or> c = CHR 0x5C then [CHR 0x5C, c]
      else if c = CHR 0x0A then [CHR 0x5C, CHR ''n''] else if c = CHR 0x0D then [CHR 0x5C, CHR ''r'']
      else if c = CHR 0x09 then [CHR 0x5C, CHR ''t''] else if c = CHR 0x00 then [CHR 0x5C, CHR ''0''] else [c])"

definition debug_str :: "string \<Rightarrow> string" where
  "debug_str s = CHR 0x22 # concat (map escape_char s) @ [CHR 0x22]"

fun check_delegation_scopes :: "string list \<Rightarrow> string list \<Rightarrow> service_error + unit" where
  "check_delegation_scopes seen [] = Inr ()"
| "check_delegation_scopes seen (scope # rest) =
     (if scope = [] \<or> MAX_SCOPE_LEN < length scope \<or> has_whitespace scope
      then Inl (SE_InvalidArgument (''invalid scope: '' @ debug_str scope))
      else if scope \<in> set seen then Inl (SE_InvalidArgument (''duplicate scope: '' @ scope))
      else check_delegation_scopes (scope # seen) rest)"

definition validate_delegation_scopes :: "string list \<Rightarrow> service_error + unit" where
  "validate_delegation_scopes scopes =
     (if scopes = [] then Inl (SE_InvalidArgument ''at least one scope is required'')
      else if MAX_DELEGATION_SCOPES < length scopes
      then Inl (SE_InvalidArgument ''at most 64 scopes are allowed'')
      else check_delegation_scopes [] scopes)"

lemma check_delegation_scopes_ok:
  "check_delegation_scopes seen scopes = Inr u \<longleftrightarrow>
     distinct scopes \<and> set scopes \<inter> set seen = {}
     \<and> (\<forall>s \<in> set scopes. s \<noteq> [] \<and> length s \<le> MAX_SCOPE_LEN \<and> \<not> has_whitespace s)"
  by (induction seen scopes rule: check_delegation_scopes.induct) auto

section \<open>Handlers\<close>

definition require_active_member ::
  "string \<Rightarrow> string \<Rightarrow> ('z pg_scheme, service_error, unit) io" where
  "require_active_member tenant_id identity_id =
     attempt (membership_get tenant_id identity_id) (\<lambda>r. case r of
         Inr row \<Rightarrow> if tm_state row = ''active'' then ret ()
                   else raise (SE_PermissionDenied ''identity is not an active tenant member'')
       | Inl e \<Rightarrow> if e = MembershipNotFound
                 then raise (SE_PermissionDenied ''identity is not a tenant member'')
                 else raise (service_error_of_db e))"

definition agent_client_payload :: "string \<Rightarrow> string \<Rightarrow> string list \<Rightarrow> json" where
  "agent_client_payload agent_id name scope =
     JObj [(''client_id'', JStr agent_id), (''client_name'', JStr name),
           (''grant_types'', JArr [JStr ''client_credentials'']),
           (''scope'', JStr (join_with '' '' scope)),
           (''token_endpoint_auth_method'', JStr ''client_secret_basic'')]"

definition create_agent ::
  "('c, 'd, 'h) agent_service \<Rightarrow> request_context \<Rightarrow> string \<Rightarrow> string list
    \<Rightarrow> (('c, 'd, 'h) world, service_error, agent_proto) io" where
  "create_agent svc ctx name scope =
     bindE (lift_result (require_tenant ctx)) (\<lambda>tenant_id.
     bindE (lift_result (require_scope ctx SCOPE_AGENT_ADMIN)) (\<lambda>_.
     bindE (guard_err (name = []) (SE_InvalidArgument ''name is required'')) (\<lambda>_.
     bindE (lift_result (validate_client_scopes scope)) (\<lambda>_.
     let owner = (case rx_auth ctx of
                    Some a \<Rightarrow> if ac_subject_type a = User then Some (ac_subject a) else None
                  | None \<Rightarrow> None)
     in bindE (dbq (agent_create tenant_id owner name)) (\<lambda>agent.
     attempt (hydra_call (hy_create_oauth2_client (as_hydra svc)
                (agent_client_payload (ag_id agent) name scope))) (\<lambda>created. case created of
         Inl e \<Rightarrow>
           bindE (best_effort (agent_delete tenant_id (ag_id agent))) (\<lambda>_.
           raise (map_ory_error e))
       | Inr v \<Rightarrow>
           let ory_id = (case as_str (json_index v ''client_id'') of Some i \<Rightarrow> i | None \<Rightarrow> ag_id agent);
               client_secret = (case as_str (json_index v ''client_secret'') of Some s \<Rightarrow> s | None \<Rightarrow> [])
           in attempt (id_mapping_create tenant_id ''hydra'' (ag_id agent) ory_id) (\<lambda>m. case m of
                  Inl e \<Rightarrow>
                    bindE (best_effort (hydra_call (hy_delete_oauth2_client (as_hydra svc) ory_id))) (\<lambda>_.
                    bindE (best_effort (agent_delete tenant_id (ag_id agent))) (\<lambda>_.
                    raise (service_error_of_db e)))
                | Inr _ \<Rightarrow> ret ((agent_to_proto agent)\<lparr>pa_client_secret := client_secret\<rparr>))))))))"

definition get_agent ::
  "request_context \<Rightarrow> string \<Rightarrow> ('z pg_scheme, service_error, agent_proto) io" where
  "get_agent ctx i =
     bindE (lift_result (require_tenant ctx)) (\<lambda>tenant_id.
     bindE (lift_result (require_scope_any ctx [SCOPE_AGENT_READ, SCOPE_AGENT_ADMIN])) (\<lambda>_.
     bindE (dbq (agent_get tenant_id i)) (\<lambda>agent.
     ret (agent_to_proto agent))))"

definition list_agents ::
  "codec \<Rightarrow> request_context \<Rightarrow> page_request option
    \<Rightarrow> ('z pg_scheme, service_error, agent_proto list \<times> page_response) io" where
  "list_agents cd ctx page =
     bindE (lift_result (require_tenant ctx)) (\<lambda>tenant_id.
     bindE (lift_result (require_scope_any ctx [SCOPE_AGENT_READ, SCOPE_AGENT_ADMIN])) (\<lambda>_.
     bindE (lift_result (page_params (b64_decode cd) page)) (\<lambda>(limit, after).
     bindE (dbq (agent_list_page tenant_id limit after)) (\<lambda>(rows, total).
     let token = next_page_token (b64_encode cd)
                   (if rows = [] then None else Some (agent_cursor (last rows))) (length rows) limit
     in ret (map agent_to_proto rows, \<lparr>pr_next_page_token = token, pr_total_size = total mod 2 ^ 32\<rparr>)))))"

definition rename_hydra_client ::
  "('c, 'd, 'h) agent_service \<Rightarrow> string \<Rightarrow> string \<Rightarrow> string
    \<Rightarrow> (('c, 'd, 'h) world, 'e, unit) io" where
  "rename_hydra_client svc tenant_id agent_id name =
     attempt (get_ory_id tenant_id ''hydra'' agent_id) (\<lambda>r. case r of
         Inl _ \<Rightarrow> ret ()
       | Inr ory_id \<Rightarrow>
           attempt (hydra_call (hy_get_oauth2_client (as_hydra svc) ory_id)) (\<lambda>c. case c of
               Inl _ \<Rightarrow> ret ()
             | Inr client \<Rightarrow>
                 best_effort (hydra_call (hy_update_oauth2_client (as_hydra svc) ory_id
                   (json_set client ''client_name'' (JStr name))))))"

definition update_agent ::
  "('c, 'd, 'h) agent_service \<Rightarrow> request_context \<Rightarrow> string \<Rightarrow> string \<Rightarrow> string
    \<Rightarrow> (('c, 'd, 'h) world, service_error, agent_proto) io" where
  "update_agent svc ctx i name status =
     bindE (lift_result (require_tenant ctx)) (\<lambda>tenant_id.
     bindE (lift_result (require_scope ctx SCOPE_AGENT_ADMIN)) (\<lambda>_.
     bindE (dbq (agent_get tenant_id i)) (\<lambda>agent.
     bindE (if status \<noteq> [] then lift_result (validate_status status) else ret ()) (\<lambda>_.
     bindE (if name \<noteq> [] \<and> name \<noteq> ag_name agent
            then bindE (dbq (agent_set_name tenant_id i name)) (\<lambda>agent'.
                 bindE (rename_hydra_client svc tenant_id i name) (\<lambda>_. ret agent'))
            else ret agent) (\<lambda>agent1.
     bindE (if status \<noteq> [] \<and> status \<noteq> ag_status agent1
            then bindE (dbq (agent_set_status tenant_id i status)) (\<lambda>agent'.
                 bindE (invalidate_agent (as_authority svc) i) (\<lambda>_. ret agent'))
            else ret agent1) (\<lambda>agent2.
     ret (agent_to_proto agent2)))))))"

definition delete_agent ::
  "('c, 'd, 'h) agent_service \<Rightarrow> request_context \<Rightarrow> string
    \<Rightarrow> (('c, 'd, 'h) world, service_error, unit) io" where
  "delete_agent svc ctx i =
     bindE (lift_result (require_tenant ctx)) (\<lambda>tenant_id.
     bindE (lift_result (require_scope ctx SCOPE_AGENT_ADMIN)) (\<lambda>_.
     bindE (dbq (agent_delete tenant_id i)) (\<lambda>_.
     bindE (attempt (get_ory_id tenant_id ''hydra'' i) (\<lambda>r. case r of
              Inl _ \<Rightarrow> ret ()
            | Inr ory_id \<Rightarrow> best_effort (hydra_call (hy_delete_oauth2_client (as_hydra svc) ory_id)))) (\<lambda>_.
     bindE (best_effort (id_mapping_delete tenant_id ''hydra'' i)) (\<lambda>_.
     invalidate_agent (as_authority svc) i)))))"

definition rotate_agent_secret ::
  "('c, 'd, 'h) agent_service \<Rightarrow> request_context \<Rightarrow> string
    \<Rightarrow> (('c, 'd, 'h) world, service_error, string \<times> string) io" where
  "rotate_agent_secret svc ctx i =
     bindE (lift_result (require_tenant ctx)) (\<lambda>tenant_id.
     bindE (lift_result (require_scope ctx SCOPE_AGENT_ADMIN)) (\<lambda>_.
     bindE (dbq (agent_get tenant_id i)) (\<lambda>_.
     bindE (dbq (get_ory_id tenant_id ''hydra'' i)) (\<lambda>ory_id.
     bindE (map_err map_ory_error (hydra_call (hy_rotate_client_secret (as_hydra svc) ory_id))) (\<lambda>rotated.
     bindE (lift_result (ok_or (SE_Internal ''hydra response missing client_secret'')
              (as_str (json_index rotated ''client_secret'')))) (\<lambda>client_secret.
     ret (i, client_secret)))))))"

definition create_agent_delegation ::
  "request_context \<Rightarrow> string \<Rightarrow> string list \<Rightarrow> timestamp option
    \<Rightarrow> ('z pg_scheme, service_error, delegation_proto) io" where
  "create_agent_delegation ctx agent_id scope expires =
     bindE (lift_result (require_tenant ctx)) (\<lambda>tenant_id.
     bindE (lift_result (require_subject_type ctx User)) (\<lambda>_.
     bindE (lift_result (require_auth ctx)) (\<lambda>auth.
     bindE (dbq (agent_get tenant_id agent_id)) (\<lambda>agent.
     bindE (guard_err (ag_status agent \<noteq> agent_status_active)
              (SE_InvalidArgument (''agent '' @ ag_id agent @ '' is not active''))) (\<lambda>_.
     bindE (require_active_member tenant_id (ac_subject auth)) (\<lambda>_.
     bindE (lift_result (validate_delegation_scopes scope)) (\<lambda>_.
     bindE (lift_result (from_proto_timestamp expires)) (\<lambda>at.
     bindE (lift_result (ok_or (SE_InvalidArgument ''expires_at is required'') at)) (\<lambda>expires_at.
     bindE now_utc (\<lambda>now.
     bindE (guard_err (expires_at \<le> now) (SE_InvalidArgument ''expires_at must be in the future'')) (\<lambda>_.
     bindE (dbq (delegation_create tenant_id (ag_id agent) (ac_subject auth) scope expires_at)) (\<lambda>row.
     ret (delegation_to_proto row)))))))))))))"

definition list_agent_delegations ::
  "codec \<Rightarrow> request_context \<Rightarrow> string \<Rightarrow> page_request option
    \<Rightarrow> ('z pg_scheme, service_error, delegation_proto list \<times> page_response) io" where
  "list_agent_delegations cd ctx agent_id page =
     bindE (lift_result (require_tenant ctx)) (\<lambda>tenant_id.
     bindE (lift_result (require_auth ctx)) (\<lambda>auth.
     bindE (lift_result (page_params (b64_decode cd) page)) (\<lambda>(limit, after).
     bindE (if agent_id = []
            then bindE (lift_result (require_subject_type ctx User)) (\<lambda>_.
                 dbq (delegation_list_page_by_user tenant_id (ac_subject auth) limit after))
            else bindE (lift_result (require_scope_any ctx [SCOPE_AGENT_READ, SCOPE_AGENT_ADMIN])) (\<lambda>_.
                 dbq (delegation_list_page_by_agent tenant_id agent_id limit after))) (\<lambda>(rows, total).
     let token = next_page_token (b64_encode cd)
                   (if rows = [] then None else Some (delegation_cursor (last rows))) (length rows) limit
     in ret (map delegation_to_proto rows, \<lparr>pr_next_page_token = token, pr_total_size = total mod 2 ^ 32\<rparr>)))))"

definition revoke_agent_delegation ::
  "('c, 'd, 'h) agent_service \<Rightarrow> request_context \<Rightarrow> string
    \<Rightarrow> (('c, 'd, 'h) world, service_error, delegation_proto) io" where
  "revoke_agent_delegation svc ctx i =
     bindE (lift_result (require_tenant ctx)) (\<lambda>tenant_id.
     bindE (lift_result (require_auth ctx)) (\<lambda>auth.
     bindE (dbq (delegation_get tenant_id i)) (\<lambda>delegation.
     let is_owner = (ac_subject_type auth = User \<and> ac_subject auth = dg_user_identity_id delegation);
         is_admin = (SCOPE_AGENT_ADMIN \<in> set (ac_scopes auth))
     in bindE (guard_err (\<not> is_owner \<and> \<not> is_admin)
              (SE_PermissionDenied ''only the delegating user or an agent:admin may revoke'')) (\<lambda>_.
     bindE (dbq (delegation_revoke tenant_id i)) (\<lambda>row.
     bindE (invalidate_delegation (as_authority svc) i) (\<lambda>_.
     ret (delegation_to_proto row)))))))"

definition mint_agent_act_token ::
  "('c, 'd, 'h) agent_service \<Rightarrow> request_context \<Rightarrow> string
    \<Rightarrow> (('c, 'd, 'h) world, service_error, string \<times> nat) io" where
  "mint_agent_act_token svc ctx delegation_id =
     bindE (lift_result (require_tenant ctx)) (\<lambda>tenant_id.
     bindE (lift_result (require_subject_type ctx Agent)) (\<lambda>_.
     bindE (lift_result (require_scope ctx SCOPE_AGENT_ACT)) (\<lambda>_.
     bindE (lift_result (require_auth ctx)) (\<lambda>auth.
     bindE (dbq (agent_get tenant_id (ac_subject auth))) (\<lambda>agent.
     bindE (guard_err (ag_status agent \<noteq> agent_status_active) (SE_PermissionDenied ''agent is disabled'')) (\<lambda>_.
     bindE (dbq (delegation_get tenant_id delegation_id)) (\<lambda>delegation.
     bindE (guard_err (dg_agent_id delegation \<noteq> ac_subject auth)
              (SE_PermissionDenied ''delegation does not belong to this agent'')) (\<lambda>_.
     bindE now_utc (\<lambda>now.
     bindE (guard_err (dg_revoked_at delegation \<noteq> None) (SE_InvalidArgument ''delegation has been revoked'')) (\<lambda>_.
     bindE (guard_err (dg_expires_at delegation \<le> now) (SE_InvalidArgument ''delegation has expired'')) (\<lambda>_.
     bindE (require_active_member tenant_id (dg_user_identity_id delegation)) (\<lambda>_.
     bindE (dbq (mint (as_authority svc) delegation)) (\<lambda>(token, expires_in).
     ret (token, min expires_in (2 ^ 32 - 1)))))))))))))))"

record act_token_introspection =
  ai_active :: bool
  ai_sub :: string
  ai_act :: string
  ai_tenant_id :: string
  ai_scope :: "string list"
  ai_exp :: "timestamp option"

definition inactive_introspection :: act_token_introspection where
  "inactive_introspection = \<lparr>ai_active = False, ai_sub = [], ai_act = [], ai_tenant_id = [], ai_scope = [], ai_exp = None\<rparr>"

definition introspect_agent_act_token ::
  "('c, 'd, 'h) agent_service \<Rightarrow> request_context \<Rightarrow> string
    \<Rightarrow> (('c, 'd, 'h) world, service_error, act_token_introspection) io" where
  "introspect_agent_act_token svc ctx token =
     bindE (lift_result (require_tenant ctx)) (\<lambda>tenant_id.
     bindE (dbq (resolve_act_token (as_authority svc) token)) (\<lambda>resolution.
     ret (case resolution of
            None \<Rightarrow> inactive_introspection
          | Some res \<Rightarrow>
              if ar_tenant_id res = tenant_id
              then \<lparr>ai_active = True, ai_sub = ar_user_identity_id res, ai_act = ar_agent_id res,
                    ai_tenant_id = ar_tenant_id res, ai_scope = ar_scopes res,
                    ai_exp = opt_timestamp (Some (ar_expires_at res))\<rparr>
              else inactive_introspection)))"


section \<open>Sequences of calls\<close>

datatype agent_call =
    CreateAgent string "string list"
  | GetAgent string
  | ListAgents "page_request option"
  | UpdateAgent string string string
  | DeleteAgent string
  | RotateAgentSecret string
  | CreateAgentDelegation string "string list" "timestamp option"
  | ListAgentDelegations string "page_request option"
  | RevokeAgentDelegation string
  | MintAgentActToken string
  | IntrospectAgentActToken string

definition run_agent_call ::
  "('c, 'd, 'h) agent_service \<Rightarrow> request_context \<Rightarrow> agent_call \<Rightarrow> ('c, 'd, 'h) world \<Rightarrow> ('c, 'd, 'h) world" where
  "run_agent_call svc ctx call w =
     (case call of
        CreateAgent name scope \<Rightarrow> snd (create_agent svc ctx name scope w)
      | GetAgent i \<Rightarrow> snd (get_agent ctx i w)
      | ListAgents page \<Rightarrow> snd (list_agents (as_codec svc) ctx page w)
      | UpdateAgent i name status \<Rightarrow> snd (update_agent svc ctx i name status w)
      | DeleteAgent i \<Rightarrow> snd (delete_agent svc ctx i w)
      | RotateAgentSecret i \<Rightarrow> snd (rotate_agent_secret svc ctx i w)
      | CreateAgentDelegation a scope e \<Rightarrow> snd (create_agent_delegation ctx a scope e w)
      | ListAgentDelegations a page \<Rightarrow> snd (list_agent_delegations (as_codec svc) ctx a page w)
      | RevokeAgentDelegation i \<Rightarrow> snd (revoke_agent_delegation svc ctx i w)
      | MintAgentActToken i \<Rightarrow> snd (mint_agent_act_token svc ctx i w)
      | IntrospectAgentActToken token \<Rightarrow> snd (introspect_agent_act_token svc ctx token w))"

text \<open>A history of one replica: calls by any callers, and time passing.\<close>

datatype agent_event = Call request_context agent_call | Wait duration

definition run_agent_event ::
  "('c, 'd, 'h) agent_service \<Rightarrow> ('c, 'd, 'h) world \<Rightarrow> agent_event \<Rightarrow> ('c, 'd, 'h) world" where
  "run_agent_event svc w ev =
     (case ev of
        Call ctx call \<Rightarrow> run_agent_call svc ctx call w
      | Wait t \<Rightarrow> w\<lparr>pg_now := pg_now w + t\<rparr>)"

section \<open>What every call keeps\<close>

text \<open>From \<open>P\<close> before to \<open>Q\<close> after, whatever the result.\<close>

definition moves :: "('s \<Rightarrow> bool) \<Rightarrow> ('s, 'e, 'a) io \<Rightarrow> ('s \<Rightarrow> bool) \<Rightarrow> bool" where
  "moves P m Q \<longleftrightarrow> (\<forall>s. P s \<longrightarrow> Q (snd (m s)))"

lemma moves_bindE:
  "keeps P m \<Longrightarrow> (\<And>s. P s \<Longrightarrow> Q s) \<Longrightarrow> (\<And>x. moves P (f x) Q) \<Longrightarrow> moves P (bindE m f) Q"
  by (fastforce simp: moves_def keeps_def bindE_def split: prod.splits sum.splits)

lemma moves_bindE_last: "moves P m Q \<Longrightarrow> (\<And>x. keeps Q (f x)) \<Longrightarrow> moves P (bindE m f) Q"
  by (fastforce simp: moves_def keeps_def bindE_def split: prod.splits sum.splits)

lemma keeps_bindE_moves:
  assumes "keeps I m" and "\<And>x s t. I s \<Longrightarrow> m s = (Inr x, t) \<Longrightarrow> G x t"
    and "\<And>x. moves (\<lambda>s. I s \<and> G x s) (f x) I"
  shows "keeps I (bindE m f)"
proof (rule keepsI)
  fix s r t
  assume I: "I s" and run: "bindE m f s = (r, t)"
  obtain y u where m: "m s = (y, u)" by fastforce
  have "I u" using keepsD [OF assms(1) I m] .
  then show "I t"
    using run m assms(2) [OF I] assms(3) by (cases y) (fastforce simp: bindE_def moves_def)+
qed

lemma delegation_get_Inr:
  assumes "delegation_get t i w = (Inr d, v)"
  shows "d \<in> set (agent_delegations (pg_db w)) \<and> dg_tenant_id d = t \<and> dg_id d = i
    \<and> v = w\<lparr>pg_queries := Suc (pg_queries w)\<rparr>"
  using pg_query_Inr [OF assms [unfolded delegation_get_def]] by (auto dest: find_SomeD)

lemma require_active_member_db: "keeps (\<lambda>w. J (pg_db w)) (require_active_member t i)"
  unfolding require_active_member_def membership_get_def by (intro keeps_rules)

text \<open>
  The interface of the handlers to the stores, the authority and Hydra, as far as a state
  predicate \<open>K\<close> is concerned: each operation they call keeps it. Then every handler does.
\<close>

locale agent_calls_keep =
  fixes svc :: "('c, 'd, 'h) agent_service" and K :: "('c, 'd, 'h) world \<Rightarrow> bool"
  assumes k_agent_create: "keeps K (agent_create t ow n)"
    and k_agent_get: "keeps K (agent_get t i)"
    and k_agent_list_page: "keeps K (agent_list_page t lim after)"
    and k_agent_set_name: "keeps K (agent_set_name t i n)"
    and k_agent_set_status: "keeps K (agent_set_status t i st)"
    and k_agent_delete: "keeps K (agent_delete t i)"
    and k_get_ory_id: "keeps K (get_ory_id t b p)"
    and k_mapping_create: "keeps K (id_mapping_create t b p g)"
    and k_mapping_delete: "keeps K (id_mapping_delete t b p)"
    and k_delegation_create: "keeps K (delegation_create t a u sc e)"
    and k_delegation_get: "keeps K (delegation_get t i)"
    and k_delegation_list: "keeps K (delegation_list_page_by column t v lim after)"
    and k_delegation_revoke: "keeps K (delegation_revoke t i)"
    and k_membership_get: "keeps K (membership_get t i)"
    and k_hydra_json: "keeps K (hydra_call (mj :: ('h, ory_error, json) io))"
    and k_hydra_unit: "keeps K (hydra_call (mu :: ('h, ory_error, unit) io))"
    and k_invalidate_agent: "keeps K (invalidate_agent (as_authority svc) i :: (_, service_error, unit) io)"
    and k_invalidate_delegation: "keeps K (invalidate_delegation (as_authority svc) i :: (_, service_error, unit) io)"
    and k_resolve: "keeps K (resolve_act_token (as_authority svc) token)"
    and k_mint: "K w \<Longrightarrow> d \<in> set (agent_delegations (pg_db w)) \<Longrightarrow> K (snd (mint (as_authority svc) d w))"
    and k_wait: "K w \<Longrightarrow> K (w\<lparr>pg_now := later\<rparr>)"
begin

lemmas store_keeps = k_agent_create k_agent_get k_agent_list_page k_agent_set_name k_agent_set_status
  k_agent_delete k_get_ory_id k_mapping_create k_mapping_delete k_delegation_create k_delegation_get
  k_delegation_list k_delegation_revoke k_membership_get k_hydra_json k_hydra_unit k_invalidate_agent
  k_invalidate_delegation k_resolve keeps_now_utc

lemma create_agent_keeps: "keeps K (create_agent svc ctx name scope)"
  unfolding create_agent_def Let_def by (intro keeps_rules store_keeps)

lemma get_agent_keeps: "keeps K (get_agent ctx i)"
  unfolding get_agent_def by (intro keeps_rules store_keeps)

lemma list_agents_keeps: "keeps K (list_agents cd ctx page)"
  unfolding list_agents_def Let_def by (intro keeps_rules store_keeps)

lemma update_agent_keeps: "keeps K (update_agent svc ctx i name status)"
  unfolding update_agent_def rename_hydra_client_def by (intro keeps_rules store_keeps)

lemma delete_agent_keeps: "keeps K (delete_agent svc ctx i)"
  unfolding delete_agent_def by (intro keeps_rules store_keeps)

lemma rotate_agent_secret_keeps: "keeps K (rotate_agent_secret svc ctx i)"
  unfolding rotate_agent_secret_def by (intro keeps_rules store_keeps)

lemma require_active_member_keeps: "keeps K (require_active_member t i)"
  unfolding require_active_member_def by (intro keeps_rules store_keeps)

lemma create_agent_delegation_keeps: "keeps K (create_agent_delegation ctx a scope e)"
  unfolding create_agent_delegation_def by (intro keeps_rules store_keeps require_active_member_keeps)

lemma list_agent_delegations_keeps: "keeps K (list_agent_delegations cd ctx a page)"
  unfolding list_agent_delegations_def Let_def delegation_list_page_by_user_def delegation_list_page_by_agent_def
  by (intro keeps_rules store_keeps)

lemma revoke_agent_delegation_keeps: "keeps K (revoke_agent_delegation svc ctx i)"
  unfolding revoke_agent_delegation_def Let_def by (intro keeps_rules store_keeps)

lemma mint_handler_keeps: "keeps K (mint_agent_act_token svc ctx i)"
proof -
  have mint: "moves (\<lambda>s. K s \<and> d \<in> set (agent_delegations (pg_db s))) (dbq (mint (as_authority svc) d)) K" for d
    using k_mint by (auto simp: moves_def map_err_def split: prod.splits sum.splits) (metis snd_conv)+
  have member: "keeps (\<lambda>s. K s \<and> d \<in> set (agent_delegations (pg_db s))) (require_active_member t u)" for d t u
    by (rule keeps_conj [OF require_active_member_keeps require_active_member_db])
  have step: "keeps K (dbq (delegation_get t i))" for t by (intro keeps_rules store_keeps)
  have got: "x \<in> set (agent_delegations (pg_db u))" if "dbq (delegation_get t i) w = (Inr x, u)" for t x w u
    using delegation_get_Inr that by (fastforce simp: map_err_Inr)
  show ?thesis
    unfolding mint_agent_act_token_def
    apply (rule keeps_bindE [OF keeps_lift_result])+
    apply (rule keeps_bindE [OF keeps_map_err [OF k_agent_get]])
    apply (rule keeps_bindE [OF keeps_guard_err])
    apply (rule keeps_bindE_moves [where G = "\<lambda>d s. d \<in> set (agent_delegations (pg_db s))", OF step got])
     apply assumption
    apply (rule moves_bindE [OF keeps_guard_err], simp)
    apply (rule moves_bindE [OF keeps_now_utc], simp)
    apply (rule moves_bindE [OF keeps_guard_err], simp)
    apply (rule moves_bindE [OF keeps_guard_err], simp)
    apply (rule moves_bindE [OF member], simp)
    apply (rule moves_bindE_last [OF mint])
    apply (intro keeps_rules)
    done
qed

lemma introspect_keeps: "keeps K (introspect_agent_act_token svc ctx token)"
  unfolding introspect_agent_act_token_def by (intro keeps_rules store_keeps)

lemma call_keeps: "K w \<Longrightarrow> K (run_agent_call svc ctx call w)"
  by (cases call)
     (simp_all add: run_agent_call_def keepsD_snd create_agent_keeps get_agent_keeps list_agents_keeps
       update_agent_keeps delete_agent_keeps rotate_agent_secret_keeps create_agent_delegation_keeps
       list_agent_delegations_keeps revoke_agent_delegation_keeps mint_handler_keeps introspect_keeps)

lemma events_keep: "K w \<Longrightarrow> K (foldl (run_agent_event svc) w events)"
  by (induction events arbitrary: w)
     (auto simp: run_agent_event_def intro: call_keeps k_wait split: agent_event.split)

end


subsection \<open>The invariants of the agent tables\<close>

lemma keeps_hydra_call [keeps_rules]: "keeps (\<lambda>w. J (pg_db w)) (hydra_call m)"
  by (simp add: keeps_def hydra_call_def split: prod.splits)

lemma keeps_caches [keeps_rules]:
  "keeps (\<lambda>w. J (pg_db w)) (act_cache_get au k)"
  "keeps (\<lambda>w. J (pg_db w)) (act_cache_insert au k v)"
  "keeps (\<lambda>w. J (pg_db w)) (act_cache_evict au P)"
  "keeps (\<lambda>w. J (pg_db w)) (status_cache_invalidate au k)"
  "keeps (\<lambda>w. J (pg_db w)) (publish au m)"
  "keeps (\<lambda>w. J (pg_db w)) random_bytes"
  by (simp_all add: keeps_def act_cache_get_def act_cache_insert_def act_cache_evict_def
      status_cache_invalidate_def publish_def random_bytes_def split: prod.splits option.splits)

lemma keeps_resolve: "keeps (\<lambda>w. J (pg_db w)) (resolve_act_token au token)"
  unfolding resolve_act_token_def Let_def act_token_get_by_hash_def validate_act_token_row_def
    delegation_get_by_id_def agent_get_status_def
  by (intro keeps_rules)

lemma keeps_invalidate:
  "keeps (\<lambda>w. J (pg_db w)) (invalidate_agent au i)"
  "keeps (\<lambda>w. J (pg_db w)) (invalidate_delegation au i)"
  unfolding invalidate_agent_def evict_agent_def invalidate_delegation_def evict_delegation_def
  by (intro keeps_rules)+

lemma id_mapping_agent_inv [stmt_rules]:
  "stmt_keeps agent_inv (id_mapping_insert_stmt i t b p g)"
  "stmt_keeps agent_inv (id_mapping_delete_stmt t b p)"
  by (auto intro!: stmt_keepsI simp: id_mapping_insert_stmt_def id_mapping_delete_stmt_def Let_def violates_def
      agent_inv_def agent_tables_ok_def act_tokens_bound_def tenant_exists_def)

lemma mint_keeps_inv:
  assumes "agent_inv (pg_db w)" and "d \<in> set (agent_delegations (pg_db w))"
  shows "agent_inv (pg_db (snd (mint au d w)))"
proof -
  let ?h = "hash_token (au_crypto au) (''sat_'' @ au_hex au (w_random w (w_randoms w)))"
  let ?st = "act_token_insert_stmt ?h (dg_id d) (dg_tenant_id d) (dg_agent_id d) (dg_user_identity_id d) (dg_scopes d)
      (min (pg_now w + au_act_token_ttl au) (dg_expires_at d))"
  have uniq: "d' = d" if "d' \<in> set (agent_delegations (pg_db w))" "dg_id d' = dg_id d" for d'
    using assms that key_uniqueD [of dg_id "agent_delegations (pg_db w)" d' d]
    by (simp add: agent_inv_def agent_tables_ok_def)
  have st: "agent_inv (snd (?st (pg_now w) (pg_db w)))"
  proof (rule act_token_insert_keeps [where J = "\<lambda>x. x = pg_db w"])
    fix db d'
    assume "d' \<in> set (agent_delegations db)" and "dg_id d' = dg_id d" and "db = pg_db w"
    then have "d' = d" using uniq by simp
    then show "dg_tenant_id d' = dg_tenant_id d \<and> dg_agent_id d' = dg_agent_id d
        \<and> dg_user_identity_id d' = dg_user_identity_id d \<and> dg_scopes d' = dg_scopes d
        \<and> min (pg_now w + au_act_token_ttl au) (dg_expires_at d) \<le> dg_expires_at d'" by simp
  qed (use assms in simp_all)
  have "pg_db (snd (mint au d w)) \<in> {pg_db w, snd (?st (pg_now w) (pg_db w))}"
    by (simp add: mint_def random_bytes_def now_utc_def io_defs Let_def act_token_insert_def pg_exec_def
        split: prod.splits option.splits fault.splits sum.splits)
  then show ?thesis using st assms(1) by auto
qed

interpretation agent_tables: agent_calls_keep svc "\<lambda>w. agent_inv (pg_db w)" for svc
proof (unfold_locales, goal_cases)
  case (20 w d)
  then show ?case by (rule mint_keeps_inv)
next
  case 21
  then show ?case by simp
qed (simp_all only: agent_create_def agent_get_def agent_list_page_def agent_set_name_def agent_set_status_def
      agent_delete_def get_ory_id_def id_mapping_create_def id_mapping_delete_def delegation_create_def
      delegation_get_def delegation_list_page_by_def delegation_revoke_def membership_get_def Let_def
      keeps_resolve keeps_invalidate,
    (intro keeps_rules stmt_rules; simp)+)


subsection \<open>A revoked delegation\<close>

text \<open>
  The delegation is revoked or gone in the database, no cached entry names it, and no
  identifier drawn later is its id.
\<close>

definition revoked_here ::
  "duration \<Rightarrow> ('c \<Rightarrow> (string \<times> act_token_resolution option \<times> instant) set) \<Rightarrow> string
    \<Rightarrow> ('c, 'd, 'h) agent_service \<Rightarrow> ('c, 'd, 'h) world \<Rightarrow> bool" where
  "revoked_here ttl E did svc w \<longleftrightarrow>
     moka_ok ttl E (au_act_cache (as_authority svc)) \<and> delegation_dead did (pg_db w)
     \<and> cache_free_of E (\<lambda>res. ar_delegation_id res = did) w
     \<and> (\<forall>n \<ge> pg_ulids w. pg_ulid w n \<noteq> did)"

lemma dead_stmts [stmt_rules]:
  "stmt_keeps (delegation_dead did) (agent_insert_stmt i t ow n)"
  "stmt_keeps (delegation_dead did) (agent_update_stmt f t i)"
  "stmt_keeps (delegation_dead did) (agent_delete_stmt t i)"
  "stmt_keeps (delegation_dead did) (delegation_revoke_stmt t i)"
  "stmt_keeps (delegation_dead did) (id_mapping_insert_stmt i t b p g)"
  "stmt_keeps (delegation_dead did) (id_mapping_delete_stmt t b p)"
  "stmt_keeps (delegation_dead did) (act_token_insert_stmt h i t a u sc e)"
  by (auto intro!: stmt_keepsI simp: delegation_dead_def agent_insert_stmt_def agent_update_stmt_def
      agent_delete_stmt_def delegation_revoke_stmt_def id_mapping_insert_stmt_def id_mapping_delete_stmt_def
      act_token_insert_stmt_def Let_def violates_def revoke_row_def split: option.splits)

lemma pg_exec_frame [simp]:
  "w_act_cache (snd (pg_exec st w)) = w_act_cache w" "pg_ulids (snd (pg_exec st v)) = pg_ulids v"
  "pg_ulid (snd (pg_exec st v)) = pg_ulid v"
  by (simp_all add: pg_exec_def Let_def split: prod.splits option.splits fault.splits)

lemma keeps_revoked_exec:
  assumes "stmt_keeps (delegation_dead did) st"
  shows "keeps (revoked_here ttl E did svc) (pg_exec st)"
proof (rule keepsI)
  fix s r t
  assume K: "revoked_here ttl E did svc s" and run: "pg_exec st s = (r, t)"
  have "delegation_dead did (pg_db t)"
    using keepsD [OF keeps_pg_exec [OF assms] _ run] K by (simp add: revoked_here_def)
  moreover have "t = snd (pg_exec st s)" by (simp add: run)
  ultimately show "revoked_here ttl E did svc t"
    using K by (simp add: revoked_here_def cache_free_of_def)
qed

lemma keeps_revoked_query: "keeps (revoked_here ttl E did svc) (pg_query q)"
  unfolding pg_query_def by (rule keeps_revoked_exec) (simp add: stmt_keeps_def)

lemma keeps_revoked_ulid: "keeps (revoked_here ttl E did svc) ulid_new"
  by (simp add: keeps_def ulid_new_def revoked_here_def cache_free_of_def)

lemma keeps_revoked_create: "keeps (revoked_here ttl E did svc) (delegation_create t a u sc e)"
proof (rule keepsI)
  fix s r v
  assume K: "revoked_here ttl E did svc s" and run: "delegation_create t a u sc e s = (r, v)"
  let ?i = "pg_ulid s (pg_ulids s)" and ?u = "s\<lparr>pg_ulids := Suc (pg_ulids s)\<rparr>"
  have "?i \<noteq> did" using K by (simp add: revoked_here_def)
  then have "stmt_keeps (delegation_dead did) (delegation_insert_stmt ?i t a u sc e)"
    by (auto intro!: stmt_keepsI simp: delegation_insert_stmt_def Let_def violates_def delegation_dead_def)
  moreover have "revoked_here ttl E did svc ?u" using K by (simp add: revoked_here_def cache_free_of_def)
  moreover have "pg_exec (delegation_insert_stmt ?i t a u sc e) ?u = (r, v)"
    using run by (simp add: delegation_create_def ulid_new_def bindE_def)
  ultimately show "revoked_here ttl E did svc v" using keepsD [OF keeps_revoked_exec] by blast
qed

lemma keeps_revoked_hydra: "keeps (revoked_here ttl E did svc) (hydra_call m)"
  by (simp add: keeps_def hydra_call_def revoked_here_def cache_free_of_def split: prod.splits)

text \<open>Operations on the caches may only shrink them, or add what the database says.\<close>

lemma keeps_revoked_evict:
  "keeps (revoked_here ttl E did svc) (act_cache_evict (as_authority svc) P)"
proof (rule keepsI)
  fix s r v
  assume K: "revoked_here ttl E did svc s" and run: "act_cache_evict (as_authority svc) P s = (r, v)"
  then have ok: "moka_ok ttl E (au_act_cache (as_authority svc))" by (simp add: revoked_here_def)
  have "E (w_act_cache v) \<subseteq> E (w_act_cache s)"
    using run moka_evict [OF ok] by (fastforce simp: act_cache_evict_def)
  then show "revoked_here ttl E did svc v"
    using K run by (auto simp: revoked_here_def cache_free_of_def act_cache_evict_def)
qed

lemma keeps_revoked_invalidate:
  "keeps (revoked_here ttl E did svc) (invalidate_agent (as_authority svc) i)"
  "keeps (revoked_here ttl E did svc) (invalidate_delegation (as_authority svc) i)"
proof -
  have pub: "keeps (revoked_here ttl E did svc) (publish (as_authority svc) m)" for m
    by (auto simp: keeps_def publish_def revoked_here_def cache_free_of_def split: option.splits)
  have st: "keeps (revoked_here ttl E did svc) (status_cache_invalidate (as_authority svc) i)"
    by (simp add: keeps_def status_cache_invalidate_def revoked_here_def cache_free_of_def)
  show "keeps (revoked_here ttl E did svc) (invalidate_agent (as_authority svc) i)"
    unfolding invalidate_agent_def evict_agent_def by (intro keeps_rules pub st keeps_revoked_evict)
  show "keeps (revoked_here ttl E did svc) (invalidate_delegation (as_authority svc) i)"
    unfolding invalidate_delegation_def evict_delegation_def by (intro keeps_rules pub keeps_revoked_evict)
qed

lemma resolve_ulids:
  assumes "resolve_act_token au token w = (x, v)"
  shows "pg_ulids v = pg_ulids w \<and> pg_ulid v = pg_ulid w"
proof -
  let ?I = "\<lambda>u. pg_ulids u = pg_ulids w \<and> pg_ulid u = pg_ulid w"
  have q: "keeps ?I (pg_query q')" for q'
    unfolding pg_query_def by (simp add: keeps_def)
  have c: "keeps ?I (act_cache_get au k)" "keeps ?I (act_cache_insert au k e)" for k e
    by (simp_all add: keeps_def act_cache_get_def act_cache_insert_def split: prod.splits)
  have "keeps ?I (resolve_act_token au token)"
    unfolding resolve_act_token_def Let_def act_token_get_by_hash_def validate_act_token_row_def
      delegation_get_by_id_def agent_get_status_def
    by (intro keeps_rules q c)
  from keepsD [OF this _ assms] show ?thesis by simp
qed

lemma keeps_revoked_resolve:
  "keeps (revoked_here ttl E did svc) (resolve_act_token (as_authority svc) token)"
proof (rule keepsI)
  fix s r v
  assume K: "revoked_here ttl E did svc s" and run: "resolve_act_token (as_authority svc) token s = (r, v)"
  then have ok: "moka_ok ttl E (au_act_cache (as_authority svc))" by (simp add: revoked_here_def)
  have same: "pg_db v = pg_db s" and sub: "E (w_act_cache v) \<subseteq> E (w_act_cache s)
      \<union> new_entries (pg_db s) (pg_now s) (hash_token (au_crypto (as_authority svc)) token)"
    using resolve_entries [OF ok run] by (auto simp: same_store_def)
  have "cache_free_of E (\<lambda>res. ar_delegation_id res = did) v"
    using sub K dead_grant unfolding cache_free_of_def revoked_here_def new_entries_def by fastforce
  then show "revoked_here ttl E did svc v"
    using K same resolve_ulids [OF run] by (simp add: revoked_here_def)
qed

lemma keeps_revoked_mint: "keeps (revoked_here ttl E did svc) (mint au d)"
proof -
  have "keeps (revoked_here ttl E did svc) random_bytes"
    by (simp add: keeps_def random_bytes_def revoked_here_def cache_free_of_def)
  then show ?thesis
    unfolding mint_def Let_def act_token_insert_def by (intro keeps_rules keeps_revoked_exec dead_stmts)
qed

interpretation revoked_calls: agent_calls_keep svc "revoked_here ttl E did svc" for svc ttl E did
proof (unfold_locales, goal_cases)
  case (20 w d)
  then show ?case using keepsD_snd [OF keeps_revoked_mint] by blast
next
  case 21
  then show ?case by (simp add: revoked_here_def cache_free_of_def)
qed (simp_all only: agent_create_def agent_get_def agent_list_page_def agent_set_name_def agent_set_status_def
      agent_delete_def get_ory_id_def id_mapping_create_def id_mapping_delete_def
      delegation_get_def delegation_list_page_by_def delegation_revoke_def membership_get_def Let_def
      keeps_revoked_resolve keeps_revoked_invalidate keeps_revoked_hydra keeps_revoked_create,
    (intro keeps_rules keeps_revoked_exec keeps_revoked_query keeps_revoked_ulid dead_stmts)+)


section \<open>What a successful call says\<close>

lemma agent_get_Inr:
  assumes "agent_get t i w = (Inr a, v)"
  shows "a \<in> set (agents (pg_db w)) \<and> ag_tenant_id a = t \<and> ag_id a = i
    \<and> v = w\<lparr>pg_queries := Suc (pg_queries w)\<rparr>"
  using pg_query_Inr [OF assms [unfolded agent_get_def]] by (auto dest: find_SomeD)

lemma require_active_member_Inr:
  assumes "require_active_member t i w = (Inr (), v)"
  shows "(\<exists>m \<in> set (tenant_memberships (pg_db w)). tm_tenant_id m = t \<and> tm_identity_id m = i \<and> tm_state m = ''active'')
    \<and> v = w\<lparr>pg_queries := Suc (pg_queries w)\<rparr>"
proof -
  obtain m where get: "membership_get t i w = (Inr m, v)" and "tm_state m = ''active''"
    using assms by (auto simp: require_active_member_def run_simps split: if_splits)
  moreover have "find (\<lambda>m. tm_tenant_id m = t \<and> tm_identity_id m = i) (tenant_memberships (pg_db w)) = Some m"
    and "v = w\<lparr>pg_queries := Suc (pg_queries w)\<rparr>"
    using pg_query_Inr [OF get [unfolded membership_get_def]] by auto
  ultimately show ?thesis by (auto dest: find_SomeD)
qed

lemma delegation_revoke_Inr:
  assumes "agent_inv (pg_db w)" and "delegation_revoke t i w = (Inr row, v)"
  shows "delegation_dead i (pg_db v) \<and> pg_ulids v = pg_ulids w \<and> pg_ulid v = pg_ulid w"
proof -
  let ?st = "delegation_revoke_stmt t i (pg_now w) (pg_db w)"
  have st: "fst ?st = Inr row" and v: "v = w\<lparr>pg_queries := Suc (pg_queries w), pg_db := snd ?st\<rparr>"
    using pg_exec_Inr [OF assms(2) [unfolded delegation_revoke_def]] by auto
  from st obtain d where f: "find (\<lambda>d. dg_tenant_id d = t \<and> dg_id d = i) (agent_delegations (pg_db w)) = Some d"
    by (auto simp: delegation_revoke_stmt_def split: option.splits)
  have "x = d" if "x \<in> set (agent_delegations (pg_db w))" "dg_id x = i" for x
    using assms(1) that find_SomeD [OF f] key_uniqueD [of dg_id "agent_delegations (pg_db w)" x d]
    by (simp add: agent_inv_def agent_tables_ok_def)
  then have "delegation_dead i (snd ?st)"
    using f find_SomeD [OF f] by (auto simp: delegation_revoke_stmt_def delegation_dead_def revoke_row_def
        split: option.splits)
  then show ?thesis by (simp add: v)
qed

lemma revoke_agent_delegation_Inr:
  assumes "revoke_agent_delegation svc ctx i w = (Inr p, v)"
  obtains t auth d row w1 w2 where "rx_tenant ctx = Some t" and "rx_auth ctx = Some auth"
    and "d \<in> set (agent_delegations (pg_db w))" "dg_tenant_id d = t" "dg_id d = i"
    and "(ac_subject_type auth = User \<and> ac_subject auth = dg_user_identity_id d) \<or> SCOPE_AGENT_ADMIN \<in> set (ac_scopes auth)"
    and "w1 = w\<lparr>pg_queries := Suc (pg_queries w)\<rparr>"
    and "delegation_revoke t i w1 = (Inr row, w2)"
    and "invalidate_delegation (as_authority svc) i w2 = (Inr () :: service_error + unit, v)"
proof -
  obtain t auth d row w1 w2 where r: "rx_tenant ctx = Some t" "rx_auth ctx = Some auth"
    and gd: "delegation_get t i w = (Inr d, w1)"
    and g: "(ac_subject_type auth = User \<and> ac_subject auth = dg_user_identity_id d) \<or> SCOPE_AGENT_ADMIN \<in> set (ac_scopes auth)"
    and rv: "delegation_revoke t i w1 = (Inr row, w2)"
    and inv: "invalidate_delegation (as_authority svc) i w2 = (Inr () :: service_error + unit, v)"
    using assms by (auto simp: revoke_agent_delegation_def Let_def run_simps)
  note D = delegation_get_Inr [OF gd]
  show thesis by (rule that [OF r _ _ _ g _ rv inv]) (use D in auto)
qed

lemma mint_agent_act_token_Inr:
  assumes "mint_agent_act_token svc ctx i w = (Inr (token, secs), v)"
  obtains t auth a d u n where "rx_tenant ctx = Some t" and "rx_auth ctx = Some auth"
    and "ac_subject_type auth = Agent" and "SCOPE_AGENT_ACT \<in> set (ac_scopes auth)"
    and "a \<in> set (agents (pg_db w))" "ag_tenant_id a = t" "ag_id a = ac_subject auth" "ag_status a = agent_status_active"
    and "d \<in> set (agent_delegations (pg_db w))" "dg_tenant_id d = t" "dg_id d = i"
    and "dg_agent_id d = ac_subject auth" "dg_revoked_at d = None" "pg_now w < dg_expires_at d"
    and "\<exists>m \<in> set (tenant_memberships (pg_db w)). tm_tenant_id m = t
          \<and> tm_identity_id m = dg_user_identity_id d \<and> tm_state m = ''active''"
    and "u = w\<lparr>pg_queries := Suc (Suc (Suc (pg_queries w)))\<rparr>"
    and "mint (as_authority svc) d u = (Inr (token, n), v)" and "secs = min n (2 ^ 32 - 1)"
proof -
  obtain t auth a d n w1 w2 w3 where r: "rx_tenant ctx = Some t" "rx_auth ctx = Some auth"
    "ac_subject_type auth = Agent" "SCOPE_AGENT_ACT \<in> set (ac_scopes auth)"
    and ga: "agent_get t (ac_subject auth) w = (Inr a, w1)" and a: "ag_status a = agent_status_active"
    and gd: "delegation_get t i w1 = (Inr d, w2)"
    and d: "dg_agent_id d = ac_subject auth" "dg_revoked_at d = None" "pg_now w2 < dg_expires_at d"
    and mem: "require_active_member t (dg_user_identity_id d) w2 = (Inr (), w3)"
    and m: "mint (as_authority svc) d w3 = (Inr (token, n), v)" "secs = min n (2 ^ 32 - 1)"
    using assms by (auto simp: mint_agent_act_token_def run_simps now_utc_def not_le)
  note A = agent_get_Inr [OF ga] and D = delegation_get_Inr [OF gd] and M = require_active_member_Inr [OF mem]
  show thesis
    by (rule that [OF r(1,2,3,4) _ _ _ a _ _ _ d(1,2) _ _ _ m(1,2)]) (use A D M d(3) in auto)
qed


lemma invalidate_delegation_ulids:
  assumes "invalidate_delegation au i w = (x, v)"
  shows "pg_ulids v = pg_ulids w \<and> pg_ulid v = pg_ulid w"
  using assms
  by (auto simp: invalidate_delegation_def evict_delegation_def act_cache_evict_def publish_def io_defs
      split: if_splits option.splits)

lemma revoke_reaches:
  assumes "moka_ok ttl E (au_act_cache (as_authority svc))" and "agent_inv (pg_db w)"
    and "\<forall>n \<ge> pg_ulids w. pg_ulid w n \<noteq> did" and "revoke_agent_delegation svc ctx did w = (Inr p, w1)"
  shows "revoked_here ttl E did svc w1"
  using assms(4)
proof (rule revoke_agent_delegation_Inr)
  fix t row u1 u2
  assume u1: "u1 = w\<lparr>pg_queries := Suc (pg_queries w)\<rparr>" and rv: "delegation_revoke t did u1 = (Inr row, u2)"
    and inv: "invalidate_delegation (as_authority svc) did u2 = (Inr () :: service_error + unit, w1)"
  have "delegation_dead did (pg_db u2) \<and> pg_ulids u2 = pg_ulids w \<and> pg_ulid u2 = pg_ulid w"
    using delegation_revoke_Inr [OF _ rv] assms(2) u1 by simp
  then show ?thesis
    using invalidate_delegation_effect [OF assms(1) inv] invalidate_delegation_ulids [OF inv] assms(1,3)
    by (simp add: revoked_here_def same_store_def)
qed

section \<open>Properties\<close>


definition sample_service :: "(act_token_resolution option list_cache, string option list_cache, unit) agent_service" where
  "sample_service =
     \<lparr>as_hydra = \<lparr>hy_create_oauth2_client = (\<lambda>_. ret (JObj [])), hy_get_oauth2_client = (\<lambda>_. ret (JObj [])),
        hy_update_oauth2_client = (\<lambda>_ v. ret v), hy_delete_oauth2_client = (\<lambda>_. ret ()),
        hy_rotate_client_secret = (\<lambda>_. ret (JObj []))\<rparr>,
      as_authority = sample_authority 5, as_codec = \<lparr>b64_encode = id, b64_decode = Some\<rparr>\<rparr>"

definition user_ctx :: request_context where
  "user_ctx = \<lparr>rx_auth = Some \<lparr>ac_tenant_id = ''T'', ac_subject = ''U'', ac_subject_type = User, ac_actor = None,
     ac_scopes = [], ac_token_hash = [], ac_authentication_methods = []\<rparr>, rx_tenant = Some ''T''\<rparr>"

definition agent_ctx :: request_context where
  "agent_ctx = \<lparr>rx_auth = Some \<lparr>ac_tenant_id = ''T'', ac_subject = ''A'', ac_subject_type = Agent, ac_actor = None,
     ac_scopes = [''agent:act''], ac_token_hash = [], ac_authentication_methods = []\<rparr>, rx_tenant = Some ''T''\<rparr>"

lemma sample_inv: "agent_inv sample_db"
  by (simp add: agent_inv_def agent_tables_ok_def act_tokens_bound_def bound_to_def tenant_exists_def
      key_unique_def sample_db_def empty_db_def)


text \<open>
  \<^bold>\<open>C3.\<close> Revoking a delegation is final: once \<^verbatim>\<open>RevokeAgentDelegation\<close> has returned successfully,
  no later history of agent-service calls on that replica makes any token resolve to the
  revoked delegation, provided no identifier drawn later repeats its id.
\<close>

theorem revoke_is_final:
  assumes "moka_ok ttl E (au_act_cache (as_authority svc))" and "agent_inv (pg_db w)"
    and "\<forall>n \<ge> pg_ulids w. pg_ulid w n \<noteq> did" and "revoke_agent_delegation svc ctx did w = (Inr p, w1)"
    and "resolve_act_token (as_authority svc) token (foldl (run_agent_event svc) w1 events) = (Inr (Some res), v)"
  shows "ar_delegation_id res \<noteq> did"
proof -
  let ?w2 = "foldl (run_agent_event svc) w1 events"
  have "revoked_here ttl E did svc ?w2"
    by (rule revoked_calls.events_keep) (rule revoke_reaches [OF assms(1-4)])
  then have "delegation_dead did (pg_db ?w2) \<and> cache_free_of E (\<lambda>res. ar_delegation_id res = did) ?w2"
    by (simp add: revoked_here_def)
  from cache_free_serves [where J = "delegation_dead did" and Q = "\<lambda>res. ar_delegation_id res = did",
      OF assms(1) _ this assms(5)] dead_grant show ?thesis by blast
qed

definition two_grants_db :: database where
  "two_grants_db = sample_db\<lparr>agent_delegations := agent_delegations sample_db
     @ [(hd (agent_delegations sample_db))\<lparr>dg_id := ''E''\<rparr>],
     agent_act_tokens := agent_act_tokens sample_db
       @ [(hd (agent_act_tokens sample_db))\<lparr>at_token_hash := ''sat_2'', at_delegation_id := ''E''\<rparr>]\<rparr>"

lemma two_grants_inv: "agent_inv two_grants_db"
  by (simp add: agent_inv_def agent_tables_ok_def act_tokens_bound_def bound_to_def tenant_exists_def
      key_unique_def two_grants_db_def sample_db_def empty_db_def)

lemmas agent_handler_defs = revoke_agent_delegation_def delegation_get_def delegation_revoke_def
  delegation_revoke_stmt_def invalidate_delegation_def evict_delegation_def act_cache_evict_def publish_def
  require_tenant_def require_auth_def revoke_row_def

theorem revoke_is_final_witness:
  "\<exists>p w1 v. revoke_agent_delegation sample_service user_ctx ''D'' (sample_world two_grants_db 0 ()) = (Inr p, w1)
     \<and> resolve_act_token (sample_authority 5) ''sat_2'' (foldl (run_agent_event sample_service) w1 [])
         = (Inr (Some (sample_resolution\<lparr>ar_delegation_id := ''E''\<rparr>)), v)
     \<and> ar_delegation_id (sample_resolution\<lparr>ar_delegation_id := ''E''\<rparr>) \<noteq> ''D''"
proof -
  let ?w = "sample_world two_grants_db 0 ()"
  obtain p w1 where rv: "revoke_agent_delegation sample_service user_ctx ''D'' ?w = (Inr p, w1)"
    and w1: "w1 = ?w\<lparr>pg_queries := 2, w_outbox := [''DD''], w_published := 1,
      pg_db := two_grants_db\<lparr>agent_delegations := [revoke_row 0 (hd (agent_delegations two_grants_db)),
        agent_delegations two_grants_db ! 1]\<rparr>\<rparr>"
    by (simp add: agent_handler_defs act_token_defs sample_defs two_grants_db_def sample_service_def user_ctx_def)
  have serve: "\<exists>v. resolve_act_token (sample_authority 5) ''sat_2'' (foldl (run_agent_event sample_service) w1 [])
      = (Inr (Some (sample_resolution\<lparr>ar_delegation_id := ''E''\<rparr>)), v)"
    by (simp add: w1 act_token_defs sample_defs two_grants_db_def)
  then obtain v where v: "resolve_act_token (as_authority sample_service) ''sat_2''
      (foldl (run_agent_event sample_service) w1 []) = (Inr (Some (sample_resolution\<lparr>ar_delegation_id := ''E''\<rparr>)), v)"
    by (auto simp: sample_service_def)
  have "moka_ok 5 set (au_act_cache (as_authority sample_service))"
    by (simp add: sample_service_def sample_authority_def list_moka_ok)
  moreover have "agent_inv (pg_db ?w)" by (simp add: sample_world_def two_grants_inv)
  moreover have "\<forall>n \<ge> pg_ulids ?w. pg_ulid ?w n \<noteq> ''D''" by (auto simp: sample_world_def)
  ultimately show ?thesis using revoke_is_final [OF _ _ _ rv v] rv v by (auto simp: sample_service_def)
qed


text \<open>
  \<^bold>\<open>C14.\<close> Who may mint: a token is minted only for a caller that is an active agent of the target
  tenant with \<^verbatim>\<open>agent:act\<close>, against a delegation of that tenant to this very agent that is
  neither revoked nor expired and whose user is an active member; the token's row repeats
  the delegation and expires with it.
\<close>

theorem mint_authorised:
  assumes "mint_agent_act_token svc ctx did w = (Inr (token, secs), v)"
  shows "\<exists>t auth d. rx_tenant ctx = Some t \<and> rx_auth ctx = Some auth \<and> ac_subject_type auth = Agent
    \<and> SCOPE_AGENT_ACT \<in> set (ac_scopes auth)
    \<and> (\<exists>a \<in> set (agents (pg_db w)). ag_tenant_id a = t \<and> ag_id a = ac_subject auth
         \<and> ag_status a = agent_status_active)
    \<and> d \<in> set (agent_delegations (pg_db w)) \<and> dg_id d = did \<and> dg_tenant_id d = t
    \<and> dg_agent_id d = ac_subject auth \<and> dg_revoked_at d = None \<and> pg_now w < dg_expires_at d
    \<and> (\<exists>m \<in> set (tenant_memberships (pg_db w)). tm_tenant_id m = t
         \<and> tm_identity_id m = dg_user_identity_id d \<and> tm_state m = ''active'')
    \<and> (\<exists>row \<in> set (agent_act_tokens (pg_db v)). at_token_hash row = hash_token (au_crypto (as_authority svc)) token
         \<and> bound_to d row)"
  using assms
proof (rule mint_agent_act_token_Inr)
  fix t auth a d u n
  assume r: "rx_tenant ctx = Some t" "rx_auth ctx = Some auth" "ac_subject_type auth = Agent"
    "SCOPE_AGENT_ACT \<in> set (ac_scopes auth)"
    and a: "a \<in> set (agents (pg_db w))" "ag_tenant_id a = t" "ag_id a = ac_subject auth"
      "ag_status a = agent_status_active"
    and d: "d \<in> set (agent_delegations (pg_db w))" "dg_tenant_id d = t" "dg_id d = did"
      "dg_agent_id d = ac_subject auth" "dg_revoked_at d = None" "pg_now w < dg_expires_at d"
    and m: "\<exists>m \<in> set (tenant_memberships (pg_db w)). tm_tenant_id m = t
          \<and> tm_identity_id m = dg_user_identity_id d \<and> tm_state m = ''active''"
    and run: "mint (as_authority svc) d u = (Inr (token, n), v)"
  let ?row = "minted_row (as_authority svc) d token (pg_now u)"
  have "?row \<in> set (agent_act_tokens (pg_db v))" using mint_Inr [OF run] by simp
  moreover have "at_token_hash ?row = hash_token (au_crypto (as_authority svc)) token" by (simp add: minted_row_def)
  ultimately show ?thesis using r a d m mint_bound_to by blast
qed

lemmas mint_handler_defs = mint_agent_act_token_def require_tenant_def require_auth_def require_scope_def
  require_subject_type_def agent_get_def delegation_get_def require_active_member_def membership_get_def
  mint_def random_bytes_def act_token_insert_def act_token_insert_stmt_def scope_defs

lemma sample_mint:
  "\<exists>v. mint_agent_act_token sample_service agent_ctx ''D'' (sample_world sample_db 0 ()) = (Inr (''sat_r'', 0), v)"
  by (simp add: mint_handler_defs act_token_defs sample_defs sample_service_def agent_ctx_def
      whole_seconds_def nanos_per_second_def)

theorem mint_authorised_witness:
  "\<exists>v auth. mint_agent_act_token sample_service agent_ctx ''D'' (sample_world sample_db 0 ()) = (Inr (''sat_r'', 0), v)
     \<and> rx_auth agent_ctx = Some auth \<and> ac_subject_type auth = Agent"
  using sample_mint mint_authorised [of sample_service agent_ctx "''D''" "sample_world sample_db 0 ()" "''sat_r''" 0]
  by fast

text \<open>
  \<^bold>\<open>C15.\<close> What a delegation is: one is created only by an authenticated user who is an active member
  of the target tenant, for an active agent of that tenant, with between 1 and 64 distinct,
  non-empty, whitespace-free scopes of at most 128 bytes and an expiry in the future.
\<close>

theorem delegation_well_formed:
  assumes "create_agent_delegation ctx agent_id scope expires w = (Inr p, v)"
  shows "\<exists>t auth e. rx_tenant ctx = Some t \<and> rx_auth ctx = Some auth \<and> ac_subject_type auth = User
    \<and> (\<exists>a \<in> set (agents (pg_db w)). ag_tenant_id a = t \<and> ag_id a = agent_id \<and> ag_status a = agent_status_active)
    \<and> (\<exists>m \<in> set (tenant_memberships (pg_db w)). tm_tenant_id m = t \<and> tm_identity_id m = ac_subject auth
         \<and> tm_state m = ''active'')
    \<and> scope \<noteq> [] \<and> length scope \<le> MAX_DELEGATION_SCOPES \<and> distinct scope
    \<and> (\<forall>s \<in> set scope. s \<noteq> [] \<and> length s \<le> MAX_SCOPE_LEN \<and> \<not> has_whitespace s)
    \<and> from_proto_timestamp expires = Inr (Some e) \<and> pg_now w < e
    \<and> agent_delegations (pg_db v) = agent_delegations (pg_db w)
        @ [\<lparr>dg_id = pd_id p, dg_tenant_id = t, dg_agent_id = agent_id, dg_user_identity_id = ac_subject auth,
            dg_scopes = scope, dg_expires_at = e, dg_revoked_at = None, dg_created_at = pg_now w\<rparr>]"
proof -
  obtain t auth a e row w1 w2 where r: "rx_tenant ctx = Some t" "rx_auth ctx = Some auth" "ac_subject_type auth = User"
    and ga: "agent_get t agent_id w = (Inr a, w1)" and a: "ag_status a = agent_status_active"
    and mem: "require_active_member t (ac_subject auth) w1 = (Inr (), w2)"
    and sc: "validate_delegation_scopes scope = Inr ()"
    and e: "from_proto_timestamp expires = Inr (Some e)" "pg_now w2 < e"
    and cr: "delegation_create t (ag_id a) (ac_subject auth) scope e w2 = (Inr row, v)"
    and p: "p = delegation_to_proto row"
    using assms by (auto simp: create_agent_delegation_def run_simps now_utc_def not_le)
  note A = agent_get_Inr [OF ga] and M = require_active_member_Inr [OF mem]
  let ?i = "pg_ulid w2 (pg_ulids w2)" and ?u = "w2\<lparr>pg_ulids := Suc (pg_ulids w2)\<rparr>"
  let ?st = "delegation_insert_stmt ?i t (ag_id a) (ac_subject auth) scope e (pg_now w2) (pg_db w2)"
  have "pg_exec (delegation_insert_stmt ?i t (ag_id a) (ac_subject auth) scope e) ?u = (Inr row, v)"
    using cr by (simp add: delegation_create_def ulid_new_def bindE_def)
  from pg_exec_Inr [OF this] have st: "fst ?st = Inr row" and v: "pg_db v = snd ?st" by auto
  from st have "row = \<lparr>dg_id = ?i, dg_tenant_id = t, dg_agent_id = ag_id a, dg_user_identity_id = ac_subject auth,
      dg_scopes = scope, dg_expires_at = e, dg_revoked_at = None, dg_created_at = pg_now w2\<rparr>"
    and "snd ?st = (pg_db w2)\<lparr>agent_delegations := agent_delegations (pg_db w2) @ [row]\<rparr>"
    unfolding delegation_insert_stmt_def violates_def Let_def by (auto split: if_split_asm)
  moreover have "scope \<noteq> [] \<and> length scope \<le> MAX_DELEGATION_SCOPES \<and> distinct scope
    \<and> (\<forall>s \<in> set scope. s \<noteq> [] \<and> length s \<le> MAX_SCOPE_LEN \<and> \<not> has_whitespace s)"
    using sc by (auto simp: validate_delegation_scopes_def check_delegation_scopes_ok split: if_splits)
  ultimately show ?thesis
    using r a A M e p v by (intro exI [of _ t] exI [of _ auth] exI [of _ e]) (auto simp: delegation_to_proto_def)
qed

lemmas delegation_handler_defs = create_agent_delegation_def require_tenant_def require_auth_def
  require_subject_type_def agent_get_def require_active_member_def membership_get_def
  validate_delegation_scopes_def from_proto_timestamp_def from_unix_timestamp_def delegation_create_def ulid_new_def
  delegation_insert_stmt_def delegation_to_proto_def tenant_exists_def MAX_DELEGATION_SCOPES_def MAX_SCOPE_LEN_def
  min_datetime_def max_datetime_def

lemma sample_delegation:
  "create_agent_delegation user_ctx ''A'' [''tenant:admin''] (Some \<lparr>ts_seconds = 1, ts_nanos = 0\<rparr>)
      (sample_world sample_db 0 ())
    = (Inr (delegation_to_proto \<lparr>dg_id = ''0'', dg_tenant_id = ''T'', dg_agent_id = ''A'', dg_user_identity_id = ''U'',
          dg_scopes = [''tenant:admin''], dg_expires_at = 1000000000, dg_revoked_at = None, dg_created_at = 0\<rparr>),
       (sample_world sample_db 0 ())\<lparr>pg_ulids := 1, pg_queries := 3,
         pg_db := sample_db\<lparr>agent_delegations := agent_delegations sample_db @ [\<lparr>dg_id = ''0'', dg_tenant_id = ''T'',
           dg_agent_id = ''A'', dg_user_identity_id = ''U'', dg_scopes = [''tenant:admin''],
           dg_expires_at = 1000000000, dg_revoked_at = None, dg_created_at = 0\<rparr>]\<rparr>\<rparr>)"
proof -
  have "\<not> has_whitespace ''tenant:admin''" 
    by (simp add: has_whitespace_def utf8_chars_def code_point_def is_whitespace_def)
  then show ?thesis
    by (simp add: delegation_handler_defs act_token_defs sample_defs user_ctx_def nanos_per_second_def)
qed

theorem delegation_well_formed_witness:
  "\<exists>e. from_proto_timestamp (Some \<lparr>ts_seconds = 1, ts_nanos = 0\<rparr>) = Inr (Some e)
     \<and> pg_now (sample_world sample_db 0 ()) < e"
proof -
  obtain t auth e where "from_proto_timestamp (Some \<lparr>ts_seconds = 1, ts_nanos = 0\<rparr>) = Inr (Some e)"
    "pg_now (sample_world sample_db 0 ()) < e"
    using delegation_well_formed [OF sample_delegation] by (elim exE conjE)
  then show ?thesis by (intro exI [of _ e] conjI)
qed

text \<open>
  A delegation is not limited by the grantor's own authority: a user without any scope can
  delegate \<^verbatim>\<open>tenant:admin\<close> to an agent, and the act-token the agent mints authenticates with
  that scope, so a guard that denies the user lets the token through.
\<close>

theorem delegation_escalates:
  "\<exists>p w1 token secs w2 ctx w3.
     require_scope user_ctx SCOPE_TENANT_ADMIN \<noteq> Inr ()
     \<and> create_agent_delegation user_ctx ''A'' [''tenant:admin''] (Some \<lparr>ts_seconds = 1, ts_nanos = 0\<rparr>)
         (sample_world sample_db 0 ()) = (Inr p, w1)
     \<and> mint_agent_act_token sample_service agent_ctx (pd_id p) w1 = (Inr (token, secs), w2)
     \<and> authenticate_bearer_token sample_deps token w2 = (Inr ctx, w3)
     \<and> ac_subject ctx = ''U'' \<and> require_scope \<lparr>rx_auth = Some ctx, rx_tenant = Some ''T''\<rparr> SCOPE_TENANT_ADMIN = Inr ()"
proof -
  let ?d = "\<lparr>dg_id = ''0'', dg_tenant_id = ''T'', dg_agent_id = ''A'', dg_user_identity_id = ''U'',
      dg_scopes = [''tenant:admin''], dg_expires_at = 1000000000, dg_revoked_at = None, dg_created_at = 0\<rparr>"
  let ?w1 = "(sample_world sample_db 0 ())\<lparr>pg_ulids := 1, pg_queries := 3,
         pg_db := sample_db\<lparr>agent_delegations := agent_delegations sample_db @ [?d]\<rparr>\<rparr>"
  let ?w2 = "?w1\<lparr>w_randoms := 1, pg_queries := 7, pg_db := sample_db\<lparr>agent_delegations := agent_delegations sample_db @ [?d],
      agent_act_tokens := agent_act_tokens sample_db @ [minted_row (sample_authority 5) ?d ''sat_r'' 0]\<rparr>\<rparr>"
  let ?res = "resolution_of_row (minted_row (sample_authority 5) ?d ''sat_r'' 0)"
  have mint: "mint_agent_act_token sample_service agent_ctx ''0'' ?w1 = (Inr (''sat_r'', 0), ?w2)"
    by (simp add: mint_handler_defs act_token_defs sample_defs sample_service_def agent_ctx_def
        whole_seconds_def nanos_per_second_def minted_row_def)
  have auth: "\<exists>w3. authenticate_bearer_token sample_deps ''sat_r'' ?w2 = (Inr (act_token_context plain_crypto ?res ''sat_r''), w3)"
    by (simp add: authenticate_bearer_token_def sample_deps_def gateway_deps_def act_token_defs sample_defs minted_row_def)
  have ctx: "ac_subject (act_token_context plain_crypto ?res ''sat_r'') = ''U''"
    "''tenant:admin'' \<in> set (ac_scopes (act_token_context plain_crypto ?res ''sat_r''))"
    by (simp_all add: act_token_context_def build_auth_context_def resolution_of_row_def minted_row_def)
  have "require_scope user_ctx SCOPE_TENANT_ADMIN \<noteq> Inr ()" by (simp add: user_ctx_def)
  moreover have "require_scope \<lparr>rx_auth = Some (act_token_context plain_crypto ?res ''sat_r''), rx_tenant = Some ''T''\<rparr>
      SCOPE_TENANT_ADMIN = Inr ()" using ctx(2) by (simp add: SCOPE_TENANT_ADMIN_def)
  moreover have "pd_id (delegation_to_proto ?d) = ''0''" by (simp add: delegation_to_proto_def)
  ultimately show ?thesis using sample_delegation mint auth ctx(1) by metis
qed

section \<open>Listing every agent\<close>

text \<open>
  A caller's loop over \<^verbatim>\<open>ListAgents\<close>: follow the page tokens until one is empty. Fuel counts
  the calls; \<open>None\<close> is a failed call or too little fuel.
\<close>

fun walk_agents :: "nat \<Rightarrow> codec \<Rightarrow> request_context \<Rightarrow> nat \<Rightarrow> string \<Rightarrow> 'z pg_scheme \<Rightarrow> agent_proto list option" where
  "walk_agents 0 cd ctx sz token w = None"
| "walk_agents (Suc fuel) cd ctx sz token w =
     (case list_agents cd ctx (Some \<lparr>page_size = sz, page_token = token\<rparr>) w of
        (Inl _, _) \<Rightarrow> None
      | (Inr (page, resp), v) \<Rightarrow>
          if pr_next_page_token resp = [] then Some page
          else map_option ((@) page) (walk_agents fuel cd ctx sz (pr_next_page_token resp) v))"

definition codec_ok :: "codec \<Rightarrow> bool" where
  "codec_ok cd \<longleftrightarrow> (\<forall>s. b64_decode cd (b64_encode cd s) = Some s) \<and> (\<forall>s. s \<noteq> [] \<longrightarrow> b64_encode cd s \<noteq> [])"

definition cursor_ok :: "instant \<times> string \<Rightarrow> bool" where
  "cursor_ok k \<longleftrightarrow> min_datetime \<le> fst k \<and> fst k \<le> max_datetime \<and> snd k \<noteq> [] \<and> valid_utf8 (snd k)"

definition cursor_token :: "codec \<Rightarrow> (instant \<times> string) option \<Rightarrow> string" where
  "cursor_token cd after = (case after of None \<Rightarrow> [] | Some (t, i) \<Rightarrow> encode_page_token (b64_encode cd) t i)"

lemma cursor_token_nonempty: "codec_ok cd \<Longrightarrow> cursor_token cd (Some k) \<noteq> []"
  by (cases k) (simp add: cursor_token_def encode_page_token_def codec_ok_def)

lemma page_params_cursor:
  assumes "codec_ok cd" and "after = None \<or> (\<exists>k. after = Some k \<and> cursor_ok k)"
  shows "page_params (b64_decode cd) (Some \<lparr>page_size = sz, page_token = cursor_token cd after\<rparr>)
    = Inr (if sz = 0 then default_page_size else min sz max_page_size, after)"
proof (cases after)
  case None
  then show ?thesis by (simp add: page_params_def cursor_token_def)
next
  case (Some k)
  then have "cursor_ok k" using assms(2) by simp
  then have "decode_page_token (b64_decode cd) (cursor_token cd after) = Inr k"
    using assms(1) decode_encode_page_token [of "b64_decode cd" "b64_encode cd" "fst k" "snd k"]
    by (cases k) (simp add: Some cursor_token_def cursor_ok_def codec_ok_def)
  then show ?thesis
    using cursor_token_nonempty [OF assms(1)] by (simp add: page_params_def Some Let_def)
qed

lemma list_agents_page:
  assumes w: "\<And>n. pg_fault w n = None" and t: "rx_tenant ctx = Some t"
    and sc: "require_scope_any ctx [SCOPE_AGENT_READ, SCOPE_AGENT_ADMIN] = Inr ()"
    and cd: "codec_ok cd" and after: "after = None \<or> (\<exists>k. after = Some k \<and> cursor_ok k)"
    and limit: "limit = (if sz = 0 then default_page_size else min sz max_page_size)"
    and page: "page = keyset_page agent_cursor limit after (filter (\<lambda>a. ag_tenant_id a = t) (agents (pg_db w)))"
  shows "\<exists>resp. list_agents cd ctx (Some \<lparr>page_size = sz, page_token = cursor_token cd after\<rparr>) w
      = (Inr (map agent_to_proto page, resp), w\<lparr>pg_queries := pg_queries w + 2\<rparr>)
    \<and> pr_next_page_token resp
      = (if length page = limit \<and> page \<noteq> [] then cursor_token cd (Some (agent_cursor (last page))) else [])"
proof -
  let ?v = "w\<lparr>pg_queries := pg_queries w + 2\<rparr>"
  define resp where "resp = \<lparr>pr_next_page_token = next_page_token (b64_encode cd)
      (if page = [] then None else Some (agent_cursor (last page))) (length page) limit,
      pr_total_size = length (filter (\<lambda>a. ag_tenant_id a = t) (agents (pg_db w))) mod 2 ^ 32\<rparr>"
  have rt: "require_tenant ctx = Inr t" using t by simp
  have "agent_list_page t limit after w = (Inr (page, length (filter (\<lambda>a. ag_tenant_id a = t) (agents (pg_db w)))), ?v)"
    using w by (simp add: agent_list_page_def bindE_def pg_query_no_fault ret_def page)
  then have "list_agents cd ctx (Some \<lparr>page_size = sz, page_token = cursor_token cd after\<rparr>) w
      = (Inr (map agent_to_proto page, resp), ?v)"
    by (simp add: list_agents_def io_defs rt sc page_params_cursor [OF cd after, of sz, folded limit] resp_def Let_def)
  moreover have "pr_next_page_token resp
      = (if length page = limit \<and> page \<noteq> [] then cursor_token cd (Some (agent_cursor (last page))) else [])"
    by (simp add: resp_def next_page_token_def agent_cursor_def cursor_token_def)
  ultimately show ?thesis by blast
qed

lemma walk_agents_pages:
  assumes cd: "codec_ok cd" and t: "rx_tenant ctx = Some t"
    and sc: "require_scope_any ctx [SCOPE_AGENT_READ, SCOPE_AGENT_ADMIN] = Inr ()"
    and limit: "limit = (if sz = 0 then default_page_size else min sz max_page_size)"
    and rows: "\<forall>a \<in> set rows. cursor_ok (agent_cursor a)"
  shows "\<lbrakk>\<And>n. pg_fault w n = None; after = None \<or> (\<exists>k. after = Some k \<and> cursor_ok k);
      rows = filter (\<lambda>a. ag_tenant_id a = t) (agents (pg_db w))\<rbrakk> \<Longrightarrow>
    walk_agents fuel cd ctx sz (cursor_token cd after) w
      = map_option (map agent_to_proto) (walk_pages fuel agent_cursor limit after rows)"
proof (induction fuel arbitrary: after w)
  case 0
  then show ?case by simp
next
  case (Suc fuel)
  let ?page = "keyset_page agent_cursor limit after rows" and ?v = "w\<lparr>pg_queries := pg_queries w + 2\<rparr>"
  have "?page = keyset_page agent_cursor limit after (filter (\<lambda>a. ag_tenant_id a = t) (agents (pg_db w)))"
    using Suc.prems(3) by simp
  from list_agents_page [OF Suc.prems(1) t sc cd Suc.prems(2) limit this] obtain resp
    where run: "list_agents cd ctx (Some \<lparr>page_size = sz, page_token = cursor_token cd after\<rparr>) w
      = (Inr (map agent_to_proto ?page, resp), ?v)"
    and tok: "pr_next_page_token resp
      = (if length ?page = limit \<and> ?page \<noteq> [] then cursor_token cd (Some (agent_cursor (last ?page))) else [])"
    by blast
  show ?case
  proof (cases "length ?page = limit \<and> ?page \<noteq> []")
    case True
    have "set ?page \<subseteq> set rows"
      unfolding keyset_page_def by (rule subset_trans [OF set_take_subset]) auto
    then have "cursor_ok (agent_cursor (last ?page))" using True last_in_set [of ?page] rows by blast
    moreover have "pg_fault ?v n = None" "rows = filter (\<lambda>a. ag_tenant_id a = t) (agents (pg_db ?v))" for n
      using Suc.prems(1,3) by simp_all
    ultimately have "walk_agents fuel cd ctx sz (cursor_token cd (Some (agent_cursor (last ?page)))) ?v
        = map_option (map agent_to_proto) (walk_pages fuel agent_cursor limit (Some (agent_cursor (last ?page))) rows)"
      by (intro Suc.IH) auto
    then show ?thesis
      using run tok True cursor_token_nonempty [OF cd]
      by (simp add: Let_def option.map_comp comp_def)
  next
    case False
    then show ?thesis using run tok by (auto simp: Let_def)
  qed
qed

text \<open>
  \<^bold>\<open>C18.\<close> Listing is complete: with a working connection and an unchanged table, a caller with
  \<^verbatim>\<open>agent:read\<close> or \<^verbatim>\<open>agent:admin\<close> that follows the page tokens gets every agent of the target tenant
  exactly once, newest first, and no agent of another tenant, whatever page size it asks for.
\<close>

theorem list_agents_complete:
  assumes "codec_ok cd" and "\<forall>n. pg_fault w n = None" and "rx_tenant ctx = Some t"
    and "require_scope_any ctx [SCOPE_AGENT_READ, SCOPE_AGENT_ADMIN] = Inr ()"
    and "key_unique ag_id (agents (pg_db w))"
    and "\<forall>a \<in> set (agents (pg_db w)). ag_tenant_id a = t \<longrightarrow> cursor_ok (agent_cursor a)"
    and "length (agents (pg_db w)) < fuel"
  shows "walk_agents fuel cd ctx sz [] w
    = Some (map agent_to_proto (sort_desc agent_cursor (filter (\<lambda>a. ag_tenant_id a = t) (agents (pg_db w)))))"
proof -
  let ?rows = "filter (\<lambda>a. ag_tenant_id a = t) (agents (pg_db w))"
  let ?limit = "if sz = 0 then default_page_size else min sz max_page_size"
  have "key_unique ag_id ?rows" by (rule key_unique_filter [OF assms(5)])
  then have "key_unique agent_cursor ?rows"
    by (auto simp: key_unique_def agent_cursor_def distinct_map inj_on_def)
  moreover have "0 < ?limit" by (simp add: default_page_size_def max_page_size_def)
  moreover have "length ?rows < fuel" using assms(7) length_filter_le le_less_trans by blast
  ultimately have "walk_pages fuel agent_cursor ?limit None ?rows = Some (sort_desc agent_cursor ?rows)"
    by (rule walk_all)
  moreover have "walk_agents fuel cd ctx sz (cursor_token cd None) w
      = map_option (map agent_to_proto) (walk_pages fuel agent_cursor ?limit None ?rows)"
    using assms by (intro walk_agents_pages) auto
  ultimately show ?thesis by (simp add: cursor_token_def)
qed

definition reader_ctx :: request_context where
  "reader_ctx = \<lparr>rx_auth = Some \<lparr>ac_tenant_id = ''T'', ac_subject = ''A'', ac_subject_type = Agent, ac_actor = None,
     ac_scopes = [''agent:read''], ac_token_hash = [], ac_authentication_methods = []\<rparr>, rx_tenant = Some ''T''\<rparr>"

definition two_agents :: database where
  "two_agents = empty_db\<lparr>agents := map (\<lambda>(i, t, n). \<lparr>ag_id = i, ag_tenant_id = t, ag_owner_identity_id = None,
     ag_name = ''bot'', ag_status = ''active'', ag_created_at = n, ag_updated_at = n\<rparr>)
       [(''A'', ''T'', 1), (''X'', ''other'', 2), (''B'', ''T'', 3)]\<rparr>"

theorem list_agents_complete_witness:
  "map_option (map pa_id) (walk_agents 9 \<lparr>b64_encode = id, b64_decode = Some\<rparr> reader_ctx 1 [] (quiet_pg two_agents 5))
    = Some [''B'', ''A'']"
proof -
  have "codec_ok \<lparr>b64_encode = id, b64_decode = Some\<rparr>" by (simp add: codec_ok_def)
  moreover have "\<forall>n. pg_fault (quiet_pg two_agents 5) n = None" "rx_tenant reader_ctx = Some ''T''"
    "key_unique ag_id (agents (pg_db (quiet_pg two_agents 5)))" "length (agents (pg_db (quiet_pg two_agents 5))) < 9"
    by (simp_all add: quiet_pg_def reader_ctx_def two_agents_def key_unique_def)
  moreover have "require_scope_any reader_ctx [SCOPE_AGENT_READ, SCOPE_AGENT_ADMIN] = Inr ()"
    by (simp add: reader_ctx_def SCOPE_AGENT_READ_def)
  moreover have "\<forall>a \<in> set (agents (pg_db (quiet_pg two_agents 5))). ag_tenant_id a = ''T'' \<longrightarrow> cursor_ok (agent_cursor a)"
    by (simp add: quiet_pg_def two_agents_def cursor_ok_def agent_cursor_def min_datetime_def max_datetime_def
        nanos_per_second_def ascii_is_valid is_ascii_def code_point_def)
  ultimately have "walk_agents 9 \<lparr>b64_encode = id, b64_decode = Some\<rparr> reader_ctx 1 [] (quiet_pg two_agents 5)
    = Some (map agent_to_proto (sort_desc agent_cursor (filter (\<lambda>a. ag_tenant_id a = ''T'') (agents (pg_db (quiet_pg two_agents 5))))))"
    using list_agents_complete by blast
  then show ?thesis
    by (simp add: quiet_pg_def two_agents_def sort_desc_def agent_cursor_def agent_to_proto_def less_eq_prod_def)
qed

end
