(* ===== verification/PermissionStores.thy ===== *)
theory PermissionStores
  imports Paging
begin

text \<open>
  The tables behind the permission service: registered namespaces with the index of their
  object types (\<^verbatim>\<open>db/permission_namespace.rs\<close>), the in-memory repository of
  \<^verbatim>\<open>services/permission.rs\<close>, and the mirror of relation tuples (\<^verbatim>\<open>db/permission.rs\<close>). The transaction
  of \<^verbatim>\<open>upsert\<close> is one statement here. The index says which namespace of a tenant owns an object
  type: it is exact, and no type has two owners.
\<close>

section \<open>Models\<close>

fun as_object :: "json \<Rightarrow> (string \<times> json) list option" where
  "as_object (JObj fs) = Some fs"
| "as_object _ = None"

definition type_definitions :: "json \<Rightarrow> json list" where
  "type_definitions model =
     (case Option.bind (json_get model ''type_definitions'') as_array of Some defs \<Rightarrow> defs | None \<Rightarrow> [])"

definition type_name :: "json \<Rightarrow> string option" where
  "type_name def = Option.bind (json_get def ''type'') as_str"

definition has_relations :: "json \<Rightarrow> bool" where
  "has_relations def \<longleftrightarrow>
     (case Option.bind (json_get def ''relations'') as_object of Some relations \<Rightarrow> relations \<noteq> [] | None \<Rightarrow> False)"

definition relation_bearing_type_names :: "json \<Rightarrow> string list" where
  "relation_bearing_type_names model =
     sort (List.map_filter type_name (filter has_relations (type_definitions model)))"

definition model_type_names :: "json \<Rightarrow> string list" where
  "model_type_names model = sort (List.map_filter type_name (type_definitions model))"

text \<open>
  Equality of \<^verbatim>\<open>serde_json\<close> values does not see the order of an object's fields: fields are sorted
  by key, and of two with the same key the first counts.
\<close>

fun json_norm :: "json \<Rightarrow> json" where
  "json_norm (JArr vs) = JArr (map json_norm vs)"
| "json_norm (JObj fs) =
     (let gs = map (\<lambda>(k, v). (k, json_norm v)) fs
      in JObj (map (\<lambda>k. (k, the (map_of gs k))) (sort (remdups (map fst gs)))))"
| "json_norm v = v"

definition json_eq :: "json \<Rightarrow> json \<Rightarrow> bool" where
  "json_eq a b \<longleftrightarrow> json_norm a = json_norm b"

lemma json_eq_refl [simp]: "json_eq a a"
  by (simp add: json_eq_def)

section \<open>PgPermissionNamespaceStore\<close>

record permission_namespace_row =
  pn_tenant_id :: string
  pn_namespace :: string
  pn_model :: json
  pn_types :: "string list"
  pn_store_id :: "string option"
  pn_model_id :: "string option"
  pn_created_at :: instant
  pn_updated_at :: instant

definition ns_key :: "namespace_row \<Rightarrow> string \<times> string" where
  "ns_key n = (ns_tenant_id n, ns_namespace n)"

definition nt_key :: "namespace_type_row \<Rightarrow> string \<times> string" where
  "nt_key t = (nt_tenant_id t, nt_type t)"

definition types_of :: "database \<Rightarrow> string \<Rightarrow> string \<Rightarrow> string list" where
  "types_of db tenant_id namespace =
     sort (map nt_type (filter (\<lambda>t. nt_tenant_id t = tenant_id \<and> nt_namespace t = namespace) (permission_namespace_types db)))"

text \<open>\<^verbatim>\<open>SELECT_ROW\<close>: the namespace joined with its types.\<close>

definition select_row :: "database \<Rightarrow> namespace_row \<Rightarrow> permission_namespace_row" where
  "select_row db n =
     \<lparr>pn_tenant_id = ns_tenant_id n, pn_namespace = ns_namespace n, pn_model = ns_model n,
      pn_types = types_of db (ns_tenant_id n) (ns_namespace n), pn_store_id = ns_store_id n,
      pn_model_id = ns_model_id n, pn_created_at = ns_created_at n, pn_updated_at = ns_updated_at n\<rparr>"

definition find_namespace :: "database \<Rightarrow> string \<Rightarrow> string \<Rightarrow> namespace_row option" where
  "find_namespace db tenant_id namespace = find (\<lambda>n. ns_key n = (tenant_id, namespace)) (permission_namespaces db)"

definition find_type_owner :: "database \<Rightarrow> string \<Rightarrow> string \<Rightarrow> string option" where
  "find_type_owner db tenant_id ty =
     map_option nt_namespace (find (\<lambda>t. nt_key t = (tenant_id, ty)) (permission_namespace_types db))"

definition pg_namespace_get ::
  "string \<Rightarrow> string \<Rightarrow> ('z pg_scheme, db_error, permission_namespace_row option) io" where
  "pg_namespace_get tenant_id namespace =
     pg_query (\<lambda>now db. Inr (map_option (select_row db) (find_namespace db tenant_id namespace)))"

definition pg_namespace_get_by_type ::
  "string \<Rightarrow> string \<Rightarrow> ('z pg_scheme, db_error, permission_namespace_row option) io" where
  "pg_namespace_get_by_type tenant_id object_type =
     bindE (pg_query (\<lambda>now db. Inr (map_option (select_row db)
              (Option.bind (find_type_owner db tenant_id object_type) (find_namespace db tenant_id))))) (\<lambda>row.
     case row of
       Some r \<Rightarrow> ret (Some r)
     | None \<Rightarrow> pg_namespace_get tenant_id object_type)"

definition pg_namespace_list :: "string \<Rightarrow> ('z pg_scheme, db_error, permission_namespace_row list) io" where
  "pg_namespace_list tenant_id =
     pg_query (\<lambda>now db. Inr (map (select_row db)
       (sort_key ns_namespace (filter (\<lambda>n. ns_tenant_id n = tenant_id) (permission_namespaces db)))))"

text \<open>\<^verbatim>\<open>COALESCE(EXCLUDED.x, x)\<close>.\<close>

definition coalesce :: "'a option \<Rightarrow> 'a option \<Rightarrow> 'a option" where
  "coalesce a b = (case a of Some x \<Rightarrow> Some x | None \<Rightarrow> b)"

text \<open>The two statements on the type index: drop what the model no longer has, add what is new.\<close>

definition sync_types :: "string \<Rightarrow> string \<Rightarrow> string list \<Rightarrow> namespace_type_row list \<Rightarrow> namespace_type_row list" where
  "sync_types tenant_id namespace index rows =
     (let kept = filter (\<lambda>t. \<not> (nt_tenant_id t = tenant_id \<and> nt_namespace t = namespace \<and> nt_type t \<notin> set index)) rows
      in kept @ map (\<lambda>ty. \<lparr>nt_tenant_id = tenant_id, nt_type = ty, nt_namespace = namespace\<rparr>)
                  (filter (\<lambda>ty. (tenant_id, ty) \<notin> nt_key ` set kept) (remdups index)))"

definition type_conflicts :: "string \<Rightarrow> string \<Rightarrow> string list \<Rightarrow> namespace_type_row list \<Rightarrow> string list" where
  "type_conflicts tenant_id namespace index rows =
     map nt_type (filter (\<lambda>t. nt_tenant_id t = tenant_id \<and> nt_type t \<in> set index \<and> nt_namespace t \<noteq> namespace) rows)"

definition put_namespace ::
  "string \<Rightarrow> string \<Rightarrow> json \<Rightarrow> string option \<Rightarrow> string option \<Rightarrow> instant \<Rightarrow> namespace_row option \<Rightarrow> namespace_row" where
  "put_namespace tenant_id namespace model store_id model_id now known =
     (case known of
        None \<Rightarrow> \<lparr>ns_tenant_id = tenant_id, ns_namespace = namespace, ns_model = model, ns_store_id = store_id,
                 ns_model_id = model_id, ns_created_at = now, ns_updated_at = now\<rparr>
      | Some old \<Rightarrow> old\<lparr>ns_model := model, ns_store_id := coalesce store_id (ns_store_id old),
                 ns_model_id := coalesce model_id (ns_model_id old), ns_updated_at := now\<rparr>)"

definition namespace_upsert_stmt ::
  "string \<Rightarrow> string \<Rightarrow> json \<Rightarrow> string option \<Rightarrow> string option \<Rightarrow> permission_namespace_row stmt" where
  "namespace_upsert_stmt tenant_id namespace model store_id model_id now db =
     (let index = relation_bearing_type_names model
      in case type_conflicts tenant_id namespace index (permission_namespace_types db) of
           conflict # _ \<Rightarrow> (Inl (NamespaceTypeConflict conflict), db)
         | [] \<Rightarrow>
             let known = find_namespace db tenant_id namespace;
                 row = put_namespace tenant_id namespace model store_id model_id now known;
                 rows = (case known of
                           None \<Rightarrow> permission_namespaces db @ [row]
                         | Some _ \<Rightarrow> map (\<lambda>n. if ns_key n = (tenant_id, namespace) then row else n) (permission_namespaces db));
                 db' = db\<lparr>permission_namespaces := rows,
                          permission_namespace_types := sync_types tenant_id namespace index (permission_namespace_types db)\<rparr>
             in if known = None \<and> \<not> tenant_exists db tenant_id then violates ''permission_namespaces_tenant_id_fkey'' db
                else (Inr (select_row db' row), db'))"

definition pg_namespace_upsert ::
  "string \<Rightarrow> string \<Rightarrow> json \<Rightarrow> string option \<Rightarrow> string option \<Rightarrow> ('z pg_scheme, db_error, permission_namespace_row) io" where
  "pg_namespace_upsert tenant_id namespace model store_id model_id =
     pg_exec (namespace_upsert_stmt tenant_id namespace model store_id model_id)"

text \<open>The rows of the type index go with the namespace (\<^verbatim>\<open>ON DELETE CASCADE\<close>).\<close>

definition namespace_delete_stmt :: "string \<Rightarrow> string \<Rightarrow> unit stmt" where
  "namespace_delete_stmt tenant_id namespace now db =
     (Inr (), db\<lparr>permission_namespaces := filter (\<lambda>n. ns_key n \<noteq> (tenant_id, namespace)) (permission_namespaces db),
                 permission_namespace_types := filter (\<lambda>t. (nt_tenant_id t, nt_namespace t) \<noteq> (tenant_id, namespace))
                   (permission_namespace_types db)\<rparr>)"

definition pg_namespace_delete :: "string \<Rightarrow> string \<Rightarrow> ('z pg_scheme, db_error, unit) io" where
  "pg_namespace_delete tenant_id namespace = pg_exec (namespace_delete_stmt tenant_id namespace)"

section \<open>PgPermissionTupleStore\<close>

definition tuple_row :: "string \<Rightarrow> string \<Rightarrow> string \<times> string \<times> string \<times> string \<Rightarrow> instant \<Rightarrow> permission_tuple_row" where
  "tuple_row i tenant_id k now =
     (case k of (namespace, object, relation, subject_id) \<Rightarrow>
        \<lparr>pt_id = i, pt_tenant_id = tenant_id, pt_namespace = namespace, pt_object = object, pt_relation = relation,
         pt_subject_id = subject_id, pt_created_at = now\<rparr>)"

text \<open>One statement inserts all rows or none.\<close>

definition tuples_insert_stmt ::
  "string list \<Rightarrow> string \<Rightarrow> (string \<times> string \<times> string \<times> string) list \<Rightarrow> permission_tuple_row list stmt" where
  "tuples_insert_stmt ids tenant_id ks now db =
     (let rows = map2 (\<lambda>i k. tuple_row i tenant_id k now) ids ks
      in if \<not> tenant_exists db tenant_id then violates ''permission_tuples_tenant_id_fkey'' db
         else if \<not> distinct ids \<or> set ids \<inter> pt_id ` set (permission_tuples db) \<noteq> {} then violates ''permission_tuples_pkey'' db
         else (Inr rows, db\<lparr>permission_tuples := permission_tuples db @ rows\<rparr>))"

definition tuple_create ::
  "string \<Rightarrow> string \<times> string \<times> string \<times> string \<Rightarrow> ('z pg_scheme, db_error, permission_tuple_row) io" where
  "tuple_create tenant_id k =
     bindE ulid_new (\<lambda>i. bindE (pg_exec (tuples_insert_stmt [i] tenant_id [k])) (\<lambda>rows. ret (hd rows)))"

fun ulids_new :: "nat \<Rightarrow> ('z pg_scheme, 'e, string list) io" where
  "ulids_new 0 = ret []"
| "ulids_new (Suc n) = bindE ulid_new (\<lambda>i. bindE (ulids_new n) (\<lambda>is. ret (i # is)))"

definition tuple_create_many ::
  "string \<Rightarrow> (string \<times> string \<times> string \<times> string) list \<Rightarrow> ('z pg_scheme, db_error, permission_tuple_row list) io" where
  "tuple_create_many tenant_id ks =
     (if ks = [] then ret []
      else bindE (ulids_new (length ks)) (\<lambda>ids. pg_exec (tuples_insert_stmt ids tenant_id ks)))"

definition tuple_get :: "string \<Rightarrow> string \<Rightarrow> ('z pg_scheme, db_error, permission_tuple_row) io" where
  "tuple_get tenant_id i =
     pg_query (\<lambda>now db. ok_or TupleNotFound (find (\<lambda>r. pt_tenant_id r = tenant_id \<and> pt_id r = i) (permission_tuples db)))"

text \<open>\<^verbatim>\<open>DELETE FROM permission_tuples WHERE ...\<close>, answering with the number of rows.\<close>

definition tuples_delete_stmt :: "(permission_tuple_row \<Rightarrow> bool) \<Rightarrow> nat stmt" where
  "tuples_delete_stmt hit now db =
     (Inr (length (filter hit (permission_tuples db))),
      db\<lparr>permission_tuples := filter (\<lambda>r. \<not> hit r) (permission_tuples db)\<rparr>)"

definition tuple_delete :: "string \<Rightarrow> string \<Rightarrow> ('z pg_scheme, db_error, unit) io" where
  "tuple_delete tenant_id i =
     bindE (pg_exec (tuples_delete_stmt (\<lambda>r. pt_tenant_id r = tenant_id \<and> pt_id r = i))) (\<lambda>n.
     if n = 0 then raise TupleNotFound else ret ())"

definition pt_key :: "permission_tuple_row \<Rightarrow> string \<times> string \<times> string \<times> string" where
  "pt_key r = (pt_namespace r, pt_object r, pt_relation r, pt_subject_id r)"

definition tuple_delete_by_key ::
  "string \<Rightarrow> string \<times> string \<times> string \<times> string \<Rightarrow> ('z pg_scheme, db_error, nat) io" where
  "tuple_delete_by_key tenant_id k = pg_exec (tuples_delete_stmt (\<lambda>r. pt_tenant_id r = tenant_id \<and> pt_key r = k))"

definition tuple_delete_by_namespace :: "string \<Rightarrow> string \<Rightarrow> ('z pg_scheme, db_error, nat) io" where
  "tuple_delete_by_namespace tenant_id namespace =
     pg_exec (tuples_delete_stmt (\<lambda>r. pt_tenant_id r = tenant_id \<and> pt_namespace r = namespace))"

definition opt_eq :: "'a option \<Rightarrow> 'a \<Rightarrow> bool" where
  "opt_eq x y \<longleftrightarrow> (case x of None \<Rightarrow> True | Some z \<Rightarrow> y = z)"

definition tuple_filter :: "string \<Rightarrow> string option \<Rightarrow> string option \<Rightarrow> string option \<Rightarrow> permission_tuple_row \<Rightarrow> bool" where
  "tuple_filter tenant_id namespace object relation r \<longleftrightarrow> pt_tenant_id r = tenant_id \<and> opt_eq namespace (pt_namespace r)
     \<and> opt_eq object (pt_object r) \<and> opt_eq relation (pt_relation r)"

definition tuple_list ::
  "string \<Rightarrow> string option \<Rightarrow> string option \<Rightarrow> string option \<Rightarrow> ('z pg_scheme, db_error, permission_tuple_row list) io" where
  "tuple_list tenant_id namespace object relation =
     pg_query (\<lambda>now db. Inr (sort_key (\<lambda>r. - pt_created_at r)
       (filter (tuple_filter tenant_id namespace object relation) (permission_tuples db))))"

definition tuple_cursor :: "permission_tuple_row \<Rightarrow> instant \<times> string" where
  "tuple_cursor r = (pt_created_at r, pt_id r)"

definition tuple_list_page ::
  "string \<Rightarrow> string option \<Rightarrow> string option \<Rightarrow> string option \<Rightarrow> nat \<Rightarrow> (instant \<times> string) option
    \<Rightarrow> ('z pg_scheme, db_error, permission_tuple_row list \<times> nat) io" where
  "tuple_list_page tenant_id namespace object relation limit after =
     bindE (pg_query (\<lambda>now db. Inr (length (filter (tuple_filter tenant_id namespace object relation) (permission_tuples db))))) (\<lambda>total.
     bindE (pg_query (\<lambda>now db. Inr (keyset_page tuple_cursor limit after
              (filter (tuple_filter tenant_id namespace object relation) (permission_tuples db))))) (\<lambda>rows.
     ret (rows, total)))"

section \<open>The type index is exact\<close>

definition owns_type :: "database \<Rightarrow> string \<Rightarrow> string \<Rightarrow> string \<Rightarrow> bool" where
  "owns_type db tenant_id namespace ty \<longleftrightarrow>
     \<lparr>nt_tenant_id = tenant_id, nt_type = ty, nt_namespace = namespace\<rparr> \<in> set (permission_namespace_types db)"

definition namespaces_ok :: "database \<Rightarrow> bool" where
  "namespaces_ok db \<longleftrightarrow> key_unique ns_key (permission_namespaces db) \<and> key_unique nt_key (permission_namespace_types db)
     \<and> (\<forall>n \<in> set (permission_namespaces db). \<forall>ty.
          owns_type db (ns_tenant_id n) (ns_namespace n) ty \<longleftrightarrow> ty \<in> set (relation_bearing_type_names (ns_model n)))
     \<and> (\<forall>t \<in> set (permission_namespace_types db). (nt_tenant_id t, nt_namespace t) \<in> ns_key ` set (permission_namespaces db))"

lemma sync_types_unique:
  assumes "key_unique nt_key rows"
  shows "key_unique nt_key (sync_types t ns index rows)"
proof -
  have "distinct (map nt_key (map (\<lambda>ty. \<lparr>nt_tenant_id = t, nt_type = ty, nt_namespace = ns\<rparr>) (filter P (remdups index))))" for P
    by (simp add: comp_def nt_key_def distinct_map inj_on_def)
  moreover have "key_unique nt_key (filter Q rows)" for Q by (rule key_unique_filter [OF assms])
  ultimately show ?thesis
    by (auto simp: sync_types_def Let_def key_unique_def nt_key_def)
qed

lemma sync_types_mem:
  assumes "type_conflicts t ns index rows = []"
  shows "\<lparr>nt_tenant_id = t', nt_type = ty, nt_namespace = ns'\<rparr> \<in> set (sync_types t ns index rows)
    \<longleftrightarrow> (if (t', ns') = (t, ns) then ty \<in> set index else \<lparr>nt_tenant_id = t', nt_type = ty, nt_namespace = ns'\<rparr> \<in> set rows)"
proof -
  have own: "nt_namespace r = ns" if "r \<in> set rows" "nt_tenant_id r = t" "nt_type r \<in> set index" for r
    using assms that by (auto simp: type_conflicts_def filter_empty_conv)
  have row: "r = \<lparr>nt_tenant_id = nt_tenant_id r, nt_type = nt_type r, nt_namespace = nt_namespace r\<rparr>" for r :: namespace_type_row
    by simp
  show ?thesis
    using own by (auto simp: sync_types_def Let_def nt_key_def image_iff) (metis row)+
qed

lemma upsert_cases:
  obtains (conflict) c where "c \<in> set (type_conflicts t ns (relation_bearing_type_names model) (permission_namespace_types db))"
      and "namespace_upsert_stmt t ns model si mi now db = (Inl (NamespaceTypeConflict c), db)"
  | (orphan) "namespace_upsert_stmt t ns model si mi now db = violates ''permission_namespaces_tenant_id_fkey'' db"
  | (stored) row rows where "type_conflicts t ns (relation_bearing_type_names model) (permission_namespace_types db) = []"
      and "row = put_namespace t ns model si mi now (find_namespace db t ns)"
      and "rows = (case find_namespace db t ns of None \<Rightarrow> permission_namespaces db @ [row]
             | Some _ \<Rightarrow> map (\<lambda>n. if ns_key n = (t, ns) then row else n) (permission_namespaces db))"
      and "namespace_upsert_stmt t ns model si mi now db =
        (let db' = db\<lparr>permission_namespaces := rows, permission_namespace_types :=
            sync_types t ns (relation_bearing_type_names model) (permission_namespace_types db)\<rparr>
         in (Inr (select_row db' row), db'))"
proof (cases "type_conflicts t ns (relation_bearing_type_names model) (permission_namespace_types db)")
  case Nil
  show thesis
  proof (cases "find_namespace db t ns = None \<and> \<not> tenant_exists db t")
    case True
    then show thesis using Nil by (intro orphan) (simp add: namespace_upsert_stmt_def Let_def)
  next
    case False
    then show thesis
      using Nil by (intro stored [OF Nil refl refl]) (auto simp: namespace_upsert_stmt_def Let_def)
  qed
next
  case (Cons c cs)
  then show thesis by (intro conflict [of c]) (simp_all add: namespace_upsert_stmt_def)
qed

lemma put_namespace_key:
  assumes "known = find_namespace db t ns"
  shows "ns_key (put_namespace t ns model si mi now known) = (t, ns)" and "ns_model (put_namespace t ns model si mi now known) = model"
  using assms by (auto simp: put_namespace_def ns_key_def find_namespace_def split: option.splits dest!: find_SomeD)

lemma put_rows:
  assumes "key_unique ns_key (permission_namespaces db)" and row: "row = put_namespace t ns model si mi now (find_namespace db t ns)"
    and rows: "rows = (case find_namespace db t ns of None \<Rightarrow> permission_namespaces db @ [row]
             | Some _ \<Rightarrow> map (\<lambda>n. if ns_key n = (t, ns) then row else n) (permission_namespaces db))"
  shows "key_unique ns_key rows" and "n \<in> set rows \<longleftrightarrow> n = row \<or> (n \<in> set (permission_namespaces db) \<and> ns_key n \<noteq> (t, ns))"
proof -
  have key: "ns_key row = (t, ns)" using put_namespace_key(1) [OF refl] row by simp
  show "key_unique ns_key rows"
  proof (cases "find_namespace db t ns")
    case None
    then have "(t, ns) \<notin> ns_key ` set (permission_namespaces db)" by (auto simp: find_namespace_def find_None_iff)
    then show ?thesis using None assms(1) rows key by (simp add: key_unique_append)
  next
    case (Some old)
    then show ?thesis using assms(1) rows key
      by (simp add: key_unique_def comp_def if_distrib [of ns_key] cong: if_cong)
  qed
  show "n \<in> set rows \<longleftrightarrow> n = row \<or> (n \<in> set (permission_namespaces db) \<and> ns_key n \<noteq> (t, ns))"
  proof (cases "find_namespace db t ns")
    case None
    then have "ns_key n \<noteq> (t, ns)" if "n \<in> set (permission_namespaces db)" for n
      using that by (auto simp: find_namespace_def find_None_iff)
    then show ?thesis using None rows by auto
  next
    case (Some old)
    then have "old \<in> set (permission_namespaces db)" "ns_key old = (t, ns)" by (auto simp: find_namespace_def dest!: find_SomeD)
    then show ?thesis using Some rows by (auto simp: image_iff)
  qed
qed

lemma stmt_keeps_upsert [stmt_rules]: "stmt_keeps namespaces_ok (namespace_upsert_stmt t ns model si mi)"
proof (rule stmt_keepsI)
  fix now db
  assume ok: "namespaces_ok db"
  show "namespaces_ok (snd (namespace_upsert_stmt t ns model si mi now db))"
  proof (cases rule: upsert_cases [of t ns model db si mi now])
    case (stored row rows)
    let ?index = "relation_bearing_type_names model"
    let ?types = "sync_types t ns ?index (permission_namespace_types db)"
    let ?db = "db\<lparr>permission_namespaces := rows, permission_namespace_types := ?types\<rparr>"
    have un: "key_unique ns_key (permission_namespaces db)" using ok by (simp add: namespaces_ok_def)
    note put = put_rows [OF un stored(2,3)]
    have key: "ns_key row = (t, ns)" "ns_model row = model" using put_namespace_key [OF refl] stored(2) by simp_all
    have own: "owns_type ?db t' ns' ty \<longleftrightarrow> (if (t', ns') = (t, ns) then ty \<in> set ?index else owns_type db t' ns' ty)" for t' ns' ty
      using sync_types_mem [OF stored(1)] by (simp add: owns_type_def)
    have "key_unique nt_key ?types" using sync_types_unique ok by (simp add: namespaces_ok_def)
    moreover have "owns_type ?db (ns_tenant_id n) (ns_namespace n) ty \<longleftrightarrow> ty \<in> set (relation_bearing_type_names (ns_model n))"
      if "n \<in> set rows" for n ty
      using that own put(2) key ok by (auto simp: namespaces_ok_def ns_key_def)
    moreover have "(nt_tenant_id r, nt_namespace r) \<in> ns_key ` set rows" if "r \<in> set ?types" for r
    proof (cases "(nt_tenant_id r, nt_namespace r) = (t, ns)")
      case True
      then show ?thesis using put(2) [of row] key(1) by (metis image_eqI)
    next
      case False
      have "r = \<lparr>nt_tenant_id = nt_tenant_id r, nt_type = nt_type r, nt_namespace = nt_namespace r\<rparr>" by simp
      with that False sync_types_mem [OF stored(1)] have "r \<in> set (permission_namespace_types db)" by metis
      then obtain n where "n \<in> set (permission_namespaces db)" "ns_key n = (nt_tenant_id r, nt_namespace r)"
        using ok by (force simp: namespaces_ok_def)
      with put(2) [of n] False show ?thesis by (metis image_eqI)
    qed
    ultimately have "namespaces_ok ?db" using put(1) by (simp add: namespaces_ok_def)
    then show ?thesis using stored(4) by (simp add: Let_def)
  qed (use ok in \<open>simp_all add: violates_def\<close>)
qed

lemma stmt_keeps_namespace_delete [stmt_rules]: "stmt_keeps namespaces_ok (namespace_delete_stmt t ns)"
proof (rule stmt_keepsI)
  fix now db
  assume ok: "namespaces_ok db"
  let ?db = "snd (namespace_delete_stmt t ns now db)"
  have own: "owns_type ?db t' ns' ty \<longleftrightarrow> owns_type db t' ns' ty \<and> (t', ns') \<noteq> (t, ns)" for t' ns' ty
    by (auto simp: owns_type_def namespace_delete_stmt_def)
  have "key_unique ns_key (permission_namespaces ?db)" "key_unique nt_key (permission_namespace_types ?db)"
    using ok by (simp_all add: namespaces_ok_def namespace_delete_stmt_def key_unique_filter)
  moreover have "owns_type ?db (ns_tenant_id n) (ns_namespace n) ty \<longleftrightarrow> ty \<in> set (relation_bearing_type_names (ns_model n))"
    if "n \<in> set (permission_namespaces ?db)" for n ty
    using that ok unfolding own by (auto simp: namespaces_ok_def namespace_delete_stmt_def ns_key_def)
  moreover have "(nt_tenant_id r, nt_namespace r) \<in> ns_key ` set (permission_namespaces ?db)"
    if "r \<in> set (permission_namespace_types ?db)" for r
    using that ok by (fastforce simp: namespaces_ok_def namespace_delete_stmt_def)
  ultimately show "namespaces_ok ?db" by (simp add: namespaces_ok_def)
qed

end
