(* ===== verification/FgaClient.thy ===== *)
theory FgaClient
  imports Database
begin

text \<open>
  The OpenFGA client, \<^verbatim>\<open>sso-openfga-client/src/client.rs\<close>: requests and answers as JSON over
  HTTP. The transport with the OpenFGA server behind it is a parameter, a function of the
  request and of a state of any type; \<^verbatim>\<open>Url::join\<close> on the base URL and the printing of JSON are
  parameters too. The two loops that follow continuation tokens take fuel; \<open>FG_Diverges\<close>, no
  variant of the code's error type, marks a loop that used it up. What OpenFGA documents
  about reading and writing tuples is stated as \<open>lists_tuples\<close> and \<open>writes_tuples\<close>; under it the
  paged read is complete and ends.
\<close>

section \<open>Transport\<close>

datatype http_method = HttpGet | HttpPost | HttpDelete

text \<open>Status, body as text (if readable), body as JSON (or why not).\<close>

datatype fga_reply = NoReply string | Reply nat "string option" "string + json"

datatype fga_error =
    FG_Http string
  | FG_Serialization string
  | FG_Url string
  | FG_OpenFga nat string
  | FG_MissingStore
  | FG_InvalidResponse string
  | FG_Diverges

record 'f fga_client =
  fc_join :: "string \<Rightarrow> string + string"
  fc_send :: "http_method \<Rightarrow> string \<Rightarrow> (string \<times> string) list \<Rightarrow> json option \<Rightarrow> 'f \<Rightarrow> fga_reply \<times> 'f"
  fc_show_json :: "json \<Rightarrow> string"
  fc_fuel :: nat

record 'f fga_world = pg +
  fw_fga :: 'f

definition is_success :: "nat \<Rightarrow> bool" where
  "is_success status \<longleftrightarrow> 200 \<le> status \<and> status < 300"

definition openfga_error :: "nat \<Rightarrow> string option \<Rightarrow> fga_error" where
  "openfga_error status text =
     FG_OpenFga status (case text of Some body \<Rightarrow> body | None \<Rightarrow> ''<unreadable body>'')"

definition handle_response :: "nat \<times> string option \<times> (string + json) \<Rightarrow> fga_error + json" where
  "handle_response response =
     (case response of (status, text, body) \<Rightarrow>
        if is_success status then (case body of Inr v \<Rightarrow> Inr v | Inl e \<Rightarrow> Inl (FG_Http e))
        else Inl (openfga_error status text))"

definition status_only :: "nat \<times> string option \<times> (string + json) \<Rightarrow> fga_error + unit" where
  "status_only response =
     (case response of (status, text, body) \<Rightarrow>
        if is_success status then Inr () else Inl (openfga_error status text))"

definition fga_join :: "'f fga_client \<Rightarrow> string \<Rightarrow> fga_error + string" where
  "fga_join c path = (case fc_join c path of Inr url \<Rightarrow> Inr url | Inl e \<Rightarrow> Inl (FG_Url e))"

definition fga_call ::
  "'f fga_client \<Rightarrow> http_method \<Rightarrow> string \<Rightarrow> (string \<times> string) list \<Rightarrow> json option
    \<Rightarrow> (('f, 'z) fga_world_scheme, fga_error, nat \<times> string option \<times> (string + json)) io" where
  "fga_call c meth url query body w =
     (case fc_send c meth url query body (fw_fga w) of
        (NoReply e, f) \<Rightarrow> (Inl (FG_Http e), w\<lparr>fw_fga := f\<rparr>)
      | (Reply status text b, f) \<Rightarrow> (Inr (status, text, b), w\<lparr>fw_fga := f\<rparr>))"

section \<open>Tuples and options\<close>

record tuple_key =
  tk_user :: string
  tk_relation :: string
  tk_object :: string
  tk_condition_name :: "string option"
  tk_condition_context :: "json option"

definition to_delete_json :: "tuple_key \<Rightarrow> json" where
  "to_delete_json k = JObj [(''user'', JStr (tk_user k)), (''relation'', JStr (tk_relation k)), (''object'', JStr (tk_object k))]"

definition to_write_json :: "tuple_key \<Rightarrow> json" where
  "to_write_json k =
     (case tk_condition_name k of
        None \<Rightarrow> to_delete_json k
      | Some name \<Rightarrow> json_set (to_delete_json k) ''condition''
          (JObj [(''name'', JStr name),
                 (''context'', case tk_condition_context k of Some ctx \<Rightarrow> ctx | None \<Rightarrow> JNull)]))"

record request_options =
  ro_context :: "json option"
  ro_contextual_tuples :: "tuple_key list"
  ro_consistency :: "string option"

definition ro_is_default :: "request_options \<Rightarrow> bool" where
  "ro_is_default o' \<longleftrightarrow> ro_context o' = None \<and> ro_contextual_tuples o' = [] \<and> ro_consistency o' = None"

definition apply_options :: "request_options \<Rightarrow> json \<Rightarrow> json" where
  "apply_options o' payload =
     (if ro_is_default o' then payload
      else
        let p1 = (case ro_context o' of Some ctx \<Rightarrow> json_set payload ''context'' ctx | None \<Rightarrow> payload);
            p2 = (if ro_contextual_tuples o' = [] then p1
                  else json_set p1 ''contextual_tuples''
                    (JObj [(''tuple_keys'', JArr (map to_write_json (ro_contextual_tuples o')))]))
        in (case ro_consistency o' of Some s \<Rightarrow> json_set p2 ''consistency'' (JStr s) | None \<Rightarrow> p2))"

definition typed_object :: "string \<Rightarrow> string \<Rightarrow> string" where
  "typed_object namespace object = namespace @ '':'' @ object"

section \<open>Stores and models\<close>

definition create_store :: "'f fga_client \<Rightarrow> string \<Rightarrow> (('f, 'z) fga_world_scheme, fga_error, string) io" where
  "create_store c name =
     bindE (lift_result (fga_join c ''stores'')) (\<lambda>url.
     bindE (fga_call c HttpPost url [] (Some (JObj [(''name'', JStr name)]))) (\<lambda>response.
     bindE (lift_result (handle_response response)) (\<lambda>body.
     lift_result (ok_or (FG_InvalidResponse ''missing store id'') (Option.bind (json_get body ''id'') as_str)))))"

text \<open>The first store of a page that has the name and a string id.\<close>

fun named_store :: "string \<Rightarrow> json list \<Rightarrow> string option" where
  "named_store name [] = None"
| "named_store name (store # stores) =
     (if Option.bind (json_get store ''name'') as_str = Some name
         \<and> Option.bind (json_get store ''id'') as_str \<noteq> None
      then Option.bind (json_get store ''id'') as_str
      else named_store name stores)"

definition page_entries :: "json \<Rightarrow> string \<Rightarrow> json list" where
  "page_entries body k = (case Option.bind (json_get body k) as_array of Some vs \<Rightarrow> vs | None \<Rightarrow> [])"

definition next_token :: "json \<Rightarrow> string option" where
  "next_token body =
     (case Option.bind (json_get body ''continuation_token'') as_str of
        Some token \<Rightarrow> if token = [] then None else Some token
      | None \<Rightarrow> None)"

definition stores_query :: "string \<Rightarrow> (string \<times> string) list" where
  "stores_query token = (''page_size'', ''100'') # (if token = [] then [] else [(''continuation_token'', token)])"

fun find_store_loop ::
  "nat \<Rightarrow> 'f fga_client \<Rightarrow> string \<Rightarrow> string \<Rightarrow> string
    \<Rightarrow> (('f, 'z) fga_world_scheme, fga_error, string option) io" where
  "find_store_loop 0 c url name token = raise FG_Diverges"
| "find_store_loop (Suc fuel) c url name token =
     bindE (fga_call c HttpGet url (stores_query token) None) (\<lambda>response.
     bindE (lift_result (handle_response response)) (\<lambda>body.
     case named_store name (page_entries body ''stores'') of
       Some i \<Rightarrow> ret (Some i)
     | None \<Rightarrow> (case next_token body of
                  Some token' \<Rightarrow> find_store_loop fuel c url name token'
                | None \<Rightarrow> ret None)))"

definition find_store_by_name ::
  "'f fga_client \<Rightarrow> string \<Rightarrow> (('f, 'z) fga_world_scheme, fga_error, string option) io" where
  "find_store_by_name c name =
     bindE (lift_result (fga_join c ''stores'')) (\<lambda>url. find_store_loop (fc_fuel c) c url name [])"

definition delete_store :: "'f fga_client \<Rightarrow> string \<Rightarrow> (('f, 'z) fga_world_scheme, fga_error, unit) io" where
  "delete_store c store_id =
     bindE (lift_result (fga_join c (''stores/'' @ store_id))) (\<lambda>url.
     bindE (fga_call c HttpDelete url [] None) (\<lambda>response. lift_result (status_only response)))"

definition write_model ::
  "'f fga_client \<Rightarrow> string \<Rightarrow> json \<Rightarrow> (('f, 'z) fga_world_scheme, fga_error, string) io" where
  "write_model c store_id model =
     bindE (lift_result (fga_join c (''stores/'' @ store_id @ ''/authorization-models''))) (\<lambda>url.
     bindE (fga_call c HttpPost url [] (Some model)) (\<lambda>response.
     bindE (lift_result (handle_response response)) (\<lambda>body.
     lift_result (ok_or (FG_InvalidResponse ''missing authorization_model_id'')
       (Option.bind (json_get body ''authorization_model_id'') as_str)))))"

text \<open>The plain requests, whose answers are passed on as they are.\<close>

definition fga_get :: "'f fga_client \<Rightarrow> string \<Rightarrow> (('f, 'z) fga_world_scheme, fga_error, json) io" where
  "fga_get c path =
     bindE (lift_result (fga_join c path)) (\<lambda>url.
     bindE (fga_call c HttpGet url [] None) (\<lambda>response. lift_result (handle_response response)))"

definition list_stores :: "'f fga_client \<Rightarrow> (('f, 'z) fga_world_scheme, fga_error, json) io" where
  "list_stores c = fga_get c ''stores''"

definition get_store :: "'f fga_client \<Rightarrow> string \<Rightarrow> (('f, 'z) fga_world_scheme, fga_error, json) io" where
  "get_store c store_id = fga_get c (''stores/'' @ store_id)"

definition list_authorization_models ::
  "'f fga_client \<Rightarrow> string \<Rightarrow> (('f, 'z) fga_world_scheme, fga_error, json) io" where
  "list_authorization_models c store_id = fga_get c (''stores/'' @ store_id @ ''/authorization-models'')"

definition get_authorization_model ::
  "'f fga_client \<Rightarrow> string \<Rightarrow> string \<Rightarrow> (('f, 'z) fga_world_scheme, fga_error, json) io" where
  "get_authorization_model c store_id model_id =
     fga_get c (''stores/'' @ store_id @ ''/authorization-models/'' @ model_id)"

definition build_namespace_model :: "string \<Rightarrow> string list \<Rightarrow> json list" where
  "build_namespace_model namespace relations =
     (let insert = (\<lambda>v m r. json_set m r v);
          relation_map = foldl (insert (JObj [(''this'', JObj [])])) (JObj []) relations;
          relation_metadata = foldl (insert (JObj [(''directly_related_user_types'', JArr [JObj [(''type'', JStr ''user'')]])]))
            (JObj []) relations
      in [JObj [(''type'', JStr ''user'')],
          JObj [(''type'', JStr namespace), (''relations'', relation_map),
                (''metadata'', JObj [(''relations'', relation_metadata)])]])"

definition flat_model :: "string \<Rightarrow> string list \<Rightarrow> json" where
  "flat_model namespace relations =
     JObj [(''schema_version'', JStr ''1.1''), (''type_definitions'', JArr (build_namespace_model namespace relations))]"

definition write_authorization_model ::
  "'f fga_client \<Rightarrow> string \<Rightarrow> string \<Rightarrow> string list \<Rightarrow> (('f, 'z) fga_world_scheme, fga_error, string) io" where
  "write_authorization_model c store_id namespace relations = write_model c store_id (flat_model namespace relations)"

section \<open>Tuples\<close>

definition write_payload :: "string \<Rightarrow> tuple_key list \<Rightarrow> tuple_key list \<Rightarrow> json" where
  "write_payload model_id writes deletes =
     (let p0 = JObj [(''authorization_model_id'', JStr model_id)];
          p1 = (if writes = [] then p0
                else json_set p0 ''writes'' (JObj [(''tuple_keys'', JArr (map to_write_json writes))]))
      in if deletes = [] then p1
         else json_set p1 ''deletes'' (JObj [(''tuple_keys'', JArr (map to_delete_json deletes))]))"

definition client_write_tuples ::
  "'f fga_client \<Rightarrow> string \<Rightarrow> string \<Rightarrow> tuple_key list \<Rightarrow> tuple_key list
    \<Rightarrow> (('f, 'z) fga_world_scheme, fga_error, unit) io" where
  "client_write_tuples c store_id model_id writes deletes =
     (if writes = [] \<and> deletes = [] then ret ()
      else bindE (lift_result (fga_join c (''stores/'' @ store_id @ ''/write''))) (\<lambda>url.
           bindE (fga_call c HttpPost url [] (Some (write_payload model_id writes deletes))) (\<lambda>response.
           lift_result (status_only response))))"

datatype write_tuple_op = Insert | Delete

definition write_tuple ::
  "'f fga_client \<Rightarrow> string \<Rightarrow> string \<Rightarrow> string \<Rightarrow> string \<Rightarrow> string \<Rightarrow> string \<Rightarrow> write_tuple_op
    \<Rightarrow> (('f, 'z) fga_world_scheme, fga_error, unit) io" where
  "write_tuple c store_id model_id namespace object relation user operation =
     (let k = \<lparr>tk_user = user, tk_relation = relation, tk_object = typed_object namespace object,
               tk_condition_name = None, tk_condition_context = None\<rparr>
      in case operation of
           Insert \<Rightarrow> client_write_tuples c store_id model_id [k] []
         | Delete \<Rightarrow> client_write_tuples c store_id model_id [] [k])"

definition read_payload :: "tuple_key \<Rightarrow> string \<Rightarrow> json" where
  "read_payload k token =
     (let payload = JObj [(''tuple_key'', to_delete_json k), (''page_size'', JInt 100)]
      in if token = [] then payload else json_set payload ''continuation_token'' (JStr token))"

text \<open>An entry of an answer without one of the three fields is skipped.\<close>

definition tuple_of_entry :: "json \<Rightarrow> tuple_key option" where
  "tuple_of_entry entry =
     (case json_get entry ''key'' of
        None \<Rightarrow> None
      | Some k \<Rightarrow>
          (case (Option.bind (json_get k ''user'') as_str, Option.bind (json_get k ''relation'') as_str,
                 Option.bind (json_get k ''object'') as_str) of
             (Some user, Some relation, Some object) \<Rightarrow>
               Some \<lparr>tk_user = user, tk_relation = relation, tk_object = object,
                     tk_condition_name = None, tk_condition_context = None\<rparr>
           | _ \<Rightarrow> None))"

fun read_loop ::
  "nat \<Rightarrow> 'f fga_client \<Rightarrow> string \<Rightarrow> tuple_key \<Rightarrow> string \<Rightarrow> tuple_key list
    \<Rightarrow> (('f, 'z) fga_world_scheme, fga_error, tuple_key list) io" where
  "read_loop 0 c url k token tuples = raise FG_Diverges"
| "read_loop (Suc fuel) c url k token tuples =
     bindE (fga_call c HttpPost url [] (Some (read_payload k token))) (\<lambda>response.
     bindE (lift_result (handle_response response)) (\<lambda>body.
     let tuples' = tuples @ List.map_filter tuple_of_entry (page_entries body ''tuples'')
     in case next_token body of
          Some token' \<Rightarrow> read_loop fuel c url k token' tuples'
        | None \<Rightarrow> ret tuples'))"

definition client_read_tuples ::
  "'f fga_client \<Rightarrow> string \<Rightarrow> tuple_key \<Rightarrow> (('f, 'z) fga_world_scheme, fga_error, tuple_key list) io" where
  "client_read_tuples c store_id k =
     bindE (lift_result (fga_join c (''stores/'' @ store_id @ ''/read''))) (\<lambda>url.
     read_loop (fc_fuel c) c url k [] [])"

section \<open>Queries\<close>

definition check_payload :: "string \<Rightarrow> string \<Rightarrow> string \<Rightarrow> string \<Rightarrow> string \<Rightarrow> json" where
  "check_payload model_id namespace object relation user =
     JObj [(''tuple_key'', JObj [(''user'', JStr user), (''relation'', JStr relation),
              (''object'', JStr (typed_object namespace object))]),
           (''authorization_model_id'', JStr model_id)]"

definition client_check ::
  "'f fga_client \<Rightarrow> string \<Rightarrow> string \<Rightarrow> string \<Rightarrow> string \<Rightarrow> string \<Rightarrow> string \<Rightarrow> request_options
    \<Rightarrow> (('f, 'z) fga_world_scheme, fga_error, bool) io" where
  "client_check c store_id model_id namespace object relation user opts =
     bindE (lift_result (fga_join c (''stores/'' @ store_id @ ''/check''))) (\<lambda>url.
     bindE (fga_call c HttpPost url []
              (Some (apply_options opts (check_payload model_id namespace object relation user)))) (\<lambda>response.
     bindE (lift_result (handle_response response)) (\<lambda>body.
     ret (Option.bind (json_get body ''allowed'') as_bool = Some True))))"

definition client_expand ::
  "'f fga_client \<Rightarrow> string \<Rightarrow> string \<Rightarrow> string \<Rightarrow> string \<Rightarrow> string \<Rightarrow> request_options
    \<Rightarrow> (('f, 'z) fga_world_scheme, fga_error, json) io" where
  "client_expand c store_id model_id namespace object relation opts =
     bindE (lift_result (fga_join c (''stores/'' @ store_id @ ''/expand''))) (\<lambda>url.
     bindE (fga_call c HttpPost url []
              (Some (apply_options opts (JObj [(''tuple_key'', JObj [(''relation'', JStr relation),
                 (''object'', JStr (typed_object namespace object))]), (''authorization_model_id'', JStr model_id)]))))
       (\<lambda>response. lift_result (handle_response response)))"

definition client_list_objects ::
  "'f fga_client \<Rightarrow> string \<Rightarrow> string \<Rightarrow> string \<Rightarrow> string \<Rightarrow> string \<Rightarrow> request_options
    \<Rightarrow> (('f, 'z) fga_world_scheme, fga_error, string list) io" where
  "client_list_objects c store_id model_id namespace relation user opts =
     bindE (lift_result (fga_join c (''stores/'' @ store_id @ ''/list-objects''))) (\<lambda>url.
     bindE (fga_call c HttpPost url []
              (Some (apply_options opts (JObj [(''user'', JStr user), (''relation'', JStr relation),
                 (''type'', JStr namespace), (''authorization_model_id'', JStr model_id)])))) (\<lambda>response.
     bindE (lift_result (handle_response response)) (\<lambda>body.
     ret (List.map_filter as_str (page_entries body ''objects'')))))"

definition str_field :: "json \<Rightarrow> string \<Rightarrow> string" where
  "str_field v k = (case Option.bind (json_get v k) as_str of Some s \<Rightarrow> s | None \<Rightarrow> [])"

definition canonical_user :: "'f fga_client \<Rightarrow> json \<Rightarrow> string" where
  "canonical_user c entry =
     (case json_get entry ''object'' of
        Some object \<Rightarrow> str_field object ''type'' @ '':'' @ str_field object ''id''
      | None \<Rightarrow>
          (case json_get entry ''userset'' of
             Some userset \<Rightarrow> str_field userset ''type'' @ '':'' @ str_field userset ''id'' @ ''#'' @ str_field userset ''relation''
           | None \<Rightarrow>
               (case json_get entry ''wildcard'' of
                  Some wildcard \<Rightarrow> str_field wildcard ''type'' @ '':*''
                | None \<Rightarrow> fc_show_json c entry)))"

definition user_filter :: "string \<Rightarrow> json" where
  "user_filter f =
     (case split_once (CHR ''#'') f of
        Some (ty, rel) \<Rightarrow> JObj [(''type'', JStr ty), (''relation'', JStr rel)]
      | None \<Rightarrow> JObj [(''type'', JStr f)])"

definition client_list_users ::
  "'f fga_client \<Rightarrow> string \<Rightarrow> string \<Rightarrow> string \<Rightarrow> string \<Rightarrow> string \<Rightarrow> string list \<Rightarrow> request_options
    \<Rightarrow> (('f, 'z) fga_world_scheme, fga_error, string list) io" where
  "client_list_users c store_id model_id namespace object relation user_type_filters opts =
     bindE (lift_result (fga_join c (''stores/'' @ store_id @ ''/list-users''))) (\<lambda>url.
     bindE (fga_call c HttpPost url []
              (Some (apply_options opts (JObj [(''object'', JObj [(''type'', JStr namespace), (''id'', JStr object)]),
                 (''relation'', JStr relation), (''user_filters'', JArr (map user_filter user_type_filters)),
                 (''authorization_model_id'', JStr model_id)])))) (\<lambda>response.
     bindE (lift_result (handle_response response)) (\<lambda>body.
     ret (map (canonical_user c) (page_entries body ''users'')))))"

section \<open>What OpenFGA documents about tuples\<close>

type_synonym fga_tuple = "string \<times> string \<times> string"

definition triple :: "tuple_key \<Rightarrow> fga_tuple" where
  "triple k = (tk_user k, tk_relation k, tk_object k)"

text \<open>An empty field of a filter matches everything.\<close>

definition matches_key :: "tuple_key \<Rightarrow> fga_tuple \<Rightarrow> bool" where
  "matches_key k t = (case t of (u, r, obj) \<Rightarrow> (tk_user k = [] \<or> tk_user k = u) \<and> (tk_relation k = [] \<or> tk_relation k = r)
     \<and> (tk_object k = [] \<or> tk_object k = obj))"

definition entry_of :: "fga_tuple \<Rightarrow> json \<Rightarrow> bool" where
  "entry_of t e = (case t of (u, r, obj) \<Rightarrow> \<exists>k. json_get e ''key'' = Some k \<and> json_get k ''user'' = Some (JStr u)
     \<and> json_get k ''relation'' = Some (JStr r) \<and> json_get k ''object'' = Some (JStr obj))"

text \<open>
  \<open>listing f s\<close> is the content of a store in the order the server reads it, \<open>tok k\<close> the
  continuation token for offset \<open>k\<close>. A read changes nothing; a successful one answers with at
  most 100 of the matching tuples and with the token of the next offset, empty at the end.
\<close>

definition lists_tuples ::
  "'f fga_client \<Rightarrow> ('f \<Rightarrow> string \<Rightarrow> fga_tuple list) \<Rightarrow> (nat \<Rightarrow> string) \<Rightarrow> bool" where
  "lists_tuples c listing tok \<longleftrightarrow> tok 0 = [] \<and> (\<forall>k > 0. tok k \<noteq> []) \<and>
     (\<forall>s url f key k r f'. fc_join c (''stores/'' @ s @ ''/read'') = Inr url \<longrightarrow>
        fc_send c HttpPost url [] (Some (read_payload key (tok k))) f = (r, f') \<longrightarrow>
        listing f' = listing f \<and>
        (\<forall>status text body. r = Reply status text body \<and> is_success status \<longrightarrow>
           (\<exists>v entries. body = Inr v \<and> json_get v ''tuples'' = Some (JArr entries)
              \<and> list_all2 entry_of (take 100 (drop k (filter (matches_key key) (listing f s)))) entries
              \<and> json_get v ''continuation_token'' = Some (JStr
                  (if k + 100 < length (filter (matches_key key) (listing f s)) then tok (k + 100) else [])))))"

text \<open>
  A write is all or nothing, and it touches one store: an error status means nothing was
  written, success that all of it was; after a lost answer either may be the case. OpenFGA
  refuses to write a tuple that exists, to delete one that does not, and a request that
  names a tuple twice.
\<close>

definition tuples_after :: "tuple_key list \<Rightarrow> tuple_key list \<Rightarrow> fga_tuple set \<Rightarrow> fga_tuple set" where
  "tuples_after writes deletes T = (T - triple ` set deletes) \<union> triple ` set writes"

definition writes_tuples :: "'f fga_client \<Rightarrow> ('f \<Rightarrow> string \<Rightarrow> fga_tuple list) \<Rightarrow> bool" where
  "writes_tuples c listing \<longleftrightarrow>
     (\<forall>s url f model_id writes deletes r f'. fc_join c (''stores/'' @ s @ ''/write'') = Inr url \<longrightarrow>
        fc_send c HttpPost url [] (Some (write_payload model_id writes deletes)) f = (r, f') \<longrightarrow>
        (\<forall>s'. s' \<noteq> s \<longrightarrow> listing f' s' = listing f s') \<and>
        (case r of
           NoReply e \<Rightarrow> listing f' s = listing f s \<or> set (listing f' s) = tuples_after writes deletes (set (listing f s))
         | Reply status text body \<Rightarrow>
             if is_success status
             then set (listing f' s) = tuples_after writes deletes (set (listing f s))
               \<and> triple ` set writes \<inter> set (listing f s) = {} \<and> triple ` set deletes \<subseteq> set (listing f s)
               \<and> distinct (map triple (writes @ deletes))
             else listing f' s = listing f s))"

text \<open>
  In a store whose model has direct relations only, a user has a relation on an object by a
  tuple of their own or through a userset that is related to it.
\<close>

inductive related :: "fga_tuple set \<Rightarrow> string \<Rightarrow> string \<Rightarrow> string \<Rightarrow> bool" for T where
  direct: "(u, r, obj) \<in> T \<Longrightarrow> related T u r obj"
| userset: "(obj' @ ''#'' @ r', r, obj) \<in> T \<Longrightarrow> related T u r' obj' \<Longrightarrow> related T u r obj"

definition checks_related :: "'f fga_client \<Rightarrow> ('f \<Rightarrow> string \<Rightarrow> fga_tuple list) \<Rightarrow> string \<Rightarrow> bool" where
  "checks_related c listing s \<longleftrightarrow>
     (\<forall>url f model_id namespace object relation user r f'. fc_join c (''stores/'' @ s @ ''/check'') = Inr url \<longrightarrow>
        fc_send c HttpPost url [] (Some (check_payload model_id namespace object relation user)) f = (r, f') \<longrightarrow>
        listing f' = listing f \<and>
        (\<forall>status text body. r = Reply status text body \<and> is_success status \<longrightarrow>
           (\<exists>v. body = Inr v \<and> json_get v ''allowed'' =
              Some (JBool (related (set (listing f s)) user relation (typed_object namespace object))))))"

section \<open>Frame\<close>

text \<open>A client call changes nothing of the world but the state of the server.\<close>

definition fga_frame :: "('f, 'z) fga_world_scheme \<Rightarrow> ('f, 'z) fga_world_scheme \<Rightarrow> bool" where
  "fga_frame w v \<longleftrightarrow> v = w\<lparr>fw_fga := fw_fga v\<rparr>"

lemma fga_frame_refl [simp]: "fga_frame w w"
  by (simp add: fga_frame_def)

lemma fga_frame_trans: "fga_frame u v \<Longrightarrow> fga_frame v w \<Longrightarrow> fga_frame u w"
  unfolding fga_frame_def by (metis fga_world.surjective fga_world.update_convs(1))

lemma fga_frame_pg:
  assumes "fga_frame w v"
  shows "pg_db v = pg_db w" and "pg_now v = pg_now w" and "pg_fault v = pg_fault w" and "pg_queries v = pg_queries w"
    and "pg_ulids v = pg_ulids w" and "pg_ulid v = pg_ulid w" and "pg_scan v = pg_scan w"
  using assms unfolding fga_frame_def by (metis pg.select_convs fga_world.surjective pg.surjective fga_world.update_convs(1))+

lemma fga_call_cases:
  assumes "fga_call c meth url query body w = (x, v)"
  obtains (no_reply) e where "x = Inl (FG_Http e)" and "fc_send c meth url query body (fw_fga w) = (NoReply e, fw_fga v)"
      and "fga_frame w v"
  | (reply) status tx b where "x = Inr (status, tx, b)"
      and "fc_send c meth url query body (fw_fga w) = (Reply status tx b, fw_fga v)" and "fga_frame w v"
  using assms by (auto simp: fga_call_def fga_frame_def split: prod.splits fga_reply.splits)

lemma handle_response_Inr:
  "handle_response (status, text, b) = Inr v \<longleftrightarrow> is_success status \<and> b = Inr v"
  by (auto simp: handle_response_def split: sum.splits)

lemma handle_response_converges: "handle_response r \<noteq> Inl FG_Diverges"
  by (auto simp: handle_response_def openfga_error_def split: prod.splits sum.splits)

section \<open>Reading is complete\<close>

lemma entries_parse:
  assumes "list_all2 entry_of ts entries"
  shows "map triple (List.map_filter tuple_of_entry entries) = ts"
  using assms
proof (induction rule: list_all2_induct)
  case Nil
  then show ?case by (simp add: map_filter_def)
next
  case (Cons t ts e es)
  then have "\<exists>k. tuple_of_entry e = Some k \<and> triple k = t"
    by (auto simp: entry_of_def tuple_of_entry_def triple_def)
  with Cons.IH show ?case by (auto simp: map_filter_simps)
qed

lemma read_page:
  assumes "lists_tuples c listing tok" and "fc_join c (''stores/'' @ s @ ''/read'') = Inr url"
    and "fc_send c HttpPost url [] (Some (read_payload key (tok k))) f = (r, f')"
  shows "listing f' = listing f"
    and "r = Reply status text b \<Longrightarrow> is_success status \<Longrightarrow> \<exists>v. b = Inr v
      \<and> map triple (List.map_filter tuple_of_entry (page_entries v ''tuples''))
          = take 100 (drop k (filter (matches_key key) (listing f s)))
      \<and> next_token v = (if k + 100 < length (filter (matches_key key) (listing f s)) then Some (tok (k + 100)) else None)"
proof -
  from assms have law: "listing f' = listing f \<and>
        (\<forall>status text body. r = Reply status text body \<and> is_success status \<longrightarrow>
           (\<exists>v entries. body = Inr v \<and> json_get v ''tuples'' = Some (JArr entries)
              \<and> list_all2 entry_of (take 100 (drop k (filter (matches_key key) (listing f s)))) entries
              \<and> json_get v ''continuation_token'' = Some (JStr
                  (if k + 100 < length (filter (matches_key key) (listing f s)) then tok (k + 100) else []))))"
    unfolding lists_tuples_def by blast
  then show "listing f' = listing f" by blast
  have "tok (k + 100) \<noteq> []" using assms(1) unfolding lists_tuples_def by simp
  then show "\<exists>v. b = Inr v
      \<and> map triple (List.map_filter tuple_of_entry (page_entries v ''tuples''))
          = take 100 (drop k (filter (matches_key key) (listing f s)))
      \<and> next_token v = (if k + 100 < length (filter (matches_key key) (listing f s)) then Some (tok (k + 100)) else None)"
    if "r = Reply status text b" "is_success status"
    using law that entries_parse by (fastforce simp: page_entries_def next_token_def)
qed

lemma read_loop_complete:
  assumes ok: "lists_tuples c listing tok" and url: "fc_join c (''stores/'' @ s @ ''/read'') = Inr url"
  shows "\<lbrakk>read_loop fuel c url key (tok k) acc w = (x, v);
      length (filter (matches_key key) (listing (fw_fga w) s)) \<le> k + 100 * fuel; 0 < fuel\<rbrakk>
    \<Longrightarrow> fga_frame w v \<and> listing (fw_fga v) = listing (fw_fga w) \<and> x \<noteq> Inl FG_Diverges
      \<and> (\<forall>ts. x = Inr ts \<longrightarrow> map triple ts = map triple acc @ drop k (filter (matches_key key) (listing (fw_fga w) s)))"
proof (induction fuel arbitrary: k acc w)
  case 0
  then show ?case by simp
next
  case (Suc fuel)
  let ?ms = "filter (matches_key key) (listing (fw_fga w) s)"
  obtain y u where call: "fga_call c HttpPost url [] (Some (read_payload key (tok k))) w = (y, u)" by fastforce
  then show ?case
  proof (cases rule: fga_call_cases)
    case (no_reply e)
    then show ?thesis
      using Suc.prems(1) call read_page(1) [OF ok url no_reply(2)] by (auto simp: bindE_def)
  next
    case (reply status tx b)
    note page = read_page [OF ok url reply(2)]
    show ?thesis
    proof (cases "handle_response (status, tx, b)")
      case (Inl e)
      then show ?thesis
        using Suc.prems(1) call reply page(1) handle_response_converges [of "(status, tx, b)"]
        by (auto simp: bindE_def lift_result_def)
    next
      case (Inr body)
      then have "is_success status" and b: "b = Inr body" by (simp_all add: handle_response_Inr)
      then have parsed: "map triple (List.map_filter tuple_of_entry (page_entries body ''tuples'')) = take 100 (drop k ?ms)"
        and tok: "next_token body = (if k + 100 < length ?ms then Some (tok (k + 100)) else None)"
        using page(2) [OF refl] by auto
      let ?acc = "acc @ List.map_filter tuple_of_entry (page_entries body ''tuples'')"
      show ?thesis
      proof (cases "k + 100 < length ?ms")
        case True
        have rest: "read_loop fuel c url key (tok (k + 100)) ?acc u = (x, v)"
          using Suc.prems(1) call reply Inr tok True by (simp add: bindE_def lift_result_def Let_def)
        have "length (filter (matches_key key) (listing (fw_fga u) s)) \<le> (k + 100) + 100 * fuel" and "0 < fuel"
          using Suc.prems(2) True page(1) by auto
        from Suc.IH [OF rest this] page(1) parsed
        have rest_ok: "fga_frame u v \<and> listing (fw_fga v) = listing (fw_fga w) \<and> x \<noteq> Inl FG_Diverges
          \<and> (\<forall>ts. x = Inr ts \<longrightarrow> map triple ts = map triple acc @ take 100 (drop k ?ms) @ drop (k + 100) ?ms)"
          by simp
        have "take 100 (drop k ?ms) @ drop (k + 100) ?ms = drop k ?ms"
          by (metis add.commute append_take_drop_id drop_drop)
        with rest_ok reply(3) show ?thesis using fga_frame_trans by metis
      next
        case False
        then have "x = Inr ?acc" and "v = u"
          using Suc.prems(1) call reply Inr tok by (simp_all add: bindE_def lift_result_def Let_def ret_def)
        with False parsed page(1) reply(3) show ?thesis by simp
      qed
    qed
  qed
qed

lemma read_all:
  assumes "lists_tuples c listing tok"
    and "length (filter (matches_key key) (listing (fw_fga w) s)) \<le> 100 * fc_fuel c" and "0 < fc_fuel c"
    and "client_read_tuples c s key w = (x, v)"
  shows "x \<noteq> Inl FG_Diverges \<and> fga_frame w v \<and> listing (fw_fga v) = listing (fw_fga w)
    \<and> (\<forall>ts. x = Inr ts \<longrightarrow> map triple ts = filter (matches_key key) (listing (fw_fga w) s))"
proof (cases "fc_join c (''stores/'' @ s @ ''/read'')")
  case (Inl e)
  then show ?thesis using assms(4) by (auto simp: client_read_tuples_def fga_join_def bindE_def lift_result_def)
next
  case (Inr url)
  have "tok 0 = []" using assms(1) by (simp add: lists_tuples_def)
  then have "read_loop (fc_fuel c) c url key (tok 0) [] w = (x, v)"
    using assms(4) Inr by (simp add: client_read_tuples_def fga_join_def bindE_def lift_result_def)
  from read_loop_complete [OF assms(1) Inr this] assms(2,3) show ?thesis by simp
qed


section \<open>A server with one store\<close>

text \<open>The behaviours above hold together: a server that keeps the tuples of the store \<^verbatim>\<open>s\<close> in a list.\<close>

definition page_tok :: "nat \<Rightarrow> string" where
  "page_tok k = replicate k (CHR ''1'')"

definition json_triple :: "json \<Rightarrow> fga_tuple" where
  "json_triple k = (str_field k ''user'', str_field k ''relation'', str_field k ''object'')"

definition sample_read :: "fga_tuple list \<Rightarrow> json \<Rightarrow> fga_reply" where
  "sample_read f payload =
     (let k = json_index payload ''tuple_key'';
          ms = filter (matches_key \<lparr>tk_user = str_field k ''user'', tk_relation = str_field k ''relation'',
                 tk_object = str_field k ''object'', tk_condition_name = None, tk_condition_context = None\<rparr>) f;
          start = length (str_field payload ''continuation_token'')
      in Reply 200 None (Inr (JObj
           [(''tuples'', JArr (map (\<lambda>(u, r, obj). JObj [(''key'', JObj [(''user'', JStr u), (''relation'', JStr r), (''object'', JStr obj)])])
               (take 100 (drop start ms)))),
            (''continuation_token'', JStr (if start + 100 < length ms then page_tok (start + 100) else []))])))"

definition sample_write :: "fga_tuple list \<Rightarrow> json \<Rightarrow> fga_reply \<times> fga_tuple list" where
  "sample_write f payload =
     (let ws = map json_triple (page_entries (json_index payload ''writes'') ''tuple_keys'');
          ds = map json_triple (page_entries (json_index payload ''deletes'') ''tuple_keys'')
      in if set ws \<inter> set f = {} \<and> set ds \<subseteq> set f \<and> distinct (ws @ ds)
         then (Reply 200 None (Inr (JObj [])), filter (\<lambda>t. t \<notin> set ds) f @ ws)
         else (Reply 400 None (Inr (JObj [])), f))"

definition sample_send ::
  "http_method \<Rightarrow> string \<Rightarrow> (string \<times> string) list \<Rightarrow> json option \<Rightarrow> fga_tuple list \<Rightarrow> fga_reply \<times> fga_tuple list" where
  "sample_send meth url query body f =
     (case body of
        None \<Rightarrow> (NoReply ''refused'', f)
      | Some payload \<Rightarrow>
          if url = ''stores/s/read'' then (sample_read (remdups f) payload, f)
          else if url = ''stores/s/write'' then sample_write (remdups f) payload
          else if url = ''stores/s/check'' then
            (Reply 200 None (Inr (JObj [(''allowed'', JBool (case json_triple (json_index payload ''tuple_key'') of
               (u, r, obj) \<Rightarrow> related (set f) u r obj))])), f)
          else (NoReply ''refused'', f))"

definition sample_client :: "fga_tuple list fga_client" where
  "sample_client = \<lparr>fc_join = Inr, fc_send = sample_send, fc_show_json = (\<lambda>_. []), fc_fuel = 3\<rparr>"

definition sample_listing :: "fga_tuple list \<Rightarrow> string \<Rightarrow> fga_tuple list" where
  "sample_listing f s = (if s = ''s'' then remdups f else [])"

lemma path_store:
  "''stores/'' @ s @ ''/read'' = ''stores/s/read'' \<longleftrightarrow> s = ''s''"
  "''stores/'' @ s @ ''/write'' = ''stores/s/write'' \<longleftrightarrow> s = ''s''"
  "''stores/'' @ s @ ''/check'' = ''stores/s/check'' \<longleftrightarrow> s = ''s''"
  "''stores/'' @ s @ ''/read'' \<noteq> ''stores/s/write''" "''stores/'' @ s @ ''/read'' \<noteq> ''stores/s/check''"
  "''stores/'' @ s @ ''/write'' \<noteq> ''stores/s/check''"
proof -
  have cut: "s = ''s''" if "''stores/'' @ s @ t = ''stores/s'' @ t" for t
    using that by simp
  have tail: "last u = last v" if "u = v" for u v :: string
    using that by simp
  show "''stores/'' @ s @ ''/read'' = ''stores/s/read'' \<longleftrightarrow> s = ''s''" using cut [of "''/read''"] by auto
  show "''stores/'' @ s @ ''/write'' = ''stores/s/write'' \<longleftrightarrow> s = ''s''" using cut [of "''/write''"] by auto
  show "''stores/'' @ s @ ''/check'' = ''stores/s/check'' \<longleftrightarrow> s = ''s''" using cut [of "''/check''"] by auto
  show "''stores/'' @ s @ ''/read'' \<noteq> ''stores/s/write''" "''stores/'' @ s @ ''/read'' \<noteq> ''stores/s/check''"
    "''stores/'' @ s @ ''/write'' \<noteq> ''stores/s/check''"
    by (rule notI, drule tail, simp)+
qed

lemma read_payload_fields:
  "json_index (read_payload k token) ''tuple_key'' = to_delete_json k"
  "str_field (read_payload k token) ''continuation_token'' = token"
  by (simp_all add: read_payload_def json_index_def str_field_def Let_def)

lemma delete_json_fields:
  "str_field (to_delete_json k) ''user'' = tk_user k" "str_field (to_delete_json k) ''relation'' = tk_relation k"
  "str_field (to_delete_json k) ''object'' = tk_object k"
  by (simp_all add: to_delete_json_def str_field_def)

lemma json_triple_keys [simp]: "json_triple (to_delete_json k) = triple k" "json_triple (to_write_json k) = triple k"
  by (simp_all add: json_triple_def triple_def to_write_json_def to_delete_json_def str_field_def split: option.splits)

lemma write_payload_fields:
  "map json_triple (page_entries (json_index (write_payload m ws ds) ''writes'') ''tuple_keys'') = map triple ws"
  "map json_triple (page_entries (json_index (write_payload m ws ds) ''deletes'') ''tuple_keys'') = map triple ds"
  by (cases ws; cases ds; simp add: write_payload_def json_index_def page_entries_def comp_def)+

lemma matches_key_fields:
  "matches_key \<lparr>tk_user = tk_user k, tk_relation = tk_relation k, tk_object = tk_object k, tk_condition_name = n,
     tk_condition_context = ctx\<rparr> = matches_key k"
  by (simp add: matches_key_def fun_eq_iff)

lemma sample_lists: "lists_tuples sample_client sample_listing page_tok"
proof -
  have read: "sample_read f (read_payload key (page_tok k)) = Reply 200 None (Inr (JObj
      [(''tuples'', JArr (map (\<lambda>(u, r, obj). JObj [(''key'', JObj [(''user'', JStr u), (''relation'', JStr r), (''object'', JStr obj)])])
          (take 100 (drop k (filter (matches_key key) f))))),
       (''continuation_token'', JStr (if k + 100 < length (filter (matches_key key) f) then page_tok (k + 100) else []))]))"
    for f key k
    by (simp add: sample_read_def read_payload_fields delete_json_fields matches_key_fields Let_def page_tok_def)
  have all2: "list_all2 entry_of ts (map (\<lambda>(u, r, obj). JObj [(''key'', JObj [(''user'', JStr u), (''relation'', JStr r), (''object'', JStr obj)])]) ts)"
    for ts by (induction ts) (auto simp: entry_of_def)
  show ?thesis
    unfolding lists_tuples_def
  proof (intro conjI allI impI, goal_cases)
    case (3 s url f key k r f')
    then show ?case by (auto simp: sample_client_def sample_send_def path_store split: if_splits)
  next
    case (4 s url f key k r f' status tx body)
    then have s: "s = ''s''" and r: "Reply status tx body = sample_read (remdups f) (read_payload key (page_tok k))"
      by (auto simp: sample_client_def sample_send_def path_store split: if_splits)
    then show ?case using all2 unfolding read by (auto simp: sample_listing_def)
  qed (simp_all add: page_tok_def)
qed

lemma sample_writes: "writes_tuples sample_client sample_listing"
  unfolding writes_tuples_def
proof (intro allI impI, goal_cases)
  case (1 s url f m ws ds r f')
  show ?case
  proof (cases "s = ''s''")
    case True
    with 1 have "url = ''stores/s/write''" and "sample_send HttpPost url [] (Some (write_payload m ws ds)) f = (r, f')"
      by (auto simp: sample_client_def)
    then have "(r, f') = sample_write (remdups f) (write_payload m ws ds)" by (simp add: sample_send_def)
    with True show ?thesis
      by (auto simp: sample_write_def write_payload_fields sample_listing_def is_success_def tuples_after_def Let_def
          split: if_splits)
  next
    case False
    with 1 have "r = NoReply ''refused'' \<and> f' = f"
      by (auto simp: sample_client_def sample_send_def path_store split: if_splits)
    then show ?thesis by simp
  qed
qed

lemma sample_checks: "checks_related sample_client sample_listing ''s''"
  by (auto simp: checks_related_def sample_client_def sample_send_def sample_listing_def json_index_def check_payload_def
      json_triple_def str_field_def)

definition sample_fga_world :: "fga_tuple list \<Rightarrow> fga_tuple list fga_world" where
  "sample_fga_world f = pg.extend (quiet_pg empty_db 0) \<lparr>fw_fga = f\<rparr>"


end
