(* ===== verification/PermissionBackend.thy ===== *)
theory PermissionBackend
  imports PermissionStores FgaClient Auth
begin

text \<open>
  The permission backend of \<^verbatim>\<open>services/permission.rs\<close>: its errors, the repository of registered
  namespaces over Postgres and in memory (one interface, \<open>namespace_mapping\<close>), and
  \<^verbatim>\<open>OpenFgaPermissionBackend\<close>, which gives every namespace of a tenant an OpenFGA store of its own.
  The order in which a \<^verbatim>\<open>HashMap\<close> is walked is a parameter.
\<close>

section \<open>Errors\<close>

text \<open>\<open>PE_Diverges\<close> is no variant: it carries \<open>FG_Diverges\<close> on.\<close>

datatype permission_error =
    PE_Ory nat string
  | PE_OpenFga nat string
  | PE_NamespaceNotConfigured string
  | PE_Conflict string
  | PE_Configuration string
  | PE_Serialization string
  | PE_Unavailable string
  | PE_Diverges

fun permission_error_of_ory :: "ory_error \<Rightarrow> permission_error" where
  "permission_error_of_ory (Ory_Status status message) = PE_Ory status message"
| "permission_error_of_ory (Ory_Http e) = PE_Unavailable e"
| "permission_error_of_ory (Ory_Serialization e) = PE_Serialization e"
| "permission_error_of_ory (Ory_Url e) = PE_Configuration e"
| "permission_error_of_ory (Ory_InvalidResponse msg) = PE_Unavailable msg"
| "permission_error_of_ory Ory_MissingTenant = PE_Configuration ''missing tenant context''"
| "permission_error_of_ory (Ory_Redirect loc cs) = PE_Unavailable ''unexpected redirect''"

fun permission_error_of_fga :: "fga_error \<Rightarrow> permission_error" where
  "permission_error_of_fga (FG_OpenFga status message) = PE_OpenFga status message"
| "permission_error_of_fga (FG_Http e) = PE_Unavailable e"
| "permission_error_of_fga (FG_Serialization e) = PE_Serialization e"
| "permission_error_of_fga (FG_Url e) = PE_Configuration e"
| "permission_error_of_fga FG_MissingStore = PE_NamespaceNotConfigured ''missing OpenFGA store''"
| "permission_error_of_fga (FG_InvalidResponse msg) = PE_Configuration msg"
| "permission_error_of_fga FG_Diverges = PE_Diverges"

definition status_error :: "nat \<Rightarrow> string \<Rightarrow> service_error" where
  "status_error status message =
     (if status = 400 then SE_InvalidArgument message
      else if status = 401 then SE_Unauthenticated message
      else if status = 403 then SE_PermissionDenied message
      else if status = 404 then SE_NotFound message
      else if status = 409 then SE_AlreadyExists message
      else if status = 503 then SE_Unavailable message
      else SE_Internal message)"

fun service_error_of_permission :: "permission_error \<Rightarrow> service_error" where
  "service_error_of_permission (PE_Ory status message) = status_error status message"
| "service_error_of_permission (PE_OpenFga status message) = status_error status message"
| "service_error_of_permission (PE_NamespaceNotConfigured msg) = SE_InvalidArgument msg"
| "service_error_of_permission (PE_Conflict msg) = SE_AlreadyExists msg"
| "service_error_of_permission (PE_Configuration msg) = SE_Configuration msg"
| "service_error_of_permission (PE_Serialization msg) = SE_Serialization msg"
| "service_error_of_permission (PE_Unavailable msg) = SE_Unavailable msg"
| "service_error_of_permission PE_Diverges = SE_Panicked ''diverges''"

text \<open>The text of a \<^verbatim>\<open>DbError\<close>: the message of its service error, but for \<^verbatim>\<open>Sqlx\<close>.\<close>

fun se_message :: "service_error \<Rightarrow> string" where
  "se_message (SE_Database m) = m" | "se_message (SE_Internal m) = m" | "se_message (SE_NotFound m) = m"
| "se_message (SE_InvalidArgument m) = m" | "se_message (SE_Configuration m) = m" | "se_message (SE_Unauthenticated m) = m"
| "se_message (SE_PermissionDenied m) = m" | "se_message (SE_AlreadyExists m) = m" | "se_message (SE_Unavailable m) = m"
| "se_message (SE_Serialization m) = m" | "se_message (SE_FailedPrecondition m) = m" | "se_message (SE_Unimplemented m) = m"
| "se_message (SE_Panicked m) = m"

fun show_db_error :: "db_error \<Rightarrow> string" where
  "show_db_error (Sqlx m) = ''sqlx error: '' @ m"
| "show_db_error e = se_message (service_error_of_db e)"

definition map_namespace_db_error :: "db_error \<Rightarrow> permission_error" where
  "map_namespace_db_error err =
     (case err of
        NamespaceTypeConflict ty \<Rightarrow> PE_Conflict (''type '' @ ty @ '' is already registered'')
      | _ \<Rightarrow> PE_Unavailable (''namespace store: '' @ show_db_error err))"

section \<open>Namespace repositories\<close>

record namespace_record =
  nr_namespace :: string
  nr_model :: json
  nr_types :: "string list"
  nr_store_id :: "string option"
  nr_model_id :: "string option"
  nr_created_at :: "instant option"
  nr_updated_at :: "instant option"

definition namespace_record_from_row :: "permission_namespace_row \<Rightarrow> namespace_record" where
  "namespace_record_from_row row =
     \<lparr>nr_namespace = pn_namespace row, nr_model = pn_model row, nr_types = pn_types row, nr_store_id = pn_store_id row,
      nr_model_id = pn_model_id row, nr_created_at = Some (pn_created_at row), nr_updated_at = Some (pn_updated_at row)\<rparr>"

definition pg_repo_get :: "string \<Rightarrow> string \<Rightarrow> ('z pg_scheme, permission_error, namespace_record option) io" where
  "pg_repo_get tenant_id namespace =
     bindE (map_err map_namespace_db_error (pg_namespace_get tenant_id namespace))
       (\<lambda>row. ret (map_option namespace_record_from_row row))"

definition pg_repo_get_by_type :: "string \<Rightarrow> string \<Rightarrow> ('z pg_scheme, permission_error, namespace_record option) io" where
  "pg_repo_get_by_type tenant_id object_type =
     bindE (map_err map_namespace_db_error (pg_namespace_get_by_type tenant_id object_type))
       (\<lambda>row. ret (map_option namespace_record_from_row row))"

definition pg_repo_upsert :: "string \<Rightarrow> namespace_record \<Rightarrow> ('z pg_scheme, permission_error, namespace_record) io" where
  "pg_repo_upsert tenant_id record =
     bindE (map_err map_namespace_db_error
              (pg_namespace_upsert tenant_id (nr_namespace record) (nr_model record) (nr_store_id record) (nr_model_id record)))
       (\<lambda>row. ret (namespace_record_from_row row))"

definition pg_repo_list :: "string \<Rightarrow> ('z pg_scheme, permission_error, namespace_record list) io" where
  "pg_repo_list tenant_id =
     bindE (map_err map_namespace_db_error (pg_namespace_list tenant_id)) (\<lambda>rows. ret (map namespace_record_from_row rows))"

definition pg_repo_delete :: "string \<Rightarrow> string \<Rightarrow> ('z pg_scheme, permission_error, unit) io" where
  "pg_repo_delete tenant_id namespace = map_err map_namespace_db_error (pg_namespace_delete tenant_id namespace)"

text \<open>\<^verbatim>\<open>MemoryNamespaceMappingRepo\<close>: the map as the list of its entries in the order it is walked.\<close>

record mem_namespaces =
  mn_records :: "((string \<times> string) \<times> namespace_record) list"
  mn_now :: instant

definition mem_ns_get :: "string \<Rightarrow> string \<Rightarrow> (mem_namespaces, permission_error, namespace_record option) io" where
  "mem_ns_get tenant_id namespace = gets (\<lambda>m. map_of (mn_records m) (tenant_id, namespace))"

definition mem_ns_get_by_type :: "string \<Rightarrow> string \<Rightarrow> (mem_namespaces, permission_error, namespace_record option) io" where
  "mem_ns_get_by_type tenant_id object_type =
     gets (\<lambda>m. case find (\<lambda>((t, _), r). t = tenant_id \<and> object_type \<in> set (nr_types r)) (mn_records m) of
                 Some (_, r) \<Rightarrow> Some r
               | None \<Rightarrow> map_of (mn_records m) (tenant_id, object_type))"

definition mem_ns_conflict :: "string \<Rightarrow> string \<Rightarrow> string list \<Rightarrow> mem_namespaces \<Rightarrow> permission_error option" where
  "mem_ns_conflict tenant_id namespace index m =
     (case List.map_filter (\<lambda>((t, ns), r). if t = tenant_id \<and> ns \<noteq> namespace
             then map_option (Pair ns) (find (\<lambda>ty. ty \<in> set (nr_types r)) index) else None) (mn_records m) of
        (ns, ty) # _ \<Rightarrow> Some (PE_Conflict (''type '' @ ty @ '' is already registered under namespace '' @ ns))
      | [] \<Rightarrow> None)"

definition mem_ns_upsert :: "string \<Rightarrow> namespace_record \<Rightarrow> (mem_namespaces, permission_error, namespace_record) io" where
  "mem_ns_upsert tenant_id record m =
     (let index = relation_bearing_type_names (nr_model record);
          k = (tenant_id, nr_namespace record)
      in case mem_ns_conflict tenant_id (nr_namespace record) index m of
           Some e \<Rightarrow> (Inl e, m)
         | None \<Rightarrow>
             let merged = (case map_of (mn_records m) k of
                             Some existing \<Rightarrow> record\<lparr>nr_store_id := coalesce (nr_store_id record) (nr_store_id existing),
                               nr_model_id := coalesce (nr_model_id record) (nr_model_id existing),
                               nr_updated_at := Some (mn_now m), nr_types := index\<rparr>
                           | None \<Rightarrow> record\<lparr>nr_created_at := Some (mn_now m), nr_updated_at := Some (mn_now m), nr_types := index\<rparr>)
             in (Inr merged, m\<lparr>mn_records := (k, merged) # filter (\<lambda>(k', _). k' \<noteq> k) (mn_records m)\<rparr>))"

definition mem_ns_list :: "string \<Rightarrow> (mem_namespaces, permission_error, namespace_record list) io" where
  "mem_ns_list tenant_id =
     gets (\<lambda>m. sort_key nr_namespace (map snd (filter (\<lambda>((t, _), _). t = tenant_id) (mn_records m))))"

definition mem_ns_delete :: "string \<Rightarrow> string \<Rightarrow> (mem_namespaces, permission_error, unit) io" where
  "mem_ns_delete tenant_id namespace =
     modify (\<lambda>m. m\<lparr>mn_records := filter (\<lambda>(k, _). k \<noteq> (tenant_id, namespace)) (mn_records m)\<rparr>)"

subsection \<open>The contract of a repository\<close>

text \<open>What a repository holds: model, store and model id of every namespace of every tenant.\<close>

type_synonym ns_view = "string \<times> string \<Rightarrow> (json \<times> string option \<times> string option) option"

definition nr_core :: "namespace_record \<Rightarrow> json \<times> string option \<times> string option" where
  "nr_core r = (nr_model r, nr_store_id r, nr_model_id r)"

definition owner_in :: "ns_view \<Rightarrow> string \<Rightarrow> string \<Rightarrow> string \<Rightarrow> bool" where
  "owner_in V t ns ty \<longleftrightarrow> (\<exists>m ids. V (t, ns) = Some (m, ids) \<and> ty \<in> set (relation_bearing_type_names m))"

definition merged_core :: "namespace_record \<Rightarrow> (json \<times> string option \<times> string option) option \<Rightarrow> json \<times> string option \<times> string option" where
  "merged_core r old =
     (case old of
        None \<Rightarrow> nr_core r
      | Some (_, si, mi) \<Rightarrow> (nr_model r, coalesce (nr_store_id r) si, coalesce (nr_model_id r) mi))"

locale namespace_mapping =
  fixes get_by_type :: "string \<Rightarrow> string \<Rightarrow> ('s, permission_error, namespace_record option) io"
    and upsert :: "string \<Rightarrow> namespace_record \<Rightarrow> ('s, permission_error, namespace_record) io"
    and remove :: "string \<Rightarrow> string \<Rightarrow> ('s, permission_error, unit) io"
    and view :: "'s \<Rightarrow> ns_view"
    and inv :: "'s \<Rightarrow> bool"
  assumes owner_unique: "inv s \<Longrightarrow> owner_in (view s) t a ty \<Longrightarrow> owner_in (view s) t b ty \<Longrightarrow> a = b"
    and get_frame: "inv s \<Longrightarrow> get_by_type t ty s = (x, s') \<Longrightarrow> inv s' \<and> view s' = view s"
    and get_owner: "inv s \<Longrightarrow> get_by_type t ty s = (Inr r, s') \<Longrightarrow> owner_in (view s) t ns ty \<Longrightarrow>
      map_option nr_core r = view s (t, ns)"
    and get_fallback: "inv s \<Longrightarrow> get_by_type t ty s = (Inr r, s') \<Longrightarrow> (\<And>ns. \<not> owner_in (view s) t ns ty) \<Longrightarrow>
      map_option nr_core r = view s (t, ty)"
    and upsert_inv: "inv s \<Longrightarrow> upsert t rec s = (y, s') \<Longrightarrow> inv s'"
    and upsert_law: "inv s \<Longrightarrow> upsert t rec s = (Inr r', s') \<Longrightarrow>
      view s' = (view s)((t, nr_namespace rec) \<mapsto> merged_core rec (view s (t, nr_namespace rec)))"
    and conflict_law: "inv s \<Longrightarrow> upsert t rec s = (Inl (PE_Conflict m), s') \<Longrightarrow> view s' = view s
      \<and> (\<exists>ns ty. ns \<noteq> nr_namespace rec \<and> owner_in (view s) t ns ty \<and> ty \<in> set (relation_bearing_type_names (nr_model rec)))"
    and remove_inv: "inv s \<Longrightarrow> remove t ns s = (z, s') \<Longrightarrow> inv s'"
    and remove_law: "inv s \<Longrightarrow> remove t ns s = (Inr (), s') \<Longrightarrow> view s' = (view s)((t, ns) := None)"
begin

lemma registered_resolves:
  assumes "inv s" and "upsert t rec s = (Inr r', s1)" and "ty \<in> set (relation_bearing_type_names (nr_model rec))"
    and "get_by_type t ty s1 = (Inr x, s2)"
  shows "\<exists>y. x = Some y \<and> nr_core y = merged_core rec (view s (t, nr_namespace rec))"
proof -
  have "owner_in (view s1) t (nr_namespace rec) ty"
    using upsert_law [OF assms(1,2)] assms(3)
    by (auto simp: owner_in_def merged_core_def nr_core_def split: option.splits)
  from get_owner [OF upsert_inv [OF assms(1,2)] assms(4) this] upsert_law [OF assms(1,2)]
  show ?thesis by auto
qed

lemma other_tenant_same:
  assumes "inv s" and "upsert t rec s = (Inr r', s1)" and "t' \<noteq> t"
    and "get_by_type t' ty s = (Inr x, s2)" and "get_by_type t' ty s1 = (Inr y, s3)"
  shows "map_option nr_core x = map_option nr_core y"
proof -
  have same: "view s1 (t', ns) = view s (t', ns)" for ns using upsert_law [OF assms(1,2)] assms(3) by simp
  then have own: "owner_in (view s1) t' ns ty \<longleftrightarrow> owner_in (view s) t' ns ty" for ns by (simp add: owner_in_def)
  note inv1 = upsert_inv [OF assms(1,2)]
  show ?thesis
  proof (cases "\<exists>ns. owner_in (view s) t' ns ty")
    case True
    then obtain ns where "owner_in (view s) t' ns ty" by blast
    with own get_owner [OF assms(1,4)] get_owner [OF inv1 assms(5)] same show ?thesis by simp
  next
    case False
    with own get_fallback [OF assms(1,4)] get_fallback [OF inv1 assms(5)] same show ?thesis by simp
  qed
qed

lemma removed_unresolved:
  assumes "inv s" and "remove t ns s = (Inr (), s1)" and "owner_in (view s) t ns ty" and "ty \<noteq> ns"
    and "view s (t, ty) = None" and "get_by_type t ty s1 = (Inr x, s2)"
  shows "x = None"
proof -
  have v: "view s1 = (view s)((t, ns) := None)" by (rule remove_law [OF assms(1,2)])
  have "\<not> owner_in (view s1) t a ty" for a
    using owner_unique [OF assms(1) assms(3), of a] v by (auto simp: owner_in_def split: if_splits)
  from get_fallback [OF remove_inv [OF assms(1,2)] assms(6) this] v assms(4,5) show ?thesis by simp
qed

end

subsection \<open>Over Postgres\<close>

definition pg_ns_view :: "'z pg_scheme \<Rightarrow> ns_view" where
  "pg_ns_view w = (\<lambda>(t, ns). map_option (\<lambda>n. (ns_model n, ns_store_id n, ns_model_id n)) (find_namespace (pg_db w) t ns))"

lemma find_namespace_iff:
  assumes "namespaces_ok db"
  shows "find_namespace db t ns = Some n \<longleftrightarrow> n \<in> set (permission_namespaces db) \<and> ns_key n = (t, ns)"
proof
  assume "find_namespace db t ns = Some n"
  then show "n \<in> set (permission_namespaces db) \<and> ns_key n = (t, ns)"
    unfolding find_namespace_def by (rule find_SomeD)
next
  assume "n \<in> set (permission_namespaces db) \<and> ns_key n = (t, ns)"
  then show "find_namespace db t ns = Some n"
    using assms unfolding find_namespace_def namespaces_ok_def by (intro find_key_unique [where key = ns_key]) auto
qed

lemma owner_pg:
  assumes "namespaces_ok (pg_db w)"
  shows "owner_in (pg_ns_view w) t ns ty \<longleftrightarrow> find_type_owner (pg_db w) t ty = Some ns"
proof -
  let ?db = "pg_db w"
  have uniq: "key_unique nt_key (permission_namespace_types ?db)" using assms by (simp add: namespaces_ok_def)
  have "find_type_owner ?db t ty = Some ns \<longleftrightarrow> owns_type ?db t ns ty"
  proof
    assume "find_type_owner ?db t ty = Some ns"
    then obtain r where "r \<in> set (permission_namespace_types ?db)" "nt_key r = (t, ty)" "nt_namespace r = ns"
      by (auto simp: find_type_owner_def dest!: find_SomeD)
    moreover from this have "r = \<lparr>nt_tenant_id = t, nt_type = ty, nt_namespace = ns\<rparr>" by (simp add: nt_key_def)
    ultimately show "owns_type ?db t ns ty" by (simp add: owns_type_def)
  next
    assume "owns_type ?db t ns ty"
    then have "find (\<lambda>r. nt_key r = (t, ty)) (permission_namespace_types ?db) = Some \<lparr>nt_tenant_id = t, nt_type = ty, nt_namespace = ns\<rparr>"
      using uniq by (intro find_key_unique [where key = nt_key]) (auto simp: owns_type_def nt_key_def)
    then show "find_type_owner ?db t ty = Some ns" by (simp add: find_type_owner_def)
  qed
  also have "\<dots> \<longleftrightarrow> owner_in (pg_ns_view w) t ns ty"
  proof
    assume own: "owns_type ?db t ns ty"
    then have "(t, ns) \<in> ns_key ` set (permission_namespaces ?db)"
      using assms by (force simp: namespaces_ok_def owns_type_def)
    then obtain n where n: "n \<in> set (permission_namespaces ?db)" "ns_key n = (t, ns)" by auto
    then have "ty \<in> set (relation_bearing_type_names (ns_model n))"
      using own assms by (auto simp: namespaces_ok_def ns_key_def)
    with n find_namespace_iff [OF assms] show "owner_in (pg_ns_view w) t ns ty"
      by (auto simp: owner_in_def pg_ns_view_def)
  next
    assume "owner_in (pg_ns_view w) t ns ty"
    then obtain n where "find_namespace ?db t ns = Some n" "ty \<in> set (relation_bearing_type_names (ns_model n))"
      by (auto simp: owner_in_def pg_ns_view_def)
    with find_namespace_iff [OF assms] assms show "owns_type ?db t ns ty" by (auto simp: namespaces_ok_def ns_key_def)
  qed
  finally show ?thesis by simp
qed

text \<open>The namespace that serves an object type, as a function of the database.\<close>

definition mapping_of :: "database \<Rightarrow> string \<Rightarrow> string \<Rightarrow> namespace_row option" where
  "mapping_of db t ty =
     (case Option.bind (find_type_owner db t ty) (find_namespace db t) of Some n \<Rightarrow> Some n | None \<Rightarrow> find_namespace db t ty)"

lemma pg_get_by_type_result:
  assumes "pg_repo_get_by_type t ty w = (Inr x, v)"
  shows "x = map_option (\<lambda>n. namespace_record_from_row (select_row (pg_db w) n)) (mapping_of (pg_db w) t ty)"
proof -
  let ?q1 = "\<lambda>now db. Inr (map_option (select_row db) (Option.bind (find_type_owner db t ty) (find_namespace db t))) :: db_error + _"
  let ?q2 = "\<lambda>now db. Inr (map_option (select_row db) (find_namespace db t ty)) :: db_error + _"
  obtain r w1 where q1: "pg_query ?q1 w = (Inr r, w1)"
    and rest: "case r of Some y \<Rightarrow> x = Some (namespace_record_from_row y)
      | None \<Rightarrow> \<exists>z. pg_query ?q2 w1 = (Inr z, v) \<and> x = map_option namespace_record_from_row z"
    using assms
    by (auto simp: pg_repo_get_by_type_def pg_namespace_get_by_type_def pg_namespace_get_def run_simps split: option.splits)
  note first = pg_query_Inr [OF q1]
  show ?thesis
  proof (cases r)
    case None
    then obtain z where q2: "pg_query ?q2 w1 = (Inr z, v)" and x: "x = map_option namespace_record_from_row z" using rest by auto
    from pg_query_Inr [OF q2] first None x show ?thesis
      by (auto simp: mapping_of_def option.map_comp comp_def split: option.splits)
  next
    case (Some y)
    with first rest show ?thesis by (auto simp: mapping_of_def)
  qed
qed

lemma pg_get_by_type_frame: "pg_db (snd (pg_repo_get_by_type t ty w)) = pg_db w"
  using keepsD_snd [of "\<lambda>v. pg_db v = pg_db w" "pg_repo_get_by_type t ty" w]
    keeps_pg_query [of "\<lambda>db. db = pg_db w"]
  unfolding pg_repo_get_by_type_def pg_namespace_get_by_type_def pg_namespace_get_def
  by (auto intro!: keeps_rules split: option.splits)

lemma mapping_of_core:
  assumes "namespaces_ok (pg_db w)"
  shows "owner_in (pg_ns_view w) t ns ty \<Longrightarrow> map_option (\<lambda>n. (ns_model n, ns_store_id n, ns_model_id n)) (mapping_of (pg_db w) t ty) = pg_ns_view w (t, ns)"
    and "(\<And>ns. \<not> owner_in (pg_ns_view w) t ns ty) \<Longrightarrow> map_option (\<lambda>n. (ns_model n, ns_store_id n, ns_model_id n)) (mapping_of (pg_db w) t ty) = pg_ns_view w (t, ty)"
proof -
  assume own: "owner_in (pg_ns_view w) t ns ty"
  then obtain n where "find_namespace (pg_db w) t ns = Some n" by (auto simp: owner_in_def pg_ns_view_def)
  with own owner_pg [OF assms] show "map_option (\<lambda>n. (ns_model n, ns_store_id n, ns_model_id n)) (mapping_of (pg_db w) t ty) = pg_ns_view w (t, ns)"
    by (simp add: mapping_of_def pg_ns_view_def)
next
  assume "\<And>ns. \<not> owner_in (pg_ns_view w) t ns ty"
  then have "find_type_owner (pg_db w) t ty = None" using owner_pg [OF assms] by auto
  then show "map_option (\<lambda>n. (ns_model n, ns_store_id n, ns_model_id n)) (mapping_of (pg_db w) t ty) = pg_ns_view w (t, ty)"
    by (simp add: mapping_of_def pg_ns_view_def)
qed

lemma upsert_view:
  assumes "namespaces_ok (pg_db w)" and "pg_repo_upsert t rec w = (Inr r, v)"
  shows "pg_ns_view v = (pg_ns_view w)((t, nr_namespace rec) \<mapsto> merged_core rec (pg_ns_view w (t, nr_namespace rec)))"
proof -
  let ?ns = "nr_namespace rec"
  let ?st = "namespace_upsert_stmt t ?ns (nr_model rec) (nr_store_id rec) (nr_model_id rec)"
  obtain row' where run: "pg_exec ?st w = (Inr row', v)"
    using assms(2) by (auto simp: pg_repo_upsert_def pg_namespace_upsert_def run_simps)
  have fst: "fst (?st (pg_now w) (pg_db w)) = Inr row'" and v: "pg_db v = snd (?st (pg_now w) (pg_db w))"
    using pg_exec_Inr [OF run] by auto
  have ok: "namespaces_ok (pg_db v)"
    using stmt_keeps_upsert assms(1) v by (auto simp: stmt_keeps_def)
  show ?thesis
  proof (cases rule: upsert_cases [of t ?ns "nr_model rec" "pg_db w" "nr_store_id rec" "nr_model_id rec" "pg_now w"])
    case (stored row rows)
    have un: "key_unique ns_key (permission_namespaces (pg_db w))" using assms(1) by (simp add: namespaces_ok_def)
    have rows: "permission_namespaces (pg_db v) = rows" using v stored(4) by (simp add: Let_def)
    note put = put_rows [OF un stored(2,3)]
    have key: "ns_key row = (t, ?ns)" "ns_model row = nr_model rec" using put_namespace_key [OF refl] stored(2) by simp_all
    have other: "find_namespace (pg_db v) t' ns' = find_namespace (pg_db w) t' ns'" if "(t', ns') \<noteq> (t, ?ns)" for t' ns'
    proof -
      have "find_namespace (pg_db v) t' ns' = Some n \<longleftrightarrow> find_namespace (pg_db w) t' ns' = Some n" for n
        unfolding find_namespace_iff [OF ok] find_namespace_iff [OF assms(1)] rows put(2) using that key(1) by auto
      then show ?thesis by (metis option.exhaust)
    qed
    have self: "find_namespace (pg_db v) t ?ns = Some row" using find_namespace_iff [OF ok] put(2) key(1) rows by simp
    show ?thesis
    proof (rule ext, clarify)
      fix t' ns'
      show "pg_ns_view v (t', ns') = ((pg_ns_view w)((t, ?ns) \<mapsto> merged_core rec (pg_ns_view w (t, ?ns)))) (t', ns')"
        using other [of t' ns'] self stored(2)
        by (auto simp: pg_ns_view_def merged_core_def nr_core_def put_namespace_def split: option.splits)
    qed
  qed (use fst in \<open>auto simp: violates_def\<close>)
qed

lemma conflict_view:
  assumes "namespaces_ok (pg_db w)" and "pg_repo_upsert t rec w = (Inl (PE_Conflict m), v)"
  shows "pg_ns_view v = pg_ns_view w \<and> (\<exists>ns ty. ns \<noteq> nr_namespace rec \<and> owner_in (pg_ns_view w) t ns ty
    \<and> ty \<in> set (relation_bearing_type_names (nr_model rec)))"
proof -
  let ?ns = "nr_namespace rec"
  let ?st = "namespace_upsert_stmt t ?ns (nr_model rec) (nr_store_id rec) (nr_model_id rec)"
  obtain e where run: "pg_exec ?st w = (Inl e, v)" and e: "map_namespace_db_error e = PE_Conflict m"
    using assms(2) by (auto simp: pg_repo_upsert_def pg_namespace_upsert_def bindE_def map_err_def ret_def split: prod.splits sum.splits)
  obtain ty where ty: "e = NamespaceTypeConflict ty" using e by (auto simp: map_namespace_db_error_def split: db_error.splits)
  then have st: "?st (pg_now w) (pg_db w) = (Inl e, snd (?st (pg_now w) (pg_db w)))" and "pg_db v = snd (?st (pg_now w) (pg_db w))"
    using run by (auto simp: pg_exec_def Let_def split: prod.splits option.splits fault.splits)
  then show ?thesis
  proof (cases rule: upsert_cases [of t ?ns "nr_model rec" "pg_db w" "nr_store_id rec" "nr_model_id rec" "pg_now w"])
    case (conflict c)
    then obtain r where r: "r \<in> set (permission_namespace_types (pg_db w))" "nt_tenant_id r = t" "nt_type r = c"
      "c \<in> set (relation_bearing_type_names (nr_model rec))" "nt_namespace r \<noteq> ?ns"
      by (auto simp: type_conflicts_def)
    moreover have "find (\<lambda>x. nt_key x = (t, c)) (permission_namespace_types (pg_db w)) = Some r"
      using assms(1) r by (intro find_key_unique [where key = nt_key]) (auto simp: namespaces_ok_def nt_key_def)
    then have "owner_in (pg_ns_view w) t (nt_namespace r) c" using owner_pg [OF assms(1)] by (simp add: find_type_owner_def)
    moreover have "pg_db v = pg_db w" using conflict \<open>pg_db v = snd _\<close> by simp
    ultimately show ?thesis by (auto simp: pg_ns_view_def)
  qed (use st ty in \<open>auto simp: violates_def Let_def\<close>)
qed

lemma keeps_pg_repo:
  "keeps (\<lambda>w. namespaces_ok (pg_db w)) (pg_repo_upsert t rec)" "keeps (\<lambda>w. namespaces_ok (pg_db w)) (pg_repo_delete t ns)"
  unfolding pg_repo_upsert_def pg_repo_delete_def pg_namespace_upsert_def pg_namespace_delete_def
  by (intro keeps_rules stmt_rules)+

interpretation pg_repo: namespace_mapping pg_repo_get_by_type pg_repo_upsert pg_repo_delete pg_ns_view
  "\<lambda>w. namespaces_ok (pg_db w)"
proof (unfold_locales, goal_cases)
  case (1 s t a ty b)
  then show ?case using owner_pg [OF 1(1)] by simp
next
  case (2 s t ty x s')
  then show ?case using pg_get_by_type_frame [of t ty s] by (simp add: pg_ns_view_def)
next
  case (3 s t ty r s' ns)
  then show ?case
    using pg_get_by_type_result [OF 3(2)] mapping_of_core(1) [OF 3(1,3)]
    by (simp add: option.map_comp comp_def nr_core_def namespace_record_from_row_def select_row_def)
next
  case (4 s t ty r s')
  then show ?case
    using pg_get_by_type_result [OF 4(2)] mapping_of_core(2) [OF 4(1,3)]
    by (simp add: option.map_comp comp_def nr_core_def namespace_record_from_row_def select_row_def)
next
  case (5 s t rec y s')
  then show ?case using keepsD [OF keeps_pg_repo(1) 5] by simp
next
  case (6 s t rec r' s')
  then show ?case by (rule upsert_view)
next
  case (7 s t rec m s')
  then show ?case by (rule conflict_view)
next
  case (8 s t ns z s')
  then show ?case using keepsD [OF keeps_pg_repo(2) 8] by simp
next
  case (9 s t ns s')
  then have run: "pg_exec (namespace_delete_stmt t ns) s = (Inr (), s')"
    by (simp add: pg_repo_delete_def pg_namespace_delete_def run_simps)
  have "find (\<lambda>n. ns_key n = k) (filter (\<lambda>n. ns_key n \<noteq> k') rows) = (if k = k' then None else find (\<lambda>n. ns_key n = k) rows)" for k k' rows
    by (induction rows) auto
  then show ?case
    using pg_exec_Inr [OF run] by (auto simp: pg_ns_view_def namespace_delete_stmt_def find_namespace_def fun_eq_iff)
qed

subsection \<open>In memory\<close>

definition mem_ns_view :: "mem_namespaces \<Rightarrow> ns_view" where
  "mem_ns_view m k = map_option nr_core (map_of (mn_records m) k)"

definition mem_ns_ok :: "mem_namespaces \<Rightarrow> bool" where
  "mem_ns_ok m \<longleftrightarrow> distinct (map fst (mn_records m))
     \<and> (\<forall>(k, r) \<in> set (mn_records m). nr_types r = relation_bearing_type_names (nr_model r))
     \<and> (\<forall>t a b ty. owner_in (mem_ns_view m) t a ty \<longrightarrow> owner_in (mem_ns_view m) t b ty \<longrightarrow> a = b)"

lemma mem_ns_entry:
  assumes "mem_ns_ok m"
  shows "(k, r) \<in> set (mn_records m) \<longleftrightarrow> map_of (mn_records m) k = Some r"
  using assms by (auto simp: mem_ns_ok_def map_of_is_SomeI dest: map_of_SomeD)

lemma mem_ns_owner:
  assumes "mem_ns_ok m"
  shows "owner_in (mem_ns_view m) t ns ty \<longleftrightarrow> (\<exists>r. ((t, ns), r) \<in> set (mn_records m) \<and> ty \<in> set (nr_types r))"
  using assms mem_ns_entry [OF assms]
  by (fastforce simp: owner_in_def mem_ns_view_def nr_core_def mem_ns_ok_def)

lemma mem_ns_no_conflict:
  assumes "mem_ns_ok m"
  shows "mem_ns_conflict t ns index m = None \<longleftrightarrow> (\<forall>a ty. owner_in (mem_ns_view m) t a ty \<longrightarrow> ty \<in> set index \<longrightarrow> a = ns)"
proof -
  let ?f = "\<lambda>((t', a), r). if t' = t \<and> a \<noteq> ns then map_option (Pair a) (find (\<lambda>ty. ty \<in> set (nr_types r)) index) else None"
  have empty: "List.map_filter g xs = [] \<longleftrightarrow> (\<forall>x \<in> set xs. g x = None)" for g :: "'x \<Rightarrow> 'y option" and xs
    by (induction xs) (auto simp: map_filter_simps split: option.splits)
  have "mem_ns_conflict t ns index m = None \<longleftrightarrow> List.map_filter ?f (mn_records m) = []"
    unfolding mem_ns_conflict_def by (cases "List.map_filter ?f (mn_records m)") auto
  also have "\<dots> \<longleftrightarrow>
      (\<forall>((t', a), r) \<in> set (mn_records m). t' = t \<and> a \<noteq> ns \<longrightarrow> (\<forall>ty \<in> set index. ty \<notin> set (nr_types r)))"
    unfolding empty by (auto simp: find_None_iff split: if_splits)
  finally show ?thesis using mem_ns_owner [OF assms] by fastforce
qed

lemma mem_ns_upsert_Inr:
  assumes "mem_ns_ok m" and "mem_ns_upsert t rec m = (Inr r, m')"
  shows "mem_ns_view m' = (mem_ns_view m)((t, nr_namespace rec) \<mapsto> merged_core rec (mem_ns_view m (t, nr_namespace rec)))"
    and "mem_ns_ok m'"
proof -
  let ?k = "(t, nr_namespace rec)" and ?index = "relation_bearing_type_names (nr_model rec)"
  have free: "mem_ns_conflict t (nr_namespace rec) ?index m = None"
    and rec: "mn_records m' = (?k, r) # filter (\<lambda>(k', _). k' \<noteq> ?k) (mn_records m)"
    and core: "nr_core r = merged_core rec (mem_ns_view m ?k)" "nr_types r = ?index" "nr_model r = nr_model rec"
    using assms(2)
    by (auto simp: mem_ns_upsert_def Let_def merged_core_def mem_ns_view_def nr_core_def split: option.splits)
  have "map_of (filter (\<lambda>(k', _). k' \<noteq> ?k) rs) k = (if k = ?k then None else map_of rs k)" for rs :: "((string \<times> string) \<times> namespace_record) list" and k
    by (induction rs) auto
  then show view: "mem_ns_view m' = (mem_ns_view m)(?k \<mapsto> merged_core rec (mem_ns_view m ?k))"
    using rec core(1) by (auto simp: mem_ns_view_def fun_eq_iff)
  have own: "owner_in (mem_ns_view m') t' a ty \<longleftrightarrow> (if (t', a) = ?k then ty \<in> set ?index else owner_in (mem_ns_view m) t' a ty)" for t' a ty
    unfolding view by (auto simp: owner_in_def merged_core_def nr_core_def split: option.splits)
  have "distinct (map fst (mn_records m'))"
    using assms(1) rec by (auto simp: mem_ns_ok_def distinct_map_filter)
  moreover have "\<forall>(k, r) \<in> set (mn_records m'). nr_types r = relation_bearing_type_names (nr_model r)"
    using assms(1) rec core by (auto simp: mem_ns_ok_def)
  moreover have "a = b" if "owner_in (mem_ns_view m') t' a ty" "owner_in (mem_ns_view m') t' b ty" for t' a b ty
    using that own mem_ns_no_conflict [OF assms(1)] free assms(1) by (auto simp: mem_ns_ok_def split: if_splits)
  ultimately show "mem_ns_ok m'" by (auto simp: mem_ns_ok_def)
qed

lemma mem_ns_delete_view:
  assumes "mem_ns_ok m" and "m' = m\<lparr>mn_records := filter (\<lambda>(k, _). k \<noteq> (t, ns)) (mn_records m)\<rparr>"
  shows "mem_ns_view m' = (mem_ns_view m)((t, ns) := None)" and "mem_ns_ok m'"
proof -
  have "map_of (filter (\<lambda>(k', _). k' \<noteq> (t, ns)) rs) k = (if k = (t, ns) then None else map_of rs k)"
    for rs :: "((string \<times> string) \<times> namespace_record) list" and k
    by (induction rs) auto
  then show view: "mem_ns_view m' = (mem_ns_view m)((t, ns) := None)"
    using assms(2) by (auto simp: mem_ns_view_def fun_eq_iff)
  have "owner_in (mem_ns_view m') t' a ty \<Longrightarrow> owner_in (mem_ns_view m) t' a ty" for t' a ty
    unfolding view by (auto simp: owner_in_def split: if_splits)
  then show "mem_ns_ok m'"
    using assms by (auto simp: mem_ns_ok_def distinct_map_filter) blast
qed

interpretation mem_repo: namespace_mapping mem_ns_get_by_type mem_ns_upsert mem_ns_delete mem_ns_view mem_ns_ok
proof (unfold_locales, goal_cases)
  case (1 s t a ty b)
  then show ?case by (auto simp: mem_ns_ok_def)
next
  case (2 s t ty x s')
  then show ?case by (simp add: mem_ns_get_by_type_def gets_def)
next
  case (3 s t ty r s' ns)
  obtain r0 where r0: "((t, ns), r0) \<in> set (mn_records s)" "ty \<in> set (nr_types r0)" using 3 mem_ns_owner by blast
  then have "find (\<lambda>((t', _), r). t' = t \<and> ty \<in> set (nr_types r)) (mn_records s) \<noteq> None"
    by (auto simp: find_None_iff intro!: bexI [of _ "((t, ns), r0)"])
  then obtain k r1 where f: "find (\<lambda>((t', _), r). t' = t \<and> ty \<in> set (nr_types r)) (mn_records s) = Some (k, r1)" by auto
  then have r1: "(k, r1) \<in> set (mn_records s)" "fst k = t" "ty \<in> set (nr_types r1)" by (auto dest!: find_SomeD)
  then have "owner_in (mem_ns_view s) t (snd k) ty" using mem_ns_owner [OF 3(1)] by (metis prod.collapse)
  then have "k = (t, ns)" using 3(1,3) r1(2) by (metis mem_ns_ok_def prod.collapse)
  then have "map_of (mn_records s) (t, ns) = Some r1" using r1(1) mem_ns_entry [OF 3(1)] by simp
  then show ?case using 3(2) f by (auto simp: mem_ns_get_by_type_def gets_def mem_ns_view_def)
next
  case (4 s t ty r s')
  then have "find (\<lambda>((t', _), r). t' = t \<and> ty \<in> set (nr_types r)) (mn_records s) = None"
    using mem_ns_owner [OF 4(1)] by (auto simp: find_None_iff)
  then show ?case using 4(2) by (auto simp: mem_ns_get_by_type_def gets_def mem_ns_view_def)
next
  case (5 s t rec y s')
  then show ?case
    using mem_ns_upsert_Inr(2) [OF 5(1)] by (cases y) (auto simp: mem_ns_upsert_def Let_def split: option.splits)
next
  case (6 s t rec r' s')
  then show ?case by (rule mem_ns_upsert_Inr(1))
next
  case (7 s t rec m s')
  then have "mem_ns_conflict t (nr_namespace rec) (relation_bearing_type_names (nr_model rec)) s \<noteq> None" and "s' = s"
    by (auto simp: mem_ns_upsert_def Let_def split: option.splits)
  then show ?case
    using mem_ns_no_conflict [OF 7(1), of t "nr_namespace rec" "relation_bearing_type_names (nr_model rec)"] by metis
next
  case (8 s t ns z s')
  then show ?case using mem_ns_delete_view(2) [OF 8(1) refl] by (auto simp: mem_ns_delete_def modify_def)
next
  case (9 s t ns s')
  then show ?case using mem_ns_delete_view(1) [OF 9(1) refl] by (auto simp: mem_ns_delete_def modify_def)
qed

section \<open>Properties\<close>

text \<open>
  The two repositories are interchangeable: from the same mappings, a lookup by type that
  both answer finds the same model, store and model id; whatever registration or removal
  PostgreSQL accepts the in-memory repository accepts too, and both then hold the same
  mappings again.
\<close>

theorem repositories_agree:
  assumes "namespaces_ok (pg_db w)" and "mem_ns_ok m" and "pg_ns_view w = mem_ns_view m"
  shows "(pg_repo_get_by_type t ty w = (Inr x, w1) \<longrightarrow> map_option nr_core (projr (fst (mem_ns_get_by_type t ty m))) = map_option nr_core x)
    \<and> (pg_repo_upsert t rec w = (Inr r, w2) \<longrightarrow> (\<exists>r' m'. mem_ns_upsert t rec m = (Inr r', m') \<and> pg_ns_view w2 = mem_ns_view m'))
    \<and> (pg_repo_delete t ns w = (Inr (), w3) \<longrightarrow> (\<exists>m'. mem_ns_delete t ns m = (Inr (), m') \<and> pg_ns_view w3 = mem_ns_view m'))"
proof (intro conjI impI)
  assume get: "pg_repo_get_by_type t ty w = (Inr x, w1)"
  obtain y where mem: "mem_ns_get_by_type t ty m = (Inr y, m)" by (simp add: mem_ns_get_by_type_def gets_def)
  show "map_option nr_core (projr (fst (mem_ns_get_by_type t ty m))) = map_option nr_core x"
  proof (cases "\<exists>a. owner_in (pg_ns_view w) t a ty")
    case True
    then obtain a where "owner_in (pg_ns_view w) t a ty" ..
    then show ?thesis
      using pg_repo.get_owner [OF assms(1) get] mem_repo.get_owner [OF assms(2) mem] assms(3) mem by simp
  next
    case False
    then show ?thesis
      using pg_repo.get_fallback [OF assms(1) get] mem_repo.get_fallback [OF assms(2) mem] assms(3) mem by simp
  qed
next
  assume up: "pg_repo_upsert t rec w = (Inr r, w2)"
  let ?index = "relation_bearing_type_names (nr_model rec)"
  note law = pg_repo.upsert_law [OF assms(1) up]
  have own: "owner_in (pg_ns_view w2) t (nr_namespace rec) ty" if "ty \<in> set ?index" for ty
    using law that by (auto simp: owner_in_def merged_core_def nr_core_def split: option.splits)
  have "a = nr_namespace rec" if o: "owner_in (mem_ns_view m) t a ty" "ty \<in> set ?index" for a ty
  proof (rule ccontr)
    assume ne: "a \<noteq> nr_namespace rec"
    then have "owner_in (pg_ns_view w2) t a ty" using o(1) law assms(3) by (auto simp: owner_in_def)
    with ne show False using pg_repo.owner_unique [OF pg_repo.upsert_inv [OF assms(1) up] _ own [OF o(2)]] by blast
  qed
  then have "mem_ns_conflict t (nr_namespace rec) ?index m = None" using mem_ns_no_conflict [OF assms(2)] by blast
  then obtain r' m' where mem: "mem_ns_upsert t rec m = (Inr r', m')" by (simp add: mem_ns_upsert_def Let_def)
  with mem_repo.upsert_law [OF assms(2) mem] law assms(3)
  show "\<exists>r' m'. mem_ns_upsert t rec m = (Inr r', m') \<and> pg_ns_view w2 = mem_ns_view m'" by simp
next
  assume del: "pg_repo_delete t ns w = (Inr (), w3)"
  obtain m' where mem: "mem_ns_delete t ns m = (Inr (), m')" by (simp add: mem_ns_delete_def modify_def)
  with pg_repo.remove_law [OF assms(1) del] mem_repo.remove_law [OF assms(2) mem] assms(3)
  show "\<exists>m'. mem_ns_delete t ns m = (Inr (), m') \<and> pg_ns_view w3 = mem_ns_view m'" by simp
qed

definition docs_model :: json where
  "docs_model = JObj [(''type_definitions'', JArr [JObj [(''type'', JStr ''page''), (''relations'', JObj [(''viewer'', JObj [])])]])]"

definition docs_record :: namespace_record where
  "docs_record = \<lparr>nr_namespace = ''docs'', nr_model = docs_model, nr_types = [], nr_store_id = Some ''s'', nr_model_id = Some ''m'',
     nr_created_at = None, nr_updated_at = None\<rparr>"

definition tenant_world :: pg where
  "tenant_world = quiet_pg (empty_db\<lparr>tenants := map (\<lambda>t. \<lparr>tn_id = t, tn_slug = t, tn_display_name = t, tn_is_system = False,
       tn_settings = JObj [], tn_created_at = 0\<rparr>) [''T'', ''U'']\<rparr>) 0"

lemma tenant_world_ok: "namespaces_ok (pg_db tenant_world)" and tenant_world_view: "pg_ns_view tenant_world k = None"
  by (simp_all add: tenant_world_def namespaces_ok_def key_unique_def quiet_pg_def empty_db_def owns_type_def pg_ns_view_def
      find_namespace_def split: prod.splits)

theorem repositories_agree_witness:
  "\<exists>r w2 r' m'. pg_repo_upsert ''T'' docs_record tenant_world = (Inr r, w2)
     \<and> mem_ns_upsert ''T'' docs_record \<lparr>mn_records = [], mn_now = 0\<rparr> = (Inr r', m') \<and> pg_ns_view w2 = mem_ns_view m'"
proof -
  let ?m = "\<lparr>mn_records = [], mn_now = 0\<rparr>"
  have ok: "mem_ns_ok ?m" and view: "pg_ns_view tenant_world = mem_ns_view ?m"
    by (simp_all add: mem_ns_ok_def owner_in_def tenant_world_view mem_ns_view_def fun_eq_iff split: prod.splits)
  have "isl (fst (pg_repo_upsert ''T'' docs_record tenant_world)) = False" by code_simp
  then obtain r w2 where up: "pg_repo_upsert ''T'' docs_record tenant_world = (Inr r, w2)"
    by (cases "pg_repo_upsert ''T'' docs_record tenant_world"; cases "fst (pg_repo_upsert ''T'' docs_record tenant_world)") auto
  with repositories_agree [OF tenant_world_ok ok view, where t = "''T''" and rec = docs_record] show ?thesis by blast
qed

text \<open>
  A registered model answers for its types: once \<^verbatim>\<open>upsert\<close> has stored a namespace, every
  type with relations that its model declares resolves, for this tenant, to that model and
  to the ids given, or the ids known before where none are given; what any other tenant
  resolves does not change.
\<close>

theorem registered_type_resolves:
  assumes "namespaces_ok (pg_db w)" and "pg_repo_upsert t rec w = (Inr r, w1)"
  shows "(ty \<in> set (relation_bearing_type_names (nr_model rec)) \<longrightarrow> pg_repo_get_by_type t ty w1 = (Inr x, w2) \<longrightarrow>
          (\<exists>y. x = Some y \<and> nr_core y = merged_core rec (pg_ns_view w (t, nr_namespace rec))))
    \<and> (t' \<noteq> t \<longrightarrow> pg_repo_get_by_type t' ty w = (Inr a, w3) \<longrightarrow> pg_repo_get_by_type t' ty w1 = (Inr b, w4) \<longrightarrow>
          map_option nr_core a = map_option nr_core b)"
  using pg_repo.registered_resolves [OF assms] pg_repo.other_tenant_same [OF assms] by blast

theorem registered_type_resolves_witness:
  "\<exists>r w1 y w2. pg_repo_upsert ''T'' docs_record tenant_world = (Inr r, w1)
     \<and> pg_repo_get_by_type ''T'' ''page'' w1 = (Inr (Some y), w2) \<and> nr_core y = (docs_model, Some ''s'', Some ''m'')"
proof -
  obtain u w1 where up: "pg_repo_upsert ''T'' docs_record tenant_world = (u, w1)" by fastforce
  obtain x w2 where get: "pg_repo_get_by_type ''T'' ''page'' w1 = (x, w2)" by fastforce
  have "isl (fst (pg_repo_upsert ''T'' docs_record tenant_world)) = False"
    "isl (fst (pg_repo_get_by_type ''T'' ''page'' (snd (pg_repo_upsert ''T'' docs_record tenant_world)))) = False"
    by code_simp+
  then obtain r x' where u: "u = Inr r" and x: "x = Inr x'" using up get by (cases u; cases x) auto
  have ty: "''page'' \<in> set (relation_bearing_type_names (nr_model docs_record))" by code_simp
  from registered_type_resolves [OF tenant_world_ok up [unfolded u], of "''page''" x' w2] ty get x
  obtain y where "x' = Some y" "nr_core y = merged_core docs_record (pg_ns_view tenant_world (''T'', nr_namespace docs_record))" by blast
  then show ?thesis using up get u x by (simp add: tenant_world_view merged_core_def nr_core_def docs_record_def)
qed

end
