(* ===== verification/OpenFga.thy ===== *)
theory OpenFga
  imports PermissionBackend "HOL-Library.Multiset"
begin

text \<open>
  \<^verbatim>\<open>OpenFgaPermissionBackend\<close> of \<^verbatim>\<open>services/permission.rs\<close>: every operation resolves the object type to
  the tenant's namespace and works in the store of that namespace. Writing is grouped by
  store; \<^verbatim>\<open>ensure_tuples\<close> reads first and writes the difference; \<^verbatim>\<open>ensure_model\<close> creates or adopts the
  store. A set of tuples ends up exactly where it should, and no two namespaces share a store.
\<close>

section \<open>Keys and options\<close>

record relation_tuple_key =
  rk_namespace :: string
  rk_object :: string
  rk_relation :: string
  rk_subject_id :: string
  rk_condition :: "string option"
  rk_condition_context :: "json option"

record query_options =
  qo_context :: "json option"
  qo_contextual_tuples :: "relation_tuple_key list"
  qo_consistency :: "string option"

definition default_options :: query_options where
  "default_options = \<lparr>qo_context = None, qo_contextual_tuples = [], qo_consistency = None\<rparr>"

definition typed_user :: "string \<Rightarrow> string" where
  "typed_user subject_id = (if CHR '':'' \<in> set subject_id then subject_id else ''user:'' @ subject_id)"

definition client_tuple_key :: "relation_tuple_key \<Rightarrow> tuple_key" where
  "client_tuple_key k =
     \<lparr>tk_user = typed_user (rk_subject_id k), tk_relation = rk_relation k,
      tk_object = typed_object (rk_namespace k) (rk_object k), tk_condition_name = rk_condition k,
      tk_condition_context = rk_condition_context k\<rparr>"

definition client_request_options :: "query_options \<Rightarrow> request_options" where
  "client_request_options opts =
     \<lparr>ro_context = qo_context opts, ro_contextual_tuples = map client_tuple_key (qo_contextual_tuples opts),
      ro_consistency = qo_consistency opts\<rparr>"

definition plain_key :: "string \<Rightarrow> string \<Rightarrow> string \<Rightarrow> string \<Rightarrow> relation_tuple_key" where
  "plain_key namespace object relation subject_id =
     \<lparr>rk_namespace = namespace, rk_object = object, rk_relation = relation, rk_subject_id = subject_id,
      rk_condition = None, rk_condition_context = None\<rparr>"

section \<open>Resolution\<close>

type_synonym store_group = "string \<times> tuple_key list \<times> tuple_key list"

record 'f openfga_backend =
  ob_client :: "'f fga_client"
  ob_order :: "store_group list \<Rightarrow> store_group list"

definition fga :: "('s, fga_error, 'a) io \<Rightarrow> ('s, permission_error, 'a) io" where
  "fga m = map_err permission_error_of_fga m"

definition opt_text :: "string option \<Rightarrow> string" where
  "opt_text x = (case x of Some s \<Rightarrow> s | None \<Rightarrow> [])"

definition resolve_mapping ::
  "string \<Rightarrow> string \<Rightarrow> (('f, 'z) fga_world_scheme, permission_error, namespace_record) io" where
  "resolve_mapping tenant_id namespace =
     (let missing = PE_NamespaceNotConfigured (''tenant '' @ tenant_id @ '' namespace '' @ namespace @ '' has no OpenFGA store/model'')
      in bindE (pg_repo_get_by_type tenant_id namespace) (\<lambda>r.
         case r of
           None \<Rightarrow> raise missing
         | Some record \<Rightarrow>
             if opt_text (nr_store_id record) = [] \<or> opt_text (nr_model_id record) = [] then raise missing else ret record))"

definition persist_record ::
  "string \<Rightarrow> string \<Rightarrow> json \<Rightarrow> string \<Rightarrow> string \<Rightarrow> (('f, 'z) fga_world_scheme, permission_error, unit) io" where
  "persist_record tenant_id namespace model store_id model_id =
     bindE (pg_repo_upsert tenant_id
              \<lparr>nr_namespace = namespace, nr_model = model, nr_types = model_type_names model, nr_store_id = Some store_id,
               nr_model_id = Some model_id, nr_created_at = None, nr_updated_at = None\<rparr>) (\<lambda>_. ret ())"

section \<open>Queries\<close>

definition fga_check_permission ::
  "'f openfga_backend \<Rightarrow> string \<Rightarrow> string \<Rightarrow> string \<Rightarrow> string \<Rightarrow> string \<Rightarrow> query_options
    \<Rightarrow> (('f, 'z) fga_world_scheme, permission_error, bool) io" where
  "fga_check_permission b tenant_id namespace object relation subject_id opts =
     bindE (resolve_mapping tenant_id namespace) (\<lambda>mapping.
     fga (client_check (ob_client b) (opt_text (nr_store_id mapping)) (opt_text (nr_model_id mapping)) namespace object relation
            (typed_user subject_id) (client_request_options opts)))"

definition fga_expand ::
  "'f openfga_backend \<Rightarrow> string \<Rightarrow> string \<Rightarrow> string \<Rightarrow> string \<Rightarrow> query_options
    \<Rightarrow> (('f, 'z) fga_world_scheme, permission_error, json) io" where
  "fga_expand b tenant_id namespace object relation opts =
     bindE (resolve_mapping tenant_id namespace) (\<lambda>mapping.
     fga (client_expand (ob_client b) (opt_text (nr_store_id mapping)) (opt_text (nr_model_id mapping)) namespace object relation
            (client_request_options opts)))"

definition fga_expand_objects ::
  "'f openfga_backend \<Rightarrow> string \<Rightarrow> string \<Rightarrow> string \<Rightarrow> string option \<Rightarrow> query_options
    \<Rightarrow> (('f, 'z) fga_world_scheme, permission_error, json) io" where
  "fga_expand_objects b tenant_id namespace relation subject_id opts =
     (case subject_id of
        None \<Rightarrow> raise (PE_Configuration ''OpenFGA expand_objects requires a subject_id'')
      | Some user \<Rightarrow>
          bindE (resolve_mapping tenant_id namespace) (\<lambda>mapping.
          bindE (fga (client_list_objects (ob_client b) (opt_text (nr_store_id mapping)) (opt_text (nr_model_id mapping))
                        namespace relation (typed_user user) (client_request_options opts))) (\<lambda>objects.
          ret (JObj [(''relation_tuples'', JArr (map (\<lambda>obj. JObj [(''namespace'', JStr namespace), (''object'', JStr obj),
                 (''relation'', JStr relation), (''subject_id'', JStr user)]) objects))]))))"

definition fga_list_users ::
  "'f openfga_backend \<Rightarrow> string \<Rightarrow> string \<Rightarrow> string \<Rightarrow> string \<Rightarrow> string list \<Rightarrow> query_options
    \<Rightarrow> (('f, 'z) fga_world_scheme, permission_error, string list) io" where
  "fga_list_users b tenant_id namespace object relation user_type_filters opts =
     bindE (resolve_mapping tenant_id namespace) (\<lambda>mapping.
     fga (client_list_users (ob_client b) (opt_text (nr_store_id mapping)) (opt_text (nr_model_id mapping)) namespace object
            relation user_type_filters (client_request_options opts)))"

text \<open>A namespace without a store has no tuples.\<close>

definition fga_read_tuples ::
  "'f openfga_backend \<Rightarrow> string \<Rightarrow> string \<Rightarrow> string
    \<Rightarrow> (('f, 'z) fga_world_scheme, permission_error, relation_tuple_key list) io" where
  "fga_read_tuples b tenant_id namespace object =
     attempt (resolve_mapping tenant_id namespace) (\<lambda>r. case r of
         Inl e \<Rightarrow> (case e of PE_NamespaceNotConfigured _ \<Rightarrow> ret [] | _ \<Rightarrow> raise e)
       | Inr mapping \<Rightarrow>
           bindE (fga (client_read_tuples (ob_client b) (opt_text (nr_store_id mapping))
                    \<lparr>tk_user = [], tk_relation = [], tk_object = typed_object namespace object, tk_condition_name = None,
                     tk_condition_context = None\<rparr>)) (\<lambda>ks.
           ret (map (\<lambda>k. \<lparr>rk_namespace = namespace, rk_object = object, rk_relation = tk_relation k, rk_subject_id = tk_user k,
                          rk_condition = tk_condition_name k, rk_condition_context = tk_condition_context k\<rparr>) ks)))"

section \<open>Writes\<close>

fun resolve_all ::
  "string \<Rightarrow> relation_tuple_key list \<Rightarrow> (string \<times> namespace_record) list
    \<Rightarrow> (('f, 'z) fga_world_scheme, permission_error, (string \<times> namespace_record) list) io" where
  "resolve_all tenant_id [] records = ret records"
| "resolve_all tenant_id (k # ks) records =
     (if rk_namespace k \<in> fst ` set records then resolve_all tenant_id ks records
      else bindE (resolve_mapping tenant_id (rk_namespace k)) (\<lambda>record.
           resolve_all tenant_id ks (records @ [(rk_namespace k, record)])))"

definition store_key :: "(string \<times> namespace_record) list \<Rightarrow> relation_tuple_key \<Rightarrow> string" where
  "store_key records k = opt_text (Option.bind (map_of records (rk_namespace k)) nr_store_id)"

text \<open>The keys grouped by store, in their order within a group.\<close>

definition group_by_store ::
  "(string \<times> namespace_record) list \<Rightarrow> relation_tuple_key list \<Rightarrow> relation_tuple_key list \<Rightarrow> store_group list" where
  "group_by_store records writes deletes =
     map (\<lambda>s. (s, map client_tuple_key (filter (\<lambda>k. store_key records k = s) writes),
                  map client_tuple_key (filter (\<lambda>k. store_key records k = s) deletes)))
       (remdups (map (store_key records) (writes @ deletes)))"

definition group_model :: "(string \<times> namespace_record) list \<Rightarrow> string \<Rightarrow> string" where
  "group_model records s =
     opt_text (Option.bind (find (\<lambda>(_, r). nr_store_id r = Some s) records) (\<lambda>(_, r). nr_model_id r))"

fun write_groups ::
  "'f openfga_backend \<Rightarrow> (string \<times> namespace_record) list \<Rightarrow> store_group list
    \<Rightarrow> (('f, 'z) fga_world_scheme, permission_error, unit) io" where
  "write_groups b records [] = ret ()"
| "write_groups b records ((s, ws, ds) # groups) =
     bindE (fga (client_write_tuples (ob_client b) s (group_model records s) ws ds)) (\<lambda>_. write_groups b records groups)"

definition fga_write_tuples ::
  "'f openfga_backend \<Rightarrow> string \<Rightarrow> relation_tuple_key list \<Rightarrow> relation_tuple_key list
    \<Rightarrow> (('f, 'z) fga_world_scheme, permission_error, unit) io" where
  "fga_write_tuples b tenant_id writes deletes =
     bindE (resolve_all tenant_id (writes @ deletes) []) (\<lambda>records.
     write_groups b records (ob_order b (group_by_store records writes deletes)))"

definition fga_create_relation_tuple ::
  "'f openfga_backend \<Rightarrow> string \<Rightarrow> string \<Rightarrow> string \<Rightarrow> string \<Rightarrow> string
    \<Rightarrow> (('f, 'z) fga_world_scheme, permission_error, json) io" where
  "fga_create_relation_tuple b tenant_id namespace object relation subject_id =
     bindE (fga_write_tuples b tenant_id [plain_key namespace object relation subject_id] []) (\<lambda>_. ret JNull)"

definition fga_delete_relation_tuple ::
  "'f openfga_backend \<Rightarrow> string \<Rightarrow> string \<Rightarrow> string \<Rightarrow> string \<Rightarrow> string
    \<Rightarrow> (('f, 'z) fga_world_scheme, permission_error, unit) io" where
  "fga_delete_relation_tuple b tenant_id namespace object relation subject_id =
     fga_write_tuples b tenant_id [] [plain_key namespace object relation subject_id]"

text \<open>The keys whose tuple is present, or absent.\<close>

fun keys_where ::
  "'f openfga_backend \<Rightarrow> (string \<times> namespace_record) list \<Rightarrow> bool \<Rightarrow> relation_tuple_key list
    \<Rightarrow> (('f, 'z) fga_world_scheme, permission_error, relation_tuple_key list) io" where
  "keys_where b records present [] = ret []"
| "keys_where b records present (k # ks) =
     bindE (fga (client_read_tuples (ob_client b) (store_key records k) (client_tuple_key k))) (\<lambda>existing.
     bindE (keys_where b records present ks) (\<lambda>rest.
     ret (if (existing \<noteq> []) = present then k # rest else rest)))"

definition fga_ensure_tuples ::
  "'f openfga_backend \<Rightarrow> string \<Rightarrow> relation_tuple_key list \<Rightarrow> relation_tuple_key list
    \<Rightarrow> (('f, 'z) fga_world_scheme, permission_error, unit) io" where
  "fga_ensure_tuples b tenant_id writes deletes =
     bindE (resolve_all tenant_id (writes @ deletes) []) (\<lambda>records.
     bindE (keys_where b records False writes) (\<lambda>missing_writes.
     bindE (keys_where b records True deletes) (\<lambda>present_deletes.
     fga_write_tuples b tenant_id missing_writes present_deletes)))"

section \<open>Stores\<close>

definition store_name :: "string \<Rightarrow> string \<Rightarrow> string" where
  "store_name tenant_id namespace = tenant_id @ ''-'' @ namespace"

definition fga_provision ::
  "'f openfga_backend \<Rightarrow> string \<Rightarrow> string \<Rightarrow> json \<Rightarrow> (('f, 'z) fga_world_scheme, permission_error, unit) io" where
  "fga_provision b tenant_id namespace model =
     bindE (fga (find_store_by_name (ob_client b) (store_name tenant_id namespace))) (\<lambda>found.
     bindE (case found of
              Some existing_id \<Rightarrow> ret existing_id
            | None \<Rightarrow> fga (create_store (ob_client b) (store_name tenant_id namespace))) (\<lambda>store_id.
     bindE (fga (write_model (ob_client b) store_id model)) (\<lambda>model_id.
     persist_record tenant_id namespace model store_id model_id)))"

definition fga_ensure_model ::
  "'f openfga_backend \<Rightarrow> string \<Rightarrow> string \<Rightarrow> json \<Rightarrow> (('f, 'z) fga_world_scheme, permission_error, unit) io" where
  "fga_ensure_model b tenant_id namespace model =
     bindE (pg_repo_get tenant_id namespace) (\<lambda>existing.
     case existing of
       None \<Rightarrow> fga_provision b tenant_id namespace model
     | Some record \<Rightarrow>
         if opt_text (nr_store_id record) = [] then fga_provision b tenant_id namespace model
         else if json_eq (nr_model record) model then ret ()
         else bindE (fga (write_model (ob_client b) (opt_text (nr_store_id record)) model)) (\<lambda>model_id.
              persist_record tenant_id namespace model (opt_text (nr_store_id record)) model_id))"

definition fga_ensure_namespace ::
  "'f openfga_backend \<Rightarrow> string \<Rightarrow> string \<Rightarrow> string list \<Rightarrow> (('f, 'z) fga_world_scheme, permission_error, unit) io" where
  "fga_ensure_namespace b tenant_id namespace relations =
     fga_ensure_model b tenant_id namespace (flat_model namespace relations)"

definition fga_delete_namespace ::
  "'f openfga_backend \<Rightarrow> string \<Rightarrow> string \<Rightarrow> (('f, 'z) fga_world_scheme, permission_error, unit) io" where
  "fga_delete_namespace b tenant_id namespace =
     bindE (pg_repo_get tenant_id namespace) (\<lambda>r.
     case r of
       None \<Rightarrow> ret ()
     | Some record \<Rightarrow>
         if opt_text (nr_store_id record) = [] then ret ()
         else attempt (delete_store (ob_client b) (opt_text (nr_store_id record))) (\<lambda>res. case res of
             Inr _ \<Rightarrow> ret ()
           | Inl e \<Rightarrow> (case e of
               FG_OpenFga status _ \<Rightarrow> if status = 404 then ret () else raise (permission_error_of_fga e)
             | _ \<Rightarrow> raise (permission_error_of_fga e))))"

section \<open>Resolution finds the tenant's store\<close>

lemma keeps_fga_pg [keeps_rules]: "keeps (\<lambda>w. P (fw_fga w)) (pg_exec st)" "keeps (\<lambda>w. P (fw_fga w)) (pg_query q)"
  by (simp_all add: keeps_def pg_query_def pg_exec_def Let_def split: prod.splits option.splits fault.splits)

text \<open>The store of the namespace that serves an object type of the tenant.\<close>

definition store_of :: "database \<Rightarrow> string \<Rightarrow> string \<Rightarrow> string" where
  "store_of db t ty = opt_text (Option.bind (mapping_of db t ty) ns_store_id)"

lemma resolve_mapping_result:
  assumes "resolve_mapping t ns w = (x, v)"
  shows "pg_db v = pg_db w" and "fw_fga v = fw_fga w"
    and "x = Inr r \<Longrightarrow> nr_store_id r = Some (store_of (pg_db w) t ns) \<and> store_of (pg_db w) t ns \<noteq> []"
proof -
  have "fw_fga (snd (pg_repo_get_by_type t ns w)) = fw_fga w"
    by (rule keepsD_snd [of "\<lambda>u. fw_fga u = fw_fga w"])
       (auto simp: pg_repo_get_by_type_def pg_namespace_get_by_type_def pg_namespace_get_def intro!: keeps_rules
          keeps_fga_pg(2) [where P = "\<lambda>f. f = fw_fga w"] split: option.splits)
  moreover obtain y u where get: "pg_repo_get_by_type t ns w = (y, u)" by fastforce
  ultimately have u: "pg_db u = pg_db w" "fw_fga u = fw_fga w"
    using pg_get_by_type_frame [of t ns w] by simp_all
  have run: "x = (case y of Inl e \<Rightarrow> Inl e | Inr None \<Rightarrow> fst (resolve_mapping t ns w) | Inr (Some r) \<Rightarrow> fst (resolve_mapping t ns w))
      \<and> v = u"
    using assms get by (auto simp: resolve_mapping_def Let_def bindE_def raise_def ret_def split: sum.splits option.splits if_splits)
  then show "pg_db v = pg_db w" and "fw_fga v = fw_fga w" using u by simp_all
  assume "x = Inr r"
  then have y: "y = Inr (Some r)" and ne: "opt_text (nr_store_id r) \<noteq> []"
    using assms get by (auto simp: resolve_mapping_def Let_def bindE_def raise_def ret_def split: sum.splits option.splits if_splits)
  from pg_get_by_type_result [OF get [unfolded y]] obtain n
    where "mapping_of (pg_db w) t ns = Some n" "r = namespace_record_from_row (select_row (pg_db w) n)"
    by (cases "mapping_of (pg_db w) t ns") simp_all
  then show "nr_store_id r = Some (store_of (pg_db w) t ns) \<and> store_of (pg_db w) t ns \<noteq> []"
    using ne by (auto simp: store_of_def namespace_record_from_row_def select_row_def opt_text_def split: option.splits)
qed

definition records_ok :: "database \<Rightarrow> string \<Rightarrow> (string \<times> namespace_record) list \<Rightarrow> bool" where
  "records_ok db t rs \<longleftrightarrow> (\<forall>(ns, r) \<in> set rs. nr_store_id r = Some (store_of db t ns))"

lemma resolve_all_result:
  "\<lbrakk>resolve_all t ks rs w = (x, v); records_ok (pg_db w) t rs\<rbrakk> \<Longrightarrow> pg_db v = pg_db w \<and> fw_fga v = fw_fga w
     \<and> (\<forall>rs'. x = Inr rs' \<longrightarrow> records_ok (pg_db w) t rs' \<and> fst ` set rs \<union> rk_namespace ` set ks \<subseteq> fst ` set rs')"
proof (induction t ks rs arbitrary: w rule: resolve_all.induct)
  case (1 t rs)
  then show ?case by (auto simp: ret_def)
next
  case (2 t k ks rs)
  show ?case
  proof (cases "rk_namespace k \<in> fst ` set rs")
    case True
    with 2(3) have "resolve_all t ks rs w = (x, v)" by simp
    from 2(1) [OF True this 2(4)] True show ?thesis by auto
  next
    case False
    obtain y u where res: "resolve_mapping t (rk_namespace k) w = (y, u)" by fastforce
    note r = resolve_mapping_result [OF res]
    show ?thesis
    proof (cases y)
      case (Inl e)
      then show ?thesis using 2(3) False res r(1,2) by (auto simp: bindE_def)
    next
      case (Inr r0)
      then have run: "resolve_all t ks (rs @ [(rk_namespace k, r0)]) u = (x, v)" using 2(3) False res by (simp add: bindE_def)
      have "records_ok (pg_db u) t (rs @ [(rk_namespace k, r0)])"
        using 2(4) r(1) r(3) [OF Inr] by (auto simp: records_ok_def)
      from 2(2) [OF False run this] r(1,2) show ?thesis by auto
    qed
  qed
qed

lemma store_key_of:
  assumes "records_ok db t rs" and "rk_namespace k \<in> fst ` set rs"
  shows "store_key rs k = store_of db t (rk_namespace k)"
proof -
  obtain r where r: "map_of rs (rk_namespace k) = Some r"
    using assms(2) by (metis domIff dom_map_of_conv_image_fst option.exhaust)
  then have "nr_store_id r = Some (store_of db t (rk_namespace k))"
    using assms(1) map_of_SomeD [OF r] by (auto simp: records_ok_def)
  with r show ?thesis by (simp add: store_key_def opt_text_def)
qed

section \<open>Tuples end up where they should\<close>

text \<open>The tuples that a list of keys stands for in one store.\<close>

definition keys_in :: "database \<Rightarrow> string \<Rightarrow> string \<Rightarrow> relation_tuple_key list \<Rightarrow> fga_tuple set" where
  "keys_in db t s ks = (\<lambda>k. triple (client_tuple_key k)) ` {k \<in> set ks. store_of db t (rk_namespace k) = s}"

definition order_ok :: "'f openfga_backend \<Rightarrow> bool" where
  "order_ok b \<longleftrightarrow> (\<forall>gs. mset (ob_order b gs) = mset gs)"

lemma client_write_result:
  assumes "writes_tuples c listing" and "client_write_tuples c s m ws ds w = (x, v)"
  shows "fga_frame w v" and "s' \<noteq> s \<Longrightarrow> listing (fw_fga v) s' = listing (fw_fga w) s'"
    and "x = Inr () \<Longrightarrow> set (listing (fw_fga v) s) = tuples_after ws ds (set (listing (fw_fga w) s))"
proof -
  consider (none) "ws = [] \<and> ds = []" "x = Inr ()" "v = w" | (url) e where "fc_join c (''stores/'' @ s @ ''/write'') = Inl e" "x \<noteq> Inr ()" "v = w"
    | (sent) url y where "fc_join c (''stores/'' @ s @ ''/write'') = Inr url"
        "fga_call c HttpPost url [] (Some (write_payload m ws ds)) w = (y, v)" "x = (case y of Inl e \<Rightarrow> Inl e | Inr r \<Rightarrow> status_only r)"
    using assms(2)
    by (auto simp: client_write_tuples_def fga_join_def bindE_def lift_result_def ret_def split: if_splits sum.splits prod.splits)
  then show "fga_frame w v" and "s' \<noteq> s \<Longrightarrow> listing (fw_fga v) s' = listing (fw_fga w) s'"
    and "x = Inr () \<Longrightarrow> set (listing (fw_fga v) s) = tuples_after ws ds (set (listing (fw_fga w) s))"
  proof (atomize (full), cases)
    case none
    then show "fga_frame w v \<and> (s' \<noteq> s \<longrightarrow> listing (fw_fga v) s' = listing (fw_fga w) s') \<and>
      (x = Inr () \<longrightarrow> set (listing (fw_fga v) s) = tuples_after ws ds (set (listing (fw_fga w) s)))"
      by (simp add: tuples_after_def)
  next
    case url
    then show "fga_frame w v \<and> (s' \<noteq> s \<longrightarrow> listing (fw_fga v) s' = listing (fw_fga w) s') \<and>
      (x = Inr () \<longrightarrow> set (listing (fw_fga v) s) = tuples_after ws ds (set (listing (fw_fga w) s)))" by simp
  next
    case sent
    from sent(2) show "fga_frame w v \<and> (s' \<noteq> s \<longrightarrow> listing (fw_fga v) s' = listing (fw_fga w) s') \<and>
      (x = Inr () \<longrightarrow> set (listing (fw_fga v) s) = tuples_after ws ds (set (listing (fw_fga w) s)))"
    proof (cases rule: fga_call_cases)
      case (no_reply e)
      then show ?thesis using assms(1) sent unfolding writes_tuples_def by fastforce
    next
      case (reply status tx b)
      with assms(1) sent(1) have law: "(\<forall>s'. s' \<noteq> s \<longrightarrow> listing (fw_fga v) s' = listing (fw_fga w) s') \<and>
          (is_success status \<longrightarrow> set (listing (fw_fga v) s) = tuples_after ws ds (set (listing (fw_fga w) s)))"
        unfolding writes_tuples_def by fastforce
      with reply sent(3) show ?thesis by (auto simp: status_only_def split: if_splits)
    qed
  qed
qed

lemma write_groups_result:
  "\<lbrakk>writes_tuples (ob_client b) listing; write_groups b rs gs w = (x, v); distinct (map fst gs)\<rbrakk> \<Longrightarrow> fga_frame w v
     \<and> (\<forall>s. s \<notin> fst ` set gs \<longrightarrow> listing (fw_fga v) s = listing (fw_fga w) s)
     \<and> (x = Inr () \<longrightarrow> (\<forall>(s, ws, ds) \<in> set gs. set (listing (fw_fga v) s) = tuples_after ws ds (set (listing (fw_fga w) s))))"
proof (induction b rs gs arbitrary: w rule: write_groups.induct)
  case (1 b rs)
  then show ?case by (simp add: ret_def)
next
  case (2 b rs s ws ds gs)
  obtain y u where wr: "client_write_tuples (ob_client b) s (group_model rs s) ws ds w = (y, u)" by fastforce
  note one = client_write_result [OF 2(2) wr]
  show ?case
  proof (cases y)
    case (Inl e)
    then have "x = Inl (permission_error_of_fga e)" and "v = u"
      using 2(3) wr by (auto simp: fga_def bindE_def map_err_def)
    then show ?thesis using one(1,2) by auto
  next
    case (Inr z)
    then have rest: "write_groups b rs gs u = (x, v)" using 2(3) wr by (simp add: fga_def bindE_def map_err_def)
    have s: "s \<notin> fst ` set gs" and d: "distinct (map fst gs)" using 2(4) by auto
    note ih = 2(1) [OF 2(2) rest d]
    have frame: "fga_frame w v" using fga_frame_trans [OF one(1)] ih by blast
    have others: "listing (fw_fga v) s' = listing (fw_fga w) s'" if "s' \<noteq> s" "s' \<notin> fst ` set gs" for s'
      using that ih one(2) [of s'] by simp
    have written: "set (listing (fw_fga v) s') = tuples_after ws' ds' (set (listing (fw_fga w) s'))"
      if "x = Inr ()" "(s', ws', ds') \<in> set ((s, ws, ds) # gs)" for s' ws' ds'
    proof (cases "(s', ws', ds') = (s, ws, ds)")
      case True
      then show ?thesis using ih s one(3) Inr by simp
    next
      case False
      then have mem: "(s', ws', ds') \<in> set gs" using that(2) by auto
      then have "s' \<noteq> s" using s by force
      then show ?thesis using ih mem that(1) one(2) by fastforce
    qed
    show ?thesis
    proof (intro conjI allI impI ballI)
      show "fga_frame w v" by (rule frame)
      show "listing (fw_fga v) s' = listing (fw_fga w) s'" if "s' \<notin> fst ` set ((s, ws, ds) # gs)" for s'
        using others that by simp
      show "case g of (s, ws, ds) \<Rightarrow> set (listing (fw_fga v) s) = tuples_after ws ds (set (listing (fw_fga w) s))"
        if "x = Inr ()" "g \<in> set ((s, ws, ds) # gs)" for g
        using written [OF that(1)] that(2) by (cases g) blast
    qed
  qed
qed

lemma grouped_stores:
  assumes "records_ok db t rs" and "rk_namespace ` set (ws @ ds) \<subseteq> fst ` set rs"
  shows "distinct (map fst (group_by_store rs ws ds))"
    and "s \<in> fst ` set (group_by_store rs ws ds) \<longleftrightarrow> (\<exists>k \<in> set (ws @ ds). store_of db t (rk_namespace k) = s)"
    and "(s, cws, cds) \<in> set (group_by_store rs ws ds) \<Longrightarrow> triple ` set cws = keys_in db t s ws \<and> triple ` set cds = keys_in db t s ds"
proof -
  have key: "store_key rs k = store_of db t (rk_namespace k)" if "k \<in> set (ws @ ds)" for k
    using store_key_of [OF assms(1)] assms(2) that by blast
  show "distinct (map fst (group_by_store rs ws ds))" by (simp add: group_by_store_def comp_def)
  show "s \<in> fst ` set (group_by_store rs ws ds) \<longleftrightarrow> (\<exists>k \<in> set (ws @ ds). store_of db t (rk_namespace k) = s)"
    using key by (auto simp: group_by_store_def image_image image_iff)
  have "triple ` client_tuple_key ` {k \<in> set ks. store_key rs k = s} = keys_in db t s ks" if "set ks \<subseteq> set (ws @ ds)" for ks
    unfolding keys_in_def image_image using key that by (intro image_cong) auto
  then show "triple ` set cws = keys_in db t s ws \<and> triple ` set cds = keys_in db t s ds"
    if g: "(s, cws, cds) \<in> set (group_by_store rs ws ds)"
  proof -
    have "set cws = client_tuple_key ` {k \<in> set ws. store_key rs k = s}" "set cds = client_tuple_key ` {k \<in> set ds. store_key rs k = s}"
      using g by (auto simp: group_by_store_def)
    then show ?thesis using \<open>\<And>ks. set ks \<subseteq> set (ws @ ds) \<Longrightarrow> _\<close> by simp
  qed
qed

lemma keys_in_none:
  assumes "\<not> (\<exists>k \<in> set ks. store_of db t (rk_namespace k) = s)"
  shows "keys_in db t s ks = {}"
  using assms by (auto simp: keys_in_def)

lemma write_tuples_result:
  assumes "writes_tuples (ob_client b) listing" and "order_ok b" and "fga_write_tuples b t ws ds w = (x, v)"
  shows "pg_db v = pg_db w"
    and "\<not> (\<exists>k \<in> set (ws @ ds). store_of (pg_db w) t (rk_namespace k) = s) \<Longrightarrow> listing (fw_fga v) s = listing (fw_fga w) s"
    and "x = Inr () \<Longrightarrow> set (listing (fw_fga v) s) = (set (listing (fw_fga w) s) - keys_in (pg_db w) t s ds) \<union> keys_in (pg_db w) t s ws"
proof -
  obtain y u where res: "resolve_all t (ws @ ds) [] w = (y, u)" by fastforce
  have rs: "pg_db u = pg_db w" "fw_fga u = fw_fga w"
    "\<And>rs. y = Inr rs \<Longrightarrow> records_ok (pg_db w) t rs \<and> rk_namespace ` set (ws @ ds) \<subseteq> fst ` set rs"
    using resolve_all_result [OF res] by (auto simp: records_ok_def)
  have "pg_db v = pg_db w \<and> (\<not> (\<exists>k \<in> set (ws @ ds). store_of (pg_db w) t (rk_namespace k) = s) \<longrightarrow> listing (fw_fga v) s = listing (fw_fga w) s)
    \<and> (x = Inr () \<longrightarrow> set (listing (fw_fga v) s) = (set (listing (fw_fga w) s) - keys_in (pg_db w) t s ds) \<union> keys_in (pg_db w) t s ws)"
  proof (cases y)
    case (Inl e)
    then have "x = Inl e" and "v = u" using assms(3) res by (auto simp: fga_write_tuples_def bindE_def)
    then show ?thesis using rs by simp
  next
    case (Inr records)
    let ?gs = "group_by_store records ws ds"
    have run: "write_groups b records (ob_order b ?gs) u = (x, v)" using assms(3) res Inr by (simp add: fga_write_tuples_def bindE_def)
    have perm: "mset (ob_order b ?gs) = mset ?gs" using assms(2) by (simp add: order_ok_def)
    then have sets: "set (ob_order b ?gs) = set ?gs" by (metis set_mset_mset)
    note grp = grouped_stores [OF conjunct1 [OF rs(3) [OF Inr]] conjunct2 [OF rs(3) [OF Inr]]]
    have "mset (map fst (ob_order b ?gs)) = mset (map fst ?gs)" using perm by simp
    then have "distinct (map fst (ob_order b ?gs))" using grp(1) mset_eq_imp_distinct_iff by blast
    note wr = write_groups_result [OF assms(1) run this]
    have "pg_db v = pg_db w" using wr fga_frame_pg(1) rs(1) by metis
    moreover have "listing (fw_fga v) s = listing (fw_fga w) s" if "\<not> (\<exists>k \<in> set (ws @ ds). store_of (pg_db w) t (rk_namespace k) = s)"
      using that wr grp(2) sets rs(2) by simp
    moreover have "set (listing (fw_fga v) s) = (set (listing (fw_fga w) s) - keys_in (pg_db w) t s ds) \<union> keys_in (pg_db w) t s ws" if "x = Inr ()"
    proof (cases "s \<in> fst ` set ?gs")
      case True
      then obtain cws cds where g: "(s, cws, cds) \<in> set ?gs" by auto
      then have "set (listing (fw_fga v) s) = tuples_after cws cds (set (listing (fw_fga u) s))" using wr that sets by fastforce
      with grp(3) [OF g] rs(2) show ?thesis by (simp add: tuples_after_def)
    next
      case False
      then have "\<not> (\<exists>k \<in> set (ws @ ds). store_of (pg_db w) t (rk_namespace k) = s)" using grp(2) by simp
      then show ?thesis using calculation(2) keys_in_none [of ws] keys_in_none [of ds] by auto
    qed
    ultimately show ?thesis by blast
  qed
  then show "pg_db v = pg_db w"
    and "\<not> (\<exists>k \<in> set (ws @ ds). store_of (pg_db w) t (rk_namespace k) = s) \<Longrightarrow> listing (fw_fga v) s = listing (fw_fga w) s"
    and "x = Inr () \<Longrightarrow> set (listing (fw_fga v) s) = (set (listing (fw_fga w) s) - keys_in (pg_db w) t s ds) \<union> keys_in (pg_db w) t s ws"
    by blast+
qed

text \<open>A server that stores tuples as documented, and enough fuel to read a single one.\<close>

definition fga_store_ok :: "'f fga_client \<Rightarrow> ('f \<Rightarrow> string \<Rightarrow> fga_tuple list) \<Rightarrow> (nat \<Rightarrow> string) \<Rightarrow> bool" where
  "fga_store_ok c listing tok \<longleftrightarrow> lists_tuples c listing tok \<and> writes_tuples c listing
     \<and> (\<forall>f s. distinct (listing f s)) \<and> 0 < fc_fuel c"

lemma matches_exact:
  assumes "rk_relation k \<noteq> []"
  shows "matches_key (client_tuple_key k) t \<longleftrightarrow> t = triple (client_tuple_key k)"
  using assms by (cases t) (auto simp: matches_key_def client_tuple_key_def triple_def typed_user_def typed_object_def)

lemma read_exact:
  assumes "fga_store_ok c listing tok" and "rk_relation k \<noteq> []" and "client_read_tuples c s (client_tuple_key k) w = (x, v)"
  shows "fga_frame w v \<and> listing (fw_fga v) = listing (fw_fga w)
    \<and> (\<forall>ts. x = Inr ts \<longrightarrow> (ts \<noteq> [] \<longleftrightarrow> triple (client_tuple_key k) \<in> set (listing (fw_fga w) s)))"
proof -
  let ?ms = "filter (matches_key (client_tuple_key k)) (listing (fw_fga w) s)"
  have ms: "?ms = filter ((=) (triple (client_tuple_key k))) (listing (fw_fga w) s)"
    using matches_exact [OF assms(2)] by (intro filter_cong) auto
  have dist: "distinct ?ms" and "set ?ms \<subseteq> {triple (client_tuple_key k)}" using assms(1) ms by (auto simp: fga_store_ok_def)
  then have "length ?ms \<le> 1"
    using card_mono [of "{triple (client_tuple_key k)}" "set ?ms"] unfolding distinct_card [OF dist] by simp
  then have "length ?ms \<le> 100 * fc_fuel c" using assms(1) by (simp add: fga_store_ok_def)
  moreover have "lists_tuples c listing tok" "0 < fc_fuel c" using assms(1) by (simp_all add: fga_store_ok_def)
  ultimately have r: "fga_frame w v \<and> listing (fw_fga v) = listing (fw_fga w) \<and> (\<forall>ts. x = Inr ts \<longrightarrow> map triple ts = ?ms)"
    using read_all [OF _ _ _ assms(3), of listing tok] by blast
  have "?ms \<noteq> [] \<longleftrightarrow> triple (client_tuple_key k) \<in> set (listing (fw_fga w) s)"
    unfolding ms by (auto simp: filter_empty_conv)
  with r show ?thesis by (metis map_is_Nil_conv)
qed

lemma keys_where_result:
  "\<lbrakk>fga_store_ok (ob_client b) listing tok; \<forall>k \<in> set ks. rk_relation k \<noteq> []; keys_where b rs present ks w = (x, v)\<rbrakk>
    \<Longrightarrow> fga_frame w v \<and> listing (fw_fga v) = listing (fw_fga w) \<and> (\<forall>ls. x = Inr ls \<longrightarrow>
      set ls = {k \<in> set ks. (triple (client_tuple_key k) \<in> set (listing (fw_fga w) (store_key rs k))) = present})"
proof (induction b rs present ks arbitrary: w x v rule: keys_where.induct)
  case (1 b rs present)
  then show ?case by (auto simp: ret_def)
next
  case (2 b rs present k ks)
  obtain y u where read: "client_read_tuples (ob_client b) (store_key rs k) (client_tuple_key k) w = (y, u)" by fastforce
  have rel: "rk_relation k \<noteq> []" "\<forall>k \<in> set ks. rk_relation k \<noteq> []" using 2(3) by auto
  note r = read_exact [OF 2(2) rel(1) read]
  show ?case
  proof (cases y)
    case (Inl e)
    then have "x = Inl (permission_error_of_fga e) \<and> v = u" using 2(4) read by (auto simp: fga_def bindE_def map_err_def)
    then show ?thesis using r by simp
  next
    case (Inr existing)
    obtain z v' where rest: "keys_where b rs present ks u = (z, v')" by fastforce
    note ih = 2(1) [OF 2(2) rel(2) rest]
    have v: "v = v'" and x: "x = (case z of Inl e \<Rightarrow> Inl e | Inr ls \<Rightarrow> Inr (if (existing \<noteq> []) = present then k # ls else ls))"
      using 2(4) read Inr rest by (auto simp: fga_def bindE_def map_err_def ret_def split: sum.splits)
    have "fga_frame w v" using fga_frame_trans r ih v by blast
    moreover have "listing (fw_fga v) = listing (fw_fga w)" using r ih v by simp
    moreover have "set ls = {j \<in> set (k # ks). (triple (client_tuple_key j) \<in> set (listing (fw_fga w) (store_key rs j))) = present}"
      if found: "x = Inr ls" for ls
    proof -
      obtain ls0 where z: "z = Inr ls0" and ls: "ls = (if (existing \<noteq> []) = present then k # ls0 else ls0)"
        using found x by (auto split: sum.splits)
      have ex: "existing \<noteq> [] \<longleftrightarrow> triple (client_tuple_key k) \<in> set (listing (fw_fga w) (store_key rs k))" using r Inr by simp
      have "set ls0 = {j \<in> set ks. (triple (client_tuple_key j) \<in> set (listing (fw_fga w) (store_key rs j))) = present}"
        using ih z r by simp
      with ls ex show ?thesis by (cases present) auto
    qed
    ultimately show ?thesis by blast
  qed
qed

lemma keys_in_present:
  assumes "set ls = {k \<in> set ks. (triple (client_tuple_key k) \<in> set (listing f (store_of db t (rk_namespace k)))) = present}"
  shows "keys_in db t s ls = (if present then keys_in db t s ks \<inter> set (listing f s) else keys_in db t s ks - set (listing f s))"
  unfolding keys_in_def assms by (cases present) (auto simp: image_iff)

section \<open>No two namespaces share a store\<close>

text \<open>
  What OpenFGA documents about stores: an id, once given, is never given to another store and
  a store keeps its name; creating a store answers with its id, and listing with ids and
  names. \<open>name_of f s\<close> is the name the store \<open>s\<close> was created with.
\<close>

definition names_stores :: "'f fga_client \<Rightarrow> ('f \<Rightarrow> string \<Rightarrow> string option) \<Rightarrow> bool" where
  "names_stores c name_of \<longleftrightarrow>
     (\<forall>meth url query body f r f' s n. fc_send c meth url query body f = (r, f') \<longrightarrow> name_of f s = Some n \<longrightarrow> name_of f' s = Some n)
   \<and> (\<forall>url name f status text v f' i. fc_join c ''stores'' = Inr url \<longrightarrow>
        fc_send c HttpPost url [] (Some (JObj [(''name'', JStr name)])) f = (Reply status text (Inr v), f') \<longrightarrow>
        is_success status \<longrightarrow> json_get v ''id'' = Some (JStr i) \<longrightarrow> name_of f' i = Some name)
   \<and> (\<forall>url query f status text v f' store name i. fc_join c ''stores'' = Inr url \<longrightarrow>
        fc_send c HttpGet url query None f = (Reply status text (Inr v), f') \<longrightarrow> is_success status \<longrightarrow>
        store \<in> set (page_entries v ''stores'') \<longrightarrow> json_get store ''name'' = Some (JStr name) \<longrightarrow>
        json_get store ''id'' = Some (JStr i) \<longrightarrow> name_of f' i = Some name)"

definition stores_named :: "('f \<Rightarrow> string \<Rightarrow> string option) \<Rightarrow> ('f, 'z) fga_world_scheme \<Rightarrow> bool" where
  "stores_named name_of w \<longleftrightarrow> namespaces_ok (pg_db w)
     \<and> (\<forall>n \<in> set (permission_namespaces (pg_db w)). opt_text (ns_store_id n) \<noteq> [] \<longrightarrow>
          name_of (fw_fga w) (opt_text (ns_store_id n)) = Some (store_name (ns_tenant_id n) (ns_namespace n)))"

text \<open>The invariant together with the name of one store.\<close>

definition stores_named_with ::
  "('f \<Rightarrow> string \<Rightarrow> string option) \<Rightarrow> string \<Rightarrow> string \<Rightarrow> ('f, 'z) fga_world_scheme \<Rightarrow> bool" where
  "stores_named_with name_of s n w \<longleftrightarrow> stores_named name_of w \<and> name_of (fw_fga w) s = Some n"

lemma names_mono:
  assumes "names_stores c name_of" and "fc_send c meth url query body f = (r, f')" and "name_of f s = Some n"
  shows "name_of f' s = Some n"
  by (rule conjunct1 [OF assms(1) [unfolded names_stores_def], rule_format, OF assms(2,3)])

lemma names_created:
  assumes "names_stores c name_of" and "fc_join c ''stores'' = Inr url"
    and "fc_send c HttpPost url [] (Some (JObj [(''name'', JStr name)])) f = (Reply status tx (Inr v), f')"
    and "is_success status" and "json_get v ''id'' = Some (JStr i)"
  shows "name_of f' i = Some name"
  by (rule conjunct1 [OF conjunct2 [OF assms(1) [unfolded names_stores_def]], rule_format, OF assms(2-5)])

lemma names_listed:
  assumes "names_stores c name_of" and "fc_join c ''stores'' = Inr url"
    and "fc_send c HttpGet url query None f = (Reply status tx (Inr v), f')" and "is_success status"
    and "store \<in> set (page_entries v ''stores'')" and "json_get store ''name'' = Some (JStr name)"
    and "json_get store ''id'' = Some (JStr i)"
  shows "name_of f' i = Some name"
  by (rule conjunct2 [OF conjunct2 [OF assms(1) [unfolded names_stores_def]], rule_format, OF assms(2-7)])

lemma keeps_fga_call_named:
  assumes "names_stores c name_of"
  shows "keeps (stores_named name_of) (fga_call c meth url query body)"
    and "keeps (\<lambda>w. name_of (fw_fga w) s = Some n) (fga_call c meth url query body)"
proof -
  have mono: "name_of f s = Some n \<Longrightarrow> name_of f' s = Some n" if "fc_send c meth url query body f = (r, f')" for f r f' s n
    by (rule names_mono [OF assms that])
  show "keeps (stores_named name_of) (fga_call c meth url query body)"
  proof (rule keepsI)
    fix w r v
    assume I: "stores_named name_of w" and run: "fga_call c meth url query body w = (r, v)"
    from run show "stores_named name_of v"
      by (cases rule: fga_call_cases) (use I mono fga_frame_pg(1) [of w v] in \<open>auto simp: stores_named_def\<close>)
  qed
  show "keeps (\<lambda>w. name_of (fw_fga w) s = Some n) (fga_call c meth url query body)"
    by (rule keepsI, erule fga_call_cases) (use mono in blast)+
qed

lemma keeps_fga [keeps_rules]: "keeps I m \<Longrightarrow> keeps I (fga m)"
  by (simp add: fga_def keeps_map_err)

lemma keeps_find_store_loop:
  "(\<And>q. keeps I (fga_call c HttpGet url q None)) \<Longrightarrow> keeps I (find_store_loop fuel c url name tok)"
  by (induction fuel arbitrary: tok) (auto intro!: keeps_rules split: option.splits)

lemma keeps_store_calls:
  assumes "\<And>meth url query body. keeps I (fga_call c meth url query body)"
  shows "keeps I (create_store c name)" and "keeps I (find_store_by_name c name)" and "keeps I (write_model c s model)"
    and "keeps I (delete_store c s)"
  unfolding create_store_def find_store_by_name_def write_model_def delete_store_def
  by (intro keeps_rules assms keeps_find_store_loop)+

lemma named_store_entry:
  "named_store name stores = Some i \<Longrightarrow> \<exists>store \<in> set stores. json_get store ''name'' = Some (JStr name) \<and> json_get store ''id'' = Some (JStr i)"
proof (induction stores)
  case (Cons store stores)
  have str: "Option.bind x as_str = Some y \<Longrightarrow> x = Some (JStr y)" for x y
    by (cases x) (auto elim: as_str.elims)
  show ?case using Cons by (auto split: if_splits dest: str)
qed simp

lemma find_store_loop_named:
  assumes ok: "names_stores c name_of" and url: "fc_join c ''stores'' = Inr url"
  shows "find_store_loop fuel c url name tok w = (Inr (Some i), v) \<Longrightarrow> name_of (fw_fga v) i = Some name"
proof (induction fuel arbitrary: tok w)
  case (Suc fuel)
  obtain y u where call: "fga_call c HttpGet url (stores_query tok) None w = (y, u)" by fastforce
  from call show ?case
  proof (cases rule: fga_call_cases)
    case (no_reply e)
    then show ?thesis using Suc.prems call by (simp add: bindE_def)
  next
    case (reply status tx b)
    then obtain body where h: "handle_response (status, tx, b) = Inr body"
      using Suc.prems call by (cases "handle_response (status, tx, b)") (auto simp: bindE_def lift_result_def)
    then have st: "is_success status" "b = Inr body" by (simp_all add: handle_response_Inr)
    show ?thesis
    proof (cases "named_store name (page_entries body ''stores'')")
      case None
      then show ?thesis
        using Suc call reply h by (auto simp: bindE_def lift_result_def ret_def split: option.splits)
    next
      case (Some j)
      then have "i = j" and v: "v = u" using Suc.prems call reply h by (auto simp: bindE_def lift_result_def ret_def)
      from named_store_entry [OF Some] obtain store where "store \<in> set (page_entries body ''stores'')"
        "json_get store ''name'' = Some (JStr name)" "json_get store ''id'' = Some (JStr j)" by blast
      then show ?thesis using names_listed [OF ok url] reply(2) st unfolding \<open>i = j\<close> v by blast
    qed
  qed
qed (simp add: raise_def)

lemma found_store_named:
  assumes "names_stores c name_of" and "find_store_by_name c name w = (Inr (Some i), v)"
  shows "name_of (fw_fga v) i = Some name"
  using assms find_store_loop_named
  by (fastforce simp: find_store_by_name_def fga_join_def run_simps split: sum.splits)

lemma created_store_named:
  assumes "names_stores c name_of" and "create_store c name w = (Inr i, v)"
  shows "name_of (fw_fga v) i = Some name"
proof -
  obtain url y where url: "fc_join c ''stores'' = Inr url" and call: "fga_call c HttpPost url [] (Some (JObj [(''name'', JStr name)])) w = (Inr y, v)"
    and body: "\<exists>body. handle_response y = Inr body \<and> Option.bind (json_get body ''id'') as_str = Some i"
    using assms(2) by (auto simp: create_store_def fga_join_def run_simps split: sum.splits)
  have str: "Option.bind x as_str = Some y \<Longrightarrow> x = Some (JStr y)" for x y by (cases x) (auto elim: as_str.elims)
  from call show ?thesis
  proof (cases rule: fga_call_cases)
    case (reply status tx b)
    with body obtain v' where "is_success status" "b = Inr v'" "json_get v' ''id'' = Some (JStr i)"
      by (auto simp: handle_response_Inr dest!: str)
    then show ?thesis using names_created [OF assms(1) url] reply(2) by blast
  qed simp
qed

lemma upsert_named:
  assumes "stores_named name_of w" and "si = None \<or> name_of (fw_fga w) (opt_text si) = Some (store_name t ns)"
  shows "stores_named name_of (w\<lparr>pg_queries := q, pg_db := snd (namespace_upsert_stmt t ns model si mi now (pg_db w))\<rparr>)"
proof -
  let ?db = "snd (namespace_upsert_stmt t ns model si mi now (pg_db w))"
  have ok: "namespaces_ok ?db" using stmt_keeps_upsert assms(1) by (auto simp: stmt_keeps_def stores_named_def)
  have "name_of (fw_fga w) (opt_text (ns_store_id n)) = Some (store_name (ns_tenant_id n) (ns_namespace n))"
    if n: "n \<in> set (permission_namespaces ?db)" "opt_text (ns_store_id n) \<noteq> []" for n
  proof (cases rule: upsert_cases [of t ns model "pg_db w" si mi now])
    case (stored row rows)
    have un: "key_unique ns_key (permission_namespaces (pg_db w))" using assms(1) by (simp add: stores_named_def namespaces_ok_def)
    have "n \<in> set rows" using n(1) stored(4) by (simp add: Let_def)
    then consider "n = row" | "n \<in> set (permission_namespaces (pg_db w))" using put_rows(2) [OF un stored(2,3)] by blast
    then show ?thesis
    proof cases
      case 1
      have key: "ns_tenant_id row = t" "ns_namespace row = ns"
        using put_namespace_key(1) [OF refl] stored(2) by (simp_all add: ns_key_def)
      show ?thesis
      proof (cases si)
        case (Some i)
        then have "ns_store_id row = Some i" using stored(2) by (simp add: put_namespace_def coalesce_def split: option.splits)
        then show ?thesis using 1 key assms(2) Some by simp
      next
        case None
        then obtain old where old: "find_namespace (pg_db w) t ns = Some old" "ns_store_id row = ns_store_id old"
          using stored(2) n(2) 1 by (auto simp: put_namespace_def coalesce_def opt_text_def split: option.splits)
        then have "old \<in> set (permission_namespaces (pg_db w))" "ns_key old = (t, ns)" by (auto simp: find_namespace_def dest!: find_SomeD)
        then show ?thesis using assms(1) n(2) 1 key old(2) by (auto simp: stores_named_def ns_key_def)
      qed
    next
      case 2
      then show ?thesis using assms(1) n(2) by (simp add: stores_named_def)
    qed
  qed (use assms(1) n in \<open>simp_all add: stores_named_def violates_def\<close>)
  then show ?thesis using ok by (simp add: stores_named_def)
qed

lemma keeps_upsert_named:
  assumes "\<And>w. I w \<Longrightarrow> nr_store_id rec = None \<or> name_of (fw_fga w) (opt_text (nr_store_id rec)) = Some (store_name t (nr_namespace rec))"
    and "\<And>w. I w \<Longrightarrow> stores_named name_of w"
  shows "I w \<Longrightarrow> stores_named name_of (snd (pg_repo_upsert t rec w))"
proof -
  assume I: "I w"
  let ?st = "namespace_upsert_stmt t (nr_namespace rec) (nr_model rec) (nr_store_id rec) (nr_model_id rec)"
  have lost: "stores_named name_of (w\<lparr>pg_queries := q\<rparr>)" for q using assms(2) [OF I] by (simp add: stores_named_def)
  have "snd (pg_repo_upsert t rec w) = snd (pg_exec ?st w)"
    by (simp add: pg_repo_upsert_def pg_namespace_upsert_def bindE_def map_err_def ret_def split: prod.splits sum.splits)
  moreover have "snd (pg_exec ?st w) \<in> {w\<lparr>pg_queries := Suc (pg_queries w)\<rparr>,
      w\<lparr>pg_queries := Suc (pg_queries w), pg_db := snd (?st (pg_now w) (pg_db w))\<rparr>}"
    by (simp add: pg_exec_def Let_def split: prod.splits option.splits fault.splits)
  ultimately show ?thesis using upsert_named [OF assms(2) [OF I] assms(1) [OF I]] lost by auto
qed

lemma keeps_query_named [keeps_rules]: "keeps (stores_named name_of) (pg_query q)"
  by (simp add: keeps_def pg_query_def pg_exec_def Let_def stores_named_def split: option.splits fault.splits)

lemma keeps_repo_reads_named:
  "keeps (stores_named name_of) (pg_repo_get t ns)" "keeps (stores_named name_of) (resolve_mapping t ns)"
proof -
  show "keeps (stores_named name_of) (pg_repo_get t ns)"
    unfolding pg_repo_get_def pg_namespace_get_def by (intro keeps_rules)
  show "keeps (stores_named name_of) (resolve_mapping t ns)"
    unfolding resolve_mapping_def pg_repo_get_by_type_def pg_namespace_get_by_type_def pg_namespace_get_def Let_def
    by (auto intro!: keeps_rules split: option.splits)
qed

lemma keeps_delete_named: "keeps (stores_named name_of) (pg_repo_delete t ns)"
proof (rule keepsI)
  fix w r v
  assume I: "stores_named name_of w" and run: "pg_repo_delete t ns w = (r, v)"
  let ?st = "namespace_delete_stmt t ns"
  have ok: "namespaces_ok (snd (?st (pg_now w) (pg_db w)))"
    using stmt_keeps_namespace_delete I by (auto simp: stmt_keeps_def stores_named_def)
  have "v = snd (pg_exec ?st w)"
    using run by (simp add: pg_repo_delete_def pg_namespace_delete_def map_err_def split: prod.splits sum.splits)
  then have "v \<in> {w\<lparr>pg_queries := Suc (pg_queries w)\<rparr>,
      w\<lparr>pg_queries := Suc (pg_queries w), pg_db := snd (?st (pg_now w) (pg_db w))\<rparr>}"
    by (simp add: pg_exec_def Let_def split: prod.splits option.splits fault.splits)
  then consider "v = w\<lparr>pg_queries := Suc (pg_queries w)\<rparr>"
    | "v = w\<lparr>pg_queries := Suc (pg_queries w), pg_db := snd (?st (pg_now w) (pg_db w))\<rparr>" by blast
  then show "stores_named name_of v"
  proof cases
    case 2
    then show ?thesis using I ok by (simp add: stores_named_def namespace_delete_stmt_def)
  qed (use I in \<open>simp add: stores_named_def\<close>)
qed

lemma keeps_persist_named:
  "keeps (\<lambda>w. stores_named name_of w \<and> name_of (fw_fga w) sid = Some (store_name t ns)) (persist_record t ns model sid mid)"
proof -
  let ?I = "\<lambda>w. stores_named name_of w \<and> name_of (fw_fga w) sid = Some (store_name t ns)"
  let ?rec = "\<lparr>nr_namespace = ns, nr_model = model, nr_types = model_type_names model, nr_store_id = Some sid,
               nr_model_id = Some mid, nr_created_at = None, nr_updated_at = None\<rparr>"
  have "keeps ?I (pg_repo_upsert t ?rec)"
    unfolding keeps_def
  proof (intro allI impI conjI)
    fix w
    assume I: "?I w"
    show "stores_named name_of (snd (pg_repo_upsert t ?rec w))"
      by (rule keeps_upsert_named [where I = ?I, OF _ _ I]) (simp_all add: opt_text_def)
    have "fw_fga (snd (pg_repo_upsert t ?rec w)) = fw_fga w"
      by (rule keepsD_snd [of "\<lambda>u. fw_fga u = fw_fga w"])
         (auto simp: pg_repo_upsert_def pg_namespace_upsert_def intro!: keeps_rules keeps_fga_pg(1) [where P = "\<lambda>f. f = fw_fga w"])
    then show "name_of (fw_fga (snd (pg_repo_upsert t ?rec w))) sid = Some (store_name t ns)" using I by simp
  qed
  then show ?thesis unfolding persist_record_def by (intro keeps_rules)
qed

lemma keeps_ensure_model_named:
  assumes ok: "names_stores (ob_client b) name_of"
  shows "keeps (stores_named name_of) (fga_ensure_model b t ns model)"
proof -
  let ?I = "stores_named name_of"
  have call: "keeps ?I (fga_call (ob_client b) meth url query body)"
    "keeps (\<lambda>w. name_of (fw_fga w) s = Some n) (fga_call (ob_client b) meth url query body)" for meth url query body s n
    using keeps_fga_call_named [OF ok] by blast+
  note stores = keeps_store_calls [OF call(1)]
  have wrote: "keeps (\<lambda>w. ?I w \<and> name_of (fw_fga w) sid = Some (store_name t ns))
      (bindE (fga (write_model (ob_client b) sid model)) (\<lambda>mid. persist_record t ns model sid mid))" for sid
    by (intro keeps_bindE keeps_fga keeps_conj stores keeps_store_calls(3) call(2) keeps_persist_named)
  have provision: "keeps ?I (fga_provision b t ns model)"
    unfolding fga_provision_def
  proof (rule keeps_bindE_post [where Q = "\<lambda>found w. \<forall>i. found = Some i \<longrightarrow> name_of (fw_fga w) i = Some (store_name t ns)"])
    show "keeps ?I (fga (find_store_by_name (ob_client b) (store_name t ns)))" by (intro keeps_fga stores)
    show "\<forall>i. found = Some i \<longrightarrow> name_of (fw_fga v) i = Some (store_name t ns)"
      if "fga (find_store_by_name (ob_client b) (store_name t ns)) w = (Inr found, v)" for w found v
      using that found_store_named [OF ok] by (auto simp: fga_def run_simps)
    fix found
    show "keeps (\<lambda>w. ?I w \<and> (\<forall>i. found = Some i \<longrightarrow> name_of (fw_fga w) i = Some (store_name t ns)))
       (bindE (case found of None \<Rightarrow> fga (create_store (ob_client b) (store_name t ns)) | Some x \<Rightarrow> ret x)
         (\<lambda>store_id. bindE (fga (write_model (ob_client b) store_id model)) (\<lambda>model_id. persist_record t ns model store_id model_id)))"
    proof (cases found)
      case (Some i)
      then show ?thesis using wrote [of i] by simp
    next
      case None
      have "keeps ?I (bindE (fga (create_store (ob_client b) (store_name t ns)))
         (\<lambda>store_id. bindE (fga (write_model (ob_client b) store_id model)) (\<lambda>model_id. persist_record t ns model store_id model_id)))"
        by (rule keeps_bindE_post [where Q = "\<lambda>i w. name_of (fw_fga w) i = Some (store_name t ns)"])
           (use created_store_named [OF ok] wrote in \<open>auto simp: fga_def run_simps intro!: keeps_map_err stores\<close>)
      then show ?thesis using None by simp
    qed
  qed
  show ?thesis
    unfolding fga_ensure_model_def
  proof (rule keeps_bindE_post [where Q = "\<lambda>x w. \<forall>r. x = Some r \<longrightarrow> opt_text (nr_store_id r) \<noteq> [] \<longrightarrow>
      name_of (fw_fga w) (opt_text (nr_store_id r)) = Some (store_name t ns)"], goal_cases)
    case 1
    then show ?case by (rule keeps_repo_reads_named)
  next
    case (2 w x v)
    then obtain row where q: "pg_query (\<lambda>now db. Inr (map_option (select_row db) (find_namespace db t ns))) w = (Inr row :: db_error + _, v)"
      and x: "x = map_option namespace_record_from_row row"
      by (auto simp: pg_repo_get_def pg_namespace_get_def run_simps)
    note r = pg_query_Inr [OF q]
    have fw: "fw_fga v = fw_fga w" using r by simp
    show ?case
    proof (intro allI impI)
      fix r0
      assume "x = Some r0" "opt_text (nr_store_id r0) \<noteq> []"
      moreover from this x r obtain n where "find_namespace (pg_db w) t ns = Some n" "nr_store_id r0 = ns_store_id n"
        by (auto simp: namespace_record_from_row_def select_row_def)
      ultimately show "name_of (fw_fga v) (opt_text (nr_store_id r0)) = Some (store_name t ns)"
        using 2(1) fw by (auto simp: stores_named_def find_namespace_def ns_key_def dest!: find_SomeD)
    qed
  next
    case (3 x)
    show ?case
    proof (cases "\<exists>r. x = Some r \<and> opt_text (nr_store_id r) \<noteq> []")
      case True
      then obtain r where r: "x = Some r" "opt_text (nr_store_id r) \<noteq> []" by blast
      show ?thesis using wrote [of "opt_text (nr_store_id r)"] r by (auto intro: keeps_ret)
    next
      case False
      then show ?thesis using provision by (auto split: option.splits)
    qed
  qed
qed

lemma keeps_backend_calls:
  assumes call: "\<And>meth url query body. keeps I (fga_call (ob_client b) meth url query body)"
    and get: "\<And>t ns. keeps I (pg_repo_get t ns)" and res: "\<And>t ns. keeps I (resolve_mapping t ns)"
  shows "keeps I (fga_write_tuples b t ws ds)" and "keeps I (fga_ensure_tuples b t ws ds)" and "keeps I (fga_delete_namespace b t ns)"
    and "keeps I (client_read_tuples (ob_client b) s k)"
    and "keeps I (fga_create_relation_tuple b t ns obj rel sub)" and "keeps I (fga_delete_relation_tuple b t ns obj rel sub)"
proof -
  have resolve: "keeps I (resolve_all t ks rs)" for t ks rs
    by (induction t ks rs rule: resolve_all.induct) (auto intro!: keeps_rules res)
  have loop: "keeps I (read_loop fuel (ob_client b) url k tok acc)" for fuel url k tok acc
    by (induction fuel arbitrary: tok acc) (auto simp: Let_def intro!: keeps_rules call split: option.splits)
  show read: "keeps I (client_read_tuples (ob_client b) s k)" for s k
    unfolding client_read_tuples_def by (intro keeps_rules loop)
  have groups: "keeps I (write_groups b rs gs)" for rs gs
  proof (induction gs)
    case (Cons g gs)
    then show ?case by (cases g) (auto simp: client_write_tuples_def intro!: keeps_rules call)
  qed (auto intro: keeps_ret)
  have wheres: "keeps I (keys_where b rs present ks)" for rs present ks
    by (induction ks) (auto intro!: keeps_rules read)
  show wr: "keeps I (fga_write_tuples b t ws ds)" for ws ds
    unfolding fga_write_tuples_def by (intro keeps_rules groups resolve)
  show "keeps I (fga_ensure_tuples b t ws ds)"
    unfolding fga_ensure_tuples_def by (intro keeps_rules wr wheres resolve)
  show "keeps I (fga_delete_namespace b t ns)"
    unfolding fga_delete_namespace_def
    by (auto intro!: keeps_rules get keeps_store_calls(4) call split: option.splits sum.splits fga_error.splits)
  show "keeps I (fga_create_relation_tuple b t ns obj rel sub)" "keeps I (fga_delete_relation_tuple b t ns obj rel sub)"
    unfolding fga_create_relation_tuple_def fga_delete_relation_tuple_def by (intro keeps_rules wr)+
qed

lemmas keeps_tuples_named = keeps_backend_calls [OF keeps_fga_call_named(1) keeps_repo_reads_named(1) keeps_repo_reads_named(2)]

text \<open>What any replica may do to namespaces and their stores.\<close>

datatype fga_event =
    EnsureModel string string json
  | RegisterModel string string json
  | DropStore string string
  | DropRow string string
  | WriteTuples string "relation_tuple_key list" "relation_tuple_key list"
  | EnsureTuples string "relation_tuple_key list" "relation_tuple_key list"

text \<open>The record \<^verbatim>\<open>ensure_permission_namespace\<close> writes: without ids, to keep the ones known.\<close>

definition metadata_record :: "string \<Rightarrow> json \<Rightarrow> namespace_record" where
  "metadata_record namespace model =
     \<lparr>nr_namespace = namespace, nr_model = model, nr_types = model_type_names model, nr_store_id = None, nr_model_id = None,
      nr_created_at = None, nr_updated_at = None\<rparr>"

definition run_fga_event :: "'f openfga_backend \<Rightarrow> ('f, 'z) fga_world_scheme \<Rightarrow> fga_event \<Rightarrow> ('f, 'z) fga_world_scheme" where
  "run_fga_event b w ev =
     (case ev of
        EnsureModel t ns model \<Rightarrow> snd (fga_ensure_model b t ns model w)
      | RegisterModel t ns model \<Rightarrow> snd (pg_repo_upsert t (metadata_record ns model) w)
      | DropStore t ns \<Rightarrow> snd (fga_delete_namespace b t ns w)
      | DropRow t ns \<Rightarrow> snd (pg_repo_delete t ns w)
      | WriteTuples t ws ds \<Rightarrow> snd (fga_write_tuples b t ws ds w)
      | EnsureTuples t ws ds \<Rightarrow> snd (fga_ensure_tuples b t ws ds w))"

lemma fga_event_named:
  assumes ok: "names_stores (ob_client b) name_of" and "stores_named name_of w"
  shows "stores_named name_of (run_fga_event b w ev)"
  using keepsD_snd [OF keeps_ensure_model_named [OF ok] assms(2)] keepsD_snd [OF keeps_delete_named assms(2)]
    keepsD_snd [OF keeps_tuples_named(1) [OF ok] assms(2)] keepsD_snd [OF keeps_tuples_named(2) [OF ok] assms(2)]
    keepsD_snd [OF keeps_tuples_named(3) [OF ok] assms(2)]
    keeps_upsert_named [where I = "stores_named name_of", OF _ _ assms(2)]
  by (cases ev) (simp_all add: run_fga_event_def metadata_record_def)

lemma fga_events_named:
  "names_stores (ob_client b) name_of \<Longrightarrow> stores_named name_of w \<Longrightarrow> stores_named name_of (foldl (run_fga_event b) w evs)"
  by (induction evs arbitrary: w) (simp_all add: fga_event_named)

section \<open>Properties\<close>

lemma ensure_tuples_result:
  assumes ok: "fga_store_ok (ob_client b) listing tok" "order_ok b" and rel: "\<forall>k \<in> set (ws @ ds). rk_relation k \<noteq> []"
    and run: "fga_ensure_tuples b t ws ds w = (x, v)"
  shows "pg_db v = pg_db w"
    and "\<not> (\<exists>k \<in> set (ws @ ds). store_of (pg_db w) t (rk_namespace k) = s) \<Longrightarrow> listing (fw_fga v) s = listing (fw_fga w) s"
    and "x = Inr () \<Longrightarrow> keys_in (pg_db w) t s ws \<inter> keys_in (pg_db w) t s ds = {} \<Longrightarrow>
      set (listing (fw_fga v) s) = (set (listing (fw_fga w) s) - keys_in (pg_db w) t s ds) \<union> keys_in (pg_db w) t s ws"
proof -
  have wr: "writes_tuples (ob_client b) listing" using ok(1) by (simp add: fga_store_ok_def)
  let ?post = "\<lambda>v'. pg_db v' = pg_db w \<and> (\<not> (\<exists>k \<in> set (ws @ ds). store_of (pg_db w) t (rk_namespace k) = s) \<longrightarrow> listing (fw_fga v') s = listing (fw_fga w) s)"
  obtain y u where res: "resolve_all t (ws @ ds) [] w = (y, u)" by fastforce
  have rs: "pg_db u = pg_db w" "fw_fga u = fw_fga w"
    "\<And>rs. y = Inr rs \<Longrightarrow> records_ok (pg_db w) t rs \<and> rk_namespace ` set (ws @ ds) \<subseteq> fst ` set rs"
    using resolve_all_result [OF res] by (auto simp: records_ok_def)
  have "?post v \<and> (x = Inr () \<longrightarrow> keys_in (pg_db w) t s ws \<inter> keys_in (pg_db w) t s ds = {} \<longrightarrow>
      set (listing (fw_fga v) s) = (set (listing (fw_fga w) s) - keys_in (pg_db w) t s ds) \<union> keys_in (pg_db w) t s ws)"
  proof (cases y)
    case (Inl e)
    then have "x = Inl e \<and> v = u" using run res by (auto simp: fga_ensure_tuples_def bindE_def)
    then show ?thesis using rs by simp
  next
    case (Inr records)
    have key: "store_key records k = store_of (pg_db w) t (rk_namespace k)" if "k \<in> set (ws @ ds)" for k
      using store_key_of rs(3) [OF Inr] that by blast
    obtain z u1 where k1: "keys_where b records False ws u = (z, u1)" by fastforce
    have rel1: "\<forall>k \<in> set ws. rk_relation k \<noteq> []" "\<forall>k \<in> set ds. rk_relation k \<noteq> []" using rel by auto
    note r1 = keys_where_result [OF ok(1) rel1(1) k1]
    have db1: "pg_db u1 = pg_db w" using r1 fga_frame_pg(1) rs(1) by metis
    show ?thesis
    proof (cases z)
      case (Inl e)
      then have "x = Inl e \<and> v = u1" using run res Inr k1 by (auto simp: fga_ensure_tuples_def bindE_def)
      then show ?thesis using r1 db1 rs by simp
    next
      case missing: (Inr missing)
      obtain z2 u2 where k2: "keys_where b records True ds u1 = (z2, u2)" by fastforce
      note r2 = keys_where_result [OF ok(1) rel1(2) k2]
      have db2: "pg_db u2 = pg_db w" using r2 fga_frame_pg(1) db1 by metis
      have l2: "listing (fw_fga u2) = listing (fw_fga w)" using r1 r2 rs by simp
      show ?thesis
      proof (cases z2)
        case (Inl e)
        then have "x = Inl e \<and> v = u2" using run res Inr k1 missing k2 by (auto simp: fga_ensure_tuples_def bindE_def)
        then show ?thesis using l2 db2 by simp
      next
        case present: (Inr present)
        have last: "fga_write_tuples b t missing present u2 = (x, v)"
          using run res Inr k1 missing k2 present by (simp add: fga_ensure_tuples_def bindE_def)
        have m: "set missing = {k \<in> set ws. (triple (client_tuple_key k) \<in> set (listing (fw_fga w) (store_of (pg_db w) t (rk_namespace k)))) = False}"
          using r1 missing key rs(2) by auto
        have p: "set present = {k \<in> set ds. (triple (client_tuple_key k) \<in> set (listing (fw_fga w) (store_of (pg_db w) t (rk_namespace k)))) = True}"
          using r2 present key r1 rs(2) by auto
        note w3 = write_tuples_result [OF wr ok(2) last]
        have "?post v" using w3(1) w3(2) [of s] db2 l2 m p by auto
        moreover have "set (listing (fw_fga v) s) = (set (listing (fw_fga w) s) - keys_in (pg_db w) t s ds) \<union> keys_in (pg_db w) t s ws"
          if "x = Inr ()" "keys_in (pg_db w) t s ws \<inter> keys_in (pg_db w) t s ds = {}"
          using w3(3) [OF that(1), of s] that(2) keys_in_present [where listing = listing and f = "fw_fga w" and present = False, OF m]
            keys_in_present [where listing = listing and f = "fw_fga w" and present = True, OF p] db2 l2 by auto
        ultimately show ?thesis by blast
      qed
    qed
  qed
  then show "pg_db v = pg_db w"
    and "\<not> (\<exists>k \<in> set (ws @ ds). store_of (pg_db w) t (rk_namespace k) = s) \<Longrightarrow> listing (fw_fga v) s = listing (fw_fga w) s"
    and "x = Inr () \<Longrightarrow> keys_in (pg_db w) t s ws \<inter> keys_in (pg_db w) t s ds = {} \<Longrightarrow>
      set (listing (fw_fga v) s) = (set (listing (fw_fga w) s) - keys_in (pg_db w) t s ds) \<union> keys_in (pg_db w) t s ws"
    by blast+
qed

text \<open>
  Ensuring tuples is exact and stays in the tenant's stores: when \<^verbatim>\<open>ensure_tuples\<close> succeeds,
  every store holds what it held, without the deletes and with the writes that resolve to
  it, whether they were there before or not; and whether it succeeds or fails, a store to
  which none of the keys resolves is untouched.
\<close>

theorem ensure_tuples_exact:
  assumes "fga_store_ok (ob_client b) listing tok" and "order_ok b" and "\<forall>k \<in> set (ws @ ds). rk_relation k \<noteq> []"
    and "\<forall>s. keys_in (pg_db w) t s ws \<inter> keys_in (pg_db w) t s ds = {}" and "fga_ensure_tuples b t ws ds w = (x, v)"
  shows "(x = Inr () \<longrightarrow> (\<forall>s. set (listing (fw_fga v) s)
            = (set (listing (fw_fga w) s) - keys_in (pg_db w) t s ds) \<union> keys_in (pg_db w) t s ws))
    \<and> (\<forall>s. (\<forall>k \<in> set (ws @ ds). store_of (pg_db w) t (rk_namespace k) \<noteq> s) \<longrightarrow> listing (fw_fga v) s = listing (fw_fga w) s)
    \<and> pg_db v = pg_db w"
  using ensure_tuples_result [OF assms(1,2,3,5)] assms(4) by blast

definition sample_backend :: "fga_tuple list openfga_backend" where
  "sample_backend = \<lparr>ob_client = sample_client, ob_order = (\<lambda>gs. gs)\<rparr>"

text \<open>The tenant \<^verbatim>\<open>T\<close> with the namespace \<^verbatim>\<open>entitlements\<close> in the store \<^verbatim>\<open>s\<close>.\<close>

definition entitled_db :: database where
  "entitled_db = empty_db\<lparr>tenants := [\<lparr>tn_id = ''T'', tn_slug = ''t'', tn_display_name = ''T'', tn_is_system = False,
       tn_settings = JObj [], tn_created_at = 0\<rparr>],
     permission_namespaces := [\<lparr>ns_tenant_id = ''T'', ns_namespace = ''entitlements'', ns_model = JObj [], ns_store_id = Some ''s'',
       ns_model_id = Some ''m'', ns_created_at = 0, ns_updated_at = 0\<rparr>]\<rparr>"

definition entitled_world :: "fga_tuple list \<Rightarrow> fga_tuple list fga_world" where
  "entitled_world f = pg.extend (quiet_pg entitled_db 0) \<lparr>fw_fga = f\<rparr>"

lemma entitled_world_simps [simp]:
  "pg_db (entitled_world f) = entitled_db" "fw_fga (entitled_world f) = f" "pg_fault (entitled_world f) = (\<lambda>_. None)"
  "pg_now (entitled_world f) = 0"
  by (simp_all add: entitled_world_def quiet_pg_def pg.defs)

lemma entitled_store: "store_of entitled_db ''T'' ''entitlements'' = ''s''"
  by (simp add: store_of_def mapping_of_def find_type_owner_def find_namespace_def entitled_db_def empty_db_def ns_key_def opt_text_def)

lemma sample_store_ok: "fga_store_ok (ob_client sample_backend) sample_listing page_tok" and sample_order_ok: "order_ok sample_backend"
  using sample_lists sample_writes
  by (simp_all add: fga_store_ok_def order_ok_def sample_backend_def sample_listing_def sample_client_def)

lemma sample_key_in:
  "keys_in (pg_db (entitled_world f)) ''T'' ''s'' [plain_key ''entitlements'' obj r u]
     = {triple (client_tuple_key (plain_key ''entitlements'' obj r u))}"
proof -
  have "store_of (pg_db (entitled_world f)) ''T'' (rk_namespace (plain_key ''entitlements'' obj r u)) = ''s''"
    by (simp add: plain_key_def entitled_store)
  then show ?thesis by (auto simp: keys_in_def)
qed

lemma keys_in_nil: "keys_in db t s [] = {}"
  by (simp add: keys_in_def)

lemma sample_key_triple:
  "triple (client_tuple_key (plain_key ''entitlements'' ''app'' ''member'' ''u'')) = (''user:u'', ''member'', ''entitlements:app'')"
  by code_simp

theorem ensure_tuples_exact_witness:
  "\<exists>v. fga_ensure_tuples sample_backend ''T'' [plain_key ''entitlements'' ''app'' ''member'' ''u''] []
         (entitled_world [(''user:b'', ''member'', ''entitlements:app'')]) = (Inr (), v)
     \<and> set (sample_listing (fw_fga v) ''s'') = {(''user:b'', ''member'', ''entitlements:app''), (''user:u'', ''member'', ''entitlements:app'')}"
proof -
  let ?w = "entitled_world [(''user:b'', ''member'', ''entitlements:app'')]"
  let ?k = "plain_key ''entitlements'' ''app'' ''member'' ''u''"
  obtain x v where run: "fga_ensure_tuples sample_backend ''T'' [?k] [] ?w = (x, v)" by fastforce
  have "fst (fga_ensure_tuples sample_backend ''T'' [?k] [] ?w) = Inr ()"
    by code_simp
  then have x: "x = Inr ()" using run by simp
  have rel: "\<forall>k \<in> set ([?k] @ []). rk_relation k \<noteq> []" by (simp add: plain_key_def)
  have dis: "\<forall>s. keys_in (pg_db ?w) ''T'' s [?k] \<inter> keys_in (pg_db ?w) ''T'' s [] = {}" by (simp add: keys_in_def)
  from ensure_tuples_exact [OF sample_store_ok sample_order_ok rel dis run] x
  have "set (sample_listing (fw_fga v) ''s'') = set (sample_listing (fw_fga ?w) ''s'') - keys_in (pg_db ?w) ''T'' ''s'' [] \<union> keys_in (pg_db ?w) ''T'' ''s'' [?k]"
    by blast
  also have "\<dots> = insert (triple (client_tuple_key ?k)) {(''user:b'', ''member'', ''entitlements:app'')}"
    unfolding keys_in_nil sample_key_in by (simp add: sample_listing_def insert_commute)
  also have "\<dots> = {(''user:b'', ''member'', ''entitlements:app''), (''user:u'', ''member'', ''entitlements:app'')}"
    unfolding sample_key_triple by (rule insert_commute)
  finally show ?thesis using run x by blast
qed


text \<open>Tenant ids are ULIDs of 26 characters, so the name of a store determines its namespace.\<close>

lemma store_name_inject:
  "length t = 26 \<Longrightarrow> length t' = 26 \<Longrightarrow> store_name t ns = store_name t' ns' \<longleftrightarrow> t = t' \<and> ns = ns'"
  by (simp add: store_name_def)

text \<open>
  Namespaces never share a store: whatever sequence of provisioning, checking, reading,
  writing and deleting the backend runs, for whatever tenants, from a world in which the
  recorded stores carry the names of their namespaces, two namespace rows with the same
  store are the same row.
\<close>

theorem namespace_stores_isolated:
  assumes "names_stores (ob_client b) name_of" and "stores_named name_of w" and "v = foldl (run_fga_event b) w evs"
    and "n \<in> set (permission_namespaces (pg_db v))" "n' \<in> set (permission_namespaces (pg_db v))"
    and "length (ns_tenant_id n) = 26" "length (ns_tenant_id n') = 26"
    and "opt_text (ns_store_id n) \<noteq> []" "ns_store_id n = ns_store_id n'"
  shows "n = n'"
proof -
  have I: "stores_named name_of v" unfolding assms(3) by (rule fga_events_named [OF assms(1,2)])
  then have "Some (store_name (ns_tenant_id n) (ns_namespace n)) = Some (store_name (ns_tenant_id n') (ns_namespace n'))"
    using assms(4,5,8,9) by (metis stores_named_def)
  then have "ns_key n = ns_key n'" using assms(6,7) by (simp add: store_name_inject ns_key_def)
  then show ?thesis using I assms(4,5) key_uniqueD [of ns_key] by (auto simp only: stores_named_def namespaces_ok_def)
qed

text \<open>A server of stores, numbered in the order in which they were created.\<close>

definition store_number :: "nat \<Rightarrow> string" where
  "store_number k = replicate (Suc k) CHR ''i''"

definition naming_send :: "http_method \<Rightarrow> string \<Rightarrow> (string \<times> string) list \<Rightarrow> json option \<Rightarrow> string list \<Rightarrow> fga_reply \<times> string list" where
  "naming_send meth url query body f =
     (if url \<noteq> ''stores'' then (Reply 201 None (Inr (JObj [(''authorization_model_id'', JStr ''m'')])), f)
      else case body of
        Some payload \<Rightarrow> (Reply 201 None (Inr (JObj [(''id'', JStr (store_number (length f)))])), f @ [str_field payload ''name''])
      | None \<Rightarrow> (Reply 200 None (Inr (JObj [(''stores'', JArr (map (\<lambda>(k, name). JObj [(''id'', JStr (store_number k)), (''name'', JStr name)])
          (List.enumerate 0 f)))])), f))"

definition naming_backend :: "string list openfga_backend" where
  "naming_backend = \<lparr>ob_client = \<lparr>fc_join = Inr, fc_send = naming_send, fc_show_json = (\<lambda>_. []), fc_fuel = 3\<rparr>, ob_order = (\<lambda>gs. gs)\<rparr>"

definition number_name :: "string list \<Rightarrow> string \<Rightarrow> string option" where
  "number_name f s = (if s \<noteq> [] \<and> length s \<le> length f \<and> s = store_number (length s - 1) then Some (f ! (length s - 1)) else None)"

lemma number_name_number: "number_name f (store_number k) = (if k < length f then Some (f ! k) else None)"
  by (simp add: number_name_def store_number_def)

lemma naming_names: "names_stores (ob_client naming_backend) number_name"
proof -
  have mono: "number_name f s = Some n \<Longrightarrow> number_name (f @ ns) s = Some n" for f s n ns
    by (cases s) (auto simp: number_name_def store_number_def nth_append split: if_splits)
  have listed: "number_name f i = Some name"
    if "store \<in> set (map (\<lambda>(k, name). JObj [(''id'', JStr (store_number k)), (''name'', JStr name)]) (List.enumerate 0 f))"
      "json_get store ''name'' = Some (JStr name)" "json_get store ''id'' = Some (JStr i)" for store f name i
    using that by (auto simp: in_set_enumerate_eq number_name_number)
  show ?thesis
    unfolding names_stores_def
  proof (intro conjI allI impI, goal_cases)
    case (1 meth url query body f r f' s n)
    then show ?case using mono by (auto simp: naming_backend_def naming_send_def split: if_splits option.splits)
  next
    case (2 url name f status tx v f' i)
    then show ?case by (auto simp: naming_backend_def naming_send_def str_field_def number_name_number)
  next
    case (3 url query f status tx v f' store name i)
    then show ?case using listed [of store f name i] by (auto simp: naming_backend_def naming_send_def page_entries_def)
  qed
qed

definition ulid_a :: string where "ulid_a = replicate 26 CHR ''A''"
definition ulid_b :: string where "ulid_b = replicate 26 CHR ''B''"

definition two_tenants :: "string list fga_world" where
  "two_tenants = pg.extend (quiet_pg (empty_db\<lparr>tenants := map (\<lambda>t. \<lparr>tn_id = t, tn_slug = t, tn_display_name = t, tn_is_system = False,
       tn_settings = JObj [], tn_created_at = 0\<rparr>) [ulid_a, ulid_b]\<rparr>) 0) \<lparr>fw_fga = []\<rparr>"

definition both_provisioned :: "string list fga_world" where
  "both_provisioned = foldl (run_fga_event naming_backend) two_tenants
     [EnsureModel ulid_a ''docs'' (JObj []), EnsureModel ulid_b ''docs'' (JObj [])]"

lemma both_provisioned_rows:
  "map (\<lambda>n. (ns_tenant_id n, ns_store_id n)) (permission_namespaces (pg_db both_provisioned))
     = [(ulid_a, Some (store_number 0)), (ulid_b, Some (store_number 1))]"
  by code_simp

theorem namespace_stores_isolated_witness:
  "\<exists>n n'. permission_namespaces (pg_db both_provisioned) = [n, n'] \<and> ns_store_id n \<noteq> ns_store_id n' \<and> opt_text (ns_store_id n) \<noteq> []"
proof -
  obtain n n' where rows: "permission_namespaces (pg_db both_provisioned) = [n, n']"
    and n: "ns_tenant_id n = ulid_a" "ns_store_id n = Some (store_number 0)" "ns_tenant_id n' = ulid_b"
    using both_provisioned_rows by (auto simp: map_eq_Cons_conv)
  have len: "length (ns_tenant_id n) = 26" "length (ns_tenant_id n') = 26" and ne: "opt_text (ns_store_id n) \<noteq> []"
    by (simp_all add: n ulid_a_def ulid_b_def opt_text_def store_number_def)
  have start: "stores_named number_name two_tenants"
    by (simp add: stores_named_def two_tenants_def namespaces_ok_def key_unique_def pg.defs quiet_pg_def empty_db_def owns_type_def)
  have "ns_store_id n \<noteq> ns_store_id n'"
  proof
    assume "ns_store_id n = ns_store_id n'"
    then have "n = n'"
      using namespace_stores_isolated [OF naming_names start both_provisioned_def _ _ len ne] rows by simp
    then show False using n by (simp add: ulid_a_def ulid_b_def)
  qed
  then show ?thesis using rows ne by blast
qed

end
