(* ===== verification/PermissionService.thy ===== *)
theory PermissionService
  imports OpenFga IdMappings
begin

text \<open>
  The RPCs of the permission service, \<^verbatim>\<open>services/permission.rs\<close> from line 1393: guards, validation of
  requests and models, the calls of the backend, the mirror of the tuples in PostgreSQL, and
  the rewriting of expanded trees. The backend is the record of the operations of the trait
  \<^verbatim>\<open>PermissionBackend\<close>; \<open>openfga\<close> fills it in with the OpenFGA backend. A Protobuf \<^verbatim>\<open>Struct\<close> is the JSON
  that \<^verbatim>\<open>serde_json::to_value\<close> makes of it, or the error it ends in.
\<close>

section \<open>The backend as an object\<close>

record 's permission_backend =
  pb_check_permission :: "string \<Rightarrow> string \<Rightarrow> string \<Rightarrow> string \<Rightarrow> string \<Rightarrow> query_options \<Rightarrow> ('s, permission_error, bool) io"
  pb_create_relation_tuple :: "string \<Rightarrow> string \<Rightarrow> string \<Rightarrow> string \<Rightarrow> string \<Rightarrow> ('s, permission_error, json) io"
  pb_delete_relation_tuple :: "string \<Rightarrow> string \<Rightarrow> string \<Rightarrow> string \<Rightarrow> string \<Rightarrow> ('s, permission_error, unit) io"
  pb_write_tuples :: "string \<Rightarrow> relation_tuple_key list \<Rightarrow> relation_tuple_key list \<Rightarrow> ('s, permission_error, unit) io"
  pb_ensure_tuples :: "string \<Rightarrow> relation_tuple_key list \<Rightarrow> relation_tuple_key list \<Rightarrow> ('s, permission_error, unit) io"
  pb_expand :: "string \<Rightarrow> string \<Rightarrow> string \<Rightarrow> string \<Rightarrow> query_options \<Rightarrow> ('s, permission_error, json) io"
  pb_expand_objects :: "string \<Rightarrow> string \<Rightarrow> string \<Rightarrow> string option \<Rightarrow> string option \<Rightarrow> string option \<Rightarrow> string option
    \<Rightarrow> int option \<Rightarrow> query_options \<Rightarrow> ('s, permission_error, json) io"
  pb_list_users :: "string \<Rightarrow> string \<Rightarrow> string \<Rightarrow> string \<Rightarrow> string list \<Rightarrow> query_options \<Rightarrow> ('s, permission_error, string list) io"
  pb_read_tuples :: "string \<Rightarrow> string \<Rightarrow> string \<Rightarrow> ('s, permission_error, relation_tuple_key list) io"
  pb_ensure_model :: "string \<Rightarrow> string \<Rightarrow> json \<Rightarrow> ('s, permission_error, unit) io"
  pb_delete_namespace :: "string \<Rightarrow> string \<Rightarrow> ('s, permission_error, unit) io"

definition openfga :: "'f openfga_backend \<Rightarrow> ('f, 'z) fga_world_scheme permission_backend" where
  "openfga b =
     \<lparr>pb_check_permission = fga_check_permission b, pb_create_relation_tuple = fga_create_relation_tuple b,
      pb_delete_relation_tuple = fga_delete_relation_tuple b, pb_write_tuples = fga_write_tuples b,
      pb_ensure_tuples = fga_ensure_tuples b, pb_expand = fga_expand b,
      pb_expand_objects = (\<lambda>t ns r u _ _ _ _ opts. fga_expand_objects b t ns r u opts),
      pb_list_users = fga_list_users b, pb_read_tuples = fga_read_tuples b, pb_ensure_model = fga_ensure_model b,
      pb_delete_namespace = fga_delete_namespace b\<rparr>"

lemma openfga_sel [simp]:
  "pb_check_permission (openfga b) = fga_check_permission b" "pb_ensure_tuples (openfga b) = fga_ensure_tuples b"
  "pb_ensure_model (openfga b) = fga_ensure_model b" "pb_read_tuples (openfga b) = fga_read_tuples b"
  "pb_list_users (openfga b) = fga_list_users b"
  by (simp_all add: openfga_def)

record 's permission_service =
  ps_backend :: "'s permission_backend"
  ps_b64_encode :: "string \<Rightarrow> string"
  ps_b64_decode :: "string \<Rightarrow> string option"
  ps_json_string :: "json \<Rightarrow> string"
  ps_struct_of :: "json \<Rightarrow> json option"
  ps_debug :: "string \<Rightarrow> string"

abbreviation peq :: "('s, permission_error, 'a) io \<Rightarrow> ('s, service_error, 'a) io" where
  "peq m \<equiv> map_err service_error_of_permission m"

section \<open>Requests\<close>

record proto_tuple_key =
  pk_namespace :: string
  pk_object :: string
  pk_relation :: string
  pk_subject_id :: string
  pk_condition :: string
  pk_condition_context :: "(string + json) option"

record proto_query_options =
  pq_context :: "(string + json) option"
  pq_contextual_tuples :: "proto_tuple_key list"
  pq_consistency :: string

text \<open>\<^verbatim>\<open>map(..).transpose().map_err(..)\<close> of an optional conversion.\<close>

definition transpose_err :: "('d \<Rightarrow> 'e) \<Rightarrow> ('d + 'a) option \<Rightarrow> 'e + 'a option" where
  "transpose_err h x = (case x of None \<Rightarrow> Inr None | Some (Inr v) \<Rightarrow> Inr (Some v) | Some (Inl d) \<Rightarrow> Inl (h d))"

text \<open>\<^verbatim>\<open>collect::<Result<Vec<_>, _>>()\<close>: all values, or the first error.\<close>

fun collect_results :: "('e + 'a) list \<Rightarrow> 'e + 'a list" where
  "collect_results [] = Inr []"
| "collect_results (r # rs) =
     (case r of Inl e \<Rightarrow> Inl e | Inr x \<Rightarrow> (case collect_results rs of Inl e \<Rightarrow> Inl e | Inr xs \<Rightarrow> Inr (x # xs)))"

lemma collect_results_length: "collect_results rs = Inr xs \<Longrightarrow> length xs = length rs"
  by (induction rs arbitrary: xs) (auto split: sum.splits)

definition tuple_key_from_proto :: "proto_tuple_key \<Rightarrow> service_error + relation_tuple_key" where
  "tuple_key_from_proto k =
     (if pk_namespace k = [] \<or> pk_object k = [] \<or> pk_relation k = [] \<or> pk_subject_id k = []
      then Inl (SE_InvalidArgument ''tuple key requires namespace, object, relation, and subject_id'')
      else case transpose_err (\<lambda>e. SE_InvalidArgument (''invalid condition context: '' @ e)) (pk_condition_context k) of
        Inl e \<Rightarrow> Inl e
      | Inr context \<Rightarrow>
          Inr \<lparr>rk_namespace = pk_namespace k, rk_object = pk_object k, rk_relation = pk_relation k,
               rk_subject_id = pk_subject_id k,
               rk_condition = (if pk_condition k = [] then None else Some (pk_condition k)),
               rk_condition_context = context\<rparr>)"

definition query_options_from :: "(string \<Rightarrow> string) \<Rightarrow> proto_query_options \<Rightarrow> service_error + query_options" where
  "query_options_from debug q =
     (let consistency =
        (if pq_consistency q = [] then Inr None
         else if pq_consistency q = ''minimize_latency'' \<or> pq_consistency q = ''higher_consistency'' then Inr (Some (pq_consistency q))
         else Inl (SE_InvalidArgument (''invalid consistency '' @ debug (pq_consistency q)
                     @ '': expected \"minimize_latency\" or \"higher_consistency\"'')))
      in case consistency of
           Inl e \<Rightarrow> Inl e
         | Inr c \<Rightarrow>
             (case collect_results (map tuple_key_from_proto (pq_contextual_tuples q)) of
                Inl e \<Rightarrow> Inl e
              | Inr ks \<Rightarrow>
                  (case transpose_err (\<lambda>e. SE_InvalidArgument (''invalid context: '' @ e)) (pq_context q) of
                     Inl e \<Rightarrow> Inl e
                   | Inr context \<Rightarrow> Inr \<lparr>qo_context = context, qo_contextual_tuples = ks, qo_consistency = c\<rparr>)))"

text \<open>The filters of the requests: an empty string, or a depth that is not positive, is no filter.\<close>

definition nonempty_filter :: "string \<Rightarrow> string option" where
  "nonempty_filter s = (if s = [] then None else Some s)"

definition max_depth_filter :: "int \<Rightarrow> int option" where
  "max_depth_filter max_depth = (if max_depth \<le> 0 then None else Some max_depth)"

definition MAX_BATCH_KEYS :: nat where
  "MAX_BATCH_KEYS = 100"

section \<open>Models\<close>

definition is_ascii_alphabetic :: "char \<Rightarrow> bool" where
  "is_ascii_alphabetic c \<longleftrightarrow> (65 \<le> code_point c \<and> code_point c \<le> 90) \<or> (97 \<le> code_point c \<and> code_point c \<le> 122)"

definition is_valid_type_name :: "string \<Rightarrow> bool" where
  "is_valid_type_name name \<longleftrightarrow> name \<noteq> [] \<and> length name \<le> 128 \<and> is_ascii_alphabetic (hd name)
     \<and> (\<forall>c \<in> set name. is_ascii_alphabetic c \<or> is_digit c \<or> c = CHR ''_'')"

definition validate_namespace_name :: "(string \<Rightarrow> string) \<Rightarrow> string \<Rightarrow> service_error + unit" where
  "validate_namespace_name debug name =
     (if is_valid_type_name name then Inr ()
      else Inl (SE_InvalidArgument (''invalid namespace name '' @ debug name
                  @ '': must match [A-Za-z][A-Za-z0-9_] up to 128 chars'')))"

fun check_definitions :: "(string \<Rightarrow> string) \<Rightarrow> string list \<Rightarrow> json list \<Rightarrow> service_error + unit" where
  "check_definitions debug seen [] = Inr ()"
| "check_definitions debug seen (def # defs) =
     (case type_name def of
        None \<Rightarrow> Inl (SE_InvalidArgument ''every type definition must have a string type'')
      | Some ty \<Rightarrow>
          if \<not> is_valid_type_name ty
          then Inl (SE_InvalidArgument (''invalid type name '' @ debug ty @ '': must match [A-Za-z][A-Za-z0-9_] up to 128 chars''))
          else if ty \<in> set seen then Inl (SE_InvalidArgument (''duplicate type definition: '' @ ty))
          else check_definitions debug (ty # seen) defs)"

definition definition_name :: "json \<Rightarrow> string" where
  "definition_name def = opt_text (type_name def)"

definition validate_and_normalize_model :: "(string \<Rightarrow> string) \<Rightarrow> json \<Rightarrow> service_error + json" where
  "validate_and_normalize_model debug model =
     (if as_object model = None then Inl (SE_InvalidArgument ''model must be a JSON object'')
      else if opt_text (Option.bind (json_get model ''schema_version'') as_str) = []
      then Inl (SE_InvalidArgument ''model.schema_version must be a non-empty string'')
      else case Option.bind (json_get model ''type_definitions'') as_array of
        None \<Rightarrow> Inl (SE_InvalidArgument ''model.type_definitions must be a non-empty array'')
      | Some defs \<Rightarrow>
          if defs = [] then Inl (SE_InvalidArgument ''model.type_definitions must be a non-empty array'')
          else case check_definitions debug [] defs of
            Inl e \<Rightarrow> Inl e
          | Inr _ \<Rightarrow> Inr (json_set model ''type_definitions'' (JArr (sort_key definition_name defs))))"

section \<open>Expanded trees\<close>

definition strip_tenant_object_prefix :: "string \<Rightarrow> string \<Rightarrow> string option" where
  "strip_tenant_object_prefix tenant_id object =
     (if starts_with object (tenant_id @ '':'') then Some (drop (length tenant_id + 1) object) else None)"

definition strip_subject_set_prefix :: "string \<Rightarrow> string \<Rightarrow> string" where
  "strip_subject_set_prefix subject tenant_id =
     (case split_once (CHR ''#'') subject of
        Some (left, relation) \<Rightarrow>
          (case strip_tenant_object_prefix tenant_id left of Some rest \<Rightarrow> rest | None \<Rightarrow> left) @ ''#'' @ relation
      | None \<Rightarrow> subject)"

definition sanitize_object_value :: "string \<Rightarrow> json \<Rightarrow> json" where
  "sanitize_object_value tenant_id v =
     (case as_str v of
        Some s \<Rightarrow> JStr (case strip_tenant_object_prefix tenant_id s of Some stripped \<Rightarrow> stripped | None \<Rightarrow> s)
      | None \<Rightarrow> v)"

definition sanitize_subject_id :: "string \<Rightarrow> json \<Rightarrow> ('z pg_scheme, service_error, json) io" where
  "sanitize_subject_id tenant_id v =
     (case as_str v of
        None \<Rightarrow> ret v
      | Some subject \<Rightarrow>
          if CHR ''#'' \<in> set subject then ret (JStr (strip_subject_set_prefix subject tenant_id))
          else attempt (get_public_id tenant_id ''kratos'' subject) (\<lambda>r. case r of
              Inr public_id \<Rightarrow> ret (JStr public_id)
            | Inl _ \<Rightarrow> attempt (get_public_id tenant_id ''hydra'' subject) (\<lambda>r. case r of
                Inr public_id \<Rightarrow> ret (JStr public_id)
              | Inl _ \<Rightarrow> ret (JStr subject))))"

fun sanitize_expand_tree :: "string \<Rightarrow> json \<Rightarrow> ('z pg_scheme, service_error, json) io"
and sanitize_fields :: "string \<Rightarrow> (string \<times> json) list \<Rightarrow> ('z pg_scheme, service_error, (string \<times> json) list) io"
and sanitize_items :: "string \<Rightarrow> json list \<Rightarrow> ('z pg_scheme, service_error, json list) io" where
  "sanitize_expand_tree t (JObj fs) = bindE (sanitize_fields t fs) (\<lambda>out. ret (JObj out))"
| "sanitize_expand_tree t (JArr vs) = bindE (sanitize_items t vs) (\<lambda>out. ret (JArr out))"
| "sanitize_expand_tree t other = ret other"
| "sanitize_fields t [] = ret []"
| "sanitize_fields t ((k, v) # fs) =
     bindE (if k = ''object'' then ret (sanitize_object_value t v)
            else if k = ''subject_id'' then sanitize_subject_id t v
            else sanitize_expand_tree t v) (\<lambda>v'.
     bindE (sanitize_fields t fs) (\<lambda>out. ret ((k, v') # out)))"
| "sanitize_items t [] = ret []"
| "sanitize_items t (v # vs) =
     bindE (sanitize_expand_tree t v) (\<lambda>v'. bindE (sanitize_items t vs) (\<lambda>out. ret (v' # out)))"

section \<open>Responses\<close>

record relation_tuple_proto =
  rt_id :: string
  rt_tenant_id :: string
  rt_namespace :: string
  rt_object :: string
  rt_relation :: string
  rt_subject_id :: string

definition into_proto :: "permission_tuple_row \<Rightarrow> relation_tuple_proto" where
  "into_proto r =
     \<lparr>rt_id = pt_id r, rt_tenant_id = pt_tenant_id r, rt_namespace = pt_namespace r, rt_object = pt_object r,
      rt_relation = pt_relation r, rt_subject_id = pt_subject_id r\<rparr>"

record namespace_proto =
  np_tenant_id :: string
  np_namespace :: string
  np_model :: json
  np_types :: "string list"
  np_created_at :: "timestamp option"
  np_updated_at :: "timestamp option"

definition json_to_struct :: "(json \<Rightarrow> json option) \<Rightarrow> json \<Rightarrow> json option" where
  "json_to_struct struct_of v = (if as_object v \<noteq> None then struct_of v else None)"

definition record_to_proto :: "(json \<Rightarrow> json option) \<Rightarrow> string \<Rightarrow> namespace_record \<Rightarrow> service_error + namespace_proto" where
  "record_to_proto struct_of tenant_id r =
     (case json_to_struct struct_of (nr_model r) of
        None \<Rightarrow> Inl (SE_Internal ''stored namespace model is not an object'')
      | Some model \<Rightarrow>
          Inr \<lparr>np_tenant_id = tenant_id, np_namespace = nr_namespace r, np_model = model, np_types = nr_types r,
               np_created_at = opt_timestamp (nr_created_at r), np_updated_at = opt_timestamp (nr_updated_at r)\<rparr>)"

section \<open>RPCs\<close>

text \<open>The guards: a tenant, and one of the two scopes to read or the admin scope to write.\<close>

definition reader :: "request_context \<Rightarrow> service_error + string" where
  "reader ctx =
     (case require_tenant ctx of
        Inl e \<Rightarrow> Inl e
      | Inr tenant_id \<Rightarrow>
          (case require_scope_any ctx [SCOPE_PERMISSION_READ, SCOPE_PERMISSION_ADMIN] of Inl e \<Rightarrow> Inl e | Inr _ \<Rightarrow> Inr tenant_id))"

definition admin :: "request_context \<Rightarrow> service_error + string" where
  "admin ctx =
     (case require_tenant ctx of
        Inl e \<Rightarrow> Inl e
      | Inr tenant_id \<Rightarrow> (case require_scope ctx SCOPE_PERMISSION_ADMIN of Inl e \<Rightarrow> Inl e | Inr _ \<Rightarrow> Inr tenant_id))"

definition check_permission ::
  "'s permission_service \<Rightarrow> request_context \<Rightarrow> string \<Rightarrow> string \<Rightarrow> string \<Rightarrow> string \<Rightarrow> proto_query_options
    \<Rightarrow> ('s, service_error, bool) io" where
  "check_permission svc ctx namespace object relation subject_id q =
     bindE (lift_result (reader ctx)) (\<lambda>tenant_id.
     bindE (lift_result (query_options_from (ps_debug svc) q)) (\<lambda>opts.
     peq (pb_check_permission (ps_backend svc) tenant_id namespace object relation subject_id opts)))"

definition create_relation_tuple ::
  "'z pg_scheme permission_service \<Rightarrow> request_context \<Rightarrow> string \<Rightarrow> string \<Rightarrow> string \<Rightarrow> string
    \<Rightarrow> ('z pg_scheme, service_error, relation_tuple_proto) io" where
  "create_relation_tuple svc ctx namespace object relation subject_id =
     bindE (lift_result (admin ctx)) (\<lambda>tenant_id.
     bindE (dbq (tuple_create tenant_id (namespace, object, relation, subject_id))) (\<lambda>row.
     bindE (peq (pb_create_relation_tuple (ps_backend svc) tenant_id namespace object relation subject_id)) (\<lambda>_.
     ret (into_proto row))))"

definition delete_relation_tuple ::
  "'z pg_scheme permission_service \<Rightarrow> request_context \<Rightarrow> string \<Rightarrow> ('z pg_scheme, service_error, unit) io" where
  "delete_relation_tuple svc ctx i =
     bindE (lift_result (admin ctx)) (\<lambda>tenant_id.
     bindE (dbq (tuple_get tenant_id i)) (\<lambda>row.
     bindE (peq (pb_delete_relation_tuple (ps_backend svc) tenant_id (pt_namespace row) (pt_object row) (pt_relation row)
               (pt_subject_id row))) (\<lambda>_.
     dbq (tuple_delete tenant_id i))))"

definition expand_permissions ::
  "'z pg_scheme permission_service \<Rightarrow> request_context \<Rightarrow> string \<Rightarrow> string \<Rightarrow> string \<Rightarrow> proto_query_options
    \<Rightarrow> ('z pg_scheme, service_error, string) io" where
  "expand_permissions svc ctx namespace object relation q =
     bindE (lift_result (reader ctx)) (\<lambda>tenant_id.
     bindE (lift_result (query_options_from (ps_debug svc) q)) (\<lambda>opts.
     bindE (peq (pb_expand (ps_backend svc) tenant_id namespace object relation opts)) (\<lambda>expanded.
     bindE (sanitize_expand_tree tenant_id expanded) (\<lambda>sanitized.
     ret (ps_json_string svc sanitized)))))"

definition expanded_objects :: "json \<Rightarrow> string list" where
  "expanded_objects v =
     (case Option.bind (json_get v ''relation_tuples'') as_array of
        Some tuples \<Rightarrow> List.map_filter (\<lambda>t. Option.bind (json_get t ''object'') as_str) tuples
      | None \<Rightarrow> [])"

record expand_objects_request =
  eo_namespace :: string
  eo_relation :: string
  eo_subject_id :: string
  eo_subject_set_namespace :: string
  eo_subject_set_object :: string
  eo_subject_set_relation :: string
  eo_max_depth :: int
  eo_options :: proto_query_options

definition expand_objects ::
  "'z pg_scheme permission_service \<Rightarrow> request_context \<Rightarrow> expand_objects_request
    \<Rightarrow> ('z pg_scheme, service_error, string list \<times> string) io" where
  "expand_objects svc ctx req =
     bindE (lift_result (reader ctx)) (\<lambda>tenant_id.
     bindE (lift_result (query_options_from (ps_debug svc) (eo_options req))) (\<lambda>opts.
     bindE (peq (pb_expand_objects (ps_backend svc) tenant_id (eo_namespace req) (eo_relation req)
               (nonempty_filter (eo_subject_id req)) (nonempty_filter (eo_subject_set_namespace req))
               (nonempty_filter (eo_subject_set_object req)) (nonempty_filter (eo_subject_set_relation req))
               (max_depth_filter (eo_max_depth req)) opts)) (\<lambda>expanded.
     bindE (sanitize_expand_tree tenant_id expanded) (\<lambda>sanitized.
     ret (expanded_objects sanitized, ps_json_string svc sanitized)))))"

definition list_relation_tuples ::
  "'z pg_scheme permission_service \<Rightarrow> request_context \<Rightarrow> string \<Rightarrow> string \<Rightarrow> string \<Rightarrow> page_request option
    \<Rightarrow> ('z pg_scheme, service_error, relation_tuple_proto list \<times> string \<times> nat) io" where
  "list_relation_tuples svc ctx namespace object relation page =
     bindE (lift_result (reader ctx)) (\<lambda>tenant_id.
     bindE (lift_result (page_params (ps_b64_decode svc) page)) (\<lambda>(limit, after).
     bindE (dbq (tuple_list_page tenant_id (nonempty_filter namespace) (nonempty_filter object) (nonempty_filter relation)
               limit after)) (\<lambda>(rows, total).
     ret (map into_proto rows,
          next_page_token (ps_b64_encode svc) (if rows = [] then None else Some (tuple_cursor (last rows))) (length rows) limit,
          min total (2 ^ 32 - 1)))))"

definition ensure_permission_namespace ::
  "'z pg_scheme permission_service \<Rightarrow> request_context \<Rightarrow> string \<Rightarrow> (string + json) option
    \<Rightarrow> ('z pg_scheme, service_error, namespace_proto) io" where
  "ensure_permission_namespace svc ctx namespace model =
     bindE (lift_result (admin ctx)) (\<lambda>tenant_id.
     bindE (lift_result (validate_namespace_name (ps_debug svc) namespace)) (\<lambda>_.
     bindE (lift_result (transpose_err (\<lambda>e. SE_InvalidArgument (''invalid model: '' @ e)) model)) (\<lambda>model_json.
     bindE (lift_result (ok_or (SE_InvalidArgument ''model is required'') model_json)) (\<lambda>model_json.
     bindE (lift_result (validate_and_normalize_model (ps_debug svc) model_json)) (\<lambda>model.
     bindE (peq (pg_repo_get tenant_id namespace)) (\<lambda>current.
     if (case current of Some r \<Rightarrow> json_eq (nr_model r) model | None \<Rightarrow> False)
     then lift_result (record_to_proto (ps_struct_of svc) tenant_id (the current))
     else bindE (peq (pb_ensure_model (ps_backend svc) tenant_id namespace model)) (\<lambda>_.
          bindE (peq (pg_repo_upsert tenant_id (metadata_record namespace model))) (\<lambda>r.
          lift_result (record_to_proto (ps_struct_of svc) tenant_id r)))))))))"

definition namespace_not_found :: "string \<Rightarrow> service_error" where
  "namespace_not_found namespace = SE_NotFound (''permission namespace not found: '' @ namespace)"

definition get_permission_namespace ::
  "'z pg_scheme permission_service \<Rightarrow> request_context \<Rightarrow> string \<Rightarrow> ('z pg_scheme, service_error, namespace_proto) io" where
  "get_permission_namespace svc ctx namespace =
     bindE (lift_result (reader ctx)) (\<lambda>tenant_id.
     bindE (peq (pg_repo_get tenant_id namespace)) (\<lambda>r.
     bindE (lift_result (ok_or (namespace_not_found namespace) r)) (\<lambda>r.
     lift_result (record_to_proto (ps_struct_of svc) tenant_id r))))"

definition list_permission_namespaces ::
  "'z pg_scheme permission_service \<Rightarrow> request_context \<Rightarrow> ('z pg_scheme, service_error, namespace_proto list \<times> nat) io" where
  "list_permission_namespaces svc ctx =
     bindE (lift_result (reader ctx)) (\<lambda>tenant_id.
     bindE (peq (pg_repo_list tenant_id)) (\<lambda>records.
     bindE (lift_result (collect_results (map (record_to_proto (ps_struct_of svc) tenant_id) records))) (\<lambda>namespaces.
     ret (namespaces, min (length records) (2 ^ 32 - 1)))))"

definition delete_permission_namespace ::
  "'z pg_scheme permission_service \<Rightarrow> request_context \<Rightarrow> string \<Rightarrow> ('z pg_scheme, service_error, unit) io" where
  "delete_permission_namespace svc ctx namespace =
     bindE (lift_result (admin ctx)) (\<lambda>tenant_id.
     bindE (peq (pg_repo_get tenant_id namespace)) (\<lambda>r.
     bindE (lift_result (ok_or (namespace_not_found namespace) r)) (\<lambda>_.
     bindE (peq (pb_delete_namespace (ps_backend svc) tenant_id namespace)) (\<lambda>_.
     bindE (dbq (tuple_delete_by_namespace tenant_id namespace)) (\<lambda>_.
     peq (pg_repo_delete tenant_id namespace))))))"

definition key_parts :: "relation_tuple_key \<Rightarrow> string \<times> string \<times> string \<times> string" where
  "key_parts k = (rk_namespace k, rk_object k, rk_relation k, rk_subject_id k)"

fun delete_mirrors :: "string \<Rightarrow> relation_tuple_key list \<Rightarrow> ('z pg_scheme, db_error, unit) io" where
  "delete_mirrors tenant_id [] = ret ()"
| "delete_mirrors tenant_id (k # ks) = bindE (tuple_delete_by_key tenant_id (key_parts k)) (\<lambda>_. delete_mirrors tenant_id ks)"

definition check_batch :: "proto_tuple_key list \<Rightarrow> proto_tuple_key list \<Rightarrow> service_error + unit" where
  "check_batch writes deletes =
     (if writes = [] \<and> deletes = [] then Inl (SE_InvalidArgument ''at least one tuple key is required'')
      else if MAX_BATCH_KEYS < length writes then Inl (SE_InvalidArgument ''writes exceeds the maximum of 100 tuple keys'')
      else if MAX_BATCH_KEYS < length deletes then Inl (SE_InvalidArgument ''deletes exceeds the maximum of 100 tuple keys'')
      else Inr ())"

definition write_relation_tuples ::
  "'z pg_scheme permission_service \<Rightarrow> request_context \<Rightarrow> proto_tuple_key list \<Rightarrow> proto_tuple_key list
    \<Rightarrow> ('z pg_scheme, service_error, nat \<times> nat) io" where
  "write_relation_tuples svc ctx req_writes req_deletes =
     bindE (lift_result (admin ctx)) (\<lambda>tenant_id.
     bindE (lift_result (check_batch req_writes req_deletes)) (\<lambda>_.
     bindE (lift_result (collect_results (map tuple_key_from_proto req_writes))) (\<lambda>writes.
     bindE (lift_result (collect_results (map tuple_key_from_proto req_deletes))) (\<lambda>deletes.
     bindE (peq (pb_write_tuples (ps_backend svc) tenant_id writes deletes)) (\<lambda>_.
     bindE (dbq (tuple_create_many tenant_id (map key_parts writes))) (\<lambda>_.
     bindE (dbq (delete_mirrors tenant_id deletes)) (\<lambda>_.
     ret (length writes, length deletes))))))))"

definition list_users ::
  "'s permission_service \<Rightarrow> request_context \<Rightarrow> string \<Rightarrow> string \<Rightarrow> string \<Rightarrow> string list \<Rightarrow> proto_query_options
    \<Rightarrow> ('s, service_error, string list) io" where
  "list_users svc ctx namespace object relation user_type_filters q =
     bindE (lift_result (reader ctx)) (\<lambda>tenant_id.
     bindE (lift_result (query_options_from (ps_debug svc) q)) (\<lambda>opts.
     peq (pb_list_users (ps_backend svc) tenant_id namespace object relation user_type_filters opts)))"

section \<open>Tenants stay apart\<close>

text \<open>What the permission tables hold for every tenant but one.\<close>

definition foreign_rows :: "string \<Rightarrow> database \<Rightarrow> permission_tuple_row list \<times> namespace_row list \<times> namespace_type_row list" where
  "foreign_rows t db =
     (filter (\<lambda>r. pt_tenant_id r \<noteq> t) (permission_tuples db), filter (\<lambda>n. ns_tenant_id n \<noteq> t) (permission_namespaces db),
      filter (\<lambda>r. nt_tenant_id r \<noteq> t) (permission_namespace_types db))"

lemma filter_map2_none: "(\<And>i k. \<not> P (f i k)) \<Longrightarrow> filter P (map2 f xs ys) = []"
  by (auto simp: filter_empty_conv)

lemma stmt_keeps_foreign_tuples [stmt_rules]:
  "stmt_keeps (\<lambda>db. foreign_rows t db = X) (tuples_insert_stmt ids t ks)"
  "(\<And>r. hit r \<Longrightarrow> pt_tenant_id r = t) \<Longrightarrow> stmt_keeps (\<lambda>db. foreign_rows t db = X) (tuples_delete_stmt hit)"
proof -
  have none: "filter (\<lambda>r. pt_tenant_id r \<noteq> t) (map2 (\<lambda>i k. tuple_row i t k now) ids ks) = []" for now
    by (rule filter_map2_none) (simp add: tuple_row_def split: prod.splits)
  show "stmt_keeps (\<lambda>db. foreign_rows t db = X) (tuples_insert_stmt ids t ks)"
    by (rule stmt_keepsI) (simp add: tuples_insert_stmt_def Let_def violates_def foreign_rows_def none)
  show "stmt_keeps (\<lambda>db. foreign_rows t db = X) (tuples_delete_stmt hit)" if "\<And>r. hit r \<Longrightarrow> pt_tenant_id r = t"
    using that by (intro stmt_keepsI) (auto simp: tuples_delete_stmt_def foreign_rows_def intro!: filter_cong)
qed

lemma sync_types_foreign: "filter (\<lambda>r. nt_tenant_id r \<noteq> t) (sync_types t ns index rows) = filter (\<lambda>r. nt_tenant_id r \<noteq> t) rows"
  by (auto simp: sync_types_def Let_def filter_empty_conv filter_map comp_def intro!: filter_cong)

lemma stmt_keeps_foreign_namespaces [stmt_rules]:
  "stmt_keeps (\<lambda>db. foreign_rows t db = X) (namespace_upsert_stmt t ns model si mi)"
  "stmt_keeps (\<lambda>db. foreign_rows t db = X) (namespace_delete_stmt t ns)"
proof -
  have upd: "filter (\<lambda>n. ns_tenant_id n \<noteq> t) (map (\<lambda>n. if ns_key n = (t, ns) then row else n) rows) = filter (\<lambda>n. ns_tenant_id n \<noteq> t) rows"
    if "ns_tenant_id row = t" for rows row
    using that by (induction rows) (auto simp: ns_key_def)
  show "stmt_keeps (\<lambda>db. foreign_rows t db = X) (namespace_upsert_stmt t ns model si mi)"
  proof (rule stmt_keepsI)
    fix now db
    assume I: "foreign_rows t db = X"
    show "foreign_rows t (snd (namespace_upsert_stmt t ns model si mi now db)) = X"
    proof (cases rule: upsert_cases [of t ns model db si mi now])
      case (stored row rows)
      then have "ns_tenant_id row = t" using put_namespace_key(1) [OF refl, of t ns model si mi now db] by (simp add: ns_key_def)
      with stored I upd show ?thesis
        by (simp add: foreign_rows_def Let_def sync_types_foreign split: option.splits)
    qed (use I in \<open>simp_all add: violates_def\<close>)
  qed
  show "stmt_keeps (\<lambda>db. foreign_rows t db = X) (namespace_delete_stmt t ns)"
    by (rule stmt_keepsI) (auto simp: namespace_delete_stmt_def foreign_rows_def ns_key_def intro!: filter_cong)
qed

lemma keeps_fga_call_db [keeps_rules]: "keeps (\<lambda>w. J (pg_db w)) (fga_call c meth url query body)"
  by (rule keepsI, erule fga_call_cases) (auto dest: fga_frame_pg(1))

lemma keeps_repo_db [keeps_rules]:
  "keeps (\<lambda>w. J (pg_db w)) (pg_repo_get t ns)" "keeps (\<lambda>w. J (pg_db w)) (resolve_mapping t ns)"
  unfolding resolve_mapping_def pg_repo_get_def pg_repo_get_by_type_def pg_namespace_get_by_type_def pg_namespace_get_def Let_def
  by (auto intro!: keeps_rules split: option.splits)

lemma keeps_foreign_upsert [keeps_rules]:
  "keeps (\<lambda>w. foreign_rows t (pg_db w) = X) (pg_repo_upsert t r)" "keeps (\<lambda>w. foreign_rows t (pg_db w) = X) (pg_repo_delete t ns)"
  unfolding pg_repo_upsert_def pg_repo_delete_def pg_namespace_upsert_def pg_namespace_delete_def
  by (intro keeps_rules stmt_rules)+

lemma keeps_foreign_ensure_model:
  "keeps (\<lambda>w. foreign_rows t (pg_db w) = X) (fga_ensure_model b t ns model)"
  unfolding fga_ensure_model_def fga_provision_def persist_record_def
  by (auto intro!: keeps_rules keeps_store_calls split: option.splits)

lemmas keeps_foreign_backend =
  keeps_backend_calls [where I = "\<lambda>w. foreign_rows t (pg_db w) = X" for t X, OF keeps_fga_call_db [where J = "\<lambda>db. foreign_rows t db = X" for t X]
    keeps_repo_db(1) [where J = "\<lambda>db. foreign_rows t db = X" for t X] keeps_repo_db(2) [where J = "\<lambda>db. foreign_rows t db = X" for t X]]
  keeps_foreign_ensure_model

text \<open>The RPCs that change something, as one type.\<close>

datatype permission_rpc =
    CreateRelationTuple string string string string
  | DeleteRelationTuple string
  | EnsurePermissionNamespace string "(string + json) option"
  | DeletePermissionNamespace string
  | WriteRelationTuples "proto_tuple_key list" "proto_tuple_key list"

definition run_permission_rpc ::
  "'z pg_scheme permission_service \<Rightarrow> request_context \<Rightarrow> permission_rpc \<Rightarrow> 'z pg_scheme \<Rightarrow> 'z pg_scheme" where
  "run_permission_rpc svc ctx rpc w =
     (case rpc of
        CreateRelationTuple ns obj rel sub \<Rightarrow> snd (create_relation_tuple svc ctx ns obj rel sub w)
      | DeleteRelationTuple i \<Rightarrow> snd (delete_relation_tuple svc ctx i w)
      | EnsurePermissionNamespace ns model \<Rightarrow> snd (ensure_permission_namespace svc ctx ns model w)
      | DeletePermissionNamespace ns \<Rightarrow> snd (delete_permission_namespace svc ctx ns w)
      | WriteRelationTuples ws ds \<Rightarrow> snd (write_relation_tuples svc ctx ws ds w))"

lemma keeps_foreign_tuples [keeps_rules]:
  "keeps (\<lambda>w. foreign_rows t (pg_db w) = X) (tuple_create t k)" "keeps (\<lambda>w. foreign_rows t (pg_db w) = X) (tuple_create_many t ks)"
  "keeps (\<lambda>w. foreign_rows t (pg_db w) = X) (tuple_get t i)" "keeps (\<lambda>w. foreign_rows t (pg_db w) = X) (tuple_delete t i)"
  "keeps (\<lambda>w. foreign_rows t (pg_db w) = X) (tuple_delete_by_namespace t ns)"
  "keeps (\<lambda>w. foreign_rows t (pg_db w) = X) (delete_mirrors t ds)"
proof -
  have ulids: "keeps (\<lambda>w. foreign_rows t (pg_db w) = X) (ulids_new n)" for n
    by (induction n) (auto intro!: keeps_rules)
  show "keeps (\<lambda>w. foreign_rows t (pg_db w) = X) (tuple_create_many t ks)"
    unfolding tuple_create_many_def by (intro keeps_rules stmt_rules ulids)
  show "keeps (\<lambda>w. foreign_rows t (pg_db w) = X) (delete_mirrors t ds)"
    by (induction ds) (auto simp: tuple_delete_by_key_def intro!: keeps_rules stmt_rules)
qed (auto simp: tuple_create_def tuple_get_def tuple_delete_def tuple_delete_by_namespace_def intro!: keeps_rules stmt_rules)

lemma admin_Inr:
  "admin ctx = Inr t \<longleftrightarrow> rx_tenant ctx = Some t \<and> (\<exists>a. rx_auth ctx = Some a \<and> SCOPE_PERMISSION_ADMIN \<in> set (ac_scopes a))"
  by (cases "require_tenant ctx"; cases "require_scope ctx SCOPE_PERMISSION_ADMIN")
     (auto simp: admin_def require_tenant_def require_scope_def require_auth_def ok_or_def split: option.splits if_splits)

text \<open>
  \<^bold>\<open>C28.\<close> Permissions of tenants stay apart: a mutating RPC of the permission service over the OpenFGA
  backend changes nothing at all unless the caller has a tenant and \<^verbatim>\<open>permission:admin\<close>; and, with
  faults at any query, it leaves the mirrored tuples, the namespaces and the type index of every
  tenant but the caller's as they were.
\<close>

theorem permission_rpc_confined:
  assumes "ps_backend svc = openfga b"
  shows "(run_permission_rpc svc ctx rpc w \<noteq> w \<longrightarrow>
           (\<exists>a. rx_auth ctx = Some a \<and> SCOPE_PERMISSION_ADMIN \<in> set (ac_scopes a)) \<and> rx_tenant ctx \<noteq> None)
    \<and> (\<forall>t. rx_tenant ctx = Some t \<longrightarrow> foreign_rows t (pg_db (run_permission_rpc svc ctx rpc w)) = foreign_rows t (pg_db w))"
proof (cases "admin ctx")
  case (Inl e)
  then show ?thesis
    by (cases rpc) (simp_all add: run_permission_rpc_def create_relation_tuple_def delete_relation_tuple_def
        ensure_permission_namespace_def delete_permission_namespace_def write_relation_tuples_def lift_result_def bindE_def admin_Inr [symmetric])
next
  case (Inr t)
  have passed: "lift_result (admin ctx) = ret t" by (simp add: Inr lift_result_def ret_def)
  let ?I = "\<lambda>v. foreign_rows t (pg_db v) = foreign_rows t (pg_db w)"
  have "?I (run_permission_rpc svc ctx rpc w)"
  proof (cases rpc)
    case (CreateRelationTuple ns obj rel sub)
    have "keeps ?I (create_relation_tuple svc ctx ns obj rel sub)"
      by (simp add: create_relation_tuple_def passed assms openfga_def) (intro keeps_rules keeps_foreign_backend)
    from keepsD_snd [OF this, of w] show ?thesis by (simp add: CreateRelationTuple run_permission_rpc_def)
  next
    case (DeleteRelationTuple i)
    have "keeps ?I (delete_relation_tuple svc ctx i)"
      by (simp add: delete_relation_tuple_def passed assms openfga_def) (intro keeps_rules keeps_foreign_backend)
    from keepsD_snd [OF this, of w] show ?thesis by (simp add: DeleteRelationTuple run_permission_rpc_def)
  next
    case (EnsurePermissionNamespace ns model)
    have "keeps ?I (ensure_permission_namespace svc ctx ns model)"
      by (simp add: ensure_permission_namespace_def passed assms openfga_def cong: if_cong) (intro keeps_rules keeps_foreign_backend)
    from keepsD_snd [OF this, of w] show ?thesis by (simp add: EnsurePermissionNamespace run_permission_rpc_def)
  next
    case (DeletePermissionNamespace ns)
    have "keeps ?I (delete_permission_namespace svc ctx ns)"
      by (simp add: delete_permission_namespace_def passed assms openfga_def) (intro keeps_rules keeps_foreign_backend)
    from keepsD_snd [OF this, of w] show ?thesis by (simp add: DeletePermissionNamespace run_permission_rpc_def)
  next
    case (WriteRelationTuples ws ds)
    have "keeps ?I (write_relation_tuples svc ctx ws ds)"
      by (simp add: write_relation_tuples_def passed assms openfga_def) (intro keeps_rules keeps_foreign_backend)
    from keepsD_snd [OF this, of w] show ?thesis by (simp add: WriteRelationTuples run_permission_rpc_def)
  qed
  then show ?thesis using Inr by (auto simp: admin_Inr)
qed

section \<open>The mirror\<close>

definition mirror_keys :: "string \<Rightarrow> database \<Rightarrow> (string \<times> string \<times> string \<times> string) set" where
  "mirror_keys t db = set (map pt_key (filter (\<lambda>r. pt_tenant_id r = t) (permission_tuples db)))"

lemma ulids_new_Inr: "ulids_new n w = (r :: db_error + string list, v) \<Longrightarrow> pg_db v = pg_db w \<and> (\<forall>ids. r = Inr ids \<longrightarrow> length ids = n)"
proof (induction n arbitrary: w r v)
  case (Suc n)
  obtain i u where i: "ulid_new w = (Inr i :: db_error + string, u)" "pg_db u = pg_db w" by (simp add: ulid_new_def)
  obtain y x where run: "ulids_new n u = (y :: db_error + string list, x)" by fastforce
  with Suc.IH [OF run] Suc.prems i show ?case by (cases y) (auto simp: bindE_def ret_def)
qed (simp add: ret_def)

lemma inserted_rows:
  "length ids = length ks \<Longrightarrow> map pt_key (filter (\<lambda>r. pt_tenant_id r = t) (map2 (\<lambda>i k. tuple_row i t k now) ids ks)) = ks"
proof (induction ids ks rule: list_induct2)
  case (Cons i ids k ks)
  have "pt_key (tuple_row i t k now) = k" "pt_tenant_id (tuple_row i t k now) = t"
    by (simp_all add: tuple_row_def pt_key_def split: prod.splits)
  then show ?case using Cons.IH by simp
qed simp

lemma insert_stmt_Inr:
  "fst (tuples_insert_stmt ids t ks now db) = Inr rows
   \<Longrightarrow> permission_tuples (snd (tuples_insert_stmt ids t ks now db)) = permission_tuples db @ map2 (\<lambda>i k. tuple_row i t k now) ids ks"
  by (simp add: tuples_insert_stmt_def Let_def violates_def split: if_splits)

lemma image_except: "f ` {x \<in> {x \<in> S. \<not> (P x \<and> f x = d)}. P x} = f ` {x \<in> S. P x} - {d}"
  by auto

lemma tuple_create_many_Inr:
  assumes "tuple_create_many t ks w = (Inr rows, v)"
  shows "mirror_keys t (pg_db v) = mirror_keys t (pg_db w) \<union> set ks"
proof (cases "ks = []")
  case False
  then obtain ids u where ids: "ulids_new (length ks) w = (Inr ids :: db_error + string list, u)"
    and run: "pg_exec (tuples_insert_stmt ids t ks) u = (Inr rows, v)"
    using assms by (auto simp: tuple_create_many_def run_simps)
  note db = ulids_new_Inr [OF ids]
  have "permission_tuples (pg_db v) = permission_tuples (pg_db w) @ map2 (\<lambda>i k. tuple_row i t k (pg_now u)) ids ks"
    using pg_exec_Inr [OF run] db insert_stmt_Inr [of ids t ks "pg_now u" "pg_db u"] by simp
  then show ?thesis
    using inserted_rows [of ids ks t "pg_now u"] db unfolding mirror_keys_def by (simp only: filter_append map_append set_append)
qed (use assms in \<open>simp add: tuple_create_many_def ret_def\<close>)

lemma delete_mirrors_Inr:
  "delete_mirrors t ds w = (Inr (), v) \<Longrightarrow> mirror_keys t (pg_db v) = mirror_keys t (pg_db w) - key_parts ` set ds"
proof (induction ds arbitrary: w)
  case (Cons d ds)
  then obtain n u where run: "pg_exec (tuples_delete_stmt (\<lambda>r. pt_tenant_id r = t \<and> pt_key r = key_parts d)) w = (Inr n, u)"
    and rest: "delete_mirrors t ds u = (Inr (), v)"
    by (auto simp: run_simps tuple_delete_by_key_def)
  have "permission_tuples (pg_db u) = filter (\<lambda>r. \<not> (pt_tenant_id r = t \<and> pt_key r = key_parts d)) (permission_tuples (pg_db w))"
    using pg_exec_Inr [OF run] by (simp add: tuples_delete_stmt_def)
  then have "mirror_keys t (pg_db u) = mirror_keys t (pg_db w) - {key_parts d}"
    unfolding mirror_keys_def by (simp only: set_map set_filter image_except)
  then show ?case unfolding Cons.IH [OF rest] by (simp only: list.set image_insert) blast
qed (simp add: ret_def)

lemma keeps_fga_mirror:
  "keeps (\<lambda>w. P (fw_fga w)) (tuple_create_many t ks)" "keeps (\<lambda>w. P (fw_fga w)) (delete_mirrors t ds)"
proof -
  have ulid: "keeps (\<lambda>w. P (fw_fga w)) ulid_new" by (simp add: keeps_def ulid_new_def)
  have ulids: "keeps (\<lambda>w. P (fw_fga w)) (ulids_new n)" for n by (induction n) (auto intro!: keeps_rules ulid)
  show "keeps (\<lambda>w. P (fw_fga w)) (tuple_create_many t ks)"
    unfolding tuple_create_many_def by (intro keeps_rules ulids keeps_fga_pg)
  show "keeps (\<lambda>w. P (fw_fga w)) (delete_mirrors t ds)"
    by (induction ds) (auto simp: tuple_delete_by_key_def intro!: keeps_rules keeps_fga_pg)
qed

text \<open>
  A batch write reaches store and mirror alike: when \<^verbatim>\<open>WriteRelationTuples\<close> succeeds the request
  had between one and a hundred keys per direction at most, all of them complete; the tenant's
  stores hold what they held without the deletes and with the writes, and the tenant's mirror
  holds the keys it held and the writes, without the deletes.
\<close>

theorem write_relation_tuples_mirrored:
  assumes "ps_backend svc = openfga b" and "writes_tuples (ob_client b) listing" and "order_ok b"
    and "rx_tenant ctx = Some t" and "write_relation_tuples svc ctx rws rds w = (Inr n, v)"
  shows "\<exists>ws ds. collect_results (map tuple_key_from_proto rws) = Inr ws \<and> collect_results (map tuple_key_from_proto rds) = Inr ds
    \<and> n = (length ws, length ds) \<and> length ws \<le> 100 \<and> length ds \<le> 100 \<and> 0 < length rws + length rds
    \<and> (\<forall>s. set (listing (fw_fga v) s) = (set (listing (fw_fga w) s) - keys_in (pg_db w) t s ds) \<union> keys_in (pg_db w) t s ws)
    \<and> mirror_keys t (pg_db v) = (mirror_keys t (pg_db w) \<union> key_parts ` set ws) - key_parts ` set ds"
proof -
  have t: "admin ctx = Inr t" using assms(4,5) by (cases "admin ctx") (auto simp: write_relation_tuples_def run_simps admin_Inr)
  obtain ws ds w1 w2 rows where batch: "check_batch rws rds = Inr ()"
    and ws: "collect_results (map tuple_key_from_proto rws) = Inr ws" and ds: "collect_results (map tuple_key_from_proto rds) = Inr ds"
    and wr: "fga_write_tuples b t ws ds w = (Inr (), w1)" and mk: "tuple_create_many t (map key_parts ws) w1 = (Inr rows, w2)"
    and del: "delete_mirrors t ds w2 = (Inr (), v)" and n: "n = (length ws, length ds)"
    using assms(1,5) t by (auto simp: write_relation_tuples_def run_simps openfga_def)
  have len: "length ws = length rws" "length ds = length rds" using collect_results_length ws ds by fastforce+
  note store = write_tuples_result [OF assms(2,3) wr]
  have "fw_fga v = fw_fga w1"
    using keepsD [OF keeps_fga_mirror(1) [where P = "\<lambda>f. f = fw_fga w1"] refl mk]
      keepsD [OF keeps_fga_mirror(2) [where P = "\<lambda>f. f = fw_fga w2"] refl del] by simp
  moreover have "mirror_keys t (pg_db v) = (mirror_keys t (pg_db w) \<union> key_parts ` set ws) - key_parts ` set ds"
    using delete_mirrors_Inr [OF del] tuple_create_many_Inr [OF mk] store(1) by simp
  ultimately show ?thesis
    using ws ds n len batch store(3) by (auto simp: check_batch_def MAX_BATCH_KEYS_def split: if_splits)
qed

section \<open>Models in canonical form\<close>

lemma check_definitions_Inr:
  "check_definitions debug seen defs = Inr () \<longleftrightarrow>
     (\<forall>def \<in> set defs. \<exists>ty. type_name def = Some ty \<and> is_valid_type_name ty)
     \<and> distinct (map definition_name defs) \<and> definition_name ` set defs \<inter> set seen = {}"
proof (induction debug seen defs rule: check_definitions.induct)
  case (2 debug seen def defs)
  show ?case
  proof (cases "type_name def")
    case (Some ty)
    then have "definition_name def = ty" by (simp add: definition_name_def opt_text_def)
    then show ?thesis using 2 [OF Some] Some by auto
  qed simp
qed simp

lemma normalized_Inr:
  assumes "Option.bind (json_get model ''type_definitions'') as_array = Some defs"
  shows "validate_and_normalize_model debug model = Inr m \<longleftrightarrow>
     as_object model \<noteq> None \<and> opt_text (Option.bind (json_get model ''schema_version'') as_str) \<noteq> [] \<and> defs \<noteq> []
     \<and> check_definitions debug [] defs = Inr () \<and> m = json_set model ''type_definitions'' (JArr (sort_key definition_name defs))"
  using assms by (auto simp: validate_and_normalize_model_def split: sum.splits)

lemma json_set_again: "json_set (json_set (JObj fs) k a) k b = json_set (JObj fs) k b"
  by simp

text \<open>
  Normal forms are canonical: a model that passes validation comes back with the same type
  definitions in strictly ascending order of their valid, distinct names and everything else
  untouched; every permutation of its type definitions passes and has the same normal form; and
  a normal form is its own.
\<close>

theorem model_normal_form:
  assumes "validate_and_normalize_model debug model = Inr m" and "json_get model ''type_definitions'' = Some (JArr defs)"
    and "mset defs' = mset defs"
  shows "type_definitions m = sort_key definition_name defs \<and> sorted (map definition_name (type_definitions m))
    \<and> distinct (map definition_name (type_definitions m)) \<and> (\<forall>def \<in> set defs. is_valid_type_name (definition_name def))
    \<and> (\<forall>k. k \<noteq> ''type_definitions'' \<longrightarrow> json_get m k = json_get model k)
    \<and> validate_and_normalize_model debug (json_set model ''type_definitions'' (JArr defs')) = Inr m
    \<and> validate_and_normalize_model debug m = Inr m"
proof -
  have bound: "Option.bind (json_get model ''type_definitions'') as_array = Some defs" using assms(2) by simp
  obtain fs where fs: "model = JObj fs" using assms(2) by (cases model) auto
  note ok = assms(1) [unfolded normalized_Inr [OF bound]]
  have m: "m = json_set model ''type_definitions'' (JArr (sort_key definition_name defs))" and ne: "defs \<noteq> []"
    and chk: "check_definitions debug [] defs = Inr ()" using ok by blast+
  have perm: "validate_and_normalize_model debug (json_set model ''type_definitions'' (JArr ds)) = Inr m" if ds: "mset ds = mset defs" for ds
  proof -
    let ?md = "json_set model ''type_definitions'' (JArr ds)"
    have set: "set ds = set defs" using ds by (metis set_mset_mset)
    have dist: "distinct (map definition_name ds) \<longleftrightarrow> distinct (map definition_name defs)"
      using ds by (intro mset_eq_imp_distinct_iff) simp
    then have "check_definitions debug [] ds = Inr ()" using chk set by (simp add: check_definitions_Inr)
    moreover have "sort_key definition_name ds = sort_key definition_name defs"
      using ds chk set by (intro sort_key_inj_key_eq) (simp_all add: check_definitions_Inr distinct_map)
    moreover have "json_get ?md ''schema_version'' = json_get model ''schema_version''"
      using json_get_set_other [of "''schema_version''" "''type_definitions''"] fs by simp
    moreover have "ds \<noteq> []" using set ne by auto
    moreover have bd: "Option.bind (json_get ?md ''type_definitions'') as_array = Some ds" using fs by simp
    ultimately show ?thesis unfolding normalized_Inr [OF bd] using ok m fs by (simp add: json_set_again)
  qed
  have defs_m: "type_definitions m = sort_key definition_name defs" using m fs by (simp add: type_definitions_def)
  have "validate_and_normalize_model debug m = Inr m" using perm [of "sort_key definition_name defs"] m by simp
  moreover have "\<forall>def \<in> set defs. is_valid_type_name (definition_name def)"
    using chk by (auto simp: check_definitions_Inr definition_name_def opt_text_def)
  moreover have "distinct (map definition_name (sort_key definition_name defs))"
    using chk by (simp add: check_definitions_Inr distinct_map)
  moreover have "json_get m k = json_get model k" if "k \<noteq> ''type_definitions''" for k
    using json_get_set_other [OF that] m fs by simp
  ultimately show ?thesis using perm [OF assms(3)] defs_m by simp
qed

definition two_types :: "json list" where
  "two_types = [JObj [(''type'', JStr ''page''), (''relations'', JObj [(''viewer'', JObj [])])], JObj [(''type'', JStr ''group'')]]"

definition unsorted_model :: json where
  "unsorted_model = JObj [(''schema_version'', JStr ''1.1''), (''type_definitions'', JArr two_types)]"

theorem model_normal_form_witness:
  "\<exists>m. validate_and_normalize_model (\<lambda>s. s) unsorted_model = Inr m
     \<and> map definition_name (type_definitions m) = [''group'', ''page''] \<and> validate_and_normalize_model (\<lambda>s. s) m = Inr m
     \<and> validate_and_normalize_model (\<lambda>s. s) (json_set unsorted_model ''type_definitions'' (JArr (rev two_types))) = Inr m"
proof -
  have "isl (validate_and_normalize_model (\<lambda>s. s) unsorted_model) = False" by code_simp
  then obtain m where m: "validate_and_normalize_model (\<lambda>s. s) unsorted_model = Inr m" by (cases "validate_and_normalize_model (\<lambda>s. s) unsorted_model") auto
  have d: "json_get unsorted_model ''type_definitions'' = Some (JArr two_types)" by (simp add: unsorted_model_def)
  note nf = model_normal_form [OF m d, of "rev two_types"]
  have "map definition_name (sort_key definition_name two_types) = [''group'', ''page'']" by code_simp
  then show ?thesis using nf m by simp
qed

section \<open>Witnesses of the service\<close>

definition sample_permissions :: "fga_tuple list fga_world permission_service" where
  "sample_permissions =
     \<lparr>ps_backend = openfga sample_backend, ps_b64_encode = (\<lambda>s. s), ps_b64_decode = Some, ps_json_string = (\<lambda>_. []),
      ps_struct_of = Some, ps_debug = (\<lambda>s. s)\<rparr>"

definition admin_ctx :: "string \<Rightarrow> request_context" where
  "admin_ctx t =
     \<lparr>rx_auth = Some \<lparr>ac_tenant_id = t, ac_subject = ''root'', ac_subject_type = Client, ac_actor = None,
        ac_scopes = [SCOPE_PERMISSION_ADMIN], ac_token_hash = [], ac_authentication_methods = []\<rparr>, rx_tenant = Some t\<rparr>"

theorem permission_rpc_confined_witness:
  "ps_backend sample_permissions = openfga sample_backend
   \<and> foreign_rows ''T'' (pg_db (run_permission_rpc sample_permissions (admin_ctx ''T'')
       (CreateRelationTuple ''entitlements'' ''app'' ''member'' ''u'') (entitled_world [])))
     = foreign_rows ''T'' (pg_db (entitled_world []))
   \<and> run_permission_rpc sample_permissions \<lparr>rx_auth = None, rx_tenant = Some ''T''\<rparr> (DeletePermissionNamespace ''entitlements'') (entitled_world [])
     = entitled_world []"
proof -
  have be: "ps_backend sample_permissions = openfga sample_backend" by (simp add: sample_permissions_def)
  show ?thesis
    using be permission_rpc_confined [OF be, of "admin_ctx ''T''" "CreateRelationTuple ''entitlements'' ''app'' ''member'' ''u''" "entitled_world []"]
      permission_rpc_confined [OF be, of "\<lparr>rx_auth = None, rx_tenant = Some ''T''\<rparr>" "DeletePermissionNamespace ''entitlements''" "entitled_world []"]
    by (auto simp: admin_ctx_def)
qed

definition proto_key :: "string \<Rightarrow> string \<Rightarrow> string \<Rightarrow> string \<Rightarrow> proto_tuple_key" where
  "proto_key ns obj rel sub =
     \<lparr>pk_namespace = ns, pk_object = obj, pk_relation = rel, pk_subject_id = sub, pk_condition = [], pk_condition_context = None\<rparr>"

theorem write_relation_tuples_mirrored_witness:
  "\<exists>v. write_relation_tuples sample_permissions (admin_ctx ''T'') [proto_key ''entitlements'' ''app'' ''member'' ''u''] [] (entitled_world [])
         = (Inr (1, 0), v)
     \<and> mirror_keys ''T'' (pg_db v) = {(''entitlements'', ''app'', ''member'', ''u'')}
     \<and> set (sample_listing (fw_fga v) ''s'') = {(''user:u'', ''member'', ''entitlements:app'')}"
proof -
  let ?k = "plain_key ''entitlements'' ''app'' ''member'' ''u''"
  let ?run = "write_relation_tuples sample_permissions (admin_ctx ''T'') [proto_key ''entitlements'' ''app'' ''member'' ''u''] [] (entitled_world [])"
  obtain x v where run: "?run = (x, v)" by fastforce
  have "isl (fst ?run) = False" by code_simp
  then obtain n where x: "x = Inr n" using run by (cases x) auto
  have be: "ps_backend sample_permissions = openfga sample_backend" by (simp add: sample_permissions_def)
  have wr: "writes_tuples (ob_client sample_backend) sample_listing" using sample_store_ok by (simp add: fga_store_ok_def)
  have t: "rx_tenant (admin_ctx ''T'') = Some ''T''" by (simp add: admin_ctx_def)
  have k: "collect_results (map tuple_key_from_proto [proto_key ''entitlements'' ''app'' ''member'' ''u'']) = Inr [?k]"
    by (simp add: tuple_key_from_proto_def proto_key_def plain_key_def transpose_err_def)
  from write_relation_tuples_mirrored [OF be wr sample_order_ok t run [unfolded x]] k
  have n: "n = (1, 0)" and store: "set (sample_listing (fw_fga v) ''s'') = set (sample_listing [] ''s'') - keys_in (pg_db (entitled_world [])) ''T'' ''s'' []
      \<union> keys_in (pg_db (entitled_world [])) ''T'' ''s'' [?k]"
    and mir: "mirror_keys ''T'' (pg_db v) = mirror_keys ''T'' entitled_db \<union> key_parts ` set [?k] - key_parts ` set []"
    by auto
  have "set (sample_listing (fw_fga v) ''s'') = {(''user:u'', ''member'', ''entitlements:app'')}"
    unfolding store keys_in_nil sample_key_in sample_key_triple by (simp add: sample_listing_def)
  moreover have "mirror_keys ''T'' (pg_db v) = {(''entitlements'', ''app'', ''member'', ''u'')}"
    using mir by (simp add: mirror_keys_def entitled_db_def empty_db_def key_parts_def plain_key_def)
  ultimately show ?thesis using run x n by blast
qed

section \<open>Tuples that are refused\<close>

lemma tuple_create_no_fault:
  assumes "pg_fault w (pg_queries w) = None" and "tenant_exists (pg_db w) t"
    and "pg_ulid w (pg_ulids w) \<notin> pt_id ` set (permission_tuples (pg_db w))"
  shows "\<exists>v. tuple_create t k w = (Inr (tuple_row (pg_ulid w (pg_ulids w)) t k (pg_now w)), v)
    \<and> pg_db v = (pg_db w)\<lparr>permission_tuples := permission_tuples (pg_db w) @ [tuple_row (pg_ulid w (pg_ulids w)) t k (pg_now w)]\<rparr>
    \<and> pg_fault v = pg_fault w \<and> pg_queries v = Suc (pg_queries w)"
  using assms by (simp add: tuple_create_def ulid_new_def bindE_def ret_def pg_exec_no_fault tuples_insert_stmt_def Let_def)

lemma mapping_of_tuples: "mapping_of (db\<lparr>permission_tuples := rows\<rparr>) t ns = mapping_of db t ns"
proof -
  have "find_namespace (db\<lparr>permission_tuples := rows\<rparr>) = find_namespace db" by (intro ext) (simp add: find_namespace_def)
  then show ?thesis by (simp add: mapping_of_def find_type_owner_def cong: option.case_cong)
qed

lemma keeps_fault_resolve: "keeps (\<lambda>w. P (pg_fault w)) (resolve_mapping t ns)"
proof -
  have "keeps (\<lambda>w. P (pg_fault w)) (pg_query q)" for q
    by (simp add: keeps_def pg_query_def pg_exec_def Let_def split: prod.splits option.splits fault.splits)
  then show ?thesis
    unfolding resolve_mapping_def pg_repo_get_by_type_def pg_namespace_get_by_type_def pg_namespace_get_def Let_def
    by (auto intro!: keeps_rules split: option.splits)
qed

lemma resolve_unmapped:
  assumes "mapping_of (pg_db w) t ns = None" and "\<And>n. pg_fault w n = None"
  shows "\<exists>v. resolve_mapping t ns w = (Inl (PE_NamespaceNotConfigured (''tenant '' @ t @ '' namespace '' @ ns @ '' has no OpenFGA store/model'')), v)
    \<and> pg_db v = pg_db w"
proof -
  have none: "Option.bind (find_type_owner (pg_db w) t ns) (find_namespace (pg_db w) t) = None" "find_namespace (pg_db w) t ns = None"
    using assms(1) by (auto simp: mapping_of_def split: option.splits)
  show ?thesis
    using assms(2) none
    by (simp add: resolve_mapping_def pg_repo_get_by_type_def pg_namespace_get_by_type_def pg_namespace_get_def Let_def bindE_def
        map_err_def pg_query_no_fault ret_def raise_def)
qed


text \<open>
  A refused tuple stays listed: \<^verbatim>\<open>CreateRelationTuple\<close> writes the mirror before it asks the backend,
  so for a type that no namespace of the tenant serves it answers with an error and leaves the
  row behind; \<^verbatim>\<open>DeleteRelationTuple\<close> on that row fails the same way and leaves it too.
\<close>

theorem refused_tuple_stays_listed:
  assumes be: "ps_backend svc = openfga b" and adm: "admin ctx = Inr t" and nf: "\<And>n. pg_fault w n = None"
    and te: "tenant_exists (pg_db w) t" and un: "mapping_of (pg_db w) t ns = None"
    and fresh: "pg_ulid w (pg_ulids w) \<notin> pt_id ` set (permission_tuples (pg_db w))"
  shows "\<exists>m v row v'. create_relation_tuple svc ctx ns obj rel sub w = (Inl (SE_InvalidArgument m), v)
    \<and> row \<in> set (permission_tuples (pg_db v)) \<and> pt_tenant_id row = t \<and> pt_key row = (ns, obj, rel, sub)
    \<and> delete_relation_tuple svc ctx (pt_id row) v = (Inl (SE_InvalidArgument m), v') \<and> row \<in> set (permission_tuples (pg_db v'))"
proof -
  let ?i = "pg_ulid w (pg_ulids w)"
  define row where "row = tuple_row ?i t (ns, obj, rel, sub) (pg_now w)"
  define m where "m = ''tenant '' @ t @ '' namespace '' @ ns @ '' has no OpenFGA store/model''"
  have row: "pt_id row = ?i" "pt_tenant_id row = t" "pt_key row = (ns, obj, rel, sub)" by (simp_all add: row_def tuple_row_def pt_key_def)
  obtain v1 where mk: "tuple_create t (ns, obj, rel, sub) w = (Inr row, v1)"
    and db1: "pg_db v1 = (pg_db w)\<lparr>permission_tuples := permission_tuples (pg_db w) @ [row]\<rparr>" and f1: "pg_fault v1 = pg_fault w"
    using tuple_create_no_fault [of w t "(ns, obj, rel, sub)"] te fresh nf by (auto simp: row_def)
  have map1: "mapping_of (pg_db v1) t ns = None"
    using un by (simp add: db1 mapping_of_tuples)
  obtain v2 where r1: "resolve_mapping t ns v1 = (Inl (PE_NamespaceNotConfigured m), v2)" and db2: "pg_db v2 = pg_db v1"
    using resolve_unmapped [OF map1] f1 nf unfolding m_def by auto
  have create: "create_relation_tuple svc ctx ns obj rel sub w = (Inl (SE_InvalidArgument m), v2)"
    by (simp add: create_relation_tuple_def adm be openfga_def fga_create_relation_tuple_def fga_write_tuples_def plain_key_def
        bindE_def map_err_def lift_result_def mk r1)
  have f2: "pg_fault v2 = pg_fault v1"
    using keepsD [OF keeps_fault_resolve [where P = "\<lambda>f. f = pg_fault v1"] refl r1] .
  have get: "\<exists>v3. tuple_get t ?i v2 = (Inr row, v3) \<and> pg_db v3 = pg_db v2 \<and> pg_fault v3 = pg_fault v2"
  proof -
    have "find (\<lambda>r. pt_tenant_id r = t \<and> pt_id r = ?i) (permission_tuples (pg_db w)) = None" using fresh by (force simp: find_None_iff)
    then have "find (\<lambda>r. pt_tenant_id r = t \<and> pt_id r = ?i) (permission_tuples (pg_db v2)) = Some row"
      by (simp add: db2 db1 find_append_miss row)
    then show ?thesis using f1 f2 nf by (simp add: tuple_get_def pg_query_no_fault)
  qed
  then obtain v3 where g: "tuple_get t ?i v2 = (Inr row, v3)" and db3: "pg_db v3 = pg_db v1" and f3: "pg_fault v3 = pg_fault w"
    using db2 f1 f2 by auto
  obtain v4 where r2: "resolve_mapping t ns v3 = (Inl (PE_NamespaceNotConfigured m), v4)" and db4: "pg_db v4 = pg_db v1"
    using resolve_unmapped [of v3 t ns] map1 db3 f3 nf unfolding m_def by auto
  have "delete_relation_tuple svc ctx (pt_id row) v2 = (Inl (SE_InvalidArgument m), v4)"
    using row r2 by (simp add: delete_relation_tuple_def adm be openfga_def fga_delete_relation_tuple_def fga_write_tuples_def plain_key_def
        bindE_def map_err_def lift_result_def g pt_key_def)
  then show ?thesis using create row db1 db2 db4 by (intro exI [of _ m] exI [of _ v2] exI [of _ row] exI [of _ v4]) simp
qed

theorem refused_tuple_stays_listed_witness:
  "\<exists>m v row v'. create_relation_tuple sample_permissions (admin_ctx ''T'') ''nowhere'' ''o'' ''r'' ''u'' (entitled_world []) = (Inl (SE_InvalidArgument m), v)
    \<and> row \<in> set (permission_tuples (pg_db v)) \<and> pt_key row = (''nowhere'', ''o'', ''r'', ''u'')
    \<and> delete_relation_tuple sample_permissions (admin_ctx ''T'') (pt_id row) v = (Inl (SE_InvalidArgument m), v')
    \<and> row \<in> set (permission_tuples (pg_db v'))"
proof -
  have be: "ps_backend sample_permissions = openfga sample_backend" and adm: "admin (admin_ctx ''T'') = Inr ''T''"
    by (simp_all add: sample_permissions_def admin_ctx_def admin_Inr)
  have te: "tenant_exists (pg_db (entitled_world [])) ''T''" and un: "mapping_of (pg_db (entitled_world [])) ''T'' ''nowhere'' = None"
    and fresh: "pg_ulid (entitled_world []) (pg_ulids (entitled_world [])) \<notin> pt_id ` set (permission_tuples (pg_db (entitled_world [])))"
    by (simp_all add: tenant_exists_def entitled_db_def mapping_of_def find_type_owner_def find_namespace_def ns_key_def empty_db_def)
  show ?thesis
    using refused_tuple_stays_listed [OF be adm _ te un fresh, of "''o''" "''r''" "''u''"] by fastforce
qed

section \<open>What expanded trees show\<close>

text \<open>
  What \<^verbatim>\<open>sanitize_subject_id\<close> hides and what it does not: a subject that the tenant maps to a
  public id is replaced by that id when the database answers, and is passed on as the backend
  id when both lookups fail; and a subject set in the form Keto uses, with the tenant in front of
  the object, keeps the tenant.
\<close>

theorem expand_subject_exposure:
  assumes "CHR ''#'' \<notin> set s" and "find (\<lambda>r. im_tenant_id r = t \<and> im_backend r = ''kratos'' \<and> im_ory_global_id r = s) (id_mappings (pg_db w)) = Some r"
    and "CHR ''#'' \<notin> set (ns @ t @ obj)" and "CHR '':'' \<notin> set (ns @ t)" and "ns \<noteq> t"
  shows "(pg_fault w (pg_queries w) = None \<longrightarrow> fst (sanitize_subject_id t (JStr s) w) = Inr (JStr (im_public_id r)))
    \<and> (pg_fault w (pg_queries w) \<noteq> None \<and> pg_fault w (Suc (pg_queries w)) \<noteq> None \<longrightarrow> fst (sanitize_subject_id t (JStr s) w) = Inr (JStr s))
    \<and> fst (sanitize_subject_id t (JStr (ns @ '':'' @ t @ '':'' @ obj @ ''#'' @ rel)) w) = Inr (JStr (ns @ '':'' @ t @ '':'' @ obj @ ''#'' @ rel))"
proof (intro conjI impI)
  show "fst (sanitize_subject_id t (JStr s) w) = Inr (JStr (im_public_id r))" if "pg_fault w (pg_queries w) = None"
    using that assms(1,2) by (simp add: sanitize_subject_id_def attempt_def get_public_id_def pg_query_no_fault ok_or_def ret_def)
  show "fst (sanitize_subject_id t (JStr s) w) = Inr (JStr s)" if "pg_fault w (pg_queries w) \<noteq> None \<and> pg_fault w (Suc (pg_queries w)) \<noteq> None"
    using that assms(1)
    by (auto simp: sanitize_subject_id_def attempt_def get_public_id_def pg_query_def pg_exec_def Let_def ret_def split: fault.splits)
next
  let ?left = "ns @ '':'' @ t @ '':'' @ obj"
  have split: "split_once (CHR ''#'') (?left @ CHR ''#'' # rel) = Some (?left, rel)"
    using assms(3) by (intro split_once_append) auto
  have "\<not> starts_with ?left (t @ '':'')"
  proof
    assume "starts_with ?left (t @ '':'')"
    then obtain rest where e: "ns @ CHR '':'' # t @ '':'' @ obj = t @ CHR '':'' # rest" by (auto simp: starts_with_iff)
    have "split_once (CHR '':'') (ns @ CHR '':'' # t @ '':'' @ obj) = Some (ns, t @ '':'' @ obj)"
      and "split_once (CHR '':'') (t @ CHR '':'' # rest) = Some (t, rest)"
      using assms(4) by (auto intro!: split_once_append)
    then show False using e assms(5) by simp
  qed
  then show "fst (sanitize_subject_id t (JStr (ns @ '':'' @ t @ '':'' @ obj @ ''#'' @ rel)) w) = Inr (JStr (ns @ '':'' @ t @ '':'' @ obj @ ''#'' @ rel))"
    using split by (simp add: sanitize_subject_id_def ret_def strip_subject_set_prefix_def strip_tenant_object_prefix_def)
qed

definition mapped_db :: database where
  "mapped_db = empty_db\<lparr>id_mappings := [\<lparr>im_id = ''1'', im_tenant_id = ''T'', im_backend = ''kratos'', im_public_id = ''pub'',
     im_ory_global_id = ''ory'', im_created_at = 0\<rparr>]\<rparr>"

theorem expand_subject_exposure_witness:
  "fst (sanitize_subject_id ''T'' (JStr ''ory'') (quiet_pg mapped_db 0)) = Inr (JStr ''pub'')
   \<and> fst (sanitize_subject_id ''T'' (JStr ''groups:T:staff#member'') (quiet_pg mapped_db 0)) = Inr (JStr ''groups:T:staff#member'')"
  using expand_subject_exposure [of "''ory''" "''T''" "quiet_pg mapped_db 0" _ "''groups''" "''staff''" "''member''"]
  by (simp add: quiet_pg_def mapped_db_def)

end
