(* ===== verification/ConsentMapper.thy ===== *)
theory ConsentMapper
  imports PermissionService
begin

text \<open>
  The translation between Hydra's JSON and the messages of the consent service,
  \<^verbatim>\<open>services/oauth2_consent_mapper.rs\<close>, and the accessors of \<^verbatim>\<open>services/proto_util.rs\<close> it is made of.
  \<^verbatim>\<open>Value::to_string\<close> is the parameter \<open>show\<close>, the conversion into a Protobuf \<^verbatim>\<open>Struct\<close> the parameter
  \<open>struct_of\<close>. A Protobuf message field is an option; a \<^verbatim>\<open>Struct\<close> of a request comes as the result
  of \<^verbatim>\<open>serde_json::to_value\<close> on it.
\<close>

section \<open>Accessors\<close>

definition json_value_to_string :: "(json \<Rightarrow> string) \<Rightarrow> json \<Rightarrow> string" where
  "json_value_to_string show v = (case as_str v of Some s \<Rightarrow> s | None \<Rightarrow> show v)"

definition json_array_to_strings :: "(json \<Rightarrow> string) \<Rightarrow> json \<Rightarrow> string list" where
  "json_array_to_strings show v = (case as_array v of Some arr \<Rightarrow> map (json_value_to_string show) arr | None \<Rightarrow> [])"

definition json_str :: "json \<Rightarrow> string \<Rightarrow> string" where
  "json_str v field = (case Option.bind (json_get v field) as_str of Some s \<Rightarrow> s | None \<Rightarrow> [])"

definition json_bool :: "json \<Rightarrow> string \<Rightarrow> bool" where
  "json_bool v field \<longleftrightarrow> Option.bind (json_get v field) as_bool = Some True"

text \<open>\<^verbatim>\<open>.into_iter().sum()\<close> of an optional number: zero where there is none.\<close>

definition json_i64 :: "json \<Rightarrow> string \<Rightarrow> int" where
  "json_i64 v field = (case Option.bind (json_get v field) as_i64 of Some n \<Rightarrow> n | None \<Rightarrow> 0)"

definition json_i32 :: "json \<Rightarrow> string \<Rightarrow> int" where
  "json_i32 v field =
     (case Option.bind (json_get v field) as_i64 of
        Some n \<Rightarrow> if - (2 ^ 31) \<le> n \<and> n < 2 ^ 31 then n else 0
      | None \<Rightarrow> 0)"

section \<open>From Hydra\<close>

record oauth2_client =
  oc_client_id :: string
  oc_client_name :: string
  oc_client_uri :: string
  oc_logo_uri :: string
  oc_redirect_uris :: "string list"
  oc_skip_consent :: bool
  oc_skip_logout_consent :: bool
  oc_grant_types :: "string list"
  oc_response_types :: "string list"
  oc_scope :: string
  oc_policy_uri :: string
  oc_tos_uri :: string
  oc_jwks_uri :: string
  oc_metadata :: "json option"

record consent_request =
  cr_challenge :: string
  cr_client_id :: string
  cr_client_name :: string
  cr_subject :: string
  cr_skip :: bool
  cr_requested_scope :: "string list"
  cr_requested_access_token_audience :: "string list"
  cr_oidc_context :: "json option"
  cr_client :: "oauth2_client option"
  cr_first_use :: bool

record logout_request =
  lr_challenge :: string
  lr_subject :: string
  lr_client_id :: string
  lr_request_url :: string
  lr_post_logout_redirect_uri :: string
  lr_client :: "oauth2_client option"

record json_codec =
  jc_show :: "json \<Rightarrow> string"
  jc_struct_of :: "json \<Rightarrow> json option"

definition oauth2_client_from :: "json_codec \<Rightarrow> json \<Rightarrow> oauth2_client" where
  "oauth2_client_from c v =
     \<lparr>oc_client_id = json_str v ''client_id'', oc_client_name = json_str v ''client_name'',
      oc_client_uri = json_str v ''client_uri'', oc_logo_uri = json_str v ''logo_uri'',
      oc_redirect_uris = json_array_to_strings (jc_show c) (json_index v ''redirect_uris''),
      oc_skip_consent = json_bool v ''skip_consent'', oc_skip_logout_consent = json_bool v ''skip_logout_consent'',
      oc_grant_types = json_array_to_strings (jc_show c) (json_index v ''grant_types''),
      oc_response_types = json_array_to_strings (jc_show c) (json_index v ''response_types''),
      oc_scope = json_str v ''scope'', oc_policy_uri = json_str v ''policy_uri'', oc_tos_uri = json_str v ''tos_uri'',
      oc_jwks_uri = json_str v ''jwks_uri'',
      oc_metadata = Option.bind (json_get v ''metadata'') (json_to_struct (jc_struct_of c))\<rparr>"

definition client_of :: "json_codec \<Rightarrow> json \<Rightarrow> oauth2_client option" where
  "client_of c client = (case as_object client of Some _ \<Rightarrow> Some (oauth2_client_from c client) | None \<Rightarrow> None)"

definition ory_consent_request_to_proto :: "json_codec \<Rightarrow> json \<Rightarrow> consent_request" where
  "ory_consent_request_to_proto c v =
     (let client = json_index v ''client''
      in \<lparr>cr_challenge = json_str v ''challenge'', cr_client_id = json_str client ''client_id'',
          cr_client_name = json_str client ''client_name'', cr_subject = json_str v ''subject'', cr_skip = json_bool v ''skip'',
          cr_requested_scope = json_array_to_strings (jc_show c) (json_index v ''requested_scope''),
          cr_requested_access_token_audience =
            json_array_to_strings (jc_show c) (json_index v ''requested_access_token_audience''),
          cr_oidc_context = Option.bind (json_get v ''oidc_context'') (json_to_struct (jc_struct_of c)),
          cr_client = client_of c client, cr_first_use = False\<rparr>)"

definition redirect_to :: "json \<Rightarrow> string" where
  "redirect_to v = json_str v ''redirect_to''"

definition ory_logout_request_to_proto :: "json_codec \<Rightarrow> json \<Rightarrow> logout_request" where
  "ory_logout_request_to_proto c v =
     (let client = json_index v ''client'';
          client_id = (if as_object client \<noteq> None then json_str client ''client_id''
                       else if client = JNull then [] else json_value_to_string (jc_show c) client)
      in \<lparr>lr_challenge = json_str v ''challenge'', lr_subject = json_str v ''subject'', lr_client_id = client_id,
          lr_request_url = json_str v ''request_url'', lr_post_logout_redirect_uri = json_str v ''post_logout_redirect_uri'',
          lr_client = client_of c client\<rparr>)"

section \<open>To Hydra\<close>

record accept_consent_request =
  an_challenge :: string
  an_grant_scope :: "string list"
  an_grant_access_token_audience :: "string list"
  an_remember :: bool
  an_remember_for :: int
  an_session :: "(string + json) option"

record reject_request =
  rj_challenge :: string
  rj_error :: string
  rj_error_description :: string
  rj_error_hint :: string
  rj_status_code :: int

definition accept_consent_request_to_json :: "accept_consent_request \<Rightarrow> json" where
  "accept_consent_request_to_json req =
     JObj ([(''grant_scope'', JArr (map JStr (an_grant_scope req))),
            (''grant_access_token_audience'', JArr (map JStr (an_grant_access_token_audience req))),
            (''remember'', JBool (an_remember req))]
        @ (if an_remember_for req \<noteq> 0 then [(''remember_for'', JInt (an_remember_for req))] else [])
        @ (case an_session req of
             None \<Rightarrow> []
           | Some (Inr v) \<Rightarrow> [(''session'', v)]
           | Some (Inl err) \<Rightarrow> [(''session'', JNull)]))"

text \<open>
  \<^verbatim>\<open>entry(k).or_insert_with(d)\<close> followed by an update \<open>f\<close> of the entry, on an object; any other value is
  left as it is.
\<close>

fun update_field :: "string \<Rightarrow> (json \<Rightarrow> json) \<Rightarrow> (string \<times> json) list \<Rightarrow> (string \<times> json) list" where
  "update_field k f [] = []"
| "update_field k f ((k', v) # fs) = (if k' = k then (k', f v) # fs else (k', v) # update_field k f fs)"

fun obj_entry :: "string \<Rightarrow> json \<Rightarrow> (json \<Rightarrow> json) \<Rightarrow> json \<Rightarrow> json" where
  "obj_entry k d f (JObj fs) = JObj (if k \<in> fst ` set fs then update_field k f fs else fs @ [(k, f d)])"
| "obj_entry k d f v = v"

definition with_claims :: "(json \<Rightarrow> json) \<Rightarrow> json \<Rightarrow> json" where
  "with_claims f body = obj_entry ''session'' (JObj []) (obj_entry ''id_token'' (JObj []) f) body"

definition or_insert :: "string \<Rightarrow> json \<Rightarrow> json \<Rightarrow> json" where
  "or_insert k v claims = obj_entry k v id claims"

definition inject_id_token_claim :: "string \<Rightarrow> string \<Rightarrow> json \<Rightarrow> json" where
  "inject_id_token_claim claim v body = (if v = [] then body else with_claims (or_insert claim (JStr v)) body)"

definition reject_fields :: "reject_request \<Rightarrow> (string \<times> json) list" where
  "reject_fields req =
     (if rj_error req \<noteq> [] then [(''error'', JStr (rj_error req))] else [])
     @ (if rj_error_description req \<noteq> [] then [(''error_description'', JStr (rj_error_description req))] else [])
     @ (if rj_error_hint req \<noteq> [] then [(''error_hint'', JStr (rj_error_hint req))] else [])
     @ (if rj_status_code req \<noteq> 0 then [(''status_code'', JInt (rj_status_code req))] else [])"

definition reject_consent_request_to_json :: "reject_request \<Rightarrow> json" where
  "reject_consent_request_to_json req = JObj (reject_fields req)"

definition accept_logout_request_to_json :: json where
  "accept_logout_request_to_json = JObj []"

definition reject_logout_request_to_json :: "reject_request \<Rightarrow> json" where
  "reject_logout_request_to_json req = JObj (reject_fields req)"

section \<open>Claims of the id token\<close>

lemma map_of_update_field: "map_of (update_field k f fs) x = (if x = k then map_option f (map_of fs k) else map_of fs x)"
  by (induction k f fs rule: update_field.induct) auto

lemma json_get_obj_entry:
  "json_get (obj_entry k d f (JObj fs)) x =
     (if x = k then Some (f (case map_of fs k of Some v \<Rightarrow> v | None \<Rightarrow> d)) else map_of fs x)"
proof (cases "k \<in> fst ` set fs")
  case True
  then obtain v where "map_of fs k = Some v" by (metis map_of_eq_None_iff not_None_eq)
  then show ?thesis using True by (simp add: map_of_update_field)
next
  case False
  then have "map_of fs k = None" by (simp add: map_of_eq_None_iff)
  then show ?thesis using False by (simp add: map_add_def split: option.splits)
qed

lemma json_get_or_insert:
  "json_get (or_insert k v (JObj fs)) x = (if x = k then Some (case map_of fs k of Some u \<Rightarrow> u | None \<Rightarrow> v) else map_of fs x)"
  unfolding or_insert_def json_get_obj_entry by simp

lemma as_object_obj_entry: "as_object (obj_entry k d f v) = None \<longleftrightarrow> as_object v = None"
  by (cases v) (simp_all add: as_object.simps)

end
