(* ===== verification/Entitlements.thy ===== *)
theory Entitlements
  imports PermissionService TenantStores
begin

text \<open>
  Who may use which application, \<^verbatim>\<open>services/entitlement.rs\<close>: tuples on \<^verbatim>\<open>member\<close> and \<^verbatim>\<open>admin\<close> of the
  objects of the namespace \<^verbatim>\<open>entitlements\<close>, for applications, groups and the gateway itself, and
  the scopes and claims that follow from them; and \<^verbatim>\<open>services/client_entitlement.rs\<close>, which classifies
  an OAuth2 client by its mapping and its application row. What a check answers is related to
  the tuples by the law \<open>checks_related\<close> of the OpenFGA client.
\<close>

section \<open>EntitlementServiceImpl\<close>

definition ENTITLEMENT_NAMESPACE :: string where "ENTITLEMENT_NAMESPACE = ''entitlements''"
definition GATEWAY_APP_OBJECT :: string where "GATEWAY_APP_OBJECT = ''sso-gateway''"
definition MEMBER_REL :: string where "MEMBER_REL = ''member''"
definition ADMIN_REL :: string where "ADMIN_REL = ''admin''"

datatype entitlement_level = Member | Admin

fun level_relation :: "entitlement_level \<Rightarrow> string" where
  "level_relation Member = MEMBER_REL"
| "level_relation Admin = ADMIN_REL"

fun show_permission_error :: "permission_error \<Rightarrow> string" where
  "show_permission_error (PE_Ory status message) = ''ory backend error: '' @ show_int (int status) @ '' '' @ message"
| "show_permission_error (PE_OpenFga status message) = ''openfga backend error: '' @ show_int (int status) @ '' '' @ message"
| "show_permission_error (PE_NamespaceNotConfigured m) = ''namespace not configured: '' @ m"
| "show_permission_error (PE_Conflict m) = ''namespace type conflict: '' @ m"
| "show_permission_error (PE_Configuration m) = ''configuration: '' @ m"
| "show_permission_error (PE_Serialization m) = ''serialization: '' @ m"
| "show_permission_error (PE_Unavailable m) = ''backend unavailable: '' @ m"
| "show_permission_error PE_Diverges = ''diverges''"

definition map_backend_error :: "permission_error \<Rightarrow> service_error" where
  "map_backend_error err = SE_Internal (''entitlement backend error: '' @ show_permission_error err)"

definition entitlement_tuple :: "string \<Rightarrow> string \<Rightarrow> string \<Rightarrow> relation_tuple_key" where
  "entitlement_tuple object relation subject_id = plain_key ENTITLEMENT_NAMESPACE object relation subject_id"

definition entitlement_model :: json where
  "entitlement_model =
     (let user_types = JObj [(''directly_related_user_types'', JArr [JObj [(''type'', JStr ''user'')],
             JObj [(''type'', JStr ''entitlements''), (''relation'', JStr ''member'')]])];
          this = JObj [(''this'', JObj [])]
      in JObj [(''schema_version'', JStr ''1.1''),
               (''type_definitions'', JArr [
                  JObj [(''type'', JStr ''user'')],
                  JObj [(''type'', JStr ''entitlements''), (''relations'', JObj [(''member'', this), (''admin'', this)]),
                        (''metadata'', JObj [(''relations'', JObj [(''member'', user_types), (''admin'', user_types)])])]])])"

definition ensure_namespace :: "'s permission_backend \<Rightarrow> string \<Rightarrow> ('s, service_error, unit) io" where
  "ensure_namespace b tenant_id = map_err map_backend_error (pb_ensure_model b tenant_id ENTITLEMENT_NAMESPACE entitlement_model)"

definition group_members :: "string \<Rightarrow> string" where
  "group_members g = ENTITLEMENT_NAMESPACE @ '':'' @ g @ ''#'' @ MEMBER_REL"

definition seed_tuples :: "string \<Rightarrow> string list \<Rightarrow> relation_tuple_key list" where
  "seed_tuples app groups =
     concat (map (\<lambda>g. [entitlement_tuple app MEMBER_REL (group_members g), entitlement_tuple app ADMIN_REL (group_members g)]) groups)"

definition seed_application ::
  "'s permission_backend \<Rightarrow> string \<Rightarrow> string \<Rightarrow> string list \<Rightarrow> ('s, service_error, unit) io" where
  "seed_application b tenant_id app_public_id groups =
     bindE (ensure_namespace b tenant_id) (\<lambda>_.
     if seed_tuples app_public_id groups = [] then ret ()
     else map_err map_backend_error (pb_ensure_tuples b tenant_id (seed_tuples app_public_id groups) []))"

definition removal_keys :: "string \<Rightarrow> string list \<Rightarrow> relation_tuple_key list" where
  "removal_keys app subjects =
     remdups_adj (sort_key key_parts
       (concat (map (\<lambda>s. [entitlement_tuple app MEMBER_REL s, entitlement_tuple app ADMIN_REL s]) subjects)))"

definition remove_application :: "'s permission_backend \<Rightarrow> string \<Rightarrow> string \<Rightarrow> ('s, service_error, unit) io" where
  "remove_application b tenant_id app_public_id =
     bindE (map_err map_backend_error
              (pb_list_users b tenant_id ENTITLEMENT_NAMESPACE app_public_id MEMBER_REL [] default_options)) (\<lambda>users.
     bindE (map_err map_backend_error
              (pb_list_users b tenant_id ENTITLEMENT_NAMESPACE app_public_id ADMIN_REL [] default_options)) (\<lambda>admins.
     map_err map_backend_error (pb_ensure_tuples b tenant_id [] (removal_keys app_public_id (users @ admins)))))"

definition entitlement_check ::
  "'s permission_backend \<Rightarrow> string \<Rightarrow> string \<Rightarrow> string \<Rightarrow> string \<Rightarrow> ('s, service_error, bool) io" where
  "entitlement_check b tenant_id identity_id app_public_id relation =
     map_err map_backend_error
       (pb_check_permission b tenant_id ENTITLEMENT_NAMESPACE app_public_id relation identity_id default_options)"

definition is_member :: "'s permission_backend \<Rightarrow> string \<Rightarrow> string \<Rightarrow> string \<Rightarrow> ('s, service_error, bool) io" where
  "is_member b tenant_id identity_id app_public_id = entitlement_check b tenant_id identity_id app_public_id MEMBER_REL"

definition has_any_tuples :: "'s permission_backend \<Rightarrow> string \<Rightarrow> string \<Rightarrow> ('s, service_error, bool) io" where
  "has_any_tuples b tenant_id app_public_id =
     bindE (map_err map_backend_error (pb_read_tuples b tenant_id ENTITLEMENT_NAMESPACE app_public_id)) (\<lambda>tuples. ret (tuples \<noteq> []))"

definition admin_scope_ceiling :: "string list" where
  "admin_scope_ceiling =
     [SCOPE_TENANT_ADMIN, SCOPE_TENANT_READ, SCOPE_IDENTITY_ADMIN, SCOPE_IDENTITY_READ, SCOPE_SCIM_ADMIN, SCOPE_SCIM_READ,
      SCOPE_PERMISSION_ADMIN, SCOPE_PERMISSION_READ, SCOPE_APPLICATION_ADMIN, SCOPE_APPLICATION_READ, SCOPE_AGENT_ADMIN,
      SCOPE_AGENT_READ]"

definition read_scope_ceiling :: "string list" where
  "read_scope_ceiling =
     [SCOPE_TENANT_READ, SCOPE_IDENTITY_READ, SCOPE_SCIM_READ, SCOPE_PERMISSION_READ, SCOPE_APPLICATION_READ, SCOPE_AGENT_READ]"

definition oidc_scope_ceiling :: "string list" where
  "oidc_scope_ceiling = [''openid'', ''profile'', ''email'', ''offline_access'']"

text \<open>A check that fails counts as a refusal.\<close>

definition check_or_false ::
  "'s permission_backend \<Rightarrow> string \<Rightarrow> string \<Rightarrow> string \<Rightarrow> string \<Rightarrow> ('s, 'e, bool) io" where
  "check_or_false b tenant_id identity_id app relation =
     attempt (entitlement_check b tenant_id identity_id app relation) (\<lambda>r. ret (case r of Inr allowed \<Rightarrow> allowed | Inl _ \<Rightarrow> False))"

definition effective_scope_ceiling ::
  "'s permission_backend \<Rightarrow> string \<Rightarrow> string \<Rightarrow> ('s, 'e, string list) io" where
  "effective_scope_ceiling b tenant_id identity_id =
     bindE (check_or_false b tenant_id identity_id GATEWAY_APP_OBJECT ADMIN_REL) (\<lambda>is_gateway_admin.
     if is_gateway_admin then ret (admin_scope_ceiling @ oidc_scope_ceiling)
     else bindE (check_or_false b tenant_id identity_id GATEWAY_APP_OBJECT MEMBER_REL) (\<lambda>is_gateway_member.
          if is_gateway_member then ret (read_scope_ceiling @ oidc_scope_ceiling) else ret oidc_scope_ceiling))"

definition grant ::
  "'s permission_backend \<Rightarrow> string \<Rightarrow> string \<Rightarrow> string \<Rightarrow> entitlement_level \<Rightarrow> ('s, service_error, unit) io" where
  "grant b tenant_id identity_id app_public_id level =
     bindE (ensure_namespace b tenant_id) (\<lambda>_.
     map_err map_backend_error (pb_ensure_tuples b tenant_id [entitlement_tuple app_public_id (level_relation level) identity_id] []))"

definition revoke ::
  "'s permission_backend \<Rightarrow> string \<Rightarrow> string \<Rightarrow> string \<Rightarrow> entitlement_level \<Rightarrow> ('s, service_error, unit) io" where
  "revoke b tenant_id identity_id app_public_id level =
     map_err map_backend_error (pb_ensure_tuples b tenant_id [] [entitlement_tuple app_public_id (level_relation level) identity_id])"

definition set_group_membership ::
  "'s permission_backend \<Rightarrow> string \<Rightarrow> string \<Rightarrow> string \<Rightarrow> bool \<Rightarrow> ('s, service_error, unit) io" where
  "set_group_membership b tenant_id group_name identity_id member =
     bindE (ensure_namespace b tenant_id) (\<lambda>_.
     let k = entitlement_tuple group_name MEMBER_REL identity_id
     in map_err map_backend_error (if member then pb_ensure_tuples b tenant_id [k] [] else pb_ensure_tuples b tenant_id [] [k]))"

definition remove_all_for_identity ::
  "'z pg_scheme permission_backend \<Rightarrow> string \<Rightarrow> string \<Rightarrow> ('z pg_scheme, service_error, unit) io" where
  "remove_all_for_identity b tenant_id identity_id =
     bindE (map_err (\<lambda>e. SE_Database (show_db_error e)) (application_list_by_tenant tenant_id)) (\<lambda>apps.
     let deletes = concat (map (\<lambda>app. map (\<lambda>relation. entitlement_tuple (ap_public_id app) relation identity_id)
           [MEMBER_REL, ADMIN_REL]) apps)
     in if deletes = [] then ret () else map_err map_backend_error (pb_ensure_tuples b tenant_id [] deletes))"

definition mint_claim :: "'s permission_backend \<Rightarrow> string \<Rightarrow> string \<Rightarrow> string \<Rightarrow> ('s, 'e, json) io" where
  "mint_claim b tenant_id identity_id app_public_id =
     bindE (check_or_false b tenant_id identity_id app_public_id MEMBER_REL) (\<lambda>member.
     bindE (check_or_false b tenant_id identity_id app_public_id ADMIN_REL) (\<lambda>admin.
     let levels = (if member then [JStr ''member''] else []) @ (if admin then [JStr ''admin''] else [])
     in ret (if levels = [] then JNull else JObj [(''entitlements'', JObj [(app_public_id, JArr levels)])])))"

section \<open>Clients and their owners\<close>

datatype client_entitlement =
    LocalApp string string
  | CrossTenantOwned string string bool
  | Provisional string string
  | Unmapped

fun ce_public_id :: "client_entitlement \<Rightarrow> string option" where
  "ce_public_id (LocalApp public_id source) = Some public_id"
| "ce_public_id (CrossTenantOwned public_id owner_tenant cross_tenant) = Some public_id"
| "ce_public_id (Provisional public_id owner_tenant) = Some public_id"
| "ce_public_id Unmapped = None"

fun is_first_use_eligible :: "client_entitlement \<Rightarrow> bool" where
  "is_first_use_eligible (LocalApp public_id source) \<longleftrightarrow> source = registration_source_dcr"
| "is_first_use_eligible (Provisional public_id owner_tenant) \<longleftrightarrow> True"
| "is_first_use_eligible (CrossTenantOwned public_id owner_tenant cross_tenant) \<longleftrightarrow> False"
| "is_first_use_eligible Unmapped \<longleftrightarrow> False"

definition classify_owned :: "string \<Rightarrow> string \<Rightarrow> string \<Rightarrow> ('z pg_scheme, db_error, client_entitlement) io" where
  "classify_owned tenant_id owner_tenant public_id =
     attempt (application_get_by_public_id public_id) (\<lambda>r. case r of
         Inr row \<Rightarrow>
           ret (if ap_tenant_id row = tenant_id then LocalApp public_id (ap_registration_source row)
                else CrossTenantOwned public_id (ap_tenant_id row) (ap_cross_tenant row))
       | Inl err \<Rightarrow> if err = ApplicationNotFound then ret (Provisional public_id owner_tenant) else raise err)"

definition resolve_client_entitlement :: "string \<Rightarrow> string \<Rightarrow> ('z pg_scheme, db_error, client_entitlement) io" where
  "resolve_client_entitlement tenant_id ory_client_id =
     attempt (get_public_id tenant_id ''hydra'' ory_client_id) (\<lambda>r. case r of
         Inr public_id \<Rightarrow> classify_owned tenant_id tenant_id public_id
       | Inl err \<Rightarrow>
           if err \<noteq> MappingNotFound then raise err
           else bindE (get_tenant_id_by_ory_id ''hydra'' ory_client_id) (\<lambda>owner. case owner of
               None \<Rightarrow> ret Unmapped
             | Some owner_tenant \<Rightarrow>
                 attempt (get_public_id_by_ory_id ''hydra'' ory_client_id) (\<lambda>r. case r of
                     Inr public_id \<Rightarrow> classify_owned tenant_id owner_tenant public_id
                   | Inl err \<Rightarrow> if err = MappingNotFound then ret Unmapped else raise err)))"

section \<open>What checks and changes mean\<close>

text \<open>The store of the tenant's entitlements, and what its tuples say.\<close>

definition entitlement_store :: "database \<Rightarrow> string \<Rightarrow> string" where
  "entitlement_store db t = store_of db t ENTITLEMENT_NAMESPACE"

definition app_object :: "string \<Rightarrow> string" where
  "app_object app = typed_object ENTITLEMENT_NAMESPACE app"

definition entitled :: "fga_tuple set \<Rightarrow> string \<Rightarrow> string \<Rightarrow> string \<Rightarrow> bool" where
  "entitled T u rel app \<longleftrightarrow> related T (typed_user u) rel (app_object app)"

lemma default_payload: "apply_options (client_request_options default_options) p = p"
  by (simp add: apply_options_def client_request_options_def default_options_def ro_is_default_def)

lemma client_check_related:
  assumes "checks_related c listing s" and "client_check c s m ns obj rel u (client_request_options default_options) w = (x, v)"
  shows "pg_db v = pg_db w \<and> listing (fw_fga v) = listing (fw_fga w)
    \<and> (\<forall>y. x = Inr y \<longrightarrow> y = related (set (listing (fw_fga w) s)) u rel (typed_object ns obj))"
proof (cases "fc_join c (''stores/'' @ s @ ''/check'')")
  case (Inl e)
  then show ?thesis using assms(2) by (auto simp: client_check_def fga_join_def lift_result_def bindE_def)
next
  case (Inr url)
  obtain y u1 where call: "fga_call c HttpPost url [] (Some (check_payload m ns obj rel u)) w = (y, u1)" by fastforce
  have run: "bindE (lift_result y) (\<lambda>response. bindE (lift_result (handle_response response))
      (\<lambda>body. ret (Option.bind (json_get body ''allowed'') as_bool = Some True))) u1 = (x, v)"
    using assms(2) Inr call by (simp add: client_check_def fga_join_def lift_result_def bindE_def default_payload)
  note law = assms(1) [unfolded checks_related_def, rule_format, OF Inr]
  from call show ?thesis
  proof (cases rule: fga_call_cases)
    case (no_reply e)
    then show ?thesis using run law [OF no_reply(2)] fga_frame_pg(1) [OF no_reply(3)] by (auto simp: lift_result_def bindE_def)
  next
    case (reply status tx b)
    have v: "v = u1" and ok: "\<And>z. x = Inr z \<Longrightarrow> is_success status"
      using run reply(1) by (auto simp: lift_result_def bindE_def ret_def handle_response_def split: if_splits sum.splits)
    have l: "listing (fw_fga u1) = listing (fw_fga w)"
      "is_success status \<Longrightarrow> \<exists>j. b = Inr j \<and> json_get j ''allowed'' = Some (JBool (related (set (listing (fw_fga w) s)) u rel (typed_object ns obj)))"
      using law [OF reply(2)] by auto
    have "z = related (set (listing (fw_fga w) s)) u rel (typed_object ns obj)" if z: "x = Inr z" for z
    proof -
      obtain j where "b = Inr j" "json_get j ''allowed'' = Some (JBool (related (set (listing (fw_fga w) s)) u rel (typed_object ns obj)))"
        using l(2) [OF ok [OF z]] by blast
      then show ?thesis using run reply(1) ok [OF z] z by (simp add: lift_result_def bindE_def ret_def handle_response_def)
    qed
    then show ?thesis using v l(1) fga_frame_pg(1) [OF reply(3)] by simp
  qed
qed

lemma entitlement_check_result:
  assumes "checks_related (ob_client b) listing (entitlement_store (pg_db w) t)" and "entitlement_check (openfga b) t u app rel w = (x, v)"
  shows "pg_db v = pg_db w \<and> listing (fw_fga v) = listing (fw_fga w)
    \<and> (\<forall>y. x = Inr y \<longrightarrow> y = entitled (set (listing (fw_fga w) (entitlement_store (pg_db w) t))) u rel app)"
proof -
  obtain z u1 where res: "resolve_mapping t ENTITLEMENT_NAMESPACE w = (z, u1)" by fastforce
  note r = resolve_mapping_result [OF res]
  show ?thesis
  proof (cases z)
    case (Inl e)
    then show ?thesis
      using assms(2) res r by (auto simp: entitlement_check_def openfga_def fga_check_permission_def map_err_def bindE_def)
  next
    case (Inr rec)
    then have st: "opt_text (nr_store_id rec) = entitlement_store (pg_db w) t" using r(3) by (simp add: opt_text_def entitlement_store_def)
    obtain y v' where call: "client_check (ob_client b) (entitlement_store (pg_db w) t) (opt_text (nr_model_id rec)) ENTITLEMENT_NAMESPACE app rel
        (typed_user u) (client_request_options default_options) u1 = (y, v')" by fastforce
    from client_check_related [OF assms(1) call] show ?thesis
      using assms(2) res Inr st call r
      by (auto simp: entitlement_check_def openfga_def fga_check_permission_def fga_def map_err_def bindE_def entitled_def app_object_def
          split: sum.splits)
  qed
qed

lemma check_or_false_result:
  assumes "checks_related (ob_client b) listing (entitlement_store (pg_db w) t)" and "check_or_false (openfga b) t u app rel w = (x, v)"
  shows "\<exists>y. x = Inr y \<and> pg_db v = pg_db w \<and> listing (fw_fga v) = listing (fw_fga w)
    \<and> (y \<longrightarrow> entitled (set (listing (fw_fga w) (entitlement_store (pg_db w) t))) u rel app)"
proof -
  obtain z v' where chk: "entitlement_check (openfga b) t u app rel w = (z, v')" by fastforce
  from entitlement_check_result [OF assms(1) chk] assms(2) chk show ?thesis
    by (cases z) (auto simp: check_or_false_def attempt_def ret_def)
qed

definition entitlement_triple :: "string \<Rightarrow> string \<Rightarrow> string \<Rightarrow> fga_tuple" where
  "entitlement_triple app rel u = (typed_user u, rel, app_object app)"

lemma entitlement_key [simp]:
  "triple (client_tuple_key (entitlement_tuple app rel u)) = entitlement_triple app rel u"
  "rk_namespace (entitlement_tuple app rel u) = ENTITLEMENT_NAMESPACE" "rk_relation (entitlement_tuple app rel u) = rel"
  by (simp_all add: triple_def client_tuple_key_def entitlement_tuple_def plain_key_def entitlement_triple_def app_object_def)

lemma entitlement_keys_in:
  assumes "\<forall>k \<in> set ks. rk_namespace k = ENTITLEMENT_NAMESPACE"
  shows "keys_in db t (entitlement_store db t) ks = (\<lambda>k. triple (client_tuple_key k)) ` set ks"
  using assms by (auto simp: keys_in_def entitlement_store_def)

text \<open>Tuples written or deleted, not both, by one call.\<close>

lemma ensure_entitlements:
  assumes ok: "fga_store_ok (ob_client b) listing tok" "order_ok b" and one: "ws = [] \<or> ds = []"
    and ent: "\<forall>k \<in> set (ws @ ds). rk_namespace k = ENTITLEMENT_NAMESPACE \<and> rk_relation k \<noteq> []"
    and run: "fga_ensure_tuples b t ws ds w = (Inr (), v)"
  shows "pg_db v = pg_db w \<and> set (listing (fw_fga v) (entitlement_store (pg_db w) t))
    = (set (listing (fw_fga w) (entitlement_store (pg_db w) t)) - (\<lambda>k. triple (client_tuple_key k)) ` set ds)
      \<union> (\<lambda>k. triple (client_tuple_key k)) ` set ws"
proof -
  have rel: "\<forall>k \<in> set (ws @ ds). rk_relation k \<noteq> []" using ent by auto
  have keys: "keys_in (pg_db w) t (entitlement_store (pg_db w) t) ws = (\<lambda>k. triple (client_tuple_key k)) ` set ws"
    "keys_in (pg_db w) t (entitlement_store (pg_db w) t) ds = (\<lambda>k. triple (client_tuple_key k)) ` set ds"
    using ent by (intro entitlement_keys_in; simp)+
  have dis: "keys_in (pg_db w) t (entitlement_store (pg_db w) t) ws \<inter> keys_in (pg_db w) t (entitlement_store (pg_db w) t) ds = {}"
    using one keys by auto
  show ?thesis
    using ensure_tuples_result(1) [OF ok rel run] ensure_tuples_result(3) [OF ok rel run refl dis] keys by simp
qed

lemma level_nonempty [simp]: "level_relation l \<noteq> []" "MEMBER_REL \<noteq> []" "ADMIN_REL \<noteq> []"
  by (cases l) (simp_all add: MEMBER_REL_def ADMIN_REL_def)

lemma entitled_direct: "entitlement_triple app rel u \<in> T \<Longrightarrow> entitled T u rel app"
  by (simp add: entitled_def entitlement_triple_def related.direct)

text \<open>
  \<^bold>\<open>C29.\<close> Grants and revocations take effect: after a grant that succeeded, a check that answers
  says yes; after a revocation that succeeded, it says exactly what the remaining tuples of the
  tenant's store say, so yes only by way of a group.
\<close>

theorem grant_revoke_effective:
  assumes "fga_store_ok (ob_client b) listing tok" and "order_ok b"
    and "checks_related (ob_client b) listing (entitlement_store (pg_db v) t)"
    and "entitlement_check (openfga b) t u app (level_relation l) v = (Inr allowed, v')"
  shows "(grant (openfga b) t u app l w = (Inr (), v) \<longrightarrow> allowed)
    \<and> (revoke (openfga b) t u app l w = (Inr (), v) \<longrightarrow>
         allowed = entitled (set (listing (fw_fga w) (entitlement_store (pg_db w) t)) - {entitlement_triple app (level_relation l) u})
           u (level_relation l) app)"
proof -
  have says: "allowed = entitled (set (listing (fw_fga v) (entitlement_store (pg_db v) t))) u (level_relation l) app"
    using entitlement_check_result [OF assms(3,4)] by blast
  have "allowed" if g: "grant (openfga b) t u app l w = (Inr (), v)"
  proof -
    obtain w1 where "fga_ensure_tuples b t [entitlement_tuple app (level_relation l) u] [] w1 = (Inr (), v)"
      using g by (auto simp: grant_def openfga_def run_simps)
    from ensure_entitlements [OF assms(1,2) _ _ this] show ?thesis using says by (simp add: entitled_direct)
  qed
  moreover have "allowed = entitled (set (listing (fw_fga w) (entitlement_store (pg_db w) t)) - {entitlement_triple app (level_relation l) u})
      u (level_relation l) app" if "revoke (openfga b) t u app l w = (Inr (), v)"
  proof -
    have "fga_ensure_tuples b t [] [entitlement_tuple app (level_relation l) u] w = (Inr (), v)"
      using that by (auto simp: revoke_def openfga_def run_simps)
    from ensure_entitlements [OF assms(1,2) _ _ this] show ?thesis using says by simp
  qed
  ultimately show ?thesis by blast
qed

text \<open>
  Scopes come from entitlements, also when the backend fails: the scope ceiling always
  contains the OpenID scopes and nothing outside the admin ceiling; it exceeds the read ceiling
  only for an admin of the gateway object, and the OpenID scopes only for an admin or a member of it.
\<close>

theorem scope_ceiling_sound:
  assumes "checks_related (ob_client b) listing (entitlement_store (pg_db w) t)"
    and "effective_scope_ceiling (openfga b) t u w = (x :: service_error + string list, v)"
  shows "\<exists>c. x = Inr c \<and> set oidc_scope_ceiling \<subseteq> set c \<and> set c \<subseteq> set (admin_scope_ceiling @ oidc_scope_ceiling)
    \<and> (\<not> set c \<subseteq> set (read_scope_ceiling @ oidc_scope_ceiling) \<longrightarrow>
         entitled (set (listing (fw_fga w) (entitlement_store (pg_db w) t))) u ADMIN_REL GATEWAY_APP_OBJECT)
    \<and> (\<not> set c \<subseteq> set oidc_scope_ceiling \<longrightarrow>
         entitled (set (listing (fw_fga w) (entitlement_store (pg_db w) t))) u ADMIN_REL GATEWAY_APP_OBJECT
       \<or> entitled (set (listing (fw_fga w) (entitlement_store (pg_db w) t))) u MEMBER_REL GATEWAY_APP_OBJECT)"
proof -
  have sub: "set read_scope_ceiling \<subseteq> set admin_scope_ceiling"
    by (simp add: read_scope_ceiling_def admin_scope_ceiling_def)
  obtain z w1 where "check_or_false (openfga b) t u GATEWAY_APP_OBJECT ADMIN_REL w = (z :: service_error + bool, w1)" by fastforce
  note adm = this check_or_false_result [OF assms(1) this]
  then obtain y where y: "z = Inr y" and db: "pg_db w1 = pg_db w" "listing (fw_fga w1) = listing (fw_fga w)"
    and imp: "y \<longrightarrow> entitled (set (listing (fw_fga w) (entitlement_store (pg_db w) t))) u ADMIN_REL GATEWAY_APP_OBJECT" by blast
  show ?thesis
  proof (cases y)
    case True
    then have "x = Inr (admin_scope_ceiling @ oidc_scope_ceiling)"
      using assms(2) adm(1) y by (simp add: effective_scope_ceiling_def bindE_def ret_def)
    then show ?thesis using True imp by auto
  next
    case False
    obtain z2 w2 where "check_or_false (openfga b) t u GATEWAY_APP_OBJECT MEMBER_REL w1 = (z2 :: service_error + bool, w2)" by fastforce
    note mem = this check_or_false_result [OF _ this, of listing]
    then obtain y2 where y2: "z2 = Inr y2"
      and imp2: "y2 \<longrightarrow> entitled (set (listing (fw_fga w) (entitlement_store (pg_db w) t))) u MEMBER_REL GATEWAY_APP_OBJECT"
      using assms(1) db by auto
    have "x = Inr (if y2 then read_scope_ceiling @ oidc_scope_ceiling else oidc_scope_ceiling)"
      using assms(2) adm(1) y False mem(1) y2 by (auto simp: effective_scope_ceiling_def bindE_def ret_def)
    then show ?thesis using imp2 sub by auto
  qed
qed

text \<open>
  What disabling an account removes: \<^verbatim>\<open>remove_all_for_identity\<close> deletes exactly the identity's own
  tuples on the applications of the tenant. A role on the gateway object itself, which no
  application row stands for, stays, and with it the scopes that follow from it.
\<close>

theorem remove_all_exact:
  assumes "fga_store_ok (ob_client b) listing tok" and "order_ok b" and "remove_all_for_identity (openfga b) t u w = (Inr (), v)"
  shows "set (listing (fw_fga v) (entitlement_store (pg_db w) t)) = set (listing (fw_fga w) (entitlement_store (pg_db w) t))
      - {entitlement_triple (ap_public_id a) rel u |a rel. a \<in> set (applications (pg_db w)) \<and> ap_tenant_id a = t \<and> rel \<in> {MEMBER_REL, ADMIN_REL}}
    \<and> (entitlement_triple GATEWAY_APP_OBJECT rel u \<in> set (listing (fw_fga w) (entitlement_store (pg_db w) t))
        \<and> (\<forall>a \<in> set (applications (pg_db w)). ap_tenant_id a = t \<longrightarrow> ap_public_id a \<noteq> GATEWAY_APP_OBJECT)
       \<longrightarrow> entitled (set (listing (fw_fga v) (entitlement_store (pg_db w) t))) u rel GATEWAY_APP_OBJECT)"
    (is "?exact \<and> (?role \<longrightarrow> ?kept)")
proof -
  let ?apps = "sort_key ap_public_id (filter (\<lambda>a. ap_tenant_id a = t) (applications (pg_db w)))"
  let ?ks = "concat (map (\<lambda>app. map (\<lambda>relation. entitlement_tuple (ap_public_id app) relation u) [MEMBER_REL, ADMIN_REL]) ?apps)"
  obtain w1 where list: "application_list_by_tenant t w = (Inr ?apps, w1)" and w1: "pg_db w1 = pg_db w" "fw_fga w1 = fw_fga w"
    and rest: "?ks = [] \<and> v = w1 \<or> fga_ensure_tuples b t [] ?ks w1 = (Inr (), v)"
  proof -
    obtain apps w1 where l: "application_list_by_tenant t w = (Inr apps, w1)"
      and r: "(let deletes = concat (map (\<lambda>app. map (\<lambda>relation. entitlement_tuple (ap_public_id app) relation u) [MEMBER_REL, ADMIN_REL]) apps)
         in if deletes = [] then ret () else map_err map_backend_error (fga_ensure_tuples b t [] deletes)) w1 = (Inr (), v)"
      using assms(3) by (auto simp: remove_all_for_identity_def run_simps cong: if_cong)
    have "apps = ?apps" "pg_db w1 = pg_db w" "fw_fga w1 = fw_fga w"
      using pg_query_Inr [OF l [unfolded application_list_by_tenant_def]] by auto
    then show thesis using that [of w1] l r by (auto simp: Let_def ret_def run_simps split: if_splits)
  qed
  have img: "(\<lambda>k. triple (client_tuple_key k)) ` set ?ks
      = {entitlement_triple (ap_public_id a) rel u |a rel. a \<in> set (applications (pg_db w)) \<and> ap_tenant_id a = t \<and> rel \<in> {MEMBER_REL, ADMIN_REL}}"
    by force
  have exact: ?exact
    using rest
  proof
    assume "?ks = [] \<and> v = w1"
    then show ?thesis using img w1 by auto
  next
    assume run: "fga_ensure_tuples b t [] ?ks w1 = (Inr (), v)"
    have "\<forall>k \<in> set ([] @ ?ks). rk_namespace k = ENTITLEMENT_NAMESPACE \<and> rk_relation k \<noteq> []" by auto
    from ensure_entitlements [OF assms(1,2) disjI1 [OF refl] this run] show ?thesis unfolding img w1 by simp
  qed
  have ?kept if ?role
  proof (rule entitled_direct)
    have "entitlement_triple GATEWAY_APP_OBJECT rel u
        \<notin> {entitlement_triple (ap_public_id a) rel u |a rel. a \<in> set (applications (pg_db w)) \<and> ap_tenant_id a = t \<and> rel \<in> {MEMBER_REL, ADMIN_REL}}"
      using that by (auto simp: entitlement_triple_def app_object_def typed_object_def)
    then show "entitlement_triple GATEWAY_APP_OBJECT rel u \<in> set (listing (fw_fga v) (entitlement_store (pg_db w) t))"
      unfolding exact using that by blast
  qed
  then show ?thesis using exact by blast
qed

definition classified :: "string \<Rightarrow> string \<Rightarrow> string \<Rightarrow> application_row option \<Rightarrow> client_entitlement" where
  "classified t owner p row =
     (case row of
        None \<Rightarrow> Provisional p owner
      | Some a \<Rightarrow> if ap_tenant_id a = t then LocalApp p (ap_registration_source a)
          else CrossTenantOwned p (ap_tenant_id a) (ap_cross_tenant a))"

lemma classify_owned_Inr:
  assumes "classify_owned t owner p w = (Inr ce, v)"
  shows "ce = classified t owner p (find (\<lambda>a. ap_public_id a = p) (applications (pg_db w)))"
proof (cases rule: pg_query_cases [of "\<lambda>now db. ok_or ApplicationNotFound (find (\<lambda>a. ap_public_id a = p) (applications db))" w])
  case (lost m)
  then show ?thesis using assms by (simp add: classify_owned_def application_get_by_public_id_def attempt_def raise_def)
next
  case answered
  then show ?thesis
    using assms by (cases "find (\<lambda>a. ap_public_id a = p) (applications (pg_db w))")
      (auto simp: classify_owned_def application_get_by_public_id_def attempt_def ret_def classified_def ok_or_def)
qed

lemma attempt_at: "m s = (r, u) \<Longrightarrow> attempt m k s = k r u"
  by (simp add: attempt_def)

lemma mapping_queries_db:
  "pg_db (snd (get_public_id t b i w)) = pg_db w" "pg_db (snd (get_tenant_id_by_ory_id b i w)) = pg_db w"
  "pg_db (snd (get_public_id_by_ory_id b i w)) = pg_db w"
  by (simp_all add: get_public_id_def get_tenant_id_by_ory_id_def get_public_id_by_ory_id_def pg_query_any_def pg_query_state)

lemma resolve_client_Inr:
  assumes "resolve_client_entitlement t client w = (Inr ce, v)"
  shows "ce = Unmapped \<or> (\<exists>owner p. ce = classified t owner p (find (\<lambda>a. ap_public_id a = p) (applications (pg_db w))))"
proof -
  obtain r u where q: "get_public_id t ''hydra'' client w = (r, u)" by fastforce
  have u: "pg_db u = pg_db w" using mapping_queries_db(1) [of t "''hydra''" client w] q by simp
  show ?thesis
  proof (cases r)
    case (Inr p)
    then have "classify_owned t t p u = (Inr ce, v)" using assms q by (simp add: resolve_client_entitlement_def attempt_def)
    from classify_owned_Inr [OF this] show ?thesis unfolding u by blast
  next
    case (Inl e)
    then obtain owner u1 where o: "get_tenant_id_by_ory_id ''hydra'' client u = (Inr owner, u1)"
      and rest: "(case owner of None \<Rightarrow> ret Unmapped
         | Some owner_tenant \<Rightarrow> attempt (get_public_id_by_ory_id ''hydra'' client) (\<lambda>r. case r of
             Inr public_id \<Rightarrow> classify_owned t owner_tenant public_id
           | Inl err \<Rightarrow> if err = MappingNotFound then ret Unmapped else raise err)) u1 = (Inr ce, v)"
      using assms [unfolded resolve_client_entitlement_def attempt_at [where m = "get_public_id t ''hydra'' client" and s = w, OF q]] by (auto simp: raise_def run_simps split: if_splits)
    have u1: "pg_db u1 = pg_db w" using mapping_queries_db(2) [of "''hydra''" client u] o u by simp
    show ?thesis
    proof (cases owner)
      case (Some ot)
      obtain r2 u2 where q2: "get_public_id_by_ory_id ''hydra'' client u1 = (r2, u2)" by fastforce
      have u2: "pg_db u2 = pg_db w" using mapping_queries_db(3) [of "''hydra''" client u1] q2 u1 by simp
      show ?thesis
      proof (cases r2)
        case (Inr p)
        then have "classify_owned t ot p u2 = (Inr ce, v)" using rest Some q2 by (simp add: attempt_def)
        from classify_owned_Inr [OF this] show ?thesis unfolding u2 by blast
      qed (use rest Some q2 in \<open>simp add: attempt_def ret_def raise_def split: if_splits\<close>)
    qed (use rest in \<open>simp add: ret_def\<close>)
  qed
qed

text \<open>
  No first use of what another tenant owns: a client that is offered for first-use consent
  has no application row, or one of the caller's own tenant that dynamic registration made; a
  client that resolves as local has its row in the caller's tenant.
\<close>

theorem first_use_unowned:
  assumes "applications_ok (pg_db w)" and "resolve_client_entitlement t client w = (Inr ce, v)"
  shows "(is_first_use_eligible ce \<longrightarrow> (\<exists>p. ce_public_id ce = Some p \<and> (\<forall>a \<in> set (applications (pg_db w)).
            ap_public_id a = p \<longrightarrow> ap_tenant_id a = t \<and> ap_registration_source a = ''dcr'')))
    \<and> (\<forall>p src. ce = LocalApp p src \<longrightarrow> (\<exists>a \<in> set (applications (pg_db w)). ap_public_id a = p \<and> ap_tenant_id a = t \<and> ap_registration_source a = src))"
proof -
  have uniq: "key_unique ap_public_id (applications (pg_db w))" using assms(1) by (simp add: applications_ok_def)
  show ?thesis
  proof (cases "ce = Unmapped")
    case False
    then obtain owner p where ce: "ce = classified t owner p (find (\<lambda>a. ap_public_id a = p) (applications (pg_db w)))"
      using resolve_client_Inr [OF assms(2)] by blast
    show ?thesis
    proof (cases "find (\<lambda>a. ap_public_id a = p) (applications (pg_db w))")
      case None
      have "ce = Provisional p owner" using ce by (simp only: None classified_def option.case)
      then show ?thesis using None [unfolded find_None_iff] by auto
    next
      case (Some a)
      then have a: "a \<in> set (applications (pg_db w))" "ap_public_id a = p" by (auto dest: find_SomeD)
      then have only: "a' = a" if "a' \<in> set (applications (pg_db w))" "ap_public_id a' = p" for a'
        using key_uniqueD [OF uniq] that by metis
      have "ce = (if ap_tenant_id a = t then LocalApp p (ap_registration_source a)
          else CrossTenantOwned p (ap_tenant_id a) (ap_cross_tenant a))" using ce by (simp only: Some classified_def option.case)
      then consider "ap_tenant_id a = t" "ce = LocalApp p (ap_registration_source a)"
        | "ce = CrossTenantOwned p (ap_tenant_id a) (ap_cross_tenant a)" by metis
      then show ?thesis
      proof cases
        case 1
        have "ap_registration_source a = ''dcr''" if "is_first_use_eligible ce" using that 1 by (simp add: registration_source_dcr_def)
        moreover have "ce_public_id ce = Some p" using 1 by simp
        ultimately show ?thesis using only a 1 by (metis client_entitlement.inject(1))
      qed simp
    qed
  qed simp
qed

section \<open>The namespace is provisioned once\<close>

lemma map_of_rebuilt:
  assumes "set ks = fst ` set gs"
  shows "map_of (map (\<lambda>k. (k, the (map_of gs k))) ks) = map_of gs"
proof
  fix k
  show "map_of (map (\<lambda>k. (k, the (map_of gs k))) ks) k = map_of gs k"
  proof (cases "map_of gs k")
    case None
    then have "k \<notin> set ks" using assms by (simp add: map_of_eq_None_iff)
    then show ?thesis using None by (simp add: map_of_map_restrict)
  next
    case (Some x)
    then have "k \<in> set ks" using assms by (metis domI dom_map_of_conv_image_fst)
    then show ?thesis using Some by (simp add: map_of_map_restrict)
  qed
qed

lemma json_get_norm: "json_get (json_norm v) k = map_option json_norm (json_get v k)"
proof (cases v)
  case (JObj fs)
  let ?gs = "map (\<lambda>(k, v). (k, json_norm v)) fs"
  have "map_of (map (\<lambda>k. (k, the (map_of ?gs k))) (sort (remdups (map fst ?gs)))) = map_of ?gs"
    by (rule map_of_rebuilt) (simp add: image_image)
  then show ?thesis using JObj by (simp add: Let_def map_of_map)
qed simp_all

lemma norm_array [simp]: "as_array (json_norm v) = map_option (map json_norm) (as_array v)"
  by (cases v) (simp_all add: Let_def)

lemma norm_str [simp]: "as_str (json_norm v) = as_str v"
  by (cases v) (simp_all add: Let_def)

lemma norm_object: "map_option (\<lambda>fs. fs \<noteq> []) (as_object (json_norm v)) = map_option (\<lambda>fs. fs \<noteq> []) (as_object v)"
proof (cases v)
  case (JObj fs)
  have "sort ks = [] \<longleftrightarrow> ks = []" for ks :: "string list" by (metis length_0_conv length_sort)
  then show ?thesis using JObj by (simp add: Let_def)
qed simp_all

lemma bind_norm: "Option.bind (map_option json_norm x) as_str = Option.bind x as_str"
  "Option.bind (map_option json_norm x) as_array = map_option (map json_norm) (Option.bind x as_array)"
  by (cases x; simp)+

lemma has_relations_norm: "has_relations (json_norm d) = has_relations d"
proof (cases "json_get d ''relations''")
  case (Some r)
  then show ?thesis
    using norm_object [of r] by (cases "as_object r"; cases "as_object (json_norm r)") (simp_all add: has_relations_def json_get_norm)
qed (simp add: has_relations_def json_get_norm)

lemma relation_bearing_norm: "relation_bearing_type_names (json_norm m) = relation_bearing_type_names m"
proof -
  have name: "type_name (json_norm d) = type_name d" for d by (simp add: type_name_def json_get_norm bind_norm)
  have "type_definitions (json_norm m) = map json_norm (type_definitions m)"
    by (simp add: type_definitions_def json_get_norm bind_norm split: option.splits)
  moreover have "List.map_filter type_name (filter has_relations (map json_norm ds)) = List.map_filter type_name (filter has_relations ds)" for ds
    by (induction ds) (simp_all add: List.map_filter_def has_relations_norm name)
  ultimately show ?thesis by (simp add: relation_bearing_type_names_def)
qed

lemma json_eq_types: "json_eq a b \<Longrightarrow> relation_bearing_type_names a = relation_bearing_type_names b"
  using relation_bearing_norm [of a] relation_bearing_norm [of b] by (simp add: json_eq_def)

lemma keeps_ok_ensure_model: "keeps (\<lambda>w. namespaces_ok (pg_db w)) (fga_ensure_model b t ns model)"
  unfolding fga_ensure_model_def fga_provision_def persist_record_def
  by (auto intro!: keeps_rules keeps_store_calls keeps_pg_repo split: option.splits)

lemma persisted:
  assumes "namespaces_ok (pg_db w)" and "persist_record t ns model si mi w = (Inr (), v)"
  shows "\<exists>n. find_namespace (pg_db v) t ns = Some n \<and> json_eq (ns_model n) model"
proof -
  obtain r where "pg_repo_upsert t \<lparr>nr_namespace = ns, nr_model = model, nr_types = model_type_names model, nr_store_id = Some si,
      nr_model_id = Some mi, nr_created_at = None, nr_updated_at = None\<rparr> w = (Inr r, v)"
    using assms(2) by (auto simp: persist_record_def run_simps)
  from pg_repo.upsert_law [OF assms(1) this] have "pg_ns_view v (t, ns) = Some (merged_core \<lparr>nr_namespace = ns, nr_model = model,
      nr_types = model_type_names model, nr_store_id = Some si, nr_model_id = Some mi, nr_created_at = None, nr_updated_at = None\<rparr>
      (pg_ns_view w (t, ns)))" by simp
  then show ?thesis by (auto simp: pg_ns_view_def merged_core_def nr_core_def split: option.splits)
qed

text \<open>A sequence establishes what its last step establishes under an invariant of the steps before it.\<close>

lemma last_step:
  assumes "keeps I m" and "\<And>x u v. I u \<Longrightarrow> f x u = (Inr y, v) \<Longrightarrow> Q v" and "I w" and "bindE m f w = (Inr y, v)"
  shows "Q v"
  using assms(4) by (rule bindE_InrE) (use assms(1,2,3) in \<open>blast dest: keepsD\<close>)

lemma ensure_model_registers:
  assumes "namespaces_ok (pg_db w)" and "fga_ensure_model b t ns model w = (Inr (), v)"
  shows "namespaces_ok (pg_db v) \<and> (\<exists>n. find_namespace (pg_db v) t ns = Some n \<and> json_eq (ns_model n) model)"
proof -
  let ?I = "\<lambda>w. namespaces_ok (pg_db w)"
  let ?Q = "\<lambda>v. \<exists>n. find_namespace (pg_db v) t ns = Some n \<and> json_eq (ns_model n) model"
  have wrote: "?Q v" if "?I u" "bindE (fga (write_model (ob_client b) si model)) (\<lambda>mi. persist_record t ns model si mi) u = (Inr (), v)" for si u v
    by (rule last_step [where I = ?I, OF _ _ that]) (intro keeps_rules keeps_store_calls, rule persisted)
  have provisioned: "?Q v" if run: "?I u" "fga_provision b t ns model u = (Inr (), v)" for u v
  proof (rule last_step [where I = ?I, OF _ _ run [unfolded fga_provision_def]], goal_cases)
    case (2 found u v)
    show ?case
      by (rule last_step [where I = ?I, OF _ _ 2]) (auto intro!: keeps_rules keeps_store_calls wrote split: option.splits)
  qed (intro keeps_rules keeps_store_calls)
  obtain x u where get: "pg_repo_get t ns w = (Inr x, u)"
    and rest: "(case x of None \<Rightarrow> fga_provision b t ns model
       | Some record \<Rightarrow> if opt_text (nr_store_id record) = [] then fga_provision b t ns model
           else if json_eq (nr_model record) model then ret ()
           else bindE (fga (write_model (ob_client b) (opt_text (nr_store_id record)) model)) (\<lambda>model_id.
                persist_record t ns model (opt_text (nr_store_id record)) model_id)) u = (Inr (), v)"
    using assms(2) by (auto simp: fga_ensure_model_def run_simps)
  obtain row where q: "pg_query (\<lambda>now db. Inr (map_option (select_row db) (find_namespace db t ns))) w = (Inr row :: db_error + _, u)"
    and "x = map_option namespace_record_from_row row"
    using get by (auto simp: pg_repo_get_def pg_namespace_get_def run_simps)
  then have u: "pg_db u = pg_db w" and x: "\<And>r. x = Some r \<Longrightarrow> \<exists>n. find_namespace (pg_db w) t ns = Some n \<and> nr_model r = ns_model n"
    using pg_query_Inr [OF q] by (auto simp: namespace_record_from_row_def select_row_def)
  have I: "?I u" using u assms(1) by simp
  have "?Q v"
  proof (cases x)
    case None
    then show ?thesis using provisioned [OF I] rest by simp
  next
    case (Some r)
    then show ?thesis using rest provisioned [OF I] wrote [OF I] x u by (auto simp: ret_def split: if_splits)
  qed
  then show ?thesis using keepsD [OF keeps_ok_ensure_model assms] by blast
qed

lemma ensure_model_noop:
  assumes "find_namespace (pg_db w) t ns = Some n" and "opt_text (ns_store_id n) \<noteq> []" and "json_eq (ns_model n) model"
    and "fga_ensure_model b t ns model w = (x, v)"
  shows "pg_db v = pg_db w \<and> fw_fga v = fw_fga w"
proof (cases rule: pg_query_cases [of "\<lambda>now db. Inr (map_option (select_row db) (find_namespace db t ns)) :: db_error + _" w])
  case (lost m)
  then show ?thesis using assms(4)
    by (auto simp: fga_ensure_model_def pg_repo_get_def pg_namespace_get_def bindE_def map_err_def)
next
  case answered
  then show ?thesis using assms
    by (auto simp: fga_ensure_model_def pg_repo_get_def pg_namespace_get_def bindE_def map_err_def ret_def
        namespace_record_from_row_def select_row_def)
qed

text \<open>Once its tuples can be written, the entitlement namespace is there for good.\<close>

lemma namespace_settled:
  assumes ok: "namespaces_ok (pg_db w)" and n: "find_namespace (pg_db w) t ENTITLEMENT_NAMESPACE = Some n" "json_eq (ns_model n) entitlement_model"
  shows "entitlement_store (pg_db w) t = opt_text (ns_store_id n)"
proof -
  have key: "n \<in> set (permission_namespaces (pg_db w))" "ns_tenant_id n = t" "ns_namespace n = ENTITLEMENT_NAMESPACE"
    using n(1) by (auto simp: find_namespace_def ns_key_def dest: find_SomeD)
  have "relation_bearing_type_names entitlement_model = [''entitlements'']" by code_simp
  then have "owns_type (pg_db w) t ENTITLEMENT_NAMESPACE ENTITLEMENT_NAMESPACE"
    using ok key json_eq_types [OF n(2)] by (auto simp: namespaces_ok_def ENTITLEMENT_NAMESPACE_def)
  then have "find (\<lambda>x. nt_key x = (t, ENTITLEMENT_NAMESPACE)) (permission_namespace_types (pg_db w))
      = Some \<lparr>nt_tenant_id = t, nt_type = ENTITLEMENT_NAMESPACE, nt_namespace = ENTITLEMENT_NAMESPACE\<rparr>"
    using ok by (intro find_key_unique [where key = nt_key]) (auto simp: namespaces_ok_def nt_key_def owns_type_def)
  then have "mapping_of (pg_db w) t ENTITLEMENT_NAMESPACE = Some n" using n(1) by (simp add: mapping_of_def find_type_owner_def)
  then show ?thesis by (simp add: entitlement_store_def store_of_def)
qed

lemma seed_tuples_ent:
  "\<forall>k \<in> set (seed_tuples app gs). rk_namespace k = ENTITLEMENT_NAMESPACE \<and> rk_relation k \<noteq> []"
  by (auto simp: seed_tuples_def)

lemma seeded_link:
  assumes "g \<in> set gs"
  shows "(app_object g @ ''#'' @ MEMBER_REL, level_relation l, app_object app) \<in> (\<lambda>k. triple (client_tuple_key k)) ` set (seed_tuples app gs)"
proof -
  have "entitlement_triple app (level_relation l) (group_members g) = (app_object g @ ''#'' @ MEMBER_REL, level_relation l, app_object app)"
    by (simp add: entitlement_triple_def typed_user_def group_members_def ENTITLEMENT_NAMESPACE_def app_object_def typed_object_def)
  moreover have "entitlement_tuple app (level_relation l) (group_members g) \<in> set (seed_tuples app gs)"
    using assms by (cases l) (auto simp: seed_tuples_def)
  ultimately show ?thesis by (metis (no_types, lifting) entitlement_key(1) imageI)
qed

lemma resolve_all_stores:
  "resolve_all t ks rs w = (Inr rs', v) \<Longrightarrow> k \<in> set ks \<Longrightarrow> rk_namespace k \<notin> fst ` set rs \<Longrightarrow> store_of (pg_db w) t (rk_namespace k) \<noteq> []"
proof (induction t ks rs arbitrary: w rule: resolve_all.induct)
  case (2 t k' ks rs)
  show ?case
  proof (cases "rk_namespace k' \<in> fst ` set rs")
    case True
    then have "k \<in> set ks" using 2(4,5) by auto
    then show ?thesis using 2(1) [OF True] 2(3,5) True by simp
  next
    case False
    then obtain r u where res: "resolve_mapping t (rk_namespace k') w = (Inr r, u)"
      and rest: "resolve_all t ks (rs @ [(rk_namespace k', r)]) u = (Inr rs', v)"
      using 2(3) by (auto simp: run_simps)
    note s = resolve_mapping_result [OF res]
    show ?thesis
    proof (cases "rk_namespace k = rk_namespace k'")
      case True
      then show ?thesis using s(3) by simp
    next
      case ne: False
      then have "k \<in> set ks" "rk_namespace k \<notin> fst ` set (rs @ [(rk_namespace k', r)])" using 2(4,5) by auto
      then show ?thesis using 2(2) [OF False rest] s(1) by simp
    qed
  qed
qed simp

lemma ensured_store:
  assumes "fga_ensure_tuples b t ws ds w = (Inr (), v)" and "k \<in> set (ws @ ds)"
  shows "store_of (pg_db w) t (rk_namespace k) \<noteq> []"
proof -
  obtain rs u where "resolve_all t (ws @ ds) [] w = (Inr rs, u)" using assms(1) by (auto simp: fga_ensure_tuples_def run_simps)
  from resolve_all_stores [OF this assms(2)] show ?thesis by simp
qed

text \<open>
  Groups confer access: once an application has been seeded with a group and then an identity
  has been made a member of that group, a check of the identity on the application that answers
  says yes, for member and admin alike; the namespace that the first call may have to provision
  is the one the second works in.
\<close>

theorem group_confers_access:
  assumes "namespaces_ok (pg_db w)" and ok: "fga_store_ok (ob_client b) listing tok" "order_ok b"
    and seed: "seed_application (openfga b) t app gs w = (Inr (), w1)" and g: "g \<in> set gs"
    and join: "set_group_membership (openfga b) t g u True w1 = (Inr (), v)"
    and chk: "checks_related (ob_client b) listing (entitlement_store (pg_db v) t)"
      "entitlement_check (openfga b) t u app (level_relation l) v = (Inr allowed, v')"
  shows "allowed"
proof -
  have ne: "seed_tuples app gs \<noteq> []" using g by (cases gs) (auto simp: seed_tuples_def)
  obtain w0 where m1: "fga_ensure_model b t ENTITLEMENT_NAMESPACE entitlement_model w = (Inr (), w0)"
    and e1: "fga_ensure_tuples b t (seed_tuples app gs) [] w0 = (Inr (), w1)"
    using seed ne by (auto simp: seed_application_def ensure_namespace_def run_simps)
  obtain w2 where m2: "fga_ensure_model b t ENTITLEMENT_NAMESPACE entitlement_model w1 = (Inr (), w2)"
    and e2: "fga_ensure_tuples b t [entitlement_tuple g MEMBER_REL u] [] w2 = (Inr (), v)"
    using join by (auto simp: set_group_membership_def ensure_namespace_def run_simps Let_def)
  obtain n where okn: "namespaces_ok (pg_db w0)" and n: "find_namespace (pg_db w0) t ENTITLEMENT_NAMESPACE = Some n" "json_eq (ns_model n) entitlement_model"
    using ensure_model_registers [OF assms(1) m1] by blast
  let ?s = "entitlement_store (pg_db w0) t"
  obtain k where k: "k \<in> set (seed_tuples app gs)" using ne by (cases "seed_tuples app gs") auto
  have "?s \<noteq> []" using ensured_store [OF e1, of k] k seed_tuples_ent [of app gs] by (simp add: entitlement_store_def)
  then have store: "opt_text (ns_store_id n) \<noteq> []" using namespace_settled [OF okn n] by simp
  note t1 = ensure_entitlements [OF ok disjI2 [OF refl] _ e1]
  have db1: "pg_db w1 = pg_db w0" and l1: "set (listing (fw_fga w1) ?s) = set (listing (fw_fga w0) ?s) \<union> (\<lambda>k. triple (client_tuple_key k)) ` set (seed_tuples app gs)"
    using t1 seed_tuples_ent by auto
  have same: "pg_db w2 = pg_db w0" "fw_fga w2 = fw_fga w1"
    using ensure_model_noop [OF _ store n(2) m2] n(1) db1 by auto
  note t2 = ensure_entitlements [OF ok disjI2 [OF refl] _ e2]
  have db2: "pg_db v = pg_db w0" and l2: "set (listing (fw_fga v) ?s) = insert (entitlement_triple g MEMBER_REL u) (set (listing (fw_fga w1) ?s))"
    using t2 same by auto
  let ?T = "set (listing (fw_fga v) ?s)"
  have "related ?T (typed_user u) MEMBER_REL (app_object g)" using l2 by (intro related.direct) (simp add: entitlement_triple_def)
  moreover have "(app_object g @ ''#'' @ MEMBER_REL, level_relation l, app_object app) \<in> ?T" using l1 l2 seeded_link [OF g] by blast
  ultimately have "entitled ?T u (level_relation l) app" unfolding entitled_def by (rule related.userset [rotated])
  then show ?thesis using entitlement_check_result [OF chk] db2 by simp
qed

section \<open>Witnesses\<close>

definition provisioned_db :: database where
  "provisioned_db = entitled_db\<lparr>permission_namespaces := [\<lparr>ns_tenant_id = ''T'', ns_namespace = ''entitlements'', ns_model = entitlement_model,
       ns_store_id = Some ''s'', ns_model_id = Some ''m'', ns_created_at = 0, ns_updated_at = 0\<rparr>],
     permission_namespace_types := [\<lparr>nt_tenant_id = ''T'', nt_type = ''entitlements'', nt_namespace = ''entitlements''\<rparr>]\<rparr>"

definition provisioned_world :: "fga_tuple list \<Rightarrow> fga_tuple list fga_world" where
  "provisioned_world f = pg.extend (quiet_pg provisioned_db 0) \<lparr>fw_fga = f\<rparr>"

lemma provisioned_simps [simp]:
  "pg_db (provisioned_world f) = provisioned_db" "fw_fga (provisioned_world f) = f" "pg_fault (provisioned_world f) = (\<lambda>_. None)"
  "pg_now (provisioned_world f) = 0"
  by (simp_all add: provisioned_world_def quiet_pg_def pg.defs)

lemma provisioned_ok: "namespaces_ok provisioned_db"
proof -
  have "relation_bearing_type_names entitlement_model = [''entitlements'']" by code_simp
  then show ?thesis by (auto simp: namespaces_ok_def provisioned_db_def key_unique_def owns_type_def ns_key_def)
qed

lemma provisioned_store: "entitlement_store provisioned_db ''T'' = ''s''"
  by (simp add: entitlement_store_def store_of_def mapping_of_def find_type_owner_def find_namespace_def provisioned_db_def nt_key_def
      ns_key_def opt_text_def ENTITLEMENT_NAMESPACE_def)

text \<open>The checks of the sample server, on any world over the provisioned database.\<close>

lemma sample_check:
  assumes "pg_db w = provisioned_db" and "\<And>n. pg_fault w n = None"
  shows "\<exists>v. entitlement_check (openfga sample_backend) ''T'' u app rel w = (Inr (entitled (set (fw_fga w)) u rel app), v)
    \<and> pg_db v = provisioned_db \<and> pg_fault v = pg_fault w"
proof -
  have "\<exists>r u1. resolve_mapping ''T'' ''entitlements'' w = (Inr r, u1) \<and> nr_store_id r = Some ''s'' \<and> u1 = w\<lparr>pg_queries := Suc (pg_queries w)\<rparr>"
    using assms by (simp add: resolve_mapping_def pg_repo_get_by_type_def pg_namespace_get_by_type_def bindE_def map_err_def pg_query_no_fault
        ret_def provisioned_db_def find_type_owner_def find_namespace_def nt_key_def ns_key_def select_row_def namespace_record_from_row_def
        opt_text_def Let_def)
  then obtain r where res: "resolve_mapping ''T'' ''entitlements'' w = (Inr r, w\<lparr>pg_queries := Suc (pg_queries w)\<rparr>)" and st: "nr_store_id r = Some ''s''"
    by blast
  show ?thesis
    using assms by (simp add: entitlement_check_def fga_check_permission_def ENTITLEMENT_NAMESPACE_def bindE_def res st fga_def map_err_def opt_text_def
        client_check_def fga_join_def fga_call_def sample_backend_def sample_client_def sample_send_def lift_result_def ret_def default_payload
        handle_response_def is_success_def check_payload_def json_index_def json_triple_def str_field_def entitled_def app_object_def)
qed

lemma keeps_fault:
  "keeps (\<lambda>w. pg_fault w = F) (fga_ensure_model b t ns model)" "keeps (\<lambda>w. pg_fault w = F) (fga_ensure_tuples b t ws ds)"
proof -
  have q: "keeps (\<lambda>w. pg_fault w = F) (pg_exec st)" for st :: "'q stmt"
    by (simp add: keeps_def pg_exec_def Let_def split: prod.splits option.splits fault.splits)
  have call: "keeps (\<lambda>w. pg_fault w = F) (fga_call c meth url query body)" for c meth url query body
    by (rule keepsI, erule fga_call_cases) (auto dest: fga_frame_pg(3))
  have get: "keeps (\<lambda>w. pg_fault w = F) (pg_repo_get t ns)" for t ns
    unfolding pg_repo_get_def pg_namespace_get_def pg_query_def by (intro keeps_rules) (simp add: keeps_def pg_exec_def Let_def split: prod.splits option.splits fault.splits)
  have put: "keeps (\<lambda>w. pg_fault w = F) (pg_repo_upsert t r)" for t r
    unfolding pg_repo_upsert_def pg_namespace_upsert_def by (intro keeps_rules) (simp add: keeps_def pg_exec_def Let_def split: prod.splits option.splits fault.splits)
  show "keeps (\<lambda>w. pg_fault w = F) (fga_ensure_model b t ns model)"
    unfolding fga_ensure_model_def fga_provision_def persist_record_def
    by (auto intro!: keeps_rules keeps_store_calls get call put split: option.splits)
  show "keeps (\<lambda>w. pg_fault w = F) (fga_ensure_tuples b t ws ds)"
    by (rule keeps_backend_calls [where I = "\<lambda>w. pg_fault w = F", OF call get keeps_fault_resolve [where P = "\<lambda>f. f = F"]])
qed

text \<open>A run of the sample backend that leaves the provisioned database as it is.\<close>

definition settled :: "fga_tuple list fga_world \<Rightarrow> bool" where
  "settled w \<longleftrightarrow> pg_db w = provisioned_db \<and> pg_fault w = (\<lambda>_. None)"

lemma keeps_settled:
  "keeps settled (grant (openfga b) ''T'' u app l)" "keeps settled (seed_application (openfga b) ''T'' app gs)"
  "keeps settled (set_group_membership (openfga b) ''T'' g u x)"
proof -
  have find: "find_namespace provisioned_db ''T'' ENTITLEMENT_NAMESPACE = Some \<lparr>ns_tenant_id = ''T'', ns_namespace = ''entitlements'',
      ns_model = entitlement_model, ns_store_id = Some ''s'', ns_model_id = Some ''m'', ns_created_at = 0, ns_updated_at = 0\<rparr>"
    by (simp add: provisioned_db_def find_namespace_def ns_key_def ENTITLEMENT_NAMESPACE_def)
  have model: "keeps settled (ensure_namespace (openfga b) ''T'')"
  proof (rule keepsI)
    fix w r v
    assume I: "settled w" and run: "ensure_namespace (openfga b) ''T'' w = (r, v)"
    then obtain x where m: "fga_ensure_model b ''T'' ENTITLEMENT_NAMESPACE entitlement_model w = (x, v)"
      by (auto simp: ensure_namespace_def map_err_def split: prod.splits sum.splits)
    have "pg_db v = provisioned_db" using ensure_model_noop [OF _ _ _ m] I find by (simp add: settled_def opt_text_def)
    then show "settled v" using keepsD [OF keeps_fault(1) _ m] I by (simp add: settled_def)
  qed
  have tuples: "keeps settled (fga_ensure_tuples b t ws ds)" for t ws ds
  proof (rule keepsI)
    fix w r v
    assume I: "settled w" and run: "fga_ensure_tuples b t ws ds w = (r, v)"
    have "pg_db v = pg_db w"
      by (rule keepsD [OF keeps_backend_calls(2) [where I = "\<lambda>v. pg_db v = pg_db w", OF keeps_fga_call_db [where J = "\<lambda>db. db = pg_db w"]
          keeps_repo_db(1) [where J = "\<lambda>db. db = pg_db w"] keeps_repo_db(2) [where J = "\<lambda>db. db = pg_db w"]] refl run])
    then show "settled v" using keepsD [OF keeps_fault(2) _ run] I by (simp add: settled_def)
  qed
  show "keeps settled (grant (openfga b) ''T'' u app l)" "keeps settled (seed_application (openfga b) ''T'' app gs)"
    "keeps settled (set_group_membership (openfga b) ''T'' g u x)"
    unfolding grant_def seed_application_def set_group_membership_def Let_def openfga_sel
    by (intro keeps_rules model tuples)+
qed

lemma settled_check:
  assumes "settled w"
  shows "\<exists>v. entitlement_check (openfga sample_backend) ''T'' u app rel w = (Inr (entitled (set (fw_fga w)) u rel app), v)"
    and "entitlement_store (pg_db w) ''T'' = ''s''" and "checks_related (ob_client sample_backend) sample_listing (entitlement_store (pg_db w) ''T'')"
proof -
  show "\<exists>v. entitlement_check (openfga sample_backend) ''T'' u app rel w = (Inr (entitled (set (fw_fga w)) u rel app), v)"
    using sample_check [of w u app rel] assms by (auto simp: settled_def)
qed (use assms sample_checks provisioned_store in \<open>auto simp: settled_def sample_backend_def\<close>)

theorem grant_revoke_effective_witness:
  "\<exists>v v'. grant (openfga sample_backend) ''T'' ''u'' ''app'' Admin (provisioned_world []) = (Inr (), v)
     \<and> entitlement_check (openfga sample_backend) ''T'' ''u'' ''app'' ''admin'' v = (Inr True, v')"
proof -
  let ?w = "provisioned_world []"
  obtain x v where run: "grant (openfga sample_backend) ''T'' ''u'' ''app'' Admin ?w = (x, v)" by fastforce
  have "fst (grant (openfga sample_backend) ''T'' ''u'' ''app'' Admin ?w) = Inr ()" by code_simp
  then have x: "x = Inr ()" using run by simp
  have s: "settled v" by (rule keepsD [OF keeps_settled(1) _ run]) (simp add: settled_def)
  obtain a v' where chk: "entitlement_check (openfga sample_backend) ''T'' ''u'' ''app'' (level_relation Admin) v = (Inr a, v')"
    using settled_check(1) [OF s] by blast
  from grant_revoke_effective [OF sample_store_ok sample_order_ok settled_check(3) [OF s] chk, of ?w] run x have a by blast
  then show ?thesis using run x chk by (auto simp: ADMIN_REL_def)
qed

theorem group_confers_access_witness:
  "\<exists>w1 v v'. seed_application (openfga sample_backend) ''T'' ''app'' [''staff''] (provisioned_world []) = (Inr (), w1)
     \<and> set_group_membership (openfga sample_backend) ''T'' ''staff'' ''u'' True w1 = (Inr (), v)
     \<and> entitlement_check (openfga sample_backend) ''T'' ''u'' ''app'' ''admin'' v = (Inr True, v')"
proof -
  let ?w = "provisioned_world []"
  let ?seed = "seed_application (openfga sample_backend) ''T'' ''app'' [''staff''] ?w"
  obtain x w1 where seed: "?seed = (x, w1)" by fastforce
  obtain y v where join: "set_group_membership (openfga sample_backend) ''T'' ''staff'' ''u'' True w1 = (y, v)" by fastforce
  have "fst ?seed = Inr ()" by code_simp
  then have x: "x = Inr ()" using seed by simp
  have "fst (set_group_membership (openfga sample_backend) ''T'' ''staff'' ''u'' True (snd ?seed)) = Inr ()" by code_simp
  then have y: "y = Inr ()" using seed join by simp
  have s: "settled v"
    by (rule keepsD [OF keeps_settled(3) _ join], rule keepsD [OF keeps_settled(2) _ seed]) (simp add: settled_def)
  obtain a v' where chk: "entitlement_check (openfga sample_backend) ''T'' ''u'' ''app'' (level_relation Admin) v = (Inr a, v')"
    using settled_check(1) [OF s] by blast
  have ok: "namespaces_ok (pg_db ?w)" using provisioned_ok by simp
  have a by (rule group_confers_access [OF ok sample_store_ok sample_order_ok seed [unfolded x] _ join [unfolded y] settled_check(3) [OF s] chk]) simp
  then show ?thesis using seed join x y chk by (auto simp: ADMIN_REL_def)
qed

theorem scope_ceiling_sound_witness:
  "\<exists>c v. effective_scope_ceiling (openfga sample_backend) ''T'' ''u'' (provisioned_world []) = (Inr c :: service_error + string list, v)
     \<and> set c = set oidc_scope_ceiling"
proof -
  let ?w = "provisioned_world []"
  have s: "settled ?w" by (simp add: settled_def)
  obtain x v where run: "effective_scope_ceiling (openfga sample_backend) ''T'' ''u'' ?w = (x :: service_error + string list, v)" by fastforce
  have none: "\<not> entitled (set (sample_listing (fw_fga ?w) (entitlement_store (pg_db ?w) ''T''))) ''u'' rel GATEWAY_APP_OBJECT" for rel
    by (auto simp: entitled_def sample_listing_def elim: related.cases)
  from scope_ceiling_sound [OF settled_check(3) [OF s] run] none show ?thesis using run by blast
qed

theorem remove_all_exact_witness:
  "\<exists>v. remove_all_for_identity (openfga sample_backend) ''T'' ''u'' (provisioned_world [(''user:u'', ''admin'', ''entitlements:sso-gateway'')]) = (Inr (), v)
     \<and> entitled (set (sample_listing (fw_fga v) ''s'')) ''u'' ADMIN_REL GATEWAY_APP_OBJECT"
proof -
  let ?w = "provisioned_world [(''user:u'', ''admin'', ''entitlements:sso-gateway'')]"
  obtain x v where run: "remove_all_for_identity (openfga sample_backend) ''T'' ''u'' ?w = (x, v)" by fastforce
  have "fst (remove_all_for_identity (openfga sample_backend) ''T'' ''u'' ?w) = Inr ()" by code_simp
  then have x: "x = Inr ()" using run by simp
  have role: "entitlement_triple GATEWAY_APP_OBJECT ADMIN_REL ''u'' = (''user:u'', ''admin'', ''entitlements:sso-gateway'')" by code_simp
  have apps: "applications provisioned_db = []" by (simp add: provisioned_db_def entitled_db_def empty_db_def)
  have "entitled (set (sample_listing (fw_fga v) (entitlement_store (pg_db ?w) ''T''))) ''u'' ADMIN_REL GATEWAY_APP_OBJECT"
    by (rule mp [OF conjunct2 [OF remove_all_exact [OF sample_store_ok sample_order_ok run [unfolded x], of ADMIN_REL]]])
       (simp add: role apps provisioned_store sample_listing_def)
  then have "entitled (set (sample_listing (fw_fga v) ''s'')) ''u'' ADMIN_REL GATEWAY_APP_OBJECT" by (simp only: provisioned_simps provisioned_store)
  then show ?thesis using run x by blast
qed

theorem first_use_unowned_witness:
  "\<exists>v. resolve_client_entitlement ''T'' ''hc'' (quiet_pg (mapped_db\<lparr>id_mappings := [\<lparr>im_id = ''1'', im_tenant_id = ''T'', im_backend = ''hydra'',
         im_public_id = ''pub'', im_ory_global_id = ''hc'', im_created_at = 0\<rparr>]\<rparr>) 0) = (Inr (Provisional ''pub'' ''T''), v)
     \<and> is_first_use_eligible (Provisional ''pub'' ''T'')"
proof -
  let ?w = "quiet_pg (mapped_db\<lparr>id_mappings := [\<lparr>im_id = ''1'', im_tenant_id = ''T'', im_backend = ''hydra'',
         im_public_id = ''pub'', im_ory_global_id = ''hc'', im_created_at = 0\<rparr>]\<rparr>) 0"
  obtain x v where run: "resolve_client_entitlement ''T'' ''hc'' ?w = (x, v)" by fastforce
  have "fst (resolve_client_entitlement ''T'' ''hc'' ?w) = Inr (Provisional ''pub'' ''T'')" by code_simp
  then have x: "x = Inr (Provisional ''pub'' ''T'')" using run by simp
  have ok: "applications_ok (pg_db ?w)" by (simp add: applications_ok_def quiet_pg_def mapped_db_def empty_db_def key_unique_def)
  from first_use_unowned [OF ok run [unfolded x]] show ?thesis using run x by simp
qed

end
