(* ===== verification/OryWorld.thy ===== *)
theory OryWorld
  imports Entitlements
begin

text \<open>
  The world of the services that call Hydra and Kratos beside the database and the OpenFGA
  server, and two ways to reason about long handlers: predicates that no answer can falsify
  (\<open>framed\<close>), and outcomes that no early exit has (\<open>bindE_past\<close>).
\<close>

section \<open>Hydra and Kratos\<close>

text \<open>Both are opaque states; a client of theirs is a record of operations on the state.\<close>

record ('f, 'h, 'k) ory_world = "'f fga_world" +
  ow_hydra :: 'h
  ow_kratos :: 'k

definition hydra_op :: "('h, 'e, 'a) io \<Rightarrow> (('f, 'h, 'k, 'z) ory_world_scheme, 'e, 'a) io" where
  "hydra_op m w = (case m (ow_hydra w) of (r, h) \<Rightarrow> (r, w\<lparr>ow_hydra := h\<rparr>))"

definition kratos_op :: "('k, 'e, 'a) io \<Rightarrow> (('f, 'h, 'k, 'z) ory_world_scheme, 'e, 'a) io" where
  "kratos_op m w = (case m (ow_kratos w) of (r, k) \<Rightarrow> (r, w\<lparr>ow_kratos := k\<rparr>))"

section \<open>Frames\<close>

text \<open>A predicate that no answer of the database and of the OpenFGA server can falsify.\<close>

definition framed :: "(('f, 'z) fga_world_scheme \<Rightarrow> bool) \<Rightarrow> bool" where
  "framed I \<longleftrightarrow> (\<forall>w q db f u. I w \<longrightarrow> I (w\<lparr>pg_queries := q, pg_db := db\<rparr>) \<and> I (w\<lparr>fw_fga := f\<rparr>) \<and> I (w\<lparr>pg_ulids := u\<rparr>))"

lemma framed_exec: "framed I \<Longrightarrow> keeps I (pg_exec st)"
  unfolding framed_def keeps_def pg_exec_def Let_def
  by (auto split: prod.splits option.splits fault.splits) (metis pg_db_same)

lemma framed_query: "framed I \<Longrightarrow> keeps I (pg_query q)"
  unfolding pg_query_def by (rule framed_exec)

lemma framed_query_any:
  assumes "framed I"
  shows "keeps I (pg_query_any q)"
proof -
  have "I (snd (pg_query_any q w))" if "I w" for w
    unfolding pg_query_any_def by (rule keepsD_snd [OF framed_query [OF assms] that])
  then show ?thesis by (simp add: keeps_def)
qed

lemma framed_call:
  assumes "framed I"
  shows "keeps I (fga_call c meth url query body)"
proof -
  have "I t" if "I s" "fga_frame s t" for s t
    using assms that(1) that(2) [unfolded fga_frame_def] unfolding framed_def by metis
  then show ?thesis by (intro keepsI) (auto elim: fga_call_cases)
qed

lemma framed_ulid: "framed I \<Longrightarrow> keeps I ulid_new"
  by (simp add: framed_def keeps_def ulid_new_def)

lemmas framed_rules = keeps_rules framed_exec framed_query framed_query_any framed_call framed_ulid

lemma framed_entitlements:
  assumes I: "framed I"
  shows "keeps I (entitlement_check (openfga b) t u app rel)" and "keeps I (grant (openfga b) t u app l)"
    and "keeps I (effective_scope_ceiling (openfga b) t u)" and "keeps I (mint_claim (openfga b) t u app)"
    and "keeps I (seed_application (openfga b) t app gs)"
proof -
  have get: "keeps I (pg_repo_get t ns)" for t ns
    unfolding pg_repo_get_def pg_namespace_get_def by (intro framed_rules I)
  have res: "keeps I (resolve_mapping t ns)" for t ns
    unfolding resolve_mapping_def pg_repo_get_by_type_def pg_namespace_get_by_type_def pg_namespace_get_def Let_def
    by (auto intro!: framed_rules I split: option.splits)
  have put: "keeps I (pg_repo_upsert t r)" for t r
    unfolding pg_repo_upsert_def pg_namespace_upsert_def by (intro framed_rules I)
  have model: "keeps I (fga_ensure_model b t ns model)" for t ns model
    unfolding fga_ensure_model_def fga_provision_def persist_record_def fga_def
    by (auto intro!: keeps_rules keeps_store_calls get put framed_call I split: option.splits)
  show chk: "keeps I (entitlement_check (openfga b) t u app rel)" for t u app rel
    unfolding entitlement_check_def openfga_sel fga_check_permission_def fga_def client_check_def
    by (auto intro!: keeps_rules res framed_call I split: option.splits)
  show "keeps I (grant (openfga b) t u app l)" "keeps I (seed_application (openfga b) t app gs)"
    unfolding grant_def seed_application_def ensure_namespace_def openfga_sel
    by (intro keeps_rules model keeps_backend_calls(2) get res framed_call I)+
  have cof: "keeps I (check_or_false (openfga b) t u app rel)" for t u app rel
    unfolding check_or_false_def by (intro keeps_rules chk)
  show "keeps I (effective_scope_ceiling (openfga b) t u)" "keeps I (mint_claim (openfga b) t u app)"
    unfolding effective_scope_ceiling_def mint_claim_def Let_def by (intro keeps_rules cof)+
qed

lemma framed_const:
  "framed (\<lambda>w. pg_fault w = F)" "framed (\<lambda>w. pg_scan w = S)" "framed (\<lambda>w. ow_hydra w = h)" "framed (\<lambda>w. ow_kratos w = k)"
  "framed (\<lambda>w. pg_now w = n)"
  by (simp_all add: framed_def)

section \<open>Past the early exits\<close>

text \<open>
  A run whose outcome has a property that no early exit has, got past every step that keeps the
  predicate which excludes it.
\<close>

lemma bindE_past:
  assumes "P x v" and "\<And>e u. J u \<Longrightarrow> \<not> P (Inl e) u" and "J u" and "keeps J m"
  shows "bindE m f u = (x, v) \<longleftrightarrow> (\<exists>y u'. m u = (Inr y, u') \<and> J u' \<and> f y u' = (x, v))"
proof -
  obtain r u' where m: "m u = (r, u')" by fastforce
  then have "J u'" using keepsD [OF assms(4,3)] by blast
  then show ?thesis using assms(1,2) m by (cases r) (auto simp: bindE_def)
qed

lemma attempt_past:
  assumes "J u" and "keeps J m"
  shows "attempt m f u = (x, v) \<longleftrightarrow> (\<exists>y u'. m u = (y, u') \<and> J u' \<and> f y u' = (x, v))"
  using keepsD [OF assms(2,1)] by (auto simp: attempt_def split: prod.splits)

end
