(* ===== verification/TransientTokens.thy ===== *)
theory TransientTokens
  imports Database
begin

text \<open>
  Short-lived protocol tokens: \<^verbatim>\<open>db/transient_token.rs\<close>. A token of Hydra or Kratos (a flow, a
  challenge, a session) crosses the gateway's API as an opaque public token; the table maps
  one to the other until the mapping expires.
\<close>

definition TOKEN_TYPE_CONSENT_CHALLENGE :: string where "TOKEN_TYPE_CONSENT_CHALLENGE = ''consent_challenge''"
definition TOKEN_TYPE_LOGOUT_CHALLENGE :: string where "TOKEN_TYPE_LOGOUT_CHALLENGE = ''logout_challenge''"

section \<open>PgTransientTokenStore\<close>

definition alias_key :: "transient_token_row \<Rightarrow> string \<times> string \<times> string \<times> string" where
  "alias_key r = (tt_tenant_id r, tt_backend r, tt_token_type r, tt_ory_token r)"

text \<open>
  \<^verbatim>\<open>INSERT ... ON CONFLICT (tenant_id, backend, token_type, ory_token) DO UPDATE\<close>: a known
  backend token keeps its public token and only gets the new expiry.
\<close>

definition transient_upsert_stmt ::
  "string \<Rightarrow> string \<Rightarrow> string \<Rightarrow> string \<Rightarrow> string \<Rightarrow> string \<Rightarrow> instant \<Rightarrow> string stmt" where
  "transient_upsert_stmt i public_token tenant_id backend token_type ory_token expires_at now db =
     (let row = \<lparr>tt_id = i, tt_tenant_id = tenant_id, tt_backend = backend, tt_token_type = token_type,
                 tt_public_token = public_token, tt_ory_token = ory_token, tt_expires_at = expires_at,
                 tt_created_at = now\<rparr>
      in if backend \<notin> {''hydra'', ''kratos''} then violates ''transient_token_mappings_backend_check'' db
         else case find (\<lambda>r. alias_key r = alias_key row) (transient_tokens db) of
           Some old \<Rightarrow> (Inr (tt_public_token old), db\<lparr>transient_tokens :=
             map (\<lambda>r. if alias_key r = alias_key row then r\<lparr>tt_expires_at := expires_at\<rparr> else r) (transient_tokens db)\<rparr>)
         | None \<Rightarrow>
             if \<not> tenant_exists db tenant_id then violates ''transient_token_mappings_tenant_id_fkey'' db
             else if i \<in> tt_id ` set (transient_tokens db) then violates ''transient_token_mappings_pkey'' db
             else if public_token \<in> tt_public_token ` set (transient_tokens db)
               then violates ''transient_token_mappings_public_token_key'' db
             else (Inr public_token, db\<lparr>transient_tokens := transient_tokens db @ [row]\<rparr>))"

definition transient_create ::
  "string \<Rightarrow> string \<Rightarrow> string \<Rightarrow> string \<Rightarrow> instant \<Rightarrow> ('z pg_scheme, db_error, string) io" where
  "transient_create tenant_id backend token_type ory_token expires_at =
     bindE ulid_new (\<lambda>i. bindE ulid_new (\<lambda>public_token.
       pg_exec (transient_upsert_stmt i public_token tenant_id backend token_type ory_token expires_at)))"

definition get_ory_token ::
  "string \<Rightarrow> string \<Rightarrow> string \<Rightarrow> string \<Rightarrow> ('z pg_scheme, db_error, string) io" where
  "get_ory_token tenant_id backend token_type public_token =
     pg_query (\<lambda>now db. ok_or MappingNotFound (map_option tt_ory_token
       (find (\<lambda>r. tt_tenant_id r = tenant_id \<and> tt_backend r = backend \<and> tt_token_type r = token_type
            \<and> tt_public_token r = public_token \<and> now < tt_expires_at r) (transient_tokens db))))"

definition get_public_token ::
  "string \<Rightarrow> string \<Rightarrow> string \<Rightarrow> string \<Rightarrow> ('z pg_scheme, db_error, string) io" where
  "get_public_token tenant_id backend token_type ory_token =
     pg_query (\<lambda>now db. ok_or MappingNotFound (map_option tt_public_token
       (find (\<lambda>r. tt_tenant_id r = tenant_id \<and> tt_backend r = backend \<and> tt_token_type r = token_type
            \<and> tt_ory_token r = ory_token \<and> now < tt_expires_at r) (transient_tokens db))))"

definition transient_delete_stmt :: "string \<Rightarrow> string \<Rightarrow> unit stmt" where
  "transient_delete_stmt tenant_id public_token now db =
     (let hit = (\<lambda>r. tt_tenant_id r = tenant_id \<and> tt_public_token r = public_token)
      in if filter hit (transient_tokens db) = [] then (Inl MappingNotFound, db)
         else (Inr (), db\<lparr>transient_tokens := filter (\<lambda>r. \<not> hit r) (transient_tokens db)\<rparr>))"

definition transient_delete :: "string \<Rightarrow> string \<Rightarrow> ('z pg_scheme, db_error, unit) io" where
  "transient_delete tenant_id public_token = pg_exec (transient_delete_stmt tenant_id public_token)"

definition get_ory_token_global ::
  "string \<Rightarrow> string \<Rightarrow> string \<Rightarrow> ('z pg_scheme, db_error, string \<times> string) io" where
  "get_ory_token_global backend token_type public_token =
     pg_query (\<lambda>now db. ok_or MappingNotFound (map_option (\<lambda>r. (tt_tenant_id r, tt_ory_token r))
       (find (\<lambda>r. tt_backend r = backend \<and> tt_token_type r = token_type
            \<and> tt_public_token r = public_token \<and> now < tt_expires_at r) (transient_tokens db))))"

section \<open>Constraints\<close>

definition transient_tokens_ok :: "database \<Rightarrow> bool" where
  "transient_tokens_ok db \<longleftrightarrow> key_unique tt_id (transient_tokens db)
     \<and> key_unique tt_public_token (transient_tokens db) \<and> key_unique alias_key (transient_tokens db)
     \<and> (\<forall>r \<in> set (transient_tokens db). tt_backend r \<in> {''hydra'', ''kratos''} \<and> tenant_exists db (tt_tenant_id r))"

lemma alias_key_expires [simp]: "alias_key (r\<lparr>tt_expires_at := e\<rparr>) = alias_key r"
  by (simp add: alias_key_def)

lemma transient_upsert_ok [stmt_rules]:
  "stmt_keeps transient_tokens_ok (transient_upsert_stmt i p t b ty g e)"
proof (rule stmt_keepsI)
  fix now db
  assume ok: "transient_tokens_ok db"
  define row where "row = \<lparr>tt_id = i, tt_tenant_id = t, tt_backend = b, tt_token_type = ty, tt_public_token = p,
    tt_ory_token = g, tt_expires_at = e, tt_created_at = now\<rparr>"
  show "transient_tokens_ok (snd (transient_upsert_stmt i p t b ty g e now db))"
  proof (cases "find (\<lambda>r. alias_key r = alias_key row) (transient_tokens db)")
    case None
    then have "alias_key row \<notin> alias_key ` set (transient_tokens db)"
      by (auto simp: find_None_iff image_iff)
    with ok None show ?thesis
      unfolding transient_upsert_stmt_def Let_def row_def [symmetric]
      by (auto simp: transient_tokens_ok_def violates_def key_unique_append row_def tenant_exists_def)
  next
    case (Some old)
    let ?f = "\<lambda>r. if alias_key r = alias_key row then r\<lparr>tt_expires_at := e\<rparr> else r"
    have "key_unique tt_id (map ?f (transient_tokens db))" "key_unique tt_public_token (map ?f (transient_tokens db))"
      "key_unique alias_key (map ?f (transient_tokens db))"
      using ok by (auto simp: transient_tokens_ok_def intro!: key_unique_map [THEN iffD2])
    with ok Some show ?thesis
      unfolding transient_upsert_stmt_def Let_def row_def [symmetric]
      by (auto simp: transient_tokens_ok_def violates_def tenant_exists_def)
  qed
qed

lemma transient_delete_ok [stmt_rules]: "stmt_keeps transient_tokens_ok (transient_delete_stmt t p)"
  by (rule stmt_keepsI)
     (auto simp: transient_delete_stmt_def Let_def transient_tokens_ok_def tenant_exists_def intro: key_unique_filter)

lemma keeps_transient [keeps_rules]:
  "keeps (\<lambda>w. transient_tokens_ok (pg_db w)) (transient_create t b ty g e)"
  "keeps (\<lambda>w. transient_tokens_ok (pg_db w)) (get_ory_token t b ty p)"
  "keeps (\<lambda>w. transient_tokens_ok (pg_db w)) (get_public_token t b ty g)"
  "keeps (\<lambda>w. transient_tokens_ok (pg_db w)) (transient_delete t p)"
  "keeps (\<lambda>w. transient_tokens_ok (pg_db w)) (get_ory_token_global b ty p)"
  unfolding transient_create_def get_ory_token_def get_public_token_def transient_delete_def get_ory_token_global_def
  by (intro keeps_bindE keeps_ulid_new keeps_pg_exec keeps_pg_query stmt_rules)+

section \<open>The interface\<close>

text \<open>
  What the consent and logout handlers rely on, for one tenant, backend and token type: the
  pairs \<open>(public token, backend token)\<close> that are alive form a bijection, minting adds a
  pair and looking up answers from them.
\<close>

locale token_aliases =
  fixes mint :: "string \<Rightarrow> instant \<Rightarrow> ('s, db_error, string) io"
    and resolve :: "string \<Rightarrow> ('s, db_error, string) io"
    and look :: "string \<Rightarrow> ('s, db_error, string) io"
    and alive :: "'s \<Rightarrow> (string \<times> string) set"
    and clock :: "'s \<Rightarrow> instant"
    and inv :: "'s \<Rightarrow> bool"
  assumes public_law: "inv s \<Longrightarrow> (p, g) \<in> alive s \<Longrightarrow> (p, g') \<in> alive s \<Longrightarrow> g = g'"
    and backend_law: "inv s \<Longrightarrow> (p, g) \<in> alive s \<Longrightarrow> (p', g) \<in> alive s \<Longrightarrow> p = p'"
    and mint_law: "inv s \<Longrightarrow> mint g e s = (Inr p, s') \<Longrightarrow> inv s' \<and> (clock s < e \<longrightarrow> (p, g) \<in> alive s')"
    and resolve_law: "inv s \<Longrightarrow> resolve p s = (Inr g, s') \<Longrightarrow> (p, g) \<in> alive s"
    and resolve_missing: "inv s \<Longrightarrow> resolve p s = (Inl MappingNotFound, s') \<Longrightarrow> (p, g) \<notin> alive s"
    and look_law: "inv s \<Longrightarrow> look g s = (Inr p, s') \<Longrightarrow> inv s' \<and> alive s' = alive s \<and> (p, g) \<in> alive s"
begin

lemma alive_resolves:
  assumes "inv s" and "(p, g) \<in> alive s" and "resolve p s = (x, s')"
  shows "x \<noteq> Inl MappingNotFound \<and> (\<forall>g'. x = Inr g' \<longrightarrow> g' = g)"
  using resolve_missing [OF assms(1)] resolve_law [OF assms(1)] public_law [OF assms(1)] assms(2,3) by blast

lemma minted_resolves:
  assumes "inv s" and "mint g e s = (Inr p, s1)" and "clock s < e" and "resolve p s1 = (x, s2)"
  shows "x \<noteq> Inl MappingNotFound \<and> (\<forall>g'. x = Inr g' \<longrightarrow> g' = g)"
  using mint_law [OF assms(1,2)] assms(3) alive_resolves [OF _ _ assms(4)] by blast

lemma looked_up_resolves:
  assumes "inv s" and "look g s = (Inr p, s1)" and "resolve p s1 = (x, s2)"
  shows "x \<noteq> Inl MappingNotFound \<and> (\<forall>g'. x = Inr g' \<longrightarrow> g' = g)"
  using look_law [OF assms(1,2)] alive_resolves [OF _ _ assms(3)] by metis

end

definition alive_aliases :: "string \<Rightarrow> string \<Rightarrow> string \<Rightarrow> 'z pg_scheme \<Rightarrow> (string \<times> string) set" where
  "alive_aliases t b ty w = {(p, g). \<exists>r \<in> set (transient_tokens (pg_db w)). tt_tenant_id r = t \<and> tt_backend r = b
     \<and> tt_token_type r = ty \<and> tt_public_token r = p \<and> tt_ory_token r = g \<and> pg_now w < tt_expires_at r}"

lemma transient_create_Inr:
  assumes "transient_create t b ty g e w = (Inr p, v)"
  shows "pg_now v = pg_now w \<and> (\<exists>r \<in> set (transient_tokens (pg_db v)). tt_tenant_id r = t \<and> tt_backend r = b
    \<and> tt_token_type r = ty \<and> tt_public_token r = p \<and> tt_ory_token r = g \<and> tt_expires_at r = e)"
proof -
  define u where "u = w\<lparr>pg_ulids := Suc (Suc (pg_ulids w))\<rparr>"
  define i q where "i = pg_ulid w (pg_ulids w)" and "q = pg_ulid w (Suc (pg_ulids w))"
  have u: "pg_now u = pg_now w" "pg_db u = pg_db w"
    and run: "pg_exec (transient_upsert_stmt i q t b ty g e) u = (Inr p, v)"
    using assms by (simp_all add: u_def i_def q_def transient_create_def ulid_new_def bindE_def)
  let ?st = "transient_upsert_stmt i q t b ty g e (pg_now u) (pg_db u)"
  have st: "fst ?st = Inr p" and v: "pg_db v = snd ?st" "pg_now v = pg_now w"
    using pg_exec_Inr [OF run] u by auto
  have "\<exists>r \<in> set (transient_tokens (snd ?st)). tt_tenant_id r = t \<and> tt_backend r = b
    \<and> tt_token_type r = ty \<and> tt_public_token r = p \<and> tt_ory_token r = g \<and> tt_expires_at r = e"
  proof (cases "find (\<lambda>r. alias_key r = (t, b, ty, g)) (transient_tokens (pg_db u))")
    case None
    then show ?thesis using st
      by (auto simp: transient_upsert_stmt_def Let_def violates_def alias_key_def split: if_splits)
  next
    case (Some old)
    then have old: "old \<in> set (transient_tokens (pg_db u))" "alias_key old = (t, b, ty, g)" by (auto dest: find_SomeD)
    have "p = tt_public_token old"
      and rows: "transient_tokens (snd ?st) = map (\<lambda>r. if alias_key r = (t, b, ty, g) then r\<lparr>tt_expires_at := e\<rparr> else r)
        (transient_tokens (pg_db u))"
      using st Some by (auto simp: transient_upsert_stmt_def Let_def violates_def alias_key_def split: if_splits)
    then have "old\<lparr>tt_expires_at := e\<rparr> \<in> set (transient_tokens (snd ?st))" using old by force
    then show ?thesis
      by (rule bexI [rotated]) (use old \<open>p = tt_public_token old\<close> in \<open>simp add: alias_key_def\<close>)
  qed
  with v show ?thesis by simp
qed

interpretation transient: token_aliases
  "transient_create t b ty" "get_ory_token t b ty" "get_public_token t b ty"
  "alive_aliases t b ty" pg_now "\<lambda>w. transient_tokens_ok (pg_db w)" for t b ty
proof (unfold_locales, goal_cases)
  case (1 s p g g')
  then show ?case
    using key_uniqueD [of tt_public_token "transient_tokens (pg_db s)"]
    by (fastforce simp: alive_aliases_def transient_tokens_ok_def)
next
  case (2 s p g p')
  then show ?case
    using key_uniqueD [of alias_key "transient_tokens (pg_db s)"]
    by (fastforce simp: alive_aliases_def transient_tokens_ok_def alias_key_def)
next
  case (3 s g e p s')
  then show ?case
    using keepsD [OF keeps_transient(1) 3] transient_create_Inr [OF 3(2)] by (auto simp: alive_aliases_def)
next
  case (4 s p g s')
  then show ?case
    using pg_query_Inr [OF 4(2) [unfolded get_ory_token_def]]
    by (auto simp: alive_aliases_def dest!: find_SomeD)
next
  case (5 s p s' g)
  then show ?case
    using pg_query_result [OF 5(2) [unfolded get_ory_token_def]]
    by (auto simp: alive_aliases_def ok_or_def find_None_iff split: option.splits)
next
  case (6 s g p s')
  then show ?case
    using pg_query_Inr [OF 6(2) [unfolded get_public_token_def]] keepsD [OF keeps_transient(3) 6]
    by (auto simp: alive_aliases_def dest!: find_SomeD)
qed

section \<open>Properties\<close>

lemma get_ory_token_sound:
  assumes "get_ory_token t b ty p w = (Inr g, v)"
  shows "\<exists>r \<in> set (transient_tokens (pg_db w)). tt_tenant_id r = t \<and> tt_backend r = b \<and> tt_token_type r = ty
    \<and> tt_public_token r = p \<and> tt_ory_token r = g \<and> pg_now w < tt_expires_at r"
  using pg_query_Inr [OF assms [unfolded get_ory_token_def]] by (auto dest!: find_SomeD)

text \<open>
  An alias names one backend token and one tenant: what \<^verbatim>\<open>create\<close> returned resolves, until
  it expires, to exactly the backend token it was created for (or to a store error), and in
  no other tenant, for no other backend and as no other kind of token.
\<close>

theorem transient_alias_sound:
  assumes "transient_tokens_ok (pg_db w)" and "transient_create t b ty g e w = (Inr p, w1)" and "pg_now w < e"
    and "get_ory_token t' b' ty' p w1 = (x, w2)"
  shows "if (t', b', ty') = (t, b, ty) then x \<noteq> Inl MappingNotFound \<and> (\<forall>g'. x = Inr g' \<longrightarrow> g' = g)
    else \<forall>g'. x \<noteq> Inr g'"
proof (cases "(t', b', ty') = (t, b, ty)")
  case True
  then show ?thesis using transient.minted_resolves [OF assms(1,2,3)] assms(4) by simp
next
  case False
  have ok: "transient_tokens_ok (pg_db w1)" using keepsD [OF keeps_transient(1) assms(1,2)] .
  obtain r where r: "r \<in> set (transient_tokens (pg_db w1))" "tt_tenant_id r = t" "tt_backend r = b"
    "tt_token_type r = ty" "tt_public_token r = p"
    using transient_create_Inr [OF assms(2)] by blast
  have "x \<noteq> Inr g'" for g'
  proof
    assume "x = Inr g'"
    then obtain r' where r': "r' \<in> set (transient_tokens (pg_db w1))" "tt_tenant_id r' = t'" "tt_backend r' = b'"
      "tt_token_type r' = ty'" "tt_public_token r' = p"
      using get_ory_token_sound assms(4) by blast
    then have "r' = r"
      using key_uniqueD [of tt_public_token "transient_tokens (pg_db w1)" r' r] ok r by (simp add: transient_tokens_ok_def)
    then show False using r r' False by simp
  qed
  then show ?thesis using False by auto
qed

definition tenant_db :: database where
  "tenant_db = empty_db\<lparr>tenants := [\<lparr>tn_id = ''T'', tn_slug = ''t'', tn_display_name = ''T'', tn_is_system = False,
       tn_settings = JObj [], tn_created_at = 0\<rparr>]\<rparr>"

lemmas alias_sample_defs = transient_create_def transient_upsert_stmt_def get_ory_token_def alias_key_def
  tenant_db_def empty_db_def quiet_pg_def pg_exec_def pg_query_def ulid_new_def io_defs tenant_exists_def ok_or_def Let_def

theorem transient_alias_sound_witness:
  "\<exists>p w1 w2. transient_create ''T'' ''hydra'' ''consent_challenge'' ''ory'' 10 (quiet_pg tenant_db 0) = (Inr p, w1)
     \<and> get_ory_token ''T'' ''hydra'' ''consent_challenge'' p w1 = (Inr ''ory'', w2)
     \<and> (\<forall>g. fst (get_ory_token ''other'' ''hydra'' ''consent_challenge'' p w1) \<noteq> Inr g)"
proof -
  let ?w = "quiet_pg tenant_db 0"
  define w1 where "w1 = snd (transient_create ''T'' ''hydra'' ''consent_challenge'' ''ory'' 10 ?w)"
  have c: "transient_create ''T'' ''hydra'' ''consent_challenge'' ''ory'' 10 ?w = (Inr ''00'', w1)"
    by (simp add: w1_def alias_sample_defs)
  have ok: "transient_tokens_ok (pg_db ?w)"
    by (simp add: transient_tokens_ok_def quiet_pg_def tenant_db_def empty_db_def key_unique_def)
  have g: "get_ory_token ''T'' ''hydra'' ''consent_challenge'' ''00'' w1
      = (Inr ''ory'', snd (get_ory_token ''T'' ''hydra'' ''consent_challenge'' ''00'' w1))"
    by (simp add: w1_def alias_sample_defs)
  have n: "pg_now ?w < 10" by (simp add: quiet_pg_def)
  have "\<forall>g. fst (get_ory_token ''other'' ''hydra'' ''consent_challenge'' ''00'' w1) \<noteq> Inr g"
    using transient_alias_sound [OF ok c n, of "''other''" "''hydra''" "''consent_challenge''"]
    by (cases "get_ory_token ''other'' ''hydra'' ''consent_challenge'' ''00'' w1") simp
  with c g show ?thesis by blast
qed

end
