(* ===== verification/Consent.thy ===== *)
theory Consent
  imports ConsentMapper OryWorld TransientTokens
begin

text \<open>
  The consent and logout service, \<^verbatim>\<open>services/oauth2_consent.rs\<close>: challenges are translated to Hydra's,
  a consent is accepted within the requested scopes, the scope ceiling and the entitlements of
  the user, a first use of a dynamically registered client grants access to it, and the claims of
  the id token are put together. Hydra and Kratos are records of operations on opaque states.
\<close>

section \<open>The service\<close>

record 'h consent_hydra =
  ch_get_consent_request :: "string \<Rightarrow> ('h, ory_error, json) io"
  ch_accept_consent_request :: "string \<Rightarrow> json \<Rightarrow> ('h, ory_error, json) io"
  ch_reject_consent_request :: "string \<Rightarrow> json \<Rightarrow> ('h, ory_error, json) io"
  ch_get_logout_request :: "string \<Rightarrow> ('h, ory_error, json) io"
  ch_accept_logout_request :: "string \<Rightarrow> json \<Rightarrow> ('h, ory_error, json) io"
  ch_reject_logout_request :: "string \<Rightarrow> json \<Rightarrow> ('h, ory_error, json) io"

record ('h, 'k, 's) consent_service =
  cs_hydra :: "'h consent_hydra"
  cs_kratos_get_identity :: "string \<Rightarrow> ('k, ory_error, json) io"
  cs_entitlements :: "'s permission_backend"
  cs_force_email_claim_client_ids :: "string list"
  cs_codec :: json_codec

type_synonym ('f, 'h, 'k, 'z) consent_impl = "('h, 'k, ('f, 'h, 'k, 'z) ory_world_scheme) consent_service"

definition challenge_expiry :: "('z pg_scheme, 'e, instant) io" where
  "challenge_expiry = bindE now_utc (\<lambda>now. ret (now + 3600 * nanos_per_second))"

definition map_db_error :: "db_error \<Rightarrow> service_error" where
  "map_db_error err = (if err = MappingNotFound then SE_NotFound ''mapping not found'' else SE_Database (show_db_error err))"

fun consent_map_ory_error :: "ory_error \<Rightarrow> service_error" where
  "consent_map_ory_error (Ory_Status status message) =
     (if status = 400 then SE_InvalidArgument message
      else if status = 401 then SE_Unauthenticated message
      else if status = 403 then SE_PermissionDenied message
      else if status = 404 then SE_NotFound message
      else if status = 409 then SE_AlreadyExists message
      else if status = 503 then SE_Unavailable message
      else SE_Internal message)"
| "consent_map_ory_error (Ory_Http e) = SE_Unavailable ''upstream oauth2 service unreachable''"
| "consent_map_ory_error (Ory_Url e) = SE_Unavailable ''upstream oauth2 service unreachable''"
| "consent_map_ory_error (Ory_Serialization e) = SE_Internal ''invalid upstream response''"
| "consent_map_ory_error (Ory_InvalidResponse msg) = SE_Internal ''invalid upstream response''"
| "consent_map_ory_error Ory_MissingTenant = SE_Unauthenticated ''missing tenant''"
| "consent_map_ory_error (Ory_Redirect loc cs) = SE_Internal ''unexpected redirect''"

abbreviation dbe :: "('s, db_error, 'a) io \<Rightarrow> ('s, service_error, 'a) io" where
  "dbe m \<equiv> map_err map_db_error m"

abbreviation hyd :: "('h, ory_error, 'a) io \<Rightarrow> (('f, 'h, 'k, 'z) ory_world_scheme, service_error, 'a) io" where
  "hyd m \<equiv> map_err consent_map_ory_error (hydra_op m)"

definition not_entitled :: service_error where
  "not_entitled = SE_PermissionDenied ''user is not entitled to this application''"

section \<open>Guards\<close>

definition tenant_from_ctx :: "request_context \<Rightarrow> string" where
  "tenant_from_ctx ctx = (case rx_tenant ctx of Some t \<Rightarrow> t | None \<Rightarrow> [])"

definition require_consent_admin :: "request_context \<Rightarrow> service_error + unit" where
  "require_consent_admin ctx =
     (if require_scope ctx SCOPE_TENANT_ADMIN = Inr () \<or> require_scope ctx SCOPE_IDENTITY_ADMIN = Inr () then Inr ()
      else Inl (SE_PermissionDenied ''missing required scope: tenant:admin or identity:admin''))"

section \<open>Identifiers\<close>

definition ory_challenge :: "string \<Rightarrow> string \<Rightarrow> string \<Rightarrow> ('z pg_scheme, service_error, string) io" where
  "ory_challenge tenant_id public_challenge token_type =
     attempt (get_ory_token tenant_id ''hydra'' token_type public_challenge) (\<lambda>r. case r of
         Inr ory_challenge \<Rightarrow> ret ory_challenge
       | Inl err \<Rightarrow> if err = MappingNotFound then ret public_challenge else raise (map_db_error err))"

definition public_challenge :: "string \<Rightarrow> string \<Rightarrow> string \<Rightarrow> ('z pg_scheme, service_error, string) io" where
  "public_challenge tenant_id ory_token token_type =
     attempt (get_public_token tenant_id ''hydra'' token_type ory_token) (\<lambda>r. case r of
         Inr public \<Rightarrow> ret public
       | Inl err \<Rightarrow>
           if err = MappingNotFound
           then bindE challenge_expiry (\<lambda>expiry. dbe (transient_create tenant_id ''hydra'' token_type ory_token expiry))
           else raise (map_db_error err))"

definition resolve_logout_challenge :: "string \<Rightarrow> string \<Rightarrow> ('z pg_scheme, service_error, string \<times> string) io" where
  "resolve_logout_challenge fallback_tenant_id challenge =
     attempt (get_ory_token_global ''hydra'' TOKEN_TYPE_LOGOUT_CHALLENGE challenge) (\<lambda>r. case r of
         Inr resolved \<Rightarrow> ret resolved
       | Inl err \<Rightarrow> if err = MappingNotFound then ret (fallback_tenant_id, challenge) else raise (map_db_error err))"

definition public_client_id :: "string \<Rightarrow> string \<Rightarrow> ('z pg_scheme, service_error, string) io" where
  "public_client_id tenant_id ory_client_id =
     (if ory_client_id = [] then ret [] else dbe (get_public_id tenant_id ''hydra'' ory_client_id))"

definition force_email_claim :: "string list \<Rightarrow> string \<Rightarrow> string \<Rightarrow> ('z pg_scheme, service_error, bool) io" where
  "force_email_claim client_ids tenant_id ory_client_id =
     (if ory_client_id = [] \<or> client_ids = [] then ret False
      else if ory_client_id \<in> set client_ids then ret True
      else attempt (get_public_id tenant_id ''hydra'' ory_client_id) (\<lambda>r. case r of
          Inr public_id \<Rightarrow> ret (public_id \<in> set client_ids)
        | Inl _ \<Rightarrow> ret False))"

definition public_subject :: "string \<Rightarrow> string \<Rightarrow> ('z pg_scheme, service_error, string) io" where
  "public_subject tenant_id ory_subject =
     (if ory_subject = [] then ret []
      else attempt (get_public_id tenant_id ''kratos'' ory_subject) (\<lambda>r. case r of
          Inr public_id \<Rightarrow> ret public_id
        | Inl err \<Rightarrow>
            if err = MappingNotFound
            then bindE ulid_new (\<lambda>public_id.
                 bindE (dbe (id_mapping_create tenant_id ''kratos'' public_id ory_subject)) (\<lambda>_. ret public_id))
            else raise (map_db_error err)))"

section \<open>First use\<close>

definition is_first_use :: "'z pg_scheme permission_backend \<Rightarrow> string \<Rightarrow> string \<Rightarrow> string \<Rightarrow> ('z pg_scheme, 'e, bool) io" where
  "is_first_use b tenant_id ory_client_id subject =
     (if ory_client_id = [] then ret False
      else attempt (resolve_client_entitlement tenant_id ory_client_id) (\<lambda>r. case r of
          Inl err \<Rightarrow> ret False
        | Inr resolution \<Rightarrow>
            if \<not> is_first_use_eligible resolution then ret False
            else case ce_public_id resolution of
              None \<Rightarrow> ret False
            | Some public_id \<Rightarrow>
                if (case resolution of Provisional _ owner_tenant \<Rightarrow> owner_tenant \<noteq> tenant_id | _ \<Rightarrow> False) then ret True
                else attempt (is_member b tenant_id subject public_id) (\<lambda>r. ret (r \<noteq> Inr True))))"

definition ensure_dcr_row :: "string \<Rightarrow> string \<Rightarrow> ('z pg_scheme, service_error, unit) io" where
  "ensure_dcr_row tenant_id public_id =
     attempt (application_create tenant_id public_id False registration_source_dcr) (\<lambda>r. case r of
         Inr _ \<Rightarrow> ret ()
       | Inl err \<Rightarrow> attempt (application_get tenant_id public_id) (\<lambda>r. case r of
           Inr _ \<Rightarrow> ret ()
         | Inl _ \<Rightarrow> raise (map_db_error err)))"

definition grant_first_use ::
  "'z pg_scheme permission_backend \<Rightarrow> string \<Rightarrow> string \<Rightarrow> string \<Rightarrow> bool \<Rightarrow> bool \<Rightarrow> ('z pg_scheme, service_error, unit) io" where
  "grant_first_use b tenant_id subject app_public_id rehome consent_skip =
     (if consent_skip then raise not_entitled
      else bindE (if rehome then dbe (id_mapping_update_tenant ''hydra'' app_public_id tenant_id) else ret ()) (\<lambda>_.
           bindE (ensure_dcr_row tenant_id app_public_id) (\<lambda>_.
           grant b tenant_id subject app_public_id Member)))"

section \<open>Requests\<close>

definition map_client :: "string \<Rightarrow> oauth2_client option \<Rightarrow> ('z pg_scheme, service_error, oauth2_client option) io" where
  "map_client tenant_id client =
     (case client of
        None \<Rightarrow> ret None
      | Some c \<Rightarrow> bindE (public_client_id tenant_id (oc_client_id c)) (\<lambda>i. ret (Some (c\<lparr>oc_client_id := i\<rparr>))))"

definition map_consent_request ::
  "'z pg_scheme permission_backend \<Rightarrow> string \<Rightarrow> consent_request \<Rightarrow> ('z pg_scheme, service_error, consent_request) io" where
  "map_consent_request b tenant_id consent =
     bindE (public_challenge tenant_id (cr_challenge consent) TOKEN_TYPE_CONSENT_CHALLENGE) (\<lambda>challenge.
     bindE (public_client_id tenant_id (cr_client_id consent)) (\<lambda>client_id.
     bindE (public_subject tenant_id (cr_subject consent)) (\<lambda>subject.
     bindE (map_client tenant_id (cr_client consent)) (\<lambda>client.
     bindE (is_first_use b tenant_id (cr_client_id consent) subject) (\<lambda>first_use.
     ret (consent\<lparr>cr_challenge := challenge, cr_client_id := client_id, cr_subject := subject, cr_client := client,
            cr_first_use := first_use\<rparr>))))))"

definition map_logout_request :: "string \<Rightarrow> logout_request \<Rightarrow> ('z pg_scheme, service_error, logout_request) io" where
  "map_logout_request tenant_id logout =
     bindE (public_challenge tenant_id (lr_challenge logout) TOKEN_TYPE_LOGOUT_CHALLENGE) (\<lambda>challenge.
     bindE (public_client_id tenant_id (lr_client_id logout)) (\<lambda>client_id.
     bindE (public_subject tenant_id (lr_subject logout)) (\<lambda>subject.
     bindE (map_client tenant_id (lr_client logout)) (\<lambda>client.
     ret (logout\<lparr>lr_challenge := challenge, lr_client_id := client_id, lr_subject := subject, lr_client := client\<rparr>)))))"

definition get_consent_request ::
  "('f, 'h, 'k, 'z) consent_impl \<Rightarrow> request_context \<Rightarrow> string
    \<Rightarrow> (('f, 'h, 'k, 'z) ory_world_scheme, service_error, consent_request) io" where
  "get_consent_request svc ctx challenge =
     bindE (lift_result (require_consent_admin ctx)) (\<lambda>_.
     bindE (lift_result (require_tenant ctx)) (\<lambda>tenant_id.
     bindE (ory_challenge tenant_id challenge TOKEN_TYPE_CONSENT_CHALLENGE) (\<lambda>ory_challenge.
     bindE (hyd (ch_get_consent_request (cs_hydra svc) ory_challenge)) (\<lambda>v.
     map_consent_request (cs_entitlements svc) tenant_id (ory_consent_request_to_proto (cs_codec svc) v)))))"

section \<open>Accepting a consent\<close>

definition MATRIX_CLIENT_SCOPE_PREFIX :: string where "MATRIX_CLIENT_SCOPE_PREFIX = ''urn:matrix:client:''"
definition MATRIX_CLIENT_SCOPE_PREFIX_MSC2967 :: string where
  "MATRIX_CLIENT_SCOPE_PREFIX_MSC2967 = ''urn:matrix:org.matrix.msc2967.client:''"

definition is_matrix_scope :: "string \<Rightarrow> bool" where
  "is_matrix_scope scope \<longleftrightarrow> starts_with scope MATRIX_CLIENT_SCOPE_PREFIX \<or> starts_with scope MATRIX_CLIENT_SCOPE_PREFIX_MSC2967"

text \<open>The claim \<^verbatim>\<open>identity_id\<close>: the public id of a subject that is already mapped.\<close>

definition identity_claim :: "string \<Rightarrow> string \<Rightarrow> ('z pg_scheme, service_error, string option) io" where
  "identity_claim tenant_id subject =
     (if subject = [] then ret None
      else attempt (get_public_id tenant_id ''kratos'' subject) (\<lambda>r. case r of
          Inr public_id \<Rightarrow> ret (Some public_id)
        | Inl err \<Rightarrow> if err = MappingNotFound then ret None else raise (map_db_error err)))"

text \<open>
  The entitlement gate: the application id the claim is minted for, and the tenant whose store
  it comes from. A resolution that fails skips the gate.
\<close>

definition consent_gate ::
  "'z pg_scheme permission_backend \<Rightarrow> string \<Rightarrow> string \<Rightarrow> consent_request \<Rightarrow> service_error + string
    \<Rightarrow> ('z pg_scheme, service_error, (service_error + string) \<times> string) io" where
  "consent_gate b tenant_id subject consent app_public_id =
     attempt (resolve_client_entitlement tenant_id (cr_client_id consent)) (\<lambda>r. case r of
         Inl err \<Rightarrow> ret (app_public_id, tenant_id)
       | Inr Unmapped \<Rightarrow> ret (app_public_id, tenant_id)
       | Inr (CrossTenantOwned public_id owner_tenant cross_tenant) \<Rightarrow>
           if \<not> cross_tenant then raise (SE_PermissionDenied ''application belongs to a different organization'')
           else attempt (is_member b owner_tenant subject public_id) (\<lambda>member.
                if member = Inr True then ret (Inr public_id, owner_tenant) else raise not_entitled)
       | Inr (LocalApp public_id source) \<Rightarrow>
           attempt (is_member b tenant_id subject public_id) (\<lambda>member.
             if member = Inr True then ret (app_public_id, tenant_id)
             else if source = registration_source_dcr
             then bindE (grant_first_use b tenant_id subject public_id False (cr_skip consent)) (\<lambda>_.
                  ret (Inr public_id, tenant_id))
             else raise not_entitled)
       | Inr (Provisional public_id owner_tenant) \<Rightarrow>
           attempt (if owner_tenant = tenant_id then is_member b tenant_id subject public_id else ret False) (\<lambda>member.
             if member = Inr True then ret (app_public_id, tenant_id)
             else bindE (grant_first_use b tenant_id subject public_id (owner_tenant \<noteq> tenant_id) (cr_skip consent)) (\<lambda>_.
                  ret (Inr public_id, tenant_id))))"

definition identity_email :: "json \<Rightarrow> string option" where
  "identity_email identity = Option.bind (Option.bind (json_get identity ''traits'') (\<lambda>traits. json_get traits ''email'')) as_str"

definition forced_email ::
  "('f, 'h, 'k, 'z) consent_impl \<Rightarrow> string \<Rightarrow> consent_request
    \<Rightarrow> (('f, 'h, 'k, 'z) ory_world_scheme, service_error, string option) io" where
  "forced_email svc tenant_id consent =
     bindE (force_email_claim (cs_force_email_claim_client_ids svc) tenant_id (cr_client_id consent)) (\<lambda>forced.
     if \<not> forced then ret None
     else attempt (kratos_op (cs_kratos_get_identity svc (cr_subject consent))) (\<lambda>r. case r of
         Inr identity \<Rightarrow> ret (identity_email identity)
       | Inl _ \<Rightarrow> ret None))"

definition minted_claim ::
  "'s permission_backend \<Rightarrow> string \<Rightarrow> string \<Rightarrow> service_error + string \<Rightarrow> ('s, service_error, json) io" where
  "minted_claim b claim_tenant subject app_public_id =
     (case app_public_id of Inr app \<Rightarrow> mint_claim b claim_tenant subject app | Inl _ \<Rightarrow> ret JNull)"

definition merge_claims :: "(string \<times> json) list \<Rightarrow> json \<Rightarrow> json" where
  "merge_claims fs claims = fold (\<lambda>(k, v). or_insert k v) fs claims"

definition accept_body :: "accept_consent_request \<Rightarrow> string option \<Rightarrow> string option \<Rightarrow> json \<Rightarrow> json" where
  "accept_body req identity_id email claim =
     (let body = accept_consent_request_to_json req;
          body = (case identity_id of Some i \<Rightarrow> inject_id_token_claim ''identity_id'' i body | None \<Rightarrow> body);
          body = (case email of Some e \<Rightarrow> inject_id_token_claim ''email'' e body | None \<Rightarrow> body)
      in case as_object claim of Some fs \<Rightarrow> with_claims (merge_claims fs) body | None \<Rightarrow> body)"

definition accept_consent ::
  "('f, 'h, 'k, 'z) consent_impl \<Rightarrow> request_context \<Rightarrow> accept_consent_request
    \<Rightarrow> (('f, 'h, 'k, 'z) ory_world_scheme, service_error, string) io" where
  "accept_consent svc ctx req =
     bindE (lift_result (require_consent_admin ctx)) (\<lambda>_.
     bindE (lift_result (require_tenant ctx)) (\<lambda>tenant_id.
     bindE (ory_challenge tenant_id (an_challenge req) TOKEN_TYPE_CONSENT_CHALLENGE) (\<lambda>ory_challenge.
     bindE (hyd (ch_get_consent_request (cs_hydra svc) ory_challenge)) (\<lambda>v.
     let consent = ory_consent_request_to_proto (cs_codec svc) v in
     bindE (guard_err (\<not> set (an_grant_scope req) \<subseteq> set (cr_requested_scope consent))
              (SE_InvalidArgument ''grant_scope exceeds requested_scope'')) (\<lambda>_.
     bindE (lift_result (require_auth ctx)) (\<lambda>auth.
     bindE (identity_claim tenant_id (cr_subject consent)) (\<lambda>identity_id.
     bindE (public_subject tenant_id (cr_subject consent)) (\<lambda>subject.
     bindE (guard_err (ac_subject auth \<noteq> subject \<and> SCOPE_TENANT_ADMIN \<notin> set (ac_scopes auth))
              (SE_PermissionDenied ''cannot accept consent for another subject'')) (\<lambda>_.
     bindE (effective_scope_ceiling (cs_entitlements svc) tenant_id subject) (\<lambda>ceiling.
     bindE (guard_err (filter (\<lambda>s. s \<notin> set ceiling \<and> \<not> is_matrix_scope s) (an_grant_scope req) \<noteq> [])
              (SE_PermissionDenied ''requested scopes exceed entitlement ceiling'')) (\<lambda>_.
     attempt (public_client_id tenant_id (cr_client_id consent)) (\<lambda>app_public_id.
     bindE (consent_gate (cs_entitlements svc) tenant_id subject consent app_public_id) (\<lambda>(app_public_id, claim_tenant).
     bindE (forced_email svc tenant_id consent) (\<lambda>email.
     bindE (minted_claim (cs_entitlements svc) claim_tenant subject app_public_id) (\<lambda>claim.
     bindE (hyd (ch_accept_consent_request (cs_hydra svc) ory_challenge (accept_body req identity_id email claim))) (\<lambda>v.
     ret (redirect_to v)))))))))))))))))"

definition reject_consent ::
  "('f, 'h, 'k, 'z) consent_impl \<Rightarrow> request_context \<Rightarrow> reject_request
    \<Rightarrow> (('f, 'h, 'k, 'z) ory_world_scheme, service_error, string) io" where
  "reject_consent svc ctx req =
     bindE (lift_result (require_consent_admin ctx)) (\<lambda>_.
     bindE (lift_result (require_tenant ctx)) (\<lambda>tenant_id.
     bindE (ory_challenge tenant_id (rj_challenge req) TOKEN_TYPE_CONSENT_CHALLENGE) (\<lambda>ory_challenge.
     bindE (hyd (ch_reject_consent_request (cs_hydra svc) ory_challenge (reject_consent_request_to_json req))) (\<lambda>v.
     ret (redirect_to v)))))"

section \<open>Logout\<close>

definition get_logout_request ::
  "('f, 'h, 'k, 'z) consent_impl \<Rightarrow> request_context \<Rightarrow> string
    \<Rightarrow> (('f, 'h, 'k, 'z) ory_world_scheme, service_error, logout_request) io" where
  "get_logout_request svc ctx challenge =
     bindE (resolve_logout_challenge (tenant_from_ctx ctx) challenge) (\<lambda>(tenant_id, ory_challenge).
     bindE (hyd (ch_get_logout_request (cs_hydra svc) ory_challenge)) (\<lambda>v.
     map_logout_request tenant_id (ory_logout_request_to_proto (cs_codec svc) v)))"

definition accept_logout ::
  "('f, 'h, 'k, 'z) consent_impl \<Rightarrow> request_context \<Rightarrow> string \<Rightarrow> (('f, 'h, 'k, 'z) ory_world_scheme, service_error, string) io" where
  "accept_logout svc ctx challenge =
     bindE (resolve_logout_challenge (tenant_from_ctx ctx) challenge) (\<lambda>(tenant_id, ory_challenge).
     bindE (hyd (ch_accept_logout_request (cs_hydra svc) ory_challenge accept_logout_request_to_json)) (\<lambda>v.
     ret (redirect_to v)))"

definition reject_logout ::
  "('f, 'h, 'k, 'z) consent_impl \<Rightarrow> request_context \<Rightarrow> reject_request \<Rightarrow> (('f, 'h, 'k, 'z) ory_world_scheme, service_error, string) io" where
  "reject_logout svc ctx req =
     bindE (resolve_logout_challenge (tenant_from_ctx ctx) (rj_challenge req)) (\<lambda>(tenant_id, ory_challenge).
     bindE (hyd (ch_reject_logout_request (cs_hydra svc) ory_challenge (reject_logout_request_to_json req))) (\<lambda>v.
     ret (redirect_to v)))"

section \<open>What the calls leave alone\<close>

lemma framed_mappings:
  assumes I: "framed I"
  shows "keeps I (get_public_id t bk i)" and "keeps I (resolve_client_entitlement t c)" and "keeps I (public_subject t s)"
    and "keeps I (identity_claim t s)" and "keeps I (ory_challenge t c ty)" and "keeps I (public_client_id t c)"
    and "keeps I (ensure_dcr_row t p)" and "keeps I (id_mapping_update_tenant bk p t)" and "keeps I (force_email_claim ids t c)"
  unfolding resolve_client_entitlement_def classify_owned_def public_subject_def identity_claim_def ory_challenge_def public_client_id_def
    ensure_dcr_row_def id_mapping_update_tenant_def force_email_claim_def get_public_id_def get_tenant_id_by_ory_id_def
    get_public_id_by_ory_id_def application_get_by_public_id_def id_mapping_create_def application_create_def application_get_def get_ory_token_def
  by (auto intro!: framed_rules I split: option.splits)

lemma framed_gate:
  assumes I: "framed I"
  shows "keeps I (consent_gate (openfga b) t u c app)"
proof -
  have m: "keeps I (is_member (openfga b) t u p)" for t u p unfolding is_member_def by (rule framed_entitlements(1) [OF I])
  have g: "keeps I (grant_first_use (openfga b) t u p r k)" for t u p r k
    unfolding grant_first_use_def by (intro keeps_rules framed_mappings framed_entitlements I)
  show ?thesis
    unfolding consent_gate_def
    by (auto intro!: keeps_rules framed_mappings m g I split: client_entitlement.splits)
qed

text \<open>
  The tuples of the OpenFGA server, the mappings of Hydra's clients and every table but
  \<^verbatim>\<open>id_mappings\<close> are as they were.
\<close>

definition hydra_rows :: "database \<Rightarrow> id_mapping_row list" where
  "hydra_rows db = filter (\<lambda>r. im_backend r = ''hydra'') (id_mappings db)"

definition steady ::
  "('f \<Rightarrow> string \<Rightarrow> fga_tuple list) \<Rightarrow> ('f, 'z) fga_world_scheme \<Rightarrow> ('f, 'y) fga_world_scheme \<Rightarrow> bool" where
  "steady listing w u \<longleftrightarrow> listing (fw_fga u) = listing (fw_fga w) \<and> hydra_rows (pg_db u) = hydra_rows (pg_db w)
     \<and> (pg_db u)\<lparr>id_mappings := []\<rparr> = (pg_db w)\<lparr>id_mappings := []\<rparr>"

lemma steady_refl [simp]: "steady listing w w"
  by (simp add: steady_def)

lemma steady_trans: "steady listing w u \<Longrightarrow> steady listing u v \<Longrightarrow> steady listing w v"
  by (simp add: steady_def)

lemma steady_store:
  assumes "steady listing w u"
  shows "entitlement_store (pg_db u) t = entitlement_store (pg_db w) t" and "applications (pg_db u) = applications (pg_db w)"
proof -
  have "find_namespace (db\<lparr>id_mappings := rows\<rparr>) = find_namespace db" for db rows
    by (intro ext) (simp add: find_namespace_def)
  then have "entitlement_store (db\<lparr>id_mappings := rows\<rparr>) t = entitlement_store db t" for db rows
    by (simp add: entitlement_store_def store_of_def mapping_of_def find_type_owner_def cong: option.case_cong)
  then show "entitlement_store (pg_db u) t = entitlement_store (pg_db w) t" using assms unfolding steady_def by metis
  have "applications ((pg_db u)\<lparr>id_mappings := []\<rparr>) = applications ((pg_db w)\<lparr>id_mappings := []\<rparr>)" using assms by (simp only: steady_def)
  then show "applications (pg_db u) = applications (pg_db w)" by simp
qed

lemma steady_query: "keeps (steady listing w) (pg_query q)"
  by (simp add: keeps_def steady_def pg_query_def pg_exec_def Let_def split: option.splits fault.splits)

lemma steady_query_any: "keeps (steady listing w) (pg_query_any q)"
  by (simp add: keeps_def steady_def pg_query_any_def pg_query_def pg_exec_def Let_def split: option.splits fault.splits)

lemma steady_ulid: "keeps (steady listing w) ulid_new"
  by (simp add: keeps_def steady_def ulid_new_def)

lemma steady_create: "keeps (steady listing w) (id_mapping_create t ''kratos'' p g)"
proof -
  have "keeps (steady listing w) (pg_exec (id_mapping_insert_stmt i t ''kratos'' p g))" for i
    by (auto simp: keeps_def steady_def hydra_rows_def pg_exec_def id_mapping_insert_stmt_def violates_def Let_def split: option.splits fault.splits)
  then show ?thesis unfolding id_mapping_create_def by (intro keeps_rules steady_ulid)
qed

lemmas steady_rules = keeps_rules steady_query steady_query_any steady_ulid steady_create

lemma steady_mappings:
  "keeps (steady listing w) (get_public_id t b i)" "keeps (steady listing w) (resolve_client_entitlement t c)"
  "keeps (steady listing w) (public_subject t s)" "keeps (steady listing w) (identity_claim t s)"
  "keeps (steady listing w) (ory_challenge t c ty)" "keeps (steady listing w) (public_client_id t c)"
  "keeps (steady listing w) (force_email_claim ids t c)"
  unfolding resolve_client_entitlement_def classify_owned_def public_subject_def identity_claim_def ory_challenge_def public_client_id_def
    force_email_claim_def get_public_id_def get_tenant_id_by_ory_id_def get_public_id_by_ory_id_def application_get_by_public_id_def
    application_get_def get_ory_token_def
  by (auto intro!: steady_rules split: option.splits)

lemma steady_checks:
  assumes "\<And>s. checks_related (ob_client b) listing s"
  shows "keeps (steady listing w) (entitlement_check (openfga b) t u app rel)"
    and "keeps (steady listing w) (effective_scope_ceiling (openfga b) t u)" and "keeps (steady listing w) (mint_claim (openfga b) t u app)"
proof -
  show chk: "keeps (steady listing w) (entitlement_check (openfga b) t u app rel)" for t u app rel
    by (rule keepsI) (use entitlement_check_result [OF assms] in \<open>fastforce simp: steady_def\<close>)
  have cof: "keeps (steady listing w) (check_or_false (openfga b) t u app rel)" for t u app rel
    unfolding check_or_false_def by (intro keeps_rules chk)
  show "keeps (steady listing w) (effective_scope_ceiling (openfga b) t u)" "keeps (steady listing w) (mint_claim (openfga b) t u app)"
    unfolding effective_scope_ceiling_def mint_claim_def Let_def by (intro keeps_rules cof)+
qed

section \<open>The gate\<close>

text \<open>The tuples of the tenant's entitlement store.\<close>

definition tenant_tuples :: "('f \<Rightarrow> string \<Rightarrow> fga_tuple list) \<Rightarrow> ('f, 'z) fga_world_scheme \<Rightarrow> string \<Rightarrow> fga_tuple set" where
  "tenant_tuples listing w t = set (listing (fw_fga w) (entitlement_store (pg_db w) t))"

lemma steady_tuples: "steady listing w u \<Longrightarrow> tenant_tuples listing u t = tenant_tuples listing w t"
  using steady_store(1) [of listing w u t] by (simp add: tenant_tuples_def steady_def)

lemma query_any_no_fault:
  "pg_fault w (pg_queries w) = None \<Longrightarrow>
     pg_query_any q w = (q (pg_scan w (pg_queries w) (id_mappings (pg_db w))), w\<lparr>pg_queries := Suc (pg_queries w)\<rparr>)"
  by (simp add: pg_query_any_def pg_query_no_fault)

lemma classify_no_fault:
  "pg_fault w (pg_queries w) = None \<Longrightarrow> classify_owned t owner p w =
     (Inr (classified t owner p (find (\<lambda>a. ap_public_id a = p) (applications (pg_db w)))), w\<lparr>pg_queries := Suc (pg_queries w)\<rparr>)"
  by (cases "find (\<lambda>a. ap_public_id a = p) (applications (pg_db w))")
     (simp_all add: classify_owned_def application_get_by_public_id_def attempt_def pg_query_no_fault ret_def ok_or_def classified_def)

lemma resolve_client_no_fault:
  assumes "pg_fault w = (\<lambda>_. None)" and "scan_ok w" and "resolve_client_entitlement t c w = (x, v)"
  shows "x = Inr Unmapped \<and> (\<forall>r \<in> pg_rows w. \<not> maps_subject ''hydra'' c r)
    \<or> (\<exists>r \<in> pg_rows w. \<exists>owner. maps_subject ''hydra'' c r
        \<and> x = Inr (classified t owner (im_public_id r) (find (\<lambda>a. ap_public_id a = im_public_id r) (applications (pg_db w)))))"
proof -
  let ?local = "\<lambda>r. im_tenant_id r = t \<and> im_backend r = ''hydra'' \<and> im_ory_global_id r = c"
  let ?any = "\<lambda>r. im_backend r = ''hydra'' \<and> im_ory_global_id r = c"
  have scan: "set (pg_scan w n (id_mappings (pg_db w))) = pg_rows w" for n using assms(2) by (simp add: scan_ok_def)
  have id: "get_public_id t ''hydra'' c w = (ok_or MappingNotFound (map_option im_public_id (find ?local (id_mappings (pg_db w)))),
      w\<lparr>pg_queries := Suc (pg_queries w)\<rparr>)" using assms(1) by (simp add: get_public_id_def pg_query_no_fault)
  note eqs = resolve_client_entitlement_def id get_tenant_id_by_ory_id_def get_public_id_by_ory_id_def query_any_no_fault
    classify_no_fault attempt_def bindE_def ok_or_def ret_def
  show ?thesis
  proof (cases "find ?local (id_mappings (pg_db w))")
    case (Some r)
    then show ?thesis using assms(1,3) find_SomeD [OF Some] by (auto simp: eqs maps_subject_def)
  next
    case None
    show ?thesis
    proof (cases "find ?any (pg_scan w (Suc (pg_queries w)) (id_mappings (pg_db w)))")
      case none: None
      have "x = Inr Unmapped" using assms(1,3) None none by (simp add: eqs)
      moreover have "\<forall>r \<in> pg_rows w. \<not> ?any r" using none scan [of "Suc (pg_queries w)"] by (auto simp: find_None_iff)
      ultimately show ?thesis by (simp add: maps_subject_def)
    next
      case (Some r)
      have "find ?any (pg_scan w (Suc (Suc (pg_queries w))) (id_mappings (pg_db w))) \<noteq> None"
        unfolding find_None_iff using find_SomeD [OF Some] scan by auto
      then obtain r' where r': "find ?any (pg_scan w (Suc (Suc (pg_queries w))) (id_mappings (pg_db w))) = Some r'" by blast
      let ?u = "w\<lparr>pg_queries := Suc (Suc (pg_queries w))\<rparr>"
      have "get_tenant_id_by_ory_id ''hydra'' c (w\<lparr>pg_queries := Suc (pg_queries w)\<rparr>) = (Inr (Some (im_tenant_id r)), ?u)"
        "get_public_id_by_ory_id ''hydra'' c ?u = (Inr (im_public_id r'), w\<lparr>pg_queries := Suc (Suc (Suc (pg_queries w)))\<rparr>)"
        using assms(1) Some r' by (simp_all add: get_tenant_id_by_ory_id_def get_public_id_by_ory_id_def query_any_no_fault ok_or_def)
      then have "resolve_client_entitlement t c w = classify_owned t (im_tenant_id r) (im_public_id r') (w\<lparr>pg_queries := Suc (Suc (Suc (pg_queries w)))\<rparr>)"
        using None by (simp add: resolve_client_entitlement_def id attempt_def bindE_def ok_or_def)
      then have "x = Inr (classified t (im_tenant_id r) (im_public_id r') (find (\<lambda>a. ap_public_id a = im_public_id r') (applications (pg_db w))))"
        using assms(1,3) by (simp add: classify_no_fault)
      moreover have "r' \<in> pg_rows w" "maps_subject ''hydra'' c r'" using find_SomeD [OF r'] scan by (simp_all add: maps_subject_def)
      ultimately show ?thesis by blast
    qed
  qed
qed

text \<open>
  Who may use an application: its members where no other tenant owns it, and across tenants
  the members that the owner's store names, if the owner flagged it so.
\<close>

definition entitled_client ::
  "('f \<Rightarrow> string \<Rightarrow> fga_tuple list) \<Rightarrow> ('f, 'z) fga_world_scheme \<Rightarrow> string \<Rightarrow> string \<Rightarrow> string \<Rightarrow> bool" where
  "entitled_client listing w t s p \<longleftrightarrow>
     entitled (tenant_tuples listing w t) s MEMBER_REL p \<and> (\<forall>a \<in> set (applications (pg_db w)). ap_public_id a = p \<longrightarrow> ap_tenant_id a = t)
   \<or> (\<exists>a \<in> set (applications (pg_db w)). ap_public_id a = p \<and> ap_cross_tenant a
        \<and> entitled (tenant_tuples listing w (ap_tenant_id a)) s MEMBER_REL p)"

definition unowned_client :: "'z pg_scheme \<Rightarrow> string \<Rightarrow> string \<Rightarrow> bool" where
  "unowned_client w t p \<longleftrightarrow> (\<forall>a \<in> set (applications (pg_db w)). ap_public_id a = p \<longrightarrow>
     ap_tenant_id a = t \<and> ap_registration_source a = registration_source_dcr)"

lemma classified_cases:
  assumes uniq: "key_unique ap_public_id (applications (pg_db w))"
  obtains (provisional) "classified t owner p (find (\<lambda>a. ap_public_id a = p) (applications (pg_db w))) = Provisional p owner"
      and "\<forall>a \<in> set (applications (pg_db w)). ap_public_id a \<noteq> p"
  | (local) src where "classified t owner p (find (\<lambda>a. ap_public_id a = p) (applications (pg_db w))) = LocalApp p src"
      and "\<forall>a \<in> set (applications (pg_db w)). ap_public_id a = p \<longrightarrow> ap_tenant_id a = t \<and> ap_registration_source a = src"
  | (owned) a where "classified t owner p (find (\<lambda>a. ap_public_id a = p) (applications (pg_db w))) = CrossTenantOwned p (ap_tenant_id a) (ap_cross_tenant a)"
      and "a \<in> set (applications (pg_db w))" and "ap_public_id a = p"
proof (cases "find (\<lambda>a. ap_public_id a = p) (applications (pg_db w))")
  case None
  then show thesis using provisional [unfolded None] by (simp add: classified_def find_None_iff)
next
  case (Some a)
  then have a: "a \<in> set (applications (pg_db w))" "ap_public_id a = p" by (auto dest: find_SomeD)
  have only: "a' = a" if "a' \<in> set (applications (pg_db w))" "ap_public_id a' = p" for a' using key_uniqueD [OF uniq] that a by metis
  show thesis
  proof (cases "ap_tenant_id a = t")
    case True
    show thesis by (rule local [unfolded Some, of "ap_registration_source a"]) (use True only in \<open>auto simp: classified_def\<close>)
  next
    case False
    show thesis by (rule owned [unfolded Some, of a]) (use False a in \<open>auto simp: classified_def\<close>)
  qed
qed

lemma member_says:
  assumes "\<And>s. checks_related (ob_client b) listing s" and "is_member (openfga b) t s p w = (Inr True, v)"
  shows "entitled (tenant_tuples listing w t) s MEMBER_REL p"
  using entitlement_check_result [OF assms(1) assms(2) [unfolded is_member_def]] unfolding tenant_tuples_def by blast

lemma granted_first_use:
  assumes "fga_store_ok (ob_client b) listing tok" and "order_ok b" and "grant_first_use (openfga b) t s p rehome skip w = (Inr (), v)"
  shows "\<not> skip \<and> entitlement_triple p MEMBER_REL s \<in> tenant_tuples listing v t"
proof -
  obtain u where skip: "\<not> skip" and "fga_ensure_tuples b t [entitlement_tuple p MEMBER_REL s] [] u = (Inr (), v)"
    using assms(3) by (auto simp: grant_first_use_def grant_def run_simps split: if_splits)
  from ensure_entitlements [OF assms(1,2) _ _ this(2)] skip show ?thesis by (simp add: tenant_tuples_def)
qed

lemma gate_passed:
  assumes rel: "\<And>s. checks_related (ob_client b) listing s" and ok: "fga_store_ok (ob_client b) listing tok" "order_ok b"
    and apps: "key_unique ap_public_id (applications (pg_db w))" and res: "resolve_client_entitlement t (cr_client_id c) w = (Inr ce, u)"
    and ce: "ce = classified t owner p (find (\<lambda>a. ap_public_id a = p) (applications (pg_db w)))"
    and run: "consent_gate (openfga b) t s c app w = (Inr (app', ct), v)"
  shows "entitled_client listing w t s p
    \<or> \<not> cr_skip c \<and> unowned_client w t p \<and> entitlement_triple p MEMBER_REL s \<in> tenant_tuples listing v t"
proof -
  have u: "tenant_tuples listing u t' = tenant_tuples listing w t'" for t'
    by (rule steady_tuples [OF keepsD [OF steady_mappings(2) steady_refl res]])
  note rest = run [unfolded consent_gate_def attempt_at [where m = "resolve_client_entitlement t (cr_client_id c)" and s = w, OF res] ce sum.case]
  from apps show ?thesis
  proof (cases rule: classified_cases [where t = t and owner = owner and p = p])
    case provisional
    obtain m u1 where m: "(if owner = t then is_member (openfga b) t s p else ret False) u = (m, u1)" by fastforce
    show ?thesis
    proof (cases "m = Inr True")
      case True
      then have "entitled (tenant_tuples listing w t) s MEMBER_REL p"
        using m member_says [OF rel, of t s p u] u by (auto simp: ret_def split: if_splits)
      then show ?thesis using provisional by (simp add: entitled_client_def)
    next
      case False
      then obtain u2 where "grant_first_use (openfga b) t s p (owner \<noteq> t) (cr_skip c) u1 = (Inr (), v)"
        using rest m provisional(1) by (auto simp: attempt_def run_simps split: if_splits)
      from granted_first_use [OF ok this] provisional show ?thesis by (simp add: unowned_client_def)
    qed
  next
    case (local src)
    obtain m u1 where m: "is_member (openfga b) t s p u = (m, u1)" by fastforce
    show ?thesis
    proof (cases "m = Inr True")
      case True
      then show ?thesis using member_says [OF rel, of t s p u] m u local by (auto simp: entitled_client_def)
    next
      case False
      then have src: "src = registration_source_dcr" and g: "grant_first_use (openfga b) t s p False (cr_skip c) u1 = (Inr (), v)"
        using rest m local(1) by (auto simp: attempt_def run_simps split: if_splits)
      from granted_first_use [OF ok g] local src show ?thesis by (simp add: unowned_client_def)
    qed
  next
    case (owned a)
    obtain m u1 where m: "is_member (openfga b) (ap_tenant_id a) s p u = (m, u1)" by fastforce
    have "ap_cross_tenant a" "m = Inr True" using rest m owned(1) by (auto simp: attempt_def run_simps split: if_splits)
    then show ?thesis using member_says [OF rel, of "ap_tenant_id a" s p u] m u owned by (auto simp: entitled_client_def)
  qed
qed

section \<open>What an accepted consent has passed\<close>

text \<open>A run that succeeded, or that changed Hydra's state.\<close>

definition heard :: "'h \<Rightarrow> 'e + 'a \<Rightarrow> ('f, 'h, 'k, 'z) ory_world_scheme \<Rightarrow> bool" where
  "heard h x v \<longleftrightarrow> \<not> isl x \<or> ow_hydra v \<noteq> h"

lemmas heard_past = bindE_past [where P = "heard h" and J = "\<lambda>w. ow_hydra w = h" for h] attempt_past [where J = "\<lambda>w. ow_hydra w = h" for h]

lemma hyd_Inr: "hyd m w = (Inr y, u) \<longleftrightarrow> m (ow_hydra w) = (Inr y, ow_hydra u) \<and> u = w\<lparr>ow_hydra := ow_hydra u\<rparr>"
  by (auto simp: hydra_op_def map_err_def split: prod.splits sum.splits)

definition consent_reads :: "'h consent_hydra \<Rightarrow> bool" where
  "consent_reads hy \<longleftrightarrow> (\<forall>c h. snd (ch_get_consent_request hy c h) = h)"

lemma get_consent_state:
  assumes "consent_reads hy" and "hyd (ch_get_consent_request hy c) w = (r, u)"
  shows "u = w"
proof -
  have "snd (ch_get_consent_request hy c (ow_hydra w)) = ow_hydra w" using assms(1) by (simp add: consent_reads_def)
  then show ?thesis using assms(2) by (cases "ch_get_consent_request hy c (ow_hydra w)") (auto simp: hydra_op_def map_err_def split: sum.splits)
qed

lemma keeps_get_consent: "consent_reads hy \<Longrightarrow> keeps I (hyd (ch_get_consent_request hy c))"
  by (rule keepsI) (use get_consent_state in blast)

lemma keeps_kratos_op: "keeps (\<lambda>u. ow_hydra u = h) (kratos_op m)"
  by (simp add: keeps_def kratos_op_def split: prod.splits)

lemma keeps_claims:
  "keeps (\<lambda>u. ow_hydra u = h) (forced_email svc t c)" "keeps (\<lambda>u. ow_hydra u = h) (minted_claim (openfga b) t s a)"
  unfolding forced_email_def minted_claim_def
  by (auto intro!: keeps_rules keeps_kratos_op framed_mappings framed_entitlements framed_const split: sum.splits)

lemma hyd_last: "bindE (hyd m) (\<lambda>y. ret (g y)) u = (x, v) \<Longrightarrow>
    snd (m (ow_hydra u)) = ow_hydra v \<and> pg_db v = pg_db u \<and> fw_fga v = fw_fga u"
  by (auto simp: bindE_def ret_def hydra_op_def map_err_def split: prod.splits sum.splits)

lemma hyd_read:
  assumes "consent_reads hy" and "hyd (ch_get_consent_request hy c) w = (Inr j, u)"
  shows "u = w \<and> fst (ch_get_consent_request hy c (ow_hydra w)) = Inr j"
  using get_consent_state [OF assms] assms(2) by (auto simp: hydra_op_def map_err_def split: prod.splits sum.splits)

lemma accept_consent_heard:
  assumes b: "cs_entitlements svc = openfga b" and reads: "consent_reads (cs_hydra svc)"
    and run: "accept_consent svc ctx req w = (x, v)" and heard: "heard (ow_hydra w) x v"
  obtains t a ch j ic s ceiling app app' ct w1 w2 w3 w4 w5 w6 w7 w8 email claim where
    "require_consent_admin ctx = Inr ()" and "rx_tenant ctx = Some t" and "rx_auth ctx = Some a"
    and "ory_challenge t (an_challenge req) TOKEN_TYPE_CONSENT_CHALLENGE w = (Inr ch, w1)"
    and "fst (ch_get_consent_request (cs_hydra svc) ch (ow_hydra w)) = Inr j"
    and "set (an_grant_scope req) \<subseteq> set (cr_requested_scope (ory_consent_request_to_proto (cs_codec svc) j))"
    and "identity_claim t (cr_subject (ory_consent_request_to_proto (cs_codec svc) j)) w1 = (Inr ic, w2)"
    and "public_subject t (cr_subject (ory_consent_request_to_proto (cs_codec svc) j)) w2 = (Inr s, w3)"
    and "ac_subject a = s \<or> SCOPE_TENANT_ADMIN \<in> set (ac_scopes a)"
    and "effective_scope_ceiling (openfga b) t s w3 = (Inr ceiling :: service_error + _, w4)"
    and "\<forall>sc \<in> set (an_grant_scope req). sc \<in> set ceiling \<or> is_matrix_scope sc"
    and "public_client_id t (cr_client_id (ory_consent_request_to_proto (cs_codec svc) j)) w4 = (app, w5)"
    and "consent_gate (openfga b) t s (ory_consent_request_to_proto (cs_codec svc) j) app w5 = (Inr (app', ct), w6)"
    and "forced_email svc t (ory_consent_request_to_proto (cs_codec svc) j) w6 = (Inr email, w7)"
    and "minted_claim (openfga b) ct s app' w7 = (Inr claim, w8)"
    and "snd (ch_accept_consent_request (cs_hydra svc) ch (accept_body req ic email claim) (ow_hydra w)) = ow_hydra v"
    and "pg_db v = pg_db w8" and "fw_fga v = fw_fga w8"
proof -
  let ?K = "\<lambda>u. ow_hydra u = ow_hydra w"
  have K: "framed ?K" by (rule framed_const)
  have not_heard: "\<not> heard (ow_hydra w) (Inl e :: service_error + string) u" if "ow_hydra u = ow_hydra w" for e u
    using that by (simp add: heard_def)
  note kept = keeps_lift_result keeps_guard_err keeps_get_consent [OF reads] framed_mappings [OF K] framed_entitlements [OF K] framed_gate [OF K] keeps_claims
  show thesis
    using run unfolding accept_consent_def Let_def b
    apply (simp add: heard_past(1) [OF heard] heard_past(2) [where h = "ow_hydra w"] not_heard kept lift_result_eq guard_err_Inr cong: conj_cong)
    apply (elim exE conjE)
    apply (drule hyd_read [OF reads], drule hyd_last)
    apply (clarsimp simp: filter_empty_conv)
    apply (rule that, assumption+)
    done
qed

text \<open>Who the challenge is about: the public id that the mapping of the tenant gives the subject.\<close>

definition subject_is :: "'z pg_scheme \<Rightarrow> string \<Rightarrow> json \<Rightarrow> string \<Rightarrow> bool" where
  "subject_is w t j s \<longleftrightarrow>
     (if json_str j ''subject'' = [] then s = []
      else \<exists>r \<in> pg_rows w. im_tenant_id r = t \<and> im_backend r = ''kratos'' \<and> im_ory_global_id r = json_str j ''subject'' \<and> im_public_id r = s)"

lemma public_subject_row:
  assumes "public_subject t i w = (Inr s, v)" and "i \<noteq> []"
  shows "\<exists>r \<in> pg_rows v. im_tenant_id r = t \<and> im_backend r = ''kratos'' \<and> im_ory_global_id r = i \<and> im_public_id r = s"
proof -
  let ?at = "\<lambda>r. im_tenant_id r = t \<and> im_backend r = ''kratos'' \<and> im_ory_global_id r = i"
  obtain y u where q: "get_public_id t ''kratos'' i w = (y, u)" by fastforce
  show ?thesis
  proof (cases y)
    case (Inr p)
    then have "find ?at (id_mappings (pg_db w)) \<noteq> None" "s = p" "v = u"
      and p: "p = im_public_id (the (find ?at (id_mappings (pg_db w))))" "u = w\<lparr>pg_queries := Suc (pg_queries w)\<rparr>"
      using assms q pg_query_Inr [OF q [unfolded get_public_id_def Inr]] by (auto simp: public_subject_def attempt_def ret_def)
    then obtain r where "find ?at (id_mappings (pg_db w)) = Some r" by blast
    then show ?thesis using find_SomeD [of ?at "id_mappings (pg_db w)" r] p \<open>s = p\<close> \<open>v = u\<close> by auto
  next
    case (Inl e)
    then obtain row u1 where "id_mapping_create t ''kratos'' s i u1 = (Inr row, v)"
      using assms q by (auto simp: public_subject_def attempt_def raise_def run_simps split: if_splits)
    from id_mapping_create_Inr [OF this] show ?thesis by (auto simp: at_key_def)
  qed
qed

lemma kratos_row_stmts [stmt_rules]:
  assumes "im_backend r = ''kratos''"
  shows "stmt_keeps (\<lambda>db. r \<in> set (id_mappings db)) (application_insert_stmt t p ct src)"
    and "stmt_keeps (\<lambda>db. r \<in> set (id_mappings db)) (id_mapping_update_tenant_stmt ''hydra'' p t)"
    and "stmt_keeps (\<lambda>db. r \<in> set (id_mappings db)) (namespace_upsert_stmt t ns m si mi)"
  using assms by (intro stmt_keepsI; force simp: application_insert_stmt_def id_mapping_update_tenant_stmt_def namespace_upsert_stmt_def
      violates_def Let_def split: list.splits)+

lemma kratos_row_stays:
  assumes r: "im_backend r = ''kratos''"
  shows "keeps (\<lambda>w. r \<in> pg_rows w) (effective_scope_ceiling (openfga b) t u)" and "keeps (\<lambda>w. r \<in> pg_rows w) (public_client_id t c)"
    and "keeps (\<lambda>w. r \<in> pg_rows w) (consent_gate (openfga b) t u cr app)" and "keeps (\<lambda>w. r \<in> pg_rows w) (forced_email svc t cr)"
    and "keeps (\<lambda>w. r \<in> pg_rows w) (minted_claim (openfga b) t u a)"
proof -
  note call = keeps_fga_call_db [where J = "\<lambda>db. r \<in> set (id_mappings db)"]
    and get = keeps_repo_db [where J = "\<lambda>db. r \<in> set (id_mappings db)"]
    and query = keeps_pg_query [where J = "\<lambda>db. r \<in> set (id_mappings db)"] keeps_pg_query_any [where J = "\<lambda>db. r \<in> set (id_mappings db)"]
    and exec = keeps_pg_exec [where J = "\<lambda>db. r \<in> set (id_mappings db)"]
  have chk: "keeps (\<lambda>w. r \<in> pg_rows w) (entitlement_check (openfga b) t u app rel)" for t u app rel
    unfolding entitlement_check_def openfga_sel fga_check_permission_def fga_def client_check_def by (auto intro!: keeps_rules get call)
  have model: "keeps (\<lambda>w. r \<in> pg_rows w) (fga_ensure_model b t ns model)" for t ns model
    unfolding fga_ensure_model_def fga_provision_def persist_record_def fga_def pg_repo_upsert_def pg_namespace_upsert_def
    by (auto intro!: keeps_rules keeps_store_calls get call exec stmt_rules r split: option.splits)
  have mem: "keeps (\<lambda>w. r \<in> pg_rows w) (is_member (openfga b) t u p)" for t u p unfolding is_member_def by (rule chk)
  have first: "keeps (\<lambda>w. r \<in> pg_rows w) (grant_first_use (openfga b) t u p h k)" for t u p h k
    unfolding grant_first_use_def ensure_dcr_row_def application_create_def application_get_def id_mapping_update_tenant_def
      grant_def ensure_namespace_def openfga_sel
    by (auto intro!: keeps_rules exec query stmt_rules r model keeps_backend_calls(2) [OF call get] split: sum.splits)
  have res: "keeps (\<lambda>w. r \<in> pg_rows w) (resolve_client_entitlement t c)" for t c
    unfolding resolve_client_entitlement_def classify_owned_def get_public_id_def get_tenant_id_by_ory_id_def
      get_public_id_by_ory_id_def application_get_by_public_id_def by (auto intro!: keeps_rules query split: option.splits)
  have cof: "keeps (\<lambda>w. r \<in> pg_rows w) (check_or_false (openfga b) t u app rel)" for t u app rel
    unfolding check_or_false_def by (intro keeps_rules chk)
  have kr: "keeps (\<lambda>w. r \<in> pg_rows w) (kratos_op m)" for m
    by (simp add: keeps_def kratos_op_def split: prod.splits)
  show "keeps (\<lambda>w. r \<in> pg_rows w) (effective_scope_ceiling (openfga b) t u)"
    unfolding effective_scope_ceiling_def by (intro keeps_rules cof)
  show "keeps (\<lambda>w. r \<in> pg_rows w) (public_client_id t c)"
    unfolding public_client_id_def get_public_id_def by (intro keeps_rules query)
  show "keeps (\<lambda>w. r \<in> pg_rows w) (consent_gate (openfga b) t u cr app)"
    unfolding consent_gate_def by (auto intro!: keeps_rules res mem first split: client_entitlement.splits)
  show "keeps (\<lambda>w. r \<in> pg_rows w) (forced_email svc t cr)"
    unfolding forced_email_def force_email_claim_def get_public_id_def by (auto intro!: keeps_rules query kr split: sum.splits)
  show "keeps (\<lambda>w. r \<in> pg_rows w) (minted_claim (openfga b) t u a)"
    unfolding minted_claim_def mint_claim_def Let_def by (auto intro!: keeps_rules cof split: sum.splits)
qed

lemma body_scopes: "json_get (accept_body req i e c) ''grant_scope'' = Some (JArr (map JStr (an_grant_scope req)))"
proof -
  have entry: "\<exists>fs'. with_claims f (JObj fs) = JObj fs' \<and> map_of fs' ''grant_scope'' = map_of fs ''grant_scope''" for f fs
    using json_get_obj_entry [of "''session''" "JObj []" "obj_entry ''id_token'' (JObj []) f" fs "''grant_scope''"] by (simp add: with_claims_def)
  have inject: "\<exists>fs'. inject_id_token_claim k v (JObj fs) = JObj fs' \<and> map_of fs' ''grant_scope'' = map_of fs ''grant_scope''" for k v fs
    using entry by (simp add: inject_id_token_claim_def)
  let ?b = "accept_consent_request_to_json req"
  obtain f0 where f0: "?b = JObj f0" "map_of f0 ''grant_scope'' = Some (JArr (map JStr (an_grant_scope req)))"
    by (simp add: accept_consent_request_to_json_def)
  obtain f1 where f1: "(case i of Some i \<Rightarrow> inject_id_token_claim ''identity_id'' i ?b | None \<Rightarrow> ?b) = JObj f1"
    "map_of f1 ''grant_scope'' = map_of f0 ''grant_scope''" using inject [of "''identity_id''" "the i" f0] f0(1) by (cases i) auto
  obtain f2 where f2: "(case e of Some e \<Rightarrow> inject_id_token_claim ''email'' e (JObj f1) | None \<Rightarrow> JObj f1) = JObj f2"
    "map_of f2 ''grant_scope'' = map_of f1 ''grant_scope''" using inject [of "''email''" "the e" f1] by (cases e) auto
  obtain f3 where "accept_body req i e c = JObj f3" "map_of f3 ''grant_scope'' = map_of f2 ''grant_scope''"
    unfolding accept_body_def Let_def f1(1) f2(1) using entry [of "merge_claims (the (as_object c))" f2] by (cases "as_object c") auto
  then show ?thesis using f0 f1 f2 by simp
qed

lemma subject_stays:
  assumes "public_subject t (json_str j ''subject'') w2 = (Inr s, w3)"
    and "effective_scope_ceiling (openfga b) t s w3 = (y :: service_error + _, w4)" and "public_client_id t c w4 = (app, w5)"
    and "consent_gate (openfga b) t s cr app w5 = (g, w6)" and "forced_email svc t cr w6 = (e, w7)"
    and "minted_claim (openfga b) ct s app' w7 = (m, w8)" and "pg_db v = pg_db w8"
  shows "subject_is v t j s"
proof (cases "json_str j ''subject'' = []")
  case True
  then show ?thesis using assms(1) by (simp add: subject_is_def public_subject_def ret_def)
next
  case False
  then obtain r where r: "r \<in> pg_rows w3" "im_tenant_id r = t" "im_backend r = ''kratos''" "im_ory_global_id r = json_str j ''subject''" "im_public_id r = s"
    using public_subject_row [OF assms(1)] by blast
  note stays = kratos_row_stays [OF r(3)]
  have "r \<in> pg_rows w8"
    using keepsD [OF stays(1) r(1) assms(2)] keepsD [OF stays(2) _ assms(3)] keepsD [OF stays(3) _ assms(4)] keepsD [OF stays(4) _ assms(5)]
      keepsD [OF stays(5) _ assms(6)] by blast
  then show ?thesis using r False assms(7) by (auto simp: subject_is_def)
qed

lemma steady_kratos: "keeps (steady listing w) (kratos_op m)"
  by (simp add: keeps_def steady_def kratos_op_def split: prod.splits)

lemma steady_claims:
  assumes "\<And>s. checks_related (ob_client b) listing s"
  shows "keeps (steady listing w) (forced_email svc t c)" and "keeps (steady listing w) (minted_claim (openfga b) t s a)"
  unfolding forced_email_def minted_claim_def
  by (auto intro!: keeps_rules steady_kratos steady_mappings steady_checks assms split: sum.splits)

lemma steady_maps:
  assumes "steady listing w u"
  shows "r \<in> pg_rows u \<and> maps_subject ''hydra'' c r \<longleftrightarrow> r \<in> pg_rows w \<and> maps_subject ''hydra'' c r"
proof -
  have "set (hydra_rows (pg_db u)) = set (hydra_rows (pg_db w))" using assms by (simp only: steady_def)
  then show ?thesis by (auto simp: hydra_rows_def maps_subject_def)
qed

text \<open>
  \<^bold>\<open>C4.\<close> What a consent hands out: whenever Hydra is told that a consent is accepted, also in a run
  that then fails, the caller has one of the two admin scopes and accepts for the user the
  challenge is about, unless they are a tenant admin; the scopes passed on are those of the
  request, all of them among the scopes the client asked for, and each is an OpenID scope, a
  Matrix scope, or one that the user's role on the gateway object covers.
\<close>

theorem consent_authorized:
  assumes "cs_entitlements svc = openfga b" and "consent_reads (cs_hydra svc)" and rel: "\<And>s. checks_related (ob_client b) listing s"
    and "accept_consent svc ctx req w = (x, v)" and "\<not> isl x \<or> ow_hydra v \<noteq> ow_hydra w"
  shows "\<exists>t a ch j s body. rx_tenant ctx = Some t \<and> rx_auth ctx = Some a \<and> set (ac_scopes a) \<inter> {''tenant:admin'', ''identity:admin''} \<noteq> {}
    \<and> fst (ory_challenge t (an_challenge req) TOKEN_TYPE_CONSENT_CHALLENGE w) = Inr ch
    \<and> fst (ch_get_consent_request (cs_hydra svc) ch (ow_hydra w)) = Inr j
    \<and> snd (ch_accept_consent_request (cs_hydra svc) ch body (ow_hydra w)) = ow_hydra v
    \<and> subject_is v t j s \<and> (ac_subject a = s \<or> ''tenant:admin'' \<in> set (ac_scopes a))
    \<and> json_get body ''grant_scope'' = Some (JArr (map JStr (an_grant_scope req)))
    \<and> (\<forall>sc \<in> set (an_grant_scope req). sc \<in> set (json_array_to_strings (jc_show (cs_codec svc)) (json_index j ''requested_scope''))
         \<and> (sc \<in> set oidc_scope_ceiling \<or> is_matrix_scope sc
            \<or> sc \<in> set admin_scope_ceiling \<and> entitled (tenant_tuples listing w t) s ADMIN_REL GATEWAY_APP_OBJECT
            \<or> sc \<in> set read_scope_ceiling \<and> entitled (tenant_tuples listing w t) s MEMBER_REL GATEWAY_APP_OBJECT))"
proof (rule accept_consent_heard [OF assms(1,2,4)], goal_cases)
  case 1
  then show ?case using assms(5) by (simp add: heard_def)
next
  case (2 t a ch j ic s ceiling app app' ct w1 w2 w3 w4 w5 w6 w7 w8 email claim)
  let ?T = "tenant_tuples listing w t"
  have st: "steady listing w w3"
    using keepsD [OF steady_mappings(5) steady_refl 2(4)] keepsD [OF steady_mappings(4) _ 2(7)] keepsD [OF steady_mappings(3) _ 2(8)] by blast
  have T: "set (listing (fw_fga w3) (entitlement_store (pg_db w3) t)) = ?T"
    using steady_tuples [OF st] by (simp add: tenant_tuples_def)
  from scope_ceiling_sound [OF rel 2(10)] have ceil: "sc \<in> set oidc_scope_ceiling
      \<or> sc \<in> set admin_scope_ceiling \<and> entitled ?T s ADMIN_REL GATEWAY_APP_OBJECT
      \<or> sc \<in> set read_scope_ceiling \<and> entitled ?T s MEMBER_REL GATEWAY_APP_OBJECT" if "sc \<in> set ceiling" for sc
    unfolding T using that by auto
  have "cr_subject (ory_consent_request_to_proto (cs_codec svc) j) = json_str j ''subject''"
    "cr_requested_scope (ory_consent_request_to_proto (cs_codec svc) j) = json_array_to_strings (jc_show (cs_codec svc)) (json_index j ''requested_scope'')"
    by (simp_all add: ory_consent_request_to_proto_def Let_def)
  note proto = this
  have subj: "subject_is v t j s" by (rule subject_stays [OF 2(8) [unfolded proto] 2(10,12,13,14,15,17)])
  have admin: "set (ac_scopes a) \<inter> {''tenant:admin'', ''identity:admin''} \<noteq> {}"
    using 2(1,3) by (auto simp: require_consent_admin_def scope_defs split: if_splits)
  have scopes: "\<forall>sc \<in> set (an_grant_scope req). sc \<in> set (json_array_to_strings (jc_show (cs_codec svc)) (json_index j ''requested_scope''))
      \<and> (sc \<in> set oidc_scope_ceiling \<or> is_matrix_scope sc \<or> sc \<in> set admin_scope_ceiling \<and> entitled ?T s ADMIN_REL GATEWAY_APP_OBJECT
         \<or> sc \<in> set read_scope_ceiling \<and> entitled ?T s MEMBER_REL GATEWAY_APP_OBJECT)"
    using 2(6,11) ceil unfolding proto by blast
  have och: "fst (ory_challenge t (an_challenge req) TOKEN_TYPE_CONSENT_CHALLENGE w) = Inr ch" using 2(4) by simp
  have own: "ac_subject a = s \<or> ''tenant:admin'' \<in> set (ac_scopes a)" using 2(9) by (simp add: scope_defs)
  show ?case
    by (rule exI [of _ t], rule exI [of _ a], rule exI [of _ ch], rule exI [of _ j], rule exI [of _ s],
        rule exI [of _ "accept_body req ic email claim"], intro conjI 2(2,3,5,16) och admin subj own scopes body_scopes)
qed

text \<open>
  \<^bold>\<open>C5.\<close> Only the entitled get a consent: while the database answers, a consent that Hydra is told of
  is for a client that no mapping knows, for one whose application the user may use by the tuples
  as they were, or for one that no tenant administers, on an interactive consent, after which the
  user has a tuple of their own on it.
\<close>

theorem consent_entitled:
  assumes "cs_entitlements svc = openfga b" and "consent_reads (cs_hydra svc)" and rel: "\<And>s. checks_related (ob_client b) listing s"
    and ok: "fga_store_ok (ob_client b) listing tok" "order_ok b" and "applications_ok (pg_db w)" and "scan_ok w"
    and "pg_fault w = (\<lambda>_. None)"
    and "accept_consent svc ctx req w = (x, v)" and "\<not> isl x \<or> ow_hydra v \<noteq> ow_hydra w"
  shows "\<exists>t ch j s. rx_tenant ctx = Some t \<and> fst (ory_challenge t (an_challenge req) TOKEN_TYPE_CONSENT_CHALLENGE w) = Inr ch
    \<and> fst (ch_get_consent_request (cs_hydra svc) ch (ow_hydra w)) = Inr j \<and> subject_is v t j s
    \<and> (let c = ory_consent_request_to_proto (cs_codec svc) j
       in (\<forall>r \<in> pg_rows w. \<not> maps_subject ''hydra'' (cr_client_id c) r)
        \<or> (\<exists>r \<in> pg_rows w. maps_subject ''hydra'' (cr_client_id c) r
             \<and> (entitled_client listing w t s (im_public_id r)
                \<or> \<not> cr_skip c \<and> unowned_client w t (im_public_id r)
                  \<and> entitlement_triple (im_public_id r) MEMBER_REL s \<in> tenant_tuples listing v t)))"
proof (rule accept_consent_heard [OF assms(1,2,9)], goal_cases)
  case 1
  then show ?case using assms(10) by (simp add: heard_def)
next
  case (2 t a ch j ic s ceiling app app' ct w1 w2 w3 w4 w5 w6 w7 w8 email claim)
  let ?c = "ory_consent_request_to_proto (cs_codec svc) j"
  have st: "steady listing w w5"
    using keepsD [OF steady_mappings(5) steady_refl 2(4)] keepsD [OF steady_mappings(4) _ 2(7)] keepsD [OF steady_mappings(3) _ 2(8)]
      keepsD [OF steady_checks(2) [OF rel] _ 2(10)] keepsD [OF steady_mappings(6) _ 2(12)] by blast
  have frame: "P w5" if P: "framed P" "P w" for P
    using keepsD [OF framed_mappings(5) [OF P(1)] P(2) 2(4)] keepsD [OF framed_mappings(4) [OF P(1)] _ 2(7)]
      keepsD [OF framed_mappings(3) [OF P(1)] _ 2(8)] keepsD [OF framed_entitlements(3) [OF P(1)] _ 2(10)]
      keepsD [OF framed_mappings(6) [OF P(1)] _ 2(12)] by blast
  have quiet: "pg_fault w5 = (\<lambda>_. None)" "scan_ok w5"
    using frame [OF framed_const(1)] frame [OF framed_const(2)] assms(7,8) by (auto simp: scan_ok_def)
  have apps: "applications (pg_db w5) = applications (pg_db w)" by (rule steady_store(2) [OF st])
  then have ok5: "key_unique ap_public_id (applications (pg_db w5))" using assms(6) by (simp add: applications_ok_def)
  have "steady listing w6 w8"
    using keepsD [OF steady_claims(1) [OF rel] steady_refl 2(14)] keepsD [OF steady_claims(2) [OF rel] _ 2(15)] by blast
  then have tv: "tenant_tuples listing v t = tenant_tuples listing w6 t"
    using steady_tuples [of listing w6 w8] 2(17,18) by (simp add: tenant_tuples_def)
  have "cr_subject ?c = json_str j ''subject''" by (simp add: ory_consent_request_to_proto_def Let_def)
  then have subj: "subject_is v t j s" by (intro subject_stays [OF _ 2(10,12,13,14,15,17)]) (use 2(8) in simp)
  have och: "fst (ory_challenge t (an_challenge req) TOKEN_TYPE_CONSENT_CHALLENGE w) = Inr ch" using 2(4) by simp
  obtain y u where res: "resolve_client_entitlement t (cr_client_id ?c) w5 = (y, u)" by fastforce
  from resolve_client_no_fault [OF quiet res] show ?case
  proof (elim disjE bexE exE conjE, goal_cases)
    case none: 1
    then have "\<forall>r \<in> pg_rows w. \<not> maps_subject ''hydra'' (cr_client_id ?c) r" using steady_maps [OF st] by blast
    then show ?case using 2(2,5) och subj unfolding Let_def by blast
  next
    case row: (2 r owner)
    have "entitled_client listing w5 t s (im_public_id r) \<or> \<not> cr_skip ?c \<and> unowned_client w5 t (im_public_id r)
        \<and> entitlement_triple (im_public_id r) MEMBER_REL s \<in> tenant_tuples listing w6 t"
      by (rule gate_passed [OF rel ok ok5 res [unfolded row(3)] refl 2(13)])
    then have "entitled_client listing w t s (im_public_id r) \<or> \<not> cr_skip ?c \<and> unowned_client w t (im_public_id r)
        \<and> entitlement_triple (im_public_id r) MEMBER_REL s \<in> tenant_tuples listing v t"
      by (simp add: entitled_client_def unowned_client_def apps steady_tuples [OF st] tv)
    moreover have "r \<in> pg_rows w" using steady_maps [OF st] row by blast
    ultimately show ?case using 2(2,5) och subj row(2) unfolding Let_def by blast
  qed
qed

lemma steady_gate_skipped:
  assumes "\<And>s. checks_related (ob_client b) listing s" and "cr_skip c"
  shows "keeps (steady listing w) (consent_gate (openfga b) t u c app)"
  unfolding consent_gate_def is_member_def grant_first_use_def
  using assms(2) by (auto intro!: keeps_rules steady_mappings steady_checks assms(1) split: client_entitlement.splits)

lemma steady_hyd: "keeps (steady listing w) (hyd m)"
  by (auto simp: keeps_def steady_def hydra_op_def map_err_def split: prod.splits sum.splits)

text \<open>
  A remembered decision grants nothing: when the consent request that Hydra holds is one it
  would skip, accepting it changes no tuple, no application and no mapping of a client, whatever
  the outcome, so that a revoked access does not come back with the next automatic consent.
\<close>

theorem skipped_consent_grants_nothing:
  assumes "cs_entitlements svc = openfga b" and reads: "consent_reads (cs_hydra svc)" and rel: "\<And>s. checks_related (ob_client b) listing s"
    and "rx_tenant ctx = Some t" and ch: "fst (ory_challenge t (an_challenge req) TOKEN_TYPE_CONSENT_CHALLENGE w) = Inr ch"
    and j: "fst (ch_get_consent_request (cs_hydra svc) ch (ow_hydra w)) = Inr j" and "json_bool j ''skip''"
    and run: "accept_consent svc ctx req w = (x, v)"
  shows "listing (fw_fga v) = listing (fw_fga w) \<and> applications (pg_db v) = applications (pg_db w) \<and> hydra_rows (pg_db v) = hydra_rows (pg_db w)"
proof (rule ccontr)
  assume changed: "\<not> ?thesis"
  have skip: "json_bool j' ''skip''" if "rx_tenant ctx = Some t'" "ory_challenge t' (an_challenge req) TOKEN_TYPE_CONSENT_CHALLENGE w = (Inr ch', w')"
    "fst (ch_get_consent_request (cs_hydra svc) ch' (ow_hydra w)) = Inr j'" for t' ch' w' j' using that assms(4,7) ch j by simp
  let ?J = "\<lambda>u. steady listing w u \<and> ow_hydra u = ow_hydra w"
  let ?P = "\<lambda>(x :: service_error + string) v. \<not> steady listing w v"
  have P: "?P x v" using changed steady_store(2) [of listing w v] by (auto simp: steady_def)
  have J: "\<And>e u. ?J u \<Longrightarrow> \<not> ?P (Inl e) u" by simp
  have both: "keeps ?J m" if "keeps (steady listing w) m" "keeps (\<lambda>u. ow_hydra u = ow_hydra w) m" for m using that by (rule keeps_conj)
  have tail: "keeps (steady listing w) (bindE (consent_gate (openfga b) t s (ory_consent_request_to_proto (cs_codec svc) j) app) f)"
    if "json_bool j ''skip''" "\<And>y. keeps (steady listing w) (f y)" for t s j app f
    using that by (intro keeps_bindE steady_gate_skipped rel) (simp add: ory_consent_request_to_proto_def Let_def)
  have K: "framed (\<lambda>u. ow_hydra u = ow_hydra w)" by (rule framed_const)
  note past = bindE_past [where J = ?J and P = ?P, OF P J] attempt_past [where J = ?J]
  show False
    using run P
    unfolding accept_consent_def Let_def assms(1)
    apply (simp add: past both keeps_get_consent [OF reads] steady_mappings framed_mappings [OF K] steady_checks [OF rel] framed_entitlements [OF K]
        keeps_lift_result keeps_guard_err lift_result_eq guard_err_Inr cong: conj_cong)
    apply (elim exE conjE, drule hyd_read [OF reads], erule notE, rule keepsD [OF tail, rotated 3], assumption)
      apply (use skip in auto)
    apply (auto intro!: keeps_rules steady_claims steady_hyd rel)
    done
qed

section \<open>Challenges\<close>

text \<open>
  Challenges come back: the public challenge that a consent or logout request is handed out
  with, whether it was minted for it or already there, resolves to Hydra's challenge it stands
  for, or to an error, and is never passed through to Hydra as it is.
\<close>

theorem challenge_roundtrip:
  assumes "transient_tokens_ok (pg_db w)" and "public_challenge t c ty w = (Inr p, v)" and "ory_challenge t p ty v = (x, u)"
  shows "\<forall>g. x = Inr g \<longrightarrow> g = c"
proof -
  obtain r u1 where look: "get_public_token t ''hydra'' ty c w = (r, u1)" by fastforce
  have u1: "pg_db u1 = pg_db w" "pg_now u1 = pg_now w"
    using arg_cong [OF look, of snd] by (auto simp: get_public_token_def pg_query_state)
  obtain y u2 where res: "get_ory_token t ''hydra'' ty p v = (y, u2)" by fastforce
  have "y \<noteq> Inl MappingNotFound \<and> (\<forall>g. y = Inr g \<longrightarrow> g = c)"
  proof (cases r)
    case (Inr q)
    then have "q = p" "u1 = v" using assms(2) look by (auto simp: public_challenge_def attempt_def ret_def)
    then show ?thesis using transient.looked_up_resolves [OF assms(1) look [unfolded Inr]] res by simp
  next
    case (Inl e)
    then have mint: "transient_create t ''hydra'' ty c (pg_now u1 + 3600 * nanos_per_second) u1 = (Inr p, v)"
      using assms(2) look by (auto simp: public_challenge_def attempt_def raise_def challenge_expiry_def now_utc_def run_simps split: if_splits)
    have "transient_tokens_ok (pg_db u1)" "pg_now u1 < pg_now u1 + 3600 * nanos_per_second"
      using assms(1) u1 by (simp_all add: nanos_per_second_def)
    then show ?thesis using transient.minted_resolves [OF _ mint _ res] by blast
  qed
  then show ?thesis using assms(3) res by (cases y) (auto simp: ory_challenge_def attempt_def ret_def raise_def split: if_splits)
qed

section \<open>The claims of the id token\<close>

definition id_token_claim :: "json \<Rightarrow> string \<Rightarrow> json option" where
  "id_token_claim body k = Option.bind (Option.bind (json_get body ''session'') (\<lambda>s. json_get s ''id_token'')) (\<lambda>c. json_get c k)"

text \<open>The claims a body carries, where its session and its id token are objects or missing.\<close>

definition body_claims :: "json \<Rightarrow> (string \<times> json) list option" where
  "body_claims body =
     (case as_object body of
        None \<Rightarrow> None
      | Some b \<Rightarrow>
          (case map_of b ''session'' of
             None \<Rightarrow> Some []
           | Some session \<Rightarrow>
               (case as_object session of
                  None \<Rightarrow> None
                | Some s \<Rightarrow> (case map_of s ''id_token'' of None \<Rightarrow> Some [] | Some c \<Rightarrow> as_object c))))"

lemma as_object_Some [simp]: "as_object v = Some fs \<longleftrightarrow> v = JObj fs"
  by (cases v) simp_all

lemma id_token_claim_body: "body_claims body = Some fs \<Longrightarrow> id_token_claim body k = map_of fs k"
  by (auto simp: body_claims_def id_token_claim_def split: option.splits)

lemma body_claims_with:
  assumes "body_claims body = Some fs" and "f (JObj fs) = JObj gs"
  shows "body_claims (with_claims f body) = Some gs"
proof -
  obtain b where b: "body = JObj b" using assms(1) by (auto simp: body_claims_def split: option.splits)
  define s where "s = (case map_of b ''session'' of Some v \<Rightarrow> v | None \<Rightarrow> JObj [])"
  obtain ss where ss: "s = JObj ss" using assms(1) b by (auto simp: body_claims_def s_def split: option.splits)
  define c where "c = (case map_of ss ''id_token'' of Some v \<Rightarrow> v | None \<Rightarrow> JObj [])"
  have c: "c = JObj fs" using assms(1) b ss by (auto simp: body_claims_def s_def c_def split: option.splits)
  obtain b' where b': "with_claims f body = JObj b'" by (simp add: with_claims_def b)
  then have sess: "map_of b' ''session'' = Some (obj_entry ''id_token'' (JObj []) f s)"
    using json_get_obj_entry [of "''session''" "JObj []" "obj_entry ''id_token'' (JObj []) f" b "''session''"] by (simp add: with_claims_def b s_def)
  obtain s' where s': "obj_entry ''id_token'' (JObj []) f s = JObj s'" by (simp add: ss)
  then have "map_of s' ''id_token'' = Some (JObj gs)"
    using json_get_obj_entry [of "''id_token''" "JObj []" f ss "''id_token''"] assms(2) c by (simp add: ss c_def)
  then show ?thesis using b' sess s' by (simp add: body_claims_def)
qed

lemma or_insert_obj: "\<exists>gs. or_insert k v (JObj fs) = JObj gs \<and> map_of gs = map_of ((fs @ [(k, v)]))"
proof -
  obtain gs where gs: "or_insert k v (JObj fs) = JObj gs" by (simp add: or_insert_def)
  have "map_of gs x = map_of (fs @ [(k, v)]) x" for x
    using json_get_or_insert [of k v fs x] gs by (auto simp: map_add_def split: option.splits)
  then show ?thesis using gs by blast
qed

lemma merge_claims_obj: "\<exists>gs. merge_claims ms (JObj fs) = JObj gs \<and> map_of gs = map_of (fs @ ms)"
proof (induction ms arbitrary: fs)
  case (Cons m ms)
  obtain k v where m: "m = (k, v)" by fastforce
  obtain gs where gs: "or_insert k v (JObj fs) = JObj gs" "map_of gs = map_of (fs @ [(k, v)])" using or_insert_obj by blast
  obtain hs where "merge_claims ms (JObj gs) = JObj hs" "map_of hs = map_of (gs @ ms)" using Cons.IH by blast
  then show ?case using gs m by (auto simp: merge_claims_def)
qed (simp add: merge_claims_def)

lemma inject_claim:
  assumes "body_claims body = Some fs"
  shows "\<exists>gs. body_claims (inject_id_token_claim k v body) = Some gs \<and> map_of gs = map_of (fs @ (if v = [] then [] else [(k, JStr v)]))"
  using or_insert_obj [of k "JStr v" fs] body_claims_with [OF assms] assms by (auto simp: inject_id_token_claim_def)

text \<open>
  The claims Hydra is told: what the caller put into the id token stands; where it says nothing,
  \<^verbatim>\<open>identity_id\<close> is the public id, \<^verbatim>\<open>email\<close> the address that was looked up, and the entitlement claim that
  was minted fills in the rest. Nothing else is added.
\<close>

theorem claims_caller_wins:
  assumes "body_claims (accept_consent_request_to_json req) = Some fs"
  shows "id_token_claim (accept_body req identity email minted) k =
    (case map_of fs k of
       Some v \<Rightarrow> Some v
     | None \<Rightarrow>
         if k = ''identity_id'' \<and> identity \<noteq> None \<and> identity \<noteq> Some [] then map_option JStr identity
         else if k = ''email'' \<and> email \<noteq> None \<and> email \<noteq> Some [] then map_option JStr email
         else json_get minted k)"
proof -
  let ?body = "accept_consent_request_to_json req"
  obtain g1 where g1: "body_claims (case identity of Some i \<Rightarrow> inject_id_token_claim ''identity_id'' i ?body | None \<Rightarrow> ?body) = Some g1"
    "map_of g1 = map_of (fs @ (case identity of Some i \<Rightarrow> if i = [] then [] else [(''identity_id'', JStr i)] | None \<Rightarrow> []))"
    using inject_claim [OF assms] assms by (cases identity) auto
  obtain g2 where g2: "body_claims (case email of Some e \<Rightarrow> inject_id_token_claim ''email'' e
      (case identity of Some i \<Rightarrow> inject_id_token_claim ''identity_id'' i ?body | None \<Rightarrow> ?body)
      | None \<Rightarrow> (case identity of Some i \<Rightarrow> inject_id_token_claim ''identity_id'' i ?body | None \<Rightarrow> ?body)) = Some g2"
    "map_of g2 = map_of (g1 @ (case email of Some e \<Rightarrow> if e = [] then [] else [(''email'', JStr e)] | None \<Rightarrow> []))"
    using inject_claim [OF g1(1)] g1(1) by (cases email) auto
  have "\<exists>g3. body_claims (accept_body req identity email minted) = Some g3
      \<and> map_of g3 = map_of (g2 @ (case as_object minted of Some ms \<Rightarrow> ms | None \<Rightarrow> []))"
  proof (cases "as_object minted")
    case None
    then show ?thesis unfolding accept_body_def Let_def None option.case append_Nil2 using g2(1) by blast
  next
    case (Some ms)
    obtain gs where "merge_claims ms (JObj g2) = JObj gs" "map_of gs = map_of (g2 @ ms)" using merge_claims_obj by blast
    then show ?thesis unfolding accept_body_def Let_def Some option.case using body_claims_with [OF g2(1)] by blast
  qed
  then obtain g3 where g3: "body_claims (accept_body req identity email minted) = Some g3"
    "map_of g3 = map_of (g2 @ (case as_object minted of Some ms \<Rightarrow> ms | None \<Rightarrow> []))" by blast
  have minted: "map_of (case as_object minted of Some ms \<Rightarrow> ms | None \<Rightarrow> []) k = json_get minted k" by (cases minted) simp_all
  have "map_of g3 k = (case map_of fs k of Some v \<Rightarrow> Some v | None \<Rightarrow>
      (case map_of (case identity of Some i \<Rightarrow> if i = [] then [] else [(''identity_id'', JStr i)] | None \<Rightarrow> []) k of Some v \<Rightarrow> Some v | None \<Rightarrow>
      (case map_of (case email of Some e \<Rightarrow> if e = [] then [] else [(''email'', JStr e)] | None \<Rightarrow> []) k of Some v \<Rightarrow> Some v | None \<Rightarrow> json_get minted k)))"
    unfolding g3(2) map_of_append map_add_def g2(2) g1(2) minted by (simp split: option.splits)
  then show ?thesis unfolding id_token_claim_body [OF g3(1)] by (cases identity; cases email) (simp_all split: option.splits)
qed

section \<open>Witnesses\<close>

text \<open>An OpenFGA server whose checks cannot be reached, and a Hydra that keeps what it is told.\<close>

definition blind_backend :: "fga_tuple list openfga_backend" where
  "blind_backend = sample_backend\<lparr>ob_client := sample_client\<lparr>fc_join := (\<lambda>path. if ends_with path ''/check'' then Inl ''unreachable'' else Inr path)\<rparr>\<rparr>"

definition held_consent :: "bool \<Rightarrow> json" where
  "held_consent skip = JObj [(''challenge'', JStr ''ch''), (''client'', JObj [(''client_id'', JStr ''hc'')]), (''subject'', JStr ''k1''),
     (''requested_scope'', JArr [JStr ''openid'', JStr ''email'']), (''skip'', JBool skip)]"

definition sample_hydra :: "bool \<Rightarrow> json list consent_hydra" where
  "sample_hydra skip =
     \<lparr>ch_get_consent_request = (\<lambda>c. ret (held_consent skip)),
      ch_accept_consent_request = (\<lambda>c body h. (Inr (JObj [(''redirect_to'', JStr ''https://app/'')]), body # h)),
      ch_reject_consent_request = (\<lambda>c body. ret JNull), ch_get_logout_request = (\<lambda>c. ret JNull),
      ch_accept_logout_request = (\<lambda>c body. ret JNull), ch_reject_logout_request = (\<lambda>c body. ret JNull)\<rparr>"

type_synonym sample_world = "(fga_tuple list, json list, unit) ory_world"

definition sample_consent :: "bool \<Rightarrow> (json list, unit, sample_world) consent_service" where
  "sample_consent skip =
     \<lparr>cs_hydra = sample_hydra skip, cs_kratos_get_identity = (\<lambda>i. raise Ory_MissingTenant), cs_entitlements = openfga blind_backend,
      cs_force_email_claim_client_ids = [], cs_codec = \<lparr>jc_show = (\<lambda>_. []), jc_struct_of = Some\<rparr>\<rparr>"

definition consent_db :: database where
  "consent_db = provisioned_db\<lparr>id_mappings := [
       \<lparr>im_id = ''1'', im_tenant_id = ''T'', im_backend = ''hydra'', im_public_id = ''pub'', im_ory_global_id = ''hc'', im_created_at = 0\<rparr>,
       \<lparr>im_id = ''2'', im_tenant_id = ''T'', im_backend = ''kratos'', im_public_id = ''u'', im_ory_global_id = ''k1'', im_created_at = 0\<rparr>]\<rparr>"

definition consent_world :: sample_world where
  "consent_world = fga_world.extend ((provisioned_world [])\<lparr>pg_db := consent_db\<rparr>) \<lparr>ow_hydra = [], ow_kratos = ()\<rparr>"

definition consent_ctx :: request_context where
  "consent_ctx = \<lparr>rx_auth = Some \<lparr>ac_tenant_id = ''T'', ac_subject = ''u'', ac_subject_type = User, ac_actor = None,
     ac_scopes = [''identity:admin''], ac_token_hash = [], ac_authentication_methods = []\<rparr>, rx_tenant = Some ''T''\<rparr>"

definition consent_req :: accept_consent_request where
  "consent_req = \<lparr>an_challenge = ''ch'', an_grant_scope = [''openid''], an_grant_access_token_audience = [], an_remember = True,
     an_remember_for = 0, an_session = None\<rparr>"

lemma sample_run:
  "fst (accept_consent (sample_consent False) consent_ctx consent_req consent_world) = Inr ''https://app/''"
  "fst (accept_consent (sample_consent True) consent_ctx consent_req consent_world) = Inl not_entitled"
  by code_simp+

lemma fewer_paths:
  assumes "fc_send d = fc_send c" and "fc_fuel d = fc_fuel c" and "\<And>p url. fc_join d p = Inr url \<Longrightarrow> fc_join c p = Inr url"
    and "fga_store_ok c listing tok"
  shows "fga_store_ok d listing tok"
proof -
  have l: "lists_tuples c listing tok" and w: "writes_tuples c listing" using assms(4) by (simp_all add: fga_store_ok_def)
  have "lists_tuples d listing tok"
    unfolding lists_tuples_def assms(1)
    by (intro conjI allI impI l [unfolded lists_tuples_def, THEN conjunct1] l [unfolded lists_tuples_def, THEN conjunct2, THEN conjunct1, rule_format]
        l [unfolded lists_tuples_def, THEN conjunct2, THEN conjunct2, rule_format, THEN conjunct1, OF assms(3)]
        l [unfolded lists_tuples_def, THEN conjunct2, THEN conjunct2, rule_format, THEN conjunct2, rule_format, OF assms(3)]) blast+
  moreover have "writes_tuples d listing"
    unfolding writes_tuples_def assms(1) by (intro allI impI w [unfolded writes_tuples_def, rule_format, OF assms(3)])
  ultimately show ?thesis using assms(2,4) by (simp add: fga_store_ok_def)
qed

lemma blind_laws:
  "checks_related (ob_client blind_backend) sample_listing s" "fga_store_ok (ob_client blind_backend) sample_listing page_tok" "order_ok blind_backend"
proof -
  have "ends_with (''stores/'' @ s @ ''/check'') ''/check''" for s by (simp add: ends_with_def starts_with_def)
  then show "checks_related (ob_client blind_backend) sample_listing s" by (simp add: checks_related_def blind_backend_def)
  show "fga_store_ok (ob_client blind_backend) sample_listing page_tok"
    by (rule fewer_paths [OF _ _ _ sample_store_ok]) (simp_all add: blind_backend_def sample_backend_def sample_client_def split: if_splits)
  show "order_ok blind_backend" using sample_order_ok by (simp add: order_ok_def blind_backend_def sample_backend_def)
qed

lemma sample_service:
  "cs_entitlements (sample_consent k) = openfga blind_backend" "consent_reads (cs_hydra (sample_consent k))"
  "applications_ok (pg_db consent_world)" "scan_ok consent_world" "pg_fault consent_world = (\<lambda>_. None)" "fw_fga consent_world = []"
  "pg_db consent_world = consent_db"
  by (simp_all add: sample_consent_def sample_hydra_def consent_reads_def ret_def consent_world_def fga_world.defs provisioned_world_def quiet_pg_def
      pg.defs scan_ok_def applications_ok_def consent_db_def provisioned_db_def entitled_db_def empty_db_def key_unique_def)

theorem consent_authorized_witness:
  "\<exists>v j s. accept_consent (sample_consent False) consent_ctx consent_req consent_world = (Inr ''https://app/'', v)
     \<and> subject_is v ''T'' j s \<and> s = ''u''"
proof -
  obtain x v where run: "accept_consent (sample_consent False) consent_ctx consent_req consent_world = (x, v)" by fastforce
  then have x: "x = Inr ''https://app/''" using sample_run(1) by simp
  have own: "rx_auth consent_ctx = Some a \<Longrightarrow> ac_subject a = ''u'' \<and> ''tenant:admin'' \<notin> set (ac_scopes a)" and t: "rx_tenant consent_ctx = Some ''T''" for a
    by (auto simp: consent_ctx_def)
  from consent_authorized [OF sample_service(1,2) blind_laws(1) run] x obtain a j s where "rx_auth consent_ctx = Some a" "subject_is v ''T'' j s"
    "ac_subject a = s \<or> ''tenant:admin'' \<in> set (ac_scopes a)" unfolding t by auto
  then show ?thesis using run x own by blast
qed

theorem consent_entitled_witness:
  "\<exists>v s. accept_consent (sample_consent False) consent_ctx consent_req consent_world = (Inr ''https://app/'', v)
     \<and> entitlement_triple ''pub'' MEMBER_REL s \<in> tenant_tuples sample_listing v ''T''"
proof -
  obtain x v where run: "accept_consent (sample_consent False) consent_ctx consent_req consent_world = (x, v)" by fastforce
  then have x: "x = Inr ''https://app/''" using sample_run(1) by simp
  let ?c = "ory_consent_request_to_proto (cs_codec (sample_consent False)) (held_consent False)"
  have c: "cr_client_id ?c = ''hc''" by (simp add: ory_consent_request_to_proto_def held_consent_def json_index_def json_str_def Let_def)
  have get: "fst (ch_get_consent_request (cs_hydra (sample_consent False)) ch h) = Inr j \<Longrightarrow> j = held_consent False" for ch h j
    by (simp add: sample_consent_def sample_hydra_def ret_def)
  have rows: "r \<in> pg_rows consent_world \<and> maps_subject ''hydra'' ''hc'' r \<longleftrightarrow> r = hd (id_mappings consent_db)" for r
    by (auto simp: sample_service consent_db_def maps_subject_def)
  have pub: "im_public_id (hd (id_mappings consent_db)) = ''pub''" and none: "applications consent_db = []"
    by (simp_all add: consent_db_def provisioned_db_def entitled_db_def empty_db_def)
  have no: "\<not> entitled_client sample_listing consent_world t s p" for t s p
    by (auto simp: entitled_client_def sample_service none tenant_tuples_def sample_listing_def entitled_def elim: related.cases)
  have t: "rx_tenant consent_ctx = Some ''T''" by (simp add: consent_ctx_def)
  have "\<not> isl x \<or> ow_hydra v \<noteq> ow_hydra consent_world" using x by simp
  from consent_entitled [OF sample_service(1,2) blind_laws(1,2,3) sample_service(3,4,5) run this] obtain ch j s
    where "fst (ch_get_consent_request (cs_hydra (sample_consent False)) ch (ow_hydra consent_world)) = Inr j"
      and alt: "let c = ory_consent_request_to_proto (cs_codec (sample_consent False)) j
       in (\<forall>r \<in> pg_rows consent_world. \<not> maps_subject ''hydra'' (cr_client_id c) r)
        \<or> (\<exists>r \<in> pg_rows consent_world. maps_subject ''hydra'' (cr_client_id c) r
             \<and> (entitled_client sample_listing consent_world ''T'' s (im_public_id r)
                \<or> \<not> cr_skip c \<and> unowned_client consent_world ''T'' (im_public_id r)
                  \<and> entitlement_triple (im_public_id r) MEMBER_REL s \<in> tenant_tuples sample_listing v ''T''))"
    unfolding t option.inject by blast
  then have "entitlement_triple ''pub'' MEMBER_REL s \<in> tenant_tuples sample_listing v ''T''"
    using get no rows pub c unfolding Let_def by metis
  then show ?thesis using run x by blast
qed

theorem skipped_consent_grants_nothing_witness:
  "\<exists>v. accept_consent (sample_consent True) consent_ctx consent_req consent_world = (Inl not_entitled, v) \<and> sample_listing (fw_fga v) = sample_listing []"
proof -
  obtain x v where run: "accept_consent (sample_consent True) consent_ctx consent_req consent_world = (x, v)" by fastforce
  then have x: "x = Inl not_entitled" using sample_run(2) by simp
  have t: "rx_tenant consent_ctx = Some ''T''" by (simp add: consent_ctx_def)
  have ch: "fst (ory_challenge ''T'' (an_challenge consent_req) TOKEN_TYPE_CONSENT_CHALLENGE consent_world) = Inr ''ch''" by code_simp
  have j: "fst (ch_get_consent_request (cs_hydra (sample_consent True)) ''ch'' (ow_hydra consent_world)) = Inr (held_consent True)"
    by (simp add: sample_consent_def sample_hydra_def ret_def)
  have "json_bool (held_consent True) ''skip''" by code_simp
  from skipped_consent_grants_nothing [OF sample_service(1,2) blind_laws(1) t ch j this run] show ?thesis
    using run x by (auto simp: sample_service)
qed

theorem challenge_roundtrip_witness:
  "\<exists>p v u. public_challenge ''T'' ''ch'' ''consent_challenge'' consent_world = (Inr p, v) \<and> p \<noteq> ''ch''
     \<and> ory_challenge ''T'' p ''consent_challenge'' v = (Inr ''ch'', u)"
proof -
  let ?mint = "public_challenge ''T'' ''ch'' ''consent_challenge'' consent_world"
  obtain y v where mint: "?mint = (y, v)" by fastforce
  have "fst ?mint = Inr ''00''" by code_simp
  then have y: "y = Inr ''00''" using mint by simp
  obtain x u where res: "ory_challenge ''T'' ''00'' ''consent_challenge'' v = (x, u)" by fastforce
  have "\<not> isl (fst (ory_challenge ''T'' ''00'' ''consent_challenge'' (snd ?mint)))" by code_simp
  then obtain g where g: "x = Inr g" using mint res by (cases x) auto
  have ok: "transient_tokens_ok (pg_db consent_world)"
    by (simp add: sample_service transient_tokens_ok_def consent_db_def provisioned_db_def entitled_db_def empty_db_def key_unique_def)
  from challenge_roundtrip [OF ok mint [unfolded y] res] g have "x = Inr ''ch''" by simp
  then show ?thesis using mint y res by auto
qed

theorem claims_caller_wins_witness:
  "id_token_claim (accept_body (consent_req\<lparr>an_session := Some (Inr (JObj [(''id_token'', JObj [(''email'', JStr ''mine'')])]))\<rparr>)
     (Some ''u'') (Some ''other'') JNull) ''email'' = Some (JStr ''mine'')"
proof -
  have "body_claims (accept_consent_request_to_json (consent_req\<lparr>an_session := Some (Inr (JObj [(''id_token'', JObj [(''email'', JStr ''mine'')])]))\<rparr>))
      = Some [(''email'', JStr ''mine'')]" by code_simp
  from claims_caller_wins [OF this] show ?thesis by simp
qed

end
