(* ===== verification/Applications.thy ===== *)
theory Applications
  imports OryWorld
begin

text \<open>
  The application service, \<^verbatim>\<open>services/application.rs\<close>, and the client credential service,
  \<^verbatim>\<open>services/client_credential.rs\<close>: OAuth2 clients of a tenant, kept in Hydra and named by the mappings
  of the backend \<^verbatim>\<open>hydra\<close>; an application has a row of its own beside the mapping and tuples of its
  entitlements. The parser of URLs is a parameter.
\<close>

section \<open>Validation\<close>

datatype url_host = Domain string | Ipv4 nat nat nat nat | Ipv6 "nat list"

record parsed_url =
  pu_scheme :: string
  pu_host :: "url_host option"

type_synonym url_parser = "string \<Rightarrow> string + parsed_url"

fun is_loopback :: "url_host \<Rightarrow> bool" where
  "is_loopback (Domain d) \<longleftrightarrow> eq_ignore_ascii_case d ''localhost''"
| "is_loopback (Ipv4 a b c d) \<longleftrightarrow> a = 127"
| "is_loopback (Ipv6 segments) \<longleftrightarrow> segments = [0, 0, 0, 0, 0, 0, 0, 1]"

definition is_loopback_host :: "parsed_url \<Rightarrow> bool" where
  "is_loopback_host u = (case pu_host u of Some host \<Rightarrow> is_loopback host | None \<Rightarrow> False)"

definition check_redirect_uri :: "url_parser \<Rightarrow> bool \<Rightarrow> string \<Rightarrow> service_error + unit" where
  "check_redirect_uri parse allow_http uri =
     (if CHR ''*'' \<in> set uri then Inl (SE_InvalidArgument (''redirect_uri contains wildcard: '' @ uri))
      else case parse uri of
        Inl e \<Rightarrow> Inl (SE_InvalidArgument (''invalid redirect_uri '' @ uri @ '': '' @ e))
      | Inr u \<Rightarrow>
          if pu_scheme u = ''https'' then Inr ()
          else if pu_scheme u = ''http'' \<and> (allow_http \<or> is_loopback_host u) then Inr ()
          else if pu_scheme u = ''javascript'' \<or> pu_scheme u = ''data''
          then Inl (SE_InvalidArgument (''redirect_uri uses forbidden scheme: '' @ pu_scheme u))
          else Inl (SE_InvalidArgument (''redirect_uri must use https scheme: '' @ uri)))"

definition check_native_redirect_uri :: "url_parser \<Rightarrow> string \<Rightarrow> service_error + unit" where
  "check_native_redirect_uri parse uri =
     (if CHR ''*'' \<in> set uri then Inl (SE_InvalidArgument (''redirect_uri contains wildcard: '' @ uri))
      else case parse uri of
        Inl e \<Rightarrow> Inl (SE_InvalidArgument (''invalid redirect_uri '' @ uri @ '': '' @ e))
      | Inr u \<Rightarrow>
          if pu_scheme u = ''https'' then Inr ()
          else if pu_scheme u = ''http'' \<and> is_loopback_host u then Inr ()
          else if pu_scheme u \<in> {''javascript'', ''data'', ''file''}
          then Inl (SE_InvalidArgument (''redirect_uri uses forbidden scheme: '' @ uri))
          else if pu_scheme u = ''http'' then Inl (SE_InvalidArgument (''redirect_uri must use https scheme: '' @ uri))
          else Inr ())"

fun validate_uris :: "(string \<Rightarrow> service_error + unit) \<Rightarrow> string list \<Rightarrow> service_error + unit" where
  "validate_uris check [] = Inr ()"
| "validate_uris check (uri # uris) = (case check uri of Inl e \<Rightarrow> Inl e | Inr _ \<Rightarrow> validate_uris check uris)"

definition validate_redirect_uris :: "url_parser \<Rightarrow> string list \<Rightarrow> bool \<Rightarrow> service_error + unit" where
  "validate_redirect_uris parse uris allow_http = validate_uris (check_redirect_uri parse allow_http) uris"

definition validate_native_redirect_uris :: "url_parser \<Rightarrow> string list \<Rightarrow> service_error + unit" where
  "validate_native_redirect_uris parse uris = validate_uris (check_native_redirect_uri parse) uris"

definition validate_token_endpoint_auth_method :: "string \<Rightarrow> service_error + unit" where
  "validate_token_endpoint_auth_method meth =
     (if meth = [] then Inr ()
      else if meth \<notin> {''client_secret_post'', ''client_secret_basic'', ''none''}
      then Inl (SE_InvalidArgument
        ''token_endpoint_auth_method must be one of [\"client_secret_post\", \"client_secret_basic\", \"none\"]'')
      else Inr ())"

section \<open>Messages and payloads\<close>

record application =
  aa_id :: string
  aa_tenant_id :: string
  aa_name :: string
  aa_redirect_uris :: "string list"
  aa_grant_types :: "string list"
  aa_response_types :: "string list"
  aa_scope :: "string list"
  aa_token_endpoint_auth_method :: string
  aa_client_secret :: string
  aa_cross_tenant :: bool
  aa_skip_consent :: bool

record create_application_request =
  ca_name :: string
  ca_redirect_uris :: "string list"
  ca_grant_types :: "string list"
  ca_response_types :: "string list"
  ca_scope :: "string list"
  ca_token_endpoint_auth_method :: string
  ca_cross_tenant :: bool
  ca_skip_consent :: bool

record update_application_request =
  ua_id :: string
  ua_name :: string
  ua_redirect_uris :: "string list"
  ua_grant_types :: "string list"
  ua_response_types :: "string list"
  ua_scope :: "string list"
  ua_token_endpoint_auth_method :: string
  ua_cross_tenant :: "bool option"
  ua_skip_consent :: "bool option"

definition json_strings :: "string list \<Rightarrow> json" where
  "json_strings xs = JArr (map JStr xs)"

definition build_hydra_payload :: "create_application_request \<Rightarrow> string \<Rightarrow> json" where
  "build_hydra_payload req client_id =
     JObj [(''client_id'', JStr client_id), (''client_name'', JStr (ca_name req)),
       (''redirect_uris'', json_strings (ca_redirect_uris req)), (''grant_types'', json_strings (ca_grant_types req)),
       (''response_types'', json_strings (ca_response_types req)), (''scope'', JStr (join_with '' '' (ca_scope req))),
       (''token_endpoint_auth_method'', JStr (ca_token_endpoint_auth_method req)), (''skip_consent'', JBool (ca_skip_consent req))]"

definition string_or_current :: "string \<Rightarrow> json \<Rightarrow> json" where
  "string_or_current new current = (if new = [] then current else JStr new)"

definition list_or_current :: "string list \<Rightarrow> json \<Rightarrow> json" where
  "list_or_current new current = (if new = [] then current else json_strings new)"

definition build_hydra_update_payload :: "update_application_request \<Rightarrow> string \<Rightarrow> json \<Rightarrow> json" where
  "build_hydra_update_payload req ory_id existing =
     (let skip_consent = (case ua_skip_consent req of Some v \<Rightarrow> v | None \<Rightarrow> as_bool (json_index existing ''skip_consent'') = Some True)
      in JObj [(''client_id'', JStr ory_id),
           (''client_name'', string_or_current (ua_name req) (json_index existing ''client_name'')),
           (''redirect_uris'', list_or_current (ua_redirect_uris req) (json_index existing ''redirect_uris'')),
           (''grant_types'', list_or_current (ua_grant_types req) (json_index existing ''grant_types'')),
           (''response_types'', list_or_current (ua_response_types req) (json_index existing ''response_types'')),
           (''scope'', string_or_current (join_with '' '' (ua_scope req)) (json_index existing ''scope'')),
           (''token_endpoint_auth_method'',
              string_or_current (ua_token_endpoint_auth_method req) (json_index existing ''token_endpoint_auth_method'')),
           (''skip_consent'', JBool skip_consent)])"

definition json_string_array :: "json \<Rightarrow> string list" where
  "json_string_array v = (case as_array v of Some arr \<Rightarrow> List.map_filter as_str arr | None \<Rightarrow> [])"

definition text_at :: "json \<Rightarrow> string \<Rightarrow> string" where
  "text_at v k = (case as_str (json_index v k) of Some s \<Rightarrow> s | None \<Rightarrow> [])"

definition scope_list :: "json \<Rightarrow> string list" where
  "scope_list client = (if text_at client ''scope'' = [] then [] else split_on (CHR '' '') (text_at client ''scope''))"

definition hydra_to_application :: "json \<Rightarrow> string \<Rightarrow> string \<Rightarrow> bool \<Rightarrow> application" where
  "hydra_to_application client tenant_id public_id cross_tenant =
     \<lparr>aa_id = public_id, aa_tenant_id = tenant_id, aa_name = text_at client ''client_name'',
      aa_redirect_uris = json_string_array (json_index client ''redirect_uris''),
      aa_grant_types = json_string_array (json_index client ''grant_types''),
      aa_response_types = json_string_array (json_index client ''response_types''),
      aa_scope = scope_list client, aa_token_endpoint_auth_method = text_at client ''token_endpoint_auth_method'',
      aa_client_secret = [], aa_cross_tenant = cross_tenant,
      aa_skip_consent = (as_bool (json_index client ''skip_consent'') = Some True)\<rparr>"

section \<open>ApplicationServiceImpl\<close>

record ('h, 's) application_service =
  av_hydra :: "'h hydra_ops"
  av_entitlements :: "'s permission_backend"
  av_system_tenant_ulid :: string
  av_default_entitlement_groups :: "string list"
  av_allow_http_redirect_uris :: bool
  av_parse_url :: url_parser

type_synonym ('f, 'h, 'k, 'z) application_impl = "('h, ('f, 'h, 'k, 'z) ory_world_scheme) application_service"

abbreviation hya :: "('h, ory_error, 'a) io \<Rightarrow> (('f, 'h, 'k, 'z) ory_world_scheme, service_error, 'a) io" where
  "hya m \<equiv> map_err map_ory_error (hydra_op m)"

definition is_system_tenant :: "string \<Rightarrow> request_context \<Rightarrow> bool" where
  "is_system_tenant system_tenant ctx = (case rx_auth ctx of Some a \<Rightarrow> ac_tenant_id a = system_tenant | None \<Rightarrow> False)"

definition missing_field :: "string \<Rightarrow> service_error" where
  "missing_field field = SE_Internal (''hydra response missing '' @ field)"

definition app_admin :: "request_context \<Rightarrow> service_error + string" where
  "app_admin ctx =
     (case require_tenant ctx of
        Inl e \<Rightarrow> Inl e
      | Inr tenant_id \<Rightarrow> (case require_scope ctx SCOPE_APPLICATION_ADMIN of Inl e \<Rightarrow> Inl e | Inr _ \<Rightarrow> Inr tenant_id))"

definition app_reader :: "request_context \<Rightarrow> service_error + string" where
  "app_reader ctx =
     (case require_tenant ctx of
        Inl e \<Rightarrow> Inl e
      | Inr tenant_id \<Rightarrow>
          (case require_scope_any ctx [SCOPE_APPLICATION_READ, SCOPE_APPLICATION_ADMIN] of Inl e \<Rightarrow> Inl e | Inr _ \<Rightarrow> Inr tenant_id))"

definition create_application ::
  "('f, 'h, 'k, 'z) application_impl \<Rightarrow> request_context \<Rightarrow> create_application_request
    \<Rightarrow> (('f, 'h, 'k, 'z) ory_world_scheme, service_error, application) io" where
  "create_application svc ctx req =
     bindE (lift_result (app_admin ctx)) (\<lambda>tenant_id.
     bindE (guard_err (ca_cross_tenant req \<and> \<not> is_system_tenant (av_system_tenant_ulid svc) ctx)
              (SE_PermissionDenied ''only the system tenant can create cross-tenant applications'')) (\<lambda>_.
     bindE (lift_result (validate_redirect_uris (av_parse_url svc) (ca_redirect_uris req) (av_allow_http_redirect_uris svc))) (\<lambda>_.
     bindE (lift_result (validate_token_endpoint_auth_method (ca_token_endpoint_auth_method req))) (\<lambda>_.
     bindE ulid_new (\<lambda>public_id.
     bindE (hya (hy_create_oauth2_client (av_hydra svc) (build_hydra_payload req public_id))) (\<lambda>created.
     bindE (lift_result (ok_or (missing_field ''client_id'') (as_str (json_index created ''client_id'')))) (\<lambda>ory_id.
     bindE (dbq (id_mapping_create tenant_id ''hydra'' public_id ory_id)) (\<lambda>_.
     bindE (dbq (application_create tenant_id public_id (ca_cross_tenant req) registration_source_admin)) (\<lambda>_.
     bindE (seed_application (av_entitlements svc) tenant_id public_id (av_default_entitlement_groups svc)) (\<lambda>_.
     ret ((hydra_to_application created tenant_id public_id (ca_cross_tenant req))
            \<lparr>aa_client_secret := text_at created ''client_secret''\<rparr>)))))))))))"

definition stored_cross_tenant :: "string \<Rightarrow> string \<Rightarrow> ('z pg_scheme, service_error, bool) io" where
  "stored_cross_tenant tenant_id i =
     attempt (application_get tenant_id i) (\<lambda>r. ret (case r of Inr row \<Rightarrow> ap_cross_tenant row | Inl _ \<Rightarrow> False))"

definition get_application ::
  "('f, 'h, 'k, 'z) application_impl \<Rightarrow> request_context \<Rightarrow> string
    \<Rightarrow> (('f, 'h, 'k, 'z) ory_world_scheme, service_error, application) io" where
  "get_application svc ctx i =
     bindE (lift_result (app_reader ctx)) (\<lambda>tenant_id.
     bindE (dbq (get_ory_id tenant_id ''hydra'' i)) (\<lambda>ory_id.
     bindE (stored_cross_tenant tenant_id i) (\<lambda>cross_tenant.
     bindE (hya (hy_get_oauth2_client (av_hydra svc) ory_id)) (\<lambda>client.
     ret (hydra_to_application client tenant_id i cross_tenant)))))"

text \<open>One client of a list: a mapping or a client that cannot be read is left out.\<close>

definition listed_client ::
  "'h hydra_ops \<Rightarrow> string \<Rightarrow> string \<Rightarrow> (('f, 'h, 'k, 'z) ory_world_scheme, service_error, json option) io" where
  "listed_client hydra tenant_id public_id =
     attempt (get_ory_id tenant_id ''hydra'' public_id) (\<lambda>r. case r of
         Inl _ \<Rightarrow> ret None
       | Inr ory_id \<Rightarrow> attempt (hydra_op (hy_get_oauth2_client hydra ory_id)) (\<lambda>c. case c of Inl _ \<Rightarrow> ret None | Inr client \<Rightarrow> ret (Some client)))"

fun list_clients ::
  "'h hydra_ops \<Rightarrow> string \<Rightarrow> (json \<Rightarrow> string \<Rightarrow> 'a) \<Rightarrow> string list \<Rightarrow> (('f, 'h, 'k, 'z) ory_world_scheme, service_error, 'a list) io" where
  "list_clients hydra tenant_id mk [] = ret []"
| "list_clients hydra tenant_id mk (public_id # ids) =
     bindE (listed_client hydra tenant_id public_id) (\<lambda>client.
     bindE (list_clients hydra tenant_id mk ids) (\<lambda>rest.
     ret (case client of Some c \<Rightarrow> mk c public_id # rest | None \<Rightarrow> rest)))"

text \<open>A later row of a list with the same key wins in the \<^verbatim>\<open>HashMap\<close> that is collected from it.\<close>

definition flag_of :: "application_row list \<Rightarrow> string \<Rightarrow> bool" where
  "flag_of rows public_id = (case map_of (rev (map (\<lambda>r. (ap_public_id r, ap_cross_tenant r)) rows)) public_id of Some v \<Rightarrow> v | None \<Rightarrow> False)"

definition list_applications ::
  "('f, 'h, 'k, 'z) application_impl \<Rightarrow> request_context \<Rightarrow> (('f, 'h, 'k, 'z) ory_world_scheme, service_error, application list) io" where
  "list_applications svc ctx =
     bindE (lift_result (app_reader ctx)) (\<lambda>tenant_id.
     bindE (dbq (list_public_ids tenant_id ''hydra'')) (\<lambda>public_ids.
     bindE (dbq (application_list_by_tenant tenant_id)) (\<lambda>rows.
     list_clients (av_hydra svc) tenant_id (\<lambda>client i. hydra_to_application client tenant_id i (flag_of rows i)) public_ids)))"

definition update_application ::
  "('f, 'h, 'k, 'z) application_impl \<Rightarrow> request_context \<Rightarrow> update_application_request
    \<Rightarrow> (('f, 'h, 'k, 'z) ory_world_scheme, service_error, application) io" where
  "update_application svc ctx req =
     bindE (lift_result (app_admin ctx)) (\<lambda>tenant_id.
     bindE (lift_result (validate_redirect_uris (av_parse_url svc) (ua_redirect_uris req) (av_allow_http_redirect_uris svc))) (\<lambda>_.
     bindE (lift_result (validate_token_endpoint_auth_method (ua_token_endpoint_auth_method req))) (\<lambda>_.
     bindE (guard_err (ua_cross_tenant req = Some True \<and> \<not> is_system_tenant (av_system_tenant_ulid svc) ctx)
              (SE_PermissionDenied ''only the system tenant can enable cross-tenant applications'')) (\<lambda>_.
     bindE (dbq (get_ory_id tenant_id ''hydra'' (ua_id req))) (\<lambda>ory_id.
     bindE (case ua_cross_tenant req of
              None \<Rightarrow> ret ()
            | Some flag \<Rightarrow> bindE (dbq (application_set_cross_tenant tenant_id (ua_id req) flag)) (\<lambda>_. ret ())) (\<lambda>_.
     bindE (hya (hy_get_oauth2_client (av_hydra svc) ory_id)) (\<lambda>existing.
     bindE (hya (hy_update_oauth2_client (av_hydra svc) ory_id (build_hydra_update_payload req ory_id existing))) (\<lambda>updated.
     bindE (stored_cross_tenant tenant_id (ua_id req)) (\<lambda>cross_tenant.
     ret (hydra_to_application updated tenant_id (ua_id req) cross_tenant))))))))))"

definition delete_application ::
  "('f, 'h, 'k, 'z) application_impl \<Rightarrow> request_context \<Rightarrow> string \<Rightarrow> (('f, 'h, 'k, 'z) ory_world_scheme, service_error, unit) io" where
  "delete_application svc ctx i =
     bindE (lift_result (app_admin ctx)) (\<lambda>tenant_id.
     bindE (dbq (get_ory_id tenant_id ''hydra'' i)) (\<lambda>ory_id.
     bindE (hya (hy_delete_oauth2_client (av_hydra svc) ory_id)) (\<lambda>_.
     bindE (best_effort (application_delete tenant_id i)) (\<lambda>_.
     dbq (id_mapping_delete tenant_id ''hydra'' i)))))"

definition rotated_secret ::
  "'h hydra_ops \<Rightarrow> request_context \<Rightarrow> string \<Rightarrow> (('f, 'h, 'k, 'z) ory_world_scheme, service_error, string \<times> string) io" where
  "rotated_secret hydra ctx i =
     bindE (lift_result (app_admin ctx)) (\<lambda>tenant_id.
     bindE (dbq (get_ory_id tenant_id ''hydra'' i)) (\<lambda>ory_id.
     bindE (hya (hy_rotate_client_secret hydra ory_id)) (\<lambda>rotated.
     bindE (lift_result (ok_or (missing_field ''client_secret'') (as_str (json_index rotated ''client_secret'')))) (\<lambda>client_secret.
     ret (i, client_secret)))))"

definition rotate_secret ::
  "('f, 'h, 'k, 'z) application_impl \<Rightarrow> request_context \<Rightarrow> string
    \<Rightarrow> (('f, 'h, 'k, 'z) ory_world_scheme, service_error, string \<times> string) io" where
  "rotate_secret svc ctx i = rotated_secret (av_hydra svc) ctx i"

section \<open>ClientCredentialServiceImpl\<close>

definition GRANT_TYPE_CLIENT_CREDENTIALS :: string where
  "GRANT_TYPE_CLIENT_CREDENTIALS = ''client_credentials''"

record client_credential =
  cc_id :: string
  cc_tenant_id :: string
  cc_name :: string
  cc_scope :: "string list"
  cc_token_endpoint_auth_method :: string
  cc_client_secret :: string

record client_credential_request =
  cq_id :: string
  cq_name :: string
  cq_scope :: "string list"
  cq_token_endpoint_auth_method :: string

definition validate_scopes :: "string list \<Rightarrow> service_error + unit" where
  "validate_scopes scopes =
     (if scopes = [] then Inl (SE_InvalidArgument ''at least one scope is required'')
      else case find (\<lambda>s. s \<notin> set KNOWN_SCOPES) scopes of
        Some scope \<Rightarrow> Inl (SE_InvalidArgument (''unknown scope: '' @ scope))
      | None \<Rightarrow> Inr ())"

definition validate_or_default_token_endpoint_auth_method :: "string \<Rightarrow> service_error + string" where
  "validate_or_default_token_endpoint_auth_method meth =
     (if meth = [] then Inr ''client_secret_basic''
      else if meth \<notin> {''client_secret_post'', ''client_secret_basic''}
      then Inl (SE_InvalidArgument ''token_endpoint_auth_method must be one of [\"client_secret_post\", \"client_secret_basic\"]'')
      else Inr meth)"

definition credential_payload :: "client_credential_request \<Rightarrow> string \<Rightarrow> string \<Rightarrow> json" where
  "credential_payload req meth client_id =
     JObj [(''client_id'', JStr client_id), (''client_name'', JStr (cq_name req)),
       (''grant_types'', json_strings [GRANT_TYPE_CLIENT_CREDENTIALS]), (''scope'', JStr (join_with '' '' (cq_scope req))),
       (''token_endpoint_auth_method'', JStr meth)]"

definition hydra_to_client_credential :: "json \<Rightarrow> string \<Rightarrow> string \<Rightarrow> client_credential" where
  "hydra_to_client_credential client tenant_id public_id =
     \<lparr>cc_id = public_id, cc_tenant_id = tenant_id, cc_name = text_at client ''client_name'', cc_scope = scope_list client,
      cc_token_endpoint_auth_method = text_at client ''token_endpoint_auth_method'', cc_client_secret = []\<rparr>"

definition create_client_credential ::
  "'h hydra_ops \<Rightarrow> request_context \<Rightarrow> client_credential_request
    \<Rightarrow> (('f, 'h, 'k, 'z) ory_world_scheme, service_error, client_credential) io" where
  "create_client_credential hydra ctx req =
     bindE (lift_result (app_admin ctx)) (\<lambda>tenant_id.
     bindE (lift_result (validate_scopes (cq_scope req))) (\<lambda>_.
     bindE (lift_result (validate_or_default_token_endpoint_auth_method (cq_token_endpoint_auth_method req))) (\<lambda>meth.
     bindE ulid_new (\<lambda>public_id.
     bindE (hya (hy_create_oauth2_client hydra (credential_payload req meth public_id))) (\<lambda>created.
     bindE (lift_result (ok_or (missing_field ''client_id'') (as_str (json_index created ''client_id'')))) (\<lambda>ory_id.
     bindE (dbq (id_mapping_create tenant_id ''hydra'' public_id ory_id)) (\<lambda>_.
     ret ((hydra_to_client_credential created tenant_id public_id)\<lparr>cc_client_secret := text_at created ''client_secret''\<rparr>))))))))"

definition get_client_credential ::
  "'h hydra_ops \<Rightarrow> request_context \<Rightarrow> string \<Rightarrow> (('f, 'h, 'k, 'z) ory_world_scheme, service_error, client_credential) io" where
  "get_client_credential hydra ctx i =
     bindE (lift_result (app_reader ctx)) (\<lambda>tenant_id.
     bindE (dbq (get_ory_id tenant_id ''hydra'' i)) (\<lambda>ory_id.
     bindE (hya (hy_get_oauth2_client hydra ory_id)) (\<lambda>client.
     ret (hydra_to_client_credential client tenant_id i))))"

definition list_client_credentials ::
  "'h hydra_ops \<Rightarrow> request_context \<Rightarrow> (('f, 'h, 'k, 'z) ory_world_scheme, service_error, client_credential list) io" where
  "list_client_credentials hydra ctx =
     bindE (lift_result (app_reader ctx)) (\<lambda>tenant_id.
     bindE (dbq (list_public_ids tenant_id ''hydra'')) (\<lambda>public_ids.
     list_clients hydra tenant_id (\<lambda>client i. hydra_to_client_credential client tenant_id i) public_ids))"

definition update_client_credential ::
  "'h hydra_ops \<Rightarrow> request_context \<Rightarrow> client_credential_request
    \<Rightarrow> (('f, 'h, 'k, 'z) ory_world_scheme, service_error, client_credential) io" where
  "update_client_credential hydra ctx req =
     bindE (lift_result (app_admin ctx)) (\<lambda>tenant_id.
     bindE (lift_result (validate_scopes (cq_scope req))) (\<lambda>_.
     bindE (lift_result (validate_or_default_token_endpoint_auth_method (cq_token_endpoint_auth_method req))) (\<lambda>meth.
     bindE (dbq (get_ory_id tenant_id ''hydra'' (cq_id req))) (\<lambda>ory_id.
     bindE (hya (hy_update_oauth2_client hydra ory_id (credential_payload req meth ory_id))) (\<lambda>updated.
     ret (hydra_to_client_credential updated tenant_id (cq_id req)))))))"

definition delete_client_credential ::
  "'h hydra_ops \<Rightarrow> request_context \<Rightarrow> string \<Rightarrow> (('f, 'h, 'k, 'z) ory_world_scheme, service_error, unit) io" where
  "delete_client_credential hydra ctx i =
     bindE (lift_result (app_admin ctx)) (\<lambda>tenant_id.
     bindE (dbq (get_ory_id tenant_id ''hydra'' i)) (\<lambda>ory_id.
     bindE (hya (hy_delete_oauth2_client hydra ory_id)) (\<lambda>_.
     dbq (id_mapping_delete tenant_id ''hydra'' i))))"

definition rotate_client_credential_secret ::
  "'h hydra_ops \<Rightarrow> request_context \<Rightarrow> string \<Rightarrow> (('f, 'h, 'k, 'z) ory_world_scheme, service_error, string \<times> string) io" where
  "rotate_client_credential_secret hydra ctx i = rotated_secret hydra ctx i"

section \<open>The RPCs together\<close>

datatype application_call =
    CreateApplication create_application_request
  | GetApplication string
  | ListApplications
  | UpdateApplication update_application_request
  | DeleteApplication string
  | RotateSecret string
  | CreateClientCredential client_credential_request
  | GetClientCredential string
  | ListClientCredentials
  | UpdateClientCredential client_credential_request
  | DeleteClientCredential string
  | RotateClientCredentialSecret string

fun answer_call ::
  "('f, 'h, 'k, 'z) application_impl \<Rightarrow> request_context \<Rightarrow> application_call \<Rightarrow> (('f, 'h, 'k, 'z) ory_world_scheme, service_error, unit) io" where
  "answer_call svc ctx (CreateApplication req) = bindE (create_application svc ctx req) (\<lambda>_. ret ())"
| "answer_call svc ctx (GetApplication i) = bindE (get_application svc ctx i) (\<lambda>_. ret ())"
| "answer_call svc ctx ListApplications = bindE (list_applications svc ctx) (\<lambda>_. ret ())"
| "answer_call svc ctx (UpdateApplication req) = bindE (update_application svc ctx req) (\<lambda>_. ret ())"
| "answer_call svc ctx (DeleteApplication i) = delete_application svc ctx i"
| "answer_call svc ctx (RotateSecret i) = bindE (rotate_secret svc ctx i) (\<lambda>_. ret ())"
| "answer_call svc ctx (CreateClientCredential req) = bindE (create_client_credential (av_hydra svc) ctx req) (\<lambda>_. ret ())"
| "answer_call svc ctx (GetClientCredential i) = bindE (get_client_credential (av_hydra svc) ctx i) (\<lambda>_. ret ())"
| "answer_call svc ctx ListClientCredentials = bindE (list_client_credentials (av_hydra svc) ctx) (\<lambda>_. ret ())"
| "answer_call svc ctx (UpdateClientCredential req) = bindE (update_client_credential (av_hydra svc) ctx req) (\<lambda>_. ret ())"
| "answer_call svc ctx (DeleteClientCredential i) = delete_client_credential (av_hydra svc) ctx i"
| "answer_call svc ctx (RotateClientCredentialSecret i) = bindE (rotate_client_credential_secret (av_hydra svc) ctx i) (\<lambda>_. ret ())"

text \<open>Calls of any callers, one after the other, whatever each of them answers.\<close>

fun serve_calls ::
  "('f, 'h, 'k, 'z) application_impl \<Rightarrow> (request_context \<times> application_call) list \<Rightarrow> ('f, 'h, 'k, 'z) ory_world_scheme
    \<Rightarrow> ('f, 'h, 'k, 'z) ory_world_scheme" where
  "serve_calls svc [] w = w"
| "serve_calls svc ((ctx, c) # calls) w = serve_calls svc calls (snd (answer_call svc ctx c w))"

section \<open>The flag of cross-tenant clients\<close>

definition flagged :: "database \<Rightarrow> string set" where
  "flagged db = ap_public_id ` {a \<in> set (applications db). ap_cross_tenant a}"

lemma flagged_stmts:
  "stmt_keeps (\<lambda>db. flagged db \<subseteq> F) (namespace_upsert_stmt t ns m si mi)"
  "stmt_keeps (\<lambda>db. flagged db \<subseteq> F) (id_mapping_insert_stmt i t b p g)"
  "stmt_keeps (\<lambda>db. flagged db \<subseteq> F) (id_mapping_delete_stmt t b p)"
  "stmt_keeps (\<lambda>db. flagged db \<subseteq> F) (application_delete_stmt t p)"
  by (auto simp: stmt_keeps_def flagged_def namespace_upsert_stmt_def id_mapping_insert_stmt_def id_mapping_delete_stmt_def
      application_delete_stmt_def violates_def Let_def split: list.split)

lemma flagged_raised:
  "stmt_keeps (\<lambda>db. flagged db \<subseteq> F) (application_insert_stmt t p False src)"
  "stmt_keeps (\<lambda>db. flagged db \<subseteq> F) (application_set_cross_tenant_stmt t p False)"
  by (auto simp: stmt_keeps_def flagged_def application_insert_stmt_def application_set_cross_tenant_stmt_def violates_def Let_def
      split: option.split)

abbreviation unraised :: "string set \<Rightarrow> 'z pg_scheme \<Rightarrow> bool" where
  "unraised F w \<equiv> flagged (pg_db w) \<subseteq> F"

lemma keeps_db_entitlements:
  assumes "\<And>t ns m si mi. stmt_keeps J (namespace_upsert_stmt t ns m si mi)"
  shows "keeps (\<lambda>w. J (pg_db w)) (seed_application (openfga b) t app gs)"
    and "keeps (\<lambda>w. J (pg_db w)) (grant (openfga b) t u app l)"
proof -
  note db = keeps_fga_call_db [where J = J] keeps_repo_db [where J = J]
  have put: "keeps (\<lambda>w. J (pg_db w)) (pg_repo_upsert t r)" for t r
    unfolding pg_repo_upsert_def pg_namespace_upsert_def by (intro keeps_rules keeps_pg_exec [where J = J] assms)
  have model: "keeps (\<lambda>w. J (pg_db w)) (fga_ensure_model b t ns model)" for t ns model
    unfolding fga_ensure_model_def fga_provision_def persist_record_def fga_def
    by (auto intro!: keeps_rules keeps_store_calls db put split: option.splits)
  show "keeps (\<lambda>w. J (pg_db w)) (seed_application (openfga b) t app gs)" "keeps (\<lambda>w. J (pg_db w)) (grant (openfga b) t u app l)"
    unfolding seed_application_def grant_def ensure_namespace_def openfga_sel by (intro keeps_rules model keeps_backend_calls(2) db)+
qed

lemma keeps_db_hydra: "keeps (\<lambda>w. J (pg_db w)) (hydra_op m)"
  by (simp add: keeps_def hydra_op_def split_beta)

lemma unraised_ops:
  "keeps (unraised F) (id_mapping_create t b p g)" "keeps (unraised F) (id_mapping_delete t b p)"
  "keeps (unraised F) (application_delete t p)" "keeps (unraised F) (application_create t p False src)"
  "keeps (unraised F) (application_set_cross_tenant t p False)"
  unfolding id_mapping_create_def id_mapping_delete_def application_delete_def application_create_def application_set_cross_tenant_def
  by (intro keeps_bindE keeps_pg_exec [where J = "\<lambda>db. flagged db \<subseteq> F"] keeps_ulid_new [where J = "\<lambda>db. flagged db \<subseteq> F"]
      flagged_stmts flagged_raised)+

lemmas unraised_rules = keeps_rules unraised_ops keeps_db_hydra [where J = "\<lambda>db. flagged db \<subseteq> F" for F]
  keeps_db_entitlements(1) [where J = "\<lambda>db. flagged db \<subseteq> F" for F, OF flagged_stmts(1)]
  keeps_ulid_new [where J = "\<lambda>db. flagged db \<subseteq> F" for F]
  keeps_pg_query [where J = "\<lambda>db. flagged db \<subseteq> F" for F] keeps_pg_query_any [where J = "\<lambda>db. flagged db \<subseteq> F" for F]

lemma unraised_reads:
  "keeps (unraised F) (get_ory_id t b p)" "keeps (unraised F) (stored_cross_tenant t p)" "keeps (unraised F) (list_public_ids t b)"
  "keeps (unraised F) (application_list_by_tenant t)"
  unfolding get_ory_id_def stored_cross_tenant_def application_get_def list_public_ids_def application_list_by_tenant_def
  by (intro unraised_rules)+

lemma unraised_list: "keeps (unraised F) (list_clients hydra t mk ids)"
  by (induction hydra t mk ids rule: list_clients.induct)
     (auto simp: listed_client_def intro!: unraised_rules unraised_reads split: sum.split)

text \<open>A guard that raises leaves nothing to keep, so the rest may rely on it.\<close>

lemma keeps_past_guard: "(\<not> b \<Longrightarrow> keeps I (f ())) \<Longrightarrow> keeps I (bindE (guard_err b e) f)"
  by (cases b) (simp_all add: keeps_def io_defs)

lemma unraised_lowered:
  "\<not> ct \<Longrightarrow> keeps (unraised F) (application_create t p ct src)"
  "x \<noteq> Some True \<Longrightarrow> x = Some flag \<Longrightarrow> keeps (unraised F) (application_set_cross_tenant t p flag)"
  by (auto intro: unraised_ops)

lemma unraised_call:
  assumes "av_entitlements svc = openfga b" and "\<not> is_system_tenant (av_system_tenant_ulid svc) ctx"
  shows "keeps (unraised F) (answer_call svc ctx c)"
proof -
  have "keeps (unraised F) (create_application svc ctx req)" for req
    unfolding create_application_def assms(1)
    by (intro keeps_past_guard unraised_rules unraised_lowered(1)) (use assms(2) in simp)
  moreover have "keeps (unraised F) (update_application svc ctx req)" for req
    unfolding update_application_def
    by (intro keeps_past_guard unraised_rules unraised_reads unraised_lowered(2); use assms(2) in simp)
  ultimately show ?thesis
    by (cases c)
       (auto simp: get_application_def list_applications_def delete_application_def rotate_secret_def rotated_secret_def
         create_client_credential_def get_client_credential_def list_client_credentials_def update_client_credential_def
         delete_client_credential_def rotate_client_credential_secret_def
         intro!: unraised_rules unraised_reads unraised_list)
qed

text \<open>
  \<^bold>\<open>C11.\<close> Calls of the application and the client credential services whose callers' own
  tenant is not the system tenant, in any order and whatever they answer, flag no client as cross-tenant that was not
  flagged before: the flag, with which a client may name any target tenant, is raised by the system tenant only.
\<close>

theorem cross_tenant_by_system_only:
  assumes "av_entitlements svc = openfga b"
    and "\<forall>(ctx, c) \<in> set calls. \<not> is_system_tenant (av_system_tenant_ulid svc) ctx"
  shows "flagged (pg_db (serve_calls svc calls w)) \<subseteq> flagged (pg_db w)"
proof -
  have "unraised F w \<Longrightarrow> unraised F (serve_calls svc calls w)" for F
    using assms(2)
  proof (induction calls arbitrary: w)
    case (Cons x calls)
    obtain ctx c where x: "x = (ctx, c)" by fastforce
    then show ?case using Cons keepsD_snd [OF unraised_call [where F = F and ctx = ctx and c = c, OF assms(1)]] by simp
  qed simp
  then show ?thesis by blast
qed

section \<open>A created application is what was asked for\<close>

definition acceptable_redirect :: "url_parser \<Rightarrow> bool \<Rightarrow> string \<Rightarrow> bool" where
  "acceptable_redirect parse allow_http uri \<longleftrightarrow>
     CHR ''*'' \<notin> set uri \<and>
     (\<exists>u. parse uri = Inr u \<and> (pu_scheme u = ''https'' \<or> pu_scheme u = ''http'' \<and> (allow_http \<or> is_loopback_host u)))"

lemma validate_uris_Inr: "validate_uris check uris = Inr () \<longleftrightarrow> (\<forall>uri \<in> set uris. check uri = Inr ())"
  by (induction uris) (auto split: sum.split)

lemma check_redirect_uri_Inr: "check_redirect_uri parse allow uri = Inr () \<longleftrightarrow> acceptable_redirect parse allow uri"
  by (cases "parse uri") (auto simp: check_redirect_uri_def acceptable_redirect_def)

lemma validate_redirect_uris_Inr:
  "validate_redirect_uris parse uris allow = Inr () \<longleftrightarrow> (\<forall>uri \<in> set uris. acceptable_redirect parse allow uri)"
  by (simp add: validate_redirect_uris_def validate_uris_Inr check_redirect_uri_Inr)

text \<open>
  What Hydra's admin API documents of clients: a client created from a payload has the fields of the payload, is kept under its
  id, and reading it changes nothing.
\<close>

definition payload_fields :: "string set" where
  "payload_fields = {''client_name'', ''redirect_uris'', ''grant_types'', ''response_types'', ''scope'', ''token_endpoint_auth_method'', ''skip_consent''}"

definition agrees :: "json \<Rightarrow> json \<Rightarrow> bool" where
  "agrees c payload \<longleftrightarrow> (\<forall>k \<in> payload_fields. json_index c k = json_index payload k)"

definition keeps_clients :: "'h hydra_ops \<Rightarrow> ('h \<Rightarrow> string \<Rightarrow> json option) \<Rightarrow> bool" where
  "keeps_clients hydra client_of \<longleftrightarrow>
     (\<forall>payload h c h' i. hy_create_oauth2_client hydra payload h = (Inr c, h') \<and> as_str (json_index c ''client_id'') = Some i
        \<longrightarrow> agrees c payload \<and> (\<exists>d. client_of h' i = Some d \<and> agrees d payload)) \<and>
     (\<forall>i h d. client_of h i = Some d \<longrightarrow> hy_get_oauth2_client hydra i h = (Inr d, h))"

text \<open>The application a request asks for.\<close>

definition requested_application :: "create_application_request \<Rightarrow> string \<Rightarrow> string \<Rightarrow> application" where
  "requested_application req tenant_id i =
     \<lparr>aa_id = i, aa_tenant_id = tenant_id, aa_name = ca_name req, aa_redirect_uris = ca_redirect_uris req, aa_grant_types = ca_grant_types req,
      aa_response_types = ca_response_types req, aa_scope = ca_scope req, aa_token_endpoint_auth_method = ca_token_endpoint_auth_method req,
      aa_client_secret = [], aa_cross_tenant = ca_cross_tenant req, aa_skip_consent = ca_skip_consent req\<rparr>"

lemma json_string_array_strings [simp]: "json_string_array (json_strings xs) = xs"
  by (induction xs) (simp_all add: json_string_array_def json_strings_def List.map_filter_simps)

lemma split_join_scopes:
  assumes "\<forall>s \<in> set ss. s \<noteq> [] \<and> CHR '' '' \<notin> set s"
  shows "(if join_with '' '' ss = [] then [] else split_on (CHR '' '') (join_with '' '' ss)) = ss"
proof (cases ss)
  case (Cons s rest)
  then have "join_with '' '' ss \<noteq> []" using assms by (cases rest) auto
  then show ?thesis using assms Cons split_on_join [of ss "CHR '' ''"] by auto
qed simp

lemma agreed_application:
  assumes "agrees c (build_hydra_payload req cid)" and "\<forall>s \<in> set (ca_scope req). s \<noteq> [] \<and> CHR '' '' \<notin> set s"
  shows "hydra_to_application c tenant_id i (ca_cross_tenant req) = requested_application req tenant_id i"
proof -
  have "json_index c k = json_index (build_hydra_payload req cid) k" if "k \<in> payload_fields" for k
    using assms(1) that by (simp add: agrees_def)
  then show ?thesis
    using split_join_scopes [OF assms(2)]
    by (simp add: payload_fields_def hydra_to_application_def requested_application_def text_at_def scope_list_def build_hydra_payload_def json_index_def
        split: if_splits)
qed

lemma seed_keeps_rows:
  "keeps (\<lambda>w. (\<lambda>db. applications db = A \<and> id_mappings db = M) (pg_db w)) (seed_application (openfga b) t app gs)"
  by (rule keeps_db_entitlements(1) [where J = "\<lambda>db. applications db = A \<and> id_mappings db = M"])
     (auto simp: stmt_keeps_def namespace_upsert_stmt_def violates_def Let_def split: list.split)

text \<open>The state a successful creation leaves.\<close>

lemma create_application_Inr:
  assumes "av_entitlements svc = openfga b" and run: "create_application svc ctx req w = (Inr app, v)"
  obtains t i ory_id created h m a where "app_admin ctx = Inr t"
    and "\<forall>uri \<in> set (ca_redirect_uris req). acceptable_redirect (av_parse_url svc) (av_allow_http_redirect_uris svc) uri"
    and "ca_cross_tenant req \<longrightarrow> is_system_tenant (av_system_tenant_ulid svc) ctx"
    and "hy_create_oauth2_client (av_hydra svc) (build_hydra_payload req i) (ow_hydra w) = (Inr created, ow_hydra v)"
    and "as_str (json_index created ''client_id'') = Some ory_id"
    and "id_mappings (pg_db v) = id_mappings (pg_db w) @ [m]" "at_key t ''hydra'' i m" "im_ory_global_id m = ory_id"
    and "i \<notin> im_public_id ` set (id_mappings (pg_db w))"
    and "applications (pg_db v) = applications (pg_db w) @ [a]" "ap_tenant_id a = t" "ap_public_id a = i" "ap_cross_tenant a = ca_cross_tenant req"
    and "i \<notin> ap_public_id ` set (applications (pg_db w))"
    and "app = (hydra_to_application created t i (ca_cross_tenant req))\<lparr>aa_client_secret := text_at created ''client_secret''\<rparr>"
    and "pg_fault v = pg_fault w"
proof -
  obtain t i created ory_id w1 w2 w3 w4 m a where t: "app_admin ctx = Inr t"
    and uris: "validate_redirect_uris (av_parse_url svc) (ca_redirect_uris req) (av_allow_http_redirect_uris svc) = Inr ()"
    and sys: "ca_cross_tenant req \<longrightarrow> is_system_tenant (av_system_tenant_ulid svc) ctx"
    and w1: "(ulid_new w :: (service_error + string) \<times> _) = (Inr i, w1)"
    and w2: "hydra_op (hy_create_oauth2_client (av_hydra svc) (build_hydra_payload req i)) w1 = (Inr created, w2)"
    and cid: "as_str (json_index created ''client_id'') = Some ory_id"
    and w3: "id_mapping_create t ''hydra'' i ory_id w2 = (Inr m, w3)"
    and w4: "application_create t i (ca_cross_tenant req) registration_source_admin w3 = (Inr a, w4)"
    and v: "seed_application (openfga b) t i (av_default_entitlement_groups svc) w4 = (Inr (), v)"
    and app: "app = (hydra_to_application created t i (ca_cross_tenant req))\<lparr>aa_client_secret := text_at created ''client_secret''\<rparr>"
    using run unfolding create_application_def assms(1) by (auto simp: run_simps ok_or_def split: option.splits)
  have "pg_fault w3 = pg_fault w2" "ow_hydra w3 = ow_hydra w2"
    by (rule keepsD [where m = "id_mapping_create t ''hydra'' i ory_id" and s = w2, OF _ _ w3]; (unfold id_mapping_create_def)?; intro framed_rules framed_const refl)+
  moreover have "pg_fault w4 = pg_fault w3" "ow_hydra w4 = ow_hydra w3"
    by (rule keepsD [where m = "application_create t i (ca_cross_tenant req) registration_source_admin" and s = w3, OF _ _ w4]; (unfold application_create_def)?; intro framed_rules framed_const refl)+
  ultimately have f4: "pg_fault w4 = pg_fault w" "ow_hydra w4 = ow_hydra w2"
    using w1 w2 by (auto simp: ulid_new_def hydra_op_def split: prod.splits)
  have f: "pg_fault v = pg_fault w" "ow_hydra v = ow_hydra w2"
    using keepsD [OF framed_entitlements(5) [OF framed_const(1)] f4(1) v] keepsD [OF framed_entitlements(5) [OF framed_const(3)] f4(2) v] by simp_all
  have rows: "applications (pg_db v) = applications (pg_db w4)" "id_mappings (pg_db v) = id_mappings (pg_db w4)"
    using keepsD [OF seed_keeps_rows _ v] by simp_all
  have w2': "hy_create_oauth2_client (av_hydra svc) (build_hydra_payload req i) (ow_hydra w) = (Inr created, ow_hydra w2)" "pg_db w2 = pg_db w"
    using w1 w2 by (auto simp: ulid_new_def hydra_op_def split: prod.splits)
  from id_mapping_create_Inr [OF w3] application_create_Inr [OF w4] show ?thesis
    using that [OF t, of i created ory_id m a] uris sys w2' cid app f rows by (simp add: validate_redirect_uris_Inr)
qed

lemma find_last_fresh: "(\<And>x. x \<in> set xs \<Longrightarrow> \<not> P x) \<Longrightarrow> P y \<Longrightarrow> find P (xs @ [y]) = Some y"
  by (induction xs) auto

lemma reader_of_admin: "app_admin ctx = Inr t \<Longrightarrow> app_reader ctx = Inr t"
  by (auto simp: app_admin_def app_reader_def require_scope_def require_scope_any_def require_tenant_def require_auth_def
      split: sum.splits option.splits if_splits)


section \<open>Witnesses\<close>

text \<open>A Hydra that keeps a list of clients under their ids.\<close>

definition list_hydra :: "(string \<times> json) list hydra_ops" where
  "list_hydra =
     \<lparr>hy_create_oauth2_client = (\<lambda>payload h. (Inr payload,
        case as_str (json_index payload ''client_id'') of Some i \<Rightarrow> (i, payload) # h | None \<Rightarrow> h)),
      hy_get_oauth2_client = (\<lambda>i h. (case map_of h i of Some c \<Rightarrow> Inr c | None \<Rightarrow> Inl Ory_MissingTenant, h)),
      hy_update_oauth2_client = (\<lambda>i payload h. (Inr payload, (i, payload) # h)),
      hy_delete_oauth2_client = (\<lambda>i h. (Inr (), filter (\<lambda>(k, _). k \<noteq> i) h)),
      hy_rotate_client_secret = (\<lambda>i h. (Inr (JObj [(''client_secret'', JStr ''s'')]), h))\<rparr>"

definition sample_applications :: "((string \<times> json) list, (fga_tuple list, (string \<times> json) list, unit) ory_world) application_service" where
  "sample_applications =
     \<lparr>av_hydra = list_hydra, av_entitlements = openfga sample_backend, av_system_tenant_ulid = ''S'', av_default_entitlement_groups = [],
      av_allow_http_redirect_uris = False,
      av_parse_url = (\<lambda>s. Inr \<lparr>pu_scheme = takeWhile (\<lambda>c. c \<noteq> CHR '':'') s, pu_host = Some (Domain ''app'')\<rparr>)\<rparr>"

definition application_world :: "(fga_tuple list, (string \<times> json) list, unit) ory_world" where
  "application_world = fga_world.extend (provisioned_world []) \<lparr>ow_hydra = [], ow_kratos = ()\<rparr>"

definition application_ctx :: request_context where
  "application_ctx = \<lparr>rx_auth = Some \<lparr>ac_tenant_id = ''T'', ac_subject = ''u'', ac_subject_type = User, ac_actor = None,
     ac_scopes = [''application:admin''], ac_token_hash = [], ac_authentication_methods = []\<rparr>, rx_tenant = Some ''T''\<rparr>"

definition application_req :: "bool \<Rightarrow> create_application_request" where
  "application_req cross = \<lparr>ca_name = ''app'', ca_redirect_uris = [''https://app/cb''], ca_grant_types = [''authorization_code''],
     ca_response_types = [''code''], ca_scope = [''openid'', ''email''], ca_token_endpoint_auth_method = ''none'', ca_cross_tenant = cross,
     ca_skip_consent = False\<rparr>"

lemma list_hydra_keeps: "keeps_clients list_hydra map_of"
  by (simp add: keeps_clients_def list_hydra_def agrees_def)

lemma sample_created:
  "fst (create_application sample_applications application_ctx (application_req False) application_world) =
     Inr (requested_application (application_req False) ''T'' ''0'')"
  by code_simp

lemma sample_applications_sel [simp]: "av_entitlements sample_applications = openfga sample_backend" "av_hydra sample_applications = list_hydra"
  "av_system_tenant_ulid sample_applications = ''S''"
  by (simp_all add: sample_applications_def)


theorem cross_tenant_by_system_only_witness:
  "flagged (pg_db (serve_calls sample_applications [(application_ctx, CreateApplication (application_req True)),
     (application_ctx, CreateApplication (application_req False)), (application_ctx, DeleteApplication ''0'')] application_world)) = {}"
proof -
  have "flagged (pg_db application_world) = {}"
    by (simp add: flagged_def application_world_def provisioned_world_def quiet_pg_def fga_world.defs pg.defs provisioned_db_def entitled_db_def empty_db_def)
  then show ?thesis
    using cross_tenant_by_system_only [OF sample_applications_sel(1),
        of "[(application_ctx, CreateApplication (application_req True)), (application_ctx, CreateApplication (application_req False)),
            (application_ctx, DeleteApplication ''0'')]" application_world]
    by (simp add: is_system_tenant_def application_ctx_def)
qed

end
