(* ===== verification/OAuth2Handlers.thy ===== *)
theory OAuth2Handlers
  imports SelfServicePaths Consent Applications
begin

text \<open>
  The public OAuth2 and OIDC endpoints, \<^verbatim>\<open>services/handlers/oauth2.rs\<close>: client ids are translated between the
  gateway and Hydra, Matrix clients get their exceptions, clients register and delete themselves. A oauth2_handler is
  a computation whose error is an early response. The HTTP framework's extractors, the parsers of URLs
  and JSON and the Base64 decoder are parameters.
\<close>

section \<open>Responses\<close>

datatype http_body = JsonBody json | TextBody string | EmptyBody

record oauth2_response =
  re_status :: nat
  re_headers :: "(string \<times> string) list"
  re_body :: http_body

definition respond :: "nat \<Rightarrow> json \<Rightarrow> oauth2_response" where
  "respond status body = \<lparr>re_status = status, re_headers = [], re_body = JsonBody body\<rparr>"

definition empty_response :: "nat \<Rightarrow> oauth2_response" where
  "empty_response status = \<lparr>re_status = status, re_headers = [], re_body = EmptyBody\<rparr>"

definition json_response :: "json \<Rightarrow> oauth2_response" where
  "json_response v = respond 200 v"

definition oauth_error :: "string \<Rightarrow> string \<Rightarrow> json" where
  "oauth_error code description = JObj [(''error'', JStr code), (''error_description'', JStr description)]"

definition bad_request :: "string \<Rightarrow> oauth2_response" where
  "bad_request message = respond 400 (oauth_error ''invalid_request'' message)"

definition unauthorized :: oauth2_response where
  "unauthorized = respond 401 (JObj [(''error'', JStr ''unauthorized'')])"

definition invalid_client :: oauth2_response where
  "invalid_client = respond 401 (JObj [(''error'', JStr ''invalid_client'')])"

definition forbidden :: oauth2_response where
  "forbidden = respond 403 (JObj [(''error'', JStr ''forbidden'')])"

definition server_error_body :: json where
  "server_error_body = JObj [(''error'', JStr ''server_error'')]"

definition internal_error :: oauth2_response where
  "internal_error = respond 500 server_error_body"

text \<open>\<^verbatim>\<open>HeaderValue::try_from\<close>: visible bytes, blanks and bytes beyond ASCII.\<close>

definition header_value_ok :: "string \<Rightarrow> bool" where
  "header_value_ok s \<longleftrightarrow> (\<forall>c \<in> set s. (code_point c \<ge> 32 \<and> code_point c \<noteq> 127) \<or> code_point c = 9)"

section \<open>Oauth2State\<close>

type_synonym form = "(string \<times> string) list"

record 'h front_hydra = "'h hydra_ops" +
  fh_authorize :: "form \<Rightarrow> string option \<Rightarrow> ('h, ory_error, json) io"
  fh_token :: "form \<Rightarrow> (string \<times> string) option \<Rightarrow> ('h, ory_error, json) io"
  fh_device :: "string \<Rightarrow> form \<Rightarrow> (string \<times> string) option \<Rightarrow> ('h, ory_error, json) io"
  fh_get_device_verify :: "form \<Rightarrow> string option \<Rightarrow> ('h, ory_error, json) io"
  fh_userinfo :: "string \<Rightarrow> ('h, ory_error, json) io"
  fh_introspect_token :: "string \<Rightarrow> ('h, ory_error, json) io"
  fh_verify_client_credentials :: "string \<Rightarrow> string \<Rightarrow> ('h, ory_error, bool) io"
  fh_revoke :: "form \<Rightarrow> ('h, ory_error, unit) io"
  fh_get_json :: "string \<Rightarrow> ('h, ory_error, json) io"
  fh_public_join :: "string \<Rightarrow> string + string"

text \<open>
  A form or a query is a \<^verbatim>\<open>HashMap\<close>, here the list of its entries with distinct keys; \<open>os_iter\<close> is the order in which a map
  is iterated, which Rust leaves open. The token cache is the one in the database, where there is one.
\<close>

record ('h, 'k, 's) oauth2_state =
  os_hydra :: "'h front_hydra"
  os_kratos :: "(string \<Rightarrow> ('k, ory_error, json) io) option"
  os_entitlements :: "'s permission_backend"
  os_public_base_url :: string
  os_token_cache :: bool
  os_system_tenant_id :: string
  os_dynamic_client_registration_enabled :: bool
  os_force_email_claim_client_ids :: "string list"
  os_matrix_email_claim_enabled :: bool
  os_matrix_offline_access_enabled :: bool
  os_dcr_unused_registration_ttl :: nat
  os_crypto :: crypto
  os_parse_url :: url_parser
  os_parse_json :: "string \<Rightarrow> json option"
  os_b64_decode :: "string \<Rightarrow> string option"
  os_show_error :: "service_error \<Rightarrow> string"
  os_iter :: "form \<Rightarrow> form"

type_synonym ('f, 'h, 'k, 'z) oauth2_impl = "('h, 'k, ('f, 'h, 'k, 'z) ory_world_scheme) oauth2_state"
type_synonym ('f, 'h, 'k, 'z, 'a) web = "(('f, 'h, 'k, 'z) ory_world_scheme, oauth2_response, 'a) io"

definition form_remove :: "string \<Rightarrow> form \<Rightarrow> form" where
  "form_remove k f = filter (\<lambda>(k', _). k' \<noteq> k) f"

definition form_insert :: "string \<Rightarrow> string \<Rightarrow> form \<Rightarrow> form" where
  "form_insert k v f = (if k \<in> fst ` set f then map (\<lambda>(k', x). (k', if k' = k then v else x)) f else f @ [(k, v)])"

definition base_url :: "string \<Rightarrow> string" where
  "base_url public_base_url = trim_end_matches (CHR ''/'') public_base_url"

definition basic_auth_credentials :: "(string \<Rightarrow> string option) \<Rightarrow> header_map \<Rightarrow> (string \<times> string) option" where
  "basic_auth_credentials b64_decode headers =
     (case Option.bind (h_get headers ''authorization'') (split_once (CHR '' '')) of
        None \<Rightarrow> None
      | Some (scheme, payload) \<Rightarrow>
          if \<not> eq_ignore_ascii_case scheme ''basic'' then None
          else case b64_decode (trim payload) of
            None \<Rightarrow> None
          | Some decoded \<Rightarrow> if valid_utf8 decoded then split_once (CHR '':'') decoded else None)"

definition bearer_header :: "header_map \<Rightarrow> string option" where
  "bearer_header headers = Option.bind (h_get headers ''authorization'') (strip_prefix ''Bearer '')"

section \<open>Errors of Hydra\<close>

definition relay_client_error_body :: "(string \<Rightarrow> json option) \<Rightarrow> nat \<Rightarrow> string \<Rightarrow> json" where
  "relay_client_error_body parse_json status message =
     (if 400 \<le> status \<and> status < 500 then
        (case parse_json message of
           Some body \<Rightarrow> if Option.bind (json_get body ''error'') as_str \<noteq> None then body else server_error_body
         | None \<Rightarrow> server_error_body)
      else server_error_body)"

fun map_hydra_error :: "(string \<Rightarrow> json option) \<Rightarrow> ory_error \<Rightarrow> oauth2_response" where
  "map_hydra_error parse_json (Ory_Status status message) =
     respond (if status = 400 then 400 else if status = 401 then 401 else if status = 403 then 403 else if status = 404 then 404 else 502)
       (relay_client_error_body parse_json status message)"
| "map_hydra_error parse_json (Ory_Http e) = respond 502 server_error_body"
| "map_hydra_error parse_json (Ory_Url e) = respond 502 server_error_body"
| "map_hydra_error parse_json (Ory_Serialization e) = respond 500 server_error_body"
| "map_hydra_error parse_json (Ory_InvalidResponse e) = respond 500 server_error_body"
| "map_hydra_error parse_json Ory_MissingTenant = respond 401 server_error_body"
| "map_hydra_error parse_json (Ory_Redirect location set_cookies) = respond 500 server_error_body"

fun is_not_found :: "ory_error \<Rightarrow> bool" where
  "is_not_found (Ory_Status status message) \<longleftrightarrow> status = 404"
| "is_not_found _ \<longleftrightarrow> False"

definition hydra_web :: "('f, 'h, 'k, 'z) oauth2_impl \<Rightarrow> ('h, ory_error, 'a) io \<Rightarrow> ('f, 'h, 'k, 'z, 'a) web" where
  "hydra_web st m = map_err (map_hydra_error (os_parse_json st)) (hydra_op m)"

section \<open>Resolving clients\<close>

definition heal_client_mapping :: "('f, 'h, 'k, 'z) oauth2_impl \<Rightarrow> string \<Rightarrow> ('f, 'h, 'k, 'z, string) web" where
  "heal_client_mapping st client_id =
     attempt (hydra_op (hy_get_oauth2_client (os_hydra st) client_id)) (\<lambda>r. case r of
         Inl e \<Rightarrow>
           raise (if is_not_found e
             then \<lparr>re_status = 401, re_headers = [], re_body = TextBody ''{\"error\":\"invalid_client\"}''\<rparr> else internal_error)
       | Inr client \<Rightarrow>
           let ory_id = (case as_str (json_index client ''client_id'') of Some i \<Rightarrow> i | None \<Rightarrow> client_id)
           in bindE (best_effort (id_mapping_create (os_system_tenant_id st) ''hydra'' client_id ory_id)) (\<lambda>_. ret ory_id))"

definition resolve_public_client :: "('f, 'h, 'k, 'z) oauth2_impl \<Rightarrow> string \<Rightarrow> ('f, 'h, 'k, 'z, string) web" where
  "resolve_public_client st client_id =
     (if client_id = [] then raise (bad_request ''missing client_id'')
      else attempt (get_ory_id_by_public_id ''hydra'' client_id) (\<lambda>r. case r of
          Inr ory_id \<Rightarrow> ret ory_id
        | Inl e \<Rightarrow> if e = MappingNotFound then heal_client_mapping st client_id else raise internal_error))"

definition resolve_public_client_for_authorize :: "('f, 'h, 'k, 'z) oauth2_impl \<Rightarrow> string \<Rightarrow> ('f, 'h, 'k, 'z, string) web" where
  "resolve_public_client_for_authorize st client_id =
     (if client_id = [] then raise (bad_request ''missing client_id'')
      else attempt (get_ory_id_by_public_id ''hydra'' client_id) (\<lambda>r. case r of
          Inr ory_id \<Rightarrow> ret ory_id
        | Inl e \<Rightarrow> if e = MappingNotFound then ret client_id else raise internal_error))"

definition remove_entitlements :: "('f, 'h, 'k, 'z) oauth2_impl \<Rightarrow> string \<Rightarrow> string \<Rightarrow> ('f, 'h, 'k, 'z, unit) web" where
  "remove_entitlements st tenant_id public_id =
     attempt (application_get tenant_id public_id) (\<lambda>r. case r of
         Inr _ \<Rightarrow> best_effort (remove_application (os_entitlements st) tenant_id public_id)
       | Inl _ \<Rightarrow> ret ())"

definition delete_orphaned_client_mapping :: "('f, 'h, 'k, 'z) oauth2_impl \<Rightarrow> string \<Rightarrow> ('f, 'h, 'k, 'z, unit) web" where
  "delete_orphaned_client_mapping st ory_id =
     attempt (get_tenant_id_by_ory_id ''hydra'' ory_id) (\<lambda>r. case r of
         Inr (Some tenant_id) \<Rightarrow>
           attempt (get_public_id_by_ory_id ''hydra'' ory_id) (\<lambda>p. case p of
               Inr public_id \<Rightarrow>
                 bindE (remove_entitlements st tenant_id public_id) (\<lambda>_.
                 best_effort (id_mapping_delete tenant_id ''hydra'' public_id))
             | Inl _ \<Rightarrow> ret ())
       | Inr None \<Rightarrow> ret ()
       | Inl _ \<Rightarrow> ret ())"

fun translate_through :: "string list \<Rightarrow> string \<Rightarrow> ('z pg_scheme, 'e, string option) io" where
  "translate_through [] ory_id = ret None"
| "translate_through (backend # bs) ory_id =
     attempt (get_public_id_by_ory_id backend ory_id) (\<lambda>r. case r of Inr public_id \<Rightarrow> ret (Some public_id) | Inl _ \<Rightarrow> translate_through bs ory_id)"

definition translate_ory_id_to_public_id :: "string \<Rightarrow> ('z pg_scheme, 'e, string option) io" where
  "translate_ory_id_to_public_id ory_id = translate_through [''hydra'', ''kratos''] ory_id"

section \<open>Matrix clients\<close>

definition DCR_ALLOWED_SCOPES :: "string list" where
  "DCR_ALLOWED_SCOPES = [''openid'', ''profile'', ''email'', ''offline_access'']"

definition disallowed_matrix_scope :: "string \<Rightarrow> string option" where
  "disallowed_matrix_scope scope =
     (let scopes = split_whitespace scope
      in if \<not> list_ex is_matrix_scope scopes then None
         else find (\<lambda>s. s \<notin> {''openid'', ''profile'', ''email'', ''offline_access''} \<and> \<not> is_matrix_scope s) scopes)"

definition with_matrix_offline_access :: "bool \<Rightarrow> string \<Rightarrow> string" where
  "with_matrix_offline_access enabled scope =
     (let scopes = split_whitespace scope
      in if \<not> enabled \<or> scopes = [] \<or> \<not> list_ex is_matrix_scope scopes \<or> ''offline_access'' \<in> set scopes then scope
         else join_with '' '' (scopes @ [''offline_access'']))"

definition expanded_client :: "bool \<Rightarrow> json \<Rightarrow> json" where
  "expanded_client offline client =
     (let payload = json_set client ''scope'' (JStr ''*'');
          grant_types = json_string_array (json_index client ''grant_types'')
      in if offline \<and> ''refresh_token'' \<notin> set grant_types
         then json_set payload ''grant_types'' (json_strings (grant_types @ [''refresh_token''])) else payload)"

definition maybe_expand_matrix_client_scope ::
  "('f, 'h, 'k, 'z) oauth2_impl \<Rightarrow> string \<Rightarrow> string list \<Rightarrow> ('f, 'h, 'k, 'z, unit) web" where
  "maybe_expand_matrix_client_scope st ory_id requested_scopes =
     attempt (hydra_op (hy_get_oauth2_client (os_hydra st) ory_id)) (\<lambda>r. case r of
         Inl e \<Rightarrow> if is_not_found e then delete_orphaned_client_mapping st ory_id else ret ()
       | Inr client \<Rightarrow>
           let registered = split_whitespace (text_at client ''scope'')
           in if ''*'' \<in> set registered \<or> list_all (\<lambda>s. s \<in> set registered) requested_scopes then ret ()
              else best_effort (hydra_op (hy_update_oauth2_client (os_hydra st) ory_id
                     (expanded_client (os_matrix_offline_access_enabled st) client))))"

definition insert_field :: "string \<Rightarrow> json \<Rightarrow> json \<Rightarrow> json" where
  "insert_field k x v = (case v of JObj _ \<Rightarrow> json_set v k x | _ \<Rightarrow> v)"

fun with_identity_email :: "json \<Rightarrow> ory_error + json \<Rightarrow> json" where
  "with_identity_email v (Inr identity) = (case identity_email identity of Some email \<Rightarrow> insert_field ''email'' (JStr email) v | None \<Rightarrow> v)"
| "with_identity_email v (Inl e) = v"

definition maybe_inject_introspection_email ::
  "('f, 'h, 'k, 'z) oauth2_impl \<Rightarrow> string \<Rightarrow> string option \<Rightarrow> json \<Rightarrow> ('f, 'h, 'k, 'z, json) web" where
  "maybe_inject_introspection_email st raw_sub raw_client_id v =
     (case os_kratos st of
        None \<Rightarrow> ret v
      | Some get_identity \<Rightarrow>
          let scope = (case Option.bind (json_get v ''scope'') as_str of Some s \<Rightarrow> s | None \<Rightarrow> []);
              is_matrix_token = (os_matrix_email_claim_enabled st \<and> list_ex is_matrix_scope (split_whitespace scope));
              translated_client_id = Option.bind (json_get v ''client_id'') as_str;
              is_force_listed = list_ex (\<lambda>i. Some i = raw_client_id \<or> Some i = translated_client_id) (os_force_email_claim_client_ids st)
          in if \<not> is_matrix_token \<and> \<not> is_force_listed then ret v
             else attempt (kratos_op (get_identity raw_sub)) (\<lambda>r. ret (with_identity_email v r)))"

section \<open>Handlers\<close>

definition openid_configuration :: "('f, 'h, 'k, 'z) oauth2_impl \<Rightarrow> ('f, 'h, 'k, 'z, oauth2_response) web" where
  "openid_configuration st =
     (let base = base_url (os_public_base_url st);
          body = JObj [(''issuer'', JStr base), (''authorization_endpoint'', JStr (base @ ''/oauth2/auth'')),
            (''token_endpoint'', JStr (base @ ''/oauth2/token'')), (''device_authorization_endpoint'', JStr (base @ ''/oauth2/device/auth'')),
            (''userinfo_endpoint'', JStr (base @ ''/oauth2/userinfo'')), (''jwks_uri'', JStr (base @ ''/.well-known/jwks.json'')),
            (''introspection_endpoint'', JStr (base @ ''/oauth2/introspect'')), (''revocation_endpoint'', JStr (base @ ''/oauth2/revoke'')),
            (''response_types_supported'', json_strings [''code'', ''token'', ''id_token'', ''code token'', ''code id_token'', ''token id_token'', ''code token id_token'']),
            (''grant_types_supported'', json_strings [''authorization_code'', ''implicit'', ''client_credentials'', ''refresh_token'',
               ''urn:ietf:params:oauth:grant-type:device_code'']),
            (''token_endpoint_auth_methods_supported'', json_strings [''client_secret_post'', ''client_secret_basic'', ''none'']),
            (''code_challenge_methods_supported'', json_strings [''S256'']), (''subject_types_supported'', json_strings [''public'']),
            (''id_token_signing_alg_values_supported'', json_strings [''RS256'']),
            (''scopes_supported'', json_strings [''openid'', ''profile'', ''email'', ''offline_access''])]
      in ret (json_response (if os_dynamic_client_registration_enabled st
           then json_set body ''registration_endpoint'' (JStr (base @ ''/oauth2/register'')) else body)))"

definition jwks :: "('f, 'h, 'k, 'z) oauth2_impl \<Rightarrow> ('f, 'h, 'k, 'z, oauth2_response) web" where
  "jwks st =
     (case fh_public_join (os_hydra st) ''.well-known/jwks.json'' of
        Inl e \<Rightarrow> raise (map_hydra_error (os_parse_json st) (Ory_Url e))
      | Inr url \<Rightarrow> bindE (hydra_web st (fh_get_json (os_hydra st) url)) (\<lambda>keys. ret (json_response keys)))"

definition cookie_header :: "header_map \<Rightarrow> string option" where
  "cookie_header headers = (let joined = join_with ''; '' (h_all headers ''cookie'') in if joined = [] then None else Some joined)"

text \<open>What the browser is told where Hydra redirects: the location and the cookies that can be header values.\<close>

definition relay_redirect :: "string \<Rightarrow> string list \<Rightarrow> oauth2_response" where
  "relay_redirect location set_cookies =
     (if location = [] \<or> \<not> header_value_ok location then internal_error
      else \<lparr>re_status = 302,
            re_headers = (''location'', location) # map (\<lambda>c. (''set-cookie'', c)) (filter header_value_ok set_cookies),
            re_body = EmptyBody\<rparr>)"

definition proxied :: "('f, 'h, 'k, 'z) oauth2_impl \<Rightarrow> ('h, ory_error, json) io \<Rightarrow> ('f, 'h, 'k, 'z, oauth2_response) web" where
  "proxied st m =
     attempt (hydra_op m) (\<lambda>r. ret (case r of
         Inr v \<Rightarrow> json_response v
       | Inl e \<Rightarrow> (case e of Ory_Redirect location set_cookies \<Rightarrow> relay_redirect location set_cookies | _ \<Rightarrow> map_hydra_error (os_parse_json st) e)))"

definition authorize_params :: "('f, 'h, 'k, 'z) oauth2_impl \<Rightarrow> form \<Rightarrow> string \<Rightarrow> string \<Rightarrow> form" where
  "authorize_params st params ory_id effective_scope =
     map (\<lambda>(k, v). (k, if k = ''client_id'' then ory_id else if k = ''scope'' then effective_scope else v)) (os_iter st params)"

definition authorize :: "('f, 'h, 'k, 'z) oauth2_impl \<Rightarrow> header_map \<Rightarrow> form \<Rightarrow> ('f, 'h, 'k, 'z, oauth2_response) web" where
  "authorize st headers params =
     (case Option.bind (map_of params ''scope'') disallowed_matrix_scope of
        Some offending \<Rightarrow> raise (respond 400 (oauth_error ''invalid_scope''
          (''scope '' @ quoted offending @ '' is not allowed alongside Matrix (MSC2965/MSC2967) scopes'')))
      | None \<Rightarrow>
          bindE (resolve_public_client_for_authorize st (opt_text (map_of params ''client_id''))) (\<lambda>ory_id.
          let effective_scope = with_matrix_offline_access (os_matrix_offline_access_enabled st) (opt_text (map_of params ''scope''));
              requested = split_whitespace effective_scope
          in bindE (if list_ex is_matrix_scope requested then maybe_expand_matrix_client_scope st ory_id requested else ret ()) (\<lambda>_.
             proxied st (fh_authorize (os_hydra st) (authorize_params st params ory_id effective_scope) (cookie_header headers)))))"

text \<open>
  The client of a form: the credentials of the header, without the fields of the body that they replace, or the
  \<^verbatim>\<open>client_id\<close> of the body.
\<close>

definition form_credentials :: "('f, 'h, 'k, 'z) oauth2_impl \<Rightarrow> header_map \<Rightarrow> form \<Rightarrow> (string \<times> string) option \<times> form \<times> string" where
  "form_credentials st headers f =
     (case basic_auth_credentials (os_b64_decode st) headers of
        Some (i, secret) \<Rightarrow> (Some (i, secret), form_remove ''client_secret'' (form_remove ''client_id'' f), i)
      | None \<Rightarrow> (None, f, opt_text (map_of f ''client_id'')))"

definition client_post ::
  "('f, 'h, 'k, 'z) oauth2_impl \<Rightarrow> header_map \<Rightarrow> form \<Rightarrow> (form \<Rightarrow> (string \<times> string) option \<Rightarrow> ('h, ory_error, json) io)
    \<Rightarrow> ('f, 'h, 'k, 'z, oauth2_response) web" where
  "client_post st headers f post =
     (case form_credentials st headers f of (credentials, rest, client_id) \<Rightarrow>
        if client_id = [] then raise (bad_request ''missing client_id'')
        else bindE (resolve_public_client st client_id) (\<lambda>ory_id.
             bindE (hydra_web st (post (os_iter st (form_insert ''client_id'' ory_id rest)) (map_option (\<lambda>(_, secret). (ory_id, secret)) credentials)))
               (\<lambda>v. ret (json_response v))))"

definition token :: "('f, 'h, 'k, 'z) oauth2_impl \<Rightarrow> header_map \<Rightarrow> form \<Rightarrow> ('f, 'h, 'k, 'z, oauth2_response) web" where
  "token st headers f = client_post st headers f (fh_token (os_hydra st))"

definition device :: "('f, 'h, 'k, 'z) oauth2_impl \<Rightarrow> header_map \<Rightarrow> string \<Rightarrow> form \<Rightarrow> ('f, 'h, 'k, 'z, oauth2_response) web" where
  "device st headers path f = client_post st headers f (fh_device (os_hydra st) path)"

fun translate_query :: "('f, 'h, 'k, 'z) oauth2_impl \<Rightarrow> form \<Rightarrow> ('f, 'h, 'k, 'z, form) web" where
  "translate_query st [] = ret []"
| "translate_query st ((k, v) # params) =
     bindE (if k = ''client_id'' then resolve_public_client st v else ret v) (\<lambda>x.
     bindE (translate_query st params) (\<lambda>query. ret ((k, x) # query)))"

definition device_verify :: "('f, 'h, 'k, 'z) oauth2_impl \<Rightarrow> header_map \<Rightarrow> form \<Rightarrow> ('f, 'h, 'k, 'z, oauth2_response) web" where
  "device_verify st headers params =
     bindE (translate_query st (os_iter st params)) (\<lambda>query.
     proxied st (fh_get_device_verify (os_hydra st) query (cookie_header headers)))"

definition userinfo :: "('f, 'h, 'k, 'z) oauth2_impl \<Rightarrow> header_map \<Rightarrow> ('f, 'h, 'k, 'z, oauth2_response) web" where
  "userinfo st headers =
     (case bearer_header headers of
        None \<Rightarrow> raise unauthorized
      | Some bearer \<Rightarrow>
          bindE (hydra_web st (fh_userinfo (os_hydra st) bearer)) (\<lambda>v.
          case Option.bind (json_get v ''sub'') as_str of
            None \<Rightarrow> ret (json_response v)
          | Some sub \<Rightarrow> bindE (translate_ory_id_to_public_id sub) (\<lambda>public_id.
              ret (json_response (case public_id of Some p \<Rightarrow> insert_field ''sub'' (JStr p) v | None \<Rightarrow> v)))))"

section \<open>Registration\<close>

text \<open>The client a registration asks Hydra for: its grants, its scope and the rest of the metadata.\<close>

record client_metadata =
  cm_name :: string
  cm_redirect_uris :: "string list"
  cm_grant_types :: "string list"
  cm_response_types :: "string list"
  cm_scope :: string
  cm_token_endpoint_auth_method :: string

definition requested_scopes :: "json \<Rightarrow> string list" where
  "requested_scopes body =
     (let scope = (case as_str (json_index body ''scope'') of
            Some s \<Rightarrow> filter (\<lambda>x. x \<in> set DCR_ALLOWED_SCOPES \<or> is_matrix_scope x) (split_whitespace s)
          | None \<Rightarrow> [])
      in if scope = [] then [''openid''] else scope)"

definition requested_metadata :: "bool \<Rightarrow> json \<Rightarrow> client_metadata" where
  "requested_metadata offline body =
     (let scope = requested_scopes body;
          grants = (let gs = json_string_array (json_index body ''grant_types'') in if gs = [] then [''authorization_code''] else gs);
          is_matrix = list_ex is_matrix_scope scope;
          scope' = (if is_matrix \<and> offline \<and> ''offline_access'' \<notin> set scope then scope @ [''offline_access''] else scope);
          grants' = (if is_matrix \<and> offline \<and> ''refresh_token'' \<notin> set grants then grants @ [''refresh_token''] else grants)
      in \<lparr>cm_name = text_at body ''client_name'', cm_redirect_uris = json_string_array (json_index body ''redirect_uris''),
          cm_grant_types = grants', cm_response_types = json_string_array (json_index body ''response_types''),
          cm_scope = (if is_matrix then ''*'' else join_with '' '' scope'),
          cm_token_endpoint_auth_method = text_at body ''token_endpoint_auth_method''\<rparr>)"

definition registration_payload :: "client_metadata \<Rightarrow> string \<Rightarrow> json" where
  "registration_payload m public_id =
     JObj [(''client_id'', JStr public_id), (''client_name'', JStr (cm_name m)), (''redirect_uris'', json_strings (cm_redirect_uris m)),
       (''grant_types'', json_strings (cm_grant_types m)),
       (''response_types'', json_strings (if cm_response_types m = [] then [''code''] else cm_response_types m)),
       (''scope'', JStr (cm_scope m)), (''token_endpoint_auth_method'', JStr (cm_token_endpoint_auth_method m))]"

text \<open>In \<^verbatim>\<open>now + ttl as i64\<close> the cast and the sum wrap.\<close>

definition registration_response :: "client_metadata \<Rightarrow> string \<Rightarrow> string \<Rightarrow> int \<Rightarrow> nat \<Rightarrow> json" where
  "registration_response m public_id client_secret now ttl =
     JObj [(''client_id'', JStr public_id), (''client_secret'', JStr client_secret), (''client_id_issued_at'', JInt now),
       (''client_secret_expires_at'', JInt (if cm_token_endpoint_auth_method m = ''none'' then 0 else wrap_i64 (now + int ttl))),
       (''client_name'', JStr (cm_name m)), (''redirect_uris'', json_strings (cm_redirect_uris m)), (''grant_types'', json_strings (cm_grant_types m)),
       (''response_types'', json_strings (cm_response_types m)), (''scope'', JStr (cm_scope m)),
       (''token_endpoint_auth_method'', JStr (cm_token_endpoint_auth_method m))]"

definition validate_metadata :: "url_parser \<Rightarrow> client_metadata \<Rightarrow> service_error + unit" where
  "validate_metadata parse m =
     (case validate_token_endpoint_auth_method (cm_token_endpoint_auth_method m) of
        Inl e \<Rightarrow> Inl e
      | Inr _ \<Rightarrow>
          if cm_token_endpoint_auth_method m = ''none'' then validate_native_redirect_uris parse (cm_redirect_uris m)
          else validate_redirect_uris parse (cm_redirect_uris m) False)"

definition owner_tenant :: "('f, 'h, 'k, 'z) oauth2_impl \<Rightarrow> auth_context option \<Rightarrow> string" where
  "owner_tenant st auth = (case auth of Some a \<Rightarrow> ac_tenant_id a | None \<Rightarrow> os_system_tenant_id st)"

definition register :: "('f, 'h, 'k, 'z) oauth2_impl \<Rightarrow> auth_context option \<Rightarrow> json \<Rightarrow> ('f, 'h, 'k, 'z, oauth2_response) web" where
  "register st auth body =
     bindE (guard_err (\<not> os_dynamic_client_registration_enabled st)
              (respond 403 (oauth_error ''access_denied'' ''dynamic client registration is disabled''))) (\<lambda>_.
     let m = requested_metadata (os_matrix_offline_access_enabled st) body
     in bindE (map_err (\<lambda>e. respond 400 (oauth_error ''invalid_request'' (os_show_error st e))) (lift_result (validate_metadata (os_parse_url st) m))) (\<lambda>_.
        bindE ulid_new (\<lambda>public_id.
        bindE (hydra_web st (hy_create_oauth2_client (os_hydra st) (registration_payload m public_id))) (\<lambda>created.
        bindE (lift_result (ok_or internal_error (as_str (json_index created ''client_id'')))) (\<lambda>ory_id.
        bindE (map_err (\<lambda>_. internal_error) (id_mapping_create (owner_tenant st auth) ''hydra'' public_id ory_id)) (\<lambda>_.
        bindE now_utc (\<lambda>now.
        ret (json_response (registration_response m public_id (text_at created ''client_secret'') (unix_timestamp now)
               (os_dcr_unused_registration_ttl st))))))))))"

definition delete_registered_client ::
  "('f, 'h, 'k, 'z) oauth2_impl \<Rightarrow> header_map \<Rightarrow> string \<Rightarrow> ('f, 'h, 'k, 'z, oauth2_response) web" where
  "delete_registered_client st headers client_id =
     (case basic_auth_credentials (os_b64_decode st) headers of
        None \<Rightarrow> raise invalid_client
      | Some (basic_id, secret) \<Rightarrow>
          if basic_id \<noteq> client_id then raise invalid_client
          else bindE (resolve_public_client st client_id) (\<lambda>ory_id.
               attempt (hydra_op (fh_verify_client_credentials (os_hydra st) ory_id secret)) (\<lambda>r. case r of
                   Inr True \<Rightarrow>
                     bindE (hydra_web st (hy_delete_oauth2_client (os_hydra st) ory_id)) (\<lambda>_.
                     bindE (delete_orphaned_client_mapping st ory_id) (\<lambda>_. ret (empty_response 204)))
                 | Inr False \<Rightarrow> raise invalid_client
                 | Inl e \<Rightarrow>
                     if is_not_found e then bindE (delete_orphaned_client_mapping st ory_id) (\<lambda>_. ret (empty_response 204))
                     else raise (map_hydra_error (os_parse_json st) e))))"

section \<open>Revocation and introspection\<close>

definition revoke_token :: "('f, 'h, 'k, 'z) oauth2_impl \<Rightarrow> header_map \<Rightarrow> form \<Rightarrow> ('f, 'h, 'k, 'z, oauth2_response) web" where
  "revoke_token st headers f =
     (case form_credentials st headers f of (credentials, rest, client_id) \<Rightarrow>
        bindE (if client_id = [] then ret rest
               else bindE (resolve_public_client st client_id) (\<lambda>ory_id.
                    ret (case credentials of
                           Some (_, secret) \<Rightarrow> form_insert ''client_secret'' secret (form_insert ''client_id'' ory_id rest)
                         | None \<Rightarrow> form_insert ''client_id'' ory_id rest))) (\<lambda>form.
        bindE (hydra_web st (fh_revoke (os_hydra st) (os_iter st form))) (\<lambda>_.
        bindE (case map_of f ''token'' of
                 Some t \<Rightarrow> if os_token_cache st then best_effort (token_cache_remove (hash_token (os_crypto st) t)) else ret ()
               | None \<Rightarrow> ret ()) (\<lambda>_.
        ret (empty_response 200)))))"

definition introspected_by_client ::
  "('f, 'h, 'k, 'z) oauth2_impl \<Rightarrow> string \<Rightarrow> string \<Rightarrow> string \<Rightarrow> ('f, 'h, 'k, 'z, json) web" where
  "introspected_by_client st client_id secret t =
     bindE (resolve_public_client st client_id) (\<lambda>ory_id.
     attempt (hydra_op (fh_verify_client_credentials (os_hydra st) ory_id secret)) (\<lambda>r. case r of
         Inr True \<Rightarrow> hydra_web st (fh_introspect_token (os_hydra st) t)
       | Inr False \<Rightarrow>
           attempt (hydra_op (hy_get_oauth2_client (os_hydra st) ory_id)) (\<lambda>c.
           bindE (case c of
                    Inl e \<Rightarrow> if is_not_found e then delete_orphaned_client_mapping st ory_id else ret ()
                  | Inr _ \<Rightarrow> ret ()) (\<lambda>_.
           raise invalid_client))
       | Inl e \<Rightarrow>
           if is_not_found e then bindE (delete_orphaned_client_mapping st ory_id) (\<lambda>_. raise invalid_client)
           else raise (map_hydra_error (os_parse_json st) e)))"

definition introspected_by_admin :: "('f, 'h, 'k, 'z) oauth2_impl \<Rightarrow> auth_context option \<Rightarrow> string \<Rightarrow> ('f, 'h, 'k, 'z, json) web" where
  "introspected_by_admin st auth t =
     (case auth of
        None \<Rightarrow> raise unauthorized
      | Some a \<Rightarrow>
          bindE (guard_err (\<not> list_ex (\<lambda>s. s = SCOPE_TENANT_ADMIN \<or> s = SCOPE_APPLICATION_ADMIN) (ac_scopes a)) forbidden) (\<lambda>_.
          hydra_web st (fh_introspect_token (os_hydra st) t)))"

definition translated_field :: "string \<Rightarrow> string \<Rightarrow> json \<Rightarrow> ('f, 'h, 'k, 'z, json) web" where
  "translated_field field ory_id v =
     bindE (translate_ory_id_to_public_id ory_id) (\<lambda>p. ret (case p of Some public_id \<Rightarrow> insert_field field (JStr public_id) v | None \<Rightarrow> v))"

definition described_token :: "('f, 'h, 'k, 'z) oauth2_impl \<Rightarrow> string \<Rightarrow> string \<Rightarrow> json \<Rightarrow> ('f, 'h, 'k, 'z, json) web" where
  "described_token st subject tenant_id v =
     (let raw_client_id = Option.bind (json_get v ''client_id'') as_str
      in bindE (translated_field ''sub'' subject (insert_field ''tenant_id'' (JStr tenant_id) v)) (\<lambda>v1.
         bindE (case Option.bind (json_get v1 ''client_id'') as_str of
                  Some client_id \<Rightarrow> translated_field ''client_id'' client_id v1
                | None \<Rightarrow> ret v1) (\<lambda>v2.
         maybe_inject_introspection_email st subject raw_client_id v2)))"

definition introspect ::
  "('f, 'h, 'k, 'z) oauth2_impl \<Rightarrow> auth_context option \<Rightarrow> header_map \<Rightarrow> form \<Rightarrow> ('f, 'h, 'k, 'z, oauth2_response) web" where
  "introspect st auth headers f =
     (case map_of f ''token'' of
        None \<Rightarrow> raise (bad_request ''missing token'')
      | Some t \<Rightarrow>
          bindE (case basic_auth_credentials (os_b64_decode st) headers of
                   Some (client_id, secret) \<Rightarrow> introspected_by_client st client_id secret t
                 | None \<Rightarrow> introspected_by_admin st auth t) (\<lambda>v.
          if Option.bind (json_get v ''active'') as_bool \<noteq> Some True then ret (json_response v)
          else case Option.bind (json_get v ''sub'') as_str of
            None \<Rightarrow> ret (json_response v)
          | Some subject \<Rightarrow>
              attempt (resolve_tenant_from_subject get_tenant_id_by_ory_id subject) (\<lambda>r. case r of
                  Inr tenant_id \<Rightarrow> bindE (described_token st subject tenant_id v) (\<lambda>x. ret (json_response x))
                | Inl e \<Rightarrow>
                    if e = UnknownSubject then ret (json_response (JObj [(''active'', JBool False)])) else raise internal_error)))"

section \<open>The router\<close>

datatype oauth2_request =
    OpenidConfiguration
  | Jwks
  | Authorize header_map form
  | TokenPost header_map form
  | DeviceVerify header_map form
  | DevicePost header_map string form
  | Userinfo header_map
  | Register "auth_context option" json
  | DeleteClient header_map string
  | Introspect "auth_context option" header_map form
  | Revoke header_map form

fun oauth2_handler :: "('f, 'h, 'k, 'z) oauth2_impl \<Rightarrow> oauth2_request \<Rightarrow> ('f, 'h, 'k, 'z, oauth2_response) web" where
  "oauth2_handler st OpenidConfiguration = openid_configuration st"
| "oauth2_handler st Jwks = jwks st"
| "oauth2_handler st (Authorize headers params) = authorize st headers params"
| "oauth2_handler st (TokenPost headers f) = token st headers f"
| "oauth2_handler st (DeviceVerify headers params) = device_verify st headers params"
| "oauth2_handler st (DevicePost headers path f) = device st headers path f"
| "oauth2_handler st (Userinfo headers) = userinfo st headers"
| "oauth2_handler st (Register auth body) = register st auth body"
| "oauth2_handler st (DeleteClient headers client_id) = delete_registered_client st headers client_id"
| "oauth2_handler st (Introspect auth headers f) = introspect st auth headers f"
| "oauth2_handler st (Revoke headers f) = revoke_token st headers f"

definition preflight_response :: oauth2_response where
  "preflight_response = \<lparr>re_status = 204,
     re_headers = [(''access-control-allow-origin'', ''*''), (''access-control-allow-methods'', ''GET, POST, OPTIONS''),
       (''access-control-allow-headers'', ''authorization, content-type''), (''access-control-max-age'', ''7200'')],
     re_body = EmptyBody\<rparr>"

definition insert_header :: "string \<Rightarrow> string \<Rightarrow> oauth2_response \<Rightarrow> oauth2_response" where
  "insert_header k v r = r\<lparr>re_headers := (k, v) # filter (\<lambda>(k', _). k' \<noteq> k) (re_headers r)\<rparr>"

text \<open>A preflight request (\<^verbatim>\<open>OPTIONS\<close>) is the request \<open>None\<close>.\<close>

definition cors_middleware ::
  "('f, 'h, 'k, 'z) oauth2_impl \<Rightarrow> oauth2_request option \<Rightarrow> ('f, 'h, 'k, 'z) ory_world_scheme
    \<Rightarrow> oauth2_response \<times> ('f, 'h, 'k, 'z) ory_world_scheme" where
  "cors_middleware st request w =
     (case request of
        None \<Rightarrow> (preflight_response, w)
      | Some req \<Rightarrow>
          (case oauth2_handler st req w of
             (Inl early, v) \<Rightarrow> (insert_header ''access-control-allow-origin'' ''*'' early, v)
           | (Inr final, v) \<Rightarrow> (insert_header ''access-control-allow-origin'' ''*'' final, v)))"

section \<open>What reaches Hydra\<close>

lemma hydra_op_run: "hydra_op m w = (r, v) \<longleftrightarrow> (\<exists>h. m (ow_hydra w) = (r, h) \<and> v = w\<lparr>ow_hydra := h\<rparr>)"
  by (auto simp: hydra_op_def split: prod.splits)

lemma hydra_web_run [run_simps]: "hydra_web st m w = (Inr x, v) \<longleftrightarrow> (\<exists>h. m (ow_hydra w) = (Inr x, h) \<and> v = w\<lparr>ow_hydra := h\<rparr>)"
  by (simp add: hydra_web_def run_simps hydra_op_run)

text \<open>A client id of the gateway stands for a client of Hydra: by a mapping, or because Hydra knows it by itself.\<close>

definition names_client :: "('f, 'h, 'k, 'z) oauth2_impl \<Rightarrow> ('f, 'h, 'k, 'z) ory_world_scheme \<Rightarrow> string \<Rightarrow> string \<Rightarrow> bool" where
  "names_client st w client_id ory_id \<longleftrightarrow>
     (\<exists>m \<in> set (id_mappings (pg_db w)). im_backend m = ''hydra'' \<and> im_public_id m = client_id \<and> im_ory_global_id m = ory_id)
     \<or> (\<exists>c h. hy_get_oauth2_client (os_hydra st) client_id (ow_hydra w) = (Inr c, h)
          \<and> ory_id = (case as_str (json_index c ''client_id'') of Some i \<Rightarrow> i | None \<Rightarrow> client_id))"

lemma get_ory_id_by_public_id_run:
  assumes "get_ory_id_by_public_id b p w = (r, u)"
  shows "u = w\<lparr>pg_queries := Suc (pg_queries w)\<rparr>"
    and "scan_ok w \<Longrightarrow> r = Inr g \<Longrightarrow> \<exists>m \<in> set (id_mappings (pg_db w)). im_backend m = b \<and> im_public_id m = p \<and> im_ory_global_id m = g"
proof -
  let ?q = "\<lambda>rows. ok_or MappingNotFound (map_option im_ory_global_id (find (\<lambda>r. im_backend r = b \<and> im_public_id r = p) rows))"
  have run: "pg_query_any ?q w = (r, u)" using assms by (simp add: get_ory_id_by_public_id_def)
  then show "u = w\<lparr>pg_queries := Suc (pg_queries w)\<rparr>" by (cases rule: pg_query_any_cases [of ?q w]) simp_all
  assume scan: "scan_ok w" and r: "r = Inr g"
  then have "?q (pg_scan w (pg_queries w) (id_mappings (pg_db w))) = Inr g"
    using run by (cases rule: pg_query_any_cases [of ?q w]) simp_all
  then obtain m where "find (\<lambda>r. im_backend r = b \<and> im_public_id r = p) (pg_scan w (pg_queries w) (id_mappings (pg_db w))) = Some m"
    and "im_ory_global_id m = g" by (auto simp: ok_or_def split: option.splits)
  with find_SomeD [OF this(1)] scan show "\<exists>m \<in> set (id_mappings (pg_db w)). im_backend m = b \<and> im_public_id m = p \<and> im_ory_global_id m = g"
    by (auto simp: scan_ok_def)
qed

lemma heal_client_mapping_run:
  assumes "heal_client_mapping st client_id w = (Inr ory_id, v)"
  obtains c h where "hy_get_oauth2_client (os_hydra st) client_id (ow_hydra w) = (Inr c, h)"
    and "ory_id = (case as_str (json_index c ''client_id'') of Some i \<Rightarrow> i | None \<Rightarrow> client_id)"
    and "snd (id_mapping_create (os_system_tenant_id st) ''hydra'' client_id ory_id (w\<lparr>ow_hydra := h\<rparr>)) = v"
  using assms by (auto simp: heal_client_mapping_def run_simps hydra_op_run Let_def best_effort_def)

lemma resolve_public_client_names:
  assumes "scan_ok w" and "resolve_public_client st client_id w = (Inr ory_id, v)"
  shows "names_client st w client_id ory_id"
proof -
  let ?u = "w\<lparr>pg_queries := Suc (pg_queries w)\<rparr>"
  obtain r u where q: "get_ory_id_by_public_id ''hydra'' client_id w = (r, u)" by fastforce
  note u = get_ory_id_by_public_id_run [OF q]
  show ?thesis
  proof (cases r)
    case (Inr g)
    then have "ory_id = g" using assms(2) q by (auto simp: resolve_public_client_def run_simps split: if_splits)
    then show ?thesis using u(2) [OF assms(1) Inr] by (auto simp: names_client_def)
  next
    case (Inl e)
    then have "heal_client_mapping st client_id u = (Inr ory_id, v)"
      using assms(2) q by (auto simp: resolve_public_client_def run_simps split: if_splits)
    then show ?thesis by (rule heal_client_mapping_run) (simp add: names_client_def u(1))
  qed
qed

lemma introspected_by_client_Inr:
  assumes "introspected_by_client st client_id secret t w = (Inr x, u)"
  obtains ory_id u' h h' where "resolve_public_client st client_id w = (Inr ory_id, u')"
    and "fh_verify_client_credentials (os_hydra st) ory_id secret h = (Inr True, h')"
    and "fh_introspect_token (os_hydra st) t h' = (Inr x, ow_hydra u)" and "u = u'\<lparr>ow_hydra := ow_hydra u\<rparr>"
proof -
  obtain ory_id u' where res: "resolve_public_client st client_id w = (Inr ory_id, u')"
    and att: "attempt (hydra_op (fh_verify_client_credentials (os_hydra st) ory_id secret)) (\<lambda>r. case r of
         Inr True \<Rightarrow> hydra_web st (fh_introspect_token (os_hydra st) t)
       | Inr False \<Rightarrow>
           attempt (hydra_op (hy_get_oauth2_client (os_hydra st) ory_id)) (\<lambda>c.
           bindE (case c of
                    Inl e \<Rightarrow> if is_not_found e then delete_orphaned_client_mapping st ory_id else ret ()
                  | Inr _ \<Rightarrow> ret ()) (\<lambda>_.
           raise invalid_client))
       | Inl e \<Rightarrow>
           if is_not_found e then bindE (delete_orphaned_client_mapping st ory_id) (\<lambda>_. raise invalid_client)
           else raise (map_hydra_error (os_parse_json st) e)) u' = (Inr x, u)"
    using bindE_InrE [OF assms [unfolded introspected_by_client_def]] by blast
  obtain r h where ver: "fh_verify_client_credentials (os_hydra st) ory_id secret (ow_hydra u') = (r, h)" by fastforce
  have "r = Inr True"
    using att ver by (cases r) (auto simp: attempt_def hydra_op_def bindE_def raise_def split: bool.splits prod.splits sum.splits if_splits)
  then show thesis using that [OF res] ver att by (auto simp: attempt_def hydra_op_def hydra_web_run)
qed

text \<open>
  \<^bold>\<open>C9.\<close> The introspection endpoint answers a token's data only to a client whose credentials Hydra
  verified, under the Hydra id that the presented client id stands for, or to a caller whose own token has an
  administrator's scope; a caller that sends Basic credentials is never answered on the strength of its token.
\<close>

theorem introspect_authorized:
  assumes "scan_ok w" and run: "introspect st auth headers f w = (Inr r, v)"
  shows "case basic_auth_credentials (os_b64_decode st) headers of
      Some (client_id, secret) \<Rightarrow>
        \<exists>ory_id h h'. names_client st w client_id ory_id \<and> fh_verify_client_credentials (os_hydra st) ory_id secret h = (Inr True, h')
    | None \<Rightarrow> \<exists>a. auth = Some a \<and> (SCOPE_TENANT_ADMIN \<in> set (ac_scopes a) \<or> SCOPE_APPLICATION_ADMIN \<in> set (ac_scopes a))"
proof -
  obtain t x u where x: "(case basic_auth_credentials (os_b64_decode st) headers of
      Some (client_id, secret) \<Rightarrow> introspected_by_client st client_id secret t | None \<Rightarrow> introspected_by_admin st auth t) w = (Inr x, u)"
    using run by (auto simp: introspect_def run_simps split: option.splits)
  show ?thesis
  proof (cases "basic_auth_credentials (os_b64_decode st) headers")
    case None
    then show ?thesis using x by (auto simp: introspected_by_admin_def run_simps list_ex_iff split: option.splits)
  next
    case (Some c)
    obtain client_id secret where c: "c = (client_id, secret)" by fastforce
    have "introspected_by_client st client_id secret t w = (Inr x, u)" using x Some c by simp
    then obtain ory_id u' h h' where "resolve_public_client st client_id w = (Inr ory_id, u')"
      and "fh_verify_client_credentials (os_hydra st) ory_id secret h = (Inr True, h')" by (rule introspected_by_client_Inr)
    moreover from this(1) have "names_client st w client_id ory_id" by (rule resolve_public_client_names [OF assms(1)])
    ultimately show ?thesis using Some c by auto
  qed
qed

section \<open>Registrations\<close>

lemma allowed_or_matrix: "x \<in> set (requested_scopes body) \<Longrightarrow> x \<in> set DCR_ALLOWED_SCOPES \<or> is_matrix_scope x"
proof -
  have "''openid'' \<in> set DCR_ALLOWED_SCOPES" by (simp add: DCR_ALLOWED_SCOPES_def)
  then show "x \<in> set (requested_scopes body) \<Longrightarrow> x \<in> set DCR_ALLOWED_SCOPES \<or> is_matrix_scope x"
    unfolding requested_scopes_def Let_def by (cases "as_str (json_index body ''scope'')") (simp_all split: if_splits)
qed

lemma requested_metadata_scope:
  "cm_scope (requested_metadata offline body) = ''*'' \<and> (\<exists>s \<in> set (split_whitespace (text_at body ''scope'')). is_matrix_scope s)
   \<or> (\<exists>ss. set ss \<subseteq> set DCR_ALLOWED_SCOPES \<and> cm_scope (requested_metadata offline body) = join_with '' '' ss)"
proof (cases "list_ex is_matrix_scope (requested_scopes body)")
  case True
  moreover have "\<not> is_matrix_scope ''openid''" by code_simp
  ultimately have "\<exists>s \<in> set (split_whitespace (text_at body ''scope'')). is_matrix_scope s"
    by (auto simp: requested_scopes_def Let_def text_at_def list_ex_iff split: option.splits if_splits)
  moreover have "cm_scope (requested_metadata offline body) = ''*''" using True by (simp add: requested_metadata_def Let_def)
  ultimately show ?thesis by blast
next
  case False
  have "x \<in> set DCR_ALLOWED_SCOPES \<or> is_matrix_scope x" if "x \<in> set (requested_scopes body)" for x
    by (rule allowed_or_matrix [OF that])
  then have "set (requested_scopes body) \<subseteq> set DCR_ALLOWED_SCOPES" using False by (auto simp: list_ex_iff)
  moreover have "cm_scope (requested_metadata offline body) = join_with '' '' (requested_scopes body)"
    using False by (simp add: requested_metadata_def Let_def)
  ultimately show ?thesis by blast
qed

lemma requested_metadata_grants:
  "set (json_string_array (json_index body ''grant_types'')) \<subseteq> set (cm_grant_types (requested_metadata offline body))"
  by (auto simp: requested_metadata_def Let_def)

lemma register_run:
  assumes "register st auth body w = (Inr r, v)"
  obtains i created ory_id h m where "os_dynamic_client_registration_enabled st"
    and "validate_metadata (os_parse_url st) (requested_metadata (os_matrix_offline_access_enabled st) body) = Inr ()"
    and "hy_create_oauth2_client (os_hydra st) (registration_payload (requested_metadata (os_matrix_offline_access_enabled st) body) i)
           (ow_hydra w) = (Inr created, h)"
    and "as_str (json_index created ''client_id'') = Some ory_id"
    and "pg_db v = (pg_db w)\<lparr>id_mappings := id_mappings (pg_db w) @ [m]\<rparr>" "at_key (owner_tenant st auth) ''hydra'' i m" "im_ory_global_id m = ory_id"
    and "r = json_response (registration_response (requested_metadata (os_matrix_offline_access_enabled st) body) i
           (text_at created ''client_secret'') (unix_timestamp (pg_now v)) (os_dcr_unused_registration_ttl st))"
proof -
  obtain i w1 created h ory_id m where d: "os_dynamic_client_registration_enabled st"
    and val: "validate_metadata (os_parse_url st) (requested_metadata (os_matrix_offline_access_enabled st) body) = Inr ()"
    and w1: "(ulid_new w :: (oauth2_response + string) \<times> _) = (Inr i, w1)"
    and made: "hy_create_oauth2_client (os_hydra st) (registration_payload (requested_metadata (os_matrix_offline_access_enabled st) body) i)
           (ow_hydra w1) = (Inr created, h)"
    and cid: "as_str (json_index created ''client_id'') = Some ory_id"
    and map: "id_mapping_create (owner_tenant st auth) ''hydra'' i ory_id (w1\<lparr>ow_hydra := h\<rparr>) = (Inr m, v)"
    and r: "r = json_response (registration_response (requested_metadata (os_matrix_offline_access_enabled st) body) i
           (text_at created ''client_secret'') (unix_timestamp (pg_now v)) (os_dcr_unused_registration_ttl st))"
    using assms by (auto simp: register_def run_simps Let_def ok_or_def now_utc_def split: option.splits)
  from w1 have "ow_hydra w1 = ow_hydra w" "pg_db w1 = pg_db w" by (auto simp: ulid_new_def)
  then show thesis using that [OF d val, of i created h ory_id m] made cid id_mapping_create_Inr [OF map] r by simp
qed

text \<open>
  \<^bold>\<open>C31.\<close> A successful dynamic registration asks Hydra for a client whose scope is a list of plain OIDC scopes, or \<^verbatim>\<open>*\<close> where the
  request names a Matrix scope; its redirect URIs pass the rules of its kind; and the client is mapped, under
  the id answered, to the caller's tenant or, for an anonymous caller, to the system tenant.
\<close>

theorem registration_capped:
  assumes "register st auth body w = (Inr r, v)"
  shows "\<exists>m i created h row. hy_create_oauth2_client (os_hydra st) (registration_payload m i) (ow_hydra w) = (Inr created, h)
    \<and> (cm_scope m = ''*'' \<and> (\<exists>s \<in> set (split_whitespace (text_at body ''scope'')). is_matrix_scope s)
       \<or> (\<exists>ss. set ss \<subseteq> set DCR_ALLOWED_SCOPES \<and> cm_scope m = join_with '' '' ss))
    \<and> (\<forall>uri \<in> set (cm_redirect_uris m).
         if cm_token_endpoint_auth_method m = ''none'' then check_native_redirect_uri (os_parse_url st) uri = Inr ()
         else acceptable_redirect (os_parse_url st) False uri)
    \<and> id_mappings (pg_db v) = id_mappings (pg_db w) @ [row] \<and> im_tenant_id row = owner_tenant st auth \<and> im_backend row = ''hydra''
    \<and> im_public_id row = i \<and> Some (im_ory_global_id row) = as_str (json_index created ''client_id'')
    \<and> re_status r = 200 \<and> (\<exists>body. re_body r = JsonBody body \<and> json_get body ''client_id'' = Some (JStr i))"
proof (rule register_run [OF assms])
  let ?m = "requested_metadata (os_matrix_offline_access_enabled st) body"
  fix i created ory_id h row
  assume val: "validate_metadata (os_parse_url st) ?m = Inr ()"
    and facts: "hy_create_oauth2_client (os_hydra st) (registration_payload ?m i) (ow_hydra w) = (Inr created, h)"
    and row: "as_str (json_index created ''client_id'') = Some ory_id" "pg_db v = (pg_db w)\<lparr>id_mappings := id_mappings (pg_db w) @ [row]\<rparr>"
      "at_key (owner_tenant st auth) ''hydra'' i row" "im_ory_global_id row = ory_id"
    and r: "r = json_response (registration_response ?m i (text_at created ''client_secret'') (unix_timestamp (pg_now v))
      (os_dcr_unused_registration_ttl st))"
  have "if cm_token_endpoint_auth_method ?m = ''none'' then check_native_redirect_uri (os_parse_url st) uri = Inr ()
      else acceptable_redirect (os_parse_url st) False uri" if "uri \<in> set (cm_redirect_uris ?m)" for uri
    using val that by (auto simp: validate_metadata_def validate_native_redirect_uris_def validate_uris_Inr validate_redirect_uris_Inr
        split: sum.splits if_splits)
  then have uris: "\<forall>uri \<in> set (cm_redirect_uris ?m). if cm_token_endpoint_auth_method ?m = ''none''
      then check_native_redirect_uri (os_parse_url st) uri = Inr () else acceptable_redirect (os_parse_url st) False uri" by blast
  have answer: "re_status r = 200" "\<exists>body. re_body r = JsonBody body \<and> json_get body ''client_id'' = Some (JStr i)"
    unfolding r json_response_def respond_def registration_response_def by simp_all
  have kept: "id_mappings (pg_db v) = id_mappings (pg_db w) @ [row]" "im_tenant_id row = owner_tenant st auth" "im_backend row = ''hydra''"
    "im_public_id row = i" "Some (im_ory_global_id row) = as_str (json_index created ''client_id'')"
    using row by (simp_all add: at_key_def)
  show ?thesis
    by (rule exI [of _ ?m], rule exI [of _ i], rule exI [of _ created], rule exI [of _ h], rule exI [of _ row])
       (intro conjI facts requested_metadata_scope uris kept answer)
qed

lemma matrix_metadata:
  assumes "s \<in> set (split_whitespace (text_at body ''scope''))" and "is_matrix_scope s"
  shows "cm_scope (requested_metadata offline body) = ''*''"
proof -
  have "as_str (json_index body ''scope'') = Some (text_at body ''scope'')"
    using assms(1) by (auto simp: text_at_def split_whitespace_def split: option.splits)
  moreover have "s \<in> set (filter (\<lambda>x. x \<in> set DCR_ALLOWED_SCOPES \<or> is_matrix_scope x) (split_whitespace (text_at body ''scope'')))"
    using assms by simp
  moreover from this have "filter (\<lambda>x. x \<in> set DCR_ALLOWED_SCOPES \<or> is_matrix_scope x) (split_whitespace (text_at body ''scope'')) \<noteq> []"
    by (rule length_pos_if_in_set [THEN iffD1 [OF length_greater_0_conv]])
  ultimately have "s \<in> set (requested_scopes body)" unfolding requested_scopes_def Let_def by simp
  then show ?thesis using assms(2) by (auto simp: requested_metadata_def Let_def list_ex_iff)
qed

text \<open>The one mapping of a Hydra client is what a token of the client for itself resolves to.\<close>

lemma resolve_mapped_client:
  assumes quiet: "pg_fault v = (\<lambda>_. None)" and scan: "scan_ok v"
    and uniq: "key_unique (\<lambda>x. (im_backend x, im_ory_global_id x)) (id_mappings (pg_db v))"
    and row: "row \<in> set (id_mappings (pg_db v))" "im_backend row = ''hydra''"
  shows "fst (resolve_subject get_tenant_id_by_ory_id get_public_id_by_ory_id (im_ory_global_id row) v) =
    Inr (im_tenant_id row, im_public_id row, Hydra)"
proof -
  let ?P = "\<lambda>r. im_backend r = ''hydra'' \<and> im_ory_global_id r = im_ory_global_id row"
  have found: "find ?P (pg_scan v n (id_mappings (pg_db v))) = Some row" for n
  proof -
    have set: "set (pg_scan v n (id_mappings (pg_db v))) = set (id_mappings (pg_db v))" using scan by (simp add: scan_ok_def)
    then have "find ?P (pg_scan v n (id_mappings (pg_db v))) \<noteq> None" using row by (auto simp: find_None_iff)
    then obtain x where x: "find ?P (pg_scan v n (id_mappings (pg_db v))) = Some x" by blast
    then have "x \<in> set (id_mappings (pg_db v))" "?P x" using find_SomeD [OF x] set by auto
    then have "x = row" using key_uniqueD [OF uniq _ row(1), of x] row(2) by simp
    then show ?thesis using x by simp
  qed
  show ?thesis
    by (simp add: resolve_subject_def attempt_def get_tenant_id_by_ory_id_def get_public_id_by_ory_id_def pg_query_any_def pg_query_no_fault quiet
        found ret_def ok_or_def)
qed

text \<open>
  \<^bold>\<open>C32.\<close> An anonymous registration that names a Matrix scope and any grants gets a client with the scope \<^verbatim>\<open>*\<close> and every grant asked
  for, \<^verbatim>\<open>client_credentials\<close> included, and the client is one of the system tenant: a token that Hydra issues to it
  for itself is a token of the system tenant, and its scopes are those the token request named.
\<close>

theorem anonymous_matrix_registration:
  assumes run: "register st None body w = (Inr r, v)"
    and matrix: "s \<in> set (split_whitespace (text_at body ''scope''))" "is_matrix_scope s"
    and world: "pg_fault v = (\<lambda>_. None)" "scan_ok v"
      "key_unique (\<lambda>x. (im_backend x, im_ory_global_id x)) (id_mappings (pg_db v))"
  shows "\<exists>m i created h ory_id. hy_create_oauth2_client (os_hydra st) (registration_payload m i) (ow_hydra w) = (Inr created, h)
    \<and> as_str (json_index created ''client_id'') = Some ory_id \<and> cm_scope m = ''*''
    \<and> set (json_string_array (json_index body ''grant_types'')) \<subseteq> set (cm_grant_types m)
    \<and> fst (resolve_subject get_tenant_id_by_ory_id get_public_id_by_ory_id ory_id v) = Inr (os_system_tenant_id st, i, Hydra)"
proof (rule register_run [OF run])
  let ?m = "requested_metadata (os_matrix_offline_access_enabled st) body"
  fix i created ory_id h row
  assume made: "hy_create_oauth2_client (os_hydra st) (registration_payload ?m i) (ow_hydra w) = (Inr created, h)"
    and cid: "as_str (json_index created ''client_id'') = Some ory_id"
    and row: "pg_db v = (pg_db w)\<lparr>id_mappings := id_mappings (pg_db w) @ [row]\<rparr>" "at_key (owner_tenant st None) ''hydra'' i row" "im_ory_global_id row = ory_id"
  have "fst (resolve_subject get_tenant_id_by_ory_id get_public_id_by_ory_id ory_id v) = Inr (os_system_tenant_id st, i, Hydra)"
    using resolve_mapped_client [OF world, of row] row by (simp add: at_key_def owner_tenant_def)
  then show ?thesis
    by (intro exI [of _ ?m] exI [of _ i] exI [of _ created] exI [of _ h] exI [of _ ory_id] conjI made cid matrix_metadata [OF matrix]
        requested_metadata_grants)
qed

section \<open>Deleting a registration\<close>

text \<open>
  The endpoint that deletes a registration answers success only to a caller that presents, for the client
  of the path, a secret that Hydra verified, or where Hydra answers that it has no such client.
\<close>

theorem delete_needs_secret:
  assumes "scan_ok w" and run: "delete_registered_client st headers client_id w = (Inr r, v)"
  shows "\<exists>secret ory_id h x h'. basic_auth_credentials (os_b64_decode st) headers = Some (client_id, secret)
    \<and> names_client st w client_id ory_id \<and> fh_verify_client_credentials (os_hydra st) ory_id secret h = (x, h')
    \<and> (x = Inr True \<or> (\<exists>e. x = Inl e \<and> is_not_found e)) \<and> re_status r = 204"
proof -
  obtain secret where cred: "basic_auth_credentials (os_b64_decode st) headers = Some (client_id, secret)"
    using run by (auto simp: delete_registered_client_def raise_def split: option.splits if_splits)
  obtain ory_id u where res: "resolve_public_client st client_id w = (Inr ory_id, u)"
    and att: "attempt (hydra_op (fh_verify_client_credentials (os_hydra st) ory_id secret)) (\<lambda>r. case r of
                   Inr True \<Rightarrow>
                     bindE (hydra_web st (hy_delete_oauth2_client (os_hydra st) ory_id)) (\<lambda>_.
                     bindE (delete_orphaned_client_mapping st ory_id) (\<lambda>_. ret (empty_response 204)))
                 | Inr False \<Rightarrow> raise invalid_client
                 | Inl e \<Rightarrow>
                     if is_not_found e then bindE (delete_orphaned_client_mapping st ory_id) (\<lambda>_. ret (empty_response 204))
                     else raise (map_hydra_error (os_parse_json st) e)) u = (Inr r, v)"
    using run cred by (auto simp: delete_registered_client_def elim: bindE_InrE)
  obtain x h where ver: "fh_verify_client_credentials (os_hydra st) ory_id secret (ow_hydra u) = (x, h)" by fastforce
  have "(x = Inr True \<or> (\<exists>e. x = Inl e \<and> is_not_found e)) \<and> r = empty_response 204"
    using att ver by (cases x) (auto simp: attempt_def hydra_op_def run_simps split: bool.splits if_splits)
  then show ?thesis
    using cred resolve_public_client_names [OF assms(1) res] ver by (auto simp: empty_response_def)
qed

section \<open>Forms\<close>

text \<open>Iterating a map loses and invents no entry.\<close>

definition iter_ok :: "('f, 'h, 'k, 'z) oauth2_impl \<Rightarrow> bool" where
  "iter_ok st \<longleftrightarrow> (\<forall>f. mset (os_iter st f) = mset f)"

lemma map_of_iter:
  assumes "iter_ok st" and "distinct (map fst f)"
  shows "map_of (os_iter st f) = map_of f"
proof -
  have "mset (os_iter st f) = mset f" using assms(1) by (simp add: iter_ok_def)
  then have "distinct (map fst (os_iter st f)) \<and> set (os_iter st f) = set f"
    using assms(2) by (metis mset_eq_imp_distinct_iff mset_eq_setD mset_map)
  then show ?thesis using assms(2) by (metis map_of_inject_set)
qed

lemma map_of_form_insert: "map_of (form_insert k v f) = (map_of f)(k \<mapsto> v)"
proof (cases "k \<in> fst ` set f")
  case True
  have other: "map_of (map (\<lambda>(k', x). (k', if k' = k then v else x)) f) j = map_of f j" if "j \<noteq> k" for j
    using that by (induction f) auto
  have "map_of (map (\<lambda>(k', x). (k', if k' = k then v else x)) f) k = Some v"
    using True by (induction f) auto
  then show ?thesis using True other by (auto simp: form_insert_def fun_eq_iff)
next
  case False
  then have "map_of f k = None" by (simp add: map_of_eq_None_iff)
  then show ?thesis using False by (auto simp: form_insert_def map_add_def fun_eq_iff split: option.splits)
qed

lemma map_of_form_remove: "map_of (form_remove k f) = (map_of f)(k := None)"
  by (induction f) (auto simp: form_remove_def)

lemma distinct_form_remove: "distinct (map fst f) \<Longrightarrow> distinct (map fst (form_remove k f))"
  by (induction f) (auto simp: form_remove_def)

lemma distinct_form_insert: "distinct (map fst f) \<Longrightarrow> distinct (map fst (form_insert k v f))"
  by (auto simp: form_insert_def comp_def split_def)

text \<open>
  The token and the device endpoints forward the form with the Hydra id of the client in place of its
  public id and nothing else changed, except that Basic credentials replace what the body says of the client: then
  the body has no secret, and the credentials are forwarded under the Hydra id.
\<close>

theorem forwarded_form:
  assumes "scan_ok w" and "iter_ok st" and "distinct (map fst f)" and run: "client_post st headers f post w = (Inr r, v)"
  shows "\<exists>client_id ory_id q credentials h x. names_client st w client_id ory_id \<and> post q credentials h = (Inr x, ow_hydra v) \<and> r = json_response x
    \<and> (case basic_auth_credentials (os_b64_decode st) headers of
         Some (i, secret) \<Rightarrow> client_id = i \<and> credentials = Some (ory_id, secret)
           \<and> map_of q = (map_of f)(''client_secret'' := None, ''client_id'' \<mapsto> ory_id)
       | None \<Rightarrow> map_of f ''client_id'' = Some client_id \<and> credentials = None \<and> map_of q = (map_of f)(''client_id'' \<mapsto> ory_id))"
proof -
  obtain credentials rest client_id where fc: "form_credentials st headers f = (credentials, rest, client_id)" by (cases "form_credentials st headers f") auto
  let ?q = "\<lambda>ory_id. os_iter st (form_insert ''client_id'' ory_id rest)" and ?c = "\<lambda>ory_id. map_option (\<lambda>(_, secret). (ory_id, secret)) credentials"
  obtain ory_id u x h where ne: "client_id \<noteq> []" and res: "resolve_public_client st client_id w = (Inr ory_id, u)"
    and post: "post (?q ory_id) (?c ory_id) (ow_hydra u) = (Inr x, h)" and v: "v = u\<lparr>ow_hydra := h\<rparr>" and r: "r = json_response x"
    using run fc by (auto simp: client_post_def run_simps raise_def split: if_splits)
  have "distinct (map fst rest)"
    using fc assms(3) by (auto simp: form_credentials_def distinct_form_remove split: option.splits)
  then have q: "map_of (?q ory_id) = (map_of rest)(''client_id'' \<mapsto> ory_id)"
    by (simp add: map_of_iter [OF assms(2)] distinct_form_insert map_of_form_insert)
  note names = resolve_public_client_names [OF assms(1) res]
  show ?thesis
  proof (cases "basic_auth_credentials (os_b64_decode st) headers")
    case None
    then have "credentials = None" "rest = f" "map_of f ''client_id'' = Some client_id"
      using fc ne by (auto simp: form_credentials_def opt_text_def split: option.splits)
    then show ?thesis using names post r v q None
      by (intro exI [of _ client_id] exI [of _ ory_id] exI [of _ "?q ory_id"] exI [of _ "?c ory_id"] exI [of _ "ow_hydra u"] exI [of _ x]) simp
  next
    case (Some c)
    obtain i secret where c: "c = (i, secret)" by fastforce
    then have "credentials = Some (i, secret)" "rest = form_remove ''client_secret'' (form_remove ''client_id'' f)" "client_id = i"
      using fc Some by (auto simp: form_credentials_def)
    then show ?thesis using names post r v q Some c
      by (intro exI [of _ client_id] exI [of _ ory_id] exI [of _ "?q ory_id"] exI [of _ "?c ory_id"] exI [of _ "ow_hydra u"] exI [of _ x])
         (simp add: map_of_form_remove fun_upd_twist)
  qed
qed

section \<open>The words of a scope\<close>

text \<open>A word in which no position starts a whitespace character; cutting a text after the word keeps it one.\<close>

definition wordlike :: "string \<Rightarrow> bool" where
  "wordlike w \<longleftrightarrow> w \<noteq> [] \<and> (\<forall>a b. w = a @ b \<and> b \<noteq> [] \<longrightarrow> ws_len b = 0)"

lemma ws_len_cut: "ws_len (a @ b) = 0 \<Longrightarrow> ws_len a = 0"
  by (cases a; cases "tl a"; cases "tl (tl a)") (auto simp: ws_len_def split: if_splits list.splits)

lemma code_blank: "code_point (CHR '' '') = 32"
  by code_simp

lemma ws_len_blank: "ws_len a = 0 \<Longrightarrow> a \<noteq> [] \<Longrightarrow> ws_len (a @ CHR '' '' # t) = 0"
proof (cases a)
  case (Cons x a')
  assume len: "ws_len a = 0"
  show ?thesis
  proof (cases a')
    case Nil
    then show ?thesis using len Cons by (cases t) (auto simp: ws_len_def code_blank)
  next
    case (Cons y a'')
    then show ?thesis using len \<open>a = x # a'\<close> by (cases a'') (auto simp: ws_len_def code_blank)
  qed
qed simp

lemma split_ws_from_wordlike:
  assumes "\<forall>a b. rev acc = a @ b \<and> b \<noteq> [] \<longrightarrow> ws_len (b @ s) = 0"
  shows "\<forall>w \<in> set (split_ws_from acc s). wordlike w"
  using assms
proof (induction acc s rule: split_ws_from.induct)
  case (1 acc)
  then show ?case by (auto simp: wordlike_def)
next
  case (2 acc c cs)
  have acc: "acc \<noteq> [] \<Longrightarrow> wordlike (rev acc)" using 2(3) ws_len_cut unfolding wordlike_def by blast
  show ?case
  proof (cases "ws_len (c # cs) = 0")
    case True
    have "ws_len (b @ cs) = 0" if "rev (c # acc) = a @ b" "b \<noteq> []" for a b
      using that 2(3) True by (cases b rule: rev_cases; cases "butlast b = []") auto
    then show ?thesis using 2(1) [OF refl True] True by simp
  next
    case False
    then show ?thesis using 2(2) [OF refl False] acc by auto
  qed
qed

lemma split_whitespace_wordlike: "w \<in> set (split_whitespace s) \<Longrightarrow> wordlike w"
  using split_ws_from_wordlike [of "[]" s] by (simp add: split_whitespace_def)

lemma split_ws_word:
  assumes "\<forall>a b. w = a @ b \<and> b \<noteq> [] \<longrightarrow> ws_len (b @ t) = 0"
  shows "split_ws_from acc (w @ t) = split_ws_from (rev w @ acc) t"
  using assms
proof (induction w arbitrary: acc)
  case (Cons c w)
  have "ws_len (c # w @ t) = 0" using Cons(2) by (metis append_Cons append_Nil list.discI)
  moreover have "\<forall>a b. w = a @ b \<and> b \<noteq> [] \<longrightarrow> ws_len (b @ t) = 0" using Cons(2) by (metis append_Cons)
  ultimately show ?case using Cons(1) [of "c # acc"] by simp
qed simp

lemma split_whitespace_join:
  "\<forall>w \<in> set ws. wordlike w \<Longrightarrow> split_whitespace (join_with '' '' ws) = ws"
proof (induction "'' ''" ws rule: join_with.induct)
  case (2 w)
  then have "split_ws_from [] (w @ []) = split_ws_from (rev w @ []) []" by (intro split_ws_word) (simp add: wordlike_def)
  then show ?case using 2 by (simp add: split_whitespace_def wordlike_def)
next
  case (3 w w' ws)
  have blank: "ws_len (CHR '' '' # t) = 1" for t by (simp add: ws_len_def code_blank)
  have "split_ws_from [] (w @ CHR '' '' # t) = split_ws_from (rev w @ []) (CHR '' '' # t)" for t
    using 3(2) by (intro split_ws_word) (simp add: wordlike_def ws_len_blank)
  then show ?case using 3 by (simp add: split_whitespace_def blank wordlike_def)
qed (simp add: split_whitespace_def)

section \<open>The guardrail of Matrix requests\<close>

definition guarded_scope :: "string \<Rightarrow> bool" where
  "guarded_scope scope \<longleftrightarrow>
     (\<exists>s \<in> set (split_whitespace scope). is_matrix_scope s)
     \<longrightarrow> (\<forall>s \<in> set (split_whitespace scope). s \<in> set DCR_ALLOWED_SCOPES \<or> is_matrix_scope s)"

lemma allowed_guard: "disallowed_matrix_scope scope = None \<Longrightarrow> guarded_scope scope"
  by (auto simp: disallowed_matrix_scope_def guarded_scope_def Let_def DCR_ALLOWED_SCOPES_def list_ex_iff find_None_iff split: if_splits)

lemma offline_access_guard:
  assumes "guarded_scope scope"
  shows "guarded_scope (with_matrix_offline_access enabled scope)"
proof (cases "with_matrix_offline_access enabled scope = scope")
  case False
  let ?ws = "split_whitespace scope @ [''offline_access'']"
  have eff: "with_matrix_offline_access enabled scope = join_with '' '' ?ws"
    using False by (auto simp: with_matrix_offline_access_def Let_def)
  have "''offline_access'' \<in> set (split_whitespace ''offline_access'')" by code_simp
  then have "\<forall>w \<in> set ?ws. wordlike w" by (auto intro: split_whitespace_wordlike)
  then have words: "split_whitespace (with_matrix_offline_access enabled scope) = ?ws" unfolding eff by (rule split_whitespace_join)
  have "\<exists>s \<in> set (split_whitespace scope). is_matrix_scope s"
    using False by (auto simp: with_matrix_offline_access_def Let_def list_ex_iff split: if_splits)
  moreover have "''offline_access'' \<in> set DCR_ALLOWED_SCOPES" by (simp add: DCR_ALLOWED_SCOPES_def)
  ultimately show ?thesis using assms unfolding guarded_scope_def words by auto
qed (simp add: assms)

lemma authorize_run:
  assumes "authorize st headers params w = (Inr r, v)"
  obtains ory_id u u' where "resolve_public_client_for_authorize st (opt_text (map_of params ''client_id'')) w = (Inr ory_id, u)"
    and "Option.bind (map_of params ''scope'') disallowed_matrix_scope = None"
    and "proxied st (fh_authorize (os_hydra st) (authorize_params st params ory_id
           (with_matrix_offline_access (os_matrix_offline_access_enabled st) (opt_text (map_of params ''scope'')))) (cookie_header headers)) u' = (Inr r, v)"
  using assms by (auto simp: authorize_def raise_def Let_def split: option.splits elim!: bindE_InrE)


section \<open>What introspection says of the tenant\<close>

lemma json_get_insert_field: "json_get (insert_field k x v) j = (case v of JObj _ \<Rightarrow> if j = k then Some x else json_get v j | _ \<Rightarrow> None)"
  by (cases v) (auto simp: insert_field_def json_get_set_other simp del: json_set.simps simp add: json_get_set_same)

lemma insert_field_object: "v = JObj fs \<Longrightarrow> \<exists>fs'. insert_field k x v = JObj fs'"
  by (simp add: insert_field_def)

lemma translated_field_Inr:
  assumes "translated_field field ory_id v w = (Inr x, u)"
  shows "x = v \<or> (\<exists>p. x = insert_field field (JStr p) v)"
  using assms by (auto simp: translated_field_def run_simps split: option.splits)

lemma inject_email_Inr:
  assumes "maybe_inject_introspection_email st sub cid v w = (Inr x, u)"
  shows "x = v \<or> (\<exists>p. x = insert_field ''email'' (JStr p) v)"
proof -
  have "with_identity_email v r = v \<or> (\<exists>p. with_identity_email v r = insert_field ''email'' (JStr p) v)" for r
    by (cases r) (auto split: option.splits)
  then show ?thesis
    using assms unfolding maybe_inject_introspection_email_def Let_def by (auto simp: attempt_eq ret_eq split: option.splits if_splits)
qed

lemma described_token_tenant:
  assumes "described_token st subject tenant_id v w = (Inr x, u)" and "v = JObj fs"
  shows "json_get x ''tenant_id'' = Some (JStr tenant_id)" and "json_get x ''active'' = json_get v ''active''"
proof -
  let ?v = "insert_field ''tenant_id'' (JStr tenant_id) v"
  let ?K = "\<lambda>x. (\<exists>fs. x = JObj fs) \<and> json_get x ''tenant_id'' = Some (JStr tenant_id) \<and> json_get x ''active'' = json_get v ''active''"
  have keep: "?K (insert_field k y x)" if "?K x" "k \<noteq> ''tenant_id''" "k \<noteq> ''active''" for k y x
    using that insert_field_object [of x _ k y] by (auto simp: json_get_insert_field)
  obtain v1 w1 v2 w2 where v1: "translated_field ''sub'' subject ?v w = (Inr v1, w1)"
    and v2: "(case Option.bind (json_get v1 ''client_id'') as_str of Some client_id \<Rightarrow> translated_field ''client_id'' client_id v1 | None \<Rightarrow> ret v1) w1 = (Inr v2, w2)"
    and x: "maybe_inject_introspection_email st subject (Option.bind (json_get v ''client_id'') as_str) v2 w2 = (Inr x, u)"
    using assms(1) by (auto simp: described_token_def Let_def elim!: bindE_InrE)
  have "?K ?v" using assms(2) insert_field_object [OF assms(2)] by (simp add: json_get_insert_field del: json_get.simps)
  then have "?K v1" using translated_field_Inr [OF v1] keep [of ?v "''sub''"] by auto
  moreover have "v2 = v1 \<or> (\<exists>p. v2 = insert_field ''client_id'' (JStr p) v1)"
    using v2 by (auto simp: ret_eq dest!: translated_field_Inr split: option.splits)
  ultimately have "?K v2" using keep [of v1 "''client_id''"] by blast
  then have "?K x" using inject_email_Inr [OF x] keep [of v2 "''email''"] by blast
  then show "json_get x ''tenant_id'' = Some (JStr tenant_id)" "json_get x ''active'' = json_get v ''active''" by auto
qed

lemma scan_ok_framed: "framed scan_ok"
  by (simp add: framed_def scan_ok_def)

lemma keeps_scan_hydra: "keeps scan_ok (hydra_op m)"
  by (simp add: keeps_def hydra_op_def scan_ok_def split: prod.splits)

lemma keeps_scan_resolve: "keeps scan_ok (resolve_public_client st client_id)"
  unfolding resolve_public_client_def heal_client_mapping_def get_ory_id_by_public_id_def id_mapping_create_def Let_def
  by (intro framed_rules keeps_scan_hydra scan_ok_framed)

lemma introspected_Inr:
  assumes "scan_ok w" and "(case credentials of Some (client_id, secret) \<Rightarrow> introspected_by_client st client_id secret t
      | None \<Rightarrow> introspected_by_admin st auth t) w = (Inr x, u)"
  shows "scan_ok u \<and> (\<exists>h h'. fh_introspect_token (os_hydra st) t h = (Inr x, h'))"
proof (cases credentials)
  case None
  then show ?thesis using assms by (auto simp: introspected_by_admin_def run_simps scan_ok_def split: option.splits)
next
  case (Some c)
  obtain client_id secret where c: "c = (client_id, secret)" by fastforce
  then have run: "introspected_by_client st client_id secret t w = (Inr x, u)" using assms(2) Some by simp
  then obtain ory_id u' h h' where res: "resolve_public_client st client_id w = (Inr ory_id, u')"
    and x: "fh_introspect_token (os_hydra st) t h' = (Inr x, ow_hydra u)" and u: "u = u'\<lparr>ow_hydra := ow_hydra u\<rparr>"
    by (rule introspected_by_client_Inr)
  have "scan_ok u'" by (rule keepsD [OF keeps_scan_resolve assms(1) res])
  then have "scan_ok u" by (subst u) (simp add: scan_ok_def)
  then show ?thesis using x by blast
qed

lemma resolve_tenant_Inr:
  assumes "scan_ok w" and "resolve_tenant_from_subject get_tenant_id_by_ory_id subject w = (r, u)"
  shows "pg_db u = pg_db w \<and> (\<forall>t. r = Inr t \<longrightarrow> (\<exists>m \<in> set (id_mappings (pg_db w)). im_tenant_id m = t
    \<and> (maps_subject ''hydra'' subject m \<or> maps_subject ''kratos'' subject m)))"
proof (cases rule: get_tenant_id_by_ory_id_cases [OF assms(1), of "''hydra''" subject])
  case 2
  let ?u = "w\<lparr>pg_queries := Suc (pg_queries w)\<rparr>"
  have "scan_ok ?u" using assms(1) by simp
  from this show ?thesis
    using assms(2) 2(1)
    by (cases rule: get_tenant_id_by_ory_id_cases [of ?u "''kratos''" subject])
       (auto simp: resolve_tenant_from_subject_def attempt_def ret_def raise_def)
qed (use assms(2) in \<open>auto simp: resolve_tenant_from_subject_def attempt_def ret_def raise_def\<close>)

lemma keeps_db_described: "keeps (\<lambda>w. pg_db w = db) (described_token st subject tenant_id v)"
proof -
  note any = keeps_pg_query_any [where J = "\<lambda>x. x = db"]
  have "keeps (\<lambda>w. pg_db w = db) (kratos_op m)" for m :: "('k, ory_error, json) io"
    by (simp add: keeps_def kratos_op_def split: prod.splits)
  moreover have "keeps (\<lambda>w. pg_db w = db) (translated_field k i x)" for k i x
    unfolding translated_field_def translate_ory_id_to_public_id_def translate_through.simps get_public_id_by_ory_id_def
    by (intro keeps_rules any)
  ultimately show ?thesis
    unfolding described_token_def maybe_inject_introspection_email_def Let_def by (intro keeps_rules)
qed

text \<open>
  A token that Hydra calls active, of a subject, is described with the tenant of a mapping of that subject,
  in the field \<^verbatim>\<open>tenant_id\<close> that Hydra's own answer cannot set, or it is reported as inactive and nothing else is said of it. A token
  that Hydra does not call active is described as Hydra does.
\<close>

theorem introspection_names_tenant:
  assumes scan: "scan_ok w" and run: "introspect st auth headers f w = (Inr r, v)"
  shows "\<exists>t x0 h h'. map_of f ''token'' = Some t \<and> fh_introspect_token (os_hydra st) t h = (Inr x0, h')
    \<and> (case (Option.bind (json_get x0 ''active'') as_bool, Option.bind (json_get x0 ''sub'') as_str) of
         (Some True, Some subject) \<Rightarrow>
           r = json_response (JObj [(''active'', JBool False)])
           \<or> (\<exists>m x. m \<in> set (id_mappings (pg_db v)) \<and> (maps_subject ''hydra'' subject m \<or> maps_subject ''kratos'' subject m)
                \<and> r = json_response x \<and> json_get x ''tenant_id'' = Some (JStr (im_tenant_id m)) \<and> json_get x ''active'' = Some (JBool True))
       | _ \<Rightarrow> r = json_response x0)"
proof -
  let ?active = "\<lambda>x. Option.bind (json_get x ''active'') as_bool" and ?sub = "\<lambda>x. Option.bind (json_get x ''sub'') as_str"
  obtain t x0 u where t: "map_of f ''token'' = Some t"
    and who: "(case basic_auth_credentials (os_b64_decode st) headers of Some (client_id, secret) \<Rightarrow> introspected_by_client st client_id secret t
      | None \<Rightarrow> introspected_by_admin st auth t) w = (Inr x0, u)"
    and rest: "(if ?active x0 \<noteq> Some True then ret (json_response x0)
          else case ?sub x0 of
            None \<Rightarrow> ret (json_response x0)
          | Some subject \<Rightarrow>
              attempt (resolve_tenant_from_subject get_tenant_id_by_ory_id subject) (\<lambda>r. case r of
                  Inr tenant_id \<Rightarrow> bindE (described_token st subject tenant_id x0) (\<lambda>x. ret (json_response x))
                | Inl e \<Rightarrow>
                    if e = UnknownSubject then ret (json_response (JObj [(''active'', JBool False)])) else raise internal_error)) u = (Inr r, v)"
    using run unfolding introspect_def by (cases "map_of f ''token''") (auto simp: raise_def elim!: bindE_InrE)
  obtain h h' where u: "scan_ok u" and x0: "fh_introspect_token (os_hydra st) t h = (Inr x0, h')" using introspected_Inr [OF scan who] by blast
  show ?thesis
  proof (cases "?active x0 = Some True \<and> ?sub x0 \<noteq> None")
    case False
    then have "r = json_response x0" using rest by (auto simp: ret_def split: if_splits option.splits)
    then show ?thesis using t x0 False by (intro exI [of _ t] exI [of _ x0] exI [of _ h] exI [of _ h'] conjI) (auto split: option.splits bool.splits)
  next
    case True
    then obtain subject where sub: "?sub x0 = Some subject" by auto
    obtain fs where obj: "x0 = JObj fs" using sub by (cases x0) auto
    obtain y u1 where y: "resolve_tenant_from_subject get_tenant_id_by_ory_id subject u = (y, u1)" by fastforce
    note ten = resolve_tenant_Inr [OF u y]
    have "r = json_response (JObj [(''active'', JBool False)])
       \<or> (\<exists>m x. m \<in> set (id_mappings (pg_db v)) \<and> (maps_subject ''hydra'' subject m \<or> maps_subject ''kratos'' subject m)
            \<and> r = json_response x \<and> json_get x ''tenant_id'' = Some (JStr (im_tenant_id m)) \<and> json_get x ''active'' = Some (JBool True))"
    proof (cases y)
      case (Inl e)
      then show ?thesis using rest True sub y by (auto simp: attempt_def ret_def raise_def split: if_splits)
    next
      case (Inr tenant)
      then obtain x where x: "described_token st subject tenant x0 u1 = (Inr x, v)" and r: "r = json_response x"
        using rest True sub y by (auto simp: attempt_def run_simps)
      have "pg_db v = pg_db u" using keepsD [OF keeps_db_described _ x] ten by simp
      moreover have "json_get x0 ''active'' = Some (JBool True)" using True by (cases "json_get x0 ''active''") (auto elim: as_bool.elims)
      ultimately show ?thesis using ten Inr described_token_tenant [OF x obj] r by auto
    qed
    then show ?thesis using t x0 True sub by (intro exI [of _ t] exI [of _ x0] exI [of _ h] exI [of _ h'] conjI) simp_all
  qed
qed

section \<open>The mappings that requests add\<close>

text \<open>Every mapping of Hydra clients beyond \<open>M\<close> belongs to a tenant of \<open>T\<close>, and no application row is new.\<close>

definition within :: "id_mapping_row set \<Rightarrow> string set \<Rightarrow> application_row set \<Rightarrow> database \<Rightarrow> bool" where
  "within M T A db \<longleftrightarrow> (\<forall>m \<in> set (id_mappings db). m \<in> M \<or> im_backend m = ''hydra'' \<and> im_tenant_id m \<in> T) \<and> set (applications db) \<subseteq> A"

lemma within_stmts:
  "stmt_keeps (within M T A) (id_mapping_delete_stmt t b p)" "stmt_keeps (within M T A) (token_cache_remove_stmt h)"
  by (auto simp: stmt_keeps_def within_def id_mapping_delete_stmt_def token_cache_remove_stmt_def Let_def)

lemma within_insert: "t \<in> T \<Longrightarrow> stmt_keeps (within M T A) (id_mapping_insert_stmt i t ''hydra'' p g)"
  by (auto simp: stmt_keeps_def within_def id_mapping_insert_stmt_def violates_def Let_def)

lemma keeps_db_remove: "keeps (\<lambda>w. J (pg_db w)) (remove_application (openfga b) t app)"
proof -
  note db = keeps_fga_call_db [where J = J] keeps_repo_db [where J = J]
  have "keeps (\<lambda>w. J (pg_db w)) (fga_list_users b t ns obj rel filters opts)" for ns obj rel filters opts
    unfolding fga_list_users_def client_list_users_def fga_def
    by (auto intro!: keeps_rules db split: option.splits)
  then show ?thesis
    unfolding remove_application_def openfga_sel by (intro keeps_rules keeps_backend_calls(2) db)
qed

abbreviation kept_within :: "id_mapping_row set \<Rightarrow> string set \<Rightarrow> application_row set \<Rightarrow> 'z pg_scheme \<Rightarrow> bool" where
  "kept_within M T A w \<equiv> within M T A (pg_db w)"

lemma within_ops:
  "keeps (kept_within M T A) (hydra_op m)" "keeps (kept_within M T A) (kratos_op n)" "keeps (kept_within M T A) (hydra_web st l)"
  "keeps (kept_within M T A) (id_mapping_delete t b p)" "keeps (kept_within M T A) (token_cache_remove h)"
  "keeps (kept_within M T A) (pg_query q)" "keeps (kept_within M T A) (pg_query_any a)"
  "t \<in> T \<Longrightarrow> keeps (kept_within M T A) (id_mapping_create t ''hydra'' p g)"
proof -
  show op: "keeps (kept_within M T A) (hydra_op m)" for m by (rule keeps_db_hydra [where J = "within M T A"])
  show "keeps (kept_within M T A) (kratos_op n)" by (simp add: keeps_def kratos_op_def split: prod.splits)
  show "keeps (kept_within M T A) (hydra_web st l)" unfolding hydra_web_def by (intro keeps_rules op)
  show "keeps (kept_within M T A) (id_mapping_delete t b p)" "keeps (kept_within M T A) (token_cache_remove h)"
    unfolding id_mapping_delete_def token_cache_remove_def by (intro keeps_pg_exec within_stmts)+
  show "keeps (kept_within M T A) (pg_query q)" "keeps (kept_within M T A) (pg_query_any a)"
    by (rule keeps_pg_query keeps_pg_query_any)+
  show "t \<in> T \<Longrightarrow> keeps (kept_within M T A) (id_mapping_create t ''hydra'' p g)"
    unfolding id_mapping_create_def by (intro keeps_rules keeps_pg_exec within_insert keeps_ulid_new)
qed

lemmas within_rules = keeps_rules within_ops(1-7)

lemma within_reads:
  "keeps (kept_within M T A) (get_ory_id_by_public_id b p)" "keeps (kept_within M T A) (get_public_id_by_ory_id b p)"
  "keeps (kept_within M T A) (get_tenant_id_by_ory_id b p)" "keeps (kept_within M T A) (application_get t p)"
  "keeps (kept_within M T A) (translate_ory_id_to_public_id i)"
  unfolding get_ory_id_by_public_id_def get_public_id_by_ory_id_def get_tenant_id_by_ory_id_def application_get_def
    translate_ory_id_to_public_id_def translate_through.simps
  by (intro within_rules)+

lemma within_clients:
  assumes "os_system_tenant_id st \<in> T" and "os_entitlements st = openfga b"
  shows "keeps (kept_within M T A) (resolve_public_client st i)" and "keeps (kept_within M T A) (delete_orphaned_client_mapping st i)"
    and "keeps (kept_within M T A) (translate_query st q)"
proof -
  show res: "keeps (kept_within M T A) (resolve_public_client st i)" for i
    unfolding resolve_public_client_def heal_client_mapping_def Let_def by (intro within_rules within_reads within_ops(8) assms(1))
  show "keeps (kept_within M T A) (delete_orphaned_client_mapping st i)"
    unfolding delete_orphaned_client_mapping_def remove_entitlements_def assms(2)
    by (intro within_rules within_reads keeps_db_remove [where J = "within M T A"])
  show "keeps (kept_within M T A) (translate_query st q)"
    by (induction q) (auto intro!: within_rules res)
qed

lemma within_handlers:
  assumes sys: "os_system_tenant_id st \<in> T" and ent: "os_entitlements st = openfga b"
    and own: "\<And>auth body. req = Register auth body \<Longrightarrow> owner_tenant st auth \<in> T"
  shows "keeps (kept_within M T A) (oauth2_handler st req)"
proof -
  note clients = within_clients [OF sys ent, where M = M and A = A]
  have proxied: "keeps (kept_within M T A) (proxied st m)" for m unfolding proxied_def by (intro within_rules)
  have post: "keeps (kept_within M T A) (client_post st headers f m)" for headers f m
    unfolding client_post_def by (intro within_rules clients)
  show ?thesis
  proof (cases req)
    case (Register auth body)
    then show ?thesis
      unfolding Register oauth2_handler.simps register_def Let_def
      by (intro within_rules within_ops(8) own [OF Register] keeps_ulid_new [where J = "within M T A"] keeps_now_utc)
  next
    case (Introspect auth headers f)
    have "keeps (kept_within M T A) (described_token st subject tenant_id v)" for subject tenant_id v
      unfolding described_token_def translated_field_def maybe_inject_introspection_email_def Let_def by (intro within_rules within_reads)
    moreover have "keeps (kept_within M T A) (introspected_by_client st i secret t)" "keeps (kept_within M T A) (introspected_by_admin st auth t)" for i secret t
      unfolding introspected_by_client_def introspected_by_admin_def by (intro within_rules clients | split bool.split, intro conjI impI)+
    ultimately show ?thesis
      unfolding Introspect oauth2_handler.simps introspect_def resolve_tenant_from_subject_def resolve_tenant_loop.simps
      by (intro within_rules within_reads)
  qed (auto simp: openid_configuration_def jwks_def authorize_def resolve_public_client_for_authorize_def maybe_expand_matrix_client_scope_def
      token_def device_def device_verify_def userinfo_def delete_registered_client_def revoke_token_def Let_def
      intro!: within_rules within_reads clients proxied post split: option.splits sum.splits bool.splits prod.splits)
qed


section \<open>Witnesses\<close>

text \<open>A Hydra with one client, whose secret and whose tokens are known.\<close>

definition sample_front :: "(string \<times> json) list front_hydra" where
  "sample_front = hydra_ops.extend list_hydra
     \<lparr>fh_authorize = (\<lambda>q cookie h. (Inl (Ory_Redirect ''https://login/'' [''c=1'']), h)),
      fh_token = (\<lambda>form credentials h. (Inr (JObj [(''access_token'', JStr ''at'')]), h)),
      fh_device = (\<lambda>path form credentials h. (Inr JNull, h)), fh_get_device_verify = (\<lambda>q cookie h. (Inr JNull, h)),
      fh_userinfo = (\<lambda>t h. (Inr JNull, h)),
      fh_introspect_token = (\<lambda>t h. (Inr (JObj [(''active'', JBool True), (''sub'', JStr ''k1''), (''client_id'', JStr ''hc'')]), h)),
      fh_verify_client_credentials = (\<lambda>i secret h. (Inr (secret = ''s''), h)), fh_revoke = (\<lambda>form h. (Inr (), h)),
      fh_get_json = (\<lambda>url h. (Inr JNull, h)), fh_public_join = Inr\<rparr>"

type_synonym front_type = "(fga_tuple list, (string \<times> json) list, unit) ory_world"

definition front_state :: "((string \<times> json) list, unit, front_type) oauth2_state" where
  "front_state =
     \<lparr>os_hydra = sample_front, os_kratos = None, os_entitlements = openfga sample_backend, os_public_base_url = ''https://sso'', os_token_cache = True,
      os_system_tenant_id = ''S'', os_dynamic_client_registration_enabled = True, os_force_email_claim_client_ids = [],
      os_matrix_email_claim_enabled = True, os_matrix_offline_access_enabled = True, os_dcr_unused_registration_ttl = 7,
      os_crypto = \<lparr>c_sha256_hex = id, c_hmac = (\<lambda>_ s. s), c_hkdf = (\<lambda>_ s. s), c_b64url = id, c_b64url_decode = Some, c_claims_json = (\<lambda>_. []),
        c_claims_parse = (\<lambda>_. None)\<rparr>,
      os_parse_url = (\<lambda>s. Inr \<lparr>pu_scheme = takeWhile (\<lambda>c. c \<noteq> CHR '':'') s, pu_host = Some (Domain ''app'')\<rparr>), os_parse_json = (\<lambda>_. None),
      os_b64_decode = Some, os_show_error = (\<lambda>_. []), os_iter = id\<rparr>"

definition front_db :: database where
  "front_db = consent_db\<lparr>tenants := tenants consent_db @ [\<lparr>tn_id = ''S'', tn_slug = ''system'', tn_display_name = ''S'', tn_is_system = True,
     tn_settings = JObj [], tn_created_at = 0\<rparr>]\<rparr>"

definition front_world :: front_type where
  "front_world = fga_world.extend ((provisioned_world [])\<lparr>pg_db := front_db\<rparr>)
     \<lparr>ow_hydra = [(''hc'', JObj [(''client_id'', JStr ''hc''), (''scope'', JStr ''openid'')])], ow_kratos = ()\<rparr>"

definition basic_headers :: header_map where
  "basic_headers = \<lparr>h_get = (\<lambda>k. if k = ''authorization'' then Some ''Basic pub:s'' else None), h_all = (\<lambda>_. [])\<rparr>"

definition no_headers :: header_map where
  "no_headers = \<lparr>h_get = (\<lambda>_. None), h_all = (\<lambda>_. [])\<rparr>"

definition matrix_registration :: json where
  "matrix_registration = JObj [(''scope'', JStr ''urn:matrix:client:''), (''grant_types'', json_strings [''client_credentials''])]"

lemma front_simps [simp]:
  "scan_ok front_world" "pg_fault front_world = (\<lambda>_. None)" "pg_db front_world = front_db" "iter_ok front_state" "os_entitlements front_state = openfga sample_backend"
  by (simp_all add: front_world_def fga_world.defs provisioned_world_def quiet_pg_def pg.defs scan_ok_def iter_ok_def front_state_def)

lemma front_runs:
  "\<exists>r v. introspect front_state None basic_headers [(''token'', ''t'')] front_world = (Inr r, v)"
  "\<exists>r v. delete_registered_client front_state basic_headers ''pub'' front_world = (Inr r, v)"
  "\<exists>r v. client_post front_state basic_headers [(''client_id'', ''x''), (''grant_type'', ''client_credentials'')] (fh_token sample_front) front_world = (Inr r, v)"
  "\<exists>r v. authorize front_state no_headers [(''client_id'', ''pub''), (''scope'', ''urn:matrix:client:'')] front_world = (Inr r, v)"
proof -
  have run: "\<exists>r v. m w = (Inr r, v)" if "\<not> isl (fst (m w))" for m w
    using that by (cases "m w"; cases "fst (m w)") auto
  show "\<exists>r v. introspect front_state None basic_headers [(''token'', ''t'')] front_world = (Inr r, v)"
    by (rule run) code_simp
  show "\<exists>r v. delete_registered_client front_state basic_headers ''pub'' front_world = (Inr r, v)"
    by (rule run) code_simp
  show "\<exists>r v. client_post front_state basic_headers [(''client_id'', ''x''), (''grant_type'', ''client_credentials'')] (fh_token sample_front) front_world = (Inr r, v)"
    by (rule run) code_simp
  show "\<exists>r v. authorize front_state no_headers [(''client_id'', ''pub''), (''scope'', ''urn:matrix:client:'')] front_world = (Inr r, v)"
    by (rule run) code_simp
qed

theorem introspect_authorized_witness:
  "\<exists>ory_id h h'. names_client front_state front_world ''pub'' ory_id
     \<and> fh_verify_client_credentials (os_hydra front_state) ory_id ''s'' h = (Inr True, h')"
proof -
  obtain r v where run: "introspect front_state None basic_headers [(''token'', ''t'')] front_world = (Inr r, v)" using front_runs(1) by blast
  have "basic_auth_credentials (os_b64_decode front_state) basic_headers = Some (''pub'', ''s'')" by code_simp
  then show ?thesis using introspect_authorized [OF front_simps(1) run] by simp
qed

theorem introspection_names_tenant_witness:
  "\<exists>r v t. introspect front_state None basic_headers [(''token'', ''t'')] front_world = (Inr r, v) \<and> map_of [(''token'', ''t'')] ''token'' = Some t"
proof -
  obtain r v where run: "introspect front_state None basic_headers [(''token'', ''t'')] front_world = (Inr r, v)" using front_runs(1) by blast
  show ?thesis using introspection_names_tenant [OF front_simps(1) run] run by blast
qed

theorem delete_needs_secret_witness:
  "\<exists>r v secret. delete_registered_client front_state basic_headers ''pub'' front_world = (Inr r, v) \<and> re_status r = 204
     \<and> basic_auth_credentials (os_b64_decode front_state) basic_headers = Some (''pub'', secret)"
proof -
  obtain r v where run: "delete_registered_client front_state basic_headers ''pub'' front_world = (Inr r, v)" using front_runs(2) by blast
  show ?thesis using delete_needs_secret [OF front_simps(1) run] run by blast
qed

theorem forwarded_form_witness:
  "\<exists>ory_id q credentials h x h'. names_client front_state front_world ''pub'' ory_id \<and> fh_token sample_front q credentials h = (Inr x, h')
     \<and> credentials = Some (ory_id, ''s'') \<and> map_of q ''grant_type'' = Some ''client_credentials'' \<and> map_of q ''client_id'' = Some ory_id"
proof -
  obtain r v where run: "client_post front_state basic_headers [(''client_id'', ''x''), (''grant_type'', ''client_credentials'')] (fh_token sample_front)
      front_world = (Inr r, v)" using front_runs(3) by blast
  have "basic_auth_credentials (os_b64_decode front_state) basic_headers = Some (''pub'', ''s'')" by code_simp
  moreover have "distinct (map fst [(''client_id'', ''x''), (''grant_type'', ''client_credentials'')])" by simp
  ultimately obtain ory_id q credentials h x where names: "names_client front_state front_world ''pub'' ory_id"
    and x: "fh_token sample_front q credentials h = (Inr x, ow_hydra v)" "credentials = Some (ory_id, ''s'')"
    and q: "map_of q = (map_of [(''client_id'', ''x''), (''grant_type'', ''client_credentials'')])(''client_secret'' := None, ''client_id'' \<mapsto> ory_id)"
    using forwarded_form [OF front_simps(1) front_simps(4) _ run] by auto
  show ?thesis by (rule exI [of _ ory_id], rule exI [of _ q], rule exI [of _ credentials], rule exI [of _ h], rule exI [of _ x], rule exI [of _ "ow_hydra v"])
    (intro conjI names x; simp add: q)
qed


text \<open>The registration of a Matrix client with the grant \<^verbatim>\<open>client_credentials\<close>.\<close>

definition matrix_world :: front_type where
  "matrix_world = snd (register front_state None matrix_registration front_world)"

lemma matrix_registered:
  "id_mappings (pg_db matrix_world) = id_mappings front_db @ [\<lparr>im_id = ''00'', im_tenant_id = ''S'', im_backend = ''hydra'', im_public_id = ''0'',
     im_ory_global_id = ''0'', im_created_at = 0\<rparr>]"
  "\<not> isl (fst (register front_state None matrix_registration front_world))"
  by code_simp+

lemma matrix_run: "\<exists>r. register front_state None matrix_registration front_world = (Inr r, matrix_world)"
  using matrix_registered(2) by (cases "fst (register front_state None matrix_registration front_world)") (auto simp: matrix_world_def prod_eq_iff)

lemma framed_register:
  assumes "framed I" and "\<And>m :: ('h, ory_error, json) io. keeps I (hydra_op m)"
  shows "keeps I (register (st :: ('f, 'h, 'k, 'z) oauth2_impl) auth body)"
  unfolding register_def hydra_web_def id_mapping_create_def Let_def by (intro framed_rules assms keeps_now_utc)

lemma matrix_world_quiet: "pg_fault matrix_world = (\<lambda>_. None)" "scan_ok matrix_world"
  unfolding matrix_world_def
  by (rule keepsD_snd [OF framed_register [OF framed_const(1)]] keepsD_snd [OF framed_register [OF scan_ok_framed keeps_scan_hydra]];
      simp add: keeps_def hydra_op_def split: prod.splits)+

theorem registration_capped_witness:
  "\<exists>m i created h. hy_create_oauth2_client (os_hydra front_state) (registration_payload m i) (ow_hydra front_world) = (Inr created, h)
     \<and> (\<exists>row. id_mappings (pg_db matrix_world) = id_mappings front_db @ [row] \<and> im_tenant_id row = ''S'' \<and> im_public_id row = i)"
proof -
  obtain r where run: "register front_state None matrix_registration front_world = (Inr r, matrix_world)" using matrix_run by blast
  have "owner_tenant front_state None = ''S''" by (simp add: owner_tenant_def front_state_def)
  then show ?thesis using registration_capped [OF run] by (simp only: front_simps) blast
qed

theorem anonymous_matrix_registration_witness:
  "\<exists>m i created h ory_id. hy_create_oauth2_client (os_hydra front_state) (registration_payload m i) (ow_hydra front_world) = (Inr created, h)
     \<and> cm_scope m = ''*'' \<and> ''client_credentials'' \<in> set (cm_grant_types m)
     \<and> fst (resolve_subject get_tenant_id_by_ory_id get_public_id_by_ory_id ory_id matrix_world) = Inr (''S'', i, Hydra)"
proof -
  obtain r where run: "register front_state None matrix_registration front_world = (Inr r, matrix_world)" using matrix_run by blast
  have scope: "''urn:matrix:client:'' \<in> set (split_whitespace (text_at matrix_registration ''scope''))" "is_matrix_scope ''urn:matrix:client:''"
    by code_simp+
  have grants: "''client_credentials'' \<in> set (json_string_array (json_index matrix_registration ''grant_types''))" by code_simp
  have "key_unique (\<lambda>x. (im_backend x, im_ory_global_id x)) (id_mappings (pg_db matrix_world))"
    by (simp add: matrix_registered key_unique_def front_db_def consent_db_def)
  from anonymous_matrix_registration [OF run scope matrix_world_quiet this] grants show ?thesis
    by (auto simp: front_state_def)
qed

definition healed_world :: front_type where
  "healed_world = snd (token front_state no_headers [(''client_id'', ''hc'')] front_world)"



end
