(* ===== verification/DcrMaintenance.thy ===== *)
theory DcrMaintenance
  imports AgentStores OAuth2Handlers
begin

text \<open>
  The upkeep of dynamically registered clients, \<^verbatim>\<open>services/dcr_maintenance.rs\<close>: at startup every mapped Hydra client
  without an application row gets one, and entitlements if it has none; a daily run deletes registrations that are
  older than a time to live and have neither a row nor entitlements. The messages of errors, which are only logged, are
  constructors here.
\<close>

section \<open>State and outcomes\<close>

record backfill_stats =
  bk_checked :: nat
  bk_seeded :: nat
  bk_rows_created :: nat
  bk_skipped_existing_rows :: nat
  bk_skipped_agents :: nat
  bk_errors :: nat

record reap_stats =
  rp_checked :: nat
  rp_reaped :: nat
  rp_skipped_young :: nat
  rp_skipped_existing_rows :: nat
  rp_skipped_agents :: nat
  rp_skipped_now_in_use :: nat
  rp_errors :: nat

datatype backfill_outcome = BackfillExistingRow | BackfillAgent | Seeded | RowOnly

datatype reap_outcome = Reaped | Young | ReapExistingRow | ReapAgent | NowInUse

datatype maintenance_error =
    TupleRead service_error
  | EntitlementSeed service_error
  | RowCreate db_error
  | RowLookup db_error
  | AgentLookup db_error
  | HydraDelete ory_error
  | MappingDelete db_error

text \<open>The time to live is a \<^verbatim>\<open>std::time::Duration\<close>, here in nanoseconds.\<close>

record ('h, 's) dcr_maintenance =
  dm_hydra :: "'h front_hydra"
  dm_entitlements :: "'s permission_backend"
  dm_default_groups :: "string list"
  dm_ttl :: int

type_synonym ('f, 'h, 'k, 'z) dcr_impl = "('h, ('f, 'h, 'k, 'z) ory_world_scheme) dcr_maintenance"
type_synonym ('f, 'h, 'k, 'z, 'a) upkeep = "(('f, 'h, 'k, 'z) ory_world_scheme, maintenance_error, 'a) io"

section \<open>Backfill\<close>

definition application_row_exists :: "string \<Rightarrow> string \<Rightarrow> ('z pg_scheme, maintenance_error, bool) io" where
  "application_row_exists tenant_id public_id =
     attempt (application_get tenant_id public_id) (\<lambda>r. case r of
         Inr _ \<Rightarrow> ret True
       | Inl e \<Rightarrow> if e = ApplicationNotFound then ret False else raise (RowLookup e))"

definition is_agent :: "string \<Rightarrow> ('z pg_scheme, maintenance_error, bool) io" where
  "is_agent public_id =
     attempt (agent_get_status public_id) (\<lambda>r. case r of
         Inr _ \<Rightarrow> ret True
       | Inl e \<Rightarrow> if e = AgentNotFound then ret False else raise (AgentLookup e))"

definition ensure_legacy_row :: "string \<Rightarrow> string \<Rightarrow> ('z pg_scheme, maintenance_error, unit) io" where
  "ensure_legacy_row tenant_id public_id =
     attempt (application_create tenant_id public_id False registration_source_dcr) (\<lambda>r. case r of
         Inr _ \<Rightarrow> ret ()
       | Inl e \<Rightarrow> bindE (application_row_exists tenant_id public_id) (\<lambda>found. if found then ret () else raise (RowCreate e)))"

definition backfill_client :: "('f, 'h, 'k, 'z) dcr_impl \<Rightarrow> string \<Rightarrow> string \<Rightarrow> ('f, 'h, 'k, 'z, backfill_outcome) upkeep" where
  "backfill_client dm tenant_id public_id =
     bindE (application_row_exists tenant_id public_id) (\<lambda>found. if found then ret BackfillExistingRow else
     bindE (is_agent public_id) (\<lambda>agent. if agent then ret BackfillAgent else
     bindE (map_err TupleRead (has_any_tuples (dm_entitlements dm) tenant_id public_id)) (\<lambda>tuples.
     bindE (if tuples then ret ()
            else map_err EntitlementSeed (seed_application (dm_entitlements dm) tenant_id public_id (dm_default_groups dm))) (\<lambda>_.
     bindE (ensure_legacy_row tenant_id public_id) (\<lambda>_.
     ret (if tuples then RowOnly else Seeded))))))"

fun count_backfill :: "maintenance_error + backfill_outcome \<Rightarrow> backfill_stats \<Rightarrow> backfill_stats" where
  "count_backfill (Inr BackfillExistingRow) st = st\<lparr>bk_skipped_existing_rows := Suc (bk_skipped_existing_rows st)\<rparr>"
| "count_backfill (Inr BackfillAgent) st = st\<lparr>bk_skipped_agents := Suc (bk_skipped_agents st)\<rparr>"
| "count_backfill (Inr Seeded) st = st\<lparr>bk_seeded := Suc (bk_seeded st), bk_rows_created := Suc (bk_rows_created st)\<rparr>"
| "count_backfill (Inr RowOnly) st = st\<lparr>bk_rows_created := Suc (bk_rows_created st)\<rparr>"
| "count_backfill (Inl e) st = st\<lparr>bk_errors := Suc (bk_errors st)\<rparr>"

fun backfill_clients ::
  "('f, 'h, 'k, 'z) dcr_impl \<Rightarrow> string \<Rightarrow> string list \<Rightarrow> backfill_stats \<Rightarrow> ('f, 'h, 'k, 'z, backfill_stats) upkeep" where
  "backfill_clients dm tenant_id [] st = ret st"
| "backfill_clients dm tenant_id (public_id # ids) st =
     attempt (backfill_client dm tenant_id public_id) (\<lambda>r.
       backfill_clients dm tenant_id ids (count_backfill r (st\<lparr>bk_checked := Suc (bk_checked st)\<rparr>)))"

fun backfill_tenants ::
  "('f, 'h, 'k, 'z) dcr_impl \<Rightarrow> tenant_row list \<Rightarrow> backfill_stats \<Rightarrow> ('f, 'h, 'k, 'z, backfill_stats) upkeep" where
  "backfill_tenants dm [] st = ret st"
| "backfill_tenants dm (tenant # ts) st =
     attempt (list_public_ids (tn_id tenant) ''hydra'') (\<lambda>r. case r of
         Inl _ \<Rightarrow> backfill_tenants dm ts (st\<lparr>bk_errors := Suc (bk_errors st)\<rparr>)
       | Inr ids \<Rightarrow> bindE (backfill_clients dm (tn_id tenant) ids st) (backfill_tenants dm ts))"

definition no_backfill :: backfill_stats where
  "no_backfill = \<lparr>bk_checked = 0, bk_seeded = 0, bk_rows_created = 0, bk_skipped_existing_rows = 0, bk_skipped_agents = 0, bk_errors = 0\<rparr>"

definition backfill_legacy_dcr_clients :: "('f, 'h, 'k, 'z) dcr_impl \<Rightarrow> ('f, 'h, 'k, 'z, backfill_stats) upkeep" where
  "backfill_legacy_dcr_clients dm =
     attempt tenant_list (\<lambda>r. case r of
         Inl _ \<Rightarrow> ret (no_backfill\<lparr>bk_errors := 1\<rparr>)
       | Inr ts \<Rightarrow> backfill_tenants dm ts no_backfill)"

section \<open>Garbage collection\<close>

definition reap_registration :: "('f, 'h, 'k, 'z) dcr_impl \<Rightarrow> string \<Rightarrow> id_mapping_row \<Rightarrow> ('f, 'h, 'k, 'z, reap_outcome) upkeep" where
  "reap_registration dm tenant_id row =
     bindE now_utc (\<lambda>now.
     if now - im_created_at row < dm_ttl dm then ret Young else
     bindE (application_row_exists tenant_id (im_public_id row)) (\<lambda>found. if found then ret ReapExistingRow else
     bindE (is_agent (im_public_id row)) (\<lambda>agent. if agent then ret ReapAgent else
     bindE (bindE (map_err TupleRead (has_any_tuples (dm_entitlements dm) tenant_id (im_public_id row))) (\<lambda>tuples.
            if tuples then ret True else application_row_exists tenant_id (im_public_id row))) (\<lambda>in_use. if in_use then ret NowInUse else
     bindE (attempt (hydra_op (hy_delete_oauth2_client (dm_hydra dm) (im_ory_global_id row))) (\<lambda>r. case r of
                Inr _ \<Rightarrow> ret ()
              | Inl e \<Rightarrow> if is_not_found e then ret () else raise (HydraDelete e))) (\<lambda>_.
     bindE (attempt (id_mapping_delete tenant_id ''hydra'' (im_public_id row)) (\<lambda>r. case r of
                Inr _ \<Rightarrow> ret ()
              | Inl e \<Rightarrow> if e = MappingNotFound then ret () else raise (MappingDelete e))) (\<lambda>_.
     ret Reaped))))))"

fun count_reap :: "maintenance_error + reap_outcome \<Rightarrow> reap_stats \<Rightarrow> reap_stats" where
  "count_reap (Inr Reaped) st = st\<lparr>rp_reaped := Suc (rp_reaped st)\<rparr>"
| "count_reap (Inr Young) st = st\<lparr>rp_skipped_young := Suc (rp_skipped_young st)\<rparr>"
| "count_reap (Inr ReapExistingRow) st = st\<lparr>rp_skipped_existing_rows := Suc (rp_skipped_existing_rows st)\<rparr>"
| "count_reap (Inr ReapAgent) st = st\<lparr>rp_skipped_agents := Suc (rp_skipped_agents st)\<rparr>"
| "count_reap (Inr NowInUse) st = st\<lparr>rp_skipped_now_in_use := Suc (rp_skipped_now_in_use st)\<rparr>"
| "count_reap (Inl e) st = st\<lparr>rp_errors := Suc (rp_errors st)\<rparr>"

fun reap_rows ::
  "('f, 'h, 'k, 'z) dcr_impl \<Rightarrow> string \<Rightarrow> id_mapping_row list \<Rightarrow> reap_stats \<Rightarrow> ('f, 'h, 'k, 'z, reap_stats) upkeep" where
  "reap_rows dm tenant_id [] st = ret st"
| "reap_rows dm tenant_id (row # rows) st =
     attempt (reap_registration dm tenant_id row) (\<lambda>r.
       reap_rows dm tenant_id rows (count_reap r (st\<lparr>rp_checked := Suc (rp_checked st)\<rparr>)))"

fun reap_tenants :: "('f, 'h, 'k, 'z) dcr_impl \<Rightarrow> tenant_row list \<Rightarrow> reap_stats \<Rightarrow> ('f, 'h, 'k, 'z, reap_stats) upkeep" where
  "reap_tenants dm [] st = ret st"
| "reap_tenants dm (tenant # ts) st =
     attempt (list_mappings (tn_id tenant) ''hydra'') (\<lambda>r. case r of
         Inl _ \<Rightarrow> reap_tenants dm ts (st\<lparr>rp_errors := Suc (rp_errors st)\<rparr>)
       | Inr rows \<Rightarrow> bindE (reap_rows dm (tn_id tenant) rows st) (reap_tenants dm ts))"

definition no_reap :: reap_stats where
  "no_reap = \<lparr>rp_checked = 0, rp_reaped = 0, rp_skipped_young = 0, rp_skipped_existing_rows = 0, rp_skipped_agents = 0,
     rp_skipped_now_in_use = 0, rp_errors = 0\<rparr>"

text \<open>\<^verbatim>\<open>time::Duration::try_from\<close> fails where the seconds exceed an \<^verbatim>\<open>i64\<close>.\<close>

definition ttl_ok :: "int \<Rightarrow> bool" where
  "ttl_ok ttl \<longleftrightarrow> ttl div nanos_per_second < 2 ^ 63"

definition reap_unused_registrations :: "('f, 'h, 'k, 'z) dcr_impl \<Rightarrow> ('f, 'h, 'k, 'z, reap_stats) upkeep" where
  "reap_unused_registrations dm =
     (if \<not> ttl_ok (dm_ttl dm) then ret (no_reap\<lparr>rp_errors := 1\<rparr>)
      else attempt tenant_list (\<lambda>r. case r of
          Inl _ \<Rightarrow> ret (no_reap\<lparr>rp_errors := 1\<rparr>)
        | Inr ts \<Rightarrow> reap_tenants dm ts no_reap))"

section \<open>What is collected\<close>

text \<open>A registration that may be collected, as the database is when the run starts.\<close>

definition collectable :: "database \<Rightarrow> instant \<Rightarrow> int \<Rightarrow> id_mapping_row \<Rightarrow> bool" where
  "collectable db now ttl m \<longleftrightarrow> im_backend m = ''hydra'' \<and> ttl \<le> now - im_created_at m
     \<and> (\<forall>a \<in> set (applications db). \<not> (ap_tenant_id a = im_tenant_id m \<and> ap_public_id a = im_public_id m))
     \<and> (\<forall>g \<in> set (agents db). ag_id g \<noteq> im_public_id m)"

text \<open>What a run, begun in \<open>db\<close>, has left of it.\<close>

definition collected :: "database \<Rightarrow> instant \<Rightarrow> int \<Rightarrow> database \<Rightarrow> bool" where
  "collected db now ttl cur \<longleftrightarrow>
     set (id_mappings cur) \<subseteq> set (id_mappings db) \<and> set (applications cur) \<subseteq> set (applications db) \<and> agents cur = agents db
     \<and> (\<forall>m \<in> set (id_mappings db) - set (id_mappings cur). collectable db now ttl m)
     \<and> (\<forall>a \<in> set (applications db) - set (applications cur). \<exists>m \<in> set (id_mappings db) - set (id_mappings cur). im_public_id m = ap_public_id a)"

definition no_row :: "string \<Rightarrow> string \<Rightarrow> database \<Rightarrow> bool" where
  "no_row tenant_id public_id db \<longleftrightarrow> (\<forall>a \<in> set (applications db). \<not> (ap_tenant_id a = tenant_id \<and> ap_public_id a = public_id))"

lemma collectedD:
  assumes "collected db now ttl cur"
  shows "set (id_mappings cur) \<subseteq> set (id_mappings db)" and "set (applications cur) \<subseteq> set (applications db)" and "agents cur = agents db"
    and "\<forall>m \<in> set (id_mappings db) - set (id_mappings cur). collectable db now ttl m"
    and "\<forall>a \<in> set (applications db) - set (applications cur). \<exists>m \<in> set (id_mappings db) - set (id_mappings cur). im_public_id m = ap_public_id a"
  using assms by (simp_all add: collected_def)

lemma collected_delete:
  assumes uniq: "key_unique im_public_id (id_mappings db)" and c: "collected db now ttl cur"
    and row: "row \<in> set (id_mappings db)" "im_tenant_id row = t" "im_backend row = ''hydra''" "ttl \<le> now - im_created_at row"
    and none: "no_row t (im_public_id row) cur" "\<forall>g \<in> set (agents db). ag_id g \<noteq> im_public_id row"
  shows "collected db now ttl (snd (id_mapping_delete_stmt t ''hydra'' (im_public_id row) clock cur))"
proof -
  let ?hit = "\<lambda>r. im_tenant_id r = t \<and> im_backend r = ''hydra'' \<and> im_public_id r = im_public_id row"
  have only: "m = row" if "m \<in> set (id_mappings db)" "im_public_id m = im_public_id row" for m
    using key_uniqueD [OF uniq that(1) row(1)] that(2) by simp
  show ?thesis
  proof (cases "row \<in> set (id_mappings cur)")
    case False
    then have "filter ?hit (id_mappings cur) = []" using only collectedD(1) [OF c] by (auto simp: filter_empty_conv)
    then show ?thesis using c by (simp add: id_mapping_delete_stmt_def Let_def)
  next
    case True
    have app: "a \<in> set (applications cur)" if "a \<in> set (applications db)" "ap_public_id a = im_public_id row" for a
    proof (rule ccontr)
      assume "a \<notin> set (applications cur)"
      then have "a \<in> set (applications db) - set (applications cur)" using that(1) by simp
      then obtain m where "m \<in> set (id_mappings db) - set (id_mappings cur)" "im_public_id m = ap_public_id a"
        by (rule bexE [OF bspec [OF collectedD(5) [OF c]]])
      then show False using only [of m] that(2) True by auto
    qed
    then have ok: "collectable db now ttl row" using row none by (auto simp: collectable_def no_row_def)
    have hits: "set (filter ?hit (id_mappings cur)) = {row}" using True row only collectedD(1) [OF c] by auto
    have ne: "filter ?hit (id_mappings cur) \<noteq> []" using hits by (metis empty_set insert_not_empty)
    have maps: "set (id_mappings (snd (id_mapping_delete_stmt t ''hydra'' (im_public_id row) clock cur))) = set (id_mappings cur) - {row}"
      "applications (snd (id_mapping_delete_stmt t ''hydra'' (im_public_id row) clock cur)) = filter (\<lambda>a. ap_public_id a \<noteq> im_public_id row) (applications cur)"
      "agents (snd (id_mapping_delete_stmt t ''hydra'' (im_public_id row) clock cur)) = agents cur"
      using ne hits True row by (auto simp: id_mapping_delete_stmt_def Let_def filter_empty_conv)
    have "\<exists>m \<in> set (id_mappings db) - (set (id_mappings cur) - {row}). im_public_id m = ap_public_id a"
      if "a \<in> set (applications db) - {a \<in> set (applications cur). ap_public_id a \<noteq> im_public_id row}" for a
    proof (cases "a \<in> set (applications cur)")
      case True
      then show ?thesis using that row(1) by auto
    next
      case False
      then show ?thesis using that collectedD(5) [OF c] by blast
    qed
    then show ?thesis using collectedD(1-4) [OF c] ok unfolding collected_def maps set_filter by (intro conjI) blast+
  qed
qed

text \<open>The reads of a step, and what their answers say.\<close>

lemma keeps_db_checks:
  "keeps (\<lambda>w. J (pg_db w)) (application_row_exists t p)" "keeps (\<lambda>w. J (pg_db w)) (is_agent p)"
  "keeps (\<lambda>w. J (pg_db w)) (has_any_tuples (openfga b) t p)"
proof -
  note db = keeps_fga_call_db [where J = J] keeps_repo_db [where J = J]
  show "keeps (\<lambda>w. J (pg_db w)) (application_row_exists t p)" "keeps (\<lambda>w. J (pg_db w)) (is_agent p)"
    unfolding application_row_exists_def is_agent_def application_get_def agent_get_status_def by (intro keeps_rules keeps_pg_query [where J = J])+
  show "keeps (\<lambda>w. J (pg_db w)) (has_any_tuples (openfga b) t p)"
    unfolding has_any_tuples_def openfga_sel fga_read_tuples_def fga_def
    by (auto intro!: keeps_rules db keeps_backend_calls(4) split: permission_error.splits)
qed

lemma no_row_read: "application_row_exists t p w = (Inr False, v) \<Longrightarrow> no_row t p (pg_db v)"
  by (cases rule: pg_query_cases [of "\<lambda>now db. ok_or ApplicationNotFound (find (\<lambda>a. ap_tenant_id a = t \<and> ap_public_id a = p) (applications db))" w])
     (auto simp: application_row_exists_def application_get_def attempt_def ret_def raise_def no_row_def ok_or_def find_None_iff
       split: sum.splits option.splits if_splits)

lemma no_agent_read: "is_agent p w = (Inr False, v) \<Longrightarrow> \<forall>g \<in> set (agents (pg_db v)). ag_id g \<noteq> p"
  by (cases rule: pg_query_cases [of "\<lambda>now db. ok_or AgentNotFound (map_option ag_status (find (\<lambda>a. ag_id a = p) (agents db)))" w])
     (auto simp: is_agent_def agent_get_status_def attempt_def ret_def raise_def ok_or_def find_None_iff split: sum.splits option.splits if_splits)

lemma framed_checks:
  assumes I: "framed I"
  shows "keeps I (application_row_exists t p)" and "keeps I (is_agent p)" and "keeps I (has_any_tuples (openfga b) t p)"
proof -
  show "keeps I (application_row_exists t p)" "keeps I (is_agent p)"
    unfolding application_row_exists_def is_agent_def application_get_def agent_get_status_def by (intro framed_rules I)+
  have get: "keeps I (pg_repo_get t ns)" and res: "keeps I (resolve_mapping t ns)" for t ns
    unfolding resolve_mapping_def pg_repo_get_def pg_repo_get_by_type_def pg_namespace_get_by_type_def pg_namespace_get_def Let_def
    by (auto intro!: framed_rules I split: option.splits)
  show "keeps I (has_any_tuples (openfga b) t p)"
    unfolding has_any_tuples_def openfga_sel fga_read_tuples_def fga_def
    by (auto intro!: keeps_rules get res framed_call I keeps_backend_calls(4) split: permission_error.splits)
qed

text \<open>A predicate of the database and of the clock, and the operations that keep every such predicate.\<close>

abbreviation at_clock :: "instant \<Rightarrow> (database \<Rightarrow> bool) \<Rightarrow> 'z pg_scheme \<Rightarrow> bool" where
  "at_clock n J w \<equiv> J (pg_db w) \<and> pg_now w = n"

lemma clock_checks:
  "keeps (at_clock n J) (application_row_exists t p :: (('f, 'h, 'k, 'z) ory_world_scheme, maintenance_error, bool) io)"
  "keeps (at_clock n J) (is_agent p :: (('f, 'h, 'k, 'z) ory_world_scheme, maintenance_error, bool) io)"
  "keeps (at_clock n J) (has_any_tuples (openfga b) t p :: (('f, 'h, 'k, 'z) ory_world_scheme, service_error, bool) io)"
  by (intro keeps_conj keeps_db_checks framed_checks framed_const(5))+

lemma clock_hydra: "keeps (at_clock n J) (hydra_op m)"
  by (simp add: keeps_def hydra_op_def split: prod.splits)

lemma clock_exec: "stmt_keeps J st \<Longrightarrow> keeps (at_clock n J) (pg_exec st :: (('f, 'z) fga_world_scheme, db_error, 'a) io)"
  by (intro keeps_conj keeps_pg_exec framed_exec framed_const(5))

lemma reap_tail:
  assumes uniq: "key_unique im_public_id (id_mappings db)" and row: "row \<in> set (id_mappings db)" "im_tenant_id row = t" "im_backend row = ''hydra''"
    and old: "ttl \<le> n - im_created_at row" and agent: "\<forall>g \<in> set (agents db). ag_id g \<noteq> im_public_id row"
  shows "keeps (at_clock n (\<lambda>cur. collected db n ttl cur \<and> no_row t (im_public_id row) cur))
    (id_mapping_delete t ''hydra'' (im_public_id row) :: (('f, 'h, 'k, 'z) ory_world_scheme, db_error, unit) io)"
  unfolding id_mapping_delete_def
proof (intro clock_exec stmt_keepsI conjI)
  fix clock cur
  assume c: "collected db n ttl cur \<and> no_row t (im_public_id row) cur"
  then show "collected db n ttl (snd (id_mapping_delete_stmt t ''hydra'' (im_public_id row) clock cur))"
    using collected_delete [OF uniq _ row old _ agent] by blast
  show "no_row t (im_public_id row) (snd (id_mapping_delete_stmt t ''hydra'' (im_public_id row) clock cur))"
    using c by (auto simp: id_mapping_delete_stmt_def Let_def no_row_def)
qed

lemma reap_step:
  assumes uniq: "key_unique im_public_id (id_mappings db)" and ent: "dm_entitlements dm = openfga b"
    and row: "row \<in> set (id_mappings db)" "im_tenant_id row = t" "im_backend row = ''hydra''"
  shows "keeps (at_clock n (collected db n (dm_ttl dm))) (reap_registration dm t row)"
proof -
  let ?I = "at_clock n (collected db n (dm_ttl dm))" and ?p = "im_public_id row"
  let ?N = "no_row t ?p"
  let ?tail = "bindE (attempt (hydra_op (hy_delete_oauth2_client (dm_hydra dm) (im_ory_global_id row))) (\<lambda>r. case r of
                Inr _ \<Rightarrow> ret ()
              | Inl e \<Rightarrow> if is_not_found e then ret () else raise (HydraDelete e))) (\<lambda>_.
     bindE (attempt (id_mapping_delete t ''hydra'' ?p) (\<lambda>r. case r of
                Inr _ \<Rightarrow> ret ()
              | Inl e \<Rightarrow> if e = MappingNotFound then ret () else raise (MappingDelete e))) (\<lambda>_.
     ret Reaped))"
  let ?use = "bindE (map_err TupleRead (has_any_tuples (dm_entitlements dm) t ?p)) (\<lambda>tuples.
            if tuples then ret True else application_row_exists t ?p)"
  have use: "keeps ?I (bindE ?use (\<lambda>in_use. if in_use then ret NowInUse else ?tail))"
    if "dm_ttl dm \<le> n - im_created_at row" "\<forall>g \<in> set (agents db). ag_id g \<noteq> ?p"
  proof (rule keeps_bindE_post [where Q = "\<lambda>in_use w. \<not> in_use \<longrightarrow> ?N (pg_db w)"])
    show "keeps ?I ?use" unfolding ent by (intro keeps_rules clock_checks)
    show "?use s = (Inr in_use, v) \<Longrightarrow> \<not> in_use \<longrightarrow> ?N (pg_db v)" for s in_use v
      by (auto simp: run_simps dest: no_row_read split: if_splits)
    have "keeps (at_clock n (\<lambda>cur. collected db n (dm_ttl dm) cur \<and> ?N cur)) ?tail"
      by (intro keeps_rules clock_hydra reap_tail [OF uniq row that])
    then show "keeps (\<lambda>s. ?I s \<and> (\<not> in_use \<longrightarrow> ?N (pg_db s))) (if in_use then ret NowInUse else ?tail)" for in_use
      by (cases in_use) (auto simp: keeps_def ret_def)
  qed
  have agent: "keeps ?I (bindE (is_agent ?p) (\<lambda>agent. if agent then ret ReapAgent else bindE ?use (\<lambda>in_use. if in_use then ret NowInUse else ?tail)))"
    if "dm_ttl dm \<le> n - im_created_at row"
  proof (rule keeps_bindE_post [where Q = "\<lambda>agent w. \<not> agent \<longrightarrow> (\<forall>g \<in> set (agents db). ag_id g \<noteq> ?p)"], goal_cases)
    case 1
    show ?case by (rule clock_checks)
  next
    case (2 s agent v)
    then have "agents (pg_db v) = agents db" using keepsD [OF clock_checks(2) [where n = n and J = "collected db n (dm_ttl dm)"] 2] collectedD(3) by blast
    then show ?case using no_agent_read 2(2) by (cases agent) fastforce+
  next
    case (3 agent)
    show ?case using use [OF that] by (cases agent) (auto simp: keeps_def ret_def)
  qed
  show ?thesis
    unfolding reap_registration_def
  proof (rule keeps_bindE_post [where Q = "\<lambda>now w. now = n"])
    show "keeps ?I now_utc" by (rule keeps_now_utc)
    show "?I s \<Longrightarrow> now_utc s = (Inr now, v) \<Longrightarrow> now = n" for s now v by (auto simp: now_utc_def run_simps)
    fix now
    have "keeps ?I (if n - im_created_at row < dm_ttl dm then ret Young else
       bindE (application_row_exists t ?p) (\<lambda>found. if found then ret ReapExistingRow else
       bindE (is_agent ?p) (\<lambda>agent. if agent then ret ReapAgent else bindE ?use (\<lambda>in_use. if in_use then ret NowInUse else ?tail))))"
      by (intro keeps_rules clock_checks agent) simp
    then show "keeps (\<lambda>s. ?I s \<and> now = n) (if now - im_created_at row < dm_ttl dm then ret Young else
       bindE (application_row_exists t ?p) (\<lambda>found. if found then ret ReapExistingRow else
       bindE (is_agent ?p) (\<lambda>agent. if agent then ret ReapAgent else bindE ?use (\<lambda>in_use. if in_use then ret NowInUse else ?tail))))"
      by (auto simp: keeps_def)
  qed
qed

lemma list_mappings_Inr:
  "list_mappings t b w = (Inr rows, v) \<Longrightarrow> row \<in> set rows \<Longrightarrow> row \<in> set (id_mappings (pg_db w)) \<and> im_tenant_id row = t \<and> im_backend row = b"
  by (auto simp: list_mappings_def dest!: pg_query_Inr)

lemma reap_rows_keeps:
  assumes "\<And>row. row \<in> set rows \<Longrightarrow> keeps I (reap_registration dm t row)"
  shows "keeps I (reap_rows dm t rows st)"
  using assms
proof (induction rows arbitrary: st)
  case (Cons row rows)
  then show ?case by (auto intro!: keeps_rules)
qed (auto intro: keeps_rules)

text \<open>
  \<^bold>\<open>C12.\<close> A mapping that is gone after a run of the collector was, when the run began, of a Hydra client, at least as old as the time to live,
  without an application row in its tenant and not of an agent; the run adds nothing to the mappings and the
  application rows, and an application row goes only with the mapping of its client.
\<close>

theorem reap_only_unused:
  assumes "key_unique im_public_id (id_mappings (pg_db w))" and "dm_entitlements dm = openfga b"
    and run: "reap_unused_registrations dm w = (r, v)"
  shows "collected (pg_db w) (pg_now w) (dm_ttl dm) (pg_db v)"
proof -
  let ?I = "at_clock (pg_now w) (collected (pg_db w) (pg_now w) (dm_ttl dm))"
  have start: "collected (pg_db w) (pg_now w) (dm_ttl dm) (pg_db w)" by (simp add: collected_def)
  have query: "keeps ?I (pg_query q :: (('f, 'h, 'k, 'z) ory_world_scheme, db_error, 'x) io)" for q
    unfolding pg_query_def by (rule clock_exec) (simp add: stmt_keeps_def)
  have tenants: "keeps ?I (reap_tenants dm ts st)" for ts st
  proof (induction ts arbitrary: st)
    case (Cons tenant ts)
    show ?case
      unfolding reap_tenants.simps
    proof (rule keepsI)
      fix s x u
      assume I: "?I s" and run: "attempt (list_mappings (tn_id tenant) ''hydra'') (\<lambda>r. case r of
           Inl _ \<Rightarrow> reap_tenants dm ts (st\<lparr>rp_errors := Suc (rp_errors st)\<rparr>)
         | Inr rows \<Rightarrow> bindE (reap_rows dm (tn_id tenant) rows st) (reap_tenants dm ts)) s = (x, u)"
      obtain y s' where y: "list_mappings (tn_id tenant) ''hydra'' s = (y, s')" by fastforce
      have s': "?I s'" by (rule keepsD [OF query I y [unfolded list_mappings_def]])
      show "?I u"
      proof (cases y)
        case (Inl e)
        then show ?thesis using run y keepsD [OF Cons.IH s'] by (simp add: attempt_def)
      next
        case (Inr rows)
        have "keeps ?I (reap_registration dm (tn_id tenant) row)" if "row \<in> set rows" for row
          using list_mappings_Inr [OF y [unfolded Inr] that] collectedD(1) [of "pg_db w" "pg_now w" "dm_ttl dm" "pg_db s"] I
          by (intro reap_step [OF assms(1,2)]) auto
        then have k: "keeps ?I (bindE (reap_rows dm (tn_id tenant) rows st) (reap_tenants dm ts))"
          by (intro keeps_rules reap_rows_keeps Cons.IH)
        show ?thesis using run y Inr keepsD [OF k s'] by (simp add: attempt_def)
      qed
    qed
  qed (auto intro: keeps_rules)
  have k: "keeps ?I (reap_unused_registrations dm)"
    unfolding reap_unused_registrations_def tenant_list_def by (intro keeps_rules query tenants)
  show ?thesis using keepsD [OF k _ run] start by blast
qed

section \<open>The backfill converges\<close>

lemma row_read: "application_row_exists t p w = (Inr True, v) \<Longrightarrow> \<not> no_row t p (pg_db v)"
  by (cases rule: pg_query_cases [of "\<lambda>now db. ok_or ApplicationNotFound (find (\<lambda>a. ap_tenant_id a = t \<and> ap_public_id a = p) (applications db))" w])
     (auto simp: application_row_exists_def application_get_def attempt_def ret_def raise_def no_row_def ok_or_def
       split: sum.splits option.splits if_splits dest!: find_SomeD)

lemma row_ensured: "ensure_legacy_row t p w = (Inr (), v) \<Longrightarrow> \<not> no_row t p (pg_db v)"
  by (auto simp: ensure_legacy_row_def run_simps no_row_def [of _ _ "applications_update _ _"] dest!: application_create_Inr row_read split: if_splits)

lemma row_stays:
  assumes "pg_fault v = (\<lambda>_. None)" and "\<not> no_row t p (pg_db v)"
  shows "application_row_exists t p v = (Inr True, v\<lparr>pg_queries := Suc (pg_queries v)\<rparr>)"
proof -
  have "find (\<lambda>a. ap_tenant_id a = t \<and> ap_public_id a = p) (applications (pg_db v)) \<noteq> None"
    using assms(2) by (auto simp: no_row_def find_None_iff)
  then show ?thesis
    using assms(1) by (auto simp: application_row_exists_def application_get_def attempt_def pg_query_no_fault ok_or_def ret_def)
qed

text \<open>
  A client that the backfill has dealt with is left alone by every later backfill: it finds the application row and
  touches neither the database nor the entitlements, so an entitlement that was revoked in between is not seeded again.
\<close>

theorem backfill_once:
  assumes run: "backfill_client dm t p w = (Inr outcome, v)" and "outcome \<noteq> BackfillAgent" and quiet: "pg_fault v = (\<lambda>_. None)"
  shows "backfill_client dm t p v = (Inr BackfillExistingRow, v\<lparr>pg_queries := Suc (pg_queries v)\<rparr>)"
proof -
  have "\<not> no_row t p (pg_db v)"
    using run assms(2) by (auto simp: backfill_client_def run_simps row_read row_ensured split: if_splits)
  then show ?thesis by (simp add: backfill_client_def bindE_def row_stays [OF quiet] ret_def)
qed

section \<open>Client credentials\<close>

definition credential_request :: client_credential_request where
  "credential_request = \<lparr>cq_id = [], cq_name = ''machine'', cq_scope = [''identity:read''], cq_token_endpoint_auth_method = []\<rparr>"

definition sample_maintenance :: "((string \<times> json) list, front_type) dcr_maintenance" where
  "sample_maintenance = \<lparr>dm_hydra = sample_front, dm_entitlements = openfga sample_backend, dm_default_groups = [], dm_ttl = 604800 * nanos_per_second\<rparr>"

definition credential_world :: front_type where
  "credential_world = snd (create_client_credential list_hydra application_ctx credential_request application_world)"

definition week_later :: front_type where
  "week_later = credential_world\<lparr>pg_now := 604800 * nanos_per_second\<rparr>"


section \<open>Witnesses\<close>

theorem reap_only_unused_witness:
  "collected (pg_db week_later) (pg_now week_later) (604800 * nanos_per_second) (pg_db (snd (reap_unused_registrations sample_maintenance week_later)))"
proof -
  have uniq: "key_unique im_public_id (id_mappings (pg_db week_later))" by code_simp
  have ent: "dm_entitlements sample_maintenance = openfga sample_backend" by (simp add: sample_maintenance_def)
  have "dm_ttl sample_maintenance = 604800 * nanos_per_second" by (simp add: sample_maintenance_def)
  with reap_only_unused [OF uniq ent prod.collapse [symmetric]] show ?thesis by simp
qed

definition seeded_world :: front_type where
  "seeded_world = snd (backfill_client sample_maintenance ''T'' ''0'' credential_world)"

lemma seeded_quiet: "pg_fault seeded_world = (\<lambda>_. None)"
proof -
  let ?I = "\<lambda>w :: front_type. pg_fault w = (\<lambda>_. None)"
  note framed = framed_const(1) [of "\<lambda>_. None"]
  have hydra: "keeps ?I (hydra_op m)" for m :: "((string \<times> json) list, ory_error, json) io"
    by (simp add: keeps_def hydra_op_def split: prod.splits)
  have "keeps ?I (create_client_credential list_hydra application_ctx credential_request)"
    unfolding create_client_credential_def id_mapping_create_def by (intro framed_rules framed hydra)
  moreover have "?I application_world"
    by (simp add: application_world_def provisioned_world_def quiet_pg_def fga_world.defs pg.defs)
  ultimately have cred: "?I credential_world" unfolding credential_world_def by (rule keepsD_snd)
  have k: "keeps ?I (backfill_client sample_maintenance ''T'' ''0'')"
    unfolding backfill_client_def ensure_legacy_row_def application_create_def sample_maintenance_def dcr_maintenance.select_convs
    by (intro framed_rules framed framed_checks framed_entitlements(5))
  show ?thesis unfolding seeded_world_def by (rule keepsD_snd [OF k cred])
qed

theorem backfill_once_witness:
  "backfill_client sample_maintenance ''T'' ''0'' seeded_world = (Inr BackfillExistingRow, seeded_world\<lparr>pg_queries := Suc (pg_queries seeded_world)\<rparr>)"
proof -
  have first: "fst (backfill_client sample_maintenance ''T'' ''0'' credential_world) = Inr Seeded" by code_simp
  then have run: "backfill_client sample_maintenance ''T'' ''0'' credential_world = (Inr Seeded, seeded_world)"
    by (simp add: seeded_world_def prod_eq_iff)
  show ?thesis using backfill_once [OF run _ seeded_quiet] by simp
qed

end
