(* ===== verification/DeviceService.thy ===== *)
theory DeviceService
  imports OAuth2Handlers "HOL-Library.Countable"
begin

text \<open>
  The OAuth 2.0 device grant, \<^verbatim>\<open>services/oauth2_device.rs\<close>: the service hands the calls on to
  Hydra, translating client ids and device challenges on the way in and the redirect on the way
  out. The URL library is a parameter.
\<close>

section \<open>The service\<close>

record 'h device_hydra =
  dh_device_authorize :: "(string \<times> string) list \<Rightarrow> ('h, ory_error, json) io"
  dh_token :: "(string \<times> string) list \<Rightarrow> ('h, ory_error, json) io"
  dh_get_device_verify :: "(string \<times> string) list \<Rightarrow> ('h, ory_error, json) io"
  dh_accept_device_verification :: "string \<Rightarrow> string \<Rightarrow> ('h, ory_error, json) io"

text \<open>
  \<^verbatim>\<open>Url::parse\<close>, \<^verbatim>\<open>query_pairs\<close>, \<^verbatim>\<open>set_query(None)\<close> followed by \<^verbatim>\<open>extend_pairs\<close>, and \<^verbatim>\<open>to_string\<close>. What the
  service relies on: a query that was set is the query, and a URL that was printed parses again.
\<close>

record 'u query_urls =
  qu_parse :: "string \<Rightarrow> 'u option"
  qu_query_pairs :: "'u \<Rightarrow> (string \<times> string) list"
  qu_with_query :: "(string \<times> string) list \<Rightarrow> 'u \<Rightarrow> 'u"
  qu_show :: "'u \<Rightarrow> string"

definition query_urls_ok :: "'u query_urls \<Rightarrow> bool" where
  "query_urls_ok ul \<longleftrightarrow> (\<forall>q u. qu_query_pairs ul (qu_with_query ul q u) = q) \<and> (\<forall>u. qu_parse ul (qu_show ul u) = Some u)"

record ('h, 'u) device_service =
  dv_hydra :: "'h device_hydra"
  dv_url :: "'u query_urls"

definition TOKEN_TYPE_DEVICE_CHALLENGE :: string where "TOKEN_TYPE_DEVICE_CHALLENGE = ''device_challenge''"

definition device_map_db_error :: "db_error \<Rightarrow> service_error" where
  "device_map_db_error err =
     (case err of MappingNotFound \<Rightarrow> SE_NotFound ''mapping not found'' | _ \<Rightarrow> SE_Database (show_db_error err))"

fun device_map_ory_error :: "ory_error \<Rightarrow> service_error" where
  "device_map_ory_error (Ory_Status status message) =
     (if status = 400 then SE_InvalidArgument message
      else if status = 401 then SE_Unauthenticated message
      else if status = 403 then SE_PermissionDenied message
      else if status = 404 then SE_NotFound message
      else if status = 409 then SE_AlreadyExists message
      else if status = 503 then SE_Unavailable message
      else SE_Internal message)"
| "device_map_ory_error (Ory_Http e) = SE_Unavailable ''upstream identity service unreachable''"
| "device_map_ory_error (Ory_Url e) = SE_Unavailable ''upstream identity service unreachable''"
| "device_map_ory_error (Ory_Serialization e) = SE_Internal ''invalid upstream response''"
| "device_map_ory_error (Ory_InvalidResponse msg) = SE_Internal ''invalid upstream response''"
| "device_map_ory_error Ory_MissingTenant = SE_Unauthenticated ''missing tenant''"
| "device_map_ory_error (Ory_Redirect loc cs) = SE_Internal ''unexpected redirect''"

abbreviation dve :: "('s, db_error, 'a) io \<Rightarrow> ('s, service_error, 'a) io" where
  "dve m \<equiv> map_err device_map_db_error m"

abbreviation hyv :: "('h, ory_error, 'a) io \<Rightarrow> (('f, 'h, 'k, 'z) ory_world_scheme, service_error, 'a) io" where
  "hyv m \<equiv> map_err device_map_ory_error (hydra_op m)"

definition device_transient_expiry :: "('z pg_scheme, 'e, instant) io" where
  "device_transient_expiry = bindE now_utc (\<lambda>now. ret (now + 3600 * nanos_per_second))"

definition require_device_admin :: "request_context \<Rightarrow> service_error + unit" where
  "require_device_admin ctx =
     (if require_scope ctx SCOPE_TENANT_ADMIN = Inr () \<or> require_scope ctx SCOPE_APPLICATION_ADMIN = Inr () then Inr ()
      else Inl (SE_PermissionDenied ''missing required scope: tenant:admin or application:admin''))"

section \<open>Identifiers\<close>

definition device_ory_client_id :: "string \<Rightarrow> string \<Rightarrow> ('z pg_scheme, service_error, string) io" where
  "device_ory_client_id tenant_id public_id =
     (if public_id = [] then ret [] else dve (get_ory_id tenant_id ''hydra'' public_id))"

definition resolve_device_challenge :: "string \<Rightarrow> string \<Rightarrow> ('z pg_scheme, service_error, string) io" where
  "resolve_device_challenge tenant_id challenge =
     attempt (get_ory_token tenant_id ''hydra'' TOKEN_TYPE_DEVICE_CHALLENGE challenge) (\<lambda>r. case r of
         Inr ory \<Rightarrow> ret ory
       | Inl err \<Rightarrow> if err = MappingNotFound then ret challenge else raise (device_map_db_error err))"

definition public_redirect_to :: "'u query_urls \<Rightarrow> string \<Rightarrow> string \<Rightarrow> ('z pg_scheme, service_error, string) io" where
  "public_redirect_to ul tenant_id redirect =
     (case qu_parse ul redirect of
        None \<Rightarrow> raise (SE_Internal ''invalid redirect_to from upstream'')
      | Some url \<Rightarrow>
          case find (\<lambda>(k, _). k = ''client_id'') (qu_query_pairs ul url) of
            None \<Rightarrow> ret redirect
          | Some (_, ory_client_id) \<Rightarrow>
              bindE (dve (get_public_id tenant_id ''hydra'' ory_client_id)) (\<lambda>public_id.
              let query = map (\<lambda>(k, v). if k = ''client_id'' then (k, public_id) else (k, v)) (qu_query_pairs ul url)
              in ret (qu_show ul (qu_with_query ul query url))))"

definition device_challenge_from_location :: "'u query_urls \<Rightarrow> string \<Rightarrow> service_error + string" where
  "device_challenge_from_location ul location =
     (case qu_parse ul location of
        None \<Rightarrow> Inl (SE_Internal ''invalid redirect location from upstream'')
      | Some url \<Rightarrow>
          ok_or (SE_Internal ''upstream redirect is missing device_challenge'')
            (map_option snd (find (\<lambda>(k, _). k = ''device_challenge'') (qu_query_pairs ul url))))"

section \<open>Messages\<close>

record device_authorization =
  da_device_code :: string
  da_user_code :: string
  da_verification_uri :: string
  da_verification_uri_complete :: string
  da_expires_in :: int
  da_interval :: int

record device_token =
  dt_access_token :: string
  dt_token_type :: string
  dt_expires_in :: int
  dt_refresh_token :: string
  dt_scope :: string
  dt_id_token :: string

record device_verification =
  dw_challenge :: string
  dw_user_code :: string
  dw_set_cookies :: "string list"

text \<open>\<^verbatim>\<open>n as i32\<close> keeps the low 32 bits; \<open>json_str\<close> of the consent mapper is the same code.\<close>

definition as_i32 :: "int \<Rightarrow> int" where
  "as_i32 n = (n + 2 ^ 31) mod 2 ^ 32 - 2 ^ 31"

definition device_json_i32 :: "json \<Rightarrow> string \<Rightarrow> int" where
  "device_json_i32 v k = (case Option.bind (json_get v k) as_i64 of Some n \<Rightarrow> as_i32 n | None \<Rightarrow> 0)"

definition ory_device_auth_to_proto :: "json \<Rightarrow> device_authorization" where
  "ory_device_auth_to_proto v =
     \<lparr>da_device_code = json_str v ''device_code'', da_user_code = json_str v ''user_code'',
      da_verification_uri = json_str v ''verification_uri'', da_verification_uri_complete = json_str v ''verification_uri_complete'',
      da_expires_in = device_json_i32 v ''expires_in'', da_interval = device_json_i32 v ''interval''\<rparr>"

definition ory_token_to_proto :: "json \<Rightarrow> device_token" where
  "ory_token_to_proto v =
     \<lparr>dt_access_token = json_str v ''access_token'', dt_token_type = json_str v ''token_type'',
      dt_expires_in = device_json_i32 v ''expires_in'', dt_refresh_token = json_str v ''refresh_token'',
      dt_scope = json_str v ''scope'', dt_id_token = json_str v ''id_token''\<rparr>"

section \<open>Calls\<close>

definition authorize_device ::
  "('h, 'u) device_service \<Rightarrow> request_context \<Rightarrow> string \<Rightarrow> string list
    \<Rightarrow> (('f, 'h, 'k, 'z) ory_world_scheme, service_error, device_authorization) io" where
  "authorize_device svc ctx client_id scope =
     bindE (lift_result (require_device_admin ctx)) (\<lambda>_.
     bindE (lift_result (require_tenant ctx)) (\<lambda>tenant_id.
     bindE (device_ory_client_id tenant_id client_id) (\<lambda>ory_client_id.
     let form = (''client_id'', ory_client_id) # (if scope = [] then [] else [(''scope'', join_with '' '' scope)])
     in bindE (hyv (dh_device_authorize (dv_hydra svc) form)) (\<lambda>v. ret (ory_device_auth_to_proto v)))))"

definition get_device_token ::
  "('h, 'u) device_service \<Rightarrow> request_context \<Rightarrow> string \<Rightarrow> string
    \<Rightarrow> (('f, 'h, 'k, 'z) ory_world_scheme, service_error, device_token) io" where
  "get_device_token svc ctx client_id device_code =
     bindE (lift_result (require_device_admin ctx)) (\<lambda>_.
     bindE (lift_result (require_tenant ctx)) (\<lambda>tenant_id.
     bindE (device_ory_client_id tenant_id client_id) (\<lambda>ory_client_id.
     let form = [(''grant_type'', ''urn:ietf:params:oauth:grant-type:device_code''), (''client_id'', ory_client_id),
                 (''device_code'', device_code)]
     in bindE (hyv (dh_token (dv_hydra svc) form)) (\<lambda>v. ret (ory_token_to_proto v)))))"

text \<open>Hydra answers the verification with a redirect, which its client reports as an error.\<close>

definition get_device_verification ::
  "('h, 'u) device_service \<Rightarrow> request_context \<Rightarrow> string
    \<Rightarrow> (('f, 'h, 'k, 'z) ory_world_scheme, service_error, device_verification) io" where
  "get_device_verification svc ctx user_code =
     bindE (lift_result (require_device_admin ctx)) (\<lambda>_.
     bindE (lift_result (require_tenant ctx)) (\<lambda>tenant_id.
     attempt (hydra_op (dh_get_device_verify (dv_hydra svc) [(''user_code'', user_code)])) (\<lambda>r. case r of
         Inr _ \<Rightarrow> raise (SE_Internal ''unexpected upstream response for device verification'')
       | Inl (Ory_Redirect location set_cookies) \<Rightarrow>
           bindE (lift_result (device_challenge_from_location (dv_url svc) location)) (\<lambda>ory_challenge.
           bindE device_transient_expiry (\<lambda>expiry.
           bindE (dve (transient_create tenant_id ''hydra'' TOKEN_TYPE_DEVICE_CHALLENGE ory_challenge expiry)) (\<lambda>public_challenge.
           ret \<lparr>dw_challenge = public_challenge, dw_user_code = user_code, dw_set_cookies = filter header_value_ok set_cookies\<rparr>)))
       | Inl err \<Rightarrow> raise (device_map_ory_error err))))"

definition accept_device_verification ::
  "('h, 'u) device_service \<Rightarrow> request_context \<Rightarrow> string \<Rightarrow> string
    \<Rightarrow> (('f, 'h, 'k, 'z) ory_world_scheme, service_error, string) io" where
  "accept_device_verification svc ctx challenge user_code =
     bindE (lift_result (require_device_admin ctx)) (\<lambda>_.
     bindE (lift_result (require_tenant ctx)) (\<lambda>tenant_id.
     bindE (resolve_device_challenge tenant_id challenge) (\<lambda>ory_challenge.
     bindE (hyv (dh_accept_device_verification (dv_hydra svc) ory_challenge user_code)) (\<lambda>v.
     public_redirect_to (dv_url svc) tenant_id (json_str v ''redirect_to'')))))"

section \<open>What the calls promise\<close>

lemma as_i32_range: "- (2 ^ 31) \<le> as_i32 n \<and> as_i32 n < 2 ^ 31"
  by (simp add: as_i32_def)

lemma as_i32_id: "- (2 ^ 31) \<le> n \<Longrightarrow> n < 2 ^ 31 \<Longrightarrow> as_i32 n = n"
  by (simp add: as_i32_def)

text \<open>The redirect that leaves the service names clients by public ids of the tenant.\<close>

lemma public_redirect_to_Inr:
  assumes "query_urls_ok ul" and "public_redirect_to ul t url w = (Inr r, v)"
  shows "\<exists>u. qu_parse ul r = Some u \<and> (\<forall>k c. (k, c) \<in> set (qu_query_pairs ul u) \<longrightarrow> k = ''client_id'' \<longrightarrow>
    (\<exists>m \<in> set (id_mappings (pg_db w)). im_tenant_id m = t \<and> im_backend m = ''hydra'' \<and> im_public_id m = c))"
proof -
  obtain u where u: "qu_parse ul url = Some u" using assms(2) by (auto simp: public_redirect_to_def raise_def split: option.splits)
  show ?thesis
  proof (cases "find (\<lambda>(k, _). k = ''client_id'') (qu_query_pairs ul u)")
    case None
    then have "r = url" using assms(2) u by (simp add: public_redirect_to_def ret_def)
    then show ?thesis using u None by (auto simp: find_None_iff)
  next
    case (Some p)
    obtain k0 ory where p: "p = (k0, ory)" by fastforce
    define q where "q = (\<lambda>i. map (\<lambda>(k, v). if k = ''client_id'' then (k, i) else (k, v)) (qu_query_pairs ul u))"
    obtain i where get: "get_public_id t ''hydra'' ory w = (Inr i, v)" and r: "r = qu_show ul (qu_with_query ul (q i) u)"
      using assms(2) u Some p by (auto simp: public_redirect_to_def q_def run_simps Let_def)
    have "\<exists>m \<in> set (id_mappings (pg_db w)). im_tenant_id m = t \<and> im_backend m = ''hydra'' \<and> im_public_id m = i"
      using pg_query_Inr [OF get [unfolded get_public_id_def]] by (auto dest!: find_SomeD)
    moreover have "c = i" if "(k, c) \<in> set (q i)" "k = ''client_id''" for k c using that by (auto simp: q_def split: if_splits)
    ultimately show ?thesis using assms(1) r by (auto simp: query_urls_ok_def)
  qed
qed

lemma resolve_device_challenge_cases:
  assumes "resolve_device_challenge t c v = (x, u)"
  obtains (failed) m where "x = Inl (SE_Database m)"
  | (unknown) "get_ory_token t ''hydra'' TOKEN_TYPE_DEVICE_CHALLENGE c v = (Inl MappingNotFound, u)" and "x = Inr c"
  | (known) g where "get_ory_token t ''hydra'' TOKEN_TYPE_DEVICE_CHALLENGE c v = (Inr g, u)" and "x = Inr g"
proof -
  obtain y u' where y: "get_ory_token t ''hydra'' TOKEN_TYPE_DEVICE_CHALLENGE c v = (y, u')" by fastforce
  have "(\<exists>m. y = Inl (Sqlx m)) \<or> y = Inl MappingNotFound \<or> (\<exists>g. y = Inr g)"
    using pg_query_result [OF y [unfolded get_ory_token_def]] by (auto simp: ok_or_def split: option.splits)
  then show thesis
    using assms y that by (auto simp: resolve_device_challenge_def attempt_def ret_def raise_def device_map_db_error_def)
qed

text \<open>
  The challenge that \<^verbatim>\<open>get_device_verification\<close> hands out stands for Hydra's challenge, in the tenant
  that asked and for an hour: \<^verbatim>\<open>accept_device_verification\<close> sends Hydra its own challenge back. In
  another tenant the challenge means nothing and goes to Hydra as it is.
\<close>

theorem device_challenge_round_trip:
  assumes ok: "transient_tokens_ok (pg_db w)" and tenant: "require_tenant ctx = Inr t"
    and run: "get_device_verification svc ctx code w = (Inr d, v)"
  shows "\<exists>loc cookies ory. fst (dh_get_device_verify (dv_hydra svc) [(''user_code'', code)] (ow_hydra w)) = Inl (Ory_Redirect loc cookies)
    \<and> device_challenge_from_location (dv_url svc) loc = Inr ory
    \<and> (\<forall>x u. resolve_device_challenge t (dw_challenge d) v = (x, u) \<longrightarrow> x = Inr ory \<or> (\<exists>m. x = Inl (SE_Database m)))
    \<and> (\<forall>t' x u. t' \<noteq> t \<longrightarrow> resolve_device_challenge t' (dw_challenge d) v = (x, u)
         \<longrightarrow> x = Inr (dw_challenge d) \<or> (\<exists>m. x = Inl (SE_Database m)))"
proof -
  obtain r h where get: "dh_get_device_verify (dv_hydra svc) [(''user_code'', code)] (ow_hydra w) = (r, h)" by fastforce
  define w1 where "w1 = w\<lparr>ow_hydra := h\<rparr>"
  define e where "e = pg_now w + 3600 * nanos_per_second"
  obtain loc cookies ory where red: "r = Inl (Ory_Redirect loc cookies)" "device_challenge_from_location (dv_url svc) loc = Inr ory"
    and mint: "transient_create t ''hydra'' TOKEN_TYPE_DEVICE_CHALLENGE ory e w1 = (Inr (dw_challenge d), v)"
    using run tenant get
    by (auto simp: get_device_verification_def run_simps attempt_eq hydra_op_def w1_def device_transient_expiry_def now_utc_def e_def
        split: sum.splits ory_error.splits)
  have w1: "transient_tokens_ok (pg_db w1)" "pg_now w1 < e" using ok by (simp_all add: w1_def e_def nanos_per_second_def)
  have okv: "transient_tokens_ok (pg_db v)" using transient.mint_law [OF w1(1) mint] by blast
  obtain row where row: "row \<in> set (transient_tokens (pg_db v))" "tt_tenant_id row = t" "tt_public_token row = dw_challenge d"
    using transient_create_Inr [OF mint] by blast
  have miss: "get_ory_token t' ''hydra'' TOKEN_TYPE_DEVICE_CHALLENGE (dw_challenge d) v \<noteq> (Inr g, u)" if "t' \<noteq> t" for t' g u
  proof
    assume "get_ory_token t' ''hydra'' TOKEN_TYPE_DEVICE_CHALLENGE (dw_challenge d) v = (Inr g, u)"
    then have "(dw_challenge d, g) \<in> alive_aliases t' ''hydra'' TOKEN_TYPE_DEVICE_CHALLENGE v" by (rule transient.resolve_law [OF okv])
    then obtain r where r: "r \<in> set (transient_tokens (pg_db v))" "tt_tenant_id r = t'" "tt_public_token r = dw_challenge d"
      by (auto simp: alive_aliases_def)
    have "key_unique tt_public_token (transient_tokens (pg_db v))" using okv by (simp add: transient_tokens_ok_def)
    then have "r = row" by (rule key_uniqueD [OF _ r(1) row(1)]) (simp add: r row)
    then show False using that r row by simp
  qed
  have other: "x = Inr (dw_challenge d) \<or> (\<exists>m. x = Inl (SE_Database m))"
    if "t' \<noteq> t" "resolve_device_challenge t' (dw_challenge d) v = (x, u)" for t' x u
    by (rule resolve_device_challenge_cases [OF that(2)]) (use miss [OF that(1)] in auto)
  have same: "x = Inr ory \<or> (\<exists>m. x = Inl (SE_Database m))" if res: "resolve_device_challenge t (dw_challenge d) v = (x, u)" for x u
    by (rule resolve_device_challenge_cases [OF res]) (use transient.minted_resolves [OF w1(1) mint w1(2)] in blast)+
  show ?thesis
    by (intro exI [of _ loc] exI [of _ cookies] exI [of _ ory]) (use get red same other in auto)
qed

text \<open>The redirect of an accepted verification names clients only by public ids of the tenant.\<close>

theorem device_redirect_public:
  assumes "query_urls_ok (dv_url svc)" and "require_tenant ctx = Inr t"
    and "accept_device_verification svc ctx challenge code w = (Inr r, v)"
  shows "\<exists>u. qu_parse (dv_url svc) r = Some u \<and> (\<forall>k c. (k, c) \<in> set (qu_query_pairs (dv_url svc) u) \<longrightarrow> k = ''client_id'' \<longrightarrow>
    (\<exists>m \<in> set (id_mappings (pg_db w)). im_tenant_id m = t \<and> im_backend m = ''hydra'' \<and> im_public_id m = c))"
proof -
  let ?J = "\<lambda>u. pg_db u = pg_db w"
  obtain ory w1 j w2 where res: "resolve_device_challenge t challenge w = (Inr ory, w1)"
    and acc: "hydra_op (dh_accept_device_verification (dv_hydra svc) ory code) w1 = (Inr j, w2)"
    and red: "public_redirect_to (dv_url svc) t (json_str j ''redirect_to'') w2 = (Inr r, v)"
    using assms(2,3) by (auto simp: accept_device_verification_def run_simps)
  have keep: "keeps ?J (resolve_device_challenge t challenge)"
    unfolding resolve_device_challenge_def get_ory_token_def by (intro keeps_rules)
  have "pg_db w1 = pg_db w" using keepsD_snd [OF keep, of w] res by simp
  then have "pg_db w2 = pg_db w" using acc by (auto simp: hydra_op_def split: prod.splits)
  then show ?thesis using public_redirect_to_Inr [OF assms(1) red] by simp
qed

section \<open>Witnesses\<close>

text \<open>URLs that are their query, printed as the number of the query.\<close>

definition counted_urls :: "(string \<times> string) list query_urls" where
  "counted_urls = \<lparr>qu_parse = (\<lambda>s. Some (from_nat (length s))), qu_query_pairs = id, qu_with_query = (\<lambda>q _. q),
     qu_show = (\<lambda>u. replicate (to_nat u) (CHR ''u''))\<rparr>"

definition sample_device :: "((string \<times> json) list, (string \<times> string) list) device_service" where
  "sample_device = \<lparr>dv_hydra =
     \<lparr>dh_device_authorize = (\<lambda>form h. (Inr JNull, h)), dh_token = (\<lambda>form h. (Inr JNull, h)),
      dh_get_device_verify = (\<lambda>q h. (Inl (Ory_Redirect (qu_show counted_urls [(''device_challenge'', ''hyd'')]) [''c=1'']), h)),
      dh_accept_device_verification = (\<lambda>c code h. (Inr (JObj [(''redirect_to'', JStr (qu_show counted_urls [(''client_id'', ''hc'')]))]), h))\<rparr>,
     dv_url = counted_urls\<rparr>"

lemma counted_urls_ok: "query_urls_ok counted_urls"
  by (simp add: query_urls_ok_def counted_urls_def)

lemma counted_urls_simps [simp]: "qu_parse counted_urls (qu_show counted_urls u) = Some u" "qu_query_pairs counted_urls u = u"
  "qu_with_query counted_urls q u = q"
  by (simp_all add: counted_urls_def)

lemma device_simps [simp]:
  "require_device_admin application_ctx = Inr ()" "require_tenant application_ctx = Inr ''T''" "dv_url sample_device = counted_urls"
  "transient_tokens_ok front_db" "tenant_exists front_db ''T''" "pg_ulid front_world n = replicate (Suc n) (CHR ''0'')" "transient_tokens front_db = []"
  by (code_simp, code_simp, simp add: sample_device_def, code_simp, code_simp)
     (simp_all add: front_world_def fga_world.defs provisioned_world_def quiet_pg_def pg.defs front_db_def consent_db_def provisioned_db_def entitled_db_def empty_db_def)

lemma sample_get_public_id: "get_public_id ''T'' ''hydra'' ''hc'' w = (Inr ''pub'', w\<lparr>pg_queries := Suc (pg_queries w)\<rparr>)"
  if "pg_db w = front_db" "pg_fault w = (\<lambda>_. None)"
proof -
  have "map_option im_public_id (find (\<lambda>r. im_tenant_id r = ''T'' \<and> im_backend r = ''hydra'' \<and> im_ory_global_id r = ''hc'')
    (id_mappings front_db)) = Some ''pub''" by code_simp
  then show ?thesis using that by (simp add: get_public_id_def pg_query_no_fault)
qed

theorem device_redirect_public_witness:
  "\<exists>r v u. accept_device_verification sample_device application_ctx ''x'' ''code'' front_world = (Inr r, v)
     \<and> qu_parse counted_urls r = Some u \<and> (\<forall>k c. (k, c) \<in> set u \<longrightarrow> k = ''client_id'' \<longrightarrow>
       (\<exists>m \<in> set (id_mappings front_db). im_tenant_id m = ''T'' \<and> im_backend m = ''hydra'' \<and> im_public_id m = c))"
proof -
  have "\<exists>r v. accept_device_verification sample_device application_ctx ''x'' ''code'' front_world = (Inr r, v)"
    by (simp add: accept_device_verification_def bindE_def lift_result_def resolve_device_challenge_def attempt_def get_ory_token_def
        pg_query_no_fault ret_def map_err_def hydra_op_def public_redirect_to_def sample_get_public_id Let_def ok_or_def)
       (simp add: sample_device_def json_str_def sample_get_public_id ret_def bindE_def map_err_def)
  then obtain r v where run: "accept_device_verification sample_device application_ctx ''x'' ''code'' front_world = (Inr r, v)" by blast
  have "query_urls_ok (dv_url sample_device)" by (simp add: counted_urls_ok)
  from device_redirect_public [OF this device_simps(2) run] run show ?thesis by auto
qed

theorem device_challenge_round_trip_witness:
  "\<exists>d v. get_device_verification sample_device application_ctx ''code'' front_world = (Inr d, v)
     \<and> fst (resolve_device_challenge ''T'' (dw_challenge d) v) = Inr ''hyd''"
proof -
  have "\<exists>d v. get_device_verification sample_device application_ctx ''code'' front_world = (Inr d, v) \<and> pg_fault v = (\<lambda>_. None)"
    by (simp add: get_device_verification_def bindE_def lift_result_def attempt_def hydra_op_def device_transient_expiry_def now_utc_def gets_def ret_def)
       (simp add: sample_device_def device_challenge_from_location_def ok_or_def transient_create_def ulid_new_def bindE_def pg_exec_no_fault
         transient_upsert_stmt_def map_err_def Let_def ret_def)
  then obtain d v where run: "get_device_verification sample_device application_ctx ''code'' front_world = (Inr d, v)"
    and quiet: "pg_fault v = (\<lambda>_. None)" by blast
  have "\<exists>loc cookies ory. fst (dh_get_device_verify (dv_hydra sample_device) [(''user_code'', ''code'')] (ow_hydra front_world)) = Inl (Ory_Redirect loc cookies)
    \<and> device_challenge_from_location (dv_url sample_device) loc = Inr ory
    \<and> (\<forall>x u. resolve_device_challenge ''T'' (dw_challenge d) v = (x, u) \<longrightarrow> x = Inr ory \<or> (\<exists>m. x = Inl (SE_Database m)))"
    using device_challenge_round_trip [OF _ device_simps(2) run] by fastforce
  then have "fst (resolve_device_challenge ''T'' (dw_challenge d) v) = Inr ''hyd'' \<or> (\<exists>m. fst (resolve_device_challenge ''T'' (dw_challenge d) v) = Inl (SE_Database m))"
    by (cases "resolve_device_challenge ''T'' (dw_challenge d) v") (auto simp: sample_device_def device_challenge_from_location_def)
  moreover have "fst (resolve_device_challenge ''T'' (dw_challenge d) v) \<noteq> Inl (SE_Database m)" for m
    by (auto simp: resolve_device_challenge_def attempt_def get_ory_token_def pg_query_no_fault quiet ok_or_def ret_def split: option.splits)
  ultimately show ?thesis using run by auto
qed

end
