(* ===== verification/TenantService.thy ===== *)
theory TenantService
  imports Applications
begin

text \<open>
  The tenant service, \<^verbatim>\<open>services/tenant.rs\<close>: the system tenant creates tenants, with the
  entitlement namespace each needs; a tenant reads itself, the system tenant reads all.
\<close>

record 's tenant_service =
  tv_system_tenant_ulid :: string
  tv_entitlements :: "'s permission_backend"
  tv_show_json :: "json \<Rightarrow> string"

record tenant =
  tp_id :: string
  tp_slug :: string
  tp_display_name :: string
  tp_settings :: "(string \<times> string) list"

definition tenant_into_proto :: "(json \<Rightarrow> string) \<Rightarrow> tenant_row \<Rightarrow> tenant" where
  "tenant_into_proto show row =
     \<lparr>tp_id = tn_id row, tp_slug = tn_slug row, tp_display_name = tn_display_name row,
      tp_settings = (case tn_settings row of
         JObj fs \<Rightarrow> map (\<lambda>(k, v). (k, case v of JStr s \<Rightarrow> s | _ \<Rightarrow> show v)) fs
       | _ \<Rightarrow> [])\<rparr>"

text \<open>The tenant of the request, or else the tenant of the caller.\<close>

definition require_caller_tenant :: "request_context \<Rightarrow> service_error + string" where
  "require_caller_tenant ctx =
     ok_or (SE_Unauthenticated ''missing tenant'')
       (case rx_tenant ctx of Some t \<Rightarrow> Some t | None \<Rightarrow> map_option ac_tenant_id (rx_auth ctx))"

definition create_tenant ::
  "'z pg_scheme tenant_service \<Rightarrow> request_context \<Rightarrow> string \<Rightarrow> string \<Rightarrow> (string \<times> string) list
    \<Rightarrow> ('z pg_scheme, service_error, tenant) io" where
  "create_tenant svc ctx slug display_name settings =
     bindE (lift_result (require_caller_tenant ctx)) (\<lambda>caller.
     bindE (lift_result (require_scope ctx SCOPE_TENANT_ADMIN)) (\<lambda>_.
     bindE (guard_err (caller \<noteq> tv_system_tenant_ulid svc) (SE_PermissionDenied ''only the system tenant can create tenants'')) (\<lambda>_.
     bindE (dbq (tenant_create slug display_name (JObj (map (\<lambda>(k, v). (k, JStr v)) settings)))) (\<lambda>row.
     bindE (ensure_namespace (tv_entitlements svc) (tn_id row)) (\<lambda>_.
     ret (tenant_into_proto (tv_show_json svc) row))))))"

definition get_tenant ::
  "'z pg_scheme tenant_service \<Rightarrow> request_context \<Rightarrow> string \<Rightarrow> ('z pg_scheme, service_error, tenant) io" where
  "get_tenant svc ctx i =
     bindE (lift_result (require_caller_tenant ctx)) (\<lambda>caller.
     bindE (lift_result (require_scope_any ctx [SCOPE_TENANT_READ, SCOPE_TENANT_ADMIN])) (\<lambda>_.
     bindE (guard_err (i \<noteq> caller \<and> \<not> is_system_tenant (tv_system_tenant_ulid svc) ctx)
              (SE_PermissionDenied ''cannot access tenant'')) (\<lambda>_.
     bindE (dbq (tenant_get_by_id i)) (\<lambda>row. ret (tenant_into_proto (tv_show_json svc) row)))))"

definition list_tenants :: "'z pg_scheme tenant_service \<Rightarrow> request_context \<Rightarrow> ('z pg_scheme, service_error, tenant list) io" where
  "list_tenants svc ctx =
     bindE (lift_result (require_caller_tenant ctx)) (\<lambda>caller.
     bindE (lift_result (require_scope_any ctx [SCOPE_TENANT_READ, SCOPE_TENANT_ADMIN])) (\<lambda>_.
     bindE (dbq tenant_list) (\<lambda>rows.
     ret (map (tenant_into_proto (tv_show_json svc))
       (if is_system_tenant (tv_system_tenant_ulid svc) ctx then rows else filter (\<lambda>r. tn_id r = caller) rows)))))"

section \<open>Who reads what\<close>

lemma into_proto_settings: "tp_settings (tenant_into_proto show (row\<lparr>tn_settings := JObj (map (\<lambda>(k, v). (k, JStr v)) s)\<rparr>)) = s"
  by (induction s) (auto simp: tenant_into_proto_def)

lemma list_tenants_scope:
  assumes "list_tenants svc ctx w = (Inr ts, v)" and "\<not> is_system_tenant (tv_system_tenant_ulid svc) ctx"
    and "require_caller_tenant ctx = Inr t"
  shows "\<forall>x \<in> set ts. tp_id x = t"
  using assms by (auto simp: list_tenants_def run_simps tenant_into_proto_def)

lemma get_tenant_scope:
  assumes "get_tenant svc ctx i w = (Inr x, v)"
  shows "tp_id x = i \<and> (require_caller_tenant ctx = Inr i \<or> is_system_tenant (tv_system_tenant_ulid svc) ctx)"
proof -
  obtain c row u where "require_caller_tenant ctx = Inr c" and g: "i = c \<or> is_system_tenant (tv_system_tenant_ulid svc) ctx"
    and get: "tenant_get_by_id i w = (Inr row, u)" and x: "x = tenant_into_proto (tv_show_json svc) row"
    using assms by (auto simp: get_tenant_def run_simps)
  moreover have "tn_id row = i"
    using pg_query_Inr [OF get [unfolded tenant_get_by_id_def]] by (auto dest!: find_SomeD)
  ultimately show ?thesis by (auto simp: tenant_into_proto_def)
qed

section \<open>Creating a tenant\<close>

text \<open>The namespace of a new tenant is set up against OpenFGA; the table of tenants stays as it is.\<close>

lemma keeps_tenants_openfga: "keeps (\<lambda>w. tenants (pg_db w) = rows) (ensure_namespace (openfga b) i)"
proof -
  note db = keeps_fga_call_db [where J = "\<lambda>db. tenants db = rows"] keeps_repo_db [where J = "\<lambda>db. tenants db = rows"]
  have "stmt_keeps (\<lambda>db. tenants db = rows) (namespace_upsert_stmt t ns m si mi)" for t ns m si mi
    by (rule stmt_keepsI) (auto simp: namespace_upsert_stmt_def Let_def violates_def split: list.splits option.splits if_splits)
  then have put: "keeps (\<lambda>w. tenants (pg_db w) = rows) (pg_repo_upsert t r)" for t r
    unfolding pg_repo_upsert_def pg_namespace_upsert_def
    by (intro keeps_rules keeps_pg_exec [where J = "\<lambda>db. tenants db = rows"])
  then show ?thesis
    unfolding ensure_namespace_def openfga_sel fga_ensure_model_def fga_provision_def persist_record_def fga_def
    by (auto intro!: keeps_rules keeps_store_calls db put split: option.splits)
qed

lemma keeps_fault_openfga: "keeps (\<lambda>w. pg_fault w = F) (ensure_namespace (openfga b) i)"
  using framed_const(1) [of F] unfolding ensure_namespace_def openfga_sel fga_ensure_model_def fga_provision_def persist_record_def fga_def
    pg_repo_get_def pg_namespace_get_def pg_repo_upsert_def pg_namespace_upsert_def
  by (auto intro!: framed_rules keeps_store_calls split: option.splits)

lemma tenant_create_cases:
  assumes "tenant_create slug name settings w = (x, v)" and "\<And>q. pg_fault w q = None"
  obtains (taken) what where "x = Inl (Sqlx what)" and "tenants (pg_db v) = tenants (pg_db w)"
  | (made) row where "x = Inr row" and "tenants (pg_db v) = tenants (pg_db w) @ [row]" and "slug \<notin> tn_slug ` set (tenants (pg_db w))"
      and "tn_id row = pg_ulid w (pg_ulids w)" and "tn_id row \<notin> tn_id ` set (tenants (pg_db w))" and "tn_slug row = slug"
      and "tn_display_name row = name" and "tn_settings row = settings"
  using assms
  by (auto simp: tenant_create_def ulid_new_def bindE_def pg_exec_no_fault tenant_insert_stmt_def Let_def violates_def split: if_splits)

lemma tenant_create_fault: "keeps (\<lambda>w. pg_fault w = F) (tenant_create slug name settings)"
  by (auto simp: keeps_def tenant_create_def ulid_new_def bindE_def pg_exec_def Let_def split: prod.splits sum.splits option.splits fault.splits)

text \<open>
  A created tenant reads back as it was asked for. When its namespace cannot be set up the call
  fails, but the tenant stays in the table: a second attempt with the same slug is refused.
\<close>

theorem create_tenant_outcome:
  assumes svc: "tv_entitlements svc = openfga b" and quiet: "\<And>q. pg_fault w q = None"
    and admin: "require_caller_tenant ctx = Inr (tv_system_tenant_ulid svc)" "require_scope ctx SCOPE_TENANT_ADMIN = Inr ()"
    and sys: "is_system_tenant (tv_system_tenant_ulid svc) ctx"
    and free: "slug \<notin> tn_slug ` set (tenants (pg_db w))" "pg_ulid w (pg_ulids w) \<notin> tn_id ` set (tenants (pg_db w))"
    and run: "create_tenant svc ctx slug name settings w = (x, v)"
  shows "case x of
      Inr t \<Rightarrow> t = \<lparr>tp_id = pg_ulid w (pg_ulids w), tp_slug = slug, tp_display_name = name, tp_settings = settings\<rparr>
        \<and> fst (get_tenant svc ctx (tp_id t) v) = Inr t
    | Inl e \<Rightarrow> (\<exists>t \<in> set (tenants (pg_db v)). tn_slug t = slug)
        \<and> (\<exists>m. fst (create_tenant svc ctx slug name settings v) = Inl (SE_Database m))"
proof -
  let ?js = "JObj (map (\<lambda>(k, v). (k, JStr v)) settings)"
  obtain y u where mk: "tenant_create slug name ?js w = (y, u)" by fastforce
  have uq: "pg_fault u q = None" for q using keepsD_snd [OF tenant_create_fault, of w "pg_fault w" slug name ?js] mk quiet by simp
  obtain row where y: "y = Inr row" and rows: "tenants (pg_db u) = tenants (pg_db w) @ [row]" and "tn_id row = pg_ulid w (pg_ulids w)"
      and "tn_slug row = slug" and "tn_display_name row = name" and "tn_settings row = ?js"
    using mk quiet free by (auto simp: tenant_create_def ulid_new_def bindE_def pg_exec_no_fault tenant_insert_stmt_def Let_def)
  then have row: "tenant_into_proto (tv_show_json svc) row =
      \<lparr>tp_id = pg_ulid w (pg_ulids w), tp_slug = slug, tp_display_name = name, tp_settings = settings\<rparr>"
    by (auto simp: tenant_into_proto_def comp_def split_beta)
  obtain z v' where ns: "ensure_namespace (openfga b) (tn_id row) u = (z, v')" by fastforce
  have v: "v' = v" and x: "x = map_sum id (\<lambda>_. tenant_into_proto (tv_show_json svc) row) z"
    using run admin mk y ns svc by (auto simp: create_tenant_def bindE_def lift_result_def guard_err_def ret_def map_err_def split: sum.splits)
  have rows: "tenants (pg_db v) = tenants (pg_db w) @ [row]"
    using keepsD_snd [OF keeps_tenants_openfga, of u _ b "tn_id row"] ns v rows by simp
  have vq: "pg_fault v q = None" for q using keepsD_snd [OF keeps_fault_openfga, of u "pg_fault u" b "tn_id row"] ns v uq by simp
  show ?thesis
  proof (cases z)
    case (Inl e)
    have "\<exists>m. fst (tenant_create slug name ?js v) = Inl (Sqlx m)"
      using rows \<open>tn_slug row = slug\<close>
      by (auto simp: tenant_create_def ulid_new_def bindE_def pg_exec_no_fault vq tenant_insert_stmt_def Let_def violates_def)
    then obtain m u' where again: "tenant_create slug name ?js v = (Inl (Sqlx m), u')"
      by (metis prod.collapse)
    have "fst (create_tenant svc ctx slug name settings v) = Inl (SE_Database m)"
      by (simp add: create_tenant_def bindE_def lift_result_def guard_err_def ret_def map_err_def admin [simplified] admin again)
    then show ?thesis using Inl x rows \<open>tn_slug row = slug\<close> by simp
  next
    case (Inr n)
    have "find (\<lambda>t. tn_id t = tn_id row) (tenants (pg_db w) @ [row]) = Some row"
      by (subst find_append_miss) (use free(2) \<open>tn_id row = _\<close> in \<open>auto simp: find_None_iff image_iff\<close>)
    moreover have any: "require_scope_any ctx [SCOPE_TENANT_READ, SCOPE_TENANT_ADMIN] = Inr ()"
      using admin(2) by (auto simp: require_scope_any_def require_scope_def require_auth_def split: option.splits if_splits sum.splits)
    ultimately have "fst (get_tenant svc ctx (tn_id row) v) = Inr (tenant_into_proto (tv_show_json svc) row)"
      using admin(1) sys vq rows
      by (simp add: any get_tenant_def bindE_def lift_result_def guard_err_def ret_def map_err_def tenant_get_by_id_def pg_query_no_fault ok_or_def)
    then show ?thesis using Inr x row \<open>tn_id row = _\<close> by simp
  qed
qed

section \<open>Witness\<close>

text \<open>An OpenFGA server without stores, that creates the one it is asked for.\<close>

definition fresh_backend :: "fga_tuple list openfga_backend" where
  "fresh_backend = \<lparr>ob_client = \<lparr>fc_join = Inr, fc_send = (\<lambda>meth url query body f.
       (Reply 200 None (Inr (JObj [(''id'', JStr ''s1''), (''authorization_model_id'', JStr ''m1''), (''stores'', JArr [])])), f)),
     fc_show_json = (\<lambda>_. []), fc_fuel = 3\<rparr>, ob_order = (\<lambda>gs. gs)\<rparr>"

definition sample_tenants :: "(fga_tuple list, (string \<times> json) list, unit) ory_world tenant_service" where
  "sample_tenants = \<lparr>tv_system_tenant_ulid = ''S'', tv_entitlements = openfga fresh_backend, tv_show_json = (\<lambda>_. [])\<rparr>"

definition system_ctx :: request_context where
  "system_ctx = \<lparr>rx_auth = Some \<lparr>ac_tenant_id = ''S'', ac_subject = ''u'', ac_subject_type = User, ac_actor = None,
     ac_scopes = [''tenant:admin''], ac_token_hash = [], ac_authentication_methods = []\<rparr>, rx_tenant = None\<rparr>"

theorem create_tenant_outcome_witness:
  "\<exists>v. create_tenant sample_tenants system_ctx ''acme'' ''Acme'' [(''plan'', ''pro'')] application_world =
       (Inr \<lparr>tp_id = ''0'', tp_slug = ''acme'', tp_display_name = ''Acme'', tp_settings = [(''plan'', ''pro'')]\<rparr>, v)
     \<and> fst (get_tenant sample_tenants system_ctx ''0'' v) =
       Inr \<lparr>tp_id = ''0'', tp_slug = ''acme'', tp_display_name = ''Acme'', tp_settings = [(''plan'', ''pro'')]\<rparr>"
proof -
  have "fst (create_tenant sample_tenants system_ctx ''acme'' ''Acme'' [(''plan'', ''pro'')] application_world) =
      Inr \<lparr>tp_id = ''0'', tp_slug = ''acme'', tp_display_name = ''Acme'', tp_settings = [(''plan'', ''pro'')]\<rparr>"
    by code_simp
  then obtain v where run: "create_tenant sample_tenants system_ctx ''acme'' ''Acme'' [(''plan'', ''pro'')] application_world =
      (Inr \<lparr>tp_id = ''0'', tp_slug = ''acme'', tp_display_name = ''Acme'', tp_settings = [(''plan'', ''pro'')]\<rparr>, v)"
    by (metis prod.collapse)
  have svc: "tv_entitlements sample_tenants = openfga fresh_backend" by (simp add: sample_tenants_def)
  have quiet: "pg_fault application_world q = None" for q
    by (simp add: application_world_def provisioned_world_def fga_world.defs pg.defs quiet_pg_def)
  have ctx: "require_caller_tenant system_ctx = Inr (tv_system_tenant_ulid sample_tenants)" "require_scope system_ctx SCOPE_TENANT_ADMIN = Inr ()"
    "is_system_tenant (tv_system_tenant_ulid sample_tenants) system_ctx"
    by code_simp+
  have free: "''acme'' \<notin> tn_slug ` set (tenants (pg_db application_world))"
    "pg_ulid application_world (pg_ulids application_world) \<notin> tn_id ` set (tenants (pg_db application_world))"
    by code_simp+
  show ?thesis using create_tenant_outcome [OF svc quiet ctx free run] run by auto
qed

end
