(* ===== verification/IdentityTraits.thy ===== *)
theory IdentityTraits
  imports Database
begin

text \<open>
  Traits and their schemas: the pure functions of \<^verbatim>\<open>services/identity.rs\<close> that the identity service,
  the provisioner and SCIM share. A tenant's schema is kept small, shallow and free of remote
  references before a JSON Schema validator sees it; the validator and the serializer are
  parameters.
\<close>

section \<open>Strings\<close>

text \<open>\<^verbatim>\<open>str::trim\<close> on any text: Unicode white space at both ends.\<close>

fun trim_start_ws :: "string \<Rightarrow> string" where
  "trim_start_ws [] = []"
| "trim_start_ws (c # cs) = (let n = ws_len (c # cs) in if n = 0 then c # cs else trim_start_ws (drop (n - 1) cs))"

fun all_ws :: "string \<Rightarrow> bool" where
  "all_ws [] = True"
| "all_ws (c # cs) = (let n = ws_len (c # cs) in n \<noteq> 0 \<and> all_ws (drop (n - 1) cs))"

definition trim_end_ws :: "string \<Rightarrow> string" where
  "trim_end_ws s = (case find (\<lambda>n. all_ws (drop n s)) [0..<Suc (length s)] of Some n \<Rightarrow> take n s | None \<Rightarrow> s)"

definition trim_text :: "string \<Rightarrow> string" where
  "trim_text s = trim_end_ws (trim_start_ws s)"

section \<open>Traits\<close>

definition traits_subschema :: "json \<Rightarrow> json" where
  "traits_subschema schema_json =
     (case Option.bind (json_get schema_json ''properties'') (\<lambda>p. json_get p ''traits'') of
        Some traits \<Rightarrow> traits
      | None \<Rightarrow> schema_json)"

definition normalize_traits :: "json \<Rightarrow> json" where
  "normalize_traits traits =
     (case Option.bind (json_get traits ''email'') as_str of
        Some email \<Rightarrow>
          let normalized = to_ascii_lowercase (trim_text email)
          in if normalized \<noteq> email then json_set traits ''email'' (JStr normalized) else traits
      | None \<Rightarrow> traits)"

definition extract_email :: "json \<Rightarrow> service_error + string" where
  "extract_email traits =
     (case Option.bind (json_get traits ''email'') as_str of
        Some s \<Rightarrow> if s \<noteq> [] then Inr s else Inl (SE_InvalidArgument ''traits.email is required'')
      | None \<Rightarrow> Inl (SE_InvalidArgument ''traits.email is required''))"

definition require_email_string_schema :: "json \<Rightarrow> service_error + unit" where
  "require_email_string_schema schema_json =
     (let email_ty = Option.bind (json_get (traits_subschema schema_json) ''properties'') (\<lambda>p.
                     Option.bind (json_get p ''email'') (\<lambda>e. Option.bind (json_get e ''type'') as_str))
      in if email_ty = Some ''string'' then Inr ()
         else Inl (SE_InvalidArgument ''identity schema must declare traits.email as a string''))"

section \<open>Validation\<close>

definition MAX_SCHEMA_SIZE_BYTES :: nat where "MAX_SCHEMA_SIZE_BYTES = 64 * 1024"
definition MAX_SCHEMA_DEPTH :: nat where "MAX_SCHEMA_DEPTH = 10"

text \<open>A loop that stops at the first error.\<close>

fun first_error :: "('e + unit) list \<Rightarrow> 'e + unit" where
  "first_error [] = Inr ()"
| "first_error (r # rs) = (case r of Inl e \<Rightarrow> Inl e | Inr _ \<Rightarrow> first_error rs)"

lemma first_error_Inr: "first_error rs = Inr () \<longleftrightarrow> (\<forall>r \<in> set rs. r = Inr ())"
  by (induction rs) (auto split: sum.splits)

lemma size_field: "(k, v) \<in> set fs \<Longrightarrow> size (v :: json) < Suc (size_list (size_prod (\<lambda>x. 0) size) fs)"
proof (induction fs)
  case (Cons a fs)
  then show ?case by (cases a) auto
qed simp

lemma size_item: "x \<in> set xs \<Longrightarrow> size (x :: json) < Suc (size_list size xs)"
  by (induction xs) auto

function validate_schema_depth :: "json \<Rightarrow> nat \<Rightarrow> service_error + unit" where
  "validate_schema_depth v depth =
     (if depth > MAX_SCHEMA_DEPTH then Inl (SE_InvalidArgument ''identity schema exceeds maximum depth of 10'')
      else case v of
        JObj fs \<Rightarrow> first_error (map (\<lambda>kv. validate_schema_depth (snd kv) (depth + 1)) fs)
      | JArr xs \<Rightarrow> first_error (map (\<lambda>x. validate_schema_depth x (depth + 1)) xs)
      | _ \<Rightarrow> Inr ())"
  by pat_completeness auto
termination by (relation "measure (\<lambda>(v, depth). size v)") (auto dest: size_field size_item)

declare validate_schema_depth.simps [simp del]

function reject_remote_refs :: "json \<Rightarrow> service_error + unit" where
  "reject_remote_refs v =
     (case v of
        JObj fs \<Rightarrow>
          (case Option.bind (map_of fs ''$ref'') as_str of
             Some r \<Rightarrow>
               if \<not> starts_with r ''#'' then Inl (SE_InvalidArgument ''identity schema contains remote $ref'')
               else first_error (map (\<lambda>kv. reject_remote_refs (snd kv)) fs)
           | None \<Rightarrow> first_error (map (\<lambda>kv. reject_remote_refs (snd kv)) fs))
      | JArr xs \<Rightarrow> first_error (map (\<lambda>x. reject_remote_refs x) xs)
      | _ \<Rightarrow> Inr ())"
  by pat_completeness auto
termination by (relation "measure size") (auto dest: size_field size_item)

declare reject_remote_refs.simps [simp del]

text \<open>
  The serializer gives the text of a value; the validator is built from a schema, which may
  fail, and then says what is wrong with a value.
\<close>

record schema_lib =
  sl_to_string :: "json \<Rightarrow> string"
  sl_validator_for :: "json \<Rightarrow> string + (json \<Rightarrow> string option)"

definition validate_schema_size :: "schema_lib \<Rightarrow> json \<Rightarrow> service_error + unit" where
  "validate_schema_size lib schema =
     (if length (sl_to_string lib schema) > MAX_SCHEMA_SIZE_BYTES
      then Inl (SE_InvalidArgument ''identity schema exceeds maximum size of 64KiB'') else Inr ())"

text \<open>For evaluation: the limit as an integer.\<close>

lemma validate_schema_size_code [code]:
  "validate_schema_size lib schema =
     (if int (length (sl_to_string lib schema)) > 65536
      then Inl (SE_InvalidArgument ''identity schema exceeds maximum size of 64KiB'') else Inr ())"
  by (simp add: validate_schema_size_def MAX_SCHEMA_SIZE_BYTES_def)

definition validate_traits :: "schema_lib \<Rightarrow> json \<Rightarrow> json \<Rightarrow> service_error + unit" where
  "validate_traits lib schema_json traits =
     (let traits_schema = traits_subschema schema_json
      in case validate_schema_size lib traits_schema of Inl e \<Rightarrow> Inl e | Inr _ \<Rightarrow>
         case validate_schema_depth traits_schema 0 of Inl e \<Rightarrow> Inl e | Inr _ \<Rightarrow>
         case reject_remote_refs traits_schema of Inl e \<Rightarrow> Inl e | Inr _ \<Rightarrow>
         case validate_schema_depth traits 0 of Inl e \<Rightarrow> Inl e | Inr _ \<Rightarrow>
         case sl_validator_for lib traits_schema of
           Inl e \<Rightarrow> Inl (SE_InvalidArgument (''invalid identity schema: '' @ e))
         | Inr validate \<Rightarrow>
             case validate traits of
               Some error \<Rightarrow> Inl (SE_InvalidArgument (''traits validation failed: '' @ error))
             | None \<Rightarrow> Inr ())"

section \<open>Reference definitions\<close>

text \<open>The nesting of a value, and the values within it.\<close>

inductive nested :: "json \<Rightarrow> nat \<Rightarrow> json \<Rightarrow> bool" where
  here: "nested v 0 v"
| field: "kv \<in> set fs \<Longrightarrow> nested (snd kv) n x \<Longrightarrow> nested (JObj fs) (Suc n) x"
| item: "y \<in> set xs \<Longrightarrow> nested y n x \<Longrightarrow> nested (JArr xs) (Suc n) x"

inductive_cases nested_ObjE: "nested (JObj fs) n x"
inductive_cases nested_ArrE: "nested (JArr xs) n x"

lemma nested_scalar [simp]:
  "nested JNull n x \<longleftrightarrow> n = 0 \<and> x = JNull" "nested (JBool b) n x \<longleftrightarrow> n = 0 \<and> x = JBool b"
  "nested (JInt i) n x \<longleftrightarrow> n = 0 \<and> x = JInt i" "nested (JFloat f) n x \<longleftrightarrow> n = 0 \<and> x = JFloat f"
  "nested (JStr s) n x \<longleftrightarrow> n = 0 \<and> x = JStr s"
  by (auto elim: nested.cases intro: nested.here)

lemma nested_Obj: "nested (JObj fs) n x \<longleftrightarrow> (n = 0 \<and> x = JObj fs) \<or> (\<exists>m kv. n = Suc m \<and> kv \<in> set fs \<and> nested (snd kv) m x)"
  by (auto elim: nested_ObjE intro: nested.intros)

lemma nested_Arr: "nested (JArr xs) n x \<longleftrightarrow> (n = 0 \<and> x = JArr xs) \<or> (\<exists>m y. n = Suc m \<and> y \<in> set xs \<and> nested y m x)"
  by (auto elim: nested_ArrE intro: nested.intros)

lemma all_within_Obj:
  "(\<forall>n x. nested (JObj fs) n x \<longrightarrow> P n x) \<longleftrightarrow> P 0 (JObj fs) \<and> (\<forall>kv \<in> set fs. \<forall>n x. nested (snd kv) n x \<longrightarrow> P (Suc n) x)"
  unfolding nested_Obj by blast

lemma all_within_Arr:
  "(\<forall>n x. nested (JArr xs) n x \<longrightarrow> P n x) \<longleftrightarrow> P 0 (JArr xs) \<and> (\<forall>y \<in> set xs. \<forall>n x. nested y n x \<longrightarrow> P (Suc n) x)"
  unfolding nested_Arr by blast

text \<open>The recursive check of the code accepts the values in which nothing lies deeper than the limit.\<close>

lemma validate_schema_depth_iff:
  "validate_schema_depth v d = Inr () \<longleftrightarrow> (\<forall>n x. nested v n x \<longrightarrow> d + n \<le> MAX_SCHEMA_DEPTH)"
proof (induction v d rule: validate_schema_depth.induct)
  case (1 v d)
  show ?case
  proof (cases "d > MAX_SCHEMA_DEPTH")
    case True
    then show ?thesis using nested.here [of v] by (subst validate_schema_depth.simps) force
  next
    case False
    show ?thesis
    proof (cases v)
      case (JObj fs)
      have "validate_schema_depth v d = Inr () \<longleftrightarrow> (\<forall>kv \<in> set fs. \<forall>n x. nested (snd kv) n x \<longrightarrow> d + 1 + n \<le> MAX_SCHEMA_DEPTH)"
        using 1(2) [OF False JObj] JObj False by (subst validate_schema_depth.simps) (auto simp: first_error_Inr)
      also have "\<dots> \<longleftrightarrow> (\<forall>n x. nested v n x \<longrightarrow> d + n \<le> MAX_SCHEMA_DEPTH)"
        using False by (simp only: JObj all_within_Obj) simp
      finally show ?thesis .
    next
      case (JArr xs)
      have "validate_schema_depth v d = Inr () \<longleftrightarrow> (\<forall>y \<in> set xs. \<forall>n x. nested y n x \<longrightarrow> d + 1 + n \<le> MAX_SCHEMA_DEPTH)"
        using 1(1) [OF False JArr] JArr False by (subst validate_schema_depth.simps) (auto simp: first_error_Inr)
      also have "\<dots> \<longleftrightarrow> (\<forall>n x. nested v n x \<longrightarrow> d + n \<le> MAX_SCHEMA_DEPTH)"
        using False by (simp only: JArr all_within_Arr) simp
      finally show ?thesis .
    qed (use False in \<open>simp_all add: validate_schema_depth.simps\<close>)
  qed
qed

definition remote_ref :: "json \<Rightarrow> bool" where
  "remote_ref v \<longleftrightarrow> (\<exists>r. Option.bind (json_get v ''$ref'') as_str = Some r \<and> \<not> starts_with r ''#'')"

lemma reject_remote_refs_iff: "reject_remote_refs v = Inr () \<longleftrightarrow> (\<forall>n x. nested v n x \<longrightarrow> \<not> remote_ref x)"
proof (induction v rule: reject_remote_refs.induct)
  case (1 v)
  show ?case
  proof (cases v)
    case (JObj fs)
    show ?thesis
    proof (cases "remote_ref v")
      case True
      then show ?thesis using nested.here [of v] JObj by (subst reject_remote_refs.simps) (auto simp: remote_ref_def)
    next
      case False
      have "reject_remote_refs v = first_error (map (\<lambda>kv. reject_remote_refs (snd kv)) fs)"
        using False JObj by (subst reject_remote_refs.simps) (auto simp: remote_ref_def split: option.splits)
      moreover have "reject_remote_refs (snd kv) = Inr () \<longleftrightarrow> (\<forall>n x. nested (snd kv) n x \<longrightarrow> \<not> remote_ref x)" if "kv \<in> set fs" for kv
      proof (cases "Option.bind (map_of fs ''$ref'') as_str")
        case None
        show ?thesis by (rule 1(2) [OF JObj None that])
      next
        case (Some r)
        then have "\<not> \<not> starts_with r ''#''" using False JObj by (auto simp: remote_ref_def)
        then show ?thesis by (rule 1(3) [OF JObj Some _ that])
      qed
      ultimately have "reject_remote_refs v = Inr () \<longleftrightarrow> (\<forall>kv \<in> set fs. \<forall>n x. nested (snd kv) n x \<longrightarrow> \<not> remote_ref x)"
        by (auto simp: first_error_Inr)
      also have "\<dots> \<longleftrightarrow> (\<forall>n x. nested v n x \<longrightarrow> \<not> remote_ref x)"
        using False by (simp only: JObj all_within_Obj) simp
      finally show ?thesis .
    qed
  next
    case (JArr xs)
    have "reject_remote_refs v = Inr () \<longleftrightarrow> (\<forall>y \<in> set xs. \<forall>n x. nested y n x \<longrightarrow> \<not> remote_ref x)"
      using 1 JArr by (subst reject_remote_refs.simps) (auto simp: first_error_Inr)
    also have "\<dots> \<longleftrightarrow> (\<forall>n x. nested v n x \<longrightarrow> \<not> remote_ref x)"
      by (simp only: JArr all_within_Arr) (simp add: remote_ref_def)
    finally show ?thesis .
  qed (simp_all add: reject_remote_refs.simps remote_ref_def)
qed

text \<open>
  \<^bold>\<open>C38.\<close> What a successful validation says about the schema and the traits, whatever order the checks
  run in: the schema is small, neither it nor the traits nest deeper than the limit, no object in
  it has a reference that leaves it, and the validator has no complaint.
\<close>

theorem validate_traits_iff:
  "validate_traits lib schema traits = Inr () \<longleftrightarrow>
     length (sl_to_string lib (traits_subschema schema)) \<le> MAX_SCHEMA_SIZE_BYTES
     \<and> (\<forall>n x. nested (traits_subschema schema) n x \<longrightarrow> n \<le> MAX_SCHEMA_DEPTH \<and> \<not> remote_ref x)
     \<and> (\<forall>n x. nested traits n x \<longrightarrow> n \<le> MAX_SCHEMA_DEPTH)
     \<and> (\<exists>validate. sl_validator_for lib (traits_subschema schema) = Inr validate \<and> validate traits = None)"
proof -
  have "validate_traits lib schema traits = Inr () \<longleftrightarrow> validate_schema_size lib (traits_subschema schema) = Inr ()
      \<and> validate_schema_depth (traits_subschema schema) 0 = Inr () \<and> reject_remote_refs (traits_subschema schema) = Inr ()
      \<and> validate_schema_depth traits 0 = Inr ()
      \<and> (\<exists>validate. sl_validator_for lib (traits_subschema schema) = Inr validate \<and> validate traits = None)"
    by (simp add: validate_traits_def Let_def split: sum.splits option.splits)
  then show ?thesis
    by (auto simp: validate_schema_depth_iff reject_remote_refs_iff validate_schema_size_def)
qed

text \<open>Two schemas under a validator that has no complaint: one is used, the other leaves the document.\<close>

definition lenient_lib :: schema_lib where
  "lenient_lib = \<lparr>sl_to_string = (\<lambda>_. ''{}''), sl_validator_for = (\<lambda>_. Inr (\<lambda>_. None))\<rparr>"

definition plain_schema :: json where
  "plain_schema = JObj [(''type'', JStr ''object''), (''properties'', JObj [(''name'', JObj [(''$ref'', JStr ''#/definitions/name'')])])]"

definition remote_schema :: json where
  "remote_schema = JObj [(''properties'', JObj [(''name'', JArr [JObj [(''$ref'', JStr ''http://x/y'')]])])]"

theorem validate_traits_iff_witness:
  "validate_traits lenient_lib plain_schema (JObj []) = Inr () \<and> \<not> remote_ref plain_schema
   \<and> nested (traits_subschema remote_schema) 3 (JObj [(''$ref'', JStr ''http://x/y'')])
   \<and> validate_traits lenient_lib remote_schema (JObj []) \<noteq> Inr ()"
proof (intro conjI)
  show plain: "validate_traits lenient_lib plain_schema (JObj []) = Inr ()" by code_simp
  have "traits_subschema plain_schema = plain_schema" by code_simp
  then show "\<not> remote_ref plain_schema"
    using validate_traits_iff [of lenient_lib plain_schema "JObj []"] plain nested.here [of plain_schema] by metis
  show found: "nested (traits_subschema remote_schema) 3 (JObj [(''$ref'', JStr ''http://x/y'')])"
    by (simp add: remote_schema_def traits_subschema_def nested_Obj nested_Arr numeral_3_eq_3)
  have "remote_ref (JObj [(''$ref'', JStr ''http://x/y'')])" by (simp add: remote_ref_def starts_with_def)
  with found show "validate_traits lenient_lib remote_schema (JObj []) \<noteq> Inr ()"
    using validate_traits_iff [of lenient_lib remote_schema "JObj []"] by blast
qed

text \<open>Normalizing is idempotent on the email.\<close>

lemma json_get_json_set: "json_get (json_set (JObj fs) k v) k' = (if k' = k then Some v else json_get (JObj fs) k')"
  using json_get_set_same json_get_set_other by (metis (full_types))

lemma normalize_traits_email:
  "Option.bind (json_get traits ''email'') as_str = Some e
    \<Longrightarrow> Option.bind (json_get (normalize_traits traits) ''email'') as_str = Some (to_ascii_lowercase (trim_text e))"
  by (cases traits) (auto simp: normalize_traits_def Let_def)

end
