(* ===== verification/IdentityStores.thy ===== *)
theory IdentityStores
  imports Database
begin

text \<open>
  The stores behind identities and provisioning: \<^verbatim>\<open>db/identity_schema.rs\<close> (the trait schemas of
  a tenant, of which one may be the default) and \<^verbatim>\<open>db/scim_group.rs\<close> (SCIM groups and their
  members). Neither store opens a transaction: an operation of several statements is several
  round trips.
\<close>

section \<open>PgIdentitySchemaStore\<close>

definition schema_at :: "string \<Rightarrow> string \<Rightarrow> identity_schema_row \<Rightarrow> bool" where
  "schema_at tenant_id schema_id r \<longleftrightarrow> ish_tenant_id r = tenant_id \<and> ish_schema_id r = schema_id"

definition schema_insert_stmt :: "string \<Rightarrow> string \<Rightarrow> string \<Rightarrow> json \<Rightarrow> bool \<Rightarrow> identity_schema_row stmt" where
  "schema_insert_stmt i tenant_id schema_id schema_json is_default now db =
     (let row = \<lparr>ish_id = i, ish_tenant_id = tenant_id, ish_schema_id = schema_id, ish_schema_json = schema_json,
                 ish_version = 1, ish_is_default = is_default, ish_created_at = now, ish_updated_at = now\<rparr>
      in if \<not> tenant_exists db tenant_id then violates ''tenant_identity_schemas_tenant_id_fkey'' db
         else if i \<in> ish_id ` set (identity_schemas db) then violates ''tenant_identity_schemas_pkey'' db
         else if find (schema_at tenant_id schema_id) (identity_schemas db) \<noteq> None
           then violates ''tenant_identity_schemas_tenant_id_schema_id_key'' db
         else (Inr row, db\<lparr>identity_schemas := identity_schemas db @ [row]\<rparr>))"

definition schema_create :: "string \<Rightarrow> string \<Rightarrow> json \<Rightarrow> bool \<Rightarrow> ('z pg_scheme, db_error, identity_schema_row) io" where
  "schema_create tenant_id schema_id schema_json is_default =
     bindE ulid_new (\<lambda>i. pg_exec (schema_insert_stmt i tenant_id schema_id schema_json is_default))"

definition schema_get :: "string \<Rightarrow> string \<Rightarrow> ('z pg_scheme, db_error, identity_schema_row) io" where
  "schema_get tenant_id schema_id =
     pg_query (\<lambda>now db. ok_or SchemaNotFound (find (schema_at tenant_id schema_id) (identity_schemas db)))"

definition schema_list :: "string \<Rightarrow> ('z pg_scheme, db_error, identity_schema_row list) io" where
  "schema_list tenant_id =
     pg_query (\<lambda>now db. Inr (sort_key (\<lambda>r. - ish_created_at r)
       (filter (\<lambda>r. ish_tenant_id r = tenant_id) (identity_schemas db))))"

definition schema_delete_stmt :: "string \<Rightarrow> string \<Rightarrow> unit stmt" where
  "schema_delete_stmt tenant_id schema_id now db =
     (if filter (schema_at tenant_id schema_id) (identity_schemas db) = [] then (Inl SchemaNotFound, db)
      else (Inr (), db\<lparr>identity_schemas := filter (\<lambda>r. \<not> schema_at tenant_id schema_id r) (identity_schemas db)\<rparr>))"

definition schema_delete :: "string \<Rightarrow> string \<Rightarrow> ('z pg_scheme, db_error, unit) io" where
  "schema_delete tenant_id schema_id = pg_exec (schema_delete_stmt tenant_id schema_id)"

text \<open>\<^verbatim>\<open>UPDATE ... WHERE tenant_id AND schema_id RETURNING\<close>, the row change as an argument.\<close>

definition schema_update_rows ::
  "(instant \<Rightarrow> identity_schema_row \<Rightarrow> identity_schema_row) \<Rightarrow> string \<Rightarrow> string \<Rightarrow> identity_schema_row stmt" where
  "schema_update_rows f tenant_id schema_id now db =
     (case find (schema_at tenant_id schema_id) (identity_schemas db) of
        None \<Rightarrow> (Inl SchemaNotFound, db)
      | Some r \<Rightarrow> (Inr (f now r), db\<lparr>identity_schemas :=
          map (\<lambda>x. if schema_at tenant_id schema_id x then f now x else x) (identity_schemas db)\<rparr>))"

text \<open>The statement of \<^verbatim>\<open>update\<close> counts the version up, a \<^verbatim>\<open>BIGINT\<close> that Postgres does not let overflow.\<close>

definition schema_update_stmt :: "json \<Rightarrow> bool \<Rightarrow> string \<Rightarrow> string \<Rightarrow> identity_schema_row stmt" where
  "schema_update_stmt schema_json is_default tenant_id schema_id now db =
     (if \<exists>r \<in> set (identity_schemas db). schema_at tenant_id schema_id r \<and> ish_version r = 2 ^ 63 - 1
      then violates ''bigint out of range'' db
      else schema_update_rows (\<lambda>now r. r\<lparr>ish_schema_json := schema_json, ish_is_default := is_default,
             ish_version := ish_version r + 1, ish_updated_at := now\<rparr>) tenant_id schema_id now db)"

definition mark_default :: "instant \<Rightarrow> identity_schema_row \<Rightarrow> identity_schema_row" where
  "mark_default now r = r\<lparr>ish_is_default := True, ish_updated_at := now\<rparr>"

definition unset_default_stmt :: "string \<Rightarrow> unit stmt" where
  "unset_default_stmt tenant_id now db = (Inr (), db\<lparr>identity_schemas :=
     map (\<lambda>r. if ish_tenant_id r = tenant_id \<and> ish_is_default r
              then r\<lparr>ish_is_default := False, ish_updated_at := now\<rparr> else r) (identity_schemas db)\<rparr>)"

definition unset_default :: "string \<Rightarrow> ('z pg_scheme, db_error, unit) io" where
  "unset_default tenant_id = pg_exec (unset_default_stmt tenant_id)"

definition schema_update :: "string \<Rightarrow> string \<Rightarrow> json \<Rightarrow> bool \<Rightarrow> ('z pg_scheme, db_error, identity_schema_row) io" where
  "schema_update tenant_id schema_id schema_json is_default =
     bindE (if is_default then unset_default tenant_id else ret ()) (\<lambda>_.
     pg_exec (schema_update_stmt schema_json is_default tenant_id schema_id))"

definition schema_set_default :: "string \<Rightarrow> string \<Rightarrow> ('z pg_scheme, db_error, identity_schema_row) io" where
  "schema_set_default tenant_id schema_id =
     bindE (unset_default tenant_id) (\<lambda>_. pg_exec (schema_update_rows mark_default tenant_id schema_id))"

definition schema_get_default :: "string \<Rightarrow> ('z pg_scheme, db_error, identity_schema_row) io" where
  "schema_get_default tenant_id =
     pg_query (\<lambda>now db. case sort_key (\<lambda>r. - ish_created_at r)
         (filter (\<lambda>r. ish_tenant_id r = tenant_id \<and> ish_is_default r) (identity_schemas db)) of
       [] \<Rightarrow> Inl SchemaNotFound
     | r # _ \<Rightarrow> Inr r)"

section \<open>Constraints of the schema table\<close>

abbreviation schema_key :: "identity_schema_row \<Rightarrow> string \<times> string" where
  "schema_key r \<equiv> (ish_tenant_id r, ish_schema_id r)"

definition schemas_ok :: "database \<Rightarrow> bool" where
  "schemas_ok db \<longleftrightarrow> key_unique ish_id (identity_schemas db) \<and> key_unique schema_key (identity_schemas db)
     \<and> (\<forall>r \<in> set (identity_schemas db). tenant_exists db (ish_tenant_id r) \<and> 1 \<le> ish_version r \<and> ish_version r < 2 ^ 63)"

lemma schemas_ok_map:
  assumes ok: "schemas_ok db" and key: "\<And>r. ish_id (f r) = ish_id r \<and> schema_key (f r) = schema_key r"
    and ver: "\<And>r. r \<in> set (identity_schemas db) \<Longrightarrow> 1 \<le> ish_version (f r) \<and> ish_version (f r) < 2 ^ 63"
  shows "schemas_ok (db\<lparr>identity_schemas := map f (identity_schemas db)\<rparr>)"
proof -
  have "key_unique ish_id (map f (identity_schemas db))" "key_unique schema_key (map f (identity_schemas db))"
    using ok key_unique_map [of ish_id f "identity_schemas db"] key_unique_map [of schema_key f "identity_schemas db"] key
    by (simp_all add: schemas_ok_def)
  then show ?thesis using ok ver key by (auto simp: schemas_ok_def tenant_exists_def)
qed

lemma schemas_ok_version:
  "schemas_ok db \<Longrightarrow> r \<in> set (identity_schemas db) \<Longrightarrow> 1 \<le> ish_version r \<and> ish_version r < 2 ^ 63"
  by (simp add: schemas_ok_def)

lemma schema_stmts_ok [stmt_rules]:
  "stmt_keeps schemas_ok (schema_insert_stmt i t s j d)"
  "stmt_keeps schemas_ok (schema_delete_stmt t s)"
  "stmt_keeps schemas_ok (schema_update_stmt j d t s)"
  "stmt_keeps schemas_ok (schema_update_rows mark_default t s)"
  "stmt_keeps schemas_ok (unset_default_stmt t)"
proof -
  show "stmt_keeps schemas_ok (schema_insert_stmt i t s j d)"
    by (rule stmt_keepsI)
       (auto simp: schema_insert_stmt_def Let_def violates_def schemas_ok_def key_unique_append tenant_exists_def
         schema_at_def find_None_iff)
  show "stmt_keeps schemas_ok (schema_delete_stmt t s)"
    by (rule stmt_keepsI)
       (auto simp: schema_delete_stmt_def schemas_ok_def key_unique_filter tenant_exists_def)
  show "stmt_keeps schemas_ok (schema_update_rows mark_default t s)"
    by (rule stmt_keepsI)
       (auto simp: schema_update_rows_def mark_default_def split: option.splits intro!: schemas_ok_map dest: schemas_ok_version)
  show "stmt_keeps schemas_ok (unset_default_stmt t)"
    by (rule stmt_keepsI)
       (auto simp: unset_default_stmt_def intro!: schemas_ok_map dest: schemas_ok_version)
  show "stmt_keeps schemas_ok (schema_update_stmt j d t s)"
  proof (rule stmt_keepsI)
    fix now db
    assume ok: "schemas_ok db"
    have room: "ish_version r + 1 < 2 ^ 63"
      if "\<not> (\<exists>r \<in> set (identity_schemas db). schema_at t s r \<and> ish_version r = 2 ^ 63 - 1)"
        and "r \<in> set (identity_schemas db)" and "schema_at t s r" for r
      using that schemas_ok_version [OF ok that(2)] by force
    show "schemas_ok (snd (schema_update_stmt j d t s now db))"
      using ok room
      by (auto simp: schema_update_stmt_def schema_update_rows_def violates_def
          split: option.splits intro!: schemas_ok_map dest: schemas_ok_version)
  qed
qed

lemma keeps_schemas [keeps_rules]:
  "keeps (\<lambda>w. schemas_ok (pg_db w)) (schema_create t s j d)"
  "keeps (\<lambda>w. schemas_ok (pg_db w)) (schema_delete t s)"
  "keeps (\<lambda>w. schemas_ok (pg_db w)) (schema_update t s j d)"
  "keeps (\<lambda>w. schemas_ok (pg_db w)) (schema_set_default t s)"
  unfolding schema_create_def schema_delete_def schema_update_def schema_set_default_def unset_default_def
  by (intro keeps_rules stmt_rules)+

section \<open>The default schema\<close>

definition defaults :: "string \<Rightarrow> database \<Rightarrow> string set" where
  "defaults t db = ish_schema_id ` {r \<in> set (identity_schemas db). ish_tenant_id r = t \<and> ish_is_default r}"

lemma defaults_map:
  assumes "\<And>r. ish_schema_id (f r) = ish_schema_id r" and "\<And>r. ish_tenant_id (f r) = ish_tenant_id r"
  shows "defaults t (db\<lparr>identity_schemas := map f (identity_schemas db)\<rparr>) =
    ish_schema_id ` {r \<in> set (identity_schemas db). ish_tenant_id r = t \<and> ish_is_default (f r)}"
proof -
  have "{r \<in> set (map f (identity_schemas db)). ish_tenant_id r = t \<and> ish_is_default r} =
      f ` {r \<in> set (identity_schemas db). ish_tenant_id r = t \<and> ish_is_default (f r)}"
    by (auto simp: assms)
  then show ?thesis by (simp add: defaults_def image_image assms)
qed

lemma defaults_unset:
  "defaults t' (snd (unset_default_stmt t now db)) = (if t' = t then {} else defaults t' db)"
proof -
  define f :: "identity_schema_row \<Rightarrow> identity_schema_row" where "f = (\<lambda>r. if ish_tenant_id r = t \<and> ish_is_default r then r\<lparr>ish_is_default := False, ish_updated_at := now\<rparr> else r)"
  have f: "ish_schema_id (f r) = ish_schema_id r" "ish_tenant_id (f r) = ish_tenant_id r"
    "ish_is_default (f r) \<longleftrightarrow> ish_is_default r \<and> ish_tenant_id r \<noteq> t" for r
    by (auto simp: f_def)
  have "defaults t' (snd (unset_default_stmt t now db)) = defaults t' (db\<lparr>identity_schemas := map f (identity_schemas db)\<rparr>)"
    by (simp add: unset_default_stmt_def f_def)
  also have "\<dots> = ish_schema_id ` {r \<in> set (identity_schemas db). ish_tenant_id r = t' \<and> ish_is_default r \<and> ish_tenant_id r \<noteq> t}"
    by (simp add: defaults_map f)
  also have "\<dots> = (if t' = t then {} else defaults t' db)"
    by (auto simp: defaults_def)
  finally show ?thesis .
qed

lemma defaults_mark:
  "defaults t' (snd (schema_update_rows mark_default t s now db)) =
     defaults t' db \<union> (if t' = t \<and> find (schema_at t s) (identity_schemas db) \<noteq> None then {s} else {})"
proof (cases "find (schema_at t s) (identity_schemas db)")
  case None
  then show ?thesis by (simp add: schema_update_rows_def)
next
  case (Some r)
  then have r: "r \<in> set (identity_schemas db)" "ish_tenant_id r = t" "ish_schema_id r = s"
    by (auto dest: find_SomeD simp: schema_at_def)
  define upd where "upd = (\<lambda>x. if schema_at t s x then mark_default now x else x)"
  have upd: "ish_schema_id (upd x) = ish_schema_id x" "ish_tenant_id (upd x) = ish_tenant_id x"
    "ish_is_default (upd x) = (ish_is_default x \<or> schema_at t s x)" for x
    by (simp_all add: upd_def mark_default_def)
  have "defaults t' (snd (schema_update_rows mark_default t s now db)) =
      ish_schema_id ` {x \<in> set (identity_schemas db). ish_tenant_id x = t' \<and> (ish_is_default x \<or> schema_at t s x)}"
    using Some defaults_map [of upd t' db] by (simp add: schema_update_rows_def upd upd_def [symmetric])
  also have "\<dots> = defaults t' db \<union> ish_schema_id ` {x \<in> set (identity_schemas db). ish_tenant_id x = t' \<and> schema_at t s x}"
    by (auto simp: defaults_def)
  also have "ish_schema_id ` {x \<in> set (identity_schemas db). ish_tenant_id x = t' \<and> schema_at t s x} = (if t' = t then {s} else {})"
    using r by (force simp: schema_at_def)
  finally show ?thesis using Some by simp
qed

lemma unset_default_Inr: "unset_default t w = (Inr u, v) \<Longrightarrow> defaults t' (pg_db v) = (if t' = t then {} else defaults t' (pg_db w))"
  unfolding unset_default_def by (drule pg_exec_Inr) (simp add: defaults_unset)

text \<open>
  Setting the default replaces the default of the tenant and of no other one. When the schema
  does not exist the old default is gone all the same.
\<close>

lemma schema_set_default_effect:
  assumes "schema_set_default t s w = (x, v)" and "\<nexists>m. x = Inl (Sqlx m)"
  shows "defaults t (pg_db v) = (if x = Inl SchemaNotFound then {} else {s})"
    and "t' \<noteq> t \<Longrightarrow> defaults t' (pg_db v) = defaults t' (pg_db w)"
proof -
  obtain u where unset: "unset_default t w = (Inr (), u)" and mark: "pg_exec (schema_update_rows mark_default t s) u = (x, v)"
    using assms by (auto simp: schema_set_default_def unset_default_def unset_default_stmt_def bindE_def pg_exec_def Let_def
        split: prod.splits sum.splits option.splits fault.splits)
  have db: "x = fst (schema_update_rows mark_default t s (pg_now u) (pg_db u))"
    "pg_db v = snd (schema_update_rows mark_default t s (pg_now u) (pg_db u))"
    using mark assms(2) by (auto simp: pg_exec_def Let_def split: prod.splits option.splits fault.splits)
  have x: "x = Inl SchemaNotFound \<longleftrightarrow> find (schema_at t s) (identity_schemas (pg_db u)) = None"
    by (auto simp: db(1) schema_update_rows_def split: option.splits)
  show "defaults t (pg_db v) = (if x = Inl SchemaNotFound then {} else {s})"
    using x by (simp add: db(2) defaults_mark unset_default_Inr [OF unset])
  show "t' \<noteq> t \<Longrightarrow> defaults t' (pg_db v) = defaults t' (pg_db w)"
    by (simp add: db(2) defaults_mark unset_default_Inr [OF unset])
qed

lemma schema_get_default_Inr:
  assumes "schema_get_default t w = (Inr r, v)"
  shows "r \<in> set (identity_schemas (pg_db w)) \<and> ish_tenant_id r = t \<and> ish_schema_id r \<in> defaults t (pg_db w)"
proof -
  let ?rows = "sort_key (\<lambda>r. - ish_created_at r) (filter (\<lambda>r. ish_tenant_id r = t \<and> ish_is_default r) (identity_schemas (pg_db w)))"
  have "r \<in> set ?rows"
    using pg_query_Inr [OF assms [unfolded schema_get_default_def]] by (cases ?rows) (simp_all del: set_sort)
  then show ?thesis by (auto simp: defaults_def)
qed

lemma schema_get_Inr:
  assumes "schema_get t s w = (Inr r, v)"
  shows "r \<in> set (identity_schemas (pg_db w)) \<and> ish_tenant_id r = t \<and> ish_schema_id r = s"
  using pg_query_Inr [OF assms [unfolded schema_get_def]] find_SomeD [of "schema_at t s"]
  by (fastforce simp: schema_at_def)

section \<open>PgScimGroupStore\<close>

definition group_at :: "string \<Rightarrow> string \<Rightarrow> scim_group_row \<Rightarrow> bool" where
  "group_at tenant_id i g \<longleftrightarrow> sg_tenant_id g = tenant_id \<and> sg_id g = i"

definition scim_group_insert_stmt :: "string \<Rightarrow> string \<Rightarrow> string \<Rightarrow> scim_group_row stmt" where
  "scim_group_insert_stmt i tenant_id display_name now db =
     (let row = \<lparr>sg_id = i, sg_tenant_id = tenant_id, sg_display_name = display_name, sg_created_at = now, sg_updated_at = now\<rparr>
      in if i \<in> sg_id ` set (scim_groups db) then violates ''scim_groups_pkey'' db
         else (Inr row, db\<lparr>scim_groups := scim_groups db @ [row]\<rparr>))"

definition scim_group_create :: "string \<Rightarrow> string \<Rightarrow> ('z pg_scheme, db_error, scim_group_row) io" where
  "scim_group_create tenant_id display_name =
     bindE ulid_new (\<lambda>i. pg_exec (scim_group_insert_stmt i tenant_id display_name))"

definition scim_group_get :: "string \<Rightarrow> string \<Rightarrow> ('z pg_scheme, db_error, scim_group_row) io" where
  "scim_group_get tenant_id i = pg_query (\<lambda>now db. ok_or TenantNotFound (find (group_at tenant_id i) (scim_groups db)))"

definition scim_group_list :: "string \<Rightarrow> ('z pg_scheme, db_error, scim_group_row list) io" where
  "scim_group_list tenant_id =
     pg_query (\<lambda>now db. Inr (sort_key (\<lambda>g. - sg_created_at g) (filter (\<lambda>g. sg_tenant_id g = tenant_id) (scim_groups db))))"

definition scim_group_update_stmt :: "string \<Rightarrow> string \<Rightarrow> string \<Rightarrow> scim_group_row stmt" where
  "scim_group_update_stmt tenant_id i display_name now db =
     (let upd = (\<lambda>g. g\<lparr>sg_display_name := display_name, sg_updated_at := now\<rparr>)
      in case find (group_at tenant_id i) (scim_groups db) of
           None \<Rightarrow> (Inl TenantNotFound, db)
         | Some g \<Rightarrow> (Inr (upd g), db\<lparr>scim_groups := map (\<lambda>x. if group_at tenant_id i x then upd x else x) (scim_groups db)\<rparr>))"

definition scim_group_update :: "string \<Rightarrow> string \<Rightarrow> string \<Rightarrow> ('z pg_scheme, db_error, scim_group_row) io" where
  "scim_group_update tenant_id i display_name = pg_exec (scim_group_update_stmt tenant_id i display_name)"

text \<open>Deleting a group deletes its members (\<^verbatim>\<open>ON DELETE CASCADE\<close>).\<close>

definition scim_group_delete_stmt :: "string \<Rightarrow> string \<Rightarrow> unit stmt" where
  "scim_group_delete_stmt tenant_id i now db =
     (if filter (group_at tenant_id i) (scim_groups db) = [] then (Inl TenantNotFound, db)
      else (Inr (), db\<lparr>scim_groups := filter (\<lambda>g. \<not> group_at tenant_id i g) (scim_groups db),
              scim_group_members := filter (\<lambda>m. sm_group_id m \<noteq> i) (scim_group_members db)\<rparr>))"

definition scim_group_delete :: "string \<Rightarrow> string \<Rightarrow> ('z pg_scheme, db_error, unit) io" where
  "scim_group_delete tenant_id i = pg_exec (scim_group_delete_stmt tenant_id i)"

definition scim_member_insert_stmt :: "string \<Rightarrow> string \<Rightarrow> unit stmt" where
  "scim_member_insert_stmt group_id user_id now db =
     (if find (\<lambda>m. sm_group_id m = group_id \<and> sm_user_id m = user_id) (scim_group_members db) \<noteq> None then (Inr (), db)
      else if group_id \<notin> sg_id ` set (scim_groups db) then violates ''scim_group_members_group_id_fkey'' db
      else (Inr (), db\<lparr>scim_group_members := scim_group_members db
             @ [\<lparr>sm_group_id = group_id, sm_user_id = user_id, sm_created_at = now\<rparr>]\<rparr>))"

definition scim_add_member :: "string \<Rightarrow> string \<Rightarrow> string \<Rightarrow> ('z pg_scheme, db_error, unit) io" where
  "scim_add_member tenant_id group_id user_id =
     bindE (scim_group_get tenant_id group_id) (\<lambda>_. pg_exec (scim_member_insert_stmt group_id user_id))"

definition scim_members_delete_stmt :: "(scim_member_row \<Rightarrow> bool) \<Rightarrow> unit stmt" where
  "scim_members_delete_stmt hit now db =
     (Inr (), db\<lparr>scim_group_members := filter (\<lambda>m. \<not> hit m) (scim_group_members db)\<rparr>)"

definition scim_remove_member :: "string \<Rightarrow> string \<Rightarrow> string \<Rightarrow> ('z pg_scheme, db_error, unit) io" where
  "scim_remove_member tenant_id group_id user_id =
     pg_exec (scim_members_delete_stmt (\<lambda>m. sm_group_id m = group_id \<and> sm_user_id m = user_id))"

definition scim_list_members :: "string \<Rightarrow> ('z pg_scheme, db_error, string list) io" where
  "scim_list_members group_id =
     pg_query (\<lambda>now db. Inr (map sm_user_id (sort_key (\<lambda>m. - sm_created_at m)
       (filter (\<lambda>m. sm_group_id m = group_id) (scim_group_members db)))))"

definition scim_list_user_groups :: "string \<Rightarrow> ('z pg_scheme, db_error, string list) io" where
  "scim_list_user_groups user_id =
     pg_query (\<lambda>now db. Inr (map sm_group_id (sort_key (\<lambda>m. - sm_created_at m)
       (filter (\<lambda>m. sm_user_id m = user_id) (scim_group_members db)))))"

definition scim_remove_user_from_all_groups :: "string \<Rightarrow> ('z pg_scheme, db_error, unit) io" where
  "scim_remove_user_from_all_groups user_id = pg_exec (scim_members_delete_stmt (\<lambda>m. sm_user_id m = user_id))"

section \<open>Constraints of the group tables\<close>

abbreviation member_key :: "scim_member_row \<Rightarrow> string \<times> string" where
  "member_key m \<equiv> (sm_group_id m, sm_user_id m)"

definition scim_groups_ok :: "database \<Rightarrow> bool" where
  "scim_groups_ok db \<longleftrightarrow> key_unique sg_id (scim_groups db) \<and> key_unique member_key (scim_group_members db)
     \<and> (\<forall>m \<in> set (scim_group_members db). sm_group_id m \<in> sg_id ` set (scim_groups db))"

definition members_of_group :: "database \<Rightarrow> string \<Rightarrow> string set" where
  "members_of_group db i = sm_user_id ` {m \<in> set (scim_group_members db). sm_group_id m = i}"

lemma scim_stmts_ok [stmt_rules]:
  "stmt_keeps scim_groups_ok (scim_group_insert_stmt i t n)"
  "stmt_keeps scim_groups_ok (scim_group_update_stmt t i n)"
  "stmt_keeps scim_groups_ok (scim_group_delete_stmt t i)"
  "stmt_keeps scim_groups_ok (scim_member_insert_stmt i u)"
  "stmt_keeps scim_groups_ok (scim_members_delete_stmt hit)"
proof -
  show "stmt_keeps scim_groups_ok (scim_group_insert_stmt i t n)"
    by (rule stmt_keepsI) (auto simp: scim_group_insert_stmt_def Let_def violates_def scim_groups_ok_def key_unique_append)
  show "stmt_keeps scim_groups_ok (scim_member_insert_stmt i u)"
    by (rule stmt_keepsI)
       (auto simp: scim_member_insert_stmt_def violates_def scim_groups_ok_def key_unique_append find_None_iff)
  show "stmt_keeps scim_groups_ok (scim_members_delete_stmt hit)"
    by (rule stmt_keepsI) (auto simp: scim_members_delete_stmt_def scim_groups_ok_def key_unique_filter)
  show "stmt_keeps scim_groups_ok (scim_group_delete_stmt t i)"
    by (rule stmt_keepsI)
       (auto simp: scim_group_delete_stmt_def scim_groups_ok_def key_unique_filter group_at_def image_iff)
  show "stmt_keeps scim_groups_ok (scim_group_update_stmt t i n)"
  proof (rule stmt_keepsI)
    fix now db
    assume ok: "scim_groups_ok db"
    let ?upd = "\<lambda>g. if group_at t i g then g\<lparr>sg_display_name := n, sg_updated_at := now\<rparr> else g"
    have "key_unique sg_id (map ?upd (scim_groups db)) = key_unique sg_id (scim_groups db)"
      "sg_id ` set (map ?upd (scim_groups db)) = sg_id ` set (scim_groups db)"
      by (rule key_unique_map, simp) (rule key_image_map, simp)
    with ok show "scim_groups_ok (snd (scim_group_update_stmt t i n now db))"
      by (simp add: scim_group_update_stmt_def Let_def scim_groups_ok_def del: set_map split: option.splits)
  qed
qed

lemma keeps_scim_groups [keeps_rules]:
  "keeps (\<lambda>w. scim_groups_ok (pg_db w)) (scim_group_create t n)"
  "keeps (\<lambda>w. scim_groups_ok (pg_db w)) (scim_group_get t i)"
  "keeps (\<lambda>w. scim_groups_ok (pg_db w)) (scim_group_update t i n)"
  "keeps (\<lambda>w. scim_groups_ok (pg_db w)) (scim_group_delete t i)"
  "keeps (\<lambda>w. scim_groups_ok (pg_db w)) (scim_add_member t i u)"
  "keeps (\<lambda>w. scim_groups_ok (pg_db w)) (scim_remove_member t i u)"
  "keeps (\<lambda>w. scim_groups_ok (pg_db w)) (scim_remove_user_from_all_groups u)"
  unfolding scim_group_create_def scim_group_get_def scim_group_update_def scim_group_delete_def scim_add_member_def scim_remove_member_def
    scim_remove_user_from_all_groups_def
  by (intro keeps_rules stmt_rules)+

text \<open>A member is added only to a group of the tenant; it is removed from any group.\<close>

lemma scim_add_member_tenant:
  assumes "scim_add_member t i u w = (Inr x, v)"
  shows "(\<exists>g \<in> set (scim_groups (pg_db w)). group_at t i g) \<and> members_of_group (pg_db v) i = insert u (members_of_group (pg_db w) i)"
proof -
  obtain g w' where get: "scim_group_get t i w = (Inr g, w')" and ins: "pg_exec (scim_member_insert_stmt i u) w' = (Inr x, v)"
    using assms by (auto simp: scim_add_member_def elim: bindE_InrE)
  have g: "find (group_at t i) (scim_groups (pg_db w)) = Some g" and w': "pg_db w' = pg_db w"
    using pg_query_Inr [OF get [unfolded scim_group_get_def]] by auto
  have "members_of_group (pg_db v) i = insert u (members_of_group (pg_db w) i)"
    using pg_exec_Inr [OF ins] w'
    by (auto simp: scim_member_insert_stmt_def violates_def members_of_group_def find_None_iff split: if_splits)
      (auto simp: image_iff dest!: find_SomeD)
  then show ?thesis using find_SomeD [OF g] by blast
qed

lemma scim_remove_member_any:
  assumes "scim_remove_member t i u w = (Inr x, v)"
  shows "members_of_group (pg_db v) i = members_of_group (pg_db w) i - {u}"
  using pg_exec_Inr [OF assms [unfolded scim_remove_member_def]]
  by (auto simp: scim_members_delete_stmt_def members_of_group_def)

end
