(* ===== verification/IdentityService.thy ===== *)
theory IdentityService
  imports IdentityTraits IdentityStores Consent AgentStores SelfServicePaths
begin

text \<open>
  The identity service, \<^verbatim>\<open>services/identity.rs\<close>. The gateway owns the traits of an identity (a
  membership row, bound to a schema of the tenant); Kratos holds the email and the
  credentials. Identities, flows, sessions and tokens of Kratos cross the API under public ids.
  Kratos is a record of operations on an opaque state; the URL library, percent encoding, the
  Protobuf \<^verbatim>\<open>Struct\<close> and RFC 3339 parsing are parameters.
\<close>

section \<open>The service\<close>

record 'k identity_kratos =
  ik_create_identity :: "json \<Rightarrow> ('k, ory_error, json) io"
  ik_get_identity :: "string \<Rightarrow> ('k, ory_error, json) io"
  ik_update_identity :: "string \<Rightarrow> json \<Rightarrow> ('k, ory_error, json) io"
  ik_delete_identity :: "string \<Rightarrow> ('k, ory_error, unit) io"
  ik_create_login_flow :: "(string \<times> string) list \<Rightarrow> ('k, ory_error, json) io"
  ik_create_registration_flow :: "(string \<times> string) list \<Rightarrow> ('k, ory_error, json) io"
  ik_admin_get_session :: "string \<Rightarrow> ('k, ory_error, json) io"
  ik_list_sessions_by_identity :: "string \<Rightarrow> ('k, ory_error, json) io"
  ik_delete_session :: "string \<Rightarrow> ('k, ory_error, unit) io"
  ik_create_recovery_link :: "string \<Rightarrow> int option \<Rightarrow> ('k, ory_error, json) io"
  ik_list_courier_messages :: "string option \<Rightarrow> string option \<Rightarrow> ('k, ory_error, json) io"

text \<open>\<open>iv_parse_url\<close> gives the query pairs of a URL, or the text of the error.\<close>

record 'k identity_service =
  iv_kratos :: "'k identity_kratos"
  iv_ui_public_url :: string
  iv_kratos_default_schema_id :: string
  iv_schema_lib :: schema_lib
  iv_to_struct :: "json \<Rightarrow> json option"
  iv_parse_url :: "string \<Rightarrow> string + (string \<times> string) list"
  iv_urlencode :: "string \<Rightarrow> string"
  iv_parse_timestamp :: "string \<Rightarrow> timestamp option"

abbreviation kra :: "('k, ory_error, 'a) io \<Rightarrow> (('f, 'h, 'k, 'z) ory_world_scheme, service_error, 'a) io" where
  "kra m \<equiv> map_err map_ory_error (kratos_op m)"

definition TOKEN_TYPE_FLOW :: string where "TOKEN_TYPE_FLOW = ''flow''"
definition TOKEN_TYPE_SESSION :: string where "TOKEN_TYPE_SESSION = ''session''"
definition TOKEN_TYPE_RECOVERY_TOKEN :: string where "TOKEN_TYPE_RECOVERY_TOKEN = ''recovery_token''"
definition TOKEN_TYPE_VERIFICATION_TOKEN :: string where "TOKEN_TYPE_VERIFICATION_TOKEN = ''verification_token''"
definition TOKEN_TYPE_LOGIN_CHALLENGE :: string where "TOKEN_TYPE_LOGIN_CHALLENGE = ''login_challenge''"

definition identity_transient_expiry :: "('z pg_scheme, 'e, instant) io" where
  "identity_transient_expiry = bindE now_utc (\<lambda>now. ret (now + 3600 * nanos_per_second))"

definition resolve_login_challenge :: "string \<Rightarrow> string \<Rightarrow> ('z pg_scheme, service_error, string) io" where
  "resolve_login_challenge tenant_id login_challenge =
     attempt (get_ory_token tenant_id ''hydra'' TOKEN_TYPE_LOGIN_CHALLENGE login_challenge) (\<lambda>r. case r of
         Inr ory \<Rightarrow> ret ory
       | Inl err \<Rightarrow> if err = MappingNotFound then ret login_challenge else raise (service_error_of_db err))"

section \<open>Messages\<close>

record identity =
  id_id :: string
  id_tenant_id :: string
  id_schema_id :: string
  id_traits :: "json option"

record identity_schema =
  ip_id :: string
  ip_tenant_id :: string
  ip_schema_id :: string
  ip_schema_json :: json
  ip_is_default :: bool

record flow =
  fl_id :: string
  fl_type :: string
  fl_tenant_id :: string
  fl_identity_id :: string
  fl_expires_at :: "timestamp option"
  fl_ui :: json

record session_info =
  ss_id :: string
  ss_identity_id :: string
  ss_tenant_id :: string
  ss_active :: bool

record recovery_link =
  rl_recovery_link :: string
  rl_recovery_token :: string
  rl_flow :: string
  rl_expires_at :: "timestamp option"

record verification_message =
  vm_id :: string
  vm_type :: string
  vm_subject :: string
  vm_body :: string
  vm_status :: string
  vm_recipient :: string
  vm_sent_at :: "timestamp option"
  vm_link :: string
  vm_flow :: string

text \<open>A field of a request that is a \<^verbatim>\<open>Struct\<close>: absent, not expressible as JSON, or a value.\<close>

definition struct_field :: "string \<Rightarrow> (string + json) option \<Rightarrow> service_error + json" where
  "struct_field what x =
     (case x of None \<Rightarrow> Inr (JObj []) | Some (Inr v) \<Rightarrow> Inr v | Some (Inl e) \<Rightarrow> Inl (SE_InvalidArgument (what @ e)))"

definition build_kratos_identity_payload :: "string \<Rightarrow> string \<Rightarrow> string \<Rightarrow> json" where
  "build_kratos_identity_payload base_schema_id email password =
     (let payload = JObj [(''schema_id'', JStr base_schema_id), (''traits'', JObj [(''email'', JStr email)])]
      in if password = [] then payload
         else json_set payload ''credentials'' (JObj [(''password'', JObj [(''config'', JObj [(''password'', JStr password)])])]))"

definition identity_from_traits :: "(json \<Rightarrow> json option) \<Rightarrow> string \<Rightarrow> string \<Rightarrow> string \<Rightarrow> json \<Rightarrow> identity" where
  "identity_from_traits to_struct tenant_id public_id schema_id traits =
     \<lparr>id_id = public_id, id_tenant_id = tenant_id, id_schema_id = schema_id, id_traits = to_struct traits\<rparr>"

definition schema_row_to_proto :: "(json \<Rightarrow> json option) \<Rightarrow> identity_schema_row \<Rightarrow> identity_schema" where
  "schema_row_to_proto to_struct row =
     \<lparr>ip_id = ish_id row, ip_tenant_id = ish_tenant_id row, ip_schema_id = ish_schema_id row,
      ip_schema_json = (case to_struct (ish_schema_json row) of Some s \<Rightarrow> s | None \<Rightarrow> JObj []), ip_is_default = ish_is_default row\<rparr>"

definition text_of :: "json \<Rightarrow> string \<Rightarrow> string" where
  "text_of v k = (case as_str (json_index v k) of Some s \<Rightarrow> s | None \<Rightarrow> [])"

definition kratos_flow_to_flow :: "'k identity_service \<Rightarrow> json \<Rightarrow> string \<Rightarrow> string \<Rightarrow> string \<Rightarrow> flow" where
  "kratos_flow_to_flow svc v tenant_id public_flow_id public_identity_id =
     \<lparr>fl_id = public_flow_id, fl_type = text_of v ''type'', fl_tenant_id = tenant_id, fl_identity_id = public_identity_id,
      fl_expires_at = Option.bind (as_str (json_index v ''expires_at'')) (iv_parse_timestamp svc),
      fl_ui = (case iv_to_struct svc (json_index v ''ui'') of Some s \<Rightarrow> s | None \<Rightarrow> JObj [])\<rparr>"

text \<open>The first self-service URL of a message: an anchor's, or else a word that is one.\<close>

fun after_first :: "string \<Rightarrow> string \<Rightarrow> string option" where
  "after_first pat s = (if starts_with s pat then Some (drop (length pat) s) else case s of [] \<Rightarrow> None | _ # cs \<Rightarrow> after_first pat cs)"

declare after_first.simps [simp del]

definition contains_text :: "string \<Rightarrow> string \<Rightarrow> bool" where
  "contains_text s pat \<longleftrightarrow> after_first pat s \<noteq> None"

definition quote_char :: char where "quote_char = CHR 0x22"

definition strip_quotes :: "string \<Rightarrow> string" where
  "strip_quotes word =
     (let q = (\<lambda>c. c = quote_char \<or> c = CHR 0x27 \<or> c = CHR ''<'' \<or> c = CHR ''>'')
      in rev (dropWhile q (rev (dropWhile q word))))"

definition extract_first_self_service_link :: "string \<Rightarrow> string option" where
  "extract_first_self_service_link body =
     (let anchor = (case Option.bind (after_first (''href='' @ [quote_char]) body) (split_once quote_char) of
        Some (url, _) \<Rightarrow> if contains_text url ''/self-service/'' then Some url else None
      | None \<Rightarrow> None)
      in case anchor of
        Some url \<Rightarrow> Some url
      | None \<Rightarrow> find (\<lambda>w. (starts_with w ''http://'' \<or> starts_with w ''https://'') \<and> contains_text w ''/self-service/'')
                  (map strip_quotes (split_whitespace body)))"

section \<open>Identifiers\<close>

definition identity_backfill :: "'k identity_service \<Rightarrow> string \<Rightarrow> string \<Rightarrow> string
    \<Rightarrow> (('f, 'h, 'k, 'z) ory_world_scheme, service_error, tenant_membership_row) io" where
  "identity_backfill svc tenant_id public_id ory_id =
     bindE (kra (ik_get_identity (iv_kratos svc) ory_id)) (\<lambda>identity.
     let schema_id = (case as_str (json_index identity ''schema_id'') of Some v \<Rightarrow> v | None \<Rightarrow> ''default'');
         traits = (case json_index identity ''traits'' of JObj fs \<Rightarrow> JObj fs | _ \<Rightarrow> JObj [])
     in dbq (membership_upsert tenant_id public_id schema_id 1 traits))"

definition resolve_identity :: "'k identity_service \<Rightarrow> string \<Rightarrow> string
    \<Rightarrow> (('f, 'h, 'k, 'z) ory_world_scheme, service_error, string \<times> tenant_membership_row) io" where
  "resolve_identity svc tenant_id public_id =
     bindE (dbq (get_ory_id tenant_id ''kratos'' public_id)) (\<lambda>ory_id.
     attempt (membership_get tenant_id public_id) (\<lambda>r. case r of
         Inr membership \<Rightarrow> ret (ory_id, membership)
       | Inl err \<Rightarrow>
           if err = MembershipNotFound
           then bindE (identity_backfill svc tenant_id public_id ory_id) (\<lambda>membership. ret (ory_id, membership))
           else raise (service_error_of_db err)))"

definition mint_alias :: "string \<Rightarrow> string \<Rightarrow> string \<Rightarrow> ('z pg_scheme, service_error, string) io" where
  "mint_alias tenant_id token_type ory_token =
     bindE identity_transient_expiry (\<lambda>expiry. dbq (transient_create tenant_id ''kratos'' token_type ory_token expiry))"

definition public_flow :: "string \<Rightarrow> json \<Rightarrow> ('z pg_scheme, service_error, string) io" where
  "public_flow tenant_id flow =
     (case as_str (json_index flow ''id'') of
        Some i \<Rightarrow> if i = [] then ret [] else mint_alias tenant_id TOKEN_TYPE_FLOW i
      | None \<Rightarrow> ret [])"

definition public_identity_in_flow :: "string \<Rightarrow> json \<Rightarrow> ('z pg_scheme, service_error, string) io" where
  "public_identity_in_flow tenant_id flow =
     (case as_str (json_index (json_index flow ''identity'') ''id'') of
        Some i \<Rightarrow> if i = [] then ret [] else dbq (get_public_id tenant_id ''kratos'' i)
      | None \<Rightarrow> ret [])"

definition public_session :: "string \<Rightarrow> json \<Rightarrow> ('z pg_scheme, service_error, string) io" where
  "public_session tenant_id session =
     (case as_str (json_index session ''id'') of
        Some i \<Rightarrow> if i = [] then ret [] else mint_alias tenant_id TOKEN_TYPE_SESSION i
      | None \<Rightarrow> ret [])"

definition resolve_schema :: "string \<Rightarrow> string \<Rightarrow> ('z pg_scheme, service_error, identity_schema_row) io" where
  "resolve_schema tenant_id schema_id =
     (if schema_id = [] then dbq (schema_get_default tenant_id) else dbq (schema_get tenant_id schema_id))"

section \<open>Identities\<close>

definition identity_reader :: "request_context \<Rightarrow> service_error + string" where
  "identity_reader ctx =
     (case require_tenant ctx of
        Inl e \<Rightarrow> Inl e
      | Inr tenant_id \<Rightarrow>
          (case require_scope_any ctx [SCOPE_IDENTITY_READ, SCOPE_IDENTITY_ADMIN] of Inl e \<Rightarrow> Inl e | Inr _ \<Rightarrow> Inr tenant_id))"

definition identity_admin :: "request_context \<Rightarrow> service_error + string" where
  "identity_admin ctx =
     (case require_tenant ctx of
        Inl e \<Rightarrow> Inl e
      | Inr tenant_id \<Rightarrow> (case require_scope ctx SCOPE_IDENTITY_ADMIN of Inl e \<Rightarrow> Inl e | Inr _ \<Rightarrow> Inr tenant_id))"

text \<open>Traits as they are stored: normalized and valid, with the email.\<close>

definition checked_traits :: "schema_lib \<Rightarrow> identity_schema_row \<Rightarrow> (string + json) option \<Rightarrow> service_error + json \<times> string" where
  "checked_traits lib schema traits =
     (case struct_field ''invalid traits: '' traits of Inl e \<Rightarrow> Inl e | Inr v \<Rightarrow>
        let traits_json = normalize_traits v
        in case validate_traits lib (ish_schema_json schema) traits_json of Inl e \<Rightarrow> Inl e | Inr _ \<Rightarrow>
           (case extract_email traits_json of Inl e \<Rightarrow> Inl e | Inr email \<Rightarrow> Inr (traits_json, email)))"

definition create_identity :: "'k identity_service \<Rightarrow> request_context \<Rightarrow> string \<Rightarrow> (string + json) option \<Rightarrow> string
    \<Rightarrow> (('f, 'h, 'k, 'z) ory_world_scheme, service_error, identity) io" where
  "create_identity svc ctx schema_id traits password =
     bindE (lift_result (identity_admin ctx)) (\<lambda>tenant_id.
     bindE (resolve_schema tenant_id schema_id) (\<lambda>schema.
     bindE (lift_result (checked_traits (iv_schema_lib svc) schema traits)) (\<lambda>(traits_json, email).
     bindE (kra (ik_create_identity (iv_kratos svc) (build_kratos_identity_payload (iv_kratos_default_schema_id svc) email password)))
       (\<lambda>created.
     bindE (lift_result (ok_or (SE_Internal ''kratos response missing id'') (as_str (json_index created ''id'')))) (\<lambda>ory_id.
     bindE ulid_new (\<lambda>public_id.
     bindE (dbq (id_mapping_create tenant_id ''kratos'' public_id ory_id)) (\<lambda>_.
     attempt (membership_upsert tenant_id public_id (ish_schema_id schema) (ish_version schema) traits_json) (\<lambda>r. case r of
         Inr _ \<Rightarrow> ret (identity_from_traits (iv_to_struct svc) tenant_id public_id (ish_schema_id schema) traits_json)
       | Inl err \<Rightarrow> bindE (best_effort (kratos_op (ik_delete_identity (iv_kratos svc) ory_id))) (\<lambda>_.
           raise (service_error_of_db err))))))))))"

definition get_identity :: "'k identity_service \<Rightarrow> request_context \<Rightarrow> string
    \<Rightarrow> (('f, 'h, 'k, 'z) ory_world_scheme, service_error, identity) io" where
  "get_identity svc ctx i =
     bindE (lift_result (identity_reader ctx)) (\<lambda>tenant_id.
     bindE (resolve_identity svc tenant_id i) (\<lambda>(_, membership).
     ret (identity_from_traits (iv_to_struct svc) tenant_id i (tm_schema_id membership) (tm_traits membership))))"

text \<open>An identity that does not resolve is left out of the list.\<close>

fun resolved_identities :: "'k identity_service \<Rightarrow> string \<Rightarrow> string list
    \<Rightarrow> (('f, 'h, 'k, 'z) ory_world_scheme, service_error, identity list) io" where
  "resolved_identities svc tenant_id [] = ret []"
| "resolved_identities svc tenant_id (i # is) =
     attempt (resolve_identity svc tenant_id i) (\<lambda>r.
     bindE (resolved_identities svc tenant_id is) (\<lambda>rest.
     ret (case r of
       Inr (_, m) \<Rightarrow> identity_from_traits (iv_to_struct svc) tenant_id i (tm_schema_id m) (tm_traits m) # rest
     | Inl _ \<Rightarrow> rest)))"

definition list_identities :: "'k identity_service \<Rightarrow> request_context
    \<Rightarrow> (('f, 'h, 'k, 'z) ory_world_scheme, service_error, identity list) io" where
  "list_identities svc ctx =
     bindE (lift_result (identity_reader ctx)) (\<lambda>tenant_id.
     bindE (dbq (list_public_ids tenant_id ''kratos'')) (resolved_identities svc tenant_id))"

definition apply_identity_update ::
  "'k identity_service \<Rightarrow> string \<Rightarrow> string \<Rightarrow> string \<Rightarrow> tenant_membership_row \<Rightarrow> string \<Rightarrow> (string + json) option
    \<Rightarrow> (('f, 'h, 'k, 'z) ory_world_scheme, service_error, identity) io" where
  "apply_identity_update svc tenant_id i ory_id current schema_id traits =
     bindE (resolve_schema tenant_id (if schema_id = [] then tm_schema_id current else schema_id)) (\<lambda>schema.
     bindE (lift_result (checked_traits (iv_schema_lib svc) schema traits)) (\<lambda>(traits_json, email).
     bindE (guard_err (case Option.bind (json_get (tm_traits current) ''email'') as_str of
                         Some current_email \<Rightarrow> current_email \<noteq> [] \<and> email \<noteq> current_email
                       | None \<Rightarrow> False) (SE_InvalidArgument ''email is immutable'')) (\<lambda>_.
     bindE (kra (ik_update_identity (iv_kratos svc) ory_id (build_kratos_identity_payload (iv_kratos_default_schema_id svc) email [])))
       (\<lambda>_.
     bindE (dbq (membership_upsert tenant_id i (ish_schema_id schema) (ish_version schema) traits_json)) (\<lambda>membership.
     ret (identity_from_traits (iv_to_struct svc) tenant_id i (tm_schema_id membership) traits_json))))))"

definition update_identity :: "'k identity_service \<Rightarrow> request_context \<Rightarrow> string \<Rightarrow> string \<Rightarrow> (string + json) option
    \<Rightarrow> (('f, 'h, 'k, 'z) ory_world_scheme, service_error, identity) io" where
  "update_identity svc ctx i schema_id traits =
     bindE (lift_result (identity_admin ctx)) (\<lambda>tenant_id.
     bindE (resolve_identity svc tenant_id i) (\<lambda>(ory_id, current).
     apply_identity_update svc tenant_id i ory_id current schema_id traits))"

definition delete_identity :: "'k identity_service \<Rightarrow> request_context \<Rightarrow> string
    \<Rightarrow> (('f, 'h, 'k, 'z) ory_world_scheme, service_error, unit) io" where
  "delete_identity svc ctx i =
     bindE (lift_result (identity_admin ctx)) (\<lambda>tenant_id.
     bindE (dbq (get_ory_id tenant_id ''kratos'' i)) (\<lambda>ory_id.
     bindE (kra (ik_delete_identity (iv_kratos svc) ory_id)) (\<lambda>_.
     dbq (id_mapping_delete tenant_id ''kratos'' i))))"

section \<open>Schemas\<close>

definition create_identity_schema :: "'k identity_service \<Rightarrow> request_context \<Rightarrow> string \<Rightarrow> (string + json) option \<Rightarrow> bool
    \<Rightarrow> ('z pg_scheme, service_error, identity_schema) io" where
  "create_identity_schema svc ctx schema_id schema_json is_default =
     bindE (lift_result (identity_admin ctx)) (\<lambda>tenant_id.
     bindE (lift_result (struct_field ''invalid schema: '' schema_json)) (\<lambda>v.
     bindE (lift_result (require_email_string_schema v)) (\<lambda>_.
     bindE (dbq (schema_create tenant_id schema_id v is_default)) (\<lambda>row.
     ret (schema_row_to_proto (iv_to_struct svc) row)))))"

definition get_identity_schema :: "'k identity_service \<Rightarrow> request_context \<Rightarrow> string \<Rightarrow> ('z pg_scheme, service_error, identity_schema) io" where
  "get_identity_schema svc ctx schema_id =
     bindE (lift_result (identity_reader ctx)) (\<lambda>tenant_id.
     bindE (dbq (schema_get tenant_id schema_id)) (\<lambda>row. ret (schema_row_to_proto (iv_to_struct svc) row)))"

definition list_identity_schemas :: "'k identity_service \<Rightarrow> request_context \<Rightarrow> ('z pg_scheme, service_error, identity_schema list) io" where
  "list_identity_schemas svc ctx =
     bindE (lift_result (identity_reader ctx)) (\<lambda>tenant_id.
     bindE (dbq (schema_list tenant_id)) (\<lambda>rows. ret (map (schema_row_to_proto (iv_to_struct svc)) rows)))"

definition update_identity_schema :: "'k identity_service \<Rightarrow> request_context \<Rightarrow> string \<Rightarrow> (string + json) option \<Rightarrow> bool
    \<Rightarrow> ('z pg_scheme, service_error, identity_schema) io" where
  "update_identity_schema svc ctx schema_id schema_json is_default =
     bindE (lift_result (identity_admin ctx)) (\<lambda>tenant_id.
     bindE (lift_result (struct_field ''invalid schema: '' schema_json)) (\<lambda>v.
     bindE (lift_result (require_email_string_schema v)) (\<lambda>_.
     bindE (dbq (schema_update tenant_id schema_id v is_default)) (\<lambda>row.
     ret (schema_row_to_proto (iv_to_struct svc) row)))))"

definition delete_identity_schema :: "'k identity_service \<Rightarrow> request_context \<Rightarrow> string \<Rightarrow> ('z pg_scheme, service_error, unit) io" where
  "delete_identity_schema svc ctx schema_id =
     bindE (lift_result (identity_admin ctx)) (\<lambda>tenant_id. dbq (schema_delete tenant_id schema_id))"

definition set_default_identity_schema :: "'k identity_service \<Rightarrow> request_context \<Rightarrow> string \<Rightarrow> ('z pg_scheme, service_error, identity_schema) io" where
  "set_default_identity_schema svc ctx schema_id =
     bindE (lift_result (identity_admin ctx)) (\<lambda>tenant_id.
     bindE (dbq (schema_set_default tenant_id schema_id)) (\<lambda>row. ret (schema_row_to_proto (iv_to_struct svc) row)))"

section \<open>Flows\<close>

definition opt_pair :: "string \<Rightarrow> string \<Rightarrow> (string \<times> string) list" where
  "opt_pair k v = (if v = [] then [] else [(k, v)])"

record login_flow_request =
  lf_return_to :: string
  lf_aal :: string
  lf_refresh :: bool
  lf_organization :: string
  lf_via :: string
  lf_login_challenge :: string
  lf_identity_schema :: string

definition challenge_pair :: "string \<Rightarrow> string \<Rightarrow> ('z pg_scheme, service_error, (string \<times> string) list) io" where
  "challenge_pair tenant_id login_challenge =
     (if login_challenge = [] then ret []
      else bindE (resolve_login_challenge tenant_id login_challenge) (\<lambda>ory_challenge. ret [(''login_challenge'', ory_challenge)]))"

definition flow_reply :: "'k identity_service \<Rightarrow> string \<Rightarrow> json \<Rightarrow> ('z pg_scheme, service_error, flow) io" where
  "flow_reply svc tenant_id v =
     bindE (public_flow tenant_id v) (\<lambda>public_flow_id.
     bindE (public_identity_in_flow tenant_id v) (\<lambda>public_identity_id.
     ret (kratos_flow_to_flow svc v tenant_id public_flow_id public_identity_id)))"

definition create_login_flow :: "'k identity_service \<Rightarrow> request_context \<Rightarrow> login_flow_request
    \<Rightarrow> (('f, 'h, 'k, 'z) ory_world_scheme, service_error, flow) io" where
  "create_login_flow svc ctx req =
     bindE (lift_result (identity_reader ctx)) (\<lambda>tenant_id.
     bindE (challenge_pair tenant_id (lf_login_challenge req)) (\<lambda>challenge.
     let query = opt_pair ''return_to'' (lf_return_to req) @ opt_pair ''aal'' (lf_aal req)
           @ (if lf_refresh req then [(''refresh'', ''true'')] else []) @ opt_pair ''organization'' (lf_organization req)
           @ opt_pair ''via'' (lf_via req) @ challenge @ opt_pair ''identity_schema'' (lf_identity_schema req)
     in bindE (kra (ik_create_login_flow (iv_kratos svc) query)) (flow_reply svc tenant_id)))"

definition create_registration_flow :: "'k identity_service \<Rightarrow> request_context \<Rightarrow> login_flow_request
    \<Rightarrow> (('f, 'h, 'k, 'z) ory_world_scheme, service_error, flow) io" where
  "create_registration_flow svc ctx req =
     bindE (lift_result (identity_reader ctx)) (\<lambda>tenant_id.
     bindE (challenge_pair tenant_id (lf_login_challenge req)) (\<lambda>challenge.
     let query = opt_pair ''return_to'' (lf_return_to req) @ challenge @ opt_pair ''identity_schema'' (lf_identity_schema req)
     in bindE (kra (ik_create_registration_flow (iv_kratos svc) query)) (flow_reply svc tenant_id)))"

section \<open>Sessions\<close>

definition session_active :: "json \<Rightarrow> bool" where
  "session_active session \<longleftrightarrow> as_bool (json_index session ''active'') = Some True"

definition get_session :: "'k identity_service \<Rightarrow> request_context \<Rightarrow> string
    \<Rightarrow> (('f, 'h, 'k, 'z) ory_world_scheme, service_error, session_info) io" where
  "get_session svc ctx i =
     bindE (lift_result (identity_reader ctx)) (\<lambda>tenant_id.
     bindE (dbq (get_ory_token tenant_id ''kratos'' TOKEN_TYPE_SESSION i)) (\<lambda>ory_session_id.
     bindE (kra (ik_admin_get_session (iv_kratos svc) ory_session_id)) (\<lambda>session.
     bindE (dbq (get_public_id tenant_id ''kratos'' (text_of session ''identity_id''))) (\<lambda>public_identity_id.
     bindE (public_session tenant_id session) (\<lambda>public_session_id.
     ret \<lparr>ss_id = public_session_id, ss_identity_id = public_identity_id, ss_tenant_id = tenant_id, ss_active = session_active session\<rparr>)))))"

fun session_items :: "string \<Rightarrow> string \<Rightarrow> json list \<Rightarrow> ('z pg_scheme, service_error, session_info list) io" where
  "session_items tenant_id identity_id [] = ret []"
| "session_items tenant_id identity_id (s # ss) =
     bindE (public_session tenant_id s) (\<lambda>public_session_id.
     bindE (session_items tenant_id identity_id ss) (\<lambda>rest.
     ret (\<lparr>ss_id = public_session_id, ss_identity_id = identity_id, ss_tenant_id = tenant_id, ss_active = session_active s\<rparr> # rest)))"

definition list_sessions :: "'k identity_service \<Rightarrow> request_context \<Rightarrow> string
    \<Rightarrow> (('f, 'h, 'k, 'z) ory_world_scheme, service_error, session_info list) io" where
  "list_sessions svc ctx identity_id =
     bindE (lift_result (identity_reader ctx)) (\<lambda>tenant_id.
     bindE (guard_err (identity_id = []) (SE_InvalidArgument ''identity_id is required'')) (\<lambda>_.
     bindE (dbq (get_ory_id tenant_id ''kratos'' identity_id)) (\<lambda>ory_id.
     bindE (kra (ik_list_sessions_by_identity (iv_kratos svc) ory_id)) (\<lambda>sessions.
     case as_array sessions of Some arr \<Rightarrow> session_items tenant_id identity_id arr | None \<Rightarrow> ret []))))"

definition delete_session :: "'k identity_service \<Rightarrow> request_context \<Rightarrow> string
    \<Rightarrow> (('f, 'h, 'k, 'z) ory_world_scheme, service_error, unit) io" where
  "delete_session svc ctx i =
     bindE (lift_result (identity_admin ctx)) (\<lambda>tenant_id.
     bindE (dbq (get_ory_token tenant_id ''kratos'' TOKEN_TYPE_SESSION i)) (\<lambda>ory_session_id.
     bindE (kra (ik_admin_get_session (iv_kratos svc) ory_session_id)) (\<lambda>session.
     bindE (dbq (get_public_id tenant_id ''kratos'' (text_of session ''identity_id''))) (\<lambda>_.
     kra (ik_delete_session (iv_kratos svc) ory_session_id)))))"

section \<open>Recovery and verification\<close>

definition query_value :: "(string \<times> string) list \<Rightarrow> string \<Rightarrow> string option" where
  "query_value pairs k = map_option snd (find (\<lambda>(k', _). k' = k) pairs)"

definition gateway_link :: "'k identity_service \<Rightarrow> string \<Rightarrow> string \<Rightarrow> string \<Rightarrow> string" where
  "gateway_link svc page public_flow_id public_token =
     trim_end_matches (CHR ''/'') (iv_ui_public_url svc) @ page @
       (if public_flow_id = [] then ''?token='' @ iv_urlencode svc public_token
        else ''?flow='' @ iv_urlencode svc public_flow_id @ ''&token='' @ iv_urlencode svc public_token)"

definition alias_or_empty :: "string \<Rightarrow> string \<Rightarrow> string \<Rightarrow> ('z pg_scheme, service_error, string) io" where
  "alias_or_empty tenant_id token_type raw = (if raw = [] then ret [] else mint_alias tenant_id token_type raw)"

definition create_recovery_link :: "'k identity_service \<Rightarrow> request_context \<Rightarrow> string \<Rightarrow> int
    \<Rightarrow> (('f, 'h, 'k, 'z) ory_world_scheme, service_error, recovery_link) io" where
  "create_recovery_link svc ctx identity_id expires_in_seconds =
     bindE (lift_result (identity_admin ctx)) (\<lambda>tenant_id.
     bindE (resolve_identity svc tenant_id identity_id) (\<lambda>(ory_id, _).
     bindE (kra (ik_create_recovery_link (iv_kratos svc) ory_id (Some expires_in_seconds))) (\<lambda>body.
     bindE (lift_result (ok_or (SE_Internal ''kratos response missing recovery_link'') (as_str (json_index body ''recovery_link'')))) (\<lambda>link.
     bindE (lift_result (case iv_parse_url svc link of Inr q \<Rightarrow> Inr q
              | Inl e \<Rightarrow> Inl (SE_Internal (''kratos recovery_link is not a valid URL: '' @ e)))) (\<lambda>pairs.
     bindE (lift_result (ok_or (SE_Internal ''kratos response missing recovery_token and token query param'')
              (case as_str (json_index body ''recovery_token'') of Some t \<Rightarrow> Some t | None \<Rightarrow> query_value pairs ''token''))) (\<lambda>recovery_token.
     bindE (mint_alias tenant_id TOKEN_TYPE_RECOVERY_TOKEN recovery_token) (\<lambda>public_recovery_token.
     bindE (alias_or_empty tenant_id TOKEN_TYPE_FLOW (case query_value pairs ''flow'' of Some v \<Rightarrow> v | None \<Rightarrow> [])) (\<lambda>public_flow_id.
     ret \<lparr>rl_recovery_link = gateway_link svc ''/recovery'' public_flow_id public_recovery_token, rl_recovery_token = public_recovery_token,
          rl_flow = public_flow_id,
          rl_expires_at = Option.bind (as_str (json_index body ''expires_at'')) (iv_parse_timestamp svc)\<rparr>))))))))"

text \<open>Without an id the last verification message is taken, or else the last message.\<close>

definition pick_message :: "json list \<Rightarrow> string \<Rightarrow> json option" where
  "pick_message messages message_id =
     (if message_id = []
      then (case find (\<lambda>m. as_str (json_index m ''template_type'') = Some ''verification'') (rev messages) of
              Some m \<Rightarrow> Some m
            | None \<Rightarrow> if messages = [] then None else Some (last messages))
      else find (\<lambda>m. as_str (json_index m ''id'') = Some message_id) messages)"

definition link_tokens :: "'k identity_service \<Rightarrow> string \<Rightarrow> string \<times> string" where
  "link_tokens svc body =
     (case Option.bind (extract_first_self_service_link body)
             (\<lambda>url. case iv_parse_url svc url of Inr q \<Rightarrow> Some q | Inl _ \<Rightarrow> None) of
        Some pairs \<Rightarrow> (case query_value pairs ''token'' of Some v \<Rightarrow> v | None \<Rightarrow> [],
                       case query_value pairs ''flow'' of Some v \<Rightarrow> v | None \<Rightarrow> [])
      | None \<Rightarrow> ([], []))"

definition get_verification_message :: "'k identity_service \<Rightarrow> request_context \<Rightarrow> string \<Rightarrow> string
    \<Rightarrow> (('f, 'h, 'k, 'z) ory_world_scheme, service_error, verification_message) io" where
  "get_verification_message svc ctx identity_id message_id =
     bindE (lift_result (identity_admin ctx)) (\<lambda>tenant_id.
     bindE (resolve_identity svc tenant_id identity_id) (\<lambda>(ory_id, _).
     bindE (kra (ik_list_courier_messages (iv_kratos svc) (Some ory_id) (Some ''verification''))) (\<lambda>v.
     bindE (lift_result (ok_or (SE_Internal ''invalid courier messages response from kratos'') (as_array v))) (\<lambda>messages.
     bindE (lift_result (ok_or (SE_NotFound ''verification message not found'') (pick_message messages message_id))) (\<lambda>message.
     let body = text_of message ''body'' in
     case link_tokens svc body of (raw_token, raw_flow) \<Rightarrow>
     bindE (alias_or_empty tenant_id TOKEN_TYPE_VERIFICATION_TOKEN raw_token) (\<lambda>public_token.
     bindE (alias_or_empty tenant_id TOKEN_TYPE_FLOW raw_flow) (\<lambda>public_flow_id.
     ret \<lparr>vm_id = text_of message ''id'', vm_type = text_of message ''type'', vm_subject = text_of message ''subject'', vm_body = body,
          vm_status = text_of message ''status'', vm_recipient = text_of message ''recipient'',
          vm_sent_at = Option.bind (as_str (json_index message ''sent_at'')) (iv_parse_timestamp svc),
          vm_link = (if public_token = [] then [] else gateway_link svc ''/verification'' public_flow_id public_token),
          vm_flow = public_flow_id\<rparr>)))))))"

section \<open>Memberships\<close>

definition member_at :: "string \<Rightarrow> string \<Rightarrow> tenant_membership_row \<Rightarrow> bool" where
  "member_at t i m \<longleftrightarrow> tm_tenant_id m = t \<and> tm_identity_id m = i"

definition member_of :: "database \<Rightarrow> string \<Rightarrow> string \<Rightarrow> tenant_membership_row option" where
  "member_of db t i = find (member_at t i) (tenant_memberships db)"

definition trait_email :: "json \<Rightarrow> string option" where
  "trait_email traits = Option.bind (json_get traits ''email'') as_str"

definition email_of :: "database \<Rightarrow> string \<Rightarrow> string \<Rightarrow> string option" where
  "email_of db t i = Option.bind (member_of db t i) (\<lambda>m. trait_email (tm_traits m))"

lemma member_of_upsert:
  "member_of (snd (membership_upsert_stmt t j sid ver traits now db)) t' i =
     (if (t', i) = (t, j) \<and> tenant_exists db t
      then Some (case fst (membership_upsert_stmt t j sid ver traits now db) of Inr m \<Rightarrow> m | Inl _ \<Rightarrow> undefined)
      else member_of db t' i)"
proof -
  let ?upd = "\<lambda>m. m\<lparr>tm_schema_id := sid, tm_schema_version := ver, tm_traits := traits, tm_updated_at := now\<rparr>"
  have at: "member_at t' i (if member_at t j x then ?upd x else x) = member_at t' i x" for x by (simp add: member_at_def)
  have hit: "(\<lambda>m. tm_tenant_id m = t \<and> tm_identity_id m = j) = member_at t j" by (simp add: member_at_def fun_eq_iff)
  show ?thesis
  proof (cases "find (member_at t j) (tenant_memberships db)")
    case None
    have app: "find (member_at t' i) (xs @ [r]) = (if member_at t' i r then (case find (member_at t' i) xs of Some x \<Rightarrow> Some x | None \<Rightarrow> Some r)
        else find (member_at t' i) xs)" for xs r
      by (induction xs) auto
    show ?thesis using None
      by (auto simp: membership_upsert_stmt_def Let_def violates_def hit member_of_def app member_at_def [of t' i])
  next
    case (Some m)
    have f: "find (member_at t' i) (map (\<lambda>x. if member_at t j x then ?upd x else x) (tenant_memberships db)) =
        map_option (\<lambda>x. if member_at t j x then ?upd x else x) (find (member_at t' i) (tenant_memberships db))"
      by (simp add: find_map_conv comp_def at)
    have "member_at t j x = ((t', i) = (t, j))" if "find (member_at t' i) (tenant_memberships db) = Some x" for x
      using find_SomeD [OF that] by (auto simp: member_at_def)
    then show ?thesis using Some f
      by (cases "find (member_at t' i) (tenant_memberships db)")
         (auto simp: membership_upsert_stmt_def Let_def violates_def hit member_of_def)
  qed
qed

lemma upsert_Inr:
  assumes "membership_upsert t i sid ver traits w = (Inr m, v)"
  shows "member_of (pg_db v) t i = Some m \<and> tm_tenant_id m = t \<and> tm_identity_id m = i \<and> tm_schema_id m = sid \<and> tm_traits m = traits
    \<and> id_mappings (pg_db v) = id_mappings (pg_db w) \<and> pg_fault v = pg_fault w"
proof -
  let ?st = "membership_upsert_stmt t i sid ver traits (pg_now w) (pg_db w)"
  have st: "fst ?st = Inr m" and v: "pg_db v = snd ?st" "pg_fault v = pg_fault w"
    using pg_exec_Inr [OF assms [unfolded membership_upsert_def]] by auto
  then have "tenant_exists (pg_db w) t" and "id_mappings (snd ?st) = id_mappings (pg_db w)"
    and "tm_tenant_id m = t \<and> tm_identity_id m = i \<and> tm_schema_id m = sid \<and> tm_traits m = traits"
    by (auto simp: membership_upsert_stmt_def Let_def violates_def split: if_splits option.splits dest: find_SomeD)
  then show ?thesis using v st by (simp add: member_of_upsert)
qed

lemma upsert_email:
  assumes "(t', j) = (t, i) \<Longrightarrow> trait_email traits = Some e"
  shows "stmt_keeps (\<lambda>db. email_of db t i = Some e) (membership_upsert_stmt t' j sid ver traits)"
proof (rule stmt_keepsI)
  fix now db
  assume e: "email_of db t i = Some e"
  show "email_of (snd (membership_upsert_stmt t' j sid ver traits now db)) t i = Some e"
  proof (cases "(t, i) = (t', j) \<and> tenant_exists db t'")
    case True
    then have "\<exists>m. fst (membership_upsert_stmt t' j sid ver traits now db) = Inr m \<and> tm_traits m = traits"
      by (auto simp: membership_upsert_stmt_def Let_def split: option.splits)
    then show ?thesis using True assms by (auto simp: email_of_def member_of_upsert)
  next
    case False
    then show ?thesis using e by (auto simp: email_of_def member_of_upsert)
  qed
qed

section \<open>Resolution\<close>

lemma get_ory_id_Inr:
  assumes "get_ory_id t b p w = (Inr g, v)"
  shows "(\<exists>r \<in> set (id_mappings (pg_db w)). at_key t b p r \<and> im_ory_global_id r = g) \<and> pg_db v = pg_db w \<and> pg_fault v = pg_fault w"
  using pg_query_Inr [OF assms [unfolded get_ory_id_def]] by (auto simp: at_key_def dest!: find_SomeD)

lemma membership_get_cases:
  assumes "membership_get t i w = (x, v)"
  obtains (failed) m where "x = Inl (Sqlx m)" and "pg_db v = pg_db w"
  | (missing) "x = Inl MembershipNotFound" and "member_of (pg_db w) t i = None" and "pg_db v = pg_db w"
  | (found) m where "x = Inr m" and "member_of (pg_db w) t i = Some m" and "pg_db v = pg_db w"
proof -
  have hit: "(\<lambda>m. tm_tenant_id m = t \<and> tm_identity_id m = i) = member_at t i" by (simp add: member_at_def fun_eq_iff)
  have db: "pg_db v = pg_db w" using arg_cong [OF assms, of snd] by (auto simp: membership_get_def pg_query_state)
  show thesis
    using pg_query_result [OF assms [unfolded membership_get_def]] db failed missing found
    by (cases "member_of (pg_db w) t i") (auto simp: ok_or_def member_of_def hit)
qed

lemma resolve_identity_Inr:
  assumes "resolve_identity svc t i w = (Inr (ory, m), v)"
  shows "(\<exists>r \<in> set (id_mappings (pg_db w)). at_key t ''kratos'' i r \<and> im_ory_global_id r = ory)
    \<and> member_of (pg_db v) t i = Some m \<and> (\<forall>c. member_of (pg_db w) t i = Some c \<longrightarrow> m = c)"
proof -
  obtain y w1 where get: "get_ory_id t ''kratos'' i w = (Inr y, w1)"
    and rest: "attempt (membership_get t i) (\<lambda>r. case r of Inr membership \<Rightarrow> ret (y, membership)
       | Inl err \<Rightarrow> if err = MembershipNotFound then bindE (identity_backfill svc t i y) (\<lambda>membership. ret (y, membership))
           else raise (service_error_of_db err)) w1 = (Inr (ory, m), v)"
    using assms unfolding resolve_identity_def by (elim bindE_InrE) (simp add: map_err_Inr)
  note g = get_ory_id_Inr [OF get]
  obtain x w2 where mg: "membership_get t i w1 = (x, w2)" by fastforce
  show ?thesis
  proof (rule membership_get_cases [OF mg])
    fix n assume "x = Inl (Sqlx n)"
    then show ?thesis using rest mg by (simp add: attempt_def raise_def)
  next
    assume x: "x = Inl MembershipNotFound" and none: "member_of (pg_db w1) t i = None"
    then obtain w3 sid traits where up: "membership_upsert t i sid 1 traits w3 = (Inr m, v)" and "ory = y"
      using rest mg by (auto simp: attempt_def identity_backfill_def run_simps Let_def)
    then show ?thesis using g none upsert_Inr [OF up] by auto
  next
    fix c assume "x = Inr c" and "member_of (pg_db w1) t i = Some c" and "pg_db w2 = pg_db w1"
    then show ?thesis using rest mg g by (auto simp: attempt_def ret_def)
  qed
qed

text \<open>What a run leaves of the email of an identity, when every write agrees with it.\<close>

lemma keeps_email_backfill:
  assumes "(t', j) \<noteq> (t, i)"
  shows "keeps (\<lambda>w. email_of (pg_db w) t i = Some e) (identity_backfill svc t' j ory)"
  unfolding identity_backfill_def Let_def membership_upsert_def
  by (intro keeps_rules keeps_pg_exec [where J = "\<lambda>db. email_of db t i = Some e"] upsert_email)
     (use assms in \<open>auto simp: keeps_def kratos_op_def split: prod.splits\<close>)

lemma keeps_email_resolve: "keeps (\<lambda>w. email_of (pg_db w) t i = Some e) (resolve_identity svc t' j)"
proof (rule keepsI)
  fix w x v
  assume e: "email_of (pg_db w) t i = Some e" and run: "resolve_identity svc t' j w = (x, v)"
  let ?E = "\<lambda>w. email_of (pg_db w) t i = Some e"
  obtain y w1 where getj: "get_ory_id t' ''kratos'' j w = (y, w1)" by fastforce
  have w1: "pg_db w1 = pg_db w" using arg_cong [OF getj, of snd] by (auto simp: get_ory_id_def pg_query_state)
  obtain z w2 where mg: "membership_get t' j w1 = (z, w2)" by fastforce
  show "?E v"
  proof (rule membership_get_cases [OF mg])
    assume z: "z = Inl MembershipNotFound" and none: "member_of (pg_db w1) t' j = None" and w2: "pg_db w2 = pg_db w1"
    then have "(t', j) \<noteq> (t, i)" using e w1 by (auto simp: email_of_def)
    then have "?E (snd (identity_backfill svc t' j ory w2))" for ory
      by (rule keepsD_snd [OF keeps_email_backfill]) (simp add: e w1 w2)
    then show ?thesis using run getj mg z e w1
      by (cases y) (auto simp: resolve_identity_def bindE_def map_err_def attempt_def ret_def split: prod.splits sum.splits, (metis snd_conv)+)
  qed (use run getj mg e w1 in \<open>cases y; auto simp: resolve_identity_def bindE_def map_err_def attempt_def ret_def raise_def\<close>)+
qed

section \<open>The email of an identity\<close>

lemma keeps_email_simple:
  "keeps (\<lambda>w. email_of (pg_db w) t i = Some e) (resolve_schema t' sid)"
  "keeps (\<lambda>w. email_of (pg_db w) t i = Some e) (kratos_op m)"
  unfolding resolve_schema_def schema_get_default_def schema_get_def
  by (intro keeps_rules keeps_pg_query [where J = "\<lambda>db. email_of db t i = Some e"], simp add: keeps_def kratos_op_def split_beta)

lemma checked_traits_email:
  assumes "checked_traits lib schema traits = Inr (tj, email)"
  shows "trait_email tj = Some email \<and> email \<noteq> [] \<and> validate_traits lib (ish_schema_json schema) tj = Inr ()"
  using assms
  by (auto simp: checked_traits_def extract_email_def trait_email_def Let_def split: sum.splits option.splits if_splits)

lemma bindE_lift: "bindE (lift_result r) f = (case r of Inl e \<Rightarrow> raise e | Inr x \<Rightarrow> f x)"
  by (cases r) (simp_all add: bindE_def lift_result_def raise_def)

lemma bindE_guard: "bindE (guard_err b e) f = (if b then raise e else f ())"
  by (simp add: guard_err_def)

lemma keeps_bindE_then:
  assumes "keeps I m" and "\<And>s x t. m s = (Inr x, t) \<Longrightarrow> I t \<Longrightarrow> I (snd (f x t))"
  shows "keeps I (bindE m f)"
proof (rule keepsI)
  fix s r t
  assume I: "I s" and run: "bindE m f s = (r, t)"
  obtain y u where m: "m s = (y, u)" by fastforce
  then have "I u" using keepsD [OF assms(1) I] by simp
  then show "I t" using run m assms(2) [of s _ u] by (cases y) (auto simp: bindE_def)
qed

lemma keeps_email_update:
  assumes "(t', j) = (t, i) \<Longrightarrow> trait_email (tm_traits current) = Some e" and "e \<noteq> []"
  shows "keeps (\<lambda>w. email_of (pg_db w) t i = Some e) (apply_identity_update svc t' j ory current sid traits)"
proof -
  have upsert: "keeps (\<lambda>w. email_of (pg_db w) t i = Some e) (membership_upsert t' j s n tj)"
    if "(t', j) = (t, i) \<Longrightarrow> trait_email tj = Some e" for s n tj
    unfolding membership_upsert_def by (intro keeps_pg_exec [where J = "\<lambda>db. email_of db t i = Some e"] upsert_email that)
  show ?thesis
    unfolding apply_identity_update_def bindE_lift bindE_guard
    by (auto intro!: keeps_rules keeps_email_simple upsert dest!: checked_traits_email
        simp: assms trait_email_def [symmetric] split: option.splits)
qed

text \<open>
  \<^bold>\<open>C36.\<close> The email of an identity is immutable: whatever an update asks for and however it ends, a
  membership that has an email keeps it.
\<close>

theorem identity_email_immutable:
  assumes "email_of (pg_db w) t i = Some e" and "e \<noteq> []" and "update_identity svc ctx j sid traits w = (x, v)"
  shows "email_of (pg_db v) t i = Some e"
proof -
  have inner: "keeps (\<lambda>w. email_of (pg_db w) t i = Some e) (bindE (resolve_identity svc t' j) (\<lambda>(ory_id, current).
      apply_identity_update svc t' j ory_id current sid traits))" for t'
  proof (rule keeps_bindE_then [OF keeps_email_resolve])
    fix s p u
    assume res: "resolve_identity svc t' j s = (Inr p, u)" and E: "email_of (pg_db u) t i = Some e"
    have cur: "trait_email (tm_traits (snd p)) = Some e" if "(t', j) = (t, i)"
      using resolve_identity_Inr [of svc t' j s "fst p" "snd p" u] res E that by (auto simp: email_of_def)
    show "email_of (pg_db (snd ((case p of (ory_id, current) \<Rightarrow> apply_identity_update svc t' j ory_id current sid traits) u))) t i = Some e"
      using keepsD_snd [OF keeps_email_update [OF cur assms(2)], where s = u] E by (simp add: split_beta)
  qed
  have "email_of (pg_db (snd (update_identity svc ctx j sid traits w))) t i = Some e"
    unfolding update_identity_def by (rule keepsD_snd [OF keeps_bindE [OF keeps_lift_result]], rule inner, rule assms(1))
  then show ?thesis using assms(3) by simp
qed

section \<open>Creating and deleting\<close>

lemma resolve_schema_tenant: "resolve_schema t s u = (Inr r, u') \<Longrightarrow> ish_tenant_id r = t"
  using schema_get_Inr [of t s u r u'] schema_get_default_Inr [of t u r u'] by (auto simp: resolve_schema_def run_simps split: if_splits)

lemma create_identity_Inr:
  assumes "create_identity svc ctx sid traits password w = (Inr x, v)"
  obtains t schema tj email ory p w1 w2 row m where "identity_admin ctx = Inr t"
    and "checked_traits (iv_schema_lib svc) schema traits = Inr (tj, email)"
    and "id_mapping_create t ''kratos'' p ory w1 = (Inr row, w2)"
    and "membership_upsert t p (ish_schema_id schema) (ish_version schema) tj w2 = (Inr m, v)"
    and "x = identity_from_traits (iv_to_struct svc) t p (ish_schema_id schema) tj" and "ish_tenant_id schema = t"
proof -
  obtain t schema u tj email ory p u3 row u4 m where a: "identity_admin ctx = Inr t" "resolve_schema t sid w = (Inr schema, u)"
    "checked_traits (iv_schema_lib svc) schema traits = Inr (tj, email)" "id_mapping_create t ''kratos'' p ory u3 = (Inr row, u4)"
    "membership_upsert t p (ish_schema_id schema) (ish_version schema) tj u4 = (Inr m, v)"
    "x = identity_from_traits (iv_to_struct svc) t p (ish_schema_id schema) tj"
    using assms by (auto simp: create_identity_def run_simps)
  show thesis by (rule that [OF a(1,3-6) resolve_schema_tenant [OF a(2)]])
qed

lemma admin_reads: "identity_admin ctx = Inr t \<Longrightarrow> identity_reader ctx = Inr t"
  by (auto simp: identity_admin_def identity_reader_def require_tenant_def require_scope_def require_scope_any_def require_auth_def
      split: sum.splits option.splits if_splits)

lemma fault_kratos: "keeps (\<lambda>w. pg_fault w = F) (kratos_op m)"
  by (simp add: keeps_def kratos_op_def split_beta)

lemma keeps_fault_identity:
  "keeps (\<lambda>w. pg_fault w = F) (create_identity svc ctx sid traits password)"
  "keeps (\<lambda>w. pg_fault w = F) (delete_identity svc ctx i)"
  unfolding create_identity_def delete_identity_def resolve_schema_def schema_get_default_def schema_get_def id_mapping_create_def
    membership_upsert_def get_ory_id_def id_mapping_delete_def
  by (intro framed_rules framed_const fault_kratos)+

lemma create_identity_fault: "create_identity svc ctx sid traits password w = (x, v) \<Longrightarrow> pg_fault v = pg_fault w"
  using keepsD_snd [OF keeps_fault_identity(1), of w "pg_fault w" svc ctx sid traits password] by simp

lemma delete_identity_fault: "delete_identity svc ctx i w = (x, v) \<Longrightarrow> pg_fault v = pg_fault w"
  using keepsD_snd [OF keeps_fault_identity(2), of w "pg_fault w" svc ctx i] by simp

text \<open>
  \<^bold>\<open>C37.\<close> An identity that was created reads back as it was created, and its membership has an email.
\<close>

theorem create_get_identity:
  assumes "id_mappings_ok (pg_db w)" and "create_identity svc ctx sid traits password w = (Inr x, v)" and "\<And>q. pg_fault w q = None"
  shows "fst (get_identity svc ctx (id_id x) v) = Inr x
    \<and> (\<exists>tj. id_traits x = iv_to_struct svc tj \<and> (\<exists>e. trait_email tj = Some e \<and> e \<noteq> [] \<and> email_of (pg_db v) (id_tenant_id x) (id_id x) = Some e))"
proof -
  have vq: "pg_fault v q = None" for q using assms(3) create_identity_fault [OF assms(2)] by simp
  obtain t schema tj email ory p w1 w2 row m where run: "identity_admin ctx = Inr t"
    "checked_traits (iv_schema_lib svc) schema traits = Inr (tj, email)"
    "id_mapping_create t ''kratos'' p ory w1 = (Inr row, w2)"
    "membership_upsert t p (ish_schema_id schema) (ish_version schema) tj w2 = (Inr m, v)"
    and x: "x = identity_from_traits (iv_to_struct svc) t p (ish_schema_id schema) tj"
    using create_identity_Inr [OF assms(2)] by metis
  note map = id_mapping_create_Inr [OF run(3)] and mem = upsert_Inr [OF run(4)]
  have "find (at_key t ''kratos'' p) (id_mappings (pg_db w1)) = None"
    using map by (auto simp: find_None_iff at_key_def image_iff)
  then have "find (at_key t ''kratos'' p) (id_mappings (pg_db v)) = Some row"
    using map mem by (simp add: find_append_miss)
  moreover have "(\<lambda>r. im_tenant_id r = t \<and> im_backend r = ''kratos'' \<and> im_public_id r = p) = at_key t ''kratos'' p"
    by (simp add: at_key_def fun_eq_iff)
  ultimately have ory: "get_ory_id t ''kratos'' p v = (Inr ory, v\<lparr>pg_queries := Suc (pg_queries v)\<rparr>)"
    using vq map by (simp add: get_ory_id_def pg_query_no_fault ok_or_def)
  define v1 where "v1 = v\<lparr>pg_queries := Suc (pg_queries v)\<rparr>"
  obtain y v2 where mg: "membership_get t p v1 = (y, v2)" by fastforce
  have "y = Inr m"
    by (rule membership_get_cases [OF mg]) (use mem vq mg in \<open>auto simp: v1_def membership_get_def pg_query_no_fault ok_or_def split: option.splits\<close>)
  moreover have "identity_reader ctx = Inr t"
    using run(1) by (rule admin_reads)
  ultimately have "fst (get_identity svc ctx (id_id x) v) = Inr x"
    using mem x ory mg
    by (simp add: get_identity_def resolve_identity_def bindE_def lift_result_def map_err_def attempt_def ret_def v1_def identity_from_traits_def)
  then show ?thesis
    using checked_traits_email [OF run(2)] mem x by (auto simp: identity_from_traits_def email_of_def)
qed

text \<open>
  \<^bold>\<open>C40.\<close> Deleting an identity removes it from Kratos and from the identifiers of the tenant, but not
  from the members of the tenant: the membership, with its traits and its state, stays.
\<close>

theorem delete_identity_keeps_membership:
  assumes "id_mappings_ok (pg_db w)" and "delete_identity svc ctx i w = (Inr u, v)" and "identity_admin ctx = Inr t" and "\<And>q. pg_fault w q = None"
  shows "fst (get_identity svc ctx i v) = Inl (SE_NotFound ''id mapping not found'')
    \<and> member_of (pg_db v) t i = member_of (pg_db w) t i \<and> agent_delegations (pg_db v) = agent_delegations (pg_db w)"
proof -
  have vq: "pg_fault v q = None" for q using assms(4) delete_identity_fault [OF assms(2)] by simp
  obtain ory w1 k w2 where get: "get_ory_id t ''kratos'' i w = (Inr ory, w1)"
    and kr: "kratos_op (ik_delete_identity (iv_kratos svc) ory) w1 = (Inr k, w2)"
    and del: "id_mapping_delete t ''kratos'' i w2 = (Inr u, v)"
    using assms(2,3) by (auto simp: delete_identity_def run_simps)
  have w2: "pg_db w2 = pg_db w" using get_ory_id_Inr [OF get] kr by (auto simp: kratos_op_def split: prod.splits)
  have v: "pg_db v = snd (id_mapping_delete_stmt t ''kratos'' i (pg_now w2) (pg_db w))" "fst (id_mapping_delete_stmt t ''kratos'' i (pg_now w2) (pg_db w)) = Inr u"
    using pg_exec_Inr [OF del [unfolded id_mapping_delete_def]] w2 by auto
  have "find (at_key t ''kratos'' i) (id_mappings (pg_db v)) = None" and same: "tenant_memberships (pg_db v) = tenant_memberships (pg_db w)"
    "agent_delegations (pg_db v) = agent_delegations (pg_db w)"
    using v by (auto simp: id_mapping_delete_stmt_def Let_def find_None_iff at_key_def split: if_splits)
  moreover have "(\<lambda>r. im_tenant_id r = t \<and> im_backend r = ''kratos'' \<and> im_public_id r = i) = at_key t ''kratos'' i"
    by (simp add: at_key_def fun_eq_iff)
  ultimately have "get_ory_id t ''kratos'' i v = (Inl MappingNotFound, v\<lparr>pg_queries := Suc (pg_queries v)\<rparr>)"
    using vq by (simp add: get_ory_id_def pg_query_no_fault ok_or_def)
  moreover have "identity_reader ctx = Inr t"
    using assms(3) by (rule admin_reads)
  ultimately show ?thesis using same
    by (simp add: get_identity_def resolve_identity_def bindE_def lift_result_def map_err_def member_of_def)
qed

section \<open>Witnesses\<close>

definition sample_identities :: "unit identity_service" where
  "sample_identities = \<lparr>iv_kratos =
     \<lparr>ik_create_identity = (\<lambda>p k. (Inr (JObj [(''id'', JStr ''k9'')]), k)), ik_get_identity = (\<lambda>i k. (Inr (JObj []), k)),
      ik_update_identity = (\<lambda>i p k. (Inr p, k)), ik_delete_identity = (\<lambda>i k. (Inr (), k)),
      ik_create_login_flow = (\<lambda>q k. (Inr (JObj []), k)), ik_create_registration_flow = (\<lambda>q k. (Inr (JObj []), k)),
      ik_admin_get_session = (\<lambda>i k. (Inr (JObj []), k)), ik_list_sessions_by_identity = (\<lambda>i k. (Inr (JArr []), k)),
      ik_delete_session = (\<lambda>i k. (Inr (), k)), ik_create_recovery_link = (\<lambda>i e k. (Inr (JObj []), k)),
      ik_list_courier_messages = (\<lambda>i t k. (Inr (JArr []), k))\<rparr>,
     iv_ui_public_url = ''https://sso'', iv_kratos_default_schema_id = ''base'',
     iv_schema_lib = \<lparr>sl_to_string = (\<lambda>_. []), sl_validator_for = (\<lambda>_. Inr (\<lambda>_. None))\<rparr>,
     iv_to_struct = Some, iv_parse_url = (\<lambda>_. Inr []), iv_urlencode = id, iv_parse_timestamp = (\<lambda>_. None)\<rparr>"

definition identity_db :: database where
  "identity_db = consent_db\<lparr>identity_schemas := [\<lparr>ish_id = ''1'', ish_tenant_id = ''T'', ish_schema_id = ''person'', ish_schema_json = JObj [],
       ish_version = 1, ish_is_default = True, ish_created_at = 0, ish_updated_at = 0\<rparr>],
     tenant_memberships := [\<lparr>tm_tenant_id = ''T'', tm_identity_id = ''u'', tm_schema_id = ''person'', tm_schema_version = 1,
       tm_traits = JObj [(''email'', JStr ''a@x'')], tm_state = ''active'', tm_created_at = 0, tm_updated_at = 0\<rparr>]\<rparr>"

definition identity_world :: sample_world where
  "identity_world = consent_world\<lparr>pg_db := identity_db\<rparr>"

lemma identity_simps [simp]: "pg_db identity_world = identity_db" "pg_fault identity_world = (\<lambda>_. None)"
  by (simp_all add: identity_world_def consent_world_def fga_world.defs provisioned_world_def quiet_pg_def pg.defs)

lemma identity_facts: "id_mappings_ok identity_db" "identity_admin consent_ctx = Inr ''T''" "email_of identity_db ''T'' ''u'' = Some ''a@x''"
  by code_simp+

lemma run_of: "\<not> isl (fst (m w)) \<Longrightarrow> \<exists>r v. m w = (Inr r, v)"
  by (cases "m w"; cases "fst (m w)") auto

theorem create_get_identity_witness:
  "\<exists>x v. create_identity sample_identities consent_ctx [] (Some (Inr (JObj [(''email'', JStr '' B@x'')]))) [] identity_world = (Inr x, v)
     \<and> fst (get_identity sample_identities consent_ctx (id_id x) v) = Inr x"
proof -
  have "\<not> isl (fst (create_identity sample_identities consent_ctx [] (Some (Inr (JObj [(''email'', JStr '' B@x'')]))) [] identity_world))"
    by code_simp
  then obtain x v where run: "create_identity sample_identities consent_ctx [] (Some (Inr (JObj [(''email'', JStr '' B@x'')]))) [] identity_world = (Inr x, v)"
    using run_of by metis
  then show ?thesis using create_get_identity [OF _ run] identity_facts(1) by auto
qed

theorem identity_email_immutable_witness:
  "\<exists>x v. update_identity sample_identities consent_ctx ''u'' [] (Some (Inr (JObj [(''email'', JStr ''c@x'')]))) identity_world = (x, v)
     \<and> email_of (pg_db v) ''T'' ''u'' = Some ''a@x''"
proof -
  obtain x v where run: "update_identity sample_identities consent_ctx ''u'' [] (Some (Inr (JObj [(''email'', JStr ''c@x'')]))) identity_world = (x, v)"
    by fastforce
  then show ?thesis using identity_email_immutable [OF _ _ run, of "''T''" "''u''" "''a@x''"] identity_facts(3) by auto
qed

theorem delete_identity_keeps_membership_witness:
  "\<exists>v. delete_identity sample_identities consent_ctx ''u'' identity_world = (Inr (), v) \<and> member_of (pg_db v) ''T'' ''u'' \<noteq> None"
proof -
  have "\<not> isl (fst (delete_identity sample_identities consent_ctx ''u'' identity_world))" by code_simp
  then obtain u v where run: "delete_identity sample_identities consent_ctx ''u'' identity_world = (Inr u, v)" using run_of by metis
  have "member_of (pg_db v) ''T'' ''u'' = member_of identity_db ''T'' ''u''"
    using delete_identity_keeps_membership [OF _ run identity_facts(2)] identity_facts(1) by simp
  moreover have "member_of identity_db ''T'' ''u'' \<noteq> None" by code_simp
  ultimately show ?thesis using run by auto
qed

end
