(* ===== verification/SamlStores.thy ===== *)
theory SamlStores
  imports Auth
begin

text \<open>
  The stores of SAML federation: \<^verbatim>\<open>db/saml_provider.rs\<close>, \<^verbatim>\<open>db/saml_request.rs\<close> and
  \<^verbatim>\<open>db/saml_replay_cache.rs\<close> with its cleanup task and the adapter through which the SAML
  library asks it. The in-memory cache of that library is not part of the repository.
\<close>

section \<open>PgSamlProviderStore\<close>

definition saml_provider_insert_stmt :: "saml_provider_row \<Rightarrow> saml_provider_row stmt" where
  "saml_provider_insert_stmt values now db =
     (let row = values\<lparr>pv_created_at := now, pv_updated_at := now\<rparr>
      in if \<not> tenant_exists db (pv_tenant_id row) then violates ''saml_providers_tenant_id_fkey'' db
         else if pv_id row \<in> pv_id ` set (saml_providers db) then violates ''saml_providers_pkey'' db
         else (Inr row, db\<lparr>saml_providers := saml_providers db @ [row]\<rparr>))"

definition saml_provider_create ::
  "string \<Rightarrow> string \<Rightarrow> string \<Rightarrow> string \<Rightarrow> string option \<Rightarrow> string \<Rightarrow> string \<Rightarrow> string option \<Rightarrow> string \<Rightarrow> bool
    \<Rightarrow> ('z pg_scheme, db_error, saml_provider_row) io" where
  "saml_provider_create tenant_id name idp_entity_id idp_sso_url idp_certificate_pem sp_entity_id acs_url
      name_id_format schema_id authn_requests_signed =
     bindE ulid_new (\<lambda>i. pg_exec (saml_provider_insert_stmt
       \<lparr>pv_id = i, pv_tenant_id = tenant_id, pv_name = name, pv_idp_entity_id = idp_entity_id,
        pv_idp_sso_url = idp_sso_url, pv_idp_certificate_pem = idp_certificate_pem, pv_sp_entity_id = sp_entity_id,
        pv_acs_url = acs_url, pv_name_id_format = name_id_format, pv_schema_id = schema_id,
        pv_authn_requests_signed = authn_requests_signed, pv_created_at = 0, pv_updated_at = 0\<rparr>))"

definition saml_provider_get :: "string \<Rightarrow> string \<Rightarrow> ('z pg_scheme, db_error, saml_provider_row) io" where
  "saml_provider_get tenant_id i =
     pg_query (\<lambda>now db. ok_or SamlProviderNotFound
       (find (\<lambda>r. pv_tenant_id r = tenant_id \<and> pv_id r = i) (saml_providers db)))"

definition saml_provider_get_by_id :: "string \<Rightarrow> ('z pg_scheme, db_error, saml_provider_row) io" where
  "saml_provider_get_by_id i =
     pg_query (\<lambda>now db. ok_or SamlProviderNotFound (find (\<lambda>r. pv_id r = i) (saml_providers db)))"

section \<open>PgSamlRequestStore\<close>

definition saml_request_insert_stmt :: "string \<Rightarrow> string \<Rightarrow> string \<Rightarrow> string \<Rightarrow> saml_request_row stmt" where
  "saml_request_insert_stmt request_id tenant_id provider_id relay_state now db =
     (let row = \<lparr>sr_id = request_id, sr_tenant_id = tenant_id, sr_provider_id = provider_id,
                 sr_relay_state = relay_state, sr_created_at = now\<rparr>
      in if \<not> tenant_exists db tenant_id then violates ''saml_requests_tenant_id_fkey'' db
         else if provider_id \<notin> pv_id ` set (saml_providers db) then violates ''saml_requests_provider_id_fkey'' db
         else if request_id \<in> sr_id ` set (saml_requests db) then violates ''saml_requests_pkey'' db
         else (Inr row, db\<lparr>saml_requests := saml_requests db @ [row]\<rparr>))"

definition saml_request_create ::
  "string \<Rightarrow> string \<Rightarrow> string \<Rightarrow> string \<Rightarrow> ('z pg_scheme, db_error, saml_request_row) io" where
  "saml_request_create tenant_id request_id provider_id relay_state =
     pg_exec (saml_request_insert_stmt request_id tenant_id provider_id relay_state)"

definition saml_request_get :: "string \<Rightarrow> string \<Rightarrow> ('z pg_scheme, db_error, saml_request_row) io" where
  "saml_request_get tenant_id request_id =
     pg_query (\<lambda>now db. ok_or SamlRequestNotFound
       (find (\<lambda>r. sr_tenant_id r = tenant_id \<and> sr_id r = request_id) (saml_requests db)))"

definition saml_request_get_by_request_id :: "string \<Rightarrow> ('z pg_scheme, db_error, saml_request_row) io" where
  "saml_request_get_by_request_id request_id =
     pg_query (\<lambda>now db. ok_or SamlRequestNotFound (find (\<lambda>r. sr_id r = request_id) (saml_requests db)))"

definition saml_request_delete_stmt :: "string \<Rightarrow> string \<Rightarrow> unit stmt" where
  "saml_request_delete_stmt tenant_id request_id now db =
     (let hit = (\<lambda>r. sr_tenant_id r = tenant_id \<and> sr_id r = request_id)
      in if filter hit (saml_requests db) = [] then (Inl SamlRequestNotFound, db)
         else (Inr (), db\<lparr>saml_requests := filter (\<lambda>r. \<not> hit r) (saml_requests db)\<rparr>))"

definition saml_request_delete :: "string \<Rightarrow> string \<Rightarrow> ('z pg_scheme, db_error, unit) io" where
  "saml_request_delete tenant_id request_id = pg_exec (saml_request_delete_stmt tenant_id request_id)"

definition saml_inbound_insert_stmt :: "string \<Rightarrow> string \<Rightarrow> string \<Rightarrow> instant \<Rightarrow> unit stmt" where
  "saml_inbound_insert_stmt request_id tenant_id provider_id expires_at now db =
     (if request_id \<in> si_id ` set (saml_inbound_requests db) then (Inl SamlRequestReplay, db)
      else if \<not> tenant_exists db tenant_id then violates ''saml_inbound_requests_tenant_id_fkey'' db
      else (Inr (), db\<lparr>saml_inbound_requests := saml_inbound_requests db @
              [\<lparr>si_id = request_id, si_tenant_id = tenant_id, si_provider_id = provider_id,
                si_expires_at = expires_at\<rparr>]\<rparr>))"

definition saml_create_inbound ::
  "string \<Rightarrow> string \<Rightarrow> string \<Rightarrow> duration \<Rightarrow> ('z pg_scheme, db_error, unit) io" where
  "saml_create_inbound tenant_id provider_id request_id ttl =
     bindE now_utc (\<lambda>now. pg_exec (saml_inbound_insert_stmt request_id tenant_id provider_id (now + ttl)))"

section \<open>SamlReplayCache\<close>

definition replay_insert_stmt :: "string \<Rightarrow> instant \<Rightarrow> bool stmt" where
  "replay_insert_stmt i expires_at now db =
     (if i \<in> fst ` set (saml_assertion_ids db) then (Inr False, db)
      else (Inr True, db\<lparr>saml_assertion_ids := saml_assertion_ids db @ [(i, expires_at)]\<rparr>))"

text \<open>The expiry is cut to whole seconds; one that \<^verbatim>\<open>time\<close> cannot hold becomes an hour from now.\<close>

definition replay_expiry :: "instant \<Rightarrow> instant \<Rightarrow> instant" where
  "replay_expiry now expiry =
     (case from_unix_timestamp (unix_timestamp expiry) of
        Some ts \<Rightarrow> ts
      | None \<Rightarrow> now + 3600 * nanos_per_second)"

definition check_and_insert_inner :: "string \<Rightarrow> instant \<Rightarrow> ('z pg_scheme, db_error, bool) io" where
  "check_and_insert_inner i expiry =
     bindE now_utc (\<lambda>now. pg_exec (replay_insert_stmt i (replay_expiry now expiry)))"

definition cleanup_saml_replay_cache :: "('z pg_scheme, db_error, unit) io" where
  "cleanup_saml_replay_cache =
     pg_exec (\<lambda>now db. (Inr (), db\<lparr>saml_assertion_ids :=
       filter (\<lambda>(_, expires_at). \<not> expires_at < now) (saml_assertion_ids db)\<rparr>))"

text \<open>
  \<^verbatim>\<open>GamlastanReplayAdapter\<close>: outside a Tokio runtime, and whenever the store fails, the assertion
  counts as a replay.
\<close>

definition replay_adapter_check :: "bool \<Rightarrow> string \<Rightarrow> instant \<Rightarrow> ('z pg_scheme, 'e, bool) io" where
  "replay_adapter_check in_runtime i expiry =
     (if in_runtime
      then attempt (check_and_insert_inner i expiry) (\<lambda>r. case r of Inr inserted \<Rightarrow> ret inserted | Inl _ \<Rightarrow> ret False)
      else ret False)"

section \<open>What replicas do to the cache\<close>

text \<open>
  All replicas share one table: checks of any assertion, runs of the cleanup task, whose
  failure is only logged, and time passing.
\<close>

datatype replay_event = Check bool string instant | Cleanup | Pass nat

definition run_replay_event :: "'z pg_scheme \<Rightarrow> replay_event \<Rightarrow> 'z pg_scheme" where
  "run_replay_event w ev =
     (case ev of
        Check rt i expiry \<Rightarrow> snd (replay_adapter_check rt i expiry w :: ((db_error + bool) \<times> _))
      | Cleanup \<Rightarrow> snd (cleanup_saml_replay_cache w)
      | Pass d \<Rightarrow> w\<lparr>pg_now := pg_now w + int d\<rparr>)"

lemma replay_adapter_True:
  assumes "replay_adapter_check rt i expiry w = (Inr True, v)"
  shows "i \<notin> fst ` set (saml_assertion_ids (pg_db w)) \<and> pg_now v = pg_now w
    \<and> saml_assertion_ids (pg_db v) = saml_assertion_ids (pg_db w) @ [(i, replay_expiry (pg_now w) expiry)]"
proof -
  have "check_and_insert_inner i expiry w = (Inr True, v)"
    using assms
    by (cases "check_and_insert_inner i expiry w")
       (auto simp: replay_adapter_check_def attempt_def io_defs split: if_splits sum.splits)
  then have run: "pg_exec (replay_insert_stmt i (replay_expiry (pg_now w) expiry)) w = (Inr True, v)"
    by (simp add: check_and_insert_inner_def run_simps now_utc_def)
  then show ?thesis
    using pg_exec_Inr [OF run] by (auto simp: replay_insert_stmt_def split: if_splits)
qed

lemma replay_adapter_answers: "\<exists>b v. replay_adapter_check rt i expiry w = (Inr b, v)"
  by (cases "check_and_insert_inner i expiry w")
     (auto simp: replay_adapter_check_def attempt_def io_defs split: sum.split)

lemma replay_event_clock: "pg_now w \<le> pg_now (run_replay_event w ev)"
  by (cases ev)
     (simp_all add: run_replay_event_def replay_adapter_check_def attempt_def check_and_insert_inner_def io_defs
       now_utc_def cleanup_saml_replay_cache_def pg_exec_def Let_def split: option.splits fault.splits sum.splits prod.splits)

lemma replay_events_clock: "pg_now w \<le> pg_now (foldl run_replay_event w evs)"
  by (induction evs arbitrary: w) (auto intro: order_trans [OF replay_event_clock])

lemma replay_event_ids:
  assumes "(i, e) \<in> set (saml_assertion_ids (pg_db w))" and "pg_now w \<le> e"
  shows "(i, e) \<in> set (saml_assertion_ids (pg_db (run_replay_event w ev)))"
  using assms
  by (cases ev)
     (auto simp: run_replay_event_def replay_adapter_check_def attempt_def check_and_insert_inner_def io_defs
       now_utc_def cleanup_saml_replay_cache_def pg_exec_def Let_def replay_insert_stmt_def
       split: option.splits fault.splits sum.splits prod.splits if_splits)

lemma replay_events_ids:
  assumes "(i, e) \<in> set (saml_assertion_ids (pg_db w))" and "pg_now (foldl run_replay_event w evs) \<le> e"
  shows "(i, e) \<in> set (saml_assertion_ids (pg_db (foldl run_replay_event w evs)))"
  using assms
proof (induction evs arbitrary: w)
  case (Cons ev evs)
  have "pg_now w \<le> e"
    using Cons.prems(2) replay_events_clock [of "run_replay_event w ev" evs] replay_event_clock [of w ev] by simp
  with Cons show ?case using replay_event_ids [of i e w ev] by simp
qed simp

section \<open>Inbound requests are seen once\<close>

datatype inbound_event = Inbound string string string duration | InboundPass nat

definition run_inbound_event :: "'z pg_scheme \<Rightarrow> inbound_event \<Rightarrow> 'z pg_scheme" where
  "run_inbound_event w ev =
     (case ev of
        Inbound t p i ttl \<Rightarrow> snd (saml_create_inbound t p i ttl w)
      | InboundPass d \<Rightarrow> w\<lparr>pg_now := pg_now w + int d\<rparr>)"

lemma create_inbound_Inr:
  assumes "saml_create_inbound t p i ttl w = (Inr (), v)"
  shows "i \<notin> si_id ` set (saml_inbound_requests (pg_db w)) \<and> i \<in> si_id ` set (saml_inbound_requests (pg_db v))"
proof -
  have run: "pg_exec (saml_inbound_insert_stmt i t p (pg_now w + ttl)) w = (Inr (), v)"
    using assms by (simp add: saml_create_inbound_def run_simps now_utc_def)
  then show ?thesis
    using pg_exec_Inr [OF run] by (auto simp: saml_inbound_insert_stmt_def violates_def split: if_splits)
qed

lemma inbound_event_seen:
  "i \<in> si_id ` set (saml_inbound_requests (pg_db w)) \<Longrightarrow> i \<in> si_id ` set (saml_inbound_requests (pg_db (run_inbound_event w ev)))"
  by (cases ev)
     (auto simp: run_inbound_event_def saml_create_inbound_def io_defs now_utc_def pg_exec_def Let_def
       saml_inbound_insert_stmt_def violates_def split: option.splits fault.splits if_splits)

lemma inbound_events_seen:
  "i \<in> si_id ` set (saml_inbound_requests (pg_db w)) \<Longrightarrow>
    i \<in> si_id ` set (saml_inbound_requests (pg_db (foldl run_inbound_event w evs)))"
  by (induction evs arbitrary: w) (simp_all add: inbound_event_seen)

section \<open>Properties\<close>

text \<open>
  No assertion is consumed twice: once any replica's check accepted an assertion id, every
  later check of that id, on any replica, with any claimed expiry and after any number of
  other checks, lost replies and cleanups, refuses it up to the recorded expiry, which is
  the assertion's expiry cut to whole seconds.
\<close>

theorem assertion_replay_refused:
  assumes "replay_adapter_check rt i expiry w = (Inr True :: db_error + bool, w1)"
    and "pg_now (foldl run_replay_event w1 evs) \<le> replay_expiry (pg_now w) expiry"
    and "replay_adapter_check rt' i expiry' (foldl run_replay_event w1 evs) = (Inr b :: db_error + bool, v)"
  shows "\<not> b"
proof
  assume b
  then have "i \<notin> fst ` set (saml_assertion_ids (pg_db (foldl run_replay_event w1 evs)))"
    using replay_adapter_True assms(3) by fastforce
  moreover have "(i, replay_expiry (pg_now w) expiry) \<in> set (saml_assertion_ids (pg_db w1))"
    using replay_adapter_True [OF assms(1)] by simp
  ultimately show False using replay_events_ids [OF _ assms(2)] by force
qed

lemmas replay_sample_defs = replay_adapter_check_def check_and_insert_inner_def attempt_def io_defs now_utc_def
  pg_exec_def Let_def replay_insert_stmt_def quiet_pg_def empty_db_def

theorem assertion_replay_refused_witness:
  "\<exists>w1. replay_adapter_check True ''id'' (5 * nanos_per_second) (quiet_pg empty_db 0) = (Inr True :: db_error + bool, w1)
     \<and> fst (replay_adapter_check True ''id'' (9 * nanos_per_second) (foldl run_replay_event w1 [Pass 7, Cleanup]) :: (db_error + bool) \<times> _)
       = Inr False"
proof -
  let ?w1 = "(quiet_pg (empty_db\<lparr>saml_assertion_ids := [(''id'', 5 * nanos_per_second)]\<rparr>) 0)\<lparr>pg_queries := 1\<rparr>"
  have exp: "replay_expiry 0 (5 * nanos_per_second) = 5 * nanos_per_second"
    by (simp add: replay_expiry_def unix_timestamp_def nanos_per_second_def from_unix_timestamp_def)
  have first: "replay_adapter_check True ''id'' (5 * nanos_per_second) (quiet_pg empty_db 0) = (Inr True :: db_error + bool, ?w1)"
    by (simp add: replay_sample_defs exp)
  let ?w2 = "foldl run_replay_event ?w1 [Pass 7, Cleanup]"
  obtain b v where second: "replay_adapter_check True ''id'' (9 * nanos_per_second) ?w2 = (Inr b :: db_error + bool, v)"
    using replay_adapter_answers [of True "''id''" "9 * nanos_per_second" ?w2] by blast
  have "pg_now ?w2 \<le> replay_expiry (pg_now (quiet_pg empty_db 0)) (5 * nanos_per_second)"
    using exp by (simp add: run_replay_event_def cleanup_saml_replay_cache_def pg_exec_def Let_def quiet_pg_def
        nanos_per_second_def)
  from assertion_replay_refused [OF first this second] second first show ?thesis by auto
qed

text \<open>
  An inbound authentication request is accepted once and never again: after
  \<^verbatim>\<open>create_inbound\<close> has returned for a request id, no later call with that id succeeds, for any
  tenant and provider and however long after the time to live.
\<close>

theorem inbound_request_once:
  assumes "saml_create_inbound t p i ttl w = (Inr (), w1)"
  shows "fst (saml_create_inbound t' p' i ttl' (foldl run_inbound_event w1 evs)) \<noteq> Inr ()"
proof
  assume "fst (saml_create_inbound t' p' i ttl' (foldl run_inbound_event w1 evs)) = Inr ()"
  then obtain v where "saml_create_inbound t' p' i ttl' (foldl run_inbound_event w1 evs) = (Inr (), v)"
    by (metis prod.collapse)
  from create_inbound_Inr [OF this] inbound_events_seen [of i w1 evs] create_inbound_Inr [OF assms]
  show False by simp
qed

theorem inbound_request_once_witness:
  "\<exists>w1. saml_create_inbound ''T'' ''P'' ''req'' 5 (quiet_pg (empty_db\<lparr>tenants := [\<lparr>tn_id = ''T'', tn_slug = ''t'',
       tn_display_name = ''T'', tn_is_system = False, tn_settings = JObj [], tn_created_at = 0\<rparr>]\<rparr>) 0) = (Inr (), w1)
     \<and> fst (saml_create_inbound ''T'' ''P'' ''req'' 5 (foldl run_inbound_event w1 [InboundPass 100])) \<noteq> Inr ()"
proof -
  let ?w = "quiet_pg (empty_db\<lparr>tenants := [\<lparr>tn_id = ''T'', tn_slug = ''t'',
       tn_display_name = ''T'', tn_is_system = False, tn_settings = JObj [], tn_created_at = 0\<rparr>]\<rparr>) 0"
  have "saml_create_inbound ''T'' ''P'' ''req'' 5 ?w = (Inr (), snd (saml_create_inbound ''T'' ''P'' ''req'' 5 ?w))"
    by (simp add: saml_create_inbound_def saml_inbound_insert_stmt_def tenant_exists_def now_utc_def io_defs pg_exec_def
        Let_def quiet_pg_def empty_db_def)
  with inbound_request_once [OF this] show ?thesis by blast
qed

end
