(* ===== verification/HomeRealm.thy ===== *)
theory HomeRealm
  imports SamlStores SelfServicePaths
begin

text \<open>
  Home realm discovery: the stores of custom domains, identity-provider connections and
  local credential methods (\<^verbatim>\<open>db/domain.rs\<close>, \<^verbatim>\<open>db/connection.rs\<close> with the encryption of
  \<^verbatim>\<open>db/crypto.rs\<close>, \<^verbatim>\<open>db/local_auth.rs\<close>), and \<^verbatim>\<open>hrd.rs\<close>, which sends an email address to the
  identity provider of its domain. AES-GCM, Base64, URL parsing and percent encoding are
  parameters; random bytes are arguments.
\<close>

section \<open>Encryption of columns\<close>

text \<open>
  \<open>ax_seal key nonce plaintext\<close> and \<open>ax_open key nonce ciphertext\<close> stand for AES-256-GCM,
  \<open>None\<close> for an error; the nonce has twelve bytes.
\<close>

record aead =
  ax_seal :: "string \<Rightarrow> string \<Rightarrow> string \<Rightarrow> string option"
  ax_open :: "string \<Rightarrow> string \<Rightarrow> string \<Rightarrow> string option"
  ax_b64 :: "string \<Rightarrow> string"
  ax_b64_decode :: "string \<Rightarrow> string option"

definition NONCE_LEN :: nat where "NONCE_LEN = 12"

text \<open>The documented behaviour: opening what was sealed, and decoding what was encoded.\<close>

definition aead_ok :: "aead \<Rightarrow> bool" where
  "aead_ok ax \<longleftrightarrow> (\<forall>s. ax_b64_decode ax (ax_b64 ax s) = Some s)
     \<and> (\<forall>k n p. length k = 32 \<longrightarrow> length n = NONCE_LEN \<longrightarrow>
          (\<exists>c. ax_seal ax k n p = Some c \<and> ax_open ax k n c = Some p))"

definition cipher :: "string \<Rightarrow> db_error + string" where
  "cipher key = (if length key \<noteq> 32 then Inl (Sqlx ''encryption key must be 32 bytes'') else Inr key)"

definition encrypt :: "aead \<Rightarrow> string \<Rightarrow> string \<Rightarrow> string \<Rightarrow> db_error + string" where
  "encrypt ax nonce plaintext key =
     (case cipher key of
        Inl e \<Rightarrow> Inl e
      | Inr k \<Rightarrow>
          case ax_seal ax k nonce plaintext of
            None \<Rightarrow> Inl (Sqlx ''encrypt'')
          | Some ciphertext \<Rightarrow> Inr (ax_b64 ax (nonce @ ciphertext)))"

definition decrypt :: "aead \<Rightarrow> string \<Rightarrow> string \<Rightarrow> db_error + string" where
  "decrypt ax ciphertext_b64 key =
     (case cipher key of
        Inl e \<Rightarrow> Inl e
      | Inr k \<Rightarrow>
          case ax_b64_decode ax ciphertext_b64 of
            None \<Rightarrow> Inl (Sqlx ''base64'')
          | Some bytes \<Rightarrow>
              if length bytes < NONCE_LEN then Inl (Sqlx ''ciphertext too short'')
              else case ax_open ax k (take NONCE_LEN bytes) (drop NONCE_LEN bytes) of
                None \<Rightarrow> Inl (Sqlx ''decrypt'')
              | Some plaintext \<Rightarrow>
                  if valid_utf8 plaintext then Inr plaintext else Inl (Sqlx ''decrypt utf8''))"

lemma decrypt_encrypt:
  assumes "aead_ok ax" and "length key = 32" and "length nonce = NONCE_LEN" and "valid_utf8 plaintext"
  obtains c where "encrypt ax nonce plaintext key = Inr c" and "decrypt ax c key = Inr plaintext"
proof -
  obtain c where "ax_seal ax key nonce plaintext = Some c" "ax_open ax key nonce c = Some plaintext"
    using assms(1,2,3) unfolding aead_ok_def by blast
  with assms that show thesis by (auto simp: encrypt_def decrypt_def cipher_def aead_ok_def)
qed

section \<open>PgTenantConnectionStore\<close>

text \<open>
  \<^verbatim>\<open>encryption_key_from_env\<close> on the trimmed value of the variable: standard Base64 or else the
  URL-safe one, and at least 32 bytes.
\<close>

definition encryption_key_from_env ::
  "(string \<Rightarrow> string option) \<Rightarrow> (string \<Rightarrow> string option) \<Rightarrow> string option \<Rightarrow> string option" where
  "encryption_key_from_env standard url_safe variable =
     Option.bind variable (\<lambda>text.
       let key = (case standard text of Some k \<Rightarrow> Some k | None \<Rightarrow> url_safe text)
       in case key of Some k \<Rightarrow> if 32 \<le> length k then Some k else None | None \<Rightarrow> None)"

definition encrypt_secret :: "aead \<Rightarrow> string option \<Rightarrow> string \<Rightarrow> string \<Rightarrow> db_error + string" where
  "encrypt_secret ax key nonce secret =
     (case key of None \<Rightarrow> Inl EncryptionKeyMissing | Some k \<Rightarrow> encrypt ax nonce secret k)"

definition decrypt_secret :: "aead \<Rightarrow> string option \<Rightarrow> string \<Rightarrow> db_error + string" where
  "decrypt_secret ax key ciphertext =
     (case key of None \<Rightarrow> Inl EncryptionKeyMissing | Some k \<Rightarrow> decrypt ax ciphertext k)"

text \<open>A failure to encrypt or decrypt is logged, and the configuration stays as it is.\<close>

definition encrypt_config :: "aead \<Rightarrow> string option \<Rightarrow> string \<Rightarrow> json \<Rightarrow> json" where
  "encrypt_config ax key nonce config =
     (case Option.bind (json_get config ''client_secret'') as_str of
        None \<Rightarrow> config
      | Some secret \<Rightarrow>
          case encrypt_secret ax key nonce secret of
            Inr encrypted \<Rightarrow> json_set config ''client_secret'' (JStr (''enc:'' @ encrypted))
          | Inl _ \<Rightarrow> config)"

definition decrypt_config :: "aead \<Rightarrow> string option \<Rightarrow> json \<Rightarrow> json" where
  "decrypt_config ax key config =
     (case Option.bind (json_get config ''client_secret'') as_str of
        None \<Rightarrow> config
      | Some text \<Rightarrow>
          case strip_prefix ''enc:'' text of
            None \<Rightarrow> config
          | Some encrypted \<Rightarrow>
              case decrypt_secret ax key encrypted of
                Inr plain \<Rightarrow> json_set config ''client_secret'' (JStr plain)
              | Inl _ \<Rightarrow> config)"

definition decrypt_row :: "aead \<Rightarrow> string option \<Rightarrow> tenant_connection_row \<Rightarrow> tenant_connection_row" where
  "decrypt_row ax key row = row\<lparr>tc_config := decrypt_config ax key (tc_config row)\<rparr>"

definition require_verified_domain :: "string \<Rightarrow> string \<Rightarrow> ('z pg_scheme, db_error, unit) io" where
  "require_verified_domain tenant_id domain =
     bindE (pg_query (\<lambda>now db. Inr (find (\<lambda>d. td_tenant_id d = tenant_id \<and> td_domain d = domain) (tenant_domains db))))
       (\<lambda>row. case row of
          Some d \<Rightarrow> if td_is_verified d then ret () else raise DomainNotVerified
        | None \<Rightarrow> raise DomainNotVerified)"

definition connection_insert_stmt ::
  "string \<Rightarrow> string \<Rightarrow> connection_type \<Rightarrow> string \<Rightarrow> json \<Rightarrow> tenant_connection_row stmt" where
  "connection_insert_stmt i tenant_id connection_type domain config now db =
     (let row = \<lparr>tc_id = i, tc_tenant_id = tenant_id, tc_connection_type = connection_type, tc_domain = domain,
                 tc_config = config, tc_is_enabled = True, tc_created_at = now, tc_updated_at = now\<rparr>
      in if \<not> tenant_exists db tenant_id then violates ''tenant_connections_tenant_id_fkey'' db
         else if i \<in> tc_id ` set (tenant_connections db) then violates ''tenant_connections_pkey'' db
         else if domain \<in> tc_domain ` set (tenant_connections db)
           then violates ''idx_tenant_connections_domain_unique'' db
         else (Inr row, db\<lparr>tenant_connections := tenant_connections db @ [row]\<rparr>))"

definition connection_create ::
  "aead \<Rightarrow> string option \<Rightarrow> string \<Rightarrow> string \<Rightarrow> connection_type \<Rightarrow> string \<Rightarrow> json
    \<Rightarrow> ('z pg_scheme, db_error, tenant_connection_row) io" where
  "connection_create ax key nonce tenant_id connection_type domain config =
     bindE (require_verified_domain tenant_id domain) (\<lambda>_.
     bindE ulid_new (\<lambda>i.
     bindE (pg_exec (connection_insert_stmt i tenant_id connection_type domain (encrypt_config ax key nonce config)))
       (\<lambda>row. ret (decrypt_row ax key row))))"

definition connection_get_by_domain ::
  "aead \<Rightarrow> string option \<Rightarrow> string \<Rightarrow> ('z pg_scheme, db_error, tenant_connection_row) io" where
  "connection_get_by_domain ax key domain =
     bindE (pg_query (\<lambda>now db. Inr (find (\<lambda>c. tc_domain c = domain \<and> tc_is_enabled c) (tenant_connections db))))
       (\<lambda>row. lift_result (ok_or ConnectionNotFound (map_option (decrypt_row ax key) row)))"

definition connection_get_by_id ::
  "aead \<Rightarrow> string option \<Rightarrow> string \<Rightarrow> string \<Rightarrow> ('z pg_scheme, db_error, tenant_connection_row) io" where
  "connection_get_by_id ax key tenant_id i =
     bindE (pg_query (\<lambda>now db. Inr (find (\<lambda>c. tc_tenant_id c = tenant_id \<and> tc_id c = i) (tenant_connections db))))
       (\<lambda>row. lift_result (ok_or ConnectionNotFound (map_option (decrypt_row ax key) row)))"

definition connection_list_by_tenant ::
  "aead \<Rightarrow> string option \<Rightarrow> string \<Rightarrow> ('z pg_scheme, db_error, tenant_connection_row list) io" where
  "connection_list_by_tenant ax key tenant_id =
     bindE (pg_query (\<lambda>now db. Inr (sort_key (\<lambda>c. - tc_created_at c)
              (filter (\<lambda>c. tc_tenant_id c = tenant_id) (tenant_connections db)))))
       (\<lambda>rows. ret (map (decrypt_row ax key) rows))"

text \<open>\<^verbatim>\<open>UPDATE tenant_connections SET ..., updated_at = NOW() WHERE tenant_id = $ AND id = $\<close>.\<close>

definition connection_update_stmt ::
  "string \<Rightarrow> string \<Rightarrow> (tenant_connection_row \<Rightarrow> tenant_connection_row) \<Rightarrow> tenant_connection_row option stmt" where
  "connection_update_stmt tenant_id i change now db =
     (let hit = (\<lambda>c. tc_tenant_id c = tenant_id \<and> tc_id c = i);
          upd = (\<lambda>c. (change c)\<lparr>tc_updated_at := now\<rparr>)
      in case find hit (tenant_connections db) of
           None \<Rightarrow> (Inr None, db)
         | Some c \<Rightarrow> (Inr (Some (upd c)), db\<lparr>tenant_connections :=
             map (\<lambda>x. if hit x then upd x else x) (tenant_connections db)\<rparr>))"

definition connection_update_config ::
  "aead \<Rightarrow> string option \<Rightarrow> string \<Rightarrow> string \<Rightarrow> string \<Rightarrow> json
    \<Rightarrow> ('z pg_scheme, db_error, tenant_connection_row) io" where
  "connection_update_config ax key nonce tenant_id i config =
     bindE (pg_exec (connection_update_stmt tenant_id i (\<lambda>c. c\<lparr>tc_config := encrypt_config ax key nonce config\<rparr>)))
       (\<lambda>row. lift_result (ok_or ConnectionNotFound (map_option (decrypt_row ax key) row)))"

definition connection_set_enabled ::
  "aead \<Rightarrow> string option \<Rightarrow> string \<Rightarrow> string \<Rightarrow> bool \<Rightarrow> ('z pg_scheme, db_error, tenant_connection_row) io" where
  "connection_set_enabled ax key tenant_id i is_enabled =
     bindE (pg_exec (connection_update_stmt tenant_id i (\<lambda>c. c\<lparr>tc_is_enabled := is_enabled\<rparr>)))
       (\<lambda>row. lift_result (ok_or ConnectionNotFound (map_option (decrypt_row ax key) row)))"

section \<open>PgTenantDomainStore\<close>

text \<open>\<open>verification_token\<close> is what \<^verbatim>\<open>generate_verification_token\<close> drew.\<close>

definition domain_insert_stmt :: "string \<Rightarrow> string \<Rightarrow> string \<Rightarrow> string \<Rightarrow> tenant_domain_row stmt" where
  "domain_insert_stmt i tenant_id domain verification_token now db =
     (let row = \<lparr>td_id = i, td_tenant_id = tenant_id, td_domain = domain, td_verification_token = verification_token,
                 td_is_verified = False, td_verified_at = None, td_created_at = now, td_updated_at = now\<rparr>
      in if \<not> tenant_exists db tenant_id then violates ''tenant_domains_tenant_id_fkey'' db
         else if i \<in> td_id ` set (tenant_domains db) then violates ''tenant_domains_pkey'' db
         else if domain \<in> td_domain ` set (tenant_domains db) then violates ''idx_tenant_domains_domain_unique'' db
         else (Inr row, db\<lparr>tenant_domains := tenant_domains db @ [row]\<rparr>))"

definition domain_create :: "string \<Rightarrow> string \<Rightarrow> string \<Rightarrow> ('z pg_scheme, db_error, tenant_domain_row) io" where
  "domain_create verification_token tenant_id domain =
     bindE ulid_new (\<lambda>i. pg_exec (domain_insert_stmt i tenant_id domain verification_token))"

definition domain_get_by_domain :: "string \<Rightarrow> ('z pg_scheme, db_error, tenant_domain_row) io" where
  "domain_get_by_domain domain =
     pg_query (\<lambda>now db. ok_or DomainNotFound (find (\<lambda>d. td_domain d = domain) (tenant_domains db)))"

definition domain_mark_verified_stmt :: "string \<Rightarrow> string \<Rightarrow> tenant_domain_row stmt" where
  "domain_mark_verified_stmt tenant_id i now db =
     (let hit = (\<lambda>d. td_tenant_id d = tenant_id \<and> td_id d = i);
          upd = (\<lambda>d. d\<lparr>td_is_verified := True, td_verified_at := Some now, td_updated_at := now\<rparr>)
      in case find hit (tenant_domains db) of
           None \<Rightarrow> (Inl DomainNotFound, db)
         | Some d \<Rightarrow> (Inr (upd d), db\<lparr>tenant_domains := map (\<lambda>x. if hit x then upd x else x) (tenant_domains db)\<rparr>))"

definition domain_mark_verified :: "string \<Rightarrow> string \<Rightarrow> ('z pg_scheme, db_error, tenant_domain_row) io" where
  "domain_mark_verified tenant_id i = pg_exec (domain_mark_verified_stmt tenant_id i)"

definition domain_list_by_tenant :: "string \<Rightarrow> ('z pg_scheme, db_error, tenant_domain_row list) io" where
  "domain_list_by_tenant tenant_id =
     pg_query (\<lambda>now db. Inr (sort_key (\<lambda>d. - td_created_at d)
       (filter (\<lambda>d. td_tenant_id d = tenant_id) (tenant_domains db))))"

section \<open>PgTenantLocalAuthStore\<close>

definition local_auth_insert_stmt :: "string \<Rightarrow> string \<Rightarrow> local_auth_method \<Rightarrow> json \<Rightarrow> tenant_local_auth_row stmt" where
  "local_auth_insert_stmt i tenant_id meth config now db =
     (let row = \<lparr>la_id = i, la_tenant_id = tenant_id, la_method = meth, la_config = config, la_is_enabled = True,
                 la_created_at = now, la_updated_at = now\<rparr>
      in if \<not> tenant_exists db tenant_id then violates ''tenant_local_auth_tenant_id_fkey'' db
         else if i \<in> la_id ` set (tenant_local_auths db) then violates ''tenant_local_auth_pkey'' db
         else if (tenant_id, meth) \<in> (\<lambda>r. (la_tenant_id r, la_method r)) ` set (tenant_local_auths db)
           then violates ''idx_tenant_local_auth_tenant_method_unique'' db
         else (Inr row, db\<lparr>tenant_local_auths := tenant_local_auths db @ [row]\<rparr>))"

definition local_auth_create ::
  "string \<Rightarrow> local_auth_method \<Rightarrow> json \<Rightarrow> ('z pg_scheme, db_error, tenant_local_auth_row) io" where
  "local_auth_create tenant_id meth config =
     bindE ulid_new (\<lambda>i. pg_exec (local_auth_insert_stmt i tenant_id meth config))"

definition local_auth_get ::
  "string \<Rightarrow> local_auth_method \<Rightarrow> ('z pg_scheme, db_error, tenant_local_auth_row) io" where
  "local_auth_get tenant_id meth =
     pg_query (\<lambda>now db. ok_or LocalAuthNotFound
       (find (\<lambda>r. la_tenant_id r = tenant_id \<and> la_method r = meth \<and> la_is_enabled r) (tenant_local_auths db)))"

definition local_auth_list_by_tenant :: "string \<Rightarrow> ('z pg_scheme, db_error, tenant_local_auth_row list) io" where
  "local_auth_list_by_tenant tenant_id =
     pg_query (\<lambda>now db. Inr (sort_key (\<lambda>r. - la_created_at r)
       (filter (\<lambda>r. la_tenant_id r = tenant_id) (tenant_local_auths db))))"

definition local_auth_update_stmt ::
  "string \<Rightarrow> string \<Rightarrow> (tenant_local_auth_row \<Rightarrow> tenant_local_auth_row) \<Rightarrow> tenant_local_auth_row stmt" where
  "local_auth_update_stmt tenant_id i change now db =
     (let hit = (\<lambda>r. la_tenant_id r = tenant_id \<and> la_id r = i);
          upd = (\<lambda>r. (change r)\<lparr>la_updated_at := now\<rparr>)
      in case find hit (tenant_local_auths db) of
           None \<Rightarrow> (Inl LocalAuthNotFound, db)
         | Some r \<Rightarrow> (Inr (upd r), db\<lparr>tenant_local_auths :=
             map (\<lambda>x. if hit x then upd x else x) (tenant_local_auths db)\<rparr>))"

definition local_auth_update_config ::
  "string \<Rightarrow> string \<Rightarrow> json \<Rightarrow> ('z pg_scheme, db_error, tenant_local_auth_row) io" where
  "local_auth_update_config tenant_id i config =
     pg_exec (local_auth_update_stmt tenant_id i (\<lambda>r. r\<lparr>la_config := config\<rparr>))"

definition local_auth_set_enabled ::
  "string \<Rightarrow> string \<Rightarrow> bool \<Rightarrow> ('z pg_scheme, db_error, tenant_local_auth_row) io" where
  "local_auth_set_enabled tenant_id i is_enabled =
     pg_exec (local_auth_update_stmt tenant_id i (\<lambda>r. r\<lparr>la_is_enabled := is_enabled\<rparr>))"

section \<open>Discovery\<close>

datatype discovery_result =
    OidcRedirect string
  | OAuth2Redirect string
  | SamlRedirect string string string
  | SelectTenant string

datatype hrd_error =
    InvalidEmail | MissingEmail | MissingReturnTo | InvalidReturnTo | ConnectionDisabled
  | HrdSamlProviderNotFound | InvalidConnectionConfig string | HrdDatabase db_error

fun service_error_of_hrd :: "hrd_error \<Rightarrow> service_error" where
  "service_error_of_hrd InvalidEmail = SE_InvalidArgument ''invalid email''"
| "service_error_of_hrd MissingEmail = SE_InvalidArgument ''missing email''"
| "service_error_of_hrd MissingReturnTo = SE_InvalidArgument ''missing return_to''"
| "service_error_of_hrd InvalidReturnTo = SE_InvalidArgument ''invalid return_to''"
| "service_error_of_hrd ConnectionDisabled = SE_PermissionDenied ''connection disabled''"
| "service_error_of_hrd HrdSamlProviderNotFound = SE_NotFound ''SAML provider not found''"
| "service_error_of_hrd (InvalidConnectionConfig m) = SE_InvalidArgument m"
| "service_error_of_hrd (HrdDatabase e) = service_error_of_db e"

text \<open>
  What \<^verbatim>\<open>Hrd\<close> is configured with and what it calls: the key and cipher of the connection
  store, \<^verbatim>\<open>Url::parse\<close> (does it succeed), percent encoding, and the 32 random bytes in hexadecimal
  that \<^verbatim>\<open>generate_state\<close> draws.
\<close>

record hrd =
  hrd_aead :: aead
  hrd_key :: "string option"
  hrd_public_base_url :: string
  hrd_url_ok :: "string \<Rightarrow> bool"
  hrd_urlencode :: "string \<Rightarrow> string"
  hrd_state :: string

definition rsplit_once :: "char \<Rightarrow> string \<Rightarrow> (string \<times> string) option" where
  "rsplit_once c s = map_option (\<lambda>(a, b). (rev b, rev a)) (split_once c (rev s))"

definition email_domain :: "string \<Rightarrow> string" where
  "email_domain email = (case rsplit_once (CHR ''@'') email of Some (_, d) \<Rightarrow> d | None \<Rightarrow> [])"

definition validate_email :: "string \<Rightarrow> hrd_error + unit" where
  "validate_email email =
     (if email = [] then Inl MissingEmail
      else if length (filter (\<lambda>c. c = CHR ''@'') email) \<noteq> 1 then Inl InvalidEmail
      else if email_domain email = [] then Inl InvalidEmail
      else Inr ())"

definition validate_return_to :: "hrd \<Rightarrow> string \<Rightarrow> hrd_error + unit" where
  "validate_return_to h return_to =
     (if return_to = [] then Inl MissingReturnTo
      else if \<not> hrd_url_ok h return_to then Inl InvalidReturnTo
      else Inr ())"

definition build_select_tenant_url :: "hrd \<Rightarrow> string \<Rightarrow> string \<Rightarrow> string" where
  "build_select_tenant_url h email return_to =
     trim_end_matches (CHR ''/'') (hrd_public_base_url h) @ ''/login/select-tenant?email='' @ hrd_urlencode h email
       @ ''&return_to='' @ hrd_urlencode h return_to"

definition require_field :: "json \<Rightarrow> string \<Rightarrow> hrd_error + string" where
  "require_field config k = ok_or (InvalidConnectionConfig (''missing '' @ k)) (as_str (json_index config k))"

definition config_scopes :: "json \<Rightarrow> hrd_error + string list" where
  "config_scopes config =
     (case as_array (json_index config ''scopes'') of
        None \<Rightarrow> Inl (InvalidConnectionConfig ''missing scopes'')
      | Some vs \<Rightarrow>
          let scopes = filter (\<lambda>s. s \<noteq> []) (List.map_filter as_str vs)
          in if scopes = [] then Inl (InvalidConnectionConfig ''empty scopes'') else Inr scopes)"

definition normalize_issuer_url :: "string \<Rightarrow> string" where
  "normalize_issuer_url issuer =
     (if starts_with issuer ''https://'' \<or> starts_with issuer ''http://'' then trim_end_matches (CHR ''/'') issuer
      else ''https://'' @ issuer)"

definition authorize_query :: "hrd \<Rightarrow> string \<Rightarrow> string list \<Rightarrow> string \<Rightarrow> string" where
  "authorize_query h client_id scopes redirect_uri =
     ''?client_id='' @ hrd_urlencode h client_id @ ''&response_type=code&scope=''
       @ hrd_urlencode h (join_with '' '' scopes) @ ''&redirect_uri='' @ hrd_urlencode h redirect_uri
       @ ''&state='' @ hrd_urlencode h (hrd_state h)"

definition build_oidc_url :: "hrd \<Rightarrow> json \<Rightarrow> string \<Rightarrow> hrd_error + string" where
  "build_oidc_url h config return_to =
     (case require_field config ''issuer'' of Inl e \<Rightarrow> Inl e | Inr issuer \<Rightarrow>
      case require_field config ''client_id'' of Inl e \<Rightarrow> Inl e | Inr client_id \<Rightarrow>
      case require_field config ''redirect_uri'' of Inl e \<Rightarrow> Inl e | Inr redirect_uri \<Rightarrow>
      case config_scopes config of Inl e \<Rightarrow> Inl e | Inr scopes \<Rightarrow>
        Inr (normalize_issuer_url issuer @ ''/oauth2/authorize'' @ authorize_query h client_id scopes redirect_uri))"

definition build_oauth2_url :: "hrd \<Rightarrow> json \<Rightarrow> string \<Rightarrow> hrd_error + string" where
  "build_oauth2_url h config return_to =
     (case require_field config ''authorization_url'' of Inl e \<Rightarrow> Inl e | Inr authorization_url \<Rightarrow>
      case require_field config ''client_id'' of Inl e \<Rightarrow> Inl e | Inr client_id \<Rightarrow>
      case require_field config ''redirect_uri'' of Inl e \<Rightarrow> Inl e | Inr redirect_uri \<Rightarrow>
      case config_scopes config of Inl e \<Rightarrow> Inl e | Inr scopes \<Rightarrow>
        Inr (authorization_url @ authorize_query h client_id scopes redirect_uri))"

text \<open>The tenant of the connection is an argument, but plays no part.\<close>

definition build_saml_redirect :: "string \<Rightarrow> json \<Rightarrow> string \<Rightarrow> ('z pg_scheme, hrd_error, discovery_result) io" where
  "build_saml_redirect tenant_id config return_to =
     bindE (lift_result (require_field config ''provider_id'')) (\<lambda>provider_id.
     bindE (map_err (\<lambda>e. if e = SamlProviderNotFound then HrdSamlProviderNotFound else HrdDatabase e)
              (saml_provider_get_by_id provider_id)) (\<lambda>provider.
     ret (SamlRedirect (pv_idp_sso_url provider) [] [])))"

definition is_verified_domain :: "string \<Rightarrow> ('z pg_scheme, hrd_error, bool) io" where
  "is_verified_domain domain =
     attempt (domain_get_by_domain domain) (\<lambda>r. case r of
         Inr row \<Rightarrow> ret (td_is_verified row)
       | Inl e \<Rightarrow> if e = DomainNotFound then ret False else raise (HrdDatabase e))"

definition discover :: "hrd \<Rightarrow> string \<Rightarrow> string \<Rightarrow> ('z pg_scheme, hrd_error, discovery_result) io" where
  "discover h email return_to =
     bindE (lift_result (validate_email email)) (\<lambda>_.
     bindE (lift_result (validate_return_to h return_to)) (\<lambda>_.
     let domain = email_domain email;
         select = SelectTenant (build_select_tenant_url h email return_to)
     in bindE (is_verified_domain domain) (\<lambda>verified.
        if \<not> verified then ret select
        else attempt (connection_get_by_domain (hrd_aead h) (hrd_key h) domain) (\<lambda>r. case r of
            Inr connection \<Rightarrow>
              (case tc_connection_type connection of
                 Oidc \<Rightarrow> bindE (lift_result (build_oidc_url h (tc_config connection) return_to)) (\<lambda>url.
                   ret (OidcRedirect url))
               | OAuth2 \<Rightarrow> bindE (lift_result (build_oauth2_url h (tc_config connection) return_to)) (\<lambda>url.
                   ret (OAuth2Redirect url))
               | Saml \<Rightarrow> build_saml_redirect (tc_tenant_id connection) (tc_config connection) return_to)
          | Inl e \<Rightarrow> if e = ConnectionNotFound then ret select else raise (HrdDatabase e)))))"

section \<open>Only the owner of a domain connects it\<close>

text \<open>
  What the two stores keep together: a domain has one owner and at most one connection, and
  the connection belongs to the tenant that verified the domain. No operation withdraws a
  verification, so checking first and inserting in a second statement keeps it.
\<close>

definition domain_owned :: "database \<Rightarrow> string \<Rightarrow> string \<Rightarrow> bool" where
  "domain_owned db tenant_id domain \<longleftrightarrow>
     (\<exists>d \<in> set (tenant_domains db). td_tenant_id d = tenant_id \<and> td_domain d = domain \<and> td_is_verified d)"

definition realm_ok :: "database \<Rightarrow> bool" where
  "realm_ok db \<longleftrightarrow> key_unique td_domain (tenant_domains db) \<and> key_unique tc_domain (tenant_connections db)
     \<and> (\<forall>c \<in> set (tenant_connections db). domain_owned db (tc_tenant_id c) (tc_domain c))"

text \<open>One call of any store of this section, by any tenant.\<close>

datatype realm_call =
    DomainCreate string string string
  | DomainMarkVerified string string
  | ConnectionCreate string string connection_type string json
  | ConnectionUpdate string string string json
  | ConnectionEnable string string bool
  | LocalAuthCreate string local_auth_method json
  | LocalAuthUpdate string string json
  | LocalAuthEnable string string bool

definition run_realm_call :: "aead \<Rightarrow> string option \<Rightarrow> 'z pg_scheme \<Rightarrow> realm_call \<Rightarrow> 'z pg_scheme" where
  "run_realm_call ax key w c =
     (case c of
        DomainCreate token t d \<Rightarrow> snd (domain_create token t d w)
      | DomainMarkVerified t i \<Rightarrow> snd (domain_mark_verified t i w)
      | ConnectionCreate nonce t ty d config \<Rightarrow> snd (connection_create ax key nonce t ty d config w)
      | ConnectionUpdate nonce t i config \<Rightarrow> snd (connection_update_config ax key nonce t i config w)
      | ConnectionEnable t i b \<Rightarrow> snd (connection_set_enabled ax key t i b w)
      | LocalAuthCreate t m config \<Rightarrow> snd (local_auth_create t m config w)
      | LocalAuthUpdate t i config \<Rightarrow> snd (local_auth_update_config t i config w)
      | LocalAuthEnable t i b \<Rightarrow> snd (local_auth_set_enabled t i b w))"

lemma stmt_keeps_domain_insert [stmt_rules]: "stmt_keeps realm_ok (domain_insert_stmt i t d token)"
  by (rule stmt_keepsI)
     (auto simp: domain_insert_stmt_def Let_def violates_def realm_ok_def key_unique_append domain_owned_def)

lemma domain_owned_mark:
  assumes "domain_owned db t d"
  shows "domain_owned (snd (domain_mark_verified_stmt t' i now db)) t d"
proof (cases "find (\<lambda>d. td_tenant_id d = t' \<and> td_id d = i) (tenant_domains db)")
  case None
  then show ?thesis using assms by (simp add: domain_mark_verified_stmt_def Let_def)
next
  case (Some e)
  obtain r where r: "r \<in> set (tenant_domains db)" "td_tenant_id r = t" "td_domain r = d" "td_is_verified r"
    using assms by (auto simp: domain_owned_def)
  let ?f = "\<lambda>x. if td_tenant_id x = t' \<and> td_id x = i
    then x\<lparr>td_is_verified := True, td_verified_at := Some now, td_updated_at := now\<rparr> else x"
  have "?f r \<in> set (tenant_domains (snd (domain_mark_verified_stmt t' i now db)))"
    using Some r(1) by (auto simp: domain_mark_verified_stmt_def Let_def)
  then show ?thesis unfolding domain_owned_def by (rule bexI [rotated]) (use r in simp)
qed

lemma stmt_keeps_domain_mark [stmt_rules]: "stmt_keeps realm_ok (domain_mark_verified_stmt t i)"
proof (rule stmt_keepsI)
  fix now db
  assume ok: "realm_ok db"
  let ?db = "snd (domain_mark_verified_stmt t i now db)"
  have "tenant_connections ?db = tenant_connections db"
    by (simp add: domain_mark_verified_stmt_def Let_def split: option.splits)
  moreover have "map td_domain (tenant_domains ?db) = map td_domain (tenant_domains db)"
    by (auto simp: domain_mark_verified_stmt_def Let_def split: option.splits)
  ultimately show "realm_ok ?db"
    using ok domain_owned_mark [of db _ _ t i now] by (simp add: realm_ok_def key_unique_def)
qed

lemma stmt_keeps_connection_update [stmt_rules]:
  assumes "\<And>c. tc_tenant_id (change c) = tc_tenant_id c \<and> tc_domain (change c) = tc_domain c"
  shows "stmt_keeps realm_ok (connection_update_stmt t i change)"
proof (rule stmt_keepsI)
  fix now db
  assume ok: "realm_ok db"
  have "map tc_domain (tenant_connections (snd (connection_update_stmt t i change now db)))
      = map tc_domain (tenant_connections db)"
    using assms by (auto simp: connection_update_stmt_def Let_def split: option.splits)
  with ok assms show "realm_ok (snd (connection_update_stmt t i change now db))"
    by (auto simp: connection_update_stmt_def Let_def realm_ok_def key_unique_def domain_owned_def split: option.splits)
qed

lemma stmt_keeps_local_auth [stmt_rules]:
  "stmt_keeps realm_ok (local_auth_insert_stmt i t m config)" "stmt_keeps realm_ok (local_auth_update_stmt t i change)"
  by (rule stmt_keepsI, auto simp: local_auth_insert_stmt_def local_auth_update_stmt_def Let_def violates_def realm_ok_def
      domain_owned_def split: option.splits)+

lemma require_verified_domain_Inr:
  assumes "require_verified_domain t d w = (Inr (), v)"
  shows "domain_owned (pg_db w) t d \<and> pg_db v = pg_db w"
proof -
  obtain x where q: "pg_query (\<lambda>now db. Inr (find (\<lambda>e. td_tenant_id e = t \<and> td_domain e = d) (tenant_domains db))) w
      = (Inr x :: db_error + _, v)" and x: "\<exists>e. x = Some e \<and> td_is_verified e"
    using assms by (auto simp: require_verified_domain_def io_defs split: prod.splits sum.splits option.splits if_splits)
  then show ?thesis
    using pg_query_Inr [OF q] by (auto simp: domain_owned_def dest!: find_SomeD)
qed

lemma connection_insert_ok:
  assumes "realm_ok db" and "domain_owned db t d"
  shows "realm_ok (snd (connection_insert_stmt i t ty d config now db))"
  using assms by (auto simp: connection_insert_stmt_def Let_def violates_def realm_ok_def key_unique_append domain_owned_def)

lemma keeps_connection_create: "keeps (\<lambda>w. realm_ok (pg_db w)) (connection_create ax key nonce t ty d config)"
proof (rule keepsI)
  fix w v :: "'z pg_scheme" and r
  assume ok: "realm_ok (pg_db w)" and run: "connection_create ax key nonce t ty d config w = (r, v)"
  have req: "keeps (\<lambda>w. realm_ok (pg_db w)) (require_verified_domain t d)"
    unfolding require_verified_domain_def by (auto intro!: keeps_rules split: option.splits)
  show "realm_ok (pg_db v)"
  proof (cases "require_verified_domain t d w")
    case (Pair x w1)
    show ?thesis
    proof (cases x)
      case (Inl e)
      then show ?thesis using run Pair keepsD [OF req ok Pair] by (simp add: connection_create_def bindE_def)
    next
      case (Inr u)
      then have own: "domain_owned (pg_db w1) t d" and ok1: "realm_ok (pg_db w1)"
        using require_verified_domain_Inr [of t d w w1] Pair ok by auto
      let ?w2 = "w1\<lparr>pg_ulids := Suc (pg_ulids w1)\<rparr>"
      let ?i = "pg_ulid w1 (pg_ulids w1)"
      let ?st = "connection_insert_stmt ?i t ty d (encrypt_config ax key nonce config)"
      have "realm_ok (snd (?st (pg_now w1) (pg_db w1)))" by (rule connection_insert_ok [OF ok1 own])
      then have "realm_ok (pg_db (snd (pg_exec ?st ?w2)))"
        using ok1 by (auto simp: pg_exec_def Let_def split: prod.splits option.splits fault.splits)
      moreover have "pg_db v = pg_db (snd (pg_exec ?st ?w2))"
        using run Pair Inr by (auto simp: connection_create_def bindE_def ulid_new_def ret_def split: prod.splits sum.splits)
      ultimately show ?thesis by simp
    qed
  qed
qed

lemma keeps_realm_stores:
  "keeps (\<lambda>w. realm_ok (pg_db w)) (domain_create token t d)"
  "keeps (\<lambda>w. realm_ok (pg_db w)) (domain_mark_verified t i)"
  "keeps (\<lambda>w. realm_ok (pg_db w)) (connection_update_config ax key nonce t i config)"
  "keeps (\<lambda>w. realm_ok (pg_db w)) (connection_set_enabled ax key t i b)"
  "keeps (\<lambda>w. realm_ok (pg_db w)) (local_auth_create t m config)"
  "keeps (\<lambda>w. realm_ok (pg_db w)) (local_auth_update_config t i config)"
  "keeps (\<lambda>w. realm_ok (pg_db w)) (local_auth_set_enabled t i b)"
  unfolding domain_create_def domain_mark_verified_def connection_update_config_def connection_set_enabled_def
    local_auth_create_def local_auth_update_config_def local_auth_set_enabled_def
  by (intro keeps_rules stmt_rules; simp)+

lemma realm_call_keeps:
  "realm_ok (pg_db w) \<Longrightarrow> realm_ok (pg_db (run_realm_call ax key w c))"
  by (cases c)
     (simp_all add: run_realm_call_def keeps_realm_stores [unfolded keeps_def, rule_format]
       keeps_connection_create [unfolded keeps_def, rule_format])

lemma realm_calls_keep:
  "realm_ok (pg_db w) \<Longrightarrow> realm_ok (pg_db (foldl (run_realm_call ax key) w cs))"
  by (induction cs arbitrary: w) (simp_all add: realm_call_keeps)

section \<open>Secrets at rest\<close>

lemma connection_create_Inr:
  assumes "connection_create ax key nonce t ty d config w = (Inr row, v)"
  obtains stored where "tenant_connections (pg_db v) = tenant_connections (pg_db w) @ [stored]"
    and "row = decrypt_row ax key stored" and "tc_config stored = encrypt_config ax key nonce config"
    and "tc_domain stored = d" and "tc_tenant_id stored = t" and "tc_is_enabled stored"
    and "d \<notin> tc_domain ` set (tenant_connections (pg_db w))"
proof -
  obtain w1 where req: "require_verified_domain t d w = (Inr (), w1)"
    using assms by (auto simp: connection_create_def run_simps)
  let ?w2 = "w1\<lparr>pg_ulids := Suc (pg_ulids w1)\<rparr>"
  let ?st = "connection_insert_stmt (pg_ulid w1 (pg_ulids w1)) t ty d (encrypt_config ax key nonce config)"
  obtain stored where run: "pg_exec ?st ?w2 = (Inr stored, v)" and row: "row = decrypt_row ax key stored"
    using assms req by (auto simp: connection_create_def run_simps ulid_new_def)
  show thesis
    by (rule that [of stored])
       (use pg_exec_Inr [OF run] require_verified_domain_Inr [OF req] row in
         \<open>auto simp: connection_insert_stmt_def Let_def violates_def split: if_splits\<close>)
qed

lemma encrypt_config_cases:
  assumes "json_get config ''client_secret'' = Some (JStr secret)" and "encrypt_secret ax key nonce secret = Inr c"
  shows "encrypt_config ax key nonce config = json_set config ''client_secret'' (JStr (''enc:'' @ c))"
  using assms by (simp add: encrypt_config_def)

lemma json_get_set:
  assumes "json_get config k = Some x"
  shows "json_get (json_set config k v) k' = (if k' = k then Some v else json_get config k')"
  using assms json_get_set_other by (cases config) auto

lemma decrypt_encrypt_config:
  assumes ok: "aead_ok ax" "length k = 32" "length nonce = NONCE_LEN"
    and sec: "json_get config ''client_secret'' = Some (JStr secret)" "valid_utf8 secret"
  shows "json_get (decrypt_config ax (Some k) (encrypt_config ax (Some k) nonce config)) = json_get config"
    and "\<exists>c. encrypt ax nonce secret k = Inr c
      \<and> json_get (encrypt_config ax (Some k) nonce config) ''client_secret'' = Some (JStr (''enc:'' @ c))"
proof -
  obtain c where c: "encrypt ax nonce secret k = Inr c" "decrypt ax c k = Inr secret"
    using decrypt_encrypt [OF ok sec(2)] by blast
  have enc: "encrypt_config ax (Some k) nonce config = json_set config ''client_secret'' (JStr (''enc:'' @ c))"
    using encrypt_config_cases [OF sec(1), of ax "Some k" nonce c] c by (simp add: encrypt_secret_def)
  then have got: "json_get (encrypt_config ax (Some k) nonce config) ''client_secret'' = Some (JStr (''enc:'' @ c))"
    using json_get_set [OF sec(1)] by simp
  have "decrypt_config ax (Some k) (encrypt_config ax (Some k) nonce config)
      = json_set (encrypt_config ax (Some k) nonce config) ''client_secret'' (JStr secret)"
    using got c by (simp add: decrypt_config_def strip_prefix_def starts_with_def decrypt_secret_def)
  then show "json_get (decrypt_config ax (Some k) (encrypt_config ax (Some k) nonce config)) = json_get config"
    using json_get_set [OF got] json_get_set [OF sec(1)] sec(1) enc by (intro ext) auto
  show "\<exists>c. encrypt ax nonce secret k = Inr c
      \<and> json_get (encrypt_config ax (Some k) nonce config) ''client_secret'' = Some (JStr (''enc:'' @ c))"
    using got c by blast
qed

section \<open>Properties\<close>


lemmas realm_sample_defs = domain_create_def domain_insert_stmt_def domain_mark_verified_def domain_mark_verified_stmt_def
  connection_create_def require_verified_domain_def connection_insert_stmt_def run_realm_call_def io_defs
  pg_exec_def pg_query_def ulid_new_def Let_def tenant_exists_def quiet_pg_def empty_db_def

definition sample_aead :: aead where
  "sample_aead = \<lparr>ax_seal = (\<lambda>k n p. Some p), ax_open = (\<lambda>k n c. Some c), ax_b64 = (\<lambda>s. s), ax_b64_decode = Some\<rparr>"

definition sample_hrd :: hrd where
  "sample_hrd = \<lparr>hrd_aead = sample_aead, hrd_key = Some (replicate 32 (CHR ''k'')), hrd_public_base_url = ''https://id'',
     hrd_url_ok = (\<lambda>_. True), hrd_urlencode = (\<lambda>s. s), hrd_state = ''s''\<rparr>"

definition sample_oidc_config :: json where
  "sample_oidc_config = JObj [(''issuer'', JStr ''https://idp''), (''client_id'', JStr ''c''), (''redirect_uri'', JStr ''r''),
     (''scopes'', JArr [JStr ''openid'']), (''client_secret'', JStr ''pw'')]"

definition realm_start :: pg where
  "realm_start = quiet_pg (empty_db\<lparr>tenants := [\<lparr>tn_id = ''T'', tn_slug = ''t'', tn_display_name = ''T'', tn_is_system = False,
     tn_settings = JObj [], tn_created_at = 0\<rparr>]\<rparr>) 0"

text \<open>The tenant registers and verifies the domain \<^verbatim>\<open>ex\<close>.\<close>

definition sample_domain_calls :: "realm_call list" where
  "sample_domain_calls = [DomainCreate ''tok'' ''T'' ''ex'', DomainMarkVerified ''T'' ''0'']"

definition sample_nonce :: string where
  "sample_nonce = ''123456789012''"

lemma sample_aead_ok: "aead_ok sample_aead"
  by (simp add: aead_ok_def sample_aead_def)


text \<open>
  A client secret is encrypted at rest and read back unchanged: with a key of 32 bytes, the
  configuration that \<^verbatim>\<open>create\<close> returns, and that a later \<^verbatim>\<open>get_by_domain\<close> returns, has the fields it was
  given, while the stored secret is \<^verbatim>\<open>enc:\<close> followed by the encoded ciphertext.
\<close>

theorem connection_secret_roundtrip:
  assumes "aead_ok ax" and "length k = 32" and "length nonce = NONCE_LEN"
    and "json_get config ''client_secret'' = Some (JStr secret)" and "valid_utf8 secret"
    and "connection_create ax (Some k) nonce t ty d config w = (Inr row, w1)"
  shows "json_get (tc_config row) = json_get config
    \<and> (\<exists>stored c. tenant_connections (pg_db w1) = tenant_connections (pg_db w) @ [stored]
         \<and> encrypt ax nonce secret k = Inr c
         \<and> json_get (tc_config stored) ''client_secret'' = Some (JStr (''enc:'' @ c)))
    \<and> (\<forall>row'. fst (connection_get_by_domain ax (Some k) d w1) = Inr row' \<longrightarrow> row' = row)"
proof -
  obtain stored where st: "tenant_connections (pg_db w1) = tenant_connections (pg_db w) @ [stored]"
    "row = decrypt_row ax (Some k) stored" "tc_config stored = encrypt_config ax (Some k) nonce config"
    "tc_domain stored = d" "tc_is_enabled stored" "d \<notin> tc_domain ` set (tenant_connections (pg_db w))"
    by (rule connection_create_Inr [OF assms(6)])
  have "find (\<lambda>c. tc_domain c = d \<and> tc_is_enabled c) (tenant_connections (pg_db w1)) = Some stored"
    unfolding st(1) by (subst find_append_miss) (use st(4,5,6) in \<open>auto simp: find_None_iff image_iff\<close>)
  then have "row' = row" if "fst (connection_get_by_domain ax (Some k) d w1) = Inr row'" for row'
    using that pg_query_result [of "\<lambda>now db. Inr (find (\<lambda>c. tc_domain c = d \<and> tc_is_enabled c) (tenant_connections db))" w1] st(2)
    by (cases "pg_query (\<lambda>now db. Inr (find (\<lambda>c. tc_domain c = d \<and> tc_is_enabled c) (tenant_connections db))) w1")
       (auto simp: connection_get_by_domain_def bindE_def lift_result_def ok_or_def)
  with decrypt_encrypt_config [OF assms(1-5)] st show ?thesis by (auto simp: decrypt_row_def)
qed

definition sample_row :: "string option \<Rightarrow> tenant_connection_row" where
  "sample_row key = decrypt_row sample_aead key \<lparr>tc_id = ''00'', tc_tenant_id = ''T'', tc_connection_type = Oidc,
    tc_domain = ''ex'', tc_config = encrypt_config sample_aead key sample_nonce sample_oidc_config, tc_is_enabled = True,
    tc_created_at = 0, tc_updated_at = 0\<rparr>"

lemma sample_connection_created:
  assumes "w = foldl (run_realm_call sample_aead None) realm_start sample_domain_calls"
  shows "connection_create sample_aead key sample_nonce ''T'' Oidc ''ex'' sample_oidc_config w
    = (Inr (sample_row key), snd (connection_create sample_aead key sample_nonce ''T'' Oidc ''ex'' sample_oidc_config w))"
  unfolding assms by (simp add: sample_row_def sample_domain_calls_def realm_start_def realm_sample_defs)

theorem connection_secret_roundtrip_witness:
  "\<exists>row w1. connection_create sample_aead (Some (replicate 32 (CHR ''k''))) sample_nonce ''T'' Oidc ''ex'' sample_oidc_config
       (foldl (run_realm_call sample_aead None) realm_start sample_domain_calls) = (Inr row, w1)
     \<and> json_get (tc_config row) ''client_secret'' = Some (JStr ''pw'')"
proof -
  let ?k = "replicate 32 (CHR ''k'')"
  have secret: "json_get sample_oidc_config ''client_secret'' = Some (JStr ''pw'')"
    by (simp add: sample_oidc_config_def)
  have lens: "length ?k = 32" "length sample_nonce = NONCE_LEN" "valid_utf8 ''pw''"
    by (simp_all add: sample_nonce_def NONCE_LEN_def valid_utf8_def utf8_chars_def code_point_def)
  note made = sample_connection_created [OF refl, of "Some ?k"]
  from connection_secret_roundtrip [OF sample_aead_ok lens(1,2) secret lens(3) made] made secret show ?thesis by metis
qed

text \<open>
  An encryption key that is too long turns encryption off: the environment filter accepts a
  key of more than 32 bytes, the cipher refuses it, and \<^verbatim>\<open>create\<close> then stores the configuration,
  client secret included, in plain text and reports success.
\<close>

theorem long_key_stores_plaintext:
  assumes "encryption_key_from_env standard url_safe variable = Some k" and "length k \<noteq> 32"
    and "connection_create ax (encryption_key_from_env standard url_safe variable) nonce t ty d config w = (Inr row, w1)"
  shows "\<exists>stored. tenant_connections (pg_db w1) = tenant_connections (pg_db w) @ [stored] \<and> tc_config stored = config"
proof -
  have "encrypt_config ax (Some k) nonce config = config"
    using assms(2) by (auto simp: encrypt_config_def encrypt_secret_def encrypt_def cipher_def split: option.splits)
  with assms show ?thesis by (auto elim: connection_create_Inr)
qed

theorem long_key_stores_plaintext_witness:
  "\<exists>w1 stored. snd (connection_create sample_aead (encryption_key_from_env Some Some (Some (replicate 33 (CHR ''k'')))) sample_nonce
       ''T'' Oidc ''ex'' sample_oidc_config (foldl (run_realm_call sample_aead None) realm_start sample_domain_calls)) = w1
     \<and> stored \<in> set (tenant_connections (pg_db w1)) \<and> json_get (tc_config stored) ''client_secret'' = Some (JStr ''pw'')"
proof -
  let ?key = "encryption_key_from_env Some Some (Some (replicate 33 (CHR ''k'')))"
  have key: "?key = Some (replicate 33 (CHR ''k''))" by (simp add: encryption_key_from_env_def)
  note made = sample_connection_created [OF refl, of ?key]
  have "length (replicate 33 (CHR ''k'')) \<noteq> 32" by simp
  from long_key_stores_plaintext [OF key this made] show ?thesis
    by (force simp: sample_oidc_config_def)
qed

end
