(* ===== verification/SamlIdpStores.thy ===== *)
theory SamlIdpStores
  imports HomeRealm
begin

text \<open>
  The stores of the SAML service provider and identity provider roles that \<open>SamlStores\<close> leaves
  out: the links from name identifiers to identities (\<^verbatim>\<open>db/saml_identity_mapping.rs\<close>), the
  pairwise name identifiers the gateway issues (\<^verbatim>\<open>db/saml_nameid_mapping.rs\<close>), its signing keys
  (\<^verbatim>\<open>db/saml_idp_key.rs\<close>, encrypted at rest) and the registered service providers
  (\<^verbatim>\<open>db/saml_sp_client.rs\<close>).
\<close>

section \<open>PgSamlIdentityMappingStore\<close>

abbreviation link_key :: "saml_identity_mapping_row \<Rightarrow> string \<times> string \<times> string" where
  "link_key r \<equiv> (sy_tenant_id r, sy_provider_id r, sy_name_id r)"

definition saml_link_insert_stmt ::
  "string \<Rightarrow> string \<Rightarrow> string \<Rightarrow> string \<Rightarrow> string \<Rightarrow> string \<Rightarrow> saml_identity_mapping_row stmt" where
  "saml_link_insert_stmt i tenant_id provider_id name_id identity_public_id ory_global_id now db =
     (let row = \<lparr>sy_id = i, sy_tenant_id = tenant_id, sy_provider_id = provider_id, sy_name_id = name_id,
                 sy_identity_public_id = identity_public_id, sy_ory_global_id = ory_global_id,
                 sy_created_at = now, sy_updated_at = now\<rparr>
      in if \<not> tenant_exists db tenant_id then violates ''saml_identity_mappings_tenant_id_fkey'' db
         else if provider_id \<notin> pv_id ` set (saml_providers db) then violates ''saml_identity_mappings_provider_id_fkey'' db
         else if i \<in> sy_id ` set (saml_identity_mappings db) then violates ''saml_identity_mappings_pkey'' db
         else if identity_public_id \<in> sy_identity_public_id ` set (saml_identity_mappings db)
           then violates ''saml_identity_mappings_identity_public_id_key'' db
         else if (tenant_id, provider_id, name_id) \<in> link_key ` set (saml_identity_mappings db)
           then violates ''saml_identity_mappings_tenant_id_provider_id_name_id_key'' db
         else (Inr row, db\<lparr>saml_identity_mappings := saml_identity_mappings db @ [row]\<rparr>))"

definition saml_link_create ::
  "string \<Rightarrow> string \<Rightarrow> string \<Rightarrow> string \<Rightarrow> string \<Rightarrow> ('z pg_scheme, db_error, saml_identity_mapping_row) io" where
  "saml_link_create tenant_id provider_id name_id identity_public_id ory_global_id =
     bindE ulid_new (\<lambda>i. pg_exec (saml_link_insert_stmt i tenant_id provider_id name_id identity_public_id ory_global_id))"

definition saml_link_get :: "string \<Rightarrow> string \<Rightarrow> string \<Rightarrow> ('z pg_scheme, db_error, saml_identity_mapping_row) io" where
  "saml_link_get tenant_id provider_id name_id =
     pg_query (\<lambda>now db. ok_or SamlIdentityMappingNotFound
       (find (\<lambda>r. link_key r = (tenant_id, provider_id, name_id)) (saml_identity_mappings db)))"

definition saml_links_ok :: "database \<Rightarrow> bool" where
  "saml_links_ok db \<longleftrightarrow> key_unique sy_id (saml_identity_mappings db) \<and> key_unique link_key (saml_identity_mappings db)
     \<and> key_unique sy_identity_public_id (saml_identity_mappings db)
     \<and> (\<forall>r \<in> set (saml_identity_mappings db). tenant_exists db (sy_tenant_id r) \<and> sy_provider_id r \<in> pv_id ` set (saml_providers db))"

lemma saml_link_insert_ok [stmt_rules]: "stmt_keeps saml_links_ok (saml_link_insert_stmt i t p n u g)"
  by (rule stmt_keepsI)
     (auto simp: saml_link_insert_stmt_def Let_def violates_def saml_links_ok_def key_unique_append tenant_exists_def)

section \<open>PgSamlNameIdMappingStore\<close>

text \<open>\<open>sha\<close> is SHA-256; the identifier column of the table is a value the server draws (\<^verbatim>\<open>gen_random_uuid()\<close>).\<close>

definition compute_pairwise_name_id :: "crypto \<Rightarrow> (string \<Rightarrow> string) \<Rightarrow> string \<Rightarrow> string \<Rightarrow> string \<Rightarrow> string" where
  "compute_pairwise_name_id c sha tenant_id sp_entity_id identity_id =
     c_b64url c (sha (tenant_id @ '':'' @ sp_entity_id @ '':'' @ identity_id))"

abbreviation nameid_key :: "saml_nameid_row \<Rightarrow> string \<times> string \<times> string" where
  "nameid_key r \<equiv> (sn_tenant_id r, sn_sp_entity_id r, sn_identity_id r)"

definition nameid_upsert_stmt :: "string \<Rightarrow> string \<Rightarrow> string \<Rightarrow> string \<Rightarrow> string \<Rightarrow> string stmt" where
  "nameid_upsert_stmt i tenant_id sp_entity_id identity_id name_id now db =
     (let row = \<lparr>sn_id = i, sn_tenant_id = tenant_id, sn_sp_entity_id = sp_entity_id, sn_identity_id = identity_id,
                 sn_name_id = name_id, sn_created_at = now, sn_updated_at = now\<rparr>
      in case find (\<lambda>r. nameid_key r = nameid_key row) (saml_nameid_mappings db) of
           Some old \<Rightarrow> (Inr (sn_name_id old), db\<lparr>saml_nameid_mappings :=
             map (\<lambda>r. if nameid_key r = nameid_key row then r\<lparr>sn_updated_at := now\<rparr> else r) (saml_nameid_mappings db)\<rparr>)
         | None \<Rightarrow>
             if i \<in> sn_id ` set (saml_nameid_mappings db) then violates ''saml_nameid_mappings_pkey'' db
             else if name_id \<in> sn_name_id ` set (saml_nameid_mappings db) then violates ''saml_nameid_mappings_name_id_key'' db
             else (Inr name_id, db\<lparr>saml_nameid_mappings := saml_nameid_mappings db @ [row]\<rparr>))"

definition nameid_get_or_create ::
  "crypto \<Rightarrow> (string \<Rightarrow> string) \<Rightarrow> string \<Rightarrow> string \<Rightarrow> string \<Rightarrow> ('z pg_scheme, db_error, string) io" where
  "nameid_get_or_create c sha tenant_id sp_entity_id identity_id =
     bindE ulid_new (\<lambda>i. pg_exec (nameid_upsert_stmt i tenant_id sp_entity_id identity_id
       (compute_pairwise_name_id c sha tenant_id sp_entity_id identity_id)))"

definition nameid_find :: "string \<Rightarrow> string \<Rightarrow> string \<Rightarrow> ('z pg_scheme, db_error, string) io" where
  "nameid_find tenant_id sp_entity_id name_id =
     pg_query (\<lambda>now db. ok_or SamlNameIdMappingNotFound (map_option sn_identity_id
       (find (\<lambda>r. sn_tenant_id r = tenant_id \<and> sn_sp_entity_id r = sp_entity_id \<and> sn_name_id r = name_id)
         (saml_nameid_mappings db))))"

definition nameids_ok :: "crypto \<Rightarrow> (string \<Rightarrow> string) \<Rightarrow> database \<Rightarrow> bool" where
  "nameids_ok c sha db \<longleftrightarrow> key_unique sn_id (saml_nameid_mappings db) \<and> key_unique nameid_key (saml_nameid_mappings db)
     \<and> key_unique sn_name_id (saml_nameid_mappings db)
     \<and> (\<forall>r \<in> set (saml_nameid_mappings db).
          sn_name_id r = compute_pairwise_name_id c sha (sn_tenant_id r) (sn_sp_entity_id r) (sn_identity_id r))"

lemma nameid_upsert_ok:
  "stmt_keeps (nameids_ok c sha) (nameid_upsert_stmt i t sp u (compute_pairwise_name_id c sha t sp u))"
proof (rule stmt_keepsI)
  fix now db
  assume ok: "nameids_ok c sha db"
  let ?f = "\<lambda>r. if nameid_key r = (t, sp, u) then r\<lparr>sn_updated_at := now\<rparr> else r"
  have "key_unique sn_id (map ?f (saml_nameid_mappings db))" "key_unique nameid_key (map ?f (saml_nameid_mappings db))"
    "key_unique sn_name_id (map ?f (saml_nameid_mappings db))"
    using ok by (auto simp: nameids_ok_def intro!: key_unique_map [THEN iffD2])
  then show "nameids_ok c sha (snd (nameid_upsert_stmt i t sp u (compute_pairwise_name_id c sha t sp u) now db))"
    using ok by (auto simp: nameid_upsert_stmt_def Let_def violates_def nameids_ok_def key_unique_append find_None_iff
        split: option.splits)
qed

lemma keeps_nameids [keeps_rules]:
  "keeps (\<lambda>w. nameids_ok c sha (pg_db w)) (nameid_get_or_create c sha t sp u)"
  "keeps (\<lambda>w. nameids_ok c sha (pg_db w)) (nameid_find t sp n)"
  unfolding nameid_get_or_create_def nameid_find_def
  by (intro keeps_bindE keeps_ulid_new keeps_pg_exec keeps_pg_query nameid_upsert_ok)+

text \<open>
  Colons separate the parts of the hashed text, and the entity id of a service provider, a URL,
  has colons of its own. The parts are still told apart, as tenant and identity ids have none.
\<close>

lemma pairwise_input_inj:
  assumes "t @ '':'' @ sp @ '':'' @ u = t' @ '':'' @ sp' @ '':'' @ u'"
    and "CHR '':'' \<notin> set t" and "CHR '':'' \<notin> set t'" and "CHR '':'' \<notin> set u" and "CHR '':'' \<notin> set u'"
  shows "t = t' \<and> sp = sp' \<and> u = u'"
proof -
  have "split_once (CHR '':'') (t @ CHR '':'' # sp @ CHR '':'' # u) = split_once (CHR '':'') (t' @ CHR '':'' # sp' @ CHR '':'' # u')"
    using assms(1) by simp
  then have front: "t = t'" "sp @ CHR '':'' # u = sp' @ CHR '':'' # u'" using assms(2,3) by simp_all
  then have "rev (sp @ CHR '':'' # u) = rev (sp' @ CHR '':'' # u')" by simp
  then have "rev u @ CHR '':'' # rev sp = rev u' @ CHR '':'' # rev sp'"
    by (simp only: rev_append rev.simps append_assoc append_Cons append_Nil)
  then have "split_once (CHR '':'') (rev u @ CHR '':'' # rev sp) = split_once (CHR '':'') (rev u' @ CHR '':'' # rev sp')"
    by simp
  then have "rev u = rev u' \<and> rev sp = rev sp'"
    using assms(4,5) by simp
  then show ?thesis using front by simp
qed

lemma pairwise_name_id_inj:
  assumes "crypto_ok c" and "inj sha"
    and "CHR '':'' \<notin> set t" and "CHR '':'' \<notin> set t'" and "CHR '':'' \<notin> set u" and "CHR '':'' \<notin> set u'"
    and "compute_pairwise_name_id c sha t sp u = compute_pairwise_name_id c sha t' sp' u'"
  shows "t = t' \<and> sp = sp' \<and> u = u'"
proof -
  have decode: "c_b64url_decode c (c_b64url c s) = Some s" for s using assms(1) by (simp add: crypto_ok_def)
  have "c_b64url_decode c (compute_pairwise_name_id c sha t sp u) = c_b64url_decode c (compute_pairwise_name_id c sha t' sp' u')"
    by (simp only: assms(7))
  then have "sha (t @ '':'' @ sp @ '':'' @ u) = sha (t' @ '':'' @ sp' @ '':'' @ u')"
    by (simp only: compute_pairwise_name_id_def decode option.inject)
  then have "t @ '':'' @ sp @ '':'' @ u = t' @ '':'' @ sp' @ '':'' @ u'" by (rule injD [OF assms(2)])
  then show ?thesis using assms(3-6) by (rule pairwise_input_inj)
qed

lemma nameid_get_or_create_Inr:
  assumes "nameid_get_or_create c sha t sp u w = (Inr n, v)" and "nameids_ok c sha (pg_db w)"
  shows "n = compute_pairwise_name_id c sha t sp u
    \<and> (\<exists>r \<in> set (saml_nameid_mappings (pg_db v)). nameid_key r = (t, sp, u) \<and> sn_name_id r = n) \<and> pg_fault v = pg_fault w"
proof -
  define i w' where "i = pg_ulid w (pg_ulids w)" and "w' = w\<lparr>pg_ulids := Suc (pg_ulids w)\<rparr>"
  let ?n = "compute_pairwise_name_id c sha t sp u"
  have run: "pg_exec (nameid_upsert_stmt i t sp u ?n) w' = (Inr n, v)"
    using assms(1) by (simp add: nameid_get_or_create_def ulid_new_def bindE_def i_def w'_def)
  let ?st = "nameid_upsert_stmt i t sp u ?n (pg_now w) (pg_db w)"
  have st: "fst ?st = Inr n" and v: "pg_db v = snd ?st" "pg_fault v = pg_fault w"
    using pg_exec_Inr [OF run] by (simp_all add: w'_def)
  show ?thesis
  proof (cases "find (\<lambda>r. nameid_key r = (t, sp, u)) (saml_nameid_mappings (pg_db w))")
    case None
    then show ?thesis using st v by (auto simp: nameid_upsert_stmt_def Let_def violates_def split: if_splits)
  next
    case (Some old)
    then have old: "old \<in> set (saml_nameid_mappings (pg_db w))" "nameid_key old = (t, sp, u)" by (auto dest: find_SomeD)
    let ?f = "\<lambda>r. if nameid_key r = (t, sp, u) then r\<lparr>sn_updated_at := pg_now w\<rparr> else r"
    have "?f old \<in> ?f ` set (saml_nameid_mappings (pg_db w))" using old(1) by (rule imageI)
    then have row: "?f old \<in> set (saml_nameid_mappings (pg_db v))" and n: "n = sn_name_id old"
      using Some st v by (simp_all add: nameid_upsert_stmt_def Let_def)
    have "sn_name_id old = ?n" using assms(2) old by (auto simp: nameids_ok_def)
    then show ?thesis using row n old(2) v(2) by (intro conjI bexI [OF _ row]) simp_all
  qed
qed

text \<open>A name identifier leads back to the identity it was issued for, at the same service provider.\<close>

lemma nameid_round_trip:
  assumes "nameids_ok c sha (pg_db w)" and "nameid_get_or_create c sha t sp u w = (Inr n, v)"
    and "nameid_find t sp n v = (x, v')"
  shows "x = Inr u \<or> (\<exists>m. x = Inl (Sqlx m))"
proof -
  have ok: "nameids_ok c sha (pg_db v)" using keepsD [OF keeps_nameids(1) assms(1,2)] .
  obtain r where r: "r \<in> set (saml_nameid_mappings (pg_db v))" "nameid_key r = (t, sp, u)" "sn_name_id r = n"
    using nameid_get_or_create_Inr [OF assms(2,1)] by blast
  have "find (\<lambda>r. sn_tenant_id r = t \<and> sn_sp_entity_id r = sp \<and> sn_name_id r = n) (saml_nameid_mappings (pg_db v)) = Some r"
    by (rule find_key_unique [where key = sn_name_id]) (use ok r in \<open>simp_all add: nameids_ok_def\<close>)
  then show ?thesis
    using pg_query_result [OF assms(3) [unfolded nameid_find_def]] r(2) by auto
qed

section \<open>PgSamlSpClientStore\<close>

definition sp_client_insert_stmt ::
  "string \<Rightarrow> string \<Rightarrow> string \<Rightarrow> string \<Rightarrow> string option \<Rightarrow> bool \<Rightarrow> string option \<Rightarrow> saml_sp_client_row stmt" where
  "sp_client_insert_stmt i tenant_id entity_id acs_url certificate_pem authn_requests_signed name_id_format now db =
     (let row = \<lparr>spc_id = i, spc_tenant_id = tenant_id, spc_entity_id = entity_id, spc_acs_url = acs_url,
                 spc_certificate_pem = certificate_pem, spc_authn_requests_signed = authn_requests_signed,
                 spc_name_id_format = name_id_format, spc_created_at = now, spc_updated_at = now\<rparr>
      in if \<not> tenant_exists db tenant_id then violates ''saml_sp_clients_tenant_id_fkey'' db
         else if i \<in> spc_id ` set (saml_sp_clients db) then violates ''saml_sp_clients_pkey'' db
         else if (tenant_id, entity_id) \<in> (\<lambda>r. (spc_tenant_id r, spc_entity_id r)) ` set (saml_sp_clients db)
           then violates ''saml_sp_clients_tenant_id_entity_id_key'' db
         else (Inr row, db\<lparr>saml_sp_clients := saml_sp_clients db @ [row]\<rparr>))"

definition sp_client_create ::
  "string \<Rightarrow> string \<Rightarrow> string \<Rightarrow> string option \<Rightarrow> bool \<Rightarrow> string option \<Rightarrow> ('z pg_scheme, db_error, saml_sp_client_row) io" where
  "sp_client_create tenant_id entity_id acs_url certificate_pem authn_requests_signed name_id_format =
     bindE ulid_new (\<lambda>i. pg_exec (sp_client_insert_stmt i tenant_id entity_id acs_url certificate_pem
       authn_requests_signed name_id_format))"

definition sp_client_get :: "string \<Rightarrow> string \<Rightarrow> ('z pg_scheme, db_error, saml_sp_client_row) io" where
  "sp_client_get tenant_id i =
     pg_query (\<lambda>now db. ok_or SamlSpClientNotFound
       (find (\<lambda>r. spc_tenant_id r = tenant_id \<and> spc_id r = i) (saml_sp_clients db)))"

definition sp_client_get_by_id :: "string \<Rightarrow> ('z pg_scheme, db_error, saml_sp_client_row) io" where
  "sp_client_get_by_id i =
     pg_query (\<lambda>now db. ok_or SamlSpClientNotFound (find (\<lambda>r. spc_id r = i) (saml_sp_clients db)))"

definition sp_client_get_by_entity_id :: "string \<Rightarrow> string \<Rightarrow> ('z pg_scheme, db_error, saml_sp_client_row) io" where
  "sp_client_get_by_entity_id tenant_id entity_id =
     pg_query (\<lambda>now db. ok_or SamlSpClientNotFound
       (find (\<lambda>r. spc_tenant_id r = tenant_id \<and> spc_entity_id r = entity_id) (saml_sp_clients db)))"

definition sp_clients_ok :: "database \<Rightarrow> bool" where
  "sp_clients_ok db \<longleftrightarrow> key_unique spc_id (saml_sp_clients db)
     \<and> key_unique (\<lambda>r. (spc_tenant_id r, spc_entity_id r)) (saml_sp_clients db)
     \<and> (\<forall>r \<in> set (saml_sp_clients db). tenant_exists db (spc_tenant_id r))"

lemma sp_client_insert_ok [stmt_rules]: "stmt_keeps sp_clients_ok (sp_client_insert_stmt i t e a c s f)"
  by (rule stmt_keepsI)
     (auto simp: sp_client_insert_stmt_def Let_def violates_def sp_clients_ok_def key_unique_append tenant_exists_def)

section \<open>PgSamlIdpKeyStore\<close>

text \<open>
  The struct of the store has no field for the encrypted column; \<open>key_view\<close> is a row without
  it. A failure to encrypt on \<^verbatim>\<open>create\<close> is dropped (\<^verbatim>\<open>.ok()\<close>), and the key is stored as it is.
\<close>

definition key_view :: "saml_idp_key_row \<Rightarrow> saml_idp_key_row" where
  "key_view r = r\<lparr>sk_encrypted_private_key := None\<rparr>"

definition idp_key_encrypt :: "aead \<Rightarrow> string option \<Rightarrow> string \<Rightarrow> string \<Rightarrow> db_error + string" where
  "idp_key_encrypt ax key nonce plaintext =
     (case key of None \<Rightarrow> Inl EncryptionKeyMissing | Some k \<Rightarrow> encrypt ax nonce plaintext k)"

definition idp_key_decrypt :: "aead \<Rightarrow> string option \<Rightarrow> string \<Rightarrow> db_error + string" where
  "idp_key_decrypt ax key ciphertext =
     (case key of None \<Rightarrow> Inl EncryptionKeyMissing | Some k \<Rightarrow> decrypt ax ciphertext k)"

definition idp_key_migrate_stmt :: "string \<Rightarrow> string \<Rightarrow> unit stmt" where
  "idp_key_migrate_stmt ciphertext i now db = (Inr (), db\<lparr>saml_idp_keys :=
     map (\<lambda>r. if sk_id r = i then r\<lparr>sk_encrypted_private_key := Some ciphertext, sk_private_key_pem := [],
                                  sk_updated_at := now\<rparr> else r) (saml_idp_keys db)\<rparr>)"

definition idp_key_decrypt_row ::
  "aead \<Rightarrow> string option \<Rightarrow> string \<Rightarrow> saml_idp_key_row \<Rightarrow> ('z pg_scheme, db_error, saml_idp_key_row) io" where
  "idp_key_decrypt_row ax key nonce row =
     bindE (pg_query (\<lambda>now db. ok_or (Sqlx ''no rows returned by a query that expected to return at least one row'')
              (map_option sk_encrypted_private_key (find (\<lambda>r. sk_id r = sk_id row) (saml_idp_keys db))))) (\<lambda>encrypted.
     case (case encrypted of Some ciphertext \<Rightarrow> if ciphertext \<noteq> [] then Some ciphertext else None | None \<Rightarrow> None) of
       Some ciphertext \<Rightarrow>
         bindE (lift_result (idp_key_decrypt ax key ciphertext)) (\<lambda>plain. ret (row\<lparr>sk_private_key_pem := plain\<rparr>))
     | None \<Rightarrow>
         if sk_private_key_pem row = [] then raise SamlIdpKeyNotFound
         else case key of
           None \<Rightarrow> raise EncryptionKeyMissing
         | Some k \<Rightarrow>
             bindE (lift_result (encrypt ax nonce (sk_private_key_pem row) k)) (\<lambda>ciphertext.
             bindE (pg_exec (idp_key_migrate_stmt ciphertext (sk_id row))) (\<lambda>_. ret row)))"

definition idp_key_insert_stmt ::
  "string \<Rightarrow> string \<Rightarrow> string \<Rightarrow> string \<Rightarrow> string option \<Rightarrow> string \<Rightarrow> bool \<Rightarrow> saml_idp_key_row stmt" where
  "idp_key_insert_stmt i tenant_id key_id private_key_pem encrypted certificate_pem is_active now db =
     (let row = \<lparr>sk_id = i, sk_tenant_id = tenant_id, sk_key_id = key_id, sk_private_key_pem = private_key_pem,
                 sk_encrypted_private_key = encrypted, sk_certificate_pem = certificate_pem, sk_is_active = is_active,
                 sk_created_at = now, sk_updated_at = now\<rparr>
      in if \<not> tenant_exists db tenant_id then violates ''saml_idp_keys_tenant_id_fkey'' db
         else if i \<in> sk_id ` set (saml_idp_keys db) then violates ''saml_idp_keys_pkey'' db
         else if (tenant_id, key_id) \<in> (\<lambda>r. (sk_tenant_id r, sk_key_id r)) ` set (saml_idp_keys db)
           then violates ''saml_idp_keys_tenant_id_key_id_key'' db
         else (Inr (key_view row), db\<lparr>saml_idp_keys := saml_idp_keys db @ [row]\<rparr>))"

definition idp_key_create ::
  "aead \<Rightarrow> string option \<Rightarrow> string \<Rightarrow> string \<Rightarrow> string \<Rightarrow> string \<Rightarrow> string \<Rightarrow> bool
    \<Rightarrow> ('z pg_scheme, db_error, saml_idp_key_row) io" where
  "idp_key_create ax key nonce tenant_id key_id private_key_pem certificate_pem is_active =
     bindE ulid_new (\<lambda>i.
     let encrypted = (case idp_key_encrypt ax key nonce private_key_pem of Inr c \<Rightarrow> Some c | Inl _ \<Rightarrow> None);
         stored = (if encrypted \<noteq> None then [] else private_key_pem)
     in bindE (pg_exec (idp_key_insert_stmt i tenant_id key_id stored encrypted certificate_pem is_active)) (\<lambda>row.
        ret (if encrypted \<noteq> None then row\<lparr>sk_private_key_pem := private_key_pem\<rparr> else row)))"

definition newest_first :: "saml_idp_key_row list \<Rightarrow> saml_idp_key_row list" where
  "newest_first rows = sort_key (\<lambda>r. - sk_created_at r) rows"

definition idp_key_get_active :: "aead \<Rightarrow> string option \<Rightarrow> string \<Rightarrow> string \<Rightarrow> ('z pg_scheme, db_error, saml_idp_key_row) io" where
  "idp_key_get_active ax key nonce tenant_id =
     bindE (pg_query (\<lambda>now db. Inr (map key_view (take 1 (newest_first
              (filter (\<lambda>r. sk_tenant_id r = tenant_id \<and> sk_is_active r) (saml_idp_keys db))))))) (\<lambda>rows.
     case rows of row # _ \<Rightarrow> idp_key_decrypt_row ax key nonce row | [] \<Rightarrow> raise SamlIdpKeyNotFound)"

fun decrypt_rows ::
  "aead \<Rightarrow> string option \<Rightarrow> (saml_idp_key_row \<Rightarrow> string) \<Rightarrow> saml_idp_key_row list \<Rightarrow> ('z pg_scheme, db_error, saml_idp_key_row list) io" where
  "decrypt_rows ax key nonces [] = ret []"
| "decrypt_rows ax key nonces (row # rows) =
     bindE (idp_key_decrypt_row ax key (nonces row) row) (\<lambda>r. bindE (decrypt_rows ax key nonces rows) (\<lambda>rs. ret (r # rs)))"

definition idp_key_list ::
  "aead \<Rightarrow> string option \<Rightarrow> (saml_idp_key_row \<Rightarrow> string) \<Rightarrow> string \<Rightarrow> ('z pg_scheme, db_error, saml_idp_key_row list) io" where
  "idp_key_list ax key nonces tenant_id =
     bindE (pg_query (\<lambda>now db. Inr (map key_view (newest_first (filter (\<lambda>r. sk_tenant_id r = tenant_id) (saml_idp_keys db))))))
       (decrypt_rows ax key nonces)"

section \<open>Keys at rest\<close>

definition idp_keys_ok :: "database \<Rightarrow> bool" where
  "idp_keys_ok db \<longleftrightarrow> key_unique sk_id (saml_idp_keys db) \<and> key_unique (\<lambda>r. (sk_tenant_id r, sk_key_id r)) (saml_idp_keys db)"

lemma idp_key_stmts_ok [stmt_rules]:
  "stmt_keeps idp_keys_ok (idp_key_insert_stmt i t k p e c a)" "stmt_keeps idp_keys_ok (idp_key_migrate_stmt c i)"
proof -
  show "stmt_keeps idp_keys_ok (idp_key_insert_stmt i t k p e c a)"
    by (rule stmt_keepsI) (auto simp: idp_key_insert_stmt_def Let_def violates_def idp_keys_ok_def key_unique_append)
  show "stmt_keeps idp_keys_ok (idp_key_migrate_stmt c i)"
    by (rule stmt_keepsI) (auto simp: idp_key_migrate_stmt_def idp_keys_ok_def intro!: key_unique_map [THEN iffD2])
qed

lemma keeps_idp_keys:
  "keeps (\<lambda>w. idp_keys_ok (pg_db w)) (idp_key_create ax key n t k p c a)"
  "keeps (\<lambda>w. idp_keys_ok (pg_db w)) (idp_key_decrypt_row ax key n row)"
  "keeps (\<lambda>w. idp_keys_ok (pg_db w)) (idp_key_get_active ax key n t)"
  "keeps (\<lambda>w. idp_keys_ok (pg_db w)) (idp_key_list ax key ns t)"
proof -
  show "keeps (\<lambda>w. idp_keys_ok (pg_db w)) (idp_key_create ax key n t k p c a)"
    unfolding idp_key_create_def Let_def by (intro keeps_rules stmt_rules)
  show row: "keeps (\<lambda>w. idp_keys_ok (pg_db w)) (idp_key_decrypt_row ax key n row)" for n row
    unfolding idp_key_decrypt_row_def by (auto intro!: keeps_rules stmt_rules split: option.splits)
  show "keeps (\<lambda>w. idp_keys_ok (pg_db w)) (idp_key_get_active ax key n t)"
    unfolding idp_key_get_active_def by (auto intro!: keeps_rules row split: list.splits)
  have "keeps (\<lambda>w. idp_keys_ok (pg_db w)) (decrypt_rows ax key ns rows)" for rows
    by (induction rows) (simp_all, (intro keeps_rules row)+)
  then show "keeps (\<lambda>w. idp_keys_ok (pg_db w)) (idp_key_list ax key ns t)"
    unfolding idp_key_list_def by (intro keeps_rules)
qed

text \<open>
  A key stored under a key of 32 bytes is not in the table in the clear; without such a key it
  is, and no read gives it back.
\<close>

lemma idp_key_create_Inr:
  assumes "idp_key_create ax key nonce t k pem cert act w = (Inr row, v)"
  shows "\<exists>r. saml_idp_keys (pg_db v) = saml_idp_keys (pg_db w) @ [r] \<and> sk_tenant_id r = t \<and> sk_key_id r = k
    \<and> sk_is_active r = act \<and> sk_created_at r = pg_now w \<and> row = (key_view r)\<lparr>sk_private_key_pem := pem\<rparr>
    \<and> (case idp_key_encrypt ax key nonce pem of
         Inr c \<Rightarrow> sk_private_key_pem r = [] \<and> sk_encrypted_private_key r = Some c
       | Inl _ \<Rightarrow> sk_private_key_pem r = pem \<and> sk_encrypted_private_key r = None)"
proof -
  define enc where "enc = (case idp_key_encrypt ax key nonce pem of Inr c \<Rightarrow> Some c | Inl _ \<Rightarrow> None)"
  define stored where "stored = (if enc \<noteq> None then [] else pem)"
  define i w' where "i = pg_ulid w (pg_ulids w)" and "w' = w\<lparr>pg_ulids := Suc (pg_ulids w)\<rparr>"
  obtain r where run: "pg_exec (idp_key_insert_stmt i t k stored enc cert act) w' = (Inr r, v)"
    and row: "row = (if enc \<noteq> None then r\<lparr>sk_private_key_pem := pem\<rparr> else r)"
    using assms by (auto simp: idp_key_create_def ulid_new_def bindE_def i_def w'_def enc_def [symmetric] stored_def
        ret_def Let_def split: prod.splits sum.splits)
  define full where "full = \<lparr>sk_id = i, sk_tenant_id = t, sk_key_id = k, sk_private_key_pem = stored,
    sk_encrypted_private_key = enc, sk_certificate_pem = cert, sk_is_active = act, sk_created_at = pg_now w, sk_updated_at = pg_now w\<rparr>"
  have "r = key_view full \<and> saml_idp_keys (pg_db v) = saml_idp_keys (pg_db w) @ [full]"
    using pg_exec_Inr [OF run]
    by (auto simp: idp_key_insert_stmt_def violates_def Let_def full_def w'_def split: if_splits)
  with row show ?thesis
    by (intro exI [of _ full]) (auto simp: full_def key_view_def stored_def enc_def split: sum.splits)
qed

lemma newest_is_last:
  assumes "\<And>r. r \<in> set rows \<Longrightarrow> sk_created_at r < sk_created_at k"
  shows "take 1 (newest_first (rows @ [k])) = [k]"
proof -
  obtain h t where ht: "newest_first (rows @ [k]) = h # t"
    by (cases "newest_first (rows @ [k])") (auto simp: newest_first_def dest: arg_cong [where f = set])
  have set: "set (h # t) = insert k (set rows)" using arg_cong [OF ht, of set] by (simp add: newest_first_def)
  have "sorted (map (\<lambda>r. - sk_created_at r) (h # t))"
    by (simp only: ht [symmetric] newest_first_def sorted_sort_key)
  then have "sk_created_at x \<le> sk_created_at h" if "x \<in> set (h # t)" for x using that by auto
  then have "sk_created_at k \<le> sk_created_at h" using set by blast
  moreover have "h = k \<or> h \<in> set rows" using set by auto
  ultimately have "h = k" using assms [of h] by auto
  then show ?thesis using ht by simp
qed

lemma idp_key_read_newest:
  assumes rows: "saml_idp_keys (pg_db w) = old @ [k]" and ok: "idp_keys_ok (pg_db w)"
    and newest: "\<And>r. r \<in> set old \<Longrightarrow> sk_created_at r < sk_created_at k"
    and k: "sk_tenant_id k = t" "sk_is_active k" and quiet: "\<And>q. pg_fault w q = None"
  shows "fst (idp_key_get_active ax key nonce t w) =
    (case sk_encrypted_private_key k of
       Some c \<Rightarrow> if c \<noteq> [] then (case idp_key_decrypt ax key c of Inl e \<Rightarrow> Inl e
                                     | Inr plain \<Rightarrow> Inr ((key_view k)\<lparr>sk_private_key_pem := plain\<rparr>))
                 else if sk_private_key_pem k = [] then Inl SamlIdpKeyNotFound
                 else (case key of None \<Rightarrow> Inl EncryptionKeyMissing | Some kk \<Rightarrow>
                    map_sum id (\<lambda>_. key_view k) (encrypt ax nonce (sk_private_key_pem k) kk))
     | None \<Rightarrow> if sk_private_key_pem k = [] then Inl SamlIdpKeyNotFound
                 else (case key of None \<Rightarrow> Inl EncryptionKeyMissing | Some kk \<Rightarrow>
                    map_sum id (\<lambda>_. key_view k) (encrypt ax nonce (sk_private_key_pem k) kk)))"
proof -
  have "take 1 (newest_first (filter (\<lambda>r. sk_tenant_id r = t \<and> sk_is_active r) (saml_idp_keys (pg_db w)))) = [k]"
    using newest_is_last [of "filter (\<lambda>r. sk_tenant_id r = t \<and> sk_is_active r) old" k] newest k by (simp add: rows)
  moreover have "find (\<lambda>r. sk_id r = sk_id k) (old @ [k]) = Some k"
    by (rule find_key_unique [where key = sk_id]) (use ok in \<open>auto simp: idp_keys_ok_def rows\<close>)
  ultimately show ?thesis
    by (auto simp: idp_key_get_active_def idp_key_decrypt_row_def bindE_def pg_query_no_fault pg_exec_no_fault quiet key_view_def
        lift_result_def ret_def raise_def rows idp_key_migrate_stmt_def split: option.splits sum.splits)
qed

text \<open>
  The private key of the identity provider survives the trip through the store under a
  key of 32 bytes, and its column for plain text stays empty. Every other setting (no key, or a
  key of more than 32 bytes, which \<^verbatim>\<open>encryption_key_from_env\<close> accepts) writes the key in the clear.
\<close>

theorem saml_signing_key_at_rest:
  assumes "aead_ok ax" and "length nonce = NONCE_LEN" and "valid_utf8 pem" and "pem \<noteq> []" and "\<And>s. s \<noteq> [] \<Longrightarrow> ax_b64 ax s \<noteq> []"
    and "idp_keys_ok (pg_db w)" and "\<And>q. pg_fault w q = None" and "\<And>r. r \<in> set (saml_idp_keys (pg_db w)) \<Longrightarrow> sk_created_at r < pg_now w"
    and "idp_key_create ax key nonce t kid pem cert True w = (Inr row, v)"
  shows "(case key of
      Some k \<Rightarrow>
        if length k = 32
        then sk_private_key_pem (last (saml_idp_keys (pg_db v))) = []
          \<and> (\<exists>r. fst (idp_key_get_active ax key n t v) = Inr r \<and> sk_private_key_pem r = pem)
        else sk_private_key_pem (last (saml_idp_keys (pg_db v))) = pem
          \<and> fst (idp_key_get_active ax key n t v) = Inl (Sqlx ''encryption key must be 32 bytes'')
    | None \<Rightarrow> sk_private_key_pem (last (saml_idp_keys (pg_db v))) = pem
          \<and> fst (idp_key_get_active ax key n t v) = Inl EncryptionKeyMissing)"
proof -
  obtain r where r: "saml_idp_keys (pg_db v) = saml_idp_keys (pg_db w) @ [r]" "sk_tenant_id r = t" "sk_is_active r"
      "sk_created_at r = pg_now w"
    and enc: "case idp_key_encrypt ax key nonce pem of
         Inr c \<Rightarrow> sk_private_key_pem r = [] \<and> sk_encrypted_private_key r = Some c
       | Inl _ \<Rightarrow> sk_private_key_pem r = pem \<and> sk_encrypted_private_key r = None"
    using idp_key_create_Inr [OF assms(9)] by auto
  have ok: "idp_keys_ok (pg_db v)" using keepsD [OF keeps_idp_keys(1) assms(6,9)] .
  have still: "keeps (\<lambda>u. pg_fault u = pg_fault w) (idp_key_create ax key nonce t kid pem cert True)"
    unfolding idp_key_create_def Let_def
    by (intro keeps_rules) (auto simp: keeps_def ulid_new_def pg_exec_def Let_def split: prod.splits option.splits fault.splits)
  have quiet: "pg_fault v q = None" for q using keepsD_snd [OF still, of w] assms(7,9) by simp
  have newest: "x \<in> set (saml_idp_keys (pg_db w)) \<Longrightarrow> sk_created_at x < sk_created_at r" for x using assms(8) r(4) by simp
  note read = idp_key_read_newest [OF r(1) ok newest r(2,3) quiet, of ax key n]
  show ?thesis
  proof (cases key)
    case None
    then show ?thesis using read r(1) assms(4) enc by (simp add: idp_key_encrypt_def)
  next
    case (Some k)
    show ?thesis
    proof (cases "length k = 32")
      case True
      obtain c where c: "encrypt ax nonce pem k = Inr c" "decrypt ax c k = Inr pem"
        using decrypt_encrypt [OF assms(1) True assms(2,3)] by blast
      obtain ct where "c = ax_b64 ax (nonce @ ct)"
        using c(1) True by (auto simp: encrypt_def cipher_def split: option.splits)
      then have "c \<noteq> []" using assms(2,5) by (cases nonce) (simp_all add: NONCE_LEN_def)
      then show ?thesis using read r(1) enc c Some True by (simp add: idp_key_encrypt_def idp_key_decrypt_def)
    next
      case False
      then have "encrypt ax m p k = Inl (Sqlx ''encryption key must be 32 bytes'')" for m p
        by (simp add: encrypt_def cipher_def)
      then show ?thesis using read r(1) assms(4) enc Some False by (simp add: idp_key_encrypt_def)
    qed
  qed
qed

theorem saml_signing_key_at_rest_witness:
  "\<exists>row v. idp_key_create sample_aead (Some (replicate 33 (CHR ''k''))) sample_nonce ''T'' ''k1'' ''pem'' ''cert'' True realm_start = (Inr row, v)
     \<and> sk_private_key_pem (last (saml_idp_keys (pg_db v))) = ''pem''
     \<and> fst (idp_key_get_active sample_aead (Some (replicate 33 (CHR ''k''))) sample_nonce ''T'' v)
         = Inl (Sqlx ''encryption key must be 32 bytes'')"
proof -
  let ?key = "Some (replicate 33 (CHR ''k''))"
  obtain row v where run: "idp_key_create sample_aead ?key sample_nonce ''T'' ''k1'' ''pem'' ''cert'' True realm_start = (Inr row, v)"
    by (simp add: idp_key_create_def ulid_new_def bindE_def Let_def pg_exec_def realm_start_def quiet_pg_def empty_db_def
        idp_key_insert_stmt_def tenant_exists_def idp_key_encrypt_def encrypt_def cipher_def ret_def)
  have "\<And>q. pg_fault realm_start q = None" "idp_keys_ok (pg_db realm_start)" "saml_idp_keys (pg_db realm_start) = []"
    by (simp_all add: realm_start_def quiet_pg_def empty_db_def idp_keys_ok_def key_unique_def)
  moreover have "valid_utf8 ''pem''" by code_simp
  ultimately show ?thesis
    using saml_signing_key_at_rest [of sample_aead sample_nonce "''pem''" realm_start ?key "''T''" "''k1''" "''cert''" row v sample_nonce]
      run sample_aead_ok by (simp add: sample_nonce_def NONCE_LEN_def sample_aead_def)
qed

end
