(* ===== verification/Provisioning.thy ===== *)
theory Provisioning
  imports IdentityService SamlIdpStores
begin

text \<open>
  \<^verbatim>\<open>identity_provisioner.rs\<close>: the claims of an upstream login become an identity of the tenant. An
  identity is looked up in Kratos by its email, created when there is none, mapped to a public id
  and made a member of the tenant. For SAML the links from name identifiers come first.
\<close>

datatype provision_error =
    PE_MissingEmail
  | PE_EmailNotVerified
  | PE_MissingSchema
  | PE_Kratos ory_error
  | PE_Database db_error
  | PE_InvalidResponse string

fun service_error_of_provision :: "provision_error \<Rightarrow> service_error" where
  "service_error_of_provision PE_MissingEmail = SE_InvalidArgument ''missing email claim''"
| "service_error_of_provision PE_EmailNotVerified = SE_InvalidArgument ''email is not verified''"
| "service_error_of_provision PE_MissingSchema = SE_Configuration ''missing identity schema''"
| "service_error_of_provision (PE_Kratos e) = map_ory_error e"
| "service_error_of_provision (PE_Database e) = service_error_of_db e"
| "service_error_of_provision (PE_InvalidResponse msg) = SE_Internal msg"

record provisioned_identity =
  pi_tenant_id :: string
  pi_public_id :: string
  pi_ory_id :: string
  pi_email :: string

record 'k provisioner_kratos =
  pk_list_identities_by_identifier :: "string \<Rightarrow> string \<Rightarrow> ('k, ory_error, json) io"
  pk_create_identity :: "json \<Rightarrow> ('k, ory_error, json) io"

text \<open>\<open>pr_saml_mappings\<close>: is the store of name identifiers attached? \<open>pr_show_error\<close> is \<^verbatim>\<open>ServiceError::to_string\<close>.\<close>

record 'k provisioner =
  pr_kratos :: "'k provisioner_kratos"
  pr_saml_mappings :: bool
  pr_kratos_default_schema_id :: string
  pr_schema_lib :: schema_lib
  pr_show_error :: "service_error \<Rightarrow> string"

abbreviation pdb :: "('s, db_error, 'a) io \<Rightarrow> ('s, provision_error, 'a) io" where
  "pdb m \<equiv> map_err PE_Database m"

abbreviation pkr :: "('k, ory_error, 'a) io \<Rightarrow> (('f, 'h, 'k, 'z) ory_world_scheme, provision_error, 'a) io" where
  "pkr m \<equiv> map_err PE_Kratos (kratos_op m)"

definition normalize_name_claim :: "json option \<Rightarrow> json" where
  "normalize_name_claim name =
     (case name of
        Some (JObj fs) \<Rightarrow> JObj fs
      | Some (JStr s) \<Rightarrow>
          let trimmed = trim_text s
          in (case split_once (CHR '' '') trimmed of
                Some (first, rest) \<Rightarrow> JObj [(''first'', JStr (trim_text first)), (''last'', JStr (trim_text rest))]
              | None \<Rightarrow> JObj [(''first'', JStr trimmed)])
      | _ \<Rightarrow> JObj [])"

definition claim_true :: "json \<Rightarrow> string \<Rightarrow> bool" where
  "claim_true claims k \<longleftrightarrow> Option.bind (json_get claims k) as_bool = Some True"

definition require_email_verified :: "json \<Rightarrow> provision_error + unit" where
  "require_email_verified claims =
     (if \<not> claim_true claims ''email_verified'' \<and> \<not> claim_true claims ''trusted_provider'' then Inl PE_EmailNotVerified else Inr ())"

section \<open>Lookup and creation\<close>

definition ensure_membership :: "string \<Rightarrow> string \<Rightarrow> identity_schema_row \<Rightarrow> json \<Rightarrow> ('z pg_scheme, provision_error, unit) io" where
  "ensure_membership tenant_id public_id schema traits =
     attempt (membership_get tenant_id public_id) (\<lambda>r. case r of
         Inr _ \<Rightarrow> ret ()
       | Inl err \<Rightarrow>
           if err = MembershipNotFound
           then bindE (pdb (membership_upsert tenant_id public_id (ish_schema_id schema) (ish_version schema) traits)) (\<lambda>_. ret ())
           else raise (PE_Database err))"

definition public_id_of_existing :: "string \<Rightarrow> string \<Rightarrow> ('z pg_scheme, provision_error, string) io" where
  "public_id_of_existing tenant_id ory_id =
     attempt (get_public_id tenant_id ''kratos'' ory_id) (\<lambda>r. case r of
         Inr i \<Rightarrow> ret i
       | Inl err \<Rightarrow>
           if err = MappingNotFound
           then bindE ulid_new (\<lambda>public_id. bindE (pdb (id_mapping_create tenant_id ''kratos'' public_id ory_id)) (\<lambda>_. ret public_id))
           else raise (PE_Database err))"

definition create_by_email :: "'k provisioner \<Rightarrow> string \<Rightarrow> string
    \<Rightarrow> (('f, 'h, 'k, 'z) ory_world_scheme, provision_error, string \<times> string) io" where
  "create_by_email p tenant_id email =
     bindE (pkr (pk_create_identity (pr_kratos p)
              (JObj [(''schema_id'', JStr (pr_kratos_default_schema_id p)), (''traits'', JObj [(''email'', JStr email)])]))) (\<lambda>created.
     bindE (lift_result (ok_or (PE_InvalidResponse ''created identity missing id'') (as_str (json_index created ''id'')))) (\<lambda>ory_id.
     bindE ulid_new (\<lambda>new_public_id.
     bindE (pdb (id_mapping_create tenant_id ''kratos'' new_public_id ory_id)) (\<lambda>mapping.
     ret (ory_id, im_public_id mapping)))))"

definition find_or_create_by_email :: "'k provisioner \<Rightarrow> string \<Rightarrow> identity_schema_row \<Rightarrow> json
    \<Rightarrow> (('f, 'h, 'k, 'z) ory_world_scheme, provision_error, provisioned_identity) io" where
  "find_or_create_by_email p tenant_id schema traits =
     bindE (lift_result (case extract_email traits of Inr e \<Rightarrow> Inr e | Inl e \<Rightarrow> Inl (PE_InvalidResponse (pr_show_error p e)))) (\<lambda>email.
     bindE (pkr (pk_list_identities_by_identifier (pr_kratos p) tenant_id (tenant_id @ '':'' @ email))) (\<lambda>existing.
     bindE (case as_array existing of
              Some (identity # _) \<Rightarrow>
                bindE (lift_result (ok_or (PE_InvalidResponse ''identity missing id'') (as_str (json_index identity ''id'')))) (\<lambda>ory_id.
                bindE (public_id_of_existing tenant_id ory_id) (\<lambda>public_id. ret (ory_id, public_id)))
            | _ \<Rightarrow> create_by_email p tenant_id email) (\<lambda>(ory_id, public_id).
     bindE (ensure_membership tenant_id public_id schema traits) (\<lambda>_.
     ret \<lparr>pi_tenant_id = tenant_id, pi_public_id = public_id, pi_ory_id = ory_id, pi_email = email\<rparr>))))"

section \<open>Provisioning\<close>

definition valid_traits :: "'k provisioner \<Rightarrow> identity_schema_row \<Rightarrow> json \<Rightarrow> provision_error + unit" where
  "valid_traits p schema traits =
     (case validate_traits (pr_schema_lib p) (ish_schema_json schema) traits of
        Inr _ \<Rightarrow> Inr ()
      | Inl e \<Rightarrow> Inl (PE_InvalidResponse (pr_show_error p e)))"

definition provision :: "'k provisioner \<Rightarrow> string \<Rightarrow> string \<Rightarrow> json
    \<Rightarrow> (('f, 'h, 'k, 'z) ory_world_scheme, provision_error, provisioned_identity) io" where
  "provision p tenant_id schema_id claims =
     bindE (lift_result (ok_or PE_MissingEmail (as_str (json_index claims ''email'')))) (\<lambda>email.
     bindE (map_err (\<lambda>_. PE_MissingSchema) (schema_get tenant_id schema_id)) (\<lambda>schema.
     bindE (lift_result (require_email_verified claims)) (\<lambda>_.
     let traits = normalize_traits (JObj [(''email'', JStr email), (''name'', normalize_name_claim (json_get claims ''name''))]) in
     bindE (lift_result (valid_traits p schema traits)) (\<lambda>_.
     find_or_create_by_email p tenant_id schema traits))))"

text \<open>A failure of the database when the link is recorded is taken for a race and dropped.\<close>

definition provision_saml :: "'k provisioner \<Rightarrow> string \<Rightarrow> string \<Rightarrow> string \<Rightarrow> string \<Rightarrow> string \<Rightarrow> bool \<Rightarrow> bool
    \<Rightarrow> (('f, 'h, 'k, 'z) ory_world_scheme, provision_error, provisioned_identity) io" where
  "provision_saml p tenant_id provider_id schema_id name_id email email_verified trusted_provider =
     bindE (map_err (\<lambda>_. PE_MissingSchema) (schema_get tenant_id schema_id)) (\<lambda>schema.
     bindE (if pr_saml_mappings p
            then attempt (saml_link_get tenant_id provider_id name_id) (\<lambda>r. case r of
                   Inr link \<Rightarrow> ret (Some link)
                 | Inl err \<Rightarrow> if err = SamlIdentityMappingNotFound then ret None else raise (PE_Database err))
            else ret None) (\<lambda>link.
     case link of
       Some l \<Rightarrow> ret \<lparr>pi_tenant_id = tenant_id, pi_public_id = sy_identity_public_id l, pi_ory_id = sy_ory_global_id l, pi_email = email\<rparr>
     | None \<Rightarrow>
         bindE (guard_err (\<not> email_verified \<and> \<not> trusted_provider) PE_EmailNotVerified) (\<lambda>_.
         let traits = normalize_traits (JObj [(''email'', JStr email), (''name'', normalize_name_claim (Some (JStr name_id)))]) in
         bindE (lift_result (valid_traits p schema traits)) (\<lambda>_.
         bindE (find_or_create_by_email p tenant_id schema traits) (\<lambda>identity.
         if pr_saml_mappings p
         then attempt (saml_link_create tenant_id provider_id name_id (pi_public_id identity) (pi_ory_id identity)) (\<lambda>r. case r of
                Inr _ \<Rightarrow> ret identity
              | Inl (Sqlx _) \<Rightarrow> ret identity
              | Inl err \<Rightarrow> raise (PE_Database err))
         else ret identity)))))"

section \<open>What a provisioned identity is\<close>

lemma public_id_of_existing_Inr:
  assumes "public_id_of_existing t g w = (Inr i, v)"
  shows "\<exists>r \<in> set (id_mappings (pg_db v)). at_key t ''kratos'' i r \<and> im_ory_global_id r = g"
proof -
  obtain x u where get: "get_public_id t ''kratos'' g w = (x, u)" by fastforce
  show ?thesis
  proof (cases x)
    case (Inr j)
    then have "i = j" and "v = u" using assms get by (simp_all add: public_id_of_existing_def attempt_def ret_def)
    with pg_query_Inr [OF get [unfolded Inr get_public_id_def]] show ?thesis by (auto simp: at_key_def dest!: find_SomeD)
  next
    case (Inl e)
    then obtain u' row where "id_mapping_create t ''kratos'' i g u' = (Inr row, v)"
      using assms get by (auto simp: public_id_of_existing_def attempt_def run_simps split: if_splits)
    from id_mapping_create_Inr [OF this] show ?thesis by auto
  qed
qed

lemma create_by_email_Inr:
  assumes "create_by_email p t email w = (Inr (g, i), v)"
  shows "\<exists>r \<in> set (id_mappings (pg_db v)). at_key t ''kratos'' i r \<and> im_ory_global_id r = g"
proof -
  obtain n u row where mk: "id_mapping_create t ''kratos'' n g u = (Inr row, v)" and i: "i = im_public_id row"
    using assms by (auto simp: create_by_email_def run_simps)
  show ?thesis using id_mapping_create_Inr [OF mk] i by (auto simp: at_key_def)
qed

lemma ensure_membership_Inr:
  assumes "ensure_membership t i schema traits w = (Inr x, v)"
  shows "member_of (pg_db v) t i \<noteq> None \<and> id_mappings (pg_db v) = id_mappings (pg_db w)"
proof -
  obtain y u where mg: "membership_get t i w = (y, u)" by fastforce
  show ?thesis
  proof (rule membership_get_cases [OF mg])
    fix m assume "y = Inl (Sqlx m)"
    then show ?thesis using assms mg by (simp add: ensure_membership_def attempt_def raise_def)
  next
    assume y: "y = Inl MembershipNotFound" and u: "pg_db u = pg_db w"
    then obtain m where "membership_upsert t i (ish_schema_id schema) (ish_version schema) traits u = (Inr m, v)"
      using assms mg by (auto simp: ensure_membership_def attempt_def run_simps)
    from upsert_Inr [OF this] show ?thesis using u by simp
  next
    fix m assume "y = Inr m" "member_of (pg_db w) t i = Some m" "pg_db u = pg_db w"
    then show ?thesis using assms mg by (auto simp: ensure_membership_def attempt_def ret_def)
  qed
qed

lemma find_or_create_Inr:
  assumes "find_or_create_by_email p t schema traits w = (Inr x, v)"
  shows "pi_tenant_id x = t \<and> (\<exists>r \<in> set (id_mappings (pg_db v)). at_key t ''kratos'' (pi_public_id x) r \<and> im_ory_global_id r = pi_ory_id x)
    \<and> member_of (pg_db v) t (pi_public_id x) \<noteq> None \<and> extract_email traits = Inr (pi_email x)"
proof -
  obtain email ex u g i u1 u2 k where e: "extract_email traits = Inr email"
    and pick: "(case as_array ex of
              Some (identity # _) \<Rightarrow>
                bindE (lift_result (ok_or (PE_InvalidResponse ''identity missing id'') (as_str (json_index identity ''id'')))) (\<lambda>ory_id.
                bindE (public_id_of_existing t ory_id) (\<lambda>public_id. ret (ory_id, public_id)))
            | _ \<Rightarrow> create_by_email p t email) u = (Inr (g, i), u1)"
    and mem: "ensure_membership t i schema traits u1 = (Inr k, u2)" and v: "v = u2"
    and x: "x = \<lparr>pi_tenant_id = t, pi_public_id = i, pi_ory_id = g, pi_email = email\<rparr>"
    using assms unfolding find_or_create_by_email_def
    by (elim bindE_InrE) (auto simp: run_simps split: sum.splits prod.splits elim!: bindE_InrE)
  have "\<exists>r \<in> set (id_mappings (pg_db u1)). at_key t ''kratos'' i r \<and> im_ory_global_id r = g"
    using pick create_by_email_Inr [of p t email u g i u1] public_id_of_existing_Inr [of t g u i u1]
    by (auto simp: run_simps split: option.splits list.splits)
  then show ?thesis using ensure_membership_Inr [OF mem] e x v by simp
qed

lemma provision_Inr:
  assumes "provision p t sid claims w = (Inr x, v)"
  shows "(claim_true claims ''email_verified'' \<or> claim_true claims ''trusted_provider'')
    \<and> (\<exists>e. as_str (json_index claims ''email'') = Some e \<and> pi_email x = to_ascii_lowercase (trim_text e)) \<and> pi_tenant_id x = t
    \<and> (\<exists>r \<in> set (id_mappings (pg_db v)). at_key t ''kratos'' (pi_public_id x) r \<and> im_ory_global_id r = pi_ory_id x)
    \<and> member_of (pg_db v) t (pi_public_id x) \<noteq> None
    \<and> (\<exists>schema \<in> set (identity_schemas (pg_db w)). ish_tenant_id schema = t \<and> ish_schema_id schema = sid)"
proof -
  obtain e schema w1 where e: "as_str (json_index claims ''email'') = Some e" and sch: "schema_get t sid w = (Inr schema, w1)"
    and ok: "require_email_verified claims = Inr ()"
    and run: "find_or_create_by_email p t schema (normalize_traits (JObj [(''email'', JStr e), (''name'', normalize_name_claim (json_get claims ''name''))])) w1
      = (Inr x, v)"
    using assms by (auto simp: provision_def run_simps Let_def)
  let ?tr = "JObj [(''email'', JStr e), (''name'', normalize_name_claim (json_get claims ''name''))]"
  have "Option.bind (json_get (normalize_traits ?tr) ''email'') as_str = Some (to_ascii_lowercase (trim_text e))"
    by (rule normalize_traits_email) simp
  then have "pi_email x = to_ascii_lowercase (trim_text e)"
    using find_or_create_Inr [OF run] by (auto simp: extract_email_def split: if_splits)
  moreover have "claim_true claims ''email_verified'' \<or> claim_true claims ''trusted_provider''"
    using ok by (auto simp: require_email_verified_def split: if_splits)
  ultimately show ?thesis using find_or_create_Inr [OF run] e schema_get_Inr [OF sch] by blast
qed

text \<open>
  A login provisions only a verified email or a provider that calls itself trusted; the
  identity is then mapped in the tenant, a member of it, and has the email of the claims.
\<close>

theorem provision_sound:
  assumes "provision p t sid claims w = (Inr x, v)"
  shows "(claim_true claims ''email_verified'' \<or> claim_true claims ''trusted_provider'')
    \<and> (\<exists>e. as_str (json_index claims ''email'') = Some e \<and> pi_email x = to_ascii_lowercase (trim_text e)) \<and> pi_tenant_id x = t
    \<and> (\<exists>r \<in> set (id_mappings (pg_db v)). at_key t ''kratos'' (pi_public_id x) r \<and> im_ory_global_id r = pi_ory_id x)
    \<and> member_of (pg_db v) t (pi_public_id x) \<noteq> None
    \<and> (\<exists>schema \<in> set (identity_schemas (pg_db w)). ish_tenant_id schema = t \<and> ish_schema_id schema = sid)"
  by (rule provision_Inr [OF assms])

section \<open>What provisioning keeps\<close>

lemma kratos_op_db: "keeps (\<lambda>w. J (pg_db w)) (kratos_op m)"
  by (simp add: keeps_def kratos_op_def split: prod.splits)

text \<open>A predicate of the database survives provisioning when the statements of it keep it.\<close>

lemma keeps_find_or_create:
  assumes "\<And>n i g. stmt_keeps J (id_mapping_insert_stmt n t ''kratos'' i g)" and "\<And>i sid ver tr. stmt_keeps J (membership_upsert_stmt t i sid ver tr)"
  shows "keeps (\<lambda>w. J (pg_db w)) (find_or_create_by_email p t schema traits)"
proof -
  have mk: "keeps (\<lambda>w. J (pg_db w)) (id_mapping_create t ''kratos'' i g)" for i g
    unfolding id_mapping_create_def by (intro keeps_rules keeps_pg_exec [where J = J] keeps_ulid_new [where J = J] assms(1))
  have "keeps (\<lambda>w. J (pg_db w)) (ensure_membership t i schema traits)" for i
    unfolding ensure_membership_def membership_get_def membership_upsert_def
    by (intro keeps_rules keeps_pg_exec [where J = J] keeps_pg_query [where J = J] assms(2))
  moreover have "keeps (\<lambda>w. J (pg_db w)) (public_id_of_existing t g)" for g
    unfolding public_id_of_existing_def get_public_id_def
    by (intro keeps_rules keeps_pg_query [where J = J] keeps_ulid_new [where J = J] mk)
  moreover have "keeps (\<lambda>w. J (pg_db w)) (create_by_email p t e)" for e
    unfolding create_by_email_def by (intro keeps_rules kratos_op_db keeps_ulid_new [where J = J] mk)
  ultimately show ?thesis unfolding find_or_create_by_email_def
    by (auto intro!: keeps_rules kratos_op_db split: option.splits list.splits)
qed

lemma keeps_provision:
  assumes "\<And>n i g. stmt_keeps J (id_mapping_insert_stmt n t ''kratos'' i g)" and "\<And>i sid ver tr. stmt_keeps J (membership_upsert_stmt t i sid ver tr)"
  shows "keeps (\<lambda>w. J (pg_db w)) (provision p t sid claims)"
  unfolding provision_def schema_get_def Let_def
  by (intro keeps_rules keeps_pg_query [where J = J] keeps_find_or_create assms)

lemma keeps_saml_link_create:
  assumes "\<And>i. stmt_keeps J (saml_link_insert_stmt i t pid nid pub g)"
  shows "keeps (\<lambda>w. J (pg_db w)) (saml_link_create t pid nid pub g)"
  unfolding saml_link_create_def by (intro keeps_rules keeps_pg_exec [where J = J] keeps_ulid_new [where J = J] assms)

lemma keeps_provision_saml:
  assumes "\<And>n i g. stmt_keeps J (id_mapping_insert_stmt n t ''kratos'' i g)" and "\<And>i sid ver tr. stmt_keeps J (membership_upsert_stmt t i sid ver tr)"
    and "\<And>i pub g. stmt_keeps J (saml_link_insert_stmt i t pid nid pub g)"
  shows "keeps (\<lambda>w. J (pg_db w)) (provision_saml p t pid sid nid email ev tp)"
  unfolding provision_saml_def schema_get_def saml_link_get_def Let_def
  by (auto intro!: keeps_rules keeps_pg_query [where J = J] keeps_find_or_create [OF assms(1,2)] keeps_saml_link_create [OF assms(3)]
      split: option.splits db_error.splits)

lemma saml_link_get_Inr:
  assumes "saml_link_get t pid nid w = (Inr l, v)"
  shows "l \<in> set (saml_identity_mappings (pg_db w)) \<and> link_key l = (t, pid, nid) \<and> pg_db v = pg_db w"
  using pg_query_Inr [OF assms [unfolded saml_link_get_def]] by (auto dest: find_SomeD)

lemma saml_link_insert_frame:
  "stmt_keeps (\<lambda>db. id_mappings db = M \<and> tenant_memberships db = T \<and> saml_assertion_ids db = A) (saml_link_insert_stmt i t pid nid pub g)"
  by (rule stmt_keepsI) (auto simp: saml_link_insert_stmt_def Let_def violates_def)

text \<open>The identity of a SAML login is the one its name identifier is linked to, or the one of its email.\<close>

lemma provision_saml_Inr:
  assumes "provision_saml p t pid sid nid email ev tp w = (Inr x, v)"
  shows "pi_tenant_id x = t \<and> ((\<exists>l \<in> set (saml_identity_mappings (pg_db w)). link_key l = (t, pid, nid) \<and> pi_public_id x = sy_identity_public_id l)
    \<or> (ev \<or> tp) \<and> pi_email x = to_ascii_lowercase (trim_text email)
       \<and> (\<exists>r \<in> set (id_mappings (pg_db v)). at_key t ''kratos'' (pi_public_id x) r \<and> im_ory_global_id r = pi_ory_id x)
       \<and> member_of (pg_db v) t (pi_public_id x) \<noteq> None)"
proof -
  define look :: "(('a, 'b, 'c, 'd) ory_world_scheme, provision_error, saml_identity_mapping_row option) io"
    where "look = (if pr_saml_mappings p
            then attempt (saml_link_get t pid nid) (\<lambda>r. case r of
                   Inr link \<Rightarrow> ret (Some link)
                 | Inl err \<Rightarrow> if err = SamlIdentityMappingNotFound then ret None else raise (PE_Database err))
            else ret None)"
  obtain schema w1 link w2 where sch: "schema_get t sid w = (Inr schema, w1)" and look: "look w1 = (Inr link, w2)"
    and rest: "(case link of
       Some l \<Rightarrow> ret \<lparr>pi_tenant_id = t, pi_public_id = sy_identity_public_id l, pi_ory_id = sy_ory_global_id l, pi_email = email\<rparr>
     | None \<Rightarrow>
         bindE (guard_err (\<not> ev \<and> \<not> tp) PE_EmailNotVerified) (\<lambda>_.
         let traits = normalize_traits (JObj [(''email'', JStr email), (''name'', normalize_name_claim (Some (JStr nid)))]) in
         bindE (lift_result (valid_traits p schema traits)) (\<lambda>_.
         bindE (find_or_create_by_email p t schema traits) (\<lambda>identity.
         if pr_saml_mappings p
         then attempt (saml_link_create t pid nid (pi_public_id identity) (pi_ory_id identity)) (\<lambda>r. case r of
                Inr _ \<Rightarrow> ret identity
              | Inl (Sqlx _) \<Rightarrow> ret identity
              | Inl err \<Rightarrow> raise (PE_Database err))
         else ret identity)))) w2 = (Inr x, v)"
    using assms unfolding provision_saml_def look_def [symmetric] by (auto simp: run_simps elim!: bindE_InrE)
  have w1: "pg_db w1 = pg_db w" using pg_query_Inr [OF sch [unfolded schema_get_def]] by simp
  show ?thesis
  proof (cases link)
    case (Some l)
    then have "saml_link_get t pid nid w1 = (Inr l, w2)"
      using look by (auto simp: look_def attempt_def run_simps split: if_splits sum.splits prod.splits)
    from saml_link_get_Inr [OF this] show ?thesis using rest Some w1 by (auto simp: ret_def)
  next
    case None
    let ?tr = "JObj [(''email'', JStr email), (''name'', normalize_name_claim (Some (JStr nid)))]"
    obtain y w3 where verified: "ev \<or> tp" and run: "find_or_create_by_email p t schema (normalize_traits ?tr) w2 = (Inr y, w3)"
      and fin: "(if pr_saml_mappings p
         then attempt (saml_link_create t pid nid (pi_public_id y) (pi_ory_id y)) (\<lambda>r. case r of
                Inr _ \<Rightarrow> ret y | Inl (Sqlx _) \<Rightarrow> ret y | Inl err \<Rightarrow> raise (PE_Database err))
         else ret y) w3 = (Inr x, v)"
      using rest None by (auto simp: run_simps Let_def elim!: bindE_InrE)
    have "x = y" using fin by (auto simp: attempt_def ret_def raise_def split: if_splits sum.splits prod.splits db_error.splits)
    have same: "id_mappings (pg_db v) = id_mappings (pg_db w3) \<and> tenant_memberships (pg_db v) = tenant_memberships (pg_db w3)"
    proof (cases "pr_saml_mappings p")
      case True
      then have "v = snd (saml_link_create t pid nid (pi_public_id y) (pi_ory_id y) w3)"
        using fin by (auto simp: attempt_def ret_def raise_def split: sum.splits prod.splits db_error.splits)
      then show ?thesis
        using keepsD_snd [OF keeps_saml_link_create [OF saml_link_insert_frame
              [of "id_mappings (pg_db w3)" "tenant_memberships (pg_db w3)" "saml_assertion_ids (pg_db w3)"]], of w3 t pid nid "pi_public_id y" "pi_ory_id y"] by simp
    qed (use fin in \<open>simp add: ret_def\<close>)
    have "Option.bind (json_get (normalize_traits ?tr) ''email'') as_str = Some (to_ascii_lowercase (trim_text email))"
      by (rule normalize_traits_email) simp
    then have "pi_email y = to_ascii_lowercase (trim_text email)"
      using find_or_create_Inr [OF run] by (auto simp: extract_email_def split: if_splits)
    then show ?thesis using find_or_create_Inr [OF run] verified same \<open>x = y\<close> by (auto simp: member_of_def)
  qed
qed

section \<open>The second login\<close>

text \<open>
  Kratos as the deployment configures it (\<^verbatim>\<open>deploy/kratos-identity.schema.json\<close>): the email is
  the identifier of the credentials. A list by an identifier that no identity has is empty, and
  a second identity with the same email is a conflict.
\<close>

definition base_payload :: "string \<Rightarrow> string \<Rightarrow> json" where
  "base_payload sid email = JObj [(''schema_id'', JStr sid), (''traits'', JObj [(''email'', JStr email)])]"

definition kratos_by_email :: "'k provisioner_kratos \<Rightarrow> ('k \<Rightarrow> string set) \<Rightarrow> bool" where
  "kratos_by_email k emails \<longleftrightarrow>
     (\<forall>t i s. i \<notin> emails s \<longrightarrow> pk_list_identities_by_identifier k t i s = (Inr (JArr []), s))
     \<and> (\<forall>sid e s. e \<in> emails s \<longrightarrow> (\<exists>m. pk_create_identity k (base_payload sid e) s = (Inl (Ory_Status 409 m), s)))
     \<and> (\<forall>sid e s j s'. pk_create_identity k (base_payload sid e) s = (Inr j, s') \<longrightarrow> emails s' = insert e (emails s))"

lemma keeps_provision_db:
  "keeps (\<lambda>w. identity_schemas (pg_db w) = S) (id_mapping_create t b i g)"
  "keeps (\<lambda>w. identity_schemas (pg_db w) = S) (ensure_membership t i schema traits)"
proof -
  let ?J = "\<lambda>db. identity_schemas db = S"
  have st: "stmt_keeps ?J (id_mapping_insert_stmt n t b i g)" "stmt_keeps ?J (membership_upsert_stmt t i sid ver tr)" for n sid ver tr
    by (rule stmt_keepsI; auto simp: id_mapping_insert_stmt_def membership_upsert_stmt_def Let_def violates_def split: option.splits)+
  show "keeps (\<lambda>w. identity_schemas (pg_db w) = S) (id_mapping_create t b i g)"
    unfolding id_mapping_create_def by (intro keeps_rules keeps_pg_exec [where J = ?J] keeps_ulid_new [where J = ?J] st)
  show "keeps (\<lambda>w. identity_schemas (pg_db w) = S) (ensure_membership t i schema traits)"
    unfolding ensure_membership_def membership_get_def membership_upsert_def
    by (intro keeps_rules keeps_pg_exec [where J = ?J] keeps_pg_query [where J = ?J] st)
qed

lemma framed_provision:
  assumes "framed I"
  shows "keeps I (id_mapping_create t b i g)" and "keeps I (ensure_membership t i schema traits)" and "keeps I (schema_get t sid)"
  unfolding id_mapping_create_def ensure_membership_def membership_get_def membership_upsert_def schema_get_def
  by (intro framed_rules assms)+

text \<open>What a login that creates the identity leaves behind.\<close>

lemma first_login:
  assumes k: "kratos_by_email (pr_kratos p) emails" and fresh: "t @ '':'' @ email \<notin> emails (ow_kratos w)"
    and email: "extract_email traits = Inr email" and run: "find_or_create_by_email p t schema traits w = (Inr x, v)"
  shows "emails (ow_kratos v) = insert email (emails (ow_kratos w)) \<and> identity_schemas (pg_db v) = identity_schemas (pg_db w) \<and> pg_fault v = pg_fault w"
proof -
  have list: "pk_list_identities_by_identifier (pr_kratos p) t (t @ '':'' @ email) (ow_kratos w) = (Inr (JArr []), ow_kratos w)"
    using k fresh by (simp add: kratos_by_email_def)
  obtain g i w1 u where mk: "create_by_email p t email w = (Inr (g, i), w1)" and mem: "ensure_membership t i schema traits w1 = (Inr u, v)"
    using run email list unfolding find_or_create_by_email_def
    by (auto simp: run_simps bindE_lift kratos_op_def elim!: bindE_InrE)
  obtain created k1 n w2 row where cr: "pk_create_identity (pr_kratos p) (base_payload (pr_kratos_default_schema_id p) email) (ow_kratos w) = (Inr created, k1)"
    and ins: "id_mapping_create t ''kratos'' n g w2 = (Inr row, w1)"
    and w2: "w2 = w\<lparr>ow_kratos := k1, pg_ulids := Suc (pg_ulids w)\<rparr>"
    using mk by (auto simp: create_by_email_def run_simps kratos_op_def base_payload_def [symmetric] ulid_new_def split: prod.splits)
  have same: "ow_kratos v = k1" "pg_fault v = pg_fault w" "identity_schemas (pg_db v) = identity_schemas (pg_db w)"
    using keepsD_snd [OF framed_provision(1) [OF framed_const(4)], of w2 k1 t "''kratos''" n g] keepsD_snd [OF framed_provision(2) [OF framed_const(4)], of w1 k1 t i schema traits]
      keepsD_snd [OF framed_provision(1) [OF framed_const(1)], of w2 "pg_fault w" t "''kratos''" n g]
      keepsD_snd [OF framed_provision(2) [OF framed_const(1)], of w1 "pg_fault w" t i schema traits]
      keepsD_snd [OF keeps_provision_db(1), of w2 "identity_schemas (pg_db w)" t "''kratos''" n g]
      keepsD_snd [OF keeps_provision_db(2), of w1 "identity_schemas (pg_db w)" t i schema traits] ins mem w2 by simp_all
  then show ?thesis using k cr by (auto simp: kratos_by_email_def)
qed

text \<open>
  \<^bold>\<open>C39.\<close> The lookup asks Kratos for the identifier \<^verbatim>\<open>tenant:email\<close>, and what it creates is known by the
  plain email: the identity is never found again, and the second login of a user is a conflict.
\<close>

theorem second_login_conflict:
  assumes k: "kratos_by_email (pr_kratos p) emails" and quiet: "\<And>q. pg_fault w q = None"
    and first: "provision p t sid claims w = (Inr x, v)" and fresh: "t @ '':'' @ pi_email x \<notin> emails (ow_kratos w)"
  shows "\<exists>m. fst (provision p t sid claims v) = Inl (PE_Kratos (Ory_Status 409 m))"
proof -
  obtain e schema w1 where e: "as_str (json_index claims ''email'') = Some e" and sch: "schema_get t sid w = (Inr schema, w1)"
    and ok: "require_email_verified claims = Inr ()"
    and valid: "valid_traits p schema (normalize_traits (JObj [(''email'', JStr e), (''name'', normalize_name_claim (json_get claims ''name''))])) = Inr ()"
    and run: "find_or_create_by_email p t schema (normalize_traits (JObj [(''email'', JStr e), (''name'', normalize_name_claim (json_get claims ''name''))])) w1
      = (Inr x, v)"
    using first by (auto simp: provision_def run_simps Let_def)
  define tr where "tr = normalize_traits (JObj [(''email'', JStr e), (''name'', normalize_name_claim (json_get claims ''name''))])"
  have email: "extract_email tr = Inr (pi_email x)" using find_or_create_Inr [OF run] by (simp add: tr_def)
  have w1: "ow_kratos w1 = ow_kratos w" "pg_fault w1 = pg_fault w" "pg_db w1 = pg_db w"
    using pg_query_Inr [OF sch [unfolded schema_get_def]] by simp_all
  have after: "emails (ow_kratos v) = insert (pi_email x) (emails (ow_kratos w))" "identity_schemas (pg_db v) = identity_schemas (pg_db w)"
    "pg_fault v = pg_fault w"
    using first_login [OF k _ email [unfolded tr_def] run] fresh w1 by simp_all
  have fnd: "find (schema_at t sid) (identity_schemas (pg_db w)) = Some schema"
    using pg_query_Inr [OF sch [unfolded schema_get_def]] by simp
  define v1 where "v1 = v\<lparr>pg_queries := Suc (pg_queries v)\<rparr>"
  have sch2: "schema_get t sid v = (Inr schema, v1)"
    using fnd after quiet by (simp add: schema_get_def pg_query_no_fault ok_or_def v1_def)
  have "t @ '':'' @ pi_email x \<noteq> pi_email x" using arg_cong [of _ _ length] by fastforce
  then have list: "pk_list_identities_by_identifier (pr_kratos p) t (t @ '':'' @ pi_email x) (ow_kratos v1) = (Inr (JArr []), ow_kratos v1)"
    using k fresh after by (simp add: kratos_by_email_def v1_def)
  obtain m where create: "pk_create_identity (pr_kratos p) (base_payload (pr_kratos_default_schema_id p) (pi_email x)) (ow_kratos v1)
      = (Inl (Ory_Status 409 m), ow_kratos v1)"
    using k after unfolding kratos_by_email_def v1_def by fastforce
  have "fst (find_or_create_by_email p t schema tr v1) = Inl (PE_Kratos (Ory_Status 409 m))"
    using email list create
    by (simp add: find_or_create_by_email_def bindE_def lift_result_def map_err_def kratos_op_def create_by_email_def base_payload_def)
  then have "fst (provision p t sid claims v) = Inl (PE_Kratos (Ory_Status 409 m))"
    using e ok valid sch2 by (simp add: provision_def bindE_def lift_result_def map_err_def tr_def Let_def ok_or_def)
  then show ?thesis by blast
qed

section \<open>Witness\<close>

text \<open>A Kratos that is the list of the emails it knows.\<close>

definition mail_kratos :: "string list provisioner_kratos" where
  "mail_kratos = \<lparr>pk_list_identities_by_identifier = (\<lambda>t i s. (Inr (JArr (if i \<in> set s then [JObj [(''id'', JStr (''k'' @ i))]] else [])), s)),
     pk_create_identity = (\<lambda>payload s. case as_str (json_index (json_index payload ''traits'') ''email'') of
        Some e \<Rightarrow> if e \<in> set s then (Inl (Ory_Status 409 ''exists''), s) else (Inr (JObj [(''id'', JStr (''k'' @ e))]), e # s)
      | None \<Rightarrow> (Inl Ory_MissingTenant, s))\<rparr>"

lemma mail_kratos_ok: "kratos_by_email mail_kratos set"
  by (auto simp: kratos_by_email_def mail_kratos_def base_payload_def json_index_def)

definition mail_provisioner :: "string list provisioner" where
  "mail_provisioner = \<lparr>pr_kratos = mail_kratos, pr_saml_mappings = True, pr_kratos_default_schema_id = ''base'',
     pr_schema_lib = iv_schema_lib sample_identities, pr_show_error = (\<lambda>_. [])\<rparr>"

definition mail_world :: "(fga_tuple list, unit, string list) ory_world" where
  "mail_world = fga_world.extend ((provisioned_world [])\<lparr>pg_db := identity_db\<rparr>) \<lparr>ow_hydra = (), ow_kratos = []\<rparr>"

definition mail_claims :: json where
  "mail_claims = JObj [(''email'', JStr ''d@x''), (''email_verified'', JBool True), (''name'', JStr ''Ada Byron'')]"

lemma mail_simps [simp]: "pg_fault mail_world = (\<lambda>_. None)" "ow_kratos mail_world = []" "pr_kratos mail_provisioner = mail_kratos" "pg_db mail_world = identity_db"
  by (simp_all add: mail_world_def fga_world.defs provisioned_world_def quiet_pg_def pg.defs mail_provisioner_def)

lemma mail_login: "\<exists>x v. provision mail_provisioner ''T'' ''person'' mail_claims mail_world = (Inr x, v)"
proof -
  have "\<not> isl (fst (provision mail_provisioner ''T'' ''person'' mail_claims mail_world))" by code_simp
  then show ?thesis by (rule run_of)
qed

theorem second_login_conflict_witness:
  "\<exists>x v m. provision mail_provisioner ''T'' ''person'' mail_claims mail_world = (Inr x, v)
     \<and> fst (provision mail_provisioner ''T'' ''person'' mail_claims v) = Inl (PE_Kratos (Ory_Status 409 m))"
proof -
  obtain x v where run: "provision mail_provisioner ''T'' ''person'' mail_claims mail_world = (Inr x, v)" using mail_login by blast
  have "kratos_by_email (pr_kratos mail_provisioner) set" by (simp add: mail_kratos_ok)
  from second_login_conflict [OF this _ run] run show ?thesis by auto
qed

theorem provision_sound_witness:
  "\<exists>x v. provision mail_provisioner ''T'' ''person'' mail_claims mail_world = (Inr x, v) \<and> pi_tenant_id x = ''T''
     \<and> member_of (pg_db v) ''T'' (pi_public_id x) \<noteq> None"
proof -
  obtain x v where run: "provision mail_provisioner ''T'' ''person'' mail_claims mail_world = (Inr x, v)" using mail_login by blast
  then show ?thesis using provision_sound [OF run] by blast
qed

end
