(* ===== verification/UpstreamOAuth.thy ===== *)
theory UpstreamOAuth
  imports Provisioning "HOL-Library.Word"
begin

unbundle bit_operations_syntax

text \<open>
  \<^verbatim>\<open>upstream_oauth.rs\<close> and \<^verbatim>\<open>jwks.rs\<close>: what the gateway sends to the identity provider of a tenant. The
  URLs come from the tenant's configuration, so they are checked before a request leaves, by
  name and by the addresses they resolve to. The network is a parameter that answers from
  everything asked before; the log of questions and requests is part of the world.
\<close>

section \<open>Addresses\<close>

text \<open>
  The predicates of \<^verbatim>\<open>std::net\<close> on octets and segments, counted from the most significant one.
\<close>

datatype ip = V4 "32 word" | V6 "128 word"

definition octet :: "32 word \<Rightarrow> nat \<Rightarrow> 32 word" where
  "octet a k = drop_bit (24 - 8 * k) a AND 255"

definition segment :: "128 word \<Rightarrow> nat \<Rightarrow> 128 word" where
  "segment a k = drop_bit (112 - 16 * k) a AND 0xffff"

definition v4_is_loopback :: "32 word \<Rightarrow> bool" where
  "v4_is_loopback a \<longleftrightarrow> octet a 0 = 127"

definition v4_is_link_local :: "32 word \<Rightarrow> bool" where
  "v4_is_link_local a \<longleftrightarrow> octet a 0 = 169 \<and> octet a 1 = 254"

definition v4_is_private :: "32 word \<Rightarrow> bool" where
  "v4_is_private a \<longleftrightarrow> octet a 0 = 10 \<or> octet a 0 = 172 \<and> 16 \<le> octet a 1 \<and> octet a 1 \<le> 31
     \<or> octet a 0 = 192 \<and> octet a 1 = 168"

definition to_ipv4_mapped :: "128 word \<Rightarrow> 32 word option" where
  "to_ipv4_mapped a = (if (\<forall>k < 5. segment a k = 0) \<and> segment a 5 = 0xffff then Some (ucast a) else None)"

definition is_forbidden_v4 :: "32 word \<Rightarrow> bool" where
  "is_forbidden_v4 a \<longleftrightarrow> a = 0 \<or> v4_is_loopback a \<or> v4_is_link_local a \<or> v4_is_private a"

fun is_forbidden_ip :: "ip \<Rightarrow> bool" where
  "is_forbidden_ip (V4 a) = is_forbidden_v4 a"
| "is_forbidden_ip (V6 a) =
     (a = 0 \<or> (case to_ipv4_mapped a of
                  Some v4 \<Rightarrow> is_forbidden_v4 v4
                | None \<Rightarrow> a = 1 \<or> segment a 0 AND 0xffc0 = 0xfe80))"

section \<open>The network\<close>

text \<open>
  Two HTTP clients: one resolves names through \<^verbatim>\<open>SafeDnsResolver\<close>, the other as the system does.
\<close>

datatype http_client = SafeDns | PlainDns

record net_request =
  nq_client :: http_client
  nq_method :: string
  nq_url :: string
  nq_form :: "(string \<times> string) list"
  nq_authorization :: "string option"

datatype net_event = Lookup string nat | Send net_request

text \<open>The text of a body may be unreadable, and a body may not be JSON.\<close>

record net_response =
  nr_status :: nat
  nr_text :: "string option"
  nr_json :: "string + json"

text \<open>\<open>wu_text\<close> is the URL as \<^verbatim>\<open>Url::as_str\<close> gives it.\<close>

record web_url =
  wu_text :: string
  wu_scheme :: string
  wu_host :: "string option"
  wu_port :: "nat option"

record net =
  nt_parse_url :: "string \<Rightarrow> string + web_url"
  nt_parse_ip :: "string \<Rightarrow> ip option"
  nt_show_ip :: "ip \<Rightarrow> string"
  nt_show_status :: "nat \<Rightarrow> string"
  nt_show_error :: "service_error \<Rightarrow> string"
  nt_lookup :: "net_event list \<Rightarrow> string \<Rightarrow> nat \<Rightarrow> string + ip list"
  nt_send :: "net_event list \<Rightarrow> net_request \<Rightarrow> string + net_response"

record jwk =
  jk_kid :: "string option"
  jk_material :: string

record ('f, 'h, 'k) net_world = "('f, 'h, 'k) ory_world" +
  nw_log :: "net_event list"
  nw_jwks :: "string \<Rightarrow> (jwk list \<times> instant) option"

definition net_lookup :: "net \<Rightarrow> string \<Rightarrow> nat \<Rightarrow> (('f, 'h, 'k, 'z) net_world_scheme, string, ip list) io" where
  "net_lookup n host port w = (nt_lookup n (nw_log w) host port, w\<lparr>nw_log := nw_log w @ [Lookup host port]\<rparr>)"

definition net_send :: "net \<Rightarrow> net_request \<Rightarrow> (('f, 'h, 'k, 'z) net_world_scheme, string, net_response) io" where
  "net_send n req w = (nt_send n (nw_log w) req, w\<lparr>nw_log := nw_log w @ [Send req]\<rparr>)"

text \<open>\<^verbatim>\<open>SafeDnsResolver\<close>: what it makes of the answer of the system's resolver.\<close>

definition safe_resolve :: "string + ip list \<Rightarrow> string + ip list" where
  "safe_resolve answer =
     (case answer of
        Inl e \<Rightarrow> Inl e
      | Inr addrs \<Rightarrow>
          let safe_addrs = filter (\<lambda>a. \<not> is_forbidden_ip a) addrs
          in if safe_addrs = [] then Inl ''host resolved to forbidden IP addresses'' else Inr safe_addrs)"

lemma safe_resolve_Inr: "safe_resolve answer = Inr addrs \<Longrightarrow> addrs \<noteq> [] \<and> (\<forall>a \<in> set addrs. \<not> is_forbidden_ip a)"
  by (auto simp: safe_resolve_def Let_def split: sum.splits if_splits)

section \<open>Upstream URLs\<close>

datatype upstream_error =
    UO_MissingConfig string
  | UO_TokenExchange string
  | UO_Userinfo string
  | UO_InvalidUrl string
  | UO_Http string

text \<open>\<^verbatim>\<open>Serialization\<close> is never made: a body that is not JSON is an error of \<^verbatim>\<open>reqwest\<close>.\<close>

fun service_error_of_upstream :: "upstream_error \<Rightarrow> service_error" where
  "service_error_of_upstream (UO_MissingConfig msg) = SE_InvalidArgument msg"
| "service_error_of_upstream (UO_InvalidUrl msg) = SE_InvalidArgument msg"
| "service_error_of_upstream (UO_TokenExchange msg) = SE_Unavailable msg"
| "service_error_of_upstream (UO_Userinfo msg) = SE_Unavailable msg"
| "service_error_of_upstream (UO_Http e) = SE_Unavailable e"

definition forbidden_hostname :: "string \<Rightarrow> bool" where
  "forbidden_hostname host \<longleftrightarrow>
     (let lower = to_ascii_lowercase host
      in lower = ''localhost'' \<or> lower = ''metadata'' \<or> lower = ''metadata.google.internal'' \<or> ends_with lower ''.metadata'')"

definition validate_upstream_url :: "net \<Rightarrow> string \<Rightarrow> service_error + unit" where
  "validate_upstream_url n url_str =
     (case nt_parse_url n url_str of
        Inl e \<Rightarrow> Inl (SE_InvalidArgument (''invalid upstream URL '' @ quoted url_str @ '': '' @ e))
      | Inr url \<Rightarrow>
          if wu_scheme url \<noteq> ''https'' then Inl (SE_InvalidArgument ''upstream URL must use HTTPS'')
          else case wu_host url of
            None \<Rightarrow> Inl (SE_InvalidArgument ''upstream URL is missing a host'')
          | Some host \<Rightarrow>
              if forbidden_hostname host then Inl (SE_InvalidArgument ''upstream URL resolves to a forbidden hostname'')
              else let ip_host = trim_end_matches (CHR '']'') (dropWhile (\<lambda>c. c = CHR ''['') host)
                   in case nt_parse_ip n ip_host of
                        Some ip \<Rightarrow> if is_forbidden_ip ip then Inl (SE_InvalidArgument ''upstream URL resolves to a forbidden IP address'')
                                   else Inr ()
                      | None \<Rightarrow> Inr ())"

definition validate_resolved_ips_for_url :: "net \<Rightarrow> string \<Rightarrow> (('f, 'h, 'k, 'z) net_world_scheme, upstream_error, unit) io" where
  "validate_resolved_ips_for_url n url_str =
     (case nt_parse_url n url_str of
        Inl e \<Rightarrow> raise (UO_InvalidUrl (''invalid upstream URL '' @ quoted url_str @ '': '' @ e))
      | Inr url \<Rightarrow>
          case wu_host url of
            None \<Rightarrow> raise (UO_InvalidUrl ''upstream URL is missing a host'')
          | Some host \<Rightarrow>
              let port = (case wu_port url of Some p \<Rightarrow> p | None \<Rightarrow> 443)
              in bindE (map_err (\<lambda>e. UO_InvalidUrl (''DNS resolution failed for '' @ quoted host @ '': '' @ e)) (net_lookup n host port)) (\<lambda>addrs.
                 case find is_forbidden_ip addrs of
                   Some a \<Rightarrow> raise (UO_InvalidUrl (''upstream host '' @ quoted host @ '' resolved to forbidden IP '' @ nt_show_ip n a))
                 | None \<Rightarrow> ret ()))"

section \<open>Code exchange and userinfo\<close>

record token_response =
  tr_access_token :: string
  tr_token_type :: string
  tr_id_token :: "string option"
  tr_raw :: json

definition config_field :: "json \<Rightarrow> string \<Rightarrow> upstream_error + string" where
  "config_field config k = ok_or (UO_MissingConfig (''missing '' @ k)) (as_str (json_index config k))"

definition checked_url :: "net \<Rightarrow> string \<Rightarrow> upstream_error + unit" where
  "checked_url n url = (case validate_upstream_url n url of Inr _ \<Rightarrow> Inr () | Inl e \<Rightarrow> Inl (UO_InvalidUrl (nt_show_error n e)))"

definition http_success :: "nat \<Rightarrow> bool" where
  "http_success status \<longleftrightarrow> 200 \<le> status \<and> status < 300"

definition failure_text :: "net \<Rightarrow> net_response \<Rightarrow> string" where
  "failure_text n r = ''upstream returned '' @ nt_show_status n (nr_status r) @ '': '' @ (case nr_text r of Some b \<Rightarrow> b | None \<Rightarrow> [])"

definition exchange_form :: "string \<Rightarrow> string \<Rightarrow> string \<Rightarrow> string \<Rightarrow> string option \<Rightarrow> (string \<times> string) list" where
  "exchange_form code redirect_uri client_id client_secret code_verifier =
     [(''grant_type'', ''authorization_code''), (''code'', code), (''redirect_uri'', redirect_uri), (''client_id'', client_id),
      (''client_secret'', client_secret)] @ (case code_verifier of Some v \<Rightarrow> [(''code_verifier'', v)] | None \<Rightarrow> [])"

definition token_response_of :: "json \<Rightarrow> upstream_error + token_response" where
  "token_response_of raw =
     (case as_str (json_index raw ''access_token'') of
        None \<Rightarrow> Inl (UO_TokenExchange ''missing access_token'')
      | Some access_token \<Rightarrow> Inr \<lparr>tr_access_token = access_token,
          tr_token_type = (case as_str (json_index raw ''token_type'') of Some t \<Rightarrow> t | None \<Rightarrow> ''Bearer''),
          tr_id_token = as_str (json_index raw ''id_token''), tr_raw = raw\<rparr>)"

definition exchange_code :: "net \<Rightarrow> json \<Rightarrow> string \<Rightarrow> string \<Rightarrow> string option
    \<Rightarrow> (('f, 'h, 'k, 'z) net_world_scheme, upstream_error, token_response) io" where
  "exchange_code n config code redirect_uri code_verifier =
     bindE (lift_result (config_field config ''token_url'')) (\<lambda>token_url.
     bindE (lift_result (config_field config ''client_id'')) (\<lambda>client_id.
     bindE (lift_result (config_field config ''client_secret'')) (\<lambda>client_secret.
     bindE (lift_result (checked_url n token_url)) (\<lambda>_.
     bindE (validate_resolved_ips_for_url n token_url) (\<lambda>_.
     bindE (map_err UO_Http (net_send n \<lparr>nq_client = SafeDns, nq_method = ''POST'', nq_url = token_url,
              nq_form = exchange_form code redirect_uri client_id client_secret code_verifier, nq_authorization = None\<rparr>)) (\<lambda>response.
     bindE (guard_err (\<not> http_success (nr_status response)) (UO_TokenExchange (failure_text n response))) (\<lambda>_.
     bindE (map_err UO_Http (lift_result (nr_json response))) (\<lambda>raw.
     lift_result (token_response_of raw)))))))))"

text \<open>The value at a dotted path; every key must name a field of an object.\<close>

fun json_path :: "json \<Rightarrow> string list \<Rightarrow> json option" where
  "json_path v [] = Some v"
| "json_path v (k # ks) = (case json_get v k of Some x \<Rightarrow> json_path x ks | None \<Rightarrow> None)"

definition with_email_path :: "json \<Rightarrow> json \<Rightarrow> json" where
  "with_email_path config userinfo =
     (case as_str (json_index config ''userinfo_email_path'') of
        None \<Rightarrow> userinfo
      | Some path \<Rightarrow>
          (case Option.bind (json_path userinfo (split_on (CHR ''.'') path)) as_str of
             Some email \<Rightarrow> json_set userinfo ''email'' (JStr email)
           | None \<Rightarrow> userinfo))"

definition fetch_userinfo :: "net \<Rightarrow> json \<Rightarrow> token_response \<Rightarrow> (('f, 'h, 'k, 'z) net_world_scheme, upstream_error, json) io" where
  "fetch_userinfo n config token_response =
     bindE (lift_result (config_field config ''userinfo_url'')) (\<lambda>userinfo_url.
     bindE (lift_result (checked_url n userinfo_url)) (\<lambda>_.
     bindE (validate_resolved_ips_for_url n userinfo_url) (\<lambda>_.
     bindE (map_err UO_Http (net_send n \<lparr>nq_client = SafeDns, nq_method = ''GET'', nq_url = userinfo_url, nq_form = [],
              nq_authorization = Some (''Bearer '' @ tr_access_token token_response)\<rparr>)) (\<lambda>response.
     bindE (guard_err (\<not> http_success (nr_status response)) (UO_Userinfo (failure_text n response))) (\<lambda>_.
     bindE (map_err UO_Http (lift_result (nr_json response))) (\<lambda>userinfo.
     ret (with_email_path config userinfo)))))))"

section \<open>Key sets\<close>

datatype callback_error =
    CB_InvalidState | CB_MissingCode | CB_TokenExchange | CB_Userinfo | CB_Provisioning | CB_Session
  | CB_Configuration string | CB_InvalidReturnTo | CB_InvalidNonce | CB_InvalidIdToken
  | CB_Database db_error | CB_Service service_error

definition JWKS_CACHE_TTL :: duration where "JWKS_CACHE_TTL = 15 * 60 * nanos_per_second"

record jwt_header =
  jh_alg :: string
  jh_kid :: "string option"

record id_token_claims =
  ic_nonce :: "string option"
  ic_iat :: "int option"

text \<open>
  What the gateway uses of \<^verbatim>\<open>jsonwebtoken\<close>: the header of a token, the key of a JWK, the leeway of a
  default validation, and decoding at a time with a key for an algorithm, an issuer and an audience.
  \<open>jl_keys\<close> reads a key set from the body of an answer.
\<close>

record jwt_lib =
  jl_header :: "string \<Rightarrow> jwt_header option"
  jl_keys :: "json \<Rightarrow> jwk list option"
  jl_key_of_jwk :: "jwk \<Rightarrow> string option"
  jl_leeway :: int
  jl_decode :: "instant \<Rightarrow> string \<Rightarrow> string \<Rightarrow> string \<Rightarrow> string \<Rightarrow> string \<Rightarrow> id_token_claims option"

definition jwks_fresh :: "instant \<Rightarrow> instant \<Rightarrow> bool" where
  "jwks_fresh now fetched_at \<longleftrightarrow> max 0 (now - fetched_at) < JWKS_CACHE_TTL"

definition jwks_get :: "string \<Rightarrow> net_request" where
  "jwks_get jwks_url = \<lparr>nq_client = PlainDns, nq_method = ''GET'', nq_url = jwks_url, nq_form = [], nq_authorization = None\<rparr>"

definition fetch_jwks :: "net \<Rightarrow> jwt_lib \<Rightarrow> string \<Rightarrow> (('f, 'h, 'k, 'z) net_world_scheme, callback_error, jwk list) io" where
  "fetch_jwks n jl jwks_url =
     bindE now_utc (\<lambda>now.
     bindE (gets (\<lambda>w. nw_jwks w jwks_url)) (\<lambda>cached.
     case (case cached of Some (jwks, fetched_at) \<Rightarrow> if jwks_fresh now fetched_at then Some jwks else None | None \<Rightarrow> None) of
       Some jwks \<Rightarrow> ret jwks
     | None \<Rightarrow>
         bindE (map_err (\<lambda>_. CB_InvalidIdToken) (net_send n (jwks_get jwks_url))) (\<lambda>response.
         bindE (guard_err (\<not> http_success (nr_status response)) CB_InvalidIdToken) (\<lambda>_.
         bindE (lift_result (ok_or CB_InvalidIdToken (case nr_json response of Inr v \<Rightarrow> jl_keys jl v | Inl _ \<Rightarrow> None))) (\<lambda>jwks.
         bindE (modify (\<lambda>w. w\<lparr>nw_jwks := (nw_jwks w)(jwks_url \<mapsto> (jwks, now))\<rparr>)) (\<lambda>_.
         ret jwks))))))"

definition select_jwk :: "string option \<Rightarrow> jwk list \<Rightarrow> jwk option" where
  "select_jwk kid jwks =
     (case kid of
        Some i \<Rightarrow> find (\<lambda>k. jk_kid k = Some i) jwks
      | None \<Rightarrow> (case jwks of [k] \<Rightarrow> Some k | _ \<Rightarrow> None))"

definition decoding_key_for_token :: "net \<Rightarrow> jwt_lib \<Rightarrow> string \<Rightarrow> string \<Rightarrow> (('f, 'h, 'k, 'z) net_world_scheme, callback_error, string) io" where
  "decoding_key_for_token n jl id_token jwks_url =
     bindE (lift_result (ok_or CB_InvalidIdToken (jl_header jl id_token))) (\<lambda>header.
     bindE (fetch_jwks n jl jwks_url) (\<lambda>jwks.
     bindE (lift_result (ok_or CB_InvalidIdToken (select_jwk (jh_kid header) jwks))) (\<lambda>jwk.
     lift_result (ok_or CB_InvalidIdToken (jl_key_of_jwk jl jwk)))))"

section \<open>Which addresses are forbidden\<close>

text \<open>A network: the addresses that agree with \<open>net\<close> on the first \<open>n\<close> bits.\<close>

definition in_net :: "'a::len word \<Rightarrow> nat \<Rightarrow> 'a word \<Rightarrow> bool" where
  "in_net net n a \<longleftrightarrow> drop_bit (LENGTH('a) - n) a = drop_bit (LENGTH('a) - n) net"

lemma unat_octet: "k \<le> 3 \<Longrightarrow> unat (octet a k) = unat a div 2 ^ (24 - 8 * k) mod 256"
proof -
  have "octet a k = take_bit 8 (drop_bit (24 - 8 * k) a)" by (simp add: octet_def take_bit_eq_mask mask_eq_exp_minus_1)
  then have "unat (octet a k) = take_bit 8 (drop_bit (24 - 8 * k) (unat a))" by (simp add: unsigned_take_bit_eq unat_drop_bit_eq)
  then show ?thesis by (simp add: take_bit_eq_mod drop_bit_eq_div)
qed
lemma unat_in_net: "in_net net n a \<longleftrightarrow> unat a div 2 ^ (LENGTH('a) - n) = unat net div 2 ^ (LENGTH('a) - n)" for a :: "'a::len word"
  by (simp only: in_net_def word_unat_eq_iff unat_drop_bit_eq) (simp only: drop_bit_eq_div)

lemma v4_nets: "is_forbidden_v4 a \<longleftrightarrow> a = 0 \<or> in_net 0x7f000000 8 a \<or> in_net 0xa9fe0000 16 a
  \<or> in_net 0x0a000000 8 a \<or> in_net 0xac100000 12 a \<or> in_net 0xc0a80000 16 a"
proof -
  define x where "x = unat a"
  have lt: "x < 2 ^ 32" using unsigned_less [of a] by (simp add: x_def)
  have o: "(octet a 0 = c) \<longleftrightarrow> x div 2 ^ 24 = unat c" for c
    using lt by (simp add: word_unat_eq_iff unat_octet x_def)
  have l: "(octet a 1 = c) \<longleftrightarrow> x div 2 ^ 16 mod 256 = unat c" "(c \<le> octet a 1) \<longleftrightarrow> unat c \<le> x div 2 ^ 16 mod 256"
      "(octet a 1 \<le> c) \<longleftrightarrow> x div 2 ^ 16 mod 256 \<le> unat c" for c
    by (simp_all add: word_unat_eq_iff word_le_nat_alt unat_octet x_def)
  define y where "y = x div 2 ^ 16"
  have d: "x div 2 ^ 24 = y div 256" "x div 2 ^ 20 = y div 16" by (simp_all add: y_def div_mult2_eq [symmetric])
  define q r where "q = y div 256" and "r = y mod 256"
  have y: "y = 256 * q + r" "r < 256" by (simp_all add: q_def r_def)
  have div16: "y div 16 = 16 * q + r div 16" unfolding y(1) by (simp add: div_add1_eq)
  have eqs: "q = 169 \<and> r = 254 \<longleftrightarrow> y = 43518" "q = 192 \<and> r = 168 \<longleftrightarrow> y = 49320" 
    using y(1) arg_cong [of y _ "\<lambda>y. (y div 256, y mod 256)"] unfolding q_def [symmetric] r_def [symmetric] by fastforce+
  have "r div 16 < 16" using y(2) by simp
  moreover have "s < 16 \<Longrightarrow> q' = 172 \<and> s = 1 \<longleftrightarrow> 16 * q' + s = 2753" for q' s :: nat by presburger
  ultimately have "q = 172 \<and> r div 16 = 1 \<longleftrightarrow> y div 16 = 2753" unfolding div16 by blast
  moreover have "16 \<le> r \<and> r \<le> 31 \<longleftrightarrow> r div 16 = 1" by auto
  ultimately have eq: "q = 172 \<and> 16 \<le> r \<and> r \<le> 31 \<longleftrightarrow> y div 16 = 2753" by simp
  show ?thesis unfolding is_forbidden_v4_def v4_is_loopback_def v4_is_link_local_def v4_is_private_def unat_in_net o l x_def [symmetric]
    using eqs eq by (simp add: d [simplified] y_def [simplified, symmetric] q_def [symmetric] r_def [symmetric])
qed

lemma unat_segment: "k \<le> 7 \<Longrightarrow> unat (segment a k) = unat a div 2 ^ (112 - 16 * k) mod 65536"
proof -
  have "segment a k = take_bit 16 (drop_bit (112 - 16 * k) a)" by (simp add: segment_def take_bit_eq_mask mask_eq_exp_minus_1)
  then have "unat (segment a k) = take_bit 16 (drop_bit (112 - 16 * k) (unat a))" by (simp add: unsigned_take_bit_eq unat_drop_bit_eq)
  then show ?thesis by (simp add: take_bit_eq_mod drop_bit_eq_div)
qed

lemma mapped_net: "to_ipv4_mapped a = (if in_net (push_bit 32 0xffff) 96 a then Some (ucast a) else None)"
proof -
  define x where "x = unat a"
  define y where "y = x div 2 ^ 32"
  have lt: "x < 2 ^ 128" using unsigned_less [of a] by (simp add: x_def)
  have y: "x div 2 ^ 48 = y div 2 ^ 16" "x div 2 ^ 64 = y div 2 ^ 32" "x div 2 ^ 80 = y div 2 ^ 48" "x div 2 ^ 96 = y div 2 ^ 64" "x div 2 ^ 112 = y div 2 ^ 80"
    unfolding y_def by (simp_all add: div_mult2_eq [symmetric])
  have "y < 2 ^ 96" using lt by (simp add: y_def less_mult_imp_div_less)
  have "(\<forall>k < 5. segment a k = 0) \<longleftrightarrow> segment a 0 = 0 \<and> segment a 1 = 0 \<and> segment a 2 = 0 \<and> segment a 3 = 0 \<and> segment a 4 = 0"
    by (auto simp: less_Suc_eq numeral_eq_Suc)
  also have "\<dots> \<longleftrightarrow> y div 2 ^ 80 mod 65536 = 0 \<and> y div 2 ^ 64 mod 65536 = 0 \<and> y div 2 ^ 48 mod 65536 = 0 \<and> y div 2 ^ 32 mod 65536 = 0 \<and> y div 2 ^ 16 mod 65536 = 0"
    by (simp add: word_unat_eq_iff unat_segment x_def [symmetric] y del: power_numeral)
  finally have seg: "(\<forall>k < 5. segment a k = 0) \<longleftrightarrow> \<dots>" .
  have five: "segment a 5 = 0xffff \<longleftrightarrow> y mod 65536 = 65535"
    by (simp add: word_unat_eq_iff unat_segment x_def [symmetric] y_def)
  have chunk: "y < 2 ^ n" if "y < 2 ^ (n + 16)" "y div 2 ^ n mod 65536 = 0" for n
  proof -
    have "y div 2 ^ n < 65536" using that(1) by (simp add: power_add less_mult_imp_div_less mult.commute)
    then show ?thesis using that(2) by (simp add: div_eq_0_iff)
  qed
  have net: "in_net (push_bit 32 0xffff) 96 a \<longleftrightarrow> y = 65535"
    by (simp add: unat_in_net x_def [symmetric] y_def push_bit_eq_mult)
  have "(\<forall>k < 5. segment a k = 0) \<and> segment a 5 = 0xffff \<longleftrightarrow> y = 65535"
  proof
    assume all: "(\<forall>k < 5. segment a k = 0) \<and> segment a 5 = 0xffff"
    then have "y < 2 ^ 16"
      using chunk [of 80, OF _ ] chunk [of 64] chunk [of 48] chunk [of 32] chunk [of 16] \<open>y < 2 ^ 96\<close> unfolding seg by simp
    then show "y = 65535" using all five by simp
  next
    assume "y = 65535"
    then show "(\<forall>k < 5. segment a k = 0) \<and> segment a 5 = 0xffff" unfolding seg five by simp
  qed
  then show ?thesis unfolding to_ipv4_mapped_def net by simp
qed

lemma v6_nets: "is_forbidden_ip (V6 a) \<longleftrightarrow> a = 0 \<or> a = 1 \<or> in_net (push_bit 112 0xfe80) 10 a
    \<or> in_net (push_bit 32 0xffff) 96 a \<and> is_forbidden_v4 (ucast a)"
proof -
  have bits: "0xffc0 = (push_bit 6 (mask 10) :: 128 word)" "0xffff = (mask 16 :: 128 word)"
    by (simp_all add: mask_eq_exp_minus_1 push_bit_eq_mult)
  have "segment a 0 AND 0xffc0 = push_bit 6 (drop_bit 118 a)"
    unfolding segment_def bits by (rule bit_word_eqI) (auto simp: bit_simps dest: bit_imp_le_length)
  moreover have "push_bit 6 (drop_bit 118 a) = 0xfe80 \<longleftrightarrow> drop_bit 118 a = 1018"
  proof
    have "drop_bit 6 (push_bit 6 (drop_bit 118 a)) = drop_bit 118 a"
      by (rule bit_word_eqI) (auto simp: bit_simps dest: bit_imp_le_length)
    then show "drop_bit 118 a = 1018" if "push_bit 6 (drop_bit 118 a) = 0xfe80" using that by simp
  qed simp
  moreover have "in_net (push_bit 112 0xfe80) 10 a \<longleftrightarrow> drop_bit 118 a = 1018" by (simp add: in_net_def)
  ultimately have link: "segment a 0 AND 0xffc0 = 0xfe80 \<longleftrightarrow> in_net (push_bit 112 0xfe80) 10 a" by simp
  have "\<not> in_net (push_bit 32 0xffff) 96 (1 :: 128 word)" by (simp add: in_net_def)
  moreover have "\<not> in_net (push_bit 112 0xfe80) 10 a" if "in_net (push_bit 32 0xffff) 96 a"
  proof -
    have "drop_bit 118 a = drop_bit 86 (drop_bit 32 a)" by simp
    also have "drop_bit 32 a = 0xffff" using that by (simp add: in_net_def)
    finally show ?thesis by (simp add: in_net_def)
  qed
  ultimately show ?thesis unfolding is_forbidden_ip.simps mapped_net link by auto
qed

lemma unique_local_not_forbidden:
  assumes "in_net (push_bit 112 0xfc00) 7 c"
  shows "\<not> is_forbidden_ip (V6 c)"
proof -
  have top: "drop_bit 121 c = 0x7e" using assms by (simp add: in_net_def)
  have "\<not> in_net (push_bit 112 0xfe80) 10 c"
  proof
    assume "in_net (push_bit 112 0xfe80) 10 c"
    then have "drop_bit 118 c = 1018" by (simp add: in_net_def)
    then have "drop_bit 3 (drop_bit 118 c) = (drop_bit 3 1018 :: 128 word)" by simp
    then show False using top by simp
  qed
  moreover have "\<not> in_net (push_bit 32 0xffff) 96 c"
  proof
    assume "in_net (push_bit 32 0xffff) 96 c"
    then have "drop_bit 32 c = 0xffff" by (simp add: in_net_def)
    then have "drop_bit 89 (drop_bit 32 c) = (drop_bit 89 0xffff :: 128 word)" by simp
    then show False using top by simp
  qed
  moreover have "c \<noteq> 0" "c \<noteq> 1" using top by auto
  ultimately show ?thesis unfolding v6_nets by blast
qed

text \<open>
  \<^bold>\<open>C23.\<close> The forbidden addresses are the unspecified ones, the loopback networks, the link-local
  networks and the private networks of IPv4, also as IPv4-mapped addresses. The unique local
  addresses of IPv6 (\<^verbatim>\<open>fc00::/7\<close>), its private networks, are not among them.
\<close>

theorem forbidden_networks:
  "(is_forbidden_ip (V4 a) \<longleftrightarrow> a = 0 \<or> in_net 0x7f000000 8 a \<or> in_net 0xa9fe0000 16 a
     \<or> in_net 0x0a000000 8 a \<or> in_net 0xac100000 12 a \<or> in_net 0xc0a80000 16 a)
   \<and> (is_forbidden_ip (V6 b) \<longleftrightarrow> b = 0 \<or> b = 1 \<or> in_net (push_bit 112 0xfe80) 10 b
     \<or> in_net (push_bit 32 0xffff) 96 b \<and> is_forbidden_ip (V4 (ucast b)))
   \<and> \<not> (in_net (push_bit 112 0xfc00) 7 b \<and> is_forbidden_ip (V6 b))"
  using v4_nets [of a] v6_nets [of b] unique_local_not_forbidden [of b] by (simp only: is_forbidden_ip.simps(1)) blast

section \<open>What leaves the gateway\<close>

text \<open>
  A request is vetted when its URL passed the check by name and the look-up just before it found
  no forbidden address, and when the client looks names up through the safe resolver.
\<close>

definition vetted :: "net \<Rightarrow> net_event list \<Rightarrow> net_request \<Rightarrow> bool" where
  "vetted n before req \<longleftrightarrow> nq_client req = SafeDns \<and> validate_upstream_url n (nq_url req) = Inr ()
     \<and> (\<exists>pre url host port addrs. before = pre @ [Lookup host port] \<and> nt_parse_url n (nq_url req) = Inr url \<and> wu_host url = Some host
          \<and> nt_lookup n pre host port = Inr addrs \<and> (\<forall>a \<in> set addrs. \<not> is_forbidden_ip a))"

text \<open>Every request of a log is vetted or excused.\<close>

definition log_vetted :: "net \<Rightarrow> (net_request \<Rightarrow> bool) \<Rightarrow> net_event list \<Rightarrow> bool" where
  "log_vetted n excused log \<longleftrightarrow> (\<forall>pre req post. log = pre @ Send req # post \<longrightarrow> vetted n pre req \<or> excused req)"

lemma log_vetted_Nil [simp]: "log_vetted n excused []"
  by (simp add: log_vetted_def)

lemma log_vetted_snoc:
  "log_vetted n excused (log @ [e]) \<longleftrightarrow> log_vetted n excused log \<and> (\<forall>req. e = Send req \<longrightarrow> vetted n log req \<or> excused req)"
proof -
  have split: "log @ [e] = pre @ Send req # post \<longleftrightarrow> (pre = log \<and> e = Send req \<and> post = []) \<or> (\<exists>rest. post = rest @ [e] \<and> log = pre @ Send req # rest)"
    for pre req post
    by (cases post rule: rev_cases) auto
  show ?thesis unfolding log_vetted_def split by auto
qed

lemma keeps_net_send:
  "excused req \<Longrightarrow> keeps (\<lambda>w. log_vetted n excused (nw_log w)) (net_send m req)"
  by (simp add: keeps_def net_send_def log_vetted_snoc)

lemma resolved_ips_keeps: "keeps (\<lambda>w. log_vetted n excused (nw_log w)) (validate_resolved_ips_for_url n url)"
proof -
  have "keeps (\<lambda>w. log_vetted n excused (nw_log w)) (net_lookup n host port)" for host port
    by (simp add: keeps_def net_lookup_def log_vetted_snoc)
  then show ?thesis unfolding validate_resolved_ips_for_url_def Let_def by (auto intro!: keeps_rules split: sum.splits option.splits)
qed

lemma resolved_ips_Inr:
  assumes "validate_resolved_ips_for_url n u w = (Inr x, v)" and "validate_upstream_url n u = Inr ()" and "nq_client req = SafeDns" and "nq_url req = u"
  shows "vetted n (nw_log v) req"
proof -
  obtain url host port addrs where "nt_parse_url n u = Inr url" and "wu_host url = Some host" and "v = w\<lparr>nw_log := nw_log w @ [Lookup host port]\<rparr>"
    and "nt_lookup n (nw_log w) host port = Inr addrs" and "find is_forbidden_ip addrs = None"
    using assms(1) by (auto simp: validate_resolved_ips_for_url_def Let_def run_simps net_lookup_def split: sum.splits option.splits)
  then show ?thesis using assms(2,3,4) by (auto simp: vetted_def find_None_iff)
qed

lemma keeps_vetted_send:
  fixes f :: "net_response \<Rightarrow> (('f, 'h, 'k, 'z) net_world_scheme, upstream_error, 'a) io"
  assumes "nq_client req = SafeDns" and "nq_url req = u" and "\<And>x. keeps (\<lambda>w. log_vetted n excused (nw_log w)) (f x)"
  shows "keeps (\<lambda>w. log_vetted n excused (nw_log w)) (bindE (lift_result (checked_url n u)) (\<lambda>_. bindE (validate_resolved_ips_for_url n u)
    (\<lambda>_. bindE (map_err UO_Http (net_send n req)) f)))"
proof (cases "validate_upstream_url n u")
  case (Inl e)
  then show ?thesis by (simp add: checked_url_def bindE_lift keeps_raise)
next
  case (Inr y)
  have "keeps (\<lambda>w. log_vetted n excused (nw_log w)) (bindE (validate_resolved_ips_for_url n u) (\<lambda>_. bindE (map_err UO_Http (net_send n req)) f))"
  proof (rule keeps_bindE_then [OF resolved_ips_keeps])
    fix s t :: "('f, 'h, 'k, 'z) net_world_scheme" and x
    assume run: "validate_resolved_ips_for_url n u s = (Inr x, t)" and t: "log_vetted n excused (nw_log t)"
    let ?t = "t\<lparr>nw_log := nw_log t @ [Send req]\<rparr>"
    have "vetted n (nw_log t) req" using resolved_ips_Inr [OF run _ assms(1,2)] Inr by simp
    then have "log_vetted n excused (nw_log ?t)" using t by (simp add: log_vetted_snoc)
    then show "log_vetted n excused (nw_log (snd (bindE (map_err UO_Http (net_send n req)) f t)))"
      using keepsD_snd [OF assms(3), of ?t] by (auto simp: bindE_def map_err_def net_send_def split: sum.splits)
  qed
  then show ?thesis using Inr by (simp add: checked_url_def bindE_lift)
qed

lemma keeps_upstream:
  "keeps (\<lambda>w. log_vetted n excused (nw_log w)) (exchange_code n config code uri verifier)"
  "keeps (\<lambda>w. log_vetted n excused (nw_log w)) (fetch_userinfo n config tr)"
  unfolding exchange_code_def fetch_userinfo_def by (intro keeps_rules keeps_vetted_send; simp)+

lemma keeps_jwks: "keeps (\<lambda>w. log_vetted n excused (nw_log w)) (modify (\<lambda>w. w\<lparr>nw_jwks := g w\<rparr>))"
  by (simp add: keeps_def modify_def)

lemma keeps_decoding_key:
  assumes "excused (jwks_get url)"
  shows "keeps (\<lambda>w. log_vetted n excused (nw_log w)) (decoding_key_for_token m jl tok url)"
  unfolding decoding_key_for_token_def fetch_jwks_def
  by (auto intro!: keeps_rules keeps_net_send keeps_jwks assms split: option.splits)

end
