(* ===== verification/Federation.thy ===== *)
theory Federation
  imports UpstreamOAuth
begin

text \<open>
  \<^verbatim>\<open>services/federation.rs\<close>: the RPCs that start a login at the identity provider of a tenant, and what
  becomes of the SAML responses that come back. The SAML library, percent encoding, the digest of
  the code challenge and the random values are parameters; \<open>'w\<close> is the world on which the library
  calls the replay check.
\<close>

section \<open>Configuration\<close>

record saml_message =
  sa_in_response_to :: "string option"
  sa_content :: string

record saml_outcome =
  so_name_id :: string
  so_attributes :: "(string \<times> string option list) list"

record security_config =
  sg_require_signed_assertions :: bool
  sg_require_signed_responses :: bool

datatype saml_crypto_error = SC_KeyNotFound string | SC_VerificationFailed string | SC_Other string

datatype verify_outcome = VO_Valid "string list" | VO_Invalid string

datatype saml_failure = SF_Task string | SF_Validation string

record authn_options =
  ao_sp_entity_id :: string
  ao_acs_url :: string
  ao_destination :: string
  ao_name_id_format :: "string option"

record sp_metadata =
  md_entity_id :: string
  md_signing_key_info :: "string option"
  md_name_id_formats :: "string list"
  md_acs_url :: string
  md_authn_requests_signed :: bool
  md_want_assertions_signed :: bool

text \<open>
  \<open>sm_authn\<close> gives the id of a new request and its XML, \<open>sm_verify\<close> the references that a signature
  covers, \<open>sm_process\<close> the outcome of a response: its arguments are the response, the security
  settings, the replay check, the entity id and endpoint of the service provider, the id of the
  request, the entity id of the identity provider, the signed ids and the time.
\<close>

record 'w saml_lib =
  sm_b64_decode :: "string \<Rightarrow> string + string"
  sm_utf8_error :: "string \<Rightarrow> string"
  sm_parse_secure :: "string \<Rightarrow> string + string"
  sm_parse_response :: "string \<Rightarrow> string + saml_message"
  sm_load_cert :: "string \<Rightarrow> string option"
  sm_verify :: "string list \<Rightarrow> string \<Rightarrow> saml_crypto_error + verify_outcome"
  sm_show_crypto_error :: "saml_crypto_error \<Rightarrow> string"
  sm_process :: "saml_message \<Rightarrow> security_config \<Rightarrow> (string \<Rightarrow> instant \<Rightarrow> ('w, saml_failure, bool) io) \<Rightarrow> string \<Rightarrow> string \<Rightarrow> string
    \<Rightarrow> string \<Rightarrow> string list \<Rightarrow> instant \<Rightarrow> ('w, saml_failure, saml_outcome) io"
  sm_authn :: "authn_options \<Rightarrow> string + string \<times> (string + string)"
  sm_relay_state :: "string \<Rightarrow> string + string"
  sm_redirect_encode :: "string \<Rightarrow> string \<Rightarrow> string \<Rightarrow> string option \<Rightarrow> string + string"
  sm_metadata_xml :: "sp_metadata \<Rightarrow> string + string"

record ('k, 'w) federation =
  fd_saml :: "'w saml_lib"
  fd_net :: net
  fd_hrd :: hrd
  fd_provisioner :: "'k provisioner"
  fd_hydra_public_url :: string
  fd_public_base_url :: string
  fd_saml_signer :: "string option"
  fd_sp_certificate_pem :: "string option"
  fd_request_ttl :: duration
  fd_require_signed_assertions :: bool
  fd_require_signed_responses :: bool
  fd_sha256 :: "string \<Rightarrow> string"
  fd_b64url :: "string \<Rightarrow> string"

type_synonym ('f, 'h, 'k, 'z) net_federation = "('k, ('f, 'h, 'k, 'z) net_world_scheme) federation"

section \<open>Discovery documents\<close>

datatype login_method = LM_Oidc string string | LM_OAuth2 string string | LM_Saml string string string | LM_SelectTenant string

fun login_method_of :: "discovery_result \<Rightarrow> login_method" where
  "login_method_of (OidcRedirect url) = LM_Oidc url []"
| "login_method_of (OAuth2Redirect url) = LM_OAuth2 url []"
| "login_method_of (SamlRedirect sso_url saml_request relay_state) = LM_Saml sso_url saml_request relay_state"
| "login_method_of (SelectTenant redirect_url) = LM_SelectTenant redirect_url"

definition discover_login_method :: "('k, 'w) federation \<Rightarrow> string \<Rightarrow> string \<Rightarrow> ('z pg_scheme, service_error, login_method) io" where
  "discover_login_method fd email return_to =
     bindE (map_err service_error_of_hrd (discover (fd_hrd fd) email return_to)) (\<lambda>result. ret (login_method_of result))"

definition plain_get :: "string \<Rightarrow> net_request" where
  "plain_get url = \<lparr>nq_client = PlainDns, nq_method = ''GET'', nq_url = url, nq_form = [], nq_authorization = None\<rparr>"

text \<open>The status of the answer is not looked at.\<close>

definition fetch_hydra :: "net \<Rightarrow> string \<Rightarrow> string \<Rightarrow> (('f, 'h, 'k, 'z) net_world_scheme, service_error, json) io" where
  "fetch_hydra n what url =
     bindE (map_err (\<lambda>e. SE_Unavailable (what @ '': '' @ e)) (net_send n (plain_get url))) (\<lambda>response.
     map_err (\<lambda>e. SE_Serialization (what @ '' json: '' @ e)) (lift_result (nr_json response)))"

definition json_str_array :: "json \<Rightarrow> string \<Rightarrow> string list" where
  "json_str_array v k = (case Option.bind (json_get v k) as_array of Some arr \<Rightarrow> List.map_filter as_str arr | None \<Rightarrow> [])"

record provider_configuration =
  op_issuer :: string
  op_authorization_endpoint :: string
  op_token_endpoint :: string
  op_userinfo_endpoint :: string
  op_jwks_uri :: string
  op_response_types_supported :: "string list"
  op_grant_types_supported :: "string list"
  op_subject_types_supported :: "string list"
  op_id_token_signing_alg_values_supported :: "string list"
  op_scopes_supported :: "string list"

definition get_open_id_configuration :: "('k, 'w) federation \<Rightarrow> (('f, 'h, 'k, 'z) net_world_scheme, service_error, provider_configuration) io" where
  "get_open_id_configuration fd =
     bindE (fetch_hydra (fd_net fd) ''hydra discovery'' (fd_hydra_public_url fd @ ''/.well-known/openid-configuration'')) (\<lambda>v.
     ret \<lparr>op_issuer = json_str v ''issuer'', op_authorization_endpoint = json_str v ''authorization_endpoint'',
          op_token_endpoint = json_str v ''token_endpoint'', op_userinfo_endpoint = json_str v ''userinfo_endpoint'',
          op_jwks_uri = json_str v ''jwks_uri'', op_response_types_supported = json_str_array v ''response_types_supported'',
          op_grant_types_supported = json_str_array v ''grant_types_supported'',
          op_subject_types_supported = json_str_array v ''subject_types_supported'',
          op_id_token_signing_alg_values_supported = json_str_array v ''id_token_signing_alg_values_supported'',
          op_scopes_supported = json_str_array v ''scopes_supported''\<rparr>)"

record json_web_key =
  jw_kty :: string
  jw_use :: string
  jw_kid :: string
  jw_alg :: string
  jw_n :: string
  jw_e :: string
  jw_x :: string
  jw_y :: string
  jw_crv :: string

definition json_web_key_to_proto :: "json \<Rightarrow> json_web_key" where
  "json_web_key_to_proto v =
     \<lparr>jw_kty = json_str v ''kty'', jw_use = json_str v ''use'', jw_kid = json_str v ''kid'', jw_alg = json_str v ''alg'',
      jw_n = json_str v ''n'', jw_e = json_str v ''e'', jw_x = json_str v ''x'', jw_y = json_str v ''y'', jw_crv = json_str v ''crv''\<rparr>"

definition get_json_web_keys :: "('k, 'w) federation \<Rightarrow> (('f, 'h, 'k, 'z) net_world_scheme, service_error, json_web_key list) io" where
  "get_json_web_keys fd =
     bindE (fetch_hydra (fd_net fd) ''hydra jwks'' (fd_hydra_public_url fd @ ''/oauth2/jwks.json'')) (\<lambda>v.
     ret (map json_web_key_to_proto (case Option.bind (json_get v ''keys'') as_array of Some arr \<Rightarrow> arr | None \<Rightarrow> [])))"

section \<open>Starting an OpenID Connect or OAuth2 login\<close>

definition compute_code_challenge :: "('k, 'w) federation \<Rightarrow> string \<Rightarrow> string" where
  "compute_code_challenge fd verifier = fd_b64url fd (fd_sha256 fd verifier)"

definition validate_oauth_url :: "net \<Rightarrow> string \<Rightarrow> string \<Rightarrow> service_error + unit" where
  "validate_oauth_url n name url =
     (case validate_upstream_url n url of
        Inr _ \<Rightarrow> Inr ()
      | Inl e \<Rightarrow> Inl (SE_InvalidArgument (name @ '' is not a valid upstream URL: '' @ nt_show_error n e)))"

definition optional_url :: "net \<Rightarrow> json \<Rightarrow> string \<Rightarrow> service_error + unit" where
  "optional_url n config k = (case as_str (json_index config k) of Some url \<Rightarrow> validate_oauth_url n k url | None \<Rightarrow> Inr ())"

definition require_text :: "json \<Rightarrow> string \<Rightarrow> service_error + string" where
  "require_text config k = ok_or (SE_InvalidArgument (''missing '' @ k)) (as_str (json_index config k))"

definition require_scopes :: "json \<Rightarrow> service_error + string" where
  "require_scopes config =
     (case as_array (json_index config ''scopes'') of
        None \<Rightarrow> Inl (SE_InvalidArgument ''missing scopes'')
      | Some arr \<Rightarrow>
          let scope = join_with '' '' (filter (\<lambda>s. s \<noteq> []) (List.map_filter as_str arr))
          in if scope = [] then Inl (SE_InvalidArgument ''missing scopes'') else Inr scope)"

definition authorization_query :: "('k, 'w) federation \<Rightarrow> string \<Rightarrow> string \<Rightarrow> string \<Rightarrow> string \<Rightarrow> string \<Rightarrow> string" where
  "authorization_query fd client_id scope redirect_uri state code_challenge =
     (let enc = hrd_urlencode (fd_hrd fd)
      in ''?client_id='' @ enc client_id @ ''&response_type=code&scope='' @ enc scope @ ''&redirect_uri='' @ enc redirect_uri
         @ ''&state='' @ enc state @ ''&code_challenge='' @ enc code_challenge @ ''&code_challenge_method=S256'')"

definition oidc_endpoint :: "json \<Rightarrow> service_error + string" where
  "oidc_endpoint config =
     (case as_str (json_index config ''authorization_endpoint'') of
        Some s \<Rightarrow> Inr s
      | None \<Rightarrow>
          (case as_str (json_index config ''issuer'') of
             Some issuer \<Rightarrow> Inr (trim_end_matches (CHR ''/'') issuer @ ''/oauth2/authorize'')
           | None \<Rightarrow> Inl (SE_InvalidArgument ''missing authorization_endpoint or issuer'')))"

definition build_oidc_authorization_url :: "('k, 'w) federation \<Rightarrow> json \<Rightarrow> string \<Rightarrow> string \<Rightarrow> string \<Rightarrow> string \<Rightarrow> service_error + string" where
  "build_oidc_authorization_url fd config redirect_uri state code_verifier nonce =
     (case oidc_endpoint config of Inl e \<Rightarrow> Inl e | Inr authorization_endpoint \<Rightarrow>
      case require_text config ''client_id'' of Inl e \<Rightarrow> Inl e | Inr client_id \<Rightarrow>
      case require_scopes config of Inl e \<Rightarrow> Inl e | Inr scope \<Rightarrow>
      case validate_oauth_url (fd_net fd) ''authorization_endpoint'' authorization_endpoint of Inl e \<Rightarrow> Inl e | Inr _ \<Rightarrow>
      case optional_url (fd_net fd) config ''issuer'' of Inl e \<Rightarrow> Inl e | Inr _ \<Rightarrow>
      case optional_url (fd_net fd) config ''token_url'' of Inl e \<Rightarrow> Inl e | Inr _ \<Rightarrow>
      case optional_url (fd_net fd) config ''userinfo_url'' of Inl e \<Rightarrow> Inl e | Inr _ \<Rightarrow>
        Inr (trim_end_matches (CHR ''/'') authorization_endpoint
          @ authorization_query fd client_id scope redirect_uri state (compute_code_challenge fd code_verifier)
          @ ''&nonce='' @ hrd_urlencode (fd_hrd fd) nonce))"

definition build_oauth2_authorization_url :: "('k, 'w) federation \<Rightarrow> json \<Rightarrow> string \<Rightarrow> string \<Rightarrow> string \<Rightarrow> service_error + string" where
  "build_oauth2_authorization_url fd config redirect_uri state code_verifier =
     (case require_text config ''authorization_url'' of Inl e \<Rightarrow> Inl e | Inr authorization_url \<Rightarrow>
      case require_text config ''client_id'' of Inl e \<Rightarrow> Inl e | Inr client_id \<Rightarrow>
      case require_scopes config of Inl e \<Rightarrow> Inl e | Inr scope \<Rightarrow>
      case validate_oauth_url (fd_net fd) ''authorization_url'' authorization_url of Inl e \<Rightarrow> Inl e | Inr _ \<Rightarrow>
      case optional_url (fd_net fd) config ''token_url'' of Inl e \<Rightarrow> Inl e | Inr _ \<Rightarrow>
      case optional_url (fd_net fd) config ''userinfo_url'' of Inl e \<Rightarrow> Inl e | Inr _ \<Rightarrow>
        Inr (authorization_url @ authorization_query fd client_id scope redirect_uri state (compute_code_challenge fd code_verifier)))"

definition callback_uri :: "string \<Rightarrow> string \<Rightarrow> string" where
  "callback_uri public_base_url connection_type = trim_end_matches (CHR ''/'') public_base_url @ ''/callbacks/'' @ connection_type"

definition login_connection :: "('k, 'w) federation \<Rightarrow> string \<Rightarrow> string \<Rightarrow> ('z pg_scheme, service_error, tenant_connection_row) io" where
  "login_connection fd tenant_id connection_id = dbq (connection_get_by_id (hrd_aead (fd_hrd fd)) (hrd_key (fd_hrd fd)) tenant_id connection_id)"

text \<open>\<open>code_verifier\<close> and \<open>nonce\<close> are the random values drawn for the login; the answer is the URL and the state.\<close>

definition initiate_oidc_login :: "('k, 'w) federation \<Rightarrow> string \<Rightarrow> string \<Rightarrow> request_context \<Rightarrow> string \<Rightarrow> string
    \<Rightarrow> ('z pg_scheme, service_error, string \<times> string) io" where
  "initiate_oidc_login fd code_verifier nonce ctx connection_id return_to =
     bindE (lift_result (require_tenant ctx)) (\<lambda>tenant_id.
     bindE (login_connection fd tenant_id connection_id) (\<lambda>connection.
     bindE (guard_err (tc_connection_type connection \<noteq> Oidc) (SE_InvalidArgument ''connection is not an OIDC connection'')) (\<lambda>_.
     bindE (dbq (login_state_create tenant_id connection_id ''oidc'' return_to (Some code_verifier) (Some nonce) (fd_request_ttl fd))) (\<lambda>state.
     bindE (lift_result (build_oidc_authorization_url fd (tc_config connection) (callback_uri (fd_public_base_url fd) ''oidc'')
              (ls_state_token state) code_verifier nonce)) (\<lambda>authorization_url.
     ret (authorization_url, ls_state_token state))))))"

definition initiate_o_auth2_login :: "('k, 'w) federation \<Rightarrow> string \<Rightarrow> request_context \<Rightarrow> string \<Rightarrow> string
    \<Rightarrow> ('z pg_scheme, service_error, string \<times> string) io" where
  "initiate_o_auth2_login fd code_verifier ctx connection_id return_to =
     bindE (lift_result (require_tenant ctx)) (\<lambda>tenant_id.
     bindE (login_connection fd tenant_id connection_id) (\<lambda>connection.
     bindE (guard_err (tc_connection_type connection \<noteq> OAuth2) (SE_InvalidArgument ''connection is not an OAuth2 connection'')) (\<lambda>_.
     bindE (dbq (login_state_create tenant_id connection_id ''oauth2'' return_to (Some code_verifier) None (fd_request_ttl fd))) (\<lambda>state.
     bindE (lift_result (build_oauth2_authorization_url fd (tc_config connection) (callback_uri (fd_public_base_url fd) ''oauth2'')
              (ls_state_token state) code_verifier)) (\<lambda>authorization_url.
     ret (authorization_url, ls_state_token state))))))"

section \<open>SAML\<close>

definition initiate_saml_login :: "('k, 'w) federation \<Rightarrow> request_context \<Rightarrow> string \<Rightarrow> string
    \<Rightarrow> ('z pg_scheme, service_error, string \<times> string) io" where
  "initiate_saml_login fd ctx provider_id relay_state =
     bindE (lift_result (require_tenant ctx)) (\<lambda>tenant_id.
     bindE (dbq (saml_provider_get tenant_id provider_id)) (\<lambda>provider.
     bindE (guard_err (pv_authn_requests_signed provider \<and> fd_saml_signer fd = None)
              (SE_Configuration ''provider requires signed AuthnRequests but no SAML signing key is configured'')) (\<lambda>_.
     bindE (map_err (\<lambda>e. SE_InvalidArgument (''saml authn request: '' @ e)) (lift_result (sm_authn (fd_saml fd)
              \<lparr>ao_sp_entity_id = pv_sp_entity_id provider, ao_acs_url = pv_acs_url provider, ao_destination = pv_idp_sso_url provider,
               ao_name_id_format = pv_name_id_format provider\<rparr>))) (\<lambda>(request_id, serialized).
     bindE (map_err (\<lambda>e. SE_Internal (''saml serialize: '' @ e)) (lift_result serialized)) (\<lambda>saml_xml.
     bindE (map_err (\<lambda>e. SE_InvalidArgument (''relay state: '' @ e)) (lift_result (sm_relay_state (fd_saml fd) relay_state))) (\<lambda>relay.
     bindE (map_err (\<lambda>e. SE_Internal (''redirect encode: '' @ e))
              (lift_result (sm_redirect_encode (fd_saml fd) saml_xml (pv_idp_sso_url provider) relay (fd_saml_signer fd)))) (\<lambda>redirect_url.
     bindE (dbq (saml_request_create tenant_id request_id (pv_id provider) relay_state)) (\<lambda>_.
     ret (redirect_url, request_id)))))))))"

definition BEGIN_CERTIFICATE :: string where "BEGIN_CERTIFICATE = ''-----BEGIN CERTIFICATE-----''"
definition END_CERTIFICATE :: string where "END_CERTIFICATE = ''-----END CERTIFICATE-----''"

text \<open>\<^verbatim>\<open>pem[cursor..].find(pat)\<close>: the text from the first occurrence on.\<close>

fun from_first :: "string \<Rightarrow> string \<Rightarrow> string option" where
  "from_first pat s = (if starts_with s pat then Some s else case s of [] \<Rightarrow> None | _ # cs \<Rightarrow> from_first pat cs)"

declare from_first.simps [simp del]

lemma from_first_Some: "from_first pat s = Some r \<Longrightarrow> length r \<le> length s \<and> starts_with r pat"
proof (induction pat s rule: from_first.induct)
  case (1 pat s)
  show ?case
  proof (cases "starts_with s pat")
    case True
    then show ?thesis using 1(2) by (subst (asm) from_first.simps) simp
  next
    case False
    then obtain c cs where s: "s = c # cs" and "from_first pat cs = Some r"
      using 1(2) by (subst (asm) from_first.simps) (auto split: list.splits)
    then show ?thesis using 1(1) [OF False s] by simp
  qed
qed

lemma after_first_length: "after_first pat s = Some r \<Longrightarrow> length r + length pat \<le> length s"
proof (induction pat s rule: after_first.induct)
  case (1 pat s)
  show ?case
  proof (cases "starts_with s pat")
    case True
    then show ?thesis using 1(2) by (subst (asm) after_first.simps) (auto simp: starts_with_iff)
  next
    case False
    then obtain c cs where s: "s = c # cs" and "after_first pat cs = Some r"
      using 1(2) by (subst (asm) after_first.simps) (auto split: list.splits)
    then show ?thesis using 1(1) [OF False s] by simp
  qed
qed

function split_certificate_pem_blocks :: "string \<Rightarrow> string list" where
  "split_certificate_pem_blocks pem =
     (case from_first BEGIN_CERTIFICATE pem of
        None \<Rightarrow> []
      | Some s \<Rightarrow>
          (case after_first END_CERTIFICATE s of
             None \<Rightarrow> []
           | Some rest \<Rightarrow> take (length s - length rest) s # split_certificate_pem_blocks rest))"
  by pat_completeness auto
termination
  by (relation "measure length") (auto simp: END_CERTIFICATE_def dest!: from_first_Some after_first_length)

declare split_certificate_pem_blocks.simps [simp del]

definition verify_saml_signature :: "'w saml_lib \<Rightarrow> string \<Rightarrow> string option \<Rightarrow> saml_crypto_error + string list" where
  "verify_saml_signature lib saml_xml idp_certificate_pem =
     (case idp_certificate_pem of
        None \<Rightarrow> Inr []
      | Some cert_pem \<Rightarrow>
          let keys = List.map_filter (sm_load_cert lib) (split_certificate_pem_blocks cert_pem)
          in if keys = [] then Inl (SC_KeyNotFound ''no loadable IdP certificates'')
             else case sm_verify lib keys saml_xml of
               Inl e \<Rightarrow> Inl e
             | Inr (VO_Valid uris) \<Rightarrow> Inr (List.map_filter (strip_prefix ''#'') uris)
             | Inr (VO_Invalid reason) \<Rightarrow> Inl (SC_VerificationFailed reason))"

definition parse_saml_message :: "'w saml_lib \<Rightarrow> string \<Rightarrow> service_error + string \<times> saml_message" where
  "parse_saml_message lib encoded_assertion =
     (case sm_b64_decode lib encoded_assertion of
        Inl e \<Rightarrow> Inl (SE_InvalidArgument (''base64: '' @ e))
      | Inr saml_xml \<Rightarrow>
          if \<not> valid_utf8 saml_xml then Inl (SE_InvalidArgument (''utf8: '' @ sm_utf8_error lib saml_xml))
          else case sm_parse_secure lib saml_xml of
            Inl e \<Rightarrow> Inl (SE_InvalidArgument (''saml parse: '' @ e))
          | Inr doc \<Rightarrow>
              (case sm_parse_response lib doc of
                 Inl e \<Rightarrow> Inl (SE_InvalidArgument (''saml response: '' @ e))
               | Inr response \<Rightarrow> Inr (saml_xml, response)))"

definition parse_saml_request_id :: "'w saml_lib \<Rightarrow> string \<Rightarrow> service_error + string" where
  "parse_saml_request_id lib encoded_assertion =
     (case parse_saml_message lib encoded_assertion of
        Inl e \<Rightarrow> Inl e
      | Inr (_, response) \<Rightarrow> ok_or (SE_InvalidArgument ''unsolicited saml response'') (sa_in_response_to response))"

definition provision_saml_identity :: "('k, 'w) federation \<Rightarrow> string \<Rightarrow> saml_provider_row \<Rightarrow> string \<Rightarrow> string
    \<Rightarrow> (('f, 'h, 'k, 'z) ory_world_scheme, service_error, provisioned_identity) io" where
  "provision_saml_identity fd tenant_id provider name_id email =
     map_err service_error_of_provision
       (provision_saml (fd_provisioner fd) tenant_id (pv_id provider) (pv_schema_id provider) name_id email False True)"

definition signature_required :: "('k, 'w) federation \<Rightarrow> saml_provider_row \<Rightarrow> service_error + unit" where
  "signature_required fd provider =
     (if pv_idp_certificate_pem provider = None \<and> fd_require_signed_assertions fd
      then Inl (SE_Configuration ''provider requires signed assertions but no IdP certificate is configured'')
      else if pv_idp_certificate_pem provider = None \<and> fd_require_signed_responses fd
      then Inl (SE_Configuration ''provider requires signed responses but no IdP certificate is configured'')
      else Inr ())"

definition saml_email :: "saml_outcome \<Rightarrow> string" where
  "saml_email result =
     (case Option.bind (find (\<lambda>(name, _). name = ''email'') (so_attributes result)) (\<lambda>(_, values). case values of v # _ \<Rightarrow> v | [] \<Rightarrow> None) of
        Some s \<Rightarrow> s
      | None \<Rightarrow> so_name_id result)"

fun service_error_of_saml :: "saml_failure \<Rightarrow> service_error" where
  "service_error_of_saml (SF_Task e) = SE_Internal (''saml processing task failed: '' @ e)"
| "service_error_of_saml (SF_Validation e) = SE_InvalidArgument (''saml validation: '' @ e)"

text \<open>The check of a replay runs on a blocking thread of the runtime.\<close>

definition process_saml_assertion :: "('f, 'h, 'k, 'z) net_federation \<Rightarrow> string \<Rightarrow> saml_provider_row \<Rightarrow> string \<Rightarrow> string
    \<Rightarrow> (('f, 'h, 'k, 'z) net_world_scheme, service_error, provisioned_identity) io" where
  "process_saml_assertion fd tenant_id provider encoded_assertion request_id =
     bindE (lift_result (signature_required fd provider)) (\<lambda>_.
     bindE (lift_result (parse_saml_message (fd_saml fd) encoded_assertion)) (\<lambda>(saml_xml, response).
     bindE (map_err (\<lambda>e. SE_InvalidArgument (''saml signature: '' @ sm_show_crypto_error (fd_saml fd) e))
              (lift_result (verify_saml_signature (fd_saml fd) saml_xml (pv_idp_certificate_pem provider)))) (\<lambda>signed_ids.
     let has_idp_cert = pv_idp_certificate_pem provider \<noteq> None;
         security_config = \<lparr>sg_require_signed_assertions = has_idp_cert \<and> fd_require_signed_assertions fd,
                            sg_require_signed_responses = has_idp_cert \<and> fd_require_signed_responses fd\<rparr>
     in bindE now_utc (\<lambda>now.
     bindE (map_err service_error_of_saml (sm_process (fd_saml fd) response security_config (replay_adapter_check True)
              (pv_sp_entity_id provider) (pv_acs_url provider) request_id (pv_idp_entity_id provider) signed_ids now)) (\<lambda>result.
     bindE (best_effort (saml_request_delete tenant_id request_id)) (\<lambda>_.
     bindE (dbq (schema_get tenant_id (pv_schema_id provider))) (\<lambda>_.
     provision_saml_identity fd tenant_id provider (so_name_id result) (saml_email result))))))))"

definition check_pending :: "('k, 'w) federation \<Rightarrow> saml_request_row \<Rightarrow> string \<Rightarrow> ('z pg_scheme, service_error, unit) io" where
  "check_pending fd pending relay_state =
     bindE (guard_err (relay_state \<noteq> sr_relay_state pending) (SE_InvalidArgument ''relay state mismatch'')) (\<lambda>_.
     bindE now_utc (\<lambda>now.
     guard_err (whole_seconds (now - sr_created_at pending) > whole_seconds (fd_request_ttl fd)) (SE_InvalidArgument ''saml request expired'')))"

text \<open>The session of the answer is not recorded anywhere.\<close>

definition accept_saml_assertion :: "('f, 'h, 'k, 'z) net_federation \<Rightarrow> request_context \<Rightarrow> string \<Rightarrow> string
    \<Rightarrow> (('f, 'h, 'k, 'z) net_world_scheme, service_error, session_info) io" where
  "accept_saml_assertion fd ctx encoded_assertion relay_state =
     bindE (lift_result (require_tenant ctx)) (\<lambda>tenant_id.
     bindE (lift_result (parse_saml_request_id (fd_saml fd) encoded_assertion)) (\<lambda>request_id.
     bindE (dbq (saml_request_get tenant_id request_id)) (\<lambda>pending.
     bindE (dbq (saml_provider_get tenant_id (sr_provider_id pending))) (\<lambda>provider.
     bindE (check_pending fd pending relay_state) (\<lambda>_.
     bindE (process_saml_assertion fd tenant_id provider encoded_assertion request_id) (\<lambda>identity.
     bindE ulid_new (\<lambda>session_id.
     ret \<lparr>ss_id = session_id, ss_identity_id = pi_public_id identity, ss_tenant_id = tenant_id, ss_active = True\<rparr>)))))))"

definition process_saml_assertion_http :: "('f, 'h, 'k, 'z) net_federation \<Rightarrow> string \<Rightarrow> string
    \<Rightarrow> (('f, 'h, 'k, 'z) net_world_scheme, service_error, provisioned_identity) io" where
  "process_saml_assertion_http fd encoded_assertion relay_state =
     bindE (lift_result (parse_saml_request_id (fd_saml fd) encoded_assertion)) (\<lambda>request_id.
     bindE (dbq (saml_request_get_by_request_id request_id)) (\<lambda>pending.
     bindE (dbq (saml_provider_get (sr_tenant_id pending) (sr_provider_id pending))) (\<lambda>provider.
     bindE (check_pending fd pending relay_state) (\<lambda>_.
     process_saml_assertion fd (sr_tenant_id pending) provider encoded_assertion request_id))))"

section \<open>Metadata of the service provider\<close>

definition resolve_acs_url :: "string \<Rightarrow> string \<Rightarrow> string" where
  "resolve_acs_url public_base_url provider_acs_url =
     (if starts_with provider_acs_url ''/'' then trim_end_matches (CHR ''/'') public_base_url @ provider_acs_url else provider_acs_url)"

text \<open>
  \<^verbatim>\<open>str::lines\<close> drops a carriage return before a newline, so not from a last line that has none; an empty
  last line, which it does not yield, adds nothing here.
\<close>

definition strip_cr :: "string \<Rightarrow> string" where
  "strip_cr line = (if line \<noteq> [] \<and> last line = CHR 0x0D then butlast line else line)"

definition text_lines :: "string \<Rightarrow> string list" where
  "text_lines s = (let ls = split_on (CHR 0x0A) s in map strip_cr (butlast ls) @ [last ls])"

definition quote :: "string \<Rightarrow> string" where "quote s = quote_char # s @ [quote_char]"

definition key_info_from_certificate_pem :: "string \<Rightarrow> string option" where
  "key_info_from_certificate_pem cert_pem =
     (let base64 = concat (filter (\<lambda>line. \<not> starts_with line ''-----'') (text_lines cert_pem))
      in if base64 = [] then None
         else Some (''<ds:KeyInfo xmlns:ds='' @ quote ''http://www.w3.org/2000/09/xmldsig#'' @ ''><ds:X509Data><ds:X509Certificate>'' @ base64
           @ ''</ds:X509Certificate></ds:X509Data></ds:KeyInfo>''))"

definition generate_sp_metadata :: "('k, 'w) federation \<Rightarrow> saml_provider_row \<Rightarrow> service_error + string" where
  "generate_sp_metadata fd provider =
     (case sm_metadata_xml (fd_saml fd)
        \<lparr>md_entity_id = pv_sp_entity_id provider, md_signing_key_info = Option.bind (fd_sp_certificate_pem fd) key_info_from_certificate_pem,
         md_name_id_formats = (case pv_name_id_format provider of Some f \<Rightarrow> [f] | None \<Rightarrow> []),
         md_acs_url = resolve_acs_url (fd_public_base_url fd) (pv_acs_url provider),
         md_authn_requests_signed = (pv_authn_requests_signed provider \<and> fd_saml_signer fd \<noteq> None),
         md_want_assertions_signed = fd_require_signed_assertions fd\<rparr> of
        Inr xml \<Rightarrow> Inr xml
      | Inl e \<Rightarrow> Inl (SE_Internal (''saml metadata serialize: '' @ e)))"

section \<open>A SAML login\<close>

text \<open>The state of a SAML login as the database has it: the request that was sent and the provider it was sent to.\<close>

lemma saml_provider_get_Inr:
  assumes "saml_provider_get t i w = (Inr p, v)"
  shows "p \<in> set (saml_providers (pg_db w)) \<and> pv_tenant_id p = t \<and> pv_id p = i \<and> pg_db v = pg_db w \<and> pg_now v = pg_now w"
  using pg_query_Inr [OF assms [unfolded saml_provider_get_def]] by (auto dest: find_SomeD)

lemma saml_request_get_by_request_id_Inr:
  assumes "saml_request_get_by_request_id i w = (Inr r, v)"
  shows "r \<in> set (saml_requests (pg_db w)) \<and> sr_id r = i \<and> pg_db v = pg_db w \<and> pg_now v = pg_now w"
  using pg_query_Inr [OF assms [unfolded saml_request_get_by_request_id_def]] by (auto dest: find_SomeD)

lemma check_pending_Inr:
  assumes "check_pending fd pending relay w = (Inr u, v)"
  shows "v = w \<and> relay = sr_relay_state pending \<and> whole_seconds (pg_now w - sr_created_at pending) \<le> whole_seconds (fd_request_ttl fd)"
  using assms by (auto simp: check_pending_def run_simps now_utc_def)

lemma signature_required_Inr:
  assumes "signature_required fd p = Inr u" and "fd_require_signed_assertions fd \<or> fd_require_signed_responses fd"
  shows "\<exists>cert. pv_idp_certificate_pem p = Some cert"
  using assms by (cases "pv_idp_certificate_pem p") (auto simp: signature_required_def split: if_splits)

definition security_of :: "('k, 'w) federation \<Rightarrow> saml_provider_row \<Rightarrow> security_config" where
  "security_of fd p = \<lparr>sg_require_signed_assertions = pv_idp_certificate_pem p \<noteq> None \<and> fd_require_signed_assertions fd,
     sg_require_signed_responses = pv_idp_certificate_pem p \<noteq> None \<and> fd_require_signed_responses fd\<rparr>"

lemma process_saml_assertion_Inr:
  assumes "process_saml_assertion fd t p enc rid w = (Inr x, v)"
  obtains xml msg ids result u u' schema where "signature_required fd p = Inr ()" and "parse_saml_message (fd_saml fd) enc = Inr (xml, msg)"
    and "verify_saml_signature (fd_saml fd) xml (pv_idp_certificate_pem p) = Inr ids"
    and "sm_process (fd_saml fd) msg (security_of fd p) (replay_adapter_check True) (pv_sp_entity_id p) (pv_acs_url p) rid
           (pv_idp_entity_id p) ids (pg_now w) w = (Inr result, u)"
    and "bindE (best_effort (saml_request_delete t rid)) (\<lambda>_. dbq (schema_get t (pv_schema_id p))) u = (Inr schema, u')"
    and "provision_saml_identity fd t p (so_name_id result) (saml_email result) u' = (Inr x, v)"
  using assms unfolding process_saml_assertion_def Let_def security_of_def [symmetric]
  by (auto simp: run_simps now_utc_def elim!: bindE_InrE)

text \<open>
  What the SAML library documents of a replay cache: a response is accepted only when the check
  of its assertion, with the expiry of the assertion, accepts it, and the library touches the
  world in no other way.
\<close>

definition checks_replay :: "'w saml_lib \<Rightarrow> (saml_message \<Rightarrow> string) \<Rightarrow> (saml_message \<Rightarrow> instant) \<Rightarrow> bool" where
  "checks_replay lib assertion_id expiry \<longleftrightarrow>
     (\<forall>msg sec check sp acs rid idp ids now w result v. sm_process lib msg sec check sp acs rid idp ids now w = (Inr result, v)
        \<longrightarrow> check (assertion_id msg) (expiry msg) w = (Inr True, v))"

lemma replay_adapter_frame:
  assumes "replay_adapter_check rt i expiry w = (Inr True, v)"
  shows "saml_identity_mappings (pg_db v) = saml_identity_mappings (pg_db w)"
proof -
  have st: "stmt_keeps (\<lambda>db. saml_identity_mappings db = saml_identity_mappings (pg_db w)) (replay_insert_stmt i e)" for e
    by (rule stmt_keepsI) (auto simp: replay_insert_stmt_def)
  have "keeps (\<lambda>u. saml_identity_mappings (pg_db u) = saml_identity_mappings (pg_db w)) (replay_adapter_check rt i expiry)"
    unfolding replay_adapter_check_def check_and_insert_inner_def
    by (intro keeps_rules keeps_pg_exec [where J = "\<lambda>db. saml_identity_mappings db = saml_identity_mappings (pg_db w)"] st)
  from keepsD [OF this _ assms] show ?thesis by simp
qed

lemma request_delete_frame:
  assumes "bindE (best_effort (saml_request_delete t rid)) (\<lambda>_. dbq (schema_get t sid)) u = (Inr schema, v)"
  shows "saml_identity_mappings (pg_db v) = saml_identity_mappings (pg_db u) \<and> saml_assertion_ids (pg_db v) = saml_assertion_ids (pg_db u)"
proof -
  let ?J = "\<lambda>db. saml_identity_mappings db = saml_identity_mappings (pg_db u) \<and> saml_assertion_ids db = saml_assertion_ids (pg_db u)"
  have "stmt_keeps ?J (saml_request_delete_stmt t rid)"
    by (rule stmt_keepsI) (auto simp: saml_request_delete_stmt_def Let_def)
  then have "keeps (\<lambda>u. ?J (pg_db u)) (bindE (best_effort (saml_request_delete t rid)) (\<lambda>_. dbq (schema_get t sid)))"
    unfolding saml_request_delete_def schema_get_def
    by (intro keeps_rules keeps_pg_exec [where J = ?J] keeps_pg_query [where J = ?J])
  from keepsD [OF this _ assms] show ?thesis by simp
qed

lemma process_saml_http_Inr:
  assumes "process_saml_assertion_http fd enc relay w = (Inr x, v)"
  obtains rid pending p u where "parse_saml_request_id (fd_saml fd) enc = Inr rid" and "pending \<in> set (saml_requests (pg_db w))" and "sr_id pending = rid"
    and "p \<in> set (saml_providers (pg_db w))" and "pv_tenant_id p = sr_tenant_id pending" and "pv_id p = sr_provider_id pending"
    and "relay = sr_relay_state pending" and "whole_seconds (pg_now w - sr_created_at pending) \<le> whole_seconds (fd_request_ttl fd)"
    and "process_saml_assertion fd (sr_tenant_id pending) p enc rid u = (Inr x, v)" and "pg_db u = pg_db w" and "pg_now u = pg_now w"
proof -
  obtain rid pending w1 p w2 k w3 where rid: "parse_saml_request_id (fd_saml fd) enc = Inr rid"
    and req: "saml_request_get_by_request_id rid w = (Inr pending, w1)" and prov: "saml_provider_get (sr_tenant_id pending) (sr_provider_id pending) w1 = (Inr p, w2)"
    and chk: "check_pending fd pending relay w2 = (Inr k, w3)" and run: "process_saml_assertion fd (sr_tenant_id pending) p enc rid w3 = (Inr x, v)"
    using assms unfolding process_saml_assertion_http_def by (auto simp: run_simps elim!: bindE_InrE)
  note facts = saml_request_get_by_request_id_Inr [OF req] saml_provider_get_Inr [OF prov] check_pending_Inr [OF chk]
  show thesis by (rule that [OF rid _ _ _ _ _ _ _ run]) (use facts in auto)
qed

text \<open>
  \<^bold>\<open>C8.\<close> A SAML response that logs a user in answers a pending request of the same relay state and not
  older than the time to live, sent to a provider of the request's tenant. When signatures are
  required the provider has a certificate, the signature is verified under its certificates and
  the library accepts the response under these terms. The identity belongs to that tenant: it is
  the one linked to the name identifier, or the one of the email, mapped and a member there.
\<close>

theorem saml_login_sound:
  assumes "checks_replay (fd_saml fd) assertion_id expiry" and "process_saml_assertion_http fd enc relay w = (Inr x, v)"
  shows "\<exists>xml msg rid pending p ids result u.
      parse_saml_message (fd_saml fd) enc = Inr (xml, msg) \<and> sa_in_response_to msg = Some rid
    \<and> pending \<in> set (saml_requests (pg_db w)) \<and> sr_id pending = rid \<and> sr_relay_state pending = relay
    \<and> whole_seconds (pg_now w - sr_created_at pending) \<le> whole_seconds (fd_request_ttl fd)
    \<and> p \<in> set (saml_providers (pg_db w)) \<and> pv_tenant_id p = sr_tenant_id pending \<and> pv_id p = sr_provider_id pending
    \<and> (fd_require_signed_assertions fd \<or> fd_require_signed_responses fd \<longrightarrow> pv_idp_certificate_pem p \<noteq> None)
    \<and> verify_saml_signature (fd_saml fd) xml (pv_idp_certificate_pem p) = Inr ids
    \<and> fst (sm_process (fd_saml fd) msg (security_of fd p) (replay_adapter_check True) (pv_sp_entity_id p) (pv_acs_url p) rid
        (pv_idp_entity_id p) ids (pg_now w) u) = Inr result
    \<and> pi_tenant_id x = sr_tenant_id pending
    \<and> ((\<exists>l \<in> set (saml_identity_mappings (pg_db w)). link_key l = (sr_tenant_id pending, pv_id p, so_name_id result)
           \<and> pi_public_id x = sy_identity_public_id l)
       \<or> pi_email x = to_ascii_lowercase (trim_text (saml_email result))
           \<and> (\<exists>r \<in> set (id_mappings (pg_db v)). at_key (sr_tenant_id pending) ''kratos'' (pi_public_id x) r \<and> im_ory_global_id r = pi_ory_id x)
           \<and> member_of (pg_db v) (sr_tenant_id pending) (pi_public_id x) \<noteq> None)"
proof -
  obtain rid pending p u where rid: "parse_saml_request_id (fd_saml fd) enc = Inr rid"
    and req: "pending \<in> set (saml_requests (pg_db w))" "sr_id pending = rid"
    and p: "p \<in> set (saml_providers (pg_db w))" "pv_tenant_id p = sr_tenant_id pending" "pv_id p = sr_provider_id pending"
    and chk: "relay = sr_relay_state pending" "whole_seconds (pg_now w - sr_created_at pending) \<le> whole_seconds (fd_request_ttl fd)"
    and run: "process_saml_assertion fd (sr_tenant_id pending) p enc rid u = (Inr x, v)" and u: "pg_db u = pg_db w" "pg_now u = pg_now w"
    by (rule process_saml_http_Inr [OF assms(2)])
  obtain xml msg ids result u1 u2 schema where sig: "signature_required fd p = Inr ()" and msg: "parse_saml_message (fd_saml fd) enc = Inr (xml, msg)"
    and ids: "verify_saml_signature (fd_saml fd) xml (pv_idp_certificate_pem p) = Inr ids"
    and acc: "sm_process (fd_saml fd) msg (security_of fd p) (replay_adapter_check True) (pv_sp_entity_id p) (pv_acs_url p) rid
           (pv_idp_entity_id p) ids (pg_now u) u = (Inr result, u1)"
    and del: "bindE (best_effort (saml_request_delete (sr_tenant_id pending) rid)) (\<lambda>_. dbq (schema_get (sr_tenant_id pending) (pv_schema_id p))) u1 = (Inr schema, u2)"
    and prov: "provision_saml_identity fd (sr_tenant_id pending) p (so_name_id result) (saml_email result) u2 = (Inr x, v)"
    by (rule process_saml_assertion_Inr [OF run])
  have "replay_adapter_check True (assertion_id msg) (expiry msg) u = (Inr True :: saml_failure + bool, u1)"
    using assms(1) acc unfolding checks_replay_def by blast
  then have links: "saml_identity_mappings (pg_db u2) = saml_identity_mappings (pg_db w)"
    using replay_adapter_frame request_delete_frame [OF del] u by metis
  have prov': "provision_saml (fd_provisioner fd) (sr_tenant_id pending) (pv_id p) (pv_schema_id p) (so_name_id result) (saml_email result) False True u2 = (Inr x, v)"
    using prov by (simp add: provision_saml_identity_def run_simps)
  have irt: "sa_in_response_to msg = Some rid" using rid msg by (auto simp: parse_saml_request_id_def)
  have fst_acc: "fst (sm_process (fd_saml fd) msg (security_of fd p) (replay_adapter_check True) (pv_sp_entity_id p) (pv_acs_url p) rid
        (pv_idp_entity_id p) ids (pg_now w) u) = Inr result" using acc u by simp
  have cert: "fd_require_signed_assertions fd \<or> fd_require_signed_responses fd \<longrightarrow> pv_idp_certificate_pem p \<noteq> None"
    using signature_required_Inr [OF sig] by auto
  show ?thesis
    using msg irt req chk p ids fst_acc cert provision_saml_Inr [OF prov', unfolded links]
    by (intro exI [of _ xml] exI [of _ msg] exI [of _ rid] exI [of _ pending] exI [of _ p] exI [of _ ids] exI [of _ result] exI [of _ u]) simp
qed

lemma process_saml_recorded:
  assumes law: "checks_replay (fd_saml fd) assertion_id expiry" and msg: "parse_saml_message (fd_saml fd) enc = Inr (xml, msg)"
    and run: "process_saml_assertion fd t p enc rid u = (Inr z, b)"
  shows "assertion_id msg \<notin> fst ` set (saml_assertion_ids (pg_db u))
    \<and> saml_assertion_ids (pg_db b) = saml_assertion_ids (pg_db u) @ [(assertion_id msg, replay_expiry (pg_now u) (expiry msg))]"
proof -
  obtain xml' msg' ids result u1 u2 schema where msg': "parse_saml_message (fd_saml fd) enc = Inr (xml', msg')"
    and acc: "sm_process (fd_saml fd) msg' (security_of fd p) (replay_adapter_check True) (pv_sp_entity_id p) (pv_acs_url p) rid
           (pv_idp_entity_id p) ids (pg_now u) u = (Inr result, u1)"
    and del: "bindE (best_effort (saml_request_delete t rid)) (\<lambda>_. dbq (schema_get t (pv_schema_id p))) u1 = (Inr schema, u2)"
    and prov: "provision_saml_identity fd t p (so_name_id result) (saml_email result) u2 = (Inr z, b)"
    by (rule process_saml_assertion_Inr [OF run])
  have "keeps (\<lambda>w. saml_assertion_ids (pg_db w) = saml_assertion_ids (pg_db u2))
      (provision_saml (fd_provisioner fd) t (pv_id p) (pv_schema_id p) (so_name_id result) (saml_email result) False True)"
    by (rule keeps_provision_saml; rule stmt_keepsI)
       (auto simp: id_mapping_insert_stmt_def membership_upsert_stmt_def saml_link_insert_stmt_def Let_def violates_def split: option.splits)
  from keepsD [OF this _ prov [unfolded provision_saml_identity_def map_err_Inr]] have "saml_assertion_ids (pg_db b) = saml_assertion_ids (pg_db u1)"
    using request_delete_frame [OF del] by simp
  moreover have chk: "replay_adapter_check True (assertion_id msg) (expiry msg) u = (Inr True :: saml_failure + bool, u1)"
    using law acc msg msg' unfolding checks_replay_def by auto
  ultimately show ?thesis using replay_adapter_True [OF chk] by simp
qed


section \<open>Witness\<close>

text \<open>
  A network where every name resolves to a public address, and a provider that answers each URL
  with the same documents; the ID token it issues is the nonce \<^verbatim>\<open>n\<close>.
\<close>

definition sample_net :: net where
  "sample_net = \<lparr>nt_parse_url = (\<lambda>s. if starts_with s ''https://'' then Inr \<lparr>wu_text = s, wu_scheme = ''https'', wu_host = Some (drop 8 s), wu_port = None\<rparr>
       else Inl ''relative URL without a base''),
     nt_parse_ip = (\<lambda>_. None), nt_show_ip = (\<lambda>_. ''ip''), nt_show_status = (\<lambda>n. show_int (int n)), nt_show_error = (\<lambda>_. ''error''),
     nt_lookup = (\<lambda>_ _ _. Inr [V4 134744072]),
     nt_send = (\<lambda>_ req. Inr \<lparr>nr_status = 200, nr_text = None, nr_json = Inr (JObj [(''access_token'', JStr ''at''), (''id_token'', JStr ''n''),
        (''email'', JStr ''d@x''), (''email_verified'', JBool True), (''schema_id'', JStr ''person'')])\<rparr>)\<rparr>"

definition login_db :: database where
  "login_db = identity_db\<lparr>tenant_connections := [\<lparr>tc_id = ''con'', tc_tenant_id = ''T'', tc_connection_type = Oidc, tc_domain = ''ex'',
       tc_config = JObj [(''issuer'', JStr ''https://idp''), (''client_id'', JStr ''c''), (''client_secret'', JStr ''pw''),
         (''scopes'', JArr [JStr ''openid'']), (''token_url'', JStr ''https://tok''), (''userinfo_url'', JStr ''https://me''),
         (''jwks_url'', JStr ''https://keys'')],
       tc_is_enabled = False, tc_created_at = 0, tc_updated_at = 0\<rparr>],
     saml_providers := [\<lparr>pv_id = ''p'', pv_tenant_id = ''T'', pv_name = ''P'', pv_idp_entity_id = ''idp'', pv_idp_sso_url = ''https://sso'',
       pv_idp_certificate_pem = None, pv_sp_entity_id = ''sp'', pv_acs_url = ''/acs'', pv_name_id_format = None, pv_schema_id = ''person'',
       pv_authn_requests_signed = False, pv_created_at = 0, pv_updated_at = 0\<rparr>],
     saml_requests := [\<lparr>sr_id = ''r'', sr_tenant_id = ''T'', sr_provider_id = ''p'', sr_relay_state = ''relay'', sr_created_at = 0\<rparr>]\<rparr>"

type_synonym login_net = "(fga_tuple list, unit, string list) net_world"

definition login_world :: login_net where
  "login_world = ory_world.extend (mail_world\<lparr>pg_db := login_db\<rparr>) \<lparr>nw_log = [], nw_jwks = (\<lambda>_. None)\<rparr>"

text \<open>A SAML library whose responses are the text \<^verbatim>\<open>a\<close>, their assertion, and answer the request \<^verbatim>\<open>r\<close>.\<close>

definition sample_saml :: "login_net saml_lib" where
  "sample_saml = \<lparr>sm_b64_decode = Inr, sm_utf8_error = (\<lambda>_. []), sm_parse_secure = Inr,
     sm_parse_response = (\<lambda>doc. Inr \<lparr>sa_in_response_to = Some ''r'', sa_content = doc\<rparr>), sm_load_cert = Some,
     sm_verify = (\<lambda>_ _. Inr (VO_Valid [])), sm_show_crypto_error = (\<lambda>_. []),
     sm_process = (\<lambda>msg sec check sp acs rid idp ids now. bindE (check (sa_content msg) (3 * nanos_per_second)) (\<lambda>new.
        if new then ret \<lparr>so_name_id = ''s@x'', so_attributes = []\<rparr> else raise (SF_Validation ''replay''))),
     sm_authn = (\<lambda>_. Inr (''r'', Inr [])), sm_relay_state = Inr, sm_redirect_encode = (\<lambda>_ _ _ _. Inr []), sm_metadata_xml = (\<lambda>_. Inr [])\<rparr>"

lemma sample_saml_checks: "checks_replay sample_saml sa_content (\<lambda>_. 3 * nanos_per_second)"
  by (auto simp: checks_replay_def sample_saml_def run_simps split: if_splits elim!: bindE_InrE)

definition login_federation :: "(string list, login_net) federation" where
  "login_federation = \<lparr>fd_saml = sample_saml, fd_net = sample_net, fd_hrd = sample_hrd, fd_provisioner = mail_provisioner,
     fd_hydra_public_url = ''https://hydra'', fd_public_base_url = ''https://id/'', fd_saml_signer = None, fd_sp_certificate_pem = None,
     fd_request_ttl = 600 * nanos_per_second, fd_require_signed_assertions = False, fd_require_signed_responses = False,
     fd_sha256 = (\<lambda>s. s), fd_b64url = (\<lambda>s. s)\<rparr>"

lemma login_world_simps [simp]: "pg_fault login_world = (\<lambda>_. None)" "pg_db login_world = login_db" "nw_log login_world = []" "pg_now login_world = 0"
  by (simp_all add: login_world_def mail_world_def ory_world.defs fga_world.defs provisioned_world_def quiet_pg_def pg.defs)

lemma sample_saml_login: "\<exists>x v. process_saml_assertion_http login_federation ''a'' ''relay'' login_world = (Inr x, v)"
proof -
  have "\<not> isl (fst (process_saml_assertion_http login_federation ''a'' ''relay'' login_world))" by code_simp
  then show ?thesis by (rule run_of)
qed


theorem saml_login_sound_witness:
  "\<exists>x v. process_saml_assertion_http login_federation ''a'' ''relay'' login_world = (Inr x, v) \<and> pi_tenant_id x = ''T''"
proof -
  obtain x v where run: "process_saml_assertion_http login_federation ''a'' ''relay'' login_world = (Inr x, v)" using sample_saml_login by blast
  have law: "checks_replay (fd_saml login_federation) sa_content (\<lambda>_. 3 * nanos_per_second)" using sample_saml_checks by (simp add: login_federation_def)
  have reqs: "saml_requests (pg_db login_world) = [\<lparr>sr_id = ''r'', sr_tenant_id = ''T'', sr_provider_id = ''p'', sr_relay_state = ''relay'', sr_created_at = 0\<rparr>]"
    by (simp add: login_db_def)
  have "pi_tenant_id x = ''T''" using saml_login_sound [OF law run] unfolding reqs by auto
  then show ?thesis using run by blast
qed

end
