(* ===== verification/UpstreamCallback.thy ===== *)
theory UpstreamCallback
  imports Federation Middleware
begin

text \<open>
  \<^verbatim>\<open>services/handlers/callback.rs\<close>: the public endpoints to which identity providers send the browser
  back. A login state is consumed, the code is exchanged, the identity is provisioned, and the
  browser leaves with a session cookie for the page it came from.
\<close>

section \<open>Configuration and errors\<close>

definition COOKIE_MAX_AGE_SECONDS :: int where "COOKIE_MAX_AGE_SECONDS = 86400"

text \<open>
  \<open>cb_aead\<close> and \<open>cb_key\<close> belong to the store of connections; \<open>cb_header_ok\<close> says whether a text can be the
  value of a header, and \<open>cb_header_error\<close> is the error when it cannot.
\<close>

record ('k, 'w) callback_state =
  cb_net :: net
  cb_jwt :: jwt_lib
  cb_aead :: aead
  cb_key :: "string option"
  cb_provisioner :: "'k provisioner"
  cb_saml :: "('k, 'w) federation option"
  cb_crypto :: crypto
  cb_session_signer :: session_token_signer
  cb_allowed_return_to_hosts :: "string list"
  cb_tenant_allowed_return_to_hosts :: "string list option"
  cb_public_base_url :: string
  cb_cookie_secure :: bool
  cb_cookie_samesite :: string
  cb_session_ttl_seconds :: nat
  cb_local_dev_mode :: bool
  cb_header_ok :: "string \<Rightarrow> bool"
  cb_header_error :: string

type_synonym ('f, 'h, 'k, 'z) net_callback = "('k, ('f, 'h, 'k, 'z) net_world_scheme) callback_state"

fun show_callback_error :: "net \<Rightarrow> callback_error \<Rightarrow> string" where
  "show_callback_error n CB_InvalidState = ''invalid or expired state''"
| "show_callback_error n CB_MissingCode = ''missing authorization code''"
| "show_callback_error n CB_TokenExchange = ''upstream token exchange failed''"
| "show_callback_error n CB_Userinfo = ''upstream userinfo failed''"
| "show_callback_error n CB_Provisioning = ''identity provisioning failed''"
| "show_callback_error n CB_Session = ''session creation failed''"
| "show_callback_error n (CB_Configuration m) = ''configuration error: '' @ m"
| "show_callback_error n CB_InvalidReturnTo = ''invalid return_to URL''"
| "show_callback_error n CB_InvalidNonce = ''invalid id_token nonce''"
| "show_callback_error n CB_InvalidIdToken = ''invalid ID token''"
| "show_callback_error n (CB_Database e) = ''database error: '' @ show_db_error e"
| "show_callback_error n (CB_Service e) = ''service error: '' @ nt_show_error n e"

record callback_reply =
  cr_status :: nat
  cr_location :: "string option"
  cr_set_cookie :: "string option"
  cr_error :: "string option"

definition callback_error_reply :: "net \<Rightarrow> callback_error \<Rightarrow> callback_reply" where
  "callback_error_reply n e = \<lparr>cr_status = 400, cr_location = None, cr_set_cookie = None, cr_error = Some (show_callback_error n e)\<rparr>"

section \<open>Where a login may return to\<close>

definition PUBLIC_SUFFIXES :: "string list" where
  "PUBLIC_SUFFIXES =
     [''com'', ''org'', ''net'', ''edu'', ''gov'', ''mil'', ''int'', ''co'', ''ai'', ''io'', ''dev'', ''cloud'', ''app'',
      ''info'', ''biz'', ''name'', ''pro'', ''co.uk'', ''org.uk'', ''net.uk'', ''ac.uk'', ''gov.uk'', ''co.jp'',
      ''or.jp'', ''ne.jp'', ''go.jp'', ''de'', ''fr'', ''uk'', ''eu'', ''us'']"

definition is_public_suffix :: "string \<Rightarrow> bool" where
  "is_public_suffix host \<longleftrightarrow> list_ex (\<lambda>suffix. eq_ignore_ascii_case host suffix) PUBLIC_SUFFIXES"

definition opt_list :: "'a list option \<Rightarrow> 'a list" where
  "opt_list xs = (case xs of Some ys \<Rightarrow> ys | None \<Rightarrow> [])"

definition validate_login_return_to :: "net \<Rightarrow> string list \<Rightarrow> string list option \<Rightarrow> bool \<Rightarrow> string \<Rightarrow> callback_error + unit" where
  "validate_login_return_to n allowed_hosts tenant_allowed_hosts local_dev_mode return_to =
     (if allowed_hosts = [] \<and> opt_list tenant_allowed_hosts = [] then Inl CB_InvalidReturnTo
      else case nt_parse_url n return_to of
        Inl _ \<Rightarrow> Inl CB_InvalidReturnTo
      | Inr url \<Rightarrow>
          case wu_host url of
            None \<Rightarrow> Inl CB_InvalidReturnTo
          | Some host \<Rightarrow>
              if wu_scheme url \<noteq> ''https'' \<and> \<not> local_dev_mode then Inl CB_InvalidReturnTo
              else if list_ex is_public_suffix allowed_hosts \<or> list_ex is_public_suffix (opt_list tenant_allowed_hosts)
                then Inl CB_InvalidReturnTo
              else if host \<in> set (allowed_hosts @ opt_list tenant_allowed_hosts) then Inr () else Inl CB_InvalidReturnTo)"

definition check_return_to :: "('k, 'w) callback_state \<Rightarrow> string \<Rightarrow> callback_error + unit" where
  "check_return_to st return_to =
     validate_login_return_to (cb_net st) (cb_allowed_return_to_hosts st) (cb_tenant_allowed_return_to_hosts st) (cb_local_dev_mode st) return_to"

definition derive_saml_return_to :: "('k, 'w) callback_state \<Rightarrow> string \<Rightarrow> string" where
  "derive_saml_return_to st relay_state =
     (case nt_parse_url (cb_net st) relay_state of
        Inr url \<Rightarrow> if check_return_to st (wu_text url) = Inr () then relay_state else cb_public_base_url st
      | Inl _ \<Rightarrow> cb_public_base_url st)"

section \<open>The session\<close>

definition build_session_cookie :: "string \<Rightarrow> bool \<Rightarrow> string \<Rightarrow> nat \<Rightarrow> string" where
  "build_session_cookie v secure same_site max_age_seconds =
     SESSION_COOKIE_NAME @ ''='' @ v @ ''; Path=/; HttpOnly; SameSite='' @ same_site @ ''; Max-Age='' @ show_int (int max_age_seconds)
       @ (if secure then ''; Secure'' else [])"

text \<open>\<open>sid\<close> is the random session id.\<close>

definition build_session_redirect :: "('k, 'w) callback_state \<Rightarrow> string \<Rightarrow> provisioned_identity \<Rightarrow> string \<Rightarrow> string
    \<Rightarrow> ('z pg_scheme, callback_error, callback_reply) io" where
  "build_session_redirect st sid identity amr return_to =
     bindE now_utc (\<lambda>now.
     let (session_token, claims) = session_issue (cb_crypto st) (cb_session_signer st) now sid (pi_public_id identity) (pi_tenant_id identity) amr;
         expires_at = (case from_unix_timestamp (sc_exp claims) of Some e \<Rightarrow> e | None \<Rightarrow> now + COOKIE_MAX_AGE_SECONDS * nanos_per_second)
     in bindE (map_err CB_Database (session_create (cb_crypto st) (sc_sid claims) (sc_sub claims) (sc_tenant_id claims) amr expires_at)) (\<lambda>_.
        let cookie = build_session_cookie session_token (cb_cookie_secure st) (cb_cookie_samesite st) (cb_session_ttl_seconds st)
        in if cb_header_ok st return_to \<and> cb_header_ok st cookie
           then ret \<lparr>cr_status = 302, cr_location = Some return_to, cr_set_cookie = Some cookie, cr_error = None\<rparr>
           else raise (CB_Configuration (cb_header_error st))))"

section \<open>OpenID Connect and OAuth2\<close>

definition id_field :: "json \<Rightarrow> string \<Rightarrow> callback_error + string" where
  "id_field config k = ok_or (CB_Configuration (''missing '' @ k)) (as_str (json_index config k))"

definition nonce_matches :: "string option \<Rightarrow> id_token_claims \<Rightarrow> bool" where
  "nonce_matches expected claims \<longleftrightarrow> (case expected of None \<Rightarrow> True | Some e \<Rightarrow> ic_nonce claims = Some e)"

definition validate_id_token :: "('k, 'w) callback_state \<Rightarrow> string \<Rightarrow> json \<Rightarrow> string option
    \<Rightarrow> (('f, 'h, 'k, 'z) net_world_scheme, callback_error, unit) io" where
  "validate_id_token st id_token config expected_nonce =
     bindE (lift_result (id_field config ''jwks_url'')) (\<lambda>jwks_url.
     bindE (lift_result (id_field config ''issuer'')) (\<lambda>issuer.
     bindE (lift_result (id_field config ''client_id'')) (\<lambda>client_id.
     bindE (lift_result (ok_or CB_InvalidIdToken (jl_header (cb_jwt st) id_token))) (\<lambda>header.
     bindE (decoding_key_for_token (cb_net st) (cb_jwt st) id_token jwks_url) (\<lambda>decoding_key.
     bindE now_utc (\<lambda>now.
     bindE (lift_result (ok_or CB_InvalidIdToken (jl_decode (cb_jwt st) now id_token decoding_key (jh_alg header) issuer client_id))) (\<lambda>claims.
     bindE (guard_err (case ic_iat claims of Some iat \<Rightarrow> iat > unix_timestamp now + jl_leeway (cb_jwt st) | None \<Rightarrow> False) CB_InvalidIdToken) (\<lambda>_.
     guard_err (\<not> nonce_matches expected_nonce claims) CB_InvalidIdToken))))))))"

definition provision_identity :: "('k, 'w) callback_state \<Rightarrow> string \<Rightarrow> json
    \<Rightarrow> (('f, 'h, 'k, 'z) ory_world_scheme, callback_error, provisioned_identity) io" where
  "provision_identity st tenant_id userinfo =
     (let schema_id = (case as_str (json_index userinfo ''schema_id'') of Some i \<Rightarrow> i | None \<Rightarrow> ''default'')
      in map_err (\<lambda>_. CB_Provisioning) (provision (cb_provisioner st) tenant_id schema_id userinfo))"

definition check_id_token :: "('k, 'w) callback_state \<Rightarrow> string \<Rightarrow> json \<Rightarrow> login_state_row \<Rightarrow> token_response
    \<Rightarrow> (('f, 'h, 'k, 'z) net_world_scheme, callback_error, unit) io" where
  "check_id_token st connection_type config login_state token_response =
     (if connection_type = ''oidc''
      then (case tr_id_token token_response of
              Some id_token \<Rightarrow> validate_id_token st id_token config (ls_nonce login_state)
            | None \<Rightarrow> if ls_nonce login_state \<noteq> None then raise CB_InvalidIdToken else ret ())
      else ret ())"

definition handle_oauth_callback :: "('k, 'w) callback_state \<Rightarrow> string \<Rightarrow> string \<Rightarrow> string \<Rightarrow> string
    \<Rightarrow> (('f, 'h, 'k, 'z) net_world_scheme, callback_error, callback_reply) io" where
  "handle_oauth_callback st sid code state_token connection_type =
     bindE (map_err CB_Database (login_state_get state_token)) (\<lambda>login_state.
     bindE (guard_err (ls_connection_type login_state \<noteq> connection_type) CB_InvalidState) (\<lambda>_.
     bindE (map_err CB_Database (login_state_delete state_token)) (\<lambda>_.
     bindE (lift_result (check_return_to st (ls_return_to login_state))) (\<lambda>_.
     bindE (map_err (\<lambda>_. CB_Configuration ''connection not found'')
              (connection_get_by_id (cb_aead st) (cb_key st) (ls_tenant_id login_state) (ls_connection_id login_state))) (\<lambda>connection.
     bindE (map_err (\<lambda>_. CB_TokenExchange) (exchange_code (cb_net st) (tc_config connection) code
              (callback_uri (cb_public_base_url st) connection_type) (ls_code_verifier login_state))) (\<lambda>token_response.
     bindE (check_id_token st connection_type (tc_config connection) login_state token_response) (\<lambda>_.
     bindE (map_err (\<lambda>_. CB_Userinfo) (fetch_userinfo (cb_net st) (tc_config connection) token_response)) (\<lambda>userinfo.
     bindE (provision_identity st (ls_tenant_id login_state) userinfo) (\<lambda>identity.
     build_session_redirect st sid identity connection_type (ls_return_to login_state))))))))))"

definition reply_of :: "net \<Rightarrow> ('s, callback_error, callback_reply) io \<Rightarrow> 's \<Rightarrow> callback_reply \<times> 's" where
  "reply_of n m w = (case m w of (Inr r, v) \<Rightarrow> (r, v) | (Inl e, v) \<Rightarrow> (callback_error_reply n e, v))"

definition oidc_callback :: "('k, 'w) callback_state \<Rightarrow> string \<Rightarrow> string \<Rightarrow> string
    \<Rightarrow> ('f, 'h, 'k, 'z) net_world_scheme \<Rightarrow> callback_reply \<times> ('f, 'h, 'k, 'z) net_world_scheme" where
  "oidc_callback st sid code state_token = reply_of (cb_net st) (handle_oauth_callback st sid code state_token ''oidc'')"

definition oauth2_callback :: "('k, 'w) callback_state \<Rightarrow> string \<Rightarrow> string \<Rightarrow> string
    \<Rightarrow> ('f, 'h, 'k, 'z) net_world_scheme \<Rightarrow> callback_reply \<times> ('f, 'h, 'k, 'z) net_world_scheme" where
  "oauth2_callback st sid code state_token = reply_of (cb_net st) (handle_oauth_callback st sid code state_token ''oauth2'')"

section \<open>SAML\<close>

definition handle_saml_acs :: "('f, 'h, 'k, 'z) net_callback \<Rightarrow> string \<Rightarrow> (string \<Rightarrow> string option)
    \<Rightarrow> (('f, 'h, 'k, 'z) net_world_scheme, callback_error, callback_reply) io" where
  "handle_saml_acs st sid form =
     bindE (lift_result (ok_or (CB_Configuration ''SAML ACS not configured'') (cb_saml st))) (\<lambda>saml.
     bindE (lift_result (ok_or (CB_Configuration ''missing SAMLResponse'') (form ''SAMLResponse''))) (\<lambda>encoded_assertion.
     let relay_state = (case form ''RelayState'' of Some s \<Rightarrow> s | None \<Rightarrow> []) in
     bindE (map_err (\<lambda>_. CB_Provisioning) (process_saml_assertion_http saml encoded_assertion relay_state)) (\<lambda>identity.
     build_session_redirect st sid identity ''saml'' (derive_saml_return_to st relay_state))))"

definition saml_acs_callback :: "('f, 'h, 'k, 'z) net_callback \<Rightarrow> string \<Rightarrow> (string \<Rightarrow> string option)
    \<Rightarrow> ('f, 'h, 'k, 'z) net_world_scheme \<Rightarrow> callback_reply \<times> ('f, 'h, 'k, 'z) net_world_scheme" where
  "saml_acs_callback st sid form = reply_of (cb_net st) (handle_saml_acs st sid form)"

section \<open>The parts of a callback\<close>

text \<open>The network does not touch what the database holds.\<close>

lemma net_ops_pg:
  "keeps (\<lambda>w. pg.truncate w = p) (net_send n req)" "keeps (\<lambda>w. pg.truncate w = p) (net_lookup n host port)"
  "keeps (\<lambda>w. pg.truncate w = p) (modify (\<lambda>w. w\<lparr>nw_jwks := g w\<rparr>))"
  by (simp_all add: keeps_def net_send_def net_lookup_def modify_def pg.defs)

lemma decoding_key_pg: "keeps (\<lambda>w. pg.truncate w = p) (decoding_key_for_token n jl tok url)"
  unfolding decoding_key_for_token_def fetch_jwks_def by (auto intro!: keeps_rules net_ops_pg split: option.splits)

lemma upstream_pg:
  "keeps (\<lambda>w. pg.truncate w = p) (exchange_code n config code uri verifier)"
  "keeps (\<lambda>w. pg.truncate w = p) (fetch_userinfo n config tr)"
  "keeps (\<lambda>w. pg.truncate w = p) (validate_id_token st tok config nonce)"
proof -
  have ips: "keeps (\<lambda>w. pg.truncate w = p) (validate_resolved_ips_for_url n url)" for url
    unfolding validate_resolved_ips_for_url_def Let_def by (auto intro!: keeps_rules net_ops_pg split: sum.splits option.splits)
  show "keeps (\<lambda>w. pg.truncate w = p) (exchange_code n config code uri verifier)" "keeps (\<lambda>w. pg.truncate w = p) (fetch_userinfo n config tr)"
    unfolding exchange_code_def fetch_userinfo_def by (intro keeps_rules ips net_ops_pg)+
  show "keeps (\<lambda>w. pg.truncate w = p) (validate_id_token st tok config nonce)"
    unfolding validate_id_token_def by (intro keeps_rules decoding_key_pg)
qed

lemma check_id_token_pg: "keeps (\<lambda>w. pg.truncate w = p) (check_id_token st ct config ls tr)"
  unfolding check_id_token_def by (auto intro!: keeps_rules upstream_pg split: option.splits)

lemma truncate_parts: "pg.truncate u = pg.truncate w \<Longrightarrow> pg_db u = pg_db w \<and> pg_now u = pg_now w \<and> pg_fault u = pg_fault w"
  by (simp add: pg.defs)

lemma upstream_run:
  assumes "keeps (\<lambda>u. pg.truncate u = pg.truncate w) m" and "m w = (x, u)"
  shows "pg_db u = pg_db w \<and> pg_now u = pg_now w \<and> pg_fault u = pg_fault w"
  using keepsD_snd [OF assms(1), of w] assms(2) truncate_parts [of u w] by simp

lemma framed_provision_run:
  assumes I: "framed I" and k: "\<And>w k. I w \<Longrightarrow> I (w\<lparr>ow_kratos := k\<rparr>)"
  shows "keeps I (provision p t sid claims)"
proof -
  have kr: "keeps I (kratos_op m)" for m using k by (simp add: keeps_def kratos_op_def split: prod.splits)
  have ex: "keeps I (public_id_of_existing t g)" for g
    unfolding public_id_of_existing_def get_public_id_def by (intro framed_rules framed_provision I)
  have mk: "keeps I (create_by_email p t e)" for e
    unfolding create_by_email_def by (intro framed_rules framed_provision kr I)
  show ?thesis unfolding provision_def find_or_create_by_email_def Let_def
    by (auto intro!: framed_rules framed_provision kr ex mk I split: option.splits list.splits)
qed

lemma framed_login_parts:
  assumes "framed I"
  shows "keeps I (login_state_get tok)" and "keeps I (login_state_delete tok)" and "keeps I (connection_get_by_id ax key t i)"
    and "keeps I (session_create c sid sub t amr e)"
  unfolding login_state_get_def login_state_delete_def connection_get_by_id_def session_create_def
  by (intro framed_rules assms)+

text \<open>What a return address that passes the check is.\<close>

definition allowed_return :: "('k, 'w) callback_state \<Rightarrow> string \<Rightarrow> bool" where
  "allowed_return st u \<longleftrightarrow> (\<exists>url host. nt_parse_url (cb_net st) u = Inr url \<and> wu_host url = Some host
     \<and> (wu_scheme url = ''https'' \<or> cb_local_dev_mode st) \<and> \<not> is_public_suffix host
     \<and> host \<in> set (cb_allowed_return_to_hosts st) \<union> set (opt_list (cb_tenant_allowed_return_to_hosts st)))"

lemma check_return_to_Inr: "check_return_to st u = Inr () \<Longrightarrow> allowed_return st u"
  by (auto simp: check_return_to_def validate_login_return_to_def allowed_return_def list_ex_iff split: if_splits sum.splits option.splits)

text \<open>The session that a callback leaves.\<close>

definition session_expiry :: "('k, 'w) callback_state \<Rightarrow> instant \<Rightarrow> instant" where
  "session_expiry st now =
     (case from_unix_timestamp (wrap_i64 (unix_timestamp now + sts_ttl_seconds (cb_session_signer st))) of
        Some e \<Rightarrow> e | None \<Rightarrow> now + COOKIE_MAX_AGE_SECONDS * nanos_per_second)"

definition login_reply :: "('k, 'w) callback_state \<Rightarrow> instant \<Rightarrow> string \<Rightarrow> string \<Rightarrow> string \<Rightarrow> string \<Rightarrow> string \<Rightarrow> callback_reply" where
  "login_reply st now sid i t amr return_to =
     \<lparr>cr_status = 302, cr_location = Some return_to,
      cr_set_cookie = Some (build_session_cookie (fst (session_issue (cb_crypto st) (cb_session_signer st) now sid i t amr))
        (cb_cookie_secure st) (cb_cookie_samesite st) (cb_session_ttl_seconds st)), cr_error = None\<rparr>"

lemma build_session_redirect_Inr:
  assumes "build_session_redirect st sid x amr ret_to w = (Inr r, v)"
  shows "session_create (cb_crypto st) sid (pi_public_id x) (pi_tenant_id x) amr (session_expiry st (pg_now w)) w = (Inr (), v)
    \<and> r = login_reply st (pg_now w) sid (pi_public_id x) (pi_tenant_id x) amr ret_to"
  using assms
  by (auto simp: build_session_redirect_def run_simps now_utc_def session_issue_def Let_def session_expiry_def login_reply_def split: if_splits)

lemma session_create_Inr:
  assumes "session_create c sid sub t amr e w = (Inr u, v)"
  shows "login_states (pg_db v) = login_states (pg_db w) \<and> id_mappings (pg_db v) = id_mappings (pg_db w)
    \<and> tenant_memberships (pg_db v) = tenant_memberships (pg_db w) \<and> pg_now v = pg_now w \<and> pg_fault v = pg_fault w
    \<and> (if hash_session_id c sid \<in> gs_session_hash ` set (gateway_sessions (pg_db w)) then gateway_sessions (pg_db v) = gateway_sessions (pg_db w)
       else gateway_sessions (pg_db v) = gateway_sessions (pg_db w) @ [\<lparr>gs_session_hash = hash_session_id c sid, gs_sub = sub, gs_tenant_id = t, gs_amr = amr,
                 gs_created_at = pg_now w, gs_expires_at = e, gs_revoked_at = None\<rparr>])"
  using pg_exec_Inr [OF assms [unfolded session_create_def]]
  by (auto simp: session_create_stmt_def Let_def split: if_splits)

lemma login_state_get_Inr:
  assumes "login_state_get tok w = (Inr ls, v)"
  shows "ls \<in> set (login_states (pg_db w)) \<and> ls_state_token ls = tok \<and> pg_now w < ls_expires_at ls \<and> pg_db v = pg_db w \<and> pg_now v = pg_now w"
  using pg_query_Inr [OF assms [unfolded login_state_get_def]] by (auto dest: find_SomeD)

lemma login_state_delete_Inr:
  assumes "login_state_delete tok w = (Inr u, v)"
  shows "pg_db v = (pg_db w)\<lparr>login_states := filter (\<lambda>r. ls_state_token r \<noteq> tok) (login_states (pg_db w))\<rparr> \<and> pg_now v = pg_now w"
  using pg_exec_Inr [OF assms [unfolded login_state_delete_def]] by (auto simp: login_state_delete_stmt_def split: if_splits)

lemma connection_get_by_id_Inr:
  assumes "connection_get_by_id ax key t i w = (Inr c, v)"
  shows "(\<exists>row \<in> set (tenant_connections (pg_db w)). tc_tenant_id row = t \<and> tc_id row = i \<and> c = decrypt_row ax key row)
    \<and> pg_db v = pg_db w \<and> pg_now v = pg_now w"
proof -
  obtain row u where q: "pg_query (\<lambda>now db. Inr (find (\<lambda>c. tc_tenant_id c = t \<and> tc_id c = i) (tenant_connections db))) w = (Inr row, u)"
    and "map_option (decrypt_row ax key) row = Some c" and "v = u"
    using assms by (auto simp: connection_get_by_id_def run_simps)
  then show ?thesis using pg_query_Inr [OF q] by (auto dest: find_SomeD)
qed

definition userinfo_schema :: "json \<Rightarrow> string" where
  "userinfo_schema info = (case as_str (json_index info ''schema_id'') of Some i \<Rightarrow> i | None \<Rightarrow> ''default'')"

lemma handle_oauth_callback_Inr:
  assumes "handle_oauth_callback st sid code tok ct w = (Inr r, v)"
  obtains ls w1 w2 c w3 tr w4 w5 info w6 x w7 where "login_state_get tok w = (Inr ls, w1)" and "ls_connection_type ls = ct"
    and "login_state_delete tok w1 = (Inr (), w2)" and "check_return_to st (ls_return_to ls) = Inr ()"
    and "connection_get_by_id (cb_aead st) (cb_key st) (ls_tenant_id ls) (ls_connection_id ls) w2 = (Inr c, w3)"
    and "exchange_code (cb_net st) (tc_config c) code (callback_uri (cb_public_base_url st) ct) (ls_code_verifier ls) w3 = (Inr tr, w4)"
    and "check_id_token st ct (tc_config c) ls tr w4 = (Inr (), w5)" and "fetch_userinfo (cb_net st) (tc_config c) tr w5 = (Inr info, w6)"
    and "provision (cb_provisioner st) (ls_tenant_id ls) (userinfo_schema info) info w6 = (Inr x, w7)"
    and "build_session_redirect st sid x ct (ls_return_to ls) w7 = (Inr r, v)"
  using assms unfolding handle_oauth_callback_def provision_identity_def Let_def userinfo_schema_def [symmetric]
  by (auto simp: run_simps elim!: bindE_InrE)

text \<open>An ID token that was accepted: with the key, issuer, client and nonce it was accepted under.\<close>

definition id_token_accepted :: "('k, 'w) callback_state \<Rightarrow> instant \<Rightarrow> json \<Rightarrow> string \<Rightarrow> string \<Rightarrow> bool" where
  "id_token_accepted st now config id_token nonce \<longleftrightarrow>
     (\<exists>header key issuer client_id claims. jl_header (cb_jwt st) id_token = Some header
        \<and> as_str (json_index config ''issuer'') = Some issuer \<and> as_str (json_index config ''client_id'') = Some client_id
        \<and> jl_decode (cb_jwt st) now id_token key (jh_alg header) issuer client_id = Some claims \<and> ic_nonce claims = Some nonce)"

lemma check_id_token_Inr:
  assumes "check_id_token st ''oidc'' config ls tr w = (Inr u, v)" and "ls_nonce ls = Some nonce"
  shows "\<exists>id_token. tr_id_token tr = Some id_token \<and> id_token_accepted st (pg_now w) config id_token nonce"
proof -
  obtain id_token where tok: "tr_id_token tr = Some id_token" and run: "validate_id_token st id_token config (Some nonce) w = (Inr u, v)"
    using assms by (auto simp: check_id_token_def run_simps split: option.splits)
  obtain url issuer client_id header key w1 claims where "as_str (json_index config ''issuer'') = Some issuer"
    and "as_str (json_index config ''client_id'') = Some client_id" and "jl_header (cb_jwt st) id_token = Some header"
    and key: "decoding_key_for_token (cb_net st) (cb_jwt st) id_token url w = (Inr key, w1)"
    and dec: "jl_decode (cb_jwt st) (pg_now w1) id_token key (jh_alg header) issuer client_id = Some claims" and "nonce_matches (Some nonce) claims"
    using run by (auto simp: validate_id_token_def run_simps id_field_def now_utc_def elim!: bindE_InrE)
  moreover have "pg_now w1 = pg_now w" using upstream_run [OF decoding_key_pg key] by simp
  ultimately show ?thesis using tok unfolding id_token_accepted_def nonce_matches_def by auto
qed

lemma provision_login_states:
  assumes "provision p t sid claims w = (Inr x, v)"
  shows "login_states (pg_db v) = login_states (pg_db w) \<and> gateway_sessions (pg_db v) = gateway_sessions (pg_db w) \<and> pg_now v = pg_now w \<and> pg_fault v = pg_fault w"
proof -
  let ?J = "\<lambda>db. login_states db = login_states (pg_db w) \<and> gateway_sessions db = gateway_sessions (pg_db w)"
  have "?J (pg_db (snd (provision p t sid claims w)))"
    by (rule keepsD_snd [OF keeps_provision [where J = ?J]]; (rule stmt_keepsI)?)
       (auto simp: id_mapping_insert_stmt_def membership_upsert_stmt_def Let_def violates_def split: option.splits)
  moreover have "pg_now (snd (provision p t sid claims w)) = pg_now w"
    by (rule keepsD_snd [OF framed_provision_run [OF framed_const(5)]]) simp_all
  moreover have "pg_fault (snd (provision p t sid claims w)) = pg_fault w"
    by (rule keepsD_snd [OF framed_provision_run [OF framed_const(1)]]) simp_all
  ultimately show ?thesis using assms by simp
qed

text \<open>
  \<^bold>\<open>C6.\<close> A callback that logs a user in was asked for: its state token stands for a login of that kind that
  has not expired and is gone afterwards. The browser is sent back to the address of that login,
  on an allowed host and over HTTPS. The session is of an identity that is mapped in the tenant
  of the login and a member of it, and in the OpenID flow with a nonce the provider returned an ID
  token that was accepted for the issuer and client of the tenant's connection and has that nonce.
\<close>

theorem oauth_login_sound:
  assumes "handle_oauth_callback st sid code tok ct w = (Inr r, v)"
  shows "\<exists>ls row i. ls \<in> set (login_states (pg_db w)) \<and> ls_state_token ls = tok \<and> pg_now w < ls_expires_at ls \<and> ls_connection_type ls = ct
    \<and> tok \<notin> ls_state_token ` set (login_states (pg_db v))
    \<and> row \<in> set (tenant_connections (pg_db w)) \<and> tc_tenant_id row = ls_tenant_id ls \<and> tc_id row = ls_connection_id ls
    \<and> r = login_reply st (pg_now w) sid i (ls_tenant_id ls) ct (ls_return_to ls) \<and> allowed_return st (ls_return_to ls)
    \<and> hash_session_id (cb_crypto st) sid \<in> gs_session_hash ` set (gateway_sessions (pg_db v))
    \<and> (\<exists>m \<in> set (id_mappings (pg_db v)). at_key (ls_tenant_id ls) ''kratos'' i m) \<and> member_of (pg_db v) (ls_tenant_id ls) i \<noteq> None
    \<and> (\<forall>nonce. ct = ''oidc'' \<and> ls_nonce ls = Some nonce \<longrightarrow>
         (\<exists>id_token. id_token_accepted st (pg_now w) (tc_config (decrypt_row (cb_aead st) (cb_key st) row)) id_token nonce))"
proof -
  obtain ls w1 w2 c w3 tr w4 w5 info w6 x w7 where get: "login_state_get tok w = (Inr ls, w1)" and ct: "ls_connection_type ls = ct"
    and del: "login_state_delete tok w1 = (Inr (), w2)" and ret: "check_return_to st (ls_return_to ls) = Inr ()"
    and conn: "connection_get_by_id (cb_aead st) (cb_key st) (ls_tenant_id ls) (ls_connection_id ls) w2 = (Inr c, w3)"
    and exch: "exchange_code (cb_net st) (tc_config c) code (callback_uri (cb_public_base_url st) ct) (ls_code_verifier ls) w3 = (Inr tr, w4)"
    and idt: "check_id_token st ct (tc_config c) ls tr w4 = (Inr (), w5)" and info: "fetch_userinfo (cb_net st) (tc_config c) tr w5 = (Inr info, w6)"
    and prov: "provision (cb_provisioner st) (ls_tenant_id ls) (userinfo_schema info) info w6 = (Inr x, w7)"
    and red: "build_session_redirect st sid x ct (ls_return_to ls) w7 = (Inr r, v)"
    by (rule handle_oauth_callback_Inr [OF assms])
  note g = login_state_get_Inr [OF get] and d = login_state_delete_Inr [OF del] and p = provision_Inr [OF prov] and ls7 = provision_login_states [OF prov]
  obtain row where row: "row \<in> set (tenant_connections (pg_db w2))" "tc_tenant_id row = ls_tenant_id ls" "tc_id row = ls_connection_id ls"
      "c = decrypt_row (cb_aead st) (cb_key st) row" and w3: "pg_db w3 = pg_db w2" "pg_now w3 = pg_now w2"
    using connection_get_by_id_Inr [OF conn] by blast
  note w4 = upstream_run [OF upstream_pg(1) exch] and w5 = upstream_run [OF check_id_token_pg idt] and w6 = upstream_run [OF upstream_pg(2) info]
  have now: "pg_now w7 = pg_now w" "pg_now w4 = pg_now w" and states: "login_states (pg_db w7) = filter (\<lambda>r. ls_state_token r \<noteq> tok) (login_states (pg_db w))"
    using g d w3 w4 w5 w6 ls7 by simp_all
  note s = build_session_redirect_Inr [OF red] and cr = session_create_Inr [OF conjunct1 [OF build_session_redirect_Inr [OF red]]]
  have hash: "hash_session_id (cb_crypto st) sid \<in> gs_session_hash ` set (gateway_sessions (pg_db v))" using cr by (auto split: if_splits)
  have idtok: "\<exists>id_token. id_token_accepted st (pg_now w) (tc_config c) id_token nonce" if "ct = ''oidc''" "ls_nonce ls = Some nonce" for nonce
    using check_id_token_Inr [of st "tc_config c" ls tr w4 "()" w5 nonce] idt that now by auto
  have conn: "row \<in> set (tenant_connections (pg_db w))" using row(1) g d by simp
  have reply: "r = login_reply st (pg_now w) sid (pi_public_id x) (ls_tenant_id ls) ct (ls_return_to ls)" using s now p by simp
  have gone: "tok \<notin> ls_state_token ` set (login_states (pg_db v))" using cr states by auto
  have "(\<exists>m \<in> set (id_mappings (pg_db v)). at_key (ls_tenant_id ls) ''kratos'' (pi_public_id x) m)" and "member_of (pg_db v) (ls_tenant_id ls) (pi_public_id x) \<noteq> None"
    using p cr by (auto simp: member_of_def)
  with g ct gone conn row reply check_return_to_Inr [OF ret] hash idtok show ?thesis
    by (intro exI [of _ ls] exI [of _ row] exI [of _ "pi_public_id x"]) auto
qed

section \<open>What a callback asks the network\<close>

lemma framed_log: "framed (\<lambda>w. P (nw_log w))"
  by (simp add: framed_def)

lemma log_provision: "keeps (\<lambda>w. P (nw_log w)) (provision p t sid claims)"
  by (rule framed_provision_run) (simp_all add: framed_log)


section \<open>The session works\<close>

lemma login_parts_fault:
  assumes "login_state_get tok w = (Inr ls, w1)" and "login_state_delete tok w1 = (Inr (), w2)"
    and "connection_get_by_id ax key t i w2 = (Inr c, w3)"
  shows "pg_fault w3 = pg_fault w"
proof -
  have "pg_fault w1 = pg_fault w" using pg_query_Inr [OF assms(1) [unfolded login_state_get_def]] by simp
  moreover have "pg_fault w2 = pg_fault w1" using pg_exec_Inr [OF assms(2) [unfolded login_state_delete_def]] by simp
  moreover have "pg_fault w3 = pg_fault w2" using assms(3) by (auto simp: connection_get_by_id_def run_simps dest: pg_query_Inr)
  ultimately show ?thesis by simp
qed

lemma oauth_login_session:
  assumes "handle_oauth_callback st sid code tok ct w = (Inr r, v)" and "hash_session_id (cb_crypto st) sid \<notin> gs_session_hash ` set (gateway_sessions (pg_db w))"
  shows "\<exists>i t. cr_set_cookie r = Some (build_session_cookie (fst (session_issue (cb_crypto st) (cb_session_signer st) (pg_now w) sid i t ct))
        (cb_cookie_secure st) (cb_cookie_samesite st) (cb_session_ttl_seconds st)) \<and> member_of (pg_db v) t i \<noteq> None
    \<and> gateway_sessions (pg_db v) = gateway_sessions (pg_db w) @ [\<lparr>gs_session_hash = hash_session_id (cb_crypto st) sid, gs_sub = i, gs_tenant_id = t,
         gs_amr = ct, gs_created_at = pg_now w, gs_expires_at = session_expiry st (pg_now w), gs_revoked_at = None\<rparr>]
    \<and> pg_now v = pg_now w \<and> pg_fault v = pg_fault w"
proof -
  obtain ls w1 w2 c w3 tr w4 w5 info w6 x w7 where get: "login_state_get tok w = (Inr ls, w1)"
    and del: "login_state_delete tok w1 = (Inr (), w2)"
    and conn: "connection_get_by_id (cb_aead st) (cb_key st) (ls_tenant_id ls) (ls_connection_id ls) w2 = (Inr c, w3)"
    and exch: "exchange_code (cb_net st) (tc_config c) code (callback_uri (cb_public_base_url st) ct) (ls_code_verifier ls) w3 = (Inr tr, w4)"
    and idt: "check_id_token st ct (tc_config c) ls tr w4 = (Inr (), w5)" and info: "fetch_userinfo (cb_net st) (tc_config c) tr w5 = (Inr info, w6)"
    and prov: "provision (cb_provisioner st) (ls_tenant_id ls) (userinfo_schema info) info w6 = (Inr x, w7)"
    and red: "build_session_redirect st sid x ct (ls_return_to ls) w7 = (Inr r, v)"
    by (rule handle_oauth_callback_Inr [OF assms(1)]) blast
  note w4 = upstream_run [OF upstream_pg(1) exch] and w5 = upstream_run [OF check_id_token_pg idt] and w6 = upstream_run [OF upstream_pg(2) info]
  have same: "pg_now w7 = pg_now w" "gateway_sessions (pg_db w7) = gateway_sessions (pg_db w)" "pg_fault w7 = pg_fault w"
    using login_state_get_Inr [OF get] login_state_delete_Inr [OF del] connection_get_by_id_Inr [OF conn] w4 w5 w6 provision_login_states [OF prov]
      login_parts_fault [OF get del conn] by simp_all
  note s = build_session_redirect_Inr [OF red] and cr = session_create_Inr [OF conjunct1 [OF build_session_redirect_Inr [OF red]]]
  show ?thesis using provision_Inr [OF prov] s cr same assms(2)
    by (intro exI [of _ "pi_public_id x"] exI [of _ "pi_tenant_id x"]) (auto simp: login_reply_def member_of_def)
qed

lemma session_expiry_later:
  assumes "0 < sts_ttl_seconds (cb_session_signer st)" and "- 377705116800 \<le> unix_timestamp now"
    and "unix_timestamp now + sts_ttl_seconds (cb_session_signer st) \<le> 253402300799"
  shows "now < session_expiry st now"
proof -
  have "wrap_i64 (unix_timestamp now + sts_ttl_seconds (cb_session_signer st)) = unix_timestamp now + sts_ttl_seconds (cb_session_signer st)"
    by (rule wrap_i64_id) (use assms in simp_all)
  moreover have "now < (unix_timestamp now + 1) * nanos_per_second" by (simp add: unix_timestamp_def nanos_per_second_def)
  moreover have "(unix_timestamp now + 1) * nanos_per_second \<le> (unix_timestamp now + sts_ttl_seconds (cb_session_signer st)) * nanos_per_second"
    using assms(1) by (simp add: nanos_per_second_def)
  ultimately show ?thesis using assms by (simp add: session_expiry_def from_unix_timestamp_def)
qed


section \<open>From the start of a login to its end\<close>

lemma initiate_oidc_login_Inr:
  assumes "initiate_oidc_login fd verifier nonce ctx cid ret_to w = (Inr (url, tok), v)"
  shows "\<exists>t config. require_tenant ctx = Inr t \<and> tok \<notin> ls_state_token ` set (login_states (pg_db w))
    \<and> login_states (pg_db v) = login_states (pg_db w) @ [\<lparr>ls_state_token = tok, ls_tenant_id = t, ls_connection_id = cid, ls_connection_type = ''oidc'',
        ls_return_to = ret_to, ls_code_verifier = Some verifier, ls_nonce = Some nonce, ls_created_at = pg_now w, ls_expires_at = pg_now w + fd_request_ttl fd\<rparr>]
    \<and> build_oidc_authorization_url fd config (callback_uri (fd_public_base_url fd) ''oidc'') tok verifier nonce = Inr url"
proof -
  obtain t row w1 ls where t: "require_tenant ctx = Inr t" and conn: "login_connection fd t cid w = (Inr row, w1)"
    and mk: "login_state_create t cid ''oidc'' ret_to (Some verifier) (Some nonce) (fd_request_ttl fd) w1 = (Inr ls, v)"
    and url: "build_oidc_authorization_url fd (tc_config row) (callback_uri (fd_public_base_url fd) ''oidc'') (ls_state_token ls) verifier nonce = Inr url"
    and tok: "tok = ls_state_token ls"
    using assms by (auto simp: initiate_oidc_login_def run_simps elim!: bindE_InrE)
  have w1: "pg_db w1 = pg_db w" "pg_now w1 = pg_now w"
    using connection_get_by_id_Inr [of "hrd_aead (fd_hrd fd)" "hrd_key (fd_hrd fd)" t cid w row w1] conn by (auto simp: login_connection_def run_simps)
  obtain i u where ins: "pg_exec (login_state_insert_stmt i t cid ''oidc'' ret_to (Some verifier) (Some nonce) (pg_now w1 + fd_request_ttl fd)) u = (Inr ls, v)"
    and u: "pg_db u = pg_db w1" "pg_now u = pg_now w1"
    using mk by (auto simp: login_state_create_def run_simps ulid_new_def now_utc_def)
  show ?thesis using pg_exec_Inr [OF ins] t url tok w1 u
    by (auto simp: login_state_insert_stmt_def Let_def violates_def split: if_splits)
qed

lemma exchange_code_Inr:
  assumes "exchange_code n config code uri verifier w = (Inr tr, v)"
  shows "\<exists>req client_id secret. Send req \<in> set (nw_log v) \<and> nq_form req = exchange_form code uri client_id secret verifier"
proof -
  obtain u client_id secret w1 where "v = w1\<lparr>nw_log := nw_log w1 @ [Send \<lparr>nq_client = SafeDns, nq_method = ''POST'', nq_url = u,
      nq_form = exchange_form code uri client_id secret verifier, nq_authorization = None\<rparr>]\<rparr>"
    using assms by (auto simp: exchange_code_def run_simps net_send_def elim!: bindE_InrE)
  then show ?thesis by (intro exI [of _ "\<lparr>nq_client = SafeDns, nq_method = ''POST'', nq_url = u,
      nq_form = exchange_form code uri client_id secret verifier, nq_authorization = None\<rparr>"]) auto
qed

lemma log_grows:
  "keeps (\<lambda>w. e \<in> set (nw_log w)) (fetch_userinfo n config tr)" "keeps (\<lambda>w. e \<in> set (nw_log w)) (check_id_token st ct config ls tr)"
proof -
  have send: "keeps (\<lambda>w. e \<in> set (nw_log w)) (net_send m req)" "keeps (\<lambda>w. e \<in> set (nw_log w)) (net_lookup m host port)"
    "keeps (\<lambda>w. e \<in> set (nw_log w)) (modify (\<lambda>w. w\<lparr>nw_jwks := g w\<rparr>))" for m req host port g
    by (simp_all add: keeps_def net_send_def net_lookup_def modify_def)
  show "keeps (\<lambda>w. e \<in> set (nw_log w)) (fetch_userinfo n config tr)"
    unfolding fetch_userinfo_def validate_resolved_ips_for_url_def Let_def
    by (auto intro!: keeps_rules send split: sum.splits option.splits)
  show "keeps (\<lambda>w. e \<in> set (nw_log w)) (check_id_token st ct config ls tr)"
    unfolding check_id_token_def validate_id_token_def decoding_key_for_token_def fetch_jwks_def
    by (auto intro!: keeps_rules send split: option.splits)
qed

lemma session_redirect_log: "keeps (\<lambda>w. e \<in> set (nw_log w)) (build_session_redirect st sid x amr ret_to)"
  unfolding build_session_redirect_def Let_def
  by (auto intro!: keeps_rules framed_login_parts framed_log [where P = "\<lambda>l. e \<in> set l"] split: prod.splits)

text \<open>
  \<^bold>\<open>C22.\<close> The values drawn at the start of an OpenID login come back at its end: the URL carries the
  digest of the verifier and the nonce, and the callback that consumes the state is of the OpenID
  kind, returns to the address given at the start, sends the verifier with the code, and has
  accepted an ID token with the nonce.
\<close>

theorem oidc_login_round_trip:
  assumes init: "initiate_oidc_login fd verifier nonce ctx cid ret_to w = (Inr (url, tok), v)"
    and between: "login_states (pg_db u) = login_states (pg_db v)" and run: "handle_oauth_callback st sid code tok ct u = (Inr r, u')"
  shows "ct = ''oidc'' \<and> cr_location r = Some ret_to \<and> pg_now u < pg_now w + fd_request_ttl fd
    \<and> (\<exists>before. url = before @ ''&code_challenge='' @ hrd_urlencode (fd_hrd fd) (compute_code_challenge fd verifier)
         @ ''&code_challenge_method=S256&nonce='' @ hrd_urlencode (fd_hrd fd) nonce)
    \<and> (\<exists>req. Send req \<in> set (nw_log u') \<and> (''code'', code) \<in> set (nq_form req) \<and> (''code_verifier'', verifier) \<in> set (nq_form req))
    \<and> (\<exists>config id_token. id_token_accepted st (pg_now u) config id_token nonce)"
proof -
  obtain t conf where new: "tok \<notin> ls_state_token ` set (login_states (pg_db w))"
    "login_states (pg_db v) = login_states (pg_db w) @ [\<lparr>ls_state_token = tok, ls_tenant_id = t, ls_connection_id = cid, ls_connection_type = ''oidc'',
        ls_return_to = ret_to, ls_code_verifier = Some verifier, ls_nonce = Some nonce, ls_created_at = pg_now w, ls_expires_at = pg_now w + fd_request_ttl fd\<rparr>]"
    and url: "build_oidc_authorization_url fd conf (callback_uri (fd_public_base_url fd) ''oidc'') tok verifier nonce = Inr url"
    using initiate_oidc_login_Inr [OF init] by blast
  obtain ls w1 w2 c w3 tr w4 w5 info w6 x w7 where get: "login_state_get tok u = (Inr ls, w1)" and ct: "ls_connection_type ls = ct"
    and del: "login_state_delete tok w1 = (Inr (), w2)"
    and conn: "connection_get_by_id (cb_aead st) (cb_key st) (ls_tenant_id ls) (ls_connection_id ls) w2 = (Inr c, w3)"
    and exch: "exchange_code (cb_net st) (tc_config c) code (callback_uri (cb_public_base_url st) ct) (ls_code_verifier ls) w3 = (Inr tr, w4)"
    and idt: "check_id_token st ct (tc_config c) ls tr w4 = (Inr (), w5)" and info: "fetch_userinfo (cb_net st) (tc_config c) tr w5 = (Inr info, w6)"
    and prov: "provision (cb_provisioner st) (ls_tenant_id ls) (userinfo_schema info) info w6 = (Inr x, w7)"
    and red: "build_session_redirect st sid x ct (ls_return_to ls) w7 = (Inr r, u')"
    by (rule handle_oauth_callback_Inr [OF run]) blast
  have ls: "ls = \<lparr>ls_state_token = tok, ls_tenant_id = t, ls_connection_id = cid, ls_connection_type = ''oidc'',
        ls_return_to = ret_to, ls_code_verifier = Some verifier, ls_nonce = Some nonce, ls_created_at = pg_now w, ls_expires_at = pg_now w + fd_request_ttl fd\<rparr>"
    and soon: "pg_now u < ls_expires_at ls"
    using login_state_get_Inr [OF get] new between by auto
  have now4: "pg_now w4 = pg_now u"
    using login_state_get_Inr [OF get] login_state_delete_Inr [OF del] connection_get_by_id_Inr [OF conn] upstream_run [OF upstream_pg(1) exch] by simp
  have oidc: "ct = ''oidc''" using ct ls by simp
  have accepted: "\<exists>config id_token. id_token_accepted st (pg_now u) config id_token nonce"
    using check_id_token_Inr [of st "tc_config c" ls tr w4 "()" w5 nonce] idt ls now4 oidc by auto
  obtain req client_id secret where req: "Send req \<in> set (nw_log w4)" and form: "nq_form req = exchange_form code (callback_uri (cb_public_base_url st) ct) client_id secret (Some verifier)"
    using exchange_code_Inr [OF exch] ls by auto
  have sent: "Send req \<in> set (nw_log u')"
    using keepsD [OF session_redirect_log keepsD [OF log_provision [where P = "\<lambda>l. Send req \<in> set l"] keepsD [OF log_grows(1) keepsD [OF log_grows(2) req idt] info] prov] red] .
  have "\<exists>before. url = before @ ''&code_challenge='' @ hrd_urlencode (fd_hrd fd) (compute_code_challenge fd verifier)
         @ ''&code_challenge_method=S256&nonce='' @ hrd_urlencode (fd_hrd fd) nonce"
    using url by (auto simp: build_oidc_authorization_url_def authorization_query_def Let_def split: sum.splits)
  then show ?thesis using oidc build_session_redirect_Inr [OF red] ls soon sent form accepted
    by (auto simp: login_reply_def exchange_form_def)
qed

section \<open>Witnesses\<close>

text \<open>An ID token is its nonce.\<close>

definition sample_jwt :: jwt_lib where
  "sample_jwt = \<lparr>jl_header = (\<lambda>_. Some \<lparr>jh_alg = ''RS256'', jh_kid = None\<rparr>), jl_keys = (\<lambda>_. Some [\<lparr>jk_kid = None, jk_material = ''k''\<rparr>]),
     jl_key_of_jwk = (\<lambda>k. Some (jk_material k)), jl_leeway = 60,
     jl_decode = (\<lambda>now tok key alg issuer aud. Some \<lparr>ic_nonce = Some tok, ic_iat = Some (unix_timestamp now)\<rparr>)\<rparr>"

definition login_callback :: "crypto \<Rightarrow> (string list, login_net) callback_state" where
  "login_callback c = \<lparr>cb_net = sample_net, cb_jwt = sample_jwt, cb_aead = sample_aead, cb_key = hrd_key sample_hrd, cb_provisioner = mail_provisioner,
     cb_saml = Some login_federation, cb_crypto = c, cb_session_signer = \<lparr>sts_signer = ''k'', sts_ttl_seconds = 60, sts_issuer = ''iss''\<rparr>,
     cb_allowed_return_to_hosts = [''my.site''], cb_tenant_allowed_return_to_hosts = None, cb_public_base_url = ''https://id/'',
     cb_cookie_secure = True, cb_cookie_samesite = ''Lax'', cb_session_ttl_seconds = 60, cb_local_dev_mode = False,
     cb_header_ok = (\<lambda>_. True), cb_header_error = []\<rparr>"

abbreviation "start_login \<equiv> initiate_oidc_login login_federation ''ver'' ''n'' consent_ctx ''con'' ''https://my.site''"

lemma sample_start: "\<exists>url tok v. start_login login_world = (Inr (url, tok), v)"
proof -
  have "\<not> isl (fst (start_login login_world))" by code_simp
  then show ?thesis using run_of by fastforce
qed

definition started_login :: "string \<times> login_net" where
  "started_login = (case start_login login_world of (Inr (url, tok), v) \<Rightarrow> (tok, v) | (Inl e, v) \<Rightarrow> ([], v))"

abbreviation "finish_login c \<equiv> handle_oauth_callback (login_callback c) ''sid'' ''cd'' (fst started_login) ''oidc''"

lemma sample_finish: "\<exists>r v. finish_login identity_crypto (snd started_login) = (Inr r, v)"
proof -
  have "\<not> isl (fst (finish_login identity_crypto (snd started_login)))" by code_simp
  then show ?thesis by (rule run_of)
qed

text \<open>The cryptography of a session does not decide whether a callback succeeds.\<close>

lemma session_redirect_succeeds:
  assumes "\<And>s. cb_header_ok st s" and "\<And>q. pg_fault w q = None"
  shows "\<exists>r v. build_session_redirect st sid x amr ret_to w = (Inr r, v)"
  using assms by (auto simp: build_session_redirect_def session_create_def session_create_stmt_def bindE_def map_err_def now_utc_def ret_def
      gets_def pg_exec_def Let_def split: prod.splits if_splits)

lemma check_id_token_crypto: "check_id_token (st\<lparr>cb_crypto := c\<rparr>) ct config ls tr = check_id_token st ct config ls tr"
  by (simp add: check_id_token_def validate_id_token_def cong: option.case_cong)

lemma callback_any_crypto:
  assumes run: "handle_oauth_callback st sid code tok ct w = (Inr r, v)" and ok: "\<And>s. cb_header_ok st s" and quiet: "\<And>q. pg_fault w q = None"
  shows "\<exists>r v. handle_oauth_callback (st\<lparr>cb_crypto := c\<rparr>) sid code tok ct w = (Inr r, v)"
proof -
  obtain ls w1 w2 con w3 tr w4 w5 info w6 x w7 where get: "login_state_get tok w = (Inr ls, w1)" and ct: "ls_connection_type ls = ct"
    and del: "login_state_delete tok w1 = (Inr (), w2)" and ret: "check_return_to st (ls_return_to ls) = Inr ()"
    and conn: "connection_get_by_id (cb_aead st) (cb_key st) (ls_tenant_id ls) (ls_connection_id ls) w2 = (Inr con, w3)"
    and exch: "exchange_code (cb_net st) (tc_config con) code (callback_uri (cb_public_base_url st) ct) (ls_code_verifier ls) w3 = (Inr tr, w4)"
    and idt: "check_id_token st ct (tc_config con) ls tr w4 = (Inr (), w5)" and info: "fetch_userinfo (cb_net st) (tc_config con) tr w5 = (Inr info, w6)"
    and prov: "provision (cb_provisioner st) (ls_tenant_id ls) (userinfo_schema info) info w6 = (Inr x, w7)"
    by (rule handle_oauth_callback_Inr [OF run])
  have "pg_fault w7 = pg_fault w"
    using login_parts_fault [OF get del conn] upstream_run [OF upstream_pg(1) exch] upstream_run [OF check_id_token_pg idt]
      upstream_run [OF upstream_pg(2) info] provision_login_states [OF prov] by simp
  then obtain r' v' where "build_session_redirect (st\<lparr>cb_crypto := c\<rparr>) sid x ct (ls_return_to ls) w7 = (Inr r', v')"
    using session_redirect_succeeds [of "st\<lparr>cb_crypto := c\<rparr>" w7 sid x ct "ls_return_to ls"] ok quiet by auto
  then show ?thesis
    using get ct del ret conn exch idt info prov
    by (simp add: handle_oauth_callback_def bindE_def map_err_def lift_result_def guard_err_def ret_def check_return_to_def
        check_id_token_crypto provision_identity_def userinfo_schema_def Let_def)
qed

lemma sample_quiet: "pg_fault (snd started_login) = (\<lambda>_. None)"
  by (rule ext) code_simp

lemma sample_finish_unary: "\<exists>r v. finish_login unary_crypto (snd started_login) = (Inr r, v)"
proof -
  obtain r v where run: "finish_login identity_crypto (snd started_login) = (Inr r, v)" using sample_finish by blast
  have "login_callback unary_crypto = (login_callback identity_crypto)\<lparr>cb_crypto := unary_crypto\<rparr>"
    and "cb_header_ok (login_callback identity_crypto) = (\<lambda>_. True)" by (simp_all add: login_callback_def)
  with callback_any_crypto [OF run, of unary_crypto] show ?thesis by (simp add: sample_quiet)
qed

theorem oauth_login_sound_witness:
  "\<exists>r v i. finish_login identity_crypto (snd started_login) = (Inr r, v)
     \<and> r = login_reply (login_callback identity_crypto) 0 ''sid'' i ''T'' ''oidc'' ''https://my.site''
     \<and> fst started_login \<notin> ls_state_token ` set (login_states (pg_db v))"
proof -
  obtain r v where run: "finish_login identity_crypto (snd started_login) = (Inr r, v)" using sample_finish by blast
  have states: "map ls_tenant_id (login_states (pg_db (snd started_login))) = [''T'']" "map ls_return_to (login_states (pg_db (snd started_login))) = [''https://my.site'']"
    and now: "pg_now (snd started_login) = 0" by code_simp+
  obtain ls i where ls: "ls \<in> set (login_states (pg_db (snd started_login)))"
    and r: "r = login_reply (login_callback identity_crypto) 0 ''sid'' i (ls_tenant_id ls) ''oidc'' (ls_return_to ls)"
    and gone: "fst started_login \<notin> ls_state_token ` set (login_states (pg_db v))"
    using oauth_login_sound [OF run] now by auto
  have "ls_tenant_id ls = ''T''" "ls_return_to ls = ''https://my.site''" using ls states by auto
  with r have "r = login_reply (login_callback identity_crypto) 0 ''sid'' i ''T'' ''oidc'' ''https://my.site''" by simp
  with run gone show ?thesis by blast
qed


theorem oidc_login_round_trip_witness:
  "\<exists>url v r u. start_login login_world = (Inr (url, fst started_login), v) \<and> finish_login identity_crypto v = (Inr r, u)
     \<and> cr_location r = Some ''https://my.site''
     \<and> (\<exists>req. Send req \<in> set (nw_log u) \<and> (''code'', ''cd'') \<in> set (nq_form req) \<and> (''code_verifier'', ''ver'') \<in> set (nq_form req))"
proof -
  obtain url tok v where start: "start_login login_world = (Inr (url, tok), v)" using sample_start by blast
  have eq: "tok = fst started_login" "v = snd started_login" unfolding started_login_def start by simp_all
  obtain r u where run: "finish_login identity_crypto v = (Inr r, u)" using sample_finish eq by blast
  from oidc_login_round_trip [OF start refl run [folded eq(1)]] start run show ?thesis unfolding eq(1) by blast
qed

text \<open>The middleware over the same database.\<close>

definition login_deps :: "login_net auth_deps" where
  "login_deps = \<lparr>d_crypto = unary_crypto, d_now = pg_now, d_ulid_ok = (\<lambda>_. True), d_introspect = (\<lambda>_. raise MissingToken),
     d_get_tenant = get_tenant_id_by_ory_id, d_get_public = get_public_id_by_ory_id,
     d_session_signer = cb_session_signer (login_callback unary_crypto), d_is_active = session_is_active unary_crypto,
     d_get_application = None, d_agent_resolver = None, d_paths = None\<rparr>"


end
