(* ===== verification/Spec2Isabelle.thy ===== *)
theory Spec2Isabelle
  imports RateLimit AgentService DcrMaintenance DeviceService TenantService UpstreamCallback
begin

text \<open>
  \<^bold>\<open>The program.\<close> The SSO gateway (\<^verbatim>\<open>src/crates/sso-gateway\<close>) is a multi-tenant identity gateway in front of
  Ory Hydra (OAuth2), Ory Kratos (identities) and OpenFGA (permissions). Its state is in
  PostgreSQL; a replica keeps two caches and a rate limiter in memory. A request passes the
  middleware (rate limit, authentication, target tenant, audit), reaches an RPC of a service or an
  HTTP handler, and the service works on the stores and on the clients of the backends
  (\<^verbatim>\<open>sso-ory-client\<close>, \<^verbatim>\<open>sso-openfga-client\<close>). The development models the program bottom-up, one theory per part.

  \<^bold>\<open>Foundations.\<close>
  \<^item> \<^verbatim>\<open>Prelude\<close>: computations with a state and an error, sequencing as \<^verbatim>\<open>?\<close> does it, preservation of a state
    predicate, strings as bytes with UTF-8, decimal numbers, unique keys of rows.
  \<^item> \<^verbatim>\<open>Database\<close>: JSON, the error types (\<^verbatim>\<open>db/error.rs\<close>, \<^verbatim>\<open>ServiceError\<close>, the Ory client errors), the rows of every table
    used, the database, and the connection to it.
  \<^item> \<^verbatim>\<open>Paging\<close>: keyset pages and page tokens of the list RPCs.

  \<^bold>\<open>Stores.\<close> Each statement of \<^verbatim>\<open>db/*.rs\<close> is a function of the clock and the database, with the constraints of the
  schema as its error branches; the methods run statements over the connection.
  \<^item> \<^verbatim>\<open>IdMappings\<close> (\<^verbatim>\<open>id_mapping.rs\<close>), \<^verbatim>\<open>TenantStores\<close> (\<^verbatim>\<open>tenant.rs\<close>, \<^verbatim>\<open>application.rs\<close>, bootstrap), \<^verbatim>\<open>BrowserSessions\<close> (\<^verbatim>\<open>cookie_signer.rs\<close>,
    \<^verbatim>\<open>session_token.rs\<close>, \<^verbatim>\<open>session_store.rs\<close>, \<^verbatim>\<open>login_state.rs\<close>), \<^verbatim>\<open>AgentStores\<close> (agents, delegations, act-tokens, memberships),
    \<^verbatim>\<open>TransientTokens\<close>, \<^verbatim>\<open>SamlStores\<close>, \<^verbatim>\<open>SamlIdpStores\<close> (links and name ids of users, keys and clients of the identity provider),
    \<^verbatim>\<open>IdentityStores\<close> (identity schemas, SCIM groups), \<^verbatim>\<open>PermissionStores\<close>, and the stores of \<^verbatim>\<open>HomeRealm\<close>.

  \<^bold>\<open>Requests.\<close>
  \<^item> \<^verbatim>\<open>Auth\<close> (\<^verbatim>\<open>auth.rs\<close>, \<^verbatim>\<open>token_cache.rs\<close>): introspection, its cache, resolution of subjects, contexts and guards.
  \<^item> \<^verbatim>\<open>SelfServicePaths\<close> (\<^verbatim>\<open>config.rs\<close>, \<^verbatim>\<open>self_service_url_rewriter.rs\<close>): branded paths and the rewriting of URLs.
  \<^item> \<^verbatim>\<open>Middleware\<close> (\<^verbatim>\<open>middleware.rs\<close>, the layers of \<^verbatim>\<open>app.rs\<close>) and \<^verbatim>\<open>RateLimit\<close>.
  \<^item> \<^verbatim>\<open>HomeRealm\<close> (\<^verbatim>\<open>hrd.rs\<close>, \<^verbatim>\<open>connection.rs\<close>, \<^verbatim>\<open>domain.rs\<close>, \<^verbatim>\<open>local_auth.rs\<close>, \<^verbatim>\<open>crypto.rs\<close>): from an email to the tenant's login.

  \<^bold>\<open>Agents.\<close> \<^verbatim>\<open>AgentTokens\<close> (\<^verbatim>\<open>agent_tokens.rs\<close>): minting and resolving act-tokens, the caches and their invalidation.
  \<^verbatim>\<open>AgentService\<close> (\<^verbatim>\<open>services/agent.rs\<close>): every RPC of the agent service.

  \<^bold>\<open>Permissions.\<close>
  \<^item> \<^verbatim>\<open>FgaClient\<close> (\<^verbatim>\<open>sso-openfga-client\<close>): the requests of the OpenFGA client, and what OpenFGA documents, as laws.
  \<^item> \<^verbatim>\<open>PermissionBackend\<close>, \<^verbatim>\<open>OpenFga\<close>, \<^verbatim>\<open>PermissionService\<close> (\<^verbatim>\<open>services/permission.rs\<close>): namespace repositories, the OpenFGA
    backend, the RPCs.
  \<^item> \<^verbatim>\<open>Entitlements\<close> (\<^verbatim>\<open>entitlement.rs\<close>, \<^verbatim>\<open>client_entitlement.rs\<close>): who may use which application.

  \<^bold>\<open>Tenants and identities.\<close>
  \<^item> \<^verbatim>\<open>TenantService\<close> (\<^verbatim>\<open>services/tenant.rs\<close>): creating and reading tenants.
  \<^item> \<^verbatim>\<open>IdentityTraits\<close>, \<^verbatim>\<open>IdentityService\<close> (\<^verbatim>\<open>services/identity.rs\<close>): traits and their validation against the schema of the tenant,
    and every RPC on identities, schemas, flows, sessions, recovery links and verification messages.

  \<^bold>\<open>Federated login.\<close> From the identity provider of a tenant to a session of the gateway.
  \<^item> \<^verbatim>\<open>Provisioning\<close> (\<^verbatim>\<open>identity_provisioner.rs\<close>): the identity of a federated login.
  \<^item> \<^verbatim>\<open>UpstreamOAuth\<close> (\<^verbatim>\<open>upstream_oauth.rs\<close>, \<^verbatim>\<open>jwks.rs\<close>): which URLs and addresses the gateway contacts, the exchange of a code, the
    userinfo, and the cache of key sets. The world has the log of everything asked of the network.
  \<^item> \<^verbatim>\<open>Federation\<close> (\<^verbatim>\<open>services/federation.rs\<close>): the start of OpenID, OAuth2 and SAML logins, SAML responses and metadata.
  \<^item> \<^verbatim>\<open>UpstreamCallback\<close> (\<^verbatim>\<open>services/handlers/callback.rs\<close>): the end of a login, its return address, session and cookie.

  \<^bold>\<open>OAuth2.\<close> The services that stand between the gateway and Hydra.
  \<^item> \<^verbatim>\<open>OryWorld\<close>: the world with Hydra and Kratos, and the reasoning about long handlers.
  \<^item> \<^verbatim>\<open>ConsentMapper\<close>, \<^verbatim>\<open>Consent\<close> (\<^verbatim>\<open>oauth2_consent_mapper.rs\<close>, \<^verbatim>\<open>oauth2_consent.rs\<close>): consent and logout challenges, the gate of
    entitlements and the first use of a client, the claims of the id token.
  \<^item> \<^verbatim>\<open>Applications\<close> (\<^verbatim>\<open>services/application.rs\<close>, \<^verbatim>\<open>services/client_credential.rs\<close>): OAuth2 clients of a tenant.
  \<^item> \<^verbatim>\<open>OAuth2Handlers\<close> (\<^verbatim>\<open>services/handlers/oauth2.rs\<close>): the public endpoints, dynamic registration, introspection, the
    translation of client ids and the exceptions for Matrix clients.
  \<^item> \<^verbatim>\<open>DeviceService\<close> (\<^verbatim>\<open>services/oauth2_device.rs\<close>): the device flow and the aliases of its challenges.
  \<^item> \<^verbatim>\<open>DcrMaintenance\<close> (\<^verbatim>\<open>services/dcr_maintenance.rs\<close>): the backfill and the collection of registrations.

  \<^bold>\<open>How the model reads.\<close> A computation takes the world and gives a result or an error and the new world. The world is
  the record \<^verbatim>\<open>pg\<close>, extended by what a part needs (caches, Hydra, OpenFGA). The connection has an oracle of faults:
  at any query the request or the answer may be lost, in the second case after the statement took
  effect. One reading of the clock serves one operation and the \<^verbatim>\<open>NOW()\<close> of its statements; ULIDs come from a
  supply; a query without \<^verbatim>\<open>ORDER BY\<close> sees the rows in an order the world chooses; a transaction is one statement.
  Strings are lists of bytes. Code outside the repository is a parameter with named laws: hash
  and signature functions, Base64, AES-GCM, the URL library, the JWT and SAML libraries, the network, the cache
  library moka, NATS, Hydra, Kratos, OpenFGA, the iteration order of hash maps, random values. A Protobuf \<^verbatim>\<open>Struct\<close> is the JSON made of it.

  \<^bold>\<open>Loops.\<close> Recursion follows the data wherever the code iterates; the blocks of a certificate file are read from ever
  shorter texts (\<open>split_certificate_pem_blocks\<close>). Four loops have no bound in the code and take fuel:
  following page tokens (\<open>walk_pages\<close>, \<open>walk_agents\<close>: one step more than rows suffices), rewriting nested URLs
  (\<open>rewrite_browser_url\<close>: the nesting depth suffices), and following continuation tokens of OpenFGA (\<open>read_loop\<close>,
  \<open>find_store_loop\<close>: one step per hundred tuples suffices). The theorems show that this much is enough.

  \<^bold>\<open>Interfaces.\<close> Where a trait of the code has two implementations, its contract is a locale, interpreted for both: the mapping
  store, the application store and the namespace repository, each in PostgreSQL and in memory.

  \<^bold>\<open>What is shown.\<close> Invariants of the tables under every sequence of calls with faults anywhere; that authentication mediates
  every handler and rejects for the right reasons; that revocation is final on a replica and how
  stale another replica can be; that tenants stay apart in mappings, permissions and stores; that
  checks, grants, groups and scope ceilings mean what the tuples say; what a consent hands out and to
  whom; that a federated login was asked for, ends where it began, opens a session that works and cannot be
  replayed, and what it asks of the network; who may introspect, register and delete clients and what that leaves behind; what the
  collector deletes; round trips of tokens, secrets and applications; completeness and termination of paged reads; and, as theorems, the places where the
  code does not do what its comments say (the list of findings names them).

  \<^bold>\<open>Not modelled.\<close> The endpoints of the gateway as a SAML identity provider (\<^verbatim>\<open>handlers/saml.rs\<close>, \<^verbatim>\<open>handlers/saml_idp.rs\<close>), whose
  messages are made and read in a third-party library; the self-service proxy and its mapper beyond
  the rewriting of URLs, and SCIM as a service, which translate documents of other systems; the HTTP
  clients of Ory, whose servers are parameters here, and the Keto backend behind its feature flag;
  domain verification, which nothing calls; process start, generated code and test support, which hold
  no logic of their own. Redirects that an HTTP client follows are part of the network. Durations that
  a deployment configures are assumed not to overflow the clock.
\<close>

end
